(* ===== verification/Prelude.thy ===== *)
theory Prelude
  imports Main "HOL-Library.Word"
begin

text \<open>
  Shared vocabulary of the development: the machine integers of \<open>DSystem/include/DTypes.h\<close>,
  the exceptions of \<open>DSystem/include/DExceptions.h\<close>, a state-and-exception monad for code
  that mutates an object and may throw, byte and bit sequences, and the generic list and
  word lemmas the components use. Nothing here is specific to one component.
\<close>

unbundle bit_operations_syntax

named_theorems stream_simps \<open>abstraction equations of the memory streams\<close>

section \<open>Machine integers\<close>

text \<open>
  The typedefs of \<open>DTypes.h\<close>. The target is LP64, so \<open>size_t\<close> is 64 bits wide; \<open>int\<close>
  counters that stay tiny are \<^typ>\<open>int\<close> or \<^typ>\<open>nat\<close>, and that is said where it is done.
\<close>

type_synonym U8 = "8 word"
type_synonym U16 = "16 word"
type_synonym U32 = "32 word"
type_synonym U64 = "64 word"
type_synonym size_t = "64 word"
type_synonym bytes = "8 word list"

section \<open>Exceptions and results\<close>

text \<open>
  The exceptions the code throws, each with its message (the file and line prefix that
  \<open>DEX_MakeString\<close> adds is dropped); \<open>RI_Exception\<close> is the class of
  \<open>RI_System/include/RI_Exceptions.h\<close>. \<open>Undefined_behaviour\<close> is not an exception of the
  program: it marks the executions for which C++ gives no meaning, such as a copy that
  runs past its source, so that the model never invents a value for them. \<open>Not_modelled\<close>
  marks the executions that leave the number model, where a float becomes infinite or NaN
  and the model computes with exact reals.
\<close>

datatype exn =
    Runtime_error string
  | Out_of_range string
  | Bad_alloc
  | AssThrow string
  | RI_Exception string
  | Undefined_behaviour string
  | Not_modelled string

type_synonym 'a res = "exn + 'a"

text \<open>
  Code that mutates an object and may throw: the mutations made before a throw stay, so
  the state is returned in either case.
\<close>

type_synonym ('s, 'a) stx = "'s \<Rightarrow> 'a res \<times> 's"

definition stx_return :: "'a \<Rightarrow> ('s, 'a) stx" where
  "stx_return a = (\<lambda>s. (Inr a, s))"

definition stx_throw :: "exn \<Rightarrow> ('s, 'a) stx" where
  "stx_throw e = (\<lambda>s. (Inl e, s))"

definition stx_bind :: "('s, 'a) stx \<Rightarrow> ('a \<Rightarrow> ('s, 'b) stx) \<Rightarrow> ('s, 'b) stx" where
  "stx_bind m f = (\<lambda>s. case m s of (Inl e, s') \<Rightarrow> (Inl e, s') | (Inr a, s') \<Rightarrow> f a s')"

fun res_bind :: "'a res \<Rightarrow> ('a \<Rightarrow> 'b res) \<Rightarrow> 'b res" where
  "res_bind (Inl e) f = Inl e"
| "res_bind (Inr a) f = f a"

lemma stx_bind_Inr [simp]: "m s = (Inr a, s') \<Longrightarrow> stx_bind m f s = f a s'"
  by (simp add: stx_bind_def)

lemma stx_bind_Inl [simp]: "m s = (Inl e, s') \<Longrightarrow> stx_bind m f s = (Inl e, s')"
  by (simp add: stx_bind_def)

lemma stx_return_apply [simp]: "stx_return a s = (Inr a, s)"
  by (simp add: stx_return_def)

lemma stx_throw_apply [simp]: "stx_throw e s = (Inl e, s)"
  by (simp add: stx_throw_def)

lemma stx_bind_eq_InrE:
  assumes "stx_bind m f s = (Inr b, s')"
  obtains a t where "m s = (Inr a, t)" and "f a t = (Inr b, s')"
  using assms by (auto simp: stx_bind_def split: prod.splits sum.splits)

lemma res_bind_eq_Inr: "res_bind m f = Inr b \<longleftrightarrow> (\<exists>a. m = Inr a \<and> f a = Inr b)"
  by (cases m) auto

lemma res_bind_eq_Inl:
  "res_bind m f = Inl e \<longleftrightarrow> m = Inl e \<or> (\<exists>a. m = Inr a \<and> f a = Inl e)"
  by (cases m) auto

section \<open>Bit sequences, most significant bit first\<close>

definition msb_bits :: "nat \<Rightarrow> 'a::len word \<Rightarrow> bool list" where
  "msb_bits n w = map (bit w) (rev [0..<n])"

lemma length_msb_bits [simp]: "length (msb_bits n w) = n"
  by (simp add: msb_bits_def)

lemma msb_bits_0 [simp]: "msb_bits 0 w = []"
  by (simp add: msb_bits_def)

lemma msb_bits_add: "msb_bits (m + n) w = msb_bits m (drop_bit n w) @ msb_bits n w"
proof -
  have "[0..<m + n] = [0..<n] @ map (\<lambda>i. i + n) [0..<m]"
    by (metis add.commute le_add1 map_add_upt upt_add_eq_append zero_le)
  then show ?thesis
    by (simp add: msb_bits_def rev_map bit_simps o_def add.commute)
qed

lemma msb_bits_split: "n \<le> k \<Longrightarrow> msb_bits k w = msb_bits (k - n) (drop_bit n w) @ msb_bits n w"
  using msb_bits_add [of "k - n" n w] by simp

lemma msb_bits_cong:
  "(\<And>i. i < n \<Longrightarrow> bit v i = bit w i) \<Longrightarrow> msb_bits n v = msb_bits n w"
  by (simp add: msb_bits_def)

lemma msb_bits_eq_iff: "msb_bits n v = msb_bits n w \<longleftrightarrow> (\<forall>i<n. bit v i = bit w i)"
  by (auto simp: msb_bits_def)

section \<open>Little-endian object representations\<close>

text \<open>
  \<open>memcpy\<close> of an unsigned integer copies its object representation. The sources are built
  for x86 (\<open>DMathBase.h\<close> includes the SSE intrinsics), so the representation is
  little-endian.
\<close>

fun le_bytes :: "nat \<Rightarrow> nat \<Rightarrow> bytes" where
  "le_bytes 0 n = []"
| "le_bytes (Suc k) n = of_nat (n mod 256) # le_bytes k (n div 256)"

fun le_nat :: "bytes \<Rightarrow> nat" where
  "le_nat [] = 0"
| "le_nat (b # bs) = unat b + 256 * le_nat bs"

lemma length_le_bytes [simp]: "length (le_bytes k n) = k"
  by (induction k arbitrary: n) auto

lemma le_bytes_2: "le_bytes 2 n = [of_nat (n mod 256), of_nat (n div 256 mod 256)]"
  by (simp add: numeral_2_eq_2)

lemma le_bytes_4:
  "le_bytes 4 n = [of_nat (n mod 256), of_nat (n div 256 mod 256), of_nat (n div 65536 mod 256),
     of_nat (n div 16777216 mod 256)]"
proof -
  have four: "4 = Suc (Suc (Suc (Suc 0)))" by simp
  show ?thesis
    by (simp only: four le_bytes.simps) (simp add: div_mult2_eq [symmetric])
qed

lemma unat_of_nat_byte [simp]: "unat (of_nat (n mod 256) :: U8) = n mod 256"
  by (simp add: unat_of_nat)

lemma byte_bound: "unat (b :: U8) < 256"
  using unsigned_less [of b] by simp

lemma le_nat_le_bytes: "le_nat (le_bytes k n) = n mod 256 ^ k"
proof (induction k arbitrary: n)
  case 0
  then show ?case by simp
next
  case (Suc k)
  have "n mod 256 + 256 * (n div 256 mod 256 ^ k) = n mod (256 * 256 ^ k)"
    by (simp add: mod_mult2_eq)
  then show ?case by (simp add: Suc.IH)
qed

lemma le_nat_bound: "le_nat bs < 256 ^ length bs"
proof (induction bs)
  case Nil
  then show ?case by simp
next
  case (Cons b bs)
  have "unat b < 256" by (rule byte_bound)
  with Cons show ?case by simp
qed

lemma le_bytes_le_nat: "length bs = k \<Longrightarrow> le_bytes k (le_nat bs) = bs"
proof (induction bs arbitrary: k)
  case Nil
  then show ?case by simp
next
  case (Cons b bs)
  have "unat b < 256" by (rule byte_bound)
  with Cons show ?case by auto
qed

lemma le_nat_append: "le_nat (xs @ ys) = le_nat xs + 256 ^ length xs * le_nat ys"
  by (induction xs) (auto simp: algebra_simps)

lemma le_bytes_zero: "le_bytes k 0 = replicate k 0"
  by (induction k) auto

lemma le_nat_zeros: "le_nat (replicate k 0) = 0"
  by (induction k) auto

section \<open>Lists and sizes\<close>

lemma take_min_length [simp]: "take (min (length xs) k) xs = take k xs"
  by (simp add: min_def)

lemma unat_of_nat_size: "n < 2 ^ 64 \<Longrightarrow> unat (of_nat n :: size_t) = n"
  by (simp add: unat_of_nat)

lemma unat_add_size:
  fixes a b :: size_t
  assumes "unat a + unat b < 2 ^ 64"
  shows "unat (a + b) = unat a + unat b"
  using assms by (simp add: unat_word_ariths)

lemma take_Suc_nth: "i < length xs \<Longrightarrow> take (Suc i) xs = take i xs @ [xs ! i]"
  by (rule take_Suc_conv_app_nth)

lemma drop_take_append: "i \<le> j \<Longrightarrow> take (j - i) (drop i xs) @ drop j xs = drop i xs"
  by (metis append_take_drop_id drop_drop le_add_diff_inverse2)

end
