(* ===== verification/MemFile.thy ===== *)
theory MemFile
  imports Prelude
begin

text \<open>
  The in-memory streams of \<open>DSystem/include/DUtils_MemFile.h\<close> and
  \<open>DSystem/src/DUtils_MemFile.cpp\<close>: \<open>MemWriter\<close>, \<open>MemWriterDynamic\<close> (bytes, bit fields,
  length-prefixed strings), \<open>MemReader\<close> (its inverse, with bounds checks done in
  \<open>size_t\<close> arithmetic) and \<open>MemFile\<close>. A pointer together with the memory it points to is
  the byte list of that memory; positions keep the source's 64-bit \<open>size_t\<close>, because the
  bounds checks wrap around. \<open>DASSERT\<close> is empty in the release build and is not modelled
  as a check; an access outside the memory is \<^const>\<open>Undefined_behaviour\<close>.
\<close>

section \<open>MemWriter: a fixed buffer\<close>

record MemWriter =
  mw_mpDest :: bytes
  mw_mIdx :: size_t
  mw_mMaxSize :: size_t

definition MemWriter_init :: "bytes \<Rightarrow> size_t \<Rightarrow> MemWriter" where
  "MemWriter_init pDest maxSize = \<lparr>mw_mpDest = pDest, mw_mIdx = 0, mw_mMaxSize = maxSize\<rparr>"

definition overwrite :: "'a list \<Rightarrow> nat \<Rightarrow> 'a list \<Rightarrow> 'a list" where
  "overwrite xs i ys = take i xs @ ys @ drop (i + length ys) xs"

text \<open>\<open>WriteValue\<close> stores the object representation \<open>from\<close> at the current index.\<close>

definition MemWriter_WriteValue :: "bytes \<Rightarrow> (MemWriter, unit) stx" where
  "MemWriter_WriteValue from w =
     (if unat (mw_mIdx w) + length from \<le> length (mw_mpDest w)
      then (Inr (), w\<lparr>mw_mpDest := overwrite (mw_mpDest w) (unat (mw_mIdx w)) from,
                      mw_mIdx := mw_mIdx w + of_nat (length from)\<rparr>)
      else (Inl (Undefined_behaviour ''MemWriter::WriteValue''), w))"

fun MemWriter_WriteArray :: "bytes list \<Rightarrow> (MemWriter, unit) stx" where
  "MemWriter_WriteArray [] w = (Inr (), w)"
| "MemWriter_WriteArray (x # xs) w =
     stx_bind (MemWriter_WriteValue x) (\<lambda>_. MemWriter_WriteArray xs) w"

text \<open>\<open>Grow\<close> returns the offset of the reserved block (the pointer \<open>mpDest + mIdx\<close>).\<close>

definition MemWriter_Grow :: "size_t \<Rightarrow> MemWriter \<Rightarrow> size_t \<times> MemWriter" where
  "MemWriter_Grow cnt w = (mw_mIdx w, w\<lparr>mw_mIdx := mw_mIdx w + cnt\<rparr>)"

definition MemWriter_GetCurSize :: "MemWriter \<Rightarrow> size_t" where
  "MemWriter_GetCurSize w = mw_mIdx w"

section \<open>MemWriterDynamic\<close>

text \<open>\<open>mBitsCnt\<close> is an \<open>int\<close> that stays in \<open>0..23\<close>; it is a \<^typ>\<open>nat\<close> here.\<close>

record MemWriterDynamic =
  wd_mDest :: bytes
  wd_mBits :: U32
  wd_mBitsCnt :: nat

definition MemWriterDynamic_init :: MemWriterDynamic where
  "MemWriterDynamic_init = \<lparr>wd_mDest = [], wd_mBits = 0, wd_mBitsCnt = 0\<rparr>"

definition MemWriterDynamic_Resize :: "nat \<Rightarrow> (MemWriterDynamic, unit) stx" where
  "MemWriterDynamic_Resize siz w =
     (if siz \<le> length (wd_mDest w)
      then (Inr (), w\<lparr>wd_mBits := 0, wd_mBitsCnt := 0, wd_mDest := take siz (wd_mDest w)\<rparr>)
      else (Inl (AssThrow ''MemWriteDynamic::Resize() can only shorten''), w))"

definition WriteValue :: "bytes \<Rightarrow> MemWriterDynamic \<Rightarrow> MemWriterDynamic" where
  "WriteValue from w = w\<lparr>wd_mDest := wd_mDest w @ from\<rparr>"

definition WriteArray :: "bytes list \<Rightarrow> MemWriterDynamic \<Rightarrow> MemWriterDynamic" where
  "WriteArray pFrom w =
     (if pFrom = [] then w else w\<lparr>wd_mDest := wd_mDest w @ concat pFrom\<rparr>)"

text \<open>The loop of \<open>WriteBits\<close> that writes out the topmost eight bits while it can.\<close>

function WriteBits_loop :: "MemWriterDynamic \<Rightarrow> MemWriterDynamic" where
  "WriteBits_loop w =
     (if 8 \<le> wd_mBitsCnt w
      then WriteBits_loop
             ((WriteValue [ucast (drop_bit (wd_mBitsCnt w - 8) (wd_mBits w))] w)
                \<lparr>wd_mBitsCnt := wd_mBitsCnt w - 8\<rparr>)
      else w)"
  by pat_completeness auto
termination
  by (relation "measure wd_mBitsCnt") auto

declare WriteBits_loop.simps [simp del]

text \<open>The contract of \<open>WriteBits\<close> is \<open>DASSERT( cnt <= 16 )\<close>.\<close>

definition WriteBits :: "U16 \<Rightarrow> nat \<Rightarrow> MemWriterDynamic \<Rightarrow> MemWriterDynamic" where
  "WriteBits bits cnt w =
     WriteBits_loop
       (w\<lparr>wd_mBits := push_bit cnt (wd_mBits w) OR (ucast bits AND mask cnt),
          wd_mBitsCnt := wd_mBitsCnt w + cnt\<rparr>)"

definition WriteBitsEnd :: "MemWriterDynamic \<Rightarrow> MemWriterDynamic" where
  "WriteBitsEnd w =
     (if wd_mBitsCnt w \<noteq> 0 then WriteBits 0 (8 - wd_mBitsCnt w) w else w)"

definition WriteString :: "bytes \<Rightarrow> MemWriterDynamic \<Rightarrow> MemWriterDynamic" where
  "WriteString str w = WriteArray (map (\<lambda>c. [c]) str) w"

definition WritePStr16 :: "bytes \<Rightarrow> (MemWriterDynamic, unit) stx" where
  "WritePStr16 str w =
     (if 2 ^ 16 \<le> length str then (Inl (Out_of_range ''String too large''), w)
      else let w1 = WriteValue (le_bytes 2 (length str)) w
           in (Inr (), if length str \<noteq> 0 then WriteArray (map (\<lambda>c. [c]) str) w1 else w1))"

text \<open>\<open>Grow\<close>: \<open>Dgrow\<close> appends \<open>cnt\<close> value-initialised bytes; the result is their offset.\<close>

definition MemWriterDynamic_Grow :: "nat \<Rightarrow> MemWriterDynamic \<Rightarrow> nat option \<times> MemWriterDynamic" where
  "MemWriterDynamic_Grow cnt w =
     (if cnt = 0 then (None, w)
      else (Some (length (wd_mDest w)), w\<lparr>wd_mDest := wd_mDest w @ replicate cnt 0\<rparr>))"

definition MemWriterDynamic_Reserve :: "nat \<Rightarrow> MemWriterDynamic \<Rightarrow> MemWriterDynamic" where
  "MemWriterDynamic_Reserve siz w =
     (let oldSiz = length (wd_mDest w);
          d1 = (if siz \<le> oldSiz then take siz (wd_mDest w)
                else wd_mDest w @ replicate (siz - oldSiz) 0);
          d2 = (if oldSiz \<le> length d1 then take oldSiz d1
                else d1 @ replicate (oldSiz - length d1) 0)
      in w\<lparr>wd_mDest := d2\<rparr>)"

section \<open>MemReader\<close>

record MemReader =
  rd_mOwnedData :: bytes
  rd_mpSrc :: bytes
  rd_mIdx :: size_t
  rd_mMaxSize :: size_t
  rd_mBits :: U32
  rd_mBitsCnt :: nat

definition MemReader_empty :: MemReader where
  "MemReader_empty = \<lparr>rd_mOwnedData = [], rd_mpSrc = [], rd_mIdx = 0, rd_mMaxSize = 0,
     rd_mBits = 0, rd_mBitsCnt = 0\<rparr>"

definition MemReader_init :: "bytes \<Rightarrow> size_t \<Rightarrow> MemReader" where
  "MemReader_init pDest maxSize = MemReader_empty\<lparr>rd_mpSrc := pDest, rd_mMaxSize := maxSize\<rparr>"

definition MemReader_of_vec :: "bytes \<Rightarrow> MemReader" where
  "MemReader_of_vec vec = MemReader_init vec (of_nat (length vec))"

text \<open>\<open>InitOwnVec\<close> moves the vector's bytes into the reader and leaves the vector empty.\<close>

definition InitOwnVec :: "bytes \<Rightarrow> MemReader \<Rightarrow> bytes \<times> MemReader" where
  "InitOwnVec vec r =
     ([], r\<lparr>rd_mOwnedData := vec, rd_mpSrc := vec, rd_mMaxSize := of_nat (length vec)\<rparr>)"

definition InitOwnMemWriterDyn :: "MemWriterDynamic \<Rightarrow> MemReader \<Rightarrow> MemWriterDynamic \<times> MemReader" where
  "InitOwnMemWriterDyn mw r =
     (let (d, r') = InitOwnVec (wd_mDest mw) r in (mw\<lparr>wd_mDest := d\<rparr>, r'))"

text \<open>\<open>PeekValue<T>\<close> for a type of \<open>n\<close> bytes, giving the object representation.\<close>

definition PeekValue :: "nat \<Rightarrow> MemReader \<Rightarrow> bytes res" where
  "PeekValue n r =
     (if rd_mIdx r + of_nat n > rd_mMaxSize r then Inl (Out_of_range ''ReadValue'')
      else if unat (rd_mIdx r) + n \<le> length (rd_mpSrc r)
      then Inr (take n (drop (unat (rd_mIdx r)) (rd_mpSrc r)))
      else Inl (Undefined_behaviour ''PeekValue''))"

definition ReadValue :: "nat \<Rightarrow> (MemReader, bytes) stx" where
  "ReadValue n r =
     (case PeekValue n r of
        Inl e \<Rightarrow> (Inl e, r)
      | Inr val \<Rightarrow> (Inr val, r\<lparr>rd_mIdx := rd_mIdx r + of_nat n\<rparr>))"

text \<open>
  \<open>ReadArray<T>\<close> of \<open>cnt\<close> elements of \<open>n\<close> bytes each. The check compares \<open>mIdx + cnt\<close>
  with the size, without the factor \<open>sizeof(T)\<close>; the copy moves \<open>cnt * sizeof(T)\<close> bytes.
\<close>

definition ReadArray :: "nat \<Rightarrow> nat \<Rightarrow> (MemReader, bytes) stx" where
  "ReadArray n cnt r =
     (if rd_mIdx r + of_nat cnt > rd_mMaxSize r then (Inl (AssThrow ''Out of bounds!''), r)
      else if unat (rd_mIdx r) + cnt * n \<le> length (rd_mpSrc r)
      then (Inr (take (cnt * n) (drop (unat (rd_mIdx r)) (rd_mpSrc r))),
            r\<lparr>rd_mIdx := rd_mIdx r + of_nat (n * cnt)\<rparr>)
      else (Inl (Undefined_behaviour ''ReadArray''), r))"

definition GetDataPtr :: "size_t \<Rightarrow> (MemReader, size_t) stx" where
  "GetDataPtr cnt r =
     (if rd_mIdx r + cnt > rd_mMaxSize r then (Inl (Out_of_range ''GetDataPtr''), r)
      else (Inr (rd_mIdx r), r\<lparr>rd_mIdx := rd_mIdx r + cnt\<rparr>))"

definition ReadPStr16 :: "(MemReader, bytes) stx" where
  "ReadPStr16 =
     stx_bind (ReadValue 2) (\<lambda>lenb.
       let len = le_nat lenb in
       if len = 0 then stx_return []
       else stx_bind (GetDataPtr (of_nat len)) (\<lambda>p r.
         if unat p + len \<le> length (rd_mpSrc r)
         then (Inr (take len (drop (unat p) (rd_mpSrc r))), r)
         else (Inl (Undefined_behaviour ''ReadPStr16''), r)))"

text \<open>The loop of \<open>ReadBits\<close>: fetch bytes until \<open>cnt\<close> bits are there.\<close>

function ReadBits_fill :: "nat \<Rightarrow> (MemReader, unit) stx" where
  "ReadBits_fill cnt r =
     (if rd_mBitsCnt r < cnt
      then (case ReadValue 1 r of
              (Inl e, r') \<Rightarrow> (Inl e, r')
            | (Inr val, r') \<Rightarrow>
                ReadBits_fill cnt
                  (r'\<lparr>rd_mBits := push_bit 8 (rd_mBits r') OR ucast (hd val),
                      rd_mBitsCnt := rd_mBitsCnt r' + 8\<rparr>))
      else (Inr (), r))"
  by pat_completeness auto
termination
  by (relation "measure (\<lambda>(cnt, r). cnt - rd_mBitsCnt r)")
     (auto simp: ReadValue_def split: sum.splits)

declare ReadBits_fill.simps [simp del]

definition ReadBits :: "nat \<Rightarrow> (MemReader, U32) stx" where
  "ReadBits cnt =
     stx_bind (ReadBits_fill cnt) (\<lambda>_ r.
       (Inr (drop_bit (rd_mBitsCnt r - cnt) (rd_mBits r) AND mask cnt),
        r\<lparr>rd_mBitsCnt := rd_mBitsCnt r - cnt\<rparr>))"

definition ReadBitsEnd :: "MemReader \<Rightarrow> MemReader" where
  "ReadBitsEnd r = r\<lparr>rd_mBits := 0, rd_mBitsCnt := 0\<rparr>"

definition SkipBytes :: "size_t \<Rightarrow> (MemReader, unit) stx" where
  "SkipBytes cnt r =
     (if rd_mIdx r + cnt > rd_mMaxSize r then (Inl (Out_of_range ''SkipBytes''), r)
      else (Inr (), r\<lparr>rd_mIdx := rd_mIdx r + cnt\<rparr>))"

definition SeekFromStart :: "size_t \<Rightarrow> (MemReader, unit) stx" where
  "SeekFromStart offset r =
     (if offset > rd_mMaxSize r then (Inl (Out_of_range ''SeekFromStart''), r)
      else (Inr (), r\<lparr>rd_mIdx := offset\<rparr>))"

text \<open>The \<open>ptrdiff_t\<close> offset is converted to \<open>size_t\<close> by the addition.\<close>

definition SeekFromCurPos :: "int \<Rightarrow> (MemReader, unit) stx" where
  "SeekFromCurPos offset r =
     (if rd_mIdx r + of_int offset > rd_mMaxSize r
      then (Inl (Out_of_range ''SeekFromCurPos''), r)
      else (Inr (), r\<lparr>rd_mIdx := rd_mIdx r + of_int offset\<rparr>))"

definition MemReader_GetCurPos :: "MemReader \<Rightarrow> size_t" where
  "MemReader_GetCurPos r = rd_mIdx r"

definition IsEOF :: "MemReader \<Rightarrow> bool" where
  "IsEOF r \<longleftrightarrow> rd_mIdx r \<ge> rd_mMaxSize r"

text \<open>
  The loop shared, line for line, by \<open>MemReader::ReadTextLine\<close> and
  \<open>MemFile::ReadTextLine\<close>: \<open>pos\<close> is \<open>mIdx\<close> / \<open>mReadPos\<close>, which only grows and stays below
  the size, so it is a \<^typ>\<open>nat\<close>; \<open>dest\<close> holds the characters stored so far.
\<close>

function ReadTextLine_loop :: "bytes \<Rightarrow> nat \<Rightarrow> nat \<Rightarrow> nat \<Rightarrow> bytes \<Rightarrow> bytes res \<times> nat" where
  "ReadTextLine_loop src siz destMax pos dest =
     (if pos < siz then
        let ch = src ! pos; pos1 = Suc pos in
        if ch = 13 then
          (Inr dest, if pos1 < siz \<and> src ! pos1 = 10 then Suc pos1 else pos1)
        else if ch = 10 then (Inr dest, pos1)
        else if length dest \<ge> destMax
        then (Inl (Out_of_range ''Writing out of bounds !''), pos1)
        else ReadTextLine_loop src siz destMax pos1 (dest @ [ch])
      else (Inr dest, pos))"
  by pat_completeness auto
termination
  by (relation "measure (\<lambda>(src, siz, destMax, pos, dest). siz - pos)") auto

declare ReadTextLine_loop.simps [simp del]

text \<open>
  The terminating zero needs one more character of the destination. Every access is below
  \<open>siz\<close>, so it is inside the memory when that holds \<open>siz\<close> bytes.
\<close>

definition ReadTextLine_core :: "bytes \<Rightarrow> nat \<Rightarrow> nat \<Rightarrow> nat \<Rightarrow> bytes option res \<times> nat" where
  "ReadTextLine_core src siz destMax pos =
     (if pos \<ge> siz then (Inr None, pos)
      else if length src < siz then (Inl (Undefined_behaviour ''ReadTextLine''), pos)
      else case ReadTextLine_loop src siz destMax pos [] of
             (Inl e, p) \<Rightarrow> (Inl e, p)
           | (Inr dest, p) \<Rightarrow>
               (if length dest \<ge> destMax
                then (Inl (Out_of_range ''Writing out of bounds !''), p)
                else (Inr (Some dest), p)))"

text \<open>\<open>None\<close> is the source's \<open>false\<close>; \<open>Some line\<close> is \<open>true\<close> with the line stored.\<close>

definition MemReader_ReadTextLine :: "nat \<Rightarrow> (MemReader, bytes option) stx" where
  "MemReader_ReadTextLine destStrMaxSize r =
     (let (res, p) = ReadTextLine_core (rd_mpSrc r) (unat (rd_mMaxSize r)) destStrMaxSize
                       (unat (rd_mIdx r))
      in (res, r\<lparr>rd_mIdx := of_nat p\<rparr>))"

section \<open>MemFile\<close>

record MemFile =
  mf_mOwnData :: bytes
  mf_mpData :: bytes
  mf_mDataSize :: size_t
  mf_mReadPos :: size_t
  mf_mIsReadOnly :: bool

definition MemFile_empty :: MemFile where
  "MemFile_empty = \<lparr>mf_mOwnData = [], mf_mpData = [], mf_mDataSize = 0, mf_mReadPos = 0,
     mf_mIsReadOnly = True\<rparr>"

definition MemFile_Init :: "bytes \<Rightarrow> size_t \<Rightarrow> MemFile \<Rightarrow> MemFile" where
  "MemFile_Init pDataSrc dataSize f =
     f\<lparr>mf_mpData := pDataSrc, mf_mDataSize := dataSize, mf_mReadPos := 0,
       mf_mIsReadOnly := True\<rparr>"

text \<open>The file system is a parameter: \<open>GrabFile name prefs\<close> is the content, if any.\<close>

definition MemFile_InitFile ::
  "(string \<Rightarrow> bool \<Rightarrow> bytes option) \<Rightarrow> string \<Rightarrow> bool \<Rightarrow> (MemFile, unit) stx" where
  "MemFile_InitFile GrabFile pFileName prefs f =
     (case GrabFile pFileName prefs of
        None \<Rightarrow> (Inl (Runtime_error (''Could not open the file '' @ pFileName @ '' for reading.'')), f)
      | Some d \<Rightarrow> (Inr (), f\<lparr>mf_mOwnData := d, mf_mpData := d, mf_mDataSize := of_nat (length d)\<rparr>))"

definition MemFile_InitNoThrow ::
  "(string \<Rightarrow> bool \<Rightarrow> bytes option) \<Rightarrow> string \<Rightarrow> bool \<Rightarrow> MemFile \<Rightarrow> bool \<times> MemFile" where
  "MemFile_InitNoThrow GrabFile pFileName prefs f =
     (case GrabFile pFileName prefs of
        None \<Rightarrow> (False, f)
      | Some d \<Rightarrow>
          (True, let f1 = f\<lparr>mf_mOwnData := d, mf_mDataSize := of_nat (length d)\<rparr>
                 in if mf_mDataSize f1 \<noteq> 0 then f1\<lparr>mf_mpData := d\<rparr> else f1))"

definition InitExclusiveOwenership :: "bytes \<Rightarrow> MemFile \<Rightarrow> bytes \<times> MemFile" where
  "InitExclusiveOwenership fromData f =
     ([], f\<lparr>mf_mDataSize := of_nat (length fromData), mf_mOwnData := fromData,
            mf_mpData := fromData, mf_mReadPos := 0, mf_mIsReadOnly := True\<rparr>)"

definition MemFile_SeekSet :: "size_t \<Rightarrow> (MemFile, unit) stx" where
  "MemFile_SeekSet pos f =
     (if pos > mf_mDataSize f then (Inl (Out_of_range ''Writing out of bounds !''), f)
      else (Inr (), f\<lparr>mf_mReadPos := pos\<rparr>))"

definition MemFile_SeekFromCur :: "int \<Rightarrow> (MemFile, unit) stx" where
  "MemFile_SeekFromCur offset f = MemFile_SeekSet (mf_mReadPos f + of_int offset) f"

definition MemFile_SeekFromEnd :: "int \<Rightarrow> (MemFile, unit) stx" where
  "MemFile_SeekFromEnd offset f = MemFile_SeekSet (mf_mDataSize f + of_int offset) f"

text \<open>
  \<open>ReadDataPtr\<close> seeks first and then returns the pointer to the old position; the result
  here is that position. The \<open>size_t\<close> argument is converted to \<open>ptrdiff_t\<close>.
\<close>

definition ReadDataPtr :: "size_t \<Rightarrow> (MemFile, size_t) stx" where
  "ReadDataPtr readSize f =
     (let readPos = mf_mReadPos f
      in stx_bind (MemFile_SeekFromCur (sint readSize)) (\<lambda>_. stx_return readPos) f)"

definition ReadData :: "size_t \<Rightarrow> (MemFile, bytes) stx" where
  "ReadData readSize =
     stx_bind (ReadDataPtr readSize) (\<lambda>p f.
       if unat p + unat readSize \<le> length (mf_mpData f)
       then (Inr (take (unat readSize) (drop (unat p) (mf_mpData f))), f)
       else (Inl (Undefined_behaviour ''ReadData''), f))"

definition MemFile_ReadTextLine :: "nat \<Rightarrow> (MemFile, bytes option) stx" where
  "MemFile_ReadTextLine destStrMaxSize f =
     (let (res, p) = ReadTextLine_core (mf_mpData f) (unat (mf_mDataSize f)) destStrMaxSize
                       (unat (mf_mReadPos f))
      in (res, f\<lparr>mf_mReadPos := of_nat p\<rparr>))"


section \<open>The bit-field streams are inverse to each other\<close>

text \<open>
  The abstraction of both streams is a sequence of bits: the bytes written (or not yet
  read), most significant bit first, together with the bits held in \<open>mBits\<close>.
\<close>

definition byte_bits :: "bytes \<Rightarrow> bool list" where
  "byte_bits bs = concat (map (msb_bits 8) bs)"

definition writer_bits :: "MemWriterDynamic \<Rightarrow> bool list" where
  "writer_bits w = byte_bits (wd_mDest w) @ msb_bits (wd_mBitsCnt w) (wd_mBits w)"

definition reader_rest :: "MemReader \<Rightarrow> bytes" where
  "reader_rest r = drop (unat (rd_mIdx r)) (rd_mpSrc r)"

definition reader_bits :: "MemReader \<Rightarrow> bool list" where
  "reader_bits r = msb_bits (rd_mBitsCnt r) (rd_mBits r) @ byte_bits (reader_rest r)"

text \<open>
  The reader's invariant: the size field is the size of the memory, which is smaller than
  half the address space, and the position is inside it.
\<close>

definition reader_ok :: "MemReader \<Rightarrow> bool" where
  "reader_ok r \<longleftrightarrow> unat (rd_mMaxSize r) = length (rd_mpSrc r) \<and> length (rd_mpSrc r) < 2 ^ 63
     \<and> rd_mIdx r \<le> rd_mMaxSize r"

lemma byte_bits_simps [stream_simps]:
  "byte_bits [] = []" "byte_bits (b # bs) = msb_bits 8 b @ byte_bits bs"
  "byte_bits (xs @ ys) = byte_bits xs @ byte_bits ys"
  by (simp_all add: byte_bits_def)

lemma length_byte_bits: "length (byte_bits bs) = 8 * length bs"
  by (induction bs) (auto simp: stream_simps)

lemma msb_bits_ucast:
  fixes v :: "'a::len word"
  assumes "n \<le> LENGTH('b::len)"
  shows "msb_bits n (ucast v :: 'b word) = msb_bits n v"
  using assms by (auto simp: msb_bits_eq_iff msb_bits_def bit_simps)

lemma msb_bits_push_or:
  fixes v u :: "'a::len word"
  assumes "k + n \<le> LENGTH('a)"
  shows "msb_bits (k + n) (push_bit n v OR (u AND mask n)) = msb_bits k v @ msb_bits n u"
  unfolding msb_bits_add
proof (rule arg_cong2 [where f = append])
  show "msb_bits k (drop_bit n (push_bit n v OR (u AND mask n))) = msb_bits k v"
    using assms by (intro msb_bits_cong) (auto simp: bit_simps)
  show "msb_bits n (push_bit n v OR (u AND mask n)) = msb_bits n u"
    using assms by (intro msb_bits_cong) (auto simp: bit_simps)
qed

lemma WriteBits_loop_bits:
  "wd_mBitsCnt w \<le> 32 \<Longrightarrow>
     writer_bits (WriteBits_loop w) = writer_bits w \<and> wd_mBitsCnt (WriteBits_loop w) < 8"
proof (induction w rule: WriteBits_loop.induct)
  case (1 w)
  show ?case
  proof (cases "8 \<le> wd_mBitsCnt w")
    case True
    let ?w = "(WriteValue [ucast (drop_bit (wd_mBitsCnt w - 8) (wd_mBits w))] w)
                \<lparr>wd_mBitsCnt := wd_mBitsCnt w - 8\<rparr>"
    have "msb_bits (wd_mBitsCnt w) (wd_mBits w)
        = msb_bits 8 (drop_bit (wd_mBitsCnt w - 8) (wd_mBits w))
          @ msb_bits (wd_mBitsCnt w - 8) (wd_mBits w)"
      using True msb_bits_split [of "wd_mBitsCnt w - 8" "wd_mBitsCnt w"] by simp
    then have "writer_bits ?w = writer_bits w"
      by (simp add: writer_bits_def WriteValue_def stream_simps msb_bits_ucast)
    with 1 True show ?thesis by (simp add: WriteBits_loop.simps [of w])
  next
    case False
    then show ?thesis by (simp add: WriteBits_loop.simps [of w])
  qed
qed

lemma WriteBits_bits [stream_simps]:
  assumes "wd_mBitsCnt w < 8" and "n \<le> 16"
  shows "writer_bits (WriteBits b n w) = writer_bits w @ msb_bits n b"
    and "wd_mBitsCnt (WriteBits b n w) < 8"
proof -
  let ?w = "w\<lparr>wd_mBits := push_bit n (wd_mBits w) OR (ucast b AND mask n),
               wd_mBitsCnt := wd_mBitsCnt w + n\<rparr>"
  have "writer_bits ?w = writer_bits w @ msb_bits n b"
    using assms by (simp add: writer_bits_def msb_bits_push_or msb_bits_ucast)
  moreover have "wd_mBitsCnt ?w \<le> 32" using assms by simp
  ultimately show "writer_bits (WriteBits b n w) = writer_bits w @ msb_bits n b"
    and "wd_mBitsCnt (WriteBits b n w) < 8"
    using WriteBits_loop_bits [of ?w] by (simp_all add: WriteBits_def)
qed

lemma WriteBits_loop_cnt: "wd_mBitsCnt (WriteBits_loop w) = wd_mBitsCnt w mod 8"
  by (induction w rule: WriteBits_loop.induct)
     (subst WriteBits_loop.simps, auto simp: mod_if le_mod_geq)

text \<open>\<open>WriteBitsEnd\<close> leaves a whole number of bytes, padding with fewer than eight zeros.\<close>

lemma WriteBitsEnd_bits:
  assumes "wd_mBitsCnt w < 8"
  shows "wd_mBitsCnt (WriteBitsEnd w) = 0"
    and "\<exists>pad. length pad < 8 \<and> set pad \<subseteq> {False}
           \<and> byte_bits (wd_mDest (WriteBitsEnd w)) = writer_bits w @ pad"
proof -
  let ?n = "wd_mBitsCnt w"
  show c: "wd_mBitsCnt (WriteBitsEnd w) = 0"
    using assms by (auto simp: WriteBitsEnd_def WriteBits_def WriteBits_loop_cnt)
  have "byte_bits (wd_mDest (WriteBitsEnd w)) = writer_bits (WriteBitsEnd w)"
    by (simp add: writer_bits_def c)
  also have "\<dots> = writer_bits w @ (if ?n = 0 then [] else msb_bits (8 - ?n) (0 :: U16))"
    using assms WriteBits_bits(1) [of w "8 - ?n" 0] by (simp add: WriteBitsEnd_def)
  finally show "\<exists>pad. length pad < 8 \<and> set pad \<subseteq> {False}
           \<and> byte_bits (wd_mDest (WriteBitsEnd w)) = writer_bits w @ pad"
    by (intro exI [of _ "if ?n = 0 then [] else msb_bits (8 - ?n) (0 :: U16)"])
       (auto simp: msb_bits_def)
qed

lemma reader_okD:
  assumes "reader_ok r"
  shows "unat (rd_mIdx r) \<le> length (rd_mpSrc r)" "length (rd_mpSrc r) < 2 ^ 63"
    "unat (rd_mMaxSize r) = length (rd_mpSrc r)"
  using assms by (auto simp: reader_ok_def word_le_nat_alt)

lemma reader_idx_add:
  assumes "reader_ok r" and "n < 2 ^ 63"
  shows "unat (rd_mIdx r + of_nat n) = unat (rd_mIdx r) + n"
  using reader_okD [OF assms(1)] assms(2)
  by (simp add: unat_word_ariths unat_of_nat)

lemma length_reader_rest:
  "reader_ok r \<Longrightarrow> length (reader_rest r) = length (rd_mpSrc r) - unat (rd_mIdx r)"
  by (simp add: reader_rest_def)

lemma ReadValue_ok:
  assumes "reader_ok r" and "n \<le> length (reader_rest r)"
  obtains r' where "ReadValue n r = (Inr (take n (reader_rest r)), r')"
    and "r' = r\<lparr>rd_mIdx := rd_mIdx r + of_nat n\<rparr>" and "reader_ok r'"
    and "reader_rest r' = drop n (reader_rest r)"
proof -
  note d = reader_okD [OF assms(1)]
  have n: "unat (rd_mIdx r) + n \<le> length (rd_mpSrc r)"
    using assms d by (simp add: length_reader_rest)
  then have i: "unat (rd_mIdx r + of_nat n) = unat (rd_mIdx r) + n"
    using assms(1) d by (intro reader_idx_add) auto
  show thesis
  proof (rule that)
    show "ReadValue n r = (Inr (take n (reader_rest r)), r\<lparr>rd_mIdx := rd_mIdx r + of_nat n\<rparr>)"
      using n i d by (simp add: ReadValue_def PeekValue_def reader_rest_def word_less_nat_alt)
    show "reader_ok (r\<lparr>rd_mIdx := rd_mIdx r + of_nat n\<rparr>)"
      using n i d assms(1) by (simp add: reader_ok_def word_le_nat_alt)
    show "reader_rest (r\<lparr>rd_mIdx := rd_mIdx r + of_nat n\<rparr>) = drop n (reader_rest r)"
      using i by (simp add: reader_rest_def add.commute)
  qed simp
qed

lemma ReadValue_short:
  assumes "reader_ok r" and "length (reader_rest r) < n" and "n < 2 ^ 63"
  shows "ReadValue n r = (Inl (Out_of_range ''ReadValue''), r)"
  using assms reader_okD [OF assms(1)]
  by (simp add: ReadValue_def PeekValue_def word_less_nat_alt reader_idx_add length_reader_rest)

lemma and_mask_bit: "v AND mask n = (v :: 'a::len word) \<Longrightarrow> bit v i \<Longrightarrow> i < n"
  by (metis bit_and_iff bit_mask_iff)

lemma ReadBits_fill_ok:
  "reader_ok r \<Longrightarrow> rd_mBitsCnt r \<le> 24 \<Longrightarrow> cnt \<le> 16 \<Longrightarrow> cnt \<le> length (reader_bits r) \<Longrightarrow>
     \<exists>r'. ReadBits_fill cnt r = (Inr (), r') \<and> reader_ok r' \<and> rd_mBitsCnt r' \<le> 24
          \<and> cnt \<le> rd_mBitsCnt r' \<and> reader_bits r' = reader_bits r"
proof (induction cnt r rule: ReadBits_fill.induct)
  case (1 cnt r)
  show ?case
  proof (cases "rd_mBitsCnt r < cnt")
    case False
    with 1 show ?thesis by (simp add: ReadBits_fill.simps [of cnt r])
  next
    case True
    with "1.prems" have "byte_bits (reader_rest r) \<noteq> []"
      by (auto simp: reader_bits_def)
    then obtain b bs where rest: "reader_rest r = b # bs"
      by (cases "reader_rest r") (auto simp: stream_simps)
    then have "1 \<le> length (reader_rest r)" by simp
    with "1.prems"(1) obtain r1 where
      rv: "ReadValue 1 r = (Inr (take 1 (reader_rest r)), r1)"
      and r1: "r1 = r\<lparr>rd_mIdx := rd_mIdx r + of_nat 1\<rparr>" and ok1: "reader_ok r1"
      and rest1: "reader_rest r1 = drop 1 (reader_rest r)"
      by (rule ReadValue_ok)
    let ?r2 = "r1\<lparr>rd_mBits := push_bit 8 (rd_mBits r1) OR ucast (hd (take 1 (reader_rest r))),
                   rd_mBitsCnt := rd_mBitsCnt r1 + 8\<rparr>"
    have u: "(ucast b :: U32) = ucast b AND mask 8"
      by (rule bit_word_eqI) (auto simp: bit_simps dest: bit_imp_le_length)
    have "rd_mBitsCnt r + 8 \<le> 32" using True "1.prems" by simp
    then have "msb_bits (rd_mBitsCnt r + 8) (push_bit 8 (rd_mBits r) OR (ucast b AND mask 8))
        = msb_bits (rd_mBitsCnt r) (rd_mBits r) @ msb_bits 8 (ucast b :: U32)"
      by (intro msb_bits_push_or) simp
    then have bits: "reader_bits ?r2 = reader_bits r"
      using u rest rest1
      by (simp add: reader_bits_def reader_rest_def r1 stream_simps msb_bits_ucast)
    have "reader_ok ?r2" using ok1 by (simp add: reader_ok_def)
    moreover have "rd_mBitsCnt ?r2 \<le> 24" using True "1.prems" by (simp add: r1)
    ultimately have "\<exists>r'. ReadBits_fill cnt ?r2 = (Inr (), r') \<and> reader_ok r'
        \<and> rd_mBitsCnt r' \<le> 24 \<and> cnt \<le> rd_mBitsCnt r' \<and> reader_bits r' = reader_bits ?r2"
      using "1.IH" [OF True rv [symmetric], of "take 1 (reader_rest r)"] "1.prems" bits
      by simp
    moreover have "ReadBits_fill cnt r = ReadBits_fill cnt ?r2"
      using True rv by (simp add: ReadBits_fill.simps [of cnt r])
    ultimately show ?thesis using bits by simp
  qed
qed

lemma ReadBits_ok:
  assumes "reader_ok r" and "rd_mBitsCnt r \<le> 24" and "cnt \<le> 16"
    and "cnt \<le> length (reader_bits r)"
  obtains v r' where "ReadBits cnt r = (Inr v, r')" and "reader_ok r'" and "rd_mBitsCnt r' \<le> 24"
    and "msb_bits cnt v = take cnt (reader_bits r)" and "v AND mask cnt = v"
    and "reader_bits r' = drop cnt (reader_bits r)"
proof -
  from ReadBits_fill_ok [OF assms] obtain r1 where
    f: "ReadBits_fill cnt r = (Inr (), r1)" and ok: "reader_ok r1"
    and c: "rd_mBitsCnt r1 \<le> 24" "cnt \<le> rd_mBitsCnt r1"
    and eq: "reader_bits r1 = reader_bits r" by blast
  let ?k = "rd_mBitsCnt r1 - cnt"
  let ?v = "drop_bit ?k (rd_mBits r1) AND mask cnt"
  let ?r' = "r1\<lparr>rd_mBitsCnt := ?k\<rparr>"
  have "reader_bits r1
      = msb_bits cnt (drop_bit ?k (rd_mBits r1)) @ msb_bits ?k (rd_mBits r1)
        @ byte_bits (reader_rest r1)"
    using c msb_bits_split [of ?k "rd_mBitsCnt r1" "rd_mBits r1"] by (simp add: reader_bits_def)
  note split = this [unfolded eq]
  show thesis
  proof (rule that)
    show "ReadBits cnt r = (Inr ?v, ?r')"
      using f by (simp add: ReadBits_def)
    show "reader_ok ?r'" using ok by (simp add: reader_ok_def)
    show "msb_bits cnt ?v = take cnt (reader_bits r)"
      using c by (simp add: split) (auto simp: msb_bits_eq_iff bit_simps)
    show "?v AND mask cnt = ?v"
      by (rule bit_word_eqI) (auto simp: bit_simps)
    show "reader_bits ?r' = drop cnt (reader_bits r)"
    proof -
      have "reader_bits ?r' = msb_bits ?k (rd_mBits r1) @ byte_bits (reader_rest r1)"
        by (simp add: reader_bits_def reader_rest_def)
      then show ?thesis by (simp add: split)
    qed
  qed (use c in simp)
qed

fun write_fields :: "(U16 \<times> nat) list \<Rightarrow> MemWriterDynamic \<Rightarrow> MemWriterDynamic" where
  "write_fields [] w = w"
| "write_fields ((b, n) # fs) w = write_fields fs (WriteBits b n w)"

fun read_fields :: "nat list \<Rightarrow> (MemReader, U32 list) stx" where
  "read_fields [] r = (Inr [], r)"
| "read_fields (n # ns) r =
     stx_bind (ReadBits n) (\<lambda>v. stx_bind (read_fields ns) (\<lambda>vs. stx_return (v # vs))) r"

lemma write_fields_bits:
  "wd_mBitsCnt w < 8 \<Longrightarrow> \<forall>(b, n) \<in> set fs. n \<le> 16 \<Longrightarrow>
     writer_bits (write_fields fs w) = writer_bits w @ concat (map (\<lambda>(b, n). msb_bits n b) fs)
     \<and> wd_mBitsCnt (write_fields fs w) < 8"
  by (induction fs w rule: write_fields.induct) (auto simp: WriteBits_bits)

lemma read_fields_bits:
  "reader_ok r \<Longrightarrow> rd_mBitsCnt r \<le> 24 \<Longrightarrow> \<forall>(b, n) \<in> set fs. n \<le> 16 \<Longrightarrow>
     reader_bits r = concat (map (\<lambda>(b, n). msb_bits n b) fs) @ rest \<Longrightarrow>
     \<exists>r'. read_fields (map snd fs) r = (Inr (map (\<lambda>(b, n). ucast b AND mask n) fs), r')
          \<and> reader_bits r' = rest"
proof (induction fs arbitrary: r)
  case Nil
  then show ?case by simp
next
  case (Cons f fs)
  obtain b n where f: "f = (b, n)" by force
  with Cons.prems have n: "n \<le> 16" "n \<le> length (reader_bits r)"
    and tk: "take n (reader_bits r) = msb_bits n b" by auto
  from ReadBits_ok [OF Cons.prems(1,2) n] obtain v r1 where
    rb: "ReadBits n r = (Inr v, r1)" and r1: "reader_ok r1" "rd_mBitsCnt r1 \<le> 24"
    and v: "msb_bits n v = take n (reader_bits r)" "v AND mask n = v"
    and rest1: "reader_bits r1 = drop n (reader_bits r)" by blast
  have "v = ucast b AND mask n"
  proof (rule bit_word_eqI)
    fix i
    assume "i < LENGTH(32)"
    then show "bit v i = bit (ucast b AND mask n :: U32) i"
      using v(1) tk n and_mask_bit [OF v(2), of i] by (auto simp: msb_bits_def bit_simps)
  qed
  moreover from rest1 Cons.prems(4) f
  have "reader_bits r1 = concat (map (\<lambda>(b, n). msb_bits n b) fs) @ rest" by simp
  with Cons.IH [OF r1] Cons.prems(3) obtain r2 where
    "read_fields (map snd fs) r1 = (Inr (map (\<lambda>(b, n). ucast b AND mask n) fs), r2)"
    "reader_bits r2 = rest" by auto
  ultimately show ?case using rb f by simp
qed

lemma reader_of_vec_ok:
  "length vec < 2 ^ 63 \<Longrightarrow> reader_ok (MemReader_of_vec vec)"
  "reader_rest (MemReader_of_vec vec) = vec" "rd_mBitsCnt (MemReader_of_vec vec) = 0"
  by (simp_all add: reader_ok_def MemReader_of_vec_def MemReader_init_def MemReader_empty_def
      reader_rest_def unat_of_nat)


text \<open>
  C20: what \<open>MemWriterDynamic::WriteBits\<close> writes, \<open>MemReader::ReadBits\<close> reads back. For
  any sequence of bit fields of at most 16 bits each, writing the fields, flushing with
  \<open>WriteBitsEnd\<close> and reading the same widths from the resulting buffer returns every
  field, masked to its width, and throws nothing.
\<close>

theorem bit_fields_roundtrip:
  assumes "\<forall>(b, n) \<in> set fs. n \<le> 16"
    and "length (wd_mDest (WriteBitsEnd (write_fields fs MemWriterDynamic_init))) < 2 ^ 63"
  shows "fst (read_fields (map snd fs)
           (MemReader_of_vec (wd_mDest (WriteBitsEnd (write_fields fs MemWriterDynamic_init)))))
         = Inr (map (\<lambda>(b, n). ucast b AND mask n) fs)"
proof -
  let ?w = "write_fields fs MemWriterDynamic_init"
  have init: "wd_mBitsCnt MemWriterDynamic_init < 8" "writer_bits MemWriterDynamic_init = []"
    by (simp_all add: MemWriterDynamic_init_def writer_bits_def stream_simps)
  with write_fields_bits [OF init(1) assms(1)]
  have w: "writer_bits ?w = concat (map (\<lambda>(b, n). msb_bits n b) fs)" "wd_mBitsCnt ?w < 8"
    by auto
  from WriteBitsEnd_bits(2) [OF w(2)] obtain pad where
    "byte_bits (wd_mDest (WriteBitsEnd ?w)) = concat (map (\<lambda>(b, n). msb_bits n b) fs) @ pad"
    using w(1) by auto
  then have "reader_bits (MemReader_of_vec (wd_mDest (WriteBitsEnd ?w)))
      = concat (map (\<lambda>(b, n). msb_bits n b) fs) @ pad"
    by (simp add: reader_bits_def reader_of_vec_ok)
  then show ?thesis
    using read_fields_bits [OF _ _ assms(1)] reader_of_vec_ok(1) [OF assms(2)]
    by (fastforce simp: reader_of_vec_ok)
qed

theorem bit_fields_roundtrip_witness:
  "fst (read_fields [3, 16, 5]
     (MemReader_of_vec (wd_mDest (WriteBitsEnd (write_fields [(5, 3), (65535, 16), (255, 5)]
        MemWriterDynamic_init))))) = Inr [5, 65535, 31]"
proof -
  let ?fs = "[(5, 3), (65535, 16), (255, 5)] :: (U16 \<times> nat) list"
  have "length (wd_mDest (WriteBitsEnd (write_fields ?fs MemWriterDynamic_init))) = 3"
    by code_simp
  moreover have "map (\<lambda>(b, n). ucast b AND mask n) ?fs = ([5, 65535, 31] :: U32 list)"
    by code_simp
  ultimately show ?thesis using bit_fields_roundtrip [of ?fs] by simp
qed


section \<open>Length-prefixed strings\<close>

fun write_strings :: "bytes list \<Rightarrow> (MemWriterDynamic, unit) stx" where
  "write_strings [] w = (Inr (), w)"
| "write_strings (x # xs) w = stx_bind (WritePStr16 x) (\<lambda>_. write_strings xs) w"

fun read_strings :: "nat \<Rightarrow> (MemReader, bytes list) stx" where
  "read_strings 0 r = (Inr [], r)"
| "read_strings (Suc n) r =
     stx_bind ReadPStr16 (\<lambda>x. stx_bind (read_strings n) (\<lambda>xs. stx_return (x # xs))) r"

lemma concat_map_singleton [simp]: "concat (map (\<lambda>c. [c]) xs) = xs"
  by (induction xs) auto

lemma WritePStr16_ok:
  "length x < 2 ^ 16 \<Longrightarrow>
     WritePStr16 x w = (Inr (), w\<lparr>wd_mDest := wd_mDest w @ le_bytes 2 (length x) @ x\<rparr>)"
  by (simp add: WritePStr16_def WriteValue_def WriteArray_def Let_def)

lemma write_strings_ok:
  "\<forall>x \<in> set xs. length x < 2 ^ 16 \<Longrightarrow>
     write_strings xs w
     = (Inr (), w\<lparr>wd_mDest := wd_mDest w @ concat (map (\<lambda>x. le_bytes 2 (length x) @ x) xs)\<rparr>)"
  by (induction xs w rule: write_strings.induct) (auto simp: WritePStr16_ok stx_bind_def)

lemma GetDataPtr_ok:
  assumes "reader_ok r" and "n \<le> length (reader_rest r)"
  shows "GetDataPtr (of_nat n) r = (Inr (rd_mIdx r), r\<lparr>rd_mIdx := rd_mIdx r + of_nat n\<rparr>)"
    and "reader_ok (r\<lparr>rd_mIdx := rd_mIdx r + of_nat n\<rparr>)"
    and "reader_rest (r\<lparr>rd_mIdx := rd_mIdx r + of_nat n\<rparr>) = drop n (reader_rest r)"
proof -
  from assms obtain r' where r': "r' = r\<lparr>rd_mIdx := rd_mIdx r + of_nat n\<rparr>" "reader_ok r'"
    "reader_rest r' = drop n (reader_rest r)" by (rule ReadValue_ok) blast
  then show "reader_ok (r\<lparr>rd_mIdx := rd_mIdx r + of_nat n\<rparr>)"
    and "reader_rest (r\<lparr>rd_mIdx := rd_mIdx r + of_nat n\<rparr>) = drop n (reader_rest r)" by simp_all
  then have "rd_mIdx r + of_nat n \<le> rd_mMaxSize r" by (simp add: reader_ok_def)
  then show "GetDataPtr (of_nat n) r = (Inr (rd_mIdx r), r\<lparr>rd_mIdx := rd_mIdx r + of_nat n\<rparr>)"
    by (auto simp: GetDataPtr_def)
qed

lemma ReadPStr16_ok:
  assumes "reader_ok r" and "reader_rest r = le_bytes 2 (length x) @ x @ rest"
    and "length x < 2 ^ 16"
  shows "\<exists>r'. ReadPStr16 r = (Inr x, r') \<and> reader_ok r' \<and> reader_rest r' = rest"
proof -
  have "2 \<le> length (reader_rest r)" using assms(2) by simp
  from ReadValue_ok [OF assms(1) this] obtain r1 where
    rv: "ReadValue 2 r = (Inr (take 2 (reader_rest r)), r1)" and ok1: "reader_ok r1"
    and rest1: "reader_rest r1 = drop 2 (reader_rest r)" by blast
  have len: "le_nat (take 2 (reader_rest r)) = length x"
    using assms by (simp add: le_nat_le_bytes)
  show ?thesis
  proof (cases "x = []")
    case True
    then show ?thesis using rv ok1 rest1 len assms(2) by (simp add: ReadPStr16_def)
  next
    case False
    have rest1': "reader_rest r1 = x @ rest" using rest1 assms(2) by simp
    then have xl: "length x \<le> length (reader_rest r1)" by simp
    note g = GetDataPtr_ok [OF ok1 xl]
    have "unat (rd_mIdx r1) + length x \<le> length (rd_mpSrc r1)"
      using xl False reader_okD(1) [OF ok1] by (auto simp: reader_rest_def)
    moreover have "take (length x) (drop (unat (rd_mIdx r1)) (rd_mpSrc r1)) = x"
      using rest1' by (simp add: reader_rest_def)
    ultimately have "ReadPStr16 r = (Inr x, r1\<lparr>rd_mIdx := rd_mIdx r1 + of_nat (length x)\<rparr>)"
      using rv len False g(1) by (simp add: ReadPStr16_def Let_def)
    then show ?thesis using g(2,3) rest1' by auto
  qed
qed

lemma read_strings_ok:
  "reader_ok r \<Longrightarrow> \<forall>x \<in> set xs. length x < 2 ^ 16 \<Longrightarrow>
     reader_rest r = concat (map (\<lambda>x. le_bytes 2 (length x) @ x) xs) @ rest \<Longrightarrow>
     \<exists>r'. read_strings (length xs) r = (Inr xs, r') \<and> reader_ok r' \<and> reader_rest r' = rest"
proof (induction xs arbitrary: r)
  case Nil
  then show ?case by simp
next
  case (Cons x xs)
  then have "reader_rest r = le_bytes 2 (length x) @ x
      @ concat (map (\<lambda>x. le_bytes 2 (length x) @ x) xs) @ rest" by simp
  from ReadPStr16_ok [OF Cons.prems(1) this] Cons.prems(2) obtain r1 where
    r1: "ReadPStr16 r = (Inr x, r1)" "reader_ok r1"
    "reader_rest r1 = concat (map (\<lambda>x. le_bytes 2 (length x) @ x) xs) @ rest" by auto
  with Cons.IH [OF r1(2)] Cons.prems(2) obtain r2 where
    "read_strings (length xs) r1 = (Inr xs, r2)" "reader_ok r2" "reader_rest r2 = rest" by auto
  with r1(1) show ?case by simp
qed

text \<open>
  C40: the length-prefixed strings of \<open>WritePStr16\<close> are read back by \<open>ReadPStr16\<close>. Writing
  any list of strings shorter than \<open>2^16\<close> to a fresh writer and reading as many strings
  from a reader that takes over the writer's buffer returns the same list, and the buffer
  is consumed exactly.
\<close>

theorem pstr16_roundtrip:
  assumes "\<forall>x \<in> set xs. length x < 2 ^ 16"
    and "write_strings xs MemWriterDynamic_init = (Inr (), w)"
    and "length (wd_mDest w) < 2 ^ 63"
  shows "\<exists>r'. read_strings (length xs) (snd (InitOwnMemWriterDyn w MemReader_empty)) = (Inr xs, r')
           \<and> IsEOF r'"
proof -
  let ?r = "snd (InitOwnMemWriterDyn w MemReader_empty)"
  have r: "?r = (MemReader_of_vec (wd_mDest w))\<lparr>rd_mOwnedData := wd_mDest w\<rparr>"
    by (simp add: InitOwnMemWriterDyn_def InitOwnVec_def MemReader_of_vec_def MemReader_init_def
        MemReader_empty_def)
  have "reader_ok ?r"
    using reader_of_vec_ok(1) [OF assms(3)] by (simp add: r reader_ok_def)
  moreover have "reader_rest ?r = concat (map (\<lambda>x. le_bytes 2 (length x) @ x) xs) @ []"
  proof -
    have "reader_rest ?r = wd_mDest w"
      using reader_of_vec_ok(2) [of "wd_mDest w"] by (simp add: r reader_rest_def)
    then show ?thesis
      using assms(2) write_strings_ok [OF assms(1), of MemWriterDynamic_init]
      by (auto simp: MemWriterDynamic_init_def)
  qed
  ultimately obtain r' where r': "read_strings (length xs) ?r = (Inr xs, r')"
    "reader_ok r'" "reader_rest r' = []"
    using read_strings_ok assms(1) by blast
  then have "IsEOF r'"
    by (auto simp: IsEOF_def reader_ok_def reader_rest_def word_le_nat_alt)
  with r'(1) show ?thesis by blast
qed

theorem pstr16_roundtrip_witness:
  "\<exists>w r'. write_strings [[82, 105], [], [66]] MemWriterDynamic_init = (Inr (), w)
     \<and> read_strings 3 (snd (InitOwnMemWriterDyn w MemReader_empty)) = (Inr [[82, 105], [], [66]], r')
     \<and> IsEOF r'"
proof -
  let ?xs = "[[82, 105], [], [66]] :: bytes list"
  let ?w = "\<lparr>wd_mDest = [2, 0, 82, 105, 0, 0, 1, 0, 66], wd_mBits = 0, wd_mBitsCnt = 0\<rparr>"
  have w: "write_strings ?xs MemWriterDynamic_init = (Inr (), ?w)"
    by (subst write_strings_ok) (simp_all add: MemWriterDynamic_init_def le_bytes_2)
  with pstr16_roundtrip [of ?xs ?w]
  have "\<exists>r'. read_strings (length ?xs) (snd (InitOwnMemWriterDyn ?w MemReader_empty))
      = (Inr ?xs, r') \<and> IsEOF r'" by simp
  with w show ?thesis by (auto simp: eval_nat_numeral)
qed


section \<open>Text lines\<close>

text \<open>
  What a line is: the bytes up to the first LF, CR or CR LF, or up to the end. The
  specification does not mention positions or buffers.
\<close>

fun split_line :: "bytes \<Rightarrow> bytes \<times> bytes" where
  "split_line [] = ([], [])"
| "split_line (c # cs) =
     (if c = 13 then ([], if cs \<noteq> [] \<and> hd cs = 10 then tl cs else cs)
      else if c = 10 then ([], cs)
      else (c # fst (split_line cs), snd (split_line cs)))"

lemma split_line_shorter: "bs \<noteq> [] \<Longrightarrow> length (snd (split_line bs)) < length bs"
proof (induction bs rule: split_line.induct)
  case (2 c cs)
  then show ?case by (cases cs) auto
qed simp

function split_lines :: "bytes \<Rightarrow> bytes list" where
  "split_lines bs =
     (if bs = [] then [] else fst (split_line bs) # split_lines (snd (split_line bs)))"
  by pat_completeness auto
termination
  by (relation "measure length") (auto simp: split_line_shorter)

declare split_lines.simps [simp del]

text \<open>Reading every line of a source, as the callers of \<open>ReadTextLine\<close> do.\<close>

fun read_lines :: "(nat \<Rightarrow> ('s, bytes option) stx) \<Rightarrow> nat \<Rightarrow> nat \<Rightarrow> ('s, bytes list) stx" where
  "read_lines rdl 0 n s = (Inl (Runtime_error ''fuel''), s)"
| "read_lines rdl (Suc k) n s =
     stx_bind (rdl n) (\<lambda>l. case l of None \<Rightarrow> stx_return []
       | Some x \<Rightarrow> stx_bind (read_lines rdl k n) (\<lambda>xs. stx_return (x # xs))) s"

text \<open>The interface of a source of text lines: \<open>rest\<close> is what is still to be read.\<close>

locale line_source =
  fixes rdl :: "nat \<Rightarrow> ('s, bytes option) stx"
    and rest :: "'s \<Rightarrow> bytes"
    and ok :: "'s \<Rightarrow> bool"
  assumes rdl_eof: "ok s \<Longrightarrow> rest s = [] \<Longrightarrow> rdl n s = (Inr None, s)"
    and rdl_line: "ok s \<Longrightarrow> rest s \<noteq> [] \<Longrightarrow> length (fst (split_line (rest s))) < n \<Longrightarrow>
      \<exists>s'. rdl n s = (Inr (Some (fst (split_line (rest s)))), s') \<and> ok s'
           \<and> rest s' = snd (split_line (rest s))"
    and rdl_long: "ok s \<Longrightarrow> rest s \<noteq> [] \<Longrightarrow> n \<le> length (fst (split_line (rest s))) \<Longrightarrow>
      \<exists>s'. rdl n s = (Inl (Out_of_range ''Writing out of bounds !''), s')"
begin

lemma read_lines_all:
  "ok s \<Longrightarrow> \<forall>l \<in> set (split_lines (rest s)). length l < n \<Longrightarrow> length (rest s) < k \<Longrightarrow>
     \<exists>s'. read_lines rdl k n s = (Inr (split_lines (rest s)), s') \<and> ok s' \<and> rest s' = []"
proof (induction k arbitrary: s)
  case 0
  then show ?case by simp
next
  case (Suc k)
  show ?case
  proof (cases "rest s = []")
    case True
    with Suc.prems rdl_eof [of s n] show ?thesis by (simp add: split_lines.simps)
  next
    case False
    then have sl: "split_lines (rest s)
        = fst (split_line (rest s)) # split_lines (snd (split_line (rest s)))"
      by (subst split_lines.simps) simp
    with False Suc.prems obtain s1 where s1: "ok s1" "rest s1 = snd (split_line (rest s))"
      "rdl n s = (Inr (Some (fst (split_line (rest s)))), s1)"
      using rdl_line [of s n] by auto
    moreover have "length (rest s1) < k"
      using split_line_shorter [OF False] s1(2) Suc.prems(3) by simp
    ultimately obtain s2 where "read_lines rdl k n s1 = (Inr (split_lines (rest s1)), s2)"
      "ok s2" "rest s2 = []"
      using Suc.IH [of s1] Suc.prems(2) sl by auto
    with s1 sl show ?thesis by simp
  qed
qed

lemma read_lines_too_long:
  "ok s \<Longrightarrow> \<exists>l \<in> set (split_lines (rest s)). n \<le> length l \<Longrightarrow> length (rest s) < k \<Longrightarrow>
     \<exists>s'. read_lines rdl k n s = (Inl (Out_of_range ''Writing out of bounds !''), s')"
proof (induction k arbitrary: s)
  case 0
  then show ?case by simp
next
  case (Suc k)
  from Suc.prems(2) have ne: "rest s \<noteq> []" by (auto simp: split_lines.simps)
  then have sl: "split_lines (rest s)
      = fst (split_line (rest s)) # split_lines (snd (split_line (rest s)))"
    by (subst split_lines.simps) simp
  show ?case
  proof (cases "n \<le> length (fst (split_line (rest s)))")
    case True
    with rdl_long [OF Suc.prems(1) ne] show ?thesis by fastforce
  next
    case False
    then have "length (fst (split_line (rest s))) < n" by simp
    from rdl_line [OF Suc.prems(1) ne this] obtain s1 where
      s1: "rdl n s = (Inr (Some (fst (split_line (rest s)))), s1)" "ok s1"
      "rest s1 = snd (split_line (rest s))" by auto
    moreover have "length (rest s1) < k"
      using split_line_shorter [OF ne] s1(3) Suc.prems(3) by simp
    ultimately obtain s2 where
      "read_lines rdl k n s1 = (Inl (Out_of_range ''Writing out of bounds !''), s2)"
      using Suc.IH [of s1] Suc.prems(2) sl False by auto
    with s1 show ?thesis by simp
  qed
qed

end

text \<open>The loop of both \<open>ReadTextLine\<close> functions computes \<^const>\<open>split_line\<close>.\<close>

lemma ReadTextLine_loop_split:
  assumes "pos \<le> length src" and "length dest + length (fst (split_line (drop pos src))) \<le> destMax"
  shows "ReadTextLine_loop src (length src) destMax pos dest
       = (Inr (dest @ fst (split_line (drop pos src))),
          length src - length (snd (split_line (drop pos src))))"
  using assms
proof (induction "length src - pos" arbitrary: pos dest)
  case 0
  then show ?case by (simp add: ReadTextLine_loop.simps)
next
  case (Suc n)
  then have p: "pos < length src" by simp
  then have d: "drop pos src = src ! pos # drop (Suc pos) src" by (simp add: Cons_nth_drop_Suc)
  consider "src ! pos = 13" | "src ! pos = 10" | "src ! pos \<noteq> 13" "src ! pos \<noteq> 10" by blast
  then show ?case
  proof cases
    case 1
    show ?thesis
    proof (cases "Suc pos < length src")
      case True
      then have "drop (Suc pos) src = src ! Suc pos # drop (Suc (Suc pos)) src"
        by (simp add: Cons_nth_drop_Suc)
      then show ?thesis using p d 1 True by (simp add: ReadTextLine_loop.simps)
    next
      case False
      then show ?thesis using p d 1 by (simp add: ReadTextLine_loop.simps)
    qed
  next
    case 2
    then show ?thesis using p d by (simp add: ReadTextLine_loop.simps)
  next
    case 3
    have "ReadTextLine_loop src (length src) destMax (Suc pos) (dest @ [src ! pos])
        = (Inr ((dest @ [src ! pos]) @ fst (split_line (drop (Suc pos) src))),
           length src - length (snd (split_line (drop (Suc pos) src))))"
      using Suc.hyps(2) Suc.prems p d 3 by (intro Suc.hyps(1)) auto
    then show ?thesis
      using p d 3 Suc.prems by (subst ReadTextLine_loop.simps) simp
  qed
qed

lemma ReadTextLine_loop_long:
  assumes "pos \<le> length src" and "destMax < length dest + length (fst (split_line (drop pos src)))"
    and "length dest \<le> destMax"
  shows "\<exists>p. ReadTextLine_loop src (length src) destMax pos dest
           = (Inl (Out_of_range ''Writing out of bounds !''), p)"
  using assms
proof (induction "length src - pos" arbitrary: pos dest)
  case 0
  then show ?case by simp
next
  case (Suc n)
  then have p: "pos < length src" by simp
  then have d: "drop pos src = src ! pos # drop (Suc pos) src" by (simp add: Cons_nth_drop_Suc)
  with Suc.prems have nl: "src ! pos \<noteq> 13" "src ! pos \<noteq> 10" by (auto split: if_splits)
  show ?case
  proof (cases "length dest \<ge> destMax")
    case True
    then show ?thesis using p nl by (simp add: ReadTextLine_loop.simps)
  next
    case False
    then have "\<exists>q. ReadTextLine_loop src (length src) destMax (Suc pos) (dest @ [src ! pos])
        = (Inl (Out_of_range ''Writing out of bounds !''), q)"
      using Suc.hyps(2) Suc.prems p d nl by (intro Suc.hyps(1)) auto
    then show ?thesis using p nl False by (subst ReadTextLine_loop.simps) simp
  qed
qed

lemma ReadTextLine_core_line:
  assumes "pos < length src" and "length (fst (split_line (drop pos src))) < destMax"
  shows "ReadTextLine_core src (length src) destMax pos
       = (Inr (Some (fst (split_line (drop pos src)))),
          length src - length (snd (split_line (drop pos src))))"
  using assms ReadTextLine_loop_split [of pos src "[]" destMax]
  by (simp add: ReadTextLine_core_def)

lemma ReadTextLine_core_long:
  assumes "pos < length src" and "destMax \<le> length (fst (split_line (drop pos src)))"
  shows "\<exists>p. ReadTextLine_core src (length src) destMax pos
           = (Inl (Out_of_range ''Writing out of bounds !''), p)"
proof (cases "destMax = length (fst (split_line (drop pos src)))")
  case True
  then show ?thesis
    using assms ReadTextLine_loop_split [of pos src "[]" destMax]
    by (simp add: ReadTextLine_core_def)
next
  case False
  then show ?thesis
    using assms ReadTextLine_loop_long [of pos src destMax "[]"]
    by (auto simp: ReadTextLine_core_def)
qed

lemma length_snd_split_line: "length (snd (split_line bs)) \<le> length bs"
  by (cases "bs = []") (auto dest: split_line_shorter)

lemma drop_snd_split_line:
  "drop (length bs - length (snd (split_line bs))) bs = snd (split_line bs)"
proof (induction bs rule: split_line.induct)
  case (2 c cs)
  then show ?case
    using length_snd_split_line [of cs] by (cases cs) (auto simp: Suc_diff_le)
qed simp

text \<open>The position after the line, as a \<open>size_t\<close>, and what is left there.\<close>

lemma line_position:
  assumes "length src < 2 ^ 63" and "pos \<le> length src"
  shows "unat (of_nat (length src - length (snd (split_line (drop pos src)))) :: size_t)
           = length src - length (snd (split_line (drop pos src)))"
    and "drop (length src - length (snd (split_line (drop pos src)))) src
           = snd (split_line (drop pos src))"
proof -
  show "unat (of_nat (length src - length (snd (split_line (drop pos src)))) :: size_t)
           = length src - length (snd (split_line (drop pos src)))"
    using assms by (intro unat_of_nat_size) simp
  let ?d = "drop pos src"
  have "length (snd (split_line ?d)) \<le> length src - pos"
    using length_snd_split_line [of ?d] by simp
  then have "length src - length (snd (split_line ?d))
      = (length ?d - length (snd (split_line ?d))) + pos" using assms by simp
  then show "drop (length src - length (snd (split_line ?d))) src = snd (split_line ?d)"
    using drop_snd_split_line [of ?d] by simp
qed

definition memfile_rest :: "MemFile \<Rightarrow> bytes" where
  "memfile_rest f = drop (unat (mf_mReadPos f)) (mf_mpData f)"

definition memfile_ok :: "MemFile \<Rightarrow> bool" where
  "memfile_ok f \<longleftrightarrow> unat (mf_mDataSize f) = length (mf_mpData f) \<and> length (mf_mpData f) < 2 ^ 63
     \<and> mf_mReadPos f \<le> mf_mDataSize f"

interpretation reader_lines: line_source MemReader_ReadTextLine reader_rest reader_ok
proof
  fix s n
  assume ok: "reader_ok s"
  note d = reader_okD [OF ok]
  show "reader_rest s = [] \<Longrightarrow> MemReader_ReadTextLine n s = (Inr None, s)"
    using d by (auto simp: MemReader_ReadTextLine_def ReadTextLine_core_def reader_rest_def)
  assume ne: "reader_rest s \<noteq> []"
  then have p: "unat (rd_mIdx s) < length (rd_mpSrc s)" by (simp add: reader_rest_def)
  show "n \<le> length (fst (split_line (reader_rest s))) \<Longrightarrow>
      \<exists>s'. MemReader_ReadTextLine n s = (Inl (Out_of_range ''Writing out of bounds !''), s')"
    using ReadTextLine_core_long [OF p] d(3)
    by (fastforce simp: MemReader_ReadTextLine_def reader_rest_def)
  assume "length (fst (split_line (reader_rest s))) < n"
  then show "\<exists>s'. MemReader_ReadTextLine n s = (Inr (Some (fst (split_line (reader_rest s)))), s')
      \<and> reader_ok s' \<and> reader_rest s' = snd (split_line (reader_rest s))"
    using ReadTextLine_core_line [OF p, of n] d ok
      line_position [of "rd_mpSrc s" "unat (rd_mIdx s)"]
    by (auto simp: MemReader_ReadTextLine_def reader_rest_def reader_ok_def word_le_nat_alt)
qed

interpretation memfile_lines: line_source MemFile_ReadTextLine memfile_rest memfile_ok
proof
  fix s n
  assume ok: "memfile_ok s"
  then have d: "unat (mf_mReadPos s) \<le> length (mf_mpData s)" "length (mf_mpData s) < 2 ^ 63"
    "unat (mf_mDataSize s) = length (mf_mpData s)"
    by (auto simp: memfile_ok_def word_le_nat_alt)
  show "memfile_rest s = [] \<Longrightarrow> MemFile_ReadTextLine n s = (Inr None, s)"
    using d by (auto simp: MemFile_ReadTextLine_def ReadTextLine_core_def memfile_rest_def)
  assume ne: "memfile_rest s \<noteq> []"
  then have p: "unat (mf_mReadPos s) < length (mf_mpData s)" by (simp add: memfile_rest_def)
  show "n \<le> length (fst (split_line (memfile_rest s))) \<Longrightarrow>
      \<exists>s'. MemFile_ReadTextLine n s = (Inl (Out_of_range ''Writing out of bounds !''), s')"
    using ReadTextLine_core_long [OF p] d(3)
    by (fastforce simp: MemFile_ReadTextLine_def memfile_rest_def)
  assume "length (fst (split_line (memfile_rest s))) < n"
  then show "\<exists>s'. MemFile_ReadTextLine n s = (Inr (Some (fst (split_line (memfile_rest s)))), s')
      \<and> memfile_ok s' \<and> memfile_rest s' = snd (split_line (memfile_rest s))"
    using ReadTextLine_core_line [OF p, of n] d ok
      line_position [of "mf_mpData s" "unat (mf_mReadPos s)"]
    by (auto simp: MemFile_ReadTextLine_def memfile_rest_def memfile_ok_def word_le_nat_alt)
qed

text \<open>Joining lines with one of the three line ends and splitting them again.\<close>

definition plain_line :: "bytes \<Rightarrow> bool" where
  "plain_line l \<longleftrightarrow> 13 \<notin> set l \<and> 10 \<notin> set l"

lemma split_line_plain:
  assumes "plain_line l" and "eol = [10] \<or> eol = [13, 10] \<or> (eol = [13] \<and> (r = [] \<or> hd r \<noteq> 10))"
  shows "split_line (l @ eol @ r) = (l, r)"
  using assms by (induction l) (auto simp: plain_line_def)

lemma split_lines_join:
  assumes "eol \<in> {[10], [13], [13, 10]}"
  shows "\<forall>l \<in> set ls. plain_line l \<Longrightarrow> split_lines (concat (map (\<lambda>l. l @ eol) ls)) = ls"
proof (induction ls)
  case Nil
  then show ?case by (simp add: split_lines.simps)
next
  case (Cons l ls)
  let ?r = "concat (map (\<lambda>l. l @ eol) ls)"
  have "eol = [13] \<Longrightarrow> ?r = [] \<or> hd ?r \<noteq> 10"
  proof (cases ls)
    case (Cons m ms)
    then show "eol = [13] \<Longrightarrow> ?r = [] \<or> hd ?r \<noteq> 10"
      using Cons.prems by (cases m) (auto simp: plain_line_def)
  qed simp
  with assms Cons.prems have "split_line (l @ eol @ ?r) = (l, ?r)"
    by (intro split_line_plain) auto
  moreover have "l @ eol @ ?r \<noteq> []" using assms by auto
  ultimately show ?case using Cons by (simp add: split_lines.simps [of "l @ eol @ ?r"])
qed

text \<open>
  C15: \<open>MemFile::ReadTextLine\<close> recovers the lines of a text file whatever its line ends. For
  a file in memory whose content is any list of lines without CR and LF, each followed by
  LF, CR or CR LF (the same for all), calling \<open>ReadTextLine\<close> with a buffer larger than
  every line until it answers false returns exactly those lines, in order, and leaves the
  file at its end.
\<close>

theorem text_lines_roundtrip:
  assumes "eol \<in> {[10], [13], [13, 10]}"
    and "\<forall>l \<in> set ls. plain_line l \<and> length l < n"
    and "length (concat (map (\<lambda>l. l @ eol) ls)) < 2 ^ 63"
    and "length (concat (map (\<lambda>l. l @ eol) ls)) < k"
  shows "\<exists>f'. read_lines MemFile_ReadTextLine k n
           (snd (InitExclusiveOwenership (concat (map (\<lambda>l. l @ eol) ls)) MemFile_empty))
         = (Inr ls, f') \<and> mf_mReadPos f' = mf_mDataSize f'"
proof -
  let ?t = "concat (map (\<lambda>l. l @ eol) ls)"
  let ?f = "snd (InitExclusiveOwenership ?t MemFile_empty)"
  have f: "memfile_ok ?f" "memfile_rest ?f = ?t"
    using assms(3) by (simp_all add: memfile_ok_def memfile_rest_def InitExclusiveOwenership_def
        MemFile_empty_def unat_of_nat)
  have sl: "split_lines ?t = ls" using assms(1,2) by (intro split_lines_join) auto
  with memfile_lines.read_lines_all [OF f(1), of n k] f(2) assms(2,4)
  obtain f' where f': "read_lines MemFile_ReadTextLine k n ?f = (Inr ls, f')"
    "memfile_ok f'" "memfile_rest f' = []" by auto
  then have "mf_mReadPos f' = mf_mDataSize f'"
    by (auto simp: memfile_ok_def memfile_rest_def word_le_nat_alt intro: word_unat_eq_iff [THEN iffD2])
  with f'(1) show ?thesis by blast
qed

theorem text_lines_roundtrip_witness:
  "\<exists>f'. read_lines MemFile_ReadTextLine 10 4
     (snd (InitExclusiveOwenership [82, 73, 13, 10, 13, 10, 66, 13, 10] MemFile_empty))
     = (Inr [[82, 73], [], [66]], f') \<and> mf_mReadPos f' = mf_mDataSize f'"
  using text_lines_roundtrip [of "[13, 10]" "[[82, 73], [], [66]]" 4 10]
  by (simp add: plain_line_def)

section \<open>Seeking\<close>

text \<open>
  A position computed in \<open>size_t\<close> arithmetic from a signed offset exceeds the size exactly
  when the mathematical position is outside the data: a negative position wraps around to
  the upper half of the address space.
\<close>

lemma int_less_half: "k < 2 ^ 63 \<Longrightarrow> int k < 2 ^ 63"
  by simp

lemma wrapped_position:
  fixes m :: size_t
  assumes "unat m < 2 ^ 63" and "- (2 ^ 63) \<le> p" and "p < 2 ^ 64"
  shows "of_int p > m \<longleftrightarrow> \<not> (0 \<le> p \<and> p \<le> int (unat m))"
proof -
  obtain k where k: "int (unat m) = k" "uint m = k" by simp
  have kb: "k < 2 ^ 63" using int_less_half [OF assms(1)] unfolding k .
  have u: "uint (of_int p :: size_t) = p mod 2 ^ 64"
    by (simp add: uint_word_of_int)
  show ?thesis
  proof (cases "0 \<le> p")
    case True
    with assms(3) have "p mod 2 ^ 64 = p" by simp
    with True show ?thesis unfolding word_less_def u k by auto
  next
    case False
    have "(p + 2 ^ 64) mod 2 ^ 64 = p + 2 ^ 64"
      using assms False by (intro mod_pos_pos_trivial) auto
    then have "p mod 2 ^ 64 = p + 2 ^ 64" by simp
    then show ?thesis unfolding word_less_def u k using False kb assms(2) by auto
  qed
qed

text \<open>
  \<open>MemReader::SeekFromCurPos\<close> with any \<open>ptrdiff_t\<close> offset, negative ones included,
  moves to the position \<open>mIdx + offset\<close> if that lies inside the data and otherwise throws
  \<open>out_of_range\<close> and leaves the reader as it was, although the check compares wrapped
  \<open>size_t\<close> values; in both cases the reader's invariant is kept.
\<close>

theorem SeekFromCurPos_exact:
  assumes "reader_ok r" and "- (2 ^ 63) \<le> offset" and "offset < 2 ^ 63"
  shows "SeekFromCurPos offset r =
           (let p = int (unat (rd_mIdx r)) + offset
            in if 0 \<le> p \<and> p \<le> int (length (rd_mpSrc r))
               then (Inr (), r\<lparr>rd_mIdx := of_int p\<rparr>)
               else (Inl (Out_of_range ''SeekFromCurPos''), r))
         \<and> reader_ok (snd (SeekFromCurPos offset r))"
proof -
  note d = reader_okD [OF assms(1)]
  let ?p = "int (unat (rd_mIdx r)) + offset"
  have w: "rd_mIdx r + of_int offset = of_int ?p" by simp
  have "of_int ?p > rd_mMaxSize r \<longleftrightarrow> \<not> (0 \<le> ?p \<and> ?p \<le> int (unat (rd_mMaxSize r)))"
  proof (rule wrapped_position)
    have "int (unat (rd_mIdx r)) < 2 ^ 63"
      using order.strict_trans1 [OF d(1,2)] by (rule int_less_half)
    then show "- (2 ^ 63) \<le> ?p" and "?p < 2 ^ 64"
      using assms(2,3) by (simp_all del: of_nat_unat)
  qed (use d in simp)
  then have "SeekFromCurPos offset r =
           (if 0 \<le> ?p \<and> ?p \<le> int (length (rd_mpSrc r))
               then (Inr (), r\<lparr>rd_mIdx := of_int ?p\<rparr>)
               else (Inl (Out_of_range ''SeekFromCurPos''), r))"
    unfolding SeekFromCurPos_def w d(3) [symmetric] by auto
  moreover have "reader_ok (snd (SeekFromCurPos offset r))"
    using assms(1) by (auto simp: SeekFromCurPos_def reader_ok_def)
  ultimately show ?thesis by (simp add: Let_def)
qed

theorem SeekFromCurPos_exact_witness:
  "fst (SeekFromCurPos (- 2) ((MemReader_of_vec [7, 8, 9])\<lparr>rd_mIdx := 3\<rparr>)) = Inr ()
   \<and> rd_mIdx (snd (SeekFromCurPos (- 2) ((MemReader_of_vec [7, 8, 9])\<lparr>rd_mIdx := 3\<rparr>))) = 1"
proof -
  let ?r = "(MemReader_of_vec [7, 8, 9])\<lparr>rd_mIdx := 3\<rparr>"
  have "reader_ok ?r"
    by (simp add: reader_ok_def MemReader_of_vec_def MemReader_init_def MemReader_empty_def)
  from SeekFromCurPos_exact [OF this, of "- 2"] show ?thesis
    by (simp add: MemReader_of_vec_def MemReader_init_def MemReader_empty_def)
qed

section \<open>ReadArray and its bounds check\<close>

lemma ReadArray_bytes_ok:
  assumes "reader_ok r" and "cnt \<le> length (reader_rest r)"
  shows "ReadArray 1 cnt r
       = (Inr (take cnt (reader_rest r)), r\<lparr>rd_mIdx := rd_mIdx r + of_nat cnt\<rparr>)"
proof -
  from GetDataPtr_ok(2) [OF assms] have "rd_mIdx r + of_nat cnt \<le> rd_mMaxSize r"
    by (simp add: reader_ok_def)
  then show ?thesis
    using assms reader_okD [OF assms(1)] by (auto simp: ReadArray_def reader_rest_def)
qed

text \<open>
  \<open>MemReader::ReadArray<T>\<close> checks \<open>mIdx + cnt\<close>, not \<open>mIdx + cnt * sizeof(T)\<close>, against
  the size. Whenever the array fits by that count but not in bytes, the check passes and
  the copy runs past the end of the data.
\<close>

theorem ReadArray_overrun:
  assumes "reader_ok r" and "cnt \<le> length (reader_rest r)"
    and "length (reader_rest r) < cnt * n"
  shows "ReadArray n cnt r = (Inl (Undefined_behaviour ''ReadArray''), r)"
proof -
  from GetDataPtr_ok(2) [OF assms(1,2)] have "rd_mIdx r + of_nat cnt \<le> rd_mMaxSize r"
    by (simp add: reader_ok_def)
  then show ?thesis
    using assms reader_okD [OF assms(1)] by (auto simp: ReadArray_def reader_rest_def)
qed

theorem ReadArray_overrun_witness:
  "fst (ReadArray 4 3 (MemReader_of_vec [1, 2, 3, 4, 5, 6, 7, 8]))
   = Inl (Undefined_behaviour ''ReadArray'')"
  using ReadArray_overrun [of "MemReader_of_vec [1, 2, 3, 4, 5, 6, 7, 8]" 3 4]
  by (simp add: reader_of_vec_ok)

end
