(* ===== verification/Containers.thy ===== *)
theory Containers
  imports Prelude
begin

text \<open>
  The containers of \<open>DSystem/include/DContainers.h\<close>: the fixed-capacity \<open>DArray\<close>, the bit
  set \<open>DVecBits\<close> and the free functions over \<open>DVec\<close> (which is \<open>std::vector\<close>, a list
  here). A \<open>DArray\<close> is its raw buffer of \<open>_SIZE\<close> slots and the number of live elements;
  iterators are offsets from the start of the buffer. Default construction of an element
  stores the value \<open>mk\<close>, a parameter. The constructor and destructor calls that the array
  makes on its slots are recorded in order, a destructor call with the element it ran on. A
  reference argument is taken by value, so it must not alias an element of the array.
\<close>

section \<open>DArray\<close>

datatype 'a life = Built nat | Destroyed nat 'a

record 'a DArray =
  da_mBuff :: "'a list"
  da_mSize :: nat
  da_lives :: "'a life list"

definition DArray_init :: "'a list \<Rightarrow> 'a DArray" where
  "DArray_init raw = \<lparr>da_mBuff = raw, da_mSize = 0, da_lives = []\<rparr>"

text \<open>\<open>copyFrom\<close> runs to the size of the destination, not of the source.\<close>

definition copyFrom :: "'a DArray \<Rightarrow> 'a DArray \<Rightarrow> 'a DArray" where
  "copyFrom from a =
     a\<lparr>da_mBuff := take (da_mSize a) (da_mBuff from) @ drop (da_mSize a) (da_mBuff a)\<rparr>"

definition DArray_copy :: "'a list \<Rightarrow> 'a DArray \<Rightarrow> 'a DArray" where
  "DArray_copy raw from = copyFrom from (DArray_init raw)"

definition DArray_assign :: "'a DArray \<Rightarrow> 'a DArray \<Rightarrow> 'a DArray" where
  "DArray_assign a rhs = copyFrom rhs a"

definition DArray_size :: "'a DArray \<Rightarrow> nat" where
  "DArray_size a = da_mSize a"

definition DArray_capacity :: "'a DArray \<Rightarrow> nat" where
  "DArray_capacity a = length (da_mBuff a)"

definition is_full :: "'a DArray \<Rightarrow> bool" where
  "is_full a \<longleftrightarrow> DArray_size a = DArray_capacity a"

definition DArray_resize :: "'a \<Rightarrow> nat \<Rightarrow> 'a DArray \<Rightarrow> 'a DArray res" where
  "DArray_resize mk newSize a =
     (if newSize = da_mSize a then Inr a
      else if newSize > DArray_capacity a then Inl Bad_alloc
      else if newSize < da_mSize a
      then Inr (a\<lparr>da_lives := da_lives a @ map (\<lambda>i. Destroyed i (da_mBuff a ! i)) [newSize..<da_mSize a],
                  da_mSize := newSize\<rparr>)
      else Inr (a\<lparr>da_mBuff := take (da_mSize a) (da_mBuff a)
                              @ replicate (newSize - da_mSize a) mk
                              @ drop newSize (da_mBuff a),
                  da_lives := da_lives a @ map Built [da_mSize a..<newSize],
                  da_mSize := newSize\<rparr>))"

definition DArray_clear :: "'a \<Rightarrow> 'a DArray \<Rightarrow> 'a DArray res" where
  "DArray_clear mk a = DArray_resize mk 0 a"

text \<open>\<open>grow\<close> returns the offset of the first new element.\<close>

definition DArray_grow :: "'a \<Rightarrow> nat \<Rightarrow> 'a DArray \<Rightarrow> (nat \<times> 'a DArray) res" where
  "DArray_grow mk n a =
     (let fromIdx = DArray_size a
      in res_bind (DArray_resize mk (fromIdx + n) a) (\<lambda>a'. Inr (fromIdx, a')))"

text \<open>The two element loops: towards the front from \<open>i\<close>, and towards the back from \<open>i\<close>.\<close>

function shift_down :: "nat \<Rightarrow> nat \<Rightarrow> 'a list \<Rightarrow> 'a list" where
  "shift_down i m b = (if i < m then shift_down (Suc i) m (b[i := b ! Suc i]) else b)"
  by pat_completeness auto
termination
  by (relation "measure (\<lambda>(i, m, b). m - i)") auto

fun shift_up :: "nat \<Rightarrow> nat \<Rightarrow> 'a list \<Rightarrow> 'a list" where
  "shift_up 0 lo b = b"
| "shift_up (Suc i) lo b = (if Suc i > lo then shift_up i lo (b[i := b ! (i - 1)]) else b)"

declare shift_down.simps [simp del]

definition DArray_erase :: "int \<Rightarrow> 'a DArray \<Rightarrow> 'a DArray res" where
  "DArray_erase it a =
     (if \<not> (0 \<le> it \<and> it < int (da_mSize a)) then Inl (Out_of_range ''Out of bounds !'')
      else let idx = nat it in
           Inr (a\<lparr>da_lives := da_lives a @ [Destroyed idx (da_mBuff a ! idx)],
                  da_mBuff := shift_down idx (da_mSize a - 1) (da_mBuff a),
                  da_mSize := da_mSize a - 1\<rparr>))"

definition DArray_push_back :: "'a \<Rightarrow> 'a \<Rightarrow> 'a DArray \<Rightarrow> 'a DArray res" where
  "DArray_push_back mk val a =
     res_bind (DArray_grow mk 1 a) (\<lambda>(i, a'). Inr (a'\<lparr>da_mBuff := (da_mBuff a')[i := val]\<rparr>))"

definition DArray_insert :: "'a \<Rightarrow> int \<Rightarrow> 'a \<Rightarrow> 'a DArray \<Rightarrow> 'a DArray res" where
  "DArray_insert mk itBefore val a =
     (if da_mSize a = 0
      then res_bind (DArray_resize mk 1 a) (\<lambda>a'. Inr (a'\<lparr>da_mBuff := (da_mBuff a')[0 := val]\<rparr>))
      else if itBefore = int (da_mSize a) then DArray_push_back mk val a
      else if \<not> (0 \<le> itBefore \<and> itBefore < int (da_mSize a))
      then Inl (Out_of_range ''Out of bounds !'')
      else let idx = nat itBefore in
           res_bind (DArray_resize mk (da_mSize a + 1) a) (\<lambda>a'.
             Inr (a'\<lparr>da_mBuff := (shift_up (da_mSize a') (idx + 1) (da_mBuff a'))[idx := val]\<rparr>)))"

definition DArray_push_front :: "'a \<Rightarrow> 'a \<Rightarrow> 'a DArray \<Rightarrow> 'a DArray res" where
  "DArray_push_front mk val a =
     res_bind (DArray_grow mk 1 a) (\<lambda>(_, a').
       Inr (a'\<lparr>da_mBuff := (shift_up (da_mSize a') 1 (da_mBuff a'))[0 := val]\<rparr>))"

text \<open>On an empty array \<open>mSize - 1\<close> is \<open>SIZE_MAX\<close>, which no capacity reaches.\<close>

definition DArray_pop_back :: "'a \<Rightarrow> 'a DArray \<Rightarrow> 'a DArray res" where
  "DArray_pop_back mk a =
     (if da_mSize a = 0 then Inl Bad_alloc else DArray_resize mk (da_mSize a - 1) a)"

text \<open>\<open>None\<close> is the source's \<open>DNPOS\<close> (or \<open>end()\<close>).\<close>

function find_idx_from :: "nat \<Rightarrow> nat \<Rightarrow> 'a list \<Rightarrow> 'a \<Rightarrow> nat option" where
  "find_idx_from i n b val =
     (if i < n then if b ! i = val then Some i else find_idx_from (Suc i) n b val else None)"
  by pat_completeness auto
termination
  by (relation "measure (\<lambda>(i, n, b, val). n - i)") auto

declare find_idx_from.simps [simp del]

definition DArray_find_idx :: "'a \<Rightarrow> nat \<Rightarrow> 'a DArray \<Rightarrow> nat option" where
  "DArray_find_idx val from a = find_idx_from from (da_mSize a) (da_mBuff a) val"

definition DArray_find :: "'a \<Rightarrow> 'a DArray \<Rightarrow> nat" where
  "DArray_find val a = (case find_idx_from 0 (da_mSize a) (da_mBuff a) val of
     Some i \<Rightarrow> i | None \<Rightarrow> da_mSize a)"

definition find_or_push_back :: "'a \<Rightarrow> 'a \<Rightarrow> 'a DArray \<Rightarrow> 'a DArray res" where
  "find_or_push_back mk val a =
     (if DArray_find val a \<noteq> da_mSize a then Inr a else DArray_push_back mk val a)"

fun copy_to :: "'a list \<Rightarrow> nat \<Rightarrow> 'a list \<Rightarrow> 'a list" where
  "copy_to [] i b = b"
| "copy_to (x # xs) i b = copy_to xs (Suc i) (b[i := x])"

definition append_array :: "'a \<Rightarrow> 'a list \<Rightarrow> 'a DArray \<Rightarrow> 'a DArray res" where
  "append_array mk pSrc a =
     res_bind (DArray_grow mk (length pSrc) a)
       (\<lambda>(i, a'). Inr (a'\<lparr>da_mBuff := copy_to pSrc i (da_mBuff a')\<rparr>))"

definition DArray_back :: "'a DArray \<Rightarrow> 'a res" where
  "DArray_back a = (if da_mSize a = 0 then Inl (Undefined_behaviour ''DArray::back'')
                    else Inr (da_mBuff a ! (da_mSize a - 1)))"

definition DArray_at :: "'a DArray \<Rightarrow> nat \<Rightarrow> 'a res" where
  "DArray_at a idx = (if idx < DArray_capacity a then Inr (da_mBuff a ! idx)
                      else Inl (Undefined_behaviour ''DArray::operator[]''))"

section \<open>Functions over DVec\<close>

definition Dmove :: "'a list \<Rightarrow> 'a list \<Rightarrow> 'a list \<times> 'a list" where
  "Dmove d s = (s, [])"

definition Dpush_back_unique :: "'a list \<Rightarrow> 'a \<Rightarrow> 'a list" where
  "Dpush_back_unique vec val = (if val \<in> set vec then vec else vec @ [val])"

definition Dfind :: "'a list \<Rightarrow> 'a \<Rightarrow> nat" where
  "Dfind v val = (case find_idx_from 0 (length v) v val of Some i \<Rightarrow> i | None \<Rightarrow> length v)"

definition Dgrow :: "'a \<Rightarrow> 'a list \<Rightarrow> 'a list" where
  "Dgrow mk vec = vec @ [mk]"

definition Dgrow_n :: "'a \<Rightarrow> 'a list \<Rightarrow> nat \<Rightarrow> nat option \<times> 'a list" where
  "Dgrow_n mk vec growN =
     (if growN = 0 then (None, vec) else (Some (length vec), vec @ replicate growN mk))"

definition DArray_Dgrow :: "'a \<Rightarrow> 'a DArray \<Rightarrow> 'a DArray res" where
  "DArray_Dgrow mk arr = DArray_resize mk (DArray_size arr + 1) arr"

definition DArray_Dgrow_n :: "'a \<Rightarrow> 'a DArray \<Rightarrow> nat \<Rightarrow> (nat option \<times> 'a DArray) res" where
  "DArray_Dgrow_n mk arr growN =
     (let n = DArray_size arr in
      if growN = 0 then Inr (None, arr)
      else res_bind (DArray_resize mk (n + growN) arr) (\<lambda>a'. Inr (Some n, a')))"

section \<open>DVecBits\<close>

text \<open>The bit set keeps \<open>_NUM\<close> bytes for \<open>_NUM\<close> bits; \<open>i < _NUM\<close> is its contract.\<close>

type_synonym DVecBits = "U8 list"

definition DVecBits_init :: "nat \<Rightarrow> DVecBits" where
  "DVecBits_init num = replicate num 0"

definition DVecBits_Set :: "nat \<Rightarrow> DVecBits \<Rightarrow> DVecBits" where
  "DVecBits_Set i d = d[i div 8 := d ! (i div 8) OR push_bit (i mod 8) 1]"

definition DVecBits_Reset :: "nat \<Rightarrow> DVecBits \<Rightarrow> DVecBits" where
  "DVecBits_Reset i d = d[i div 8 := d ! (i div 8) AND NOT (push_bit (i mod 8) 1)]"

definition DVecBits_IsSet :: "nat \<Rightarrow> DVecBits \<Rightarrow> bool" where
  "DVecBits_IsSet i d \<longleftrightarrow> d ! (i div 8) AND push_bit (i mod 8) 1 \<noteq> 0"


section \<open>DArray refines a list of bounded length\<close>

definition DArray_list :: "'a DArray \<Rightarrow> 'a list" where
  "DArray_list a = take (da_mSize a) (da_mBuff a)"

definition DArray_ok :: "'a DArray \<Rightarrow> bool" where
  "DArray_ok a \<longleftrightarrow> da_mSize a \<le> length (da_mBuff a)"

lemma length_DArray_list [simp]: "DArray_ok a \<Longrightarrow> length (DArray_list a) = da_mSize a"
  by (simp add: DArray_ok_def DArray_list_def)

lemma length_shift_down [simp]: "length (shift_down i m b) = length b"
  by (induction i m b rule: shift_down.induct) (subst shift_down.simps, simp)

lemma nth_shift_down:
  "m < length b \<Longrightarrow> j < length b \<Longrightarrow>
     shift_down i m b ! j = (if i \<le> j \<and> j < m then b ! Suc j else b ! j)"
proof (induction i m b rule: shift_down.induct)
  case (1 i m b)
  show ?case
  proof (cases "i < m")
    case True
    with 1 show ?thesis by (subst shift_down.simps) (auto simp: nth_list_update)
  next
    case False
    then show ?thesis by (subst shift_down.simps) auto
  qed
qed

lemma length_shift_up [simp]: "length (shift_up n lo b) = length b"
  by (induction n lo b rule: shift_up.induct) auto

lemma nth_shift_up:
  "n \<le> length b \<Longrightarrow> 0 < lo \<Longrightarrow> j < length b \<Longrightarrow>
     shift_up n lo b ! j = (if lo \<le> j \<and> j < n then b ! (j - 1) else b ! j)"
  by (induction n lo b rule: shift_up.induct) (auto simp: nth_list_update less_Suc_eq)

declare shift_up.simps [simp del]

lemma DArray_resize_grow:
  assumes "DArray_ok a" and "da_mSize a + n \<le> DArray_capacity a"
  shows "\<exists>a'. DArray_resize mk (da_mSize a + n) a = Inr a' \<and> DArray_ok a'
           \<and> DArray_capacity a' = DArray_capacity a \<and> da_mSize a' = da_mSize a + n
           \<and> DArray_list a' = DArray_list a @ replicate n mk
           \<and> da_lives a' = da_lives a @ map Built [da_mSize a..<da_mSize a + n]"
proof (cases "n = 0")
  case True
  with assms show ?thesis by (simp add: DArray_resize_def)
next
  case False
  with assms show ?thesis
    by (simp add: DArray_resize_def DArray_ok_def DArray_capacity_def DArray_list_def min_def)
qed

lemma DArray_resize_full:
  "DArray_capacity a < da_mSize a + n \<Longrightarrow> DArray_ok a \<Longrightarrow>
     DArray_resize mk (da_mSize a + n) a = Inl Bad_alloc"
  by (auto simp: DArray_resize_def DArray_ok_def DArray_capacity_def)

lemma DArray_push_back_list:
  assumes "DArray_ok a" and "da_mSize a < DArray_capacity a"
  shows "\<exists>a'. DArray_push_back mk x a = Inr a' \<and> DArray_ok a'
           \<and> DArray_capacity a' = DArray_capacity a \<and> DArray_list a' = DArray_list a @ [x]
           \<and> da_lives a' = da_lives a @ [Built (da_mSize a)]"
proof -
  from DArray_resize_grow [of a 1 mk] assms obtain b where
    b: "DArray_resize mk (da_mSize a + 1) a = Inr b" "DArray_ok b"
    "DArray_capacity b = DArray_capacity a" "da_mSize b = da_mSize a + 1"
    "DArray_list b = DArray_list a @ [mk]" "da_lives b = da_lives a @ [Built (da_mSize a)]"
    by auto
  then have "DArray_list (b\<lparr>da_mBuff := (da_mBuff b)[da_mSize a := x]\<rparr>) = DArray_list a @ [x]"
    using assms(1) arg_cong [OF b(5), of "\<lambda>l. l[da_mSize a := x]"]
    by (simp add: DArray_list_def take_update_swap DArray_ok_def list_update_append)
  with b show ?thesis
    by (simp add: DArray_push_back_def DArray_grow_def DArray_size_def DArray_ok_def
        DArray_capacity_def)
qed

lemma DArray_push_back_full:
  assumes "DArray_ok a" and "da_mSize a = DArray_capacity a"
  shows "DArray_push_back mk x a = Inl Bad_alloc"
  using DArray_resize_full [of a 1 mk] assms
  by (simp add: DArray_push_back_def DArray_grow_def DArray_size_def)

text \<open>The interface of a sequence of bounded capacity that grows at its end.\<close>

locale bounded_seq =
  fixes push :: "'a \<Rightarrow> 's \<Rightarrow> 's res"
    and elems :: "'s \<Rightarrow> 'a list"
    and cap :: "'s \<Rightarrow> nat"
    and ok :: "'s \<Rightarrow> bool"
  assumes push_ok: "ok s \<Longrightarrow> length (elems s) < cap s \<Longrightarrow>
      \<exists>s'. push x s = Inr s' \<and> ok s' \<and> cap s' = cap s \<and> elems s' = elems s @ [x]"
    and push_full: "ok s \<Longrightarrow> length (elems s) = cap s \<Longrightarrow> push x s = Inl Bad_alloc"
    and elems_le: "ok s \<Longrightarrow> length (elems s) \<le> cap s"
begin

fun push_all :: "'a list \<Rightarrow> 's \<Rightarrow> 's res" where
  "push_all [] s = Inr s"
| "push_all (x # xs) s = res_bind (push x s) (push_all xs)"

lemma push_all_fits:
  "ok s \<Longrightarrow> length (elems s) + length xs \<le> cap s \<Longrightarrow>
     \<exists>s'. push_all xs s = Inr s' \<and> ok s' \<and> elems s' = elems s @ xs"
proof (induction xs arbitrary: s)
  case Nil
  then show ?case by simp
next
  case (Cons x xs)
  then obtain s1 where "push x s = Inr s1" "ok s1" "cap s1 = cap s" "elems s1 = elems s @ [x]"
    using push_ok [of s x] by auto
  with Cons.IH [of s1] Cons.prems show ?case by simp
qed

lemma push_all_overflows:
  "ok s \<Longrightarrow> cap s < length (elems s) + length xs \<Longrightarrow> push_all xs s = Inl Bad_alloc"
proof (induction xs arbitrary: s)
  case Nil
  then show ?case using elems_le [of s] by simp
next
  case (Cons x xs)
  show ?case
  proof (cases "length (elems s) = cap s")
    case True
    with Cons.prems push_full [of s x] show ?thesis by simp
  next
    case False
    then obtain s1 where "push x s = Inr s1" "ok s1" "cap s1 = cap s" "elems s1 = elems s @ [x]"
      using push_ok [of s x] elems_le [of s] Cons.prems by auto
    with Cons.IH [of s1] Cons.prems show ?thesis by simp
  qed
qed

end

interpretation darray: bounded_seq "DArray_push_back mk" DArray_list DArray_capacity DArray_ok
  for mk
proof
  fix s :: "'a DArray" and x
  assume ok: "DArray_ok s"
  show "length (DArray_list s) < DArray_capacity s \<Longrightarrow>
      \<exists>s'. DArray_push_back mk x s = Inr s' \<and> DArray_ok s'
        \<and> DArray_capacity s' = DArray_capacity s \<and> DArray_list s' = DArray_list s @ [x]"
    using DArray_push_back_list [OF ok] ok by fastforce
  show "length (DArray_list s) = DArray_capacity s \<Longrightarrow> DArray_push_back mk x s = Inl Bad_alloc"
    using DArray_push_back_full [OF ok] ok by simp
  show "length (DArray_list s) \<le> DArray_capacity s"
    using ok by (simp add: DArray_ok_def DArray_capacity_def)
qed

lemma nth_DArray_list: "DArray_ok a \<Longrightarrow> i < da_mSize a \<Longrightarrow> DArray_list a ! i = da_mBuff a ! i"
  by (simp add: DArray_list_def)

lemma DArray_erase_list:
  assumes "DArray_ok a" and "i < da_mSize a"
  shows "\<exists>a'. DArray_erase (int i) a = Inr a' \<and> DArray_ok a'
           \<and> DArray_list a' = take i (DArray_list a) @ drop (Suc i) (DArray_list a)
           \<and> da_lives a' = da_lives a @ [Destroyed i (DArray_list a ! i)]"
proof -
  let ?b = "shift_down i (da_mSize a - 1) (da_mBuff a)"
  have len: "da_mSize a \<le> length (da_mBuff a)" using assms(1) by (simp add: DArray_ok_def)
  have "take (da_mSize a - 1) ?b = take i (DArray_list a) @ drop (Suc i) (DArray_list a)"
  proof (rule nth_equalityI)
    fix j
    assume "j < length (take (da_mSize a - 1) ?b)"
    then have j: "j < da_mSize a - 1" by simp
    then show "take (da_mSize a - 1) ?b ! j
        = (take i (DArray_list a) @ drop (Suc i) (DArray_list a)) ! j"
      using assms len by (auto simp: nth_append nth_shift_down DArray_list_def)
  qed (use assms len in \<open>simp add: DArray_list_def\<close>)
  then show ?thesis
    using assms len by (simp add: DArray_erase_def DArray_ok_def DArray_list_def Let_def)
qed

lemma DArray_insert_list:
  assumes "DArray_ok a" and "i \<le> da_mSize a" and "da_mSize a < DArray_capacity a"
  shows "\<exists>a'. DArray_insert mk (int i) x a = Inr a' \<and> DArray_ok a'
           \<and> DArray_list a' = take i (DArray_list a) @ x # drop i (DArray_list a)
           \<and> da_lives a' = da_lives a @ [Built (da_mSize a)]"
proof -
  consider (none) "da_mSize a = 0" | (atend) "da_mSize a \<noteq> 0" and "i = da_mSize a"
    | (mid) "i < da_mSize a"
    using assms(2) by linarith
  then show ?thesis
  proof cases
    case none
    with assms show ?thesis
      by (cases "da_mBuff a")
         (auto simp: DArray_insert_def DArray_resize_def DArray_ok_def DArray_capacity_def DArray_list_def)
  next
    case atend
    with DArray_push_back_list [OF assms(1,3), of mk x] assms show ?thesis
      by (auto simp: DArray_insert_def)
  next
    case mid
    from DArray_resize_grow [of a 1 mk] assms obtain b where
      b: "DArray_resize mk (da_mSize a + 1) a = Inr b" "DArray_ok b"
      "da_mSize b = da_mSize a + 1" "DArray_list b = DArray_list a @ [mk]"
      "da_lives b = da_lives a @ [Built (da_mSize a)]" by auto
    let ?c = "(shift_up (da_mSize b) (i + 1) (da_mBuff b))[i := x]"
    have len: "da_mSize b \<le> length (da_mBuff b)" using b(2) by (simp add: DArray_ok_def)
    have old: "da_mBuff b ! j = DArray_list a ! j" if "j < da_mSize a" for j
      using that b(3) nth_DArray_list [OF b(2), of j] assms(1) by (simp add: b(4) nth_append)
    have "take (da_mSize b) ?c = take i (DArray_list a) @ x # drop i (DArray_list a)"
    proof (rule nth_equalityI)
      fix j
      assume "j < length (take (da_mSize b) ?c)"
      then have "j < da_mSize b" by simp
      then show "take (da_mSize b) ?c ! j
          = (take i (DArray_list a) @ x # drop i (DArray_list a)) ! j"
        using mid len b(3) assms(1) old [of j] old [of "j - 1"]
        by (auto simp: nth_append nth_shift_up nth_list_update nth_Cons')
    qed (use mid len b(3) assms(1) in simp)
    with b mid len show ?thesis
      by (simp add: DArray_insert_def DArray_ok_def DArray_list_def)
  qed
qed

text \<open>
  C30: \<open>DArray::insert\<close> and \<open>DArray::erase\<close> are the list operations they are meant to be.
  Inserting a value at any offset up to the size of an array that is not full puts it there
  and keeps the other elements in order; erasing that offset again gives back the original
  elements, and the array's invariant is kept throughout. The insertion constructs one object,
  in the slot after the old end, and the erasure calls the destructor once, on the element it
  removes.
\<close>

theorem DArray_insert_erase:
  assumes "DArray_ok a" and "i \<le> DArray_size a" and "\<not> is_full a"
  shows "\<exists>a' a''. DArray_insert mk (int i) x a = Inr a'
           \<and> DArray_list a' = take i (DArray_list a) @ x # drop i (DArray_list a)
           \<and> DArray_erase (int i) a' = Inr a''
           \<and> DArray_list a'' = DArray_list a \<and> DArray_ok a' \<and> DArray_ok a''
           \<and> da_lives a' = da_lives a @ [Built (DArray_size a)]
           \<and> da_lives a'' = da_lives a' @ [Destroyed i x]"
proof -
  have "da_mSize a < DArray_capacity a" "i \<le> da_mSize a"
    using assms by (auto simp: is_full_def DArray_size_def DArray_capacity_def DArray_ok_def)
  with DArray_insert_list [OF assms(1)] obtain a' where
    a': "DArray_insert mk (int i) x a = Inr a'" "DArray_ok a'"
    "DArray_list a' = take i (DArray_list a) @ x # drop i (DArray_list a)"
    "da_lives a' = da_lives a @ [Built (da_mSize a)]" by blast
  have "length (DArray_list a') = Suc (da_mSize a)"
    using a'(3) assms(1) \<open>i \<le> da_mSize a\<close> by simp
  then have "i < da_mSize a'" using a'(2) \<open>i \<le> da_mSize a\<close> by simp
  from DArray_erase_list [OF a'(2) this] obtain a'' where
    "DArray_erase (int i) a' = Inr a''" "DArray_ok a''"
    "DArray_list a'' = take i (DArray_list a') @ drop (Suc i) (DArray_list a')"
    "da_lives a'' = da_lives a' @ [Destroyed i (DArray_list a' ! i)]" by blast
  moreover have "DArray_list a' ! i = x"
    using a'(3) assms(1) \<open>i \<le> da_mSize a\<close> by (simp add: nth_append)
  moreover have "take i (DArray_list a') @ drop (Suc i) (DArray_list a') = DArray_list a"
    using a'(3) assms(1) \<open>i \<le> da_mSize a\<close> by simp
  ultimately show ?thesis using a' by (auto simp: DArray_size_def)
qed

theorem DArray_insert_erase_witness:
  "\<exists>a' a''. DArray_insert 0 (int 1) 9
       \<lparr>da_mBuff = [5, 6, 7, 8 :: nat], da_mSize = 2, da_lives = []\<rparr> = Inr a'
     \<and> DArray_list a' = [5, 9, 6] \<and> DArray_erase (int 1) a' = Inr a''
     \<and> DArray_list a'' = [5, 6] \<and> da_lives a'' = [Built 2, Destroyed 1 9]"
  using DArray_insert_erase
    [of "\<lparr>da_mBuff = [5, 6, 7, 8 :: nat], da_mSize = 2, da_lives = []\<rparr>" 1 0 9]
  by (auto simp: DArray_ok_def DArray_size_def is_full_def DArray_capacity_def DArray_list_def)

text \<open>
  The copy constructor of \<open>DArray\<close> does not copy. \<open>copyFrom\<close> loops over the new array's
  own size, which is still 0, so a copy is empty whatever it is made from.
\<close>

theorem DArray_copy_is_empty: "DArray_list (DArray_copy raw from) = []"
  by (simp add: DArray_copy_def copyFrom_def DArray_init_def DArray_list_def)

section \<open>DVecBits refines a set\<close>

definition DVecBits_set :: "DVecBits \<Rightarrow> nat set" where
  "DVecBits_set d = {i. i < length d \<and> DVecBits_IsSet i d}"

lemma DVecBits_IsSet_bit:
  "DVecBits_IsSet i d \<longleftrightarrow> bit (d ! (i div 8)) (i mod 8)"
  by (simp add: DVecBits_IsSet_def bit_iff_and_push_bit_not_eq_0)

lemma DVecBits_IsSet_Set:
  assumes "i < length d" and "j < length d"
  shows "DVecBits_IsSet j (DVecBits_Set i d) \<longleftrightarrow> j = i \<or> DVecBits_IsSet j d"
proof -
  have "i div 8 < length d" using assms by linarith
  moreover have "j = i \<longleftrightarrow> j div 8 = i div 8 \<and> j mod 8 = i mod 8"
    by (metis div_mult_mod_eq)
  ultimately show ?thesis
    by (auto simp: DVecBits_IsSet_bit DVecBits_Set_def nth_list_update bit_simps)
qed

lemma DVecBits_IsSet_Reset:
  assumes "i < length d" and "j < length d"
  shows "DVecBits_IsSet j (DVecBits_Reset i d) \<longleftrightarrow> j \<noteq> i \<and> DVecBits_IsSet j d"
proof -
  have "i div 8 < length d" using assms by linarith
  moreover have "j = i \<longleftrightarrow> j div 8 = i div 8 \<and> j mod 8 = i mod 8"
    by (metis div_mult_mod_eq)
  ultimately show ?thesis
    by (auto simp: DVecBits_IsSet_bit DVecBits_Reset_def nth_list_update bit_simps)
qed

text \<open>
  C31: \<open>DVecBits<_NUM>\<close> is a set of indices below \<open>_NUM\<close>. A fresh one is empty, \<open>Set\<close> adds
  exactly its index, \<open>Reset\<close> removes exactly its index, and neither disturbs the other
  bits packed into the same byte.
\<close>

theorem DVecBits_refines_set:
  assumes "i < length d"
  shows "DVecBits_set (DVecBits_init (length d)) = {}
    \<and> DVecBits_set (DVecBits_Set i d) = insert i (DVecBits_set d)
    \<and> DVecBits_set (DVecBits_Reset i d) = DVecBits_set d - {i}"
proof (intro conjI)
  show "DVecBits_set (DVecBits_init (length d)) = {}"
    by (auto simp: DVecBits_set_def DVecBits_init_def DVecBits_IsSet_def)
  have "length (DVecBits_Set i d) = length d" "length (DVecBits_Reset i d) = length d"
    by (simp_all add: DVecBits_Set_def DVecBits_Reset_def)
  then show "DVecBits_set (DVecBits_Set i d) = insert i (DVecBits_set d)"
    and "DVecBits_set (DVecBits_Reset i d) = DVecBits_set d - {i}"
    using assms by (auto simp: DVecBits_set_def DVecBits_IsSet_Set DVecBits_IsSet_Reset)
qed

theorem DVecBits_refines_set_witness:
  "DVecBits_set (DVecBits_Set 9 (DVecBits_init 12)) = insert 9 (DVecBits_set (DVecBits_init 12))"
  using DVecBits_refines_set [of 9 "DVecBits_init 12"] by (simp add: DVecBits_init_def)

end
