(* ===== verification/PacketManager.thy ===== *)
theory PacketManager
  imports Containers
begin

text \<open>
  The network packet manager of \<open>DSystem/include/DNetwork_PacketManager.h\<close> and
  \<open>DSystem/src/DNetwork_PacketManager.cpp\<close>: the outgoing queue, the receive queue, and the
  thread that frames packets (a 32-bit length, then the data) on a non-blocking socket.
  A packet pointer is a packet with its address \<open>pk_ref\<close>, fresh at each allocation, because
  \<open>RemovePacket\<close> compares pointers. The mutexes make each queue operation atomic, so an
  execution is a sequence of operations and thread iterations. The socket is the
  environment: what \<open>select\<close>, \<open>send\<close> and \<open>recv\<close> answer is an argument.
\<close>

record Packet =
  pk_ref :: nat
  pk_mDataBuff :: bytes

text \<open>The manager's fields, and the local variables of \<open>threadMain\<close>, which live as long.\<close>

record PacketManager =
  pm_mSocket :: "nat option"
  pm_mInQueue :: "Packet list"
  pm_mQueue :: "Packet list"
  pm_mRecvOutQueue :: "Packet list"
  pm_mFatalError :: bool
  pm_mQuitRequest :: bool
  pm_mQuitAck :: bool
  pm_curRecvPackDoneHeadSize :: nat
  pm_curRecvPackDataSize :: nat
  pm_curRecvPackDoneDataSize :: nat
  pm_curSendPackDataSize :: nat
  pm_recvBuff :: bytes
  pm_nextRef :: nat

definition PacketManager_init :: "nat option \<Rightarrow> PacketManager" where
  "PacketManager_init socket =
     \<lparr>pm_mSocket = socket, pm_mInQueue = [], pm_mQueue = [], pm_mRecvOutQueue = [],
      pm_mFatalError = False, pm_mQuitRequest = False, pm_mQuitAck = False,
      pm_curRecvPackDoneHeadSize = 0, pm_curRecvPackDataSize = 0,
      pm_curRecvPackDoneDataSize = 0, pm_curSendPackDataSize = 0, pm_recvBuff = [],
      pm_nextRef = 0\<rparr>"

definition GetDataPtrRecv :: "Packet \<Rightarrow> nat option" where
  "GetDataPtrRecv p = (if length (pk_mDataBuff p) \<noteq> 0 then Some 0 else None)"

definition GetDataPtrSend :: "Packet \<Rightarrow> nat option" where
  "GetDataPtrSend p = (if 4 \<le> length (pk_mDataBuff p) then Some 4 else None)"

definition IsConnected :: "PacketManager \<Rightarrow> bool" where
  "IsConnected s \<longleftrightarrow> pm_mSocket s \<noteq> None \<and> \<not> pm_mFatalError s"

text \<open>The buffer of an outgoing packet: the size as a \<open>U32\<close>, then the data.\<close>

definition frame :: "bytes \<Rightarrow> bytes" where
  "frame d = le_bytes 4 (length d) @ d"

definition Send :: "bytes \<Rightarrow> PacketManager \<Rightarrow> PacketManager" where
  "Send pData s =
     s\<lparr>pm_mInQueue := pm_mInQueue s @ [\<lparr>pk_ref = pm_nextRef s, pk_mDataBuff = frame pData\<rparr>],
       pm_nextRef := Suc (pm_nextRef s)\<rparr>"

text \<open>\<open>SendBegin\<close> allocates the packet; its data is zero until the caller writes it.\<close>

definition SendBegin :: "nat \<Rightarrow> PacketManager \<Rightarrow> Packet \<times> PacketManager" where
  "SendBegin dataSize s =
     (\<lparr>pk_ref = pm_nextRef s, pk_mDataBuff = le_bytes 4 dataSize @ replicate dataSize 0\<rparr>,
      s\<lparr>pm_nextRef := Suc (pm_nextRef s)\<rparr>)"

definition SendEnd :: "Packet \<Rightarrow> PacketManager \<Rightarrow> PacketManager" where
  "SendEnd pPacket s = s\<lparr>pm_mInQueue := pm_mInQueue s @ [pPacket]\<rparr>"

definition FlushInQueue :: "PacketManager \<Rightarrow> PacketManager" where
  "FlushInQueue s =
     (if pm_mInQueue s = [] then s
      else s\<lparr>pm_mQueue := pm_mQueue s @ pm_mInQueue s, pm_mInQueue := []\<rparr>)"

definition GetNextPacket :: "bool \<Rightarrow> PacketManager \<Rightarrow> Packet option \<times> PacketManager" where
  "GetNextPacket doRemove s =
     (case pm_mRecvOutQueue s of
        [] \<Rightarrow> (None, s)
      | p # ps \<Rightarrow> (Some p, if doRemove then s\<lparr>pm_mRecvOutQueue := ps\<rparr> else s))"

text \<open>
  The scan of \<open>GetNextPacketMatchID32\<close> and \<open>GetNextPacketMatchID8\<close>: the identifier is the
  first \<open>n\<close> bytes of the packet. Reading it from a shorter packet is undefined.
\<close>

fun match_scan :: "nat \<Rightarrow> nat list \<Rightarrow> nat \<Rightarrow> Packet list \<Rightarrow> (nat \<times> Packet) option res" where
  "match_scan n ids i [] = Inr None"
| "match_scan n ids i (p # ps) =
     (if length (pk_mDataBuff p) < n then Inl (Undefined_behaviour ''GetNextPacketMatchID'')
      else if le_nat (take n (pk_mDataBuff p)) \<in> set ids then Inr (Some (i, p))
      else match_scan n ids (Suc i) ps)"

definition erase_at :: "nat \<Rightarrow> 'a list \<Rightarrow> 'a list" where
  "erase_at i xs = take i xs @ drop (Suc i) xs"

definition GetNextPacketMatch ::
  "nat \<Rightarrow> bool \<Rightarrow> nat list \<Rightarrow> PacketManager \<Rightarrow> Packet option res \<times> PacketManager" where
  "GetNextPacketMatch n doRemove ids s =
     (case match_scan n ids 0 (pm_mRecvOutQueue s) of
        Inl e \<Rightarrow> (Inl e, s)
      | Inr None \<Rightarrow> (Inr None, s)
      | Inr (Some (i, p)) \<Rightarrow>
          (Inr (Some p),
           if doRemove then s\<lparr>pm_mRecvOutQueue := erase_at i (pm_mRecvOutQueue s)\<rparr> else s))"

definition GetNextPacketMatchID32 ::
  "bool \<Rightarrow> nat list \<Rightarrow> PacketManager \<Rightarrow> Packet option res \<times> PacketManager" where
  "GetNextPacketMatchID32 doRemove matchArray s = GetNextPacketMatch 4 doRemove matchArray s"

definition GetNextPacketMatchID8 ::
  "bool \<Rightarrow> nat list \<Rightarrow> PacketManager \<Rightarrow> Packet option res \<times> PacketManager" where
  "GetNextPacketMatchID8 doRemove matchArray s = GetNextPacketMatch 1 doRemove matchArray s"

text \<open>A packet that is not in the queue only trips \<open>DASSERT( 0 )\<close>.\<close>

fun remove_ref :: "nat \<Rightarrow> Packet list \<Rightarrow> Packet list" where
  "remove_ref a [] = []"
| "remove_ref a (p # ps) = (if pk_ref p = a then ps else p # remove_ref a ps)"

definition RemovePacket :: "Packet \<Rightarrow> PacketManager \<Rightarrow> PacketManager" where
  "RemovePacket pPacket s =
     s\<lparr>pm_mRecvOutQueue := remove_ref (pk_ref pPacket) (pm_mRecvOutQueue s)\<rparr>"

text \<open>
  \<open>WaitNextPacket\<close> and \<open>WaitNextPacketMatchID32\<close>: poll until there is a packet, the time is
  over (never when the timeout is 0) or the connection has failed. \<open>env\<close> lists what happens
  during each sleep (the other thread's effect on the manager) and whether the timeout has
  then expired; \<open>None\<close> as the outer result means that the list ended while the call was
  still waiting.
\<close>

fun wait_loop ::
  "(PacketManager \<Rightarrow> Packet option res \<times> PacketManager) \<Rightarrow> bool \<Rightarrow> bool
     \<Rightarrow> ((PacketManager \<Rightarrow> PacketManager) \<times> bool) list \<Rightarrow> PacketManager
     \<Rightarrow> (Packet option res \<times> PacketManager) option" where
  "wait_loop get forever expired env s =
     (case get s of
        (Inl e, s') \<Rightarrow> Some (Inl e, s')
      | (Inr (Some p), s') \<Rightarrow> Some (Inr (Some p), s')
      | (Inr None, s') \<Rightarrow>
          if \<not> forever \<and> expired then Some (Inr None, s')
          else if pm_mFatalError s' then Some (Inr None, s')
          else case env of
                 [] \<Rightarrow> None
               | (act, ex) # env' \<Rightarrow> wait_loop get forever ex env' (act s'))"

declare wait_loop.simps [simp del]

definition WaitNextPacket ::
  "bool \<Rightarrow> bool \<Rightarrow> ((PacketManager \<Rightarrow> PacketManager) \<times> bool) list \<Rightarrow> PacketManager
     \<Rightarrow> (Packet option res \<times> PacketManager) option" where
  "WaitNextPacket doRemove forever env s =
     (if pm_mFatalError s then Some (Inr None, s)
      else wait_loop (\<lambda>s. case GetNextPacket doRemove s of (p, s') \<Rightarrow> (Inr p, s')) forever False env s)"

definition WaitNextPacketMatchID32 ::
  "bool \<Rightarrow> nat list \<Rightarrow> bool \<Rightarrow> ((PacketManager \<Rightarrow> PacketManager) \<times> bool) list \<Rightarrow> PacketManager
     \<Rightarrow> (Packet option res \<times> PacketManager) option" where
  "WaitNextPacketMatchID32 doRemove matchArray forever env s =
     (if pm_mFatalError s then Some (Inr None, s)
      else wait_loop (GetNextPacketMatchID32 doRemove matchArray) forever False env s)"

section \<open>The thread\<close>

text \<open>
  What the socket answers: an error (would it block?), or for \<open>send\<close> the number of bytes
  it has room for and for \<open>recv\<close> the bytes it has available. As documented, \<open>send\<close> takes
  at most the bytes it is given and \<open>recv\<close> returns at most the bytes it is asked for.
\<close>

datatype send_ans = SendErr bool | Room nat
datatype recv_ans = RecvErr bool | Avail bytes

text \<open>
  The sizes are cast to \<open>int\<close>. A buffer that lacks \<open>2 ^ 31\<close> bytes or more may give a negative
  one, which no buffer has and the socket refuses, or one that is too small.
\<close>

definition int_size :: "nat \<Rightarrow> int" where
  "int_size n = signed_take_bit 31 (int n)"

datatype nice = NiceError | NiceMore | NiceBlock | NiceDone

definition niceSend :: "send_ans \<Rightarrow> bytes \<Rightarrow> nat \<Rightarrow> nice \<times> nat" where
  "niceSend ans data curSize =
     (case ans of
        SendErr wouldBlock \<Rightarrow> (if wouldBlock then NiceBlock else NiceError, curSize)
      | Room n \<Rightarrow>
          let size = int_size (length data - curSize); doneSize = min n (nat size)
          in if size < 0 then (NiceError, curSize)
             else (if curSize + doneSize = length data then NiceDone else NiceMore, curSize + doneSize))"

definition niceRecv :: "recv_ans \<Rightarrow> bytes \<Rightarrow> nat \<Rightarrow> nice \<times> bytes \<times> nat" where
  "niceRecv ans data curSize =
     (case ans of
        RecvErr wouldBlock \<Rightarrow> (if wouldBlock then NiceBlock else NiceError, data, curSize)
      | Avail avail \<Rightarrow>
          let size = int_size (length data - curSize); bs = take (nat size) avail
          in if size < 0 then (NiceError, data, curSize)
             else (if curSize + length bs = length data then NiceDone else NiceMore,
              take curSize data @ bs @ drop (curSize + length bs) data,
              curSize + length bs))"

text \<open>
  The sending loop, one answer per call of \<open>send\<close>; when the answers are used up the socket
  blocks. The first result is what went out on the wire.
\<close>

fun send_loop :: "send_ans list \<Rightarrow> PacketManager \<Rightarrow> bytes \<times> PacketManager" where
  "send_loop [] s = ([], s)"
| "send_loop (a # as) s =
     (case pm_mQueue s of
        [] \<Rightarrow> ([], s)
      | p # ps \<Rightarrow>
          let cur = pm_curSendPackDataSize s;
              (r, cur') = niceSend a (pk_mDataBuff p) cur;
              out = take (cur' - cur) (drop cur (pk_mDataBuff p));
              s1 = s\<lparr>pm_curSendPackDataSize := cur'\<rparr>
          in case r of
               NiceBlock \<Rightarrow> (out, s1)
             | NiceError \<Rightarrow> (out, s1\<lparr>pm_mFatalError := True\<rparr>)
             | NiceDone \<Rightarrow>
                 (let (o2, s2) = send_loop as (s1\<lparr>pm_mQueue := ps, pm_curSendPackDataSize := 0\<rparr>)
                  in (out @ o2, s2))
             | NiceMore \<Rightarrow> (let (o2, s2) = send_loop as s1 in (out @ o2, s2)))"

text \<open>
  Reading the head: \<open>recv\<close> stores at the address of \<open>curRecvPackDataSize\<close>, always at its
  first byte, up to as many bytes as the head still lacks.
\<close>

definition store_head :: "nat \<Rightarrow> bytes \<Rightarrow> nat" where
  "store_head v bs = le_nat (bs @ drop (length bs) (le_bytes 8 v))"

definition recv_head :: "recv_ans \<Rightarrow> PacketManager \<Rightarrow> PacketManager" where
  "recv_head ans s =
     (if pm_curRecvPackDoneHeadSize s < 4 then
        case ans of
          RecvErr wouldBlock \<Rightarrow> if wouldBlock then s else s\<lparr>pm_mFatalError := True\<rparr>
        | Avail avail \<Rightarrow>
            let bs = take (4 - pm_curRecvPackDoneHeadSize s) avail;
                v = store_head (pm_curRecvPackDataSize s) bs;
                s1 = s\<lparr>pm_curRecvPackDataSize := v,
                       pm_curRecvPackDoneHeadSize := pm_curRecvPackDoneHeadSize s + length bs\<rparr>
            in if pm_curRecvPackDoneHeadSize s1 = 4
               then s1\<lparr>pm_recvBuff := take v (pm_recvBuff s1)
                                       @ replicate (v - length (pm_recvBuff s1)) 0\<rparr>
               else s1
      else s)"

definition recv_body :: "recv_ans \<Rightarrow> PacketManager \<Rightarrow> PacketManager" where
  "recv_body ans s =
     (if pm_curRecvPackDoneHeadSize s = 4 then
        let (r, buff, done) = niceRecv ans (pm_recvBuff s) (pm_curRecvPackDoneDataSize s);
            s1 = s\<lparr>pm_recvBuff := buff, pm_curRecvPackDoneDataSize := done\<rparr>
        in case r of
             NiceBlock \<Rightarrow> s1
           | NiceError \<Rightarrow> s1\<lparr>pm_mFatalError := True\<rparr>
           | NiceMore \<Rightarrow> s1
           | NiceDone \<Rightarrow>
               s1\<lparr>pm_mRecvOutQueue := pm_mRecvOutQueue s1
                    @ [\<lparr>pk_ref = pm_nextRef s1, pk_mDataBuff = buff\<rparr>],
                  pm_nextRef := Suc (pm_nextRef s1),
                  pm_recvBuff := [],
                  pm_curRecvPackDoneHeadSize := 0,
                  pm_curRecvPackDataSize := 0,
                  pm_curRecvPackDoneDataSize := 0\<rparr>
      else s)"

record sock_env =
  env_selectOk :: bool
  env_sends :: "send_ans list"
  env_head :: recv_ans
  env_body :: recv_ans

text \<open>One turn of the \<open>while ( true )\<close> loop of \<open>threadMain\<close>.\<close>

definition threadMain_turn :: "sock_env \<Rightarrow> PacketManager \<Rightarrow> bytes \<times> PacketManager" where
  "threadMain_turn env s =
     (if pm_mQuitRequest s then ([], s\<lparr>pm_mQuitAck := True\<rparr>)
      else if pm_mFatalError s then ([], s)
      else
        let s1 = FlushInQueue s in
        if \<not> env_selectOk env then ([], s1\<lparr>pm_mFatalError := True\<rparr>)
        else
          let (out, s2) = send_loop (env_sends env) s1 in
          if pm_mFatalError s2 then (out, s2)
          else
            let s3 = recv_head (env_head env) s2 in
            if pm_mFatalError s3 then (out, s3)
            else (out, recv_body (env_body env) s3))"

text \<open>An execution interleaves the callers' operations with turns of the thread.\<close>

datatype action =
    ASend bytes
  | AGet bool
  | AMatch bool "nat list"
  | ARemove Packet
  | AQuit
  | ATurn sock_env

fun pm_step :: "action \<Rightarrow> PacketManager \<Rightarrow> bytes \<times> PacketManager" where
  "pm_step (ASend d) s = ([], Send d s)"
| "pm_step (AGet r) s = ([], snd (GetNextPacket r s))"
| "pm_step (AMatch r ids) s = ([], snd (GetNextPacketMatchID32 r ids s))"
| "pm_step (ARemove p) s = ([], RemovePacket p s)"
| "pm_step AQuit s = ([], s\<lparr>pm_mQuitRequest := True\<rparr>)"
| "pm_step (ATurn env) s = threadMain_turn env s"

fun pm_run :: "action list \<Rightarrow> PacketManager \<Rightarrow> bytes \<times> PacketManager" where
  "pm_run [] s = ([], s)"
| "pm_run (a # as) s =
     (let (o1, s1) = pm_step a s; (o2, s2) = pm_run as s1 in (o1 @ o2, s2))"


section \<open>Sending: the wire carries the frames in order\<close>

text \<open>What is still to be sent: the rest of the queue, then the input queue.\<close>

definition out_stream :: "PacketManager \<Rightarrow> bytes" where
  "out_stream s = drop (pm_curSendPackDataSize s) (concat (map pk_mDataBuff (pm_mQueue s)))
     @ concat (map pk_mDataBuff (pm_mInQueue s))"

definition send_ok :: "PacketManager \<Rightarrow> bool" where
  "send_ok s \<longleftrightarrow> (\<forall>p \<in> set (pm_mQueue s) \<union> set (pm_mInQueue s). pk_mDataBuff p \<noteq> [])
     \<and> (if pm_mQueue s = [] then pm_curSendPackDataSize s = 0
        else pm_curSendPackDataSize s < length (pk_mDataBuff (hd (pm_mQueue s))))"

text \<open>The receiving half of the state, which sending does not touch.\<close>

definition recv_view :: "PacketManager \<Rightarrow> nat \<times> nat \<times> nat \<times> bytes \<times> Packet list" where
  "recv_view s = (pm_curRecvPackDoneHeadSize s, pm_curRecvPackDataSize s,
     pm_curRecvPackDoneDataSize s, pm_recvBuff s, pm_mRecvOutQueue s)"

lemma frame_ne [simp]: "frame d \<noteq> []"
  by (simp add: frame_def le_bytes_4)

lemma int_size_le: "nat (int_size n) \<le> n"
  by (simp add: int_size_def nat_le_iff signed_take_bit_int_less_eq_self_iff)

lemma int_size_small: "n < 2 ^ 31 \<Longrightarrow> int_size n = int n"
  by (simp add: int_size_def signed_take_bit_int_eq_self)

lemma FlushInQueue_stream:
  assumes "send_ok s"
  shows "out_stream (FlushInQueue s) = out_stream s" "send_ok (FlushInQueue s)"
    "recv_view (FlushInQueue s) = recv_view s"
    "pm_mFatalError (FlushInQueue s) = pm_mFatalError s"
  using assms
  by (cases "pm_mQueue s"; cases "pm_mInQueue s";
      auto simp: FlushInQueue_def out_stream_def send_ok_def recv_view_def)+

lemma send_loop_stream:
  "send_ok s \<Longrightarrow> send_loop as s = (out, s') \<Longrightarrow>
     out @ out_stream s' = out_stream s \<and> send_ok s' \<and> recv_view s' = recv_view s"
proof (induction as s arbitrary: out s' rule: send_loop.induct)
  case (1 s)
  then show ?case by simp
next
  case (2 a as s)
  show ?case
  proof (cases "pm_mQueue s")
    case Nil
    with "2.prems" show ?thesis by simp
  next
    case (Cons p ps)
    let ?cur = "pm_curSendPackDataSize s"
    let ?b = "pk_mDataBuff p"
    have cur: "?cur < length ?b" using "2.prems"(1) Cons by (simp add: send_ok_def)
    obtain r cur' where ns: "niceSend a ?b ?cur = (r, cur')" by force
    let ?s1 = "s\<lparr>pm_curSendPackDataSize := cur'\<rparr>"
    let ?sd = "?s1\<lparr>pm_mQueue := ps, pm_curSendPackDataSize := 0\<rparr>"
    have stream: "out_stream s = drop ?cur ?b @ concat (map pk_mDataBuff ps)
        @ concat (map pk_mDataBuff (pm_mInQueue s))"
      using cur Cons by (simp add: out_stream_def)
    show ?thesis
    proof (cases r)
      case NiceError
      then have "cur' = ?cur"
        using ns by (auto simp: niceSend_def Let_def split: send_ans.splits if_splits)
      with "2.prems" Cons ns NiceError show ?thesis
        by (auto simp: out_stream_def send_ok_def recv_view_def)
    next
      case NiceBlock
      then have "cur' = ?cur"
        using ns by (auto simp: niceSend_def Let_def split: send_ans.splits if_splits)
      with "2.prems" Cons ns NiceBlock show ?thesis
        by (auto simp: out_stream_def send_ok_def recv_view_def)
    next
      case NiceDone
      then have c': "cur' = length ?b"
        using ns by (auto simp: niceSend_def Let_def split: send_ans.splits if_splits)
      obtain o2 s2 where l: "send_loop as ?sd = (o2, s2)" by force
      have "send_ok ?sd"
        using "2.prems"(1) Cons by (auto simp: send_ok_def split: list.splits)
      then have ih: "o2 @ out_stream s2 = out_stream ?sd \<and> send_ok s2
          \<and> recv_view s2 = recv_view ?sd"
        using "2.IH"(2) [OF Cons refl refl ns [symmetric] refl refl NiceDone] l by blast
      have "out = drop ?cur ?b @ o2" "s' = s2"
        using "2.prems"(2) Cons ns NiceDone l c' by (auto simp: Let_def)
      moreover have "out_stream ?sd = concat (map pk_mDataBuff ps)
          @ concat (map pk_mDataBuff (pm_mInQueue s))" by (simp add: out_stream_def)
      ultimately show ?thesis using ih stream by (simp add: recv_view_def)
    next
      case NiceMore
      then have c': "?cur \<le> cur'" "cur' < length ?b"
        using ns cur int_size_le [of "length ?b - ?cur"]
        by (auto simp: niceSend_def Let_def split: send_ans.splits if_splits)
      obtain o2 s2 where l: "send_loop as ?s1 = (o2, s2)" by force
      have "send_ok ?s1" using "2.prems"(1) Cons c' by (auto simp: send_ok_def)
      then have ih: "o2 @ out_stream s2 = out_stream ?s1 \<and> send_ok s2
          \<and> recv_view s2 = recv_view ?s1"
        using "2.IH"(1) [OF Cons refl refl ns [symmetric] refl refl NiceMore] l by blast
      have "out = take (cur' - ?cur) (drop ?cur ?b) @ o2" "s' = s2"
        using "2.prems"(2) Cons ns NiceMore l by (auto simp: Let_def)
      moreover have "out_stream ?s1 = drop cur' ?b @ concat (map pk_mDataBuff ps)
          @ concat (map pk_mDataBuff (pm_mInQueue s))" using c' Cons by (simp add: out_stream_def)
      moreover have "recv_view ?s1 = recv_view s" by (simp add: recv_view_def)
      moreover have "take (cur' - ?cur) (drop ?cur ?b) @ drop cur' ?b = drop ?cur ?b"
        using c'(1) by (rule drop_take_append)
      ultimately show ?thesis using ih stream by (metis append.assoc)
    qed
  qed
qed


lemma recv_head_out [simp]:
  "pm_mQueue (recv_head a s) = pm_mQueue s" "pm_mInQueue (recv_head a s) = pm_mInQueue s"
  "pm_curSendPackDataSize (recv_head a s) = pm_curSendPackDataSize s"
  "pm_mRecvOutQueue (recv_head a s) = pm_mRecvOutQueue s"
  by (auto simp: recv_head_def Let_def split: recv_ans.splits)

lemma recv_body_out [simp]:
  "pm_mQueue (recv_body a s) = pm_mQueue s" "pm_mInQueue (recv_body a s) = pm_mInQueue s"
  "pm_curSendPackDataSize (recv_body a s) = pm_curSendPackDataSize s"
  by (auto simp: recv_body_def Let_def split: nice.splits prod.splits)

lemma out_stream_cong:
  "pm_mQueue s' = pm_mQueue s \<Longrightarrow> pm_mInQueue s' = pm_mInQueue s \<Longrightarrow>
     pm_curSendPackDataSize s' = pm_curSendPackDataSize s \<Longrightarrow>
     out_stream s' = out_stream s \<and> send_ok s' = send_ok s"
  by (simp add: out_stream_def send_ok_def)

lemma threadMain_turn_stream:
  assumes "send_ok s" and "threadMain_turn env s = (out, s')"
  shows "out @ out_stream s' = out_stream s \<and> send_ok s'"
proof -
  note f = FlushInQueue_stream [OF assms(1)]
  obtain o1 s2 where l: "send_loop (env_sends env) (FlushInQueue s) = (o1, s2)" by force
  from send_loop_stream [OF f(2) l] f(1)
  have s2: "o1 @ out_stream s2 = out_stream s" "send_ok s2" by auto
  consider "out = [] \<and> (s' = s \<or> s' = s\<lparr>pm_mQuitAck := True\<rparr>
        \<or> s' = (FlushInQueue s)\<lparr>pm_mFatalError := True\<rparr>)"
    | "out = o1 \<and> (s' = s2 \<or> s' = recv_head (env_head env) s2
        \<or> s' = recv_body (env_body env) (recv_head (env_head env) s2))"
    using assms(2) l by (auto simp: threadMain_turn_def Let_def split: if_splits)
  then show ?thesis
  proof cases
    case 1
    then have "out_stream s' = out_stream s \<and> send_ok s' = send_ok s
        \<or> out_stream s' = out_stream (FlushInQueue s) \<and> send_ok s' = send_ok (FlushInQueue s)"
      using out_stream_cong [of s' s] out_stream_cong [of s' "FlushInQueue s"] by auto
    with 1 f assms(1) show ?thesis by auto
  next
    case 2
    then have "out_stream s' = out_stream s2 \<and> send_ok s' = send_ok s2"
      by (intro out_stream_cong) auto
    with 2 s2 show ?thesis by auto
  qed
qed

fun sent_data :: "action list \<Rightarrow> bytes list" where
  "sent_data [] = []"
| "sent_data (ASend d # as) = d # sent_data as"
| "sent_data (_ # as) = sent_data as"

lemma Send_stream:
  "out_stream (Send d s) = out_stream s @ frame d" "send_ok s \<Longrightarrow> send_ok (Send d s)"
  by (auto simp: Send_def out_stream_def send_ok_def split: list.splits)

lemma pm_step_stream:
  assumes "send_ok s" and "pm_step a s = (out, s')"
  shows "out @ out_stream s' = out_stream s @ concat (map frame (sent_data [a])) \<and> send_ok s'"
proof (cases a)
  case (ASend d)
  with assms Send_stream show ?thesis by auto
next
  case (ATurn env)
  with assms threadMain_turn_stream show ?thesis by simp
next
  case (AMatch r ids)
  have "out_stream s' = out_stream s \<and> send_ok s' = send_ok s"
    using assms(2) AMatch
    by (intro out_stream_cong)
       (auto simp: GetNextPacketMatchID32_def GetNextPacketMatch_def split: sum.splits option.splits)
  with assms AMatch show ?thesis by auto
next
  case (AGet r)
  have "out_stream s' = out_stream s \<and> send_ok s' = send_ok s"
    using assms(2) AGet by (intro out_stream_cong) (auto simp: GetNextPacket_def split: list.splits)
  with assms AGet show ?thesis by auto
next
  case (ARemove q)
  have "out_stream s' = out_stream s \<and> send_ok s' = send_ok s"
    using assms(2) ARemove by (intro out_stream_cong) (auto simp: RemovePacket_def)
  with assms ARemove show ?thesis by auto
next
  case AQuit
  have "out_stream s' = out_stream s \<and> send_ok s' = send_ok s"
    using assms(2) AQuit by (intro out_stream_cong) auto
  with assms AQuit show ?thesis by auto
qed

lemma sent_data_Cons: "sent_data (a # as) = sent_data [a] @ sent_data as"
  by (cases a) auto

lemma pm_run_stream:
  "send_ok s \<Longrightarrow> pm_run as s = (wire, s') \<Longrightarrow>
     wire @ out_stream s' = out_stream s @ concat (map frame (sent_data as)) \<and> send_ok s'"
proof (induction as arbitrary: s wire s')
  case Nil
  then show ?case by simp
next
  case (Cons a as)
  obtain o1 s1 where a: "pm_step a s = (o1, s1)" by force
  obtain o2 s2 where r: "pm_run as s1 = (o2, s2)" by force
  from pm_step_stream [OF Cons.prems(1) a]
  have s1: "o1 @ out_stream s1 = out_stream s @ concat (map frame (sent_data [a]))" "send_ok s1"
    by auto
  from Cons.IH [OF s1(2) r] Cons.prems(2) a r
  have "o2 @ out_stream s' = out_stream s1 @ concat (map frame (sent_data as))" "send_ok s'"
    "wire = o1 @ o2" by auto
  with s1 show ?case by (metis append.assoc concat_append map_append sent_data_Cons)
qed

lemma init_send_ok: "send_ok (PacketManager_init sock)" "out_stream (PacketManager_init sock) = []"
  by (simp_all add: send_ok_def out_stream_def PacketManager_init_def)

lemma wire_frames:
  "pm_run as (PacketManager_init sock) = (wire, s) \<Longrightarrow>
     wire @ out_stream s = concat (map frame (sent_data as))"
  using pm_run_stream [OF init_send_ok(1)] init_send_ok(2) by fastforce

text \<open>
  C22: the packet manager sends every packet exactly once, whole and in order. In any
  execution from a new manager, however the callers' operations, the partial sends, the
  blocking and the failures of the socket interleave, the bytes that went out on the wire
  followed by the bytes still queued are the concatenation of the frames (32-bit length
  and data) of the packets passed to \<open>Send\<close>, in the order of the calls.
\<close>

theorem wire_is_fifo_of_frames:
  assumes "pm_run as (PacketManager_init sock) = (wire, s)"
  shows "wire @ out_stream s = concat (map frame (sent_data as))"
  using assms by (rule wire_frames)

theorem wire_is_fifo_of_frames_witness:
  "\<exists>s. pm_run [ASend [7, 8], ATurn \<lparr>env_selectOk = True, env_sends = [Room 3],
         env_head = RecvErr True, env_body = RecvErr True\<rparr>, ASend [9]]
         (PacketManager_init (Some 0)) = ([2, 0, 0], s)
     \<and> [2, 0, 0] @ out_stream s = concat (map frame [[7, 8], [9]])"
proof -
  let ?as = "[ASend [7, 8], ATurn \<lparr>env_selectOk = True, env_sends = [Room 3],
         env_head = RecvErr True, env_body = RecvErr True\<rparr>, ASend [9]]"
  obtain wire s where r: "pm_run ?as (PacketManager_init (Some 0)) = (wire, s)" by force
  then have "wire = [2, 0, 0]"
    by (simp add: PacketManager_init_def Send_def frame_def le_bytes_4 threadMain_turn_def
        FlushInQueue_def niceSend_def int_size_small recv_head_def recv_body_def Let_def)
  with r wire_is_fifo_of_frames [OF r] show ?thesis by auto
qed


section \<open>Receiving: the packets are those of the byte stream\<close>

text \<open>The reference decoder: split a byte stream into the packets it holds and a rest.\<close>

function deframe :: "bytes \<Rightarrow> bytes list \<times> bytes" where
  "deframe bs =
     (if length bs < 4 then ([], bs)
      else let n = le_nat (take 4 bs) in
           if length bs < 4 + n then ([], bs)
           else (take n (drop 4 bs) # fst (deframe (drop (4 + n) bs)),
                 snd (deframe (drop (4 + n) bs))))"
  by pat_completeness auto
termination
  by (relation "measure length") auto

declare deframe.simps [simp del]

lemma deframe_short: "length bs < 4 \<Longrightarrow> deframe bs = ([], bs)"
  by (simp add: deframe.simps)

lemma deframe_incomplete:
  "4 \<le> length bs \<Longrightarrow> length bs < 4 + le_nat (take 4 bs) \<Longrightarrow> deframe bs = ([], bs)"
  by (simp add: deframe.simps)

lemma deframe_packet:
  assumes "length h = 4" and "le_nat h = length d"
  shows "deframe (h @ d @ r) = (d # fst (deframe r), snd (deframe r))"
  using assms by (subst deframe.simps) simp

lemma deframe_append:
  "deframe (a @ b) = (fst (deframe a) @ fst (deframe (snd (deframe a) @ b)),
                      snd (deframe (snd (deframe a) @ b)))"
proof (induction a rule: deframe.induct)
  case (1 a)
  let ?n = "le_nat (take 4 a)"
  show ?case
  proof (cases "4 \<le> length a \<and> 4 + ?n \<le> length a")
    case False
    then have "deframe a = ([], a)"
      by (cases "length a < 4") (auto simp: deframe_short deframe_incomplete)
    then show ?thesis by simp
  next
    case True
    let ?r = "drop (4 + ?n) a"
    have split: "a = take 4 a @ take ?n (drop 4 a) @ ?r"
      by (metis append_take_drop_id drop_drop add.commute)
    have d: "deframe (take 4 a @ take ?n (drop 4 a) @ r)
        = (take ?n (drop 4 a) # fst (deframe r), snd (deframe r))" for r
      using True by (intro deframe_packet) auto
    from True "1.IH" [OF _ refl] have
      "deframe (?r @ b) = (fst (deframe ?r) @ fst (deframe (snd (deframe ?r) @ b)),
         snd (deframe (snd (deframe ?r) @ b)))" by simp
    moreover have "deframe (a @ b)
        = (take ?n (drop 4 a) # fst (deframe (?r @ b)), snd (deframe (?r @ b)))"
      using d [of "?r @ b"] split by (metis append.assoc)
    moreover have "deframe a = (take ?n (drop 4 a) # fst (deframe ?r), snd (deframe ?r))"
      using d [of ?r] split by metis
    ultimately show ?thesis by simp
  qed
qed

lemma deframe_frames:
  "\<forall>d \<in> set ds. length d < 2 ^ 32 \<Longrightarrow> deframe (concat (map frame ds)) = (ds, [])"
proof (induction ds)
  case Nil
  then show ?case by (simp add: deframe_short)
next
  case (Cons d ds)
  then have "le_nat (le_bytes 4 (length d)) = length d" by (simp add: le_nat_le_bytes)
  with Cons show ?case by (simp add: frame_def deframe_packet)
qed

text \<open>The bytes a turn takes from the socket, and the packets it delivers.\<close>

definition head_got :: "recv_ans \<Rightarrow> PacketManager \<Rightarrow> bytes" where
  "head_got ans s = (if pm_curRecvPackDoneHeadSize s < 4
     then case ans of RecvErr _ \<Rightarrow> [] | Avail bs \<Rightarrow> take (4 - pm_curRecvPackDoneHeadSize s) bs
     else [])"

definition body_got :: "recv_ans \<Rightarrow> PacketManager \<Rightarrow> bytes" where
  "body_got ans s = (if pm_curRecvPackDoneHeadSize s = 4
     then case ans of RecvErr _ \<Rightarrow> []
          | Avail bs \<Rightarrow> take (nat (int_size (length (pm_recvBuff s) - pm_curRecvPackDoneDataSize s))) bs
     else [])"

definition turn_got :: "sock_env \<Rightarrow> PacketManager \<Rightarrow> bytes" where
  "turn_got env s =
     (if pm_mQuitRequest s \<or> pm_mFatalError s \<or> \<not> env_selectOk env then []
      else let s2 = snd (send_loop (env_sends env) (FlushInQueue s)) in
           if pm_mFatalError s2 then []
           else head_got (env_head env) s2
             @ (let s3 = recv_head (env_head env) s2
                in if pm_mFatalError s3 then [] else body_got (env_body env) s3))"

definition turn_delivered :: "sock_env \<Rightarrow> PacketManager \<Rightarrow> bytes list" where
  "turn_delivered env s = map pk_mDataBuff
     (drop (length (pm_mRecvOutQueue s)) (pm_mRecvOutQueue (snd (threadMain_turn env s))))"

text \<open>
  The state between turns when no head was torn: either nothing of a packet has been read,
  or its whole head and a proper part of its data.
\<close>

definition recv_ok :: "PacketManager \<Rightarrow> bool" where
  "recv_ok s \<longleftrightarrow>
     (pm_curRecvPackDoneHeadSize s = 0 \<and> pm_curRecvPackDataSize s = 0
        \<and> pm_curRecvPackDoneDataSize s = 0 \<and> pm_recvBuff s = [])
     \<or> (pm_curRecvPackDoneHeadSize s = 4
        \<and> pm_curRecvPackDataSize s = length (pm_recvBuff s)
        \<and> pm_curRecvPackDoneDataSize s < length (pm_recvBuff s)
        \<and> length (pm_recvBuff s) < 2 ^ 32)"

definition recv_partial :: "PacketManager \<Rightarrow> bytes" where
  "recv_partial s = (if pm_curRecvPackDoneHeadSize s = 0 then []
     else le_bytes 4 (pm_curRecvPackDataSize s)
          @ take (pm_curRecvPackDoneDataSize s) (pm_recvBuff s))"

text \<open>A head arrives whole and announces a packet that is not empty.\<close>

definition whole_head :: "recv_ans \<Rightarrow> bool" where
  "whole_head ans = (case ans of RecvErr _ \<Rightarrow> True
     | Avail bs \<Rightarrow> bs = [] \<or> (4 \<le> length bs \<and> le_nat (take 4 bs) \<noteq> 0))"

lemma recv_view_cong:
  "recv_view s' = recv_view s \<Longrightarrow>
     recv_ok s' = recv_ok s \<and> recv_partial s' = recv_partial s
     \<and> pm_mRecvOutQueue s' = pm_mRecvOutQueue s"
  by (auto simp: recv_view_def recv_ok_def recv_partial_def)

lemma recv_ok_undelivered: "recv_ok s \<Longrightarrow> deframe (recv_partial s) = ([], recv_partial s)"
  by (auto simp: recv_ok_def recv_partial_def deframe_short deframe_incomplete le_nat_le_bytes)

lemma store_head_whole: "length h = 4 \<Longrightarrow> store_head 0 h = le_nat h"
  by (simp add: store_head_def le_nat_append le_bytes_zero le_nat_zeros)

lemma recv_head_partial:
  assumes "recv_ok s" and "whole_head ans"
  shows "recv_ok (recv_head ans s)
    \<and> recv_partial (recv_head ans s) = recv_partial s @ head_got ans s"
proof (cases "pm_curRecvPackDoneHeadSize s = 0")
  case False
  with assms(1) show ?thesis by (simp add: recv_ok_def recv_head_def head_got_def)
next
  case True
  with assms(1) have s: "pm_curRecvPackDataSize s = 0" "pm_curRecvPackDoneDataSize s = 0"
    "pm_recvBuff s = []" by (simp_all add: recv_ok_def)
  show ?thesis
  proof (cases ans)
    case (RecvErr b)
    with assms True s show ?thesis
      by (auto simp: recv_head_def head_got_def recv_ok_def recv_partial_def)
  next
    case (Avail bs)
    show ?thesis
    proof (cases "bs = []")
      case nil: True
      have "store_head 0 [] = 0" by (simp add: store_head_def le_nat_le_bytes)
      with nil Avail True s show ?thesis
        by (simp add: recv_head_def head_got_def recv_ok_def recv_partial_def)
    next
      case False
      with assms(2) Avail have h: "length (take 4 bs) = 4" "le_nat (take 4 bs) \<noteq> 0"
        by (auto simp: whole_head_def)
      have "le_nat (take 4 bs) < 2 ^ 32" using le_nat_bound [of "take 4 bs"] h(1) by simp
      with h Avail True s le_bytes_le_nat [OF h(1)] show ?thesis
        by (simp add: recv_head_def head_got_def recv_ok_def recv_partial_def store_head_whole Let_def)
    qed
  qed
qed

lemma recv_body_deframe:
  assumes "recv_ok s"
  shows "\<exists>ds. pm_mRecvOutQueue (recv_body ans s) = pm_mRecvOutQueue s @ ds
           \<and> deframe (recv_partial s @ body_got ans s)
             = (map pk_mDataBuff ds, recv_partial (recv_body ans s))
           \<and> recv_ok (recv_body ans s)"
proof (cases "pm_curRecvPackDoneHeadSize s = 4")
  case False
  with assms show ?thesis
    by (intro exI [of _ "[]"])
       (auto simp: recv_body_def body_got_def recv_ok_def recv_partial_def deframe_short)
next
  case True
  let ?b = "pm_recvBuff s" and ?d = "pm_curRecvPackDoneDataSize s"
  have s: "pm_curRecvPackDataSize s = length ?b" "?d < length ?b" "length ?b < 2 ^ 32"
    using assms True by (auto simp: recv_ok_def)
  show ?thesis
  proof (cases ans)
    case (RecvErr b)
    let ?s = "recv_body ans s"
    have "recv_view ?s = recv_view s"
      using RecvErr True by (auto simp: recv_body_def niceRecv_def recv_view_def)
    from recv_view_cong [OF this] show ?thesis
      using assms RecvErr recv_ok_undelivered [OF assms] by (simp add: body_got_def)
  next
    case (Avail avail)
    let ?n = "int_size (length ?b - ?d)"
    let ?g = "take (nat ?n) avail"
    have room: "length ?g \<le> length ?b - ?d" using int_size_le [of "length ?b - ?d"] by simp
    let ?nb = "take ?d ?b @ ?g @ drop (?d + length ?g) ?b"
    have len: "length ?nb = length ?b" using s room by simp
    have pre: "recv_partial s @ body_got ans s = le_bytes 4 (length ?b) @ take ?d ?b @ ?g"
      using True Avail s by (simp add: recv_partial_def body_got_def)
    have h: "length (le_bytes 4 (length ?b)) = 4" "le_nat (le_bytes 4 (length ?b)) = length ?b"
      using s by (simp_all add: le_nat_le_bytes)
    consider (neg) "?n < 0" | (fin) "0 \<le> ?n" "?d + length ?g = length ?b"
      | (more) "0 \<le> ?n" "?d + length ?g \<noteq> length ?b" by linarith
    then show ?thesis
    proof cases
      case neg
      let ?s = "recv_body ans s"
      have "recv_view ?s = recv_view s"
        using Avail True neg by (auto simp: recv_body_def niceRecv_def recv_view_def Let_def)
      from recv_view_cong [OF this] show ?thesis
        using assms Avail neg recv_ok_undelivered [OF assms] by (simp add: body_got_def)
    next
      case fin
      let ?p = "\<lparr>pk_ref = pm_nextRef s, pk_mDataBuff = ?nb\<rparr>"
      have nb: "?nb = take ?d ?b @ ?g" using fin(2) by simp
      have "deframe (le_bytes 4 (length ?b) @ ?nb @ []) = (?nb # fst (deframe []), snd (deframe []))"
        using h len by (intro deframe_packet) auto
      then have "deframe (recv_partial s @ body_got ans s) = ([?nb], [])"
        using pre nb by (simp add: deframe_short)
      with True Avail fin nb show ?thesis
        by (intro exI [of _ "[?p]"])
           (simp add: recv_body_def niceRecv_def Let_def recv_ok_def recv_partial_def)
    next
      case more
      then have lt: "?d + length ?g < length ?b" using s room by linarith
      have "deframe (le_bytes 4 (length ?b) @ take ?d ?b @ ?g)
          = ([], le_bytes 4 (length ?b) @ take ?d ?b @ ?g)"
        using lt s h by (intro deframe_incomplete) auto
      moreover have "take (?d + length ?g) ?nb = take ?d ?b @ ?g" using s by simp
      ultimately show ?thesis
        using True Avail more lt s pre len
        by (simp add: recv_body_def niceRecv_def Let_def recv_ok_def recv_partial_def)
    qed
  qed
qed


lemma turn_deframe:
  assumes "send_ok s" and "recv_ok s" and "whole_head (env_head env)"
    and "threadMain_turn env s = (out, s')"
  shows "pm_mRecvOutQueue s' = pm_mRecvOutQueue s
           @ drop (length (pm_mRecvOutQueue s)) (pm_mRecvOutQueue s')
    \<and> deframe (recv_partial s @ turn_got env s) = (turn_delivered env s, recv_partial s')
    \<and> recv_ok s'"
proof -
  obtain o1 s2 where l: "send_loop (env_sends env) (FlushInQueue s) = (o1, s2)" by force
  have v2: "recv_view s2 = recv_view s"
    using send_loop_stream [OF FlushInQueue_stream(2) l] FlushInQueue_stream(3) assms(1) by simp
  note c2 = recv_view_cong [OF v2]
  let ?s3 = "recv_head (env_head env) s2"
  have s3: "recv_ok ?s3" "recv_partial ?s3 = recv_partial s @ head_got (env_head env) s2"
    using recv_head_partial [of s2 "env_head env"] c2 assms(2,3) by auto
  let ?r = "turn_delivered env s" and ?g = "turn_got env s"
  have td: "?r = map pk_mDataBuff (drop (length (pm_mRecvOutQueue s)) (pm_mRecvOutQueue s'))"
    using assms(4) by (simp add: turn_delivered_def)
  consider (idle) "recv_view s' = recv_view s" and "?g = []"
    | (headerr) "s' = ?s3" and "?g = head_got (env_head env) s2"
    | (body) "s' = recv_body (env_body env) ?s3"
        and "?g = head_got (env_head env) s2 @ body_got (env_body env) ?s3"
    using assms(4) l v2 FlushInQueue_stream [OF assms(1)]
    by (auto simp: threadMain_turn_def turn_got_def Let_def recv_view_def split: if_splits)
  then show ?thesis
  proof cases
    case idle
    with recv_view_cong [OF idle(1)] recv_ok_undelivered [OF assms(2)] td assms(2)
    show ?thesis by simp
  next
    case headerr
    with s3 recv_ok_undelivered [OF s3(1)] td c2 show ?thesis by simp
  next
    case body
    from recv_body_deframe [OF s3(1), of "env_body env"] obtain ds where
      "pm_mRecvOutQueue s' = pm_mRecvOutQueue s @ ds"
      "deframe (recv_partial ?s3 @ body_got (env_body env) ?s3)
         = (map pk_mDataBuff ds, recv_partial s')" "recv_ok s'"
      using body(1) c2 by auto
    with td body(2) s3(2) show ?thesis by simp
  qed
qed

fun run_got :: "action list \<Rightarrow> PacketManager \<Rightarrow> bytes" where
  "run_got [] s = []"
| "run_got (a # as) s =
     (case a of ATurn env \<Rightarrow> turn_got env s | _ \<Rightarrow> []) @ run_got as (snd (pm_step a s))"

fun run_delivered :: "action list \<Rightarrow> PacketManager \<Rightarrow> bytes list" where
  "run_delivered [] s = []"
| "run_delivered (a # as) s =
     (case a of ATurn env \<Rightarrow> turn_delivered env s | _ \<Rightarrow> []) @ run_delivered as (snd (pm_step a s))"

fun whole_heads :: "action list \<Rightarrow> bool" where
  "whole_heads [] = True"
| "whole_heads (a # as) =
     ((case a of ATurn env \<Rightarrow> whole_head (env_head env) | _ \<Rightarrow> True) \<and> whole_heads as)"

lemma pm_step_recv:
  assumes "\<And>env. a \<noteq> ATurn env"
  shows "recv_ok (snd (pm_step a s)) = recv_ok s"
    and "recv_partial (snd (pm_step a s)) = recv_partial s"
  using assms
  by (cases a; auto simp: recv_ok_def recv_partial_def Send_def GetNextPacket_def RemovePacket_def
      GetNextPacketMatchID32_def GetNextPacketMatch_def split: list.splits sum.splits option.splits)+

lemma run_deframe:
  "send_ok s \<Longrightarrow> recv_ok s \<Longrightarrow> whole_heads as \<Longrightarrow>
     deframe (recv_partial s @ run_got as s)
       = (run_delivered as s, recv_partial (snd (pm_run as s)))"
proof (induction as arbitrary: s)
  case Nil
  then show ?case by (simp add: recv_ok_undelivered)
next
  case (Cons a as)
  let ?s1 = "snd (pm_step a s)"
  have so: "send_ok ?s1"
    using pm_step_stream [OF Cons.prems(1), of a] by (metis prod.collapse)
  have fin: "snd (pm_run (a # as) s) = snd (pm_run as ?s1)"
    by (simp add: case_prod_beta)
  show ?case
  proof (cases "\<exists>env. a = ATurn env")
    case True
    then obtain env where a: "a = ATurn env" by blast
    obtain o1 where t: "threadMain_turn env s = (o1, ?s1)"
      using a by (metis pm_step.simps(6) prod.collapse)
    from turn_deframe [OF Cons.prems(1,2) _ t] Cons.prems(3) a
    have d: "deframe (recv_partial s @ turn_got env s) = (turn_delivered env s, recv_partial ?s1)"
      and ro: "recv_ok ?s1" by auto
    have ih: "deframe (recv_partial ?s1 @ run_got as ?s1)
        = (run_delivered as ?s1, recv_partial (snd (pm_run as ?s1)))"
      using Cons.IH [OF so ro] Cons.prems(3) by simp
    have "deframe ((recv_partial s @ turn_got env s) @ run_got as ?s1)
        = (turn_delivered env s @ run_delivered as ?s1, recv_partial (snd (pm_run as ?s1)))"
      by (subst deframe_append) (simp add: d ih)
    then show ?thesis using a fin by simp
  next
    case False
    then have na: "\<And>env. a \<noteq> ATurn env" by blast
    note r = pm_step_recv [OF na, of s]
    from Cons.IH [OF so] r Cons.prems
    have "deframe (recv_partial s @ run_got as ?s1)
        = (run_delivered as ?s1, recv_partial (snd (pm_run as ?s1)))" by simp
    moreover have "run_got (a # as) s = run_got as ?s1"
      "run_delivered (a # as) s = run_delivered as ?s1"
      using na by (cases a; simp)+
    ultimately show ?thesis using fin by simp
  qed
qed

lemma init_recv_ok:
  "recv_ok (PacketManager_init sock)" "recv_partial (PacketManager_init sock) = []"
  by (simp_all add: recv_ok_def recv_partial_def PacketManager_init_def)

text \<open>
  C8: packets arrive in order, unchanged and at most once. Let one manager send packets
  shorter than 2^32 bytes over any execution and let another receive over any execution, taking
  from its socket a prefix of what the first put on the wire, cut into arbitrary pieces except
  that every 32-bit head arrives in one piece and announces at least one byte (an assertion of
  the source asks the same). Then the packets the receiver has delivered to its
  queue are a prefix of the packets passed to \<open>Send\<close>; when everything sent has left the
  sender and reached the receiver, they are all of them.
\<close>

theorem packets_arrive_in_order:
  assumes "pm_run as1 (PacketManager_init sock1) = (wire, s1)"
    and "\<forall>d \<in> set (sent_data as1). length d < 2 ^ 32"
    and "wire = run_got as2 (PacketManager_init sock2) @ transit"
    and "whole_heads as2"
  shows "\<exists>rest. sent_data as1 = run_delivered as2 (PacketManager_init sock2) @ rest
           \<and> (out_stream s1 = [] \<and> transit = [] \<longrightarrow> rest = [])"
proof -
  let ?m2 = "PacketManager_init sock2"
  let ?got = "run_got as2 ?m2" and ?ds = "run_delivered as2 ?m2"
  let ?left = "transit @ out_stream s1"
  have all: "deframe (?got @ ?left) = (sent_data as1, [])"
    using wire_frames [OF assms(1)] assms(3) deframe_frames [OF assms(2)] by simp
  have got: "deframe ?got = (?ds, recv_partial (snd (pm_run as2 ?m2)))"
    using run_deframe [OF init_send_ok(1) init_recv_ok(1) assms(4)] init_recv_ok(2) by simp
  let ?r = "fst (deframe (recv_partial (snd (pm_run as2 ?m2)) @ ?left))"
  have "sent_data as1 = ?ds @ ?r"
    using all deframe_append [of ?got ?left] got by simp
  moreover have "?r = []" if "?left = []"
    using all got that by (simp add: deframe_short)
  ultimately show ?thesis by (intro exI [of _ ?r]) simp
qed

theorem packets_arrive_in_order_witness:
  "\<exists>rest. sent_data [ASend [7, 8], ATurn \<lparr>env_selectOk = True, env_sends = [Room 9],
           env_head = RecvErr True, env_body = RecvErr True\<rparr>]
       = run_delivered [ATurn \<lparr>env_selectOk = True, env_sends = [], env_head = Avail [2, 0, 0, 0],
           env_body = Avail [7]\<rparr>, ATurn \<lparr>env_selectOk = True, env_sends = [],
           env_head = RecvErr True, env_body = Avail [8]\<rparr>] (PacketManager_init None) @ rest
     \<and> rest = []"
proof -
  let ?as1 = "[ASend [7, 8], ATurn \<lparr>env_selectOk = True, env_sends = [Room 9],
           env_head = RecvErr True, env_body = RecvErr True\<rparr>]"
  let ?as2 = "[ATurn \<lparr>env_selectOk = True, env_sends = [], env_head = Avail [2, 0, 0, 0],
           env_body = Avail [7]\<rparr>, ATurn \<lparr>env_selectOk = True, env_sends = [],
           env_head = RecvErr True, env_body = Avail [8]\<rparr>]"
  obtain wire s1 where r: "pm_run ?as1 (PacketManager_init None) = (wire, s1)" by force
  then have w: "wire = [2, 0, 0, 0, 7, 8]" "out_stream s1 = []"
    by (auto simp: PacketManager_init_def Send_def frame_def le_bytes_4 threadMain_turn_def
        FlushInQueue_def niceSend_def int_size_small recv_head_def recv_body_def Let_def out_stream_def)
  have "store_head 0 [2, 0, 0, 0] = 2"
    by (subst store_head_whole) simp_all
  then have g: "run_got ?as2 (PacketManager_init None) = [2, 0, 0, 0, 7, 8]"
    by (simp add: PacketManager_init_def threadMain_turn_def turn_got_def head_got_def body_got_def
        FlushInQueue_def niceRecv_def int_size_small recv_head_def recv_body_def Let_def)
  have "whole_heads ?as2" by (simp add: whole_head_def)
  with packets_arrive_in_order [OF r, of ?as2 None "[]"] w g show ?thesis by simp
qed

lemma small_le_bytes: "n < 256 \<Longrightarrow> le_bytes (Suc m) n = of_nat n # replicate m 0"
  by (simp add: le_bytes_zero)

lemma store_head_first: "n < 256 \<Longrightarrow> store_head 0 (of_nat n # replicate j 0) = n"
  by (simp add: store_head_def le_nat_append le_bytes_zero le_nat_zeros unat_of_nat
      flip: replicate_add)

lemma store_head_second:
  assumes "n < 256" and "0 < j"
  shows "store_head n (replicate j 0) = 0"
proof -
  have "le_bytes 8 n = of_nat n # replicate 7 0"
    using small_le_bytes [OF assms(1), of 7] by simp
  with assms(2) have "drop j (le_bytes 8 n) = replicate (8 - j) 0"
    by (cases j) auto
  then show ?thesis by (simp add: store_head_def le_nat_append le_nat_zeros)
qed

text \<open>
  A head that arrives in two pieces is decoded wrongly. \<open>recv\<close> stores the second piece
  over the first instead of after it, so for every packet of fewer than 256 bytes whose
  4-byte head is split after one, two or three bytes, the manager concludes that the packet
  is empty, and the bytes of the packet are taken for further packets.
\<close>

theorem split_head_is_lost:
  assumes "0 < n" and "n < 256" and "k \<in> {1, 2, 3 :: nat}"
  shows "let h = le_bytes 4 n;
             s = recv_head (Avail (drop k h)) (recv_head (Avail (take k h)) (PacketManager_init sock))
         in pm_curRecvPackDoneHeadSize s = 4 \<and> pm_curRecvPackDataSize s = 0 \<and> pm_recvBuff s = []"
proof -
  have h: "le_bytes 4 n = [of_nat n, 0, 0, 0]" using assms(2) by (simp add: le_bytes_4)
  have f: "store_head 0 [of_nat n] = n" "store_head 0 [of_nat n, 0] = n"
    "store_head 0 [of_nat n, 0, 0] = n"
    using assms(2) store_head_first [of n 0] store_head_first [of n "Suc 0"]
      store_head_first [of n "Suc (Suc 0)"] by simp_all
  have g: "store_head n [0] = 0" "store_head n [0, 0] = 0" "store_head n [0, 0, 0] = 0"
    using assms(2) store_head_second [of n "Suc 0"] store_head_second [of n "Suc (Suc 0)"]
      store_head_second [of n "Suc (Suc (Suc 0))"] by simp_all
  consider "k = 1" | "k = 2" | "k = 3" using assms(3) by auto
  then show ?thesis
    by cases (simp_all only: h, simp_all add: recv_head_def PacketManager_init_def Let_def f g)
qed

theorem split_head_is_lost_witness:
  "let h = le_bytes 4 200;
       s = recv_head (Avail (drop 2 h)) (recv_head (Avail (take 2 h)) (PacketManager_init (Some 0)))
   in pm_curRecvPackDoneHeadSize s = 4 \<and> pm_curRecvPackDataSize s = 0 \<and> pm_recvBuff s = []"
  by (rule split_head_is_lost) simp_all

end
