(* ===== verification/Scalars.thy ===== *)
theory Scalars
  imports Prelude Complex_Main
begin

text \<open>
  The scalar layer of \<open>DMath\<close>: the templates of \<open>DMathBase.h\<close> and of the namespace \<open>D\<close> of
  \<open>DTypes.h\<close>, the SIMD index macros, the 128-bit masks, and the random generator of
  \<open>DRandom.h\<close>.

  A template is a polymorphic function over the syntactic classes its body uses, so the same
  definition serves every instantiation: reals where a theorem needs exact arithmetic, the
  32-bit patterns of \<open>F32\<close> where a theorem is about the floats themselves (comparisons,
  signs and masks do no rounding, so they are modelled exactly).
\<close>

section \<open>Scalar templates\<close>

definition DSign :: "'a::{ord,zero,one,uminus} \<Rightarrow> 'a" where
  "DSign a = (if a < 0 then - 1 else if 0 < a then 1 else 0)"

definition DAbs :: "'a::{ord,zero,uminus} \<Rightarrow> 'a" where
  "DAbs a = (if a < 0 then - a else a)"

definition DMin :: "'a::ord \<Rightarrow> 'a \<Rightarrow> 'a" where
  "DMin a b = (if a < b then a else b)"

definition DMin3 :: "'a::ord \<Rightarrow> 'a \<Rightarrow> 'a \<Rightarrow> 'a" where
  "DMin3 a b c = (if a < b then (if a < c then a else c) else (if b < c then b else c))"

definition DMax :: "'a::ord \<Rightarrow> 'a \<Rightarrow> 'a" where
  "DMax a b = (if b < a then a else b)"

definition DMax3 :: "'a::ord \<Rightarrow> 'a \<Rightarrow> 'a \<Rightarrow> 'a" where
  "DMax3 a b c = (if b < a then (if c < a then a else c) else (if c < b then b else c))"

definition DClamp :: "'a::ord \<Rightarrow> 'a \<Rightarrow> 'a \<Rightarrow> 'a" where
  "DClamp a x0 x1 = (if a < x0 then x0 else if x1 < a then x1 else a)"

text \<open>\<open>DMix\<close> and \<open>DLerp\<close> have the same body.\<close>

definition DMix :: "'a::{plus,minus,times} \<Rightarrow> 'a \<Rightarrow> 'a \<Rightarrow> 'a" where
  "DMix a b t = a + (b - a) * t"

definition DLerp :: "'a::{plus,minus,times} \<Rightarrow> 'a \<Rightarrow> 'a \<Rightarrow> 'a" where
  "DLerp a b t = a + (b - a) * t"

definition DInvLerp :: "'a::{ord,zero,one,minus,inverse} \<Rightarrow> 'a \<Rightarrow> 'a \<Rightarrow> 'a" where
  "DInvLerp left right x =
     (if x < left then 0
      else if right < x then 1
      else DClamp ((x - left) / (right - left)) 0 1)"

definition DSmoothStep :: "'a::{ord,numeral,zero,minus,times,inverse} \<Rightarrow> 'a \<Rightarrow> 'a \<Rightarrow> 'a" where
  "DSmoothStep a b t = (let x = DInvLerp a b t in x * x * (3 - 2 * x))"

text \<open>The helpers of namespace \<open>D\<close>; \<open>Swap\<close> returns the two references' new values.\<close>

definition D_Lerp :: "'a::{plus,minus,times,one} \<Rightarrow> 'a \<Rightarrow> 'a \<Rightarrow> 'a" where
  "D_Lerp left right t = left * (1 - t) + right * t"

definition D_Clamp :: "'a::ord \<Rightarrow> 'a \<Rightarrow> 'a \<Rightarrow> 'a" where
  "D_Clamp val left right = (if val < left then left else if right < val then right else val)"

definition D_Min :: "'a::ord \<Rightarrow> 'a \<Rightarrow> 'a" where
  "D_Min left right = (if left < right then left else right)"

definition D_Max :: "'a::ord \<Rightarrow> 'a \<Rightarrow> 'a" where
  "D_Max left right = (if right < left then left else right)"

definition D_Abs :: "'a::{ord,zero,uminus} \<Rightarrow> 'a" where
  "D_Abs val = (if val < 0 then - val else val)"

definition D_Sign :: "'a::{ord,zero,one,uminus} \<Rightarrow> 'a" where
  "D_Sign val = (if val < 0 then - 1 else 1)"

definition D_Swap :: "'a \<Rightarrow> 'a \<Rightarrow> 'a \<times> 'a" where
  "D_Swap left right = (let tmp = left; left' = right; right' = tmp in (left', right'))"

text \<open>The libm wrappers, on exact reals.\<close>

definition DSqrt :: "real \<Rightarrow> real" where
  "DSqrt a = sqrt a"

definition DRSqrt :: "real \<Rightarrow> real" where
  "DRSqrt a = 1 / sqrt a"

definition DSin :: "real \<Rightarrow> real" where
  "DSin a = sin a"

definition DCos :: "real \<Rightarrow> real" where
  "DCos a = cos a"

definition DFloor :: "real \<Rightarrow> real" where
  "DFloor a = of_int \<lfloor>a\<rfloor>"

definition DCeil :: "real \<Rightarrow> real" where
  "DCeil a = of_int \<lceil>a\<rceil>"

section \<open>SIMD blocks\<close>

text \<open>
  The macros of the 128-bit build (\<open>DMT_SIMD_FLEN\<close> is 4), on \<open>unsigned\<close>: the addition wraps.
\<close>

definition DMT_SIMD_FLEN :: U32 where
  "DMT_SIMD_FLEN = 4"

definition DMT_SIMD_BLOCKS :: "U32 \<Rightarrow> U32" where
  "DMT_SIMD_BLOCKS cnt = (cnt + (DMT_SIMD_FLEN - 1)) div DMT_SIMD_FLEN"

definition DMT_SIMD_BLK_IDX :: "U32 \<Rightarrow> U32" where
  "DMT_SIMD_BLK_IDX glob_idx = glob_idx div DMT_SIMD_FLEN"

definition DMT_SIMD_SUB_IDX :: "U32 \<Rightarrow> U32" where
  "DMT_SIMD_SUB_IDX glob_idx = glob_idx AND (DMT_SIMD_FLEN - 1)"

definition DMT_SIMD_PADSIZE :: "U32 \<Rightarrow> U32" where
  "DMT_SIMD_PADSIZE cnt = (cnt + (DMT_SIMD_FLEN - 1)) AND NOT (DMT_SIMD_FLEN - 1)"

section \<open>Floats as bit patterns\<close>

text \<open>
  An IEEE single as its 32 bits: the operations below only look at or change bits, so they
  are exact. Comparison goes through the signed magnitude; a comparison with a NaN is false,
  and the two zeros are equal.
\<close>

datatype F32 = F32 (f32_bits: U32)

definition f32_mag :: "U32 \<Rightarrow> int" where
  "f32_mag w = uint (w AND 0x7FFFFFFF)"

definition f32_nan :: "U32 \<Rightarrow> bool" where
  "f32_nan w = (0x7F800000 < f32_mag w)"

definition f32_key :: "U32 \<Rightarrow> int" where
  "f32_key w = (if bit w 31 then - f32_mag w else f32_mag w)"

definition f32_lt :: "U32 \<Rightarrow> U32 \<Rightarrow> bool" where
  "f32_lt v w = (\<not> f32_nan v \<and> \<not> f32_nan w \<and> f32_key v < f32_key w)"

definition f32_le :: "U32 \<Rightarrow> U32 \<Rightarrow> bool" where
  "f32_le v w = (\<not> f32_nan v \<and> \<not> f32_nan w \<and> f32_key v \<le> f32_key w)"

definition f32_eq :: "U32 \<Rightarrow> U32 \<Rightarrow> bool" where
  "f32_eq v w = (\<not> f32_nan v \<and> \<not> f32_nan w \<and> f32_key v = f32_key w)"

instantiation F32 :: "{ord,zero,one,uminus}"
begin

definition less_F32 :: "F32 \<Rightarrow> F32 \<Rightarrow> bool" where
  "a < b \<longleftrightarrow> f32_lt (f32_bits a) (f32_bits b)"

definition less_eq_F32 :: "F32 \<Rightarrow> F32 \<Rightarrow> bool" where
  "a \<le> b \<longleftrightarrow> f32_le (f32_bits a) (f32_bits b)"

definition zero_F32 :: F32 where
  "0 = F32 0"

definition one_F32 :: F32 where
  "1 = F32 0x3F800000"

definition uminus_F32 :: "F32 \<Rightarrow> F32" where
  "- a = F32 (f32_bits a XOR 0x80000000)"

instance ..

end

section \<open>Masks of the 128-bit build\<close>

text \<open>
  \<open>VecNMask\<close>, the four 32-bit lanes of an SSE register.
\<close>

datatype VecNMask = VecNMask (lane0: U32) (lane1: U32) (lane2: U32) (lane3: U32)

definition VecNMask_op :: "(U32 \<Rightarrow> U32 \<Rightarrow> U32) \<Rightarrow> VecNMask \<Rightarrow> VecNMask \<Rightarrow> VecNMask" where
  "VecNMask_op f a b =
     VecNMask (f (lane0 a) (lane0 b)) (f (lane1 a) (lane1 b))
              (f (lane2 a) (lane2 b)) (f (lane3 a) (lane3 b))"

definition VecNMask_and :: "VecNMask \<Rightarrow> VecNMask \<Rightarrow> VecNMask" where
  "VecNMask_and = VecNMask_op (AND)"

definition VecNMask_or :: "VecNMask \<Rightarrow> VecNMask \<Rightarrow> VecNMask" where
  "VecNMask_or = VecNMask_op (OR)"

definition VecNMask_eq :: "VecNMask \<Rightarrow> VecNMask \<Rightarrow> bool" where
  "VecNMask_eq lval rval =
     (let tmp = VecNMask_op (XOR) lval rval;
          folded = ((lane0 tmp OR lane1 tmp) OR lane2 tmp) OR lane3 tmp
      in folded = 0)"

definition VecNMask_ne :: "VecNMask \<Rightarrow> VecNMask \<Rightarrow> bool" where
  "VecNMask_ne lval rval = (\<not> VecNMask_eq lval rval)"

definition VecNMaskFull :: VecNMask where
  "VecNMaskFull = VecNMask 0xFFFFFFFF 0xFFFFFFFF 0xFFFFFFFF 0xFFFFFFFF"

definition VecNMaskEmpty :: VecNMask where
  "VecNMaskEmpty = VecNMask 0 0 0 0"

definition VecNMask_Broadcast0Lane :: "VecNMask \<Rightarrow> VecNMask" where
  "VecNMask_Broadcast0Lane val = VecNMask (lane0 val) (lane0 val) (lane0 val) (lane0 val)"

text \<open>An SSE comparison of two lanes: all ones or all zeros.\<close>

definition lane_mask :: "bool \<Rightarrow> U32" where
  "lane_mask b = (if b then 0xFFFFFFFF else 0)"

definition VecNMask_CmpMaskEQ :: "VecNMask \<Rightarrow> VecNMask \<Rightarrow> VecNMask" where
  "VecNMask_CmpMaskEQ = VecNMask_op (\<lambda>v w. lane_mask (f32_eq v w))"

definition VecNMask_CmpMaskNE :: "VecNMask \<Rightarrow> VecNMask \<Rightarrow> VecNMask" where
  "VecNMask_CmpMaskNE = VecNMask_op (\<lambda>v w. lane_mask (\<not> f32_eq v w))"

section \<open>The SIMD specialisation of \<open>VecN\<close>\<close>

text \<open>
  \<open>VecN<float,4>\<close>, a register of four floats; the intrinsics act lane by lane, here on the bit
  patterns. \<open>_mm_min_ps\<close> and \<open>_mm_max_ps\<close> return their second operand unless the first is
  strictly smaller or larger.
\<close>

datatype FloatV = FloatV (f0: U32) (f1: U32) (f2: U32) (f3: U32)

definition FloatV_splat :: "U32 \<Rightarrow> FloatV" where
  "FloatV_splat a = FloatV a a a a"

definition FloatV_map :: "(U32 \<Rightarrow> U32) \<Rightarrow> FloatV \<Rightarrow> FloatV" where
  "FloatV_map f a = FloatV (f (f0 a)) (f (f1 a)) (f (f2 a)) (f (f3 a))"

definition FloatV_zip :: "(U32 \<Rightarrow> U32 \<Rightarrow> U32) \<Rightarrow> FloatV \<Rightarrow> FloatV \<Rightarrow> FloatV" where
  "FloatV_zip f a b = FloatV (f (f0 a) (f0 b)) (f (f1 a) (f1 b)) (f (f2 a) (f2 b)) (f (f3 a) (f3 b))"

definition FloatV_CmpMask :: "(U32 \<Rightarrow> U32 \<Rightarrow> bool) \<Rightarrow> FloatV \<Rightarrow> FloatV \<Rightarrow> VecNMask" where
  "FloatV_CmpMask cmp lval rval =
     VecNMask (lane_mask (cmp (f0 lval) (f0 rval))) (lane_mask (cmp (f1 lval) (f1 rval)))
              (lane_mask (cmp (f2 lval) (f2 rval))) (lane_mask (cmp (f3 lval) (f3 rval)))"

definition CmpMaskLT :: "FloatV \<Rightarrow> FloatV \<Rightarrow> VecNMask" where
  "CmpMaskLT = FloatV_CmpMask f32_lt"

definition CmpMaskGT :: "FloatV \<Rightarrow> FloatV \<Rightarrow> VecNMask" where
  "CmpMaskGT = FloatV_CmpMask (\<lambda>v w. f32_lt w v)"

definition CmpMaskEQ :: "FloatV \<Rightarrow> FloatV \<Rightarrow> VecNMask" where
  "CmpMaskEQ = FloatV_CmpMask f32_eq"

definition CmpMaskNE :: "FloatV \<Rightarrow> FloatV \<Rightarrow> VecNMask" where
  "CmpMaskNE = FloatV_CmpMask (\<lambda>v w. \<not> f32_eq v w)"

definition CmpMaskLE :: "FloatV \<Rightarrow> FloatV \<Rightarrow> VecNMask" where
  "CmpMaskLE = FloatV_CmpMask f32_le"

definition CmpMaskGE :: "FloatV \<Rightarrow> FloatV \<Rightarrow> VecNMask" where
  "CmpMaskGE = FloatV_CmpMask (\<lambda>v w. f32_le w v)"

definition FloatV_eq :: "FloatV \<Rightarrow> FloatV \<Rightarrow> bool" where
  "FloatV_eq lval rval = VecNMask_eq VecNMaskEmpty (CmpMaskNE lval rval)"

definition FloatV_ne :: "FloatV \<Rightarrow> FloatV \<Rightarrow> bool" where
  "FloatV_ne lval rval = VecNMask_ne VecNMaskFull (CmpMaskEQ lval rval)"

definition FloatV_DSign :: "FloatV \<Rightarrow> FloatV" where
  "FloatV_DSign a =
     (let zero = FloatV_splat 0;
          selectPos = FloatV_zip (\<lambda>v w. lane_mask (f32_lt w v)) a zero;
          selectNeg = FloatV_zip (\<lambda>v w. lane_mask (f32_lt v w)) a zero;
          res = FloatV_zip (AND) selectPos (FloatV_splat 0x3F800000)
      in FloatV_zip (OR) res (FloatV_zip (AND) selectNeg (FloatV_splat 0xBF800000)))"

definition FloatV_DAbs :: "FloatV \<Rightarrow> FloatV" where
  "FloatV_DAbs a = (let notSignBitMask = NOT 0x80000000 in FloatV_zip (AND) a (FloatV_splat notSignBitMask))"

definition FloatV_DMin :: "FloatV \<Rightarrow> FloatV \<Rightarrow> FloatV" where
  "FloatV_DMin = FloatV_zip (\<lambda>v w. if f32_lt v w then v else w)"

definition FloatV_DMax :: "FloatV \<Rightarrow> FloatV \<Rightarrow> FloatV" where
  "FloatV_DMax = FloatV_zip (\<lambda>v w. if f32_lt w v then v else w)"

section \<open>The random generator\<close>

record DRandom =
  m_w :: U32
  m_z :: U32

definition DRandom_Init :: "U32 \<Rightarrow> DRandom" where
  "DRandom_Init seed =
     \<lparr>m_w = (seed AND 0x33333333) + 36969, m_z = (seed AND 0xCCCCCCCC) + 18000\<rparr>"

definition DRandom_seed64 :: "U64 \<Rightarrow> DRandom" where
  "DRandom_seed64 seed = DRandom_Init (ucast ((seed AND 0x00000000FFFFFFFF) OR drop_bit 32 seed))"

definition DRandom_default :: DRandom where
  "DRandom_default = \<lparr>m_w = 0, m_z = 0\<rparr>"

definition NextU32 :: "DRandom \<Rightarrow> U32 \<times> DRandom" where
  "NextU32 r =
     (let z = 36969 * (m_z r AND 65535) + drop_bit 16 (m_z r);
          w = 18000 * (m_w r AND 65535) + drop_bit 16 (m_w r)
      in (push_bit 16 z + w, \<lparr>m_w = w, m_z = z\<rparr>))"

definition NextI32 :: "DRandom \<Rightarrow> int \<times> DRandom" where
  "NextI32 r = (case NextU32 r of (u, r') \<Rightarrow> (sint u, r'))"

text \<open>
  \<open>int\<close> arithmetic that leaves 32 bits is undefined in C++, as is \<open>%\<close> by zero; \<open>smod\<close> is the
  remainder that truncates towards zero.
\<close>

definition int32 :: "int \<Rightarrow> bool" where
  "int32 i = (- (2 ^ 31) \<le> i \<and> i < 2 ^ 31)"

definition Next32Range :: "int \<Rightarrow> int \<Rightarrow> DRandom \<Rightarrow> int res \<times> DRandom" where
  "Next32Range rmin rmax r =
     (let delta = rmax - rmin + 1 in
      if \<not> int32 (rmax - rmin) \<or> \<not> int32 delta
      then (Inl (Undefined_behaviour ''signed overflow''), r)
      else (case NextU32 r of (u, r') \<Rightarrow>
        let val = sint (u AND 0x7FFFFFFF) in
        if delta = 0 then (Inl (Undefined_behaviour ''division by zero''), r')
        else let ret = sgn val * (\<bar>val\<bar> mod \<bar>delta\<bar>) + rmin in
             if int32 ret then (Inr ret, r')
             else (Inl (Undefined_behaviour ''signed overflow''), r')))"

definition RandRangeF_ID_s :: "U32 \<Rightarrow> real \<Rightarrow> real \<Rightarrow> real" where
  "RandRangeF_ID_s idn a b =
     (let w = idn AND 0x0000FFFF;
          z = drop_bit 16 idn;
          w = w + 36969;
          z = z + 18000;
          z = 36969 * (z AND 65535) + drop_bit 16 z;
          w = 18000 * (w AND 65535) + drop_bit 16 w;
          val = of_nat (unat (push_bit 16 z + w))
      in a + (b - a) * val * (1 / 0xFFFFFFFF))"

definition NextF0_1 :: "DRandom \<Rightarrow> real \<times> DRandom" where
  "NextF0_1 r = (case NextU32 r of (u, r') \<Rightarrow> (of_nat (unat u) / 0xFFFFFFFF, r'))"

section \<open>Scalar lemmas\<close>

lemma DMin_min [simp]: "DMin (a::'a::linorder) b = min a b"
  by (auto simp: DMin_def min_def)

lemma DMax_max [simp]: "DMax (a::'a::linorder) b = max a b"
  by (auto simp: DMax_def max_def)

lemma DMin3_min [simp]: "DMin3 (a::'a::linorder) b c = min a (min b c)"
  by (auto simp: DMin3_def min_def)

lemma DMax3_max [simp]: "DMax3 (a::'a::linorder) b c = max a (max b c)"
  by (auto simp: DMax3_def max_def)

lemma DAbs_abs [simp]: "DAbs (a::'a::linordered_idom) = \<bar>a\<bar>"
  by (simp add: DAbs_def abs_if)

lemma DSign_sgn [simp]: "DSign (a::'a::linordered_idom) = sgn a"
  by (simp add: DSign_def sgn_if)

lemma DClamp_bounds: "(x0::'a::linorder) \<le> x1 \<Longrightarrow> x0 \<le> DClamp a x0 x1 \<and> DClamp a x0 x1 \<le> x1"
  by (auto simp: DClamp_def)

lemma DClamp_mono: "(x0::'a::linorder) \<le> x1 \<Longrightarrow> a \<le> b \<Longrightarrow> DClamp a x0 x1 \<le> DClamp b x0 x1"
  by (auto simp: DClamp_def)

lemma DInvLerp_bounds: "0 \<le> DInvLerp l r (x::real) \<and> DInvLerp l r x \<le> 1"
  using DClamp_bounds [of 0 1 "(x - l) / (r - l)"] by (auto simp: DInvLerp_def)

lemma DInvLerp_mono:
  assumes "(l::real) < r" and "x \<le> y"
  shows "DInvLerp l r x \<le> DInvLerp l r y"
proof -
  have "(x - l) / (r - l) \<le> (y - l) / (r - l)"
    using assms by (simp add: divide_right_mono)
  then have "DClamp ((x - l) / (r - l)) 0 1 \<le> DClamp ((y - l) / (r - l)) 0 1"
    by (rule DClamp_mono [rotated]) simp
  then show ?thesis
    using assms DClamp_bounds [of "0::real" 1 "(x - l) / (r - l)"]
      DClamp_bounds [of "0::real" 1 "(y - l) / (r - l)"]
    by (auto simp: DInvLerp_def)
qed

lemma DInvLerp_inside:
  assumes "(l::real) < r" and "l \<le> x" and "x \<le> r"
  shows "DInvLerp l r x = (x - l) / (r - l)"
  using assms by (auto simp: DInvLerp_def DClamp_def divide_simps)

lemma hermite_mono:
  assumes "0 \<le> (x::real)" and "x \<le> y" and "y \<le> 1"
  shows "x * x * (3 - 2 * x) \<le> y * y * (3 - 2 * y)"
proof -
  have "y * y * (3 - 2 * y) - x * x * (3 - 2 * x)
        = (y - x) * (3 * (x * (1 - x) + y * (1 - y)) + (y - x) * (y - x))"
    by (simp add: algebra_simps)
  moreover have "0 \<le> (y - x) * (3 * (x * (1 - x) + y * (1 - y)) + (y - x) * (y - x))"
    using assms by (intro mult_nonneg_nonneg add_nonneg_nonneg) auto
  ultimately show ?thesis by linarith
qed

lemma DSmoothStep_poly:
  "DSmoothStep a b (t::real) = 3 * (DInvLerp a b t) ^ 2 - 2 * (DInvLerp a b t) ^ 3"
  by (simp add: DSmoothStep_def Let_def power2_eq_square power3_eq_cube algebra_simps)

lemma DSmoothStep_mono:
  assumes "(a::real) < b" and "s \<le> t"
  shows "DSmoothStep a b s \<le> DSmoothStep a b t"
  unfolding DSmoothStep_def Let_def
  using DInvLerp_bounds [of a b s] DInvLerp_bounds [of a b t] DInvLerp_mono [OF assms]
  by (intro hermite_mono) auto

lemma DSmoothStep_bounds: "0 \<le> DSmoothStep a b (t::real) \<and> DSmoothStep a b t \<le> 1"
  using hermite_mono [of 0 "DInvLerp a b t"] hermite_mono [of "DInvLerp a b t" 1]
    DInvLerp_bounds [of a b t]
  by (simp add: DSmoothStep_def Let_def)

section \<open>SIMD block lemmas\<close>

lemma and_3: "unat (x AND 3 :: U32) = unat x mod 4"
proof -
  have "x AND 3 = take_bit 2 x"
    by (simp add: take_bit_eq_mask mask_eq_exp_minus_1)
  then show ?thesis
    by (simp add: unat_mod take_bit_eq_mod)
qed

lemma and_not_3: "x AND NOT 3 = (x :: U32) - (x AND 3)"
proof -
  have "x = (x AND 3) + (x AND NOT 3)"
    by (subst disjunctive_add) (auto intro!: bit_word_eqI simp: bit_simps)
  then show ?thesis
    by (metis add_diff_cancel_left')
qed

lemma unat_pad:
  assumes "unat (n :: U32) + 3 < 2 ^ 32"
  shows "unat (n + 3) = unat n + 3"
  using assms by (simp add: unat_word_ariths)

lemma unat_BLOCKS:
  assumes "unat n + 3 < 2 ^ 32"
  shows "unat (DMT_SIMD_BLOCKS n) = (unat n + 3) div 4"
  using unat_pad [OF assms] by (simp add: DMT_SIMD_BLOCKS_def DMT_SIMD_FLEN_def unat_div)

lemma unat_PADSIZE:
  assumes "unat n + 3 < 2 ^ 32"
  shows "unat (DMT_SIMD_PADSIZE n) = 4 * ((unat n + 3) div 4)"
proof -
  have le: "(n + 3) AND 3 \<le> n + 3"
    by (simp add: word_le_nat_alt and_3)
  have "DMT_SIMD_PADSIZE n = (n + 3) - ((n + 3) AND 3)"
    using and_not_3 [of "n + 3"] by (simp add: DMT_SIMD_PADSIZE_def DMT_SIMD_FLEN_def)
  then have "unat (DMT_SIMD_PADSIZE n) = unat (n + 3) - unat ((n + 3) AND 3)"
    using le by (simp add: unat_sub)
  also have "\<dots> = 4 * ((unat n + 3) div 4)"
    by (simp add: and_3 unat_pad [OF assms] minus_mod_eq_mult_div)
  finally show ?thesis .
qed

lemma unat_BLK_IDX: "unat (DMT_SIMD_BLK_IDX i) = unat i div 4"
  by (simp add: DMT_SIMD_BLK_IDX_def DMT_SIMD_FLEN_def unat_div)

lemma unat_SUB_IDX: "unat (DMT_SIMD_SUB_IDX i) = unat i mod 4"
  by (simp add: DMT_SIMD_SUB_IDX_def DMT_SIMD_FLEN_def and_3)

section \<open>Mask and float lemmas\<close>

lemma word_xor_eq_0: "(v :: 'a::len word) XOR w = 0 \<longleftrightarrow> v = w"
proof
  assume "v XOR w = 0"
  then have "(v XOR w) XOR w = w" by simp
  then show "v = w" by (simp add: xor.assoc)
qed simp

lemma VecNMask_eq_iff: "VecNMask_eq a b \<longleftrightarrow> a = b"
  by (cases a; cases b) (auto simp: VecNMask_eq_def VecNMask_op_def Let_def or_eq_0_iff word_xor_eq_0)

lemma lane_mask_simps [simp]:
  "lane_mask b = 0 \<longleftrightarrow> \<not> b" "lane_mask b = 0xFFFFFFFF \<longleftrightarrow> b"
  "0 = lane_mask b \<longleftrightarrow> \<not> b" "0xFFFFFFFF = lane_mask b \<longleftrightarrow> b"
  by (auto simp: lane_mask_def)

lemma lane_mask_and: "lane_mask b AND w = (if b then w else 0)"
proof -
  have "(0xFFFFFFFF :: U32) = -1" by simp
  then show ?thesis by (simp only: lane_mask_def) simp
qed

lemma FloatV_eq_iff:
  "FloatV_eq a b \<longleftrightarrow>
     f32_eq (f0 a) (f0 b) \<and> f32_eq (f1 a) (f1 b) \<and> f32_eq (f2 a) (f2 b) \<and> f32_eq (f3 a) (f3 b)"
  by (simp add: FloatV_eq_def VecNMask_eq_iff CmpMaskNE_def FloatV_CmpMask_def VecNMaskEmpty_def)

lemma FloatV_ne_iff: "FloatV_ne a b \<longleftrightarrow> \<not> FloatV_eq a b"
  by (simp add: FloatV_ne_def VecNMask_ne_def VecNMask_eq_iff CmpMaskEQ_def FloatV_CmpMask_def
      VecNMaskFull_def FloatV_eq_iff)

lemma f32_key_0 [simp]: "f32_key 0 = 0"
  by (simp add: f32_key_def f32_mag_def)

lemma f32_nan_0 [simp]: "\<not> f32_nan 0"
  by (simp add: f32_nan_def f32_mag_def)

lemma bit_0x80000000: "bit (0x80000000 :: U32) i \<longleftrightarrow> i = 31"
proof -
  have "(0x80000000 :: U32) = push_bit 31 1" by simp
  then show ?thesis by (simp only: bit_push_bit_iff) (auto simp: bit_1_iff)
qed

lemma bit_0x7FFFFFFF: "bit (0x7FFFFFFF :: U32) i \<longleftrightarrow> i < 31"
proof -
  have "(0x7FFFFFFF :: U32) = mask 31" by (simp add: mask_eq_exp_minus_1)
  then show ?thesis by (simp only: bit_mask_iff) auto
qed

lemma not_sign_bit: "NOT (0x80000000 :: U32) = 0x7FFFFFFF"
  by (rule bit_word_eqI) (simp only: bit_not_iff bit_0x80000000 bit_0x7FFFFFFF, auto)

lemma FloatV_DAbs_map: "FloatV_DAbs a = FloatV_map (\<lambda>v. v AND 0x7FFFFFFF) a"
  by (simp only: FloatV_DAbs_def Let_def not_sign_bit) (simp add: FloatV_map_def FloatV_zip_def FloatV_splat_def)

lemma f32_mag_flip [simp]: "f32_mag (w XOR 0x80000000) = f32_mag w"
proof -
  have "(w XOR 0x80000000) AND 0x7FFFFFFF = w AND 0x7FFFFFFF"
    by (rule bit_word_eqI) (auto simp only: bit_and_iff bit_xor_iff bit_0x80000000 bit_0x7FFFFFFF)
  then show ?thesis by (simp only: f32_mag_def)
qed

lemma f32_mag_clear [simp]: "f32_mag (w AND 0x7FFFFFFF) = f32_mag w"
  by (simp add: f32_mag_def and.assoc)

lemma f32_mag_nonneg [simp]: "0 \<le> f32_mag w"
  by (simp add: f32_mag_def)

lemma f32_sign_bits:
  "bit (w XOR 0x80000000 :: U32) 31 \<longleftrightarrow> \<not> bit w 31" "\<not> bit (w AND 0x7FFFFFFF :: U32) 31"
  by (simp_all only: bit_and_iff bit_xor_iff bit_0x80000000 bit_0x7FFFFFFF) auto

lemma f32_key_flip: "f32_key (w XOR 0x80000000) = - f32_key w"
  by (simp add: f32_key_def f32_sign_bits)

lemma f32_key_clear: "f32_key (w AND 0x7FFFFFFF) = \<bar>f32_key w\<bar>"
  by (simp add: f32_key_def f32_sign_bits)

text \<open>One lane of the SIMD routines against the templates at \<^typ>\<open>F32\<close>.\<close>

lemma DMin_lane: "f32_bits (DMin (F32 v) (F32 w)) = (if f32_lt v w then v else w)"
  by (simp add: DMin_def less_F32_def)

lemma DMax_lane: "f32_bits (DMax (F32 v) (F32 w)) = (if f32_lt w v then v else w)"
  by (simp add: DMax_def less_F32_def)

lemma DSign_lane:
  "f32_bits (DSign (F32 v)) =
     (if f32_lt v 0 then 0xBF800000 else if f32_lt 0 v then 0x3F800000 else 0)"
  by (simp add: DSign_def less_F32_def zero_F32_def one_F32_def uminus_F32_def)

lemma f32_nan_clear [simp]: "f32_nan (w AND 0x7FFFFFFF) = f32_nan w"
  by (simp add: f32_nan_def)

lemma sign_cleared:
  fixes v :: U32
  shows "bit v 31 \<Longrightarrow> v XOR 0x80000000 = v AND 0x7FFFFFFF"
    and "\<not> bit v 31 \<Longrightarrow> v AND 0x7FFFFFFF = v"
proof -
  show "v XOR 0x80000000 = v AND 0x7FFFFFFF" if "bit v 31"
  proof (rule bit_word_eqI)
    fix n
    assume "n < LENGTH(32)"
    then show "bit (v XOR 0x80000000) n = bit (v AND 0x7FFFFFFF) n"
      using that by (cases "n = 31") (simp_all only: bit_and_iff bit_xor_iff bit_0x80000000 bit_0x7FFFFFFF, auto)
  qed
  show "v AND 0x7FFFFFFF = v" if "\<not> bit v 31"
  proof (rule bit_word_eqI)
    fix n
    assume "n < LENGTH(32)"
    then show "bit (v AND 0x7FFFFFFF) n = bit v n"
      using that by (cases "n = 31") (simp_all only: bit_and_iff bit_0x7FFFFFFF, auto)
  qed
qed

lemma f32_mag_zero: "bit v 31 \<Longrightarrow> f32_mag v = 0 \<longleftrightarrow> v = 0x80000000"
proof
  assume s: "bit v 31" and "f32_mag v = 0"
  then have "v XOR 0x80000000 = 0" by (simp add: f32_mag_def sign_cleared uint_0_iff)
  then have "(v XOR 0x80000000) XOR 0x80000000 = 0x80000000" by (simp only: xor.left_neutral)
  then show "v = 0x80000000" by (simp add: xor.assoc)
qed (simp add: f32_mag_def)

text \<open>The generic \<open>DAbs\<close> on the bits: it leaves a negative zero and a negative NaN alone.\<close>

lemma DAbs_lane:
  "f32_bits (DAbs (F32 v)) =
     (if bit v 31 \<and> (f32_nan v \<or> v = 0x80000000) then v else v AND 0x7FFFFFFF)"
proof -
  have "f32_bits (DAbs (F32 v)) = (if f32_lt v 0 then v XOR 0x80000000 else v)"
    by (simp add: DAbs_def less_F32_def zero_F32_def uminus_F32_def)
  moreover have "f32_lt v 0 \<longleftrightarrow> bit v 31 \<and> \<not> f32_nan v \<and> v \<noteq> 0x80000000"
    using f32_mag_zero [of v] f32_mag_nonneg [of v]
    by (cases "bit v 31") (auto simp: f32_lt_def f32_key_def [of v] simp del: f32_mag_nonneg)
  ultimately show ?thesis
    using sign_cleared [of v] by (cases "bit v 31") (simp_all only: if_True if_False simp_thms split: if_splits, auto)
qed

section \<open>Random generator lemmas\<close>

definition NextU32_state :: "DRandom \<Rightarrow> DRandom" where
  "NextU32_state r = snd (NextU32 r)"

lemma mwc_no_wrap:
  fixes x c :: U32
  assumes "unat c \<le> 65535"
  shows "unat (c * (x AND 65535) + drop_bit 16 x) = unat c * (unat x mod 65536) + unat x div 65536"
proof -
  have lo: "unat (x AND 65535) = unat x mod 65536"
  proof -
    have "x AND 65535 = take_bit 16 x"
      by (simp add: take_bit_eq_mask mask_eq_exp_minus_1)
    then show ?thesis by (simp add: unat_mod take_bit_eq_mod)
  qed
  have hi: "unat (drop_bit 16 x) = unat x div 65536"
    by (simp add: unat_div drop_bit_eq_div)
  have b: "unat x < 4294967296"
    using unsigned_less [of x] by simp
  have m: "unat c * (unat x mod 65536) \<le> 65535 * 65535"
    using assms by (intro mult_mono) auto
  have "unat x div 65536 < 65536" using b by auto
  with m have "unat c * (unat x mod 65536) + unat x div 65536 < 4294967296" by simp
  then show ?thesis
    by (simp add: unat_word_ariths lo hi)
qed

lemma mwc_nonzero:
  fixes x c :: U32
  assumes "unat c \<le> 65535" and "0 < unat c" and "x \<noteq> 0"
  shows "c * (x AND 65535) + drop_bit 16 x \<noteq> 0"
proof
  assume "c * (x AND 65535) + drop_bit 16 x = 0"
  then have "unat c * (unat x mod 65536) + unat x div 65536 = 0"
    using mwc_no_wrap [OF assms(1), of x] by simp
  then have "unat x mod 65536 = 0" and "unat x div 65536 = 0"
    using assms(2) by auto
  then have "unat x = 0"
    by (metis div_mult_mod_eq mult_0 add_0)
  then show False using assms(3) by (simp add: unat_eq_0)
qed

lemma NextU32_keeps_nonzero:
  "m_w r \<noteq> 0 \<Longrightarrow> m_z r \<noteq> 0 \<Longrightarrow>
   m_w (NextU32_state r) \<noteq> 0 \<and> m_z (NextU32_state r) \<noteq> 0"
  by (simp add: NextU32_state_def NextU32_def Let_def mwc_nonzero)

lemma NextU32_iter_nonzero:
  "m_w r \<noteq> 0 \<Longrightarrow> m_z r \<noteq> 0 \<Longrightarrow>
   m_w ((NextU32_state ^^ n) r) \<noteq> 0 \<and> m_z ((NextU32_state ^^ n) r) \<noteq> 0"
  by (induction n) (auto simp: NextU32_keeps_nonzero)

lemma masked_plus_nonzero:
  fixes seed m k :: U32
  assumes "unat m + unat k < 2 ^ 32" and "0 < unat k"
  shows "(seed AND m) + k \<noteq> 0"
proof -
  have "unat (seed AND m) \<le> unat m"
    by (simp add: word_le_nat_alt [symmetric] word_and_le1)
  then have "unat ((seed AND m) + k) = unat (seed AND m) + unat k"
    using assms by (simp add: unat_word_ariths)
  then show ?thesis using assms(2) by auto
qed

lemma DRandom_Init_nonzero: "m_w (DRandom_Init seed) \<noteq> 0 \<and> m_z (DRandom_Init seed) \<noteq> 0"
  using masked_plus_nonzero [of "0x33333333" 36969 seed] masked_plus_nonzero [of "0xCCCCCCCC" 18000 seed]
  by (simp add: DRandom_Init_def)

lemma NextU32_default: "(NextU32_state ^^ n) DRandom_default = DRandom_default"
  by (induction n) (auto simp: NextU32_state_def NextU32_def DRandom_default_def Let_def)

lemma uint_31bit: "uint (u AND 0x7FFFFFFF :: U32) < 2 ^ 31"
proof -
  have "u AND 0x7FFFFFFF \<le> 0x7FFFFFFF" by (rule word_and_le1)
  then show ?thesis by (simp add: word_le_def)
qed

lemma sint_31bit: "sint (u AND 0x7FFFFFFF :: U32) = uint (u AND 0x7FFFFFFF)"
proof -
  have "\<not> bit (u AND 0x7FFFFFFF) 31"
    by (simp only: bit_and_iff bit_0x7FFFFFFF) simp
  then show ?thesis
    using uint_31bit [of u]
    by (simp add: sint_uint signed_take_bit_eq_if_positive bit_uint_iff take_bit_int_eq_self_iff
        del: and_numerals)
qed

section \<open>Properties\<close>

text \<open>
  The SIMD index macros of \<open>DMathBase.h\<close> partition an array exactly. For every size
  whose padding does not wrap 32 bits, \<open>DMT_SIMD_PADSIZE\<close> is \<open>DMT_SIMD_FLEN\<close> times
  \<open>DMT_SIMD_BLOCKS\<close>, it is the least multiple of four not below the size, and every index
  below the size lies in one of the blocks at the sub-index the macros give, from which it is
  recovered.
\<close>

theorem simd_blocks_cover:
  assumes "unat n + 3 < 2 ^ 32" and "i < n"
  shows "unat (DMT_SIMD_PADSIZE n) = unat DMT_SIMD_FLEN * unat (DMT_SIMD_BLOCKS n)
    \<and> unat n \<le> unat (DMT_SIMD_PADSIZE n) \<and> unat (DMT_SIMD_PADSIZE n) < unat n + 4
    \<and> DMT_SIMD_BLK_IDX i < DMT_SIMD_BLOCKS n \<and> DMT_SIMD_SUB_IDX i < DMT_SIMD_FLEN
    \<and> unat i = unat DMT_SIMD_FLEN * unat (DMT_SIMD_BLK_IDX i) + unat (DMT_SIMD_SUB_IDX i)"
proof -
  have "unat i < unat n" using assms(2) by (simp add: word_less_nat_alt)
  then show ?thesis
    using assms(1) unat_BLOCKS [OF assms(1)] unat_PADSIZE [OF assms(1)] unat_BLK_IDX [of i]
      unat_SUB_IDX [of i]
    by (auto simp: word_less_nat_alt DMT_SIMD_FLEN_def)
qed

theorem simd_blocks_cover_witness:
  "unat (DMT_SIMD_PADSIZE 10) = unat DMT_SIMD_FLEN * unat (DMT_SIMD_BLOCKS 10)
    \<and> DMT_SIMD_BLK_IDX 9 < DMT_SIMD_BLOCKS 10 \<and> DMT_SIMD_SUB_IDX 9 < DMT_SIMD_FLEN"
  using simd_blocks_cover [of 10 9] by simp

text \<open>
  C35: the hand-written SSE routines of \<open>VecN<float,4>\<close> agree, lane by lane and on the bits of
  the floats, with the generic templates they replace: \<open>DMin\<close>, \<open>DMax\<close> and \<open>DSign\<close> are
  bit-for-bit the template, signed zeros and NaNs included. \<open>DAbs\<close> always clears the sign bit;
  the template gives the same bits except on a negative zero and on a negative NaN, which it
  returns as they are.
\<close>

theorem simd_specialisations_agree:
  "FloatV_DMin a b = FloatV_zip (\<lambda>v w. f32_bits (DMin (F32 v) (F32 w))) a b
   \<and> FloatV_DMax a b = FloatV_zip (\<lambda>v w. f32_bits (DMax (F32 v) (F32 w))) a b
   \<and> FloatV_DSign a = FloatV_map (\<lambda>v. f32_bits (DSign (F32 v))) a
   \<and> FloatV_DAbs a = FloatV_map (\<lambda>v. v AND 0x7FFFFFFF) a
   \<and> f32_bits (DAbs (F32 v)) =
        (if bit v 31 \<and> (f32_nan v \<or> v = 0x80000000) then v else v AND 0x7FFFFFFF)"
proof (intro conjI)
  show "FloatV_DSign a = FloatV_map (\<lambda>v. f32_bits (DSign (F32 v))) a"
    by (auto simp: FloatV_DSign_def FloatV_map_def FloatV_zip_def FloatV_splat_def Let_def DSign_lane
        lane_mask_and f32_lt_def)
qed (simp_all add: FloatV_DMin_def FloatV_DMax_def DMin_lane DMax_lane FloatV_DAbs_map
      FloatV_zip_def FloatV_map_def FloatV_splat_def DAbs_lane)

text \<open>
  Equality of SIMD registers. \<open>==\<close> holds exactly when every lane compares equal as a
  float, and \<open>!=\<close> is its negation although the two are computed from different masks.
\<close>

theorem simd_equality:
  "(FloatV_eq a b \<longleftrightarrow> f32_eq (f0 a) (f0 b) \<and> f32_eq (f1 a) (f1 b)
      \<and> f32_eq (f2 a) (f2 b) \<and> f32_eq (f3 a) (f3 b))
   \<and> (FloatV_ne a b \<longleftrightarrow> \<not> FloatV_eq a b)"
  by (simp add: FloatV_eq_iff FloatV_ne_iff)

text \<open>
  Comparing two masks with \<open>CmpMaskEQ\<close>, the operation behind the shader instruction
  \<open>seteq.bbb\<close>, compares the lanes as floats. An all-ones lane, the representation of true, is a
  NaN: true compared with true gives false in every lane, and \<open>CmpMaskNE\<close> gives true.
\<close>

theorem true_masks_compare_unequal:
  "VecNMask_CmpMaskEQ VecNMaskFull VecNMaskFull = VecNMaskEmpty
   \<and> VecNMask_CmpMaskNE VecNMaskFull VecNMaskFull = VecNMaskFull
   \<and> VecNMask_CmpMaskEQ VecNMaskEmpty VecNMaskEmpty = VecNMaskFull"
  by (simp add: VecNMask_CmpMaskEQ_def VecNMask_CmpMaskNE_def VecNMask_op_def VecNMaskFull_def
      VecNMaskEmpty_def f32_eq_def f32_nan_def f32_mag_def lane_mask_def)

text \<open>
  \<open>DSmoothStep\<close> is the smooth step of the shading language: between the edges it is the
  Hermite polynomial of the normalised parameter, it is 0 up to the left edge and 1 from the
  right edge on, always lies between 0 and 1, and never decreases.
\<close>

theorem DSmoothStep_correct:
  assumes "a < (b::real)" and "s \<le> t"
  shows "0 \<le> DSmoothStep a b t \<and> DSmoothStep a b t \<le> 1
    \<and> DSmoothStep a b s \<le> DSmoothStep a b t
    \<and> (t \<le> a \<longrightarrow> DSmoothStep a b t = 0) \<and> (b \<le> t \<longrightarrow> DSmoothStep a b t = 1)
    \<and> (a \<le> t \<and> t \<le> b \<longrightarrow>
        DSmoothStep a b t = 3 * ((t - a) / (b - a)) ^ 2 - 2 * ((t - a) / (b - a)) ^ 3)"
proof (intro conjI impI)
  show "DSmoothStep a b t = 0" if "t \<le> a"
    using that assms(1) DInvLerp_inside [of a b a]
    by (cases "t = a") (auto simp: DSmoothStep_def DInvLerp_def Let_def)
  show "DSmoothStep a b t = 1" if "b \<le> t"
    using that assms(1) DInvLerp_inside [of a b b]
    by (cases "t = b") (auto simp: DSmoothStep_def DInvLerp_def Let_def)
  show "DSmoothStep a b t = 3 * ((t - a) / (b - a)) ^ 2 - 2 * ((t - a) / (b - a)) ^ 3"
    if "a \<le> t \<and> t \<le> b"
    using that assms(1) DInvLerp_inside [of a b t] by (simp add: DSmoothStep_poly)
qed (use DSmoothStep_bounds [of a b t] DSmoothStep_mono [OF assms] in auto)

theorem DSmoothStep_correct_witness:
  "(0::real) < 4 \<and> DSmoothStep (0::real) 4 1 \<le> DSmoothStep 0 4 2
   \<and> DSmoothStep (0::real) 4 2 = 3 * (2 / 4) ^ 2 - 2 * (2 / 4) ^ 3"
  using DSmoothStep_correct [of 0 4 1 2] by simp

text \<open>
  C36: \<open>DRandom::Next32Range\<close> returns a value of the requested inclusive range whenever the
  width of the range fits an \<open>int\<close>, for every generator state.
\<close>

theorem Next32Range_in_range:
  assumes "int32 rmin" and "int32 rmax" and "rmin \<le> rmax" and "rmax - rmin + 1 < 2 ^ 31"
  shows "\<exists>v r'. Next32Range rmin rmax r = (Inr v, r') \<and> rmin \<le> v \<and> v \<le> rmax \<and> r' = snd (NextU32 r)"
proof -
  obtain u r' where n: "NextU32 r = (u, r')" by (cases "NextU32 r")
  define val where "val = uint (u AND 0x7FFFFFFF)"
  have "0 \<le> val" by (simp add: val_def)
  then have v: "sgn val * (\<bar>val\<bar> mod \<bar>rmax - rmin + 1\<bar>) = val mod (rmax - rmin + 1)"
    using assms(3) by (cases "val = 0") auto
  have b: "0 \<le> val mod (rmax - rmin + 1)" "val mod (rmax - rmin + 1) < rmax - rmin + 1"
    using assms(3) by (simp, intro pos_mod_bound) simp
  have "Next32Range rmin rmax r = (Inr (val mod (rmax - rmin + 1) + rmin), r')"
    using assms b v n
    by (simp add: Next32Range_def Let_def int32_def sint_31bit val_def [symmetric])
  with b n show ?thesis by auto
qed

theorem Next32Range_in_range_witness:
  "int32 (- 3) \<and> int32 7 \<and>
   (\<exists>v r'. Next32Range (- 3) 7 (DRandom_Init 1) = (Inr v, r') \<and> - 3 \<le> v \<and> v \<le> 7
      \<and> r' = snd (NextU32 (DRandom_Init 1)))"
  using Next32Range_in_range [of "- 3" 7 "DRandom_Init 1"] by (simp add: int32_def)

text \<open>
  A generator initialised from a seed never degenerates: neither half of its state
  becomes zero, however many numbers are drawn. A default-constructed generator, which skips
  \<open>Init\<close>, is stuck: every number it produces is zero.
\<close>

theorem seeded_generator_alive:
  "m_w ((NextU32_state ^^ n) (DRandom_Init seed)) \<noteq> 0
   \<and> m_z ((NextU32_state ^^ n) (DRandom_Init seed)) \<noteq> 0
   \<and> fst (NextU32 ((NextU32_state ^^ n) DRandom_default)) = 0"
  using NextU32_iter_nonzero [of "DRandom_Init seed" n] DRandom_Init_nonzero [of seed]
  by (simp add: NextU32_default) (simp add: NextU32_def DRandom_default_def Let_def)

end
