(* ===== verification/Vectors.thy ===== *)
theory Vectors
  imports Scalars
begin

text \<open>
  The vector classes of \<open>DVector.h\<close> and \<open>DMT_VecN.h\<close>. Fixed-size vectors are datatypes with one
  field per array element (an index outside the array has no meaning in C++ and none here);
  \<open>VecN\<close> is the list of its elements. An operator that the code writes out four times, once
  for each of \<open>+ - * /\<close>, is one definition that takes the scalar operator as its argument.
\<close>

section \<open>Two, three and four components\<close>

datatype 'a Vec2 = Vec2 (x2: 'a) (y2: 'a)
datatype 'a Vec3 = Vec3 (x3: 'a) (y3: 'a) (z3: 'a)
datatype 'a Vec4 = Vec4 (x4: 'a) (y4: 'a) (z4: 'a) (w4: 'a)

definition Vec2_splat :: "'a \<Rightarrow> 'a Vec2" where
  "Vec2_splat a = Vec2 a a"

definition Vec3_splat :: "'a \<Rightarrow> 'a Vec3" where
  "Vec3_splat a = Vec3 a a a"

definition Vec4_splat :: "'a \<Rightarrow> 'a Vec4" where
  "Vec4_splat a = Vec4 a a a a"

definition Vec3_of_Vec2 :: "'a::zero Vec2 \<Rightarrow> 'a Vec3" where
  "Vec3_of_Vec2 v = Vec3 (x2 v) (y2 v) 0"

definition Vec4_of_Vec3 :: "'a Vec3 \<Rightarrow> 'a \<Rightarrow> 'a Vec4" where
  "Vec4_of_Vec3 v w = Vec4 (x3 v) (y3 v) (z3 v) w"

definition Vec3_GetAsV2 :: "'a Vec3 \<Rightarrow> 'a Vec2" where
  "Vec3_GetAsV2 v = Vec2 (x3 v) (y3 v)"

definition Vec4_GetAsV3 :: "'a Vec4 \<Rightarrow> 'a Vec3" where
  "Vec4_GetAsV3 v = Vec3 (x4 v) (y4 v) (z4 v)"

definition Vec4_GetAsV2 :: "'a Vec4 \<Rightarrow> 'a Vec2" where
  "Vec4_GetAsV2 v = Vec2 (x4 v) (y4 v)"

definition Vec2_SetZero :: "'a::zero Vec2" where
  "Vec2_SetZero = Vec2 0 0"

definition Vec3_SetZero :: "'a::zero Vec3" where
  "Vec3_SetZero = Vec3 0 0 0"

definition Vec4_SetZero :: "'a::zero Vec4" where
  "Vec4_SetZero = Vec4 0 0 0 0"

definition Vec2_IsZero :: "'a::zero Vec2 \<Rightarrow> bool" where
  "Vec2_IsZero v = list_all (\<lambda>x. x = 0) [x2 v, y2 v]"

definition Vec3_IsZero :: "'a::zero Vec3 \<Rightarrow> bool" where
  "Vec3_IsZero v = list_all (\<lambda>x. x = 0) [x3 v, y3 v, z3 v]"

definition Vec4_IsZero :: "'a::zero Vec4 \<Rightarrow> bool" where
  "Vec4_IsZero v = list_all (\<lambda>x. x = 0) [x4 v, y4 v, z4 v, w4 v]"

subsection \<open>Operators with a scalar, with a vector, and with the scalar on the left\<close>

definition Vec2_opS :: "('a \<Rightarrow> 'a \<Rightarrow> 'a) \<Rightarrow> 'a Vec2 \<Rightarrow> 'a \<Rightarrow> 'a Vec2" where
  "Vec2_opS f v rval = Vec2 (f (x2 v) rval) (f (y2 v) rval)"

definition Vec2_opV :: "('a \<Rightarrow> 'a \<Rightarrow> 'a) \<Rightarrow> 'a Vec2 \<Rightarrow> 'a Vec2 \<Rightarrow> 'a Vec2" where
  "Vec2_opV f v rval = Vec2 (f (x2 v) (x2 rval)) (f (y2 v) (y2 rval))"

definition Vec3_opS :: "('a \<Rightarrow> 'a \<Rightarrow> 'a) \<Rightarrow> 'a Vec3 \<Rightarrow> 'a \<Rightarrow> 'a Vec3" where
  "Vec3_opS f v rval = Vec3 (f (x3 v) rval) (f (y3 v) rval) (f (z3 v) rval)"

definition Vec3_opV :: "('a \<Rightarrow> 'a \<Rightarrow> 'a) \<Rightarrow> 'a Vec3 \<Rightarrow> 'a Vec3 \<Rightarrow> 'a Vec3" where
  "Vec3_opV f v rval = Vec3 (f (x3 v) (x3 rval)) (f (y3 v) (y3 rval)) (f (z3 v) (z3 rval))"

definition Vec4_opS :: "('a \<Rightarrow> 'a \<Rightarrow> 'a) \<Rightarrow> 'a Vec4 \<Rightarrow> 'a \<Rightarrow> 'a Vec4" where
  "Vec4_opS f v rval = Vec4 (f (x4 v) rval) (f (y4 v) rval) (f (z4 v) rval) (f (w4 v) rval)"

definition Vec4_opV :: "('a \<Rightarrow> 'a \<Rightarrow> 'a) \<Rightarrow> 'a Vec4 \<Rightarrow> 'a Vec4 \<Rightarrow> 'a Vec4" where
  "Vec4_opV f v rval =
     Vec4 (f (x4 v) (x4 rval)) (f (y4 v) (y4 rval)) (f (z4 v) (z4 rval)) (f (w4 v) (w4 rval))"

definition S_op_Vec2 :: "('a \<Rightarrow> 'a \<Rightarrow> 'a) \<Rightarrow> 'a \<Rightarrow> 'a Vec2 \<Rightarrow> 'a Vec2" where
  "S_op_Vec2 f lval rval = Vec2_opS f rval lval"

definition S_op_Vec3 :: "('a \<Rightarrow> 'a \<Rightarrow> 'a) \<Rightarrow> 'a \<Rightarrow> 'a Vec3 \<Rightarrow> 'a Vec3" where
  "S_op_Vec3 f lval rval = Vec3_opS f rval lval"

definition S_op_Vec4 :: "('a \<Rightarrow> 'a \<Rightarrow> 'a) \<Rightarrow> 'a \<Rightarrow> 'a Vec4 \<Rightarrow> 'a Vec4" where
  "S_op_Vec4 f lval rval = Vec4_opS f rval lval"

definition Vec2_neg :: "'a::uminus Vec2 \<Rightarrow> 'a Vec2" where
  "Vec2_neg v = Vec2 (- x2 v) (- y2 v)"

definition Vec3_neg :: "'a::uminus Vec3 \<Rightarrow> 'a Vec3" where
  "Vec3_neg v = Vec3 (- x3 v) (- y3 v) (- z3 v)"

definition Vec4_neg :: "'a::uminus Vec4 \<Rightarrow> 'a Vec4" where
  "Vec4_neg v = Vec4 (- x4 v) (- y4 v) (- z4 v) (- w4 v)"

definition Vec2_eq :: "'a Vec2 \<Rightarrow> 'a Vec2 \<Rightarrow> bool" where
  "Vec2_eq lval rval = (x2 lval = x2 rval \<and> y2 lval = y2 rval)"

definition Vec3_eq :: "'a Vec3 \<Rightarrow> 'a Vec3 \<Rightarrow> bool" where
  "Vec3_eq lval rval = (x3 lval = x3 rval \<and> y3 lval = y3 rval \<and> z3 lval = z3 rval)"

definition Vec4_eq :: "'a Vec4 \<Rightarrow> 'a Vec4 \<Rightarrow> bool" where
  "Vec4_eq lval rval =
     (x4 lval = x4 rval \<and> y4 lval = y4 rval \<and> z4 lval = z4 rval \<and> w4 lval = w4 rval)"

definition Vec2_ne :: "'a Vec2 \<Rightarrow> 'a Vec2 \<Rightarrow> bool" where
  "Vec2_ne lval rval = (x2 lval \<noteq> x2 rval \<or> y2 lval \<noteq> y2 rval)"

definition Vec3_ne :: "'a Vec3 \<Rightarrow> 'a Vec3 \<Rightarrow> bool" where
  "Vec3_ne lval rval = (x3 lval \<noteq> x3 rval \<or> y3 lval \<noteq> y3 rval \<or> z3 lval \<noteq> z3 rval)"

definition Vec4_ne :: "'a Vec4 \<Rightarrow> 'a Vec4 \<Rightarrow> bool" where
  "Vec4_ne lval rval =
     (x4 lval \<noteq> x4 rval \<or> y4 lval \<noteq> y4 rval \<or> z4 lval \<noteq> z4 rval \<or> w4 lval \<noteq> w4 rval)"

subsection \<open>Products, lengths and component-wise functions\<close>

definition DDot2 :: "'a::{plus,times} Vec2 \<Rightarrow> 'a Vec2 \<Rightarrow> 'a" where
  "DDot2 a b = x2 a * x2 b + y2 a * y2 b"

definition DDot3 :: "'a::{plus,times} Vec3 \<Rightarrow> 'a Vec3 \<Rightarrow> 'a" where
  "DDot3 a b = x3 a * x3 b + y3 a * y3 b + z3 a * z3 b"

definition DDot4 :: "'a::{plus,times} Vec4 \<Rightarrow> 'a Vec4 \<Rightarrow> 'a" where
  "DDot4 a b = x4 a * x4 b + y4 a * y4 b + z4 a * z4 b + w4 a * w4 b"

definition DLengthSqr2 :: "'a::{plus,times} Vec2 \<Rightarrow> 'a" where
  "DLengthSqr2 a = DDot2 a a"

definition DLengthSqr3 :: "'a::{plus,times} Vec3 \<Rightarrow> 'a" where
  "DLengthSqr3 a = DDot3 a a"

definition DLengthSqr4 :: "'a::{plus,times} Vec4 \<Rightarrow> 'a" where
  "DLengthSqr4 a = DDot4 a a"

definition DLength2 :: "real Vec2 \<Rightarrow> real" where
  "DLength2 a = DSqrt (DLengthSqr2 a)"

definition DLength3 :: "real Vec3 \<Rightarrow> real" where
  "DLength3 a = DSqrt (DLengthSqr3 a)"

definition DLength4 :: "real Vec4 \<Rightarrow> real" where
  "DLength4 a = DSqrt (DLengthSqr4 a)"

definition DNormalize2 :: "real Vec2 \<Rightarrow> real Vec2" where
  "DNormalize2 v = Vec2_opS (*) v (DRSqrt (DLengthSqr2 v))"

definition DNormalize3 :: "real Vec3 \<Rightarrow> real Vec3" where
  "DNormalize3 v = Vec3_opS (*) v (DRSqrt (DLengthSqr3 v))"

definition DNormalize4 :: "real Vec4 \<Rightarrow> real Vec4" where
  "DNormalize4 v = Vec4_opS (*) v (DRSqrt (DLengthSqr4 v))"

definition DCross :: "'a::{minus,times} Vec3 \<Rightarrow> 'a Vec3 \<Rightarrow> 'a Vec3" where
  "DCross a b = Vec3 (y3 a * z3 b - z3 a * y3 b)
                     (z3 a * x3 b - x3 a * z3 b)
                     (x3 a * y3 b - y3 a * x3 b)"

text \<open>The members of \<open>Vec2\<close> and \<open>Vec3\<close> that repeat the free functions.\<close>

definition Vec2_GetLengthSqr :: "'a::{plus,times} Vec2 \<Rightarrow> 'a" where
  "Vec2_GetLengthSqr v = x2 v * x2 v + y2 v * y2 v"

definition Vec2_GetLength :: "real Vec2 \<Rightarrow> real" where
  "Vec2_GetLength v = DSqrt (Vec2_GetLengthSqr v)"

definition Vec2_GetDot :: "'a::{plus,times} Vec2 \<Rightarrow> 'a Vec2 \<Rightarrow> 'a" where
  "Vec2_GetDot v r = x2 v * x2 r + y2 v * y2 r"

definition Vec2_GetNormalized :: "real Vec2 \<Rightarrow> real Vec2" where
  "Vec2_GetNormalized v = Vec2_opS (*) v (DRSqrt (x2 v * x2 v + y2 v * y2 v))"

definition Vec3_GetNormalized :: "real Vec3 \<Rightarrow> real Vec3" where
  "Vec3_GetNormalized v = Vec3_opS (*) v (DRSqrt (x3 v * x3 v + y3 v * y3 v + z3 v * z3 v))"

definition Vec3_GetLengthSqr :: "'a::{plus,times} Vec3 \<Rightarrow> 'a" where
  "Vec3_GetLengthSqr v = x3 v * x3 v + y3 v * y3 v + z3 v * z3 v"

definition Vec3_GetLength :: "real Vec3 \<Rightarrow> real" where
  "Vec3_GetLength v = DSqrt (Vec3_GetLengthSqr v)"

definition Vec3_GetCross :: "'a::{minus,times} Vec3 \<Rightarrow> 'a Vec3 \<Rightarrow> 'a Vec3" where
  "Vec3_GetCross v r = Vec3 (y3 v * z3 r - z3 v * y3 r)
                            (z3 v * x3 r - x3 v * z3 r)
                            (x3 v * y3 r - y3 v * x3 r)"

definition Vec3_GetDot :: "'a::{plus,times} Vec3 \<Rightarrow> 'a Vec3 \<Rightarrow> 'a" where
  "Vec3_GetDot v r = x3 v * x3 r + y3 v * y3 r + z3 v * z3 r"

definition Vec3_DAbs :: "'a::{ord,zero,uminus} Vec3 \<Rightarrow> 'a Vec3" where
  "Vec3_DAbs a = Vec3 (DAbs (x3 a)) (DAbs (y3 a)) (DAbs (z3 a))"

definition Vec3_DMin :: "'a::ord Vec3 \<Rightarrow> 'a Vec3 \<Rightarrow> 'a Vec3" where
  "Vec3_DMin a b = Vec3 (DMin (x3 a) (x3 b)) (DMin (y3 a) (y3 b)) (DMin (z3 a) (z3 b))"

definition Vec3_DMax :: "'a::ord Vec3 \<Rightarrow> 'a Vec3 \<Rightarrow> 'a Vec3" where
  "Vec3_DMax a b = Vec3 (DMax (x3 a) (x3 b)) (DMax (y3 a) (y3 b)) (DMax (z3 a) (z3 b))"

definition Vec4_DMin :: "'a::ord Vec4 \<Rightarrow> 'a Vec4 \<Rightarrow> 'a Vec4" where
  "Vec4_DMin a b = Vec4 (DMin (x4 a) (x4 b)) (DMin (y4 a) (y4 b)) (DMin (z4 a) (z4 b)) (DMin (w4 a) (w4 b))"

definition Vec4_DMax :: "'a::ord Vec4 \<Rightarrow> 'a Vec4 \<Rightarrow> 'a Vec4" where
  "Vec4_DMax a b = Vec4 (DMax (x4 a) (x4 b)) (DMax (y4 a) (y4 b)) (DMax (z4 a) (z4 b)) (DMax (w4 a) (w4 b))"

definition Vec3_IsSimilar :: "real Vec3 \<Rightarrow> real Vec3 \<Rightarrow> real \<Rightarrow> bool" where
  "Vec3_IsSimilar v r eps =
     (let diff = Vec3_DAbs (Vec3_opV (-) v r) in x3 diff < eps \<and> y3 diff < eps \<and> z3 diff < eps)"

definition Vec2_DFloor :: "real Vec2 \<Rightarrow> real Vec2" where
  "Vec2_DFloor v = Vec2 (DFloor (x2 v)) (DFloor (y2 v))"

definition Vec3_DFloor :: "real Vec3 \<Rightarrow> real Vec3" where
  "Vec3_DFloor v = Vec3 (DFloor (x3 v)) (DFloor (y3 v)) (DFloor (z3 v))"

definition Vec4_DFloor :: "real Vec4 \<Rightarrow> real Vec4" where
  "Vec4_DFloor v = Vec4 (DFloor (x4 v)) (DFloor (y4 v)) (DFloor (z4 v)) (DFloor (w4 v))"

definition Vec2_DCeil :: "real Vec2 \<Rightarrow> real Vec2" where
  "Vec2_DCeil v = Vec2 (DCeil (x2 v)) (DCeil (y2 v))"

definition Vec3_DCeil :: "real Vec3 \<Rightarrow> real Vec3" where
  "Vec3_DCeil v = Vec3 (DCeil (x3 v)) (DCeil (y3 v)) (DCeil (z3 v))"

definition Vec4_DCeil :: "real Vec4 \<Rightarrow> real Vec4" where
  "Vec4_DCeil v = Vec4 (DCeil (x4 v)) (DCeil (y4 v)) (DCeil (z4 v)) (DCeil (w4 v))"

definition Vec2_DClamp :: "'a::ord Vec2 \<Rightarrow> 'a Vec2 \<Rightarrow> 'a Vec2 \<Rightarrow> 'a Vec2" where
  "Vec2_DClamp v a b = Vec2 (DClamp (x2 v) (x2 a) (x2 b)) (DClamp (y2 v) (y2 a) (y2 b))"

definition Vec3_DClamp :: "'a::ord Vec3 \<Rightarrow> 'a Vec3 \<Rightarrow> 'a Vec3 \<Rightarrow> 'a Vec3" where
  "Vec3_DClamp v a b = Vec3 (DClamp (x3 v) (x3 a) (x3 b)) (DClamp (y3 v) (y3 a) (y3 b))
                            (DClamp (z3 v) (z3 a) (z3 b))"

definition Vec4_DClamp :: "'a::ord Vec4 \<Rightarrow> 'a Vec4 \<Rightarrow> 'a Vec4 \<Rightarrow> 'a Vec4" where
  "Vec4_DClamp v a b = Vec4 (DClamp (x4 v) (x4 a) (x4 b)) (DClamp (y4 v) (y4 a) (y4 b))
                            (DClamp (z4 v) (z4 a) (z4 b)) (DClamp (w4 v) (w4 a) (w4 b))"

text \<open>Comparison masks of vectors of SIMD registers.\<close>

definition Vec3_CmpMaskEQ :: "FloatV Vec3 \<Rightarrow> FloatV Vec3 \<Rightarrow> VecNMask" where
  "Vec3_CmpMaskEQ l r = VecNMask_and (VecNMask_and (CmpMaskEQ (x3 l) (x3 r)) (CmpMaskEQ (y3 l) (y3 r)))
                                     (CmpMaskEQ (z3 l) (z3 r))"

definition Vec3_CmpMaskNE :: "FloatV Vec3 \<Rightarrow> FloatV Vec3 \<Rightarrow> VecNMask" where
  "Vec3_CmpMaskNE l r = VecNMask_or (VecNMask_or (CmpMaskNE (x3 l) (x3 r)) (CmpMaskNE (y3 l) (y3 r)))
                                    (CmpMaskNE (z3 l) (z3 r))"

definition Vec4_CmpMaskEQ :: "FloatV Vec4 \<Rightarrow> FloatV Vec4 \<Rightarrow> VecNMask" where
  "Vec4_CmpMaskEQ l r =
     VecNMask_and (VecNMask_and (VecNMask_and (CmpMaskEQ (x4 l) (x4 r)) (CmpMaskEQ (y4 l) (y4 r)))
                                (CmpMaskEQ (z4 l) (z4 r))) (CmpMaskEQ (w4 l) (w4 r))"

definition Vec4_CmpMaskNE :: "FloatV Vec4 \<Rightarrow> FloatV Vec4 \<Rightarrow> VecNMask" where
  "Vec4_CmpMaskNE l r =
     VecNMask_or (VecNMask_or (VecNMask_or (CmpMaskNE (x4 l) (x4 r)) (CmpMaskNE (y4 l) (y4 r)))
                              (CmpMaskNE (z4 l) (z4 r))) (CmpMaskNE (w4 l) (w4 r))"

section \<open>\<open>VecN\<close>\<close>

text \<open>
  The generic \<open>VecN<_TS,_TN>\<close>: \<open>_TN\<close> is the length of the list. The loops \<open>FOR_I_N\<close> build the
  result element by element.
\<close>

datatype 'a VecN = VecN (elems: "'a list")

definition VecN_splat :: "nat \<Rightarrow> 'a \<Rightarrow> 'a VecN" where
  "VecN_splat n a = VecN (replicate n a)"

definition VecN_IsZero :: "'a::zero VecN \<Rightarrow> bool" where
  "VecN_IsZero v = list_all (\<lambda>x. x = 0) (elems v)"

definition VecN_AddReduce :: "'a::{zero,plus} VecN \<Rightarrow> 'a" where
  "VecN_AddReduce v = foldl (+) 0 (elems v)"

definition VecN_opS :: "('a \<Rightarrow> 'a \<Rightarrow> 'a) \<Rightarrow> 'a VecN \<Rightarrow> 'a \<Rightarrow> 'a VecN" where
  "VecN_opS f v rval = VecN (map (\<lambda>x. f x rval) (elems v))"

definition VecN_opV :: "('a \<Rightarrow> 'a \<Rightarrow> 'a) \<Rightarrow> 'a VecN \<Rightarrow> 'a VecN \<Rightarrow> 'a VecN" where
  "VecN_opV f v rval = VecN (map2 f (elems v) (elems rval))"

definition S_op_VecN :: "('a \<Rightarrow> 'a \<Rightarrow> 'a) \<Rightarrow> 'a \<Rightarrow> 'a VecN \<Rightarrow> 'a VecN" where
  "S_op_VecN f lval rval = VecN_opS f rval lval"

definition VecN_neg :: "'a::uminus VecN \<Rightarrow> 'a VecN" where
  "VecN_neg v = VecN (map uminus (elems v))"

fun VecN_eq_loop :: "'a list \<Rightarrow> 'a list \<Rightarrow> bool" where
  "VecN_eq_loop (l # ls) (r # rs) = (if \<not> l = r then False else VecN_eq_loop ls rs)"
| "VecN_eq_loop _ _ = True"

definition VecN_eq :: "'a VecN \<Rightarrow> 'a VecN \<Rightarrow> bool" where
  "VecN_eq lval rval = VecN_eq_loop (elems lval) (elems rval)"

definition VecN_fun :: "('a \<Rightarrow> 'a) \<Rightarrow> 'a VecN \<Rightarrow> 'a VecN" where
  "VecN_fun f a = VecN (map f (elems a))"

section \<open>The vectors as algebraic structures\<close>

text \<open>
  The overloaded operators as the operations of the library's classes: vectors over a group
  form a group, and vectors of reals a vector space whose \<open>scaleR\<close> is the operator \<open>*\<close> with a
  scalar on the right.
\<close>

instantiation Vec3 :: (ab_group_add) ab_group_add
begin

definition zero_Vec3 :: "'a Vec3" where
  "0 = Vec3_SetZero"

definition plus_Vec3 :: "'a Vec3 \<Rightarrow> 'a Vec3 \<Rightarrow> 'a Vec3" where
  "v + w = Vec3_opV (+) v w"

definition minus_Vec3 :: "'a Vec3 \<Rightarrow> 'a Vec3 \<Rightarrow> 'a Vec3" where
  "v - w = Vec3_opV (-) v w"

definition uminus_Vec3 :: "'a Vec3 \<Rightarrow> 'a Vec3" where
  "- v = Vec3_neg v"

instance
  by standard
    (simp_all add: zero_Vec3_def plus_Vec3_def minus_Vec3_def uminus_Vec3_def Vec3_opV_def
      Vec3_neg_def Vec3_SetZero_def algebra_simps)

end

instantiation Vec3 :: (real_vector) real_vector
begin

definition scaleR_Vec3 :: "real \<Rightarrow> 'a Vec3 \<Rightarrow> 'a Vec3" where
  "scaleR r v = Vec3 (scaleR r (x3 v)) (scaleR r (y3 v)) (scaleR r (z3 v))"

instance
  by standard (simp_all add: scaleR_Vec3_def plus_Vec3_def Vec3_opV_def algebra_simps)

end

lemmas Vec3_ops = zero_Vec3_def plus_Vec3_def minus_Vec3_def uminus_Vec3_def scaleR_Vec3_def
  Vec3_opV_def Vec3_neg_def Vec3_SetZero_def

lemma Vec3_mul_scaleR: "Vec3_opS (*) v (r::real) = scaleR r v"
  by (simp add: Vec3_opS_def scaleR_Vec3_def mult.commute)

lemma Vec3_div_scaleR: "Vec3_opS (/) v (r::real) = scaleR (1 / r) v"
  by (simp add: Vec3_opS_def scaleR_Vec3_def)

lemma Vec3_eqI: "x3 v = x3 w \<Longrightarrow> y3 v = y3 w \<Longrightarrow> z3 v = z3 w \<Longrightarrow> v = w"
  by (cases v; cases w) simp

lemma Vec_eq_iffs:
  "Vec2_eq u v \<longleftrightarrow> u = v" "Vec3_eq a b \<longleftrightarrow> a = b" "Vec4_eq p q \<longleftrightarrow> p = q"
  "Vec2_ne u v \<longleftrightarrow> u \<noteq> v" "Vec3_ne a b \<longleftrightarrow> a \<noteq> b" "Vec4_ne p q \<longleftrightarrow> p \<noteq> q"
  by (cases u; cases v; cases a; cases b; cases p; cases q,
      auto simp: Vec2_eq_def Vec3_eq_def Vec4_eq_def Vec2_ne_def Vec3_ne_def Vec4_ne_def)+

lemma VecN_eq_iff:
  "length (elems a) = length (elems b) \<Longrightarrow> VecN_eq a b \<longleftrightarrow> a = b"
proof -
  have "length xs = length ys \<Longrightarrow> VecN_eq_loop xs ys \<longleftrightarrow> xs = ys" for xs ys :: "'a list"
    by (induction xs ys rule: VecN_eq_loop.induct) auto
  then show "length (elems a) = length (elems b) \<Longrightarrow> VecN_eq a b \<longleftrightarrow> a = b"
    by (cases a; cases b) (simp add: VecN_eq_def)
qed

section \<open>Inner products\<close>

text \<open>
  \<open>DDot\<close>, \<open>DLengthSqr\<close>, \<open>DNormalize\<close> exist for two, three and four components with the same
  contract: a symmetric bilinear positive form, of which the length and the normalisation are
  computed. The interface states what the derived functions rely on.
\<close>

locale inner_form =
  fixes dot :: "'v \<Rightarrow> 'v \<Rightarrow> real"
    and scale :: "'v \<Rightarrow> real \<Rightarrow> 'v"
    and is_zero :: "'v \<Rightarrow> bool"
  assumes dot_commute: "dot a b = dot b a"
    and dot_scale: "dot (scale a r) b = r * dot a b"
    and dot_nonneg: "0 \<le> dot a a"
    and dot_zero: "dot a a = 0 \<longleftrightarrow> is_zero a"
    and scale_scale: "scale (scale a r) s = scale a (r * s)"
    and scale_one: "scale a 1 = a"
begin

definition normalize :: "'v \<Rightarrow> 'v" where
  "normalize v = scale v (DRSqrt (dot v v))"

lemma dot_scale_both: "dot (scale a r) (scale b s) = (r * s) * dot a b"
  by (metis dot_commute dot_scale mult.assoc mult.commute)

lemma dot_pos: "\<not> is_zero v \<Longrightarrow> 0 < dot v v"
  using dot_nonneg [of v] dot_zero [of v] by auto

lemma normalize_unit: "\<not> is_zero v \<Longrightarrow> dot (normalize v) (normalize v) = 1"
  using dot_pos [of v] by (simp add: normalize_def dot_scale_both DRSqrt_def)

lemma normalize_direction:
  assumes "\<not> is_zero v"
  shows "scale (normalize v) (DSqrt (dot v v)) = v"
  using dot_pos [OF assms] by (simp add: normalize_def scale_scale DRSqrt_def DSqrt_def scale_one)

lemma normalize_idem:
  assumes "\<not> is_zero v"
  shows "normalize (normalize v) = normalize v"
  using normalize_unit [OF assms]
  by (simp add: normalize_def [of "normalize v"] DRSqrt_def scale_one)

end

lemma sum2_sq_zero: "(a::real) * a + b * b = 0 \<longleftrightarrow> a = 0 \<and> b = 0"
  by (simp add: sum_squares_eq_zero_iff)

lemma sum3_sq_zero: "(a::real) * a + b * b + c * c = 0 \<longleftrightarrow> a = 0 \<and> b = 0 \<and> c = 0"
  using sum2_sq_zero [of a b] zero_le_square [of a] zero_le_square [of b] zero_le_square [of c]
  by (auto simp: add_nonneg_eq_0_iff)

lemma sum4_sq_zero:
  "(a::real) * a + b * b + c * c + d * d = 0 \<longleftrightarrow> a = 0 \<and> b = 0 \<and> c = 0 \<and> d = 0"
  using sum3_sq_zero [of a b c] zero_le_square [of a] zero_le_square [of b] zero_le_square [of c]
    zero_le_square [of d]
  by (auto simp: add_nonneg_eq_0_iff)

interpretation ip2: inner_form DDot2 "Vec2_opS (*)" Vec2_IsZero
  by unfold_locales
    (auto simp: DDot2_def Vec2_opS_def Vec2_IsZero_def algebra_simps sum2_sq_zero)

interpretation ip3: inner_form DDot3 "Vec3_opS (*)" Vec3_IsZero
  by unfold_locales
    (auto simp: DDot3_def Vec3_opS_def Vec3_IsZero_def distrib_left mult_ac sum3_sq_zero)

interpretation ip4: inner_form DDot4 "Vec4_opS (*)" Vec4_IsZero
  by unfold_locales
    (auto simp: DDot4_def Vec4_opS_def Vec4_IsZero_def distrib_left mult_ac sum4_sq_zero)

lemma DNormalize_normalize:
  "DNormalize2 u = ip2.normalize u" "DNormalize3 v = ip3.normalize v" "DNormalize4 w = ip4.normalize w"
  by (simp_all add: DNormalize2_def DNormalize3_def DNormalize4_def ip2.normalize_def
      ip3.normalize_def ip4.normalize_def DLengthSqr2_def DLengthSqr3_def DLengthSqr4_def)

lemma Vec3_GetNormalized_normalize: "Vec3_GetNormalized v = ip3.normalize v"
  by (simp add: Vec3_GetNormalized_def ip3.normalize_def DDot3_def)

lemma Vec3_IsZero_iff: "Vec3_IsZero (v::'a::ab_group_add Vec3) \<longleftrightarrow> v = 0"
  by (cases v) (simp add: Vec3_IsZero_def Vec3_ops)

lemma Vec3_GetCross_DCross: "Vec3_GetCross = (DCross :: 'a::{minus,times} Vec3 \<Rightarrow> _)"
  by (intro ext) (simp add: Vec3_GetCross_def DCross_def)

lemma DDot3_add: "DDot3 (a + b) (c::real Vec3) = DDot3 a c + DDot3 b c"
  by (simp add: DDot3_def Vec3_ops algebra_simps)

lemma DDot3_diff: "DDot3 (a - b) (c::real Vec3) = DDot3 a c - DDot3 b c"
  by (simp add: DDot3_def Vec3_ops algebra_simps)

lemma DCross_orth:
  "DDot3 (DCross a b) (a::real Vec3) = 0" "DDot3 (DCross a b) (b::real Vec3) = 0"
  by (simp_all add: DCross_def DDot3_def algebra_simps)

lemma DCross_lagrange:
  "DDot3 (DCross a b) (DCross c d) = DDot3 a c * DDot3 b d - DDot3 a d * DDot3 b (c::real Vec3)"
  by (simp add: DCross_def DDot3_def algebra_simps)

lemma DCross_triple:
  "DCross a (DCross b (c::real Vec3)) = scaleR (DDot3 a c) b - scaleR (DDot3 a b) c"
  by (simp add: DCross_def DDot3_def Vec3_ops algebra_simps)

section \<open>Properties\<close>

text \<open>
  Normalisation, in two, three and four components, on exact reals: of a non-zero vector
  it has unit length, it points the same way (scaling it by the length gives the vector back),
  and it is idempotent; the members of the classes are the free functions.
\<close>

theorem DNormalize_correct:
  assumes "\<not> Vec2_IsZero u" and "\<not> Vec3_IsZero v" and "\<not> Vec4_IsZero w"
  shows "DLengthSqr2 (DNormalize2 u) = 1 \<and> Vec2_opS (*) (DNormalize2 u) (DLength2 u) = u
    \<and> DNormalize2 (DNormalize2 u) = DNormalize2 u \<and> Vec2_GetNormalized u = DNormalize2 u
    \<and> DLengthSqr3 (DNormalize3 v) = 1 \<and> Vec3_opS (*) (DNormalize3 v) (DLength3 v) = v
    \<and> DNormalize3 (DNormalize3 v) = DNormalize3 v \<and> Vec3_GetNormalized v = DNormalize3 v
    \<and> DLengthSqr4 (DNormalize4 w) = 1 \<and> Vec4_opS (*) (DNormalize4 w) (DLength4 w) = w
    \<and> DNormalize4 (DNormalize4 w) = DNormalize4 w"
  using ip2.normalize_unit [OF assms(1)] ip2.normalize_direction [OF assms(1)]
    ip2.normalize_idem [OF assms(1)] ip3.normalize_unit [OF assms(2)]
    ip3.normalize_direction [OF assms(2)] ip3.normalize_idem [OF assms(2)]
    ip4.normalize_unit [OF assms(3)] ip4.normalize_direction [OF assms(3)]
    ip4.normalize_idem [OF assms(3)]
  by (simp add: DNormalize_normalize DLengthSqr2_def DLengthSqr3_def DLengthSqr4_def DLength2_def
      DLength3_def DLength4_def Vec3_GetNormalized_normalize Vec2_GetNormalized_def
      ip2.normalize_def [symmetric] DDot2_def [symmetric])

theorem DNormalize_correct_witness:
  "DLengthSqr3 (DNormalize3 (Vec3 1 2 2)) = 1
   \<and> Vec4_opS (*) (DNormalize4 (Vec4 0 0 3 4)) (DLength4 (Vec4 0 0 3 4)) = Vec4 0 0 3 4"
  using DNormalize_correct [of "Vec2 3 4" "Vec3 1 2 2" "Vec4 0 0 3 4"]
  by (simp add: Vec2_IsZero_def Vec3_IsZero_def Vec4_IsZero_def)

text \<open>
  The cross product is orthogonal to both factors, changes sign when they are swapped,
  satisfies Lagrange's identity (its squared length is the squared area of the parallelogram)
  and the triple product expansion, and the member \<open>GetCross\<close> is the free function \<open>DCross\<close>.
\<close>

theorem DCross_correct:
  "DDot3 (DCross a b) a = 0 \<and> DDot3 (DCross a b) (b::real Vec3) = 0
   \<and> DCross b a = - DCross a b
   \<and> DLengthSqr3 (DCross a b) = DLengthSqr3 a * DLengthSqr3 b - (DDot3 a b)\<^sup>2
   \<and> DCross a (DCross b c) = scaleR (DDot3 a c) b - scaleR (DDot3 a b) c
   \<and> Vec3_GetCross a b = DCross a b"
proof -
  have "DCross b a = - DCross a b"
    by (simp add: DCross_def Vec3_ops algebra_simps)
  then show ?thesis
    by (simp add: DCross_orth DLengthSqr3_def DCross_lagrange DCross_triple Vec3_GetCross_DCross
        power2_eq_square ip3.dot_commute [of b a])
qed

text \<open>
  The operators with the scalar on the left swap their operands. For \<open>+\<close> and \<open>*\<close> that is
  harmless; \<open>s - v\<close> computes \<open>v - s\<close>, the negation of the difference in every component, and so
  differs from it as soon as one component differs from the scalar. The same holds for \<open>VecN\<close>.
\<close>

theorem scalar_minus_vector_negated:
  "S_op_Vec3 (-) s v = - Vec3 (s - x3 v) (s - y3 v) (s - z3 (v::real Vec3))
   \<and> (S_op_Vec3 (-) s v = Vec3 (s - x3 v) (s - y3 v) (s - z3 v) \<longleftrightarrow> v = Vec3_splat s)
   \<and> S_op_VecN (-) s n = VecN_neg (VecN (map (\<lambda>x. s - x) (elems n)))"
proof -
  have "S_op_Vec3 (-) s v = - Vec3 (s - x3 v) (s - y3 v) (s - z3 v)"
    by (simp add: S_op_Vec3_def Vec3_opS_def Vec3_ops)
  moreover have "S_op_Vec3 (-) s v = Vec3 (s - x3 v) (s - y3 v) (s - z3 v) \<longleftrightarrow> v = Vec3_splat s"
    by (cases v) (auto simp: S_op_Vec3_def Vec3_opS_def Vec3_splat_def)
  ultimately show ?thesis
    by (simp add: S_op_VecN_def VecN_opS_def VecN_neg_def)
qed

end
