(* ===== verification/Matrix.thy ===== *)
theory Matrix
  imports Vectors
begin

text \<open>
  \<open>Matrix44\<close> of \<open>DMatrix44.h\<close> and \<open>DMatrix44.cpp\<close> and the splines of \<open>DMT_Spline.h\<close>, over exact
  reals: a theorem here is about the formulas of the code, rounding is outside it. A matrix
  multiplies row vectors from the right, the convention of the build (\<open>DMATRIX44_ROWMTX_MODE\<close> is
  not defined). \<open>DASSERT\<close> is compiled out of release builds and has no effect here; the branch
  that follows it is modelled.
\<close>

section \<open>The class\<close>

datatype Matrix44 = Matrix44 (v16: "real VecN")

definition mij :: "Matrix44 \<Rightarrow> nat \<Rightarrow> nat \<Rightarrow> real" where
  "mij m y x = elems (v16 m) ! (y * 4 + x)"

definition set_mij :: "nat \<Rightarrow> nat \<Rightarrow> real \<Rightarrow> Matrix44 \<Rightarrow> Matrix44" where
  "set_mij y x r m = Matrix44 (VecN ((elems (v16 m))[y * 4 + x := r]))"

definition Matrix44_rows ::
  "real \<Rightarrow> real \<Rightarrow> real \<Rightarrow> real \<Rightarrow> real \<Rightarrow> real \<Rightarrow> real \<Rightarrow> real \<Rightarrow>
   real \<Rightarrow> real \<Rightarrow> real \<Rightarrow> real \<Rightarrow> real \<Rightarrow> real \<Rightarrow> real \<Rightarrow> real \<Rightarrow> Matrix44" where
  "Matrix44_rows m00 m01 m02 m03 m10 m11 m12 m13 m20 m21 m22 m23 m30 m31 m32 m33 =
     Matrix44 (VecN [m00, m01, m02, m03, m10, m11, m12, m13, m20, m21, m22, m23, m30, m31, m32, m33])"

definition CopyRowMajor :: "real list \<Rightarrow> Matrix44" where
  "CopyRowMajor src = Matrix44 (VecN (take 16 src))"

definition GetV3 :: "nat \<Rightarrow> Matrix44 \<Rightarrow> real Vec3" where
  "GetV3 idx m = Vec3 (mij m idx 0) (mij m idx 1) (mij m idx 2)"

definition SetV3 :: "nat \<Rightarrow> real Vec3 \<Rightarrow> Matrix44 \<Rightarrow> Matrix44" where
  "SetV3 idx v m = set_mij idx 2 (z3 v) (set_mij idx 1 (y3 v) (set_mij idx 0 (x3 v) m))"

definition Identity :: Matrix44 where
  "Identity = set_mij 0 0 1 (set_mij 1 1 1 (set_mij 2 2 1 (set_mij 3 3 1 (Matrix44 (VecN_splat 16 0)))))"

definition GetTranslation :: "Matrix44 \<Rightarrow> real Vec3" where
  "GetTranslation m = Vec3 (mij m 3 0) (mij m 3 1) (mij m 3 2)"

text \<open>The double loops that fill a result: every element of the square block is assigned.\<close>

definition fill_block :: "nat \<Rightarrow> (nat \<Rightarrow> nat \<Rightarrow> real) \<Rightarrow> Matrix44 \<Rightarrow> Matrix44" where
  "fill_block n f out =
     fold (\<lambda>i m. fold (\<lambda>j. set_mij i j (f i j)) [0..<n] m) [0..<n] out"

text \<open>A default-constructed matrix has sixteen elements of unspecified value.\<close>

definition GetTranspose :: "Matrix44 \<Rightarrow> Matrix44 \<Rightarrow> Matrix44" where
  "GetTranspose uninit m = fill_block 4 (\<lambda>i j. mij m j i) uninit"

definition GetAs33 :: "Matrix44 \<Rightarrow> Matrix44" where
  "GetAs33 m = fill_block 3 (\<lambda>i j. mij m i j) Identity"

definition GetOrthonormal :: "Matrix44 \<Rightarrow> Matrix44" where
  "GetOrthonormal m =
     (let v0 = GetV3 0 m;
          v2 = GetV3 2 m;
          v0 = Vec3_GetNormalized v0;
          v1 = Vec3_GetCross v2 v0;
          v1 = Vec3_GetNormalized v1;
          v2 = Vec3_GetCross v0 v1
      in SetV3 3 (GetV3 3 m) (SetV3 2 v2 (SetV3 1 v1 (SetV3 0 v0 Identity))))"

definition Scale :: "real \<Rightarrow> real \<Rightarrow> real \<Rightarrow> Matrix44" where
  "Scale sx sy sz =
     set_mij 3 3 1 (set_mij 2 2 sz (set_mij 1 1 sy (set_mij 0 0 sx (Matrix44 (VecN_splat 16 0)))))"

definition Translate :: "real \<Rightarrow> real \<Rightarrow> real \<Rightarrow> Matrix44" where
  "Translate tx ty tz =
     set_mij 3 3 1 (set_mij 3 2 tz (set_mij 3 1 ty (set_mij 3 0 tx Identity)))"

definition Translate_v :: "real Vec3 \<Rightarrow> Matrix44" where
  "Translate_v tra = Translate (x3 tra) (y3 tra) (z3 tra)"

definition Rot :: "real \<Rightarrow> real \<Rightarrow> real \<Rightarrow> real \<Rightarrow> Matrix44" where
  "Rot ang ax ay az =
     (let s = sin ang; c = cos ang;
          xx = ax * ax; yy = ay * ay; zz = az * az;
          xy = ax * ay; yz = ay * az; zx = az * ax;
          xs = ax * s; ys = ay * s; zs = az * s;
          one_c = 1 - c
      in Matrix44_rows
           (one_c * xx + c)  (one_c * xy + zs) (one_c * zx - ys) 0
           (one_c * xy - zs) (one_c * yy + c)  (one_c * yz + xs) 0
           (one_c * zx + ys) (one_c * yz - xs) (one_c * zz + c)  0
           0 0 0 1)"

definition OrthoRH :: "real \<Rightarrow> real \<Rightarrow> real \<Rightarrow> real \<Rightarrow> real \<Rightarrow> real \<Rightarrow> Matrix44" where
  "OrthoRH left right bottom topp nearr farr =
     (let rl = right - left; tb = topp - bottom; fn = farr - nearr;
          tx = - (right + left) / rl;
          ty = - (topp + bottom) / tb;
          tz = - (farr + nearr) / fn
      in Matrix44_rows
           (2 / rl) 0 0 0
           0 (2 / tb) 0 0
           0 0 (- 2 / fn) 0
           tx ty tz 1)"

definition Perspective :: "real \<Rightarrow> real \<Rightarrow> real \<Rightarrow> real \<Rightarrow> Matrix44" where
  "Perspective fov aspect n f =
     (let ootan2 = tan (fov * 0.5);
          ootan2 = 1 / ootan2
      in Matrix44_rows
           (ootan2 / aspect) 0 0 0
           0 ootan2 0 0
           0 0 (f / (f - n)) 1
           0 0 (n * f / (n - f)) 0)"

definition PerspectiveRH0 :: "real \<Rightarrow> real \<Rightarrow> real \<Rightarrow> real \<Rightarrow> Matrix44" where
  "PerspectiveRH0 fov aspect n f =
     (let ootan2 = tan (fov * 0.5);
          ootan2 = 1 / ootan2
      in Matrix44_rows
           (ootan2 / aspect) 0 0 0
           0 ootan2 0 0
           0 0 (f / (n - f)) (- 1)
           0 0 (n * f / (n - f)) 0)"

definition Matrix44_opV :: "(real \<Rightarrow> real \<Rightarrow> real) \<Rightarrow> Matrix44 \<Rightarrow> Matrix44 \<Rightarrow> Matrix44" where
  "Matrix44_opV f m rval = Matrix44 (VecN_opV f (v16 m) (v16 rval))"

definition Matrix44_mul_s :: "Matrix44 \<Rightarrow> real \<Rightarrow> Matrix44" where
  "Matrix44_mul_s m rval = Matrix44 (VecN_opS (*) (v16 m) rval)"

definition Matrix44_eq :: "Matrix44 \<Rightarrow> Matrix44 \<Rightarrow> bool" where
  "Matrix44_eq lval rval = VecN_eq (v16 lval) (v16 rval)"

section \<open>Products\<close>

definition Matrix44_mul :: "Matrix44 \<Rightarrow> Matrix44 \<Rightarrow> Matrix44 \<Rightarrow> Matrix44" where
  "Matrix44_mul uninit m1 m2 =
     fill_block 4 (\<lambda>r c. foldl (\<lambda>sum i. sum + mij m1 r i * mij m2 i c) 0 [0..<4]) uninit"

definition V4_M44_Mul_V3W1 :: "Matrix44 \<Rightarrow> real Vec3 \<Rightarrow> real Vec4" where
  "V4_M44_Mul_V3W1 a v =
     (let x = x3 v; y = y3 v; z = z3 v in
      Vec4 (mij a 0 0 * x + mij a 0 1 * y + mij a 0 2 * z + mij a 0 3)
           (mij a 1 0 * x + mij a 1 1 * y + mij a 1 2 * z + mij a 1 3)
           (mij a 2 0 * x + mij a 2 1 * y + mij a 2 2 * z + mij a 2 3)
           (mij a 3 0 * x + mij a 3 1 * y + mij a 3 2 * z + mij a 3 3))"

definition V3_M44_Mul_V3W0 :: "Matrix44 \<Rightarrow> real Vec3 \<Rightarrow> real Vec3" where
  "V3_M44_Mul_V3W0 a v =
     (let x = x3 v; y = y3 v; z = z3 v in
      Vec3 (mij a 0 0 * x + mij a 0 1 * y + mij a 0 2 * z)
           (mij a 1 0 * x + mij a 1 1 * y + mij a 1 2 * z)
           (mij a 2 0 * x + mij a 2 1 * y + mij a 2 2 * z))"

definition V3_M44_Mul_V3W1 :: "Matrix44 \<Rightarrow> real Vec3 \<Rightarrow> real Vec3" where
  "V3_M44_Mul_V3W1 a v =
     (let x = x3 v; y = y3 v; z = z3 v in
      Vec3 (mij a 0 0 * x + mij a 0 1 * y + mij a 0 2 * z + mij a 0 3)
           (mij a 1 0 * x + mij a 1 1 * y + mij a 1 2 * z + mij a 1 3)
           (mij a 2 0 * x + mij a 2 1 * y + mij a 2 2 * z + mij a 2 3))"

definition V4_V3W1_Mul_M44 :: "real Vec3 \<Rightarrow> Matrix44 \<Rightarrow> real Vec4" where
  "V4_V3W1_Mul_M44 v a =
     (let x = x3 v; y = y3 v; z = z3 v in
      Vec4 (x * mij a 0 0 + y * mij a 1 0 + z * mij a 2 0 + mij a 3 0)
           (x * mij a 0 1 + y * mij a 1 1 + z * mij a 2 1 + mij a 3 1)
           (x * mij a 0 2 + y * mij a 1 2 + z * mij a 2 2 + mij a 3 2)
           (x * mij a 0 3 + y * mij a 1 3 + z * mij a 2 3 + mij a 3 3))"

definition V4_V4_Mul_M44 :: "real Vec4 \<Rightarrow> Matrix44 \<Rightarrow> real Vec4" where
  "V4_V4_Mul_M44 v a =
     (let x = x4 v; y = y4 v; z = z4 v; w = w4 v in
      Vec4 (x * mij a 0 0 + y * mij a 1 0 + z * mij a 2 0 + w * mij a 3 0)
           (x * mij a 0 1 + y * mij a 1 1 + z * mij a 2 1 + w * mij a 3 1)
           (x * mij a 0 2 + y * mij a 1 2 + z * mij a 2 2 + w * mij a 3 2)
           (x * mij a 0 3 + y * mij a 1 3 + z * mij a 2 3 + w * mij a 3 3))"

definition V4_V3W0_Mul_M44 :: "real Vec3 \<Rightarrow> Matrix44 \<Rightarrow> real Vec4" where
  "V4_V3W0_Mul_M44 v a =
     (let x = x3 v; y = y3 v; z = z3 v in
      Vec4 (x * mij a 0 0 + y * mij a 1 0 + z * mij a 2 0)
           (x * mij a 0 1 + y * mij a 1 1 + z * mij a 2 1)
           (x * mij a 0 2 + y * mij a 1 2 + z * mij a 2 2)
           (x * mij a 0 3 + y * mij a 1 3 + z * mij a 2 3))"

definition V3_V3W1_Mul_M44 :: "real Vec3 \<Rightarrow> Matrix44 \<Rightarrow> real Vec3" where
  "V3_V3W1_Mul_M44 v a =
     (let x = x3 v; y = y3 v; z = z3 v in
      Vec3 (x * mij a 0 0 + y * mij a 1 0 + z * mij a 2 0 + mij a 3 0)
           (x * mij a 0 1 + y * mij a 1 1 + z * mij a 2 1 + mij a 3 1)
           (x * mij a 0 2 + y * mij a 1 2 + z * mij a 2 2 + mij a 3 2))"

definition V3_V3W0_Mul_M44 :: "real Vec3 \<Rightarrow> Matrix44 \<Rightarrow> real Vec3" where
  "V3_V3W0_Mul_M44 v a =
     (let x = x3 v; y = y3 v; z = z3 v in
      Vec3 (x * mij a 0 0 + y * mij a 1 0 + z * mij a 2 0)
           (x * mij a 0 1 + y * mij a 1 1 + z * mij a 2 1)
           (x * mij a 0 2 + y * mij a 1 2 + z * mij a 2 2))"

definition V3_V2_Mul_M44 :: "real Vec2 \<Rightarrow> Matrix44 \<Rightarrow> real Vec3" where
  "V3_V2_Mul_M44 v a =
     (let x = x2 v; y = y2 v in
      Vec3 (x * mij a 0 0 + y * mij a 1 0)
           (x * mij a 0 1 + y * mij a 1 1)
           (x * mij a 0 2 + y * mij a 1 2))"

definition V2_V2_Mul_M44 :: "real Vec2 \<Rightarrow> Matrix44 \<Rightarrow> real Vec2" where
  "V2_V2_Mul_M44 v a =
     (let x = x2 v; y = y2 v in
      Vec2 (x * mij a 0 0 + y * mij a 1 0)
           (x * mij a 0 1 + y * mij a 1 1))"

definition V2_V2W1_Mul_M44 :: "real Vec2 \<Rightarrow> Matrix44 \<Rightarrow> real Vec2" where
  "V2_V2W1_Mul_M44 v a =
     (let x = x2 v; y = y2 v in
      Vec2 (x * mij a 0 0 + y * mij a 1 0 + mij a 3 0)
           (x * mij a 0 1 + y * mij a 1 1 + mij a 3 1))"

section \<open>Determinants, inverse and view matrix\<close>

definition det2x2 :: "real \<Rightarrow> real \<Rightarrow> real \<Rightarrow> real \<Rightarrow> real" where
  "det2x2 a b c d = a * d - b * c"

definition det3x3 ::
  "real \<Rightarrow> real \<Rightarrow> real \<Rightarrow> real \<Rightarrow> real \<Rightarrow> real \<Rightarrow> real \<Rightarrow> real \<Rightarrow> real \<Rightarrow> real" where
  "det3x3 a1 a2 a3 b1 b2 b3 c1 c2 c3 =
     a1 * det2x2 b2 b3 c2 c3 - b1 * det2x2 a2 a3 c2 c3 + c1 * det2x2 a2 a3 b2 b3"

definition det4x4 ::
  "real \<Rightarrow> real \<Rightarrow> real \<Rightarrow> real \<Rightarrow> real \<Rightarrow> real \<Rightarrow> real \<Rightarrow> real \<Rightarrow>
   real \<Rightarrow> real \<Rightarrow> real \<Rightarrow> real \<Rightarrow> real \<Rightarrow> real \<Rightarrow> real \<Rightarrow> real \<Rightarrow> real" where
  "det4x4 a1 a2 a3 a4 b1 b2 b3 b4 c1 c2 c3 c4 d1 d2 d3 d4 =
     a1 * det3x3 b2 b3 b4 c2 c3 c4 d2 d3 d4
     - b1 * det3x3 a2 a3 a4 c2 c3 c4 d2 d3 d4
     + c1 * det3x3 a2 a3 a4 b2 b3 b4 d2 d3 d4
     - d1 * det3x3 a2 a3 a4 b2 b3 b4 c2 c3 c4"

text \<open>The matrix and the value stored through \<open>out_pSuccess\<close>.\<close>

definition GetInverse :: "Matrix44 \<Rightarrow> Matrix44 \<times> bool" where
  "GetInverse m =
     (let a1 = mij m 0 0; b1 = mij m 0 1; c1 = mij m 0 2; d1 = mij m 0 3;
          a2 = mij m 1 0; b2 = mij m 1 1; c2 = mij m 1 2; d2 = mij m 1 3;
          a3 = mij m 2 0; b3 = mij m 2 1; c3 = mij m 2 2; d3 = mij m 2 3;
          a4 = mij m 3 0; b4 = mij m 3 1; c4 = mij m 3 2; d4 = mij m 3 3;
          det = det4x4 a1 a2 a3 a4 b1 b2 b3 b4 c1 c2 c3 c4 d1 d2 d3 d4
      in if \<bar>det\<bar> < 1 / 10 ^ 11 then (m, False)
         else (Matrix44_mul_s (Matrix44_rows
           (det3x3 b2 b3 b4 c2 c3 c4 d2 d3 d4)
           (- det3x3 b1 b3 b4 c1 c3 c4 d1 d3 d4)
           (det3x3 b1 b2 b4 c1 c2 c4 d1 d2 d4)
           (- det3x3 b1 b2 b3 c1 c2 c3 d1 d2 d3)
           (- det3x3 a2 a3 a4 c2 c3 c4 d2 d3 d4)
           (det3x3 a1 a3 a4 c1 c3 c4 d1 d3 d4)
           (- det3x3 a1 a2 a4 c1 c2 c4 d1 d2 d4)
           (det3x3 a1 a2 a3 c1 c2 c3 d1 d2 d3)
           (det3x3 a2 a3 a4 b2 b3 b4 d2 d3 d4)
           (- det3x3 a1 a3 a4 b1 b3 b4 d1 d3 d4)
           (det3x3 a1 a2 a4 b1 b2 b4 d1 d2 d4)
           (- det3x3 a1 a2 a3 b1 b2 b3 d1 d2 d3)
           (- det3x3 a2 a3 a4 b2 b3 b4 c2 c3 c4)
           (det3x3 a1 a3 a4 b1 b3 b4 c1 c3 c4)
           (- det3x3 a1 a2 a4 b1 b2 b4 c1 c2 c4)
           (det3x3 a1 a2 a3 b1 b2 b3 c1 c2 c3))
           (1 / det), True))"

definition LookAt :: "real Vec3 \<Rightarrow> real Vec3 \<Rightarrow> real Vec3 \<Rightarrow> Matrix44" where
  "LookAt target eye up =
     (if DLengthSqr3 (Vec3_opV (-) target eye) < 0.0001 then Identity
      else
        let za = DNormalize3 (Vec3_opV (-) eye target);
            xa = DNormalize3 (DCross up za);
            ya = DCross za xa;
            mtx = Matrix44_rows
              (x3 xa) (x3 ya) (x3 za) 0
              (y3 xa) (y3 ya) (y3 za) 0
              (z3 xa) (z3 ya) (z3 za) 0
              0 0 0 1;
            v = V3_V3W0_Mul_M44 (Vec3_neg eye) mtx
        in SetV3 3 v mtx)"

section \<open>Splines\<close>

text \<open>
  \<open>Spline\<close> is a template over the type of the control points; here any real vector space, whose
  \<open>scaleR\<close> is the product of a point and a scalar.
\<close>

definition Spline :: "real \<Rightarrow> Matrix44 \<Rightarrow> 'v::real_vector \<Rightarrow> 'v \<Rightarrow> 'v \<Rightarrow> 'v \<Rightarrow> 'v" where
  "Spline t b p0 p1 p2 p3 =
     (let v0 = scaleR (mij b 0 0) p0 + scaleR (mij b 0 1) p1 + scaleR (mij b 0 2) p2 + scaleR (mij b 0 3) p3;
          v1 = scaleR (mij b 1 0) p0 + scaleR (mij b 1 1) p1 + scaleR (mij b 1 2) p2 + scaleR (mij b 1 3) p3;
          v2 = scaleR (mij b 2 0) p0 + scaleR (mij b 2 1) p1 + scaleR (mij b 2 2) p2 + scaleR (mij b 2 3) p3;
          v3 = scaleR (mij b 3 0) p0 + scaleR (mij b 3 1) p1 + scaleR (mij b 3 2) p2 + scaleR (mij b 3 3) p3
      in scaleR t (scaleR t (scaleR t v0)) + scaleR t (scaleR t v1) + scaleR t v2 + v3)"

definition SplineDeriv :: "real \<Rightarrow> Matrix44 \<Rightarrow> 'v::real_vector \<Rightarrow> 'v \<Rightarrow> 'v \<Rightarrow> 'v \<Rightarrow> 'v" where
  "SplineDeriv t b p0 p1 p2 p3 =
     (let v0 = scaleR (mij b 0 0) p0 + scaleR (mij b 0 1) p1 + scaleR (mij b 0 2) p2 + scaleR (mij b 0 3) p3;
          v1 = scaleR (mij b 1 0) p0 + scaleR (mij b 1 1) p1 + scaleR (mij b 1 2) p2 + scaleR (mij b 1 3) p3;
          v2 = scaleR (mij b 2 0) p0 + scaleR (mij b 2 1) p1 + scaleR (mij b 2 2) p2 + scaleR (mij b 2 3) p3
      in scaleR t (scaleR t (scaleR 3 v0)) + scaleR t (scaleR 2 v1) + v2)"

definition BezierBasis :: Matrix44 where
  "BezierBasis = Matrix44_rows
     (- 1) 3 (- 3) 1
     3 (- 6) 3 0
     (- 3) 3 0 0
     1 0 0 0"

definition BSplineBasis :: Matrix44 where
  "BSplineBasis = Matrix44_rows
     (- 1/6) (3/6) (- 3/6) (1/6)
     (3/6) (- 6/6) (3/6) (0/6)
     (- 3/6) (0/6) (3/6) (0/6)
     (1/6) (4/6) (1/6) (0/6)"

definition CatmullRomBasis :: Matrix44 where
  "CatmullRomBasis = Matrix44_rows
     (- 0.5) 1.5 (- 1.5) 0.5
     1 (- 2.5) 2 (- 0.5)
     (- 0.5) 0 0.5 0
     0 1 0 0"

definition HermiteBasis :: Matrix44 where
  "HermiteBasis = Matrix44_rows
     2 (- 3) 0 1
     (- 2) 3 0 0
     1 (- 2) 1 0
     1 (- 1) 0 0"

definition PowerBasis :: Matrix44 where
  "PowerBasis = Matrix44_rows
     1 0 0 0
     0 1 0 0
     0 0 1 0
     0 0 0 1"

section \<open>Matrix lemmas\<close>

definition wf44 :: "Matrix44 \<Rightarrow> bool" where
  "wf44 m = (length (elems (v16 m)) = 16)"

lemma wf44_cases:
  assumes "wf44 m"
  obtains m00 m01 m02 m03 m10 m11 m12 m13 m20 m21 m22 m23 m30 m31 m32 m33 where "m = Matrix44_rows m00 m01 m02 m03 m10 m11 m12 m13 m20 m21 m22 m23 m30 m31 m32 m33"
proof -
  have len: "length (elems (v16 m)) = 16" using assms by (simp add: wf44_def)
  have "elems (v16 m) = map ((!) (elems (v16 m))) [0..<16]"
    by (metis len map_nth)
  also have "\<dots> = map ((!) (elems (v16 m))) [0, 1, 2, 3, 4, 5, 6, 7, 8, 9, 10, 11, 12, 13, 14, 15]"
    by (simp add: upt_rec numeral_eq_Suc)
  finally have e: "elems (v16 m) = \<dots>" .
  have "m = Matrix44 (VecN (elems (v16 m)))" by simp
  also have "\<dots> = Matrix44 (VecN (map ((!) (elems (v16 m))) [0, 1, 2, 3, 4, 5, 6, 7, 8, 9, 10, 11, 12, 13, 14, 15]))"
    by (subst e) (rule refl)
  finally show thesis
    by (intro that) (simp only: list.map Matrix44_rows_def)
qed

lemma wf44_rows [simp]: "wf44 (Matrix44_rows m00 m01 m02 m03 m10 m11 m12 m13 m20 m21 m22 m23 m30 m31 m32 m33)"
  by (simp add: wf44_def Matrix44_rows_def)

lemma mij_rows [simp]:
  "mij (Matrix44_rows m00 m01 m02 m03 m10 m11 m12 m13 m20 m21 m22 m23 m30 m31 m32 m33) 0 0 = m00"
  "mij (Matrix44_rows m00 m01 m02 m03 m10 m11 m12 m13 m20 m21 m22 m23 m30 m31 m32 m33) 0 (Suc 0) = m01"
  "mij (Matrix44_rows m00 m01 m02 m03 m10 m11 m12 m13 m20 m21 m22 m23 m30 m31 m32 m33) 0 2 = m02"
  "mij (Matrix44_rows m00 m01 m02 m03 m10 m11 m12 m13 m20 m21 m22 m23 m30 m31 m32 m33) 0 3 = m03"
  "mij (Matrix44_rows m00 m01 m02 m03 m10 m11 m12 m13 m20 m21 m22 m23 m30 m31 m32 m33) (Suc 0) 0 = m10"
  "mij (Matrix44_rows m00 m01 m02 m03 m10 m11 m12 m13 m20 m21 m22 m23 m30 m31 m32 m33) (Suc 0) (Suc 0) = m11"
  "mij (Matrix44_rows m00 m01 m02 m03 m10 m11 m12 m13 m20 m21 m22 m23 m30 m31 m32 m33) (Suc 0) 2 = m12"
  "mij (Matrix44_rows m00 m01 m02 m03 m10 m11 m12 m13 m20 m21 m22 m23 m30 m31 m32 m33) (Suc 0) 3 = m13"
  "mij (Matrix44_rows m00 m01 m02 m03 m10 m11 m12 m13 m20 m21 m22 m23 m30 m31 m32 m33) 2 0 = m20"
  "mij (Matrix44_rows m00 m01 m02 m03 m10 m11 m12 m13 m20 m21 m22 m23 m30 m31 m32 m33) 2 (Suc 0) = m21"
  "mij (Matrix44_rows m00 m01 m02 m03 m10 m11 m12 m13 m20 m21 m22 m23 m30 m31 m32 m33) 2 2 = m22"
  "mij (Matrix44_rows m00 m01 m02 m03 m10 m11 m12 m13 m20 m21 m22 m23 m30 m31 m32 m33) 2 3 = m23"
  "mij (Matrix44_rows m00 m01 m02 m03 m10 m11 m12 m13 m20 m21 m22 m23 m30 m31 m32 m33) 3 0 = m30"
  "mij (Matrix44_rows m00 m01 m02 m03 m10 m11 m12 m13 m20 m21 m22 m23 m30 m31 m32 m33) 3 (Suc 0) = m31"
  "mij (Matrix44_rows m00 m01 m02 m03 m10 m11 m12 m13 m20 m21 m22 m23 m30 m31 m32 m33) 3 2 = m32"
  "mij (Matrix44_rows m00 m01 m02 m03 m10 m11 m12 m13 m20 m21 m22 m23 m30 m31 m32 m33) 3 3 = m33"
  by (simp_all add: mij_def Matrix44_rows_def)

lemma Matrix44_rows_inject [simp]:
  "Matrix44_rows m00 m01 m02 m03 m10 m11 m12 m13 m20 m21 m22 m23 m30 m31 m32 m33 = Matrix44_rows n00 n01 n02 n03 n10 n11 n12 n13 n20 n21 n22 n23 n30 n31 n32 n33 \<longleftrightarrow> m00 = n00 \<and> m01 = n01 \<and> m02 = n02 \<and> m03 = n03 \<and> m10 = n10 \<and> m11 = n11 \<and> m12 = n12 \<and> m13 = n13 \<and> m20 = n20 \<and> m21 = n21 \<and> m22 = n22 \<and> m23 = n23 \<and> m30 = n30 \<and> m31 = n31 \<and> m32 = n32 \<and> m33 = n33"
  by (simp add: Matrix44_rows_def)

lemma rows_eta: "wf44 m \<Longrightarrow> Matrix44_rows (mij m 0 0) (mij m 0 1) (mij m 0 2) (mij m 0 3) (mij m 1 0) (mij m 1 1) (mij m 1 2) (mij m 1 3) (mij m 2 0) (mij m 2 1) (mij m 2 2) (mij m 2 3) (mij m 3 0) (mij m 3 1) (mij m 3 2) (mij m 3 3) = m"
  by (erule wf44_cases) simp

lemma Identity_rows: "Identity = Matrix44_rows 1 0 0 0 0 1 0 0 0 0 1 0 0 0 0 1"
  by (simp add: Identity_def Matrix44_rows_def set_mij_def VecN_splat_def numeral_eq_Suc)

lemma Scale_rows: "Scale sx sy sz = Matrix44_rows sx 0 0 0 0 sy 0 0 0 0 sz 0 0 0 0 1"
  by (simp add: Scale_def Matrix44_rows_def set_mij_def VecN_splat_def numeral_eq_Suc)

lemma Translate_rows: "Translate tx ty tz = Matrix44_rows 1 0 0 0 0 1 0 0 0 0 1 0 tx ty tz 1"
  by (simp add: Translate_def Identity_rows Matrix44_rows_def set_mij_def)

lemma SetV3_rows:
  "SetV3 0 v (Matrix44_rows m00 m01 m02 m03 m10 m11 m12 m13 m20 m21 m22 m23 m30 m31 m32 m33) = Matrix44_rows (x3 v) (y3 v) (z3 v) m03 m10 m11 m12 m13 m20 m21 m22 m23 m30 m31 m32 m33"
  "SetV3 (Suc 0) v (Matrix44_rows m00 m01 m02 m03 m10 m11 m12 m13 m20 m21 m22 m23 m30 m31 m32 m33) = Matrix44_rows m00 m01 m02 m03 (x3 v) (y3 v) (z3 v) m13 m20 m21 m22 m23 m30 m31 m32 m33"
  "SetV3 2 v (Matrix44_rows m00 m01 m02 m03 m10 m11 m12 m13 m20 m21 m22 m23 m30 m31 m32 m33) = Matrix44_rows m00 m01 m02 m03 m10 m11 m12 m13 (x3 v) (y3 v) (z3 v) m23 m30 m31 m32 m33"
  "SetV3 3 v (Matrix44_rows m00 m01 m02 m03 m10 m11 m12 m13 m20 m21 m22 m23 m30 m31 m32 m33) =
     Matrix44_rows m00 m01 m02 m03 m10 m11 m12 m13 m20 m21 m22 m23 (x3 v) (y3 v) (z3 v) m33"
  by (simp_all add: SetV3_def set_mij_def Matrix44_rows_def)

lemma fill_block_4: "wf44 u \<Longrightarrow> fill_block 4 f u = Matrix44_rows (f 0 0) (f 0 1) (f 0 2) (f 0 3) (f 1 0) (f 1 1) (f 1 2) (f 1 3) (f 2 0) (f 2 1) (f 2 2) (f 2 3) (f 3 0) (f 3 1) (f 3 2) (f 3 3)"
  by (erule wf44_cases) (simp add: fill_block_def set_mij_def Matrix44_rows_def numeral_eq_Suc upt_rec)

lemma mul_s_rows: "Matrix44_mul_s (Matrix44_rows m00 m01 m02 m03 m10 m11 m12 m13 m20 m21 m22 m23 m30 m31 m32 m33) r = Matrix44_rows (m00 * r) (m01 * r) (m02 * r) (m03 * r) (m10 * r) (m11 * r) (m12 * r) (m13 * r) (m20 * r) (m21 * r) (m22 * r) (m23 * r) (m30 * r) (m31 * r) (m32 * r) (m33 * r)"
  by (simp add: Matrix44_mul_s_def Matrix44_rows_def VecN_opS_def)

lemma mul_elem: "foldl (\<lambda>sum i. sum + mij a r i * mij b i c) 0 [0..<4] =
   mij a r 0 * mij b 0 c + mij a r 1 * mij b 1 c + mij a r 2 * mij b 2 c + mij a r 3 * mij b 3 c"
  by (simp add: upt_rec numeral_eq_Suc)

lemma wf44_mul [simp]: "wf44 u \<Longrightarrow> wf44 (Matrix44_mul u a b)"
  by (simp add: Matrix44_mul_def fill_block_4)

lemma mij_mul:
  assumes "wf44 u" and "r < 4" and "c < 4"
  shows "mij (Matrix44_mul u a b) r c =
    mij a r 0 * mij b 0 c + mij a r 1 * mij b 1 c + mij a r 2 * mij b 2 c + mij a r 3 * mij b 3 c"
proof -
  have "mij (Matrix44_rows (g 0 0) (g 0 1) (g 0 2) (g 0 3) (g 1 0) (g 1 1) (g 1 2) (g 1 3) (g 2 0) (g 2 1) (g 2 2) (g 2 3) (g 3 0) (g 3 1) (g 3 2) (g 3 3)) r c = g r c" for g
    using assms(2,3) by (auto simp: less_Suc_eq numeral_eq_Suc mij_def Matrix44_rows_def)
  from this [of "\<lambda>r c. mij a r 0 * mij b 0 c + mij a r 1 * mij b 1 c + mij a r 2 * mij b 2 c + mij a r 3 * mij b 3 c"]
  show ?thesis
    by (simp add: Matrix44_mul_def fill_block_4 [OF assms(1)] mul_elem)
qed

lemma matrix_eqI:
  assumes "wf44 m" and "wf44 n" and "\<And>r c. r < 4 \<Longrightarrow> c < 4 \<Longrightarrow> mij m r c = mij n r c"
  shows "m = n"
proof -
  have "Matrix44_rows (mij m 0 0) (mij m 0 1) (mij m 0 2) (mij m 0 3) (mij m 1 0) (mij m 1 1) (mij m 1 2) (mij m 1 3) (mij m 2 0) (mij m 2 1) (mij m 2 2) (mij m 2 3) (mij m 3 0) (mij m 3 1) (mij m 3 2) (mij m 3 3) = Matrix44_rows (mij n 0 0) (mij n 0 1) (mij n 0 2) (mij n 0 3) (mij n 1 0) (mij n 1 1) (mij n 1 2) (mij n 1 3) (mij n 2 0) (mij n 2 1) (mij n 2 2) (mij n 2 3) (mij n 3 0) (mij n 3 1) (mij n 3 2) (mij n 3 3)"
    by (simp add: assms(3))
  then show ?thesis by (simp only: rows_eta [OF assms(1)] rows_eta [OF assms(2)])
qed

section \<open>Composition and inversion\<close>

lemmas V_Mul_defs = V4_V4_Mul_M44_def V4_V3W1_Mul_M44_def V4_V3W0_Mul_M44_def V3_V3W1_Mul_M44_def
  V3_V3W0_Mul_M44_def Let_def

lemma mul_assoc:
  assumes "wf44 t" and "wf44 u" and "wf44 w"
  shows "Matrix44_mul u (Matrix44_mul t a b) c = Matrix44_mul u a (Matrix44_mul w b c)"
  by (rule matrix_eqI) (simp_all add: assms mij_mul algebra_simps)

lemma mul_identity:
  assumes "wf44 u" and "wf44 m"
  shows "Matrix44_mul u m Identity = m" and "Matrix44_mul u Identity m = m"
  using assms(2)
  by (elim wf44_cases, simp add: Matrix44_mul_def fill_block_4 [OF assms(1)] mul_elem Identity_rows)+

lemma mul_action:
  assumes "wf44 u"
  shows "V4_V4_Mul_M44 (V4_V4_Mul_M44 v a) b = V4_V4_Mul_M44 v (Matrix44_mul u a b)"
  by (simp add: V_Mul_defs mij_mul [OF assms] algebra_simps)

definition det44 :: "Matrix44 \<Rightarrow> real" where
  "det44 m = det4x4 (mij m 0 0) (mij m 1 0) (mij m 2 0) (mij m 3 0) (mij m 0 1) (mij m 1 1) (mij m 2 1)
     (mij m 3 1) (mij m 0 2) (mij m 1 2) (mij m 2 2) (mij m 3 2) (mij m 0 3) (mij m 1 3) (mij m 2 3) (mij m 3 3)"

lemmas det44_fold = det44_def [unfolded One_nat_def, symmetric]

lemma GetInverse_singular: "\<bar>det44 m\<bar> < 1 / 10 ^ 11 \<Longrightarrow> GetInverse m = (m, False)"
  by (simp add: GetInverse_def det44_def Let_def)

lemmas det_defs = det4x4_def det3x3_def det2x2_def

definition adjugate :: "Matrix44 \<Rightarrow> Matrix44" where
  "adjugate m = Matrix44_mul_s (fst (GetInverse m)) (det44 m)"

lemma GetInverse_regular:
  assumes "\<not> \<bar>det44 m\<bar> < 1 / 10 ^ 11"
  shows "GetInverse m = (Matrix44_mul_s (adjugate m) (1 / det44 m), True)"
proof -
  have "det44 m \<noteq> 0" using assms by auto
  with assms show ?thesis
    by (simp add: adjugate_def GetInverse_def Let_def mul_s_rows det44_fold)
qed

lemma adjugate_wf:
  assumes "\<not> \<bar>det44 m\<bar> < 1 / 10 ^ 11"
  shows "wf44 (adjugate m)"
  using assms by (simp add: adjugate_def GetInverse_def Let_def mul_s_rows det44_fold)

lemma mij_mul_s: "wf44 m \<Longrightarrow> r < 4 \<Longrightarrow> c < 4 \<Longrightarrow> mij (Matrix44_mul_s m k) r c = mij m r c * k"
  by (simp add: mij_def Matrix44_mul_s_def VecN_opS_def wf44_def)

lemma wf44_mul_s [simp]: "wf44 (Matrix44_mul_s m k) = wf44 m"
  by (simp add: Matrix44_mul_s_def VecN_opS_def wf44_def)

text \<open>The cofactor expansions: the adjugate times the matrix, from either side, is the determinant.\<close>

lemma less_4_cases: "(r::nat) < 4 \<longleftrightarrow> r = 0 \<or> r = 1 \<or> r = 2 \<or> r = 3"
  by auto

lemma adjugate_mij:
  assumes "\<not> \<bar>det44 m\<bar> < 1 / 10 ^ 11"
  shows "mij (adjugate m) 0 0 = det3x3 (mij m (Suc 0) (Suc 0)) (mij m 2 (Suc 0)) (mij m 3 (Suc 0)) (mij m (Suc 0) 2) (mij m 2 2) (mij m 3 2) (mij m (Suc 0) 3) (mij m 2 3) (mij m 3 3)"
    and "mij (adjugate m) 0 (Suc 0) = - det3x3 (mij m 0 (Suc 0)) (mij m 2 (Suc 0)) (mij m 3 (Suc 0)) (mij m 0 2) (mij m 2 2) (mij m 3 2) (mij m 0 3) (mij m 2 3) (mij m 3 3)"
    and "mij (adjugate m) 0 2 = det3x3 (mij m 0 (Suc 0)) (mij m (Suc 0) (Suc 0)) (mij m 3 (Suc 0)) (mij m 0 2) (mij m (Suc 0) 2) (mij m 3 2) (mij m 0 3) (mij m (Suc 0) 3) (mij m 3 3)"
    and "mij (adjugate m) 0 3 = - det3x3 (mij m 0 (Suc 0)) (mij m (Suc 0) (Suc 0)) (mij m 2 (Suc 0)) (mij m 0 2) (mij m (Suc 0) 2) (mij m 2 2) (mij m 0 3) (mij m (Suc 0) 3) (mij m 2 3)"
    and "mij (adjugate m) (Suc 0) 0 = - det3x3 (mij m (Suc 0) 0) (mij m 2 0) (mij m 3 0) (mij m (Suc 0) 2) (mij m 2 2) (mij m 3 2) (mij m (Suc 0) 3) (mij m 2 3) (mij m 3 3)"
    and "mij (adjugate m) (Suc 0) (Suc 0) = det3x3 (mij m 0 0) (mij m 2 0) (mij m 3 0) (mij m 0 2) (mij m 2 2) (mij m 3 2) (mij m 0 3) (mij m 2 3) (mij m 3 3)"
    and "mij (adjugate m) (Suc 0) 2 = - det3x3 (mij m 0 0) (mij m (Suc 0) 0) (mij m 3 0) (mij m 0 2) (mij m (Suc 0) 2) (mij m 3 2) (mij m 0 3) (mij m (Suc 0) 3) (mij m 3 3)"
    and "mij (adjugate m) (Suc 0) 3 = det3x3 (mij m 0 0) (mij m (Suc 0) 0) (mij m 2 0) (mij m 0 2) (mij m (Suc 0) 2) (mij m 2 2) (mij m 0 3) (mij m (Suc 0) 3) (mij m 2 3)"
    and "mij (adjugate m) 2 0 = det3x3 (mij m (Suc 0) 0) (mij m 2 0) (mij m 3 0) (mij m (Suc 0) (Suc 0)) (mij m 2 (Suc 0)) (mij m 3 (Suc 0)) (mij m (Suc 0) 3) (mij m 2 3) (mij m 3 3)"
    and "mij (adjugate m) 2 (Suc 0) = - det3x3 (mij m 0 0) (mij m 2 0) (mij m 3 0) (mij m 0 (Suc 0)) (mij m 2 (Suc 0)) (mij m 3 (Suc 0)) (mij m 0 3) (mij m 2 3) (mij m 3 3)"
    and "mij (adjugate m) 2 2 = det3x3 (mij m 0 0) (mij m (Suc 0) 0) (mij m 3 0) (mij m 0 (Suc 0)) (mij m (Suc 0) (Suc 0)) (mij m 3 (Suc 0)) (mij m 0 3) (mij m (Suc 0) 3) (mij m 3 3)"
    and "mij (adjugate m) 2 3 = - det3x3 (mij m 0 0) (mij m (Suc 0) 0) (mij m 2 0) (mij m 0 (Suc 0)) (mij m (Suc 0) (Suc 0)) (mij m 2 (Suc 0)) (mij m 0 3) (mij m (Suc 0) 3) (mij m 2 3)"
    and "mij (adjugate m) 3 0 = - det3x3 (mij m (Suc 0) 0) (mij m 2 0) (mij m 3 0) (mij m (Suc 0) (Suc 0)) (mij m 2 (Suc 0)) (mij m 3 (Suc 0)) (mij m (Suc 0) 2) (mij m 2 2) (mij m 3 2)"
    and "mij (adjugate m) 3 (Suc 0) = det3x3 (mij m 0 0) (mij m 2 0) (mij m 3 0) (mij m 0 (Suc 0)) (mij m 2 (Suc 0)) (mij m 3 (Suc 0)) (mij m 0 2) (mij m 2 2) (mij m 3 2)"
    and "mij (adjugate m) 3 2 = - det3x3 (mij m 0 0) (mij m (Suc 0) 0) (mij m 3 0) (mij m 0 (Suc 0)) (mij m (Suc 0) (Suc 0)) (mij m 3 (Suc 0)) (mij m 0 2) (mij m (Suc 0) 2) (mij m 3 2)"
    and "mij (adjugate m) 3 3 = det3x3 (mij m 0 0) (mij m (Suc 0) 0) (mij m 2 0) (mij m 0 (Suc 0)) (mij m (Suc 0) (Suc 0)) (mij m 2 (Suc 0)) (mij m 0 2) (mij m (Suc 0) 2) (mij m 2 2)"
proof -
  have "det44 m \<noteq> 0" using assms by auto
  with assms show "mij (adjugate m) 0 0 = det3x3 (mij m (Suc 0) (Suc 0)) (mij m 2 (Suc 0)) (mij m 3 (Suc 0)) (mij m (Suc 0) 2) (mij m 2 2) (mij m 3 2) (mij m (Suc 0) 3) (mij m 2 3) (mij m 3 3)"
    "mij (adjugate m) 0 (Suc 0) = - det3x3 (mij m 0 (Suc 0)) (mij m 2 (Suc 0)) (mij m 3 (Suc 0)) (mij m 0 2) (mij m 2 2) (mij m 3 2) (mij m 0 3) (mij m 2 3) (mij m 3 3)"
    "mij (adjugate m) 0 2 = det3x3 (mij m 0 (Suc 0)) (mij m (Suc 0) (Suc 0)) (mij m 3 (Suc 0)) (mij m 0 2) (mij m (Suc 0) 2) (mij m 3 2) (mij m 0 3) (mij m (Suc 0) 3) (mij m 3 3)"
    "mij (adjugate m) 0 3 = - det3x3 (mij m 0 (Suc 0)) (mij m (Suc 0) (Suc 0)) (mij m 2 (Suc 0)) (mij m 0 2) (mij m (Suc 0) 2) (mij m 2 2) (mij m 0 3) (mij m (Suc 0) 3) (mij m 2 3)"
    "mij (adjugate m) (Suc 0) 0 = - det3x3 (mij m (Suc 0) 0) (mij m 2 0) (mij m 3 0) (mij m (Suc 0) 2) (mij m 2 2) (mij m 3 2) (mij m (Suc 0) 3) (mij m 2 3) (mij m 3 3)"
    "mij (adjugate m) (Suc 0) (Suc 0) = det3x3 (mij m 0 0) (mij m 2 0) (mij m 3 0) (mij m 0 2) (mij m 2 2) (mij m 3 2) (mij m 0 3) (mij m 2 3) (mij m 3 3)"
    "mij (adjugate m) (Suc 0) 2 = - det3x3 (mij m 0 0) (mij m (Suc 0) 0) (mij m 3 0) (mij m 0 2) (mij m (Suc 0) 2) (mij m 3 2) (mij m 0 3) (mij m (Suc 0) 3) (mij m 3 3)"
    "mij (adjugate m) (Suc 0) 3 = det3x3 (mij m 0 0) (mij m (Suc 0) 0) (mij m 2 0) (mij m 0 2) (mij m (Suc 0) 2) (mij m 2 2) (mij m 0 3) (mij m (Suc 0) 3) (mij m 2 3)"
    "mij (adjugate m) 2 0 = det3x3 (mij m (Suc 0) 0) (mij m 2 0) (mij m 3 0) (mij m (Suc 0) (Suc 0)) (mij m 2 (Suc 0)) (mij m 3 (Suc 0)) (mij m (Suc 0) 3) (mij m 2 3) (mij m 3 3)"
    "mij (adjugate m) 2 (Suc 0) = - det3x3 (mij m 0 0) (mij m 2 0) (mij m 3 0) (mij m 0 (Suc 0)) (mij m 2 (Suc 0)) (mij m 3 (Suc 0)) (mij m 0 3) (mij m 2 3) (mij m 3 3)"
    "mij (adjugate m) 2 2 = det3x3 (mij m 0 0) (mij m (Suc 0) 0) (mij m 3 0) (mij m 0 (Suc 0)) (mij m (Suc 0) (Suc 0)) (mij m 3 (Suc 0)) (mij m 0 3) (mij m (Suc 0) 3) (mij m 3 3)"
    "mij (adjugate m) 2 3 = - det3x3 (mij m 0 0) (mij m (Suc 0) 0) (mij m 2 0) (mij m 0 (Suc 0)) (mij m (Suc 0) (Suc 0)) (mij m 2 (Suc 0)) (mij m 0 3) (mij m (Suc 0) 3) (mij m 2 3)"
    "mij (adjugate m) 3 0 = - det3x3 (mij m (Suc 0) 0) (mij m 2 0) (mij m 3 0) (mij m (Suc 0) (Suc 0)) (mij m 2 (Suc 0)) (mij m 3 (Suc 0)) (mij m (Suc 0) 2) (mij m 2 2) (mij m 3 2)"
    "mij (adjugate m) 3 (Suc 0) = det3x3 (mij m 0 0) (mij m 2 0) (mij m 3 0) (mij m 0 (Suc 0)) (mij m 2 (Suc 0)) (mij m 3 (Suc 0)) (mij m 0 2) (mij m 2 2) (mij m 3 2)"
    "mij (adjugate m) 3 2 = - det3x3 (mij m 0 0) (mij m (Suc 0) 0) (mij m 3 0) (mij m 0 (Suc 0)) (mij m (Suc 0) (Suc 0)) (mij m 3 (Suc 0)) (mij m 0 2) (mij m (Suc 0) 2) (mij m 3 2)"
    "mij (adjugate m) 3 3 = det3x3 (mij m 0 0) (mij m (Suc 0) 0) (mij m 2 0) (mij m 0 (Suc 0)) (mij m (Suc 0) (Suc 0)) (mij m 2 (Suc 0)) (mij m 0 2) (mij m (Suc 0) 2) (mij m 2 2)"
    by (simp_all add: adjugate_def GetInverse_def Let_def mul_s_rows det44_fold)
qed

lemma adjugate_right:
  assumes "\<not> \<bar>det44 m\<bar> < 1 / 10 ^ 11" and "r < 4" and "c < 4"
  shows "mij m r 0 * mij (adjugate m) 0 c + mij m r 1 * mij (adjugate m) 1 c
    + mij m r 2 * mij (adjugate m) 2 c + mij m r 3 * mij (adjugate m) 3 c = (if r = c then det44 m else 0)"
  using assms(2,3) unfolding less_4_cases
  by (elim disjE) (simp_all add: adjugate_mij [OF assms(1)] det44_def det_defs, simp_all add: algebra_simps)

lemma adjugate_left:
  assumes "\<not> \<bar>det44 m\<bar> < 1 / 10 ^ 11" and "r < 4" and "c < 4"
  shows "mij (adjugate m) r 0 * mij m 0 c + mij (adjugate m) r 1 * mij m 1 c
    + mij (adjugate m) r 2 * mij m 2 c + mij (adjugate m) r 3 * mij m 3 c = (if r = c then det44 m else 0)"
  using assms(2,3) unfolding less_4_cases
  by (elim disjE) (simp_all add: adjugate_mij [OF assms(1)] det44_def det_defs, simp_all add: algebra_simps)

lemma mij_Identity: "r < 4 \<Longrightarrow> c < 4 \<Longrightarrow> mij Identity r c = (if r = c then 1 else 0)"
  unfolding less_4_cases by (elim disjE) (simp_all add: Identity_rows)

lemma scaled_sum: "(a::real) * (x * k) + b * (y * k) + c * (z * k) + d * (w * k) = (a * x + b * y + c * z + d * w) * k"
  by (simp add: algebra_simps)

lemma scaled_sum': "(x::real) * k * a + y * k * b + z * k * c + w * k * d = (x * a + y * b + z * c + w * d) * k"
  by (simp add: algebra_simps)

lemma GetInverse_right:
  assumes "wf44 u" and "\<not> \<bar>det44 m\<bar> < 1 / 10 ^ 11"
  shows "Matrix44_mul u m (fst (GetInverse m)) = Identity"
proof (rule matrix_eqI)
  have nz: "det44 m * (1 / det44 m) = 1" using assms(2) by auto
  show "mij (Matrix44_mul u m (fst (GetInverse m))) r c = mij Identity r c" if "r < 4" "c < 4" for r c
    using that nz
    by (simp add: mij_mul [OF assms(1)] GetInverse_regular [OF assms(2)] mij_mul_s
        adjugate_wf [OF assms(2)] scaled_sum adjugate_right [OF assms(2), simplified] mij_Identity
        del: times_divide_eq_right mult_1_right)
qed (simp_all add: assms(1) Identity_rows)

lemma GetInverse_left:
  assumes "wf44 u" and "\<not> \<bar>det44 m\<bar> < 1 / 10 ^ 11"
  shows "Matrix44_mul u (fst (GetInverse m)) m = Identity"
proof (rule matrix_eqI)
  have nz: "det44 m * (1 / det44 m) = 1" using assms(2) by auto
  show "mij (Matrix44_mul u (fst (GetInverse m)) m) r c = mij Identity r c" if "r < 4" "c < 4" for r c
    using that nz
    by (simp add: mij_mul [OF assms(1)] GetInverse_regular [OF assms(2)] mij_mul_s
        adjugate_wf [OF assms(2)] scaled_sum' adjugate_left [OF assms(2), simplified] mij_Identity
        del: times_divide_eq_right mult_1_right)
qed (simp_all add: assms(1) Identity_rows)

lemma Vec3_zero: "Vec3 0 0 0 = (0 :: 'a::ab_group_add Vec3)"
  by (simp add: zero_Vec3_def Vec3_SetZero_def)

lemma DDot3_zero: "DDot3 0 (v::real Vec3) = 0"
  by (simp add: DDot3_def zero_Vec3_def Vec3_SetZero_def)

section \<open>Orthonormal frames\<close>

text \<open>
  Two orthogonal unit vectors and their cross product span the space: the coordinates along
  the three preserve the inner product. The product of two triple products is a Gram
  determinant, which gives it without division.
\<close>

definition unit3 :: "real Vec3 \<Rightarrow> bool" where
  "unit3 v = (DDot3 v v = 1)"

lemma gram_triple:
  "DDot3 u (DCross c a) * DDot3 v (DCross c a) =
     DDot3 u v * (DDot3 c c * DDot3 a a - DDot3 c a * DDot3 c a)
     - DDot3 u c * (DDot3 c v * DDot3 a a - DDot3 c a * DDot3 a v)
     + DDot3 u a * (DDot3 c v * DDot3 c a - DDot3 c c * DDot3 a (v::real Vec3))"
  by (simp add: DDot3_def DCross_def algebra_simps)

lemma frame_parseval:
  assumes "unit3 a" and "unit3 c" and "DDot3 c a = 0"
  shows "DDot3 u a * DDot3 v a + DDot3 u (DCross c a) * DDot3 v (DCross c a) + DDot3 u c * DDot3 v c
    = DDot3 u v"
  using assms gram_triple [of u c a v] by (simp add: unit3_def ip3.dot_commute [of a v] ip3.dot_commute [of c v])

lemma cross_unit:
  assumes "unit3 a" and "unit3 c" and "DDot3 c a = 0"
  shows "unit3 (DCross c a)"
  using assms by (simp add: unit3_def DCross_lagrange ip3.dot_commute [of a c])

lemma normalize_unit3: "\<not> Vec3_IsZero v \<Longrightarrow> unit3 (DNormalize3 v)"
  by (simp add: unit3_def DNormalize_normalize ip3.normalize_unit)

lemma normalize_orth: "DDot3 v w = 0 \<Longrightarrow> DDot3 (DNormalize3 v) w = 0"
  by (simp add: DNormalize3_def ip3.dot_scale)

lemma dot_normalize_self:
  assumes "\<not> Vec3_IsZero v"
  shows "DDot3 v (DNormalize3 v) = DLength3 v"
  using ip3.dot_pos [OF assms] ip3.dot_scale [of v "DRSqrt (DLengthSqr3 v)" v]
    ip3.dot_commute [of v "DNormalize3 v"]
  by (simp add: DNormalize3_def DLength3_def DSqrt_def DRSqrt_def DLengthSqr3_def real_div_sqrt)

text \<open>The axes \<open>LookAt\<close> computes from its arguments.\<close>

definition look_z :: "real Vec3 \<Rightarrow> real Vec3 \<Rightarrow> real Vec3" where
  "look_z target eye = DNormalize3 (eye - target)"

definition look_x :: "real Vec3 \<Rightarrow> real Vec3 \<Rightarrow> real Vec3 \<Rightarrow> real Vec3" where
  "look_x target eye up = DNormalize3 (DCross up (look_z target eye))"

definition look_y :: "real Vec3 \<Rightarrow> real Vec3 \<Rightarrow> real Vec3 \<Rightarrow> real Vec3" where
  "look_y target eye up = DCross (look_z target eye) (look_x target eye up)"

definition look_frame_matrix :: "real Vec3 \<Rightarrow> real Vec3 \<Rightarrow> real Vec3 \<Rightarrow> Matrix44" where
  "look_frame_matrix xa ya za = Matrix44_rows
     (x3 xa) (x3 ya) (x3 za) 0 (y3 xa) (y3 ya) (y3 za) 0 (z3 xa) (z3 ya) (z3 za) 0 0 0 0 1"

lemma LookAt_frame:
  assumes "0.0001 \<le> DLengthSqr3 (target - eye)"
  shows "LookAt target eye up =
    (let m = look_frame_matrix (look_x target eye up) (look_y target eye up) (look_z target eye)
     in SetV3 3 (V3_V3W0_Mul_M44 (- eye) m) m)"
proof -
  have "\<not> DLengthSqr3 (Vec3_opV (-) target eye) < 0.0001"
    using assms by (simp add: minus_Vec3_def not_less)
  then show ?thesis
    by (simp only: LookAt_def Let_def if_False look_frame_matrix_def look_x_def look_y_def look_z_def
        minus_Vec3_def uminus_Vec3_def)
qed

lemma frame_linear:
  "V3_V3W0_Mul_M44 v (look_frame_matrix xa ya za) = Vec3 (DDot3 v xa) (DDot3 v ya) (DDot3 v za)"
  "V3_V3W0_Mul_M44 v (SetV3 3 t (look_frame_matrix xa ya za)) = Vec3 (DDot3 v xa) (DDot3 v ya) (DDot3 v za)"
  "V3_V3W1_Mul_M44 v (SetV3 3 t (look_frame_matrix xa ya za)) = Vec3 (DDot3 v xa) (DDot3 v ya) (DDot3 v za) + t"
  by (simp_all add: look_frame_matrix_def SetV3_rows V3_V3W0_Mul_M44_def V3_V3W1_Mul_M44_def DDot3_def
      plus_Vec3_def Vec3_opV_def Let_def)

lemma LookAt_axes:
  assumes "0.0001 \<le> DLengthSqr3 (target - eye)"
  shows "V3_V3W0_Mul_M44 v (LookAt target eye up) =
      Vec3 (DDot3 v (look_x target eye up)) (DDot3 v (look_y target eye up)) (DDot3 v (look_z target eye))"
    and "V3_V3W1_Mul_M44 v (LookAt target eye up) = V3_V3W0_Mul_M44 (v - eye) (LookAt target eye up)"
proof -
  have "DDot3 v x + DDot3 (- eye) x = DDot3 (v - eye) x" for x
    by (simp add: DDot3_add [symmetric])
  then show "V3_V3W1_Mul_M44 v (LookAt target eye up) = V3_V3W0_Mul_M44 (v - eye) (LookAt target eye up)"
    by (simp add: LookAt_frame [OF assms] Let_def frame_linear plus_Vec3_def Vec3_opV_def)
qed (simp add: LookAt_frame [OF assms] Let_def frame_linear)

lemma look_frame:
  assumes "0.0001 \<le> DLengthSqr3 (target - eye)" and "\<not> Vec3_IsZero (DCross up (eye - target))"
  shows "unit3 (look_z target eye)" and "unit3 (look_x target eye up)"
    and "DDot3 (look_z target eye) (look_x target eye up) = 0"
proof -
  have nz: "\<not> Vec3_IsZero (eye - target)"
    using assms(1) by (auto simp: Vec3_IsZero_iff DLengthSqr3_def DDot3_def Vec3_ops)
  then show "unit3 (look_z target eye)"
    by (simp add: look_z_def normalize_unit3)
  have "DCross up (look_z target eye) = Vec3_opS (*) (DCross up (eye - target)) (DRSqrt (DLengthSqr3 (eye - target)))"
    by (simp add: look_z_def DNormalize3_def Vec3_opS_def DCross_def algebra_simps)
  moreover have "DRSqrt (DLengthSqr3 (eye - target)) \<noteq> 0"
    using ip3.dot_pos [OF nz] by (simp add: DRSqrt_def DLengthSqr3_def)
  ultimately have "\<not> Vec3_IsZero (DCross up (look_z target eye))"
    using assms(2) by (simp add: Vec3_IsZero_def Vec3_opS_def)
  then show "unit3 (look_x target eye up)"
    by (simp add: look_x_def normalize_unit3)
  show "DDot3 (look_z target eye) (look_x target eye up) = 0"
    by (metis look_x_def normalize_orth DCross_orth(2) ip3.dot_commute)
qed

lemma LookAt_isometry:
  assumes "0.0001 \<le> DLengthSqr3 (target - eye)" and "\<not> Vec3_IsZero (DCross up (eye - target))"
  shows "DDot3 (V3_V3W0_Mul_M44 v (LookAt target eye up)) (V3_V3W0_Mul_M44 w (LookAt target eye up)) = DDot3 v w"
  using frame_parseval [OF look_frame(2,1,3) [OF assms], of v w]
  by (simp add: LookAt_axes(1) [OF assms(1)] look_y_def DDot3_def [of "Vec3 _ _ _"])

lemma LookAt_target:
  assumes "0.0001 \<le> DLengthSqr3 (target - eye)"
  shows "V3_V3W1_Mul_M44 target (LookAt target eye up) = Vec3 0 0 (- DLength3 (eye - target))"
proof -
  have nz: "\<not> Vec3_IsZero (eye - target)"
    using assms by (auto simp: Vec3_IsZero_iff DLengthSqr3_def DDot3_def Vec3_ops)
  have e: "eye - target = Vec3_opS (*) (look_z target eye) (DLength3 (eye - target))"
    using ip3.normalize_direction [OF nz]
    by (simp add: look_z_def DNormalize_normalize DLength3_def DLengthSqr3_def)
  have t: "DDot3 (target - eye) x = - DDot3 (eye - target) x" for x
    by (simp add: DDot3_def Vec3_ops algebra_simps)
  have "DDot3 (eye - target) (look_z target eye) = DLength3 (eye - target)"
    by (simp add: look_z_def dot_normalize_self [OF nz])
  moreover have "DDot3 (eye - target) (look_x target eye up) = 0"
    by (subst e) (simp add: ip3.dot_scale, metis look_x_def normalize_orth DCross_orth(2) ip3.dot_commute)
  moreover have "DDot3 (eye - target) (look_y target eye up) = 0"
    by (subst e) (simp add: ip3.dot_scale look_y_def, metis DCross_orth(1) ip3.dot_commute)
  ultimately show ?thesis
    by (simp add: LookAt_axes [OF assms] t)
qed

text \<open>\<open>Rot\<close> in vector form (Rodrigues' formula).\<close>

lemma Rot_rodrigues:
  "V3_V3W0_Mul_M44 v (Rot ang (x3 k) (y3 k) (z3 k)) =
     scaleR (cos ang) v + scaleR ((1 - cos ang) * DDot3 k v) k + scaleR (sin ang) (DCross k v)"
  by (simp add: Rot_def V3_V3W0_Mul_M44_def Let_def Vec3_ops DDot3_def DCross_def algebra_simps)

lemma DCross_linear:
  "DCross k (a + b) = DCross k a + DCross k (b::real Vec3)"
  "DCross k (scaleR r a) = scaleR r (DCross k a)" "DCross k k = 0"
  by (simp_all add: DCross_def Vec3_ops algebra_simps)

lemma DDot3_linear:
  "DDot3 k (a + b) = DDot3 k a + DDot3 k (b::real Vec3)" "DDot3 k (scaleR r a) = r * DDot3 k a"
  by (simp_all add: DDot3_def Vec3_ops algebra_simps)

lemma dot_cross_self: "DDot3 k (DCross k (v::real Vec3)) = 0"
  using DCross_orth(1) [of k v] by (simp add: ip3.dot_commute)

lemma Rot_compose:
  assumes "unit3 k"
  shows "V3_V3W0_Mul_M44 (V3_V3W0_Mul_M44 v (Rot a (x3 k) (y3 k) (z3 k))) (Rot b (x3 k) (y3 k) (z3 k))
    = V3_V3W0_Mul_M44 v (Rot (a + b) (x3 k) (y3 k) (z3 k))"
proof -
  have k: "DDot3 k k = 1" using assms by (simp add: unit3_def)
  have c: "DCross k (DCross k v) = scaleR (DDot3 k v) k - v"
    by (simp add: DCross_triple k)
  show ?thesis
    by (simp add: Rot_rodrigues DCross_linear DDot3_linear dot_cross_self k c cos_add sin_add)
      (simp add: algebra_simps)
qed

lemma Rot_axis:
  assumes "unit3 k"
  shows "V3_V3W0_Mul_M44 k (Rot a (x3 k) (y3 k) (z3 k)) = k"
  using assms by (simp add: Rot_rodrigues DCross_linear unit3_def flip: scaleR_left_distrib)

lemma Rot_dot:
  assumes "unit3 k"
  shows "DDot3 (V3_V3W0_Mul_M44 v (Rot a (x3 k) (y3 k) (z3 k))) (V3_V3W0_Mul_M44 w (Rot a (x3 k) (y3 k) (z3 k)))
    = DDot3 v w"
proof -
  have k: "DDot3 k k = 1" using assms by (simp add: unit3_def)
  define p q c s where "p = DDot3 k v" and "q = DDot3 k w" and "c = cos a" and "s = sin a"
  define V W where "V = DCross k v" and "W = DCross k w"
  have dots: "DDot3 v k = p" "DDot3 w k = q" "DDot3 k v = p" "DDot3 k w = q" "DDot3 k V = 0" "DDot3 k W = 0"
    "DDot3 V k = 0" "DDot3 W k = 0" "DDot3 v W = - DDot3 V w" "DDot3 V W = DDot3 v w - p * q"
    by (simp_all add: p_def q_def V_def W_def dot_cross_self DCross_orth DCross_lagrange k
        ip3.dot_commute [of v k] ip3.dot_commute [of w k]) (simp add: DDot3_def DCross_def algebra_simps)
  have lin: "DDot3 (scaleR r x) y = r * DDot3 x y" for r x and y :: "real Vec3"
    by (simp add: DDot3_def Vec3_ops algebra_simps)
  have "DDot3 (scaleR c v + scaleR ((1 - c) * p) k + scaleR s V) (scaleR c w + scaleR ((1 - c) * q) k + scaleR s W)
    = (c\<^sup>2 + s\<^sup>2) * DDot3 v w + p * q * (1 - (c\<^sup>2 + s\<^sup>2))"
    by (simp add: DDot3_linear DDot3_add lin dots k) (simp add: power2_eq_square algebra_simps)
  then show ?thesis
    by (simp add: Rot_rodrigues p_def q_def c_def s_def V_def W_def)
qed

lemma ortho_axis:
  assumes "(l::real) < r"
  shows "l * 2 / (r - l) + (- r - l) / (r - l) = - 1" and "r * 2 / (r - l) + (- r - l) / (r - l) = 1"
proof -
  have "r - l \<noteq> 0" using assms by simp
  then show "l * 2 / (r - l) + (- r - l) / (r - l) = - 1" "r * 2 / (r - l) + (- r - l) / (r - l) = 1"
    by (simp_all add: add_divide_distrib [symmetric] divide_eq_eq)
qed

lemma far_depth:
  assumes "(n::real) < f" and "0 < n"
  shows "f / (f - n) * (1 - n / f) = 1"
  using assms by (simp add: right_diff_distrib diff_divide_distrib [symmetric])

text \<open>A spline as the combination of its control points.\<close>

lemma Spline_coeffs:
  "Spline t b p0 p1 p2 p3 =
     scaleR (t * t * t * mij b 0 0 + t * t * mij b 1 0 + t * mij b 2 0 + mij b 3 0) p0
     + scaleR (t * t * t * mij b 0 1 + t * t * mij b 1 1 + t * mij b 2 1 + mij b 3 1) p1
     + scaleR (t * t * t * mij b 0 2 + t * t * mij b 1 2 + t * mij b 2 2 + mij b 3 2) p2
     + scaleR (t * t * t * mij b 0 3 + t * t * mij b 1 3 + t * mij b 2 3 + mij b 3 3) p3"
  by (simp add: Spline_def Let_def scaleR_add_left scaleR_add_right mult.assoc)

lemma SplineDeriv_coeffs:
  "SplineDeriv t b p0 p1 p2 p3 =
     scaleR (t * t * 3 * mij b 0 0 + t * 2 * mij b 1 0 + mij b 2 0) p0
     + scaleR (t * t * 3 * mij b 0 1 + t * 2 * mij b 1 1 + mij b 2 1) p1
     + scaleR (t * t * 3 * mij b 0 2 + t * 2 * mij b 1 2 + mij b 2 2) p2
     + scaleR (t * t * 3 * mij b 0 3 + t * 2 * mij b 1 3 + mij b 2 3) p3"
  by (simp add: SplineDeriv_def Let_def scaleR_add_left scaleR_add_right mult.assoc)

lemma Spline_derivative:
  fixes p0 :: "'v::real_normed_vector"
  shows "((\<lambda>s. Spline s b p0 p1 p2 p3) has_vector_derivative SplineDeriv t b p0 p1 p2 p3) (at t)"
proof -
  have "((\<lambda>s. scaleR (s ^ 3) v0 + scaleR (s ^ 2) v1 + scaleR s v2 + v3) has_vector_derivative
      scaleR (3 * t ^ 2) v0 + scaleR (2 * t) v1 + v2) (at t)" for v0 v1 v2 v3 :: 'v
    by (auto intro!: derivative_eq_intros simp: has_vector_derivative_def algebra_simps)
  from this [of "scaleR (mij b 0 0) p0 + scaleR (mij b 0 1) p1 + scaleR (mij b 0 2) p2 + scaleR (mij b 0 3) p3"
    "scaleR (mij b 1 0) p0 + scaleR (mij b 1 1) p1 + scaleR (mij b 1 2) p2 + scaleR (mij b 1 3) p3"
    "scaleR (mij b 2 0) p0 + scaleR (mij b 2 1) p1 + scaleR (mij b 2 2) p2 + scaleR (mij b 2 3) p3"
    "scaleR (mij b 3 0) p0 + scaleR (mij b 3 1) p1 + scaleR (mij b 3 2) p2 + scaleR (mij b 3 3) p3"]
  show ?thesis
    unfolding Spline_def SplineDeriv_def Let_def
    by (simp add: power2_eq_square power3_eq_cube mult.assoc mult.commute)
qed

lemma GetOrthonormal_rows:
  assumes "wf44 m"
  shows "\<exists>v0 v1 v2. v0 = DNormalize3 (GetV3 0 m) \<and> v1 = DNormalize3 (DCross (GetV3 2 m) v0)
    \<and> v2 = DCross v0 v1
    \<and> GetV3 0 (GetOrthonormal m) = v0 \<and> GetV3 1 (GetOrthonormal m) = v1
    \<and> GetV3 2 (GetOrthonormal m) = v2 \<and> GetV3 3 (GetOrthonormal m) = GetV3 3 m"
  by (intro exI conjI refl)
    (simp_all add: GetOrthonormal_def Let_def Identity_rows SetV3_rows Vec3_GetCross_DCross
      Vec3_GetNormalized_normalize DNormalize_normalize GetV3_def [of _ "Matrix44_rows _ _ _ _ _ _ _ _ _ _ _ _ _ _ _ _"])

section \<open>Properties\<close>

text \<open>
  C21: \<open>Matrix44::GetInverse\<close>, on exact reals. When the determinant is not below the
  threshold in absolute value, it reports success and the result is the inverse on both
  sides; otherwise it reports failure and returns the matrix unchanged.
\<close>

theorem GetInverse_correct:
  assumes "wf44 m" and "wf44 u"
  shows "if \<bar>det44 m\<bar> < 1 / 10 ^ 11 then GetInverse m = (m, False)
    else snd (GetInverse m) \<and> Matrix44_mul u m (fst (GetInverse m)) = Identity
       \<and> Matrix44_mul u (fst (GetInverse m)) m = Identity"
  using GetInverse_singular [of m] GetInverse_regular [of m] GetInverse_right [OF assms(2), of m]
    GetInverse_left [OF assms(2), of m]
  by auto

theorem GetInverse_correct_witness:
  "wf44 (Scale 2 4 5) \<and> Matrix44_mul Identity (Scale 2 4 5) (fst (GetInverse (Scale 2 4 5))) = Identity"
  using GetInverse_correct [of "Scale 2 4 5" Identity]
  by (simp add: Scale_rows Identity_rows det44_def det_defs split: if_splits)

text \<open>
  The matrix product composes transforms: multiplying a row vector by a product is
  multiplying it by the factors in order; the product is associative, has \<open>Identity\<close> as its
  unit, and does not depend on the uninitialised contents of its temporary. The points and
  vectors products are the four-component product at \<open>w = 1\<close> and \<open>w = 0\<close>.
\<close>

theorem Matrix44_mul_correct:
  assumes "wf44 u" and "wf44 t" and "wf44 m"
  shows "V4_V4_Mul_M44 (V4_V4_Mul_M44 v a) b = V4_V4_Mul_M44 v (Matrix44_mul u a b)
    \<and> Matrix44_mul u (Matrix44_mul t a b) c = Matrix44_mul u a (Matrix44_mul t b c)
    \<and> Matrix44_mul u a b = Matrix44_mul t a b
    \<and> Matrix44_mul u m Identity = m \<and> Matrix44_mul u Identity m = m
    \<and> V4_V3W1_Mul_M44 p a = V4_V4_Mul_M44 (Vec4_of_Vec3 p 1) a
    \<and> V4_V3W0_Mul_M44 p a = V4_V4_Mul_M44 (Vec4_of_Vec3 p 0) a
    \<and> V3_V3W1_Mul_M44 p a = Vec4_GetAsV3 (V4_V3W1_Mul_M44 p a)
    \<and> V3_V3W0_Mul_M44 p a = Vec4_GetAsV3 (V4_V3W0_Mul_M44 p a)"
proof -
  have "Matrix44_mul u a b = Matrix44_mul t a b"
    using assms by (simp add: Matrix44_mul_def fill_block_4)
  then show ?thesis
    using mul_action [OF assms(1)] mul_assoc [OF assms(2) assms(1) assms(2)] mul_identity [OF assms(1,3)]
    by (simp add: V_Mul_defs Vec4_of_Vec3_def Vec4_GetAsV3_def)
qed

theorem Matrix44_mul_correct_witness:
  "wf44 Identity \<and> V4_V4_Mul_M44 (V4_V4_Mul_M44 (Vec4 1 2 3 1) (Scale 2 2 2)) (Translate 1 0 0)
     = V4_V4_Mul_M44 (Vec4 1 2 3 1) (Matrix44_mul Identity (Scale 2 2 2) (Translate 1 0 0))"
  using Matrix44_mul_correct [of Identity Identity Identity] by (simp add: Identity_rows)

text \<open>
  C32: \<open>Matrix44::LookAt\<close> is a rigid camera transform. For an eye at least a hundredth from
  the target and an up vector that is not parallel to the viewing direction, it keeps inner
  products (so lengths and angles), takes the eye to the origin and the target to the negative
  z axis at its distance from the eye.
\<close>

theorem LookAt_correct:
  assumes "0.0001 \<le> DLengthSqr3 (target - eye)" and "\<not> Vec3_IsZero (DCross up (eye - target))"
  shows "DDot3 (V3_V3W0_Mul_M44 v (LookAt target eye up)) (V3_V3W0_Mul_M44 w (LookAt target eye up))
      = DDot3 v w
    \<and> V3_V3W1_Mul_M44 eye (LookAt target eye up) = 0
    \<and> V3_V3W1_Mul_M44 target (LookAt target eye up) = Vec3 0 0 (- DLength3 (eye - target))"
  using LookAt_isometry [OF assms] LookAt_target [OF assms(1)]
  by (simp add: LookAt_axes(1) [OF assms(1), of 0] LookAt_axes(2) [OF assms(1), of eye] DDot3_zero Vec3_zero)

theorem LookAt_correct_witness:
  "V3_V3W1_Mul_M44 (Vec3 0 0 0) (LookAt (Vec3 0 0 0) (Vec3 0 0 5) (Vec3 0 1 0))
     = Vec3 0 0 (- DLength3 (Vec3 0 0 5))"
  using LookAt_correct [of "Vec3 0 0 0" "Vec3 0 0 5" "Vec3 0 1 0"]
  by (simp add: DLengthSqr3_def DDot3_def Vec3_ops Vec3_IsZero_def DCross_def)

text \<open>
  \<open>Matrix44::GetOrthonormal\<close> works: when the first row is not zero and the third is not
  parallel to it, the three rows of the result are unit vectors, orthogonal to each other, the
  third is the cross product of the first two, the first keeps its direction, and the
  translation row is kept.
\<close>

theorem GetOrthonormal_correct:
  assumes "wf44 m" and "\<not> Vec3_IsZero (GetV3 0 m)"
    and "\<not> Vec3_IsZero (DCross (GetV3 2 m) (DNormalize3 (GetV3 0 m)))"
  shows "(let r = (\<lambda>i. GetV3 i (GetOrthonormal m)) in
      DDot3 (r 0) (r 0) = 1 \<and> DDot3 (r 1) (r 1) = 1 \<and> DDot3 (r 2) (r 2) = 1
    \<and> DDot3 (r 0) (r 1) = 0 \<and> DDot3 (r 0) (r 2) = 0 \<and> DDot3 (r 1) (r 2) = 0
    \<and> r 2 = DCross (r 0) (r 1) \<and> Vec3_opS (*) (r 0) (DLength3 (GetV3 0 m)) = GetV3 0 m
    \<and> r 3 = GetV3 3 m)"
proof -
  obtain v0 v1 v2 where r: "GetV3 0 (GetOrthonormal m) = v0" "GetV3 1 (GetOrthonormal m) = v1"
      "GetV3 2 (GetOrthonormal m) = v2" "GetV3 3 (GetOrthonormal m) = GetV3 3 m"
    and v: "v0 = DNormalize3 (GetV3 0 m)" "v1 = DNormalize3 (DCross (GetV3 2 m) v0)" "v2 = DCross v0 v1"
    using GetOrthonormal_rows [OF assms(1)] by metis
  have u: "unit3 v0" "unit3 v1"
    using assms(2,3) by (simp_all add: v normalize_unit3)
  have o: "DDot3 v1 v0 = 0"
    unfolding v(2) by (rule normalize_orth) (rule DCross_orth(2))
  have "unit3 v2"
    unfolding v(3) using u o by (intro cross_unit) (auto simp: ip3.dot_commute [of v0 v1])
  moreover have "Vec3_opS (*) v0 (DLength3 (GetV3 0 m)) = GetV3 0 m"
    using ip3.normalize_direction [OF assms(2)]
    by (simp add: v(1) DNormalize_normalize DLength3_def DLengthSqr3_def)
  ultimately show ?thesis
    using u o DCross_orth [of v0 v1] ip3.dot_commute
    by (simp add: Let_def r r(2) [unfolded One_nat_def] unit3_def v(3) [symmetric])
qed

theorem GetOrthonormal_correct_witness:
  "DDot3 (GetV3 0 (GetOrthonormal (Scale 2 3 4))) (GetV3 2 (GetOrthonormal (Scale 2 3 4))) = 0"
proof -
  have w: "wf44 (Scale 2 3 4)" by (simp add: Scale_rows)
  have g: "GetV3 0 (Scale 2 3 4) = Vec3 2 0 0" "GetV3 2 (Scale 2 3 4) = Vec3 0 0 4"
    by (simp_all add: Scale_rows GetV3_def)
  have z: "\<not> Vec3_IsZero (GetV3 0 (Scale 2 3 4))" by (simp add: g Vec3_IsZero_def)
  have c: "\<not> Vec3_IsZero (DCross (GetV3 2 (Scale 2 3 4)) (DNormalize3 (GetV3 0 (Scale 2 3 4))))"
    by (simp add: g Vec3_IsZero_def DCross_def DNormalize3_def DLengthSqr3_def DDot3_def DRSqrt_def
        Vec3_opS_def)
  show ?thesis using GetOrthonormal_correct [OF w z c] unfolding Let_def by blast
qed

text \<open>
  \<open>Matrix44::Rot\<close> about a unit axis is a rotation: it keeps inner products and the axis,
  and rotations about one axis compose by adding their angles.
\<close>

theorem Rot_correct:
  assumes "DDot3 k k = 1"
  shows "DDot3 (V3_V3W0_Mul_M44 v (Rot a (x3 k) (y3 k) (z3 k))) (V3_V3W0_Mul_M44 w (Rot a (x3 k) (y3 k) (z3 k)))
      = DDot3 v w
    \<and> V3_V3W0_Mul_M44 k (Rot a (x3 k) (y3 k) (z3 k)) = k
    \<and> V3_V3W0_Mul_M44 (V3_V3W0_Mul_M44 v (Rot a (x3 k) (y3 k) (z3 k))) (Rot b (x3 k) (y3 k) (z3 k))
      = V3_V3W0_Mul_M44 v (Rot (a + b) (x3 k) (y3 k) (z3 k))"
  using assms Rot_dot [of k] Rot_axis [of k] Rot_compose [of k] by (simp add: unit3_def)

theorem Rot_correct_witness:
  "V3_V3W0_Mul_M44 (V3_V3W0_Mul_M44 (Vec3 1 0 0) (Rot 1 0 0 1)) (Rot 2 0 0 1)
     = V3_V3W0_Mul_M44 (Vec3 1 0 0) (Rot 3 0 0 1)"
  using Rot_correct [of "Vec3 0 0 1" "Vec3 1 0 0" 1 "Vec3 1 0 0" 2] by (simp add: DDot3_def)

text \<open>
  C33: the projection matrices. \<open>Perspective\<close> looks down the positive z axis and
  \<open>PerspectiveRH0\<close> down the negative one; after the division by w both send the near plane to
  depth 0, the far plane to depth 1, and keep the depth order in between. \<open>OrthoRH\<close> maps the
  viewing box to the cube from -1 to 1, with the near plane at -1.
\<close>

theorem projections_correct:
  assumes "0 < n" and "n < f" and "n \<le> z1" and "z1 < z2" and "z2 \<le> f"
    and "l < r" and "bo < to"
  shows "(let P = Perspective fov aspect n f; Q = PerspectiveRH0 fov aspect n f;
        d = (\<lambda>z. z4 (V4_V3W1_Mul_M44 (Vec3 x y z) P) / w4 (V4_V3W1_Mul_M44 (Vec3 x y z) P));
        e = (\<lambda>z. z4 (V4_V3W1_Mul_M44 (Vec3 x y z) Q) / w4 (V4_V3W1_Mul_M44 (Vec3 x y z) Q))
      in d n = 0 \<and> d f = 1 \<and> d z1 < d z2 \<and> e (- n) = 0 \<and> e (- f) = 1 \<and> e (- z1) < e (- z2))
    \<and> V3_V3W1_Mul_M44 (Vec3 l bo (- n)) (OrthoRH l r bo to n f) = Vec3 (- 1) (- 1) (- 1)
    \<and> V3_V3W1_Mul_M44 (Vec3 r to (- f)) (OrthoRH l r bo to n f) = Vec3 1 1 1"
proof -
  have k: "(z * (f / k) + n * f / (- k)) / z = f / k * (1 - n / z)"
    "(- (z * (f / (- k))) + n * f / (- k)) / z = f / k * (1 - n / z)" if "0 < z" "0 < k" for z k
    using that by (simp_all add: field_simps)
  have d: "(z * (f / (f - n)) + n * f / (n - f)) / z = f / (f - n) * (1 - n / z)"
    and e: "(- (z * (f / (n - f))) + n * f / (n - f)) / z = f / (f - n) * (1 - n / z)" if "0 < z" for z
    using k [OF that, of "f - n"] assms(2) by simp_all
  have m: "f / (f - n) * (1 - n / z1) < f / (f - n) * (1 - n / z2)"
    using assms by (intro mult_strict_left_mono) (auto simp: field_simps)
  have "0 < z1" "0 < z2" "0 < f" using assms by auto
  then have depth: "(let P = Perspective fov aspect n f; Q = PerspectiveRH0 fov aspect n f;
        d = (\<lambda>z. z4 (V4_V3W1_Mul_M44 (Vec3 x y z) P) / w4 (V4_V3W1_Mul_M44 (Vec3 x y z) P));
        e = (\<lambda>z. z4 (V4_V3W1_Mul_M44 (Vec3 x y z) Q) / w4 (V4_V3W1_Mul_M44 (Vec3 x y z) Q))
      in d n = 0 \<and> d f = 1 \<and> d z1 < d z2 \<and> e (- n) = 0 \<and> e (- f) = 1 \<and> e (- z1) < e (- z2))"
    using assms(1,2) m d [of n] d [of f] d [of z1] d [of z2] e [of n] e [of f] e [of z1] e [of z2]
      far_depth [OF assms(2,1)]
    by (simp add: Let_def Perspective_def PerspectiveRH0_def V_Mul_defs)
  show ?thesis
    using depth ortho_axis [OF assms(6)] ortho_axis [OF assms(7)] ortho_axis [OF assms(2)]
    by (simp add: OrthoRH_def Let_def V3_V3W1_Mul_M44_def)
qed

theorem projections_correct_witness:
  "V3_V3W1_Mul_M44 (Vec3 2 3 (- 10)) (OrthoRH (- 2) 2 (- 3) 3 1 10) = Vec3 1 1 1"
  using projections_correct [of 1 10 2 3 "- 2" 2 "- 3" 3 "pi / 2" 1 0 0] by simp

section \<open>Splines\<close>

text \<open>
  C34: the spline evaluators with the cubic bases of the RenderMan interface. \<open>SplineDeriv\<close> is
  the derivative of \<open>Spline\<close> for any basis; a Bezier segment runs from its first to its last
  control point with the tangents three times the end edges; a Catmull-Rom segment runs from its
  second to its third point with the central differences as tangents; consecutive B-spline
  segments, which share three points, join with equal value and derivative.
\<close>

theorem Spline_bases_correct:
  fixes p0 p1 p2 p3 p4 :: "'v::real_normed_vector"
  shows "((\<lambda>s. Spline s b p0 p1 p2 p3) has_vector_derivative SplineDeriv t b p0 p1 p2 p3) (at t)
    \<and> Spline 0 BezierBasis p0 p1 p2 p3 = p0 \<and> Spline 1 BezierBasis p0 p1 p2 p3 = p3
    \<and> SplineDeriv 0 BezierBasis p0 p1 p2 p3 = scaleR 3 (p1 - p0)
    \<and> SplineDeriv 1 BezierBasis p0 p1 p2 p3 = scaleR 3 (p3 - p2)
    \<and> Spline 0 CatmullRomBasis p0 p1 p2 p3 = p1 \<and> Spline 1 CatmullRomBasis p0 p1 p2 p3 = p2
    \<and> SplineDeriv 0 CatmullRomBasis p0 p1 p2 p3 = scaleR (1 / 2) (p2 - p0)
    \<and> SplineDeriv 1 CatmullRomBasis p0 p1 p2 p3 = scaleR (1 / 2) (p3 - p1)
    \<and> Spline 1 BSplineBasis p0 p1 p2 p3 = Spline 0 BSplineBasis p1 p2 p3 p4
    \<and> SplineDeriv 1 BSplineBasis p0 p1 p2 p3 = SplineDeriv 0 BSplineBasis p1 p2 p3 p4"
proof (intro conjI)
  show "((\<lambda>s. Spline s b p0 p1 p2 p3) has_vector_derivative SplineDeriv t b p0 p1 p2 p3) (at t)"
    by (rule Spline_derivative)
qed (simp_all add: Spline_coeffs SplineDeriv_coeffs BezierBasis_def CatmullRomBasis_def
      BSplineBasis_def scaleR_diff_right)

text \<open>
  \<open>HermiteBasis\<close> is stored transposed with respect to the other bases: the curve it gives
  starts at the difference of the first two control points. With the transposed matrix the
  curve runs between the two end points with the given end tangents, as a Hermite segment does.
\<close>

theorem HermiteBasis_transposed:
  fixes p0 p1 r0 r1 :: "'v::real_vector"
  assumes "wf44 u"
  shows "Spline 0 HermiteBasis p0 p1 r0 r1 = p0 - p1
    \<and> Spline 0 (GetTranspose u HermiteBasis) p0 p1 r0 r1 = p0
    \<and> Spline 1 (GetTranspose u HermiteBasis) p0 p1 r0 r1 = p1
    \<and> SplineDeriv 0 (GetTranspose u HermiteBasis) p0 p1 r0 r1 = r0
    \<and> SplineDeriv 1 (GetTranspose u HermiteBasis) p0 p1 r0 r1 = r1"
proof -
  have "GetTranspose u HermiteBasis = Matrix44_rows 2 (- 2) 1 1 (- 3) 3 (- 2) (- 1) 0 0 1 0 1 0 0 0"
    by (simp add: GetTranspose_def fill_block_4 [OF assms] HermiteBasis_def)
  then show ?thesis
    by (simp add: Spline_coeffs SplineDeriv_coeffs) (simp add: Spline_coeffs HermiteBasis_def)
qed

theorem HermiteBasis_transposed_witness:
  "Spline 0 HermiteBasis (5::real) 2 0 0 = 3 \<and> Spline 0 (GetTranspose Identity HermiteBasis) (5::real) 2 0 0 = 5"
  using HermiteBasis_transposed [of Identity "5::real" 2 0 0] by (simp add: Identity_rows)

end
