(* ===== verification/CLib.thy ===== *)
theory CLib
  imports Prelude Complex_Main
begin

text \<open>
  The functions of the C library that the text front ends use: character classes, \<open>atoi\<close>,
  \<open>atof\<close> and \<open>sscanf ("%lf")\<close>, \<open>strcmp\<close> and \<open>strcasecmp\<close>. A C string is the list of its
  characters before the terminating null. A number read as a float is kept as the exact
  rational it denotes, before rounding.
\<close>

section \<open>Characters\<close>

definition chr_code :: "char \<Rightarrow> nat" where
  "chr_code c = of_char c"

definition c_isdigit :: "char \<Rightarrow> bool" where
  "c_isdigit c = (48 \<le> chr_code c \<and> chr_code c \<le> 57)"

definition c_isspace :: "char \<Rightarrow> bool" where
  "c_isspace c = (chr_code c = 32 \<or> (9 \<le> chr_code c \<and> chr_code c \<le> 13))"

definition c_isxdigit :: "char \<Rightarrow> bool" where
  "c_isxdigit c =
     (c_isdigit c \<or> (65 \<le> chr_code c \<and> chr_code c \<le> 70) \<or> (97 \<le> chr_code c \<and> chr_code c \<le> 102))"

definition c_tolower :: "char \<Rightarrow> char" where
  "c_tolower c = (if 65 \<le> chr_code c \<and> chr_code c \<le> 90 then char_of (chr_code c + 32) else c)"

definition digit_val :: "char \<Rightarrow> nat" where
  "digit_val c = chr_code c - 48"

definition xdigit_val :: "char \<Rightarrow> nat" where
  "xdigit_val c = (if c_isdigit c then chr_code c - 48 else chr_code (c_tolower c) - 87)"

definition strcasecmp_eq :: "string \<Rightarrow> string \<Rightarrow> bool" where
  "strcasecmp_eq a b = (map c_tolower a = map c_tolower b)"

section \<open>Integers\<close>

definition dec_nat :: "string \<Rightarrow> nat" where
  "dec_nat s = foldl (\<lambda>a c. 10 * a + digit_val c) 0 s"

text \<open>
  \<open>atoi\<close>: blanks, an optional sign, digits. The C standard leaves a value outside \<open>int\<close>
  undefined; the implementation is \<open>(int) strtol\<close>, which saturates at 64 bits and keeps the low
  32, and that is what is modelled.
\<close>

definition strip_sign :: "string \<Rightarrow> bool \<times> string" where
  "strip_sign s =
     (case s of [] \<Rightarrow> (False, [])
      | c # cs \<Rightarrow> if c = CHR ''-'' then (True, cs) else if c = CHR ''+'' then (False, cs) else (False, s))"

definition clamp_long :: "int \<Rightarrow> int" where
  "clamp_long i = (if i < - (2 ^ 63) then - (2 ^ 63) else if 2 ^ 63 - 1 < i then 2 ^ 63 - 1 else i)"

definition to_int32 :: "int \<Rightarrow> int" where
  "to_int32 i = (i + 2 ^ 31) mod 2 ^ 32 - 2 ^ 31"

definition atoi :: "string \<Rightarrow> int" where
  "atoi s =
     (case strip_sign (dropWhile c_isspace s) of (neg, r) \<Rightarrow>
        let n = int (dec_nat (takeWhile c_isdigit r))
        in to_int32 (clamp_long (if neg then - n else n)))"

section \<open>Floats\<close>

datatype flt = Fin rat | Infinite bool | NaN

definition flt_of_int :: "int \<Rightarrow> flt" where
  "flt_of_int i = Fin (of_int i)"

definition ci_prefix :: "string \<Rightarrow> string \<Rightarrow> bool" where
  "ci_prefix p s = strcasecmp_eq p (take (length p) s)"

definition exponent_part :: "(char \<Rightarrow> bool) \<Rightarrow> string \<Rightarrow> int option \<times> bool" where
  "exponent_part is_mark s =
     (case s of [] \<Rightarrow> (None, False)
      | c # cs \<Rightarrow>
        if \<not> is_mark c then (None, False)
        else case strip_sign cs of (neg, r) \<Rightarrow>
          let ds = takeWhile c_isdigit r in
          if ds = [] then (None, True)
          else (Some (if neg then - int (dec_nat ds) else int (dec_nat ds)), False))"

definition rat_power :: "rat \<Rightarrow> int \<Rightarrow> rat" where
  "rat_power b e = (if 0 \<le> e then b ^ nat e else 1 / b ^ nat (- e))"

definition mantissa_split :: "(char \<Rightarrow> bool) \<Rightarrow> string \<Rightarrow> string \<times> string \<times> string" where
  "mantissa_split isd s =
     (let ip = takeWhile isd s; r = dropWhile isd s in
      case r of [] \<Rightarrow> (ip, [], [])
      | c # cs \<Rightarrow> if c = CHR ''.'' then (ip, takeWhile isd cs, dropWhile isd cs) else (ip, [], r))"

text \<open>
  The longest numeric prefix, as \<open>strtod\<close> reads it, and whether it was followed by an
  exponent mark without digits: \<open>strtod\<close> then stops before the mark, \<open>sscanf\<close> fails.
\<close>

definition strtod_unsigned :: "string \<Rightarrow> (flt \<times> bool) option" where
  "strtod_unsigned s =
     (if ci_prefix ''inf'' s then Some (Infinite False, False)
      else if ci_prefix ''nan'' s then Some (NaN, False)
      else
        let hex = ci_prefix ''0x'' s \<and>
              (case mantissa_split c_isxdigit (drop 2 s) of (ip, fp, _) \<Rightarrow> ip \<noteq> [] \<or> fp \<noteq> [])
        in if hex then
             (case mantissa_split c_isxdigit (drop 2 s) of (ip, fp, r) \<Rightarrow>
                let m = foldl (\<lambda>a c. 16 * a + xdigit_val c) 0 (ip @ fp);
                    (e, bad) = exponent_part (\<lambda>c. c = CHR ''p'' \<or> c = CHR ''P'') r
                in Some (Fin (of_nat m / 16 ^ length fp * rat_power 2 (case e of None \<Rightarrow> 0 | Some x \<Rightarrow> x)), bad))
           else
             (case mantissa_split c_isdigit s of (ip, fp, r) \<Rightarrow>
                if ip = [] \<and> fp = [] then None
                else
                  let (e, bad) = exponent_part (\<lambda>c. c = CHR ''e'' \<or> c = CHR ''E'') r
                  in Some (Fin (of_nat (dec_nat (ip @ fp)) / 10 ^ length fp
                            * rat_power 10 (case e of None \<Rightarrow> 0 | Some x \<Rightarrow> x)), bad)))"

definition flt_neg :: "flt \<Rightarrow> flt" where
  "flt_neg f = (case f of Fin r \<Rightarrow> Fin (- r) | Infinite b \<Rightarrow> Infinite (\<not> b) | NaN \<Rightarrow> NaN)"

definition strtod :: "string \<Rightarrow> (flt \<times> bool) option" where
  "strtod s =
     (case strip_sign (dropWhile c_isspace s) of (neg, r) \<Rightarrow>
        map_option (\<lambda>(f, bad). (if neg then flt_neg f else f, bad)) (strtod_unsigned r))"

definition atof :: "string \<Rightarrow> flt" where
  "atof s = (case strtod s of None \<Rightarrow> Fin 0 | Some (f, _) \<Rightarrow> f)"

definition sscanf_lf :: "string \<Rightarrow> bool" where
  "sscanf_lf s = (case strtod s of None \<Rightarrow> False | Some (_, bad) \<Rightarrow> \<not> bad)"

section \<open>Decimal notation\<close>

fun show_nat :: "nat \<Rightarrow> string" where
  "show_nat n = (if n < 10 then [char_of (48 + n)] else show_nat (n div 10) @ [char_of (48 + n mod 10)])"

declare show_nat.simps [simp del]

definition show_int :: "int \<Rightarrow> string" where
  "show_int i = (if i < 0 then CHR ''-'' # show_nat (nat (- i)) else show_nat (nat i))"

lemma chr_code_char_of: "n < 256 \<Longrightarrow> chr_code (char_of n) = n"
  by (simp add: chr_code_def)

lemma digit_char: "d < 10 \<Longrightarrow> c_isdigit (char_of (48 + d)) \<and> digit_val (char_of (48 + d)) = d"
  by (simp add: c_isdigit_def digit_val_def chr_code_char_of)

lemma show_nat_digits: "c \<in> set (show_nat n) \<Longrightarrow> c_isdigit c"
proof (induction n rule: show_nat.induct)
  case (1 n)
  then show ?case
    using digit_char [of n] digit_char [of "n mod 10"]
    by (subst (asm) (2) show_nat.simps) (auto split: if_splits)
qed

lemma show_nat_nonempty: "show_nat n \<noteq> []"
  by (subst show_nat.simps) simp

lemma dec_nat_snoc: "dec_nat (s @ [c]) = 10 * dec_nat s + digit_val c"
  by (simp add: dec_nat_def)

lemma dec_nat_show_nat: "dec_nat (show_nat n) = n"
proof (induction n rule: show_nat.induct)
  case (1 n)
  then show ?case
    using digit_char [of n] digit_char [of "n mod 10"]
    by (subst show_nat.simps) (auto simp: dec_nat_snoc, simp add: dec_nat_def)
qed

lemma digit_not_sign: "c_isdigit c \<Longrightarrow> c \<noteq> CHR ''-'' \<and> c \<noteq> CHR ''+'' \<and> \<not> c_isspace c"
  by (auto simp: c_isdigit_def c_isspace_def chr_code_def)

lemma show_nat_hd: "\<exists>c cs. show_nat n = c # cs \<and> c_isdigit c"
  using show_nat_nonempty [of n] show_nat_digits [of _ n] by (cases "show_nat n") auto

lemma takeWhile_show_nat: "takeWhile c_isdigit (show_nat n) = show_nat n"
  using show_nat_digits by (simp add: takeWhile_eq_all_conv)

lemma to_int32_id: "- (2 ^ 31) \<le> i \<Longrightarrow> i < 2 ^ 31 \<Longrightarrow> to_int32 (clamp_long i) = i"
  by (simp add: to_int32_def clamp_long_def)

lemma minus_not_space: "\<not> c_isspace CHR ''-''"
  by (simp add: c_isspace_def chr_code_def)

lemma atoi_show_int:
  assumes "- (2 ^ 31) \<le> i" and "i < 2 ^ 31"
  shows "atoi (show_int i) = i"
proof (cases "i < 0")
  case True
  have "atoi (show_int i) = to_int32 (clamp_long (- int (nat (- i))))"
    using True
    by (simp add: atoi_def show_int_def strip_sign_def minus_not_space takeWhile_show_nat dec_nat_show_nat)
  then show ?thesis using True assms to_int32_id [of i] by simp
next
  case False
  obtain c cs where s: "show_nat (nat i) = c # cs" and d: "c_isdigit c"
    using show_nat_hd by blast
  have tw: "takeWhile c_isdigit cs = cs"
    using takeWhile_show_nat [of "nat i"] by (simp add: s d)
  have "atoi (show_int i) = to_int32 (clamp_long (int (nat i)))"
    using False digit_not_sign [OF d] dec_nat_show_nat [of "nat i"]
    by (simp add: atoi_def show_int_def strip_sign_def s d Let_def tw)
  then show ?thesis using False assms to_int32_id [of i] by simp
qed

end
