(* ===== verification/RibParser.thy ===== *)
theory RibParser
  imports CLib
begin

text \<open>
  The RIB front end: \<open>Tokenizer\<close> (\<open>RI_System/src/Tokenizer.h, .cpp\<close>), \<open>RI::Param\<close> and
  \<open>RI::Parser\<close>, and the character loop of \<open>Render::readArchive\<close>. The tokenizer is the state
  machine of the code, one character at a time; the data fields it leaves behind from earlier
  tokens are kept, because the code can read them.
\<close>

section \<open>Character and string classes\<close>

definition isWhite :: "char \<Rightarrow> bool" where
  "isWhite ch = (ch = CHR '' '' \<or> ch = CHR 0x09 \<or> ch = CHR 0x0A \<or> ch = CHR 0x0D \<or> ch = CHR 0x0C)"

definition isNewLine :: "char \<Rightarrow> bool" where
  "isNewLine ch = (ch = CHR 0x0A \<or> ch = CHR 0x0D \<or> ch = CHR 0x0C)"

definition isFloatStr :: "string \<Rightarrow> bool" where
  "isFloatStr s =
     (if CHR ''.'' \<in> set s \<or> CHR ''f'' \<in> set s \<or> CHR ''F'' \<in> set s \<or> CHR ''d'' \<in> set s
         \<or> CHR ''D'' \<in> set s \<or> CHR ''e'' \<in> set s \<or> CHR ''E'' \<in> set s
      then sscanf_lf s else False)"

definition isStringStr :: "string \<Rightarrow> bool" where
  "isStringStr s = (2 \<le> length s \<and> hd s = CHR 0x22 \<and> s ! (length s - 1) = CHR 0x22)"

fun isIntStr :: "string \<Rightarrow> bool" where
  "isIntStr [] = True"
| "isIntStr (ch # cs) =
     (if \<not> (c_isdigit ch \<or> ch = CHR ''-'' \<or> ch = CHR ''+'') then False else isIntStr cs)"

text \<open>\<open>char\<close> is signed on the target, so a code above 127 is below \<open>'_'\<close>.\<close>

definition isAlphanumStr :: "string \<Rightarrow> bool" where
  "isAlphanumStr s =
     (case s of [] \<Rightarrow> False
      | c # _ \<Rightarrow>
        (97 \<le> chr_code c \<and> chr_code c \<le> 122) \<or> (65 \<le> chr_code c \<and> chr_code c \<le> 90)
        \<or> (95 \<le> chr_code c \<and> chr_code c \<le> 127))"

section \<open>The tokenizer\<close>

datatype StateEnum = UNKNOWN | NORMAL | STRING | ARRAY

datatype DataType =
    DT_NONE | DT_ALPHANUMERIC | DT_INT | DT_FLOAT | DT_STRING | DT_INT_ARRAY | DT_FLOAT_ARRAY
  | DT_STRING_ARRAY

text \<open>\<open>mArrayType\<close>, a \<open>char\<close> that is 0, \<open>'s'\<close>, \<open>'f'\<close> or \<open>'i'\<close>.\<close>

datatype ArrayType = AT_0 | AT_s | AT_f | AT_i

record Tokenizer =
  mState :: StateEnum
  mStateInComment :: bool
  mStateCommentStarted :: bool
  mLineNumber :: int
  mDataInt :: int
  mDataFloat :: flt
  mDataString :: string
  mDataAlphanum :: string
  mFloatArray :: "flt list"
  mIntArray :: "int list"
  mStringArray :: "string list"
  mArrayType :: ArrayType
  mIsArrayOfQuotedStrings :: bool
  mIsInArrayItemQuotedString :: bool
  mCurToken :: string
  mDataType :: DataType

definition GetDataTypeName :: "DataType \<Rightarrow> string" where
  "GetDataTypeName dtype =
     (case dtype of DT_NONE \<Rightarrow> ''NONE'' | DT_ALPHANUMERIC \<Rightarrow> ''ALPHANUMERIC'' | DT_INT \<Rightarrow> ''INT''
      | DT_FLOAT \<Rightarrow> ''FLOAT'' | DT_STRING \<Rightarrow> ''STRING'' | DT_INT_ARRAY \<Rightarrow> ''INT_ARRAY''
      | DT_FLOAT_ARRAY \<Rightarrow> ''FLOAT_ARRAY'' | DT_STRING_ARRAY \<Rightarrow> ''STRING_ARRAY'')"

definition ResetState :: "Tokenizer \<Rightarrow> Tokenizer" where
  "ResetState t = t\<lparr>mState := UNKNOWN, mStateInComment := False, mStateCommentStarted := False,
     mCurToken := '''', mArrayType := AT_0, mIsArrayOfQuotedStrings := False,
     mIsInArrayItemQuotedString := False\<rparr>"

text \<open>
  The constructor; \<open>mDataType\<close>, \<open>mDataInt\<close> and \<open>mDataFloat\<close> are not initialised, their
  indeterminate values are the arguments.
\<close>

definition Tokenizer_new :: "DataType \<Rightarrow> int \<Rightarrow> flt \<Rightarrow> Tokenizer" where
  "Tokenizer_new dtype i f =
     \<lparr>mState = UNKNOWN, mStateInComment = False, mStateCommentStarted = False, mLineNumber = 1,
      mDataInt = i, mDataFloat = f, mDataString = '''', mDataAlphanum = '''', mFloatArray = [],
      mIntArray = [], mStringArray = [], mArrayType = AT_0, mIsArrayOfQuotedStrings = False,
      mIsInArrayItemQuotedString = False, mCurToken = '''', mDataType = dtype\<rparr>"

definition setDataType :: "Tokenizer \<Rightarrow> Tokenizer" where
  "setDataType t =
     (let t' =
       (case mState t of
          UNKNOWN \<Rightarrow> t\<lparr>mDataType := DT_NONE\<rparr>
        | NORMAL \<Rightarrow>
            if isIntStr (mCurToken t) then t\<lparr>mDataInt := atoi (mCurToken t), mDataType := DT_INT\<rparr>
            else if isFloatStr (mCurToken t)
            then t\<lparr>mDataFloat := atof (mCurToken t), mDataType := DT_FLOAT\<rparr>
            else if isAlphanumStr (mCurToken t)
            then t\<lparr>mDataAlphanum := mCurToken t, mDataType := DT_ALPHANUMERIC\<rparr>
            else t\<lparr>mDataType := DT_NONE\<rparr>
        | ARRAY \<Rightarrow>
            (case mArrayType t of
               AT_f \<Rightarrow> t\<lparr>mDataType := DT_FLOAT_ARRAY\<rparr>
             | AT_i \<Rightarrow> t\<lparr>mDataType := DT_INT_ARRAY\<rparr>
             | AT_s \<Rightarrow> t\<lparr>mDataType := DT_STRING_ARRAY\<rparr>
             | AT_0 \<Rightarrow> t)
        | STRING \<Rightarrow> t\<lparr>mDataType := DT_STRING\<rparr>)
      in t'\<lparr>mCurToken := ''''\<rparr>)"

definition changeToFloatArray :: "Tokenizer \<Rightarrow> Tokenizer" where
  "changeToFloatArray t =
     t\<lparr>mArrayType := AT_f, mFloatArray := map flt_of_int (mIntArray t)\<rparr>"

text \<open>One finished item of an array: the block under \<open>mCurToken.length() != 0\<close>.\<close>

definition mix_error :: exn where
  "mix_error = AssThrow ''Cannot mix strings with numerical values in arrays''"

definition array_item_type :: "Tokenizer \<Rightarrow> unit res \<times> Tokenizer" where
  "array_item_type t =
     (if isStringStr (mCurToken t) then
        let t = (if mArrayType t = AT_0 then t\<lparr>mArrayType := AT_s\<rparr> else t)
        in if mArrayType t \<noteq> AT_s then (Inl mix_error, t) else (Inr (), t)
      else if isFloatStr (mCurToken t) then
        let t = (if mArrayType t = AT_0 then t\<lparr>mArrayType := AT_f\<rparr> else t)
        in (Inr (), if mArrayType t \<noteq> AT_f then changeToFloatArray t else t)
      else (Inr (), if mArrayType t = AT_0 then t\<lparr>mArrayType := AT_i\<rparr> else t))"

definition array_item_push :: "Tokenizer \<Rightarrow> Tokenizer" where
  "array_item_push t =
     (let t = (case mArrayType t of
                 AT_f \<Rightarrow> t\<lparr>mFloatArray := mFloatArray t @ [atof (mCurToken t)]\<rparr>
               | AT_i \<Rightarrow> t\<lparr>mIntArray := mIntArray t @ [atoi (mCurToken t)]\<rparr>
               | AT_s \<Rightarrow> t\<lparr>mStringArray := mStringArray t @ [mCurToken t]\<rparr>
               | AT_0 \<Rightarrow> t)
      in t\<lparr>mCurToken := ''''\<rparr>)"

definition inputHandleArray :: "char \<Rightarrow> Tokenizer \<Rightarrow> bool res \<times> Tokenizer" where
  "inputHandleArray ch t =
     (let isEndOfArray = (ch = CHR '']'') in
      if ch = CHR 0x22 then
        if mIsInArrayItemQuotedString t then
          let t = t\<lparr>mIsInArrayItemQuotedString := False\<rparr> in
          if mArrayType t \<noteq> AT_0 \<and> mArrayType t \<noteq> AT_s then (Inl mix_error, t) else (Inr False, t)
        else (Inr False, t\<lparr>mIsInArrayItemQuotedString := True, mArrayType := AT_s\<rparr>)
      else if mIsInArrayItemQuotedString t then (Inr False, t\<lparr>mCurToken := mCurToken t @ [ch]\<rparr>)
      else if isWhite ch \<or> isEndOfArray then
        let t = (if ch = CHR 0x0A then t\<lparr>mLineNumber := mLineNumber t + 1\<rparr> else t) in
        (case (if mCurToken t \<noteq> '''' then
                 (case array_item_type t of (Inl e, t) \<Rightarrow> (Inl e, t)
                  | (Inr _, t) \<Rightarrow> (Inr (), array_item_push t))
               else (Inr (), t)) of
           (Inl e, t) \<Rightarrow> (Inl e, t)
         | (Inr _, t) \<Rightarrow> if isEndOfArray then (Inr True, setDataType t) else (Inr False, t))
      else (Inr False, t\<lparr>mCurToken := mCurToken t @ [ch]\<rparr>))"

definition tokenizer_step :: "char \<Rightarrow> Tokenizer \<Rightarrow> bool res \<times> Tokenizer" where
  "tokenizer_step ch t =
     (if mStateInComment t then
        let t = (if isNewLine ch
                 then (if ch = CHR 0x0A then t\<lparr>mLineNumber := mLineNumber t + 1\<rparr> else t)
                        \<lparr>mStateInComment := False\<rparr>
                 else t)
        in (Inr False, t\<lparr>mStateCommentStarted := False\<rparr>)
      else
        (case mState t of
           UNKNOWN \<Rightarrow>
             if ch = CHR 0x22 then (Inr False, setDataType (t\<lparr>mState := STRING\<rparr>))
             else if ch = CHR ''['' then
               (Inr False, t\<lparr>mFloatArray := [], mIntArray := [], mStringArray := [], mState := ARRAY,
                  mArrayType := AT_0\<rparr>)
             else if \<not> isWhite ch then
               (Inr False, t\<lparr>mState := NORMAL, mCurToken := mCurToken t @ [ch]\<rparr>)
             else (Inr False, if ch = CHR 0x0A then t\<lparr>mLineNumber := mLineNumber t + 1\<rparr> else t)
         | NORMAL \<Rightarrow>
             if isWhite ch then
               (Inr True, setDataType (if ch = CHR 0x0A then t\<lparr>mLineNumber := mLineNumber t + 1\<rparr> else t))
             else (Inr False, t\<lparr>mCurToken := mCurToken t @ [ch]\<rparr>)
         | STRING \<Rightarrow>
             if ch = CHR 0x22 then (Inr True, setDataType (t\<lparr>mDataString := mCurToken t\<rparr>))
             else (Inr False, t\<lparr>mCurToken := mCurToken t @ [ch]\<rparr>)
         | ARRAY \<Rightarrow> inputHandleArray ch t))"

definition Tokenizer_AddChar :: "char \<Rightarrow> Tokenizer \<Rightarrow> bool res \<times> Tokenizer" where
  "Tokenizer_AddChar ch t =
     (if mState t \<noteq> STRING \<and> \<not> mIsInArrayItemQuotedString t \<and> ch = CHR ''#'' then
        if mStateInComment t then
          if mStateCommentStarted t
          then (Inr False, t\<lparr>mStateInComment := False, mStateCommentStarted := False\<rparr>)
          else tokenizer_step ch t
        else (Inr False, t\<lparr>mStateInComment := True, mStateCommentStarted := False\<rparr>)
      else tokenizer_step ch t)"

section \<open>Parameters\<close>

datatype ParamType = P_UNKNOWN | P_INT | P_FLT | P_STR | P_INT_ARR | P_FLT_ARR | P_STR_ARR

text \<open>\<open>intVal\<close> and \<open>floatVal\<close> are not initialised by the constructor: \<open>None\<close> until assigned.\<close>

record Param =
  ptype :: ParamType
  intVal :: "int option"
  floatVal :: "flt option"
  stringVal :: string
  intArrayVal :: "int list"
  floatArrayVal :: "flt list"
  stringArrayVal :: "string list"

definition Param_new :: Param where
  "Param_new = \<lparr>ptype = P_UNKNOWN, intVal = None, floatVal = None, stringVal = '''',
     intArrayVal = [], floatArrayVal = [], stringArrayVal = []\<rparr>"

definition badType :: exn where
  "badType = AssThrow ''Bad Type !!''"

definition vec_at0 :: "'a list \<Rightarrow> 'a res" where
  "vec_at0 xs = (case xs of [] \<Rightarrow> Inl (Undefined_behaviour ''element 0 of an empty vector'') | x # _ \<Rightarrow> Inr x)"

definition uninit :: "'a option \<Rightarrow> 'a res" where
  "uninit v = (case v of None \<Rightarrow> Inl (Undefined_behaviour ''uninitialised value'') | Some x \<Rightarrow> Inr x)"

definition Param_Int :: "Param \<Rightarrow> int res" where
  "Param_Int p =
     (if ptype p = P_INT then uninit (intVal p)
      else if ptype p = P_INT_ARR then vec_at0 (intArrayVal p)
      else Inl badType)"

definition Param_Flt :: "Param \<Rightarrow> flt res" where
  "Param_Flt p =
     (if ptype p = P_FLT then uninit (floatVal p)
      else if ptype p = P_INT then res_bind (uninit (intVal p)) (\<lambda>i. Inr (flt_of_int i))
      else if ptype p = P_FLT_ARR then vec_at0 (floatArrayVal p)
      else if ptype p = P_INT_ARR then res_bind (vec_at0 (intArrayVal p)) (\<lambda>i. Inr (flt_of_int i))
      else Inl badType)"

text \<open>The argument \<open>n\<close> defaults to \<open>DNPOS\<close>, here \<open>None\<close>.\<close>

definition ensIntArr :: "nat option \<Rightarrow> Param \<Rightarrow> unit res" where
  "ensIntArr n p =
     (if ptype p \<noteq> P_INT_ARR \<and> (n = None \<or> n = Some (length (intArrayVal p))) then Inl badType else Inr ())"

definition ensFltArr :: "nat option \<Rightarrow> Param \<Rightarrow> unit res" where
  "ensFltArr n p =
     (if ptype p \<noteq> P_FLT_ARR \<and> (n = None \<or> n = Some (length (floatArrayVal p))) then Inl badType else Inr ())"

text \<open>
  \<open>resize\<close> keeps the elements that fit and appends zeros; the loop that follows stores one
  element per integer, past the end when \<open>n\<close> is smaller.
\<close>

definition resize_flt :: "nat \<Rightarrow> flt list \<Rightarrow> flt list" where
  "resize_flt n xs = take n xs @ replicate (n - length xs) (Fin 0)"

definition NumVec :: "nat option \<Rightarrow> Param \<Rightarrow> flt list res \<times> Param" where
  "NumVec n p =
     (if ptype p = P_FLT_ARR then
        (case (if n \<noteq> None then ensFltArr n p else Inr ()) of
           Inl e \<Rightarrow> (Inl e, p) | Inr _ \<Rightarrow> (Inr (floatArrayVal p), p))
      else if ptype p = P_INT_ARR then
        (case (if n \<noteq> None then ensIntArr n p else Inr ()) of
           Inl e \<Rightarrow> (Inl e, p)
         | Inr _ \<Rightarrow>
             let m = (case n of None \<Rightarrow> length (intArrayVal p) | Some k \<Rightarrow> k) in
             if length (floatArrayVal p) \<noteq> m then
               if m < length (intArrayVal p)
               then (Inl (Undefined_behaviour ''write past the end of floatArrayVal''), p)
               else
                 let p' = p\<lparr>floatArrayVal :=
                        map flt_of_int (intArrayVal p)
                        @ drop (length (intArrayVal p)) (resize_flt m (floatArrayVal p))\<rparr>
                 in (Inr (floatArrayVal p'), p')
             else (Inr (floatArrayVal p), p))
      else (Inl badType, p))"

definition PChar :: "Param \<Rightarrow> string res" where
  "PChar p =
     (if ptype p = P_STR then Inr (stringVal p)
      else if ptype p = P_STR_ARR then vec_at0 (stringArrayVal p)
      else Inl badType)"

definition IsString :: "Param \<Rightarrow> bool" where
  "IsString p = (ptype p = P_STR \<or> ptype p = P_STR_ARR)"

definition IsIntVal :: "Param \<Rightarrow> bool" where
  "IsIntVal p = (ptype p = P_INT \<or> ptype p = P_INT_ARR)"

definition ParamList_Add_str :: "string \<Rightarrow> Param list \<Rightarrow> Param list" where
  "ParamList_Add_str s ps = ps @ [Param_new\<lparr>ptype := P_STR, stringVal := s\<rparr>]"

definition ParamList_Add_flt :: "flt \<Rightarrow> Param list \<Rightarrow> Param list" where
  "ParamList_Add_flt v ps = ps @ [Param_new\<lparr>ptype := P_FLT, floatVal := Some v\<rparr>]"

definition ParamList_Add_int :: "int \<Rightarrow> Param list \<Rightarrow> Param list" where
  "ParamList_Add_int v ps = ps @ [Param_new\<lparr>ptype := P_INT, intVal := Some v\<rparr>]"

text \<open>
  \<open>FindParam\<close> steps over name and value pairs; the result is the index of the value, or -1
  when there is none or its type is wrong.
\<close>

fun FindParam_loop :: "string \<Rightarrow> ParamType \<Rightarrow> ParamType \<Rightarrow> nat \<Rightarrow> Param list \<Rightarrow> int res" where
  "FindParam_loop name ty alt i (k # v # ps) =
     res_bind (PChar k) (\<lambda>s.
       if strcasecmp_eq name s
       then Inr (if ptype v = ty \<or> ptype v = alt then int i + 1 else - 1)
       else FindParam_loop name ty alt (i + 2) ps)"
| "FindParam_loop name ty alt i _ = Inr (- 1)"

definition FindParam :: "string \<Rightarrow> ParamType \<Rightarrow> ParamType \<Rightarrow> nat \<Rightarrow> Param list \<Rightarrow> int res" where
  "FindParam name ty alt fromIdx ps = FindParam_loop name ty alt fromIdx (drop fromIdx ps)"

section \<open>The parser\<close>

record Parser =
  mpTokenizer :: Tokenizer
  mNextCommand :: string
  mNextCommandLine :: int
  mCurCommand :: string
  mCurCommandLine :: int
  mCurParams :: "Param list"
  mReachedEOF :: bool

definition Parser_new :: "Tokenizer \<Rightarrow> Parser" where
  "Parser_new t = \<lparr>mpTokenizer = t, mNextCommand = '''', mNextCommandLine = 0, mCurCommand = '''',
     mCurCommandLine = 0, mCurParams = [], mReachedEOF = False\<rparr>"

definition HasNewCommand :: "Parser \<Rightarrow> bool" where
  "HasNewCommand p = (length (mCurCommand p) \<noteq> 0)"

text \<open>The parameter the parser appends for a finished token that is not a name.\<close>

definition param_of_token :: "Tokenizer \<Rightarrow> Param" where
  "param_of_token t =
     (case mDataType t of
        DT_INT \<Rightarrow> Param_new\<lparr>ptype := P_INT, intVal := Some (mDataInt t)\<rparr>
      | DT_FLOAT \<Rightarrow> Param_new\<lparr>ptype := P_FLT, floatVal := Some (mDataFloat t)\<rparr>
      | DT_STRING \<Rightarrow> Param_new\<lparr>ptype := P_STR, stringVal := mDataString t\<rparr>
      | DT_INT_ARRAY \<Rightarrow> Param_new\<lparr>ptype := P_INT_ARR, intArrayVal := mIntArray t\<rparr>
      | DT_FLOAT_ARRAY \<Rightarrow> Param_new\<lparr>ptype := P_FLT_ARR, floatArrayVal := mFloatArray t\<rparr>
      | DT_STRING_ARRAY \<Rightarrow> Param_new\<lparr>ptype := P_STR_ARR, stringArrayVal := mStringArray t\<rparr>
      | _ \<Rightarrow> Param_new)"

definition Parser_AddChar :: "char \<Rightarrow> Parser \<Rightarrow> unit res \<times> Parser" where
  "Parser_AddChar ch p =
     (if ch = CHR 0x00 then
        let p = p\<lparr>mCurCommand := mNextCommand p, mCurCommandLine := mNextCommandLine p\<rparr> in
        (case Tokenizer_AddChar (CHR 0x0A) (mpTokenizer p) of
           (Inl e, t) \<Rightarrow> (Inl e, p\<lparr>mpTokenizer := t\<rparr>)
         | (Inr found, t) \<Rightarrow>
             let p = p\<lparr>mpTokenizer := t\<rparr> in
             (Inr (), (if found
                then p\<lparr>mNextCommand := mDataAlphanum t, mNextCommandLine := mLineNumber t\<rparr>
                else p\<lparr>mNextCommand := '''', mNextCommandLine := - 1\<rparr>)\<lparr>mReachedEOF := True\<rparr>))
      else
        (case Tokenizer_AddChar ch (mpTokenizer p) of
           (Inl e, t) \<Rightarrow> (Inl e, p\<lparr>mpTokenizer := t\<rparr>)
         | (Inr foundToken, t) \<Rightarrow>
             let p = p\<lparr>mpTokenizer := t\<rparr> in
             if \<not> foundToken then (Inr (), p)
             else
               (Inr (), (if mDataType t = DT_ALPHANUMERIC
                  then p\<lparr>mCurCommand := mNextCommand p, mCurCommandLine := mNextCommandLine p,
                         mNextCommand := mDataAlphanum t, mNextCommandLine := mLineNumber t\<rparr>
                  else p\<lparr>mCurParams := mCurParams p @ [param_of_token t]\<rparr>)
                 \<lparr>mpTokenizer := ResetState t\<rparr>)))"

type_synonym command = "string \<times> Param list \<times> int"

definition FlushNewCommand :: "Parser \<Rightarrow> command \<times> Parser" where
  "FlushNewCommand p =
     ((mCurCommand p, mCurParams p, mCurCommandLine p),
      if mReachedEOF p
      then p\<lparr>mCurParams := [], mCurCommand := mNextCommand p, mCurCommandLine := mNextCommandLine p,
             mNextCommand := '''', mNextCommandLine := - 1\<rparr>
      else p\<lparr>mCurParams := [], mCurCommand := ''''\<rparr>)"

definition GetCurLineNumber :: "Parser \<Rightarrow> int" where
  "GetCurLineNumber p = mLineNumber (mpTokenizer p)"

section \<open>The character loop\<close>

text \<open>
  \<open>Render::readArchive\<close> feeds the characters and then a null, and after each runs the commands
  that are complete. The commands are collected here in the order they are run; an exception
  of the tokenizer ends the archive, those of a command are caught by the loop.
\<close>

function run_commands :: "Parser \<Rightarrow> command list \<times> Parser" where
  "run_commands p =
     (if HasNewCommand p then
        (case FlushNewCommand p of (c, p') \<Rightarrow> case run_commands p' of (cs, q) \<Rightarrow> (c # cs, q))
      else ([], p))"
  by pat_completeness auto

termination
  by (relation "measure (\<lambda>p. (if HasNewCommand p then 1 else 0)
        + (if mReachedEOF p \<and> mNextCommand p \<noteq> '''' then 1 else 0))")
    (auto simp: FlushNewCommand_def HasNewCommand_def split: if_splits)

declare run_commands.simps [simp del]

fun feed :: "string \<Rightarrow> Parser \<Rightarrow> command list \<times> unit res \<times> Parser" where
  "feed [] p = ([], Inr (), p)"
| "feed (ch # chs) p =
     (case Parser_AddChar ch p of
        (Inl e, p') \<Rightarrow> ([], Inl e, p')
      | (Inr _, p') \<Rightarrow>
          case run_commands p' of (cs, p'') \<Rightarrow>
          case feed chs p'' of (ds, r, q) \<Rightarrow> (cs @ ds, r, q))"

definition readArchive :: "Tokenizer \<Rightarrow> string \<Rightarrow> command list \<times> unit res" where
  "readArchive t file_data =
     (case feed (file_data @ [CHR 0x00]) (Parser_new t) of (cs, r, _) \<Rightarrow> (cs, r))"

section \<open>Feeding characters that finish no token\<close>

fun quiet :: "string \<Rightarrow> Tokenizer \<Rightarrow> Tokenizer option" where
  "quiet [] t = Some t"
| "quiet (c # cs) t =
     (case Tokenizer_AddChar c t of (Inr False, t') \<Rightarrow> quiet cs t' | _ \<Rightarrow> None)"

lemma quiet_append: "quiet (u @ v) t = (case quiet u t of None \<Rightarrow> None | Some t' \<Rightarrow> quiet v t')"
  by (induction u arbitrary: t) (auto split: prod.splits sum.splits bool.splits)

lemma quiet_appendI: "quiet u t = Some t' \<Longrightarrow> quiet v t' = Some t'' \<Longrightarrow> quiet (u @ v) t = Some t''"
  by (simp add: quiet_append)

lemma run_commands_none [simp]: "mCurCommand p = '''' \<Longrightarrow> run_commands p = ([], p)"
  by (simp add: run_commands.simps HasNewCommand_def)

lemma feed_quiet:
  "quiet w (mpTokenizer p) = Some t \<Longrightarrow> CHR 0x00 \<notin> set w \<Longrightarrow> mCurCommand p = '''' \<Longrightarrow>
   feed (w @ rest) p = feed rest (p\<lparr>mpTokenizer := t\<rparr>)"
proof (induction w arbitrary: p)
  case Nil
  then show ?case by (cases p) auto
next
  case (Cons c w)
  then obtain t' where a: "Tokenizer_AddChar c (mpTokenizer p) = (Inr False, t')"
    and q: "quiet w t' = Some t"
    by (auto split: prod.splits sum.splits bool.splits)
  have "Parser_AddChar c p = (Inr (), p\<lparr>mpTokenizer := t'\<rparr>)"
    using Cons.prems a by (auto simp: Parser_AddChar_def Let_def)
  then show ?case
    using Cons.prems Cons.IH [of "p\<lparr>mpTokenizer := t'\<rparr>"] q by (simp split: prod.splits)
qed

lemma feed_argument:
  assumes "Tokenizer_AddChar c (mpTokenizer p) = (Inr True, t)" and "c \<noteq> CHR 0x00"
    and "mDataType t \<noteq> DT_ALPHANUMERIC" and "mCurCommand p = ''''"
  shows "feed (c # rest) p =
    feed rest (p\<lparr>mCurParams := mCurParams p @ [param_of_token t], mpTokenizer := ResetState t\<rparr>)"
  using assms by (simp add: Parser_AddChar_def Let_def split: prod.splits)

text \<open>A finished name makes the pending command current; the loop runs it at once.\<close>

definition pending :: "Parser \<Rightarrow> command list" where
  "pending p = (if mNextCommand p = '''' then []
     else [(mNextCommand p, mCurParams p, mNextCommandLine p)])"

lemma feed_name:
  assumes "Tokenizer_AddChar c (mpTokenizer p) = (Inr True, t)" and "c \<noteq> CHR 0x00"
    and "mDataType t = DT_ALPHANUMERIC" and "mReachedEOF p = False"
    and "mNextCommand p = '''' \<Longrightarrow> mCurParams p = []"
  shows "\<exists>l. feed (c # rest) p =
    (case feed rest (p\<lparr>mCurCommand := '''', mCurCommandLine := l, mNextCommand := mDataAlphanum t,
         mNextCommandLine := mLineNumber t, mCurParams := [], mpTokenizer := ResetState t\<rparr>) of
       (ds, r, q) \<Rightarrow> (pending p @ ds, r, q))"
proof -
  define p' where "p' = p\<lparr>mCurCommand := mNextCommand p, mCurCommandLine := mNextCommandLine p,
     mNextCommand := mDataAlphanum t, mNextCommandLine := mLineNumber t, mpTokenizer := ResetState t\<rparr>"
  have a: "Parser_AddChar c p = (Inr (), p')"
    using assms by (simp add: Parser_AddChar_def Let_def p'_def)
  have "run_commands p' = (pending p, p'\<lparr>mCurCommand := '''', mCurParams := []\<rparr>)"
  proof (cases "mNextCommand p = ''''")
    case True
    then show ?thesis
      using assms(5) by (simp add: p'_def pending_def run_commands.simps HasNewCommand_def)
  next
    case False
    then show ?thesis
      using assms(4)
      by (subst run_commands.simps) (simp add: p'_def pending_def HasNewCommand_def FlushNewCommand_def)
  qed
  then have "feed (c # rest) p = (case feed rest (p'\<lparr>mCurCommand := '''', mCurParams := []\<rparr>) of
       (ds, r, q) \<Rightarrow> (pending p @ ds, r, q))"
    by (simp add: a)
  moreover have "p'\<lparr>mCurCommand := '''', mCurParams := []\<rparr> =
      p\<lparr>mCurCommand := '''', mCurCommandLine := mNextCommandLine p, mNextCommand := mDataAlphanum t,
        mNextCommandLine := mLineNumber t, mCurParams := [], mpTokenizer := ResetState t\<rparr>"
    by (simp add: p'_def)
  ultimately show ?thesis by metis
qed

section \<open>Token texts\<close>

definition plain_char :: "char \<Rightarrow> bool" where
  "plain_char c = (\<not> isWhite c \<and> c \<noteq> CHR ''#'' \<and> c \<noteq> CHR 0x22 \<and> c \<noteq> CHR ''['' \<and> c \<noteq> CHR '']''
     \<and> c \<noteq> CHR 0x00)"

definition plain :: "string \<Rightarrow> bool" where
  "plain w = (w \<noteq> [] \<and> list_all plain_char w)"

text \<open>The tokenizer between tokens.\<close>

definition idle :: "Tokenizer \<Rightarrow> bool" where
  "idle t = (mState t = UNKNOWN \<and> \<not> mStateInComment t \<and> \<not> mStateCommentStarted t \<and> mCurToken t = ''''
     \<and> mArrayType t = AT_0 \<and> \<not> mIsInArrayItemQuotedString t)"

lemma idle_ResetState [simp]: "idle (ResetState t)"
  by (simp add: idle_def ResetState_def)

lemma idle_new [simp]: "idle (Tokenizer_new d i f)"
  by (simp add: idle_def Tokenizer_new_def)

lemma quiet_normal:
  assumes "mState t = NORMAL" and "\<not> mStateInComment t" and "list_all plain_char w"
  shows "quiet w t = Some (t\<lparr>mCurToken := mCurToken t @ w\<rparr>)"
  using assms
proof (induction w arbitrary: t)
  case (Cons c w)
  then have "Tokenizer_AddChar c t = (Inr False, t\<lparr>mCurToken := mCurToken t @ [c]\<rparr>)"
    by (simp add: Tokenizer_AddChar_def tokenizer_step_def plain_char_def)
  with Cons show ?case by simp
qed simp

lemma quiet_word:
  assumes "idle t" and "plain w"
  shows "quiet w t = Some (t\<lparr>mState := NORMAL, mCurToken := w\<rparr>)"
proof -
  obtain c cs where w: "w = c # cs" and c: "plain_char c" and cs: "list_all plain_char cs"
    using assms(2) by (cases w) (auto simp: plain_def)
  have "Tokenizer_AddChar c t = (Inr False, t\<lparr>mState := NORMAL, mCurToken := [c]\<rparr>)"
    using assms(1) c by (simp add: Tokenizer_AddChar_def tokenizer_step_def plain_char_def idle_def)
  then show ?thesis
    using quiet_normal [of "t\<lparr>mState := NORMAL, mCurToken := [c]\<rparr>" cs] assms(1) cs
    by (simp add: w idle_def)
qed

lemma blank_step: "idle t \<Longrightarrow> quiet '' '' t = Some t"
  by (simp add: Tokenizer_AddChar_def tokenizer_step_def isWhite_def idle_def)

lemma newline_step: "idle t \<Longrightarrow> quiet [CHR 0x0A] t = Some (t\<lparr>mLineNumber := mLineNumber t + 1\<rparr>)"
  by (simp add: Tokenizer_AddChar_def tokenizer_step_def isWhite_def idle_def)

lemma plain_no_nul: "plain w \<Longrightarrow> CHR 0x00 \<notin> set w"
  by (auto simp: plain_def plain_char_def list_all_iff)

lemma word_end:
  assumes "idle t" and "plain w"
  shows "Tokenizer_AddChar CHR '' '' (t\<lparr>mState := NORMAL, mCurToken := w\<rparr>)
    = (Inr True, setDataType (t\<lparr>mState := NORMAL, mCurToken := w\<rparr>))"
  using assms by (simp add: Tokenizer_AddChar_def tokenizer_step_def isWhite_def idle_def)

lemma quiet_string:
  assumes "mState t = STRING" and "\<not> mStateInComment t" and "CHR 0x22 \<notin> set w"
  shows "quiet w t = Some (t\<lparr>mCurToken := mCurToken t @ w\<rparr>)"
  using assms
proof (induction w arbitrary: t)
  case (Cons c w)
  then have "Tokenizer_AddChar c t = (Inr False, t\<lparr>mCurToken := mCurToken t @ [c]\<rparr>)"
    by (auto simp: Tokenizer_AddChar_def tokenizer_step_def)
  with Cons show ?case by simp
qed simp

lemma quiet_quoted:
  assumes "mState t = ARRAY" and "\<not> mStateInComment t" and "mIsInArrayItemQuotedString t"
    and "CHR 0x22 \<notin> set w"
  shows "quiet w t = Some (t\<lparr>mCurToken := mCurToken t @ w\<rparr>)"
  using assms
proof (induction w arbitrary: t)
  case (Cons c w)
  then have "Tokenizer_AddChar c t = (Inr False, t\<lparr>mCurToken := mCurToken t @ [c]\<rparr>)"
    by (auto simp: Tokenizer_AddChar_def tokenizer_step_def inputHandleArray_def Let_def)
  with Cons show ?case by simp
qed simp

lemma quiet_array_word:
  assumes "mState t = ARRAY" and "\<not> mStateInComment t" and "\<not> mIsInArrayItemQuotedString t"
    and "list_all plain_char w"
  shows "quiet w t = Some (t\<lparr>mCurToken := mCurToken t @ w\<rparr>)"
  using assms
proof (induction w arbitrary: t)
  case (Cons c w)
  then have "Tokenizer_AddChar c t = (Inr False, t\<lparr>mCurToken := mCurToken t @ [c]\<rparr>)"
    by (simp add: Tokenizer_AddChar_def tokenizer_step_def inputHandleArray_def Let_def plain_char_def)
  with Cons show ?case by simp
qed simp

section \<open>Array items\<close>

text \<open>
  The tokenizer inside an array, between two items. Items of every kind obey one contract: the
  text of an item finishes no token, appends its value and leaves the tokenizer between items.
  From it follows what a whole sequence of items does.
\<close>

definition in_array :: "ArrayType \<Rightarrow> Tokenizer \<Rightarrow> bool" where
  "in_array ty t = (mState t = ARRAY \<and> \<not> mStateInComment t \<and> \<not> mIsInArrayItemQuotedString t
     \<and> mCurToken t = '''' \<and> (mArrayType t = AT_0 \<or> mArrayType t = ty))"

locale array_items =
  fixes itxt :: "'a \<Rightarrow> string"
    and ok :: "'a \<Rightarrow> bool"
    and push :: "'a \<Rightarrow> Tokenizer \<Rightarrow> Tokenizer"
    and ty :: ArrayType
  assumes item_text: "ok x \<Longrightarrow> in_array ty t \<Longrightarrow> quiet (itxt x) t = Some (push x t)"
    and item_stays: "ok x \<Longrightarrow> in_array ty t \<Longrightarrow> in_array ty (push x t)"
    and item_line: "mLineNumber (push x t) = mLineNumber t"
    and item_no_nul: "ok x \<Longrightarrow> CHR 0x00 \<notin> set (itxt x)"
begin

lemma items:
  "list_all ok xs \<Longrightarrow> in_array ty t \<Longrightarrow>
   quiet (concat (map itxt xs)) t = Some (fold push xs t) \<and> in_array ty (fold push xs t)"
  by (induction xs arbitrary: t) (auto simp: quiet_append item_text item_stays)

lemma items_line: "mLineNumber (fold push xs t) = mLineNumber t"
  by (induction xs arbitrary: t) (auto simp: item_line)

lemma items_no_nul: "list_all ok xs \<Longrightarrow> CHR 0x00 \<notin> set (concat (map itxt xs))"
  by (induction xs) (auto simp: item_no_nul)

end

lemma space_ends_item:
  assumes "mState t = ARRAY" and "\<not> mStateInComment t" and "\<not> mIsInArrayItemQuotedString t"
    and "mCurToken t \<noteq> ''''" and "array_item_type t = (Inr (), t')"
  shows "quiet '' '' t = Some (array_item_push t')"
  using assms
  by (simp add: Tokenizer_AddChar_def tokenizer_step_def inputHandleArray_def isWhite_def Let_def)

lemma isStringStr_no_quote: "CHR 0x22 \<notin> set w \<Longrightarrow> \<not> isStringStr w"
  by (cases w) (auto simp: isStringStr_def)

lemma plain_no_quote: "plain w \<Longrightarrow> CHR 0x22 \<notin> set w"
  by (auto simp: plain_def plain_char_def list_all_iff)

subsection \<open>Integers\<close>

definition int_ok :: "int \<Rightarrow> bool" where
  "int_ok i = (- (2 ^ 31) \<le> i \<and> i < 2 ^ 31)"

definition push_int :: "int \<Rightarrow> Tokenizer \<Rightarrow> Tokenizer" where
  "push_int i t = t\<lparr>mIntArray := mIntArray t @ [i], mArrayType := AT_i\<rparr>"

lemma show_int_chars: "c \<in> set (show_int i) \<Longrightarrow> c_isdigit c \<or> c = CHR ''-''"
  using show_nat_digits by (auto simp: show_int_def split: if_splits)

lemma plain_digit: "c_isdigit c \<Longrightarrow> plain_char c"
  by (auto simp: c_isdigit_def plain_char_def isWhite_def chr_code_def)

lemma plain_show_int [simp]: "plain (show_int i)"
proof -
  have "plain_char CHR ''-''" by (simp add: plain_char_def isWhite_def)
  then show ?thesis
    using show_nat_digits [THEN plain_digit] show_nat_nonempty
    by (auto simp: plain_def list_all_iff show_int_def)
qed

lemma isIntStr_iff: "isIntStr w \<longleftrightarrow> (\<forall>c\<in>set w. c_isdigit c \<or> c = CHR ''-'' \<or> c = CHR ''+'')"
  by (induction w) auto

lemma isIntStr_show_int [simp]: "isIntStr (show_int i)"
  using show_int_chars by (auto simp: isIntStr_iff)

lemma isIntStr_not_float: "isIntStr w \<Longrightarrow> \<not> isFloatStr w"
  by (auto simp: isIntStr_iff isFloatStr_def c_isdigit_def chr_code_def)

lemma int_item:
  assumes "int_ok i" and "in_array AT_i t"
  shows "quiet (show_int i @ '' '') t = Some (push_int i t)"
proof (rule quiet_appendI)
  show "quiet (show_int i) t = Some (t\<lparr>mCurToken := show_int i\<rparr>)"
    using quiet_array_word [of t "show_int i"] assms(2) plain_show_int [of i]
    by (simp add: in_array_def plain_def)
  have n: "\<not> isFloatStr (show_int i)" by (simp add: isIntStr_not_float)
  have s: "\<not> isStringStr (show_int i)"
    using plain_no_quote [OF plain_show_int] by (rule isStringStr_no_quote)
  have "array_item_type (t\<lparr>mCurToken := show_int i\<rparr>)
      = (Inr (), t\<lparr>mCurToken := show_int i, mArrayType := AT_i\<rparr>)"
    using assms(2) n s by (cases t) (auto simp: array_item_type_def in_array_def)
  then show "quiet '' '' (t\<lparr>mCurToken := show_int i\<rparr>) = Some (push_int i t)"
    using space_ends_item [of "t\<lparr>mCurToken := show_int i\<rparr>"] assms plain_show_int [of i]
    by (cases t) (simp add: in_array_def plain_def array_item_push_def push_int_def int_ok_def atoi_show_int)
qed

interpretation int_items: array_items "\<lambda>i. show_int i @ '' ''" int_ok push_int AT_i
  by unfold_locales
    (auto simp: int_item in_array_def push_int_def plain_no_nul)

lemma fold_push_int:
  "fold push_int is t = (if is = [] then t else t\<lparr>mIntArray := mIntArray t @ is, mArrayType := AT_i\<rparr>)"
  by (induction "is" arbitrary: t) (auto simp: push_int_def)

subsection \<open>Floats\<close>

definition float_ok :: "string \<Rightarrow> bool" where
  "float_ok w = (plain w \<and> isFloatStr w)"

definition push_float :: "string \<Rightarrow> Tokenizer \<Rightarrow> Tokenizer" where
  "push_float w t = t\<lparr>mFloatArray := mFloatArray t @ [atof w], mArrayType := AT_f\<rparr>"

lemma float_item:
  assumes "float_ok w" and "in_array AT_f t"
  shows "quiet (w @ '' '') t = Some (push_float w t)"
proof (rule quiet_appendI)
  have w: "plain w" "isFloatStr w" using assms(1) by (simp_all add: float_ok_def)
  show "quiet w t = Some (t\<lparr>mCurToken := w\<rparr>)"
    using quiet_array_word [of t w] assms(2) w by (simp add: in_array_def plain_def)
  have s: "\<not> isStringStr w"
    using plain_no_quote [OF w(1)] by (rule isStringStr_no_quote)
  have "array_item_type (t\<lparr>mCurToken := w\<rparr>) = (Inr (), t\<lparr>mCurToken := w, mArrayType := AT_f\<rparr>)"
    using assms(2) w s by (cases t) (auto simp: array_item_type_def in_array_def Let_def)
  then show "quiet '' '' (t\<lparr>mCurToken := w\<rparr>) = Some (push_float w t)"
    using space_ends_item [of "t\<lparr>mCurToken := w\<rparr>"] assms w
    by (cases t) (simp add: in_array_def plain_def array_item_push_def push_float_def)
qed

interpretation float_items: array_items "\<lambda>w. w @ '' ''" float_ok push_float AT_f
  by unfold_locales
    (auto simp: float_item in_array_def push_float_def float_ok_def plain_no_nul)

lemma fold_push_float:
  "fold push_float ws t =
     (if ws = [] then t else t\<lparr>mFloatArray := mFloatArray t @ map atof ws, mArrayType := AT_f\<rparr>)"
  by (induction ws arbitrary: t) (auto simp: push_float_def)

subsection \<open>Quoted strings\<close>

definition quoted_ok :: "string \<Rightarrow> bool" where
  "quoted_ok w = (w \<noteq> '''' \<and> CHR 0x22 \<notin> set w \<and> CHR 0x00 \<notin> set w \<and> \<not> isFloatStr w)"

definition push_string :: "string \<Rightarrow> Tokenizer \<Rightarrow> Tokenizer" where
  "push_string w t = t\<lparr>mStringArray := mStringArray t @ [w], mArrayType := AT_s\<rparr>"

definition quoted :: "string \<Rightarrow> string" where
  "quoted w = CHR 0x22 # w @ [CHR 0x22]"

lemma string_item:
  assumes "quoted_ok w" and "in_array AT_s t"
  shows "quiet (quoted w @ '' '') t = Some (push_string w t)"
proof -
  define t1 where "t1 = t\<lparr>mIsInArrayItemQuotedString := True, mArrayType := AT_s\<rparr>"
  define t2 where "t2 = t\<lparr>mIsInArrayItemQuotedString := False, mArrayType := AT_s, mCurToken := w\<rparr>"
  have w: "CHR 0x22 \<notin> set w" "\<not> isFloatStr w" "w \<noteq> ''''" using assms(1) by (simp_all add: quoted_ok_def)
  have 1: "quiet [CHR 0x22] t = Some t1"
    using assms(2)
    by (simp add: in_array_def Tokenizer_AddChar_def tokenizer_step_def inputHandleArray_def Let_def t1_def)
  have 2: "quiet w t1 = Some (t1\<lparr>mCurToken := w\<rparr>)"
    using quiet_quoted [of t1 w] assms(2) w by (simp add: in_array_def t1_def)
  have 3: "quiet [CHR 0x22] (t1\<lparr>mCurToken := w\<rparr>) = Some t2"
    using assms(2)
    by (simp add: in_array_def Tokenizer_AddChar_def tokenizer_step_def inputHandleArray_def Let_def t1_def t2_def)
  have "array_item_type t2 = (Inr (), t2)"
    using w isStringStr_no_quote [OF w(1)] by (simp add: array_item_type_def t2_def)
  then have 4: "quiet '' '' t2 = Some (push_string w t)"
    using space_ends_item [of t2 t2] assms(2) w
    by (cases t) (simp add: in_array_def t2_def array_item_push_def push_string_def)
  show ?thesis
    using quiet_appendI [OF 1 quiet_appendI [OF 2 quiet_appendI [OF 3 4]]] by (simp add: quoted_def)
qed

interpretation string_items: array_items "\<lambda>w. quoted w @ '' ''" quoted_ok push_string AT_s
proof unfold_locales
  show "quiet (quoted x @ '' '') t = Some (push_string x t)" if "quoted_ok x" "in_array AT_s t" for x t
    using that by (rule string_item)
qed (auto simp: in_array_def push_string_def quoted_def quoted_ok_def)

lemma fold_push_string:
  "fold push_string ws t =
     (if ws = [] then t else t\<lparr>mStringArray := mStringArray t @ ws, mArrayType := AT_s\<rparr>)"
  by (induction ws arbitrary: t) (auto simp: push_string_def)

section \<open>Writing RIB\<close>

text \<open>
  The abstract syntax of a RIB command and its text, one command per line: what a program
  that writes RIB for this parser has to produce. A float argument is given by its text, its
  value being what \<open>atof\<close> makes of it.
\<close>

datatype rib_arg =
    RInt int | RFlt string | RStr string | RInts "int list" | RFlts "string list" | RStrs "string list"

fun print_arg :: "rib_arg \<Rightarrow> string" where
  "print_arg (RInt i) = show_int i @ '' ''"
| "print_arg (RFlt w) = w @ '' ''"
| "print_arg (RStr w) = quoted w @ '' ''"
| "print_arg (RInts is) = ''['' @ concat (map (\<lambda>i. show_int i @ '' '') is) @ ''] ''"
| "print_arg (RFlts ws) = ''['' @ concat (map (\<lambda>w. w @ '' '') ws) @ ''] ''"
| "print_arg (RStrs ws) = ''['' @ concat (map (\<lambda>w. quoted w @ '' '') ws) @ ''] ''"

fun arg_ok :: "rib_arg \<Rightarrow> bool" where
  "arg_ok (RInt i) = int_ok i"
| "arg_ok (RFlt w) = float_ok w"
| "arg_ok (RStr w) = (CHR 0x22 \<notin> set w \<and> CHR 0x00 \<notin> set w)"
| "arg_ok (RInts is) = (is \<noteq> [] \<and> list_all int_ok is)"
| "arg_ok (RFlts ws) = (ws \<noteq> [] \<and> list_all float_ok ws)"
| "arg_ok (RStrs ws) = (ws \<noteq> [] \<and> list_all quoted_ok ws)"

fun param_of_arg :: "rib_arg \<Rightarrow> Param" where
  "param_of_arg (RInt i) = Param_new\<lparr>ptype := P_INT, intVal := Some i\<rparr>"
| "param_of_arg (RFlt w) = Param_new\<lparr>ptype := P_FLT, floatVal := Some (atof w)\<rparr>"
| "param_of_arg (RStr w) = Param_new\<lparr>ptype := P_STR, stringVal := w\<rparr>"
| "param_of_arg (RInts is) = Param_new\<lparr>ptype := P_INT_ARR, intArrayVal := is\<rparr>"
| "param_of_arg (RFlts ws) = Param_new\<lparr>ptype := P_FLT_ARR, floatArrayVal := map atof ws\<rparr>"
| "param_of_arg (RStrs ws) = Param_new\<lparr>ptype := P_STR_ARR, stringArrayVal := ws\<rparr>"

type_synonym rib_cmd = "string \<times> rib_arg list"

definition name_ok :: "string \<Rightarrow> bool" where
  "name_ok n = (plain n \<and> isAlphanumStr n \<and> \<not> isFloatStr n)"

definition cmd_ok :: "rib_cmd \<Rightarrow> bool" where
  "cmd_ok c = (name_ok (fst c) \<and> list_all arg_ok (snd c))"

definition print_cmd :: "rib_cmd \<Rightarrow> string" where
  "print_cmd c = fst c @ '' '' @ concat (map print_arg (snd c)) @ [CHR 0x0A]"

definition print_rib :: "rib_cmd list \<Rightarrow> string" where
  "print_rib cs = concat (map print_cmd cs)"

text \<open>The commands with their line numbers, from line \<open>l\<close> on.\<close>

fun commands_from :: "int \<Rightarrow> rib_cmd list \<Rightarrow> command list" where
  "commands_from l [] = []"
| "commands_from l (c # cs) = (fst c, map param_of_arg (snd c), l) # commands_from (l + 1) cs"

section \<open>Reading back one argument\<close>

lemma array_open:
  assumes "idle t"
  shows "quiet ''['' t = Some (t\<lparr>mFloatArray := [], mIntArray := [], mStringArray := [], mState := ARRAY,
      mArrayType := AT_0\<rparr>)"
  using assms by (simp add: idle_def Tokenizer_AddChar_def tokenizer_step_def)

lemma array_close:
  assumes "in_array ty t"
  shows "Tokenizer_AddChar CHR '']'' t = (Inr True, setDataType t)"
  using assms
  by (cases t)
    (auto simp: in_array_def Tokenizer_AddChar_def tokenizer_step_def inputHandleArray_def isWhite_def Let_def)

lemma feed_blank:
  assumes "idle (mpTokenizer p)" and "mCurCommand p = ''''"
  shows "feed (CHR '' '' # rest) p = feed rest p"
  using feed_quiet [of "'' ''" p "mpTokenizer p" rest] blank_step [OF assms(1)] assms(2) by simp

lemma feed_array:
  assumes "idle (mpTokenizer p)" and "mCurCommand p = ''''"
    and items: "\<And>t. in_array ty t \<Longrightarrow> quiet body t = Some (g t) \<and> in_array ty (g t)"
    and "CHR 0x00 \<notin> set body"
    and ty: "mDataType (setDataType (g (mpTokenizer p
          \<lparr>mFloatArray := [], mIntArray := [], mStringArray := [], mState := ARRAY, mArrayType := AT_0\<rparr>)))
        \<noteq> DT_ALPHANUMERIC"
  shows "feed ((''['' @ body @ ''] '') @ rest) p =
    feed rest (p\<lparr>mCurParams := mCurParams p @ [param_of_token (setDataType (g (mpTokenizer p
          \<lparr>mFloatArray := [], mIntArray := [], mStringArray := [], mState := ARRAY, mArrayType := AT_0\<rparr>)))],
      mpTokenizer := ResetState (setDataType (g (mpTokenizer p
          \<lparr>mFloatArray := [], mIntArray := [], mStringArray := [], mState := ARRAY, mArrayType := AT_0\<rparr>)))\<rparr>)"
proof -
  define t where "t = mpTokenizer p
     \<lparr>mFloatArray := [], mIntArray := [], mStringArray := [], mState := ARRAY, mArrayType := AT_0\<rparr>"
  have t: "in_array ty t" using assms(1) by (simp add: in_array_def idle_def t_def)
  have q: "quiet (''['' @ body) (mpTokenizer p) = Some (g t)"
    using array_open [OF assms(1)] items [OF t] by (intro quiet_appendI) (auto simp: t_def)
  have "feed ((''['' @ body @ ''] '') @ rest) p
      = feed (CHR '']'' # CHR '' '' # rest) (p\<lparr>mpTokenizer := g t\<rparr>)"
    using feed_quiet [OF q _ assms(2), of "''] '' @ rest"] assms(4) by simp
  also have "\<dots> = feed (CHR '' '' # rest) (p\<lparr>mCurParams := mCurParams p @ [param_of_token (setDataType (g t))],
      mpTokenizer := ResetState (setDataType (g t))\<rparr>)"
    using feed_argument [of "CHR '']''" "p\<lparr>mpTokenizer := g t\<rparr>" "setDataType (g t)" "CHR '' '' # rest"]
      array_close [of ty "g t"] items [OF t] ty assms(2)
    by (simp add: t_def)
  finally show ?thesis
    using assms(2) by (simp add: feed_blank t_def del: feed.simps)
qed

lemma feed_word:
  assumes "idle (mpTokenizer p)" and "mCurCommand p = ''''" and "plain w"
    and "isIntStr w \<or> isFloatStr w"
  shows "feed ((w @ '' '') @ rest) p =
    feed rest (p\<lparr>mCurParams := mCurParams p @
        [if isIntStr w then Param_new\<lparr>ptype := P_INT, intVal := Some (atoi w)\<rparr>
         else Param_new\<lparr>ptype := P_FLT, floatVal := Some (atof w)\<rparr>],
      mpTokenizer := ResetState (setDataType (mpTokenizer p\<lparr>mState := NORMAL, mCurToken := w\<rparr>))\<rparr>)"
proof -
  define t where "t = mpTokenizer p\<lparr>mState := NORMAL, mCurToken := w\<rparr>"
  have "feed ((w @ '' '') @ rest) p = feed (CHR '' '' # rest) (p\<lparr>mpTokenizer := t\<rparr>)"
    using feed_quiet [OF quiet_word [OF assms(1,3)] plain_no_nul [OF assms(3)] assms(2), of "'' '' @ rest"]
    by (simp add: t_def)
  also have "\<dots> = feed rest (p\<lparr>mCurParams := mCurParams p @ [param_of_token (setDataType t)],
      mpTokenizer := ResetState (setDataType t)\<rparr>)"
    using feed_argument [of "CHR '' ''" "p\<lparr>mpTokenizer := t\<rparr>" "setDataType t" rest]
      word_end [OF assms(1,3)] assms(2,4)
    by (auto simp: t_def setDataType_def Let_def)
  also have "param_of_token (setDataType t) =
      (if isIntStr w then Param_new\<lparr>ptype := P_INT, intVal := Some (atoi w)\<rparr>
       else Param_new\<lparr>ptype := P_FLT, floatVal := Some (atof w)\<rparr>)"
    using assms(4) by (auto simp: t_def setDataType_def Let_def param_of_token_def)
  finally show ?thesis by (simp add: t_def)
qed

lemma feed_string:
  assumes "idle (mpTokenizer p)" and "mCurCommand p = ''''" and "CHR 0x22 \<notin> set w" and "CHR 0x00 \<notin> set w"
  shows "\<exists>t. idle t \<and> mLineNumber t = mLineNumber (mpTokenizer p) \<and>
    feed ((quoted w @ '' '') @ rest) p =
    feed rest (p\<lparr>mCurParams := mCurParams p @ [Param_new\<lparr>ptype := P_STR, stringVal := w\<rparr>], mpTokenizer := t\<rparr>)"
proof -
  define t where "t = mpTokenizer p\<lparr>mState := STRING, mDataType := DT_STRING\<rparr>"
  define u where "u = t\<lparr>mDataString := w, mCurToken := ''''\<rparr>"
  have "quiet [CHR 0x22] (mpTokenizer p) = Some t"
    using assms(1)
    by (cases "mpTokenizer p")
      (simp add: idle_def Tokenizer_AddChar_def tokenizer_step_def setDataType_def Let_def t_def)
  moreover have "quiet w t = Some (t\<lparr>mCurToken := w\<rparr>)"
    using quiet_string [of t w] assms(1,3) by (simp add: idle_def t_def)
  ultimately have q: "quiet ([CHR 0x22] @ w) (mpTokenizer p) = Some (t\<lparr>mCurToken := w\<rparr>)"
    by (rule quiet_appendI)
  have a: "Tokenizer_AddChar CHR 0x22 (t\<lparr>mCurToken := w\<rparr>) = (Inr True, u)"
    using assms(1) by (simp add: idle_def Tokenizer_AddChar_def tokenizer_step_def setDataType_def Let_def
        t_def u_def)
  have "feed ((quoted w @ '' '') @ rest) p
      = feed (CHR 0x22 # CHR '' '' # rest) (p\<lparr>mpTokenizer := t\<lparr>mCurToken := w\<rparr>\<rparr>)"
    using feed_quiet [OF q _ assms(2), of "CHR 0x22 # CHR '' '' # rest"] assms(4) by (simp add: quoted_def)
  also have "\<dots> = feed rest (p\<lparr>mCurParams := mCurParams p @ [Param_new\<lparr>ptype := P_STR, stringVal := w\<rparr>],
      mpTokenizer := ResetState u\<rparr>)"
    using feed_argument [of "CHR 0x22" "p\<lparr>mpTokenizer := t\<lparr>mCurToken := w\<rparr>\<rparr>" u] a assms(2)
    by (simp add: feed_blank u_def t_def param_of_token_def del: feed.simps)
  finally show ?thesis
    by (intro exI [of _ "ResetState u"]) (simp add: u_def t_def ResetState_def idle_def)
qed

lemma feed_arg:
  assumes "idle (mpTokenizer p)" and "mCurCommand p = ''''" and "arg_ok a"
  shows "\<exists>t. idle t \<and> mLineNumber t = mLineNumber (mpTokenizer p) \<and>
    feed (print_arg a @ rest) p =
    feed rest (p\<lparr>mCurParams := mCurParams p @ [param_of_arg a], mpTokenizer := t\<rparr>)"
proof (cases a)
  case (RInt i)
  then show ?thesis
    using feed_word [OF assms(1,2) plain_show_int, of i rest] assms(3)
    by (intro exI [of _ "ResetState (setDataType (mpTokenizer p\<lparr>mState := NORMAL, mCurToken := show_int i\<rparr>))"])
      (simp add: int_ok_def atoi_show_int del: feed.simps, simp add: ResetState_def setDataType_def Let_def)
next
  case (RFlt w)
  then have w: "plain w" "isFloatStr w" "\<not> isIntStr w"
    using assms(3) isIntStr_not_float by (auto simp: float_ok_def)
  then show ?thesis
    using feed_word [OF assms(1,2) w(1), of rest] RFlt
    by (intro exI [of _ "ResetState (setDataType (mpTokenizer p\<lparr>mState := NORMAL, mCurToken := w\<rparr>))"])
      (simp del: feed.simps, simp add: ResetState_def setDataType_def Let_def)
next
  case (RStr w)
  then show ?thesis
    using feed_string [OF assms(1,2), of w rest] assms(3) by (simp del: feed.simps)
next
  case (RInts "is")
  then have ok: "is \<noteq> []" "list_all int_ok is" using assms(3) by auto
  show ?thesis
    using feed_array [OF assms(1,2) int_items.items [OF ok(2)] int_items.items_no_nul [OF ok(2)], of rest] ok(1)
    by (intro exI conjI)
      (rule idle_ResetState, simp_all add: RInts fold_push_int setDataType_def Let_def param_of_token_def
        ResetState_def del: feed.simps)
next
  case (RFlts ws)
  then have ok: "ws \<noteq> []" "list_all float_ok ws" using assms(3) by auto
  show ?thesis
    using feed_array [OF assms(1,2) float_items.items [OF ok(2)] float_items.items_no_nul [OF ok(2)], of rest] ok(1)
    by (intro exI conjI)
      (rule idle_ResetState, simp_all add: RFlts fold_push_float setDataType_def Let_def param_of_token_def
        ResetState_def del: feed.simps)
next
  case (RStrs ws)
  then have ok: "ws \<noteq> []" "list_all quoted_ok ws" using assms(3) by auto
  show ?thesis
    using feed_array [OF assms(1,2) string_items.items [OF ok(2)] string_items.items_no_nul [OF ok(2)], of rest] ok(1)
    by (intro exI conjI)
      (rule idle_ResetState, simp_all add: RStrs fold_push_string setDataType_def Let_def param_of_token_def
        ResetState_def del: feed.simps)
qed

lemma feed_args:
  assumes "idle (mpTokenizer p)" and "mCurCommand p = ''''" and "list_all arg_ok as"
  shows "\<exists>t. idle t \<and> mLineNumber t = mLineNumber (mpTokenizer p) \<and>
    feed (concat (map print_arg as) @ rest) p =
    feed rest (p\<lparr>mCurParams := mCurParams p @ map param_of_arg as, mpTokenizer := t\<rparr>)"
  using assms
proof (induction as arbitrary: p)
  case Nil
  then show ?case by (intro exI [of _ "mpTokenizer p"]) simp
next
  case (Cons a as)
  obtain t where t: "idle t" "mLineNumber t = mLineNumber (mpTokenizer p)"
    and f: "feed (print_arg a @ concat (map print_arg as) @ rest) p =
      feed (concat (map print_arg as) @ rest) (p\<lparr>mCurParams := mCurParams p @ [param_of_arg a], mpTokenizer := t\<rparr>)"
    using feed_arg [OF Cons.prems(1,2), of a "concat (map print_arg as) @ rest"] Cons.prems(3) by auto
  obtain u where "idle u" "mLineNumber u = mLineNumber t"
    and "feed (concat (map print_arg as) @ rest) (p\<lparr>mCurParams := mCurParams p @ [param_of_arg a], mpTokenizer := t\<rparr>)
      = feed rest (p\<lparr>mCurParams := mCurParams p @ map param_of_arg (a # as), mpTokenizer := u\<rparr>)"
    using Cons.IH [of "p\<lparr>mCurParams := mCurParams p @ [param_of_arg a], mpTokenizer := t\<rparr>"] Cons.prems t(1)
    by auto
  then show ?case
    using t f by (intro exI [of _ u]) simp
qed

section \<open>Reading back a file\<close>

definition between :: "Parser \<Rightarrow> bool" where
  "between p = (idle (mpTokenizer p) \<and> mCurCommand p = '''' \<and> \<not> mReachedEOF p
     \<and> (mNextCommand p = '''' \<longrightarrow> mCurParams p = []))"

lemma name_token:
  assumes "idle t" and "name_ok n"
  shows "\<exists>u. Tokenizer_AddChar CHR '' '' (t\<lparr>mState := NORMAL, mCurToken := n\<rparr>) = (Inr True, u)
    \<and> mDataType u = DT_ALPHANUMERIC \<and> mDataAlphanum u = n \<and> mLineNumber u = mLineNumber t"
proof -
  have n: "plain n" "\<not> isFloatStr n" "isAlphanumStr n" using assms(2) by (simp_all add: name_ok_def)
  then have "\<not> isIntStr n"
    by (cases n) (auto simp: isAlphanumStr_def c_isdigit_def chr_code_def)
  with n word_end [OF assms(1) n(1)] show ?thesis
    by (intro exI [of _ "setDataType (t\<lparr>mState := NORMAL, mCurToken := n\<rparr>)"])
      (simp add: setDataType_def Let_def)
qed

lemma feed_cmd_name:
  assumes "between p" and "name_ok n"
  shows "\<exists>q. between q \<and> mNextCommand q = n \<and> mNextCommandLine q = mLineNumber (mpTokenizer p)
    \<and> mLineNumber (mpTokenizer q) = mLineNumber (mpTokenizer p) \<and> mCurParams q = []
    \<and> feed ((n @ '' '') @ rest) p = (case feed rest q of (ds, r, q') \<Rightarrow> (pending p @ ds, r, q'))"
proof -
  have i: "idle (mpTokenizer p)" and n: "plain n" "n \<noteq> ''''"
    using assms by (auto simp: between_def name_ok_def plain_def)
  define p1 where "p1 = p\<lparr>mpTokenizer := mpTokenizer p\<lparr>mState := NORMAL, mCurToken := n\<rparr>\<rparr>"
  obtain u where u: "Tokenizer_AddChar CHR '' '' (mpTokenizer p1) = (Inr True, u)"
    "mDataType u = DT_ALPHANUMERIC" "mDataAlphanum u = n" "mLineNumber u = mLineNumber (mpTokenizer p)"
    using name_token [OF i assms(2)] by (auto simp: p1_def)
  have "feed ((n @ '' '') @ rest) p = feed (CHR '' '' # rest) p1"
    using feed_quiet [OF quiet_word [OF i n(1)] plain_no_nul [OF n(1)], of "'' '' @ rest"] assms(1)
    by (simp add: between_def p1_def)
  moreover obtain l where "feed (CHR '' '' # rest) p1 =
    (case feed rest (p1\<lparr>mCurCommand := '''', mCurCommandLine := l, mNextCommand := mDataAlphanum u,
         mNextCommandLine := mLineNumber u, mCurParams := [], mpTokenizer := ResetState u\<rparr>) of
       (ds, r, q) \<Rightarrow> (pending p1 @ ds, r, q))"
    using feed_name [OF u(1) _ u(2), of rest] assms(1) by (auto simp: between_def p1_def)
  moreover have "pending p1 = pending p" by (simp add: p1_def pending_def)
  ultimately show ?thesis
    using assms(1) u n(2)
    by (intro exI [of _ "p1\<lparr>mCurCommand := '''', mCurCommandLine := l, mNextCommand := n,
         mNextCommandLine := mLineNumber u, mCurParams := [], mpTokenizer := ResetState u\<rparr>"])
      (auto simp: between_def p1_def, simp_all add: ResetState_def)
qed

lemma feed_cmd:
  assumes "between p" and "cmd_ok c"
  shows "\<exists>q. between q \<and> pending q = [(fst c, map param_of_arg (snd c), mLineNumber (mpTokenizer p))]
    \<and> mLineNumber (mpTokenizer q) = mLineNumber (mpTokenizer p) + 1
    \<and> feed (print_cmd c @ rest) p = (case feed rest q of (ds, r, q') \<Rightarrow> (pending p @ ds, r, q'))"
proof -
  have ok: "name_ok (fst c)" "list_all arg_ok (snd c)" using assms(2) by (simp_all add: cmd_ok_def)
  obtain q where q: "between q" "mNextCommand q = fst c" "mNextCommandLine q = mLineNumber (mpTokenizer p)"
      "mLineNumber (mpTokenizer q) = mLineNumber (mpTokenizer p)" "mCurParams q = []"
    and f: "feed ((fst c @ '' '') @ concat (map print_arg (snd c)) @ [CHR 0x0A] @ rest) p =
      (case feed (concat (map print_arg (snd c)) @ [CHR 0x0A] @ rest) q of (ds, r, q') \<Rightarrow> (pending p @ ds, r, q'))"
    using feed_cmd_name [OF assms(1) ok(1)] by blast
  obtain t where t: "idle t" "mLineNumber t = mLineNumber (mpTokenizer q)"
    and g: "feed (concat (map print_arg (snd c)) @ [CHR 0x0A] @ rest) q =
      feed ([CHR 0x0A] @ rest) (q\<lparr>mCurParams := map param_of_arg (snd c), mpTokenizer := t\<rparr>)"
    using feed_args [OF _ _ ok(2), of q "[CHR 0x0A] @ rest"] q(1,5) by (auto simp: between_def)
  define q1 where "q1 = q\<lparr>mCurParams := map param_of_arg (snd c), mpTokenizer := t\<lparr>mLineNumber := mLineNumber t + 1\<rparr>\<rparr>"
  have "feed ([CHR 0x0A] @ rest) (q\<lparr>mCurParams := map param_of_arg (snd c), mpTokenizer := t\<rparr>) = feed rest q1"
    using feed_quiet [of "[CHR 0x0A]" "q\<lparr>mCurParams := map param_of_arg (snd c), mpTokenizer := t\<rparr>"]
      newline_step [OF t(1)] q(1)
    by (simp add: between_def q1_def del: feed.simps)
  moreover have "fst c \<noteq> ''''" using ok(1) by (simp add: name_ok_def plain_def)
  ultimately show ?thesis
    using q t f g
    by (intro exI [of _ q1])
      (simp add: q1_def between_def idle_def pending_def print_cmd_def del: feed.simps)
qed

lemma feed_rib:
  assumes "between p" and "list_all cmd_ok cs"
  shows "\<exists>q. between q
    \<and> feed (print_rib cs @ rest) p = (case feed rest q of (ds, r, q') \<Rightarrow>
        ((if cs = [] then [] else pending p @ commands_from (mLineNumber (mpTokenizer p)) (butlast cs)) @ ds, r, q'))
    \<and> pending q = (if cs = [] then pending p
        else [(fst (last cs), map param_of_arg (snd (last cs)),
               mLineNumber (mpTokenizer p) + int (length cs) - 1)])"
  using assms
proof (induction cs arbitrary: p)
  case Nil
  then show ?case by (intro exI [of _ p]) (simp add: print_rib_def)
next
  case (Cons c cs)
  have ok: "cmd_ok c" "list_all cmd_ok cs" using Cons.prems(2) by simp_all
  obtain q where q: "between q" "pending q = [(fst c, map param_of_arg (snd c), mLineNumber (mpTokenizer p))]"
      "mLineNumber (mpTokenizer q) = mLineNumber (mpTokenizer p) + 1"
    and f: "feed (print_cmd c @ print_rib cs @ rest) p =
      (case feed (print_rib cs @ rest) q of (ds, r, q') \<Rightarrow> (pending p @ ds, r, q'))"
    using feed_cmd [OF Cons.prems(1) ok(1)] by blast
  obtain q2 where q2: "between q2"
      "feed (print_rib cs @ rest) q = (case feed rest q2 of (ds, r, q') \<Rightarrow>
        ((if cs = [] then [] else pending q @ commands_from (mLineNumber (mpTokenizer q)) (butlast cs)) @ ds, r, q'))"
      "pending q2 = (if cs = [] then pending q
        else [(fst (last cs), map param_of_arg (snd (last cs)),
               mLineNumber (mpTokenizer q) + int (length cs) - 1)])"
    using Cons.IH [OF q(1) ok(2)] by blast
  show ?case
    using q q2 f
    by (intro exI [of _ q2]) (auto simp: print_rib_def split: prod.splits)
qed

lemma feed_eof:
  assumes "between p"
  shows "fst (feed [CHR 0x00] p) = pending p \<and> fst (snd (feed [CHR 0x00] p)) = Inr ()"
proof -
  define t where "t = mpTokenizer p\<lparr>mLineNumber := mLineNumber (mpTokenizer p) + 1\<rparr>"
  define p' where "p' = p\<lparr>mCurCommand := mNextCommand p, mCurCommandLine := mNextCommandLine p,
     mpTokenizer := t, mNextCommand := '''', mNextCommandLine := - 1, mReachedEOF := True\<rparr>"
  have "Tokenizer_AddChar (CHR 0x0A) (mpTokenizer p) = (Inr False, t)"
    using assms by (simp add: between_def idle_def Tokenizer_AddChar_def tokenizer_step_def isWhite_def t_def)
  then have a: "Parser_AddChar (CHR 0x00) p = (Inr (), p')"
    by (simp add: Parser_AddChar_def Let_def p'_def)
  have "fst (run_commands p') = pending p"
    by (subst run_commands.simps)
      (simp add: p'_def HasNewCommand_def FlushNewCommand_def pending_def split: prod.splits)
  then show ?thesis by (auto simp: a split: prod.splits)
qed

lemma commands_from_snoc:
  "cs \<noteq> [] \<Longrightarrow> commands_from l cs =
   commands_from l (butlast cs) @ [(fst (last cs), map param_of_arg (snd (last cs)), l + int (length cs) - 1)]"
  by (induction cs arbitrary: l) auto

lemma readArchive_rib:
  assumes "list_all cmd_ok cs"
  shows "readArchive (Tokenizer_new d i f) (print_rib cs) = (commands_from 1 cs, Inr ())"
proof -
  define p where "p = Parser_new (Tokenizer_new d i f)"
  have b: "between p" and l: "mLineNumber (mpTokenizer p) = 1" and n: "pending p = []"
    by (simp_all add: p_def between_def Parser_new_def pending_def) (simp add: Tokenizer_new_def)
  obtain q where q: "between q"
    "feed (print_rib cs @ [CHR 0x00]) p = (case feed [CHR 0x00] q of (ds, r, q') \<Rightarrow>
        ((if cs = [] then [] else commands_from 1 (butlast cs)) @ ds, r, q'))"
    "pending q = (if cs = [] then []
        else [(fst (last cs), map param_of_arg (snd (last cs)), 1 + int (length cs) - 1)])"
    using feed_rib [OF b assms, of "[CHR 0x00]"] l n by auto
  obtain ds r q' where e: "feed [CHR 0x00] q = (ds, r, q')" by (cases "feed [CHR 0x00] q")
  have "ds = pending q" "r = Inr ()" using feed_eof [OF q(1)] e by auto
  then show ?thesis
    using q(2,3) e commands_from_snoc [of cs 1]
    by (auto simp: readArchive_def p_def [symmetric])
qed

section \<open>The tokenizer never throws\<close>

definition tok_inv :: "Tokenizer \<Rightarrow> bool" where
  "tok_inv t = ((mState t = UNKNOWN \<longrightarrow> mCurToken t = '''')
     \<and> (mState t = ARRAY \<and> \<not> mIsInArrayItemQuotedString t \<longrightarrow> CHR 0x22 \<notin> set (mCurToken t))
     \<and> (mIsInArrayItemQuotedString t \<longrightarrow>
          mState t = ARRAY \<and> mArrayType t = AT_s \<and> CHR 0x22 \<notin> set (mCurToken t)))"

lemma tok_inv_new: "tok_inv (Tokenizer_new d i f)"
  by (simp add: tok_inv_def Tokenizer_new_def)

lemma tok_inv_ResetState: "tok_inv (ResetState t)"
  by (simp add: tok_inv_def ResetState_def)

lemma setDataType_fields [simp]:
  "mState (setDataType t) = mState t" "mCurToken (setDataType t) = ''''"
  "mIsInArrayItemQuotedString (setDataType t) = mIsInArrayItemQuotedString t"
  "mArrayType (setDataType t) = mArrayType t"
  by (auto simp: setDataType_def Let_def split: StateEnum.splits ArrayType.splits)

lemma array_item_type_ok:
  assumes "CHR 0x22 \<notin> set (mCurToken t)"
  obtains t' where "array_item_type t = (Inr (), t')" "mState t' = mState t"
    "mIsInArrayItemQuotedString t' = mIsInArrayItemQuotedString t"
  using that [of "snd (array_item_type t)"] isStringStr_no_quote [OF assms]
  by (simp add: array_item_type_def Let_def changeToFloatArray_def split: if_splits)

lemma array_item_push_fields [simp]:
  "mState (array_item_push t) = mState t" "mCurToken (array_item_push t) = ''''"
  "mIsInArrayItemQuotedString (array_item_push t) = mIsInArrayItemQuotedString t"
  by (auto simp: array_item_push_def Let_def split: ArrayType.splits)

lemma inputHandleArray_ok:
  assumes "tok_inv t" and "mState t = ARRAY"
  shows "\<exists>b t'. inputHandleArray ch t = (Inr b, t') \<and> tok_inv t'"
proof (cases "ch = CHR 0x22 \<or> mIsInArrayItemQuotedString t")
  case True
  then show ?thesis using assms by (auto simp: inputHandleArray_def Let_def tok_inv_def)
next
  case False
  then have q: "CHR 0x22 \<notin> set (mCurToken t)" using assms by (simp add: tok_inv_def)
  show ?thesis
  proof (cases "isWhite ch \<or> ch = CHR '']''")
    case True
    define u where "u = (if ch = CHR 0x0A then t\<lparr>mLineNumber := mLineNumber t + 1\<rparr> else t)"
    have u: "mCurToken u = mCurToken t" "mState u = ARRAY" "\<not> mIsInArrayItemQuotedString u"
      using False assms(2) by (auto simp: u_def)
    obtain v where "array_item_type u = (Inr (), v)" "mState v = ARRAY" "\<not> mIsInArrayItemQuotedString v"
      using array_item_type_ok [of u] q u by auto
    then show ?thesis
      using False True u by (auto simp: inputHandleArray_def Let_def u_def [symmetric] tok_inv_def)
  next
    case no: False
    then show ?thesis using False q assms by (auto simp: inputHandleArray_def Let_def tok_inv_def)
  qed
qed

lemma Tokenizer_AddChar_ok:
  assumes "tok_inv t"
  shows "\<exists>b t'. Tokenizer_AddChar ch t = (Inr b, t') \<and> tok_inv t'"
proof -
  have "\<exists>b t'. tokenizer_step ch t = (Inr b, t') \<and> tok_inv t'"
  proof (cases "mStateInComment t")
    case True
    then show ?thesis using assms by (auto simp: tokenizer_step_def Let_def tok_inv_def)
  next
    case False
    then show ?thesis
      using assms inputHandleArray_ok [OF assms]
      by (cases "mState t") (auto simp: tokenizer_step_def Let_def tok_inv_def)
  qed
  then show ?thesis
    using assms by (auto simp: Tokenizer_AddChar_def tok_inv_def)
qed

lemma Parser_AddChar_ok:
  assumes "tok_inv (mpTokenizer p)"
  shows "\<exists>p'. Parser_AddChar ch p = (Inr (), p') \<and> tok_inv (mpTokenizer p')"
proof -
  obtain b t where 1: "Tokenizer_AddChar ch (mpTokenizer p) = (Inr b, t)" "tok_inv t"
    using Tokenizer_AddChar_ok [OF assms] by blast
  obtain c u where 2: "Tokenizer_AddChar (CHR 0x0A) (mpTokenizer p) = (Inr c, u)" "tok_inv u"
    using Tokenizer_AddChar_ok [OF assms] by blast
  show ?thesis
    using 1 2 by (auto simp: Parser_AddChar_def Let_def tok_inv_ResetState)
qed

lemma run_commands_tokenizer: "mpTokenizer (snd (run_commands p)) = mpTokenizer p"
proof (induction p rule: run_commands.induct)
  case (1 p)
  then show ?case
    by (subst run_commands.simps)
      (auto simp: FlushNewCommand_def split: prod.splits if_splits)
qed

lemma feed_total: "tok_inv (mpTokenizer p) \<Longrightarrow> \<exists>cs q. feed s p = (cs, Inr (), q)"
proof (induction s arbitrary: p)
  case (Cons c s)
  obtain p' where a: "Parser_AddChar c p = (Inr (), p')" "tok_inv (mpTokenizer p')"
    using Parser_AddChar_ok [OF Cons.prems] by blast
  obtain cs p'' where r: "run_commands p' = (cs, p'')" by (cases "run_commands p'")
  with a run_commands_tokenizer [of p'] have "tok_inv (mpTokenizer p'')" by simp
  from Cons.IH [OF this] a r show ?case by auto
qed simp

section \<open>Properties\<close>

text \<open>
  C7: reading RIB back. For every list of well-formed commands, the character loop of
  \<open>readArchive\<close> over the text of the commands runs exactly those commands, in order, each with
  the parameters that were written and the line it stands on, whatever the uninitialised fields
  of the tokenizer held.
\<close>

theorem rib_roundtrip:
  assumes "list_all cmd_ok cs"
  shows "readArchive (Tokenizer_new d i f) (print_rib cs) = (commands_from 1 cs, Inr ())"
  using assms by (rule readArchive_rib)

theorem rib_roundtrip_witness:
  "list_all cmd_ok [(''Format'', [RInt 640, RInt 480, RInt (- 1)]), (''Basis'', [RStr ''b-spline'', RInts [3, 1]])]
   \<and> readArchive (Tokenizer_new DT_NONE 0 NaN)
       (print_rib [(''Format'', [RInt 640, RInt 480, RInt (- 1)]), (''Basis'', [RStr ''b-spline'', RInts [3, 1]])])
     = (commands_from 1 [(''Format'', [RInt 640, RInt 480, RInt (- 1)]), (''Basis'', [RStr ''b-spline'', RInts [3, 1]])],
        Inr ())"
proof -
  have "list_all cmd_ok [(''Format'', [RInt 640, RInt 480, RInt (- 1)]), (''Basis'', [RStr ''b-spline'', RInts [3, 1]])]"
    by code_simp
  from this rib_roundtrip [OF this] show ?thesis by blast
qed


subsection \<open>Where the text is misread\<close>

lemma feed_first_name:
  assumes "name_ok n"
  shows "\<exists>q. between q \<and> mNextCommand q = n \<and> mNextCommandLine q = 1 \<and> mCurParams q = []
    \<and> mDataType (mpTokenizer q) = DT_ALPHANUMERIC \<and> mDataAlphanum (mpTokenizer q) = n
    \<and> mLineNumber (mpTokenizer q) = 1
    \<and> feed ((n @ '' '') @ rest) (Parser_new (Tokenizer_new d i f)) = feed rest q"
proof -
  define t0 where "t0 = Tokenizer_new d i f"
  have n: "plain n" "\<not> isFloatStr n" "isAlphanumStr n" "n \<noteq> ''''"
    using assms by (auto simp: name_ok_def plain_def)
  then have ni: "\<not> isIntStr n"
    by (cases n) (auto simp: isAlphanumStr_def c_isdigit_def chr_code_def)
  define p where "p = (Parser_new t0)\<lparr>mpTokenizer := t0\<lparr>mState := NORMAL, mCurToken := n\<rparr>\<rparr>"
  define u where "u = setDataType (mpTokenizer p)"
  have u: "mDataType u = DT_ALPHANUMERIC" "mDataAlphanum u = n" "mLineNumber u = 1"
    using n ni by (simp_all add: u_def p_def t0_def setDataType_def Let_def Tokenizer_new_def)
  have "feed ((n @ '' '') @ rest) (Parser_new t0) = feed (CHR '' '' # rest) p"
    using feed_quiet [of n "Parser_new t0" _ "'' '' @ rest"] quiet_word [of t0 n] n plain_no_nul [OF n(1)]
    by (simp add: p_def t0_def Parser_new_def)
  moreover have "Tokenizer_AddChar CHR '' '' (mpTokenizer p) = (Inr True, u)"
    using word_end [of t0 n] n by (simp add: p_def u_def t0_def)
  then obtain l where "feed (CHR '' '' # rest) p =
    (case feed rest (p\<lparr>mCurCommand := '''', mCurCommandLine := l, mNextCommand := mDataAlphanum u,
         mNextCommandLine := mLineNumber u, mCurParams := [], mpTokenizer := ResetState u\<rparr>) of
       (ds, r, q) \<Rightarrow> (pending p @ ds, r, q))"
    using feed_name [of "CHR '' ''" p u rest] u by (auto simp: p_def Parser_new_def)
  moreover have "pending p = []" by (simp add: pending_def p_def Parser_new_def)
  ultimately show ?thesis
    using u n(4)
    by (intro exI [of _ "p\<lparr>mCurCommand := '''', mCurCommandLine := l, mNextCommand := n,
         mNextCommandLine := 1, mCurParams := [], mpTokenizer := ResetState u\<rparr>"])
      (simp add: between_def t0_def p_def Parser_new_def del: feed.simps, simp add: ResetState_def)
qed

text \<open>
  The end of the file. When a file does not end in white space after a numeric argument,
  the null that ends the archive finishes the number, but \<open>Parser::AddChar\<close> takes it for a
  name: the argument is lost and the command before it is run a second time, from the stale
  name of the tokenizer.
\<close>

theorem eof_repeats_command:
  assumes "name_ok n"
  shows "readArchive (Tokenizer_new d i f) (n @ '' '' @ show_int k) = ([(n, [], 1), (n, [], 2)], Inr ())"
proof -
  obtain q where q: "between q" "mNextCommand q = n" "mNextCommandLine q = 1" "mCurParams q = []"
      "mDataAlphanum (mpTokenizer q) = n" "mLineNumber (mpTokenizer q) = 1"
    and f: "feed ((n @ '' '') @ show_int k @ [CHR 0x00]) (Parser_new (Tokenizer_new d i f))
      = feed (show_int k @ [CHR 0x00]) q"
    using feed_first_name [OF assms, of "show_int k @ [CHR 0x00]" d i f] by blast
  define t where "t = mpTokenizer q\<lparr>mState := NORMAL, mCurToken := show_int k\<rparr>"
  have "feed (show_int k @ [CHR 0x00]) q = feed [CHR 0x00] (q\<lparr>mpTokenizer := t\<rparr>)"
    using feed_quiet [OF quiet_word [OF _ plain_show_int] plain_no_nul [OF plain_show_int], of q k "[CHR 0x00]"] q(1)
    by (simp add: between_def t_def)
  moreover have "Tokenizer_AddChar (CHR 0x0A) t = (Inr True, setDataType (t\<lparr>mLineNumber := 2\<rparr>))"
    using q(1,6) by (simp add: t_def between_def idle_def Tokenizer_AddChar_def tokenizer_step_def isWhite_def)
  then obtain p' where "Parser_AddChar (CHR 0x00) (q\<lparr>mpTokenizer := t\<rparr>) = (Inr (), p')" and
    p: "mCurCommand p' = n" "mCurCommandLine p' = 1" "mNextCommand p' = n" "mNextCommandLine p' = 2"
      "mCurParams p' = []" "mReachedEOF p'"
    using q by (simp add: Parser_AddChar_def Let_def t_def setDataType_def)
  moreover have "fst (run_commands p') = [(n, [], 1), (n, [], 2)]"
  proof -
    have "n \<noteq> ''''" using assms by (auto simp: name_ok_def plain_def)
    then show ?thesis
      using p by (subst run_commands.simps, subst run_commands.simps)
        (simp add: HasNewCommand_def FlushNewCommand_def split: prod.splits)
  qed
  ultimately show ?thesis
    using f by (auto simp: readArchive_def split: prod.splits)
qed

theorem eof_repeats_command_witness:
  "name_ok ''Sides'' \<and>
   readArchive (Tokenizer_new DT_NONE 0 NaN) (''Sides'' @ '' '' @ show_int 2) = ([(''Sides'', [], 1), (''Sides'', [], 2)], Inr ())"
proof -
  have "name_ok ''Sides''" by code_simp
  from this eof_repeats_command [OF this] show ?thesis by blast
qed

lemma feed_tail:
  assumes "between q"
  shows "\<exists>q'. feed ('' '' @ [CHR 0x00]) q = (pending q, Inr (), q')"
proof -
  have "feed ('' '' @ [CHR 0x00]) q = feed [CHR 0x00] q"
    using assms feed_blank [of q "[CHR 0x00]"] by (simp add: between_def del: feed.simps)
  with feed_eof [OF assms] show ?thesis
    by (cases "feed [CHR 0x00] q") (auto simp del: feed.simps)
qed

lemma empty_array_repeats:
  assumes "name_ok n"
  shows "readArchive (Tokenizer_new d i f) (n @ '' [] '') = ([(n, [], 1), (n, [], 1)], Inr ())"
proof -
  obtain q where q: "between q" "mNextCommand q = n" "mNextCommandLine q = 1" "mCurParams q = []"
      "mDataType (mpTokenizer q) = DT_ALPHANUMERIC" "mDataAlphanum (mpTokenizer q) = n"
      "mLineNumber (mpTokenizer q) = 1"
    and f: "feed ((n @ '' '') @ ''[] '' @ [CHR 0x00]) (Parser_new (Tokenizer_new d i f))
      = feed (''[] '' @ [CHR 0x00]) q"
    using feed_first_name [OF assms, of "''[] '' @ [CHR 0x00]" d i f] by blast
  have n: "n \<noteq> ''''" using assms by (auto simp: name_ok_def plain_def)
  define t where "t = mpTokenizer q\<lparr>mFloatArray := [], mIntArray := [], mStringArray := [], mState := ARRAY,
      mArrayType := AT_0\<rparr>"
  define q1 where "q1 = q\<lparr>mpTokenizer := t\<rparr>"
  have "feed (''['' @ ''] '' @ [CHR 0x00]) q = feed (''] '' @ [CHR 0x00]) q1"
    using feed_quiet [OF array_open] q(1) by (simp add: between_def t_def q1_def del: feed.simps)
  then have g: "feed (''[] '' @ [CHR 0x00]) q = feed (CHR '']'' # '' '' @ [CHR 0x00]) q1"
    by (simp del: feed.simps)
  define u where "u = setDataType t"
  have "in_array AT_0 t" using q(1) by (simp add: t_def in_array_def between_def idle_def)
  then have a: "Tokenizer_AddChar CHR '']'' (mpTokenizer q1) = (Inr True, u)"
    using array_close by (simp add: q1_def u_def)
  have u: "mDataType u = DT_ALPHANUMERIC" "mDataAlphanum u = n" "mLineNumber u = 1"
    using q by (simp_all add: u_def t_def setDataType_def Let_def)
  obtain l where h: "feed (CHR '']'' # '' '' @ [CHR 0x00]) q1 =
    (case feed ('' '' @ [CHR 0x00]) (q1\<lparr>mCurCommand := '''', mCurCommandLine := l, mNextCommand := mDataAlphanum u,
         mNextCommandLine := mLineNumber u, mCurParams := [], mpTokenizer := ResetState u\<rparr>) of
       (ds, r, q) \<Rightarrow> (pending q1 @ ds, r, q))"
    using feed_name [OF a _ u(1), of "'' '' @ [CHR 0x00]"] q by (auto simp: q1_def between_def)
  define q2 where "q2 = q1\<lparr>mCurCommand := '''', mCurCommandLine := l, mNextCommand := mDataAlphanum u,
         mNextCommandLine := mLineNumber u, mCurParams := [], mpTokenizer := ResetState u\<rparr>"
  have "between q2" using q n u by (simp add: q2_def q1_def between_def)
  moreover have "pending q2 = [(n, [], 1)]" "pending q1 = [(n, [], 1)]"
    using q n u by (simp_all add: q2_def q1_def pending_def)
  ultimately show ?thesis
    using f g h feed_tail [of q2] by (auto simp: readArchive_def q2_def [symmetric] simp del: feed.simps)
qed

lemma quoted_float_array:
  assumes "name_ok n" and "w \<noteq> ''''" and "CHR 0x22 \<notin> set w" and "CHR 0x00 \<notin> set w" and "isFloatStr w"
  shows "readArchive (Tokenizer_new d i f) (n @ '' ['' @ quoted w @ ''] '')
      = ([(n, [Param_new\<lparr>ptype := P_FLT_ARR, floatArrayVal := [atof w]\<rparr>], 1)], Inr ())"
proof -
  obtain q where q: "between q" "mNextCommand q = n" "mNextCommandLine q = 1" "mCurParams q = []"
    and f: "feed ((n @ '' '') @ ''['' @ quoted w @ ''] '' @ [CHR 0x00]) (Parser_new (Tokenizer_new d i f))
      = feed (''['' @ quoted w @ ''] '' @ [CHR 0x00]) q"
    using feed_first_name [OF assms(1), of "''['' @ quoted w @ ''] '' @ [CHR 0x00]" d i f] by blast
  define t1 where "t1 = mpTokenizer q\<lparr>mFloatArray := [], mIntArray := [], mStringArray := [], mState := ARRAY,
      mArrayType := AT_0\<rparr>"
  define t2 where "t2 = t1\<lparr>mIsInArrayItemQuotedString := True, mArrayType := AT_s\<rparr>"
  define t3 where "t3 = t1\<lparr>mIsInArrayItemQuotedString := False, mArrayType := AT_s, mCurToken := w\<rparr>"
  define u where "u = setDataType (t3\<lparr>mArrayType := AT_f, mFloatArray := [atof w], mCurToken := ''''\<rparr>)"
  have t1: "mState t1 = ARRAY" "\<not> mStateInComment t1" "\<not> mIsInArrayItemQuotedString t1" "mCurToken t1 = ''''"
    using q(1) by (simp_all add: t1_def between_def idle_def)
  have 1: "quiet ''['' (mpTokenizer q) = Some t1"
    using array_open q(1) by (simp add: t1_def between_def)
  have 2: "quiet [CHR 0x22] t1 = Some t2"
    using t1 by (simp add: Tokenizer_AddChar_def tokenizer_step_def inputHandleArray_def Let_def t2_def)
  have 3: "quiet w t2 = Some (t2\<lparr>mCurToken := w\<rparr>)"
    using quiet_quoted [of t2 w] t1 assms(3) by (simp add: t2_def)
  have 4: "quiet [CHR 0x22] (t2\<lparr>mCurToken := w\<rparr>) = Some t3"
    using t1 by (simp add: Tokenizer_AddChar_def tokenizer_step_def inputHandleArray_def Let_def t2_def t3_def)
  have quiet: "quiet (''['' @ [CHR 0x22] @ w @ [CHR 0x22]) (mpTokenizer q) = Some t3"
    by (rule quiet_appendI [OF 1 quiet_appendI [OF 2 quiet_appendI [OF 3 4]]])
  have g: "feed (''['' @ quoted w @ ''] '' @ [CHR 0x00]) q
      = feed (CHR '']'' # '' '' @ [CHR 0x00]) (q\<lparr>mpTokenizer := t3\<rparr>)"
    using feed_quiet [OF quiet, of "''] '' @ [CHR 0x00]"] assms(4) q(1)
    by (simp add: quoted_def between_def del: feed.simps)
  have "array_item_type t3 = (Inr (), t3\<lparr>mArrayType := AT_f, mFloatArray := []\<rparr>)"
    using assms(5) isStringStr_no_quote [OF assms(3)]
    by (simp add: array_item_type_def t3_def Let_def changeToFloatArray_def t1_def)
  then have a: "Tokenizer_AddChar CHR '']'' t3 = (Inr True, u)"
    using t1 assms(2)
    by (simp add: Tokenizer_AddChar_def tokenizer_step_def inputHandleArray_def Let_def isWhite_def t3_def
        array_item_push_def u_def)
  have u: "mDataType u = DT_FLOAT_ARRAY" "mFloatArray u = [atof w]"
    using t1 by (simp_all add: u_def t3_def setDataType_def Let_def)
  define q2 where "q2 = q\<lparr>mCurParams := [param_of_token u], mpTokenizer := ResetState u\<rparr>"
  have h: "feed (CHR '']'' # '' '' @ [CHR 0x00]) (q\<lparr>mpTokenizer := t3\<rparr>) = feed ('' '' @ [CHR 0x00]) q2"
    using feed_argument [of "CHR '']''" "q\<lparr>mpTokenizer := t3\<rparr>" u] a u q
    by (simp add: q2_def between_def del: feed.simps)
  have n: "n \<noteq> ''''" using assms(1) by (auto simp: name_ok_def plain_def)
  have "between q2" using q n by (simp add: q2_def between_def)
  moreover have "pending q2 = [(n, [Param_new\<lparr>ptype := P_FLT_ARR, floatArrayVal := [atof w]\<rparr>], 1)]"
    using q n u by (simp add: q2_def pending_def param_of_token_def)
  ultimately show ?thesis
    using f g h feed_tail [of q2] by (auto simp: readArchive_def simp del: feed.simps)
qed

text \<open>
  The type of an array. An empty array leaves \<open>mDataType\<close> as the token before it had set
  it, so after a name it repeats the command and drops the argument. A quoted string that reads
  as a float, such as a version number, turns an array of strings into an array of floats.
\<close>

theorem array_type_confused:
  assumes "name_ok n" and "w \<noteq> ''''" and "CHR 0x22 \<notin> set w" and "CHR 0x00 \<notin> set w" and "isFloatStr w"
  shows "readArchive (Tokenizer_new d i f) (n @ '' [] '') = ([(n, [], 1), (n, [], 1)], Inr ())
    \<and> readArchive (Tokenizer_new d i f) (n @ '' ['' @ quoted w @ ''] '')
      = ([(n, [Param_new\<lparr>ptype := P_FLT_ARR, floatArrayVal := [atof w]\<rparr>], 1)], Inr ())"
  using empty_array_repeats [OF assms(1)] quoted_float_array [OF assms] by simp

theorem array_type_confused_witness:
  "name_ok ''Option'' \<and> isFloatStr ''3.1'' \<and>
   readArchive (Tokenizer_new DT_NONE 0 NaN) (''Option'' @ '' ['' @ quoted ''3.1'' @ ''] '')
      = ([(''Option'', [Param_new\<lparr>ptype := P_FLT_ARR, floatArrayVal := [atof ''3.1'']\<rparr>], 1)], Inr ())"
proof -
  have "name_ok ''Option''" "isFloatStr ''3.1''" by code_simp+
  with array_type_confused [of "''Option''" "''3.1''" DT_NONE 0 NaN] show ?thesis by simp
qed

lemma quiet_comment:
  assumes "mState t = NORMAL" and "\<not> mStateInComment t" and "\<not> mStateCommentStarted t"
    and "\<not> mIsInArrayItemQuotedString t" and "list_all (\<lambda>c. \<not> isNewLine c \<and> c \<noteq> CHR 0x00) com"
  shows "quiet (''#'' @ com @ [CHR 0x0A]) t = Some (t\<lparr>mLineNumber := mLineNumber t + 1\<rparr>)"
proof -
  define u where "u = t\<lparr>mStateInComment := True\<rparr>"
  have "quiet ''#'' t = Some u"
    using assms by (simp add: Tokenizer_AddChar_def u_def)
  moreover have "Tokenizer_AddChar c u = (Inr False, u)" if "\<not> isNewLine c" for c
    using assms that by (simp add: Tokenizer_AddChar_def tokenizer_step_def u_def isNewLine_def)
  then have "quiet com u = Some u"
    using assms(5) by (induction com) auto
  moreover have "quiet [CHR 0x0A] u = Some (t\<lparr>mLineNumber := mLineNumber t + 1\<rparr>)"
    using assms
    by (cases t) (simp add: Tokenizer_AddChar_def tokenizer_step_def isNewLine_def u_def Let_def)
  ultimately show ?thesis by (intro quiet_appendI) auto
qed

lemma joined_word:
  assumes "idle t0" and "plain a" and "plain b" and "list_all (\<lambda>c. \<not> isNewLine c \<and> c \<noteq> CHR 0x00) com"
  shows "quiet (a @ (''#'' @ com @ [CHR 0x0A]) @ b) t0
    = Some (t0\<lparr>mState := NORMAL, mLineNumber := mLineNumber t0 + 1, mCurToken := a @ b\<rparr>)"
proof -
  define t where "t = t0\<lparr>mState := NORMAL, mCurToken := a\<rparr>"
  have t: "mState t = NORMAL" "\<not> mStateInComment t" "\<not> mStateCommentStarted t"
    "\<not> mIsInArrayItemQuotedString t" "mCurToken t = a"
    using assms(1) by (simp_all add: t_def idle_def)
  have b: "quiet b (t\<lparr>mLineNumber := mLineNumber t + 1\<rparr>)
      = Some (t\<lparr>mLineNumber := mLineNumber t + 1, mCurToken := a @ b\<rparr>)"
    using quiet_normal [of "t\<lparr>mLineNumber := mLineNumber t + 1\<rparr>" b] t assms(3) by (simp add: plain_def)
  have a: "quiet a t0 = Some t" using quiet_word [OF assms(1,2)] by (simp add: t_def)
  from quiet_appendI [OF a quiet_appendI [OF quiet_comment [OF t(1-4) assms(4)] b]] show ?thesis
    by (simp add: t_def)
qed

text \<open>
  Comments. The newline that ends a comment is swallowed with it, so a comment written
  directly after a word joins the word with the first word of the next line.
\<close>

theorem comment_joins_words:
  assumes "plain a" and "plain b" and "name_ok (a @ b)" and "list_all (\<lambda>c. \<not> isNewLine c \<and> c \<noteq> CHR 0x00) com"
  shows "readArchive (Tokenizer_new d i f) (a @ ''#'' @ com @ [CHR 0x0A] @ b @ '' '')
    = ([(a @ b, [], 2)], Inr ())"
proof -
  define t0 where "t0 = Tokenizer_new d i f"
  define t where "t = t0\<lparr>mState := NORMAL, mLineNumber := 2, mCurToken := a @ b\<rparr>"
  define p where "p = (Parser_new t0)\<lparr>mpTokenizer := t\<rparr>"
  define u where "u = setDataType t"
  have t0: "idle t0" "mLineNumber t0 = 1" by (simp_all add: t0_def) (simp add: Tokenizer_new_def)
  have nul: "CHR 0x00 \<notin> set (a @ (''#'' @ com @ [CHR 0x0A]) @ b)"
    using plain_no_nul [OF assms(1)] plain_no_nul [OF assms(2)] assms(4) by (auto simp: list_all_iff)
  have f: "feed ((a @ ''#'' @ com @ [CHR 0x0A] @ b @ '' '') @ [CHR 0x00]) (Parser_new t0)
      = feed (CHR '' '' # [CHR 0x00]) p"
    using feed_quiet [of _ "Parser_new t0", OF _ nul, of t "'' '' @ [CHR 0x00]"]
      joined_word [OF t0(1) assms(1,2,4)] t0(2)
    by (simp add: Parser_new_def p_def t_def del: feed.simps)
  have n: "\<not> isFloatStr (a @ b)" "isAlphanumStr (a @ b)" "a @ b \<noteq> ''''" "\<not> isIntStr (a @ b)"
    using assms(3) by (auto simp: name_ok_def plain_def isAlphanumStr_def c_isdigit_def chr_code_def
        split: list.splits)
  then have u: "mDataType u = DT_ALPHANUMERIC" "mDataAlphanum u = a @ b" "mLineNumber u = 2"
    by (simp_all add: u_def t_def setDataType_def Let_def)
  have a: "Tokenizer_AddChar CHR '' '' t = (Inr True, u)"
    using t0 by (simp add: Tokenizer_AddChar_def tokenizer_step_def isWhite_def t_def u_def idle_def)
  obtain l where g: "feed (CHR '' '' # [CHR 0x00]) p =
    (case feed [CHR 0x00] (p\<lparr>mCurCommand := '''', mCurCommandLine := l, mNextCommand := mDataAlphanum u,
         mNextCommandLine := mLineNumber u, mCurParams := [], mpTokenizer := ResetState u\<rparr>) of
       (ds, r, q) \<Rightarrow> (pending p @ ds, r, q))"
    using feed_name [of "CHR '' ''" p u "[CHR 0x00]"] a u by (auto simp: p_def Parser_new_def)
  define q2 where "q2 = p\<lparr>mCurCommand := '''', mCurCommandLine := l, mNextCommand := mDataAlphanum u,
         mNextCommandLine := mLineNumber u, mCurParams := [], mpTokenizer := ResetState u\<rparr>"
  have "between q2" "pending q2 = [(a @ b, [], 2)]" "pending p = []"
    using u n(3) by (simp_all add: q2_def p_def Parser_new_def between_def pending_def)
  then show ?thesis
    using f g feed_eof [of q2] by (auto simp: readArchive_def t0_def q2_def split: prod.splits simp del: feed.simps)
qed

theorem comment_joins_words_witness:
  "readArchive (Tokenizer_new DT_NONE 0 NaN) (''World'' @ ''#'' @ '' x'' @ [CHR 0x0A] @ ''End'' @ '' '')
    = ([(''World'' @ ''End'', [], 2)], Inr ())"
proof -
  have "plain ''World''" "plain ''End''" "name_ok (''World'' @ ''End'')"
    "list_all (\<lambda>c. \<not> isNewLine c \<and> c \<noteq> CHR 0x00) '' x''" by code_simp+
  then show ?thesis by (rule comment_joins_words)
qed

text \<open>
  \<open>Param::NumVec\<close>. Without a size it gives an integer array converted to floats, and
  keeps the conversion for the next call. With a size it accepts an array of any other size:
  the checks \<open>ensIntArr\<close> and \<open>ensFltArr\<close> join their conditions with "and", so they cannot fail
  where they are called; a shorter integer array is padded with zeros, and for a longer one the
  conversion writes past the end.
\<close>

theorem NumVec_size_unchecked:
  assumes "ptype p = P_INT_ARR" and "floatArrayVal p = []" and "ptype q = P_FLT_ARR"
    and "0 < n"
  shows "fst (NumVec None p) = Inr (map flt_of_int (intArrayVal p))
    \<and> NumVec None (snd (NumVec None p)) = NumVec None p
    \<and> NumVec (Some n) q = (Inr (floatArrayVal q), q)
    \<and> fst (NumVec (Some n) p) =
        (if n < length (intArrayVal p) then Inl (Undefined_behaviour ''write past the end of floatArrayVal'')
         else Inr (map flt_of_int (intArrayVal p) @ replicate (n - length (intArrayVal p)) (Fin 0)))"
  using assms by (auto simp: NumVec_def ensFltArr_def ensIntArr_def resize_flt_def Let_def)

theorem NumVec_size_unchecked_witness:
  "fst (NumVec (Some 2) (Param_new\<lparr>ptype := P_INT_ARR, intArrayVal := [1, 2, 3]\<rparr>))
     = Inl (Undefined_behaviour ''write past the end of floatArrayVal'')
   \<and> fst (NumVec (Some 4) (Param_new\<lparr>ptype := P_INT_ARR, intArrayVal := [1, 2, 3]\<rparr>))
     = Inr (map flt_of_int [1, 2, 3] @ [Fin 0])"
  using NumVec_size_unchecked [of "Param_new\<lparr>ptype := P_INT_ARR, intArrayVal := [1, 2, 3]\<rparr>"
      "Param_new\<lparr>ptype := P_FLT_ARR\<rparr>" 2]
    NumVec_size_unchecked [of "Param_new\<lparr>ptype := P_INT_ARR, intArrayVal := [1, 2, 3]\<rparr>"
      "Param_new\<lparr>ptype := P_FLT_ARR\<rparr>" 4]
  by (simp add: Param_new_def numeral_eq_Suc)

end
