(* ===== verification/NetFiles.thy ===== *)
theory NetFiles
  imports MemFile PacketManager
begin

text \<open>
  Files over the network: the message identifiers of \<open>RRL_Net.h\<close>, the client \<open>FileManagerNet\<close>
  (\<open>RRL_Net_FileManager.cpp\<close>) and the thread of \<open>FileServer\<close> (\<open>RRL_Net_FileServer.cpp\<close>), both on
  top of the packet manager. File names are the bytes of a C string. The file system of the
  server is a parameter: whether a file exists, and for a file that opens, the size
  \<open>ftell\<close> reports and the bytes \<open>fread\<close> delivers.
\<close>

section \<open>Messages\<close>

definition MSGID_FILEREQ :: nat where [simp]: "MSGID_FILEREQ = 333"
definition MSGID_FILEREQANS_DATA :: nat where [simp]: "MSGID_FILEREQANS_DATA = 334"
definition MSGID_FILEREQANS_FAIL :: nat where [simp]: "MSGID_FILEREQANS_FAIL = 335"
definition MSGID_FILEEXISTREQ :: nat where [simp]: "MSGID_FILEEXISTREQ = 336"
definition MSGID_FILEEXISTANSYES :: nat where [simp]: "MSGID_FILEEXISTANSYES = 337"
definition MSGID_FILEEXISTANSNO :: nat where [simp]: "MSGID_FILEEXISTANSNO = 338"
definition MSGID_RENDJOB :: nat where [simp]: "MSGID_RENDJOB = 339"
definition MSGID_RENDBUCKETS :: nat where [simp]: "MSGID_RENDBUCKETS = 340"
definition MSGID_RENDDONE :: nat where [simp]: "MSGID_RENDDONE = 341"
definition MSGID_BUCKETDATA :: nat where [simp]: "MSGID_BUCKETDATA = 342"

definition GetMsgID :: "Packet \<Rightarrow> nat res" where
  "GetMsgID pPacket =
     (if length (pk_mDataBuff pPacket) < 4 then Inl (Undefined_behaviour ''GetMsgID'')
      else Inr (le_nat (take 4 (pk_mDataBuff pPacket))))"

text \<open>\<open>PacketManager::SendValue\<close> of an unsigned integer.\<close>

definition SendValue_U32 :: "nat \<Rightarrow> PacketManager \<Rightarrow> PacketManager" where
  "SendValue_U32 v s = Send (le_bytes 4 v) s"

section \<open>The client\<close>

text \<open>
  The message both functions of \<open>FileManagerNet\<close> build in a local array of 2048 bytes, here
  \<open>buff\<close> with whatever it holds. \<open>DASSERT\<close> is empty in the release build, so a long name runs
  over the end of the array.
\<close>

definition file_request :: "nat \<Rightarrow> bytes \<Rightarrow> bytes \<Rightarrow> bytes res" where
  "file_request msgID pFileName buff =
     (let nameLen = length pFileName mod 2 ^ 32 in
      case stx_bind (MemWriter_WriteValue (le_bytes 4 msgID)) (\<lambda>_.
             stx_bind (MemWriter_WriteValue (le_bytes 4 nameLen)) (\<lambda>_.
               MemWriter_WriteArray (map (\<lambda>b. [b]) (take nameLen pFileName))))
             (MemWriter_init buff (of_nat (length buff))) of
        (Inl e, _) \<Rightarrow> Inl e
      | (Inr _, writer) \<Rightarrow> Inr (take (unat (MemWriter_GetCurSize writer)) (mw_mpDest writer)))"

text \<open>
  The waiting loop of both functions: check the connection, wait for a packet with one of the
  identifiers, and let \<open>handle\<close> decide whether the loop ends. There is one list of
  environment actions for each wait; \<open>None\<close> means that the call is still waiting.
\<close>

fun answer_loop ::
  "nat list \<Rightarrow> (Packet \<Rightarrow> 'a res option) \<Rightarrow> ((PacketManager \<Rightarrow> PacketManager) \<times> bool) list list
     \<Rightarrow> PacketManager \<Rightarrow> ('a res \<times> PacketManager) option" where
  "answer_loop ids handle envs s =
     (if \<not> IsConnected s then Some (Inl (Runtime_error ''Could not read, connection broken !''), s)
      else case envs of
        [] \<Rightarrow> None
      | env # envs' \<Rightarrow>
          (case WaitNextPacketMatchID32 True ids False env s of
             None \<Rightarrow> None
           | Some (Inl e, s') \<Rightarrow> Some (Inl e, s')
           | Some (Inr None, s') \<Rightarrow> answer_loop ids handle envs' s'
           | Some (Inr (Some p), s') \<Rightarrow>
               (case handle p of
                  None \<Rightarrow> answer_loop ids handle envs' s'
                | Some r \<Rightarrow> Some (r, s'))))"

declare answer_loop.simps [simp del]

text \<open>
  The answer to \<open>GrabFile\<close>. The addresses \<open>&out_vec[0]\<close> and \<open>&mDataBuff[4]\<close> do not exist when
  the file is empty.
\<close>

definition GrabFile_answer :: "bytes \<Rightarrow> Packet \<Rightarrow> bytes res" where
  "GrabFile_answer out_vec pPacket =
     (case GetMsgID pPacket of
        Inl e \<Rightarrow> Inl e
      | Inr msgID \<Rightarrow>
          if msgID = MSGID_FILEREQANS_DATA then
            (let dataSize = length (pk_mDataBuff pPacket) - 4 in
             if dataSize = 0 then Inl (Undefined_behaviour ''element 0 of an empty vector'')
             else Inr (drop 4 (pk_mDataBuff pPacket)))
          else if msgID = MSGID_FILEREQANS_FAIL
          then Inl (Runtime_error ''ERROR: Could not retrieve the file !'')
          else Inr out_vec)"

definition GrabFile ::
  "bytes \<Rightarrow> bytes \<Rightarrow> bytes \<Rightarrow> ((PacketManager \<Rightarrow> PacketManager) \<times> bool) list list
     \<Rightarrow> PacketManager \<Rightarrow> (bytes res \<times> PacketManager) option" where
  "GrabFile pFileName buff out_vec envs s =
     (case file_request MSGID_FILEREQ pFileName buff of
        Inl e \<Rightarrow> Some (Inl e, s)
      | Inr req \<Rightarrow>
          answer_loop [MSGID_FILEREQANS_DATA, MSGID_FILEREQANS_FAIL]
            (\<lambda>p. Some (GrabFile_answer out_vec p)) envs (Send req s))"

definition FileExists_answer :: "Packet \<Rightarrow> bool res option" where
  "FileExists_answer pPacket =
     (case GetMsgID pPacket of
        Inl e \<Rightarrow> Some (Inl e)
      | Inr msgID \<Rightarrow>
          if msgID = MSGID_FILEEXISTANSYES then Some (Inr True)
          else if msgID = MSGID_FILEEXISTANSNO then Some (Inr False)
          else None)"

definition FileExists ::
  "bytes \<Rightarrow> bytes \<Rightarrow> ((PacketManager \<Rightarrow> PacketManager) \<times> bool) list list
     \<Rightarrow> PacketManager \<Rightarrow> (bool res \<times> PacketManager) option" where
  "FileExists pFileName buff envs s =
     (case file_request MSGID_FILEEXISTREQ pFileName buff of
        Inl e \<Rightarrow> Some (Inl e, s)
      | Inr req \<Rightarrow>
          answer_loop [MSGID_FILEEXISTANSYES, MSGID_FILEEXISTANSNO] FileExists_answer envs (Send req s))"

section \<open>The server\<close>

record file_system =
  fsys_exists :: "bytes \<Rightarrow> bool"
  fsys_open :: "bytes \<Rightarrow> (nat \<times> bytes) option"

text \<open>
  \<open>makeString\<close> copies the name into an array of \<open>destMaxSize\<close> characters and ends it with a
  zero; its users see the C string, up to the first zero. \<open>None\<close> is the result \<open>false\<close>.
\<close>

definition makeString :: "nat \<Rightarrow> (MemReader, bytes option) stx" where
  "makeString destMaxSize =
     stx_bind (ReadValue 4) (\<lambda>lenb.
       let strLen = le_nat lenb in
       if strLen \<ge> destMaxSize then stx_return None
       else stx_bind (GetDataPtr (of_nat strLen)) (\<lambda>p r.
         if unat p + strLen \<le> length (rd_mpSrc r)
         then (Inr (Some (takeWhile (\<lambda>b. b \<noteq> 0) (take strLen (drop (unat p) (rd_mpSrc r))))), r)
         else (Inl (Undefined_behaviour ''makeString''), r)))"

definition answer_exist :: "file_system \<Rightarrow> bytes \<Rightarrow> PacketManager \<Rightarrow> PacketManager" where
  "answer_exist fsys name s =
     (if fsys_exists fsys name then SendValue_U32 MSGID_FILEEXISTANSYES s
      else SendValue_U32 MSGID_FILEEXISTANSNO s)"

text \<open>
  The answer to a file request. The result of \<open>EndGrabFile\<close> is ignored: after a short read the
  end of the packet keeps its initial zeros.
\<close>

definition answer_file :: "file_system \<Rightarrow> bytes \<Rightarrow> PacketManager \<Rightarrow> unit res \<times> PacketManager" where
  "answer_file fsys name s =
     (case fsys_open fsys name of
        None \<Rightarrow> (Inr (), SendValue_U32 MSGID_FILEREQANS_FAIL s)
      | Some (fileSize, got) \<Rightarrow>
          let (pOutPacket, s1) = SendBegin (fileSize + 4) s;
              writer = MemWriter_init (drop 4 (pk_mDataBuff pOutPacket)) (of_nat fileSize)
          in case MemWriter_WriteValue (le_bytes 4 MSGID_FILEREQANS_DATA) writer of
               (Inl e, _) \<Rightarrow> (Inl e, s1)
             | (Inr _, writer1) \<Rightarrow>
                 let (pDest, writer2) = MemWriter_Grow (of_nat fileSize) writer1;
                     data = overwrite (mw_mpDest writer2) (unat pDest) (take fileSize got)
                 in (Inr (), SendEnd (pOutPacket\<lparr>pk_mDataBuff :=
                       take 4 (pk_mDataBuff pOutPacket) @ data\<rparr>) s1))"

text \<open>
  Serving one packet. A name that does not fit is dropped with a printed message and no
  answer. An exception of the reader leaves the thread, which ends the program.
\<close>

definition serve_packet :: "file_system \<Rightarrow> Packet \<Rightarrow> PacketManager \<Rightarrow> unit res \<times> PacketManager" where
  "serve_packet fsys pPacket s =
     (case ReadValue 4 (MemReader_of_vec (pk_mDataBuff pPacket)) of
        (Inl e, _) \<Rightarrow> (Inl e, s)
      | (Inr idb, reader) \<Rightarrow>
          let msgID = le_nat idb in
          if msgID = MSGID_FILEEXISTREQ then
            (case fst (makeString 1024 reader) of
               Inl e \<Rightarrow> (Inl e, s)
             | Inr None \<Rightarrow> (Inr (), s)
             | Inr (Some name) \<Rightarrow> (Inr (), answer_exist fsys name s))
          else if msgID = MSGID_FILEREQ then
            (case fst (makeString 1024 reader) of
               Inl e \<Rightarrow> (Inl e, s)
             | Inr None \<Rightarrow> (Inr (), s)
             | Inr (Some name) \<Rightarrow> answer_file fsys name s)
          else (Inr (), s))"

record FileServer =
  fsv_mQuitRequest :: bool
  fsv_mQuitAck :: bool

text \<open>One turn of the loop of \<open>FileServer::threadMain\<close>; \<open>None\<close> means that it is still waiting.\<close>

definition FileServer_turn ::
  "file_system \<Rightarrow> ((PacketManager \<Rightarrow> PacketManager) \<times> bool) list \<Rightarrow> FileServer \<Rightarrow> PacketManager
     \<Rightarrow> (unit res \<times> FileServer \<times> PacketManager) option" where
  "FileServer_turn fsys env f s =
     (if fsv_mQuitRequest f then Some (Inr (), f\<lparr>fsv_mQuitAck := True\<rparr>, s)
      else if \<not> IsConnected s then Some (Inr (), f, s)
      else case WaitNextPacketMatchID32 True [MSGID_FILEEXISTREQ, MSGID_FILEREQ] False env s of
        None \<Rightarrow> None
      | Some (Inl e, s') \<Rightarrow> Some (Inl e, f, s')
      | Some (Inr None, s') \<Rightarrow> Some (Inr (), f, s')
      | Some (Inr (Some p), s') \<Rightarrow>
          (case serve_packet fsys p s' of (r, s'') \<Rightarrow> Some (r, f, s'')))"


section \<open>Requests and answers\<close>

lemma overwrite_overwrite:
  assumes "i + length xs \<le> length ds"
  shows "overwrite (overwrite ds i xs) (i + length xs) ys = overwrite ds i (xs @ ys)"
  using assms by (simp add: overwrite_def ac_simps)

lemma WriteArray_bytes:
  "unat (mw_mIdx w) + length bs \<le> length (mw_mpDest w) \<Longrightarrow> length (mw_mpDest w) < 2 ^ 64 \<Longrightarrow>
     MemWriter_WriteArray (map (\<lambda>b. [b]) bs) w
       = (Inr (), w\<lparr>mw_mpDest := overwrite (mw_mpDest w) (unat (mw_mIdx w)) bs,
                    mw_mIdx := mw_mIdx w + of_nat (length bs)\<rparr>)"
proof (induction bs arbitrary: w)
  case Nil
  then show ?case by (simp add: overwrite_def)
next
  case (Cons b bs)
  let ?w = "w\<lparr>mw_mpDest := overwrite (mw_mpDest w) (unat (mw_mIdx w)) [b], mw_mIdx := mw_mIdx w + 1\<rparr>"
  have i: "unat (mw_mIdx w + 1) = unat (mw_mIdx w) + 1"
    using Cons.prems unat_add_size [of "mw_mIdx w" 1] by simp
  have l: "length (overwrite (mw_mpDest w) (unat (mw_mIdx w)) [b]) = length (mw_mpDest w)"
    using Cons.prems by (simp add: overwrite_def)
  have "MemWriter_WriteArray (map (\<lambda>b. [b]) (b # bs)) w = MemWriter_WriteArray (map (\<lambda>b. [b]) bs) ?w"
    using Cons.prems by (simp add: stx_bind_def MemWriter_WriteValue_def)
  also have "\<dots> = (Inr (), ?w\<lparr>mw_mpDest := overwrite (mw_mpDest ?w) (unat (mw_mIdx ?w)) bs,
                    mw_mIdx := mw_mIdx ?w + of_nat (length bs)\<rparr>)"
    using Cons.prems i l by (intro Cons.IH) simp_all
  finally show ?case
    using Cons.prems i overwrite_overwrite [of "unat (mw_mIdx w)" "[b]" "mw_mpDest w" bs]
    by (simp add: algebra_simps)
qed

lemma WriteArray_overrun:
  "unat (mw_mIdx w) \<le> length (mw_mpDest w) \<Longrightarrow>
     length (mw_mpDest w) < unat (mw_mIdx w) + length bs \<Longrightarrow> length (mw_mpDest w) < 2 ^ 64 \<Longrightarrow>
     fst (MemWriter_WriteArray (map (\<lambda>b. [b]) bs) w) = Inl (Undefined_behaviour ''MemWriter::WriteValue'')"
proof (induction bs arbitrary: w)
  case Nil
  then show ?case by simp
next
  case (Cons b bs)
  show ?case
  proof (cases "unat (mw_mIdx w) + 1 \<le> length (mw_mpDest w)")
    case True
    then have i: "unat (mw_mIdx w + 1) = unat (mw_mIdx w) + 1"
      using Cons.prems unat_add_size [of "mw_mIdx w" 1] by simp
    with True Cons.prems show ?thesis
      by (simp add: stx_bind_def MemWriter_WriteValue_def) (subst Cons.IH, simp_all add: overwrite_def)
  next
    case False
    then show ?thesis by (simp add: stx_bind_def MemWriter_WriteValue_def)
  qed
qed

text \<open>The buffer after the identifier and the length, the common part of both requests.\<close>

definition request_head :: "nat \<Rightarrow> nat \<Rightarrow> bytes" where
  "request_head msgID n = le_bytes 4 msgID @ le_bytes 4 n"

lemma request_writer:
  assumes "length buff = 2048" and "length name < 2 ^ 32"
  shows "stx_bind (MemWriter_WriteValue (le_bytes 4 msgID)) (\<lambda>_.
             stx_bind (MemWriter_WriteValue (le_bytes 4 (length name))) (\<lambda>_.
               MemWriter_WriteArray (map (\<lambda>b. [b]) name)))
             (MemWriter_init buff 2048)
       = MemWriter_WriteArray (map (\<lambda>b. [b]) name)
           \<lparr>mw_mpDest = overwrite buff 0 (request_head msgID (length name)), mw_mIdx = 8, mw_mMaxSize = 2048\<rparr>"
  using assms by (simp add: stx_bind_def MemWriter_WriteValue_def MemWriter_init_def overwrite_def
      request_head_def)

lemma file_request_ok:
  assumes "length buff = 2048" and "length name \<le> 2040"
  shows "file_request msgID name buff = Inr (request_head msgID (length name) @ name)"
proof -
  let ?h = "request_head msgID (length name)"
  let ?w = "\<lparr>mw_mpDest = overwrite buff 0 ?h, mw_mIdx = 8, mw_mMaxSize = 2048\<rparr> :: MemWriter"
  have h: "length ?h = 8" by (simp add: request_head_def)
  have l: "length (overwrite buff 0 ?h) = 2048" using assms h by (simp add: overwrite_def)
  have "MemWriter_WriteArray (map (\<lambda>b. [b]) name) ?w
      = (Inr (), ?w\<lparr>mw_mpDest := overwrite buff 0 (?h @ name), mw_mIdx := 8 + of_nat (length name)\<rparr>)"
    using assms l h overwrite_overwrite [of 0 ?h buff name]
    by (subst WriteArray_bytes) simp_all
  moreover have "unat (8 + of_nat (length name) :: size_t) = 8 + length name"
    using assms unat_add_size [of 8 "of_nat (length name)"] by (simp add: unat_of_nat_size)
  moreover have "length name mod 4294967296 = length name" using assms by simp
  ultimately show ?thesis
    using assms h request_writer [of buff name msgID]
    by (simp add: file_request_def MemWriter_GetCurSize_def overwrite_def)
qed

lemma file_request_overrun:
  assumes "length buff = 2048" and "2040 < length name" and "length name < 2 ^ 32"
  shows "file_request msgID name buff = Inl (Undefined_behaviour ''MemWriter::WriteValue'')"
proof -
  let ?h = "request_head msgID (length name)"
  let ?w = "\<lparr>mw_mpDest = overwrite buff 0 ?h, mw_mIdx = 8, mw_mMaxSize = 2048\<rparr> :: MemWriter"
  have "length (overwrite buff 0 ?h) = 2048" using assms by (simp add: overwrite_def request_head_def)
  with assms have "fst (MemWriter_WriteArray (map (\<lambda>b. [b]) name) ?w)
      = Inl (Undefined_behaviour ''MemWriter::WriteValue'')"
    by (intro WriteArray_overrun) simp_all
  then show ?thesis
    using assms request_writer [of buff name msgID]
    by (auto simp: file_request_def split: prod.splits sum.splits)
qed

lemma ReadValue_at:
  assumes "rd_mpSrc r = a @ v @ c" and "unat (rd_mIdx r) = length a" and "length v = n"
    and "unat (rd_mMaxSize r) = length (rd_mpSrc r)" and "length (rd_mpSrc r) < 2 ^ 64"
  shows "ReadValue n r = (Inr v, r\<lparr>rd_mIdx := rd_mIdx r + of_nat n\<rparr>)"
proof -
  have n: "n < 2 ^ 64" using assms by simp
  have "unat (rd_mIdx r + of_nat n) = length a + n"
    using assms n by (subst unat_add_size) (simp_all add: unat_of_nat_size)
  then have "rd_mIdx r + of_nat n \<le> rd_mMaxSize r"
    using assms by (simp add: word_le_nat_alt)
  then show ?thesis using assms by (simp add: ReadValue_def PeekValue_def)
qed

lemma makeString_at:
  assumes "rd_mpSrc r = a @ le_bytes 4 (length name) @ name" and "unat (rd_mIdx r) = length a"
    and "unat (rd_mMaxSize r) = length (rd_mpSrc r)" and "length (rd_mpSrc r) < 2 ^ 64"
    and "length name < 2 ^ 32"
  shows "fst (makeString m r)
    = (if m \<le> length name then Inr None else Inr (Some (takeWhile (\<lambda>b. b \<noteq> 0) name)))"
proof -
  let ?r = "r\<lparr>rd_mIdx := rd_mIdx r + 4\<rparr>"
  have v: "ReadValue 4 r = (Inr (le_bytes 4 (length name)), ?r)"
    using ReadValue_at [OF assms(1,2), of 4] assms(3,4) by simp
  have len: "le_nat (le_bytes 4 (length name)) = length name"
    using assms(5) by (simp add: le_nat_le_bytes)
  have i: "unat (rd_mIdx r + 4) = length a + 4"
    using assms by (subst unat_add_size) simp_all
  have "unat (rd_mIdx r + 4 + of_nat (length name)) = length a + 4 + length name"
    using assms i by (subst unat_add_size) (simp_all add: unat_of_nat_size)
  then have "\<not> rd_mMaxSize r < rd_mIdx r + 4 + of_nat (length name)"
    using assms by (simp add: word_less_nat_alt)
  with v len i assms show ?thesis
    by (simp add: makeString_def stx_bind_def Let_def GetDataPtr_def)
qed


lemma serve_reads_name:
  assumes "pk_mDataBuff p = request_head msgID (length name) @ name" and "length name < 2 ^ 32"
    and "msgID < 2 ^ 32"
  obtains reader where "ReadValue 4 (MemReader_of_vec (pk_mDataBuff p)) = (Inr (le_bytes 4 msgID), reader)"
    and "fst (makeString 1024 reader)
      = (if 1024 \<le> length name then Inr None else Inr (Some (takeWhile (\<lambda>b. b \<noteq> 0) name)))"
proof -
  let ?d = "pk_mDataBuff p" and ?r = "MemReader_of_vec (pk_mDataBuff p)"
  have l: "length ?d < 2 ^ 64" using assms by (simp add: request_head_def)
  have r: "rd_mpSrc ?r = ?d" "unat (rd_mMaxSize ?r) = length ?d" "rd_mIdx ?r = 0"
    using l by (simp_all add: MemReader_of_vec_def MemReader_init_def MemReader_empty_def unat_of_nat_size)
  have "ReadValue 4 ?r = (Inr (le_bytes 4 msgID), ?r\<lparr>rd_mIdx := rd_mIdx ?r + of_nat 4\<rparr>)"
    using r l assms(1)
    by (intro ReadValue_at [of _ "[]" _ "le_bytes 4 (length name) @ name"]) (simp_all add: request_head_def)
  moreover have "fst (makeString 1024 (?r\<lparr>rd_mIdx := rd_mIdx ?r + of_nat 4\<rparr>))
      = (if 1024 \<le> length name then Inr None else Inr (Some (takeWhile (\<lambda>b. b \<noteq> 0) name)))"
    using r l assms by (intro makeString_at [of _ "le_bytes 4 msgID"]) (simp_all add: request_head_def)
  ultimately show ?thesis by (rule that)
qed

lemma takeWhile_no_zero: "0 \<notin> set (name :: bytes) \<Longrightarrow> takeWhile (\<lambda>b. b \<noteq> 0) name = name"
  by (auto simp: takeWhile_eq_all_conv)

lemma serve_request:
  assumes "pk_mDataBuff p = request_head msgID (length name) @ name" and "length name < 2 ^ 32"
    and "msgID \<in> {MSGID_FILEREQ, MSGID_FILEEXISTREQ}"
  shows "serve_packet fsys p s =
    (if 1024 \<le> length name then (Inr (), s)
     else if msgID = MSGID_FILEREQ then answer_file fsys (takeWhile (\<lambda>b. b \<noteq> 0) name) s
     else (Inr (), answer_exist fsys (takeWhile (\<lambda>b. b \<noteq> 0) name) s))"
proof -
  have "msgID < 2 ^ 32" using assms(3) by auto
  with assms obtain reader where
    r: "ReadValue 4 (MemReader_of_vec (pk_mDataBuff p)) = (Inr (le_bytes 4 msgID), reader)"
    and m: "fst (makeString 1024 reader)
      = (if 1024 \<le> length name then Inr None else Inr (Some (takeWhile (\<lambda>b. b \<noteq> 0) name)))"
    by (blast elim: serve_reads_name)
  have "le_nat (le_bytes 4 msgID) = msgID" using \<open>msgID < 2 ^ 32\<close> by (simp add: le_nat_le_bytes)
  with r m assms(3) show ?thesis by (auto simp: serve_packet_def)
qed

lemma answer_file_data:
  assumes "fsys_open fsys name = Some (length content, content)" and "length content + 4 < 2 ^ 64"
  shows "answer_file fsys name s = (Inr (), Send (le_bytes 4 MSGID_FILEREQANS_DATA @ content) s)"
  using assms
  by (simp add: answer_file_def SendBegin_def MemWriter_init_def MemWriter_WriteValue_def
      MemWriter_Grow_def SendEnd_def Send_def frame_def overwrite_def add.commute [of "length content" 4])

section \<open>Waiting while packets arrive\<close>

text \<open>The environment of a wait: turns of the packet thread, none of which uses up the time.\<close>

definition turns :: "sock_env list \<Rightarrow> ((PacketManager \<Rightarrow> PacketManager) \<times> bool) list" where
  "turns ts = map (\<lambda>t. (\<lambda>s. snd (threadMain_turn t s), False)) ts"

lemma fatal_delivers_nothing:
  "pm_mFatalError s \<Longrightarrow> run_delivered (map ATurn ts) s = []"
proof (induction ts arbitrary: s)
  case Nil
  then show ?case by simp
next
  case (Cons t ts)
  have q: "pm_mFatalError (snd (threadMain_turn t s))"
    "pm_mRecvOutQueue (snd (threadMain_turn t s)) = pm_mRecvOutQueue s"
    using Cons.prems by (simp_all add: threadMain_turn_def)
  then show ?case using Cons.IH [OF q(1)] by (simp add: turn_delivered_def)
qed

lemma match_single:
  assumes "pm_mRecvOutQueue s = [p]" and "4 \<le> length (pk_mDataBuff p)"
    and "le_nat (take 4 (pk_mDataBuff p)) \<in> set ids"
  shows "GetNextPacketMatchID32 True ids s = (Inr (Some p), s\<lparr>pm_mRecvOutQueue := []\<rparr>)"
  using assms by (simp add: GetNextPacketMatchID32_def GetNextPacketMatch_def erase_at_def)

lemma wait_finds:
  assumes "pm_mRecvOutQueue s = [p]" and "4 \<le> length (pk_mDataBuff p)"
    and "le_nat (take 4 (pk_mDataBuff p)) \<in> set ids"
  shows "wait_loop (GetNextPacketMatchID32 True ids) forever ex env s
    = Some (Inr (Some p), s\<lparr>pm_mRecvOutQueue := []\<rparr>)"
  by (subst wait_loop.simps) (simp add: match_single [OF assms])

text \<open>A wait over turns that deliver one packet, with a wanted identifier, returns it.\<close>

lemma wait_loop_delivers:
  assumes "send_ok s" and "recv_ok s" and "whole_heads (map ATurn ts)"
    and "pm_mRecvOutQueue s = []" and "run_delivered (map ATurn ts) s = [d]"
    and "4 \<le> length d" and "le_nat (take 4 d) \<in> set ids"
  shows "\<exists>p s'. wait_loop (GetNextPacketMatchID32 True ids) forever False (turns ts) s
      = Some (Inr (Some p), s') \<and> pk_mDataBuff p = d"
  using assms
proof (induction ts arbitrary: s)
  case Nil
  then show ?case by simp
next
  case (Cons t ts)
  let ?s1 = "snd (threadMain_turn t s)"
  obtain o1 where t: "threadMain_turn t s = (o1, ?s1)" by (metis prod.collapse)
  have ok: "send_ok ?s1"
    using pm_step_stream [OF Cons.prems(1), of "ATurn t" o1 ?s1] t by simp
  from turn_deframe [OF Cons.prems(1,2) _ t] Cons.prems(3,4)
  have td: "map pk_mDataBuff (pm_mRecvOutQueue ?s1) = turn_delivered t s" and ro: "recv_ok ?s1"
    by (auto simp: turn_delivered_def)
  have nf: "\<not> pm_mFatalError s"
    using fatal_delivers_nothing [of s "t # ts"] Cons.prems(5) by auto
  have loop: "wait_loop (GetNextPacketMatchID32 True ids) forever False (turns (t # ts)) s
      = wait_loop (GetNextPacketMatchID32 True ids) forever False (turns ts) ?s1"
    using nf Cons.prems(4) by (subst wait_loop.simps)
      (simp add: turns_def GetNextPacketMatchID32_def GetNextPacketMatch_def)
  show ?case
  proof (cases "turn_delivered t s")
    case Nil
    then have "pm_mRecvOutQueue ?s1 = []" using td by simp
    with Cons.IH [OF ok ro] Cons.prems Nil loop show ?thesis by simp
  next
    case (Cons d' ds)
    with Cons.prems(5) have "turn_delivered t s = [d]" by auto
    with td obtain p where p: "pm_mRecvOutQueue ?s1 = [p]" "pk_mDataBuff p = d" by auto
    with loop wait_finds [OF p(1), of ids forever False "turns ts"] Cons.prems(6,7)
    show ?thesis by auto
  qed
qed


section \<open>One packet over a connection\<close>

lemma sent_data_turns [simp]: "sent_data (map ATurn ts) = []"
  by (induction ts) auto

lemma turns_delivered:
  assumes "send_ok s" and "out_stream s = frame d" and "length d < 2 ^ 32"
    and "send_ok r" and "recv_ok r" and "recv_partial r = []" and "whole_heads (map ATurn rs)"
    and "fst (pm_run (map ATurn ss) s) = run_got (map ATurn rs) r @ transit"
    and "run_delivered (map ATurn rs) r \<noteq> []"
  shows "run_delivered (map ATurn rs) r = [d]"
proof -
  let ?got = "run_got (map ATurn rs) r"
  obtain wire s' where "pm_run (map ATurn ss) s = (wire, s')" by force
  with pm_run_stream [OF assms(1) this] assms(2,8)
  have "?got @ transit @ out_stream s' = concat (map frame [d])" by auto
  then have all: "deframe (?got @ transit @ out_stream s') = ([d], [])"
    using deframe_frames [of "[d]"] assms(3) by simp
  have "fst (deframe ?got) = run_delivered (map ATurn rs) r"
    using run_deframe [OF assms(4,5,7)] assms(6) by simp
  with all deframe_append [of ?got "transit @ out_stream s'"] assms(9) show ?thesis
    by (cases "run_delivered (map ATurn rs) r") auto
qed

lemma turns_queue:
  "send_ok s \<Longrightarrow> recv_ok s \<Longrightarrow> whole_heads (map ATurn ts) \<Longrightarrow>
     map pk_mDataBuff (pm_mRecvOutQueue (snd (pm_run (map ATurn ts) s)))
       = map pk_mDataBuff (pm_mRecvOutQueue s) @ run_delivered (map ATurn ts) s"
proof (induction ts arbitrary: s)
  case Nil
  then show ?case by simp
next
  case (Cons t ts)
  let ?s1 = "snd (threadMain_turn t s)"
  obtain o1 where t: "threadMain_turn t s = (o1, ?s1)" by (metis prod.collapse)
  have ok: "send_ok ?s1"
    using pm_step_stream [OF Cons.prems(1), of "ATurn t" o1 ?s1] t by simp
  from turn_deframe [OF Cons.prems(1,2) _ t] Cons.prems(3)
  have q: "pm_mRecvOutQueue ?s1
      = pm_mRecvOutQueue s @ drop (length (pm_mRecvOutQueue s)) (pm_mRecvOutQueue ?s1)"
    and ro: "recv_ok ?s1" by auto
  have "map pk_mDataBuff (pm_mRecvOutQueue ?s1)
      = map pk_mDataBuff (pm_mRecvOutQueue s) @ turn_delivered t s"
    by (subst q) (simp add: turn_delivered_def)
  with Cons.IH [OF ok ro] Cons.prems(3) show ?case by (simp add: case_prod_beta)
qed

lemma served_turn:
  assumes "IsConnected s" and "pm_mRecvOutQueue s = [p]" and "\<not> fsv_mQuitRequest f"
    and "pk_mDataBuff p = request_head msgID (length name) @ name" and "length name < 2 ^ 32"
    and "msgID \<in> {MSGID_FILEREQ, MSGID_FILEEXISTREQ}"
  shows "FileServer_turn fsys env f s
    = (case serve_packet fsys p (s\<lparr>pm_mRecvOutQueue := []\<rparr>) of (r, s') \<Rightarrow> Some (r, f, s'))"
proof -
  have "le_nat (take 4 (pk_mDataBuff p)) \<in> set [MSGID_FILEEXISTREQ, MSGID_FILEREQ]"
    using assms(4,6) by (auto simp: request_head_def le_nat_le_bytes)
  moreover have "4 \<le> length (pk_mDataBuff p)" using assms(4) by (simp add: request_head_def)
  ultimately have "WaitNextPacketMatchID32 True [MSGID_FILEEXISTREQ, MSGID_FILEREQ] False env s
      = Some (Inr (Some p), s\<lparr>pm_mRecvOutQueue := []\<rparr>)"
    using assms(1) wait_finds [OF assms(2)] unfolding WaitNextPacketMatchID32_def IsConnected_def
    by simp
  with assms(1,3) show ?thesis by (simp add: FileServer_turn_def)
qed

text \<open>A call of the client whose wait sees exactly one wanted answer.\<close>

lemma answer_loop_delivers:
  assumes "IsConnected s" and "send_ok s" and "recv_ok s" and "whole_heads (map ATurn ts)"
    and "pm_mRecvOutQueue s = []" and "run_delivered (map ATurn ts) s = [d]"
    and "4 \<le> length d" and "le_nat (take 4 d) \<in> set ids"
    and "\<And>p. pk_mDataBuff p = d \<Longrightarrow> handle p = Some r"
  shows "\<exists>s'. answer_loop ids handle [turns ts] s = Some (r, s')"
proof -
  from wait_loop_delivers [OF assms(2-8), of False] obtain p s' where
    w: "wait_loop (GetNextPacketMatchID32 True ids) False False (turns ts) s = Some (Inr (Some p), s')"
    and d: "pk_mDataBuff p = d" by blast
  have "\<not> pm_mFatalError s" using assms(1) by (simp add: IsConnected_def)
  with w d assms(1,9) show ?thesis
    by (subst answer_loop.simps) (simp add: WaitNextPacketMatchID32_def)
qed

lemma init_connected [simp]: "IsConnected (PacketManager_init (Some a))"
  by (simp add: IsConnected_def PacketManager_init_def)

lemma sent_init:
  assumes "s = Send d (PacketManager_init (Some a))"
  shows "IsConnected s" "send_ok s" "recv_ok s" "recv_partial s = []" "out_stream s = frame d"
    "pm_mRecvOutQueue s = []"
proof -
  show "send_ok s" "out_stream s = frame d"
    using assms Send_stream [where d = d and s = "PacketManager_init (Some a)"] init_send_ok [of "Some a"] by simp_all
  show "IsConnected s" "recv_ok s" "recv_partial s = []" "pm_mRecvOutQueue s = []"
    using assms by (simp_all add: IsConnected_def recv_ok_def recv_partial_def Send_def PacketManager_init_def)
qed

lemma answered_stream:
  assumes "pm_run (map ATurn ss) (PacketManager_init (Some b)) = (w, sv)"
    and "sv2 = Send d (sv\<lparr>pm_mRecvOutQueue := []\<rparr>)"
  shows "send_ok sv2" "out_stream sv2 = frame d"
proof -
  from pm_run_stream [OF init_send_ok(1) assms(1)] init_send_ok(2)
  have "out_stream sv = []" "send_ok sv" by auto
  moreover have "out_stream (sv\<lparr>pm_mRecvOutQueue := []\<rparr>) = out_stream sv"
    "send_ok (sv\<lparr>pm_mRecvOutQueue := []\<rparr>) = send_ok sv"
    by (simp_all add: out_stream_def send_ok_def)
  ultimately show "send_ok sv2" "out_stream sv2 = frame d"
    using assms(2) Send_stream [where d = d and s = "sv\<lparr>pm_mRecvOutQueue := []\<rparr>"] by simp_all
qed


text \<open>
  A connection between two new managers over which the client has sent \<open>req\<close>: the server's
  turns \<open>ss\<close> take a prefix of what the client's turns \<open>ts\<close> put on the wire, and the request has
  arrived.
\<close>

definition request_arrived ::
  "nat \<Rightarrow> sock_env list \<Rightarrow> nat \<Rightarrow> sock_env list \<Rightarrow> bytes \<Rightarrow> bool" where
  "request_arrived a ts b ss req \<longleftrightarrow>
     whole_heads (map ATurn ss)
     \<and> (\<exists>transit. fst (pm_run (map ATurn ts) (Send req (PacketManager_init (Some a))))
          = run_got (map ATurn ss) (PacketManager_init (Some b)) @ transit)
     \<and> run_delivered (map ATurn ss) (PacketManager_init (Some b)) \<noteq> []"

text \<open>The way back: the client's turns take a prefix of what the server then sends.\<close>

definition answer_arrived ::
  "nat \<Rightarrow> sock_env list \<Rightarrow> bytes \<Rightarrow> PacketManager \<Rightarrow> sock_env list \<Rightarrow> bool" where
  "answer_arrived a ts req sv2 ss2 \<longleftrightarrow>
     whole_heads (map ATurn ts)
     \<and> (\<exists>transit. fst (pm_run (map ATurn ss2) sv2)
          = run_got (map ATurn ts) (Send req (PacketManager_init (Some a))) @ transit)
     \<and> run_delivered (map ATurn ts) (Send req (PacketManager_init (Some a))) \<noteq> []"

definition after_turns :: "nat \<Rightarrow> sock_env list \<Rightarrow> PacketManager" where
  "after_turns b ss = snd (pm_run (map ATurn ss) (PacketManager_init (Some b)))"

lemma request_queued:
  assumes "request_arrived a ts b ss req" and "length req < 2 ^ 32"
  obtains p where "pm_mRecvOutQueue (after_turns b ss) = [p]" and "pk_mDataBuff p = req"
proof -
  let ?b = "PacketManager_init (Some b)"
  note c = sent_init [of "Send req (PacketManager_init (Some a))", OF refl]
  from assms(1) obtain transit where wh: "whole_heads (map ATurn ss)"
    and w: "fst (pm_run (map ATurn ts) (Send req (PacketManager_init (Some a))))
        = run_got (map ATurn ss) ?b @ transit"
    and ne: "run_delivered (map ATurn ss) ?b \<noteq> []" by (auto simp: request_arrived_def)
  have "run_delivered (map ATurn ss) ?b = [req]"
    by (rule turns_delivered [OF c(2,5) assms(2) init_send_ok(1) init_recv_ok wh w ne])
  with turns_queue [OF init_send_ok(1) init_recv_ok(1) wh]
  have "map pk_mDataBuff (pm_mRecvOutQueue (after_turns b ss)) = [req]"
    by (simp add: after_turns_def PacketManager_init_def)
  then show ?thesis using that by auto
qed

lemma request_served:
  assumes "request_arrived a ts b ss (request_head msgID (length name) @ name)"
    and "length name \<le> 2040" and "0 \<notin> set name" and "msgID \<in> {MSGID_FILEREQ, MSGID_FILEEXISTREQ}"
    and "IsConnected (after_turns b ss)" and "\<not> fsv_mQuitRequest f"
  shows "FileServer_turn fsys env f (after_turns b ss) =
    (let sv = (after_turns b ss)\<lparr>pm_mRecvOutQueue := []\<rparr> in
     if 1024 \<le> length name then Some (Inr (), f, sv)
     else if msgID = MSGID_FILEREQ
     then (case answer_file fsys name sv of (r, s') \<Rightarrow> Some (r, f, s'))
     else Some (Inr (), f, answer_exist fsys name sv))"
proof -
  let ?req = "request_head msgID (length name) @ name"
  have l: "length ?req < 2 ^ 32" "length name < 2 ^ 32" using assms(2) by (simp_all add: request_head_def)
  obtain p where p: "pm_mRecvOutQueue (after_turns b ss) = [p]" "pk_mDataBuff p = ?req"
    by (rule request_queued [OF assms(1) l(1)])
  have "serve_packet fsys p s = (if 1024 \<le> length name then (Inr (), s)
      else if msgID = MSGID_FILEREQ then answer_file fsys name s
      else (Inr (), answer_exist fsys name s))" for s
    using serve_request [OF p(2) l(2) assms(4)] unfolding takeWhile_no_zero [OF assms(3)] by simp
  with served_turn [OF assms(5) p(1) assms(6) p(2) l(2) assms(4)] show ?thesis
    by (simp add: Let_def)
qed

lemma answer_delivered:
  assumes "answer_arrived a ts req sv2 ss2"
    and "sv2 = Send d ((after_turns b ss)\<lparr>pm_mRecvOutQueue := []\<rparr>)" and "length d < 2 ^ 32"
    and "4 \<le> length d" and "le_nat (take 4 d) \<in> set ids"
    and "\<And>p. pk_mDataBuff p = d \<Longrightarrow> handle p = Some r"
  shows "\<exists>s'. answer_loop ids handle [turns ts] (Send req (PacketManager_init (Some a))) = Some (r, s')"
proof -
  let ?c = "Send req (PacketManager_init (Some a))"
  note c = sent_init [of ?c, OF refl]
  from assms(1) obtain transit where wh: "whole_heads (map ATurn ts)"
    and w: "fst (pm_run (map ATurn ss2) sv2) = run_got (map ATurn ts) ?c @ transit"
    and ne: "run_delivered (map ATurn ts) ?c \<noteq> []" by (auto simp: answer_arrived_def)
  obtain o1 where "pm_run (map ATurn ss) (PacketManager_init (Some b)) = (o1, after_turns b ss)"
    by (metis after_turns_def prod.collapse)
  note o = answered_stream [OF this assms(2)]
  have "run_delivered (map ATurn ts) ?c = [d]"
    by (rule turns_delivered [OF o assms(3) c(2,3,4) wh w ne])
  from answer_loop_delivers [OF c(1,2,3) wh c(6) this assms(4-6)] show ?thesis .
qed



lemmas turn_eval = after_turns_def PacketManager_init_def Send_def frame_def request_head_def le_bytes_4
  threadMain_turn_def FlushInQueue_def niceSend_def niceRecv_def int_size_small recv_head_def recv_body_def
  store_head_whole turn_got_def turn_delivered_def head_got_def body_got_def Let_def

definition ex_send :: sock_env where
  "ex_send = \<lparr>env_selectOk = True, env_sends = [Room 100], env_head = RecvErr True, env_body = RecvErr True\<rparr>"

definition ex_recv :: "bytes \<Rightarrow> sock_env" where
  "ex_recv d = \<lparr>env_selectOk = True, env_sends = [], env_head = Avail (le_bytes 4 (length d)), env_body = Avail d\<rparr>"


text \<open>
  Existence of a file. Under the same conditions \<open>FileExists\<close> returns what the server's
  file system says of the name.
\<close>

theorem remote_exists_arrives:
  assumes "length buff = 2048" and "length name < 1024" and "0 \<notin> set name"
    and "request_arrived a ts b ss (request_head MSGID_FILEEXISTREQ (length name) @ name)"
    and "IsConnected (after_turns b ss)" and "\<not> fsv_mQuitRequest f"
  shows "\<exists>sv2. FileServer_turn fsys env f (after_turns b ss) = Some (Inr (), f, sv2)
    \<and> (\<forall>ss2. answer_arrived a ts (request_head MSGID_FILEEXISTREQ (length name) @ name) sv2 ss2 \<longrightarrow>
         (\<exists>c. FileExists name buff [turns ts] (PacketManager_init (Some a))
               = Some (Inr (fsys_exists fsys name), c)))"
proof -
  let ?req = "request_head MSGID_FILEEXISTREQ (length name) @ name"
  let ?d = "le_bytes 4 (if fsys_exists fsys name then MSGID_FILEEXISTANSYES else MSGID_FILEEXISTANSNO)"
  let ?sv2 = "Send ?d ((after_turns b ss)\<lparr>pm_mRecvOutQueue := []\<rparr>)"
  let ?call = "FileExists name buff [turns ts] (PacketManager_init (Some a))"
  have "FileServer_turn fsys env f (after_turns b ss) = Some (Inr (), f, ?sv2)"
    using request_served [OF assms(4) _ assms(3) _ assms(5,6), of fsys env] assms(2)
    by (simp add: answer_exist_def SendValue_U32_def)
  moreover have "\<exists>c. ?call = Some (Inr (fsys_exists fsys name), c)"
    if "answer_arrived a ts ?req ?sv2 ss2" for ss2
  proof -
    from answer_delivered [OF that refl, of "[MSGID_FILEEXISTANSYES, MSGID_FILEEXISTANSNO]"
        FileExists_answer "Inr (fsys_exists fsys name)"]
    have "\<exists>s'. answer_loop [MSGID_FILEEXISTANSYES, MSGID_FILEEXISTANSNO] FileExists_answer [turns ts]
        (Send ?req (PacketManager_init (Some a))) = Some (Inr (fsys_exists fsys name), s')"
      by (simp add: le_nat_le_bytes FileExists_answer_def GetMsgID_def)
    then show ?thesis
      using file_request_ok [OF assms(1), of name MSGID_FILEEXISTREQ] assms(2)
      by (simp add: FileExists_def)
  qed
  ultimately show ?thesis by blast
qed

text \<open>
  Names between 1024 and 2040 characters. The client sends the request, but the server
  takes it from its queue and sends nothing back; the client waits until the connection breaks.
\<close>

theorem long_name_unanswered:
  assumes "length buff = 2048" and "1024 \<le> length name" and "length name \<le> 2040" and "0 \<notin> set name"
    and "request_arrived a ts b ss (request_head MSGID_FILEREQ (length name) @ name)"
    and "IsConnected (after_turns b ss)" and "\<not> fsv_mQuitRequest f"
  shows "file_request MSGID_FILEREQ name buff = Inr (request_head MSGID_FILEREQ (length name) @ name)"
    and "FileServer_turn fsys env f (after_turns b ss)
      = Some (Inr (), f, (after_turns b ss)\<lparr>pm_mRecvOutQueue := []\<rparr>)"
  using file_request_ok [OF assms(1,3)] request_served [OF assms(5,3,4) _ assms(6,7)] assms(2)
  by simp_all

end
