(* ===== verification/RiBase.thy ===== *)
theory RiBase
  imports Matrix CLib
begin

text \<open>
  The vocabulary of the RenderMan interface: the modes, the error codes, revision counters and
  bounding boxes of \<open>RI_Base.h\<close>, the tokens of \<open>RI_Tokens.cpp\<close> and the typed symbols of
  \<open>RI_Symbol.h\<close> with the parser of their declarations.
\<close>

section \<open>Modes and errors\<close>

datatype Mode =
    MD_UNDEFINED | MD_BASE | MD_FRAME | MD_WORLD | MD_ATTRIBUTE
  | MD_TRANSFORM | MD_SOLID | MD_OBJECT | MD_MOTION

datatype Error =
    E_OK | E_NESTING | E_NOTOPTIONS | E_NOTATTRIBS | E_NOTPRIMS | E_NOTSTARTED | E_ILLSTATE
  | E_ARRAYTOOBIG | E_BADARGUMENT | E_BADARRAY | E_BADBASIS | E_BADCOLOR | E_BADHANDLE
  | E_BADPARAMLIST | E_BADRIPCODE | E_BADSTRINGTOKEN | E_BADTOKEN | E_BADVERSION | E_LIMITCHECK
  | E_OUTOFMEMORY_X | E_PROTOCOLBOTCH | E_STRINGTOOBIG | E_SYNTAXERROR | E_UNREGISTERED

fun ErrorToString :: "Error \<Rightarrow> string" where
  "ErrorToString E_OK = ''E_OK''"
| "ErrorToString E_NESTING = ''E_NESTING''"
| "ErrorToString E_NOTOPTIONS = ''E_NOTOPTION''"
| "ErrorToString E_NOTATTRIBS = ''E_NOTATTRIB''"
| "ErrorToString E_NOTPRIMS = ''E_NOTPRIMS''"
| "ErrorToString E_NOTSTARTED = ''E_NOTSTARTE''"
| "ErrorToString E_ILLSTATE = ''E_ILLSTATE''"
| "ErrorToString E_ARRAYTOOBIG = ''insufficient memory to construct array''"
| "ErrorToString E_BADARGUMENT = ''incorrect parameter value''"
| "ErrorToString E_BADARRAY = ''invalid array specification''"
| "ErrorToString E_BADBASIS = ''undefined basis matrix name''"
| "ErrorToString E_BADCOLOR = ''invalid color specification''"
| "ErrorToString E_BADHANDLE = ''invalid light or object handle''"
| "ErrorToString E_BADPARAMLIST = ''parameter list type mismatch''"
| "ErrorToString E_BADRIPCODE = ''invalid encoded RIB request code''"
| "ErrorToString E_BADSTRINGTOKEN = ''undefined encoded string token''"
| "ErrorToString E_BADTOKEN = ''invalid binary token''"
| "ErrorToString E_BADVERSION = ''protocol version number mismatch''"
| "ErrorToString E_LIMITCHECK = ''overflowing an internal limit''"
| "ErrorToString E_OUTOFMEMORY_X = ''generic instance of insufficient memory''"
| "ErrorToString E_PROTOCOLBOTCH = ''malformed binary encoding''"
| "ErrorToString E_STRINGTOOBIG = ''insufficient memory to read string''"
| "ErrorToString E_SYNTAXERROR = ''general syntactic error''"
| "ErrorToString E_UNREGISTERED = ''undefined RIB request''"

section \<open>Revisions\<close>

text \<open>
  A tracker counts the changes of a piece of state; a checker remembers the count it last saw.
  The counters are \<open>int\<close>; a scene does not issue \<open>2^31\<close> commands.
\<close>

definition RevisionTracker_new :: int where
  "RevisionTracker_new = 0"

definition BumpRevision :: "int \<Rightarrow> int" where
  "BumpRevision mRTrackRevisionCount = mRTrackRevisionCount + 1"

definition RevisionChecker_new :: int where
  "RevisionChecker_new = - 1"

definition Sync :: "int \<Rightarrow> int \<Rightarrow> bool \<times> int" where
  "Sync tracker mCurRevisionCount =
     (if tracker \<noteq> mCurRevisionCount then (True, tracker) else (False, mCurRevisionCount))"

section \<open>Bounds\<close>

definition FLT_MAX :: real where
  "FLT_MAX = (2 - 1 / 2 ^ 23) * 2 ^ 127"

definition RI_INFINITY :: real where
  "RI_INFINITY = 10 ^ 38"

definition RI_EPSILON :: real where
  "RI_EPSILON = 1 / 10 ^ 10"

record Bound =
  mBox0 :: "real Vec3"
  mBox1 :: "real Vec3"

definition Bound_of :: "real \<Rightarrow> Bound" where
  "Bound_of val = \<lparr>mBox0 = Vec3 val val val, mBox1 = Vec3 val val val\<rparr>"

definition Bound_new6 :: "real \<Rightarrow> real \<Rightarrow> real \<Rightarrow> real \<Rightarrow> real \<Rightarrow> real \<Rightarrow> Bound" where
  "Bound_new6 xa ya za xb yb zb = \<lparr>mBox0 = Vec3 xa ya za, mBox1 = Vec3 xb yb zb\<rparr>"

definition SetMin :: "real \<Rightarrow> real \<Rightarrow> real \<Rightarrow> Bound \<Rightarrow> Bound" where
  "SetMin x y z b = b\<lparr>mBox0 := Vec3 x y z\<rparr>"

definition SetMax :: "real \<Rightarrow> real \<Rightarrow> real \<Rightarrow> Bound \<Rightarrow> Bound" where
  "SetMax x y z b = b\<lparr>mBox1 := Vec3 x y z\<rparr>"

definition Bound_Reset :: "Bound \<Rightarrow> Bound" where
  "Bound_Reset b =
     b\<lparr>mBox0 := Vec3 FLT_MAX FLT_MAX FLT_MAX, mBox1 := Vec3 (- FLT_MAX) (- FLT_MAX) (- FLT_MAX)\<rparr>"

definition Expand :: "real Vec3 \<Rightarrow> Bound \<Rightarrow> Bound" where
  "Expand p b =
     b\<lparr>mBox0 := Vec3 (DMin (x3 (mBox0 b)) (x3 p)) (DMin (y3 (mBox0 b)) (y3 p)) (DMin (z3 (mBox0 b)) (z3 p)),
       mBox1 := Vec3 (DMax (x3 (mBox1 b)) (x3 p)) (DMax (y3 (mBox1 b)) (y3 p)) (DMax (z3 (mBox1 b)) (z3 p))\<rparr>"

definition Bound_IsValid :: "Bound \<Rightarrow> bool" where
  "Bound_IsValid b =
     (x3 (mBox0 b) \<le> x3 (mBox1 b) \<and> y3 (mBox0 b) \<le> y3 (mBox1 b) \<and> z3 (mBox0 b) \<le> z3 (mBox1 b))"

section \<open>Grid sizes\<close>

definition MP_GRID_MAX_SIZE :: U32 where
  "MP_GRID_MAX_SIZE = DMT_SIMD_PADSIZE 48 * 48"

definition MP_GRID_MAX_SIZE_SIMD_BLKS :: U32 where
  "MP_GRID_MAX_SIZE_SIMD_BLKS = DMT_SIMD_BLOCKS MP_GRID_MAX_SIZE"

definition MP_GRID_MIN_DIM :: U32 where
  "MP_GRID_MIN_DIM = DMT_SIMD_FLEN"

definition MP_GRID_MAX_DIM :: U32 where
  "MP_GRID_MAX_DIM = DMT_SIMD_PADSIZE (MP_GRID_MAX_SIZE div DMT_SIMD_FLEN)"

definition MP_GRID_MAX_DIM_SIMD_BLKS :: U32 where
  "MP_GRID_MAX_DIM_SIMD_BLKS = DMT_SIMD_BLOCKS MP_GRID_MAX_DIM"

section \<open>Symbols\<close>

datatype SymType =
    TYP_UNKNOWN | TYP_VOID | TYP_FLOAT | TYP_FLOAT2 | TYP_POINT | TYP_VECTOR | TYP_NORMAL
  | TYP_HPOINT | TYP_COLOR | TYP_MATRIX | TYP_STRING | TYP_BOOL | TYP_ADDR

definition IsTypeCompatible :: "SymType \<Rightarrow> SymType \<Rightarrow> bool" where
  "IsTypeCompatible a b =
     (if a = b then True
      else (a = TYP_POINT \<or> a = TYP_VECTOR \<or> a = TYP_NORMAL \<or> a = TYP_COLOR) \<and>
           (b = TYP_POINT \<or> b = TYP_VECTOR \<or> b = TYP_NORMAL \<or> b = TYP_COLOR))"

datatype Storage = STOR_PARAMETER | STOR_TEMPORARY | STOR_GLOBAL

definition CLASS_MSK_UNIFORM :: U32 where "CLASS_MSK_UNIFORM = 0"
definition CLASS_MSK_VARYING :: U32 where "CLASS_MSK_VARYING = 1"
definition CLASS_MSK_VERTEX :: U32 where "CLASS_MSK_VERTEX = 3"
definition CLASS_MSK_CONSTANT :: U32 where "CLASS_MSK_CONSTANT = 4"
definition CLASS_MSK_UNDEFINED :: U32 where "CLASS_MSK_UNDEFINED = 15"

text \<open>
  The data behind a symbol. A SIMD float is the list of its \<open>DMT_SIMD_FLEN\<close> lanes; an array
  has one element per SIMD block, except matrices, strings and masks, which have one per
  value.
\<close>

type_synonym lanes = "real list"

datatype SymData =
    D_float "lanes list"
  | D_float3 "lanes Vec3 list"
  | D_float4 "lanes Vec4 list"
  | D_matrix "Matrix44 list"
  | D_string "string list"
  | D_bool "VecNMask list"

text \<open>What a \<open>pSrcData\<close> points to: floats in memory, a string, or a mask.\<close>

datatype SymSrc = Src_floats "real list" | Src_string string | Src_mask VecNMask

record Symbol =
  sym_mName :: string
  sym_mType :: SymType
  sym_mStorage :: Storage
  sym_mClass :: U32
  sym_mpConstVal :: "SymData option"

record SymCtorParams =
  cp_mpName :: string
  cp_mType :: SymType
  cp_mStorage :: Storage
  cp_mClass :: U32
  cp_mpSrcData :: "SymSrc option"

definition CtorParams_new :: SymCtorParams where
  "CtorParams_new = \<lparr>cp_mpName = '''', cp_mType = TYP_UNKNOWN, cp_mStorage = STOR_TEMPORARY,
     cp_mClass = 0, cp_mpSrcData = None\<rparr>"

definition Symbol_new :: Symbol where
  "Symbol_new = \<lparr>sym_mName = '''', sym_mType = TYP_UNKNOWN, sym_mStorage = STOR_TEMPORARY,
     sym_mClass = 0, sym_mpConstVal = None\<rparr>"

definition Symbol_of_params :: "SymCtorParams \<Rightarrow> Symbol" where
  "Symbol_of_params p = \<lparr>sym_mName = cp_mpName p, sym_mType = cp_mType p,
     sym_mStorage = cp_mStorage p, sym_mClass = cp_mClass p, sym_mpConstVal = None\<rparr>"

definition SetVarying :: "Symbol \<Rightarrow> Symbol" where
  "SetVarying s = s\<lparr>sym_mClass := sym_mClass s OR CLASS_MSK_VARYING\<rparr>"

definition SetUniform :: "Symbol \<Rightarrow> Symbol" where
  "SetUniform s = s\<lparr>sym_mClass := sym_mClass s AND NOT (CLASS_MSK_VARYING OR CLASS_MSK_VERTEX)\<rparr>"

definition Symbol_IsVarying :: "Symbol \<Rightarrow> bool" where
  "Symbol_IsVarying s = (sym_mClass s AND CLASS_MSK_VARYING \<noteq> 0)"

definition Symbol_IsUniform :: "Symbol \<Rightarrow> bool" where
  "Symbol_IsUniform s = (\<not> (sym_mClass s AND CLASS_MSK_VARYING \<noteq> 0))"

definition Symbol_IsConstant :: "Symbol \<Rightarrow> bool" where
  "Symbol_IsConstant s = (sym_mClass s AND CLASS_MSK_CONSTANT \<noteq> 0)"

definition Symbol_IsName :: "string \<Rightarrow> Symbol \<Rightarrow> bool" where
  "Symbol_IsName pSrc s = (sym_mName s = pSrc)"

text \<open>
  \<open>AllocClone\<close> allocates raw memory: what matters is the type of its elements and their
  number. The other types get no memory.
\<close>

definition simd_blocks :: "nat \<Rightarrow> nat" where
  "simd_blocks n = (n + unat DMT_SIMD_FLEN - 1) div unat DMT_SIMD_FLEN"

definition AllocClone :: "nat \<Rightarrow> Symbol \<Rightarrow> (SymType \<times> nat) option" where
  "AllocClone n s =
     (case sym_mType s of
        TYP_FLOAT \<Rightarrow> Some (TYP_FLOAT, simd_blocks n)
      | TYP_POINT \<Rightarrow> Some (TYP_POINT, simd_blocks n)
      | TYP_VECTOR \<Rightarrow> Some (TYP_POINT, simd_blocks n)
      | TYP_NORMAL \<Rightarrow> Some (TYP_POINT, simd_blocks n)
      | TYP_HPOINT \<Rightarrow> Some (TYP_HPOINT, simd_blocks n)
      | TYP_COLOR \<Rightarrow> Some (TYP_POINT, simd_blocks n)
      | TYP_MATRIX \<Rightarrow> Some (TYP_MATRIX, n)
      | TYP_STRING \<Rightarrow> Some (TYP_STRING, n)
      | TYP_BOOL \<Rightarrow> Some (TYP_BOOL, n)
      | _ \<Rightarrow> None)"

definition splat :: "real \<Rightarrow> lanes" where
  "splat x = replicate (unat DMT_SIMD_FLEN) x"

text \<open>
  \<open>FillDataFromSISD\<close> spreads one value over the whole array. Reading more floats than the
  source has is undefined; the types without data are left alone.
\<close>

definition FillDataFromSISD :: "nat \<Rightarrow> SymSrc \<Rightarrow> Symbol \<Rightarrow> SymData option res" where
  "FillDataFromSISD n src s =
     (let bad = Inl (Undefined_behaviour ''source data of the wrong kind'') in
      case sym_mType s of
        TYP_FLOAT \<Rightarrow> (case src of Src_floats (a # _) \<Rightarrow>
            Inr (Some (D_float (replicate (simd_blocks n) (splat a)))) | _ \<Rightarrow> bad)
      | TYP_HPOINT \<Rightarrow> (case src of Src_floats (a # b # c # d # _) \<Rightarrow>
            Inr (Some (D_float4 (replicate (simd_blocks n) (Vec4 (splat a) (splat b) (splat c) (splat d)))))
          | _ \<Rightarrow> bad)
      | TYP_MATRIX \<Rightarrow> (case src of Src_floats fs \<Rightarrow>
            if 16 \<le> length fs then Inr (Some (D_matrix (replicate n (CopyRowMajor (take 16 fs))))) else bad
          | _ \<Rightarrow> bad)
      | TYP_STRING \<Rightarrow> (case src of Src_string t \<Rightarrow> Inr (Some (D_string (replicate n t))) | _ \<Rightarrow> bad)
      | TYP_BOOL \<Rightarrow> (case src of Src_mask m \<Rightarrow> Inr (Some (D_bool (replicate n m))) | _ \<Rightarrow> bad)
      | t \<Rightarrow>
          if t = TYP_POINT \<or> t = TYP_VECTOR \<or> t = TYP_NORMAL \<or> t = TYP_COLOR
          then (case src of Src_floats (a # b # c # _) \<Rightarrow>
            Inr (Some (D_float3 (replicate (simd_blocks n) (Vec3 (splat a) (splat b) (splat c)))))
          | _ \<Rightarrow> bad)
          else Inr None)"

definition InitConstValue :: "SymSrc \<Rightarrow> Symbol \<Rightarrow> Symbol res" where
  "InitConstValue src s = res_bind (FillDataFromSISD 1 src s) (\<lambda>d. Inr (s\<lparr>sym_mpConstVal := d\<rparr>))"

definition GetConstantData :: "Symbol \<Rightarrow> SymData option" where
  "GetConstantData s = sym_mpConstVal s"


subsection \<open>Strings in fixed buffers\<close>

text \<open>
  On every compiler but Microsoft's, \<open>DSafeCrt.h\<close> defines \<open>strcpy_s\<close> as \<open>strcpy\<close>: a source that
  does not fit overruns the buffer.
\<close>

definition strcpy_s :: "nat \<Rightarrow> string \<Rightarrow> string res" where
  "strcpy_s bufSize src =
     (if length src < bufSize then Inr src else Inl (Undefined_behaviour ''buffer overrun in strcpy''))"

definition SlStr_of :: "string \<Rightarrow> string res" where
  "SlStr_of pFromCStr = strcpy_s 256 pFromCStr"

definition SlStr_eq :: "string \<Rightarrow> string \<Rightarrow> bool" where
  "SlStr_eq lval rval = (lval = rval)"

lemma dropWhile_Cons_length:
  assumes "dropWhile P s = c # cs"
  shows "length (dropWhile (\<lambda>c. \<not> P c) (c # cs)) < length s"
proof -
  have "\<not> P c" using assms by (metis dropWhile_eq_Cons_conv)
  then have "length (dropWhile (\<lambda>c. \<not> P c) (c # cs)) \<le> length cs"
    by (simp add: length_dropWhile_le)
  moreover have "length (c # cs) \<le> length s" using assms by (metis length_dropWhile_le)
  ultimately show ?thesis by simp
qed

text \<open>\<open>strtok_r\<close> called until it returns null yields the maximal runs without separators.\<close>

function strtok_all :: "(char \<Rightarrow> bool) \<Rightarrow> string \<Rightarrow> string list" where
  "strtok_all sep s =
     (case dropWhile sep s of
        [] \<Rightarrow> []
      | t \<Rightarrow> takeWhile (\<lambda>c. \<not> sep c) t # strtok_all sep (dropWhile (\<lambda>c. \<not> sep c) t))"
  by pat_completeness auto
termination
  by (relation "measure (\<lambda>(sep, s). length s)") (auto dest: dropWhile_Cons_length)

declare strtok_all.simps [simp del]

definition blank :: "char \<Rightarrow> bool" where
  "blank c = (c = CHR '' '' \<or> c = CHR 0x09)"

subsection \<open>Declarations\<close>

definition decl_class :: "string \<Rightarrow> U32 option" where
  "decl_class t =
     (if t = ''uniform'' then Some CLASS_MSK_UNIFORM
      else if t = ''varying'' then Some CLASS_MSK_VARYING
      else if t = ''vertex'' then Some CLASS_MSK_VERTEX
      else if t = ''constant'' then Some CLASS_MSK_CONSTANT
      else None)"

definition decl_type :: "string \<Rightarrow> SymType option" where
  "decl_type t =
     (if t = ''float'' then Some TYP_FLOAT
      else if t = ''point'' then Some TYP_POINT
      else if t = ''vector'' then Some TYP_VECTOR
      else if t = ''normal'' then Some TYP_NORMAL
      else if t = ''hpoint'' then Some TYP_HPOINT
      else if t = ''color'' then Some TYP_COLOR
      else if t = ''matrix'' then Some TYP_MATRIX
      else if t = ''string'' then Some TYP_STRING
      else if t = ''bool'' then Some TYP_BOOL
      else None)"

definition bad_decl :: exn where
  "bad_decl = RI_Exception ''Bad declaration''"

text \<open>
  The part of \<open>newSymParamsFromDecl\<close> after the class: the type, then the name when one is
  expected, then nothing. The error messages, which quote the declaration, are all \<open>bad_decl\<close>.
\<close>

definition decl_rest :: "SymCtorParams \<Rightarrow> string list \<Rightarrow> bool \<Rightarrow> (SymCtorParams \<times> string) res" where
  "decl_rest out toks expectingName =
     (case toks of
        [] \<Rightarrow> Inl bad_decl
      | ty # rest \<Rightarrow>
          (case decl_type ty of
             None \<Rightarrow> Inl bad_decl
           | Some t \<Rightarrow>
               let out = out\<lparr>cp_mType := t\<rparr> in
               if expectingName
               then (case rest of [nm] \<Rightarrow> Inr (out, nm) | _ \<Rightarrow> Inl bad_decl)
               else if rest = [] then Inr (out, '''') else Inl bad_decl))"

definition newSymParamsFromDecl ::
  "SymCtorParams \<Rightarrow> string \<Rightarrow> bool \<Rightarrow> U32 \<Rightarrow> (SymCtorParams \<times> string) res" where
  "newSymParamsFromDecl out pDecl expectingName defaultClass =
     res_bind (strcpy_s 1024 pDecl) (\<lambda>buff.
       case strtok_all blank buff of
         [] \<Rightarrow> Inl (RI_Exception ''Nothing to declare ?!'')
       | tok # rest \<Rightarrow>
           (case decl_class tok of
              Some c \<Rightarrow> decl_rest (out\<lparr>cp_mClass := c\<rparr>) rest expectingName
            | None \<Rightarrow>
                let out = (if defaultClass \<noteq> CLASS_MSK_UNDEFINED then out\<lparr>cp_mClass := defaultClass\<rparr> else out) in
                if expectingName
                then (if rest = [] then Inr (out, tok) else Inl bad_decl)
                else if defaultClass = CLASS_MSK_UNDEFINED then Inl bad_decl
                else decl_rest out (tok # rest) False))"

subsection \<open>Symbol lists\<close>

type_synonym SymbolList = "Symbol list"

definition FindSymbol :: "string \<Rightarrow> SymbolList \<Rightarrow> Symbol option" where
  "FindSymbol pName syms = find (\<lambda>s. sym_mName s = pName) syms"

text \<open>\<open>AddByParams\<close> keeps an existing symbol of the same name and returns null.\<close>

definition AddByParams :: "SymCtorParams \<Rightarrow> SymbolList \<Rightarrow> (Symbol option \<times> SymbolList) res" where
  "AddByParams params syms =
     (case FindSymbol (cp_mpName params) syms of
        Some _ \<Rightarrow> Inr (None, syms)
      | None \<Rightarrow>
          let sym = Symbol_new\<lparr>sym_mName := cp_mpName params, sym_mType := cp_mType params,
                sym_mStorage := cp_mStorage params, sym_mClass := cp_mClass params\<rparr> in
          res_bind (case cp_mpSrcData params of None \<Rightarrow> Inr sym | Some d \<Rightarrow> InitConstValue d sym)
            (\<lambda>sym. Inr (Some sym, syms @ [sym])))"

definition SymbolList_Add ::
  "string \<Rightarrow> string \<Rightarrow> Storage \<Rightarrow> SymSrc option \<Rightarrow> U32 \<Rightarrow> SymbolList \<Rightarrow> (Symbol option \<times> SymbolList) res" where
  "SymbolList_Add pDecl pName storage pSrcData defaultClass syms =
     res_bind (newSymParamsFromDecl
        (CtorParams_new\<lparr>cp_mpName := pName, cp_mStorage := storage, cp_mpSrcData := pSrcData\<rparr>)
        pDecl False defaultClass)
       (\<lambda>(params, _). AddByParams params syms)"

definition AddByString ::
  "string \<Rightarrow> Storage \<Rightarrow> SymSrc option \<Rightarrow> SymbolList \<Rightarrow> (Symbol option \<times> SymbolList) res" where
  "AddByString pDeclName storage pSrcData syms =
     res_bind (newSymParamsFromDecl
        (CtorParams_new\<lparr>cp_mStorage := storage, cp_mpSrcData := pSrcData\<rparr>)
        pDeclName True CLASS_MSK_UNDEFINED)
       (\<lambda>(params, nm).
          if cp_mType params = TYP_UNKNOWN
          then Inl (Runtime_error ''Bad symbol declaration. Type is missing'')
          else AddByParams (params\<lparr>cp_mpName := nm\<rparr>) syms)"

definition AddGlob_decl :: "string \<Rightarrow> SymSrc option \<Rightarrow> SymbolList \<Rightarrow> (Symbol option \<times> SymbolList) res" where
  "AddGlob_decl pDeclName pSrcData = AddByString pDeclName STOR_GLOBAL pSrcData"

definition AddGlob ::
  "string \<Rightarrow> string \<Rightarrow> SymSrc option \<Rightarrow> U32 \<Rightarrow> SymbolList \<Rightarrow> (Symbol option \<times> SymbolList) res" where
  "AddGlob pDecl pName pSrcData defaultClass = SymbolList_Add pDecl pName STOR_GLOBAL pSrcData defaultClass"

definition AddGVoid :: "string \<Rightarrow> SymbolList \<Rightarrow> (Symbol option \<times> SymbolList) res" where
  "AddGVoid pName =
     AddByParams (CtorParams_new\<lparr>cp_mpName := pName, cp_mType := TYP_VOID,
       cp_mClass := CLASS_MSK_CONSTANT, cp_mStorage := STOR_GLOBAL\<rparr>)"

subsection \<open>Symbol instances\<close>

text \<open>An instance owns an array for its symbol: \<open>varyingAllocN\<close> values when varying, else one.\<close>

record SymbolI =
  mpSrcSymbol :: Symbol
  mpValArray :: "(SymType \<times> nat) option"

definition SymbolI_new :: "Symbol \<Rightarrow> nat \<Rightarrow> SymbolI" where
  "SymbolI_new symbol varyingAllocN =
     \<lparr>mpSrcSymbol = symbol,
      mpValArray = AllocClone (if Symbol_IsVarying symbol then varyingAllocN else 1) symbol\<rparr>"

definition SymbolI_IsVarying :: "SymbolI \<Rightarrow> bool" where
  "SymbolI_IsVarying s = Symbol_IsVarying (mpSrcSymbol s)"

definition SymbolI_IsName :: "string \<Rightarrow> SymbolI \<Rightarrow> bool" where
  "SymbolI_IsName pSrc s = (sym_mName (mpSrcSymbol s) = pSrc)"

definition FindSymbolI :: "string \<Rightarrow> SymbolI list \<Rightarrow> SymbolI option" where
  "FindSymbolI pName l = find (SymbolI_IsName pName) l"

definition FindSymbolIData :: "string \<Rightarrow> SymbolI list \<Rightarrow> (SymType \<times> nat) option" where
  "FindSymbolIData pName l =
     (case FindSymbolI pName l of None \<Rightarrow> None | Some s \<Rightarrow> mpValArray s)"

definition AddInstance :: "Symbol \<Rightarrow> nat \<Rightarrow> SymbolI list \<Rightarrow> SymbolI list" where
  "AddInstance srcSymbol varyingAllocN l = l @ [SymbolI_new srcSymbol varyingAllocN]"


section \<open>Facts about tokens and tables\<close>

definition word_of :: "(char \<Rightarrow> bool) \<Rightarrow> string \<Rightarrow> bool" where
  "word_of sep w \<longleftrightarrow> w \<noteq> [] \<and> (\<forall>c\<in>set w. \<not> sep c)"

lemma strtok_nil [simp]: "strtok_all sep [] = []"
  by (simp add: strtok_all.simps)

lemma strtok_skip: "sep c \<Longrightarrow> strtok_all sep (c # s) = strtok_all sep s"
  by (simp add: strtok_all.simps [of sep "c # s"] strtok_all.simps [of sep s])

lemma strtok_word:
  assumes "word_of sep w"
  shows "strtok_all sep (w @ s) =
    (w @ takeWhile (\<lambda>c. \<not> sep c) s) # strtok_all sep (dropWhile (\<lambda>c. \<not> sep c) s)"
proof -
  obtain c cs where w: "w = c # cs" "\<not> sep c" "\<forall>d\<in>set cs. \<not> sep d"
    using assms by (cases w) (auto simp: word_of_def)
  have "takeWhile (\<lambda>c. \<not> sep c) (cs @ s) = cs @ takeWhile (\<lambda>c. \<not> sep c) s"
    and "dropWhile (\<lambda>c. \<not> sep c) (cs @ s) = dropWhile (\<lambda>c. \<not> sep c) s"
    using w(3) by (simp_all add: takeWhile_append2 dropWhile_append2)
  with w show ?thesis by (simp add: strtok_all.simps [of sep "c # cs @ s"])
qed

lemma strtok_last: "word_of sep w \<Longrightarrow> strtok_all sep w = [w]"
  using strtok_word [of sep w "[]"] by simp

lemma strtok_cons: "word_of sep w \<Longrightarrow> sep c \<Longrightarrow> strtok_all sep (w @ c # s) = w # strtok_all sep s"
  by (simp add: strtok_word strtok_skip)

text \<open>The words of a separated list come back, whatever separators stand between them.\<close>

fun join_with :: "char \<Rightarrow> string list \<Rightarrow> string" where
  "join_with c [] = []"
| "join_with c [w] = w"
| "join_with c (w # ws) = w @ c # join_with c ws"

lemma strtok_join:
  "sep c \<Longrightarrow> \<forall>w\<in>set ws. word_of sep w \<Longrightarrow> strtok_all sep (join_with c ws) = ws"
  by (induction c ws rule: join_with.induct) (auto simp: strtok_last strtok_cons)

lemma decl_class_word: "decl_class t = Some c \<Longrightarrow> word_of blank t"
  by (auto simp: decl_class_def word_of_def blank_def split: if_splits)

lemma decl_type_word: "decl_type t = Some c \<Longrightarrow> word_of blank t"
  by (auto simp: decl_type_def word_of_def blank_def split: if_splits)

lemma decl_words_short:
  "decl_class t = Some c \<Longrightarrow> length t \<le> 8" "decl_type u = Some d \<Longrightarrow> length u \<le> 6"
  by (auto simp: decl_class_def decl_type_def split: if_splits)

lemma find_append: "find P (xs @ ys) = (case find P xs of None \<Rightarrow> find P ys | Some x \<Rightarrow> Some x)"
  by (induction xs) auto

definition symbols_ok :: "SymbolList \<Rightarrow> bool" where
  "symbols_ok syms = distinct (map sym_mName syms)"

lemma FindSymbol_None: "FindSymbol nm syms = None \<longleftrightarrow> nm \<notin> sym_mName ` set syms"
  by (auto simp: FindSymbol_def find_None_iff)

lemma FindSymbol_snoc:
  "FindSymbol nm (syms @ [s]) =
     (case FindSymbol nm syms of None \<Rightarrow> if sym_mName s = nm then Some s else None | Some x \<Rightarrow> Some x)"
  by (simp add: FindSymbol_def find_append split: option.splits)

lemma AddByParams_plain:
  assumes "cp_mpSrcData p = None"
  shows "AddByParams p syms = Inr
    (if FindSymbol (cp_mpName p) syms = None
     then (Some (Symbol_of_params p), syms @ [Symbol_of_params p]) else (None, syms))"
  using assms
  by (auto simp: AddByParams_def Symbol_of_params_def Symbol_new_def Let_def split: option.splits)

section \<open>Properties\<close>

text \<open>
  C38: declaring a symbol with any class and any type the language has enters exactly that
  symbol: afterwards its name finds the declared class and type, unless the name was declared
  before, in which case the first declaration stays; every other name finds what it found
  before, and names stay unique.
\<close>

theorem declaration_recorded:
  assumes "decl_class cls = Some c" "decl_type ty = Some t" "symbols_ok syms"
  shows "\<exists>r syms'. AddGlob (cls @ '' '' @ ty) nm None d syms = Inr (r, syms') \<and> symbols_ok syms' \<and>
    (\<forall>x. FindSymbol x syms' =
       (case FindSymbol x syms of
          Some s \<Rightarrow> Some s
        | None \<Rightarrow> if x = nm then Some \<lparr>sym_mName = nm, sym_mType = t, sym_mStorage = STOR_GLOBAL,
                                   sym_mClass = c, sym_mpConstVal = None\<rparr> else None))"
proof -
  let ?p = "CtorParams_new\<lparr>cp_mpName := nm, cp_mStorage := STOR_GLOBAL, cp_mpSrcData := None\<rparr>"
  have "strtok_all blank (cls @ '' '' @ ty) = [cls, ty]"
    using strtok_join [of blank "CHR '' ''" "[cls, ty]"] decl_class_word [OF assms(1)]
      decl_type_word [OF assms(2)] by (simp add: blank_def)
  moreover have "length (cls @ '' '' @ ty) < 1024"
    using decl_words_short(1) [OF assms(1)] decl_words_short(2) [OF assms(2)] by simp
  ultimately have "newSymParamsFromDecl ?p (cls @ '' '' @ ty) False d =
      Inr (?p\<lparr>cp_mClass := c, cp_mType := t\<rparr>, '''')"
    using assms(1,2) by (simp add: newSymParamsFromDecl_def strcpy_s_def decl_rest_def)
  then have "AddGlob (cls @ '' '' @ ty) nm None d syms =
      AddByParams (?p\<lparr>cp_mClass := c, cp_mType := t\<rparr>) syms"
    by (simp add: AddGlob_def SymbolList_Add_def)
  with assms(3) show ?thesis
    by (auto simp: AddByParams_plain CtorParams_new_def symbols_ok_def FindSymbol_None
        FindSymbol_snoc Symbol_of_params_def split: option.splits)
qed

lemma declaration_recorded_witness:
  "\<exists>r syms'. AddGlob ''varying color'' ''Cs'' None 0 [] = Inr (r, syms') \<and>
     map_option sym_mType (FindSymbol ''Cs'' syms') = Some TYP_COLOR"
  using declaration_recorded [of "''varying''" 1 "''color''" TYP_COLOR "[]" "''Cs''" 0]
  by (auto simp: decl_class_def decl_type_def symbols_ok_def CLASS_MSK_VARYING_def FindSymbol_def)

text \<open>
  A declaration of 1024 characters or more, which a scene file can hold, overruns the
  buffer the declaration is copied to.
\<close>

theorem long_declaration_overruns:
  assumes "1024 \<le> length dcl"
  shows "AddGlob dcl nm src d syms = Inl (Undefined_behaviour ''buffer overrun in strcpy'')"
  using assms by (simp add: AddGlob_def SymbolList_Add_def newSymParamsFromDecl_def strcpy_s_def)

lemma long_declaration_overruns_witness:
  "AddGlob (replicate 2000 CHR ''x'') ''y'' None 0 [] =
     Inl (Undefined_behaviour ''buffer overrun in strcpy'')"
  by (rule long_declaration_overruns) simp

lemma DMin_real: "DMin a (b::real) = min a b" and DMax_real: "DMax a (b::real) = max a b"
  by (auto simp: DMin_def DMax_def)

lemma Expand_eq:
  "Expand p b =
     b\<lparr>mBox0 := Vec3 (min (x3 (mBox0 b)) (x3 p)) (min (y3 (mBox0 b)) (y3 p)) (min (z3 (mBox0 b)) (z3 p)),
       mBox1 := Vec3 (max (x3 (mBox1 b)) (x3 p)) (max (y3 (mBox1 b)) (y3 p)) (max (z3 (mBox1 b)) (z3 p))\<rparr>"
  by (simp add: Expand_def DMin_real DMax_real)

lemma fold_min_insert:
  assumes "finite A" "A \<noteq> {}"
  shows "min (Min A) (a::real) = Min (insert a A)" "max (Max A) a = Max (insert a A)"
  using assms by (simp_all add: min.commute max.commute)

lemma fold_Expand:
  "fold Expand ps b =
     b\<lparr>mBox0 := Vec3 (Min (insert (x3 (mBox0 b)) (x3 ` set ps))) (Min (insert (y3 (mBox0 b)) (y3 ` set ps)))
                    (Min (insert (z3 (mBox0 b)) (z3 ` set ps))),
       mBox1 := Vec3 (Max (insert (x3 (mBox1 b)) (x3 ` set ps))) (Max (insert (y3 (mBox1 b)) (y3 ` set ps)))
                    (Max (insert (z3 (mBox1 b)) (z3 ` set ps)))\<rparr>"
proof (induction ps rule: rev_induct)
  case Nil
  then show ?case by simp
next
  case (snoc p ps)
  have "fold Expand (ps @ [p]) b = Expand p (fold Expand ps b)" by simp
  then show ?case
    by (simp only: snoc) (simp add: Expand_eq fold_min_insert insert_commute del: Min_insert Max_insert)
qed

text \<open>
  Resetting a bound and expanding it by points inside the float range yields their
  bounding box: each corner coordinate is the least, respectively the greatest, coordinate of
  the points, and the box is valid.
\<close>

theorem bounding_box_exact:
  assumes "ps \<noteq> []"
    and "\<forall>p\<in>set ps. \<bar>x3 p\<bar> \<le> FLT_MAX \<and> \<bar>y3 p\<bar> \<le> FLT_MAX \<and> \<bar>z3 p\<bar> \<le> FLT_MAX"
  shows "let bb = fold Expand ps (Bound_Reset b) in
    mBox0 bb = Vec3 (Min (x3 ` set ps)) (Min (y3 ` set ps)) (Min (z3 ` set ps)) \<and>
    mBox1 bb = Vec3 (Max (x3 ` set ps)) (Max (y3 ` set ps)) (Max (z3 ` set ps)) \<and>
    Bound_IsValid bb"
proof -
  have lo: "Min (insert FLT_MAX (f ` set ps)) = Min (f ` set ps)"
    and hi: "Max (insert (- FLT_MAX) (f ` set ps)) = Max (f ` set ps)"
    and le: "Min (f ` set ps) \<le> Max (f ` set ps)"
    if "\<forall>p\<in>set ps. \<bar>f p\<bar> \<le> FLT_MAX" for f :: "real Vec3 \<Rightarrow> real"
  proof -
    obtain p where p: "p \<in> set ps" using assms(1) by (cases ps) auto
    have "Min (f ` set ps) \<le> f p" "f p \<le> Max (f ` set ps)" using p by auto
    moreover have "\<bar>f p\<bar> \<le> FLT_MAX" using that p by blast
    ultimately show "Min (insert FLT_MAX (f ` set ps)) = Min (f ` set ps)"
      and "Max (insert (- FLT_MAX) (f ` set ps)) = Max (f ` set ps)"
      and "Min (f ` set ps) \<le> Max (f ` set ps)"
      using assms(1) by (simp_all add: min_absorb2 max_absorb2)
  qed
  show ?thesis
    using assms(2) by (simp add: fold_Expand Bound_Reset_def Bound_IsValid_def Let_def lo hi le
        del: Min_insert Max_insert)
qed

lemma bounding_box_exact_witness:
  "Bound_IsValid (fold Expand [Vec3 1 2 3, Vec3 (- 1) 0 5] (Bound_Reset (Bound_of 0)))"
proof -
  have "(5::real) \<le> FLT_MAX" by (simp add: FLT_MAX_def)
  then show ?thesis
    using bounding_box_exact [of "[Vec3 1 2 3, Vec3 (- 1) 0 5]" "Bound_of 0"] by (simp add: Let_def)
qed

end
