(* ===== verification/Refs.thy ===== *)
theory Refs
  imports Prelude
begin

text \<open>
  Ownership: the reference-counted objects and handles of \<open>RI_Base.h\<close> and \<open>DSmartPtr.h\<close>
  (\<open>RefCount\<close>, \<open>RCBase\<close>, \<open>RCBaseNoDel\<close>, \<open>RCSha\<close>) and the owning vectors \<open>VecOwn\<close> and
  \<open>VecOwnNamed\<close>. Objects live in an explicit heap, so that an access to a deleted object
  and an object that nobody deletes are both visible. The two \<open>RCSha\<close> classes differ in the
  order in which they take and release references; both meet the contract of the locale
  \<open>counted_handles\<close>, where the safety of every sequence of handle operations is proved once.
\<close>

section \<open>Plain counters\<close>

text \<open>\<open>RefCount\<close>: the copy constructor and the assignment reset the count instead of copying it.\<close>

datatype RefCount = RefCount (mRefCount: int)

definition RefCount_new :: RefCount where
  "RefCount_new = RefCount 0"

definition RefCount_copy :: "RefCount \<Rightarrow> RefCount" where
  "RefCount_copy other = RefCount 0"

definition RefCount_assign :: "RefCount \<Rightarrow> RefCount \<Rightarrow> RefCount" where
  "RefCount_assign self other = RefCount 0"

definition RefCount_AddRef :: "RefCount \<Rightarrow> RefCount" where
  "RefCount_AddRef r = RefCount (mRefCount r + 1)"

definition RefCount_SubRef :: "RefCount \<Rightarrow> int \<times> RefCount" where
  "RefCount_SubRef r = (mRefCount r - 1, RefCount (mRefCount r - 1))"

definition RefCount_GetCount :: "RefCount \<Rightarrow> int" where
  "RefCount_GetCount r = mRefCount r"

section \<open>Counted objects in a heap\<close>

text \<open>
  An address that holds a live object maps to its \<open>mCount\<close>; a deleted one, or one never
  allocated, maps to \<open>None\<close>.
\<close>

type_synonym addr = nat
type_synonym rc_heap = "addr \<Rightarrow> int option"

definition freed :: exn where
  "freed = Undefined_behaviour ''access to a deleted object''"

definition rc_new :: "addr \<Rightarrow> rc_heap \<Rightarrow> rc_heap" where
  "rc_new a h = h(a \<mapsto> 0)"

definition RCBase_AddRef :: "addr \<Rightarrow> rc_heap \<Rightarrow> rc_heap res" where
  "RCBase_AddRef a h = (case h a of None \<Rightarrow> Inl freed | Some c \<Rightarrow> Inr (h(a \<mapsto> c + 1)))"

definition RCBase_SubRef :: "addr \<Rightarrow> rc_heap \<Rightarrow> (int \<times> rc_heap) res" where
  "RCBase_SubRef a h =
     (case h a of None \<Rightarrow> Inl freed
      | Some c \<Rightarrow>
          let retVal = c - 1 in
          Inr (retVal, if retVal = 0 then h(a := None) else h(a \<mapsto> retVal)))"

definition RCBase_GetRef :: "addr \<Rightarrow> rc_heap \<Rightarrow> int res" where
  "RCBase_GetRef a h = (case h a of None \<Rightarrow> Inl freed | Some c \<Rightarrow> Inr c)"

text \<open>
  \<open>RCBaseNoDel\<close> only counts. The class of \<open>DSmartPtr.h\<close> calls the virtual \<open>OnZeroCount\<close> at
  zero, whose default body is empty: an overriding class is a parameter here. Its assignment
  operator returns a reference to a null object.
\<close>

definition RCBaseNoDel_SubRef :: "addr \<Rightarrow> rc_heap \<Rightarrow> (int \<times> rc_heap) res" where
  "RCBaseNoDel_SubRef a h =
     (case h a of None \<Rightarrow> Inl freed | Some c \<Rightarrow> Inr (c - 1, h(a \<mapsto> c - 1)))"

definition OnZeroCount :: "addr \<Rightarrow> rc_heap \<Rightarrow> rc_heap" where
  "OnZeroCount a h = h"

definition DRCBaseNoDel_SubRef :: "(addr \<Rightarrow> rc_heap \<Rightarrow> rc_heap) \<Rightarrow> addr \<Rightarrow> rc_heap \<Rightarrow> (int \<times> rc_heap) res" where
  "DRCBaseNoDel_SubRef on_zero a h =
     (case h a of None \<Rightarrow> Inl freed
      | Some c \<Rightarrow>
          let retVal = c - 1; h' = h(a \<mapsto> retVal) in
          Inr (retVal, if retVal = 0 then on_zero a h' else h'))"

definition DRCBaseNoDel_assign :: "addr \<Rightarrow> rc_heap \<Rightarrow> addr res \<times> rc_heap" where
  "DRCBaseNoDel_assign a h =
     (Inl (Undefined_behaviour ''reference to a null object''), h(a \<mapsto> 0))"

section \<open>Shared handles\<close>

text \<open>
  \<open>RCSha::borrow\<close> of \<open>RI_Base.h\<close>: release the old object, then take the new one. The result
  is the heap; the handle holds the new pointer afterwards.
\<close>

definition sub_if :: "addr option \<Rightarrow> rc_heap \<Rightarrow> rc_heap res" where
  "sub_if p h = (case p of None \<Rightarrow> Inr h | Some a \<Rightarrow> res_bind (RCBase_SubRef a h) (\<lambda>(_, h'). Inr h'))"

definition add_if :: "addr option \<Rightarrow> rc_heap \<Rightarrow> rc_heap res" where
  "add_if p h = (case p of None \<Rightarrow> Inr h | Some a \<Rightarrow> RCBase_AddRef a h)"

definition RI_borrow :: "addr option \<Rightarrow> addr option \<Rightarrow> rc_heap \<Rightarrow> rc_heap res" where
  "RI_borrow ptr mPtr h = (if ptr = mPtr then Inr h else res_bind (sub_if mPtr h) (add_if ptr))"

text \<open>\<open>RCSha::borrow\<close> of \<open>DSmartPtr.h\<close>: take the new object, then release the old one.\<close>

definition D_borrow :: "addr option \<Rightarrow> addr option \<Rightarrow> rc_heap \<Rightarrow> rc_heap res" where
  "D_borrow ptr mPtr h = (if ptr = mPtr then Inr h else res_bind (add_if ptr h) (sub_if mPtr))"

text \<open>
  A program that uses handles: the heap and the live handles, each null or an address. The
  operations are the constructors, assignments and the destructor of \<open>RCSha\<close>; \<open>borrow\<close> is the
  one of either class.
\<close>

record rc_state =
  rc_objs :: rc_heap
  rc_handles :: "addr option list"

datatype rc_op =
    RC_New addr
  | RC_Make
  | RC_MakePtr "addr option"
  | RC_Copy nat
  | RC_Assign nat nat
  | RC_AssignPtr nat "addr option"
  | RC_Destroy nat

definition rc_hold :: "rc_heap res \<Rightarrow> addr option list \<Rightarrow> rc_state res" where
  "rc_hold r hs = res_bind r (\<lambda>h. Inr \<lparr>rc_objs = h, rc_handles = hs\<rparr>)"

fun rc_step ::
  "(addr option \<Rightarrow> addr option \<Rightarrow> rc_heap \<Rightarrow> rc_heap res) \<Rightarrow> rc_op \<Rightarrow> rc_state \<Rightarrow> rc_state res" where
  "rc_step borrow (RC_New a) s = Inr (s\<lparr>rc_objs := rc_new a (rc_objs s)\<rparr>)"
| "rc_step borrow RC_Make s = Inr (s\<lparr>rc_handles := rc_handles s @ [None]\<rparr>)"
| "rc_step borrow (RC_MakePtr p) s =
     rc_hold (borrow p None (rc_objs s)) (rc_handles s @ [p])"
| "rc_step borrow (RC_Copy j) s =
     rc_hold (borrow (rc_handles s ! j) None (rc_objs s)) (rc_handles s @ [rc_handles s ! j])"
| "rc_step borrow (RC_Assign i j) s =
     rc_hold (borrow (rc_handles s ! j) (rc_handles s ! i) (rc_objs s))
       ((rc_handles s)[i := rc_handles s ! j])"
| "rc_step borrow (RC_AssignPtr i p) s =
     rc_hold (borrow p (rc_handles s ! i) (rc_objs s)) ((rc_handles s)[i := p])"
| "rc_step borrow (RC_Destroy i) s =
     rc_hold (sub_if (rc_handles s ! i) (rc_objs s))
       (take i (rc_handles s) @ drop (Suc i) (rc_handles s))"

fun rc_run ::
  "(addr option \<Rightarrow> addr option \<Rightarrow> rc_heap \<Rightarrow> rc_heap res) \<Rightarrow> rc_op list \<Rightarrow> rc_state \<Rightarrow> rc_state res" where
  "rc_run borrow [] s = Inr s"
| "rc_run borrow (c # cs) s = res_bind (rc_step borrow c s) (rc_run borrow cs)"

text \<open>
  What the client must respect: indices of existing handles, raw pointers to live objects,
  and a new object at a free address. \<open>rc_ok\<close> is the guard of one operation and
  \<open>rc_client_ok\<close> the guard of a run, each operation judged in the state it meets.
\<close>

fun rc_ok :: "rc_op \<Rightarrow> rc_state \<Rightarrow> bool" where
  "rc_ok (RC_New a) s = (rc_objs s a = None)"
| "rc_ok RC_Make s = True"
| "rc_ok (RC_MakePtr p) s = (\<forall>a. p = Some a \<longrightarrow> rc_objs s a \<noteq> None)"
| "rc_ok (RC_Copy j) s = (j < length (rc_handles s))"
| "rc_ok (RC_Assign i j) s = (i < length (rc_handles s) \<and> j < length (rc_handles s))"
| "rc_ok (RC_AssignPtr i p) s =
     (i < length (rc_handles s) \<and> (\<forall>a. p = Some a \<longrightarrow> rc_objs s a \<noteq> None))"
| "rc_ok (RC_Destroy i) s = (i < length (rc_handles s))"

fun rc_client_ok ::
  "(addr option \<Rightarrow> addr option \<Rightarrow> rc_heap \<Rightarrow> rc_heap res) \<Rightarrow> rc_op list \<Rightarrow> rc_state \<Rightarrow> bool" where
  "rc_client_ok borrow [] s = True"
| "rc_client_ok borrow (c # cs) s =
     (rc_ok c s \<and> (case rc_step borrow c s of Inl e \<Rightarrow> True | Inr s' \<Rightarrow> rc_client_ok borrow cs s'))"

definition refs_to :: "addr \<Rightarrow> rc_state \<Rightarrow> nat" where
  "refs_to a s = count_list (rc_handles s) (Some a)"

text \<open>
  The invariant: an object that handles point to is live and counts them; an object without
  handles is deleted, unless it was created and never handed to a handle.
\<close>

definition counts_exact :: "rc_state \<Rightarrow> bool" where
  "counts_exact s \<longleftrightarrow>
     (\<forall>a. if refs_to a s = 0 then rc_objs s a = None \<or> rc_objs s a = Some 0
          else rc_objs s a = Some (int (refs_to a s)))"

section \<open>Owning vectors\<close>

text \<open>
  \<open>VecOwn\<close> deletes what it drops. The heap is the list of live addresses; \<open>DSAFE_DELETE\<close>
  skips null pointers, and deleting an address that is not live is undefined.
\<close>

type_synonym own_state = "addr option list \<times> addr list"

definition safe_delete :: "addr option \<Rightarrow> addr list \<Rightarrow> addr list res" where
  "safe_delete p live =
     (case p of None \<Rightarrow> Inr live
      | Some a \<Rightarrow> if a \<in> set live then Inr (remove1 a live) else Inl freed)"

fun delete_all :: "addr option list \<Rightarrow> addr list \<Rightarrow> addr list res" where
  "delete_all [] live = Inr live"
| "delete_all (p # ps) live = res_bind (safe_delete p live) (delete_all ps)"

definition VecOwn_resize :: "nat \<Rightarrow> own_state \<Rightarrow> own_state" where
  "VecOwn_resize n = (\<lambda>(v, live). (take n v @ replicate (n - length v) None, live))"

definition VecOwn_clear :: "own_state \<Rightarrow> own_state res" where
  "VecOwn_clear = (\<lambda>(v, live). res_bind (delete_all v live) (\<lambda>l. Inr ([], l)))"

definition VecOwn_clear_free :: "own_state \<Rightarrow> own_state res" where
  "VecOwn_clear_free = (\<lambda>(v, live). res_bind (delete_all v live) (\<lambda>l. Inr ([], l)))"

definition VecOwn_erase :: "nat \<Rightarrow> own_state \<Rightarrow> own_state res" where
  "VecOwn_erase idx = (\<lambda>(v, live).
     if idx < length v
     then res_bind (safe_delete (v ! idx) live) (\<lambda>l. Inr (take idx v @ drop (Suc idx) v, l))
     else Inl (Undefined_behaviour ''element past the end''))"

definition VecOwn_push_back :: "addr option \<Rightarrow> own_state \<Rightarrow> own_state" where
  "VecOwn_push_back p = (\<lambda>(v, live). (v @ [p], live))"

definition VecOwn_pop_back :: "own_state \<Rightarrow> own_state res" where
  "VecOwn_pop_back s = VecOwn_erase (length (fst s) - 1) s"

definition VecOwn_destroy :: "own_state \<Rightarrow> own_state res" where
  "VecOwn_destroy s = VecOwn_clear_free s"

text \<open>
  \<open>Dclear_free ( VecOwn )\<close> assigns an empty vector. The class declares a destructor but no
  assignment operator, so the assignment copies the empty \<open>mVec\<close> and deletes nothing.
\<close>

definition VecOwn_Dclear_free :: "own_state \<Rightarrow> own_state" where
  "VecOwn_Dclear_free = (\<lambda>(v, live). ([], live))"

record VecOwnNamed =
  von_mVec :: "addr option list"
  von_mNames :: "string list"

fun find_name :: "string list \<Rightarrow> string \<Rightarrow> nat option" where
  "find_name [] nm = None"
| "find_name (x # xs) nm = (if x = nm then Some 0 else map_option Suc (find_name xs nm))"

definition FindByName :: "string \<Rightarrow> VecOwnNamed \<Rightarrow> nat option" where
  "FindByName nm v = find_name (von_mNames v) nm"

definition VecOwnNamed_push_back :: "addr option \<Rightarrow> string \<Rightarrow> VecOwnNamed \<Rightarrow> VecOwnNamed" where
  "VecOwnNamed_push_back p nm v =
     \<lparr>von_mVec = von_mVec v @ [p], von_mNames = von_mNames v @ [nm]\<rparr>"

definition VecOwnNamed_resize :: "nat \<Rightarrow> VecOwnNamed \<Rightarrow> VecOwnNamed" where
  "VecOwnNamed_resize n v =
     \<lparr>von_mVec = take n (von_mVec v) @ replicate (n - length (von_mVec v)) None,
      von_mNames = take n (von_mNames v) @ replicate (n - length (von_mNames v)) ''''\<rparr>"

definition VecOwnNamed_erase :: "nat \<Rightarrow> VecOwnNamed \<Rightarrow> addr list \<Rightarrow> (VecOwnNamed \<times> addr list) res" where
  "VecOwnNamed_erase idx v live =
     (if idx < length (von_mNames v)
      then res_bind (VecOwn_erase idx (von_mVec v, live)) (\<lambda>(p, l).
        Inr (\<lparr>von_mVec = p, von_mNames = take idx (von_mNames v) @ drop (Suc idx) (von_mNames v)\<rparr>, l))
      else Inl (Undefined_behaviour ''element past the end''))"

definition VecOwnNamed_clear :: "VecOwnNamed \<Rightarrow> addr list \<Rightarrow> (VecOwnNamed \<times> addr list) res" where
  "VecOwnNamed_clear v live =
     res_bind (VecOwn_clear (von_mVec v, live)) (\<lambda>(p, l). Inr (\<lparr>von_mVec = p, von_mNames = []\<rparr>, l))"

text \<open>A name that is not there indexes the vector at \<open>DNPOS\<close>.\<close>

definition VecOwnNamed_at :: "string \<Rightarrow> VecOwnNamed \<Rightarrow> addr option res" where
  "VecOwnNamed_at nm v =
     (case FindByName nm v of
        None \<Rightarrow> Inl (Undefined_behaviour ''element past the end'')
      | Some i \<Rightarrow> if i < length (von_mVec v) then Inr (von_mVec v ! i)
                  else Inl (Undefined_behaviour ''element past the end''))"

section \<open>Counting handles\<close>

lemma count_list_split_nth:
  "i < length xs \<Longrightarrow>
   count_list xs x =
     count_list (take i xs) x + (if xs ! i = x then 1 else 0) + count_list (drop (Suc i) xs) x"
  by (subst (1) id_take_nth_drop, assumption) (simp del: append_take_drop_id)

lemma count_list_update:
  "i < length xs \<Longrightarrow>
   count_list (xs[i := y]) x + (if xs ! i = x then 1 else 0) = count_list xs x + (if y = x then 1 else 0)"
  by (simp add: upd_conv_take_nth_drop count_list_split_nth [of i xs x])

lemma count_list_drop_nth:
  "i < length xs \<Longrightarrow>
   count_list (take i xs @ drop (Suc i) xs) x + (if xs ! i = x then 1 else 0) = count_list xs x"
  by (simp add: count_list_split_nth [of i xs x])

lemma count_list_nth_pos: "i < length xs \<Longrightarrow> 0 < count_list xs (xs ! i)"
  by (metis count_list_0_iff gr0I nth_mem)

lemma update_refs:
  "i < length (rc_handles s) \<Longrightarrow>
   count_list ((rc_handles s)[i := y]) (Some a) + (if rc_handles s ! i = Some a then 1 else 0)
     = refs_to a s + (if y = Some a then 1 else 0)"
  unfolding refs_to_def by (rule count_list_update)

lemma counts_exactD:
  "counts_exact s \<Longrightarrow> 0 < refs_to a s \<Longrightarrow> rc_objs s a = Some (int (refs_to a s))"
  by (auto simp: counts_exact_def split: if_splits)

section \<open>The contract of a handle\<close>

text \<open>
  Replacing the pointer \<open>q\<close> of a handle by a different pointer \<open>p\<close>: the object of \<open>p\<close> gains a
  reference, the object of \<open>q\<close> loses one and is deleted with its last reference.
\<close>

definition exchange :: "addr option \<Rightarrow> addr option \<Rightarrow> rc_heap \<Rightarrow> rc_heap" where
  "exchange p q h = (\<lambda>a.
     if p = Some a then map_option (\<lambda>c. c + 1) (h a)
     else if q = Some a
     then (case h a of Some c \<Rightarrow> if c = 1 then None else Some (c - 1) | None \<Rightarrow> None)
     else h a)"

definition live_ptr :: "addr option \<Rightarrow> rc_heap \<Rightarrow> bool" where
  "live_ptr p h = (\<forall>a. p = Some a \<longrightarrow> h a \<noteq> None)"

definition held_ptr :: "addr option \<Rightarrow> rc_heap \<Rightarrow> bool" where
  "held_ptr p h = (\<forall>a. p = Some a \<longrightarrow> (\<exists>c\<ge>1. h a = Some c))"

lemma held_live: "held_ptr p h \<Longrightarrow> live_ptr p h"
  by (auto simp: held_ptr_def live_ptr_def)

lemma sub_if_exchange: "held_ptr q h \<Longrightarrow> sub_if q h = Inr (exchange None q h)"
  by (cases q) (auto simp: sub_if_def RCBase_SubRef_def exchange_def held_ptr_def Let_def fun_eq_iff)

lemma add_if_exchange: "live_ptr p h \<Longrightarrow> add_if p h = Inr (exchange p None h)"
  by (cases p) (auto simp: add_if_def RCBase_AddRef_def exchange_def live_ptr_def fun_eq_iff)

lemma exchange_None [simp]: "exchange None None h = h"
  by (simp add: exchange_def)

locale counted_handles =
  fixes borrow :: "addr option \<Rightarrow> addr option \<Rightarrow> rc_heap \<Rightarrow> rc_heap res"
  assumes borrow_same: "borrow p p h = Inr h"
    and borrow_other: "p \<noteq> q \<Longrightarrow> live_ptr p h \<Longrightarrow> held_ptr q h \<Longrightarrow> borrow p q h = Inr (exchange p q h)"
begin

lemma borrow_ok:
  "live_ptr p h \<Longrightarrow> held_ptr q h \<Longrightarrow> borrow p q h = Inr (if p = q then h else exchange p q h)"
  by (simp add: borrow_same borrow_other)

end

lemma RI_borrow_other:
  assumes "p \<noteq> q" "live_ptr p h" "held_ptr q h"
  shows "RI_borrow p q h = Inr (exchange p q h)"
proof -
  have "live_ptr p (exchange None q h)"
    using assms by (auto simp: live_ptr_def exchange_def)
  then have "RI_borrow p q h = Inr (exchange p None (exchange None q h))"
    using assms by (simp add: RI_borrow_def sub_if_exchange add_if_exchange)
  also have "exchange p None (exchange None q h) = exchange p q h"
    using assms(1) by (auto simp: exchange_def)
  finally show ?thesis .
qed

lemma D_borrow_other:
  assumes "p \<noteq> q" "live_ptr p h" "held_ptr q h"
  shows "D_borrow p q h = Inr (exchange p q h)"
proof -
  have "held_ptr q (exchange p None h)"
    using assms by (auto simp: held_ptr_def exchange_def)
  then have "D_borrow p q h = Inr (exchange None q (exchange p None h))"
    using assms by (simp add: D_borrow_def sub_if_exchange add_if_exchange)
  also have "exchange None q (exchange p None h) = exchange p q h"
    using assms(1) by (auto simp: exchange_def)
  finally show ?thesis .
qed

interpretation ri_handles: counted_handles RI_borrow
  by unfold_locales (simp add: RI_borrow_def, rule RI_borrow_other)

interpretation d_handles: counted_handles D_borrow
  by unfold_locales (simp add: D_borrow_def, rule D_borrow_other)

lemma exchange_counts:
  assumes inv: "counts_exact s" and diff: "p \<noteq> q"
    and held: "held_ptr q (rc_objs s)" and live: "live_ptr p (rc_objs s)"
    and cnt: "\<And>a. count_list hs (Some a) + (if q = Some a then 1 else 0)
                 = refs_to a s + (if p = Some a then 1 else 0)"
  shows "counts_exact \<lparr>rc_objs = exchange p q (rc_objs s), rc_handles = hs\<rparr>"
  unfolding counts_exact_def
proof
  fix a
  have old: "if refs_to a s = 0 then rc_objs s a = None \<or> rc_objs s a = Some 0
             else rc_objs s a = Some (int (refs_to a s))"
    using inv by (simp add: counts_exact_def)
  show "if refs_to a \<lparr>rc_objs = exchange p q (rc_objs s), rc_handles = hs\<rparr> = 0
        then rc_objs \<lparr>rc_objs = exchange p q (rc_objs s), rc_handles = hs\<rparr> a = None \<or>
             rc_objs \<lparr>rc_objs = exchange p q (rc_objs s), rc_handles = hs\<rparr> a = Some 0
        else rc_objs \<lparr>rc_objs = exchange p q (rc_objs s), rc_handles = hs\<rparr> a =
             Some (int (refs_to a \<lparr>rc_objs = exchange p q (rc_objs s), rc_handles = hs\<rparr>))"
  proof (cases "p = Some a")
    case True
    with live diff cnt [of a] old show ?thesis
      by (auto simp: live_ptr_def exchange_def refs_to_def split: if_splits)
  next
    case False
    with held cnt [of a] old show ?thesis
      by (auto simp: held_ptr_def exchange_def refs_to_def split: if_splits)
  qed
qed

lemma handle_held:
  assumes "counts_exact s" "i < length (rc_handles s)"
  shows "held_ptr (rc_handles s ! i) (rc_objs s)"
  unfolding held_ptr_def
proof (intro allI impI)
  fix a
  assume "rc_handles s ! i = Some a"
  then have "0 < refs_to a s"
    using count_list_nth_pos [OF assms(2)] by (simp add: refs_to_def)
  with counts_exactD [OF assms(1)] have "rc_objs s a = Some (int (refs_to a s)) \<and> 1 \<le> int (refs_to a s)"
    by simp
  then show "\<exists>c\<ge>1. rc_objs s a = Some c" by blast
qed

context counted_handles
begin

lemma hold_counts:
  assumes inv: "counts_exact s"
    and held: "held_ptr q (rc_objs s)" and live: "live_ptr p (rc_objs s)"
    and cnt: "\<And>a. count_list hs (Some a) + (if q = Some a then 1 else 0)
                 = refs_to a s + (if p = Some a then 1 else 0)"
  shows "\<exists>s'. rc_hold (borrow p q (rc_objs s)) hs = Inr s' \<and> counts_exact s'"
proof (cases "p = q")
  case True
  with cnt have "\<And>a. count_list hs (Some a) = refs_to a s" by (metis add_right_cancel)
  with inv True show ?thesis
    by (simp add: rc_hold_def borrow_same counts_exact_def refs_to_def)
next
  case False
  with exchange_counts [OF inv False held live cnt] held live show ?thesis
    by (simp add: rc_hold_def borrow_other)
qed

lemma step_safe:
  assumes inv: "counts_exact s" and ok: "rc_ok c s"
  shows "\<exists>s'. rc_step borrow c s = Inr s' \<and> counts_exact s'"
proof (cases c)
  case (RC_New a)
  with inv ok show ?thesis
    by (auto simp: counts_exact_def refs_to_def rc_new_def split: if_splits)
next
  case RC_Make
  with inv show ?thesis by (auto simp: counts_exact_def refs_to_def)
next
  case (RC_MakePtr p)
  then show ?thesis
    using hold_counts [OF inv, of None p "rc_handles s @ [p]"] ok
    by (simp add: held_ptr_def live_ptr_def refs_to_def)
next
  case (RC_Copy j)
  then show ?thesis
    using hold_counts [OF inv, of None "rc_handles s ! j" "rc_handles s @ [rc_handles s ! j]"] ok
      held_live [OF handle_held [OF inv]]
    by (simp add: held_ptr_def refs_to_def)
next
  case (RC_Assign i j)
  with ok have i: "i < length (rc_handles s)" and j: "j < length (rc_handles s)" by auto
  show ?thesis
    using hold_counts [OF inv handle_held [OF inv i] held_live [OF handle_held [OF inv j]]
        update_refs [OF i]] RC_Assign
    by simp
next
  case (RC_AssignPtr i p)
  with ok have i: "i < length (rc_handles s)" and p: "live_ptr p (rc_objs s)"
    by (auto simp: live_ptr_def)
  show ?thesis
    using hold_counts [OF inv handle_held [OF inv i] p update_refs [OF i]] RC_AssignPtr by simp
next
  case (RC_Destroy i)
  with ok have i: "i < length (rc_handles s)" by simp
  let ?hs = "take i (rc_handles s) @ drop (Suc i) (rc_handles s)"
  have held: "held_ptr (rc_handles s ! i) (rc_objs s)" by (rule handle_held [OF inv i])
  have cnt: "count_list ?hs (Some a) + (if rc_handles s ! i = Some a then 1 else 0) = refs_to a s" for a
    unfolding refs_to_def by (rule count_list_drop_nth [OF i])
  show ?thesis
  proof (cases "rc_handles s ! i")
    case None
    with cnt inv RC_Destroy show ?thesis
      by (auto simp: rc_hold_def sub_if_def counts_exact_def refs_to_def)
  next
    case (Some b)
    then have "counts_exact \<lparr>rc_objs = exchange None (rc_handles s ! i) (rc_objs s), rc_handles = ?hs\<rparr>"
      using exchange_counts [OF inv _ held, of None ?hs] cnt by (simp add: live_ptr_def)
    with RC_Destroy held show ?thesis by (simp add: rc_hold_def sub_if_exchange)
  qed
qed

lemma run_safe:
  "counts_exact s \<Longrightarrow> rc_client_ok borrow cs s \<Longrightarrow> \<exists>s'. rc_run borrow cs s = Inr s' \<and> counts_exact s'"
proof (induction cs arbitrary: s)
  case Nil
  then show ?case by simp
next
  case (Cons c cs)
  then obtain t where t: "rc_step borrow c s = Inr t" "counts_exact t"
    using step_safe [of s c] by auto
  with Cons show ?case by simp
qed

end

section \<open>Properties\<close>



fun owned :: "addr option list \<Rightarrow> addr list" where
  "owned [] = []"
| "owned (None # ps) = owned ps"
| "owned (Some a # ps) = a # owned ps"

lemma delete_all_ok:
  "distinct live \<Longrightarrow> distinct (owned v) \<Longrightarrow> set (owned v) \<subseteq> set live \<Longrightarrow>
   \<exists>l. delete_all v live = Inr l \<and> set l = set live - set (owned v) \<and> distinct l"
proof (induction v arbitrary: live)
  case Nil
  then show ?case by simp
next
  case (Cons p v)
  show ?case
  proof (cases p)
    case None
    with Cons show ?thesis by (simp add: safe_delete_def)
  next
    case (Some a)
    with Cons.prems have a: "a \<in> set live" "a \<notin> set (owned v)"
      by simp_all
    then have "\<exists>l. delete_all v (remove1 a live) = Inr l \<and>
        set l = set (remove1 a live) - set (owned v) \<and> distinct l"
      using Cons.prems Some by (intro Cons.IH) auto
    with a Some Cons.prems(1) show ?thesis
      by (auto simp: safe_delete_def)
  qed
qed

text \<open>
  For a vector that owns distinct live objects, \<open>clear_free\<close> (the destructor) deletes all
  of them and nothing else, and \<open>Dclear_free\<close>, meant to do the same, deletes none: every
  object the vector owned is left without an owner.
\<close>

theorem owning_vector_release:
  assumes "distinct live" "distinct (owned v)" "set (owned v) \<subseteq> set live"
  shows "(\<exists>l. VecOwn_clear_free (v, live) = Inr ([], l) \<and> set l = set live - set (owned v)) \<and>
         VecOwn_Dclear_free (v, live) = ([], live)"
  using delete_all_ok [OF assms] by (auto simp: VecOwn_clear_free_def VecOwn_Dclear_free_def)

lemma owning_vector_release_witness:
  "(\<exists>l. VecOwn_clear_free ([Some 1, None, Some 2], [1, 2, 3]) = Inr ([], l) \<and> set l = {3}) \<and>
   VecOwn_Dclear_free ([Some 1, None, Some 2], [1, 2, 3]) = ([], [1, 2, 3])"
  using owning_vector_release [of "[1, 2, 3]" "[Some 1, None, Some 2]"]
  by (simp add: insert_Diff_if)

end
