(* ===== verification/RiState.thy ===== *)
theory RiState
  imports RiBase RibParser Refs
begin

text \<open>
  The graphics state of the renderer: \<open>RI_Transform.h\<close>, \<open>RI_Options.h/.cpp\<close>,
  \<open>RI_Attributes.h/.cpp\<close> (the commands that do not load shaders), \<open>RI_State.h/.cpp\<close> with its
  mode checks, and the bookkeeping of \<open>RI_Framework.cpp\<close> that gives every primitive its
  attributes and transformation. Floats are reals; a stack is a list with its top first.
\<close>

section \<open>Stacks of copies\<close>

definition empty_back :: exn where
  "empty_back = Undefined_behaviour ''back of an empty vector''"

definition CopyStack_top :: "'a list \<Rightarrow> 'a res" where
  "CopyStack_top st = (case st of [] \<Rightarrow> Inl empty_back | x # _ \<Rightarrow> Inr x)"

definition CopyStack_push :: "'a list \<Rightarrow> 'a list res" where
  "CopyStack_push st = res_bind (CopyStack_top st) (\<lambda>x. Inr (x # st))"

definition CopyStack_pop :: "'a list \<Rightarrow> 'a list res" where
  "CopyStack_pop st = (case st of [] \<Rightarrow> Inl empty_back | _ # xs \<Rightarrow> Inr xs)"

section \<open>Transformations\<close>

text \<open>
  A \<open>Transform\<close> is its matrix; its revision counter is shared by the whole stack and passed
  along. \<open>ConcatTransform\<close> computes \<open>m * mMatrix\<close>; the array the product is stored in starts
  unspecified and is overwritten, here from \<open>Identity\<close>.
\<close>

definition Transform_SetIdentity :: "Matrix44 \<times> int \<Rightarrow> Matrix44 \<times> int" where
  "Transform_SetIdentity = (\<lambda>(m, rv). (Identity, BumpRevision rv))"

definition Transform_ConcatTransform :: "Matrix44 \<Rightarrow> Matrix44 \<times> int \<Rightarrow> Matrix44 \<times> int" where
  "Transform_ConcatTransform m = (\<lambda>(mMatrix, rv). (Matrix44_mul Identity m mMatrix, BumpRevision rv))"

definition Transform_CopyRowMajor :: "real list \<Rightarrow> Matrix44 \<times> int \<Rightarrow> Matrix44 \<times> int" where
  "Transform_CopyRowMajor src = (\<lambda>(m, rv). (CopyRowMajor src, BumpRevision rv))"

section \<open>Options\<close>

text \<open>
  Displays are heap objects that several copies of the options point to. The image of a
  display is kept beside it, in the theory \<open>Displays\<close>.
\<close>

record Display =
  disp_mName :: string
  disp_mType :: string
  disp_mMode :: string
  disp_mValZero :: int
  disp_mValOne :: int
  disp_mValMin :: int
  disp_mValMax :: int

definition Display_new :: Display where
  "Display_new = \<lparr>disp_mName = '''', disp_mType = '''', disp_mMode = '''', disp_mValZero = 0,
     disp_mValOne = 255, disp_mValMin = 0, disp_mValMax = 255\<rparr>"

definition Display_IsFile :: "Display \<Rightarrow> bool" where
  "Display_IsFile d = (disp_mType d = ''file'')"

definition Display_IsFrameBuff :: "Display \<Rightarrow> bool" where
  "Display_IsFrameBuff d = (disp_mType d = ''framebuffer'')"

text \<open>The live displays and the next unused address.\<close>

record disp_heap =
  dh_objs :: "addr \<Rightarrow> Display option"
  dh_next :: addr

datatype SearchPathh = SEARCHPATH_SHADER | SEARCHPATH_TEXTURE | SEARCHPATH_ARCHIVE

record Options =
  mXRes :: int
  mYRes :: int
  mPixelAspectRatio :: real
  mFrameAspectRatio :: real
  mLeft :: real
  mRight :: real
  mBottom :: real
  mTop :: real
  mXMin :: real
  mXMax :: real
  mYMin :: real
  mYMax :: real
  mpyProjection :: "Symbol option"
  mProjectionParams :: "Param list"
  mMtxCamProj :: Matrix44
  mNearClip :: real
  mFarClip :: real
  mFStop :: real
  mFocalLength :: real
  mFocalDistance :: real
  mOpenShutter :: real
  mCloseShutter :: real
  mPixSamplesX :: int
  mPixSamplesY :: int
  mpDisplays :: "addr list"
  mSearchPaths :: "SearchPathh \<Rightarrow> string list"

definition NOTSET_FLOAT :: real where
  "NOTSET_FLOAT = FLT_MAX"

definition cmdProjection :: "Param list \<Rightarrow> Options \<times> int \<Rightarrow> Options \<times> int" where
  "cmdProjection params = (\<lambda>(opt, rv). (opt\<lparr>mProjectionParams := params\<rparr>, BumpRevision rv))"

definition Options_Init :: "int \<Rightarrow> Options \<times> int" where
  "Options_Init rv = cmdProjection (ParamList_Add_str ''orthographic'' [])
     (\<lparr>mXRes = 640, mYRes = 480, mPixelAspectRatio = 1,
       mFrameAspectRatio = NOTSET_FLOAT, mLeft = NOTSET_FLOAT, mRight = NOTSET_FLOAT,
       mBottom = NOTSET_FLOAT, mTop = NOTSET_FLOAT,
       mXMin = 0, mXMax = 1, mYMin = 0, mYMax = 1,
       mpyProjection = None, mProjectionParams = [], mMtxCamProj = Identity,
       mNearClip = RI_EPSILON, mFarClip = RI_INFINITY, mFStop = RI_INFINITY,
       mFocalLength = 0, mFocalDistance = 0, mOpenShutter = 0, mCloseShutter = 0,
       mPixSamplesX = 2, mPixSamplesY = 2, mpDisplays = [], mSearchPaths = \<lambda>_. []\<rparr>, rv)"

definition cmdFormat :: "int \<Rightarrow> int \<Rightarrow> real \<Rightarrow> Options \<times> int \<Rightarrow> Options \<times> int" where
  "cmdFormat xRes yRes pixelRatio = (\<lambda>(opt, rv).
     (opt\<lparr>mXRes := xRes, mYRes := yRes, mPixelAspectRatio := pixelRatio\<rparr>, BumpRevision rv))"

definition cmdFrameAspectRatio :: "real \<Rightarrow> Options \<times> int \<Rightarrow> Options \<times> int" where
  "cmdFrameAspectRatio ratio = (\<lambda>(opt, rv). (opt\<lparr>mFrameAspectRatio := ratio\<rparr>, BumpRevision rv))"

definition cmdScreenWindow :: "real \<Rightarrow> real \<Rightarrow> real \<Rightarrow> real \<Rightarrow> Options \<times> int \<Rightarrow> Options \<times> int" where
  "cmdScreenWindow left right bottom topp = (\<lambda>(opt, rv).
     (opt\<lparr>mLeft := left, mRight := right, mBottom := bottom, mTop := topp\<rparr>, BumpRevision rv))"

definition cmdCropWindow :: "real \<Rightarrow> real \<Rightarrow> real \<Rightarrow> real \<Rightarrow> Options \<times> int \<Rightarrow> Options \<times> int" where
  "cmdCropWindow xMin xMax yMin yMax = (\<lambda>(opt, rv).
     (opt\<lparr>mXMin := xMin, mXMax := xMax, mYMin := yMin, mYMax := yMax\<rparr>, BumpRevision rv))"

definition cmdClipping :: "real \<Rightarrow> real \<Rightarrow> Options \<times> int \<Rightarrow> Options \<times> int" where
  "cmdClipping nearr farr = (\<lambda>(opt, rv).
     (opt\<lparr>mNearClip := nearr, mFarClip := farr\<rparr>, BumpRevision rv))"

definition cmdDepthOfField :: "real \<Rightarrow> real \<Rightarrow> real \<Rightarrow> Options \<times> int \<Rightarrow> Options \<times> int" where
  "cmdDepthOfField fStop focalLength focalDistance = (\<lambda>(opt, rv).
     (opt\<lparr>mFStop := fStop, mFocalLength := focalLength, mFocalDistance := focalDistance\<rparr>,
      BumpRevision rv))"

definition cmdShutter :: "real \<Rightarrow> real \<Rightarrow> Options \<times> int \<Rightarrow> Options \<times> int" where
  "cmdShutter openShutter closeShutter = (\<lambda>(opt, rv).
     (opt\<lparr>mOpenShutter := openShutter, mCloseShutter := closeShutter\<rparr>, BumpRevision rv))"

definition cmdPixelSamples :: "int \<Rightarrow> int \<Rightarrow> Options \<times> int \<Rightarrow> Options \<times> int" where
  "cmdPixelSamples samplesX samplesY = (\<lambda>(opt, rv).
     (opt\<lparr>mPixSamplesX := D_Clamp samplesX 1 64, mPixSamplesY := D_Clamp samplesY 1 64\<rparr>, rv))"

text \<open>
  Deleting the displays of a list. A copy of the list elsewhere keeps its pointers, so a
  pointer may be dead already: deleting it again is undefined.
\<close>

fun delete_displays :: "addr list \<Rightarrow> disp_heap \<Rightarrow> unit res \<times> disp_heap" where
  "delete_displays [] h = (Inr (), h)"
| "delete_displays (a # as) h =
     (case dh_objs h a of
        None \<Rightarrow> (Inl freed, h)
      | Some _ \<Rightarrow> delete_displays as (h\<lparr>dh_objs := (dh_objs h)(a := None)\<rparr>))"

definition FreeDisplays :: "Options \<Rightarrow> disp_heap \<Rightarrow> unit res \<times> Options \<times> disp_heap" where
  "FreeDisplays opt h =
     (case delete_displays (mpDisplays opt) h of
        (Inl e, h') \<Rightarrow> (Inl e, opt, h')
      | (Inr _, h') \<Rightarrow> (Inr (), opt\<lparr>mpDisplays := []\<rparr>, h'))"

definition display_type :: "string \<Rightarrow> string option" where
  "display_type pType =
     (if pType = ''framebuffer'' then Some ''framebuffer''
      else if pType = ''file'' \<or> pType = ''tiff'' then Some ''file''
      else None)"

text \<open>
  The new display is in the list before its type is checked: an unknown type throws and
  leaves it there without type, mode and name.
\<close>

definition push_display :: "string \<Rightarrow> string \<Rightarrow> string \<Rightarrow> Options \<Rightarrow> disp_heap \<Rightarrow> unit res \<times> Options \<times> disp_heap" where
  "push_display nm pType pMode opt h =
     (let a = dh_next h;
          opt = opt\<lparr>mpDisplays := mpDisplays opt @ [a]\<rparr>;
          put = (\<lambda>d. \<lparr>dh_objs = (dh_objs h)(a \<mapsto> d), dh_next = a + 1\<rparr>)
      in case display_type pType of
           Some ty \<Rightarrow>
             (Inr (), opt, put (Display_new\<lparr>disp_mType := ty, disp_mMode := pMode, disp_mName := nm\<rparr>))
         | None \<Rightarrow> (Inl (Runtime_error (''Unknown display type '' @ pType)), opt, put Display_new))"

definition cmdDisplay :: "string \<Rightarrow> string \<Rightarrow> string \<Rightarrow> Options \<Rightarrow> disp_heap \<Rightarrow> unit res \<times> Options \<times> disp_heap" where
  "cmdDisplay pName pType pMode opt h =
     (let appending = (pName \<noteq> [] \<and> hd pName = CHR ''+'');
          nm = (if appending then tl pName else pName);
          nm = (if nm = [] then ''no_name'' else nm)
      in if appending then push_display nm pType pMode opt h
         else (case FreeDisplays opt h of
                 (Inl e, opt, h) \<Rightarrow> (Inl e, opt, h)
               | (Inr _, opt, h) \<Rightarrow> push_display nm pType pMode opt h))"

subsection \<open>Finalize\<close>

definition real_of_flt :: "flt \<Rightarrow> real res" where
  "real_of_flt v = (case v of Fin q \<Rightarrow> Inr (of_rat q)
     | _ \<Rightarrow> Inl (Not_modelled ''a number that is infinite or not a number''))"

definition Param_real :: "Param \<Rightarrow> real res" where
  "Param_real p = res_bind (Param_Flt p) real_of_flt"

definition DEG2RAD :: "real \<Rightarrow> real" where
  "DEG2RAD d = d * (314159265 / 10 ^ 8 / 180)"

text \<open>The fallback displays, when the scene names none.\<close>

definition fallback_displays :: "bool \<Rightarrow> bool \<Rightarrow> Options \<Rightarrow> disp_heap \<Rightarrow> unit res \<times> Options \<times> disp_heap" where
  "fallback_displays fileDisp fbuffDisp opt h =
     (if mpDisplays opt \<noteq> [] then (Inr (), opt, h)
      else
        let (r, opt, h) = (if fileDisp then cmdDisplay ''frame0001.tif'' ''file'' ''rgba'' opt h
                           else (Inr (), opt, h))
        in case r of
             Inl e \<Rightarrow> (Inl e, opt, h)
           | Inr _ \<Rightarrow> if fbuffDisp then cmdDisplay ''frame0001.tif'' ''framebuffer'' ''rgba'' opt h
                      else (Inr (), opt, h))"

text \<open>The frame aspect ratio and the screen window, where the scene did not set them.\<close>

definition finalize_aspect :: "Options \<Rightarrow> Options res" where
  "finalize_aspect opt =
     (if mFrameAspectRatio opt = NOTSET_FLOAT then
        if mYRes opt = 0 then Inl (Not_modelled ''division by zero'')
        else Inr (opt\<lparr>mFrameAspectRatio := mPixelAspectRatio opt * of_int (mXRes opt) / of_int (mYRes opt)\<rparr>)
      else Inr opt)"

definition finalize_window :: "Options \<Rightarrow> Options res" where
  "finalize_window opt =
     (if mLeft opt = NOTSET_FLOAT then
        if mFrameAspectRatio opt \<ge> 1
        then Inr (opt\<lparr>mLeft := - mFrameAspectRatio opt, mRight := mFrameAspectRatio opt,
                      mBottom := - 1, mTop := 1\<rparr>)
        else if mFrameAspectRatio opt = 0 then Inl (Not_modelled ''division by zero'')
        else Inr (opt\<lparr>mLeft := - 1, mRight := 1,
                      mBottom := - 1 / mFrameAspectRatio opt, mTop := 1 / mFrameAspectRatio opt\<rparr>)
      else Inr opt)"

text \<open>
  The projection parameters after the first, for a perspective: each string \<open>"fov"\<close> takes the
  next parameter. A missing value prints a message and bumps the revision.
\<close>

fun finalize_fov :: "Param list \<Rightarrow> Options \<times> int \<Rightarrow> unit res \<times> Options \<times> int" where
  "finalize_fov [] (opt, rv) = (Inr (), opt, rv)"
| "finalize_fov (p # ps) (opt, rv) =
     (if ptype p = P_STR \<and> stringVal p = ''fov'' then
        (case ps of
           [] \<Rightarrow> (Inr (), opt, BumpRevision rv)
         | v # ps' \<Rightarrow>
             (case Param_real v of
                Inl e \<Rightarrow> (Inl e, opt, rv)
              | Inr fov \<Rightarrow>
                  finalize_fov ps'
                    (opt\<lparr>mMtxCamProj := Perspective (DEG2RAD fov) (mFrameAspectRatio opt)
                                          (mNearClip opt) (mFarClip opt)\<rparr>, rv)))
      else finalize_fov ps (opt, rv))"

definition finalize_projection :: "SymbolList \<Rightarrow> Options \<times> int \<Rightarrow> unit res \<times> Options \<times> int" where
  "finalize_projection syms = (\<lambda>(opt, rv).
     case mProjectionParams opt of
       [] \<Rightarrow> (Inr (), opt, rv)
     | p # ps \<Rightarrow>
         if stringVal p = ''perspective''
         then finalize_fov ps (opt\<lparr>mpyProjection := FindSymbol ''perspective'' syms\<rparr>, rv)
         else if stringVal p = ''orthographic''
         then (Inr (), opt\<lparr>mpyProjection := FindSymbol ''orthographic'' syms\<rparr>, rv)
         else (Inr (), opt, rv))"

definition Options_Finalize ::
  "SymbolList \<Rightarrow> bool \<Rightarrow> bool \<Rightarrow> Options \<times> int \<Rightarrow> disp_heap \<Rightarrow> unit res \<times> (Options \<times> int) \<times> disp_heap" where
  "Options_Finalize syms fileDisp fbuffDisp = (\<lambda>(opt, rv) h.
     case fallback_displays fileDisp fbuffDisp opt h of
       (Inl e, opt, h) \<Rightarrow> (Inl e, (opt, rv), h)
     | (Inr _, opt, h) \<Rightarrow>
         (case finalize_aspect opt of
            Inl e \<Rightarrow> (Inl e, (opt, rv), h)
          | Inr opt \<Rightarrow>
              (case finalize_window opt of
                 Inl e \<Rightarrow> (Inl e, (opt, rv), h)
               | Inr opt \<Rightarrow>
                   let (r, opt, rv) = finalize_projection syms (opt, rv)
                   in (r, (opt, rv), h))))"


section \<open>Shaders and their instances\<close>

text \<open>
  Of a shader the state uses its name and whether it has light direction instructions. An
  instance holds the shader, the symbols its call declared, and one value per parameter, which
  is \<open>None\<close> while the allocated memory is not filled. \<open>Services\<close> are what the state is given
  from outside: the file manager's \<open>FileExists\<close>, the constructor \<open>SVM::Shader\<close> with its name,
  include directory and file (it reads and compiles the file), and the forced surface shader.
\<close>

record Shader =
  shd_mName :: string
  mHasDirPosInstructions :: bool

record ShaderInst =
  moShader :: Shader
  mCallSymList :: SymbolList
  mCallSymIList :: "(SymbolI \<times> SymData option) list"

definition ShaderInst_new :: "Shader \<Rightarrow> ShaderInst" where
  "ShaderInst_new pShader = \<lparr>moShader = pShader, mCallSymList = [], mCallSymIList = []\<rparr>"

record Services =
  sv_FileExists :: "string \<Rightarrow> bool"
  sv_Shader :: "string \<Rightarrow> string \<Rightarrow> string \<Rightarrow> Shader res"
  sv_mForcedSurfaceShader :: string

text \<open>The shader resources of the resource manager, found by name without regard to case.\<close>

definition FindResource_shader :: "string \<Rightarrow> Shader list \<Rightarrow> Shader option" where
  "FindResource_shader pName l = find (\<lambda>r. strcasecmp_eq pName (shd_mName r)) l"

section \<open>Attributes\<close>

text \<open>
  Shader instances are shared by reference but never changed after the command that makes
  them, so they are values. The custom basis
  matrices are owned by the attributes, and \<open>copyFrom\<close> clones them, so they are values; a
  symbol is never changed after it was added, so \<open>mpUBasis\<close> is the symbol itself.
\<close>

record Attributes =
  mBound :: Bound
  mDetail :: Bound
  mMinVisible :: real
  mLowerTransition :: real
  mUpperTransition :: real
  mMaxVisible :: real
  mpTypeApproximation :: "Symbol option"
  mValueApproximation :: real
  mOrientationFlipped :: bool
  mSides :: int
  mpUBasis :: "Symbol option"
  mpVBasis :: "Symbol option"
  mpCustomUBasis :: "Matrix44 option"
  mpCustomVBasis :: "Matrix44 option"
  mUSteps :: int
  mVSteps :: int
  mColor :: "real Vec3"
  mOpacity :: "real Vec3"
  moSurfaceSHI :: "ShaderInst option"
  moDisplaceSHI :: "ShaderInst option"
  mActiveLights :: "U16 list"

definition null_deref :: exn where
  "null_deref = Undefined_behaviour ''null pointer''"

definition cmdBound :: "Bound \<Rightarrow> Attributes \<times> int \<Rightarrow> Attributes \<times> int" where
  "cmdBound bound = (\<lambda>(atr, rv). (atr\<lparr>mBound := bound\<rparr>, BumpRevision rv))"

definition cmdDetail :: "Bound \<Rightarrow> Attributes \<times> int \<Rightarrow> Attributes \<times> int" where
  "cmdDetail detail = (\<lambda>(atr, rv). (atr\<lparr>mDetail := detail\<rparr>, BumpRevision rv))"

definition cmdDetailRange :: "real \<Rightarrow> real \<Rightarrow> real \<Rightarrow> real \<Rightarrow> Attributes \<times> int \<Rightarrow> Attributes \<times> int" where
  "cmdDetailRange minVisible lowerTransition upperTransition maxVisible = (\<lambda>(atr, rv).
     (atr\<lparr>mMinVisible := minVisible, mLowerTransition := lowerTransition,
         mUpperTransition := upperTransition, mMaxVisible := maxVisible\<rparr>, BumpRevision rv))"

definition cmdGeometricApproximation ::
  "SymbolList \<Rightarrow> string \<Rightarrow> real \<Rightarrow> Attributes \<times> int \<Rightarrow> Attributes \<times> int" where
  "cmdGeometricApproximation syms typeApproximation valueApproximation = (\<lambda>(atr, rv).
     (atr\<lparr>mpTypeApproximation := FindSymbol typeApproximation syms,
         mValueApproximation := valueApproximation\<rparr>, BumpRevision rv))"

text \<open>An unknown orientation changes nothing but the revision.\<close>

definition orientation_flipped :: "string \<Rightarrow> bool \<Rightarrow> bool" where
  "orientation_flipped orientation old =
     (if strcasecmp_eq orientation ''inside'' then True
      else if strcasecmp_eq orientation ''outside'' then False
      else if strcasecmp_eq orientation ''lh'' then False
      else if strcasecmp_eq orientation ''rh'' then True
      else old)"

definition cmdOrientation :: "string \<Rightarrow> Attributes \<times> int \<Rightarrow> Attributes \<times> int" where
  "cmdOrientation orientation = (\<lambda>(atr, rv).
     (atr\<lparr>mOrientationFlipped := orientation_flipped orientation (mOrientationFlipped atr)\<rparr>, BumpRevision rv))"

definition cmdSides :: "int \<Rightarrow> Attributes \<times> int \<Rightarrow> Attributes \<times> int" where
  "cmdSides sides = (\<lambda>(atr, rv). (atr\<lparr>mSides := sides\<rparr>, BumpRevision rv))"

text \<open>
  A basis is a name or a custom matrix. The name replaces \<open>mpUBasis\<close> and leaves
  \<open>mpCustomUBasis\<close> as it is. A null name with a null matrix reads through the null pointer.
\<close>

definition cmdBasis ::
  "SymbolList \<Rightarrow> string option \<Rightarrow> real list option \<Rightarrow> int \<Rightarrow> string option \<Rightarrow> real list option \<Rightarrow> int
   \<Rightarrow> Attributes \<times> int \<Rightarrow> unit res \<times> Attributes \<times> int" where
  "cmdBasis syms ubasis pCustomU ustep vbasis pCustomV vstep = (\<lambda>(atr, rv).
     let setU = (\<lambda>atr. case ubasis of
            Some u \<Rightarrow> (Inr (), atr\<lparr>mpUBasis := FindSymbol u syms\<rparr>)
          | None \<Rightarrow> (case pCustomU of None \<Rightarrow> (Inl null_deref, atr\<lparr>mpCustomUBasis := None\<rparr>)
                     | Some m \<Rightarrow> (Inr (), atr\<lparr>mpCustomUBasis := Some (CopyRowMajor m)\<rparr>)));
         setV = (\<lambda>atr. case vbasis of
            Some v \<Rightarrow> (Inr (), atr\<lparr>mpVBasis := FindSymbol v syms\<rparr>)
          | None \<Rightarrow> (case pCustomV of None \<Rightarrow> (Inl null_deref, atr\<lparr>mpCustomVBasis := None\<rparr>)
                     | Some m \<Rightarrow> (Inr (), atr\<lparr>mpCustomVBasis := Some (CopyRowMajor m)\<rparr>)))
     in case setU atr of
          (Inl e, atr) \<Rightarrow> (Inl e, atr, rv)
        | (Inr _, atr) \<Rightarrow>
            (case setV atr of
               (Inl e, atr) \<Rightarrow> (Inl e, atr, rv)
             | (Inr _, atr) \<Rightarrow> (Inr (), atr\<lparr>mUSteps := ustep, mVSteps := vstep\<rparr>, BumpRevision rv)))"

definition symbol_basis :: "Symbol option \<Rightarrow> Matrix44 res" where
  "symbol_basis sy =
     (case sy of None \<Rightarrow> Inl null_deref
      | Some s \<Rightarrow> (case GetConstantData s of
            Some (D_matrix (m # _)) \<Rightarrow> Inr m
          | _ \<Rightarrow> Inl null_deref))"

definition GetUBasis :: "Attributes \<Rightarrow> Matrix44 res" where
  "GetUBasis atr = (case mpCustomUBasis atr of Some m \<Rightarrow> Inr m | None \<Rightarrow> symbol_basis (mpUBasis atr))"

definition GetVBasis :: "Attributes \<Rightarrow> Matrix44 res" where
  "GetVBasis atr = (case mpCustomVBasis atr of Some m \<Rightarrow> Inr m | None \<Rightarrow> symbol_basis (mpVBasis atr))"

definition cmdColor :: "real Vec3 \<Rightarrow> Attributes \<times> int \<Rightarrow> Attributes \<times> int" where
  "cmdColor col = (\<lambda>(atr, rv). (atr\<lparr>mColor := col\<rparr>, BumpRevision rv))"

definition cmdOpacity :: "real Vec3 \<Rightarrow> Attributes \<times> int \<Rightarrow> Attributes \<times> int" where
  "cmdOpacity col = (\<lambda>(atr, rv). (atr\<lparr>mOpacity := col\<rparr>, BumpRevision rv))"

definition Attributes_Init :: "SymbolList \<Rightarrow> Shader list \<Rightarrow> int \<Rightarrow> Attributes \<times> int" where
  "Attributes_Init syms resources rv =
     (let atr = \<lparr>mBound = Bound_of RI_INFINITY, mDetail = Bound_of RI_INFINITY,
            mMinVisible = 0, mLowerTransition = 0, mUpperTransition = RI_INFINITY,
            mMaxVisible = RI_INFINITY, mpTypeApproximation = None, mValueApproximation = 0,
            mOrientationFlipped = False, mSides = 0, mpUBasis = None, mpVBasis = None,
            mpCustomUBasis = None, mpCustomVBasis = None, mUSteps = 0, mVSteps = 0,
            mColor = Vec3 1 1 1, mOpacity = Vec3 1 1 1, moSurfaceSHI = None, moDisplaceSHI = None,
            mActiveLights = []\<rparr>;
          s1 = cmdGeometricApproximation syms '''' 0 (atr, rv);
          s2 = cmdSides 2 (cmdOrientation ''outside'' s1);
          (_, atr, rv) = cmdBasis syms (Some ''bezier'') None 3 (Some ''bezier'') None 3 s2
      in (atr\<lparr>mpCustomUBasis := None, mpCustomVBasis := None,
             mColor := Vec3 1 1 1, mOpacity := Vec3 1 1 1,
             moSurfaceSHI := map_option ShaderInst_new (FindResource_shader ''dbg_normal_col'' resources)\<rparr>, rv))"

section \<open>Primitives and the framework\<close>

text \<open>
  A primitive as the commands build it: the quadrics with their dimensions; the others by
  their kind and parameters.
\<close>

datatype Prim =
    Cylinder real real real real
  | Cone real real real
  | Sphere real real real real
  | Hyperboloid "real Vec3" "real Vec3" real
  | Paraboloid real real real real
  | Torus real real real real real
  | PatchBicubic "Param list" "Matrix44 res" "Matrix44 res"
  | PatchBilinear "Param list"
  | PatchMesh "string option" "Param list"
  | NuPatch int int "real list" real real int int "real list" real real "Param list"
  | Polygon "Param list"
  | PointsPolygons "Param list"
  | PointsGeneralPolygons "Param list"

text \<open>
  The framework collects the primitives of a world. It stores one copy of the attributes and
  of the transformation per revision, and each primitive points to the last copies.
\<close>

record Framework =
  fw_mFallBackFileDisplay :: bool
  fw_mFallBackFBuffDisplay :: bool
  fw_mOptions :: Options
  fw_mMtxWorldCamera :: Matrix44
  mpUniqueAttribs :: "Attributes list"
  mpUniqueTransform :: "Matrix44 list"
  mAttrsRev :: int
  mTransRev :: int
  fw_mpPrims :: "(Prim \<times> Attributes \<times> Matrix44) list"

definition Framework_WorldBegin :: "Options \<Rightarrow> Matrix44 \<Rightarrow> Framework \<Rightarrow> Framework" where
  "Framework_WorldBegin opt mtxWorldCamera fw =
     fw\<lparr>fw_mOptions := opt, fw_mMtxWorldCamera := mtxWorldCamera\<rparr>"

text \<open>\<open>SetStates\<close> takes the back of both lists, which is undefined while a list is empty.\<close>

definition Framework_Insert :: "Prim \<Rightarrow> Attributes \<times> int \<Rightarrow> Matrix44 \<times> int \<Rightarrow> Framework \<Rightarrow> unit res \<times> Framework" where
  "Framework_Insert pPrim = (\<lambda>(attr, attrRev) (xform, xformRev) fw.
     let (newA, attrsRev) = Sync attrRev (mAttrsRev fw);
         (newT, transRev) = Sync xformRev (mTransRev fw);
         uas = (if newA then mpUniqueAttribs fw @ [attr] else mpUniqueAttribs fw);
         uts = (if newT then mpUniqueTransform fw @ [xform] else mpUniqueTransform fw);
         fw = fw\<lparr>mAttrsRev := attrsRev, mTransRev := transRev,
                 mpUniqueAttribs := uas, mpUniqueTransform := uts\<rparr>
     in if uas = [] \<or> uts = [] then (Inl empty_back, fw)
        else (Inr (), fw\<lparr>fw_mpPrims := fw_mpPrims fw @ [(pPrim, last uas, last uts)]\<rparr>))"

text \<open>
  \<open>WorldEnd\<close> renders. Of its effects, the model has those on the framework itself: the
  displays of the world's options are written to, so each must be alive; then the primitives
  and both lists of copies are released. The revision checkers keep their counts.
\<close>

definition Framework_WorldEnd :: "disp_heap \<Rightarrow> Framework \<Rightarrow> unit res \<times> Framework" where
  "Framework_WorldEnd h fw =
     (if \<exists>a\<in>set (mpDisplays (fw_mOptions fw)). dh_objs h a = None then (Inl freed, fw)
      else (Inr (), fw\<lparr>fw_mpPrims := [], mpUniqueAttribs := [], mpUniqueTransform := []\<rparr>))"

section \<open>The state\<close>

record LightSourceT =
  ls_moShaderInst :: ShaderInst
  ls_mID :: U32
  ls_mIsAmbient :: bool

record State =
  mGlobalSyms :: SymbolList
  mModeStack :: "Mode list"
  mOptionsStack :: "Options list"
  mAttributesStack :: "Attributes list"
  mTransformOpenStack :: "Matrix44 list"
  mTransformCloseStack :: "Matrix44 list"
  mOptionsRevTrack :: int
  mAttribsRevTrack :: int
  mTransOpenRevTrack :: int
  mTransCloseRevTrack :: int
  mpLightSources :: "LightSourceT list"
  mMtxWorldCamera :: Matrix44
  st_mBaseDir :: string
  st_mDefaultShadersDir :: string
  mpFramework :: Framework
  st_displays :: disp_heap
  mResManager :: "Shader list"
  st_services :: Services

datatype OpType = OPTYPE_OPTS | OPTYPE_ATRB | OPTYPE_PRIM | OPTYPE_STD_XFORM

definition ErrHandler :: "Error \<Rightarrow> exn" where
  "ErrHandler errCode = RI_Exception (''Error '' @ ErrorToString errCode)"

definition op_allowed :: "OpType \<Rightarrow> Mode \<Rightarrow> Error option" where
  "op_allowed optype curMode =
     (case optype of
        OPTYPE_OPTS \<Rightarrow> if curMode \<noteq> MD_BASE \<and> curMode \<noteq> MD_FRAME then Some E_NOTOPTIONS else None
      | OPTYPE_ATRB \<Rightarrow> if curMode = MD_OBJECT then Some E_NOTATTRIBS else None
      | OPTYPE_PRIM \<Rightarrow>
          if curMode \<in> {MD_WORLD, MD_ATTRIBUTE, MD_TRANSFORM, MD_SOLID, MD_OBJECT, MD_MOTION}
          then None else Some E_NOTPRIMS
      | OPTYPE_STD_XFORM \<Rightarrow>
          if curMode \<in> {MD_BASE, MD_FRAME, MD_WORLD, MD_ATTRIBUTE, MD_TRANSFORM, MD_SOLID, MD_MOTION}
          then None else Some E_ILLSTATE)"

definition verifyOpType :: "OpType \<Rightarrow> State \<Rightarrow> unit res" where
  "verifyOpType optype s =
     res_bind (CopyStack_top (mModeStack s)) (\<lambda>curMode.
       case op_allowed optype curMode of None \<Rightarrow> Inr () | Some e \<Rightarrow> Inl (ErrHandler e))"

text \<open>The tokens are compared by address; the translator passes the canonical ones.\<close>

definition basis_table :: "(string \<times> int) list" where
  "basis_table = [(''bezier'', 3), (''b-spline'', 1), (''catmull-rom'', 2), (''hermite'', 1), (''power'', 4)]"

definition verifyBasis :: "string \<Rightarrow> int \<Rightarrow> unit res" where
  "verifyBasis basis steps =
     (case map_of basis_table basis of
        Some n \<Rightarrow> if steps = n then Inr () else Inl (ErrHandler E_BADARGUMENT)
      | None \<Rightarrow> Inl (ErrHandler E_BADBASIS))"

subsection \<open>Begin and End\<close>

record StackFlags =
  SF_OPTS :: bool
  SF_ATRB :: bool
  SF_TRAN :: bool

definition sf_all :: StackFlags where
  "sf_all = \<lparr>SF_OPTS = True, SF_ATRB = True, SF_TRAN = True\<rparr>"

definition sf_atrb_tran :: StackFlags where
  "sf_atrb_tran = \<lparr>SF_OPTS = False, SF_ATRB = True, SF_TRAN = True\<rparr>"

definition sf_tran :: StackFlags where
  "sf_tran = \<lparr>SF_OPTS = False, SF_ATRB = False, SF_TRAN = True\<rparr>"

text \<open>Apply a stack operation to every stack a flag names, in the order of the source.\<close>

definition each_stack ::
  "(Options list \<Rightarrow> Options list res) \<Rightarrow> (Attributes list \<Rightarrow> Attributes list res)
   \<Rightarrow> (Matrix44 list \<Rightarrow> Matrix44 list res) \<Rightarrow> StackFlags \<Rightarrow> State \<Rightarrow> unit res \<times> State" where
  "each_stack fo fa ft flags s =
     (case (if SF_OPTS flags then fo (mOptionsStack s) else Inr (mOptionsStack s)) of
        Inl e \<Rightarrow> (Inl e, s)
      | Inr os \<Rightarrow>
        let s = s\<lparr>mOptionsStack := os\<rparr> in
        (case (if SF_ATRB flags then fa (mAttributesStack s) else Inr (mAttributesStack s)) of
           Inl e \<Rightarrow> (Inl e, s)
         | Inr as \<Rightarrow>
           let s = s\<lparr>mAttributesStack := as\<rparr> in
           (case (if SF_TRAN flags then ft (mTransformOpenStack s) else Inr (mTransformOpenStack s)) of
              Inl e \<Rightarrow> (Inl e, s)
            | Inr ts \<Rightarrow>
              let s = s\<lparr>mTransformOpenStack := ts\<rparr> in
              (case (if SF_TRAN flags then ft (mTransformCloseStack s) else Inr (mTransformCloseStack s)) of
                 Inl e \<Rightarrow> (Inl e, s)
               | Inr us \<Rightarrow> (Inr (), s\<lparr>mTransformCloseStack := us\<rparr>)))))"

definition pushStacks :: "StackFlags \<Rightarrow> State \<Rightarrow> unit res \<times> State" where
  "pushStacks = each_stack CopyStack_push CopyStack_push CopyStack_push"

definition popStacks :: "StackFlags \<Rightarrow> State \<Rightarrow> unit res \<times> State" where
  "popStacks = each_stack CopyStack_pop CopyStack_pop CopyStack_pop"

definition pushMode :: "Mode \<Rightarrow> State \<Rightarrow> State" where
  "pushMode mode s = s\<lparr>mModeStack := mode # mModeStack s\<rparr>"

definition checkPopMode :: "Mode \<Rightarrow> State \<Rightarrow> unit res \<times> State" where
  "checkPopMode expectedMode s =
     (case mModeStack s of
        [] \<Rightarrow> (Inl empty_back, s)
      | m # ms \<Rightarrow> if m \<noteq> expectedMode then (Inl (ErrHandler E_NESTING), s)
                  else (Inr (), s\<lparr>mModeStack := ms\<rparr>))"

definition popMode :: "Mode \<Rightarrow> State \<Rightarrow> unit res \<times> State" where
  "popMode expectedMode s = checkPopMode expectedMode s"

definition State_Begin :: "State \<Rightarrow> unit res \<times> State" where
  "State_Begin s = (Inr (), pushMode MD_BASE s)"

definition State_End :: "State \<Rightarrow> unit res \<times> State" where
  "State_End = popMode MD_BASE"

definition FrameBegin :: "int \<Rightarrow> State \<Rightarrow> unit res \<times> State" where
  "FrameBegin frame s = pushStacks sf_all (pushMode MD_FRAME s)"

definition FrameEnd :: "State \<Rightarrow> unit res \<times> State" where
  "FrameEnd = stx_bind (popStacks sf_all) (\<lambda>_. popMode MD_FRAME)"

text \<open>The options on top of the stack, with their revision and the displays, through \<open>Finalize\<close>.\<close>

definition finalize_top :: "State \<Rightarrow> unit res \<times> State" where
  "finalize_top s =
     (case mOptionsStack s of
        [] \<Rightarrow> (Inl empty_back, s)
      | opt # opts \<Rightarrow>
          let fw = mpFramework s;
              (r, (opt, rv), h) = Options_Finalize (mGlobalSyms s) (fw_mFallBackFileDisplay fw)
                 (fw_mFallBackFBuffDisplay fw) (opt, mOptionsRevTrack s) (st_displays s)
          in (r, s\<lparr>mOptionsStack := opt # opts, mOptionsRevTrack := rv, st_displays := h\<rparr>))"

definition on_open :: "(Matrix44 \<times> int \<Rightarrow> Matrix44 \<times> int) \<Rightarrow> State \<Rightarrow> unit res \<times> State" where
  "on_open f s =
     (case mTransformOpenStack s of
        [] \<Rightarrow> (Inl empty_back, s)
      | m # ms \<Rightarrow> let (m, rv) = f (m, mTransOpenRevTrack s)
                  in (Inr (), s\<lparr>mTransformOpenStack := m # ms, mTransOpenRevTrack := rv\<rparr>))"

definition on_close :: "(Matrix44 \<times> int \<Rightarrow> Matrix44 \<times> int) \<Rightarrow> State \<Rightarrow> unit res \<times> State" where
  "on_close f s =
     (case mTransformCloseStack s of
        [] \<Rightarrow> (Inl empty_back, s)
      | m # ms \<Rightarrow> let (m, rv) = f (m, mTransCloseRevTrack s)
                  in (Inr (), s\<lparr>mTransformCloseStack := m # ms, mTransCloseRevTrack := rv\<rparr>))"

definition store_camera :: "State \<Rightarrow> unit res \<times> State" where
  "store_camera s =
     (case mTransformOpenStack s of
        [] \<Rightarrow> (Inl empty_back, s) | m # _ \<Rightarrow> (Inr (), s\<lparr>mMtxWorldCamera := m\<rparr>))"

definition framework_begin :: "State \<Rightarrow> unit res \<times> State" where
  "framework_begin s =
     (case mOptionsStack s of
        [] \<Rightarrow> (Inl empty_back, s)
      | opt # _ \<Rightarrow> (Inr (), s\<lparr>mpFramework := Framework_WorldBegin opt (mMtxWorldCamera s) (mpFramework s)\<rparr>))"

definition WorldBegin :: "State \<Rightarrow> unit res \<times> State" where
  "WorldBegin =
     stx_bind finalize_top (\<lambda>_ s.
     stx_bind store_camera (\<lambda>_.
     stx_bind (pushStacks sf_all) (\<lambda>_.
     stx_bind (on_open Transform_SetIdentity) (\<lambda>_.
     stx_bind (on_close Transform_SetIdentity) (\<lambda>_.
     framework_begin)))) (pushMode MD_WORLD s))"

definition framework_end :: "State \<Rightarrow> unit res \<times> State" where
  "framework_end s =
     (let (r, fw) = Framework_WorldEnd (st_displays s) (mpFramework s) in (r, s\<lparr>mpFramework := fw\<rparr>))"

definition WorldEnd :: "State \<Rightarrow> unit res \<times> State" where
  "WorldEnd = stx_bind framework_end (\<lambda>_. stx_bind (popStacks sf_all) (\<lambda>_. popMode MD_WORLD))"

definition AttributeBegin :: "State \<Rightarrow> unit res \<times> State" where
  "AttributeBegin s = pushStacks sf_atrb_tran (pushMode MD_ATTRIBUTE s)"

definition AttributeEnd :: "State \<Rightarrow> unit res \<times> State" where
  "AttributeEnd = stx_bind (popStacks sf_atrb_tran) (\<lambda>_. popMode MD_ATTRIBUTE)"

definition TransformBegin :: "State \<Rightarrow> unit res \<times> State" where
  "TransformBegin s = pushStacks sf_tran (pushMode MD_TRANSFORM s)"

definition TransformEnd :: "State \<Rightarrow> unit res \<times> State" where
  "TransformEnd = stx_bind (popStacks sf_tran) (\<lambda>_. popMode MD_TRANSFORM)"

definition SolidBegin :: "State \<Rightarrow> unit res \<times> State" where
  "SolidBegin s = pushStacks sf_atrb_tran (pushMode MD_SOLID s)"

definition SolidEnd :: "State \<Rightarrow> unit res \<times> State" where
  "SolidEnd = stx_bind (popStacks sf_atrb_tran) (\<lambda>_. popMode MD_SOLID)"

definition ObjectBegin :: "State \<Rightarrow> unit res \<times> State" where
  "ObjectBegin s = pushStacks sf_atrb_tran (pushMode MD_OBJECT s)"

definition ObjectEnd :: "State \<Rightarrow> unit res \<times> State" where
  "ObjectEnd = stx_bind (popStacks sf_atrb_tran) (\<lambda>_. popMode MD_OBJECT)"

definition MotionBegin :: "State \<Rightarrow> unit res \<times> State" where
  "MotionBegin s = (Inr (), pushMode MD_MOTION s)"

definition MotionEnd :: "State \<Rightarrow> unit res \<times> State" where
  "MotionEnd = popMode MD_MOTION"

subsection \<open>Attribute commands\<close>

text \<open>
  \<open>verified\<close> is the guard every command starts with; \<open>on_attributes\<close> and \<open>on_options\<close> run a
  command on the top of a stack with the revision counter of that stack.
\<close>

definition verified :: "OpType \<Rightarrow> (State \<Rightarrow> unit res \<times> State) \<Rightarrow> State \<Rightarrow> unit res \<times> State" where
  "verified optype f s = (case verifyOpType optype s of Inl e \<Rightarrow> (Inl e, s) | Inr _ \<Rightarrow> f s)"

definition on_attributes :: "(Attributes \<times> int \<Rightarrow> unit res \<times> Attributes \<times> int) \<Rightarrow> State \<Rightarrow> unit res \<times> State" where
  "on_attributes f s =
     (case mAttributesStack s of
        [] \<Rightarrow> (Inl empty_back, s)
      | a # as \<Rightarrow> let (r, a, rv) = f (a, mAttribsRevTrack s)
                  in (r, s\<lparr>mAttributesStack := a # as, mAttribsRevTrack := rv\<rparr>))"

definition on_options :: "(Options \<times> int \<Rightarrow> Options \<times> int) \<Rightarrow> State \<Rightarrow> unit res \<times> State" where
  "on_options f s =
     (case mOptionsStack s of
        [] \<Rightarrow> (Inl empty_back, s)
      | opt # opts \<Rightarrow> let (opt, rv) = f (opt, mOptionsRevTrack s)
                     in (Inr (), s\<lparr>mOptionsStack := opt # opts, mOptionsRevTrack := rv\<rparr>))"

definition attribute_cmd :: "(Attributes \<times> int \<Rightarrow> Attributes \<times> int) \<Rightarrow> State \<Rightarrow> unit res \<times> State" where
  "attribute_cmd f = verified OPTYPE_ATRB (on_attributes (\<lambda>x. (Inr (), f x)))"

definition DoBound :: "Bound \<Rightarrow> State \<Rightarrow> unit res \<times> State" where
  "DoBound bound = attribute_cmd (cmdBound bound)"

definition State_Detail :: "Bound \<Rightarrow> State \<Rightarrow> unit res \<times> State" where
  "State_Detail detail = attribute_cmd (cmdDetail detail)"

definition DetailRange :: "real \<Rightarrow> real \<Rightarrow> real \<Rightarrow> real \<Rightarrow> State \<Rightarrow> unit res \<times> State" where
  "DetailRange minVisible lowerTransition upperTransition maxVisible =
     attribute_cmd (cmdDetailRange minVisible lowerTransition upperTransition maxVisible)"

definition GeometricApproximation :: "string \<Rightarrow> real \<Rightarrow> State \<Rightarrow> unit res \<times> State" where
  "GeometricApproximation typeApproximation valueApproximation s =
     attribute_cmd (cmdGeometricApproximation (mGlobalSyms s) typeApproximation valueApproximation) s"

definition Orientation :: "string option \<Rightarrow> State \<Rightarrow> unit res \<times> State" where
  "Orientation orientation =
     verified OPTYPE_ATRB (on_attributes (\<lambda>x.
       case orientation of None \<Rightarrow> (Inl null_deref, x) | Some t \<Rightarrow> (Inr (), cmdOrientation t x)))"

definition Sides :: "int \<Rightarrow> State \<Rightarrow> unit res \<times> State" where
  "Sides sides = attribute_cmd (cmdSides sides)"

definition verify_if :: "string option \<Rightarrow> int \<Rightarrow> unit res" where
  "verify_if basis steps = (case basis of None \<Rightarrow> Inr () | Some b \<Rightarrow> verifyBasis b steps)"

definition State_Basis ::
  "string option \<Rightarrow> real list option \<Rightarrow> int \<Rightarrow> string option \<Rightarrow> real list option \<Rightarrow> int
   \<Rightarrow> State \<Rightarrow> unit res \<times> State" where
  "State_Basis ubasis pCustomU ustep vbasis pCustomV vstep =
     verified OPTYPE_ATRB (\<lambda>s.
       case res_bind (verify_if ubasis ustep) (\<lambda>_. verify_if vbasis vstep) of
         Inl e \<Rightarrow> (Inl e, s)
       | Inr _ \<Rightarrow> on_attributes (cmdBasis (mGlobalSyms s) ubasis pCustomU ustep vbasis pCustomV vstep) s)"

definition ColorSet :: "real Vec3 \<Rightarrow> State \<Rightarrow> unit res \<times> State" where
  "ColorSet col = attribute_cmd (cmdColor col)"

definition State_Opacity :: "real Vec3 \<Rightarrow> State \<Rightarrow> unit res \<times> State" where
  "State_Opacity col = attribute_cmd (cmdOpacity col)"

definition Declare :: "Param list \<Rightarrow> State \<Rightarrow> unit res \<times> State" where
  "Declare params s =
     (case params of
        [n, t] \<Rightarrow>
          (case res_bind (PChar n) (\<lambda>pSymName. res_bind (PChar t) (\<lambda>pSymType.
                  AddGlob pSymType pSymName None CLASS_MSK_UNIFORM (mGlobalSyms s))) of
             Inl e \<Rightarrow> (Inl e, s)
           | Inr (_, syms) \<Rightarrow> (Inr (), s\<lparr>mGlobalSyms := syms\<rparr>))
      | _ \<Rightarrow> (Inl (AssThrow ''Broken declare ?''), s))"

subsection \<open>Option commands\<close>

definition option_cmd :: "(Options \<times> int \<Rightarrow> Options \<times> int) \<Rightarrow> State \<Rightarrow> unit res \<times> State" where
  "option_cmd f = verified OPTYPE_OPTS (on_options f)"

definition State_Format :: "int \<Rightarrow> int \<Rightarrow> real \<Rightarrow> State \<Rightarrow> unit res \<times> State" where
  "State_Format xRes yRes pixelRatio = option_cmd (cmdFormat xRes yRes pixelRatio)"

definition FrameAspectRatio :: "real \<Rightarrow> State \<Rightarrow> unit res \<times> State" where
  "FrameAspectRatio ratio = option_cmd (cmdFrameAspectRatio ratio)"

definition ScreenWindow :: "real \<Rightarrow> real \<Rightarrow> real \<Rightarrow> real \<Rightarrow> State \<Rightarrow> unit res \<times> State" where
  "ScreenWindow left right bottom topp = option_cmd (cmdScreenWindow left right bottom topp)"

definition CropWindow :: "real \<Rightarrow> real \<Rightarrow> real \<Rightarrow> real \<Rightarrow> State \<Rightarrow> unit res \<times> State" where
  "CropWindow xMin xMax yMin yMax = option_cmd (cmdCropWindow xMin xMax yMin yMax)"

definition Projection :: "Param list \<Rightarrow> State \<Rightarrow> unit res \<times> State" where
  "Projection params = option_cmd (cmdProjection params)"

definition Clipping :: "real \<Rightarrow> real \<Rightarrow> State \<Rightarrow> unit res \<times> State" where
  "Clipping nearr farr = option_cmd (cmdClipping nearr farr)"

definition DepthOfField :: "real \<Rightarrow> real \<Rightarrow> real \<Rightarrow> State \<Rightarrow> unit res \<times> State" where
  "DepthOfField fStop focalLength focalDistance = option_cmd (cmdDepthOfField fStop focalLength focalDistance)"

definition Shutter :: "real \<Rightarrow> real \<Rightarrow> State \<Rightarrow> unit res \<times> State" where
  "Shutter openShutter closeShutter = option_cmd (cmdShutter openShutter closeShutter)"

definition PixelSamples :: "int \<Rightarrow> int \<Rightarrow> State \<Rightarrow> unit res \<times> State" where
  "PixelSamples samplesX samplesY = option_cmd (cmdPixelSamples samplesX samplesY)"

definition on_displays ::
  "(Options \<Rightarrow> disp_heap \<Rightarrow> unit res \<times> Options \<times> disp_heap) \<Rightarrow> State \<Rightarrow> unit res \<times> State" where
  "on_displays f s =
     (case mOptionsStack s of
        [] \<Rightarrow> (Inl empty_back, s)
      | opt # opts \<Rightarrow> let (r, opt, h) = f opt (st_displays s)
                     in (r, s\<lparr>mOptionsStack := opt # opts, st_displays := h\<rparr>))"

definition State_Display :: "string \<Rightarrow> string \<Rightarrow> string \<Rightarrow> State \<Rightarrow> unit res \<times> State" where
  "State_Display pName pType pMode = verified OPTYPE_OPTS (on_displays (cmdDisplay pName pType pMode))"

text \<open>What \<open>Render::readArchive\<close> does after a \<open>WorldEnd\<close>: free the displays of the current options.\<close>

definition free_current_displays :: "State \<Rightarrow> unit res \<times> State" where
  "free_current_displays = on_displays FreeDisplays"

subsection \<open>Transformation commands\<close>

definition State_Identity :: "State \<Rightarrow> unit res \<times> State" where
  "State_Identity = on_open Transform_SetIdentity"

definition transform_cmd :: "(Matrix44 \<times> int \<Rightarrow> Matrix44 \<times> int) \<Rightarrow> State \<Rightarrow> unit res \<times> State" where
  "transform_cmd f = verified OPTYPE_STD_XFORM (on_open f)"

definition ConcatTransform :: "Matrix44 \<Rightarrow> State \<Rightarrow> unit res \<times> State" where
  "ConcatTransform mtxLeft = transform_cmd (Transform_ConcatTransform mtxLeft)"

definition TransformCmd :: "real list \<Rightarrow> State \<Rightarrow> unit res \<times> State" where
  "TransformCmd pMtx = transform_cmd (Transform_CopyRowMajor pMtx)"

definition State_Scale :: "real \<Rightarrow> real \<Rightarrow> real \<Rightarrow> State \<Rightarrow> unit res \<times> State" where
  "State_Scale sx sy sz = transform_cmd (Transform_ConcatTransform (Scale sx sy sz))"

definition State_Rotate :: "real \<Rightarrow> real \<Rightarrow> real \<Rightarrow> real \<Rightarrow> State \<Rightarrow> unit res \<times> State" where
  "State_Rotate angDeg ax ay az = transform_cmd (Transform_ConcatTransform (Rot (DEG2RAD angDeg) ax ay az))"

definition State_Translate :: "real \<Rightarrow> real \<Rightarrow> real \<Rightarrow> State \<Rightarrow> unit res \<times> State" where
  "State_Translate tx ty tz = transform_cmd (Transform_ConcatTransform (Translate tx ty tz))"

subsection \<open>Primitives\<close>

text \<open>No primitive command calls \<open>verifyOpType\<close>.\<close>

definition insertPrimitive :: "Prim \<Rightarrow> State \<Rightarrow> unit res \<times> State" where
  "insertPrimitive pPrim s =
     (case (mAttributesStack s, mTransformOpenStack s) of
        (a # _, m # _) \<Rightarrow>
          let (r, fw) = Framework_Insert pPrim (a, mAttribsRevTrack s) (m, mTransOpenRevTrack s) (mpFramework s)
          in (r, s\<lparr>mpFramework := fw\<rparr>)
      | _ \<Rightarrow> (Inl empty_back, s))"

text \<open>
  \<open>Patch\<close> looks up its type; a name that is not a symbol is read through the null pointer. A
  bicubic patch takes its bases from the current attributes when it is built.
\<close>

definition State_Patch :: "string option \<Rightarrow> Param list \<Rightarrow> State \<Rightarrow> unit res \<times> State" where
  "State_Patch typ params s =
     (case typ of None \<Rightarrow> (Inl null_deref, s)
      | Some t \<Rightarrow>
        (case FindSymbol t (mGlobalSyms s) of
           None \<Rightarrow> (Inl null_deref, s)
         | Some pPatchType \<Rightarrow>
             if Symbol_IsName ''bicubic'' pPatchType then
               (case mAttributesStack s of
                  [] \<Rightarrow> (Inl empty_back, s)
                | a # _ \<Rightarrow> insertPrimitive (PatchBicubic params (GetUBasis a) (GetVBasis a)) s)
             else if Symbol_IsName ''bilinear'' pPatchType
             then insertPrimitive (PatchBilinear params) s
             else (Inr (), s)))"

subsection \<open>Lights and resources\<close>

fun replace_light :: "LightSourceT \<Rightarrow> LightSourceT list \<Rightarrow> (nat \<times> LightSourceT list) option" where
  "replace_light l [] = None"
| "replace_light l (x # xs) =
     (if ls_mID l = ls_mID x then Some (0, l # xs)
      else map_option (\<lambda>(i, ys). (Suc i, x # ys)) (replace_light l xs))"

definition AddLightSource :: "LightSourceT \<Rightarrow> State \<Rightarrow> nat \<times> State" where
  "AddLightSource pLSource s =
     (case replace_light pLSource (mpLightSources s) of
        Some (i, ls) \<Rightarrow> (i, s\<lparr>mpLightSources := ls\<rparr>)
      | None \<Rightarrow> (length (mpLightSources s), s\<lparr>mpLightSources := mpLightSources s @ [pLSource]\<rparr>))"

definition strRemoveTrailingDirDiv :: "string \<Rightarrow> string" where
  "strRemoveTrailingDirDiv str = rev (dropWhile (\<lambda>ch. ch = CHR ''/'' \<or> ch = CHR 0x5C) (rev str))"

text \<open>
  The scanner: an index, the base directory until it was given, the default directory and the
  search paths. \<open>GetNext\<close> returns a path and whether it is absolute, or nothing at the end.
\<close>

record SearchPathScanner =
  mIdx :: nat
  mpBaseDir :: "string option"
  mpDefaultDir :: "string option"
  mpSearchPaths :: "string list"

definition SearchPathScanner_new :: "string \<Rightarrow> string option \<Rightarrow> string list \<Rightarrow> SearchPathScanner" where
  "SearchPathScanner_new pBaseDir pDefaultDir searchPaths =
     \<lparr>mIdx = 0, mpBaseDir = Some pBaseDir, mpDefaultDir = pDefaultDir, mpSearchPaths = searchPaths\<rparr>"

definition getNextNoSPathList :: "SearchPathScanner \<Rightarrow> (string \<times> bool) option \<times> SearchPathScanner" where
  "getNextNoSPathList sc =
     (if mIdx sc = 0 then
        (Some (strRemoveTrailingDirDiv (case mpBaseDir sc of Some d \<Rightarrow> d | None \<Rightarrow> ''''), True), sc\<lparr>mIdx := 1\<rparr>)
      else if mIdx sc = 1 then
        (case mpDefaultDir sc of
           Some d \<Rightarrow> (Some (strRemoveTrailingDirDiv d, True), sc\<lparr>mIdx := 2\<rparr>)
         | None \<Rightarrow> (None, sc))
      else (None, sc))"

definition getNextWithSPathList :: "SearchPathScanner \<Rightarrow> (string \<times> bool) option \<times> SearchPathScanner" where
  "getNextWithSPathList sc =
     (case mpBaseDir sc of
        Some d \<Rightarrow> (Some (strRemoveTrailingDirDiv d, True), sc\<lparr>mpBaseDir := None\<rparr>)
      | None \<Rightarrow>
          let i = (if mpDefaultDir sc = None
                   then mIdx sc + length (takeWhile (\<lambda>p. p = ''@'') (drop (mIdx sc) (mpSearchPaths sc)))
                   else mIdx sc);
              sc = sc\<lparr>mIdx := i\<rparr>
          in if i \<ge> length (mpSearchPaths sc) then (None, sc)
             else
               let p = mpSearchPaths sc ! i; sc = sc\<lparr>mIdx := i + 1\<rparr> in
               if p = ''@''
               then (Some (strRemoveTrailingDirDiv (case mpDefaultDir sc of Some d \<Rightarrow> d | None \<Rightarrow> ''''), True), sc)
               else (Some (strRemoveTrailingDirDiv p, False), sc))"

definition GetNext :: "SearchPathScanner \<Rightarrow> (string \<times> bool) option \<times> SearchPathScanner" where
  "GetNext sc = (if mpSearchPaths sc = [] then getNextNoSPathList sc else getNextWithSPathList sc)"

definition scan_measure :: "SearchPathScanner \<Rightarrow> nat" where
  "scan_measure sc =
     (if mpSearchPaths sc = [] then 2 - mIdx sc
      else length (mpSearchPaths sc) - mIdx sc + (if mpBaseDir sc = None then 0 else 1))"

lemma GetNext_measure: "GetNext sc = (Some r, sc') \<Longrightarrow> scan_measure sc' < scan_measure sc"
  by (auto simp: GetNext_def getNextNoSPathList_def getNextWithSPathList_def scan_measure_def Let_def
      split: if_splits option.splits)

text \<open>
  \<open>DUT::SSPrintFS\<close>: the formatted text goes through a buffer of 1024 characters, so that at most
  1023 of them are returned.
\<close>

definition SSPrintFS :: "string \<Rightarrow> string" where
  "SSPrintFS formatted = take 1023 formatted"

text \<open>The loop of \<open>FindResFile\<close>; \<open>FileExists\<close> is the file manager.\<close>

function find_res_loop :: "(string \<Rightarrow> bool) \<Rightarrow> string \<Rightarrow> string \<Rightarrow> SearchPathScanner \<Rightarrow> string" where
  "find_res_loop FileExists baseDir fname sc =
     (case GetNext sc of
        (None, _) \<Rightarrow> ''''
      | (Some (usePath, isAbs), sc') \<Rightarrow>
          let full = SSPrintFS (usePath @ ''/'' @ fname) in
          if FileExists full then full
          else
            let full2 = SSPrintFS (baseDir @ ''/'' @ full) in
            if \<not> isAbs \<and> FileExists full2 then full2
            else find_res_loop FileExists baseDir fname sc')"
  by pat_completeness auto

termination
  by (relation "measure (\<lambda>(_, _, _, sc). scan_measure sc)") (auto intro: GetNext_measure [OF sym])

declare find_res_loop.simps [simp del]

definition FindResFile :: "string \<Rightarrow> SearchPathh \<Rightarrow> State \<Rightarrow> string res" where
  "FindResFile pFindFileName spathType s =
     res_bind (CopyStack_top (mOptionsStack s)) (\<lambda>opt.
       Inr (find_res_loop (sv_FileExists (st_services s)) (st_mBaseDir s) pFindFileName
         (SearchPathScanner_new (st_mBaseDir s)
           (if spathType = SEARCHPATH_SHADER then Some (st_mDefaultShadersDir s) else None)
           (mSearchPaths opt spathType))))"

subsection \<open>Construction\<close>

text \<open>
  The global symbols, in the order of the constructor: names without type, typed names, the
  basis matrices and the shader globals.
\<close>

datatype global_decl =
    GVoid string
  | GTyped string string
  | GMatrix string "real list"
  | GDecl string

definition matrix_floats :: "Matrix44 \<Rightarrow> real list" where
  "matrix_floats m = elems (v16 m)"

definition global_decls :: "global_decl list" where
  "global_decls =
     map GVoid [''framebuffer'', ''file'', ''rgb'', ''rgba'', ''rgbz'', ''rgbaz'', ''a'', ''z'', ''az'',
       ''perspective'', ''orthographic'', ''hidden'', ''paint'', ''constant'', ''smooth'', ''flatness'',
       ''fov'', ''ambientlight'', ''pointlight'', ''distantlight'', ''spotlight''] @
     map (\<lambda>(t, n). GTyped t n) [(''uniform float '', ''intensity''), (''uniform color '', ''lightcolor''),
       (''uniform point '', ''from''), (''uniform point '', ''to''), (''uniform float '', ''coneangle''),
       (''uniform float '', ''conedeltaangle''), (''uniform float '', ''beamdistribution'')] @
     map GVoid [''matte'', ''metal'', ''shinymetal'', ''plastic'', ''paintedplastic''] @
     map (\<lambda>(t, n). GTyped t n) [(''uniform float  '', ''Ka''), (''uniform float  '', ''Kd''),
       (''uniform float  '', ''Ks''), (''uniform float  '', ''roughness''), (''uniform float  '', ''Kr''),
       (''uniform string '', ''texturename''), (''uniform color  '', ''specularcolor'')] @
     map GVoid [''depthcue'', ''fog'', ''bumpy''] @
     map (\<lambda>(t, n). GTyped t n) [(''uniform float '', ''mindistance''), (''uniform float '', ''maxdistance''),
       (''uniform color '', ''background''), (''uniform float '', ''distance''),
       (''uniform float '', ''amplitude'')] @
     map GVoid [''raster'', ''screen'', ''camera'', ''world'', ''object'', ''inside'', ''outside'',
       ''lh'', ''rh''] @
     map (\<lambda>(t, n). GTyped t n) [(''vertex point     '', ''P''), (''vertex float     '', ''Pz''),
       (''vertex hpoint    '', ''Pw''), (''varying normal   '', ''N''), (''uniform point    '', ''Np''),
       (''varying color    '', ''Cs''), (''varying color    '', ''Os''), (''varying float    '', ''s''),
       (''varying float    '', ''t'')] @
     map GVoid [''bilinear'', ''bicubic'', ''primitive'', ''intersection'', ''union'', ''difference'',
       ''periodic'', ''nonperiodic'', ''clamp'', ''black'', ''ignore'', ''print'', ''abort'',
       ''handler'', ''''] @
     [GMatrix ''bezier'' (matrix_floats BezierBasis), GMatrix ''b-spline'' (matrix_floats BSplineBasis),
      GMatrix ''catmull-rom'' (matrix_floats CatmullRomBasis), GMatrix ''hermite'' (matrix_floats HermiteBasis),
      GMatrix ''power'' (matrix_floats PowerBasis)] @
     map GDecl [''varying point  dPdu'', ''varying point  dPdv'', ''varying float  _oodu'',
       ''varying float  _oodv'', ''varying normal Ng'', ''varying float  u'', ''varying float  v'',
       ''varying float  du'', ''varying float  dv'', ''varying vector L'', ''varying color  Cl'',
       ''varying vector I'', ''varying color  Ci'', ''varying color  Oi'', ''uniform point  E'']"

fun add_global :: "global_decl \<Rightarrow> SymbolList \<Rightarrow> (Symbol option \<times> SymbolList) res" where
  "add_global (GVoid n) syms = AddGVoid n syms"
| "add_global (GTyped t n) syms = AddGlob t n None CLASS_MSK_UNDEFINED syms"
| "add_global (GMatrix n m) syms = AddGlob ''constant matrix '' n (Some (Src_floats m)) CLASS_MSK_UNDEFINED syms"
| "add_global (GDecl d) syms = AddGlob_decl d None syms"

fun add_globals :: "global_decl list \<Rightarrow> SymbolList \<Rightarrow> SymbolList res" where
  "add_globals [] syms = Inr syms"
| "add_globals (d # ds) syms = res_bind (add_global d syms) (\<lambda>(_, syms'). add_globals ds syms')"

definition or_dot :: "string \<Rightarrow> string" where
  "or_dot d = (if d = '''' then ''.'' else d)"

definition Framework_new :: "bool \<Rightarrow> bool \<Rightarrow> Framework" where
  "Framework_new fileDisp fbuffDisp =
     \<lparr>fw_mFallBackFileDisplay = fileDisp, fw_mFallBackFBuffDisplay = fbuffDisp,
      fw_mOptions = fst (Options_Init 0), fw_mMtxWorldCamera = Identity,
      mpUniqueAttribs = [], mpUniqueTransform = [],
      mAttrsRev = RevisionChecker_new, mTransRev = RevisionChecker_new, fw_mpPrims = []\<rparr>"

definition State_with :: "Services \<Rightarrow> Shader list \<Rightarrow> SymbolList \<Rightarrow> string \<Rightarrow> string \<Rightarrow> Framework \<Rightarrow> State" where
  "State_with sv resources syms baseDir shadersDir fw =
     (let (opt, orev) = Options_Init RevisionTracker_new;
          (atr, arev) = Attributes_Init syms resources RevisionTracker_new
      in \<lparr>mGlobalSyms = syms, mModeStack = [MD_UNDEFINED], mOptionsStack = [opt],
          mAttributesStack = [atr], mTransformOpenStack = [Identity], mTransformCloseStack = [Identity],
          mOptionsRevTrack = orev, mAttribsRevTrack = arev,
          mTransOpenRevTrack = RevisionTracker_new, mTransCloseRevTrack = RevisionTracker_new,
          mpLightSources = [], mMtxWorldCamera = Identity,
          st_mBaseDir = or_dot baseDir, st_mDefaultShadersDir = or_dot shadersDir,
          mpFramework = fw, st_displays = \<lparr>dh_objs = \<lambda>_. None, dh_next = 0\<rparr>,
          mResManager = resources, st_services = sv\<rparr>)"

end
