(* ===== verification/Raster.thy ===== *)
theory Raster
  imports MemFile RiState
begin

text \<open>
  The image side of the renderer: the pixel buffers of \<open>RI_Buffer2D.h\<close>, the buckets of
  \<open>RI_HiderSTBucket.h\<close> and the parts of \<open>RI_HiderST.cpp\<close> that lay out the buckets, sort primitives
  into them, estimate the raster size of a bound and move the pixels of a bucket in and out of
  the final image. What a bucket's pixels are is decided by dicing, shading and hiding, which
  are not part of this theory: a rendered bucket is its colour buffer.
\<close>

section \<open>Pixel buffers\<close>

text \<open>
  Sizes are \<open>u_int\<close>: products wrap at 32 bits. The data is the allocated array, or \<open>None\<close> for
  a null pointer; \<open>nc\<close> is the template parameter \<open>NCHANS\<close>.
\<close>

record 'a Buffer2D =
  b2_mpData :: "'a list option"
  b2_mWd :: nat
  b2_mHe :: nat

definition u_int :: "nat \<Rightarrow> nat" where
  "u_int n = n mod 2 ^ 32"

definition as_int :: "nat \<Rightarrow> int" where
  "as_int n = (if n < 2 ^ 31 then int n else int n - 2 ^ 32)"

definition Buffer2D_new :: "'a Buffer2D" where
  "Buffer2D_new = \<lparr>b2_mpData = None, b2_mWd = 0, b2_mHe = 0\<rparr>"

text \<open>The new array holds whatever the memory \<open>mem\<close> held.\<close>

definition Buffer2D_Setup :: "nat \<Rightarrow> (nat \<Rightarrow> 'a) \<Rightarrow> nat \<Rightarrow> nat \<Rightarrow> 'a Buffer2D \<Rightarrow> 'a Buffer2D" where
  "Buffer2D_Setup nc mem wd he b =
     b\<lparr>b2_mWd := wd, b2_mHe := he, b2_mpData := Some (map mem [0..<u_int (wd * nc * he)])\<rparr>"

definition Buffer2D_Free :: "'a Buffer2D \<Rightarrow> 'a Buffer2D" where
  "Buffer2D_Free b = b\<lparr>b2_mpData := None\<rparr>"

definition no_buffer :: exn where
  "no_buffer = Undefined_behaviour ''access outside the buffer''"

text \<open>
  \<open>Clear\<close> starts its product with a \<open>sizeof\<close>, so it counts bytes in 64 bits, unlike \<open>Setup\<close>.
\<close>

definition Buffer2D_Clear :: "nat \<Rightarrow> 'a::zero Buffer2D \<Rightarrow> unit res \<times> 'a Buffer2D" where
  "Buffer2D_Clear nc b =
     (let n = (4 * b2_mWd b * nc * b2_mHe b) mod 2 ^ 64 div 4 in
      case b2_mpData b of
        None \<Rightarrow> (Inl no_buffer, b)
      | Some d \<Rightarrow> if n \<le> length d then (Inr (), b\<lparr>b2_mpData := Some (replicate n 0 @ drop n d)\<rparr>)
                 else (Inl no_buffer, b))"

definition Buffer2D_Fill :: "nat \<Rightarrow> 'a \<Rightarrow> 'a Buffer2D \<Rightarrow> unit res \<times> 'a Buffer2D" where
  "Buffer2D_Fill nc val b =
     (let n = u_int (b2_mWd b * nc * b2_mHe b) in
      if n = 0 then (Inr (), b)
      else case b2_mpData b of
        None \<Rightarrow> (Inl no_buffer, b)
      | Some d \<Rightarrow> if n \<le> length d then (Inr (), b\<lparr>b2_mpData := Some (replicate n val @ drop n d)\<rparr>)
                 else (Inl no_buffer, b))"

definition in_buffer :: "int \<Rightarrow> int \<Rightarrow> 'a Buffer2D \<Rightarrow> bool" where
  "in_buffer x y b \<longleftrightarrow> 0 \<le> x \<and> 0 \<le> y \<and> x < as_int (b2_mWd b) \<and> y < as_int (b2_mHe b)"

definition sample_index :: "nat \<Rightarrow> int \<Rightarrow> int \<Rightarrow> 'a Buffer2D \<Rightarrow> nat" where
  "sample_index nc x y b = u_int ((nat x + b2_mWd b * nat y) * nc)"

text \<open>\<open>GetSamplePtr\<close>, \<open>GetSamplePtrR\<close> and \<open>GetSamplePtrRW\<close>: an offset into the data, or null.\<close>

definition GetSamplePtr :: "nat \<Rightarrow> int \<Rightarrow> int \<Rightarrow> 'a Buffer2D \<Rightarrow> nat option" where
  "GetSamplePtr nc x y b = (if in_buffer x y b then Some (sample_index nc x y b) else None)"

definition SetSample :: "nat \<Rightarrow> int \<Rightarrow> int \<Rightarrow> 'a list \<Rightarrow> 'a Buffer2D \<Rightarrow> unit res \<times> 'a Buffer2D" where
  "SetSample nc x y pVal b =
     (if in_buffer x y b then
        let i = sample_index nc x y b in
        case b2_mpData b of
          None \<Rightarrow> (Inl no_buffer, b)
        | Some d \<Rightarrow>
            if i + nc \<le> length d \<and> nc \<le> length pVal
            then (Inr (), b\<lparr>b2_mpData := Some (overwrite d i (take nc pVal))\<rparr>)
            else (Inl no_buffer, b)
      else (Inr (), b))"

fun each_sample ::
  "nat \<Rightarrow> (int \<times> int) list \<Rightarrow> 'a list \<Rightarrow> 'a Buffer2D \<Rightarrow> unit res \<times> 'a Buffer2D" where
  "each_sample nc [] pVal b = (Inr (), b)"
| "each_sample nc ((x, y) # ps) pVal b =
     stx_bind (SetSample nc x y pVal) (\<lambda>_. each_sample nc ps pVal) b"

definition DrawHLine :: "nat \<Rightarrow> int \<Rightarrow> int \<Rightarrow> int \<Rightarrow> 'a list \<Rightarrow> 'a Buffer2D \<Rightarrow> unit res \<times> 'a Buffer2D" where
  "DrawHLine nc xa y xb pVal = each_sample nc (map (\<lambda>x. (x, y)) [xa..xb]) pVal"

definition DrawVLine :: "nat \<Rightarrow> int \<Rightarrow> int \<Rightarrow> int \<Rightarrow> 'a list \<Rightarrow> 'a Buffer2D \<Rightarrow> unit res \<times> 'a Buffer2D" where
  "DrawVLine nc x ya yb pVal = each_sample nc (map (\<lambda>y. (x, y)) [ya..yb]) pVal"

text \<open>
  Copying \<open>h\<close> rows of \<open>w\<close> elements between arrays with different pitches: the loop of \<open>CopyRect\<close>
  and of both functions that move the pixels of a bucket.
\<close>

fun copy_rows ::
  "nat \<Rightarrow> nat \<Rightarrow> 'a list \<Rightarrow> nat \<Rightarrow> nat \<Rightarrow> 'a list \<Rightarrow> nat \<Rightarrow> nat \<Rightarrow> 'a list res" where
  "copy_rows 0 w src so sPitch des d dPitch = Inr des"
| "copy_rows (Suc h) w src so sPitch des d dPitch =
     (if so + w \<le> length src \<and> d + w \<le> length des
      then copy_rows h w src (so + sPitch) sPitch (overwrite des d (take w (drop so src))) (d + dPitch) dPitch
      else Inl no_buffer)"

definition CopyRect :: "nat \<Rightarrow> int \<Rightarrow> int \<Rightarrow> 'a Buffer2D \<Rightarrow> 'a Buffer2D \<Rightarrow> unit res \<times> 'a Buffer2D" where
  "CopyRect nc dx1 dy1 fromBuff b =
     (let w = as_int (b2_mWd fromBuff);
          h = as_int (b2_mHe fromBuff);
          (sx, w, dx) = (if dx1 < 0 then (- dx1, w + dx1, 0) else (0, w, dx1));
          (sy, h, dy) = (if dy1 < 0 then (- dy1, h + dy1, 0) else (0, h, dy1));
          w = (if dx + w > as_int (b2_mWd b) then as_int (b2_mWd b) - dx else w);
          h = (if dy + h > as_int (b2_mHe b) then as_int (b2_mHe b) - dy else h);
          sPitch = u_int (b2_mWd fromBuff * nc);
          dPitch = u_int (b2_mWd b * nc);
          w' = nat w * nc
      in if w' = 0 \<or> h \<le> 0 then (Inr (), b)
         else case (b2_mpData fromBuff, b2_mpData b) of
           (Some src, Some des) \<Rightarrow>
             (case copy_rows (nat h) w' src (nat sx * nc + nat sy * sPitch) sPitch
                     des (nat dx * nc + nat dy * dPitch) dPitch of
                Inl e \<Rightarrow> (Inl e, b)
              | Inr d \<Rightarrow> (Inr (), b\<lparr>b2_mpData := Some d\<rparr>))
         | _ \<Rightarrow> (Inl no_buffer, b))"

section \<open>Buckets\<close>

text \<open>
  A bucket is a rectangle of the image with the primitives that may touch it. The pointer to
  its sample coordinates is the index of the hider's buffer, or \<open>None\<close> when it is null.
\<close>

record ('a, 'p) HiderBucket =
  hb_mX1 :: int
  hb_mY1 :: int
  hb_mX2 :: int
  hb_mY2 :: int
  hb_mCBuff :: "'a Buffer2D"
  hb_mpPrims :: "'p list"
  hb_mpSampCoordsBuff :: "nat option"

definition HiderBucket_new :: "int \<Rightarrow> int \<Rightarrow> int \<Rightarrow> int \<Rightarrow> nat option \<Rightarrow> ('a, 'p) HiderBucket" where
  "HiderBucket_new xa ya xb yb pSamp =
     \<lparr>hb_mX1 = xa, hb_mY1 = ya, hb_mX2 = xb, hb_mY2 = yb, hb_mCBuff = Buffer2D_new, hb_mpPrims = [],
      hb_mpSampCoordsBuff = pSamp\<rparr>"

definition GetWd :: "('a, 'p) HiderBucket \<Rightarrow> nat" where
  "GetWd bk = nat ((hb_mX2 bk - hb_mX1 bk) mod 2 ^ 32)"

definition GetHe :: "('a, 'p) HiderBucket \<Rightarrow> nat" where
  "GetHe bk = nat ((hb_mY2 bk - hb_mY1 bk) mod 2 ^ 32)"

definition NOUTCOLS :: nat where [simp]: "NOUTCOLS = 4"

definition BeginRender ::
  "(nat \<Rightarrow> 'a::zero) \<Rightarrow> ('a, 'p) HiderBucket \<Rightarrow> unit res \<times> ('a, 'p) HiderBucket" where
  "BeginRender mem bk =
     (let (r, c) = Buffer2D_Clear NOUTCOLS (Buffer2D_Setup NOUTCOLS mem (GetWd bk) (GetHe bk) (hb_mCBuff bk))
      in (r, bk\<lparr>hb_mCBuff := c\<rparr>))"

definition EndRender ::
  "('a, 'p) HiderBucket \<Rightarrow> 'a Buffer2D \<Rightarrow> unit res \<times> ('a, 'p) HiderBucket \<times> 'a Buffer2D" where
  "EndRender bk outCBuff =
     (case CopyRect NOUTCOLS (hb_mX1 bk) (hb_mY1 bk) (hb_mCBuff bk) outCBuff of
        (Inl e, out) \<Rightarrow> (Inl e, bk, out)
      | (Inr _, out) \<Rightarrow> (Inr (), bk\<lparr>hb_mCBuff := Buffer2D_Free (hb_mCBuff bk)\<rparr>, out))"

definition Contains :: "int \<Rightarrow> int \<Rightarrow> ('a, 'p) HiderBucket \<Rightarrow> bool" where
  "Contains x y bk \<longleftrightarrow> hb_mX1 bk \<le> x \<and> hb_mY1 bk \<le> y \<and> x < hb_mX2 bk \<and> y < hb_mY2 bk"

definition Intersects :: "int \<Rightarrow> int \<Rightarrow> int \<Rightarrow> int \<Rightarrow> ('a, 'p) HiderBucket \<Rightarrow> bool" where
  "Intersects minX minY maxX maxY bk \<longleftrightarrow>
     minX < hb_mX2 bk \<and> hb_mX1 bk \<le> maxX \<and> minY < hb_mY2 bk \<and> hb_mY1 bk \<le> maxY"


section \<open>The hider\<close>

record Hider_Params =
  mDbgOnlyBucketAtX :: int
  mDbgOnlyBucketAtY :: int
  mDbgShowBuckets :: bool
  mDbgColorCodedGrids :: bool
  mDbgRasterizeVerts :: bool

text \<open>
  A buffer of sample coordinates, as far as the lookup needs it: its size, the samples per
  pixel, and whether it has been set up.
\<close>

record HiderSampleCoordsBuffer =
  sc_mWd :: nat
  sc_mHe :: nat
  sc_mSubPixelDimLog2 :: nat
  sc_IsInitialized :: bool

record ('a, 'p) Hider =
  hd_mOptions :: Options
  hd_mMtxWorldCamera :: Matrix44
  hd_mMtxWorldProj :: Matrix44
  mFinalBuff :: "'a Buffer2D"
  mpBuckets :: "('a, 'p) HiderBucket list"
  mSampCoordBuffs :: "HiderSampleCoordsBuffer list"
  mParams :: Hider_Params
  hd_mpPrims :: "'p option list"

definition SampCoords_Init :: "nat \<Rightarrow> nat \<Rightarrow> nat \<Rightarrow> HiderSampleCoordsBuffer" where
  "SampCoords_Init wd he subLog =
     \<lparr>sc_mWd = wd, sc_mHe = he, sc_mSubPixelDimLog2 = subLog, sc_IsInitialized = True\<rparr>"

definition GetSampsPerPixel :: "HiderSampleCoordsBuffer \<Rightarrow> nat" where
  "GetSampsPerPixel sc = 2 ^ (2 * sc_mSubPixelDimLog2 sc)"

definition no_samples :: HiderSampleCoordsBuffer where
  "no_samples = \<lparr>sc_mWd = 0, sc_mHe = 0, sc_mSubPixelDimLog2 = 0, sc_IsInitialized = False\<rparr>"

fun find_index :: "('b \<Rightarrow> bool) \<Rightarrow> 'b list \<Rightarrow> nat option" where
  "find_index f [] = None"
| "find_index f (x # xs) = (if f x then Some 0 else map_option Suc (find_index f xs))"

definition findOrAddSampCoordBuff ::
  "nat \<Rightarrow> nat \<Rightarrow> nat \<Rightarrow> HiderSampleCoordsBuffer list \<Rightarrow> nat option \<times> HiderSampleCoordsBuffer list" where
  "findOrAddSampCoordBuff wd he subPixelDimLog2 bufs =
     (case find_index (\<lambda>sc. sc_IsInitialized sc \<and> sc_mWd sc = wd \<and> sc_mHe sc = he) bufs of
        Some i \<Rightarrow> (Some i, bufs)
      | None \<Rightarrow>
          (case find_index (\<lambda>sc. \<not> sc_IsInitialized sc) bufs of
             Some i \<Rightarrow> (Some i, bufs[i := SampCoords_Init wd he subPixelDimLog2])
           | None \<Rightarrow> (None, bufs)))"

text \<open>The loop of \<open>findClosestSquareAreaLog2Dim\<close> from \<open>k\<close> on; it ends at 9.\<close>

function closest_log2 :: "int \<Rightarrow> nat \<Rightarrow> nat" where
  "closest_log2 reqSubArea k =
     (if k \<le> 8 then
        let dimSquareL = 2 ^ (2 * k); dimSquareR = 2 ^ (2 * (k + 1)) in
        if reqSubArea < dimSquareR \<and> reqSubArea \<ge> dimSquareL then
          (if \<bar>reqSubArea - dimSquareR\<bar> < \<bar>reqSubArea - dimSquareL\<bar> then k + 1 else k)
        else closest_log2 reqSubArea (k + 1)
      else k)"
  by pat_completeness auto
termination
  by (relation "measure (\<lambda>(_, k). 9 - k)") auto

declare closest_log2.simps [simp del]

definition findClosestSquareAreaLog2Dim :: "int \<Rightarrow> int \<Rightarrow> nat" where
  "findClosestSquareAreaLog2Dim dimX dimY = closest_log2 (dimX * dimY) 0"

definition BUCKET_SIZE :: int where [simp]: "BUCKET_SIZE = 128"

text \<open>The values a loop variable takes from \<open>i\<close> below \<open>n\<close> in steps of the bucket size.\<close>

function bucket_starts :: "int \<Rightarrow> int \<Rightarrow> int list" where
  "bucket_starts i n = (if i < n then i # bucket_starts (i + BUCKET_SIZE) n else [])"
  by pat_completeness auto
termination
  by (relation "measure (\<lambda>(i, n). nat (n - i))") auto

declare bucket_starts.simps [simp del]

definition bucket_wanted :: "Hider_Params \<Rightarrow> int \<Rightarrow> int \<Rightarrow> int \<Rightarrow> int \<Rightarrow> bool" where
  "bucket_wanted pars x y xb yb \<longleftrightarrow>
     mDbgOnlyBucketAtX pars = -1
     \<or> (mDbgOnlyBucketAtX pars \<ge> x \<and> mDbgOnlyBucketAtY pars \<ge> y
        \<and> mDbgOnlyBucketAtX pars < xb \<and> mDbgOnlyBucketAtY pars < yb)"

definition add_bucket ::
  "Options \<Rightarrow> nat \<Rightarrow> int \<times> int \<Rightarrow> ('a, 'p) Hider \<Rightarrow> ('a, 'p) Hider" where
  "add_bucket opt subLog = (\<lambda>(x, y) hr.
     let yb = min (y + BUCKET_SIZE) (mYRes opt);
         xb = min (x + BUCKET_SIZE) (mXRes opt)
     in if bucket_wanted (mParams hr) x y xb yb then
          let (p, bufs) = findOrAddSampCoordBuff (nat (xb - x)) (nat (yb - y)) subLog (mSampCoordBuffs hr)
          in hr\<lparr>mSampCoordBuffs := bufs, mpBuckets := mpBuckets hr @ [HiderBucket_new x y xb yb p]\<rparr>
        else hr)"

definition bucket_grid :: "Options \<Rightarrow> (int \<times> int) list" where
  "bucket_grid opt =
     concat (map (\<lambda>y. map (\<lambda>x. (x, y)) (bucket_starts 0 (mXRes opt))) (bucket_starts 0 (mYRes opt)))"

definition Hider_WorldBegin ::
  "(nat \<Rightarrow> 'a::zero) \<Rightarrow> Options \<Rightarrow> Matrix44 \<Rightarrow> ('a, 'p) Hider \<Rightarrow> unit res \<times> ('a, 'p) Hider" where
  "Hider_WorldBegin mem opt mtxWorldCamera hr =
     (let (r, fb) = Buffer2D_Clear NOUTCOLS (Buffer2D_Setup NOUTCOLS mem
            (nat (mXRes opt mod 2 ^ 32)) (nat (mYRes opt mod 2 ^ 32)) (mFinalBuff hr));
          hr = hr\<lparr>hd_mOptions := opt, hd_mMtxWorldCamera := mtxWorldCamera,
                  hd_mMtxWorldProj := Matrix44_mul Identity mtxWorldCamera (mMtxCamProj opt),
                  mFinalBuff := fb\<rparr>;
          subLog = findClosestSquareAreaLog2Dim (mPixSamplesX opt) (mPixSamplesY opt)
      in case r of
           Inl e \<Rightarrow> (Inl e, hr)
         | Inr _ \<Rightarrow> (Inr (), fold (add_bucket opt subLog) (bucket_grid opt) hr))"

definition InsertForDicing :: "'p \<Rightarrow> int \<times> int \<times> int \<times> int \<Rightarrow> ('a, 'p) Hider \<Rightarrow> ('a, 'p) Hider" where
  "InsertForDicing pPrim = (\<lambda>(minX, minY, maxX, maxY) hr.
     hr\<lparr>mpBuckets := map (\<lambda>bk. if Intersects minX minY maxX maxY bk
                               then bk\<lparr>hb_mpPrims := hb_mpPrims bk @ [pPrim]\<rparr> else bk) (mpBuckets hr)\<rparr>)"

text \<open>The four lines \<open>WorldEnd\<close> draws around a bucket, with a colour of three floats.\<close>

definition draw_bucket :: "'a list \<Rightarrow> ('a, 'p) HiderBucket \<Rightarrow> 'a Buffer2D \<Rightarrow> unit res \<times> 'a Buffer2D" where
  "draw_bucket borderCol bk =
     stx_bind (DrawHLine NOUTCOLS (hb_mX1 bk) (hb_mY1 bk) (hb_mX2 bk) borderCol) (\<lambda>_.
     stx_bind (DrawHLine NOUTCOLS (hb_mX1 bk) (hb_mY2 bk) (hb_mX2 bk) borderCol) (\<lambda>_.
     stx_bind (DrawVLine NOUTCOLS (hb_mX1 bk) (hb_mY1 bk) (hb_mY2 bk) borderCol) (\<lambda>_.
     DrawVLine NOUTCOLS (hb_mX2 bk) (hb_mY1 bk) (hb_mY2 bk) borderCol)))"

fun draw_buckets :: "'a list \<Rightarrow> ('a, 'p) HiderBucket list \<Rightarrow> 'a Buffer2D \<Rightarrow> unit res \<times> 'a Buffer2D" where
  "draw_buckets borderCol [] b = (Inr (), b)"
| "draw_buckets borderCol (bk # bks) b =
     stx_bind (draw_bucket borderCol bk) (\<lambda>_. draw_buckets borderCol bks) b"

definition Hider_WorldEnd :: "('a::{zero,one}, 'p) Hider \<Rightarrow> unit res \<times> ('a, 'p) Hider" where
  "Hider_WorldEnd hr =
     (case (if mDbgShowBuckets (mParams hr) then draw_buckets [1, 0, 0] (mpBuckets hr) (mFinalBuff hr)
            else (Inr (), mFinalBuff hr)) of
        (Inl e, fb) \<Rightarrow> (Inl e, hr\<lparr>mFinalBuff := fb\<rparr>)
      | (Inr _, fb) \<Rightarrow> (Inr (), hr\<lparr>mFinalBuff := fb, mpBuckets := []\<rparr>))"

section \<open>The pixels of a bucket\<close>

text \<open>Both functions index \<open>mpBuckets\<close> without a check; sizes are in floats, not bytes.\<close>

definition GetOutputBucketMemSize :: "nat \<Rightarrow> ('a, 'p) Hider \<Rightarrow> nat res" where
  "GetOutputBucketMemSize buckIdx hr =
     (if buckIdx < length (mpBuckets hr)
      then Inr (4 * NOUTCOLS * GetWd (mpBuckets hr ! buckIdx) * GetHe (mpBuckets hr ! buckIdx))
      else Inl no_buffer)"

definition GetOutputDataStride :: "('a, 'p) Hider \<Rightarrow> nat" where
  "GetOutputDataStride hr = u_int (b2_mWd (mFinalBuff hr) * NOUTCOLS)"

text \<open>\<open>CopyOutputBucket\<close> fills the destination it is given, here a new array of that size.\<close>

definition CopyOutputBucket :: "nat \<Rightarrow> 'a list \<Rightarrow> ('a, 'p) Hider \<Rightarrow> 'a list res" where
  "CopyOutputBucket buckIdx pDest hr =
     (if buckIdx < length (mpBuckets hr) then
        let buck = mpBuckets hr ! buckIdx; wdStride = GetWd buck * NOUTCOLS in
        if GetHe buck = 0 then Inr pDest
        else case (GetSamplePtr NOUTCOLS (hb_mX1 buck) (hb_mY1 buck) (mFinalBuff hr), b2_mpData (mFinalBuff hr)) of
          (Some pSrc, Some d) \<Rightarrow>
            copy_rows (GetHe buck) wdStride d pSrc (GetOutputDataStride hr) pDest 0 wdStride
        | _ \<Rightarrow> Inl no_buffer
      else Inl no_buffer)"

definition StoreOutputBucket :: "nat \<Rightarrow> 'a list \<Rightarrow> ('a, 'p) Hider \<Rightarrow> unit res \<times> ('a, 'p) Hider" where
  "StoreOutputBucket buckIdx pSrc hr =
     (if buckIdx < length (mpBuckets hr) then
        let buck = mpBuckets hr ! buckIdx; wdStride = GetWd buck * NOUTCOLS in
        if GetHe buck = 0 then (Inr (), hr)
        else case (GetSamplePtr NOUTCOLS (hb_mX1 buck) (hb_mY1 buck) (mFinalBuff hr), b2_mpData (mFinalBuff hr)) of
          (Some pDest, Some d) \<Rightarrow>
            (case copy_rows (GetHe buck) wdStride pSrc 0 wdStride d pDest (GetOutputDataStride hr) of
               Inl e \<Rightarrow> (Inl e, hr)
             | Inr d' \<Rightarrow> (Inr (), hr\<lparr>mFinalBuff := (mFinalBuff hr)\<lparr>b2_mpData := Some d'\<rparr>\<rparr>))
        | _ \<Rightarrow> (Inl no_buffer, hr)
      else (Inl no_buffer, hr))"


section \<open>Rendering a bucket\<close>

text \<open>
  The loop of \<open>Hider::Hide\<close> over the pixels of a bucket; \<open>col k\<close> is the filtered colour of the
  pixel with index \<open>k\<close>.
\<close>

fun hide_pixels ::
  "(nat \<Rightarrow> 'a list) \<Rightarrow> (nat \<times> nat) list \<Rightarrow> nat \<Rightarrow> 'a Buffer2D \<Rightarrow> unit res \<times> 'a Buffer2D" where
  "hide_pixels col [] pixIdx b = (Inr (), b)"
| "hide_pixels col ((x, y) # ps) pixIdx b =
     stx_bind (SetSample NOUTCOLS (int x) (int y) (col pixIdx)) (\<lambda>_. hide_pixels col ps (Suc pixIdx)) b"

definition bucket_pixels :: "('a, 'p) HiderBucket \<Rightarrow> (nat \<times> nat) list" where
  "bucket_pixels bk = concat (map (\<lambda>y. map (\<lambda>x. (x, y)) [0..<GetWd bk]) [0..<GetHe bk])"

definition hide_bucket ::
  "(nat \<Rightarrow> 'a list) \<Rightarrow> ('a, 'p) HiderBucket \<Rightarrow> unit res \<times> ('a, 'p) HiderBucket" where
  "hide_bucket col bk =
     (let (r, c) = hide_pixels col (bucket_pixels bk) 0 (hb_mCBuff bk) in (r, bk\<lparr>hb_mCBuff := c\<rparr>))"

text \<open>
  \<open>Framework::RenderBucket_s\<close> on the bucket with index \<open>i\<close>. Dicing, shading and sampling decide
  the colours \<open>col\<close> and touch neither the image nor the bucket's buffer.
\<close>

definition RenderBucket_s ::
  "(nat \<Rightarrow> 'a::zero) \<Rightarrow> (nat \<Rightarrow> 'a list) \<Rightarrow> nat \<Rightarrow> ('a, 'p) Hider \<Rightarrow> unit res \<times> ('a, 'p) Hider" where
  "RenderBucket_s mem col i hr =
     (if i < length (mpBuckets hr) then
        case stx_bind (BeginRender mem) (\<lambda>_. hide_bucket col) (mpBuckets hr ! i) of
          (Inl e, bk) \<Rightarrow> (Inl e, hr\<lparr>mpBuckets := (mpBuckets hr)[i := bk]\<rparr>)
        | (Inr _, bk) \<Rightarrow>
            let (r, bk, fb) = EndRender bk (mFinalBuff hr)
            in (r, hr\<lparr>mpBuckets := (mpBuckets hr)[i := bk], mFinalBuff := fb\<rparr>)
      else (Inl no_buffer, hr))"

text \<open>The tasks of \<open>RenderBucketsStd::Render\<close>, in the order in which they finish.\<close>

fun RenderBuckets ::
  "(nat \<Rightarrow> 'a::zero) \<Rightarrow> (nat \<Rightarrow> nat \<Rightarrow> 'a list) \<Rightarrow> nat list \<Rightarrow> ('a, 'p) Hider \<Rightarrow> unit res \<times> ('a, 'p) Hider" where
  "RenderBuckets mem col [] hr = (Inr (), hr)"
| "RenderBuckets mem col (i # ts) hr =
     stx_bind (RenderBucket_s mem (col i) i) (\<lambda>_. RenderBuckets mem col ts) hr"

section \<open>Copying rectangles\<close>

lemma overwrite_nth:
  assumes "d + length ys \<le> length xs" and "k < length xs"
  shows "overwrite xs d ys ! k = (if d \<le> k \<and> k < d + length ys then ys ! (k - d) else xs ! k)"
  using assms by (auto simp: overwrite_def nth_append min_def)

lemma length_overwrite [simp]: "d + length ys \<le> length xs \<Longrightarrow> length (overwrite xs d ys) = length xs"
  by (simp add: overwrite_def)

lemma copy_rows_ok:
  assumes "\<forall>i<h. so + i * sp + w \<le> length src \<and> d + i * dp + w \<le> length des" and "w \<le> dp"
  shows "\<exists>r. copy_rows h w src so sp des d dp = Inr r \<and> length r = length des
    \<and> (\<forall>i<h. \<forall>j<w. r ! (d + i * dp + j) = src ! (so + i * sp + j))
    \<and> (\<forall>k<length des. (\<forall>i<h. \<not> (d + i * dp \<le> k \<and> k < d + i * dp + w)) \<longrightarrow> r ! k = des ! k)"
  using assms(1)
proof (induction h arbitrary: so d des)
  case 0
  then show ?case by simp
next
  case (Suc h)
  let ?row = "take w (drop so src)"
  let ?des = "overwrite des d ?row"
  have row: "length ?row = w" and fit: "so + w \<le> length src" "d + w \<le> length des"
    using Suc.prems by auto
  then have l: "length ?des = length des" by simp
  have "\<forall>i<h. so + sp + i * sp + w \<le> length src \<and> d + dp + i * dp + w \<le> length ?des"
    using Suc.prems l by (metis Suc_less_eq add.assoc mult_Suc)
  from Suc.IH [OF this] obtain r where r: "copy_rows h w src (so + sp) sp ?des (d + dp) dp = Inr r"
    "length r = length des"
    and hit: "\<And>i j. i < h \<Longrightarrow> j < w \<Longrightarrow> r ! (d + dp + i * dp + j) = src ! (so + sp + i * sp + j)"
    and miss: "\<And>k. k < length des \<Longrightarrow> (\<forall>i<h. \<not> (d + dp + i * dp \<le> k \<and> k < d + dp + i * dp + w)) \<Longrightarrow>
       r ! k = ?des ! k"
    using l by auto
  have "r ! (d + i * dp + j) = src ! (so + i * sp + j)" if "i < Suc h" "j < w" for i j
  proof (cases i)
    case 0
    have "r ! (d + j) = ?des ! (d + j)"
      using that fit assms(2) by (intro miss) auto
    with 0 that row fit show ?thesis by (simp add: overwrite_nth)
  next
    case (Suc i')
    with hit [of i' j] that show ?thesis by (simp add: algebra_simps)
  qed
  moreover have "r ! k = des ! k"
    if k: "k < length des" and out: "\<forall>i<Suc h. \<not> (d + i * dp \<le> k \<and> k < d + i * dp + w)" for k
  proof -
    have "\<not> (d + dp + i * dp \<le> k \<and> k < d + dp + i * dp + w)" if "i < h" for i
      using out [rule_format, of "Suc i"] that by (simp add: algebra_simps)
    with k have "r ! k = ?des ! k" by (intro miss) auto
    moreover have "\<not> (d \<le> k \<and> k < d + w)" using out [rule_format, of 0] by simp
    ultimately show ?thesis using k row fit by (simp add: overwrite_nth)
  qed
  ultimately show ?case using r fit by (intro exI [of _ r]) auto
qed

text \<open>Positions in a rectangle of width \<open>W\<close> are unique.\<close>

lemma grid_unique:
  fixes x y :: nat
  assumes "x < W" and "a < W" and "x + W * y = a + W * b"
  shows "x = a \<and> y = b"
proof -
  have "(u + W * v) div W = v \<and> (u + W * v) mod W = u" if "u < W" for u v :: nat
    using that by (cases "W = 0") auto
  with assms show ?thesis by metis
qed

lemma grid_bound:
  fixes x y :: nat
  assumes "x < W" and "y < H" and "c < nc"
  shows "(x + W * y) * nc + c < W * nc * H"
proof -
  have "x + W * y < W * H"
  proof -
    have "x + W * y < W * Suc y" using assms(1) by simp
    also have "\<dots> \<le> W * H" using assms(2) by (intro mult_le_mono2) simp
    finally show ?thesis .
  qed
  then have "x + W * y + 1 \<le> W * H" by simp
  then have "(x + W * y + 1) * nc \<le> W * H * nc" by (rule mult_le_mono1)
  with assms(3) show ?thesis by (simp add: algebra_simps)
qed

lemma row_hit:
  fixes x y :: nat
  assumes "x < W" and "X + w \<le> W" and "c < nc"
    and "(X + W * (Y + i)) * nc \<le> (x + W * y) * nc + c" and "(x + W * y) * nc + c < (X + W * (Y + i)) * nc + w * nc"
  shows "y = Y + i \<and> X \<le> x \<and> x < X + w"
proof -
  let ?p = "x + W * y" and ?q = "X + W * (Y + i)"
  have d: "(?p * nc + c) div nc = ?p" using assms(3) by simp
  have "?q \<le> ?p" using div_le_mono [OF assms(4), of nc] d assms(3) by simp
  moreover have "?p < ?q + w"
  proof -
    have "?p * nc < (?q + w) * nc" using assms(5) by (simp add: algebra_simps)
    then show ?thesis by simp
  qed
  ultimately obtain a where a: "?p = X + a + W * (Y + i)" "a < w"
    by (metis add.assoc add.commute le_iff_add nat_add_left_cancel_less)
  with grid_unique [of x W "X + a" y "Y + i"] assms(1,2) show ?thesis by auto
qed


lemma rect_store:
  assumes "length d = W * nc * H" and "X + w \<le> W" and "Y + h \<le> H"
    and "\<forall>i<h. so + i * sp + w * nc \<le> length src"
  shows "\<exists>r. copy_rows h (w * nc) src so sp d ((X + W * Y) * nc) (W * nc) = Inr r \<and> length r = length d
    \<and> (\<forall>x y c. x < W \<longrightarrow> y < H \<longrightarrow> c < nc \<longrightarrow>
         r ! ((x + W * y) * nc + c)
           = (if X \<le> x \<and> x < X + w \<and> Y \<le> y \<and> y < Y + h
              then src ! (so + (y - Y) * sp + (x - X) * nc + c) else d ! ((x + W * y) * nc + c)))"
proof -
  have row: "(X + W * Y) * nc + i * (W * nc) = (X + W * (Y + i)) * nc" for i
    by (simp add: algebra_simps)
  have fit: "(X + W * (Y + i)) * nc + w * nc \<le> length d" if "i < h" for i
  proof -
    have "X + w + W * (Y + i) \<le> W * (Y + i + 1)" using assms(2) by simp
    also have "\<dots> \<le> W * H" using assms(3) that by (intro mult_le_mono2) simp
    finally have "(X + w + W * (Y + i)) * nc \<le> W * H * nc" by (rule mult_le_mono1)
    then show ?thesis using assms(1) by (simp add: algebra_simps)
  qed
  from copy_rows_ok [of h so sp "w * nc" src "(X + W * Y) * nc" "W * nc" d] assms(2,4) fit
  obtain r where r: "copy_rows h (w * nc) src so sp d ((X + W * Y) * nc) (W * nc) = Inr r"
    "length r = length d"
    and hit: "\<And>i j. i < h \<Longrightarrow> j < w * nc \<Longrightarrow> r ! ((X + W * (Y + i)) * nc + j) = src ! (so + i * sp + j)"
    and miss: "\<And>k. k < length d \<Longrightarrow>
      (\<forall>i<h. \<not> ((X + W * (Y + i)) * nc \<le> k \<and> k < (X + W * (Y + i)) * nc + w * nc)) \<Longrightarrow> r ! k = d ! k"
    unfolding row by (auto simp: mult_le_mono1)
  have "r ! ((x + W * y) * nc + c) = (if X \<le> x \<and> x < X + w \<and> Y \<le> y \<and> y < Y + h
      then src ! (so + (y - Y) * sp + (x - X) * nc + c) else d ! ((x + W * y) * nc + c))"
    if "x < W" "y < H" "c < nc" for x y c
  proof (cases "X \<le> x \<and> x < X + w \<and> Y \<le> y \<and> y < Y + h")
    case True
    then obtain a b where ab: "x = X + a" "a < w" "y = Y + b" "b < h"
      by (metis le_iff_add nat_add_left_cancel_less)
    have "(a + 1) * nc \<le> w * nc" using ab by (intro mult_le_mono1) simp
    then have "a * nc + c < w * nc" using that(3) by simp
    from hit [OF ab(4) this] ab show ?thesis by (simp add: algebra_simps)
  next
    case False
    have "r ! ((x + W * y) * nc + c) = d ! ((x + W * y) * nc + c)"
    proof (rule miss)
      show "(x + W * y) * nc + c < length d" using grid_bound [OF that] assms(1) by simp
      show "\<forall>i<h. \<not> ((X + W * (Y + i)) * nc \<le> (x + W * y) * nc + c
          \<and> (x + W * y) * nc + c < (X + W * (Y + i)) * nc + w * nc)"
        using row_hit [OF that(1) assms(2) that(3)] False by fastforce
    qed
    then show ?thesis by (simp only: False if_False)
  qed
  with r show ?thesis by (intro exI [of _ r]) auto
qed

text \<open>A buffer whose size fits the arithmetic of the code, and its samples.\<close>

definition buffer_ok :: "nat \<Rightarrow> 'a Buffer2D \<Rightarrow> bool" where
  "buffer_ok nc b \<longleftrightarrow> b2_mWd b * nc * b2_mHe b < 2 ^ 32 \<and> b2_mWd b < 2 ^ 31 \<and> b2_mHe b < 2 ^ 31
     \<and> (\<exists>d. b2_mpData b = Some d \<and> length d = b2_mWd b * nc * b2_mHe b)"

definition samp :: "nat \<Rightarrow> 'a Buffer2D \<Rightarrow> nat \<Rightarrow> nat \<Rightarrow> nat \<Rightarrow> 'a" where
  "samp nc b x y c = the (b2_mpData b) ! ((x + b2_mWd b * y) * nc + c)"

lemma as_int_small [simp]: "n < 2 ^ 31 \<Longrightarrow> as_int n = int n"
  by (simp add: as_int_def)

lemma u_int_small [simp]: "n < 2 ^ 32 \<Longrightarrow> u_int n = n"
  by (simp add: u_int_def)

lemma buffer_pitch:
  assumes "buffer_ok nc b" and "0 < b2_mHe b"
  shows "u_int (b2_mWd b * nc) = b2_mWd b * nc"
proof -
  have "b2_mWd b * nc \<le> b2_mWd b * nc * b2_mHe b" using assms(2) by simp
  also have "\<dots> < 2 ^ 32" using assms(1) by (simp add: buffer_ok_def)
  finally show ?thesis by (rule u_int_small)
qed

lemma sample_index_ok:
  assumes "buffer_ok nc b" and "x < b2_mWd b" and "y < b2_mHe b" and "0 < nc"
  shows "sample_index nc (int x) (int y) b = (x + b2_mWd b * y) * nc"
    and "in_buffer (int x) (int y) b"
proof -
  have "(x + b2_mWd b * y) * nc + 0 < b2_mWd b * nc * b2_mHe b"
    by (rule grid_bound) (use assms in auto)
  with assms(1) have "(x + b2_mWd b * y) * nc < 2 ^ 32" unfolding buffer_ok_def by linarith
  then show "sample_index nc (int x) (int y) b = (x + b2_mWd b * y) * nc"
    by (simp add: sample_index_def)
  show "in_buffer (int x) (int y) b" using assms by (simp add: in_buffer_def buffer_ok_def)
qed

text \<open>\<open>CopyRect\<close> of a buffer that fits into the destination.\<close>

lemma CopyRect_inside:
  assumes "buffer_ok nc f" and "buffer_ok nc b" and "X + b2_mWd f \<le> b2_mWd b" and "Y + b2_mHe f \<le> b2_mHe b"
    and "0 < nc"
  shows "\<exists>b'. CopyRect nc (int X) (int Y) f b = (Inr (), b') \<and> buffer_ok nc b'
    \<and> b2_mWd b' = b2_mWd b \<and> b2_mHe b' = b2_mHe b
    \<and> (\<forall>x y c. x < b2_mWd b \<longrightarrow> y < b2_mHe b \<longrightarrow> c < nc \<longrightarrow>
         samp nc b' x y c = (if X \<le> x \<and> x < X + b2_mWd f \<and> Y \<le> y \<and> y < Y + b2_mHe f
           then samp nc f (x - X) (y - Y) c else samp nc b x y c))"
proof (cases "b2_mWd f = 0 \<or> b2_mHe f = 0")
  case True
  then show ?thesis using assms by (intro exI [of _ b]) (auto simp: CopyRect_def buffer_ok_def)
next
  case False
  let ?w = "b2_mWd f" and ?h = "b2_mHe f" and ?W = "b2_mWd b" and ?H = "b2_mHe b"
  from assms(1,2) obtain src d where src: "b2_mpData f = Some src" "length src = ?w * nc * ?h"
    and d: "b2_mpData b = Some d" "length d = ?W * nc * ?H" by (auto simp: buffer_ok_def)
  have p: "u_int (?w * nc) = ?w * nc" "u_int (?W * nc) = ?W * nc"
    using buffer_pitch [OF assms(1)] buffer_pitch [OF assms(2)] False assms(4) by auto
  have fit: "\<forall>i<?h. 0 + i * (?w * nc) + ?w * nc \<le> length src"
  proof (intro allI impI)
    fix i assume "i < ?h"
    then have "Suc i * (?w * nc) \<le> ?h * (?w * nc)" by (intro mult_le_mono1) simp
    then show "0 + i * (?w * nc) + ?w * nc \<le> length src" using src(2) by (simp add: algebra_simps)
  qed
  from rect_store [OF d(2) assms(3,4) fit] obtain r where
    r: "copy_rows ?h (?w * nc) src 0 (?w * nc) d ((X + ?W * Y) * nc) (?W * nc) = Inr r" "length r = length d"
    and nth: "\<And>x y c. x < ?W \<Longrightarrow> y < ?H \<Longrightarrow> c < nc \<Longrightarrow> r ! ((x + ?W * y) * nc + c)
      = (if X \<le> x \<and> x < X + ?w \<and> Y \<le> y \<and> y < Y + ?h
         then src ! (0 + (y - Y) * (?w * nc) + (x - X) * nc + c) else d ! ((x + ?W * y) * nc + c))"
    by auto
  have small: "?w < 2 ^ 31" "?h < 2 ^ 31" "?W < 2 ^ 31" "?H < 2 ^ 31" using assms(1,2) by (auto simp: buffer_ok_def)
  have "nat (int X) * nc + nat (int Y) * (?W * nc) = (X + ?W * Y) * nc" by (simp add: algebra_simps)
  then have c: "CopyRect nc (int X) (int Y) f b = (Inr (), b\<lparr>b2_mpData := Some r\<rparr>)"
    using r src(1) d(1) p small False assms(3-5) by (simp add: CopyRect_def Let_def)
  have "samp nc (b\<lparr>b2_mpData := Some r\<rparr>) x y c = (if X \<le> x \<and> x < X + ?w \<and> Y \<le> y \<and> y < Y + ?h
      then samp nc f (x - X) (y - Y) c else samp nc b x y c)" if "x < ?W" "y < ?H" "c < nc" for x y c
    using nth [OF that] src(1) d(1) by (simp add: samp_def algebra_simps)
  with c r(2) d assms(2) show ?thesis
    by (intro exI [of _ "b\<lparr>b2_mpData := Some r\<rparr>"]) (auto simp: buffer_ok_def)
qed


section \<open>Colours of a bucket\<close>

lemma SetSample_ok:
  assumes "buffer_ok nc b" and "x < b2_mWd b" and "y < b2_mHe b" and "0 < nc" and "length v = nc"
  shows "\<exists>b'. SetSample nc (int x) (int y) v b = (Inr (), b') \<and> buffer_ok nc b'
    \<and> b2_mWd b' = b2_mWd b \<and> b2_mHe b' = b2_mHe b
    \<and> (\<forall>u w c. u < b2_mWd b \<longrightarrow> w < b2_mHe b \<longrightarrow> c < nc \<longrightarrow>
         samp nc b' u w c = (if u = x \<and> w = y then v ! c else samp nc b u w c))"
proof -
  let ?W = "b2_mWd b" and ?H = "b2_mHe b" and ?i = "(x + b2_mWd b * y) * nc"
  from assms(1) obtain d where d: "b2_mpData b = Some d" "length d = ?W * nc * ?H"
    by (auto simp: buffer_ok_def)
  have fit: "?i + nc \<le> length d"
    using grid_bound [of x ?W y ?H "nc - 1" nc] assms d(2) by simp
  have s: "SetSample nc (int x) (int y) v b = (Inr (), b\<lparr>b2_mpData := Some (overwrite d ?i v)\<rparr>)"
    using sample_index_ok [OF assms(1-4)] d(1) fit assms(5) by (simp add: SetSample_def)
  have "overwrite d ?i v ! ((u + ?W * w) * nc + c) = (if u = x \<and> w = y then v ! c else d ! ((u + ?W * w) * nc + c))"
    if "u < ?W" "w < ?H" "c < nc" for u w c
  proof -
    have "?i \<le> (u + ?W * w) * nc + c \<and> (u + ?W * w) * nc + c < ?i + nc \<longleftrightarrow> u = x \<and> w = y"
      using row_hit [of u ?W x 1 c nc y 0 w] that assms(2) by auto
    with grid_bound [OF that] fit assms(5) d(2) show ?thesis by (auto simp: overwrite_nth)
  qed
  with s d assms(1) fit show ?thesis
    by (intro exI [of _ "b\<lparr>b2_mpData := Some (overwrite d ?i v)\<rparr>"])
       (auto simp: buffer_ok_def samp_def assms(5))
qed

lemma hide_pixels_ok:
  "buffer_ok NOUTCOLS b \<Longrightarrow> b2_mWd b = W \<Longrightarrow> b2_mHe b = H \<Longrightarrow> (\<And>k. length (col k) = NOUTCOLS) \<Longrightarrow>
     (\<And>j. j < length ps \<Longrightarrow> fst (ps ! j) < W \<and> snd (ps ! j) < H \<and> fst (ps ! j) + W * snd (ps ! j) = k + j) \<Longrightarrow>
     \<exists>b'. hide_pixels col ps k b = (Inr (), b') \<and> buffer_ok NOUTCOLS b' \<and> b2_mWd b' = W \<and> b2_mHe b' = H
       \<and> (\<forall>u w c. u < W \<longrightarrow> w < H \<longrightarrow> c < NOUTCOLS \<longrightarrow>
            samp NOUTCOLS b' u w c = (if u + W * w \<in> {k..<k + length ps}
              then col (u + W * w) ! c else samp NOUTCOLS b u w c))"
proof (induction ps arbitrary: k b)
  case Nil
  then show ?case by simp
next
  case (Cons p ps)
  obtain x y where p: "p = (x, y)" by force
  have xy: "x < W" "y < H" "x + W * y = k" using Cons.prems(5) [of 0] p by auto
  obtain b1 where b1: "SetSample NOUTCOLS (int x) (int y) (col k) b = (Inr (), b1)"
    and ok: "buffer_ok NOUTCOLS b1" "b2_mWd b1 = W" "b2_mHe b1 = H"
    and s1: "\<And>u w c. u < W \<Longrightarrow> w < H \<Longrightarrow> c < NOUTCOLS \<Longrightarrow>
      samp NOUTCOLS b1 u w c = (if u = x \<and> w = y then col k ! c else samp NOUTCOLS b u w c)"
    using SetSample_ok [of NOUTCOLS b x y "col k"] Cons.prems(1-4) xy by auto
  have pos: "fst (ps ! j) < W \<and> snd (ps ! j) < H \<and> fst (ps ! j) + W * snd (ps ! j) = Suc k + j"
    if "j < length ps" for j
    using Cons.prems(5) [of "Suc j"] that by simp
  from Cons.IH [OF ok Cons.prems(4) pos] obtain b' where
    b': "hide_pixels col ps (Suc k) b1 = (Inr (), b')" "buffer_ok NOUTCOLS b'" "b2_mWd b' = W" "b2_mHe b' = H"
    and s': "\<And>u w c. u < W \<Longrightarrow> w < H \<Longrightarrow> c < NOUTCOLS \<Longrightarrow>
      samp NOUTCOLS b' u w c = (if u + W * w \<in> {Suc k..<Suc k + length ps}
        then col (u + W * w) ! c else samp NOUTCOLS b1 u w c)" by auto
  have "samp NOUTCOLS b' u w c = (if u + W * w \<in> {k..<k + length (p # ps)}
      then col (u + W * w) ! c else samp NOUTCOLS b u w c)" if "u < W" "w < H" "c < NOUTCOLS" for u w c
  proof (cases "u = x \<and> w = y")
    case True
    with s' [OF that] s1 [OF that] xy show ?thesis by simp
  next
    case False
    then have "u + W * w \<noteq> k" using grid_unique [of u W x w y] that xy by auto
    with False s' [OF that] s1 [OF that] show ?thesis by auto
  qed
  with b1 b' p show ?case by (intro exI [of _ b']) auto
qed

lemma grid_list:
  "concat (map (\<lambda>y. map (\<lambda>x. (x, y)) [0..<W]) [0..<H]) = map (\<lambda>k. (k mod W, k div W)) [0..<W * H]"
proof (induction H)
  case 0
  then show ?case by simp
next
  case (Suc H)
  have "map (\<lambda>x. (x, H)) [0..<W] = map (\<lambda>k. (k mod W, k div W)) [W * H..<W * H + W]"
    by (rule nth_equalityI) auto
  moreover have "[0..<W * Suc H] = [0..<W * H] @ [W * H..<W * H + W]"
    using upt_add_eq_append [of 0 "W * H" W] by (simp add: add.commute)
  ultimately show ?case using Suc by simp
qed


text \<open>The rectangle of a bucket lies in an image of width \<open>W\<close> and height \<open>H\<close>.\<close>

definition bucket_in :: "nat \<Rightarrow> nat \<Rightarrow> ('a, 'p) HiderBucket \<Rightarrow> bool" where
  "bucket_in W H bk \<longleftrightarrow> 0 \<le> hb_mX1 bk \<and> hb_mX1 bk < hb_mX2 bk \<and> hb_mX2 bk \<le> int W
     \<and> 0 \<le> hb_mY1 bk \<and> hb_mY1 bk < hb_mY2 bk \<and> hb_mY2 bk \<le> int H"

definition rect :: "('a, 'p) HiderBucket \<Rightarrow> int \<times> int \<times> int \<times> int" where
  "rect bk = (hb_mX1 bk, hb_mY1 bk, hb_mX2 bk, hb_mY2 bk)"

lemma rect_cong:
  "rect bk' = rect bk \<Longrightarrow> bucket_in W H bk' = bucket_in W H bk \<and> GetWd bk' = GetWd bk \<and> GetHe bk' = GetHe bk
     \<and> Contains x y bk' = Contains x y bk"
  by (simp add: rect_def bucket_in_def GetWd_def GetHe_def Contains_def)

lemma bucket_size:
  assumes "bucket_in W H bk" and "W < 2 ^ 31" and "H < 2 ^ 31"
  shows "GetWd bk = nat (hb_mX2 bk) - nat (hb_mX1 bk)" "GetHe bk = nat (hb_mY2 bk) - nat (hb_mY1 bk)"
    "nat (hb_mX1 bk) + GetWd bk \<le> W" "nat (hb_mY1 bk) + GetHe bk \<le> H" "0 < GetWd bk" "0 < GetHe bk"
  using assms by (auto simp: bucket_in_def GetWd_def GetHe_def nat_diff_distrib)

lemma mul_le_area:
  fixes w h W H :: nat
  assumes "w \<le> W" and "h \<le> H"
  shows "w * nc * h \<le> W * nc * H"
  using assms by (intro mult_le_mono) auto

lemma fresh_buffer:
  assumes "wd < 2 ^ 31" and "he < 2 ^ 31" and "wd * nc * he < 2 ^ 32"
  shows "\<exists>b'. Buffer2D_Clear nc (Buffer2D_Setup nc mem wd he b) = (Inr (), b') \<and> buffer_ok nc b'
    \<and> b2_mWd b' = wd \<and> b2_mHe b' = he \<and> (\<forall>x<wd. \<forall>y<he. \<forall>c<nc. samp nc b' x y c = 0)"
proof -
  let ?n = "wd * nc * he"
  let ?b = "b\<lparr>b2_mWd := wd, b2_mHe := he, b2_mpData := Some (replicate ?n 0)\<rparr>"
  have four: "4 * wd * nc * he = 4 * ?n" by simp
  have "4 * m < 2 ^ 64" if "m < 2 ^ 32" for m :: nat using that by simp
  then have "4 * ?n < 2 ^ 64" using assms(3) .
  then have n: "(4 * wd * nc * he) mod 2 ^ 64 div 4 = ?n" unfolding four by simp
  have "Buffer2D_Clear nc (Buffer2D_Setup nc mem wd he b) = (Inr (), ?b)"
    unfolding Buffer2D_Clear_def Let_def Buffer2D_Setup_def
    using n u_int_small [OF assms(3)] by simp
  moreover have "buffer_ok nc ?b" using assms by (simp add: buffer_ok_def)
  moreover have "samp nc ?b x y c = 0" if "x < wd" "y < he" "c < nc" for x y c
    using grid_bound [OF that] by (simp add: samp_def)
  ultimately show ?thesis by (intro exI [of _ ?b]) simp
qed

lemma BeginRender_ok:
  assumes "bucket_in W H bk" and "W < 2 ^ 31" and "H < 2 ^ 31" and "W * NOUTCOLS * H < 2 ^ 32"
  shows "\<exists>bk'. BeginRender mem bk = (Inr (), bk') \<and> rect bk' = rect bk \<and> buffer_ok NOUTCOLS (hb_mCBuff bk')
    \<and> b2_mWd (hb_mCBuff bk') = GetWd bk \<and> b2_mHe (hb_mCBuff bk') = GetHe bk"
proof -
  note sz = bucket_size [OF assms(1-3)]
  have w: "GetWd bk \<le> W" "GetHe bk \<le> H" using sz(3,4) by simp_all
  have "GetWd bk * NOUTCOLS * GetHe bk < 2 ^ 32"
    using mul_le_area [OF w] assms(4) by (rule le_less_trans)
  moreover have "GetWd bk < 2 ^ 31" "GetHe bk < 2 ^ 31"
    using w assms(2,3) by (blast intro: le_less_trans)+
  ultimately obtain c where "Buffer2D_Clear NOUTCOLS (Buffer2D_Setup NOUTCOLS mem (GetWd bk) (GetHe bk) (hb_mCBuff bk))
      = (Inr (), c)" "buffer_ok NOUTCOLS c" "b2_mWd c = GetWd bk" "b2_mHe c = GetHe bk"
    using fresh_buffer by blast
  then show ?thesis by (simp add: BeginRender_def rect_def)
qed

lemma hide_bucket_ok:
  assumes "buffer_ok NOUTCOLS (hb_mCBuff bk)" and "b2_mWd (hb_mCBuff bk) = GetWd bk"
    and "b2_mHe (hb_mCBuff bk) = GetHe bk" and "\<And>k. length (col k) = NOUTCOLS" and "0 < GetWd bk"
  shows "\<exists>bk'. hide_bucket col bk = (Inr (), bk') \<and> rect bk' = rect bk \<and> buffer_ok NOUTCOLS (hb_mCBuff bk')
    \<and> b2_mWd (hb_mCBuff bk') = GetWd bk \<and> b2_mHe (hb_mCBuff bk') = GetHe bk
    \<and> (\<forall>u w c. u < GetWd bk \<longrightarrow> w < GetHe bk \<longrightarrow> c < NOUTCOLS \<longrightarrow>
         samp NOUTCOLS (hb_mCBuff bk') u w c = col (u + GetWd bk * w) ! c)"
proof -
  let ?W = "GetWd bk" and ?H = "GetHe bk"
  have ps: "bucket_pixels bk = map (\<lambda>k. (k mod ?W, k div ?W)) [0..<?W * ?H]"
    by (simp only: bucket_pixels_def grid_list)
  have pos: "fst (bucket_pixels bk ! j) < ?W \<and> snd (bucket_pixels bk ! j) < ?H
      \<and> fst (bucket_pixels bk ! j) + ?W * snd (bucket_pixels bk ! j) = 0 + j"
    if "j < length (bucket_pixels bk)" for j
    using that assms(5) by (simp add: ps less_mult_imp_div_less mult.commute)
  from hide_pixels_ok [where col = col, OF assms(1-4) pos] obtain b' where
    b': "hide_pixels col (bucket_pixels bk) 0 (hb_mCBuff bk) = (Inr (), b')" "buffer_ok NOUTCOLS b'"
      "b2_mWd b' = ?W" "b2_mHe b' = ?H"
    and s: "\<And>u w c. u < ?W \<Longrightarrow> w < ?H \<Longrightarrow> c < NOUTCOLS \<Longrightarrow> samp NOUTCOLS b' u w c
      = (if u + ?W * w < length (bucket_pixels bk) then col (u + ?W * w) ! c else samp NOUTCOLS (hb_mCBuff bk) u w c)"
    by auto
  have "u + ?W * w < length (bucket_pixels bk)" if "u < ?W" "w < ?H" for u w
    using grid_bound [OF that, of 0 1] by (simp add: ps)
  with b' s show ?thesis
    by (intro exI [of _ "bk\<lparr>hb_mCBuff := b'\<rparr>"]) (simp add: hide_bucket_def rect_def)
qed


text \<open>What one task does to the image, and what it leaves of the buckets.\<close>

definition image_ok :: "('a, 'p) Hider \<Rightarrow> bool" where
  "image_ok hr \<longleftrightarrow> buffer_ok NOUTCOLS (mFinalBuff hr)
     \<and> (\<forall>bk \<in> set (mpBuckets hr). bucket_in (b2_mWd (mFinalBuff hr)) (b2_mHe (mFinalBuff hr)) bk)"

definition same_layout :: "('a, 'p) Hider \<Rightarrow> ('a, 'p) Hider \<Rightarrow> bool" where
  "same_layout hr' hr \<longleftrightarrow> map rect (mpBuckets hr') = map rect (mpBuckets hr)
     \<and> b2_mWd (mFinalBuff hr') = b2_mWd (mFinalBuff hr) \<and> b2_mHe (mFinalBuff hr') = b2_mHe (mFinalBuff hr)"

lemma same_layout_trans: "same_layout a b \<Longrightarrow> same_layout b c \<Longrightarrow> same_layout a c"
  by (simp add: same_layout_def)

lemma same_layout_bucket:
  assumes "same_layout hr' hr" and "i < length (mpBuckets hr)"
  shows "i < length (mpBuckets hr')" "rect (mpBuckets hr' ! i) = rect (mpBuckets hr ! i)"
proof -
  from assms(1) have m: "map rect (mpBuckets hr') = map rect (mpBuckets hr)" by (simp add: same_layout_def)
  then show i: "i < length (mpBuckets hr')" using assms(2) map_eq_imp_length_eq by fastforce
  from m have "map rect (mpBuckets hr') ! i = map rect (mpBuckets hr) ! i" by simp
  then show "rect (mpBuckets hr' ! i) = rect (mpBuckets hr ! i)" using i assms(2) by simp
qed

definition final_sample :: "('a, 'p) Hider \<Rightarrow> nat \<Rightarrow> nat \<Rightarrow> nat \<Rightarrow> 'a" where
  "final_sample hr x y c = samp NOUTCOLS (mFinalBuff hr) x y c"

abbreviation in_image :: "('a, 'p) Hider \<Rightarrow> nat \<Rightarrow> nat \<Rightarrow> bool" where
  "in_image hr x y \<equiv> x < b2_mWd (mFinalBuff hr) \<and> y < b2_mHe (mFinalBuff hr)"

lemma Contains_nat:
  assumes "bucket_in W H bk" and "W < 2 ^ 31" and "H < 2 ^ 31"
  shows "Contains (int x) (int y) bk \<longleftrightarrow>
    nat (hb_mX1 bk) \<le> x \<and> x < nat (hb_mX1 bk) + GetWd bk \<and> nat (hb_mY1 bk) \<le> y \<and> y < nat (hb_mY1 bk) + GetHe bk"
proof -
  have "\<exists>a b c d. hb_mX1 bk = int a \<and> hb_mX2 bk = int b \<and> hb_mY1 bk = int c \<and> hb_mY2 bk = int d \<and> a < b \<and> c < d"
    using assms(1) unfolding bucket_in_def by (metis nonneg_int_cases of_nat_less_iff order.trans less_le)
  then obtain a b c d where "hb_mX1 bk = int a" "hb_mX2 bk = int b" "hb_mY1 bk = int c" "hb_mY2 bk = int d"
    "a < b" "c < d" by blast
  with bucket_size(1,2) [OF assms] show ?thesis by (simp add: Contains_def) linarith
qed

text \<open>The index of a pixel of the image among the pixels of a bucket.\<close>

definition pixel_index :: "('a, 'p) HiderBucket \<Rightarrow> nat \<Rightarrow> nat \<Rightarrow> nat" where
  "pixel_index bk x y = (x - nat (hb_mX1 bk)) + GetWd bk * (y - nat (hb_mY1 bk))"

lemma image_ok_dims:
  "image_ok hr \<Longrightarrow> b2_mWd (mFinalBuff hr) < 2 ^ 31 \<and> b2_mHe (mFinalBuff hr) < 2 ^ 31
     \<and> b2_mWd (mFinalBuff hr) * NOUTCOLS * b2_mHe (mFinalBuff hr) < 2 ^ 32"
  by (simp add: image_ok_def buffer_ok_def)

lemma image_ok_bucket:
  "image_ok hr \<Longrightarrow> i < length (mpBuckets hr) \<Longrightarrow>
     bucket_in (b2_mWd (mFinalBuff hr)) (b2_mHe (mFinalBuff hr)) (mpBuckets hr ! i)"
  by (simp add: image_ok_def)

lemma bucket_fits:
  assumes "image_ok hr" and "i < length (mpBuckets hr)"
  shows "nat (hb_mX1 (mpBuckets hr ! i)) + GetWd (mpBuckets hr ! i) \<le> b2_mWd (mFinalBuff hr)"
    "nat (hb_mY1 (mpBuckets hr ! i)) + GetHe (mpBuckets hr ! i) \<le> b2_mHe (mFinalBuff hr)"
    "0 < GetWd (mpBuckets hr ! i)" "0 < GetHe (mpBuckets hr ! i)"
  using bucket_size(3-6) [OF image_ok_bucket [OF assms]] image_ok_dims [OF assms(1)] by blast+

lemma image_ok_layout:
  assumes "image_ok hr" and "same_layout hr' hr" and "buffer_ok NOUTCOLS (mFinalBuff hr')"
  shows "image_ok hr'"
proof -
  have "bucket_in (b2_mWd (mFinalBuff hr')) (b2_mHe (mFinalBuff hr')) (mpBuckets hr' ! i)"
    if "i < length (mpBuckets hr')" for i
  proof -
    have i: "i < length (mpBuckets hr)"
      using assms(2) that map_eq_imp_length_eq unfolding same_layout_def by fastforce
    have "bucket_in (b2_mWd (mFinalBuff hr)) (b2_mHe (mFinalBuff hr)) (mpBuckets hr' ! i)"
      using image_ok_bucket [OF assms(1) i] rect_cong [OF same_layout_bucket(2) [OF assms(2) i]] by simp
    then show ?thesis using assms(2) by (simp add: same_layout_def)
  qed
  with assms(3) show ?thesis by (auto simp: image_ok_def in_set_conv_nth)
qed

lemma RenderBucket_s_ok:
  assumes "image_ok hr" and "i < length (mpBuckets hr)" and "\<And>k. length (col k) = NOUTCOLS"
  shows "\<exists>hr'. RenderBucket_s mem col i hr = (Inr (), hr') \<and> image_ok hr' \<and> same_layout hr' hr
    \<and> (\<forall>x y c. in_image hr x y \<longrightarrow> c < NOUTCOLS \<longrightarrow>
         final_sample hr' x y c = (if Contains (int x) (int y) (mpBuckets hr ! i)
           then col (pixel_index (mpBuckets hr ! i) x y) ! c else final_sample hr x y c))"
proof -
  let ?bk = "mpBuckets hr ! i" and ?W = "b2_mWd (mFinalBuff hr)" and ?H = "b2_mHe (mFinalBuff hr)"
  let ?X = "nat (hb_mX1 ?bk)" and ?Y = "nat (hb_mY1 ?bk)"
  note dims = image_ok_dims [OF assms(1)]
  have bin: "bucket_in ?W ?H ?bk" by (rule image_ok_bucket [OF assms(1,2)])
  note sz = bucket_fits [OF assms(1,2)]
  obtain b1 where b1: "BeginRender mem ?bk = (Inr (), b1)" "rect b1 = rect ?bk"
    "buffer_ok NOUTCOLS (hb_mCBuff b1)" "b2_mWd (hb_mCBuff b1) = GetWd ?bk" "b2_mHe (hb_mCBuff b1) = GetHe ?bk"
    using BeginRender_ok [OF bin] dims by blast
  have r1: "GetWd b1 = GetWd ?bk" "GetHe b1 = GetHe ?bk" using rect_cong [OF b1(2)] by auto
  obtain b2 where b2: "hide_bucket col b1 = (Inr (), b2)" "rect b2 = rect b1"
    "buffer_ok NOUTCOLS (hb_mCBuff b2)" "b2_mWd (hb_mCBuff b2) = GetWd ?bk" "b2_mHe (hb_mCBuff b2) = GetHe ?bk"
    and s2: "\<And>u w c. u < GetWd ?bk \<Longrightarrow> w < GetHe ?bk \<Longrightarrow> c < NOUTCOLS \<Longrightarrow>
      samp NOUTCOLS (hb_mCBuff b2) u w c = col (u + GetWd ?bk * w) ! c"
    using hide_bucket_ok [of b1 col] b1(3-5) r1 sz(3) assms(3) by auto
  have xy: "hb_mX1 b2 = int ?X" "hb_mY1 b2 = int ?Y"
    using b2(2) b1(2) bin by (auto simp: rect_def bucket_in_def)
  have bok: "buffer_ok NOUTCOLS (mFinalBuff hr)" using assms(1) by (simp add: image_ok_def)
  obtain fb where fb: "CopyRect NOUTCOLS (hb_mX1 b2) (hb_mY1 b2) (hb_mCBuff b2) (mFinalBuff hr) = (Inr (), fb)"
    "buffer_ok NOUTCOLS fb" "b2_mWd fb = ?W" "b2_mHe fb = ?H"
    and sf: "\<And>x y c. x < ?W \<Longrightarrow> y < ?H \<Longrightarrow> c < NOUTCOLS \<Longrightarrow> samp NOUTCOLS fb x y c
      = (if ?X \<le> x \<and> x < ?X + GetWd ?bk \<and> ?Y \<le> y \<and> y < ?Y + GetHe ?bk
         then samp NOUTCOLS (hb_mCBuff b2) (x - ?X) (y - ?Y) c else samp NOUTCOLS (mFinalBuff hr) x y c)"
    using CopyRect_inside [OF b2(3) bok, of ?X ?Y] sz(1,2) b2(4,5) xy by auto
  let ?b3 = "b2\<lparr>hb_mCBuff := Buffer2D_Free (hb_mCBuff b2)\<rparr>"
  let ?hr = "hr\<lparr>mpBuckets := (mpBuckets hr)[i := ?b3], mFinalBuff := fb\<rparr>"
  have run: "RenderBucket_s mem col i hr = (Inr (), ?hr)"
    using assms(2) b1(1) b2(1) fb(1) by (simp add: RenderBucket_s_def stx_bind_def EndRender_def)
  have "rect ?b3 = rect ?bk" using b1(2) b2(2) by (simp add: rect_def)
  then have lay: "same_layout ?hr hr"
    using fb(3,4) assms(2) by (simp add: same_layout_def map_update list_update_same_conv)
  have "final_sample ?hr x y c = (if Contains (int x) (int y) ?bk then col (pixel_index ?bk x y) ! c else final_sample hr x y c)"
    if "in_image hr x y" "c < NOUTCOLS" for x y c
  proof (cases "Contains (int x) (int y) ?bk")
    case True
    with Contains_nat [OF bin, of x y] dims have
      "?X \<le> x \<and> x < ?X + GetWd ?bk \<and> ?Y \<le> y \<and> y < ?Y + GetHe ?bk" by simp
    with True that sf [of x y c] s2 [of "x - ?X" "y - ?Y" c] show ?thesis
      by (simp add: final_sample_def pixel_index_def less_diff_conv2 add.commute)
  next
    case False
    with Contains_nat [OF bin, of x y] dims have n:
      "\<not> (?X \<le> x \<and> x < ?X + GetWd ?bk \<and> ?Y \<le> y \<and> y < ?Y + GetHe ?bk)" by simp
    from sf [of x y c] that False show ?thesis unfolding if_not_P [OF n] by (simp add: final_sample_def)
  qed
  with run lay image_ok_layout [OF assms(1) lay] fb(2) show ?thesis
    by (intro exI [of _ ?hr]) auto
qed

end
