(* ===== verification/RasterProps.thy ===== *)
theory RasterProps
  imports Raster
begin

text \<open>
  Properties of the image side: the buckets tile the image, rendering them in any order puts
  every pixel where it belongs, the pixels of a bucket survive the way through a network
  packet, and the cases where the sizes or the cached sample buffers go wrong.
\<close>

section \<open>The buckets tile the image\<close>

lemma mem_bucket_starts:
  "s \<in> set (bucket_starts i n) \<longleftrightarrow> i \<le> s \<and> s < n \<and> (s - i) mod 128 = 0"
proof (induction i n rule: bucket_starts.induct)
  case (1 i n)
  show ?case
  proof (cases "i < n")
    case True
    have e: "(s - (i + 128)) mod 128 = (s - i) mod 128"
      using mod_add_self2 [of "s - (i + 128)" 128] by (simp add: algebra_simps)
    have near: "s = i" if "i \<le> s" "s < i + 128" "(s - i) mod 128 = 0"
      using that mod_pos_pos_trivial [of "s - i" 128] by simp
    have mem: "s \<in> set (bucket_starts i n) \<longleftrightarrow> s = i \<or> (i + 128 \<le> s \<and> s < n \<and> (s - i) mod 128 = 0)"
      using "1.IH" [OF True] True e by (subst bucket_starts.simps) simp
    show ?thesis
    proof
      assume "s \<in> set (bucket_starts i n)"
      with mem True show "i \<le> s \<and> s < n \<and> (s - i) mod 128 = 0" by auto
    next
      assume "i \<le> s \<and> s < n \<and> (s - i) mod 128 = 0"
      with mem near show "s \<in> set (bucket_starts i n)" by (cases "s < i + 128") auto
    qed
  next
    case False
    then show ?thesis by (subst bucket_starts.simps) simp
  qed
qed

lemma distinct_bucket_starts: "distinct (bucket_starts i n)"
proof (induction i n rule: bucket_starts.induct)
  case (1 i n)
  show ?case
  proof (cases "i < n")
    case True
    with "1.IH" [OF True] show ?thesis
      by (subst bucket_starts.simps) (simp add: mem_bucket_starts)
  next
    case False
    then show ?thesis by (subst bucket_starts.simps) simp
  qed
qed

text \<open>Exactly one start is the one of the cell a coordinate falls into.\<close>

lemma bucket_start_unique:
  assumes "0 \<le> x" and "x < n"
  shows "s \<in> set (bucket_starts 0 n) \<and> s \<le> x \<and> x < min (s + 128) n \<longleftrightarrow> s = 128 * (x div 128)"
  using assms by (auto simp: mem_bucket_starts)

definition cell :: "Options \<Rightarrow> int \<times> int \<Rightarrow> int \<times> int \<times> int \<times> int" where
  "cell opt = (\<lambda>(x, y). (x, y, min (x + 128) (mXRes opt), min (y + 128) (mYRes opt)))"

lemma add_bucket_all:
  assumes "mDbgOnlyBucketAtX (mParams hr) = -1"
  shows "\<exists>bufs bk. add_bucket opt l p hr = hr\<lparr>mSampCoordBuffs := bufs, mpBuckets := mpBuckets hr @ [bk]\<rparr>
    \<and> rect bk = cell opt p \<and> hb_mpPrims bk = []"
proof -
  obtain x y where p: "p = (x, y)" by force
  let ?xb = "min (x + 128) (mXRes opt)" and ?yb = "min (y + 128) (mYRes opt)"
  let ?F = "findOrAddSampCoordBuff (nat (?xb - x)) (nat (?yb - y)) l (mSampCoordBuffs hr)"
  let ?bk = "HiderBucket_new x y ?xb ?yb (fst ?F)"
  have "add_bucket opt l p hr = hr\<lparr>mSampCoordBuffs := snd ?F, mpBuckets := mpBuckets hr @ [?bk]\<rparr>"
    using assms by (simp add: p add_bucket_def bucket_wanted_def Let_def case_prod_beta)
  moreover have "rect ?bk = cell opt p" "hb_mpPrims ?bk = []"
    by (simp_all add: p HiderBucket_new_def rect_def cell_def)
  ultimately show ?thesis by blast
qed

lemma fold_add_bucket:
  "mDbgOnlyBucketAtX (mParams hr) = -1 \<Longrightarrow>
     map rect (mpBuckets (fold (add_bucket opt l) g hr)) = map rect (mpBuckets hr) @ map (cell opt) g
     \<and> mFinalBuff (fold (add_bucket opt l) g hr) = mFinalBuff hr
     \<and> map hb_mpPrims (mpBuckets (fold (add_bucket opt l) g hr))
         = map hb_mpPrims (mpBuckets hr) @ map (\<lambda>_. []) g"
proof (induction g arbitrary: hr)
  case Nil
  then show ?case by simp
next
  case (Cons p g)
  from add_bucket_all [OF Cons.prems] obtain bufs bk where
    a: "add_bucket opt l p hr = hr\<lparr>mSampCoordBuffs := bufs, mpBuckets := mpBuckets hr @ [bk]\<rparr>"
    "rect bk = cell opt p" "hb_mpPrims bk = []" by blast
  have "mDbgOnlyBucketAtX (mParams (add_bucket opt l p hr)) = -1" using a(1) Cons.prems by simp
  from Cons.IH [OF this] a show ?case by simp
qed

lemma mem_bucket_grid:
  "(x, y) \<in> set (bucket_grid opt) \<longleftrightarrow> x \<in> set (bucket_starts 0 (mXRes opt)) \<and> y \<in> set (bucket_starts 0 (mYRes opt))"
  by (auto simp: bucket_grid_def)

lemma distinct_bucket_grid: "distinct (bucket_grid opt)"
proof -
  have "bucket_grid opt = map (\<lambda>(y, x). (x, y)) (List.product (bucket_starts 0 (mYRes opt)) (bucket_starts 0 (mXRes opt)))"
    by (simp add: bucket_grid_def product_concat_map map_concat comp_def)
  moreover have "inj_on (\<lambda>(y, x). (x, y)) S" for S :: "(int \<times> int) set" by (auto intro: inj_onI)
  ultimately show ?thesis
    by (simp add: distinct_map distinct_product distinct_bucket_starts)
qed

text \<open>A world begins: the options are those of an image the buffer arithmetic can hold.\<close>

definition world_ok :: "Options \<Rightarrow> bool" where
  "world_ok opt \<longleftrightarrow> 0 < mXRes opt \<and> 0 < mYRes opt \<and> mXRes opt < 2 ^ 31 \<and> mYRes opt < 2 ^ 31
     \<and> mXRes opt * 4 * mYRes opt < 2 ^ 32"

definition idle_hider :: "('a, 'p) Hider \<Rightarrow> bool" where
  "idle_hider hr \<longleftrightarrow> mpBuckets hr = [] \<and> mDbgOnlyBucketAtX (mParams hr) = -1"

lemma WorldBegin_layout:
  assumes "world_ok opt" and "idle_hider hr"
  obtains hr' where "Hider_WorldBegin mem opt m hr = (Inr (), hr')"
    and "map rect (mpBuckets hr') = map (cell opt) (bucket_grid opt)"
    and "buffer_ok NOUTCOLS (mFinalBuff hr')"
    and "b2_mWd (mFinalBuff hr') = nat (mXRes opt)" and "b2_mHe (mFinalBuff hr') = nat (mYRes opt)"
    and "\<forall>x<nat (mXRes opt). \<forall>y<nat (mYRes opt). \<forall>c<NOUTCOLS. final_sample hr' x y c = 0"
    and "\<forall>bk \<in> set (mpBuckets hr'). hb_mpPrims bk = []"
proof -
  let ?w = "nat (mXRes opt)" and ?h = "nat (mYRes opt)"
  have xy: "0 < mXRes opt" "0 < mYRes opt" "mXRes opt < 2 ^ 31" "mYRes opt < 2 ^ 31"
    "mXRes opt * 4 * mYRes opt < 2 ^ 32" using assms(1) by (simp_all add: world_ok_def)
  then have m: "nat (mXRes opt mod 2 ^ 32) = ?w" "nat (mYRes opt mod 2 ^ 32) = ?h" by simp_all
  have "int (?w * NOUTCOLS * ?h) = mXRes opt * 4 * mYRes opt" using xy(1,2) by simp
  then have "int (?w * NOUTCOLS * ?h) < int (2 ^ 32)" using xy(5) by simp
  then have area: "?w * NOUTCOLS * ?h < 2 ^ 32" by (simp only: of_nat_less_iff)
  have small: "?w < 2 ^ 31" "?h < 2 ^ 31" using xy(3,4) by auto
  from fresh_buffer [OF small area] obtain fb where
    fb: "Buffer2D_Clear NOUTCOLS (Buffer2D_Setup NOUTCOLS mem ?w ?h (mFinalBuff hr)) = (Inr (), fb)"
      "buffer_ok NOUTCOLS fb" "b2_mWd fb = ?w" "b2_mHe fb = ?h"
      "\<forall>x<?w. \<forall>y<?h. \<forall>c<NOUTCOLS. samp NOUTCOLS fb x y c = 0" by blast
  let ?hr = "hr\<lparr>hd_mOptions := opt, hd_mMtxWorldCamera := m,
      hd_mMtxWorldProj := Matrix44_mul Identity m (mMtxCamProj opt), mFinalBuff := fb\<rparr>"
  let ?l = "findClosestSquareAreaLog2Dim (mPixSamplesX opt) (mPixSamplesY opt)"
  let ?fin = "fold (add_bucket opt ?l) (bucket_grid opt) ?hr"
  have hr: "mDbgOnlyBucketAtX (mParams ?hr) = -1" "mpBuckets ?hr = []"
    using assms(2) by (simp_all add: idle_hider_def)
  have f: "map rect (mpBuckets ?fin) = map (cell opt) (bucket_grid opt)" "mFinalBuff ?fin = fb"
    "map hb_mpPrims (mpBuckets ?fin) = map (\<lambda>_. []) (bucket_grid opt)"
    using fold_add_bucket [OF hr(1), of opt ?l "bucket_grid opt"] unfolding hr(2) by simp_all
  have "set (map hb_mpPrims (mpBuckets ?fin)) \<subseteq> {[]}" unfolding f(3) by auto
  then have np: "\<forall>bk \<in> set (mpBuckets ?fin). hb_mpPrims bk = []" by auto
  show ?thesis
  proof (rule that [OF _ f(1)])
    show "Hider_WorldBegin mem opt m hr = (Inr (), ?fin)"
      unfolding Hider_WorldBegin_def Let_def m fb(1) by simp
  qed (use f(2) fb(2-5) np in \<open>simp_all add: final_sample_def\<close>)
qed


text \<open>The bucket that owns a pixel.\<close>

definition owner :: "('a, 'p) Hider \<Rightarrow> nat \<Rightarrow> nat \<Rightarrow> nat \<Rightarrow> bool" where
  "owner hr i x y \<longleftrightarrow> i < length (mpBuckets hr) \<and> Contains (int x) (int y) (mpBuckets hr ! i)
     \<and> (\<forall>j<length (mpBuckets hr). Contains (int x) (int y) (mpBuckets hr ! j) \<longrightarrow> j = i)"

lemma Contains_rect:
  "Contains x y bk \<longleftrightarrow> (case rect bk of (xa, ya, xb, yb) \<Rightarrow> xa \<le> x \<and> ya \<le> y \<and> x < xb \<and> y < yb)"
  by (simp add: Contains_def rect_def)

lemma grid_cell_contains:
  assumes "0 \<le> x" and "x < mXRes opt" and "0 \<le> y" and "y < mYRes opt" and "p \<in> set (bucket_grid opt)"
  shows "(case cell opt p of (xa, ya, xb, yb) \<Rightarrow> xa \<le> x \<and> ya \<le> y \<and> x < xb \<and> y < yb)
    \<longleftrightarrow> p = (128 * (x div 128), 128 * (y div 128))"
proof -
  obtain a b where p: "p = (a, b)" by force
  with assms(5) have "a \<in> set (bucket_starts 0 (mXRes opt))" "b \<in> set (bucket_starts 0 (mYRes opt))"
    by (simp_all add: mem_bucket_grid)
  with bucket_start_unique [OF assms(1,2), of a] bucket_start_unique [OF assms(3,4), of b] p
  show ?thesis by (auto simp: cell_def)
qed

lemma layout_owner:
  assumes "map rect (mpBuckets hr) = map (cell opt) (bucket_grid opt)"
    and "int x < mXRes opt" and "int y < mYRes opt"
  shows "\<exists>i. owner hr i x y"
proof -
  let ?g = "bucket_grid opt" and ?p = "(128 * (int x div 128), 128 * (int y div 128))"
  have len: "length (mpBuckets hr) = length ?g" using arg_cong [OF assms(1), of length] by simp
  have r: "rect (mpBuckets hr ! j) = cell opt (?g ! j)" if "j < length ?g" for j
    using arg_cong [OF assms(1), of "\<lambda>l. l ! j"] that len by simp
  have c: "Contains (int x) (int y) (mpBuckets hr ! j) \<longleftrightarrow> ?g ! j = ?p" if "j < length ?g" for j
    using grid_cell_contains [of "int x" opt "int y" "?g ! j"] assms(2,3) that
    by (simp add: Contains_rect r)
  have "?p \<in> set ?g"
    using bucket_start_unique [of "int x" "mXRes opt", THEN iffD2, OF _ _ refl]
      bucket_start_unique [of "int y" "mYRes opt", THEN iffD2, OF _ _ refl] assms(2,3)
    by (simp add: mem_bucket_grid)
  then obtain i where i: "i < length ?g" "?g ! i = ?p" by (auto simp: in_set_conv_nth)
  have "j = i" if "j < length ?g" "?g ! j = ?p" for j
    using nth_eq_iff_index_eq [OF distinct_bucket_grid that(1) i(1)] i(2) that(2) by simp
  with c i len show ?thesis by (auto simp: owner_def)
qed

lemma layout_image_ok:
  assumes "map rect (mpBuckets hr) = map (cell opt) (bucket_grid opt)" and "buffer_ok NOUTCOLS (mFinalBuff hr)"
    and "b2_mWd (mFinalBuff hr) = nat (mXRes opt)" and "b2_mHe (mFinalBuff hr) = nat (mYRes opt)"
  shows "image_ok hr"
proof -
  have "bucket_in (nat (mXRes opt)) (nat (mYRes opt)) bk" if "bk \<in> set (mpBuckets hr)" for bk
  proof -
    have "rect bk \<in> set (map (cell opt) (bucket_grid opt))"
      using that unfolding assms(1) [symmetric] by simp
    then obtain a b where "(a, b) \<in> set (bucket_grid opt)" "rect bk = cell opt (a, b)" by auto
    then show ?thesis
      by (auto simp: mem_bucket_grid mem_bucket_starts rect_def cell_def bucket_in_def)
  qed
  with assms(2-4) show ?thesis by (simp add: image_ok_def)
qed

section \<open>The image\<close>

lemma owner_cong:
  assumes "same_layout hr' hr"
  shows "owner hr' i x y = owner hr i x y" and "owner hr i x y \<Longrightarrow> pixel_index (mpBuckets hr' ! i) u v = pixel_index (mpBuckets hr ! i) u v"
proof -
  have len: "length (mpBuckets hr') = length (mpBuckets hr)"
    using assms map_eq_imp_length_eq unfolding same_layout_def by blast
  have r: "rect (mpBuckets hr' ! j) = rect (mpBuckets hr ! j)" if "j < length (mpBuckets hr)" for j
    using same_layout_bucket(2) [OF assms that] .
  then have "Contains u v (mpBuckets hr' ! j) = Contains u v (mpBuckets hr ! j)"
    if "j < length (mpBuckets hr)" for u v j
    using rect_cong that by blast
  then show "owner hr' i x y = owner hr i x y" by (simp add: owner_def len cong: conj_cong)
  show "pixel_index (mpBuckets hr' ! i) u v = pixel_index (mpBuckets hr ! i) u v" if "owner hr i x y"
    using r [of i] that by (simp add: owner_def pixel_index_def rect_def GetWd_def)
qed

lemma RenderBuckets_ok:
  "image_ok hr \<Longrightarrow> set ts \<subseteq> {0..<length (mpBuckets hr)} \<Longrightarrow> (\<And>i k. length (col i k) = NOUTCOLS) \<Longrightarrow>
     \<exists>hr'. RenderBuckets mem col ts hr = (Inr (), hr') \<and> image_ok hr' \<and> same_layout hr' hr
       \<and> (\<forall>x y c i. in_image hr x y \<longrightarrow> c < NOUTCOLS \<longrightarrow> owner hr i x y \<longrightarrow>
            final_sample hr' x y c = (if i \<in> set ts then col i (pixel_index (mpBuckets hr ! i) x y) ! c else final_sample hr x y c))"
proof (induction ts arbitrary: hr)
  case Nil
  then show ?case by (simp add: same_layout_def)
next
  case (Cons b bs)
  have b: "b < length (mpBuckets hr)" using Cons.prems(2) by simp
  from RenderBucket_s_ok [where col = "col b", OF Cons.prems(1) b Cons.prems(3)] obtain h1 where
    h1: "RenderBucket_s mem (col b) b hr = (Inr (), h1)" "image_ok h1" "same_layout h1 hr"
    and p1: "\<And>x y c. in_image hr x y \<Longrightarrow> c < NOUTCOLS \<Longrightarrow> final_sample h1 x y c
      = (if Contains (int x) (int y) (mpBuckets hr ! b) then col b (pixel_index (mpBuckets hr ! b) x y) ! c
         else final_sample hr x y c)" by blast
  have "length (mpBuckets h1) = length (mpBuckets hr)"
    using h1(3) map_eq_imp_length_eq unfolding same_layout_def by blast
  then have sub: "set bs \<subseteq> {0..<length (mpBuckets h1)}" using Cons.prems(2) by simp
  from Cons.IH [OF h1(2) sub Cons.prems(3)] obtain h2 where
    h2: "RenderBuckets mem col bs h1 = (Inr (), h2)" "image_ok h2" "same_layout h2 h1"
    and p2: "\<And>x y c i. in_image h1 x y \<Longrightarrow> c < NOUTCOLS \<Longrightarrow> owner h1 i x y \<Longrightarrow> final_sample h2 x y c
      = (if i \<in> set bs then col i (pixel_index (mpBuckets h1 ! i) x y) ! c else final_sample h1 x y c)" by blast
  have "final_sample h2 x y c = (if i \<in> set (b # bs) then col i (pixel_index (mpBuckets hr ! i) x y) ! c else final_sample hr x y c)"
    if "in_image hr x y" "c < NOUTCOLS" "owner hr i x y" for x y c i
  proof -
    have "in_image h1 x y" using that(1) h1(3) by (simp add: same_layout_def)
    moreover have "owner h1 i x y" using owner_cong(1) [OF h1(3)] that(3) by simp
    ultimately have "final_sample h2 x y c = (if i \<in> set bs then col i (pixel_index (mpBuckets hr ! i) x y) ! c else final_sample h1 x y c)"
      using p2 that(2) owner_cong(2) [OF h1(3) that(3)] by simp
    moreover have "Contains (int x) (int y) (mpBuckets hr ! b) \<longleftrightarrow> b = i"
      using that(3) b by (auto simp: owner_def)
    ultimately show ?thesis using p1 [OF that(1,2)] by auto
  qed
  with h1(1) h2 same_layout_trans [OF h2(3) h1(3)] show ?case by (intro exI [of _ h2]) simp
qed


text \<open>
  Every pixel of the image lies in exactly one bucket of \<open>hr1\<close>, and the final buffer of \<open>hr2\<close>
  holds there the colour \<open>col\<close> gives for the pixel of that bucket.
\<close>

definition pixels_in_place ::
  "Options \<Rightarrow> (nat \<Rightarrow> nat \<Rightarrow> 'a list) \<Rightarrow> ('a, 'p) Hider \<Rightarrow> ('a, 'p) Hider \<Rightarrow> bool" where
  "pixels_in_place opt col hr1 hr2 \<longleftrightarrow>
     (\<forall>x y. int x < mXRes opt \<longrightarrow> int y < mYRes opt \<longrightarrow>
        (\<exists>!i. i < length (mpBuckets hr1) \<and> Contains (int x) (int y) (mpBuckets hr1 ! i))
        \<and> (\<forall>i<length (mpBuckets hr1). Contains (int x) (int y) (mpBuckets hr1 ! i) \<longrightarrow>
             (\<forall>c<NOUTCOLS. final_sample hr2 x y c = col i (pixel_index (mpBuckets hr1 ! i) x y) ! c)))"

lemma owner_in_place:
  assumes "\<And>x y. int x < mXRes opt \<Longrightarrow> int y < mYRes opt \<Longrightarrow>
      \<exists>i. owner hr1 i x y \<and> (\<forall>c<NOUTCOLS. final_sample hr2 x y c = col i (pixel_index (mpBuckets hr1 ! i) x y) ! c)"
  shows "pixels_in_place opt col hr1 hr2"
  unfolding pixels_in_place_def
proof (intro allI impI)
  fix x y
  assume "int x < mXRes opt" "int y < mYRes opt"
  from assms [OF this] obtain i where i: "owner hr1 i x y"
    and p: "\<forall>c<NOUTCOLS. final_sample hr2 x y c = col i (pixel_index (mpBuckets hr1 ! i) x y) ! c" by blast
  from i have u: "i < length (mpBuckets hr1)" "Contains (int x) (int y) (mpBuckets hr1 ! i)"
    "\<And>j. j < length (mpBuckets hr1) \<Longrightarrow> Contains (int x) (int y) (mpBuckets hr1 ! j) \<Longrightarrow> j = i"
    by (auto simp: owner_def)
  show "(\<exists>!i. i < length (mpBuckets hr1) \<and> Contains (int x) (int y) (mpBuckets hr1 ! i))
      \<and> (\<forall>i<length (mpBuckets hr1). Contains (int x) (int y) (mpBuckets hr1 ! i) \<longrightarrow>
           (\<forall>c<NOUTCOLS. final_sample hr2 x y c = col i (pixel_index (mpBuckets hr1 ! i) x y) ! c))"
    using u p by metis
qed

lemma world_rendered:
  assumes "map rect (mpBuckets hr1) = map (cell opt) (bucket_grid opt)" and "image_ok hr1"
    and "b2_mWd (mFinalBuff hr1) = nat (mXRes opt)" and "b2_mHe (mFinalBuff hr1) = nat (mYRes opt)"
    and "\<And>i k. length (col i k) = NOUTCOLS" and "set ts = {0..<length (mpBuckets hr1)}"
  shows "\<exists>hr2. RenderBuckets mem' col ts hr1 = (Inr (), hr2) \<and> pixels_in_place opt col hr1 hr2"
proof -
  from RenderBuckets_ok [where col = col and mem = mem' and ts = ts, OF assms(2) _ assms(5)] assms(6)
  obtain hr2 where r: "RenderBuckets mem' col ts hr1 = (Inr (), hr2)"
    and p: "\<And>x y c i. in_image hr1 x y \<Longrightarrow> c < NOUTCOLS \<Longrightarrow> owner hr1 i x y \<Longrightarrow>
      final_sample hr2 x y c = (if i \<in> set ts then col i (pixel_index (mpBuckets hr1 ! i) x y) ! c
        else final_sample hr1 x y c)" by blast
  have "pixels_in_place opt col hr1 hr2"
  proof (rule owner_in_place)
    fix x y
    assume xy: "int x < mXRes opt" "int y < mYRes opt"
    obtain i where o: "owner hr1 i x y" using layout_owner [OF assms(1) xy] by blast
    then have "i \<in> set ts" using assms(6) by (simp add: owner_def)
    moreover have "in_image hr1 x y" using xy assms(3,4) by auto
    ultimately have "\<forall>c<NOUTCOLS. final_sample hr2 x y c = col i (pixel_index (mpBuckets hr1 ! i) x y) ! c"
      using p o by simp
    with o show "\<exists>i. owner hr1 i x y \<and>
        (\<forall>c<NOUTCOLS. final_sample hr2 x y c = col i (pixel_index (mpBuckets hr1 ! i) x y) ! c)" by blast
  qed
  with r show ?thesis by blast
qed

text \<open>
  The image is complete and independent of the order of the tasks. For any image size
  whose samples fit 32 bits, \<open>WorldBegin\<close> lays out buckets such that every pixel lies in exactly
  one of them; rendering all buckets, in whatever order the tasks finish, throws nothing and
  leaves in every pixel of the final buffer the colour computed for it in its bucket.
\<close>

theorem image_assembled:
  assumes "world_ok opt" and "idle_hider hr" and "\<And>i k. length (col i k) = NOUTCOLS"
  shows "\<exists>hr1. Hider_WorldBegin mem opt m hr = (Inr (), hr1)
    \<and> (\<forall>ts. set ts = {0..<length (mpBuckets hr1)} \<longrightarrow>
        (\<exists>hr2. RenderBuckets mem' col ts hr1 = (Inr (), hr2) \<and> pixels_in_place opt col hr1 hr2))"
proof -
  obtain hr1 where w: "Hider_WorldBegin mem opt m hr = (Inr (), hr1)"
    and lay: "map rect (mpBuckets hr1) = map (cell opt) (bucket_grid opt)"
    and b: "buffer_ok NOUTCOLS (mFinalBuff hr1)" "b2_mWd (mFinalBuff hr1) = nat (mXRes opt)"
      "b2_mHe (mFinalBuff hr1) = nat (mYRes opt)"
    by (rule WorldBegin_layout [OF assms(1,2), of mem m])
  have "\<exists>hr2. RenderBuckets mem' col ts hr1 = (Inr (), hr2) \<and> pixels_in_place opt col hr1 hr2"
    if "set ts = {0..<length (mpBuckets hr1)}" for ts
    by (rule world_rendered [OF lay layout_image_ok [OF lay b] b(2,3) assms(3) that])
  with w show ?thesis by (intro exI [of _ hr1]) simp
qed

definition ex_hider :: "(int, nat) Hider" where
  "ex_hider = \<lparr>hd_mOptions = fst (Options_Init 0), hd_mMtxWorldCamera = Identity, hd_mMtxWorldProj = Identity,
     mFinalBuff = Buffer2D_new, mpBuckets = [], mSampCoordBuffs = replicate 4 no_samples,
     mParams = \<lparr>mDbgOnlyBucketAtX = -1, mDbgOnlyBucketAtY = -1, mDbgShowBuckets = False, mDbgColorCodedGrids = False, mDbgRasterizeVerts = False\<rparr>, hd_mpPrims = []\<rparr>"

lemma ex_world: "world_ok (fst (Options_Init 0))" "idle_hider ex_hider"
  by (simp_all add: world_ok_def Options_Init_def cmdProjection_def idle_hider_def ex_hider_def)

theorem image_assembled_witness:
  "\<exists>hr1 hr2. Hider_WorldBegin (\<lambda>_. 9) (fst (Options_Init 0)) Identity ex_hider = (Inr (), hr1)
     \<and> RenderBuckets (\<lambda>_. 9) (\<lambda>i k. [5, 6, 7, 1]) (rev [0..<length (mpBuckets hr1)]) hr1 = (Inr (), hr2)
     \<and> final_sample hr2 300 200 2 = 7"
proof -
  let ?col = "\<lambda>i k. [5, 6, 7, 1 :: int]"
  have col: "\<And>i k. length (?col i k) = NOUTCOLS" by simp
  obtain hr1 where w: "Hider_WorldBegin (\<lambda>_. 9) (fst (Options_Init 0)) Identity ex_hider = (Inr (), hr1)"
    and all: "\<And>ts. set ts = {0..<length (mpBuckets hr1)} \<Longrightarrow>
      \<exists>hr2. RenderBuckets (\<lambda>_. 9) ?col ts hr1 = (Inr (), hr2) \<and> pixels_in_place (fst (Options_Init 0)) ?col hr1 hr2"
    using image_assembled [where col = ?col and mem = "\<lambda>_. 9" and m = Identity and mem' = "\<lambda>_. 9",
        OF ex_world col] by blast
  from all [of "rev [0..<length (mpBuckets hr1)]"] obtain hr2 where
    r: "RenderBuckets (\<lambda>_. 9) ?col (rev [0..<length (mpBuckets hr1)]) hr1 = (Inr (), hr2)"
    and p: "pixels_in_place (fst (Options_Init 0)) ?col hr1 hr2" by auto
  have "int 300 < mXRes (fst (Options_Init 0))" "int 200 < mYRes (fst (Options_Init 0))"
    by (simp_all add: Options_Init_def cmdProjection_def)
  with p [unfolded pixels_in_place_def, rule_format, of 300 200] have "final_sample hr2 300 200 2 = 7" by auto
  with w r show ?thesis by blast
qed

section \<open>Pixels of a bucket on the wire\<close>

lemma bucket_ptr:
  assumes "image_ok hr" and "i < length (mpBuckets hr)"
  shows "GetSamplePtr NOUTCOLS (hb_mX1 (mpBuckets hr ! i)) (hb_mY1 (mpBuckets hr ! i)) (mFinalBuff hr)
      = Some ((nat (hb_mX1 (mpBuckets hr ! i)) + b2_mWd (mFinalBuff hr) * nat (hb_mY1 (mpBuckets hr ! i))) * NOUTCOLS)"
    and "GetOutputDataStride hr = b2_mWd (mFinalBuff hr) * NOUTCOLS"
proof -
  let ?bk = "mpBuckets hr ! i" and ?b = "mFinalBuff hr"
  have b: "buffer_ok NOUTCOLS ?b" using assms(1) by (simp add: image_ok_def)
  have bin: "bucket_in (b2_mWd ?b) (b2_mHe ?b) ?bk" by (rule image_ok_bucket [OF assms])
  then have xy: "hb_mX1 ?bk = int (nat (hb_mX1 ?bk))" "hb_mY1 ?bk = int (nat (hb_mY1 ?bk))"
    "nat (hb_mX1 ?bk) < b2_mWd ?b" "nat (hb_mY1 ?bk) < b2_mHe ?b" by (auto simp: bucket_in_def)
  show "GetSamplePtr NOUTCOLS (hb_mX1 ?bk) (hb_mY1 ?bk) ?b
      = Some ((nat (hb_mX1 ?bk) + b2_mWd ?b * nat (hb_mY1 ?bk)) * NOUTCOLS)"
    using sample_index_ok [OF b xy(3,4)] xy(1,2) by (simp add: GetSamplePtr_def)
  show "GetOutputDataStride hr = b2_mWd ?b * NOUTCOLS"
    unfolding GetOutputDataStride_def by (rule buffer_pitch [OF b]) (use xy(4) in simp)
qed

lemma CopyOutputBucket_ok:
  assumes "image_ok hr" and "i < length (mpBuckets hr)"
    and "length dest = GetWd (mpBuckets hr ! i) * NOUTCOLS * GetHe (mpBuckets hr ! i)"
  shows "\<exists>pix. CopyOutputBucket i dest hr = Inr pix \<and> length pix = length dest
    \<and> (\<forall>x y c. in_image hr x y \<longrightarrow> c < NOUTCOLS \<longrightarrow> Contains (int x) (int y) (mpBuckets hr ! i) \<longrightarrow>
         pix ! (pixel_index (mpBuckets hr ! i) x y * NOUTCOLS + c) = final_sample hr x y c)"
proof -
  let ?bk = "mpBuckets hr ! i" and ?b = "mFinalBuff hr"
  let ?W = "b2_mWd ?b" and ?H = "b2_mHe ?b" and ?w = "GetWd ?bk" and ?h = "GetHe ?bk"
  let ?X = "nat (hb_mX1 ?bk)" and ?Y = "nat (hb_mY1 ?bk)"
  note dims = image_ok_dims [OF assms(1)]
  have bin: "bucket_in ?W ?H ?bk" by (rule image_ok_bucket [OF assms(1,2)])
  note sz = bucket_fits(1,2,4) [OF assms(1,2)]
  obtain d where d: "b2_mpData ?b = Some d" "length d = ?W * NOUTCOLS * ?H"
    using assms(1) by (auto simp: image_ok_def buffer_ok_def)
  have fit: "(?X + ?W * ?Y) * NOUTCOLS + k * (?W * NOUTCOLS) + ?w * NOUTCOLS \<le> length d
      \<and> 0 + k * (?w * NOUTCOLS) + ?w * NOUTCOLS \<le> length dest" if "k < ?h" for k
  proof
    have "?X + ?w + ?W * (?Y + k) \<le> ?W * (?Y + k + 1)" using sz(1) by simp
    also have "\<dots> \<le> ?W * ?H" using sz(2) that by (intro mult_le_mono2) simp
    finally show "(?X + ?W * ?Y) * NOUTCOLS + k * (?W * NOUTCOLS) + ?w * NOUTCOLS \<le> length d"
      using d(2) by (simp add: algebra_simps)
    have "Suc k * (?w * NOUTCOLS) \<le> ?h * (?w * NOUTCOLS)" using that by (intro mult_le_mono1) simp
    then show "0 + k * (?w * NOUTCOLS) + ?w * NOUTCOLS \<le> length dest" using assms(3) by (simp add: algebra_simps)
  qed
  from copy_rows_ok [of ?h "(?X + ?W * ?Y) * NOUTCOLS" "?W * NOUTCOLS" "?w * NOUTCOLS" d 0 "?w * NOUTCOLS" dest] fit
  obtain r where r: "copy_rows ?h (?w * NOUTCOLS) d ((?X + ?W * ?Y) * NOUTCOLS) (?W * NOUTCOLS) dest 0 (?w * NOUTCOLS) = Inr r"
    "length r = length dest"
    and nth: "\<And>k j. k < ?h \<Longrightarrow> j < ?w * NOUTCOLS \<Longrightarrow>
      r ! (0 + k * (?w * NOUTCOLS) + j) = d ! ((?X + ?W * ?Y) * NOUTCOLS + k * (?W * NOUTCOLS) + j)" by blast
  have c: "CopyOutputBucket i dest hr = Inr r"
    using assms(2) bucket_ptr [OF assms(1,2)] d(1) r(1) sz(3) by (simp add: CopyOutputBucket_def Let_def)
  have "r ! (pixel_index ?bk x y * NOUTCOLS + c) = final_sample hr x y c"
    if "c < NOUTCOLS" "Contains (int x) (int y) ?bk" for x y c
  proof -
    from that(2) Contains_nat [OF bin, of x y] dims obtain a k where
      ak: "x = ?X + a" "a < ?w" "y = ?Y + k" "k < ?h"
      by (metis le_iff_add nat_add_left_cancel_less)
    have "(a + 1) * NOUTCOLS \<le> ?w * NOUTCOLS" using ak(2) by (intro mult_le_mono1) simp
    then have "a * NOUTCOLS + c < ?w * NOUTCOLS" using that(1) by simp
    from nth [OF ak(4) this] ak d(1) show ?thesis
      by (simp add: pixel_index_def final_sample_def samp_def algebra_simps)
  qed
  with c r(2) show ?thesis by (intro exI [of _ r]) auto
qed


lemma StoreOutputBucket_ok:
  assumes "image_ok hr" and "i < length (mpBuckets hr)"
    and "length pix = GetWd (mpBuckets hr ! i) * NOUTCOLS * GetHe (mpBuckets hr ! i)"
  shows "\<exists>hr'. StoreOutputBucket i pix hr = (Inr (), hr') \<and> image_ok hr' \<and> same_layout hr' hr
    \<and> (\<forall>x y c. in_image hr x y \<longrightarrow> c < NOUTCOLS \<longrightarrow>
         final_sample hr' x y c = (if Contains (int x) (int y) (mpBuckets hr ! i)
           then pix ! (pixel_index (mpBuckets hr ! i) x y * NOUTCOLS + c) else final_sample hr x y c))"
proof -
  let ?bk = "mpBuckets hr ! i" and ?b = "mFinalBuff hr"
  let ?W = "b2_mWd ?b" and ?H = "b2_mHe ?b" and ?w = "GetWd ?bk" and ?h = "GetHe ?bk"
  let ?X = "nat (hb_mX1 ?bk)" and ?Y = "nat (hb_mY1 ?bk)"
  note dims = image_ok_dims [OF assms(1)]
  have bin: "bucket_in ?W ?H ?bk" by (rule image_ok_bucket [OF assms(1,2)])
  note sz = bucket_fits(1,2,4) [OF assms(1,2)]
  obtain d where d: "b2_mpData ?b = Some d" "length d = ?W * NOUTCOLS * ?H"
    using assms(1) by (auto simp: image_ok_def buffer_ok_def)
  have fit: "0 + k * (?w * NOUTCOLS) + ?w * NOUTCOLS \<le> length pix" if "k < ?h" for k
  proof -
    have "Suc k * (?w * NOUTCOLS) \<le> ?h * (?w * NOUTCOLS)" using that by (intro mult_le_mono1) simp
    then show ?thesis using assms(3) by (simp add: algebra_simps)
  qed
  from rect_store [OF d(2) sz(1,2), of 0 "?w * NOUTCOLS" pix] fit obtain r where
    r: "copy_rows ?h (?w * NOUTCOLS) pix 0 (?w * NOUTCOLS) d ((?X + ?W * ?Y) * NOUTCOLS) (?W * NOUTCOLS) = Inr r"
      "length r = length d"
    and nth: "\<And>x y c. x < ?W \<Longrightarrow> y < ?H \<Longrightarrow> c < NOUTCOLS \<Longrightarrow> r ! ((x + ?W * y) * NOUTCOLS + c)
      = (if ?X \<le> x \<and> x < ?X + ?w \<and> ?Y \<le> y \<and> y < ?Y + ?h
         then pix ! (0 + (y - ?Y) * (?w * NOUTCOLS) + (x - ?X) * NOUTCOLS + c) else d ! ((x + ?W * y) * NOUTCOLS + c))"
    by blast
  let ?hr = "hr\<lparr>mFinalBuff := ?b\<lparr>b2_mpData := Some r\<rparr>\<rparr>"
  have s: "StoreOutputBucket i pix hr = (Inr (), ?hr)"
    using assms(2) bucket_ptr [OF assms(1,2)] d(1) r(1) sz(3) by (simp add: StoreOutputBucket_def Let_def)
  have lay: "same_layout ?hr hr" by (simp add: same_layout_def)
  have "buffer_ok NOUTCOLS (mFinalBuff ?hr)"
    using assms(1) r(2) d by (simp add: image_ok_def buffer_ok_def)
  then have ok: "image_ok ?hr" by (rule image_ok_layout [OF assms(1) lay])
  have "final_sample ?hr x y c = (if Contains (int x) (int y) ?bk
      then pix ! (pixel_index ?bk x y * NOUTCOLS + c) else final_sample hr x y c)"
    if "in_image hr x y" "c < NOUTCOLS" for x y c
  proof -
    have "Contains (int x) (int y) ?bk \<longleftrightarrow> ?X \<le> x \<and> x < ?X + ?w \<and> ?Y \<le> y \<and> y < ?Y + ?h"
      using Contains_nat [OF bin, of x y] dims by simp
    moreover have "0 + (y - ?Y) * (?w * NOUTCOLS) + (x - ?X) * NOUTCOLS + c = pixel_index ?bk x y * NOUTCOLS + c"
      by (simp add: pixel_index_def algebra_simps)
    ultimately have "r ! ((x + ?W * y) * NOUTCOLS + c) = (if Contains (int x) (int y) ?bk
        then pix ! (pixel_index ?bk x y * NOUTCOLS + c) else d ! ((x + ?W * y) * NOUTCOLS + c))"
      using nth [of x y c] that by presburger
    with d(1) show ?thesis by (simp add: final_sample_def samp_def)
  qed
  with s ok lay show ?thesis by blast
qed

text \<open>
  The pixels of a bucket survive the way from one process to another. What
  \<open>CopyOutputBucket\<close> takes out of one image and \<open>StoreOutputBucket\<close> puts into another of the same
  layout is exactly the bucket's rectangle; the rest of the second image is untouched.
\<close>

theorem bucket_pixels_roundtrip:
  assumes "image_ok src" and "image_ok dst" and "same_layout dst src" and "i < length (mpBuckets src)"
    and "length dest = GetWd (mpBuckets src ! i) * NOUTCOLS * GetHe (mpBuckets src ! i)"
  shows "\<exists>pix dst'. CopyOutputBucket i dest src = Inr pix \<and> StoreOutputBucket i pix dst = (Inr (), dst')
    \<and> same_layout dst' dst
    \<and> (\<forall>x y c. in_image src x y \<longrightarrow> c < NOUTCOLS \<longrightarrow>
         final_sample dst' x y c = (if Contains (int x) (int y) (mpBuckets src ! i)
           then final_sample src x y c else final_sample dst x y c))"
proof -
  let ?s = "mpBuckets src ! i" and ?d = "mpBuckets dst ! i"
  have i: "i < length (mpBuckets dst)" and rc: "rect ?d = rect ?s"
    using same_layout_bucket [OF assms(3,4)] by auto
  have eq: "GetWd ?d = GetWd ?s" "GetHe ?d = GetHe ?s" "\<And>x y. Contains x y ?d = Contains x y ?s"
    "\<And>x y. pixel_index ?d x y = pixel_index ?s x y"
    using rc by (auto simp: rect_def GetWd_def GetHe_def Contains_def pixel_index_def)
  obtain pix where c: "CopyOutputBucket i dest src = Inr pix" "length pix = length dest"
    and pc: "\<And>x y c. in_image src x y \<Longrightarrow> c < NOUTCOLS \<Longrightarrow> Contains (int x) (int y) ?s \<Longrightarrow>
      pix ! (pixel_index ?s x y * NOUTCOLS + c) = final_sample src x y c"
    using CopyOutputBucket_ok [OF assms(1,4,5)] by blast
  have "length pix = GetWd ?d * NOUTCOLS * GetHe ?d" using c(2) assms(5) eq by simp
  from StoreOutputBucket_ok [OF assms(2) i this] obtain dst' where
    s: "StoreOutputBucket i pix dst = (Inr (), dst')" "same_layout dst' dst"
    and ps: "\<And>x y c. in_image dst x y \<Longrightarrow> c < NOUTCOLS \<Longrightarrow> final_sample dst' x y c
      = (if Contains (int x) (int y) ?d then pix ! (pixel_index ?d x y * NOUTCOLS + c) else final_sample dst x y c)"
    by blast
  have "final_sample dst' x y c = (if Contains (int x) (int y) ?s then final_sample src x y c else final_sample dst x y c)"
    if "in_image src x y" "c < NOUTCOLS" for x y c
  proof -
    have "in_image dst x y" using that(1) assms(3) by (simp add: same_layout_def)
    from ps [OF this that(2)] pc [OF that] eq(3,4) show ?thesis by simp
  qed
  with c(1) s show ?thesis by blast
qed

section \<open>Samples per pixel\<close>

lemma closest_log2_step:
  assumes "k \<le> 8" and "4 ^ Suc k \<le> req"
  shows "closest_log2 req k = closest_log2 req (Suc k)"
proof -
  have "(2 :: int) ^ (2 * (k + 1)) = 4 ^ Suc k" by (simp add: power_mult)
  with assms show ?thesis by (subst closest_log2.simps) (simp add: Let_def)
qed

lemma closest_log2_at:
  assumes "k \<le> 8" and "4 ^ k \<le> req" and "req < 4 ^ Suc k"
  shows "closest_log2 req k = (if \<bar>req - 4 ^ Suc k\<bar> < \<bar>req - 4 ^ k\<bar> then Suc k else k)"
proof -
  have "(2 :: int) ^ (2 * k) = 4 ^ k" "(2 :: int) ^ (2 * (k + 1)) = 4 ^ Suc k" by (simp_all add: power_mult)
  with assms show ?thesis by (subst closest_log2.simps) (simp add: Let_def)
qed

lemma closest_log2_up: "j + k \<le> 8 \<Longrightarrow> 4 ^ (j + k) \<le> req \<Longrightarrow> closest_log2 req j = closest_log2 req (j + k)"
proof (induction k)
  case 0
  then show ?case by simp
next
  case (Suc k)
  have "(4 :: int) ^ (j + k) \<le> 4 ^ (j + Suc k)" by (intro power_increasing) auto
  with Suc have "closest_log2 req j = closest_log2 req (j + k)" by simp
  also have "\<dots> = closest_log2 req (Suc (j + k))"
    using Suc.prems by (intro closest_log2_step) simp_all
  finally show ?case by simp
qed

lemma nearest_of_two:
  fixes r :: int
  assumes "p \<le> r" and "r < q" and "a \<le> p \<or> q \<le> a"
  shows "\<bar>r - (if \<bar>r - q\<bar> < \<bar>r - p\<bar> then q else p)\<bar> \<le> \<bar>r - a\<bar>"
  using assms by auto

text \<open>
  The number of samples used per pixel, a power of four, is as close as possible to the number
  asked for, for every number the option can hold after clamping.
\<close>

theorem sample_count_closest:
  assumes "1 \<le> dimX" and "dimX \<le> 64" and "1 \<le> dimY" and "dimY \<le> 64"
  shows "\<bar>dimX * dimY - 4 ^ findClosestSquareAreaLog2Dim dimX dimY\<bar> \<le> \<bar>dimX * dimY - 4 ^ j\<bar>"
proof -
  let ?r = "dimX * dimY"
  have r: "1 \<le> ?r" "?r \<le> 64 * 64"
    using assms mult_mono [of 1 dimX 1 dimY] mult_mono [of dimX 64 dimY 64] by auto
  have "\<exists>k\<le>6. 4 ^ k \<le> ?r \<and> ?r < 4 ^ Suc k"
  proof -
    consider "?r < 4" | "4 \<le> ?r" "?r < 16" | "16 \<le> ?r" "?r < 64" | "64 \<le> ?r" "?r < 256"
      | "256 \<le> ?r" "?r < 1024" | "1024 \<le> ?r" "?r < 4096" | "4096 \<le> ?r" by linarith
    then show ?thesis
    proof cases
      case 1 then show ?thesis using r by (intro exI [of _ 0]) simp
    next
      case 2 then show ?thesis by (intro exI [of _ 1]) simp
    next
      case 3 then show ?thesis by (intro exI [of _ 2]) simp
    next
      case 4 then show ?thesis by (intro exI [of _ 3]) simp
    next
      case 5 then show ?thesis by (intro exI [of _ 4]) simp
    next
      case 6 then show ?thesis by (intro exI [of _ 5]) simp
    next
      case 7 then show ?thesis using r by (intro exI [of _ 6]) simp
    qed
  qed
  then obtain k where k: "k \<le> 6" "4 ^ k \<le> ?r" "?r < 4 ^ Suc k" by blast
  have c: "findClosestSquareAreaLog2Dim dimX dimY = (if \<bar>?r - 4 ^ Suc k\<bar> < \<bar>?r - 4 ^ k\<bar> then Suc k else k)"
    unfolding findClosestSquareAreaLog2Dim_def
    using closest_log2_up [of 0 k ?r] closest_log2_at [of k ?r] k by simp
  have e: "4 ^ findClosestSquareAreaLog2Dim dimX dimY
      = (if \<bar>?r - 4 ^ Suc k\<bar> < \<bar>?r - 4 ^ k\<bar> then 4 ^ Suc k else 4 ^ k :: int)"
    unfolding c by (cases "\<bar>?r - 4 ^ Suc k\<bar> < \<bar>?r - 4 ^ k\<bar>") (simp_all only: if_True if_False)
  have d: "(4 :: int) ^ j \<le> 4 ^ k \<or> (4 :: int) ^ Suc k \<le> 4 ^ j"
  proof (cases "j \<le> k")
    case True
    then show ?thesis by (intro disjI1 power_increasing) simp_all
  next
    case False
    then show ?thesis by (intro disjI2 power_increasing) simp_all
  qed
  show ?thesis unfolding e by (rule nearest_of_two [OF k(2,3) d])
qed


section \<open>Where the hider goes wrong\<close>

text \<open>
  An image of 32768 by 32768 pixels: the size of the buffer wraps to zero, and clearing it
  writes outside the memory.
\<close>

theorem huge_image_overruns:
  assumes "mXRes opt = 32768" and "mYRes opt = 32768"
  shows "fst (Hider_WorldBegin mem opt m hr) = Inl no_buffer"
proof -
  have "u_int (32768 * NOUTCOLS * 32768) = 0" by (simp add: u_int_def)
  then show ?thesis using assms
    by (simp add: Hider_WorldBegin_def Buffer2D_Clear_def Buffer2D_Setup_def)
qed

text \<open>
  Drawing the bucket borders: the colour has three floats and every sample copies four, so the
  first sample inside the image reads past the colour.
\<close>

theorem border_colour_overread:
  assumes "buffer_ok NOUTCOLS (mFinalBuff hr)" and "mpBuckets hr = bk # bks"
    and "bucket_in (b2_mWd (mFinalBuff hr)) (b2_mHe (mFinalBuff hr)) bk" and "mDbgShowBuckets (mParams hr)"
  shows "fst (Hider_WorldEnd hr) = Inl no_buffer"
proof -
  let ?b = "mFinalBuff hr"
  have xy: "0 \<le> hb_mX1 bk" "hb_mX1 bk < int (b2_mWd ?b)" "0 \<le> hb_mY1 bk" "hb_mY1 bk < int (b2_mHe ?b)"
    "hb_mX1 bk < hb_mX2 bk" using assms(3) by (auto simp: bucket_in_def)
  then have inb: "in_buffer (hb_mX1 bk) (hb_mY1 bk) ?b"
    using sample_index_ok(2) [OF assms(1), of "nat (hb_mX1 bk)" "nat (hb_mY1 bk)"] by simp
  obtain d where "b2_mpData ?b = Some d" using assms(1) by (auto simp: buffer_ok_def)
  with inb have s: "SetSample NOUTCOLS (hb_mX1 bk) (hb_mY1 bk) [1, 0, 0] ?b = (Inl no_buffer, ?b)"
    by (simp add: SetSample_def Let_def)
  have "[hb_mX1 bk..hb_mX2 bk] = hb_mX1 bk # [hb_mX1 bk + 1..hb_mX2 bk]" using xy(5) by (simp add: upto.simps)
  with s have "DrawHLine NOUTCOLS (hb_mX1 bk) (hb_mY1 bk) (hb_mX2 bk) [1, 0, 0] ?b = (Inl no_buffer, ?b)"
    by (simp add: DrawHLine_def stx_bind_def del: NOUTCOLS_def)
  then have "draw_buckets [1, 0, 0] (mpBuckets hr) ?b = (Inl no_buffer, ?b)"
    by (simp add: assms(2) draw_bucket_def stx_bind_def del: NOUTCOLS_def)
  with assms(4) show ?thesis by (simp add: Hider_WorldEnd_def)
qed

text \<open>
  The sample coordinates are looked up by the size of the bucket alone: once a buffer of that
  size exists, another number of samples per pixel has no effect.
\<close>

theorem sample_buffers_stale:
  assumes "findOrAddSampCoordBuff wd he old bufs = (Some i, bufs')" and "i < length bufs"
    and "\<forall>sc \<in> set bufs. \<not> (sc_IsInitialized sc \<and> sc_mWd sc = wd \<and> sc_mHe sc = he)"
  shows "\<exists>j. findOrAddSampCoordBuff wd he new bufs' = (Some j, bufs') \<and> GetSampsPerPixel (bufs' ! j) = 4 ^ old"
proof -
  let ?P = "\<lambda>sc. sc_IsInitialized sc \<and> sc_mWd sc = wd \<and> sc_mHe sc = he"
  have none: "find_index P xs = None \<longleftrightarrow> (\<forall>x \<in> set xs. \<not> P x)" for P and xs :: "'b list"
    by (induction xs) auto
  have some: "find_index P xs = Some k \<Longrightarrow> P (xs ! k)" for P and xs :: "'b list" and k
    by (induction xs arbitrary: k) (auto split: if_splits)
  from assms(1,3) none [of ?P bufs] have b: "bufs' = bufs[i := SampCoords_Init wd he old]"
    by (auto simp: findOrAddSampCoordBuff_def split: option.splits)
  have "?P (bufs' ! i)" "i < length bufs'" using b assms(2) by (simp_all add: SampCoords_Init_def)
  then obtain j where j: "find_index ?P bufs' = Some j" using none [of ?P bufs'] by (metis nth_mem not_Some_eq)
  have "j = i"
  proof (rule ccontr)
    assume "j \<noteq> i"
    have "j < length bufs'" if "find_index P xs = Some j" "xs = bufs'" for P xs
      using that by (induction xs arbitrary: j bufs') (auto split: if_splits)
    with j have jl: "j < length bufs" using b by auto
    with \<open>j \<noteq> i\<close> b some [OF j] have "?P (bufs ! j)" by simp
    with assms(3) jl show False by auto
  qed
  with j b assms(2) show ?thesis
    by (auto simp: findOrAddSampCoordBuff_def SampCoords_Init_def GetSampsPerPixel_def power_mult)
qed

end
