(* ===== verification/SplitLoop.thy ===== *)
theory SplitLoop
  imports Raster
begin

text \<open>
  From primitives to buckets: the raster bound of a primitive (\<open>makeRasterBound\<close> and
  \<open>RasterEstimate\<close> of \<open>RI_HiderST.cpp\<close>), the decision to cull, dice or split it and the split
  itself (\<open>RI_Primitive_Base.cpp\<close>), and the loop \<open>worldEnd_splitAndAddToBuckets\<close> of
  \<open>RI_Framework.cpp\<close>. The geometry of a primitive stands behind the pure virtual function
  \<open>MakeBound\<close>, which is an argument here; floats are reals.
\<close>

section \<open>The raster bound\<close>

definition MakeCube :: "Bound \<Rightarrow> real Vec3 list" where
  "MakeCube b =
     (let xa = x3 (mBox0 b); ya = y3 (mBox0 b); za = z3 (mBox0 b);
          xb = x3 (mBox1 b); yb = y3 (mBox1 b); zb = z3 (mBox1 b)
      in [Vec3 xa ya za, Vec3 xb ya za, Vec3 xa yb za, Vec3 xb yb za,
          Vec3 xa ya zb, Vec3 xb ya zb, Vec3 xa yb zb, Vec3 xb yb zb])"

text \<open>The clip code of a projected vertex: one bit for each plane it is outside of.\<close>

definition clip_code :: "real Vec4 \<Rightarrow> U32" where
  "clip_code P =
     ((if x4 P < - w4 P then 1 else 0) OR (if w4 P < x4 P then 2 else 0)
      OR (if y4 P < - w4 P then 4 else 0) OR (if w4 P < y4 P then 8 else 0)
      OR (if z4 P < - w4 P then 16 else 0) OR (if w4 P < z4 P then 32 else 0))"

text \<open>Window coordinates of a projected vertex, for an image of twice the given half sizes.\<close>

definition winX :: "real \<Rightarrow> real Vec4 \<Rightarrow> real" where
  "winX destHalfWd P = destHalfWd + destHalfWd * x4 P * (1 / w4 P)"

definition winY :: "real \<Rightarrow> real Vec4 \<Rightarrow> real" where
  "winY destHalfHe P = destHalfHe - destHalfHe * y4 P * (1 / w4 P)"

record raster_acc =
  ra_andCode :: U32
  ra_minX :: real
  ra_minY :: real
  ra_maxX :: real
  ra_maxY :: real

definition raster_init :: raster_acc where
  "raster_init = \<lparr>ra_andCode = 0xff, ra_minX = FLT_MAX, ra_minY = FLT_MAX, ra_maxX = - FLT_MAX, ra_maxY = - FLT_MAX\<rparr>"

text \<open>
  The loop over the eight vertices; \<open>None\<close> is the early return for a vertex that is not in front
  of the camera. The accumulated \<open>orCode\<close> is never read.
\<close>

fun raster_loop :: "real \<Rightarrow> real \<Rightarrow> real Vec4 list \<Rightarrow> raster_acc \<Rightarrow> raster_acc option" where
  "raster_loop hw hh [] a = Some a"
| "raster_loop hw hh (P # Ps) a =
     (if w4 P > 0 then
        raster_loop hw hh Ps
          \<lparr>ra_andCode = ra_andCode a AND clip_code P,
           ra_minX = DMin (ra_minX a) (winX hw P), ra_minY = DMin (ra_minY a) (winY hh P),
           ra_maxX = DMax (ra_maxX a) (winX hw P), ra_maxY = DMax (ra_maxY a) (winY hh P)\<rparr>
      else None)"

text \<open>The result and the output array, \<open>None\<close> where the function leaves it uninitialised.\<close>

definition makeRasterBound ::
  "('a, 'p) Hider \<Rightarrow> Bound \<Rightarrow> Matrix44 \<Rightarrow> bool \<times> (real \<times> real \<times> real \<times> real) option" where
  "makeRasterBound hr b mtxLocalWorld =
     (let destHalfWd = of_int (mXRes (hd_mOptions hr)) * (1 / 2);
          destHalfHe = of_int (mYRes (hd_mOptions hr)) * (1 / 2);
          mtxLocalProj = Matrix44_mul Identity mtxLocalWorld (hd_mMtxWorldProj hr)
      in case raster_loop destHalfWd destHalfHe
                (map (\<lambda>v. V4_V3W1_Mul_M44 v mtxLocalProj) (MakeCube b)) raster_init of
           None \<Rightarrow> (False, None)
         | Some a \<Rightarrow>
             if ra_andCode a \<noteq> 0 then (False, None)
             else (ra_minX a < ra_maxX a \<and> ra_minY a < ra_maxY a,
                   Some (ra_minX a, ra_minY a, ra_maxX a, ra_maxY a)))"

text \<open>
  The estimate and the box in pixels. The box is \<open>None\<close> where it is not written (a bound that is
  not valid) or computed from uninitialised floats.
\<close>

definition RasterEstimate ::
  "('a, 'p) Hider \<Rightarrow> Bound \<Rightarrow> Matrix44 \<Rightarrow> real \<times> (int \<times> int \<times> int \<times> int) option" where
  "RasterEstimate hr b mtxLocalWorld =
     (if \<not> Bound_IsValid b then (of_nat (unat (MP_GRID_MAX_SIZE div 4)), None)
      else case makeRasterBound hr b mtxLocalWorld of
        (valid, None) \<Rightarrow> (0, None)
      | (valid, Some (minX, minY, maxX, maxY)) \<Rightarrow>
          (if valid then (maxY - minY) * (maxX - minX) * 1 else 0,
           Some (\<lfloor>minX\<rfloor>, \<lfloor>minY\<rfloor>, \<lceil>maxX\<rceil>, \<lceil>maxY\<rceil>)))"

section \<open>Splitting primitives\<close>

text \<open>
  A simple primitive: its range of parameters, the split counter and the grid size, the
  attributes and the transformation it points to, and what its class adds (\<open>sp_geom\<close>), which a
  clone shares. The reference count is left out: a clone starts unused and each insertion takes
  one reference.
\<close>

record ('g, 't) SimplePrim =
  sp_mURange0 :: real
  sp_mURange1 :: real
  sp_mVRange0 :: real
  sp_mVRange1 :: real
  sp_mSplitCnt :: nat
  sp_mDiceGridWd :: int
  sp_mDiceGridHe :: int
  sp_mpAttribs :: 't
  sp_mpTransform :: Matrix44
  sp_geom :: 'g

datatype CheckSplitRes = CHECKSPLITRES_CULL | CHECKSPLITRES_DICE | CHECKSPLITRES_SPLIT

type_synonym ('g, 't) prim_hider = "(real, ('g, 't) SimplePrim) Hider"

definition CheckForSplit ::
  "(('g, 't) SimplePrim \<Rightarrow> Bound) \<Rightarrow> ('g, 't) prim_hider \<Rightarrow> ('g, 't) SimplePrim
     \<Rightarrow> CheckSplitRes \<times> (int \<times> int \<times> int \<times> int) option \<times> ('g, 't) SimplePrim" where
  "CheckForSplit MakeBound hr p =
     (let (pixelArea, box) = RasterEstimate hr (MakeBound p) (sp_mpTransform p) in
      if pixelArea \<le> of_nat (unat MP_GRID_MAX_SIZE) then
        if pixelArea < RI_EPSILON then (CHECKSPLITRES_CULL, box, p)
        else
          let dim = sqrt pixelArea in
          (CHECKSPLITRES_DICE, box,
           p\<lparr>sp_mDiceGridWd := uint (DMT_SIMD_PADSIZE (of_int \<lceil>dim\<rceil>)), sp_mDiceGridHe := \<lceil>dim\<rceil>\<rparr>)
      else (CHECKSPLITRES_SPLIT, box, p))"

definition InsertSplitted ::
  "('g, 't) SimplePrim \<Rightarrow> ('g, 't) SimplePrim \<Rightarrow> ('g, 't) SimplePrim" where
  "InsertSplitted pDesPrim srcPrim =
     pDesPrim\<lparr>sp_mpAttribs := sp_mpAttribs srcPrim, sp_mpTransform := sp_mpTransform srcPrim,
              sp_mSplitCnt := sp_mSplitCnt pDesPrim + 1\<rparr>"

text \<open>
  The primitives \<open>Split\<close> adds to the hider, in that order. The first two are inserted before their
  V range is halved; their second halves are cloned after the insertion, so the counter of a
  second half has been raised twice.
\<close>

definition Split :: "bool \<Rightarrow> bool \<Rightarrow> ('g, 't) SimplePrim \<Rightarrow> ('g, 't) SimplePrim list" where
  "Split uSplit vSplit p =
     (let uMid = (sp_mURange0 p + sp_mURange1 p) * (1 / 2);
          vMid = (sp_mVRange0 p + sp_mVRange1 p) * (1 / 2)
      in if sp_mSplitCnt p > 9 then []
         else if uSplit then
           let a = InsertSplitted (p\<lparr>sp_mURange1 := uMid\<rparr>) p;
               b = InsertSplitted (p\<lparr>sp_mURange0 := uMid\<rparr>) p
           in if vSplit then
                [a\<lparr>sp_mVRange1 := vMid\<rparr>, b\<lparr>sp_mVRange1 := vMid\<rparr>,
                 InsertSplitted (a\<lparr>sp_mVRange0 := vMid\<rparr>) a, InsertSplitted (b\<lparr>sp_mVRange0 := vMid\<rparr>) b]
              else [a, b]
         else if vSplit then
           [InsertSplitted (p\<lparr>sp_mVRange1 := vMid\<rparr>) p, InsertSplitted (p\<lparr>sp_mVRange0 := vMid\<rparr>) p]
         else [])"

text \<open>
  The loop of \<open>worldEnd_splitAndAddToBuckets\<close> over the list of primitives, which grows at its end
  while it runs; \<open>CheckForSplit\<close> asks for a split in both directions. A box that was never
  written must not be used.
\<close>

definition split_weight :: "('g, 't) SimplePrim option \<Rightarrow> nat" where
  "split_weight q = (case q of None \<Rightarrow> 1 | Some p \<Rightarrow> 5 ^ (10 - sp_mSplitCnt p))"

lemma split_weight_pos: "0 < split_weight q"
  by (simp add: split_weight_def split: option.splits)

lemma Split_counts:
  "q \<in> set (Split True True p) \<Longrightarrow> sp_mSplitCnt p \<le> 9 \<and> sp_mSplitCnt p < sp_mSplitCnt q"
  by (auto simp: Split_def Let_def InsertSplitted_def split: if_splits)

lemma Split_weight:
  "sum_list (map (split_weight \<circ> Some) (Split True True p)) < split_weight (Some p)"
proof (cases "sp_mSplitCnt p > 9")
  case True
  then show ?thesis by (simp add: Split_def split_weight_pos)
next
  case False
  let ?n = "9 - sp_mSplitCnt p"
  have e: "10 - sp_mSplitCnt p = Suc ?n" using False by simp
  have le: "split_weight (Some q) \<le> 5 ^ ?n" if "q \<in> set (Split True True p)" for q
  proof -
    have "10 - sp_mSplitCnt q \<le> ?n" using Split_counts [OF that] by linarith
    then show ?thesis unfolding split_weight_def option.case by (intro power_increasing) simp_all
  qed
  have "sum_list (map (split_weight \<circ> Some) (Split True True p)) \<le> length (Split True True p) * 5 ^ ?n"
    using sum_list_mono [of "Split True True p" "split_weight \<circ> Some" "\<lambda>_. 5 ^ ?n"] le
    by (simp add: sum_list_triv comp_def)
  also have "\<dots> = 4 * 5 ^ ?n" using False by (simp add: Split_def Let_def)
  also have "\<dots> < 5 ^ Suc ?n" by simp
  finally show ?thesis by (simp only: split_weight_def option.case e)
qed

function split_loop ::
  "(('g, 't) SimplePrim \<Rightarrow> Bound) \<Rightarrow> ('g, 't) SimplePrim option list \<Rightarrow> ('g, 't) prim_hider
     \<Rightarrow> unit res \<times> ('g, 't) prim_hider" where
  "split_loop MakeBound [] hr = (Inr (), hr)"
| "split_loop MakeBound (None # ps) hr = split_loop MakeBound ps hr"
| "split_loop MakeBound (Some p # ps) hr =
     (case CheckForSplit MakeBound hr p of
        (CHECKSPLITRES_CULL, _, _) \<Rightarrow> split_loop MakeBound ps hr
      | (CHECKSPLITRES_DICE, None, _) \<Rightarrow> (Inl (Undefined_behaviour ''uninitialised bound''), hr)
      | (CHECKSPLITRES_DICE, Some box, p') \<Rightarrow> split_loop MakeBound ps (InsertForDicing p' box hr)
      | (CHECKSPLITRES_SPLIT, _, _) \<Rightarrow> split_loop MakeBound (ps @ map Some (Split True True p)) hr)"
  by pat_completeness auto
termination
  by (relation "measure (\<lambda>(_, ps, _). sum_list (map split_weight ps))")
     (use Split_weight split_weight_pos in \<open>auto simp: comp_def\<close>)

definition worldEnd_splitAndAddToBuckets ::
  "(('g, 't) SimplePrim \<Rightarrow> Bound) \<Rightarrow> ('g, 't) prim_hider \<Rightarrow> unit res \<times> ('g, 't) prim_hider" where
  "worldEnd_splitAndAddToBuckets MakeBound hr =
     (case split_loop MakeBound (hd_mpPrims hr) hr of
        (Inl e, hr') \<Rightarrow> (Inl e, hr')
      | (Inr _, hr') \<Rightarrow> (Inr (), hr'\<lparr>hd_mpPrims := []\<rparr>))"

end
