(* ===== verification/SplitProps.thy ===== *)
theory SplitProps
  imports SplitLoop
begin

text \<open>
  Properties of the way from primitives to buckets: the raster bound contains the projection of
  everything inside the bound, splitting loses no part of a primitive's parameter range, and the
  loop hands every diced piece to every bucket it may touch.
\<close>

section \<open>Bounds in projected space\<close>

definition in_box :: "real Vec3 \<Rightarrow> Bound \<Rightarrow> bool" where
  "in_box q b \<longleftrightarrow> x3 (mBox0 b) \<le> x3 q \<and> x3 q \<le> x3 (mBox1 b) \<and> y3 (mBox0 b) \<le> y3 q \<and> y3 q \<le> y3 (mBox1 b)
     \<and> z3 (mBox0 b) \<le> z3 q \<and> z3 q \<le> z3 (mBox1 b)"

text \<open>An affine function on a box is bounded by its values at the corners.\<close>

lemma end_above:
  fixes k :: real
  assumes "a \<le> x" and "x \<le> b"
  shows "\<exists>c \<in> {a, b}. k * x \<le> k * c"
proof (cases "0 \<le> k")
  case True
  then show ?thesis using assms by (auto intro: mult_left_mono)
next
  case False
  then show ?thesis using assms by (auto intro: mult_left_mono_neg)
qed

lemma affine_corner:
  assumes "in_box q b"
  shows "\<exists>c \<in> set (MakeCube b). i * x3 q + j * y3 q + k * z3 q \<le> i * x3 c + j * y3 c + k * z3 c"
proof -
  let ?xs = "{x3 (mBox0 b), x3 (mBox1 b)}" and ?ys = "{y3 (mBox0 b), y3 (mBox1 b)}" and ?zs = "{z3 (mBox0 b), z3 (mBox1 b)}"
  obtain x where x: "x \<in> ?xs" "i * x3 q \<le> i * x" using end_above assms unfolding in_box_def by meson
  obtain y where y: "y \<in> ?ys" "j * y3 q \<le> j * y" using end_above assms unfolding in_box_def by meson
  obtain z where z: "z \<in> ?zs" "k * z3 q \<le> k * z" using end_above assms unfolding in_box_def by meson
  have "Vec3 x y z \<in> set (MakeCube b)" using x(1) y(1) z(1) by (auto simp: MakeCube_def Let_def)
  moreover have "i * x3 q + j * y3 q + k * z3 q \<le> i * x3 (Vec3 x y z) + j * y3 (Vec3 x y z) + k * z3 (Vec3 x y z)"
    using x(2) y(2) z(2) by simp
  ultimately show ?thesis by blast
qed

text \<open>Hence a linear condition on the projected corners holds for the projection of the box.\<close>

lemma projected_corner:
  assumes "in_box q b"
  shows "\<exists>c \<in> set (MakeCube b). let P = V4_V3W1_Mul_M44 q m; C = V4_V3W1_Mul_M44 c m in
    e * x4 P + f * y4 P + g * z4 P + h * w4 P \<le> e * x4 C + f * y4 C + g * z4 C + h * w4 C"
proof -
  let ?k = "\<lambda>r. e * mij m r 0 + f * mij m r 1 + g * mij m r 2 + h * mij m r 3"
  obtain c where "c \<in> set (MakeCube b)"
    and "?k 0 * x3 q + ?k 1 * y3 q + ?k 2 * z3 q \<le> ?k 0 * x3 c + ?k 1 * y3 c + ?k 2 * z3 c"
    using affine_corner [OF assms] by blast
  then show ?thesis by (intro bexI [of _ c]) (simp_all add: V4_V3W1_Mul_M44_def Let_def algebra_simps)
qed

lemma raster_loop_bounds:
  "raster_loop hw hh Ps a = Some r \<Longrightarrow>
     ra_minX r \<le> ra_minX a \<and> ra_minY r \<le> ra_minY a \<and> ra_maxX a \<le> ra_maxX r \<and> ra_maxY a \<le> ra_maxY r
     \<and> (\<forall>k. bit (ra_andCode r) k \<longrightarrow> bit (ra_andCode a) k)
     \<and> (\<forall>P \<in> set Ps. 0 < w4 P \<and> ra_minX r \<le> winX hw P \<and> winX hw P \<le> ra_maxX r
          \<and> ra_minY r \<le> winY hh P \<and> winY hh P \<le> ra_maxY r \<and> (\<forall>k. bit (ra_andCode r) k \<longrightarrow> bit (clip_code P) k))"
proof (induction Ps arbitrary: a)
  case Nil
  then show ?case by simp
next
  case (Cons P Ps)
  from Cons.prems have w: "0 < w4 P" by (simp split: if_splits)
  from Cons.IH [of "\<lparr>ra_andCode = ra_andCode a AND clip_code P,
           ra_minX = DMin (ra_minX a) (winX hw P), ra_minY = DMin (ra_minY a) (winY hh P),
           ra_maxX = DMax (ra_maxX a) (winX hw P), ra_maxY = DMax (ra_maxY a) (winY hh P)\<rparr>"] Cons.prems w
  have ih: "ra_minX r \<le> DMin (ra_minX a) (winX hw P)" "ra_minY r \<le> DMin (ra_minY a) (winY hh P)"
    "DMax (ra_maxX a) (winX hw P) \<le> ra_maxX r" "DMax (ra_maxY a) (winY hh P) \<le> ra_maxY r"
    "\<forall>k. bit (ra_andCode r) k \<longrightarrow> bit (ra_andCode a) k \<and> bit (clip_code P) k"
    and rest: "\<forall>P \<in> set Ps. 0 < w4 P \<and> ra_minX r \<le> winX hw P \<and> winX hw P \<le> ra_maxX r
          \<and> ra_minY r \<le> winY hh P \<and> winY hh P \<le> ra_maxY r \<and> (\<forall>k. bit (ra_andCode r) k \<longrightarrow> bit (clip_code P) k)"
    by (auto simp: bit_and_iff)
  have "DMin u v \<le> u" "DMin u v \<le> v" "u \<le> DMax u v" "v \<le> DMax u v" for u v :: real
    by (simp_all add: DMin_def DMax_def)
  with ih w rest show ?case by (auto intro: order_trans)
qed

lemma window_bounds:
  fixes hw :: real
  assumes "0 < w4 P"
  shows "l \<le> winX hw P \<longleftrightarrow> (l - hw) * w4 P - hw * x4 P \<le> 0" "winX hw P \<le> l \<longleftrightarrow> (hw - l) * w4 P + hw * x4 P \<le> 0"
    "l \<le> winY hw P \<longleftrightarrow> (l - hw) * w4 P + hw * y4 P \<le> 0" "winY hw P \<le> l \<longleftrightarrow> (hw - l) * w4 P - hw * y4 P \<le> 0"
proof -
  have e: "winX hw P * w4 P = hw * w4 P + hw * x4 P" "winY hw P * w4 P = hw * w4 P - hw * y4 P"
    using assms by (simp_all add: winX_def winY_def field_simps)
  have "l \<le> s \<longleftrightarrow> l * w4 P \<le> s * w4 P" "s \<le> l \<longleftrightarrow> s * w4 P \<le> l * w4 P" for s
    using assms by (simp_all add: mult_le_cancel_right)
  with e show "l \<le> winX hw P \<longleftrightarrow> (l - hw) * w4 P - hw * x4 P \<le> 0" "winX hw P \<le> l \<longleftrightarrow> (hw - l) * w4 P + hw * x4 P \<le> 0"
    "l \<le> winY hw P \<longleftrightarrow> (l - hw) * w4 P + hw * y4 P \<le> 0" "winY hw P \<le> l \<longleftrightarrow> (hw - l) * w4 P - hw * y4 P \<le> 0"
    by (simp_all only: e) (simp_all add: algebra_simps)
qed


lemma bit_if: "bit (if c then n else (0 :: U32)) k \<longleftrightarrow> c \<and> bit n k"
  by simp

lemma bit_power: "j < 32 \<Longrightarrow> bit (2 ^ j :: U32) k \<longleftrightarrow> k = j"
  by (auto simp: bit_exp_iff)

lemma bit_powers:
  "bit (1 :: U32) k \<longleftrightarrow> k = 0" "bit (2 :: U32) k \<longleftrightarrow> k = 1" "bit (4 :: U32) k \<longleftrightarrow> k = 2"
  "bit (8 :: U32) k \<longleftrightarrow> k = 3" "bit (16 :: U32) k \<longleftrightarrow> k = 4" "bit (32 :: U32) k \<longleftrightarrow> k = 5"
  using bit_power [of 0 k] bit_power [of 1 k] bit_power [of 2 k] bit_power [of 3 k] bit_power [of 4 k] bit_power [of 5 k]
  by simp_all

lemma bit_clip_code:
  "bit (clip_code P) k \<longleftrightarrow> k = 0 \<and> x4 P < - w4 P \<or> k = 1 \<and> w4 P < x4 P \<or> k = 2 \<and> y4 P < - w4 P
     \<or> k = 3 \<and> w4 P < y4 P \<or> k = 4 \<and> z4 P < - w4 P \<or> k = 5 \<and> w4 P < z4 P"
  unfolding clip_code_def bit_or_iff bit_if bit_powers by blast

definition to_clip :: "('a, 'p) Hider \<Rightarrow> Matrix44 \<Rightarrow> real Vec3 \<Rightarrow> real Vec4" where
  "to_clip hr mtxLocalWorld q =
     V4_V3W1_Mul_M44 q (Matrix44_mul Identity mtxLocalWorld (hd_mMtxWorldProj hr))"

definition half_wd :: "('a, 'p) Hider \<Rightarrow> real" where
  "half_wd hr = of_int (mXRes (hd_mOptions hr)) * (1 / 2)"

definition half_he :: "('a, 'p) Hider \<Rightarrow> real" where
  "half_he hr = of_int (mYRes (hd_mOptions hr)) * (1 / 2)"

lemma makeRasterBound_loop:
  "makeRasterBound hr b m =
     (case raster_loop (half_wd hr) (half_he hr) (map (to_clip hr m) (MakeCube b)) raster_init of
        None \<Rightarrow> (False, None)
      | Some a \<Rightarrow> if ra_andCode a \<noteq> 0 then (False, None)
                 else (ra_minX a < ra_maxX a \<and> ra_minY a < ra_maxY a, Some (ra_minX a, ra_minY a, ra_maxX a, ra_maxY a)))"
  unfolding makeRasterBound_def Let_def half_wd_def half_he_def to_clip_def ..

lemma clip_corner:
  assumes "in_box q b"
  shows "\<exists>C \<in> set (map (to_clip hr m) (MakeCube b)).
    e * x4 (to_clip hr m q) + f * y4 (to_clip hr m q) + g * z4 (to_clip hr m q) + h * w4 (to_clip hr m q)
      \<le> e * x4 C + f * y4 C + g * z4 C + h * w4 C"
proof -
  let ?m = "Matrix44_mul Identity m (hd_mMtxWorldProj hr)"
  from projected_corner [OF assms, where m = ?m and e = e and f = f and g = g and h = h]
  obtain c where c: "c \<in> set (MakeCube b)"
    and le: "e * x4 (to_clip hr m q) + f * y4 (to_clip hr m q) + g * z4 (to_clip hr m q) + h * w4 (to_clip hr m q)
      \<le> e * x4 (to_clip hr m c) + f * y4 (to_clip hr m c) + g * z4 (to_clip hr m c) + h * w4 (to_clip hr m c)"
    unfolding to_clip_def Let_def by blast
  have "to_clip hr m c \<in> set (map (to_clip hr m) (MakeCube b))" using c by simp
  with le show ?thesis by blast
qed

lemma clip_corner_le:
  assumes "in_box q b" and "\<forall>C \<in> set (map (to_clip hr m) (MakeCube b)). e * x4 C + f * y4 C + g * z4 C + h * w4 C \<le> 0"
  shows "e * x4 (to_clip hr m q) + f * y4 (to_clip hr m q) + g * z4 (to_clip hr m q) + h * w4 (to_clip hr m q) \<le> 0"
  using clip_corner [OF assms(1), of hr m e f g h] assms(2) order_trans by blast

lemma clip_corner_strict:
  assumes "in_box q b" and "\<forall>C \<in> set (map (to_clip hr m) (MakeCube b)). e * x4 C + f * y4 C + g * z4 C + h * w4 C < 0"
  shows "e * x4 (to_clip hr m q) + f * y4 (to_clip hr m q) + g * z4 (to_clip hr m q) + h * w4 (to_clip hr m q) < 0"
  using clip_corner [OF assms(1), of hr m e f g h] assms(2) le_less_trans by blast

lemma corners_in_front:
  assumes "raster_loop hw hh (map (to_clip hr m) (MakeCube b)) a = Some r" and "in_box q b"
  shows "0 < w4 (to_clip hr m q)"
  using clip_corner_strict [OF assms(2), where e = 0 and f = 0 and g = 0 and h = "- 1"]
    raster_loop_bounds [OF assms(1)] by force

lemma makeRasterBound_contains:
  assumes "makeRasterBound hr b m = (valid, Some (minX, minY, maxX, maxY))" and "in_box q b"
  shows "0 < w4 (to_clip hr m q)"
    "minX \<le> winX (half_wd hr) (to_clip hr m q)" "winX (half_wd hr) (to_clip hr m q) \<le> maxX"
    "minY \<le> winY (half_he hr) (to_clip hr m q)" "winY (half_he hr) (to_clip hr m q) \<le> maxY"
proof -
  let ?Cs = "set (map (to_clip hr m) (MakeCube b))" and ?P = "to_clip hr m q"
  obtain r where l: "raster_loop (half_wd hr) (half_he hr) (map (to_clip hr m) (MakeCube b)) raster_init = Some r"
    and r: "minX = ra_minX r" "minY = ra_minY r" "maxX = ra_maxX r" "maxY = ra_maxY r"
    using assms(1) by (auto simp: makeRasterBound_loop split: option.splits if_splits)
  show w: "0 < w4 ?P" by (rule corners_in_front [OF l assms(2)])
  note c = raster_loop_bounds [OF l, THEN conjunct2, THEN conjunct2, THEN conjunct2, THEN conjunct2, THEN conjunct2]
  have lx: "\<forall>C \<in> ?Cs. (- half_wd hr) * x4 C + 0 * y4 C + 0 * z4 C + (minX - half_wd hr) * w4 C \<le> 0"
    using c r(1) window_bounds(1) [where hw = "half_wd hr" and l = minX] by fastforce
  have ux: "\<forall>C \<in> ?Cs. half_wd hr * x4 C + 0 * y4 C + 0 * z4 C + (half_wd hr - maxX) * w4 C \<le> 0"
    using c r(3) window_bounds(2) [where hw = "half_wd hr" and l = maxX] by fastforce
  have ly: "\<forall>C \<in> ?Cs. 0 * x4 C + half_he hr * y4 C + 0 * z4 C + (minY - half_he hr) * w4 C \<le> 0"
    using c r(2) window_bounds(3) [where hw = "half_he hr" and l = minY] by fastforce
  have uy: "\<forall>C \<in> ?Cs. 0 * x4 C + (- half_he hr) * y4 C + 0 * z4 C + (half_he hr - maxY) * w4 C \<le> 0"
    using c r(4) window_bounds(4) [where hw = "half_he hr" and l = maxY] by fastforce
  show "minX \<le> winX (half_wd hr) ?P" "winX (half_wd hr) ?P \<le> maxX" "minY \<le> winY (half_he hr) ?P" "winY (half_he hr) ?P \<le> maxY"
    using clip_corner_le [OF assms(2) lx] clip_corner_le [OF assms(2) ux] clip_corner_le [OF assms(2) ly] clip_corner_le [OF assms(2) uy]
    unfolding window_bounds [OF w] by simp_all
qed

text \<open>The point of the view volume: inside all six planes.\<close>

definition in_view :: "real Vec4 \<Rightarrow> bool" where
  "in_view P \<longleftrightarrow> - w4 P \<le> x4 P \<and> x4 P \<le> w4 P \<and> - w4 P \<le> y4 P \<and> y4 P \<le> w4 P \<and> - w4 P \<le> z4 P \<and> z4 P \<le> w4 P"

lemma culled_out_of_view:
  assumes "raster_loop hw hh (map (to_clip hr m) (MakeCube b)) a = Some r" and "ra_andCode r \<noteq> 0" and "in_box q b"
  shows "\<not> in_view (to_clip hr m q)"
proof -
  let ?Cs = "set (map (to_clip hr m) (MakeCube b))" and ?P = "to_clip hr m q"
  note c = raster_loop_bounds [OF assms(1), THEN conjunct2, THEN conjunct2, THEN conjunct2, THEN conjunct2, THEN conjunct2]
  from assms(2) obtain k where k: "bit (ra_andCode r) k" by (auto simp: bit_eq_iff)
  then have b: "\<forall>C \<in> ?Cs. bit (clip_code C) k" using c by blast
  note s = clip_corner_strict [OF assms(3), of hr m]
  have "(\<forall>C \<in> ?Cs. x4 C < - w4 C) \<or> (\<forall>C \<in> ?Cs. w4 C < x4 C) \<or> (\<forall>C \<in> ?Cs. y4 C < - w4 C)
      \<or> (\<forall>C \<in> ?Cs. w4 C < y4 C) \<or> (\<forall>C \<in> ?Cs. z4 C < - w4 C) \<or> (\<forall>C \<in> ?Cs. w4 C < z4 C)"
  proof -
    have "k \<in> {0, 1, 2, 3, 4, 5}" using b unfolding bit_clip_code by (auto simp: MakeCube_def Let_def)
    then show ?thesis using b unfolding bit_clip_code by auto
  qed
  then show ?thesis
  proof (elim disjE)
    assume "\<forall>C \<in> ?Cs. x4 C < - w4 C"
    then have "\<forall>C \<in> ?Cs. 1 * x4 C + 0 * y4 C + 0 * z4 C + 1 * w4 C < 0" by fastforce
    from s [OF this] show ?thesis by (simp add: in_view_def)
  next
    assume "\<forall>C \<in> ?Cs. w4 C < x4 C"
    then have "\<forall>C \<in> ?Cs. (- 1) * x4 C + 0 * y4 C + 0 * z4 C + 1 * w4 C < 0" by fastforce
    from s [OF this] show ?thesis by (simp add: in_view_def)
  next
    assume "\<forall>C \<in> ?Cs. y4 C < - w4 C"
    then have "\<forall>C \<in> ?Cs. 0 * x4 C + 1 * y4 C + 0 * z4 C + 1 * w4 C < 0" by fastforce
    from s [OF this] show ?thesis by (simp add: in_view_def)
  next
    assume "\<forall>C \<in> ?Cs. w4 C < y4 C"
    then have "\<forall>C \<in> ?Cs. 0 * x4 C + (- 1) * y4 C + 0 * z4 C + 1 * w4 C < 0" by fastforce
    from s [OF this] show ?thesis by (simp add: in_view_def)
  next
    assume "\<forall>C \<in> ?Cs. z4 C < - w4 C"
    then have "\<forall>C \<in> ?Cs. 0 * x4 C + 0 * y4 C + 1 * z4 C + 1 * w4 C < 0" by fastforce
    from s [OF this] show ?thesis by (simp add: in_view_def)
  next
    assume "\<forall>C \<in> ?Cs. w4 C < z4 C"
    then have "\<forall>C \<in> ?Cs. 0 * x4 C + 0 * y4 C + (- 1) * z4 C + 1 * w4 C < 0" by fastforce
    from s [OF this] show ?thesis by (simp add: in_view_def)
  qed
qed


section \<open>What becomes of a primitive\<close>

text \<open>
  The pieces a primitive ends in: culled, diced with the box that is used for its buckets, or
  given up because it has been split too often. This is the reference the loop is compared with.
\<close>

datatype fate = Culled | Diced "(int \<times> int \<times> int \<times> int) option" | Dropped

function fates ::
  "(('g, 't) SimplePrim \<Rightarrow> Bound) \<Rightarrow> ('g, 't) prim_hider \<Rightarrow> ('g, 't) SimplePrim
     \<Rightarrow> (('g, 't) SimplePrim \<times> fate) list" where
  "fates MakeBound hr p =
     (case CheckForSplit MakeBound hr p of
        (CHECKSPLITRES_CULL, _, _) \<Rightarrow> [(p, Culled)]
      | (CHECKSPLITRES_DICE, box, p') \<Rightarrow> [(p', Diced box)]
      | (CHECKSPLITRES_SPLIT, _, _) \<Rightarrow>
          if sp_mSplitCnt p > 9 then [(p, Dropped)]
          else concat (map (fates MakeBound hr) (Split True True p)))"
  by pat_completeness auto
termination
  by (relation "measure (\<lambda>(_, _, p). 10 - sp_mSplitCnt p)") (auto dest!: Split_counts)

declare fates.simps [simp del]

definition in_range :: "real \<Rightarrow> real \<Rightarrow> ('g, 't) SimplePrim \<Rightarrow> bool" where
  "in_range u v p \<longleftrightarrow> sp_mURange0 p \<le> u \<and> u \<le> sp_mURange1 p \<and> sp_mVRange0 p \<le> v \<and> v \<le> sp_mVRange1 p"

definition uv_area :: "('g, 't) SimplePrim \<Rightarrow> real" where
  "uv_area p = (sp_mURange1 p - sp_mURange0 p) * (sp_mVRange1 p - sp_mVRange0 p)"

definition same_surface :: "('g, 't) SimplePrim \<Rightarrow> ('g, 't) SimplePrim \<Rightarrow> bool" where
  "same_surface q p \<longleftrightarrow> sp_geom q = sp_geom p \<and> sp_mpTransform q = sp_mpTransform p \<and> sp_mpAttribs q = sp_mpAttribs p"

lemma CheckForSplit_prim:
  assumes "CheckForSplit MakeBound hr p = (c, box, p')"
  shows "same_surface p' p" "in_range u v p' = in_range u v p" "uv_area p' = uv_area p"
  using assms by (auto simp: CheckForSplit_def Let_def same_surface_def in_range_def uv_area_def split: prod.splits if_splits)

lemma Split_cover:
  assumes "in_range u v p" and "sp_mSplitCnt p \<le> 9"
  shows "\<exists>q \<in> set (Split True True p). in_range u v q \<and> same_surface q p"
proof -
  let ?um = "(sp_mURange0 p + sp_mURange1 p) * (1 / 2)" and ?vm = "(sp_mVRange0 p + sp_mVRange1 p) * (1 / 2)"
  show ?thesis
    using assms
    by (cases "u \<le> ?um"; cases "v \<le> ?vm")
       (auto simp: Split_def Let_def InsertSplitted_def in_range_def same_surface_def)
qed

lemma Split_surface: "q \<in> set (Split True True p) \<Longrightarrow> same_surface q p"
  by (auto simp: Split_def Let_def InsertSplitted_def same_surface_def split: if_splits)

lemma Split_area:
  "sp_mSplitCnt p \<le> 9 \<Longrightarrow> sum_list (map uv_area (Split True True p)) = uv_area p"
  by (simp add: Split_def Let_def InsertSplitted_def uv_area_def) (simp add: field_simps)

lemma fates_cover:
  "in_range u v p \<Longrightarrow> \<exists>(q, f) \<in> set (fates MakeBound hr p). in_range u v q \<and> same_surface q p"
proof (induction MakeBound hr p rule: fates.induct)
  case (1 MakeBound hr p)
  obtain c box p' where chk: "CheckForSplit MakeBound hr p = (c, box, p')" using prod_cases3 by blast
  note keep = CheckForSplit_prim [OF chk]
  show ?case
  proof (cases "c = CHECKSPLITRES_SPLIT \<and> sp_mSplitCnt p \<le> 9")
    case True
    then obtain q where q: "q \<in> set (Split True True p)" "in_range u v q" "same_surface q p"
      using Split_cover [OF "1.prems"] by blast
    have "\<exists>(r, f) \<in> set (fates MakeBound hr q). in_range u v r \<and> same_surface r q"
      using "1.IH" [of c "(box, p')" box p' q] chk True q(1,2) by auto
    then obtain r f where "(r, f) \<in> set (fates MakeBound hr q)" "in_range u v r" "same_surface r q" by blast
    then have "(r, f) \<in> set (fates MakeBound hr p)" "in_range u v r" "same_surface r p"
      using chk True q by (auto simp: fates.simps [of MakeBound hr p] same_surface_def)
    then show ?thesis by blast
  next
    case False
    then show ?thesis using chk keep "1.prems"
      by (subst fates.simps) (cases c; auto simp: same_surface_def)
  qed
qed

lemma fates_area: "sum_list (map (\<lambda>x. uv_area (fst x)) (fates MakeBound hr p)) = uv_area p"
proof (induction MakeBound hr p rule: fates.induct)
  case (1 MakeBound hr p)
  obtain c box p' where chk: "CheckForSplit MakeBound hr p = (c, box, p')" using prod_cases3 by blast
  note keep = CheckForSplit_prim [OF chk]
  show ?case
  proof (cases "c = CHECKSPLITRES_SPLIT \<and> sp_mSplitCnt p \<le> 9")
    case True
    have ih: "sum_list (map (\<lambda>x. uv_area (fst x)) (fates MakeBound hr q)) = uv_area q" if "q \<in> set (Split True True p)" for q
      using "1.IH" [of c "(box, p')" box p' q] chk True that by auto
    have "sum_list (map (\<lambda>x. uv_area (fst x)) (concat (map (fates MakeBound hr) qs))) = sum_list (map uv_area qs)"
      if "set qs \<subseteq> set (Split True True p)" for qs
      using that by (induction qs) (simp_all add: ih)
    with chk True Split_area [of p] show ?thesis by (subst fates.simps) simp
  next
    case False
    then show ?thesis using chk keep by (subst fates.simps) (cases c; auto)
  qed
qed

text \<open>The estimate depends on the options and the projection only, which dicing leaves alone.\<close>

lemma CheckForSplit_cong:
  "hd_mOptions hr' = hd_mOptions hr \<Longrightarrow> hd_mMtxWorldProj hr' = hd_mMtxWorldProj hr \<Longrightarrow>
     CheckForSplit MakeBound hr' p = CheckForSplit MakeBound hr p"
  by (simp add: CheckForSplit_def RasterEstimate_def makeRasterBound_def)

lemma fates_cong:
  "hd_mOptions hr' = hd_mOptions hr \<Longrightarrow> hd_mMtxWorldProj hr' = hd_mMtxWorldProj hr \<Longrightarrow>
     fates MakeBound hr' p = fates MakeBound hr p"
proof (induction MakeBound hr p rule: fates.induct)
  case (1 MakeBound hr p)
  obtain c box p' where chk: "CheckForSplit MakeBound hr p = (c, box, p')" using prod_cases3 by blast
  have chk': "CheckForSplit MakeBound hr' p = (c, box, p')" using CheckForSplit_cong [OF "1.prems"] chk by simp
  have "map (fates MakeBound hr') (Split True True p) = map (fates MakeBound hr) (Split True True p)"
    if "c = CHECKSPLITRES_SPLIT" "\<not> sp_mSplitCnt p > 9"
    using "1.IH" [of c "(box, p')" box p'] chk that "1.prems" by (auto intro!: map_cong)
  then show ?case
    unfolding fates.simps [of MakeBound hr' p] fates.simps [of MakeBound hr p] chk chk'
    by (cases c) (simp_all cong: map_cong)
qed

definition diced :: "(('g, 't) SimplePrim \<times> fate) list \<Rightarrow> (real, ('g, 't) SimplePrim) HiderBucket
     \<Rightarrow> ('g, 't) SimplePrim set" where
  "diced fs bk = {q. \<exists>minX minY maxX maxY. (q, Diced (Some (minX, minY, maxX, maxY))) \<in> set fs
     \<and> Intersects minX minY maxX maxY bk}"

definition all_fates ::
  "(('g, 't) SimplePrim \<Rightarrow> Bound) \<Rightarrow> ('g, 't) prim_hider \<Rightarrow> ('g, 't) SimplePrim option list
     \<Rightarrow> (('g, 't) SimplePrim \<times> fate) list" where
  "all_fates MakeBound hr ps = concat (map (\<lambda>o'. case o' of None \<Rightarrow> [] | Some p \<Rightarrow> fates MakeBound hr p) ps)"

lemma all_fates_simps [simp]:
  "all_fates MakeBound hr [] = []"
  "all_fates MakeBound hr (None # ps) = all_fates MakeBound hr ps"
  "all_fates MakeBound hr (Some p # ps) = fates MakeBound hr p @ all_fates MakeBound hr ps"
  "all_fates MakeBound hr (ps @ qs) = all_fates MakeBound hr ps @ all_fates MakeBound hr qs"
  "all_fates MakeBound hr (map Some rs) = concat (map (fates MakeBound hr) rs)"
  by (simp_all add: all_fates_def comp_def)

lemma InsertForDicing_view [simp]:
  "hd_mOptions (InsertForDicing p box hr) = hd_mOptions hr"
  "hd_mMtxWorldProj (InsertForDicing p box hr) = hd_mMtxWorldProj hr"
  "length (mpBuckets (InsertForDicing p box hr)) = length (mpBuckets hr)"
  by (simp_all add: InsertForDicing_def split: prod.splits)

lemma all_fates_dicing [simp]:
  "all_fates MakeBound (InsertForDicing p box hr) ps = all_fates MakeBound hr ps"
proof -
  have "fates MakeBound (InsertForDicing p box hr) = fates MakeBound hr"
    by (rule ext, rule fates_cong) simp_all
  then show ?thesis by (simp only: all_fates_def)
qed

lemma InsertForDicing_bucket:
  assumes "i < length (mpBuckets hr)"
  shows "set (hb_mpPrims (mpBuckets (InsertForDicing p (a, b, c, d) hr) ! i))
      = set (hb_mpPrims (mpBuckets hr ! i)) \<union> (if Intersects a b c d (mpBuckets hr ! i) then {p} else {})"
    and "rect (mpBuckets (InsertForDicing p (a, b, c, d) hr) ! i) = rect (mpBuckets hr ! i)"
proof -
  let ?bk = "mpBuckets hr ! i"
  have "mpBuckets (InsertForDicing p (a, b, c, d) hr) ! i
      = (if Intersects a b c d ?bk then ?bk\<lparr>hb_mpPrims := hb_mpPrims ?bk @ [p]\<rparr> else ?bk)"
    using assms by (simp add: InsertForDicing_def)
  then show "set (hb_mpPrims (mpBuckets (InsertForDicing p (a, b, c, d) hr) ! i))
      = set (hb_mpPrims ?bk) \<union> (if Intersects a b c d ?bk then {p} else {})"
    and "rect (mpBuckets (InsertForDicing p (a, b, c, d) hr) ! i) = rect ?bk"
    by (simp_all add: rect_def)
qed

lemma diced_rect: "rect bk' = rect bk \<Longrightarrow> diced fs bk' = diced fs bk"
  by (simp add: diced_def rect_def Intersects_def)

lemma diced_set: "(\<And>q b. (q, Diced b) \<in> set fs \<longleftrightarrow> (q, Diced b) \<in> set gs) \<Longrightarrow> diced fs = diced gs"
  by (simp add: diced_def fun_eq_iff)

text \<open>The loop fills every bucket with exactly the diced pieces whose box meets it.\<close>

lemma split_loop_buckets:
  "(\<forall>q. (q, Diced None) \<notin> set (all_fates MakeBound hr ps)) \<Longrightarrow>
     \<exists>hr'. split_loop MakeBound ps hr = (Inr (), hr') \<and> length (mpBuckets hr') = length (mpBuckets hr)
       \<and> (\<forall>i<length (mpBuckets hr). rect (mpBuckets hr' ! i) = rect (mpBuckets hr ! i)
            \<and> set (hb_mpPrims (mpBuckets hr' ! i))
                = set (hb_mpPrims (mpBuckets hr ! i)) \<union> diced (all_fates MakeBound hr ps) (mpBuckets hr ! i))"
proof (induction MakeBound ps hr rule: split_loop.induct)
  case (1 MakeBound hr)
  then show ?case by (simp add: diced_def)
next
  case (2 MakeBound ps hr)
  then show ?case by simp
next
  case (3 MakeBound p ps hr)
  obtain c box p' where chk: "CheckForSplit MakeBound hr p = (c, box, p')" using prod_cases3 by blast
  show ?case
  proof (cases c)
    case CHECKSPLITRES_CULL
    with chk have f: "fates MakeBound hr p = [(p, Culled)]" by (simp add: fates.simps)
    then have "diced (all_fates MakeBound hr (Some p # ps)) = diced (all_fates MakeBound hr ps)"
      by (auto simp: diced_def fun_eq_iff)
    with "3.IH"(1) [of c "(box, p')" box p'] "3.prems" chk CHECKSPLITRES_CULL f show ?thesis by simp
  next
    case CHECKSPLITRES_DICE
    with chk have f: "fates MakeBound hr p = [(p', Diced box)]" by (simp add: fates.simps)
    then have "(p', Diced box) \<in> set (all_fates MakeBound hr (Some p # ps))" by simp
    then have "box \<noteq> None" using "3.prems" by metis
    then obtain b where b: "box = Some b" by blast
    obtain x y z w where bx: "b = (x, y, z, w)" using prod_cases4 by blast
    let ?h = "InsertForDicing p' b hr"
    have "\<forall>q. (q, Diced None) \<notin> set (all_fates MakeBound ?h ps)" using "3.prems" by simp
    with "3.IH"(2) [of c "(box, p')" box p' b] chk CHECKSPLITRES_DICE b obtain hr' where
      h': "split_loop MakeBound ps ?h = (Inr (), hr')" "length (mpBuckets hr') = length (mpBuckets hr)"
      "\<forall>i<length (mpBuckets hr). rect (mpBuckets hr' ! i) = rect (mpBuckets ?h ! i)
        \<and> set (hb_mpPrims (mpBuckets hr' ! i))
            = set (hb_mpPrims (mpBuckets ?h ! i)) \<union> diced (all_fates MakeBound hr ps) (mpBuckets ?h ! i)" by auto
    have d: "diced (all_fates MakeBound hr (Some p # ps)) bk
        = (if Intersects x y z w bk then {p'} else {}) \<union> diced (all_fates MakeBound hr ps) bk" for bk
      using f b bx by (auto simp: diced_def)
    have "rect (mpBuckets hr' ! i) = rect (mpBuckets hr ! i) \<and> set (hb_mpPrims (mpBuckets hr' ! i))
        = set (hb_mpPrims (mpBuckets hr ! i)) \<union> diced (all_fates MakeBound hr (Some p # ps)) (mpBuckets hr ! i)"
      if "i < length (mpBuckets hr)" for i
    proof -
      note ins = InsertForDicing_bucket [OF that, of p' x y z w]
      have "diced (all_fates MakeBound hr ps) (mpBuckets ?h ! i) = diced (all_fates MakeBound hr ps) (mpBuckets hr ! i)"
        using diced_rect ins(2) bx by metis
      with that h'(3) ins bx d show ?thesis by (simp add: Un_assoc)
    qed
    with h'(1,2) chk CHECKSPLITRES_DICE b show ?thesis by auto
  next
    case CHECKSPLITRES_SPLIT
    let ?qs = "Split True True p"
    have d: "diced (all_fates MakeBound hr (ps @ map Some ?qs)) = diced (all_fates MakeBound hr (Some p # ps))"
      and s: "set (all_fates MakeBound hr (ps @ map Some ?qs)) \<subseteq> set (all_fates MakeBound hr (Some p # ps))"
    proof -
      have f: "fates MakeBound hr p = (if sp_mSplitCnt p > 9 then [(p, Dropped)] else concat (map (fates MakeBound hr) ?qs))"
        using chk CHECKSPLITRES_SPLIT by (simp add: fates.simps [of MakeBound hr p])
      have none: "?qs = []" if "sp_mSplitCnt p > 9" using that by (simp add: Split_def)
      show "diced (all_fates MakeBound hr (ps @ map Some ?qs)) = diced (all_fates MakeBound hr (Some p # ps))"
        by (rule diced_set) (cases "sp_mSplitCnt p > 9"; auto simp: f none)
      show "set (all_fates MakeBound hr (ps @ map Some ?qs)) \<subseteq> set (all_fates MakeBound hr (Some p # ps))"
        by (cases "sp_mSplitCnt p > 9") (auto simp: f none)
    qed
    from s "3.prems" have "\<forall>q. (q, Diced None) \<notin> set (all_fates MakeBound hr (ps @ map Some ?qs))" by blast
    with "3.IH"(3) [of c "(box, p')" box p'] chk CHECKSPLITRES_SPLIT d show ?thesis by simp
  qed
qed

section \<open>Every visible point reaches its bucket\<close>

lemma diced_box:
  assumes "(q, Diced (Some box)) \<in> set (fates MakeBound hr p)"
  shows "\<exists>q'. CheckForSplit MakeBound hr q' = (CHECKSPLITRES_DICE, Some box, q)"
  using assms
proof (induction MakeBound hr p rule: fates.induct)
  case (1 MakeBound hr p)
  obtain c bx p' where chk: "CheckForSplit MakeBound hr p = (c, bx, p')" using prod_cases3 by blast
  show ?case
  proof (cases "c = CHECKSPLITRES_SPLIT \<and> \<not> sp_mSplitCnt p > 9")
    case True
    with "1.prems" chk obtain r where "r \<in> set (Split True True p)" "(q, Diced (Some box)) \<in> set (fates MakeBound hr r)"
      by (auto simp: fates.simps [of MakeBound hr p])
    with "1.IH" [of c "(bx, p')" bx p' r] chk True show ?thesis by auto
  next
    case False
    with "1.prems" chk show ?thesis by (cases c) (auto simp: fates.simps [of MakeBound hr p])
  qed
qed

text \<open>
  What the code relies on: the bound of a piece contains the surface over the piece's range of
  parameters, for the classes of surfaces in question. \<open>MakeBound\<close> does not look at the split counter or the grid size.
\<close>

definition bounds_surface ::
  "('g \<Rightarrow> bool) \<Rightarrow> (('g, 't) SimplePrim \<Rightarrow> Bound) \<Rightarrow> ('g \<Rightarrow> real \<Rightarrow> real \<Rightarrow> real Vec3) \<Rightarrow> bool" where
  "bounds_surface good MakeBound eval \<longleftrightarrow>
     (\<forall>q u v. good (sp_geom q) \<longrightarrow> in_range u v q \<longrightarrow> in_box (eval (sp_geom q) u v) (MakeBound q))
     \<and> (\<forall>q wd he. MakeBound (q\<lparr>sp_mDiceGridWd := wd, sp_mDiceGridHe := he\<rparr>) = MakeBound q)"

text \<open>The pixel a point of the surface falls on.\<close>

definition pixel_of :: "('g, 't) prim_hider \<Rightarrow> Matrix44 \<Rightarrow> real Vec3 \<Rightarrow> int \<times> int" where
  "pixel_of hr m q = (\<lfloor>winX (half_wd hr) (to_clip hr m q)\<rfloor>, \<lfloor>winY (half_he hr) (to_clip hr m q)\<rfloor>)"

text \<open>A piece with an ordered range has a point, so its bound is valid and its box is computed.\<close>

definition ordered :: "('g \<Rightarrow> bool) \<Rightarrow> ('g, 't) SimplePrim \<Rightarrow> bool" where
  "ordered good p \<longleftrightarrow> good (sp_geom p) \<and> sp_mURange0 p \<le> sp_mURange1 p \<and> sp_mVRange0 p \<le> sp_mVRange1 p"

lemma Split_ordered: "ordered good p \<Longrightarrow> q \<in> set (Split True True p) \<Longrightarrow> ordered good q"
  by (auto simp: Split_def Let_def InsertSplitted_def ordered_def split: if_splits)

lemma ordered_valid:
  assumes "bounds_surface good MakeBound eval" and "ordered good p"
  shows "Bound_IsValid (MakeBound p)"
proof -
  have "in_range (sp_mURange0 p) (sp_mVRange0 p) p" using assms(2) by (simp add: in_range_def ordered_def)
  then have "in_box (eval (sp_geom p) (sp_mURange0 p) (sp_mVRange0 p)) (MakeBound p)"
    using assms by (simp add: bounds_surface_def ordered_def)
  then show ?thesis by (simp add: in_box_def Bound_IsValid_def)
qed

lemma fates_fine:
  assumes "bounds_surface good MakeBound eval"
  shows "ordered good p \<Longrightarrow> (q, f) \<in> set (fates MakeBound hr p) \<Longrightarrow>
    f \<noteq> Diced None \<and> (f = Culled \<longrightarrow> fst (RasterEstimate hr (MakeBound q) (sp_mpTransform q)) < RI_EPSILON)
    \<and> (f = Dropped \<longrightarrow> 9 < sp_mSplitCnt q)"
  using assms
proof (induction MakeBound hr p rule: fates.induct)
  case (1 MakeBound hr p)
  obtain c bx p' where chk: "CheckForSplit MakeBound hr p = (c, bx, p')" using prod_cases3 by blast
  note valid = ordered_valid [OF "1.prems"(3,1)]
  have e: "0 < RI_EPSILON" by (simp add: RI_EPSILON_def)
  show ?case
  proof (cases c)
    case CHECKSPLITRES_CULL
    with chk "1.prems"(2) show ?thesis
      by (auto simp: fates.simps [of MakeBound hr p] CheckForSplit_def Let_def split: prod.splits if_splits)
  next
    case CHECKSPLITRES_DICE
    with chk have "\<not> fst (RasterEstimate hr (MakeBound p) (sp_mpTransform p)) < RI_EPSILON"
      and "bx = snd (RasterEstimate hr (MakeBound p) (sp_mpTransform p))"
      by (auto simp: CheckForSplit_def Let_def split: prod.splits if_splits)
    then have "bx \<noteq> None" using valid e by (auto simp: RasterEstimate_def split: prod.splits option.splits)
    with chk CHECKSPLITRES_DICE "1.prems"(2) show ?thesis by (simp add: fates.simps [of MakeBound hr p])
  next
    case CHECKSPLITRES_SPLIT
    show ?thesis
    proof (cases "sp_mSplitCnt p > 9")
      case True
      with chk CHECKSPLITRES_SPLIT "1.prems"(2) show ?thesis by (simp add: fates.simps [of MakeBound hr p])
    next
      case False
      with chk CHECKSPLITRES_SPLIT "1.prems"(2) obtain r where
        r: "r \<in> set (Split True True p)" "(q, f) \<in> set (fates MakeBound hr r)"
        by (auto simp: fates.simps [of MakeBound hr p])
      from "1.IH" [of c "(bx, p')" bx p' r] chk CHECKSPLITRES_SPLIT False r Split_ordered [OF "1.prems"(1)] "1.prems"(3)
      show ?thesis by auto
    qed
  qed
qed

lemma diced_meets_bucket:
  assumes "(q, Diced (Some (minX, minY, maxX, maxY))) \<in> set (fates MakeBound hr p)"
    and "bounds_surface good MakeBound eval" and "in_range u v q"
    and "pixel_of hr (sp_mpTransform q) (eval (sp_geom q) u v) = (px, py)" and "Contains px py bk"
    and "good (sp_geom q)"
  shows "Intersects minX minY maxX maxY bk"
proof -
  from diced_box [OF assms(1)] obtain q' where
    chk: "CheckForSplit MakeBound hr q' = (CHECKSPLITRES_DICE, Some (minX, minY, maxX, maxY), q)" by blast
  then have est: "snd (RasterEstimate hr (MakeBound q') (sp_mpTransform q')) = Some (minX, minY, maxX, maxY)"
    and q: "\<exists>wd he. q = q'\<lparr>sp_mDiceGridWd := wd, sp_mDiceGridHe := he\<rparr>"
    by (auto simp: CheckForSplit_def Let_def split: prod.splits if_splits)
  have tr: "sp_mpTransform q' = sp_mpTransform q" and mb: "MakeBound q = MakeBound q'"
    using q assms(2) by (auto simp: bounds_surface_def)
  from est obtain valid a b c d where
    m: "makeRasterBound hr (MakeBound q) (sp_mpTransform q) = (valid, Some (a, b, c, d))"
    and box: "minX = \<lfloor>a\<rfloor>" "minY = \<lfloor>b\<rfloor>" "maxX = \<lceil>c\<rceil>" "maxY = \<lceil>d\<rceil>"
    unfolding tr mb [symmetric] RasterEstimate_def
    by (cases "makeRasterBound hr (MakeBound q) (sp_mpTransform q)") (auto split: if_splits option.splits)
  have "in_box (eval (sp_geom q) u v) (MakeBound q)" using assms(2,3,6) by (simp add: bounds_surface_def)
  note w = makeRasterBound_contains [OF m this]
  have p: "px = \<lfloor>winX (half_wd hr) (to_clip hr (sp_mpTransform q) (eval (sp_geom q) u v))\<rfloor>"
    "py = \<lfloor>winY (half_he hr) (to_clip hr (sp_mpTransform q) (eval (sp_geom q) u v))\<rfloor>"
    using assms(4) by (simp_all add: pixel_of_def)
  have "minX \<le> px" "minY \<le> py" unfolding box p using w by (simp_all add: floor_mono)
  moreover have "px \<le> maxX" "py \<le> maxY"
    unfolding box p using w(3,5) by (meson floor_le_ceiling floor_mono order_trans)+
  ultimately show ?thesis using assms(5) by (simp add: Contains_def Intersects_def)
qed

lemma diced_in_bucket:
  assumes "(q, f) \<in> set (fates MakeBound hr p)" and "f = Diced box" and "f \<noteq> Diced None"
    and "bounds_surface good MakeBound eval" and "in_range u v q" and "same_surface q p"
    and "pixel_of hr (sp_mpTransform p) (eval (sp_geom p) u v) = (px, py)" and "Contains px py bk"
    and "good (sp_geom p)"
  shows "\<exists>a b c d. (q, Diced (Some (a, b, c, d))) \<in> set (fates MakeBound hr p) \<and> Intersects a b c d bk"
proof -
  from assms(2,3) obtain a b c d where bx: "f = Diced (Some (a, b, c, d))" by (metis option.exhaust prod_cases4)
  with assms(1) have "(q, Diced (Some (a, b, c, d))) \<in> set (fates MakeBound hr p)" by simp
  moreover from diced_meets_bucket [OF this assms(4,5) _ assms(8)] assms(6,7,9) have "Intersects a b c d bk"
    by (simp add: same_surface_def)
  ultimately show ?thesis by blast
qed

text \<open>
  No visible part of a primitive is missed. \<open>worldEnd_splitAndAddToBuckets\<close> ends and throws
  nothing. Take any parameters of an inserted primitive and the pixel their point falls on. The
  primitive has been cut into pieces whose parameter ranges add up to its own; one of them
  contains the parameters and keeps surface, transformation and attributes. If that piece is
  diced, it is in the list of every bucket that contains the pixel; otherwise its raster
  estimate was below \<open>RI_EPSILON\<close> or it was given up after ten splits.
\<close>

theorem visible_points_bucketed:
  assumes "bounds_surface good MakeBound eval" and "\<forall>p. Some p \<in> set (hd_mpPrims hr) \<longrightarrow> ordered good p"
  shows "\<exists>hr'. worldEnd_splitAndAddToBuckets MakeBound hr = (Inr (), hr')
    \<and> length (mpBuckets hr') = length (mpBuckets hr)
    \<and> (\<forall>p. Some p \<in> set (hd_mpPrims hr) \<longrightarrow>
         sum_list (map (\<lambda>x. uv_area (fst x)) (fates MakeBound hr p)) = uv_area p
         \<and> (\<forall>u v. in_range u v p \<longrightarrow>
              (\<exists>q f. (q, f) \<in> set (fates MakeBound hr p) \<and> in_range u v q \<and> same_surface q p
                 \<and> (case f of
                      Diced box \<Rightarrow>
                        (\<forall>i<length (mpBuckets hr).
                           (case pixel_of hr (sp_mpTransform p) (eval (sp_geom p) u v) of
                              (px, py) \<Rightarrow> Contains px py (mpBuckets hr ! i)) \<longrightarrow>
                           q \<in> set (hb_mpPrims (mpBuckets hr' ! i)))
                    | Culled \<Rightarrow> fst (RasterEstimate hr (MakeBound q) (sp_mpTransform q)) < RI_EPSILON
                    | Dropped \<Rightarrow> 9 < sp_mSplitCnt q))))"
proof -
  let ?fs = "all_fates MakeBound hr (hd_mpPrims hr)"
  have fine: "\<forall>q. (q, Diced None) \<notin> set ?fs"
  proof
    fix q
    show "(q, Diced None) \<notin> set ?fs"
    proof
      assume "(q, Diced None) \<in> set ?fs"
      then obtain p where "Some p \<in> set (hd_mpPrims hr)" "(q, Diced None) \<in> set (fates MakeBound hr p)"
        by (auto simp: all_fates_def split: option.splits)
      with assms(2) fates_fine [OF assms(1)] show False by blast
    qed
  qed
  from split_loop_buckets [OF this] obtain h where
    h: "split_loop MakeBound (hd_mpPrims hr) hr = (Inr (), h)" "length (mpBuckets h) = length (mpBuckets hr)"
    and bk: "\<And>i. i < length (mpBuckets hr) \<Longrightarrow> set (hb_mpPrims (mpBuckets h ! i))
        = set (hb_mpPrims (mpBuckets hr ! i)) \<union> diced ?fs (mpBuckets hr ! i)" by blast
  have "\<exists>q f. (q, f) \<in> set (fates MakeBound hr p) \<and> in_range u v q \<and> same_surface q p
      \<and> (case f of Diced box \<Rightarrow> (\<forall>i<length (mpBuckets hr).
             (case pixel_of hr (sp_mpTransform p) (eval (sp_geom p) u v) of (px, py) \<Rightarrow> Contains px py (mpBuckets hr ! i)) \<longrightarrow>
             q \<in> set (hb_mpPrims (mpBuckets (h\<lparr>hd_mpPrims := []\<rparr>) ! i)))
         | Culled \<Rightarrow> fst (RasterEstimate hr (MakeBound q) (sp_mpTransform q)) < RI_EPSILON
         | Dropped \<Rightarrow> 9 < sp_mSplitCnt q)"
    if p: "Some p \<in> set (hd_mpPrims hr)" and uv: "in_range u v p" for p u v
  proof -
    obtain q f where q: "(q, f) \<in> set (fates MakeBound hr p)" "in_range u v q" "same_surface q p"
      using fates_cover [OF uv] by blast
    have gd: "good (sp_geom p)" using assms(2) p by (simp add: ordered_def)
    have sub: "set (fates MakeBound hr p) \<subseteq> set ?fs"
      using p by (auto simp: all_fates_def intro: bexI [of _ "Some p"])
    have ok: "f \<noteq> Diced None" "f = Culled \<longrightarrow> fst (RasterEstimate hr (MakeBound q) (sp_mpTransform q)) < RI_EPSILON"
      "f = Dropped \<longrightarrow> 9 < sp_mSplitCnt q" using fates_fine [OF assms(1) _ q(1)] assms(2) p by auto
    have "q \<in> set (hb_mpPrims (mpBuckets h ! i))"
      if "f = Diced box" "pixel_of hr (sp_mpTransform p) (eval (sp_geom p) u v) = (px, py)"
        "i < length (mpBuckets hr)" "Contains px py (mpBuckets hr ! i)" for box px py i
      using diced_in_bucket [OF q(1) that(1) ok(1) assms(1) q(2,3) that(2,4) gd] sub bk [OF that(3)]
      unfolding diced_def by blast
    with q ok show ?thesis by (intro exI [of _ q] exI [of _ f] conjI) (auto split: fate.splits prod.splits)
  qed
  then show ?thesis
    using h
    by (intro exI [of _ "h\<lparr>hd_mpPrims := []\<rparr>"]) (simp add: worldEnd_splitAndAddToBuckets_def fates_area)
qed

end
