(* ===== verification/RiShading.thy ===== *)
theory RiShading
  imports RiState Containers
begin

text \<open>
  The commands that load shaders: \<open>State::GetShader\<close> and the default shaders (\<open>RI_State.cpp\<close>),
  \<open>RI_Attributes_Shaders.cpp\<close>, \<open>cmdLightSource\<close>, \<open>cmdSurface\<close> and \<open>cmdDisplacement\<close>
  (\<open>RI_Attributes.cpp\<close>), and the construction of the state.
\<close>

section \<open>Reading numbers from parameters\<close>

fun reals_of :: "flt list \<Rightarrow> real list res" where
  "reals_of [] = Inr []"
| "reals_of (v # vs) = res_bind (real_of_flt v) (\<lambda>r. res_bind (reals_of vs) (\<lambda>rs. Inr (r # rs)))"

text \<open>
  \<open>PFlt (n)\<close> is the address of the first element of \<open>NumVec (n)\<close>, here the floats from there on;
  \<open>PFlt_read n\<close> is a \<open>PFlt (n)\<close> whose caller then reads \<open>n\<close> floats.
\<close>

definition PFlt :: "nat option \<Rightarrow> Param \<Rightarrow> flt list res" where
  "PFlt n p =
     (case fst (NumVec n p) of
        Inl e \<Rightarrow> Inl e
      | Inr [] \<Rightarrow> Inl (Undefined_behaviour ''element 0 of an empty vector'')
      | Inr v \<Rightarrow> Inr v)"

definition PFlt_read :: "nat \<Rightarrow> Param \<Rightarrow> real list res" where
  "PFlt_read n p =
     res_bind (PFlt (Some n) p) (\<lambda>v.
       if length v < n then Inl (Undefined_behaviour ''read past the end of a vector'')
       else reals_of (take n v))"

section \<open>Loading shaders\<close>

text \<open>Every C++ exception; undefined behaviour is not one.\<close>

fun is_exception :: "exn \<Rightarrow> bool" where
  "is_exception (Undefined_behaviour _) = False"
| "is_exception (Not_modelled _) = False"
| "is_exception _ = True"

text \<open>
  \<open>GetShader\<close>: a loaded shader, else the first of the \<open>.sl\<close> and \<open>.rrasm\<close> files that the search
  paths have. The alternate name is never used: both branches before it return.
\<close>

definition GetShader :: "string \<Rightarrow> string option \<Rightarrow> State \<Rightarrow> Shader option res \<times> State" where
  "GetShader pShaderName pAlternateName s =
     (case FindResource_shader pShaderName (mResManager s) of
        Some sh \<Rightarrow> (Inr (Some sh), s)
      | None \<Rightarrow>
          (case res_bind (FindResFile (pShaderName @ ''.sl'') SEARCHPATH_SHADER s) (\<lambda>path.
                  if path = '''' then FindResFile (pShaderName @ ''.rrasm'') SEARCHPATH_SHADER s else Inr path) of
             Inl e \<Rightarrow> (Inl e, s)
           | Inr path \<Rightarrow>
               if path = '''' then (Inr None, s)
               else (case sv_Shader (st_services s) pShaderName (st_mDefaultShadersDir s) path of
                       Inl e \<Rightarrow> if is_exception e then (Inr None, s) else (Inl e, s)
                     | Inr sh \<Rightarrow> (Inr (Some sh), s\<lparr>mResManager := mResManager s @ [sh]\<rparr>))))"

fun makeDefaultShaders :: "string list \<Rightarrow> State \<Rightarrow> unit res \<times> State" where
  "makeDefaultShaders [] s = (Inr (), s)"
| "makeDefaultShaders (n # ns) s =
     (case GetShader n None s of
        (Inl e, s) \<Rightarrow> (Inl e, s)
      | (Inr None, s) \<Rightarrow> (Inl (Runtime_error (''Could not find the shader '' @ n)), s)
      | (Inr (Some _), s) \<Rightarrow> makeDefaultShaders ns s)"

definition default_shaders :: "string list" where
  "default_shaders = [''constant'', ''matte'', ''dbg_normal_col'']"

section \<open>Shader parameters\<close>

definition splat3 :: "real Vec3 \<Rightarrow> lanes Vec3" where
  "splat3 v = Vec3 (splat (x3 v)) (splat (y3 v)) (splat (z3 v))"

definition splat4 :: "real Vec4 \<Rightarrow> lanes Vec4" where
  "splat4 v = Vec4 (splat (x4 v)) (splat (y4 v)) (splat (z4 v)) (splat (w4 v))"

definition vec3_of :: "real list \<Rightarrow> real Vec3" where
  "vec3_of fs = Vec3 (fs ! 0) (fs ! 1) (fs ! 2)"

definition vec4_of :: "real list \<Rightarrow> real Vec4" where
  "vec4_of fs = Vec4 (fs ! 0) (fs ! 1) (fs ! 2) (fs ! 3)"

text \<open>
  The value a parameter gets, by the type of its symbol: points go to camera space, vectors,
  normals and homogeneous points through the current transformation, the others are copied.
\<close>

definition shader_value :: "Matrix44 \<Rightarrow> Matrix44 \<Rightarrow> Symbol \<Rightarrow> Param \<Rightarrow> SymData option res" where
  "shader_value mtxLocalCam mtxOpen pSym p =
     (case sym_mType pSym of
        TYP_FLOAT \<Rightarrow> res_bind (Param_real p) (\<lambda>x. FillDataFromSISD 1 (Src_floats [x]) pSym)
      | TYP_POINT \<Rightarrow> res_bind (PFlt_read 3 p) (\<lambda>fs.
            Inr (Some (D_float3 [splat3 (V3_V3W1_Mul_M44 (vec3_of fs) mtxLocalCam)])))
      | TYP_VECTOR \<Rightarrow> res_bind (PFlt_read 3 p) (\<lambda>fs.
            Inr (Some (D_float3 [splat3 (V3_V3W0_Mul_M44 (vec3_of fs) mtxOpen)])))
      | TYP_NORMAL \<Rightarrow> res_bind (PFlt_read 3 p) (\<lambda>fs.
            Inr (Some (D_float3 [splat3 (V3_V3W0_Mul_M44 (vec3_of fs) mtxOpen)])))
      | TYP_HPOINT \<Rightarrow> res_bind (PFlt_read 4 p) (\<lambda>fs.
            Inr (Some (D_float4 [splat4 (V4_V4_Mul_M44 (vec4_of fs) mtxOpen)])))
      | TYP_COLOR \<Rightarrow> res_bind (PFlt_read 3 p) (\<lambda>fs. FillDataFromSISD 1 (Src_floats fs) pSym)
      | TYP_STRING \<Rightarrow> res_bind (PChar p) (\<lambda>t. FillDataFromSISD 1 (Src_string t) pSym)
      | TYP_MATRIX \<Rightarrow> res_bind (PFlt_read 16 p) (\<lambda>fs. FillDataFromSISD 1 (Src_floats fs) pSym)
      | _ \<Rightarrow> Inl (RI_Exception ''Unsupported data type or this operation (?)''))"

text \<open>
  The symbol a parameter names: a global one, which must be uniform, or a new declaration of
  the call. A second declaration of the same name gives the null pointer, which is then read.
\<close>

definition param_symbol :: "SymbolList \<Rightarrow> string \<Rightarrow> ShaderInst \<Rightarrow> Symbol res \<times> ShaderInst" where
  "param_symbol globalSyms pName inst =
     (case FindSymbol pName globalSyms of
        Some pSym \<Rightarrow>
          (if Symbol_IsUniform pSym then Inr pSym
           else Inl (RI_Exception ''Inline params must be uniform ! (for now.. 8)''), inst)
      | None \<Rightarrow>
          (case AddByString pName STOR_PARAMETER None (mCallSymList inst) of
             Inl e \<Rightarrow> (Inl e, inst)
           | Inr (None, l) \<Rightarrow> (Inl null_deref, inst\<lparr>mCallSymList := l\<rparr>)
           | Inr (Some pSym, l) \<Rightarrow> (Inr pSym, inst\<lparr>mCallSymList := l\<rparr>)))"

definition addShaderParam ::
  "SymbolList \<Rightarrow> Matrix44 \<Rightarrow> Matrix44 \<Rightarrow> string \<Rightarrow> Param \<Rightarrow> ShaderInst \<Rightarrow> unit res \<times> ShaderInst" where
  "addShaderParam globalSyms mtxLocalCam mtxOpen pName p inst =
     (case param_symbol globalSyms (if pName = ''direction'' then ''to'' else pName) inst of
        (Inl e, inst) \<Rightarrow> (Inl e, inst)
      | (Inr pSym, inst) \<Rightarrow>
          let l = mCallSymIList inst; inst1 = inst\<lparr>mCallSymIList := l @ [(SymbolI_new pSym 1, None)]\<rparr> in
          (case shader_value mtxLocalCam mtxOpen pSym p of
             Inl e \<Rightarrow> (Inl e, inst1)
           | Inr d \<Rightarrow> (Inr (), inst1\<lparr>mCallSymIList := l @ [(SymbolI_new pSym 1, d)]\<rparr>)))"

text \<open>The loop skips what is not a string and takes name and value otherwise.\<close>

fun getShaderParams ::
  "SymbolList \<Rightarrow> Matrix44 \<Rightarrow> Matrix44 \<Rightarrow> Param list \<Rightarrow> ShaderInst \<Rightarrow> unit res \<times> ShaderInst" where
  "getShaderParams syms lc op [] inst = (Inr (), inst)"
| "getShaderParams syms lc op [p] inst =
     (if \<not> IsString p then (Inr (), inst)
      else case PChar p of
        Inl e \<Rightarrow> (Inl e, inst) | Inr _ \<Rightarrow> (Inl (RI_Exception ''Expecting parameter !''), inst))"
| "getShaderParams syms lc op (p # v # ps) inst =
     (if \<not> IsString p then getShaderParams syms lc op (v # ps) inst
      else case PChar p of
        Inl e \<Rightarrow> (Inl e, inst)
      | Inr pName \<Rightarrow>
          (case addShaderParam syms lc op pName v inst of
             (Inl e, inst) \<Rightarrow> (Inl e, inst)
           | (Inr _, inst) \<Rightarrow> getShaderParams syms lc op ps inst))"

section \<open>Shader commands\<close>

definition shader_params :: "nat \<Rightarrow> Param list \<Rightarrow> Shader \<Rightarrow> State \<Rightarrow> unit res \<times> ShaderInst" where
  "shader_params fromIdx params sh s =
     (case mTransformOpenStack s of
        [] \<Rightarrow> (Inl empty_back, ShaderInst_new sh)
      | m # _ \<Rightarrow> getShaderParams (mGlobalSyms s) (Matrix44_mul Identity m (mMtxWorldCamera s)) m
                  (drop fromIdx params) (ShaderInst_new sh))"

text \<open>
  A new instance is stored in the attributes before its parameters are read, and the revision is
  bumped after: an exception in between leaves the attributes changed under the old revision.
\<close>

definition set_instance :: "(ShaderInst \<Rightarrow> Attributes \<Rightarrow> Attributes) \<Rightarrow> Param list \<Rightarrow> Shader \<Rightarrow> State \<Rightarrow> unit res \<times> State" where
  "set_instance upd params sh s =
     (case shader_params 1 params sh s of (r, inst) \<Rightarrow>
        on_attributes (\<lambda>(atr, rv). (r, upd inst atr, case r of Inl _ \<Rightarrow> rv | Inr _ \<Rightarrow> BumpRevision rv)) s)"

definition cmdSurface :: "Param list \<Rightarrow> State \<Rightarrow> unit res \<times> State" where
  "cmdSurface params s =
     (if params = [] then (Inl (RI_Exception ''Missing parameters''), s)
      else case (if sv_mForcedSurfaceShader (st_services s) \<noteq> '''' then Inr (sv_mForcedSurfaceShader (st_services s))
                 else PChar (hd params)) of
        Inl e \<Rightarrow> (Inl e, s)
      | Inr pShaderName \<Rightarrow>
          (case GetShader pShaderName (Some ''matte'') s of
             (Inl e, s) \<Rightarrow> (Inl e, s)
           | (Inr None, s) \<Rightarrow> on_attributes (\<lambda>(atr, rv). (Inr (), atr, BumpRevision rv)) s
           | (Inr (Some sh), s) \<Rightarrow> set_instance (\<lambda>i atr. atr\<lparr>moSurfaceSHI := Some i\<rparr>) params sh s))"

definition cmdDisplacement :: "Param list \<Rightarrow> State \<Rightarrow> unit res \<times> State" where
  "cmdDisplacement params s =
     (if params = [] then (Inl (RI_Exception ''Missing parameters''), s)
      else case PChar (hd params) of
        Inl e \<Rightarrow> (Inl e, s)
      | Inr pShaderName \<Rightarrow>
          (case GetShader pShaderName None s of
             (Inl e, s) \<Rightarrow> (Inl e, s)
           | (Inr None, s) \<Rightarrow> (Inl (RI_Exception (''Failed getting the shader '' @ pShaderName)), s)
           | (Inr (Some sh), s) \<Rightarrow> set_instance (\<lambda>i atr. atr\<lparr>moDisplaceSHI := Some i\<rparr>) params sh s))"

text \<open>The light is added to the state and its index, cut to 16 bits, to the attributes.\<close>

definition activate_light :: "LightSourceT \<Rightarrow> State \<Rightarrow> unit res \<times> State" where
  "activate_light pLight s =
     (case AddLightSource pLight s of (listIdx, s) \<Rightarrow>
        on_attributes (\<lambda>(atr, rv). (Inr (),
          atr\<lparr>mActiveLights := Dpush_back_unique (mActiveLights atr) (of_nat listIdx)\<rparr>, BumpRevision rv)) s)"

definition cmdLightSource :: "Param list \<Rightarrow> State \<Rightarrow> unit res \<times> State" where
  "cmdLightSource params s =
     (case params of
        p0 # p1 # _ \<Rightarrow>
          if \<not> IsString p0 \<or> \<not> IsIntVal p1 then (Inl (RI_Exception ''Bad LightSource definition !''), s)
          else (case PChar p0 of
             Inl e \<Rightarrow> (Inl e, s)
           | Inr pShaderName \<Rightarrow>
               (case GetShader pShaderName None s of
                  (Inl e, s) \<Rightarrow> (Inl e, s)
                | (Inr None, s) \<Rightarrow> (Inl (RI_Exception (''Could not find the light shader '' @ pShaderName)), s)
                | (Inr (Some sh), s) \<Rightarrow>
                    (case Param_Int p1 of
                       Inl e \<Rightarrow> (Inl e, s)
                     | Inr i \<Rightarrow>
                         (case shader_params 2 params sh s of
                            (Inl e, _) \<Rightarrow> (Inl e, s)
                          | (Inr _, inst) \<Rightarrow>
                              activate_light \<lparr>ls_moShaderInst = inst, ls_mID = of_int i,
                                ls_mIsAmbient = (\<not> mHasDirPosInstructions sh)\<rparr> s))))
      | _ \<Rightarrow> (Inl (RI_Exception ''Bad LightSource definition !''), s))"

text \<open>The light behind an entry of the active lights; both vectors are read without a check.\<close>

definition GetLight :: "nat \<Rightarrow> Attributes \<Rightarrow> State \<Rightarrow> LightSourceT res" where
  "GetLight actLightIdx atr s =
     (if actLightIdx < length (mActiveLights atr) then
        let lightIdx = unat (mActiveLights atr ! actLightIdx) in
        if lightIdx < length (mpLightSources s) then Inr (mpLightSources s ! lightIdx)
        else Inl (Undefined_behaviour ''light source out of range'')
      else Inl (Undefined_behaviour ''active light out of range''))"

definition State_LightSource :: "Param list \<Rightarrow> State \<Rightarrow> unit res \<times> State" where
  "State_LightSource params = verified OPTYPE_ATRB (cmdLightSource params)"

definition AreaLightSource :: "Param list \<Rightarrow> State \<Rightarrow> unit res \<times> State" where
  "AreaLightSource params = verified OPTYPE_ATRB (cmdLightSource params)"

definition Surface :: "Param list \<Rightarrow> State \<Rightarrow> unit res \<times> State" where
  "Surface params = verified OPTYPE_ATRB (cmdSurface params)"

definition Displacement :: "Param list \<Rightarrow> State \<Rightarrow> unit res \<times> State" where
  "Displacement params = verified OPTYPE_ATRB (cmdDisplacement params)"

section \<open>Construction of the state\<close>

definition State_new :: "Services \<Rightarrow> string \<Rightarrow> string \<Rightarrow> Framework \<Rightarrow> State res" where
  "State_new sv baseDir shadersDir fw =
     res_bind (add_globals global_decls []) (\<lambda>syms.
       case makeDefaultShaders default_shaders (State_with sv [] syms baseDir shadersDir fw) of
         (Inl e, _) \<Rightarrow> Inl e
       | (Inr _, s) \<Rightarrow> Inr (State_with sv (mResManager s) syms baseDir shadersDir fw))"

text \<open>A state without files.\<close>

definition no_services :: Services where
  "no_services = \<lparr>sv_FileExists = (\<lambda>_. False), sv_Shader = (\<lambda>_ _ _. Inl (Runtime_error '''')),
     sv_mForcedSurfaceShader = ''''\<rparr>"

end
