(* ===== verification/Primitives.thy ===== *)
theory Primitives
  imports SplitLoop RiShading
begin

text \<open>
  The geometry of the primitives: the quadrics (\<open>RI_Primitive_Quadric.h/.cpp\<close>), the bilinear and
  bicubic patches (\<open>RI_Primitive_Patch.h/.cpp\<close>), the NURBS patches (\<open>RI_Primitive_NuPatch.h/.cpp\<close>),
  the bound of a primitive from samples (\<open>RI_Primitive_Utils.h\<close>), and the polygons and meshes that
  are turned into patches when a world ends (\<open>RI_Primitive_Poly.cpp\<close>, \<open>worldEnd_simplify\<close>). The SIMD
  code computes the same expressions in every lane; a definition here is one lane. Floats are
  reals, and an evaluation returns the point, the derivative in u and the derivative in v.
\<close>

section \<open>Surfaces\<close>

text \<open>
  The classes of simple primitives, each with its members in their order. NURBS patches, whose
  evaluation can fail, have a record of their own below.
\<close>

datatype Geometry =
    Q_Cylinder (mRadius: real) (mZMin: real) (mZMax: real) (mThetamaxRad: real)
  | Q_Cone (mHeight: real) (mRadius: real) (mThetamaxRad: real)
  | Q_Sphere (mRadius: real) (mZMin: real) (mZMax: real) (mThetamaxRad: real)
  | Q_Hyperboloid (mP1: "real Vec3") (mP2: "real Vec3") (mThetamaxRad: real)
  | Q_Paraboloid (mRmax: real) (mZmin: real) (mZmax: real) (mThetamaxRad: real)
  | Q_Torus (mMinRadius: real) (mMaxRadius: real) (mPhiminRad: real) (mPhimaxRad: real) (mThetamaxRad: real)
  | S_PatchBilinear (mHullPos_sca: "real Vec3 list")
  | S_PatchBicubic (mpUBasisM: Matrix44) (mpVBasisM: Matrix44) (mHullPos: "real Vec3 list")

type_synonym eval_res = "real Vec3 \<times> real Vec3 \<times> real Vec3"

definition Vec3_Mix :: "real Vec3 \<Rightarrow> real Vec3 \<Rightarrow> real \<Rightarrow> real Vec3" where
  "Vec3_Mix a b t = a + scaleR t (b - a)"

section \<open>Quadrics\<close>

definition Cylinder_Eval :: "real \<Rightarrow> real \<Rightarrow> real \<Rightarrow> real \<Rightarrow> real \<Rightarrow> real \<Rightarrow> eval_res" where
  "Cylinder_Eval radius zmin zmax thetamaxRad u v =
     (let theta = u * thetamaxRad; tmp = thetamaxRad * radius in
      (Vec3 (DCos theta * radius) (DSin theta * radius) (DMix zmin zmax v),
       Vec3 (tmp * - DSin theta) (tmp * DCos theta) 0,
       Vec3 0 0 (zmax - zmin)))"

definition Cone_Eval :: "real \<Rightarrow> real \<Rightarrow> real \<Rightarrow> real \<Rightarrow> real \<Rightarrow> eval_res" where
  "Cone_Eval height radius thetamaxRad u v =
     (let theta = u * thetamaxRad; cosUTheta = DCos theta; sinUTheta = DSin theta;
          rad1V = radius * (1 - v); tmp = thetamaxRad * rad1V in
      (Vec3 (rad1V * cosUTheta) (rad1V * sinUTheta) (v * height),
       Vec3 (tmp * - sinUTheta) (tmp * cosUTheta) 0,
       Vec3 (radius * - cosUTheta) (radius * - sinUTheta) height))"

definition Sphere_Eval :: "real \<Rightarrow> real \<Rightarrow> real \<Rightarrow> real \<Rightarrow> real \<Rightarrow> real \<Rightarrow> eval_res" where
  "Sphere_Eval radius zmin zmax thetamaxRad u v =
     (let alphamin = arcsin (zmin / radius); alphadelta = arcsin (zmax / radius) - alphamin;
          theta = u * thetamaxRad; alpha = alphamin + v * alphadelta;
          cosAlpha = DCos alpha; cosUTheta = DCos theta; sinUTheta = DSin theta;
          tmp1 = thetamaxRad * radius; tmp2 = alphadelta * radius; tmp3 = tmp2 * - DSin alpha in
      (Vec3 (radius * DCos alpha * DCos theta) (radius * DCos alpha * DSin theta) (radius * DSin alpha),
       Vec3 (tmp1 * - sinUTheta * cosAlpha) (tmp1 * cosUTheta * cosAlpha) 0,
       Vec3 (tmp3 * cosUTheta) (tmp3 * sinUTheta) (tmp2 * cosAlpha)))"

definition Hyperboloid_Eval :: "real Vec3 \<Rightarrow> real Vec3 \<Rightarrow> real \<Rightarrow> real \<Rightarrow> real \<Rightarrow> eval_res" where
  "Hyperboloid_Eval p1 p2 thetamaxRad u v =
     (let uTheta = u * thetamaxRad; cosUTheta = DCos uTheta; sinUTheta = DSin uTheta;
          p1p2v = Vec3_Mix p1 p2 v; dp = p2 - p1 in
      (Vec3 (x3 p1p2v * cosUTheta - y3 p1p2v * sinUTheta) (x3 p1p2v * sinUTheta + y3 p1p2v * cosUTheta) (z3 p1p2v),
       Vec3 (thetamaxRad * (x3 p1p2v * - sinUTheta - y3 p1p2v * cosUTheta))
            (thetamaxRad * (x3 p1p2v * cosUTheta + y3 p1p2v * - sinUTheta)) 0,
       Vec3 (x3 dp * cosUTheta - y3 dp * sinUTheta) (x3 dp * sinUTheta + y3 dp * cosUTheta) (z3 dp)))"

definition Paraboloid_Eval :: "real \<Rightarrow> real \<Rightarrow> real \<Rightarrow> real \<Rightarrow> real \<Rightarrow> real \<Rightarrow> eval_res" where
  "Paraboloid_Eval rmax zmin zmax thetamaxRad u v =
     (let uTheta = u * thetamaxRad; cosUTheta = DCos uTheta; sinUTheta = DSin uTheta;
          scl = rmax / sqrt zmax; z = DMix zmin zmax v; r = scl * sqrt z;
          tmp1 = r * thetamaxRad; dz = zmax - zmin; dx = 1 / 2 * dz / sqrt z * scl in
      (Vec3 (r * cosUTheta) (r * sinUTheta) z,
       Vec3 (tmp1 * - sinUTheta) (tmp1 * cosUTheta) 0,
       Vec3 (dx * cosUTheta) (dx * sinUTheta) dz))"

definition Torus_Eval :: "real \<Rightarrow> real \<Rightarrow> real \<Rightarrow> real \<Rightarrow> real \<Rightarrow> real \<Rightarrow> real \<Rightarrow> eval_res" where
  "Torus_Eval minRadius maxRadius phiminRad phimaxRad thetamaxRad u v =
     (let uTheta = u * thetamaxRad; cosUTheta = DCos uTheta; sinUTheta = DSin uTheta;
          phi = DMix phiminRad phimaxRad v; sx = DCos phi * minRadius + maxRadius;
          dphi = phimaxRad - phiminRad; dsx = dphi * - DSin phi * minRadius in
      (Vec3 (sx * cosUTheta) (sx * sinUTheta) (minRadius * DSin phi),
       Vec3 (sx * thetamaxRad * - sinUTheta) (sx * thetamaxRad * cosUTheta) 0,
       Vec3 (dsx * cosUTheta) (dsx * sinUTheta) (dphi * DCos phi * minRadius)))"

text \<open>
  The constructors store the angles in radians. The members of a torus are the small radius
  before the large one, the arguments come the other way round.
\<close>

definition Quadric_new :: "Prim \<Rightarrow> Geometry option" where
  "Quadric_new p = (case p of
       Cylinder radius zmin zmax thetamax \<Rightarrow> Some (Q_Cylinder radius zmin zmax (DEG2RAD thetamax))
     | Cone height radius thetamax \<Rightarrow> Some (Q_Cone height radius (DEG2RAD thetamax))
     | Sphere radius zmin zmax thetamax \<Rightarrow> Some (Q_Sphere radius zmin zmax (DEG2RAD thetamax))
     | Hyperboloid p1 p2 thetamax \<Rightarrow> Some (Q_Hyperboloid p1 p2 (DEG2RAD thetamax))
     | Paraboloid rmax zmin zmax thetamax \<Rightarrow> Some (Q_Paraboloid rmax zmin zmax (DEG2RAD thetamax))
     | Torus maxRadius minRadius phimin phimax thetamax \<Rightarrow>
         Some (Q_Torus minRadius maxRadius (DEG2RAD phimin) (DEG2RAD phimax) (DEG2RAD thetamax))
     | _ \<Rightarrow> None)"

section \<open>Patches\<close>

definition PatchBilinear_Eval :: "real Vec3 list \<Rightarrow> real \<Rightarrow> real \<Rightarrow> eval_res" where
  "PatchBilinear_Eval hullPos u v =
     (Vec3_Mix (Vec3_Mix (hullPos ! 0) (hullPos ! 2) v) (Vec3_Mix (hullPos ! 1) (hullPos ! 3) v) u,
      Vec3_Mix (hullPos ! 1 - hullPos ! 0) (hullPos ! 3 - hullPos ! 2) v,
      Vec3_Mix (hullPos ! 2 - hullPos ! 0) (hullPos ! 3 - hullPos ! 1) u)"

text \<open>The coefficients of one row or column of a bicubic patch and their evaluation.\<close>

definition SplinePatchCalc_Setup ::
  "Matrix44 \<Rightarrow> real Vec3 \<Rightarrow> real Vec3 \<Rightarrow> real Vec3 \<Rightarrow> real Vec3
     \<Rightarrow> real Vec3 \<times> real Vec3 \<times> real Vec3 \<times> real Vec3" where
  "SplinePatchCalc_Setup b p0 p1 p2 p3 =
     (let row = (\<lambda>r. scaleR (mij b r 0) p0 + scaleR (mij b r 1) p1 + scaleR (mij b r 2) p2 + scaleR (mij b r 3) p3)
      in (row 0, row 1, row 2, row 3))"

definition SplinePatchCalc_Eval :: "real Vec3 \<times> real Vec3 \<times> real Vec3 \<times> real Vec3 \<Rightarrow> real \<Rightarrow> real Vec3" where
  "SplinePatchCalc_Eval = (\<lambda>(v0, v1, v2, v3) t.
     let t2 = t * t in scaleR t (scaleR t2 v0) + scaleR t2 v1 + scaleR t v2 + v3)"

text \<open>\<open>setupEvalCalc\<close>: one calculation per row of the hull for u and one per column for v.\<close>

definition mCalcU :: "Matrix44 \<Rightarrow> real Vec3 list \<Rightarrow> nat \<Rightarrow> real Vec3 \<times> real Vec3 \<times> real Vec3 \<times> real Vec3" where
  "mCalcU b hullv k = SplinePatchCalc_Setup b (hullv ! (4 * k)) (hullv ! (4 * k + 1)) (hullv ! (4 * k + 2)) (hullv ! (4 * k + 3))"

definition mCalcV :: "Matrix44 \<Rightarrow> real Vec3 list \<Rightarrow> nat \<Rightarrow> real Vec3 \<times> real Vec3 \<times> real Vec3 \<times> real Vec3" where
  "mCalcV b hullv k = SplinePatchCalc_Setup b (hullv ! k) (hullv ! (k + 4)) (hullv ! (k + 8)) (hullv ! (k + 12))"

definition PatchBicubic_Eval :: "Matrix44 \<Rightarrow> Matrix44 \<Rightarrow> real Vec3 list \<Rightarrow> real \<Rightarrow> real \<Rightarrow> eval_res" where
  "PatchBicubic_Eval uBasis vBasis hullv u v =
     (let uBottom = SplinePatchCalc_Eval (mCalcU uBasis hullv 0) u; uMid1 = SplinePatchCalc_Eval (mCalcU uBasis hullv 1) u;
          uMid2 = SplinePatchCalc_Eval (mCalcU uBasis hullv 2) u; uTop = SplinePatchCalc_Eval (mCalcU uBasis hullv 3) u;
          vBottom = SplinePatchCalc_Eval (mCalcV vBasis hullv 0) v; vMid1 = SplinePatchCalc_Eval (mCalcV vBasis hullv 1) v;
          vMid2 = SplinePatchCalc_Eval (mCalcV vBasis hullv 2) v; vTop = SplinePatchCalc_Eval (mCalcV vBasis hullv 3) v in
      (Spline v vBasis uBottom uMid1 uMid2 uTop,
       SplineDeriv u uBasis vBottom vMid1 vMid2 vTop,
       SplineDeriv v vBasis uBottom uMid1 uMid2 uTop))"

section \<open>Evaluation and bounds\<close>

definition Eval_dPdu_dPdv :: "Geometry \<Rightarrow> real \<Rightarrow> real \<Rightarrow> eval_res" where
  "Eval_dPdu_dPdv s u v = (case s of
       Q_Cylinder r z0 z1 th \<Rightarrow> Cylinder_Eval r z0 z1 th u v
     | Q_Cone h r th \<Rightarrow> Cone_Eval h r th u v
     | Q_Sphere r z0 z1 th \<Rightarrow> Sphere_Eval r z0 z1 th u v
     | Q_Hyperboloid p1 p2 th \<Rightarrow> Hyperboloid_Eval p1 p2 th u v
     | Q_Paraboloid r z0 z1 th \<Rightarrow> Paraboloid_Eval r z0 z1 th u v
     | Q_Torus r R p0 p1 th \<Rightarrow> Torus_Eval r R p0 p1 th u v
     | S_PatchBilinear h \<Rightarrow> PatchBilinear_Eval h u v
     | S_PatchBicubic ub vb h \<Rightarrow> PatchBicubic_Eval ub vb h u v)"

definition EvalP :: "Geometry \<Rightarrow> real \<Rightarrow> real \<Rightarrow> real Vec3" where
  "EvalP s u v = fst (Eval_dPdu_dPdv s u v)"

text \<open>The points of a grid over a range of parameters, row by row, padded with the last one.\<close>

primrec fill_row :: "nat \<Rightarrow> real \<Rightarrow> real \<Rightarrow> real \<Rightarrow> (real \<times> real) list" where
  "fill_row 0 u du v = []"
| "fill_row (Suc n) u du v = (u, v) # fill_row n (u + du) du v"

primrec fill_rows :: "nat \<Rightarrow> nat \<Rightarrow> real \<Rightarrow> real \<Rightarrow> real \<Rightarrow> real \<Rightarrow> (real \<times> real) list" where
  "fill_rows 0 xN x1 du v dv = []"
| "fill_rows (Suc n) xN x1 du v dv = fill_row xN x1 du v @ fill_rows n xN x1 du (v + dv) dv"

definition bilinearFill :: "real \<Rightarrow> real \<Rightarrow> real \<Rightarrow> real \<Rightarrow> nat \<Rightarrow> nat \<Rightarrow> nat \<Rightarrow> (real \<times> real) list" where
  "bilinearFill xa ya xb yb xN yN paddedN =
     (let dv = (yb - ya) / (if yN \<noteq> 0 then of_nat (yN - 1) else 1);
          du = (xb - xa) / (if xN \<noteq> 0 then of_nat (xN - 1) else 1);
          pts = fill_rows yN xN xa du ya dv
      in pts @ replicate (paddedN - length pts) (last pts))"

text \<open>The bound of the evaluated grid points; the padding is evaluated but not looked at.\<close>

definition MakeBoundFromUVRangeN ::
  "nat \<Rightarrow> (real \<Rightarrow> real \<Rightarrow> real Vec3) \<Rightarrow> ('g, 't) SimplePrim \<Rightarrow> Bound \<Rightarrow> Bound" where
  "MakeBoundFromUVRangeN DIM_LEN ev this out_bound =
     (let N_ELEMS = DIM_LEN * DIM_LEN;
          N_ELEMS_PAD = unat (DMT_SIMD_PADSIZE (of_nat N_ELEMS));
          uvs = bilinearFill (sp_mURange0 this) (sp_mVRange0 this) (sp_mURange1 this) (sp_mVRange1 this)
                  DIM_LEN DIM_LEN N_ELEMS_PAD;
          Po = map (\<lambda>(u, v). ev u v) uvs
      in fold Expand (take N_ELEMS Po) (Bound_Reset out_bound))"

definition MAKE_BOUND_FROM_UV_RANGE_DIM :: nat where
  "MAKE_BOUND_FROM_UV_RANGE_DIM = 4"

definition bound_dim :: "Geometry \<Rightarrow> nat" where
  "bound_dim s = (case s of
       Q_Cylinder _ _ _ _ \<Rightarrow> MAKE_BOUND_FROM_UV_RANGE_DIM
     | Q_Cone _ _ _ \<Rightarrow> 4
     | Q_Sphere _ _ _ _ \<Rightarrow> 4
     | Q_Hyperboloid _ _ _ \<Rightarrow> 4
     | Q_Paraboloid _ _ _ _ \<Rightarrow> 3
     | Q_Torus _ _ _ _ _ \<Rightarrow> 4
     | S_PatchBilinear _ \<Rightarrow> 2
     | S_PatchBicubic _ _ _ \<Rightarrow> 2)"

type_synonym 't surf_prim = "(Geometry, 't) SimplePrim"

text \<open>The virtual function; \<open>CheckForSplit\<close> passes a bound it has reset.\<close>

definition MakeBound :: "'t surf_prim \<Rightarrow> Bound" where
  "MakeBound p = MakeBoundFromUVRangeN (bound_dim (sp_geom p)) (EvalP (sp_geom p)) p (Bound_Reset (Bound_of 0))"

section \<open>Construction\<close>

definition SimplePrim_range ::
  "real \<Rightarrow> real \<Rightarrow> real \<Rightarrow> real \<Rightarrow> 't \<Rightarrow> Matrix44 \<Rightarrow> 'g \<Rightarrow> ('g, 't) SimplePrim" where
  "SimplePrim_range umin umax vmin vmax attribs xform g =
     \<lparr>sp_mURange0 = umin, sp_mURange1 = umax, sp_mVRange0 = vmin, sp_mVRange1 = vmax, sp_mSplitCnt = 0,
      sp_mDiceGridWd = -1, sp_mDiceGridHe = -1, sp_mpAttribs = attribs, sp_mpTransform = xform, sp_geom = g\<rparr>"

text \<open>The range of every primitive but the NURBS patches; the states are set when it is inserted.\<close>

definition SimplePrim_new :: "'t \<Rightarrow> Matrix44 \<Rightarrow> 'g \<Rightarrow> ('g, 't) SimplePrim" where
  "SimplePrim_new = SimplePrim_range 0 1 0 1"

definition past_end :: exn where
  "past_end = Undefined_behaviour ''index outside a vector''"

definition arr_read :: "'a list \<Rightarrow> int \<Rightarrow> 'a res" where
  "arr_read xs i = (if 0 \<le> i \<and> nat i < length xs then Inr (xs ! nat i) else Inl past_end)"

text \<open>\<open>Float3 (&v[i])\<close>: three floats from index \<open>i\<close> on.\<close>

definition float3_at :: "real list \<Rightarrow> int \<Rightarrow> real Vec3 res" where
  "float3_at xs i =
     res_bind (arr_read xs i) (\<lambda>x. res_bind (arr_read xs (i + 1)) (\<lambda>y.
       res_bind (arr_read xs (i + 2)) (\<lambda>z. Inr (Vec3 x y z))))"

fun float3s :: "real list \<Rightarrow> real Vec3 list" where
  "float3s (x # y # z # xs) = Vec3 x y z # float3s xs"
| "float3s _ = []"

text \<open>
  \<open>ParamsFindP\<close> with a fixed number of points: looks at every second parameter for a name that is
  a global symbol called P.
\<close>

fun params_find_P :: "SymbolList \<Rightarrow> Param list \<Rightarrow> Param option res" where
  "params_find_P syms [] = Inr None"
| "params_find_P syms (k # ps) =
     res_bind (PChar k) (\<lambda>s.
       case FindSymbol s syms of
         Some y \<Rightarrow>
           if Symbol_IsName ''P'' y then
             (case ps of [] \<Rightarrow> Inl (AssThrow ''Invalid number of arguments'') | v # _ \<Rightarrow> Inr (Some v))
           else params_find_P syms (drop 1 ps)
       | None \<Rightarrow> params_find_P syms (drop 1 ps))"

definition ParamsFindP :: "Param list \<Rightarrow> SymbolList \<Rightarrow> nat \<Rightarrow> nat \<Rightarrow> real Vec3 list option res" where
  "ParamsFindP params syms expectedN fromIdx =
     res_bind (params_find_P syms (drop fromIdx params)) (\<lambda>r.
       case r of
         None \<Rightarrow> Inr None
       | Some v \<Rightarrow>
           res_bind (fst (NumVec None v)) (\<lambda>fltVec.
             if length fltVec \<noteq> 3 * expectedN then Inl (AssThrow ''Invalid number of arguments.'')
             else res_bind (reals_of fltVec) (\<lambda>xs. Inr (Some (float3s xs)))))"

definition missing_hull :: exn where
  "missing_hull = AssThrow ''Missing hull parameter''"

definition PatchBilinear_new :: "Param list \<Rightarrow> SymbolList \<Rightarrow> Geometry res" where
  "PatchBilinear_new params syms =
     res_bind (ParamsFindP params syms 4 1) (\<lambda>r.
       case r of None \<Rightarrow> Inl missing_hull | Some pos \<Rightarrow> Inr (S_PatchBilinear pos))"

definition PatchBicubic_new :: "Param list \<Rightarrow> Matrix44 res \<Rightarrow> Matrix44 res \<Rightarrow> SymbolList \<Rightarrow> Geometry res" where
  "PatchBicubic_new params ub vb syms =
     res_bind ub (\<lambda>ub. res_bind vb (\<lambda>vb.
       res_bind (ParamsFindP params syms 16 1) (\<lambda>r.
         case r of None \<Rightarrow> Inl missing_hull | Some pos \<Rightarrow> Inr (S_PatchBicubic ub vb pos))))"

section \<open>Polygons\<close>

text \<open>
  What \<open>Simplify\<close> has inserted into the hider, in order, and how it ended: an exception leaves the
  earlier patches behind.
\<close>

type_synonym inserted = "unit res \<times> Geometry list"

fun then_insert :: "inserted \<Rightarrow> inserted \<Rightarrow> inserted" where
  "then_insert (Inl e, xs) _ = (Inl e, xs)"
| "then_insert (Inr _, xs) (r, ys) = (r, xs @ ys)"

definition simplifyAddTriangle :: "real Vec3 \<Rightarrow> real Vec3 \<Rightarrow> real Vec3 \<Rightarrow> Geometry list" where
  "simplifyAddTriangle va vb vc =
     (let mid = scaleR (1 / 3) (va + vb + vc);
          a = scaleR (1 / 2) (va + vb);
          b = scaleR (1 / 2) (vb + vc);
          c = scaleR (1 / 2) (va + vc)
      in [S_PatchBilinear [va, a, c, mid], S_PatchBilinear [vb, a, b, mid], S_PatchBilinear [vc, b, c, mid]])"

text \<open>
  The fan of quadrilaterals around vertex 0, and a triangle where one vertex is left over. The
  loops of \<open>Polygon\<close> and of \<open>tessellateToBilinearPatches\<close> differ only in how a vertex is read.
\<close>

function fan_loop :: "(int \<Rightarrow> real Vec3 res) \<Rightarrow> int \<Rightarrow> int \<Rightarrow> inserted" where
  "fan_loop vert start lst =
     (let en = min (start + 2) lst in
      if en - start = 2 then
        case res_bind (vert 0) (\<lambda>a. res_bind (vert start) (\<lambda>b. res_bind (vert en) (\<lambda>c.
               res_bind (vert (start + 1)) (\<lambda>d. Inr [a, b, c, d])))) of
          Inl e \<Rightarrow> (Inl e, [])
        | Inr patchVerts \<Rightarrow> then_insert (Inr (), [S_PatchBilinear patchVerts]) (fan_loop vert en lst)
      else if en - start = 1 then
        case res_bind (vert 0) (\<lambda>a. res_bind (vert start) (\<lambda>b. res_bind (vert en) (\<lambda>c. Inr (a, b, c)))) of
          Inl e \<Rightarrow> (Inl e, [])
        | Inr (a, b, c) \<Rightarrow> (Inr (), simplifyAddTriangle a b c)
      else (Inr (), []))"
  by pat_completeness auto
termination
  by (relation "measure (\<lambda>(_, start, lst). nat (lst - start))") auto

declare fan_loop.simps [simp del]

definition missing_P :: exn where
  "missing_P = AssThrow ''Missing P''"

definition Polygon_Simplify :: "Param list \<Rightarrow> inserted" where
  "Polygon_Simplify params =
     (case FindParam ''P'' P_FLT_ARR P_FLT_ARR 0 params of
        Inl e \<Rightarrow> (Inl e, [])
      | Inr i \<Rightarrow>
          if i = -1 then (Inl missing_P, [])
          else case res_bind (arr_read params i) (\<lambda>p. res_bind (fst (NumVec None p)) reals_of) of
                 Inl e \<Rightarrow> (Inl e, [])
               | Inr paramP \<Rightarrow> fan_loop (\<lambda>k. float3_at paramP (3 * k)) 1 (int (length paramP div 3) - 1))"

definition tessellateToBilinearPatches :: "real list \<Rightarrow> int list \<Rightarrow> int \<Rightarrow> int \<Rightarrow> inserted" where
  "tessellateToBilinearPatches paramP pVerts first indicesN =
     fan_loop (\<lambda>k. res_bind (arr_read pVerts (first + k)) (\<lambda>ix. float3_at paramP (3 * ix))) 1 (indicesN - 1)"

definition MAX_VERT_INFO :: nat where
  "MAX_VERT_INFO = 32"

fun build_vinfo :: "nat \<Rightarrow> nat \<Rightarrow> Param list \<Rightarrow> int \<Rightarrow> int res" where
  "build_vinfo vinfoN pidx [] PIdx = (if PIdx = -1 then Inl missing_P else Inr PIdx)"
| "build_vinfo vinfoN pidx (k # ps) PIdx =
     (if \<not> IsString k then Inl (AssThrow ''Expecting parameter name !'')
      else case ps of
        [] \<Rightarrow> Inl (AssThrow ''Missing values'')
      | v # ps' \<Rightarrow>
          res_bind (PChar k) (\<lambda>nm.
            if vinfoN < MAX_VERT_INFO then
              build_vinfo (Suc vinfoN) (pidx + 2) ps' (if strcasecmp_eq nm ''P'' then int (pidx + 1) else PIdx)
            else Inl past_end))"

definition buildVInfoForPoly :: "Param list \<Rightarrow> nat \<Rightarrow> int res" where
  "buildVInfoForPoly params fromParamIdx = build_vinfo 0 fromParamIdx (drop fromParamIdx params) (-1)"

text \<open>\<open>PInt ()\<close> with \<open>IntArrSize ()\<close>: the array of integers, whose first element must exist.\<close>

definition int_array :: "Param list \<Rightarrow> int \<Rightarrow> int list res" where
  "int_array params i =
     res_bind (arr_read params i) (\<lambda>p. res_bind (ensIntArr None p) (\<lambda>_.
       res_bind (vec_at0 (intArrayVal p)) (\<lambda>_. Inr (intArrayVal p))))"

definition vertex_floats :: "Param list \<Rightarrow> nat \<Rightarrow> real list res" where
  "vertex_floats params fromIdx =
     res_bind (buildVInfoForPoly params fromIdx) (\<lambda>i.
       res_bind (arr_read params i) (\<lambda>p. res_bind (fst (NumVec None p)) reals_of))"

fun points_loop :: "real list \<Rightarrow> int list \<Rightarrow> int \<Rightarrow> int list \<Rightarrow> inserted" where
  "points_loop paramP pVerts idxVertsIdx [] = (Inr (), [])"
| "points_loop paramP pVerts idxVertsIdx (n # ns) =
     (if n < 0 then (Inl (AssThrow ''Negative verts count ?!''), [])
      else then_insert (tessellateToBilinearPatches paramP pVerts idxVertsIdx n)
             (points_loop paramP pVerts (idxVertsIdx + n) ns))"

definition PointsPolygons_Simplify :: "Param list \<Rightarrow> inserted" where
  "PointsPolygons_Simplify params =
     (case res_bind (int_array params 0) (\<lambda>pNVerts. res_bind (int_array params 1) (\<lambda>pVerts.
             res_bind (vertex_floats params 2) (\<lambda>paramP. Inr (pNVerts, pVerts, paramP)))) of
        Inl e \<Rightarrow> (Inl e, [])
      | Inr (pNVerts, pVerts, paramP) \<Rightarrow> points_loop paramP pVerts 0 pNVerts)"

text \<open>
  Of a general polygon only the first loop is drawn; the indices of the vertex counts and of the
  vertices advance over that loop only.
\<close>

fun general_loop :: "real list \<Rightarrow> int list \<Rightarrow> int list \<Rightarrow> int \<Rightarrow> int \<Rightarrow> int list \<Rightarrow> inserted" where
  "general_loop paramP pNVerts pVerts nVertsIdx idxVertsIdx [] = (Inr (), [])"
| "general_loop paramP pNVerts pVerts nVertsIdx idxVertsIdx (n # ns) =
     (if n < 0 then (Inl (AssThrow ''Negative loops count ?!''), [])
      else if min n 1 = 0 then general_loop paramP pNVerts pVerts nVertsIdx idxVertsIdx ns
      else case arr_read pNVerts nVertsIdx of
             Inl e \<Rightarrow> (Inl e, [])
           | Inr nVerts \<Rightarrow>
               then_insert (tessellateToBilinearPatches paramP pVerts idxVertsIdx nVerts)
                 (general_loop paramP pNVerts pVerts (nVertsIdx + 1) (idxVertsIdx + nVerts) ns))"

definition PointsGeneralPolygons_Simplify :: "Param list \<Rightarrow> inserted" where
  "PointsGeneralPolygons_Simplify params =
     (case res_bind (int_array params 0) (\<lambda>pNLoops. res_bind (int_array params 1) (\<lambda>pNVerts.
             res_bind (int_array params 2) (\<lambda>pVerts.
               res_bind (vertex_floats params 3) (\<lambda>paramP. Inr (pNLoops, pNVerts, pVerts, paramP))))) of
        Inl e \<Rightarrow> (Inl e, [])
      | Inr (pNLoops, pNVerts, pVerts, paramP) \<Rightarrow> general_loop paramP pNVerts pVerts 0 0 pNLoops)"

section \<open>Patch meshes\<close>

fun insert_each :: "('i \<Rightarrow> Geometry res) \<Rightarrow> 'i list \<Rightarrow> inserted" where
  "insert_each f [] = (Inr (), [])"
| "insert_each f (i # idxs) =
     (case f i of Inl e \<Rightarrow> (Inl e, []) | Inr s \<Rightarrow> then_insert (Inr (), [s]) (insert_each f idxs))"

fun res_list :: "'a res list \<Rightarrow> 'a list res" where
  "res_list [] = Inr []"
| "res_list (x # xs) = res_bind x (\<lambda>a. res_bind (res_list xs) (\<lambda>bs. Inr (a # bs)))"

definition bilinear_mesh_hull :: "real list \<Rightarrow> int \<Rightarrow> int \<Rightarrow> int \<times> int \<Rightarrow> Geometry res" where
  "bilinear_mesh_hull pMeshHull nu nv = (\<lambda>(i, j).
     let ii = (i + 1) mod nu; jj = (j + 1) mod nv in
     res_bind (res_list (map (\<lambda>k. float3_at pMeshHull (k * 3)) [i + nu * j, ii + nu * j, i + nu * jj, ii + nu * jj]))
       (\<lambda>h. Inr (S_PatchBilinear h)))"

definition bilinear_mesh :: "real list \<Rightarrow> int \<Rightarrow> int \<Rightarrow> bool \<Rightarrow> bool \<Rightarrow> inserted" where
  "bilinear_mesh pMeshHull nu nv uPeriodic vPeriodic =
     (let nUPatches = nu - 1 + (if uPeriodic then 1 else 0);
          nVPatches = nv - 1 + (if vPeriodic then 1 else 0)
      in insert_each (bilinear_mesh_hull pMeshHull nu nv)
           (concat (map (\<lambda>i. map (\<lambda>j. (i, j)) [0..nVPatches - 1]) [0..nUPatches - 1])))"

text \<open>C's division by a positive number, and its remainder of a number that is not negative.\<close>

definition c_div :: "int \<Rightarrow> int \<Rightarrow> int" where
  "c_div a b = (if a < 0 then - (- a div b) else a div b)"

definition c_mod :: "int \<Rightarrow> int \<Rightarrow> int res" where
  "c_mod a b = (if b = 0 then Inl (Undefined_behaviour ''division by zero'') else Inr (a mod \<bar>b\<bar>))"

definition bicubic_mesh_hull ::
  "real list \<Rightarrow> int \<Rightarrow> int \<Rightarrow> int \<Rightarrow> int \<Rightarrow> Matrix44 res \<Rightarrow> Matrix44 res \<Rightarrow> int \<times> int \<Rightarrow> Geometry res" where
  "bicubic_mesh_hull pMeshHull nu nv uSteps vSteps ub vb = (\<lambda>(i0, j0).
     res_bind (res_list (concat (map (\<lambda>j. map (\<lambda>i.
         res_bind (c_mod (i + i0 * uSteps) nu) (\<lambda>a. res_bind (c_mod (j + j0 * vSteps) nv) (\<lambda>b.
           float3_at pMeshHull ((a + b * nu) * 3)))) [0..3]) [0..3])))
       (\<lambda>h. res_bind ub (\<lambda>ub. res_bind vb (\<lambda>vb. Inr (S_PatchBicubic ub vb h)))))"

definition bicubic_mesh :: "Attributes \<Rightarrow> real list \<Rightarrow> int \<Rightarrow> int \<Rightarrow> bool \<Rightarrow> bool \<Rightarrow> inserted" where
  "bicubic_mesh attr pMeshHull nu nv uPeriodic vPeriodic =
     (let uSteps = mUSteps attr; vSteps = mVSteps attr in
      if \<not> (1 \<le> uSteps \<and> uSteps \<le> 16) then (Inl (AssThrow ''Invalid uSteps''), [])
      else if \<not> (1 \<le> vSteps \<and> vSteps \<le> 16) then (Inl (AssThrow ''Invalid vSteps''), [])
      else
        let nUPatches = (if uPeriodic then c_div nu uSteps else c_div (nu - 4) uSteps + 1);
            nVPatches = (if vPeriodic then c_div nv vSteps else c_div (nv - 4) vSteps + 1)
        in insert_each (bicubic_mesh_hull pMeshHull nu nv uSteps vSteps (GetUBasis attr) (GetVBasis attr))
             (concat (map (\<lambda>j0. map (\<lambda>i0. (i0, j0)) [0..nUPatches - 1]) [0..nVPatches - 1])))"

text \<open>The sizes, whether each direction is periodic, and the floats of the hull if there are any.\<close>

definition mesh_header :: "SymbolList \<Rightarrow> Param list \<Rightarrow> (int \<times> bool \<times> int \<times> bool \<times> int) res" where
  "mesh_header syms params =
     res_bind (arr_read params 1) (\<lambda>pa. res_bind (Param_Int pa) (\<lambda>nu.
     res_bind (arr_read params 2) (\<lambda>pb. res_bind (PChar pb) (\<lambda>uw.
     res_bind (arr_read params 3) (\<lambda>pc. res_bind (Param_Int pc) (\<lambda>nv.
     res_bind (arr_read params 4) (\<lambda>pd. res_bind (PChar pd) (\<lambda>vw.
       case (FindSymbol uw syms, FindSymbol vw syms) of
         (Some pyUWrap, Some pyVWrap) \<Rightarrow>
           res_bind (FindParam ''P'' P_FLT_ARR P_FLT_ARR 5 params) (\<lambda>idx.
             Inr (nu, Symbol_IsName ''periodic'' pyUWrap, nv, Symbol_IsName ''periodic'' pyVWrap, idx))
       | _ \<Rightarrow> Inl null_deref))))))))"

definition PatchMesh_Simplify :: "SymbolList \<Rightarrow> Attributes \<Rightarrow> Symbol option \<Rightarrow> Param list \<Rightarrow> inserted" where
  "PatchMesh_Simplify syms attr mpPatchType params =
     (case mesh_header syms params of
        Inl e \<Rightarrow> (Inl e, [])
      | Inr (nu, uPeriodic, nv, vPeriodic, idx) \<Rightarrow>
          if idx = -1 then (Inr (), [])
          else case res_bind (arr_read params idx)
                      (\<lambda>p. res_bind (PFlt (Some (nat (3 * nu * nv))) p) reals_of) of
                 Inl e \<Rightarrow> (Inl e, [])
               | Inr pMeshHull \<Rightarrow>
                   (case mpPatchType of
                      None \<Rightarrow> (Inl null_deref, [])
                    | Some y \<Rightarrow>
                        if Symbol_IsName ''bilinear'' y then bilinear_mesh pMeshHull nu nv uPeriodic vPeriodic
                        else if Symbol_IsName ''bicubic'' y then bicubic_mesh attr pMeshHull nu nv uPeriodic vPeriodic
                        else (Inl (Runtime_error ''Unrecognized Patch type''), [])))"

section \<open>Simplifying the primitives of a world\<close>

text \<open>
  The primitives of the hider before \<open>worldEnd_simplify\<close>; a complex one is known by the arguments of
  its constructor, with its attributes and transformation.
\<close>

datatype hider_prim = HSimple "Attributes surf_prim" | HComplex Prim Attributes Matrix44

definition Simplify :: "SymbolList \<Rightarrow> Attributes \<Rightarrow> Prim \<Rightarrow> inserted" where
  "Simplify syms attr p = (case p of
       Polygon params \<Rightarrow> Polygon_Simplify params
     | PointsPolygons params \<Rightarrow> PointsPolygons_Simplify params
     | PointsGeneralPolygons params \<Rightarrow> PointsGeneralPolygons_Simplify params
     | PatchMesh typ params \<Rightarrow>
         (case typ of None \<Rightarrow> (Inl null_deref, [])
          | Some t \<Rightarrow> PatchMesh_Simplify syms attr (FindSymbol t syms) params)
     | _ \<Rightarrow> (Inr (), []))"

text \<open>The list grows at its end while the loop runs over it; a simplified primitive becomes null.\<close>

definition is_complex :: "hider_prim \<Rightarrow> bool" where
  "is_complex p = (case p of HComplex _ _ _ \<Rightarrow> True | HSimple _ \<Rightarrow> False)"

function simplify_loop ::
  "SymbolList \<Rightarrow> hider_prim option list \<Rightarrow> hider_prim list \<Rightarrow> unit res \<times> hider_prim option list" where
  "simplify_loop syms seen [] = (Inr (), seen)"
| "simplify_loop syms seen (HSimple p # ps) = simplify_loop syms (seen @ [Some (HSimple p)]) ps"
| "simplify_loop syms seen (HComplex c attr xform # ps) =
     (case Simplify syms attr c of
        (Inl e, ss) \<Rightarrow>
          (Inl e, seen @ map Some (HComplex c attr xform # ps @ map (\<lambda>s. HSimple (SimplePrim_new attr xform s)) ss))
      | (Inr _, ss) \<Rightarrow>
          simplify_loop syms (seen @ [None]) (ps @ map (\<lambda>s. HSimple (SimplePrim_new attr xform s)) ss))"
  by pat_completeness auto
termination
  by (relation "measures [\<lambda>(_, _, ps). length (filter is_complex ps), \<lambda>(_, _, ps). length ps]")
     (auto simp: is_complex_def filter_map comp_def)

definition worldEnd_simplify :: "SymbolList \<Rightarrow> hider_prim list \<Rightarrow> unit res \<times> hider_prim option list" where
  "worldEnd_simplify syms ps = simplify_loop syms [] ps"

section \<open>NURBS patches\<close>

record BaseDef =
  mUKnots :: "real list"
  mVKnots :: "real list"
  mCtrlPws :: "real Vec4 list"
  mUOrder :: int
  mVOrder :: int
  mNu :: int
  mNv :: int

definition MAXORDER :: int where
  "MAXORDER = 20"

fun knots_sorted :: "real list \<Rightarrow> bool" where
  "knots_sorted (a # b # xs) = (a \<le> b \<and> knots_sorted (b # xs))"
| "knots_sorted _ = True"

text \<open>The source has at least as many knots as are copied, or the copy reads past its end.\<close>

definition fillKnot :: "real list \<Rightarrow> int \<Rightarrow> int \<Rightarrow> real list res" where
  "fillKnot pSrcKnots n order =
     (if n + order < 0 then Inl (Not_modelled ''resize to a negative size'')
      else
        let ks = take (nat (n + order)) pSrcKnots in
        if \<not> knots_sorted ks then Inl (AssThrow ''Invalid knot value'')
        else if length ks < nat (n + order) then Inl past_end
        else Inr ks)"

text \<open>
  The control points. With \<open>P\<close> the loop assigns \<open>x\<close> three times and leaves \<open>y\<close> and \<open>z\<close> as the
  memory was (\<open>mem\<close>); with \<open>Pw\<close> it copies all four floats.
\<close>

definition ctrl_from_P :: "(nat \<Rightarrow> real Vec4) \<Rightarrow> real list \<Rightarrow> nat \<Rightarrow> real Vec4 list" where
  "ctrl_from_P mem src n =
     map (\<lambda>i. let x = src ! (3 * i); x = src ! (3 * i + 1); x = src ! (3 * i + 2)
               in Vec4 x (y4 (mem i)) (z4 (mem i)) 1) [0..<n]"

definition ctrl_from_Pw :: "real list \<Rightarrow> nat \<Rightarrow> real Vec4 list" where
  "ctrl_from_Pw src n =
     map (\<lambda>i. Vec4 (src ! (4 * i)) (src ! (4 * i + 1)) (src ! (4 * i + 2)) (src ! (4 * i + 3))) [0..<n]"

definition NuPatch_points :: "(nat \<Rightarrow> real Vec4) \<Rightarrow> Param list \<Rightarrow> nat \<Rightarrow> real Vec4 list res" where
  "NuPatch_points mem params nPoints =
     res_bind (FindParam ''P'' P_FLT_ARR P_FLT_ARR 10 params) (\<lambda>i.
       if i \<noteq> -1 then
         res_bind (arr_read params i) (\<lambda>p. res_bind (PFlt_read (nPoints * 3) p) (\<lambda>src.
           Inr (ctrl_from_P mem src nPoints)))
       else
         res_bind (FindParam ''Pw'' P_FLT_ARR P_FLT_ARR 10 params) (\<lambda>i.
           if i = -1 then Inl (AssThrow ''Missing P or Pw parameter'')
           else res_bind (arr_read params i) (\<lambda>p. res_bind (PFlt_read (nPoints * 4) p) (\<lambda>src.
             Inr (ctrl_from_Pw src nPoints)))))"

text \<open>\<open>DASSTHROW\<close>: the exception when the condition fails.\<close>

definition dassthrow :: "bool \<Rightarrow> string \<Rightarrow> unit res" where
  "dassthrow cond msg = (if cond then Inr () else Inl (AssThrow msg))"

definition NuPatch_new ::
  "(nat \<Rightarrow> real Vec4) \<Rightarrow> int \<Rightarrow> int \<Rightarrow> real list \<Rightarrow> real \<Rightarrow> real \<Rightarrow> int \<Rightarrow> int \<Rightarrow> real list \<Rightarrow> real \<Rightarrow> real
     \<Rightarrow> Param list \<Rightarrow> BaseDef res" where
  "NuPatch_new mem nu uorder pUknot umin umax nv vorder pVknot vmin vmax params =
     res_bind (dassthrow (1 < uorder \<and> 1 < vorder) ''Patch order must be 2 or larger'') (\<lambda>_.
     res_bind (dassthrow (uorder \<le> MAXORDER \<and> vorder \<le> MAXORDER) ''Patch order must be no higher than 20'') (\<lambda>_.
     res_bind (dassthrow (umin < umax \<and> vmin < vmax) ''min parameter must be less than max'') (\<lambda>_.
     res_bind (fillKnot pUknot nu uorder) (\<lambda>uk.
     res_bind (fillKnot pVknot nv vorder) (\<lambda>vk.
     res_bind (arr_read uk (uorder - 2)) (\<lambda>ulo.
     res_bind (arr_read vk (vorder - 2)) (\<lambda>vlo.
     res_bind (dassthrow (ulo \<le> umin \<and> vlo \<le> vmin) ''min parameter must be larger or equal of knot'') (\<lambda>_.
     res_bind (arr_read uk nu) (\<lambda>uhi.
     res_bind (arr_read vk nv) (\<lambda>vhi.
     res_bind (dassthrow (umax \<le> uhi \<and> vmax \<le> vhi) ''max less than knot'') (\<lambda>_.
     let uSegmentsN = nu - (uorder - 1); vSegmentsN = nv - (uorder - 1) in
     res_bind (dassthrow (uSegmentsN \<le> 0 \<or> vSegmentsN \<noteq> 0) ''The patch generates no segments !'') (\<lambda>_.
     res_bind (NuPatch_points mem params (nat (nu * nv))) (\<lambda>pws.
     Inr \<lparr>mUKnots = uk, mVKnots = vk, mCtrlPws = pws, mUOrder = uorder, mVOrder = vorder, mNu = nu, mNv = nv\<rparr>)))))))))))))"

text \<open>One lane of the search for the segment of a parameter: down from the last knot.\<close>

fun break_loop :: "real list \<Rightarrow> real \<Rightarrow> nat \<Rightarrow> nat res" where
  "break_loop kv useU 0 = Inr 0"
| "break_loop kv useU (Suc i) =
     res_bind (arr_read kv (int (Suc i))) (\<lambda>k. if useU < k then break_loop kv useU i else Inr (Suc i))"

definition findBreakPoint :: "real \<Rightarrow> real list \<Rightarrow> int \<Rightarrow> int \<Rightarrow> int res" where
  "findBreakPoint u kv m k =
     res_bind (arr_read kv (m + k)) (\<lambda>lst. let useU = D_Min u lst in
     res_bind (arr_read kv (m + 1)) (\<lambda>ed.
       if useU = ed then Inr m
       else res_bind (break_loop kv useU (nat (m + k))) (\<lambda>i. Inr (int i))))"

text \<open>
  The basis functions, in the order of the array. The argument of the inner loop counts \<open>s + 1\<close>
  down; a divisor of zero, an infinity in the source, gives zero here.
\<close>

fun basis_inner :: "real list \<Rightarrow> real \<Rightarrow> nat \<Rightarrow> nat \<Rightarrow> int \<Rightarrow> real list \<Rightarrow> real list res" where
  "basis_inner kv u r 0 i bvals = Inr bvals"
| "basis_inner kv u r (Suc s) i bvals =
     res_bind (if i + 1 < 0 then Inr 0
               else res_bind (arr_read kv (i + 1)) (\<lambda>a. res_bind (arr_read kv (i + 1 + int r - 1)) (\<lambda>c.
                      Inr ((u - a) / (c - a)))))
       (\<lambda>omega. basis_inner kv u r s (i + 1)
          (bvals[Suc s := bvals ! Suc s + (1 - omega) * bvals ! s, s := omega * bvals ! s]))"

fun basis_outer :: "real list \<Rightarrow> real \<Rightarrow> int \<Rightarrow> nat \<Rightarrow> nat \<Rightarrow> real list \<Rightarrow> real list res" where
  "basis_outer kv u brkPoint 0 r bvals = Inr bvals"
| "basis_outer kv u brkPoint (Suc n) r bvals =
     res_bind (basis_inner kv u r (r - 1) (brkPoint - int r + 1) (bvals @ [0]))
       (basis_outer kv u brkPoint n (Suc r))"

definition basisFunctions :: "real \<Rightarrow> int \<Rightarrow> real list \<Rightarrow> int \<Rightarrow> real list res" where
  "basisFunctions u brkPoint kv k = basis_outer kv u brkPoint (nat (k - 1)) 2 [1]"

fun deriv_inner :: "real list \<Rightarrow> real \<Rightarrow> int \<Rightarrow> nat \<Rightarrow> int \<Rightarrow> real list \<Rightarrow> real list res" where
  "deriv_inner kv knotScale k 0 i dvals = Inr dvals"
| "deriv_inner kv knotScale k (Suc s) i dvals =
     res_bind (arr_read kv (i + 1 + k - 1)) (\<lambda>c. res_bind (arr_read kv (i + 1)) (\<lambda>a.
       let omega = knotScale * of_int (k - 1) / (c - a) in
       deriv_inner kv knotScale k s (i + 1)
         (dvals[Suc s := dvals ! Suc s + - omega * dvals ! s, s := dvals ! s * omega])))"

definition basisDerivatives :: "real \<Rightarrow> int \<Rightarrow> real list \<Rightarrow> int \<Rightarrow> real list res" where
  "basisDerivatives u brkPoint kv k =
     res_bind (basisFunctions u brkPoint kv (k - 1)) (\<lambda>dvals.
     res_bind (arr_read kv (brkPoint + 1)) (\<lambda>c. res_bind (arr_read kv brkPoint) (\<lambda>a.
       deriv_inner kv (c - a) k (nat (k - 1)) (brkPoint - k + 1) (dvals @ [0]))))"

text \<open>The weighted sum of the control points that a parameter sees, row by row.\<close>

fun weigh_row :: "real Vec4 list \<Rightarrow> int \<Rightarrow> nat list \<Rightarrow> (nat \<Rightarrow> real) \<Rightarrow> real Vec4 \<Rightarrow> real Vec4 res" where
  "weigh_row ctrlPws idx [] w acc = Inr acc"
| "weigh_row ctrlPws idx (j # js) w acc =
     res_bind (arr_read ctrlPws (idx + int j)) (\<lambda>srcPw.
       weigh_row ctrlPws idx js w (Vec4_opV (+) acc (Vec4_opS (*) srcPw (w j))))"

fun weigh_rows :: "real Vec4 list \<Rightarrow> int \<Rightarrow> int \<Rightarrow> nat \<Rightarrow> nat list \<Rightarrow> (nat \<Rightarrow> nat \<Rightarrow> real) \<Rightarrow> real Vec4 \<Rightarrow> real Vec4 res" where
  "weigh_rows ctrlPws ptsPerRow idx uorder [] w acc = Inr acc"
| "weigh_rows ctrlPws ptsPerRow idx uorder (i # is') w acc =
     res_bind (weigh_row ctrlPws idx [0..<uorder] (w i) acc)
       (weigh_rows ctrlPws ptsPerRow (idx + ptsPerRow) uorder is' w)"

definition NuPatch_Eval :: "BaseDef \<Rightarrow> real \<Rightarrow> real \<Rightarrow> eval_res res" where
  "NuPatch_Eval d u v =
     (let uorder = mUOrder d; vorder = mVOrder d; uo = nat uorder; vo = nat vorder in
      res_bind (findBreakPoint u (mUKnots d) (mNu d - 1) uorder) (\<lambda>ubrk.
      res_bind (basisFunctions u ubrk (mUKnots d) uorder) (\<lambda>bu.
      res_bind (basisDerivatives u ubrk (mUKnots d) uorder) (\<lambda>buprime.
      res_bind (findBreakPoint v (mVKnots d) (mNv d - 1) vorder) (\<lambda>vbrk.
      res_bind (basisFunctions v vbrk (mVKnots d) vorder) (\<lambda>bv.
      res_bind (basisDerivatives v vbrk (mVKnots d) vorder) (\<lambda>bvprime.
        let idx = (vbrk - vorder + 1) * mNu d + (ubrk - uorder + 1);
            total = (\<lambda>cu cv. weigh_rows (mCtrlPws d) (mNu d) idx uo [0..<vo]
                       (\<lambda>i j. cu ! (uo - 1 - j) * cv ! (vo - 1 - i)) (Vec4_splat 0)) in
        res_bind (total bu bv) (\<lambda>r. res_bind (total buprime bv) (\<lambda>rutan. res_bind (total bu bvprime) (\<lambda>rvtan.
          let wsqrdiv = 1 / (w4 r * w4 r);
              quot = (\<lambda>t. scaleR wsqrdiv (scaleR (w4 r) (Vec4_GetAsV3 t) - scaleR (w4 t) (Vec4_GetAsV3 r)))
          in Inr (scaleR (1 / w4 r) (Vec4_GetAsV3 r), quot rutan, quot rvtan)))))))))))"

end
