(* ===== verification/Tiling.thy ===== *)
theory Tiling
  imports Primitives
begin

text \<open>
  The points of a bilinear patch, for the patches that polygons are cut into: a corner piece of a
  triangle holds the points that are nearest to its corner in barycentric coordinates, and the
  patch of a flat convex quadrilateral holds the points of the two triangles it stands for. Both
  need a solution of a quadratic system, which the intermediate value theorem gives.
\<close>

section \<open>Images and triangles\<close>

definition patch_image :: "Geometry \<Rightarrow> real Vec3 set" where
  "patch_image s = {EvalP s u v |u v. 0 \<le> u \<and> u \<le> 1 \<and> 0 \<le> v \<and> v \<le> 1}"

definition combo :: "real \<Rightarrow> real Vec3 \<Rightarrow> real \<Rightarrow> real Vec3 \<Rightarrow> real \<Rightarrow> real Vec3 \<Rightarrow> real Vec3" where
  "combo \<alpha> a \<beta> b \<gamma> c = scaleR \<alpha> a + scaleR \<beta> b + scaleR \<gamma> c"

definition triangle :: "real Vec3 \<Rightarrow> real Vec3 \<Rightarrow> real Vec3 \<Rightarrow> real Vec3 set" where
  "triangle a b c = {combo \<alpha> a \<beta> b \<gamma> c |\<alpha> \<beta> \<gamma>. 0 \<le> \<alpha> \<and> 0 \<le> \<beta> \<and> 0 \<le> \<gamma> \<and> \<alpha> + \<beta> + \<gamma> = 1}"

lemma triangle_I:
  "0 \<le> \<alpha> \<Longrightarrow> 0 \<le> \<beta> \<Longrightarrow> 0 \<le> \<gamma> \<Longrightarrow> \<alpha> + \<beta> + \<gamma> = 1 \<Longrightarrow> combo \<alpha> a \<beta> b \<gamma> c \<in> triangle a b c"
  unfolding triangle_def by blast

text \<open>The part of a triangle where the weight of the first corner is the largest.\<close>

definition corner :: "real Vec3 \<Rightarrow> real Vec3 \<Rightarrow> real Vec3 \<Rightarrow> real Vec3 set" where
  "corner a b c = {combo \<alpha> a \<beta> b \<gamma> c |\<alpha> \<beta> \<gamma>. 0 \<le> \<beta> \<and> \<beta> \<le> \<alpha> \<and> 0 \<le> \<gamma> \<and> \<gamma> \<le> \<alpha> \<and> \<alpha> + \<beta> + \<gamma> = 1}"

text \<open>
  The corners a, b, d, c in this order bound a flat convex quadrilateral: d lies in the angle at a
  and beyond the diagonal from b to c.
\<close>

definition flat_convex :: "real Vec3 \<Rightarrow> real Vec3 \<Rightarrow> real Vec3 \<Rightarrow> real Vec3 \<Rightarrow> bool" where
  "flat_convex a b d c \<longleftrightarrow>
     (\<exists>p q. 0 < p \<and> 0 < q \<and> 1 \<le> p + q \<and> d = a + scaleR p (b - a) + scaleR q (c - a))"

lemma bilinear_point:
  "EvalP (S_PatchBilinear [a, b, c, d]) u v =
     scaleR ((1 - u) * (1 - v)) a + scaleR (u * (1 - v)) b + scaleR ((1 - u) * v) c + scaleR (u * v) d"
  by (rule Vec3_eqI)
    (simp_all add: EvalP_def Eval_dPdu_dPdv_def PatchBilinear_Eval_def Vec3_ops Vec3_Mix_def algebra_simps)

lemma triangle_swap: "triangle b a c \<subseteq> triangle a b c" "triangle c b a \<subseteq> triangle a b c"
proof -
  have "combo \<alpha> b \<beta> a \<gamma> c = combo \<beta> a \<alpha> b \<gamma> c" "combo \<alpha> c \<beta> b \<gamma> a = combo \<gamma> a \<beta> b \<alpha> c" for \<alpha> \<beta> \<gamma>
    by (simp_all add: combo_def)
  then have w: "combo \<alpha> b \<beta> a \<gamma> c \<in> triangle a b c" "combo \<alpha> c \<beta> b \<gamma> a \<in> triangle a b c"
    if "0 \<le> \<alpha>" "0 \<le> \<beta>" "0 \<le> \<gamma>" "\<alpha> + \<beta> + \<gamma> = 1" for \<alpha> \<beta> \<gamma>
    using that triangle_I [of \<beta> \<alpha> \<gamma> a b c] triangle_I [of \<gamma> \<beta> \<alpha> a b c] by simp_all
  show "triangle b a c \<subseteq> triangle a b c" "triangle c b a \<subseteq> triangle a b c"
    using w by (auto simp: triangle_def [of b a c] triangle_def [of c b a])
qed

lemma triangle_corners: "triangle a b c = corner a b c \<union> corner b a c \<union> corner c b a"
proof
  show "triangle a b c \<subseteq> corner a b c \<union> corner b a c \<union> corner c b a"
  proof
    fix x
    assume "x \<in> triangle a b c"
    then obtain \<alpha> \<beta> \<gamma> where w: "0 \<le> \<alpha>" "0 \<le> \<beta>" "0 \<le> \<gamma>" "\<alpha> + \<beta> + \<gamma> = 1" "x = combo \<alpha> a \<beta> b \<gamma> c"
      by (auto simp: triangle_def)
    then have e: "x = combo \<beta> b \<alpha> a \<gamma> c" "x = combo \<gamma> c \<beta> b \<alpha> a" by (simp_all add: combo_def)
    consider "\<beta> \<le> \<alpha>" "\<gamma> \<le> \<alpha>" | "\<alpha> \<le> \<beta>" "\<gamma> \<le> \<beta>" | "\<alpha> \<le> \<gamma>" "\<beta> \<le> \<gamma>" by linarith
    then show "x \<in> corner a b c \<union> corner b a c \<union> corner c b a"
    proof cases
      case 1
      then have "x \<in> corner a b c" unfolding corner_def using w by blast
      then show ?thesis by blast
    next
      case 2
      moreover have "\<beta> + \<alpha> + \<gamma> = 1" using w by simp
      ultimately have "x \<in> corner b a c" unfolding corner_def using w e by blast
      then show ?thesis by blast
    next
      case 3
      moreover have "\<gamma> + \<beta> + \<alpha> = 1" using w by simp
      ultimately have "x \<in> corner c b a" unfolding corner_def using w e by blast
      then show ?thesis by blast
    qed
  qed
  have sub: "corner a b c \<subseteq> triangle a b c" for a b c
    unfolding corner_def triangle_def using order_trans by blast
  show "corner a b c \<union> corner b a c \<union> corner c b a \<subseteq> triangle a b c"
    using sub [of a b c] sub [of b a c] sub [of c b a] triangle_swap [of b a c] triangle_swap [of c b a] by blast
qed

section \<open>Pieces of a triangle\<close>

lemma corner_weights:
  fixes \<beta> \<gamma> :: real
  assumes "0 \<le> \<gamma>" "\<gamma> \<le> \<beta>" "2 * \<beta> + \<gamma> \<le> 1"
  obtains u v where "0 \<le> u" "u \<le> 1" "0 \<le> v" "v \<le> 1" "\<beta> = u / 2 - u * v / 6" "\<gamma> = v / 2 - u * v / 6"
proof -
  define \<delta> where "\<delta> = \<beta> - \<gamma>"
  let ?f = "\<lambda>u. u / 2 - u * (u - 2 * \<delta>) / 6"
  have "2 * \<delta> \<le> 1" using assms by (simp add: \<delta>_def)
  moreover have "?f (2 * \<delta>) \<le> \<beta>" "\<beta> \<le> ?f 1" using assms by (simp_all add: \<delta>_def field_simps)
  moreover have "continuous_on {2 * \<delta>..1} ?f" by (intro continuous_intros) simp_all
  ultimately obtain u where u: "2 * \<delta> \<le> u" "u \<le> 1" "?f u = \<beta>" using IVT' [of ?f "2 * \<delta>" \<beta> 1] by auto
  have d: "0 \<le> \<delta>" using assms by (simp add: \<delta>_def)
  have "\<gamma> = (u - 2 * \<delta>) / 2 - u * (u - 2 * \<delta>) / 6" using u(3) by (simp add: \<delta>_def field_simps)
  with u d that [of u "u - 2 * \<delta>"] show ?thesis by simp
qed

lemma corner_piece:
  "patch_image (S_PatchBilinear [a, scaleR (1 / 2) (a + b), scaleR (1 / 2) (a + c), scaleR (1 / 3) (a + b + c)])
     = corner a b c"
proof -
  let ?s = "S_PatchBilinear [a, scaleR (1 / 2) (a + b), scaleR (1 / 2) (a + c), scaleR (1 / 3) (a + b + c)]"
  have pt: "EvalP ?s u v = combo (1 - (u / 2 - u * v / 6) - (v / 2 - u * v / 6)) a
      (u / 2 - u * v / 6) b (v / 2 - u * v / 6) c" for u v
    unfolding bilinear_point by (rule Vec3_eqI) (simp_all add: combo_def Vec3_ops field_simps)
  show ?thesis
  proof (intro set_eqI iffI)
    fix x
    assume "x \<in> patch_image ?s"
    then obtain u v where uv: "0 \<le> u" "u \<le> 1" "0 \<le> v" "v \<le> 1" "x = EvalP ?s u v"
      by (auto simp: patch_image_def)
    let ?B = "u / 2 - u * v / 6" and ?G = "v / 2 - u * v / 6"
    have "u * v \<le> u" "u * v \<le> v" using uv mult_left_mono [of v 1 u] mult_right_mono [of u 1 v] by simp_all
    then have "0 \<le> ?B" "0 \<le> ?G" using uv by (simp_all add: field_simps)
    moreover have "0 \<le> (1 - u) * (1 - v / 2)" "0 \<le> (1 - v) * (1 - u / 2)" using uv by simp_all
    then have "0 \<le> 1 - u - v / 2 + u * v / 2" "0 \<le> 1 - v - u / 2 + u * v / 2"
      by (simp_all add: left_diff_distrib right_diff_distrib mult.commute)
    then have "?B \<le> 1 - ?B - ?G" "?G \<le> 1 - ?B - ?G" by linarith+
    moreover have "1 - ?B - ?G + ?B + ?G = 1" by simp
    ultimately show "x \<in> corner a b c" unfolding corner_def uv(5) pt by blast
  next
    fix x
    assume "x \<in> corner a b c"
    then obtain \<alpha> \<beta> \<gamma> where w: "0 \<le> \<beta>" "\<beta> \<le> \<alpha>" "0 \<le> \<gamma>" "\<gamma> \<le> \<alpha>" "\<alpha> + \<beta> + \<gamma> = 1" "x = combo \<alpha> a \<beta> b \<gamma> c"
      by (auto simp: corner_def)
    have "\<exists>u v. 0 \<le> u \<and> u \<le> 1 \<and> 0 \<le> v \<and> v \<le> 1 \<and> \<beta> = u / 2 - u * v / 6 \<and> \<gamma> = v / 2 - u * v / 6"
    proof (cases "\<gamma> \<le> \<beta>")
      case True
      then show ?thesis using corner_weights [of \<gamma> \<beta>] w by (smt (verit))
    next
      case False
      then obtain u v where "0 \<le> u" "u \<le> 1" "0 \<le> v" "v \<le> 1" "\<gamma> = u / 2 - u * v / 6" "\<beta> = v / 2 - u * v / 6"
        using corner_weights [of \<beta> \<gamma>] w by (smt (verit))
      then show ?thesis by (intro exI [of _ v] exI [of _ u]) (simp add: mult.commute)
    qed
    then obtain u v where "0 \<le> u" "u \<le> 1" "0 \<le> v" "v \<le> 1" "\<beta> = u / 2 - u * v / 6" "\<gamma> = v / 2 - u * v / 6"
      by blast
    moreover have "\<alpha> = 1 - \<beta> - \<gamma>" using w by simp
    then have "x = combo (1 - \<beta> - \<gamma>) a \<beta> b \<gamma> c" using w(6) by simp
    then have "x = EvalP ?s u v" unfolding pt using calculation by simp
    ultimately show "x \<in> patch_image ?s" unfolding patch_image_def by blast
  qed
qed

section \<open>Flat convex quadrilaterals\<close>

text \<open>The bilinear map of the quadrilateral in the coordinates of two sides, onto one triangle.\<close>

lemma quad_weights:
  fixes p q :: real
  assumes pq: "0 < p" "0 < q" "1 \<le> p + q" and w: "0 \<le> \<beta>" "0 \<le> \<delta>" "\<beta> + \<delta> \<le> 1"
  obtains u v where "0 \<le> u" "u \<le> 1" "0 \<le> v" "v \<le> 1"
    "\<beta> + \<delta> * p = u * (1 - v + v * p)" "\<delta> * q = v * (1 - u + u * q)"
proof -
  define n where "n = (\<lambda>u. 1 - u + u * q)"
  let ?v = "\<lambda>u. \<delta> * q / n u"
  let ?g = "\<lambda>u. u * (1 - ?v u + ?v u * p)"
  have n: "0 < n u" if "0 \<le> u" "u \<le> 1" for u
    using that pq by (cases "u = 1") (auto simp: n_def intro: add_pos_nonneg)
  have nz: "1 - u + u * q \<noteq> 0" if "u \<in> {0..1}" for u using n [of u] that by (simp add: n_def)
  have "continuous_on {0..1} ?g" unfolding n_def by (intro continuous_intros) (use nz in auto)
  moreover have "?g 0 \<le> \<beta> + \<delta> * p" using pq w by simp
  moreover have "?g 1 = 1 - \<delta> + \<delta> * p" using pq by (simp add: n_def)
  then have "\<beta> + \<delta> * p \<le> ?g 1" using w by simp
  ultimately obtain u where u: "0 \<le> u" "u \<le> 1" "?g u = \<beta> + \<delta> * p"
    using IVT' [of ?g 0 "\<beta> + \<delta> * p" 1] by auto
  define v where "v = ?v u"
  have v: "v * n u = \<delta> * q" "0 \<le> v" using n [OF u(1,2)] w pq by (simp_all add: v_def)
  have x: "u * (1 - v + v * p) = \<beta> + \<delta> * p" using u(3) by (simp add: v_def)
  have "v \<le> 1"
  proof (cases "u = 0")
    case True
    with x w pq have "\<delta> * p = 0" by (smt (verit) mult_nonneg_nonneg mult_eq_0_iff)
    then show ?thesis using v(1) pq True by (simp add: n_def)
  next
    case False
    have "q * (\<beta> + \<delta> * p) + (1 - p) * (\<delta> * q) = q * (\<beta> + \<delta>)" by (simp add: algebra_simps)
    then have "q * (u * (1 - v + v * p)) + (1 - p) * (v * n u) = q * (\<beta> + \<delta>)" using x v(1) by simp
    then have "u * q + (1 - p) * v * (1 - u) = q * (\<beta> + \<delta>)" by (simp add: n_def algebra_simps)
    then have "q * \<delta> \<le> u * q + (1 - p) * v * (1 - u)" using w pq by (simp add: algebra_simps)
    then have "v * n u \<le> u * q + (1 - p) * v * (1 - u)" using v(1) by (simp add: mult.commute)
    then have "v * (u * q + p * (1 - u)) \<le> u * q" by (simp add: n_def algebra_simps)
    moreover have "0 < u * q" using False u pq by simp
    moreover have "u * q \<le> u * q + p * (1 - u)" using u pq by simp
    ultimately have l: "v * (u * q + p * (1 - u)) \<le> u * q + p * (1 - u)" "0 < u * q + p * (1 - u)" by linarith+
    then show ?thesis using mult_strict_right_mono [of 1 v "u * q + p * (1 - u)"] by (auto simp: not_le [symmetric])
  qed
  with u v x that [of u v] show ?thesis by (simp add: n_def)
qed

lemma quad_split:
  fixes p q :: real
  assumes pq: "0 < q" "1 \<le> p + q" and uv: "0 \<le> u" "u \<le> 1" "0 \<le> v" "v \<le> 1"
    and side: "p * (v * (1 - u + u * q)) \<le> q * (u * (1 - v + v * p))"
  obtains \<beta> \<delta> where "0 \<le> \<beta>" "0 \<le> \<delta>" "\<beta> + \<delta> \<le> 1"
    "u * (1 - v + v * p) = \<beta> + \<delta> * p" "v * (1 - u + u * q) = \<delta> * q"
proof -
  define x y where "x = u * (1 - v + v * p)" and "y = v * (1 - u + u * q)"
  have y: "0 \<le> y" using uv pq by (simp add: y_def)
  have "(1 - p) * v \<le> q"
  proof (cases "1 - p \<le> 0")
    case True
    then have "(1 - p) * v \<le> 0" using uv by (simp add: mult_nonpos_nonneg)
    then show ?thesis using pq by simp
  next
    case False
    then have "(1 - p) * v \<le> (1 - p) * 1" using uv by (intro mult_left_mono) auto
    then show ?thesis using pq by simp
  qed
  then have "(1 - p) * v * (1 - u) \<le> q * (1 - u)" using uv by (intro mult_right_mono) auto
  moreover have "q * x + (1 - p) * y = u * q + (1 - p) * v * (1 - u)" by (simp add: x_def y_def algebra_simps)
  ultimately have "q * x + (1 - p) * y \<le> q" by (simp add: algebra_simps)
  then have "x - p * (y / q) + y / q \<le> 1" using pq by (simp add: field_simps)
  moreover have "0 \<le> x - p * (y / q)" using side pq by (simp add: x_def y_def field_simps)
  moreover have "0 \<le> y / q" "y = y / q * q" using y pq by simp_all
  ultimately show ?thesis using that [of "x - p * (y / q)" "y / q"] by (simp add: x_def y_def mult.commute)
qed

lemma flat_bilinear:
  assumes "d = a + scaleR p (b - a) + scaleR q (c - a)"
  shows "EvalP (S_PatchBilinear [a, b, c, d]) u v =
    a + scaleR (u * (1 - v + v * p)) (b - a) + scaleR (v * (1 - u + u * q)) (c - a)"
  unfolding bilinear_point assms by (rule Vec3_eqI) (simp_all add: Vec3_ops algebra_simps)

lemma flat_combo:
  assumes "d = a + scaleR p (b - a) + scaleR q (c - a)" and "\<alpha> + \<beta> + \<delta> = 1"
  shows "combo \<alpha> a \<beta> b \<delta> d = a + scaleR (\<beta> + \<delta> * p) (b - a) + scaleR (\<delta> * q) (c - a)"
    and "combo \<alpha> a \<delta> d \<beta> c = a + scaleR (\<delta> * p) (b - a) + scaleR (\<beta> + \<delta> * q) (c - a)"
proof -
  have e: "\<alpha> = 1 - \<beta> - \<delta>" using assms(2) by simp
  show "combo \<alpha> a \<beta> b \<delta> d = a + scaleR (\<beta> + \<delta> * p) (b - a) + scaleR (\<delta> * q) (c - a)"
    "combo \<alpha> a \<delta> d \<beta> c = a + scaleR (\<delta> * p) (b - a) + scaleR (\<beta> + \<delta> * q) (c - a)"
    unfolding assms(1) e combo_def by (rule Vec3_eqI; simp add: Vec3_ops algebra_simps)+
qed

theorem flat_convex_quad:
  assumes "flat_convex a b d c"
  shows "patch_image (S_PatchBilinear [a, b, c, d]) = triangle a b d \<union> triangle a d c"
proof -
  from assms obtain p q where pq: "0 < p" "0 < q" "1 \<le> p + q" and d: "d = a + scaleR p (b - a) + scaleR q (c - a)"
    by (auto simp: flat_convex_def)
  let ?s = "S_PatchBilinear [a, b, c, d]"
  have mem: "a + scaleR (\<beta> + \<delta> * p) (b - a) + scaleR (\<delta> * q) (c - a) \<in> triangle a b d"
    "a + scaleR (\<delta> * p) (b - a) + scaleR (\<beta> + \<delta> * q) (c - a) \<in> triangle a d c"
    if "0 \<le> \<beta>" "0 \<le> \<delta>" "\<beta> + \<delta> \<le> 1" for \<beta> \<delta>
  proof -
    have "1 - \<beta> - \<delta> + \<beta> + \<delta> = 1" by simp
    from flat_combo [OF d this] show
      "a + scaleR (\<beta> + \<delta> * p) (b - a) + scaleR (\<delta> * q) (c - a) \<in> triangle a b d"
      "a + scaleR (\<delta> * p) (b - a) + scaleR (\<beta> + \<delta> * q) (c - a) \<in> triangle a d c"
      using triangle_I [of "1 - \<beta> - \<delta>" \<beta> \<delta> a b d] triangle_I [of "1 - \<beta> - \<delta>" \<delta> \<beta> a d c] that by simp_all
  qed
  have left: "patch_image ?s \<subseteq> triangle a b d \<union> triangle a d c"
  proof
    fix x
    assume "x \<in> patch_image ?s"
    then obtain u v where uv: "0 \<le> u" "u \<le> 1" "0 \<le> v" "v \<le> 1"
      and x: "x = a + scaleR (u * (1 - v + v * p)) (b - a) + scaleR (v * (1 - u + u * q)) (c - a)"
      by (auto simp: patch_image_def flat_bilinear [OF d])
    show "x \<in> triangle a b d \<union> triangle a d c"
    proof (cases "p * (v * (1 - u + u * q)) \<le> q * (u * (1 - v + v * p))")
      case True
      from quad_split [OF pq(2,3) uv this] mem(1) x show ?thesis by (metis UnI1)
    next
      case False
      then have "q * (u * (1 - v + v * p)) \<le> p * (v * (1 - u + u * q))" by simp
      moreover have "1 \<le> q + p" using pq by simp
      ultimately obtain \<beta> \<delta> where "0 \<le> \<beta>" "0 \<le> \<delta>" "\<beta> + \<delta> \<le> 1"
        "v * (1 - u + u * q) = \<beta> + \<delta> * q" "u * (1 - v + v * p) = \<delta> * p"
        using quad_split [of p q v u] pq(1) uv by blast
      with mem(2) [of \<beta> \<delta>] x show ?thesis by simp
    qed
  qed
  have im: "EvalP ?s u v \<in> patch_image ?s" if "0 \<le> u" "u \<le> 1" "0 \<le> v" "v \<le> 1" for u v
    using that unfolding patch_image_def by blast
  have "triangle a b d \<subseteq> patch_image ?s"
  proof
    fix x
    assume "x \<in> triangle a b d"
    then obtain \<alpha> \<beta> \<delta> where w: "0 \<le> \<alpha>" "0 \<le> \<beta>" "0 \<le> \<delta>" "\<alpha> + \<beta> + \<delta> = 1" "x = combo \<alpha> a \<beta> b \<delta> d"
      by (auto simp: triangle_def)
    then have "\<beta> + \<delta> \<le> 1" by simp
    from quad_weights [OF pq w(2,3) this] obtain u v where uv: "0 \<le> u" "u \<le> 1" "0 \<le> v" "v \<le> 1"
      and e: "\<beta> + \<delta> * p = u * (1 - v + v * p)" "\<delta> * q = v * (1 - u + u * q)" by blast
    have "x = EvalP ?s u v" using flat_combo(1) [OF d w(4)] w(5) e flat_bilinear [OF d, of u v] by simp
    then show "x \<in> patch_image ?s" using im [OF uv] by simp
  qed
  moreover have "triangle a d c \<subseteq> patch_image ?s"
  proof
    fix x
    assume "x \<in> triangle a d c"
    then obtain \<alpha> \<delta> \<gamma> where w: "0 \<le> \<alpha>" "0 \<le> \<delta>" "0 \<le> \<gamma>" "\<alpha> + \<delta> + \<gamma> = 1" "x = combo \<alpha> a \<delta> d \<gamma> c"
      by (auto simp: triangle_def)
    then have "\<gamma> + \<delta> \<le> 1" "1 \<le> q + p" "\<alpha> + \<gamma> + \<delta> = 1" using pq by simp_all
    from quad_weights [OF pq(2,1) this(2) w(3,2) this(1)] obtain u v where uv: "0 \<le> u" "u \<le> 1" "0 \<le> v" "v \<le> 1"
      and e: "\<gamma> + \<delta> * q = u * (1 - v + v * q)" "\<delta> * p = v * (1 - u + u * p)" by blast
    have "x = EvalP ?s v u"
      using flat_combo(2) [OF d \<open>\<alpha> + \<gamma> + \<delta> = 1\<close>] w(5) e flat_bilinear [OF d, of v u] by simp
    then show "x \<in> patch_image ?s" using im [OF uv(3,4,1,2)] by simp
  qed
  ultimately show ?thesis using left by blast
qed

end
