(* ===== verification/PrimProps.thy ===== *)
theory PrimProps
  imports Primitives SplitProps Tiling
begin

text \<open>
  Properties of the geometry: the tangents that an evaluation returns are the derivatives of the
  surface, the sampled bound of a bilinear patch contains it (and those of the curved surfaces do
  not), every visible point of a bilinear patch reaches its bucket, polygons and meshes are
  covered by the patches they are cut into, and the basis functions of NURBS patches add up.
\<close>

lemmas Vec3_parts = Vec3_ops Vec3_Mix_def

section \<open>Sampled bounds\<close>

lemma fold_Expand_mem: "p \<in> set ps \<Longrightarrow> in_box p (fold Expand ps b)"
  by (simp add: fold_Expand in_box_def)

lemma in_box_convex:
  assumes "in_box p b" and "in_box q b" and "0 \<le> t" and "t \<le> 1"
  shows "in_box (Vec3_Mix p q t) b"
proof -
  have mix: "lo \<le> x + t * (y - x) \<and> x + t * (y - x) \<le> hi"
    if "lo \<le> x" "x \<le> hi" "lo \<le> y" "y \<le> hi" for lo hi x y :: real
  proof -
    have e: "x + t * (y - x) = (1 - t) * x + t * y" by (simp add: algebra_simps)
    have "(1 - t) * lo + t * lo \<le> (1 - t) * x + t * y" "(1 - t) * x + t * y \<le> (1 - t) * hi + t * hi"
      using that assms(3,4) by (auto intro!: add_mono mult_left_mono)
    then show ?thesis unfolding e by (simp add: algebra_simps)
  qed
  show ?thesis
    using assms(1,2) mix [of "x3 (mBox0 b)" "x3 p" "x3 (mBox1 b)" "x3 q"]
      mix [of "y3 (mBox0 b)" "y3 p" "y3 (mBox1 b)" "y3 q"] mix [of "z3 (mBox0 b)" "z3 p" "z3 (mBox1 b)" "z3 q"]
    by (simp add: in_box_def Vec3_parts)
qed

text \<open>A mix of two values from a range is a mix of its ends.\<close>

lemma range_weight:
  fixes a b x :: real
  assumes "a \<le> x" and "x \<le> b"
  obtains t where "0 \<le> t" and "t \<le> 1" and "x = a + t * (b - a)"
proof (cases "a = b")
  case True
  then show ?thesis using that [of 0] assms by simp
next
  case False
  then show ?thesis using that [of "(x - a) / (b - a)"] assms by (simp add: divide_simps)
qed

definition bilin :: "real Vec3 list \<Rightarrow> real \<Rightarrow> real \<Rightarrow> real Vec3" where
  "bilin h u v = fst (PatchBilinear_Eval h u v)"

lemma bilin_mix_u: "bilin h (a + t * (b - a)) v = Vec3_Mix (bilin h a v) (bilin h b v) t"
  by (rule Vec3_eqI) (simp_all add: bilin_def PatchBilinear_Eval_def Vec3_parts algebra_simps)

lemma bilin_mix_v: "bilin h u (a + t * (b - a)) = Vec3_Mix (bilin h u a) (bilin h u b) t"
  by (rule Vec3_eqI) (simp_all add: bilin_def PatchBilinear_Eval_def Vec3_parts algebra_simps)

text \<open>Two samples in each direction are the corners of the range.\<close>

lemma bound_of_corners:
  "MakeBoundFromUVRangeN 2 ev p b =
     fold Expand [ev (sp_mURange0 p) (sp_mVRange0 p), ev (sp_mURange1 p) (sp_mVRange0 p),
                  ev (sp_mURange0 p) (sp_mVRange1 p), ev (sp_mURange1 p) (sp_mVRange1 p)] (Bound_Reset b)"
  by (simp add: MakeBoundFromUVRangeN_def bilinearFill_def numeral_2_eq_2 DMT_SIMD_PADSIZE_def Let_def)

lemma bilinear_bound:
  assumes "sp_geom p = S_PatchBilinear h" and "in_range u v p"
  shows "in_box (EvalP (sp_geom p) u v) (MakeBound p)"
proof -
  let ?b = "MakeBound p"
  have ev: "EvalP (sp_geom p) = bilin h"
    by (intro ext) (simp add: EvalP_def Eval_dPdu_dPdv_def assms(1) bilin_def)
  have b: "?b = fold Expand [bilin h (sp_mURange0 p) (sp_mVRange0 p), bilin h (sp_mURange1 p) (sp_mVRange0 p),
      bilin h (sp_mURange0 p) (sp_mVRange1 p), bilin h (sp_mURange1 p) (sp_mVRange1 p)] (Bound_Reset (Bound_Reset (Bound_of 0)))"
    unfolding MakeBound_def ev bound_of_corners [symmetric] by (simp add: assms(1) bound_dim_def)
  have corner: "in_box (bilin h a c) ?b"
    if "a \<in> {sp_mURange0 p, sp_mURange1 p}" "c \<in> {sp_mVRange0 p, sp_mVRange1 p}" for a c
    unfolding b using that by (intro fold_Expand_mem) auto
  obtain s where s: "0 \<le> s" "s \<le> 1" "u = sp_mURange0 p + s * (sp_mURange1 p - sp_mURange0 p)"
    using assms(2) range_weight unfolding in_range_def by blast
  obtain t where t: "0 \<le> t" "t \<le> 1" "v = sp_mVRange0 p + t * (sp_mVRange1 p - sp_mVRange0 p)"
    using assms(2) range_weight unfolding in_range_def by blast
  have "in_box (bilin h u c) ?b" if "c \<in> {sp_mVRange0 p, sp_mVRange1 p}" for c
    unfolding s(3) bilin_mix_u using corner that s(1,2) by (intro in_box_convex) auto
  then have "in_box (bilin h u v) ?b"
    unfolding t(3) bilin_mix_v using t(1,2) by (intro in_box_convex) auto
  then show ?thesis by (simp add: ev)
qed

definition is_bilinear :: "Geometry \<Rightarrow> bool" where
  "is_bilinear s = (case s of S_PatchBilinear _ \<Rightarrow> True | _ \<Rightarrow> False)"

lemma MakeBound_grid: "MakeBound (q\<lparr>sp_mDiceGridWd := wd, sp_mDiceGridHe := he\<rparr>) = MakeBound q"
  by (simp add: MakeBound_def MakeBoundFromUVRangeN_def)

lemma bilinear_bounds_surface: "bounds_surface is_bilinear MakeBound EvalP"
  unfolding bounds_surface_def is_bilinear_def
  using bilinear_bound by (fastforce simp: MakeBound_grid split: Geometry.splits)

text \<open>
  C4: no visible part of a bilinear patch is missed, and all polygons and bilinear meshes are
  made of such patches. \<open>worldEnd_splitAndAddToBuckets\<close> ends and throws nothing. Take any
  parameters of an inserted patch and the pixel their point falls on. The patch has been cut into
  pieces whose parameter ranges add up to its own; one of them contains the parameters and keeps
  surface, transformation and attributes. If that piece is diced, it is in the list of every
  bucket that contains the pixel. Otherwise it is in no bucket: it was culled, because its raster
  estimate was below \<open>RI_EPSILON\<close> (the bound covers too small an area, or a vertex of the bound
  has no positive w, which the estimate treats alike), or it was given up after ten splits.
\<close>

theorem patch_points_bucketed:
  assumes "\<forall>p. Some p \<in> set (hd_mpPrims hr) \<longrightarrow> ordered is_bilinear p"
  shows "\<exists>hr'. worldEnd_splitAndAddToBuckets MakeBound hr = (Inr (), hr')
    \<and> length (mpBuckets hr') = length (mpBuckets hr)
    \<and> (\<forall>p. Some p \<in> set (hd_mpPrims hr) \<longrightarrow>
         sum_list (map (\<lambda>x. uv_area (fst x)) (fates MakeBound hr p)) = uv_area p
         \<and> (\<forall>u v. in_range u v p \<longrightarrow>
              (\<exists>q f. (q, f) \<in> set (fates MakeBound hr p) \<and> in_range u v q \<and> same_surface q p
                 \<and> (case f of
                      Diced box \<Rightarrow>
                        (\<forall>i<length (mpBuckets hr).
                           (case pixel_of hr (sp_mpTransform p) (EvalP (sp_geom p) u v) of
                              (px, py) \<Rightarrow> Contains px py (mpBuckets hr ! i)) \<longrightarrow>
                           q \<in> set (hb_mpPrims (mpBuckets hr' ! i)))
                    | Culled \<Rightarrow> fst (RasterEstimate hr (MakeBound q) (sp_mpTransform q)) < RI_EPSILON
                    | Dropped \<Rightarrow> 9 < sp_mSplitCnt q))))"
  by (rule visible_points_bucketed [OF bilinear_bounds_surface assms])

definition ex_patch :: "unit surf_prim" where
  "ex_patch = SimplePrim_new () Identity
     (S_PatchBilinear [Vec3 0 0 1, Vec3 1 0 1, Vec3 0 1 1, Vec3 1 1 1])"

definition ex_scene :: "(Geometry, unit) prim_hider" where
  "ex_scene = \<lparr>hd_mOptions = fst (Options_Init 0), hd_mMtxWorldCamera = Identity, hd_mMtxWorldProj = Identity,
     mFinalBuff = Buffer2D_new, mpBuckets = [HiderBucket_new 0 0 128 128 None], mSampCoordBuffs = replicate 4 no_samples,
     mParams = \<lparr>mDbgOnlyBucketAtX = -1, mDbgOnlyBucketAtY = -1, mDbgShowBuckets = False, mDbgColorCodedGrids = False, mDbgRasterizeVerts = False\<rparr>,
     hd_mpPrims = [Some ex_patch]\<rparr>"

theorem patch_points_bucketed_witness:
  "ordered is_bilinear ex_patch
   \<and> (\<exists>hr'. worldEnd_splitAndAddToBuckets MakeBound ex_scene = (Inr (), hr') \<and> length (mpBuckets hr') = 1
        \<and> sum_list (map (\<lambda>x. uv_area (fst x)) (fates MakeBound ex_scene ex_patch)) = 1
        \<and> (\<exists>q f. (q, f) \<in> set (fates MakeBound ex_scene ex_patch) \<and> in_range (1 / 3) (2 / 3) q))"
proof -
  have ord: "ordered is_bilinear ex_patch"
    by (simp add: ordered_def is_bilinear_def ex_patch_def SimplePrim_new_def SimplePrim_range_def)
  have prims: "set (hd_mpPrims ex_scene) = {Some ex_patch}" and one: "length (mpBuckets ex_scene) = 1"
    by (simp_all add: ex_scene_def)
  have "uv_area ex_patch = 1" "in_range (1 / 3) (2 / 3) ex_patch"
    by (simp_all add: uv_area_def in_range_def ex_patch_def SimplePrim_new_def SimplePrim_range_def)
  with patch_points_bucketed [of ex_scene] ord show ?thesis unfolding prims one by fastforce
qed

section \<open>Curved surfaces\<close>

text \<open>
  The bound of a bicubic patch is that of its four corner points: a patch whose inner control
  points lie outside, here at x = 10, is not inside its bound.
\<close>

definition bulge :: "real Vec3 list" where
  "bulge = [Vec3 0 0 1, Vec3 0 0 1, Vec3 0 0 1, Vec3 0 0 1, Vec3 0 0 1, Vec3 10 0 1, Vec3 10 0 1, Vec3 0 0 1,
     Vec3 0 1 1, Vec3 10 1 1, Vec3 10 1 1, Vec3 0 1 1, Vec3 0 1 1, Vec3 0 1 1, Vec3 0 1 1, Vec3 0 1 1]"

theorem bicubic_bound_misses:
  "let p = SimplePrim_new () Identity (S_PatchBicubic BezierBasis BezierBasis bulge) in
   in_range (1 / 2) (1 / 2) p \<and> \<not> in_box (EvalP (sp_geom p) (1 / 2) (1 / 2)) (MakeBound p)"
  unfolding Let_def
  by (simp add: in_range_def SimplePrim_new_def SimplePrim_range_def MakeBound_def bound_dim_def bound_of_corners
      EvalP_def Eval_dPdu_dPdv_def PatchBicubic_Eval_def Spline_def mCalcU_def SplinePatchCalc_Setup_def
      SplinePatchCalc_Eval_def bulge_def BezierBasis_def mij_rows Vec3_ops Let_def Expand_eq in_box_def Bound_Reset_def FLT_MAX_def)

lemma length_fill_row [simp]: "length (fill_row n u du v) = n"
  by (induction n arbitrary: u) simp_all

lemma length_fill_rows [simp]: "length (fill_rows n xN x1 du v dv) = n * xN"
  by (induction n arbitrary: v) simp_all

lemma fill_row_v: "q \<in> set (fill_row n u du v) \<Longrightarrow> snd q = v"
  by (induction n arbitrary: u) auto

lemma fill_rows_v: "q \<in> set (fill_rows n xN x1 du v dv) \<Longrightarrow> \<exists>k<n. snd q = v + of_nat k * dv"
proof (induction n arbitrary: v)
  case 0
  then show ?case by simp
next
  case (Suc n)
  show ?case
  proof (cases "q \<in> set (fill_row xN x1 du v)")
    case True
    then show ?thesis using fill_row_v by (intro exI [of _ 0]) simp
  next
    case False
    with Suc obtain k where "k < n" "snd q = v + dv + of_nat k * dv" by auto
    then show ?thesis by (intro exI [of _ "Suc k"]) (simp add: algebra_simps)
  qed
qed

text \<open>Every sampled point lies on one of the rows.\<close>

lemma bound_samples:
  assumes "0 < n"
  obtains ps where "MakeBoundFromUVRangeN n ev p b = fold Expand ps (Bound_Reset b)"
    and "\<forall>q \<in> set ps. \<exists>u. \<exists>k<n. q = ev u (sp_mVRange0 p + of_nat k * ((sp_mVRange1 p - sp_mVRange0 p) / of_nat (n - 1)))"
proof -
  define dv du pts where "dv = (sp_mVRange1 p - sp_mVRange0 p) / real (n - 1)"
    and "du = (sp_mURange1 p - sp_mURange0 p) / real (n - 1)"
    and "pts = fill_rows n n (sp_mURange0 p) du (sp_mVRange0 p) dv"
  define uvs where "uvs = bilinearFill (sp_mURange0 p) (sp_mVRange0 p) (sp_mURange1 p) (sp_mVRange1 p) n n
    (unat (DMT_SIMD_PADSIZE (of_nat (n * n))))"
  let ?ps = "take (n * n) (map (\<lambda>(u, v). ev u v) uvs)"
  have "length pts \<noteq> 0" unfolding pts_def using assms by simp
  then have ne: "last pts \<in> set pts" by (intro last_in_set) auto
  have "uvs = pts @ replicate (unat (DMT_SIMD_PADSIZE (of_nat (n * n))) - length pts) (last pts)"
    unfolding uvs_def bilinearFill_def Let_def pts_def du_def dv_def using assms by simp
  then have sub: "set uvs \<subseteq> set pts" using ne by (auto simp del: set_replicate_conv_if)
  have "\<exists>u. \<exists>k<n. q = ev u (sp_mVRange0 p + of_nat k * dv)" if q: "q \<in> set ?ps" for q
  proof -
    obtain w where w: "w \<in> set uvs" "q = (\<lambda>(u, v). ev u v) w" using in_set_takeD [OF q] by auto
    then obtain k where k: "k < n" "snd w = sp_mVRange0 p + of_nat k * dv"
      using fill_rows_v sub unfolding pts_def by blast
    have "q = ev (fst w) (snd w)" using w(2) by (simp add: case_prod_beta)
    with k show ?thesis by auto
  qed
  moreover have "MakeBoundFromUVRangeN n ev p b = fold Expand ?ps (Bound_Reset b)"
    by (simp only: MakeBoundFromUVRangeN_def Let_def uvs_def)
  ultimately show ?thesis using that [of ?ps] unfolding dv_def by blast
qed

text \<open>
  The bound of a sphere is that of four times four points, whose rows miss the equator: the point
  where the sphere meets the x axis is outside the bound, whatever the sweep.
\<close>

theorem sphere_bound_misses:
  "let p = SimplePrim_new () Identity (Q_Sphere 1 (-1) 1 thetamax) in
   in_range 0 (1 / 2) p \<and> \<not> in_box (EvalP (sp_geom p) 0 (1 / 2)) (MakeBound p)"
proof -
  let ?p = "SimplePrim_new () Identity (Q_Sphere 1 (-1) 1 thetamax)"
  let ?ev = "EvalP (Q_Sphere 1 (-1) 1 thetamax)"
  have ev: "x3 (?ev u v) = cos (- (pi / 2) + v * pi) * cos (u * thetamax)" for u v
    by (simp add: EvalP_def Eval_dPdu_dPdv_def Sphere_Eval_def Let_def DCos_def arcsin_minus_1)
  obtain ps where ps: "MakeBound ?p = fold Expand ps (Bound_Reset (Bound_Reset (Bound_of 0)))"
    and row: "\<forall>q \<in> set ps. \<exists>u. \<exists>k<4. q = ?ev u (of_nat k / 3)"
    by (rule bound_samples [of 4 ?ev ?p "Bound_Reset (Bound_of 0)"])
       (simp_all add: MakeBound_def bound_dim_def SimplePrim_new_def SimplePrim_range_def)
  have c: "\<bar>cos (- (pi / 2) + of_nat k / 3 * pi)\<bar> < 1" if "k < 4" for k :: nat
  proof -
    have "k = 0 \<or> k = 1 \<or> k = 2 \<or> k = 3" using that by auto
    moreover have "- (pi / 2) + of_nat 1 / 3 * pi = - (pi / 6)" "- (pi / 2) + of_nat 2 / 3 * pi = pi / 6"
      "- (pi / 2) + of_nat 3 / 3 * pi = pi / 2" "- (pi / 2) + of_nat 0 / 3 * pi = - (pi / 2)"
      by (simp_all add: field_simps)
    then have "cos (- (pi / 2) + of_nat 1 / 3 * pi) = cos (pi / 6)" "cos (- (pi / 2) + of_nat 2 / 3 * pi) = cos (pi / 6)"
      "cos (- (pi / 2) + of_nat 3 / 3 * pi) = 0" "cos (- (pi / 2) + of_nat 0 / 3 * pi) = 0"
      by (simp_all only: cos_minus cos_pi_half)
    moreover have "\<bar>cos (pi / 6)\<bar> < 1" using real_sqrt_less_mono [of 3 4] by (simp add: cos_30)
    ultimately show ?thesis by (elim disjE) (simp_all only: abs_zero zero_less_one)
  qed
  have "x3 q < 1" if "q \<in> set ps" for q
  proof -
    obtain u k where k: "k < 4" "q = ?ev u (of_nat k / 3)" using row \<open>q \<in> set ps\<close> by blast
    have "x3 q \<le> \<bar>cos (- (pi / 2) + of_nat k / 3 * pi)\<bar> * \<bar>cos (u * thetamax)\<bar>"
      unfolding k(2) ev by (simp add: abs_mult [symmetric])
    also have "\<dots> \<le> \<bar>cos (- (pi / 2) + of_nat k / 3 * pi)\<bar>" by (simp add: mult_left_le)
    finally show ?thesis using c [OF k(1)] by simp
  qed
  then have "x3 (mBox1 (MakeBound ?p)) < 1" unfolding ps by (auto simp: fold_Expand Bound_Reset_def FLT_MAX_def)
  moreover have "x3 (?ev 0 (1 / 2)) = 1" by (simp add: ev)
  ultimately show ?thesis
    by (simp add: Let_def in_range_def in_box_def SimplePrim_new_def SimplePrim_range_def)
qed

section \<open>Tangents\<close>

definition deriv3 :: "(real \<Rightarrow> real Vec3) \<Rightarrow> real Vec3 \<Rightarrow> real \<Rightarrow> bool" where
  "deriv3 f d t \<longleftrightarrow> ((\<lambda>s. x3 (f s)) has_real_derivative x3 d) (at t)
     \<and> ((\<lambda>s. y3 (f s)) has_real_derivative y3 d) (at t) \<and> ((\<lambda>s. z3 (f s)) has_real_derivative z3 d) (at t)"

text \<open>The two derivatives an evaluation returns are those of its point.\<close>

definition tangents_ok :: "(real \<Rightarrow> real \<Rightarrow> eval_res) \<Rightarrow> real \<Rightarrow> real \<Rightarrow> bool" where
  "tangents_ok ev u v \<longleftrightarrow> deriv3 (\<lambda>t. fst (ev t v)) (fst (snd (ev u v))) u
     \<and> deriv3 (\<lambda>t. fst (ev u t)) (snd (snd (ev u v))) v"

lemmas tangent_simps = tangents_ok_def deriv3_def Let_def DCos_def DSin_def DMix_def Vec3_parts

lemma Cylinder_tangents: "tangents_ok (Cylinder_Eval r z0 z1 th) u v"
  unfolding tangent_simps Cylinder_Eval_def by (auto intro!: derivative_eq_intros)

lemma Cone_tangents: "tangents_ok (Cone_Eval h r th) u v"
  unfolding tangent_simps Cone_Eval_def by (auto intro!: derivative_eq_intros)

lemma Sphere_tangents: "tangents_ok (Sphere_Eval r z0 z1 th) u v"
  unfolding tangent_simps Sphere_Eval_def by (auto intro!: derivative_eq_intros)

lemma Hyperboloid_tangents: "tangents_ok (Hyperboloid_Eval p1 p2 th) u v"
  unfolding tangent_simps Hyperboloid_Eval_def by (auto intro!: derivative_eq_intros simp: algebra_simps)

lemma Paraboloid_tangents:
  assumes "0 < DMix z0 z1 v"
  shows "tangents_ok (Paraboloid_Eval r z0 z1 th) u v"
proof -
  define k where "k = r / sqrt z1"
  have z: "0 < z0 + (z1 - z0) * v" using assms by (simp add: DMix_def)
  then show ?thesis
    unfolding tangent_simps Paraboloid_Eval_def k_def [symmetric]
    by (auto intro!: derivative_eq_intros simp: divide_simps)
qed

lemma Torus_tangents: "tangents_ok (Torus_Eval r R p0 p1 th) u v"
  unfolding tangent_simps Torus_Eval_def by (auto intro!: derivative_eq_intros)

lemma PatchBilinear_tangents: "tangents_ok (PatchBilinear_Eval h) u v"
  unfolding tangent_simps PatchBilinear_Eval_def by (auto intro!: derivative_eq_intros simp: algebra_simps)

text \<open>
  A bicubic patch in coordinates: the weights of the control points are products of one weight
  in u and one in v, whichever direction is evaluated first.
\<close>

definition weight :: "Matrix44 \<Rightarrow> real \<Rightarrow> nat \<Rightarrow> real" where
  "weight b t k = t * t * t * mij b 0 k + t * t * mij b 1 k + t * mij b 2 k + mij b 3 k"

definition dweight :: "Matrix44 \<Rightarrow> real \<Rightarrow> nat \<Rightarrow> real" where
  "dweight b t k = t * t * 3 * mij b 0 k + t * 2 * mij b 1 k + mij b 2 k"

lemma weight_deriv: "((\<lambda>t. weight b t k) has_real_derivative dweight b t k) (at t)"
  unfolding weight_def dweight_def by (auto intro!: derivative_eq_intros simp: algebra_simps)

definition combine4 :: "(nat \<Rightarrow> real) \<Rightarrow> (nat \<Rightarrow> real Vec3) \<Rightarrow> real Vec3" where
  "combine4 w p = scaleR (w 0) (p 0) + scaleR (w 1) (p 1) + scaleR (w 2) (p 2) + scaleR (w 3) (p 3)"

lemma SplinePatchCalc_combine:
  "SplinePatchCalc_Eval (SplinePatchCalc_Setup b p0 p1 p2 p3) t
     = scaleR (weight b t 0) p0 + scaleR (weight b t 1) p1 + scaleR (weight b t 2) p2 + scaleR (weight b t 3) p3"
  by (rule Vec3_eqI)
    (simp_all add: SplinePatchCalc_Eval_def SplinePatchCalc_Setup_def weight_def Vec3_ops Let_def algebra_simps)

lemma PatchBicubic_combine:
  "PatchBicubic_Eval ub vb h u v =
     (combine4 (weight vb v) (\<lambda>r. combine4 (weight ub u) (\<lambda>c. h ! (4 * r + c))),
      combine4 (dweight ub u) (\<lambda>c. combine4 (weight vb v) (\<lambda>r. h ! (4 * r + c))),
      combine4 (dweight vb v) (\<lambda>r. combine4 (weight ub u) (\<lambda>c. h ! (4 * r + c))))"
  unfolding PatchBicubic_Eval_def mCalcU_def mCalcV_def Let_def SplinePatchCalc_combine Spline_coeffs SplineDeriv_coeffs
  by (simp add: combine4_def weight_def dweight_def add.commute)

lemma combine4_deriv:
  assumes "\<And>k. ((\<lambda>t. w t k) has_real_derivative d k) (at t)"
  shows "deriv3 (\<lambda>t. combine4 (w t) p) (combine4 d p) t"
  unfolding deriv3_def combine4_def Vec3_ops by (auto intro!: derivative_eq_intros assms)

lemma combine4_swap: "combine4 w (\<lambda>r. combine4 x (\<lambda>c. f r c)) = combine4 x (\<lambda>c. combine4 w (\<lambda>r. f r c))"
  by (rule Vec3_eqI) (simp_all add: combine4_def Vec3_ops algebra_simps)

lemma PatchBicubic_tangents: "tangents_ok (PatchBicubic_Eval ub vb h) u v"
proof -
  have "deriv3 (\<lambda>t. combine4 (weight vb v) (\<lambda>r. combine4 (weight ub t) (\<lambda>c. h ! (4 * r + c))))
      (combine4 (dweight ub u) (\<lambda>c. combine4 (weight vb v) (\<lambda>r. h ! (4 * r + c)))) u"
    unfolding combine4_swap [of "weight vb v"] by (rule combine4_deriv [OF weight_deriv])
  moreover have "deriv3 (\<lambda>t. combine4 (weight vb t) (\<lambda>r. combine4 (weight ub u) (\<lambda>c. h ! (4 * r + c))))
      (combine4 (dweight vb v) (\<lambda>r. combine4 (weight ub u) (\<lambda>c. h ! (4 * r + c)))) v"
    by (rule combine4_deriv [OF weight_deriv])
  ultimately show ?thesis by (simp add: tangents_ok_def PatchBicubic_combine)
qed

text \<open>
  C16: the tangents are right. For cylinder, cone, sphere, hyperboloid, paraboloid, torus,
  bilinear and bicubic patch, the second and third result of
  \<open>Eval_dPdu_dPdv\<close> are the partial derivatives of the first in u and in v (for a paraboloid, where
  its height is positive, so not at v = 0 when it starts at its apex), so the normal that dicing takes from their cross product is normal to the
  surface. A bicubic patch computes its point row by row and its derivative in u column by column;
  both agree.
\<close>

theorem tangents_are_derivatives:
  assumes "\<And>rmax zmin zmax th. s = Q_Paraboloid rmax zmin zmax th \<Longrightarrow> 0 < DMix zmin zmax v"
  shows "tangents_ok (Eval_dPdu_dPdv s) u v"
proof (cases s)
  case (Q_Paraboloid r z0 z1 th)
  then show ?thesis using assms Paraboloid_tangents by (simp add: tangents_ok_def Eval_dPdu_dPdv_def)
qed (use Cylinder_tangents Cone_tangents Sphere_tangents Hyperboloid_tangents Torus_tangents
      PatchBilinear_tangents PatchBicubic_tangents in \<open>simp_all add: tangents_ok_def Eval_dPdu_dPdv_def\<close>)

theorem tangents_are_derivatives_witness:
  "tangents_ok (Eval_dPdu_dPdv (Q_Paraboloid 2 0 4 1)) (1 / 3) (1 / 4)"
  by (rule tangents_are_derivatives) (simp add: DMix_def)

section \<open>Polygons\<close>

text \<open>
  The mean of the area vectors of a patch. The cross product of the tangents of a bilinear patch
  is affine in u and v, so its mean is the value in the middle.
\<close>

definition patch_area :: "Geometry \<Rightarrow> real Vec3" where
  "patch_area s = (case Eval_dPdu_dPdv s (1 / 2) (1 / 2) of (_, du, dv) \<Rightarrow> DCross du dv)"

text \<open>The area vector of a polygon, from the triangles around its first vertex.\<close>

definition tri_area :: "real Vec3 list \<Rightarrow> nat \<Rightarrow> real Vec3" where
  "tri_area vs k = scaleR (1 / 2) (DCross (vs ! k - vs ! 0) (vs ! Suc k - vs ! 0))"

definition polygon_area :: "real Vec3 list \<Rightarrow> real Vec3" where
  "polygon_area vs = (\<Sum>k=1..<length vs - 1. tri_area vs k)"

lemma patch_area_bilinear:
  "patch_area (S_PatchBilinear [a, b, c, d]) = scaleR (1 / 2) (DCross (d - a) (c - b))"
  by (rule Vec3_eqI)
    (simp_all add: patch_area_def Eval_dPdu_dPdv_def PatchBilinear_Eval_def DCross_def Vec3_parts field_simps)

lemma quad_area:
  "patch_area (S_PatchBilinear [vs ! 0, vs ! s, vs ! Suc (Suc s), vs ! Suc s]) = tri_area vs s + tri_area vs (Suc s)"
  unfolding patch_area_bilinear
  by (rule Vec3_eqI) (simp_all add: tri_area_def DCross_def Vec3_parts field_simps)

lemma triangle_areas:
  assumes "simplifyAddTriangle va vb vc = [a, b, c]"
  shows "scaleR 3 (patch_area a) = scaleR (1 / 2) (DCross (vb - va) (vc - va))"
    and "patch_area b = - patch_area a" and "patch_area c = - patch_area a"
  using assms
  by (auto simp: simplifyAddTriangle_def Let_def patch_area_bilinear DCross_def Vec3_parts field_simps)

definition tri_points :: "real Vec3 list \<Rightarrow> nat \<Rightarrow> real Vec3 set" where
  "tri_points vs k = triangle (vs ! 0) (vs ! k) (vs ! Suc k)"

text \<open>
  A quadrilateral of the fan that is flat and convex has exactly the points of its two triangles.
  The three pieces of a triangle that is left over have its points, each those nearest to its
  corner.
\<close>

definition quads_cover :: "real Vec3 list \<Rightarrow> nat \<Rightarrow> Geometry list \<Rightarrow> bool" where
  "quads_cover vs s quads \<longleftrightarrow>
     (\<forall>k<length quads. flat_convex (vs ! 0) (vs ! (s + 2 * k)) (vs ! (s + 2 * k + 1)) (vs ! (s + 2 * k + 2)) \<longrightarrow>
        patch_image (quads ! k) = tri_points vs (s + 2 * k) \<union> tri_points vs (s + 2 * k + 1))"

definition pieces_cover :: "real Vec3 list \<Rightarrow> nat \<Rightarrow> Geometry \<Rightarrow> Geometry \<Rightarrow> Geometry \<Rightarrow> bool" where
  "pieces_cover vs k a b c \<longleftrightarrow>
     patch_image a = corner (vs ! 0) (vs ! k) (vs ! Suc k) \<and> patch_image b = corner (vs ! k) (vs ! 0) (vs ! Suc k)
     \<and> patch_image c = corner (vs ! Suc k) (vs ! k) (vs ! 0)
     \<and> patch_image a \<union> patch_image b \<union> patch_image c = tri_points vs k"

lemma triangle_pieces:
  assumes "simplifyAddTriangle (vs ! 0) (vs ! k) (vs ! Suc k) = [a, b, c]"
  shows "pieces_cover vs k a b c"
  using assms corner_piece [of "vs ! 0" "vs ! k" "vs ! Suc k"] corner_piece [of "vs ! k" "vs ! 0" "vs ! Suc k"]
    corner_piece [of "vs ! Suc k" "vs ! k" "vs ! 0"] triangle_corners [of "vs ! 0" "vs ! k" "vs ! Suc k"]
  by (auto simp: pieces_cover_def tri_points_def simplifyAddTriangle_def Let_def add_ac)

definition tiles_fan :: "real Vec3 list \<Rightarrow> nat \<Rightarrow> nat \<Rightarrow> Geometry list \<Rightarrow> bool" where
  "tiles_fan vs s d ss \<longleftrightarrow> (\<exists>quads tris. ss = quads @ tris \<and> length quads = d div 2 \<and> list_all is_bilinear ss
     \<and> quads_cover vs s quads
     \<and> (if even d then tris = [] \<and> sum_list (map patch_area quads) = (\<Sum>k=s..<s + d. tri_area vs k)
        else \<exists>a b c. tris = [a, b, c] \<and> pieces_cover vs (s + d - 1) a b c
          \<and> patch_area b = - patch_area a \<and> patch_area c = - patch_area a
          \<and> sum_list (map patch_area quads) + scaleR 3 (patch_area a) = (\<Sum>k=s..<s + d. tri_area vs k)))"

lemma quads_cover_step:
  assumes "quads_cover vs (s + 2) quads"
    and "q = S_PatchBilinear [vs ! 0, vs ! s, vs ! Suc (Suc s), vs ! Suc s]"
  shows "quads_cover vs s (q # quads)"
  unfolding quads_cover_def
proof (intro allI impI)
  fix k
  assume k: "k < length (q # quads)"
    and f: "flat_convex (vs ! 0) (vs ! (s + 2 * k)) (vs ! (s + 2 * k + 1)) (vs ! (s + 2 * k + 2))"
  show "patch_image ((q # quads) ! k) = tri_points vs (s + 2 * k) \<union> tri_points vs (s + 2 * k + 1)"
  proof (cases k)
    case 0
    then show ?thesis using f assms(2) flat_convex_quad by (simp add: tri_points_def)
  next
    case (Suc j)
    moreover have "s + 2 + 2 * j = s + 2 * k" using Suc by simp
    ultimately show ?thesis using assms(1) k f unfolding quads_cover_def by (metis Suc_less_eq length_Cons nth_Cons_Suc)
  qed
qed

lemma tiles_fan_step:
  assumes "tiles_fan vs (s + 2) d ss" and "q = S_PatchBilinear [vs ! 0, vs ! s, vs ! Suc (Suc s), vs ! Suc s]"
  shows "tiles_fan vs s (Suc (Suc d)) (q # ss)"
proof -
  have sum: "(\<Sum>k=s..<s + Suc (Suc d). tri_area vs k) = patch_area q + (\<Sum>k=s + 2..<s + 2 + d. tri_area vs k)"
    using sum.atLeast_Suc_lessThan [of s "s + Suc (Suc d)" "tri_area vs"]
      sum.atLeast_Suc_lessThan [of "Suc s" "s + Suc (Suc d)" "tri_area vs"]
    unfolding assms(2) quad_area by (simp add: add.assoc)
  from assms(1) obtain quads tris where
    p: "ss = quads @ tris" "length quads = d div 2" "list_all is_bilinear ss" "quads_cover vs (s + 2) quads"
    "if even d then tris = [] \<and> sum_list (map patch_area quads) = (\<Sum>k=s + 2..<s + 2 + d. tri_area vs k)
     else \<exists>a b c. tris = [a, b, c] \<and> pieces_cover vs (s + 2 + d - 1) a b c
          \<and> patch_area b = - patch_area a \<and> patch_area c = - patch_area a
          \<and> sum_list (map patch_area quads) + scaleR 3 (patch_area a) = (\<Sum>k=s + 2..<s + 2 + d. tri_area vs k)"
    unfolding tiles_fan_def by blast
  have "is_bilinear q" by (simp add: assms(2) is_bilinear_def)
  moreover have "s + 2 + d - 1 = s + Suc (Suc d) - 1" by simp
  ultimately show ?thesis
    using p quads_cover_step [OF p(4) assms(2)]
    unfolding tiles_fan_def sum by (intro exI [of _ "q # quads"] exI [of _ tris]) (auto simp: add.assoc split: if_splits)
qed

lemma fan_loop_tiles:
  assumes "\<And>k. k < length vs \<Longrightarrow> vert (int k) = Inr (vs ! k)"
  shows "1 \<le> s \<Longrightarrow> s + d = length vs - 1 \<Longrightarrow>
    \<exists>ss. fan_loop vert (int s) (int (length vs) - 1) = (Inr (), ss) \<and> tiles_fan vs s d ss"
proof (induction d arbitrary: s rule: induct_nat_012)
  case 0
  then have "int s = int (length vs) - 1" by simp
  then show ?case using 0 by (simp add: fan_loop.simps Let_def tiles_fan_def quads_cover_def)
next
  case 1
  let ?t = "simplifyAddTriangle (vs ! 0) (vs ! s) (vs ! Suc s)"
  obtain a b c where t: "?t = [a, b, c]" by (simp add: simplifyAddTriangle_def Let_def)
  have l: "int (length vs) - 1 = int (Suc s)" "Suc s < length vs" using 1 by auto
  have v: "vert 0 = Inr (vs ! 0)" "vert (int s) = Inr (vs ! s)" "vert (int (Suc s)) = Inr (vs ! Suc s)"
    using l(2) assms [of 0] assms [of s] assms [of "Suc s"] by (cases vs; auto)+
  have "fan_loop vert (int s) (int (length vs) - 1) = (Inr (), ?t)"
    unfolding l(1) by (subst fan_loop.simps) (use v in \<open>simp add: Let_def\<close>)
  moreover have "list_all is_bilinear ?t" by (simp add: simplifyAddTriangle_def Let_def is_bilinear_def)
  ultimately show ?case
    using triangle_areas [OF t] triangle_pieces [OF t] t by (auto simp: tiles_fan_def tri_area_def quads_cover_def)
next
  case (ge2 d)
  have l: "s + 2 < length vs" "min (int s + 2) (int (length vs) - 1) = int (s + 2)" using ge2 by auto
  obtain ss where ss: "fan_loop vert (int (s + 2)) (int (length vs) - 1) = (Inr (), ss)" "tiles_fan vs (s + 2) d ss"
    using ge2(1) [of "s + 2"] ge2(3,4) by auto
  let ?q = "S_PatchBilinear [vs ! 0, vs ! s, vs ! Suc (Suc s), vs ! Suc s]"
  have v: "vert 0 = Inr (vs ! 0)" "vert (int s) = Inr (vs ! s)" "vert (int s + 1) = Inr (vs ! Suc s)"
    "vert (int (s + 2)) = Inr (vs ! Suc (Suc s))"
    using l assms [of 0] assms [of s] assms [of "Suc s"] assms [of "s + 2"] by (cases vs; auto simp: add.commute)+
  have "fan_loop vert (int s) (int (length vs) - 1) = (Inr (), ?q # ss)"
    by (subst fan_loop.simps) (use v l(2) ss(1) in \<open>simp add: Let_def\<close>)
  with tiles_fan_step [OF ss(2)] show ?case by blast
qed

lemma length_float3s: "length (float3s xs) = length xs div 3"
  by (induction xs rule: float3s.induct) auto

lemma float3s_nth:
  "k < length xs div 3 \<Longrightarrow> float3s xs ! k = Vec3 (xs ! (3 * k)) (xs ! (3 * k + 1)) (xs ! (3 * k + 2))"
proof (induction xs arbitrary: k rule: float3s.induct)
  case (1 x y z xs)
  show ?case
  proof (cases k)
    case 0
    then show ?thesis by simp
  next
    case (Suc j)
    have "3 * k = Suc (Suc (Suc (3 * j)))" "3 * k + 1 = Suc (Suc (Suc (3 * j + 1)))"
      "3 * k + 2 = Suc (Suc (Suc (3 * j + 2)))" using Suc by simp_all
    moreover have "j < length xs div 3" using 1(2) Suc by simp
    ultimately show ?thesis using 1(1) [of j] Suc by (simp only: float3s.simps nth_Cons_Suc)
  qed
qed auto

lemma float3_at_vertex:
  assumes "k < length (float3s xs)"
  shows "float3_at xs (3 * int k) = Inr (float3s xs ! k)"
proof -
  have "3 * k + 2 < length xs" using assms by (simp add: length_float3s)
  then have "arr_read xs (3 * int k) = Inr (xs ! (3 * k))" "arr_read xs (3 * int k + 1) = Inr (xs ! (3 * k + 1))"
    "arr_read xs (3 * int k + 2) = Inr (xs ! (3 * k + 2))"
    by (auto simp: arr_read_def nat_add_distrib nat_mult_distrib)
  then show ?thesis using float3s_nth assms by (simp add: float3_at_def length_float3s)
qed

text \<open>
  C17: a polygon is covered by the patches it is cut into. For a polygon of n vertices, n at
  least 3, whose points are the floats of parameter P, \<open>Simplify\<close> inserts (n - 2) / 2 bilinear
  quadrilaterals, each for two triangles of the fan around the first vertex, and, when n is odd,
  three more for the last triangle. A quadrilateral that is flat and convex has exactly the points
  of its two triangles; the three pieces of the last triangle have its points, each those with the
  largest weight at its own corner, so that they meet only where two weights are equal. For any
  polygon, flat or not, the area vectors of the patches add up to that of the polygon, where the
  three pieces have the same area but the second and the third are traversed the other way round.
\<close>

theorem polygon_tiled:
  assumes "FindParam ''P'' P_FLT_ARR P_FLT_ARR 0 params = Inr i" and "0 \<le> i" and "arr_read params i = Inr p"
    and "fst (NumVec None p) = Inr fl" and "reals_of fl = Inr xs" and "3 \<le> length (float3s xs)"
  shows "\<exists>quads tris. Polygon_Simplify params = (Inr (), quads @ tris) \<and> list_all is_bilinear (quads @ tris)
    \<and> length quads = (length (float3s xs) - 2) div 2
    \<and> quads_cover (float3s xs) 1 quads
    \<and> (if even (length (float3s xs))
       then tris = [] \<and> sum_list (map patch_area quads) = polygon_area (float3s xs)
       else \<exists>a b c. tris = [a, b, c] \<and> pieces_cover (float3s xs) (length (float3s xs) - 2) a b c
         \<and> patch_area b = - patch_area a \<and> patch_area c = - patch_area a
         \<and> sum_list (map patch_area quads) + scaleR 3 (patch_area a) = polygon_area (float3s xs))"
proof -
  let ?vs = "float3s xs"
  obtain ss where ss: "fan_loop (\<lambda>k. float3_at xs (3 * k)) (int 1) (int (length ?vs) - 1) = (Inr (), ss)"
    and t: "tiles_fan ?vs 1 (length ?vs - 2) ss"
    using fan_loop_tiles [of ?vs "\<lambda>k. float3_at xs (3 * k)" 1 "length ?vs - 2", OF float3_at_vertex] assms(6)
    by fastforce
  have "Polygon_Simplify params = (Inr (), ss)"
    using assms ss by (simp add: Polygon_Simplify_def length_float3s)
  moreover have "even (length ?vs - 2) = even (length ?vs)" "1 + (length ?vs - 2) = length ?vs - 1"
    "length ?vs - 1 - 1 = length ?vs - 2"
    using assms(6) by auto
  ultimately show ?thesis using t unfolding tiles_fan_def polygon_area_def by auto
qed

definition ex_polygon :: "Param list" where
  "ex_polygon = [Param_new\<lparr>ptype := P_STR, stringVal := ''P''\<rparr>,
     Param_new\<lparr>ptype := P_FLT_ARR, floatArrayVal := map Fin [0, 0, 0, 2, 0, 0, 3, 1, 0, 2, 2, 0, 0, 2, 0]\<rparr>]"

theorem polygon_tiled_witness:
  "\<exists>q a b c. Polygon_Simplify ex_polygon = (Inr (), [q, a, b, c])
     \<and> patch_image q = triangle (Vec3 0 0 0) (Vec3 2 0 0) (Vec3 3 1 0) \<union> triangle (Vec3 0 0 0) (Vec3 3 1 0) (Vec3 2 2 0)
     \<and> patch_image a \<union> patch_image b \<union> patch_image c = triangle (Vec3 0 0 0) (Vec3 2 2 0) (Vec3 0 2 0)"
proof -
  let ?xs = "[0, 0, 0, 2, 0, 0, 3, 1, 0, 2, 2, 0, 0, 2, 0 :: real]"
  have "FindParam ''P'' P_FLT_ARR P_FLT_ARR 0 ex_polygon = Inr 1" "(0 :: int) \<le> 1"
    "arr_read ex_polygon 1 = Inr (ex_polygon ! 1)"
    "fst (NumVec None (ex_polygon ! 1)) = Inr (map Fin [0, 0, 0, 2, 0, 0, 3, 1, 0, 2, 2, 0, 0, 2, 0])"
    "reals_of (map Fin [0, 0, 0, 2, 0, 0, 3, 1, 0, 2, 2, 0, 0, 2, 0]) = Inr ?xs" "3 \<le> length (float3s ?xs)"
    by (simp_all add: ex_polygon_def FindParam_def PChar_def Param_new_def arr_read_def NumVec_def real_of_flt_def
        strcasecmp_eq_def)
  from polygon_tiled [OF this] obtain quads a b c where
    s: "Polygon_Simplify ex_polygon = (Inr (), quads @ [a, b, c])" "length quads = 1"
    and q: "quads_cover (float3s ?xs) 1 quads" and t: "pieces_cover (float3s ?xs) (Suc (Suc (Suc 0))) a b c" by auto
  then obtain q' where l: "quads = [q']" by (auto simp: length_Suc_conv)
  have "flat_convex (Vec3 0 0 0) (Vec3 2 0 0) (Vec3 3 1 0) (Vec3 2 2 0)"
    unfolding flat_convex_def by (intro exI [of _ 1] exI [of _ "1 / 2"]) (simp add: Vec3_ops)
  with q l have "patch_image q' = triangle (Vec3 0 0 0) (Vec3 2 0 0) (Vec3 3 1 0) \<union> triangle (Vec3 0 0 0) (Vec3 3 1 0) (Vec3 2 2 0)"
    by (simp add: quads_cover_def tri_points_def)
  with s l t show ?thesis by (auto simp: pieces_cover_def tri_points_def)
qed

text \<open>
  A polygon whose points are written as integers is refused when the world ends, although
  \<open>NumVec\<close> converts such arrays: \<open>Simplify\<close> asks for an array of floats.
\<close>

theorem integer_polygon_refused:
  "Polygon_Simplify [Param_new\<lparr>ptype := P_STR, stringVal := ''P''\<rparr>, Param_new\<lparr>ptype := P_INT_ARR, intArrayVal := xs\<rparr>]
     = (Inl missing_P, [])"
  by (simp add: Polygon_Simplify_def FindParam_def PChar_def Param_new_def strcasecmp_eq_def)

text \<open>
  A general polygon with a hole shifts all that follow: the second polygon of the two below is
  read with the vertex count and the vertices of the hole.
\<close>

theorem hole_shifts_polygons:
  "general_loop P [4, 3, 5] vs 0 0 [2, 1]
     = then_insert (tessellateToBilinearPatches P vs 0 4)
         (then_insert (tessellateToBilinearPatches P vs 4 3) (Inr (), []))"
  by (simp add: arr_read_def)

section \<open>Meshes\<close>

lemma insert_each_ok: "(\<And>i. i \<in> set is' \<Longrightarrow> f i = Inr (g i)) \<Longrightarrow> insert_each f is' = (Inr (), map g is')"
  by (induction is') simp_all

text \<open>The point of a mesh in column \<open>i\<close> and row \<open>j\<close>, and the patch of a cell.\<close>

definition mesh_point :: "real Vec3 list \<Rightarrow> int \<Rightarrow> int \<Rightarrow> int \<Rightarrow> real Vec3" where
  "mesh_point pts nu i j = pts ! nat (i + nu * j)"

definition mesh_patch :: "real Vec3 list \<Rightarrow> int \<Rightarrow> int \<Rightarrow> int \<Rightarrow> int \<Rightarrow> Geometry" where
  "mesh_patch pts nu nv i j = S_PatchBilinear
     [mesh_point pts nu i j, mesh_point pts nu ((i + 1) mod nu) j,
      mesh_point pts nu i ((j + 1) mod nv), mesh_point pts nu ((i + 1) mod nu) ((j + 1) mod nv)]"

lemma mesh_index:
  fixes i :: int
  assumes "0 \<le> i" and "i < nu" and "0 \<le> j" and "j < nv"
  shows "0 \<le> i + nu * j" and "i + nu * j < nu * nv"
proof -
  show "0 \<le> i + nu * j" using assms by simp
  have "i + nu * j < nu * 1 + nu * j" using assms by simp
  also have "\<dots> \<le> nu * nv" using mult_left_mono [of "1 + j" nv nu] assms by (simp add: algebra_simps)
  finally show "i + nu * j < nu * nv" .
qed

lemma mesh_point_read:
  assumes "int (length xs) = 3 * nu * nv" and "0 \<le> i" and "i < nu" and "0 \<le> j" and "j < nv"
  shows "float3_at xs ((i + nu * j) * 3) = Inr (mesh_point (float3s xs) nu i j)"
proof -
  note m = mesh_index [OF assms(2-5)]
  have "nat (i + nu * j) < length (float3s xs)" using m assms(1) by (simp add: length_float3s)
  from float3_at_vertex [OF this] m(1) show ?thesis by (simp add: mesh_point_def mult.commute)
qed

text \<open>
  A bilinear mesh of \<open>nu\<close> times \<open>nv\<close> points becomes one patch per cell, with the last column
  and row joined to the first where the mesh is periodic; neighbouring patches meet along their
  common edge, so the mesh has no seams.
\<close>

theorem bilinear_mesh_seamless:
  assumes "int (length xs) = 3 * nu * nv" and "1 \<le> nu" and "1 \<le> nv"
  shows "bilinear_mesh xs nu nv up vp =
      (Inr (), concat (map (\<lambda>i. map (mesh_patch (float3s xs) nu nv i) [0..nv - 1 + (if vp then 1 else 0) - 1])
                 [0..nu - 1 + (if up then 1 else 0) - 1]))
    \<and> EvalP (mesh_patch pts nu nv i j) 1 t = EvalP (mesh_patch pts nu nv ((i + 1) mod nu) j) 0 t
    \<and> EvalP (mesh_patch pts nu nv i j) t 1 = EvalP (mesh_patch pts nu nv i ((j + 1) mod nv)) t 0"
proof -
  let ?is = "concat (map (\<lambda>i. map (\<lambda>j. (i, j)) [0..nv - 1 + (if vp then 1 else 0) - 1]) [0..nu - 1 + (if up then 1 else 0) - 1])"
  have "bilinear_mesh_hull xs nu nv (i, j) = Inr (mesh_patch (float3s xs) nu nv i j)"
    if "(i, j) \<in> set ?is" for i j
  proof -
    have ij: "0 \<le> i" "i < nu" "0 \<le> j" "j < nv" using that by (auto split: if_splits)
    moreover have "0 \<le> (i + 1) mod nu" "(i + 1) mod nu < nu" "0 \<le> (j + 1) mod nv" "(j + 1) mod nv < nv"
      using assms(2,3) by simp_all
    ultimately show ?thesis
      by (simp add: bilinear_mesh_hull_def Let_def mesh_point_read [OF assms(1)] mesh_patch_def
          del: distrib_right_numeral)
  qed
  then have "bilinear_mesh xs nu nv up vp = (Inr (), map (\<lambda>(i, j). mesh_patch (float3s xs) nu nv i j) ?is)"
    unfolding bilinear_mesh_def Let_def by (intro insert_each_ok) auto
  then have "bilinear_mesh xs nu nv up vp =
      (Inr (), concat (map (\<lambda>i. map (mesh_patch (float3s xs) nu nv i) [0..nv - 1 + (if vp then 1 else 0) - 1])
                 [0..nu - 1 + (if up then 1 else 0) - 1]))"
    by (simp add: map_concat comp_def)
  moreover have "Vec3_Mix a b 1 = b" "Vec3_Mix a b 0 = a" for a b
    by (simp_all add: Vec3_Mix_def)
  ultimately show ?thesis
    by (simp add: EvalP_def Eval_dPdu_dPdv_def mesh_patch_def PatchBilinear_Eval_def)
qed

section \<open>NURBS patches\<close>

lemma sum_list_set: "k < length b \<Longrightarrow> sum_list (b[k := x]) = sum_list b + x - (b ! k :: real)"
  by (induction b arbitrary: k) (auto split: nat.split)

lemma sum_list_shift:
  fixes b :: "real list"
  assumes "Suc s < length b"
  shows "sum_list (b[Suc s := b ! Suc s + (1 - w) * b ! s, s := w * b ! s]) = sum_list b"
proof -
  have "sum_list (b[Suc s := b ! Suc s + (1 - w) * b ! s]) = sum_list b + (1 - w) * b ! s"
    using assms by (simp add: sum_list_set)
  moreover have "sum_list (b[Suc s := b ! Suc s + (1 - w) * b ! s, s := w * b ! s])
      = sum_list (b[Suc s := b ! Suc s + (1 - w) * b ! s]) + w * b ! s - b ! s"
    using assms by (subst sum_list_set) auto
  ultimately show ?thesis by (simp add: algebra_simps)
qed

lemma basis_inner_sum:
  "basis_inner kv u r n i b = Inr c \<Longrightarrow> n < length b \<Longrightarrow> length c = length b \<and> sum_list c = sum_list b"
proof (induction kv u r n i b rule: basis_inner.induct)
  case (1 kv u r i b)
  then show ?case by simp
next
  case (2 kv u r s i b)
  from 2(2) obtain w where
    "basis_inner kv u r s (i + 1) (b[Suc s := b ! Suc s + (1 - w) * b ! s, s := w * b ! s]) = Inr c"
    by (auto simp: res_bind_eq_Inr)
  with 2(1) [OF this] 2(3) sum_list_shift [of s b w] show ?case by simp
qed

lemma basis_outer_sum:
  "basis_outer kv u brk n r b = Inr c \<Longrightarrow> length b = r - 1 \<Longrightarrow> 2 \<le> r \<Longrightarrow>
     length c = length b + n \<and> sum_list c = sum_list b"
proof (induction kv u brk n r b rule: basis_outer.induct)
  case (1 kv u brk r b)
  then show ?case by simp
next
  case (2 kv u brk n r b)
  from 2(2) obtain d where
    d: "basis_inner kv u r (r - 1) (brk - int r + 1) (b @ [0]) = Inr d" "basis_outer kv u brk n (Suc r) d = Inr c"
    by (auto simp: res_bind_eq_Inr)
  have "length d = Suc (length b)" "sum_list d = sum_list b" using basis_inner_sum [OF d(1)] 2(3,4) by auto
  with 2(1) [OF d(2)] 2(3,4) show ?case by simp
qed

text \<open>The basis functions of a parameter add up to one.\<close>

lemma basisFunctions_unity:
  assumes "basisFunctions u brk kv k = Inr bs" and "1 \<le> k"
  shows "length bs = nat k" and "sum_list bs = 1"
  using basis_outer_sum [OF assms(1) [unfolded basisFunctions_def]] assms(2) by auto

definition affine4 :: "real \<Rightarrow> real \<Rightarrow> real \<Rightarrow> real \<Rightarrow> real Vec4 \<Rightarrow> real" where
  "affine4 a b c d p = a * x4 p + b * y4 p + c * z4 p + d * w4 p"

lemma weigh_row_affine:
  assumes "\<forall>p \<in> set ctrl. affine4 a b c d p = k"
  shows "weigh_row ctrl idx js w acc = Inr r \<Longrightarrow>
    affine4 a b c d r = affine4 a b c d acc + k * sum_list (map w js)"
proof (induction js arbitrary: acc)
  case Nil
  then show ?case by simp
next
  case (Cons j js)
  from Cons.prems obtain p where p: "arr_read ctrl (idx + int j) = Inr p"
    "weigh_row ctrl idx js w (Vec4_opV (+) acc (Vec4_opS (*) p (w j))) = Inr r"
    by (auto simp: res_bind_eq_Inr)
  have "p \<in> set ctrl" using p(1) by (auto simp: arr_read_def split: if_splits)
  then have "affine4 a b c d p = k" using assms by blast
  then have "affine4 a b c d (Vec4_opV (+) acc (Vec4_opS (*) p (w j))) = affine4 a b c d acc + k * w j"
    by (auto simp: affine4_def Vec4_opV_def Vec4_opS_def algebra_simps)
  with Cons.IH [OF p(2)] show ?case by (simp add: distrib_left add.assoc)
qed

lemma weigh_rows_affine:
  assumes "\<forall>p \<in> set ctrl. affine4 a b c d p = k"
  shows "weigh_rows ctrl ppr idx uo is' w acc = Inr r \<Longrightarrow>
    affine4 a b c d r = affine4 a b c d acc + k * sum_list (map (\<lambda>i. sum_list (map (w i) [0..<uo])) is')"
proof (induction is' arbitrary: idx acc)
  case Nil
  then show ?case by simp
next
  case (Cons i is')
  from Cons.prems obtain q where q: "weigh_row ctrl idx [0..<uo] (w i) acc = Inr q"
    "weigh_rows ctrl ppr (idx + ppr) uo is' w q = Inr r"
    by (auto simp: res_bind_eq_Inr)
  from weigh_row_affine [OF assms q(1)] Cons.IH [OF q(2)] show ?case by (simp add: distrib_left add.assoc)
qed

lemma sum_reversed:
  fixes b :: "real list"
  shows "length b = n \<Longrightarrow> sum_list (map (\<lambda>j. b ! (n - 1 - j)) [0..<n]) = sum_list b"
proof -
  assume n: "length b = n"
  have "map (\<lambda>j. b ! (n - 1 - j)) [0..<n] = rev b"
    using n by (intro nth_equalityI) (auto simp: rev_nth)
  then show ?thesis by (simp add: sum_list_rev)
qed

lemma tensor_unity:
  fixes bu bv :: "real list"
  assumes "length bu = uo" and "length bv = vo" and "sum_list bu = 1" and "sum_list bv = 1"
  shows "sum_list (map (\<lambda>i. sum_list (map (\<lambda>j. bu ! (uo - 1 - j) * bv ! (vo - 1 - i)) [0..<uo])) [0..<vo]) = 1"
  using sum_reversed [OF assms(1)] sum_reversed [OF assms(2)] assms(3,4)
  by (simp add: sum_list_mult_const)

text \<open>
  A NURBS patch stays in the affine hull of its control points. When all control points
  have weight one and satisfy one affine equation, so does every point that the evaluation
  returns, whatever the orders and knots; in particular a patch whose control points coincide is
  that point, and one with coplanar control points lies in their plane.
\<close>

theorem nurbs_affine_hull:
  assumes "NuPatch_Eval d u v = Inr (pt, du, dv)" and "1 \<le> mUOrder d" and "1 \<le> mVOrder d"
    and "\<forall>p \<in> set (mCtrlPws d). w4 p = 1 \<and> a * x4 p + b * y4 p + c * z4 p = k"
  shows "a * x3 pt + b * y3 pt + c * z3 pt = k"
proof -
  let ?uo = "nat (mUOrder d)" and ?vo = "nat (mVOrder d)"
  from assms(1) obtain ub bu vb bv idx r where
    bu: "basisFunctions u ub (mUKnots d) (mUOrder d) = Inr bu" and bv: "basisFunctions v vb (mVKnots d) (mVOrder d) = Inr bv"
    and r: "weigh_rows (mCtrlPws d) (mNu d) idx ?uo [0..<?vo]
        (\<lambda>i j. bu ! (?uo - 1 - j) * bv ! (?vo - 1 - i)) (Vec4_splat 0) = Inr r"
    and pt: "pt = scaleR (1 / w4 r) (Vec4_GetAsV3 r)"
    by (auto simp: NuPatch_Eval_def Let_def res_bind_eq_Inr)
  note ten = tensor_unity [OF basisFunctions_unity(1) [OF bu assms(2)] basisFunctions_unity(1) [OF bv assms(3)]
      basisFunctions_unity(2) [OF bu assms(2)] basisFunctions_unity(2) [OF bv assms(3)]]
  have "affine4 0 0 0 1 r = 1" using weigh_rows_affine [OF _ r, of 0 0 0 1 1] assms(4) ten
    by (simp add: affine4_def Vec4_splat_def)
  moreover have "affine4 a b c 0 r = k" using weigh_rows_affine [OF _ r, of a b c 0 k] assms(4) ten
    by (simp add: affine4_def Vec4_splat_def)
  ultimately show ?thesis by (simp add: affine4_def pt Vec4_GetAsV3_def scaleR_Vec3_def)
qed

text \<open>A patch of order two in both directions over the unit square.\<close>

definition ex_nurbs :: BaseDef where
  "ex_nurbs = \<lparr>mUKnots = [0, 0, 1, 1], mVKnots = [0, 0, 1, 1],
     mCtrlPws = [Vec4 0 0 5 1, Vec4 1 0 5 1, Vec4 0 1 5 1, Vec4 1 1 5 1],
     mUOrder = 2, mVOrder = 2, mNu = 2, mNv = 2\<rparr>"

lemma ex_nurbs_eval: "\<exists>du dv. NuPatch_Eval ex_nurbs (1 / 4) (1 / 2) = Inr (Vec3 (1 / 4) (1 / 2) 5, du, dv)"
  by (simp add: ex_nurbs_def NuPatch_Eval_def Let_def findBreakPoint_def arr_read_def D_Min_def basisFunctions_def
      basisDerivatives_def numeral_2_eq_2 numeral_3_eq_3 Vec4_splat_def Vec4_opV_def Vec4_opS_def Vec4_GetAsV3_def scaleR_Vec3_def)

theorem nurbs_affine_hull_witness:
  "\<exists>pt du dv. NuPatch_Eval ex_nurbs (1 / 4) (1 / 2) = Inr (pt, du, dv) \<and> 0 * x3 pt + 0 * y3 pt + 1 * z3 pt = 5"
proof -
  from ex_nurbs_eval obtain pt du dv where e: "NuPatch_Eval ex_nurbs (1 / 4) (1 / 2) = Inr (pt, du, dv)" by blast
  from nurbs_affine_hull [OF e, of 0 0 1 5] have "0 * x3 pt + 0 * y3 pt + 1 * z3 pt = 5"
    by (simp add: ex_nurbs_def)
  with e show ?thesis by blast
qed

text \<open>
  The constructor loses the coordinates given as \<open>P\<close>: whatever the points, x becomes the third
  coordinate and y and z are what the memory held.
\<close>

theorem nupatch_points_scrambled:
  assumes "i < n"
  shows "ctrl_from_P mem src n ! i = Vec4 (src ! (3 * i + 2)) (y4 (mem i)) (z4 (mem i)) 1"
  using assms by (simp add: ctrl_from_P_def Let_def)

end
