(* ===== verification/RandMT.thy ===== *)
theory RandMT
  imports Prelude
begin

text \<open>
  The Mersenne twister of \<open>DUtils_Random.h/.cpp\<close>, which places the samples of a pixel. The state is
  the array with its spare element, the position of the next number as an index, the seed, and the
  count of numbers left. The reload works in place with three pointers; it is shown to compute the
  recurrence of the generator.
\<close>

unbundle bit_operations_syntax

section \<open>The generator\<close>

record RandMT =
  mt_state :: "U32 list"
  mt_next :: nat
  mt_initseed :: U32
  mt_left :: int

definition MT_N :: nat where [simp]: "MT_N = 624"
definition MT_M :: nat where [simp]: "MT_M = 397"
definition MT_K :: U32 where "MT_K = 0x9908B0DF"

definition hiBit :: "U32 \<Rightarrow> U32" where
  "hiBit u = u AND 0x80000000"

definition loBit :: "U32 \<Rightarrow> U32" where
  "loBit u = u AND 0x00000001"

definition loBits :: "U32 \<Rightarrow> U32" where
  "loBits u = u AND 0x7FFFFFFF"

definition mixBits :: "U32 \<Rightarrow> U32 \<Rightarrow> U32" where
  "mixBits u v = hiBit u OR loBits v"

primrec seed_loop :: "nat \<Rightarrow> nat \<Rightarrow> U32 \<Rightarrow> U32 list \<Rightarrow> U32 list" where
  "seed_loop 0 s x st = st"
| "seed_loop (Suc j) s x st = seed_loop j (Suc s) (x * 69069) (st[s := (x * 69069) AND 0xFFFFFFFF])"

definition seedMT :: "U32 \<Rightarrow> RandMT \<Rightarrow> RandMT" where
  "seedMT seed g =
     (let x = (seed OR 1) AND 0xFFFFFFFF
      in g\<lparr>mt_initseed := seed, mt_left := 0,
           mt_state := seed_loop (MT_N - 1) 1 x ((mt_state g)[0 := x])\<rparr>)"

text \<open>A generator in memory that has not been written yet; the array has \<open>N + 1\<close> elements.\<close>

definition RandMT_new :: "(nat \<Rightarrow> U32) \<Rightarrow> U32 \<Rightarrow> RandMT" where
  "RandMT_new mem seed =
     seedMT seed \<lparr>mt_state = map mem [0..<MT_N + 1], mt_next = 0, mt_initseed = 0, mt_left = 0\<rparr>"

definition twist :: "U32 \<Rightarrow> U32 \<Rightarrow> U32 \<Rightarrow> U32" where
  "twist pM s0 s1 = pM XOR drop_bit 1 (mixBits s0 s1) XOR (if loBit s1 \<noteq> 0 then MT_K else 0)"

text \<open>One of the two loops of \<open>reloadMT\<close>: the pointers \<open>p0\<close>, \<open>pM\<close> and \<open>p2\<close> advance together.\<close>

primrec reload_loop ::
  "nat \<Rightarrow> nat \<Rightarrow> nat \<Rightarrow> nat \<Rightarrow> U32 \<Rightarrow> U32 \<Rightarrow> U32 list \<Rightarrow> nat \<times> nat \<times> nat \<times> U32 \<times> U32 \<times> U32 list" where
  "reload_loop 0 p0 pM p2 s0 s1 st = (p0, pM, p2, s0, s1, st)"
| "reload_loop (Suc j) p0 pM p2 s0 s1 st =
     (let st = st[p0 := twist (st ! pM) s0 s1]
      in reload_loop j (Suc p0) (Suc pM) (Suc p2) s1 (st ! p2) st)"

definition temper :: "U32 \<Rightarrow> U32" where
  "temper y =
     (let y = y XOR drop_bit 11 y;
          y = y XOR (push_bit 7 y AND 0x9D2C5680);
          y = y XOR (push_bit 15 y AND 0xEFC60000)
      in y XOR drop_bit 18 y)"

definition reloadMT :: "RandMT \<Rightarrow> U32 \<times> RandMT" where
  "reloadMT g =
     (let g = (if mt_left g < -1 then seedMT (mt_initseed g) g else g);
          st = mt_state g;
          (p0, pM, p2, s0, s1, st) = reload_loop (MT_N - MT_M) 0 MT_M 2 (st ! 0) (st ! 1) st;
          (p0, pM, p2, s0, s1, st) = reload_loop (MT_M - 1) p0 0 p2 s0 s1 st;
          s1 = st ! 0;
          st = st[p0 := twist (st ! pM) s0 s1]
      in (temper s1, g\<lparr>mt_left := int MT_N - 1, mt_next := 1, mt_state := st\<rparr>))"

definition randomMT :: "RandMT \<Rightarrow> U32 \<times> RandMT" where
  "randomMT g =
     (let g = g\<lparr>mt_left := mt_left g - 1\<rparr> in
      if mt_left g < 0 then reloadMT g
      else (temper (mt_state g ! mt_next g), g\<lparr>mt_next := mt_next g + 1\<rparr>))"

primrec randoms :: "nat \<Rightarrow> RandMT \<Rightarrow> U32 list \<times> RandMT" where
  "randoms 0 g = ([], g)"
| "randoms (Suc n) g = (let (y, g) = randomMT g; (ys, g) = randoms n g in (y # ys, g))"

section \<open>The recurrence\<close>

function mt_seq :: "(nat \<Rightarrow> U32) \<Rightarrow> nat \<Rightarrow> U32" where
  "mt_seq x k =
     (if k < MT_N then x k
      else twist (mt_seq x (k - MT_N + MT_M)) (mt_seq x (k - MT_N)) (mt_seq x (k - MT_N + 1)))"
  by pat_completeness auto
termination by (relation "measure snd") auto

declare mt_seq.simps [simp del]

lemma mt_seq_step: "mt_seq x (MT_N + k) = twist (mt_seq x (k + MT_M)) (mt_seq x k) (mt_seq x (k + 1))"
  by (subst mt_seq.simps) simp

text \<open>
  The state in the middle of a reload: \<open>i\<close> elements belong to the next block of the sequence, the
  others still to the block that starts at \<open>b\<close>.
\<close>

definition half_way :: "(nat \<Rightarrow> U32) \<Rightarrow> nat \<Rightarrow> nat \<Rightarrow> U32 list \<Rightarrow> bool" where
  "half_way x b i st \<longleftrightarrow> length st = MT_N + 1
     \<and> (\<forall>k<MT_N. st ! k = (if k < i then mt_seq x (b + MT_N + k) else mt_seq x (b + k)))"

lemma half_way_step:
  assumes "half_way x b i st" and "i < MT_N" and "v = mt_seq x (b + MT_N + i)"
  shows "half_way x b (Suc i) (st[i := v])"
  using assms unfolding half_way_def by (auto simp: nth_list_update less_Suc_eq)

lemma reload_loop_half_way:
  assumes "half_way x b p0 st" and "s0 = mt_seq x (b + p0)" and "s1 = mt_seq x (b + p0 + 1)" and "p2 = p0 + 2"
    and "p0 + n < MT_N" and "pM = p0 + MT_M \<and> p0 + n + MT_M \<le> MT_N \<or> pM + MT_N = p0 + MT_M"
  shows "\<exists>s1' st'. reload_loop n p0 pM p2 s0 s1 st = (p0 + n, pM + n, p2 + n, mt_seq x (b + p0 + n), s1', st')
    \<and> half_way x b (p0 + n) st' \<and> (p0 + n + 1 < MT_N \<longrightarrow> s1' = mt_seq x (b + p0 + n + 1))"
  using assms
proof (induction n arbitrary: p0 pM p2 s0 s1 st)
  case 0
  then show ?case by simp
next
  case (Suc n)
  let ?st = "st[p0 := twist (st ! pM) s0 s1]"
  have pM: "st ! pM = mt_seq x (b + p0 + MT_M)"
  proof (cases "pM + MT_N = p0 + MT_M")
    case True
    then have "pM < p0" "pM < MT_N" "b + MT_N + pM = b + p0 + MT_M" using Suc.prems(5) by auto
    then show ?thesis using Suc.prems(1) by (simp only: half_way_def if_True)
  next
    case False
    then have "\<not> pM < p0" "pM < MT_N" "b + pM = b + p0 + MT_M" using Suc.prems(6) by auto
    then show ?thesis using Suc.prems(1) by (simp only: half_way_def if_False)
  qed
  have v: "twist (st ! pM) s0 s1 = mt_seq x (b + MT_N + p0)"
    unfolding pM Suc.prems(2,3) using mt_seq_step [of x "b + p0"] by (simp only: ac_simps)
  have hw: "half_way x b (Suc p0) ?st"
    using Suc.prems(1,5) v by (intro half_way_step) auto
  have s1: "?st ! p2 = mt_seq x (b + Suc p0 + 1)" if "p2 < MT_N"
  proof -
    have "?st ! p2 = mt_seq x (b + p2)" using hw that Suc.prems(4) by (simp only: half_way_def) auto
    then show ?thesis using Suc.prems(4) by (simp only:) simp
  qed
  have step: "reload_loop (Suc n) p0 pM p2 s0 s1 st = reload_loop n (Suc p0) (Suc pM) (Suc p2) s1 (?st ! p2) ?st"
    by (simp add: Let_def)
  show ?case
  proof (cases "n = 0")
    case 0: True
    have "reload_loop (Suc n) p0 pM p2 s0 s1 st = (p0 + 1, pM + 1, p2 + 1, mt_seq x (b + p0 + 1), ?st ! p2, ?st)"
      using Suc.prems(3) by (simp add: 0 Let_def)
    moreover have "p0 + 1 + 1 < MT_N \<longrightarrow> ?st ! p2 = mt_seq x (b + p0 + 1 + 1)" using s1 Suc.prems(4) by simp
    ultimately show ?thesis using hw 0 by auto
  next
    case False
    have "p2 < MT_N" using False Suc.prems(4,5) by simp
    from Suc.IH [OF hw _ s1 [OF this], of s1 "Suc p2" "Suc pM"] Suc.prems(3-6) step
    show ?thesis by (auto simp del: reload_loop.simps)
  qed
qed

lemma half_way_done: "half_way x b MT_N st \<Longrightarrow> half_way x (b + MT_N) 0 st"
  by (simp add: half_way_def)

lemma reloadMT_block:
  assumes "half_way x b 0 (mt_state g)" and "\<not> mt_left g < -1"
  shows "\<exists>st. reloadMT g = (temper (mt_seq x (b + MT_N)), g\<lparr>mt_left := int MT_N - 1, mt_next := 1, mt_state := st\<rparr>)
    \<and> half_way x (b + MT_N) 0 st"
proof -
  let ?st = "mt_state g"
  have "?st ! 0 = mt_seq x (b + 0)" "?st ! 1 = mt_seq x (b + 0 + 1)"
    using assms(1) by (simp_all add: half_way_def)
  from reload_loop_half_way [OF assms(1) this, of 2 "MT_N - MT_M" MT_M] obtain t1 st1 where
    l1: "reload_loop (MT_N - MT_M) 0 MT_M 2 (?st ! 0) (?st ! 1) ?st = (227, 624, 229, mt_seq x (b + 227), t1, st1)"
    "half_way x b 227 st1" "t1 = mt_seq x (b + 227 + 1)" by auto
  from reload_loop_half_way [OF l1(2) refl l1(3), of 229 "MT_M - 1" 0] obtain t2 st2 where
    l2: "reload_loop (MT_M - 1) 227 0 229 (mt_seq x (b + 227)) t1 st1 = (623, 396, 625, mt_seq x (b + 623), t2, st2)"
    "half_way x b 623 st2" by (auto simp: l1(3) add.commute)
  have r: "st2 ! 0 = mt_seq x (b + MT_N)" "st2 ! 396 = mt_seq x (b + 623 + MT_M)"
    using l2(2) by (simp_all add: half_way_def)
  let ?v = "twist (st2 ! 396) (mt_seq x (b + 623)) (st2 ! 0)"
  have v: "?v = mt_seq x (b + MT_N + 623)"
    unfolding r using mt_seq_step [of x "b + 623"] by (simp add: ac_simps)
  have "half_way x (b + MT_N) 0 (st2[623 := ?v])"
    using half_way_step [OF l2(2) _ v] by (intro half_way_done) simp
  moreover have "reloadMT g = (temper (mt_seq x (b + MT_N)), g\<lparr>mt_left := int MT_N - 1, mt_next := 1, mt_state := st2[623 := ?v]\<rparr>)"
    unfolding reloadMT_def using assms(2) l1(1) l2(1) r(1) by (simp add: Let_def)
  ultimately show ?thesis by blast
qed

text \<open>A generator that has given \<open>n\<close> numbers of the sequence that starts with \<open>x\<close>.\<close>

definition gen_at :: "(nat \<Rightarrow> U32) \<Rightarrow> nat \<Rightarrow> RandMT \<Rightarrow> bool" where
  "gen_at x n g \<longleftrightarrow> 0 \<le> mt_left g \<and> mt_left g < int MT_N \<and> half_way x (n + nat (mt_left g)) 0 (mt_state g)
     \<and> (0 < mt_left g \<longrightarrow> mt_next g = MT_N - nat (mt_left g))"

lemma randomMT_next:
  assumes "gen_at x n g"
  shows "\<exists>g'. randomMT g = (temper (mt_seq x (MT_N + n)), g') \<and> gen_at x (Suc n) g'"
proof (cases "mt_left g = 0")
  case True
  let ?g = "g\<lparr>mt_left := mt_left g - 1\<rparr>"
  have "half_way x n 0 (mt_state ?g)" "\<not> mt_left ?g < -1" using assms True by (simp_all add: gen_at_def)
  from reloadMT_block [OF this] obtain st where
    "reloadMT ?g = (temper (mt_seq x (n + MT_N)), ?g\<lparr>mt_left := int MT_N - 1, mt_next := 1, mt_state := st\<rparr>)"
    "half_way x (n + MT_N) 0 st" by blast
  then show ?thesis using True by (auto simp: randomMT_def Let_def gen_at_def add.commute)
next
  case False
  let ?L = "nat (mt_left g)"
  have L: "0 < mt_left g" "mt_left g < int MT_N" "half_way x (n + ?L) 0 (mt_state g)" "mt_next g = MT_N - ?L"
    using assms False by (auto simp: gen_at_def)
  then have "mt_state g ! mt_next g = mt_seq x (n + ?L + (MT_N - ?L))" by (simp add: half_way_def)
  moreover have "n + ?L + (MT_N - ?L) = MT_N + n" using L(2) by simp
  ultimately have "randomMT g = (temper (mt_seq x (MT_N + n)), g\<lparr>mt_left := mt_left g - 1, mt_next := mt_next g + 1\<rparr>)"
    using L(1) by (simp add: randomMT_def Let_def add.commute)
  moreover have "Suc n + nat (mt_left g - 1) = n + ?L" "mt_next g + 1 = MT_N - nat (mt_left g - 1)" using L(1,2,4) by auto
  moreover have "half_way x (Suc n + nat (mt_left g - 1)) 0 (mt_state g)" unfolding calculation(2) by (rule L(3))
  moreover have "gen_at x (Suc n) (g\<lparr>mt_left := mt_left g - 1, mt_next := mt_next g + 1\<rparr>)"
    using L(1,2) calculation(3,4) by (simp add: gen_at_def)
  ultimately show ?thesis by blast
qed

lemma randoms_sequence:
  "gen_at x n g \<Longrightarrow> fst (randoms k g) = map (\<lambda>i. temper (mt_seq x (MT_N + n + i))) [0..<k]"
proof (induction k arbitrary: n g)
  case 0
  then show ?case by simp
next
  case (Suc k)
  from randomMT_next [OF Suc.prems] obtain g' where
    g': "randomMT g = (temper (mt_seq x (MT_N + n)), g')" "gen_at x (Suc n) g'" by blast
  have "fst (randoms (Suc k) g) = temper (mt_seq x (MT_N + n)) # fst (randoms k g')"
    by (simp add: g'(1) case_prod_beta)
  also have "\<dots> = map (\<lambda>i. temper (mt_seq x (MT_N + n + i))) (0 # map Suc [0..<k])"
    using Suc.IH [OF g'(2)] by (simp add: comp_def add.assoc)
  also have "0 # map Suc [0..<k] = [0..<Suc k]" by (simp add: map_Suc_upt upt_conv_Cons)
  finally show ?case .
qed

lemma all_ones: "w AND 0xFFFFFFFF = (w :: U32)"
proof -
  have "(0xFFFFFFFF :: U32) = - 1" by simp
  then show ?thesis by (simp only: and.right_neutral)
qed

lemma seed_loop_nth:
  "length st = MT_N + 1 \<Longrightarrow> s + n = MT_N \<Longrightarrow> x = y * 69069 ^ (s - 1) \<Longrightarrow> 1 \<le> s \<Longrightarrow>
     (\<forall>k < s. st ! k = y * 69069 ^ k) \<Longrightarrow>
     length (seed_loop n s x st) = MT_N + 1 \<and> (\<forall>k<MT_N. seed_loop n s x st ! k = y * 69069 ^ k)"
proof (induction n arbitrary: s x st)
  case 0
  then show ?case by (simp del: MT_N_def)
next
  case (Suc n)
  have "(69069 :: U32) ^ (s - 1) * 69069 = 69069 ^ s" using Suc.prems(4) by (intro power_minus_mult) simp
  then have x: "x * 69069 = y * 69069 ^ (Suc s - 1)" unfolding Suc.prems(3) by (simp only: mult.assoc diff_Suc_1)
  have st: "seed_loop (Suc n) s x st = seed_loop n (Suc s) (x * 69069) (st[s := x * 69069])"
    by (simp only: seed_loop.simps all_ones)
  have "s < length st" using Suc.prems(1,2) by simp
  then have "\<forall>k < Suc s. st[s := x * 69069] ! k = y * 69069 ^ k"
    using Suc.prems(5) x by (metis diff_Suc_1 less_Suc_eq nth_list_update)
  moreover have "length (st[s := x * 69069]) = MT_N + 1" "Suc s + n = MT_N" "1 \<le> Suc s" using Suc.prems(1,2) by simp_all
  ultimately show ?case unfolding st using Suc.IH [OF _ _ x] by blast
qed

lemma seeded_gen_at: "gen_at (\<lambda>k. (seed OR 1) * 69069 ^ k) 0 (RandMT_new mem seed)"
proof -
  let ?st = "(map mem [0..<MT_N + 1])[0 := seed OR 1]"
  have "length (seed_loop (MT_N - 1) 1 (seed OR 1) ?st) = MT_N + 1
      \<and> (\<forall>k<MT_N. seed_loop (MT_N - 1) 1 (seed OR 1) ?st ! k = (seed OR 1) * 69069 ^ k)"
    by (rule seed_loop_nth) simp_all
  then show ?thesis
    by (simp add: gen_at_def RandMT_new_def seedMT_def Let_def all_ones half_way_def mt_seq.simps)
qed

text \<open>
  C18: the random numbers are those of the Mersenne twister. From any seed, the numbers that
  \<open>randomMT\<close> returns, across any number of in-place reloads of its array, are the tempered values
  of the recurrence x(k + 624) = x(k + 397) xor twist (x(k), x(k + 1)), started with the powers of
  69069 times the seed made odd.
\<close>

theorem randomMT_is_mersenne_twister:
  "fst (randoms n (RandMT_new mem seed))
     = map (\<lambda>i. temper (mt_seq (\<lambda>k. (seed OR 1) * 69069 ^ k) (MT_N + i))) [0..<n]"
  using randoms_sequence [OF seeded_gen_at] by simp

end
