(* ===== verification/HiderFilter.thy ===== *)
theory HiderFilter
  imports Raster RandMT
begin

text \<open>
  From shaded grids to pixels: the sample positions of a bucket (\<open>RI_HiderSampleCoordsBuffer.cpp\<close>),
  the micropolygons that cover them (\<open>Hider::Bust\<close>, \<open>RI_Hider_Micropolys.cpp\<close>), and the depth sort
  and box filter that give a pixel its colour (\<open>RI_Hider_Filter.cpp\<close>). The blocks of SIMD lanes are
  flattened: vertex \<open>i\<close> is lane \<open>i mod 4\<close> of block \<open>i div 4\<close>. Floats are reals.
\<close>

section \<open>Sample positions\<close>

record HiderSampleCoords =
  hs_mX :: real
  hs_mY :: real
  hs_mTime :: real
  hs_mLensX :: real
  hs_mLensY :: real

text \<open>The conversion of a float to \<open>int\<close>, towards zero.\<close>

definition c_int :: "real \<Rightarrow> int" where
  "c_int r = (if 0 \<le> r then \<lfloor>r\<rfloor> else \<lceil>r\<rceil>)"

definition sub_pixels :: "nat \<Rightarrow> (nat \<times> nat) list" where
  "sub_pixels sdim = concat (map (\<lambda>y. map (\<lambda>x. (x, y)) [0..<sdim]) [0..<sdim])"

definition init_fill :: "nat \<Rightarrow> HiderSampleCoords list" where
  "init_fill sdim = map (\<lambda>(x, y). \<lparr>hs_mX = of_nat y, hs_mY = of_nat x, hs_mTime = 0, hs_mLensX = 0, hs_mLensY = 0\<rparr>)
     (sub_pixels sdim)"

text \<open>One step of the shuffle: exchanges the \<open>mY\<close> of two sub-pixels in the same column.\<close>

definition shuffle_step ::
  "nat \<Rightarrow> nat \<times> nat \<Rightarrow> HiderSampleCoords list \<times> RandMT \<Rightarrow> HiderSampleCoords list \<times> RandMT" where
  "shuffle_step subPixelDimLog2 = (\<lambda>(x, y) (cs, g).
     let (rnd, g) = randomMT g;
         k = unat rnd mod (2 ^ subPixelDimLog2 - y);
         idx = y * 2 ^ subPixelDimLog2 + x;
         idxK = k * 2 ^ subPixelDimLog2 + x;
         t = c_int (hs_mY (cs ! idx));
         cs = cs[idx := (cs ! idx)\<lparr>hs_mY := hs_mY (cs ! idxK)\<rparr>]
     in (cs[idxK := (cs ! idxK)\<lparr>hs_mY := of_int t\<rparr>], g))"

primrec init_times :: "nat \<Rightarrow> real \<Rightarrow> real \<Rightarrow> RandMT \<Rightarrow> real list \<times> RandMT" where
  "init_times 0 dtime timeRun g = ([], g)"
| "init_times (Suc n) dtime timeRun g =
     (let (rnd, g) = randomMT g;
          t = timeRun + of_nat (unat rnd) / of_nat (unat (- 1 :: U32));
          (ts, g) = init_times n dtime (timeRun + dtime) g
      in (t # ts, g))"

text \<open>The sub-pixels of one pixel and the times they are sampled at.\<close>

definition initPixel :: "nat \<Rightarrow> RandMT \<Rightarrow> HiderSampleCoords list \<times> real list \<times> RandMT" where
  "initPixel subPixelDimLog2 g =
     (let sdim = 2 ^ subPixelDimLog2;
          (cs, g) = fold (shuffle_step subPixelDimLog2) (sub_pixels sdim) (init_fill sdim, g);
          coe = 1 / of_nat sdim;
          cs = map (\<lambda>c. c\<lparr>hs_mX := hs_mX c * coe, hs_mY := hs_mY c * coe\<rparr>) cs;
          (ts, g) = init_times (sdim * sdim) (1 / of_nat (sdim * sdim)) 0 g
      in (cs, ts, g))"

primrec init_pixels :: "nat \<Rightarrow> nat \<Rightarrow> RandMT \<Rightarrow> HiderSampleCoords list \<times> real list \<times> RandMT" where
  "init_pixels 0 subLog g = ([], [], g)"
| "init_pixels (Suc n) subLog g =
     (let (cs, ts, g) = initPixel subLog g; (cs', ts', g) = init_pixels n subLog g in (cs @ cs', ts @ ts', g))"

definition Init_coords :: "(nat \<Rightarrow> U32) \<Rightarrow> nat \<Rightarrow> nat \<Rightarrow> nat \<Rightarrow> HiderSampleCoords list \<times> real list" where
  "Init_coords mem wd he subLog =
     (let (cs, ts, g) = init_pixels (wd * he) subLog (RandMT_new mem 0x11112222) in (cs, ts))"

definition setupPixel :: "real \<Rightarrow> real \<Rightarrow> HiderSampleCoords list \<Rightarrow> real list \<Rightarrow> HiderSampleCoords list" where
  "setupPixel openTime dtime cs base = map2 (\<lambda>c b. c\<lparr>hs_mTime := openTime + dtime * b\<rparr>) cs base"

definition Setup_coords :: "real \<Rightarrow> real \<Rightarrow> HiderSampleCoords list \<Rightarrow> real list \<Rightarrow> HiderSampleCoords list" where
  "Setup_coords openTime closeTime cs base = setupPixel openTime (closeTime - openTime) cs base"

section \<open>Micropolygons\<close>

record HiderSampleData =
  sd_mDepth :: real
  sd_mCi :: "real Vec3"
  sd_mOi :: "real Vec3"

text \<open>A shaded work grid: its points in camera space and the results of the shader.\<close>

record WorkGridV =
  wg_mXDim :: nat
  wg_mYDim :: nat
  wg_mpPointsCS :: "real Vec3 list"
  wg_Ci :: "real Vec3 list"
  wg_Oi :: "real Vec3 list"

definition posWin :: "Matrix44 \<Rightarrow> nat \<Rightarrow> nat \<Rightarrow> real Vec3 \<Rightarrow> real Vec2" where
  "posWin mtxCamProj screenWd screenHe q =
     (let homoP = V4_V3W1_Mul_M44 q mtxCamProj; projP = Vec4_opS (/) homoP (w4 homoP) in
      Vec2 (x4 projP * (of_nat screenWd * (1 / 2)) + of_nat screenWd * (1 / 2))
           (- y4 projP * (of_nat screenHe * (1 / 2)) + of_nat screenHe * (1 / 2)))"

definition updateMinMax :: "real Vec3 \<Rightarrow> real Vec3 \<times> real Vec3 \<Rightarrow> real Vec3 \<times> real Vec3" where
  "updateMinMax val = (\<lambda>(minf, maxf).
     (Vec3 (if x3 val < x3 minf then x3 val else x3 minf) (if y3 val < y3 minf then y3 val else y3 minf)
           (if z3 val < z3 minf then z3 val else z3 minf),
      Vec3 (if x3 val > x3 maxf then x3 val else x3 maxf) (if y3 val > y3 maxf then y3 val else y3 maxf)
           (if z3 val > z3 maxf then z3 val else z3 maxf)))"

text \<open>The side of an edge a sample is on, and the test against all four edges of a quadrilateral.\<close>

definition edge_cross :: "real Vec3 \<Rightarrow> real Vec3 \<Rightarrow> real \<Rightarrow> real \<Rightarrow> real" where
  "edge_cross q d sampX sampY = (sampY - y3 q) * x3 d - (sampX - x3 q) * y3 d"

definition inside_quad :: "real Vec3 list \<Rightarrow> real \<Rightarrow> real \<Rightarrow> bool" where
  "inside_quad mq sampX sampY =
     (let crs0 = edge_cross (mq ! 0) (mq ! 1 - mq ! 0) sampX sampY;
          crs1 = edge_cross (mq ! 1) (mq ! 3 - mq ! 1) sampX sampY;
          crs2 = edge_cross (mq ! 3) (mq ! 2 - mq ! 3) sampX sampY;
          crs3 = edge_cross (mq ! 2) (mq ! 0 - mq ! 2) sampX sampY
      in (crs0 \<le> 0 \<and> crs1 \<le> 0 \<and> crs2 \<le> 0 \<and> crs3 \<le> 0) \<or> (crs0 \<ge> 0 \<and> crs1 \<ge> 0 \<and> crs2 \<ge> 0 \<and> crs3 \<ge> 0))"

text \<open>
  The samples of one pixel: the data lists of a bucket are one array, with the lists of a pixel
  next to each other.
\<close>

fun add_to_pixel ::
  "HiderSampleCoords list \<Rightarrow> real Vec3 list \<Rightarrow> HiderSampleData \<Rightarrow> int \<Rightarrow> int \<Rightarrow> nat \<Rightarrow> nat list
     \<Rightarrow> HiderSampleData list list \<Rightarrow> HiderSampleData list list" where
  "add_to_pixel coords mq dat x y base [] lsts = lsts"
| "add_to_pixel coords mq dat x y base (i # is') lsts =
     add_to_pixel coords mq dat x y base is'
       (if inside_quad mq (of_int x + hs_mX (coords ! (base + i))) (of_int y + hs_mY (coords ! (base + i)))
        then lsts[base + i := lsts ! (base + i) @ [dat]] else lsts)"

definition addMPSamples ::
  "nat \<Rightarrow> HiderSampleCoords list \<Rightarrow> real Vec3 \<Rightarrow> real Vec3 \<Rightarrow> nat \<Rightarrow> nat \<Rightarrow> real Vec3 list \<Rightarrow> real Vec3 \<Rightarrow> real Vec3
     \<Rightarrow> HiderSampleData list list \<Rightarrow> HiderSampleData list list" where
  "addMPSamples spp coords minPos maxPos buckWd buckHe mq valOi valCi lsts =
     (let minX = \<lfloor>x3 minPos\<rfloor>; maxX = \<lceil>x3 maxPos\<rceil>; minY = \<lfloor>y3 minPos\<rfloor>; maxY = \<lceil>y3 maxPos\<rceil> in
      if maxX < 0 \<or> maxY < 0 \<or> minX \<ge> int buckWd \<or> minY \<ge> int buckHe then lsts
      else
        let minX = (if minX < 0 then 0 else minX); minY = (if minY < 0 then 0 else minY);
            maxX = (if maxX \<ge> int buckWd then int buckWd - 1 else maxX);
            maxY = (if maxY \<ge> int buckHe then int buckHe - 1 else maxY);
            dat = \<lparr>sd_mDepth = z3 (mq ! 0), sd_mCi = valCi, sd_mOi = valOi\<rparr>
        in fold (\<lambda>(x, y). add_to_pixel coords mq dat x y (nat (y * int buckWd + x) * spp) [0..<spp])
             (concat (map (\<lambda>y. map (\<lambda>x. (x, y)) [minX..maxX]) [minY..maxY])) lsts)"

text \<open>A vertex of the grid in bucket space, with its depth.\<close>

definition buckPos :: "Matrix44 \<Rightarrow> nat \<Rightarrow> nat \<Rightarrow> ('a, 'p) HiderBucket \<Rightarrow> WorkGridV \<Rightarrow> nat \<Rightarrow> real Vec3" where
  "buckPos mtxCamProj sw sh bk wg v =
     (let w = posWin mtxCamProj sw sh (wg_mpPointsCS wg ! v) in
      Vec3 (x2 w - of_int (hb_mX1 bk)) (y2 w - of_int (hb_mY1 bk)) (z3 (wg_mpPointsCS wg ! v)))"

definition add_micropoly ::
  "Matrix44 \<Rightarrow> nat \<Rightarrow> nat \<Rightarrow> nat \<Rightarrow> HiderSampleCoords list \<Rightarrow> ('a, 'p) HiderBucket \<Rightarrow> WorkGridV \<Rightarrow> nat
     \<Rightarrow> HiderSampleData list list \<Rightarrow> HiderSampleData list list" where
  "add_micropoly mtxCamProj sw sh spp coords bk wg v lsts =
     (let xN = wg_mXDim wg - 1;
          mq = map (buckPos mtxCamProj sw sh bk wg) [v, v + 1, v + xN + 1, v + xN + 2];
          (minPos, maxPos) = fold updateMinMax mq
             (Vec3 FLT_MAX FLT_MAX FLT_MAX, Vec3 (- FLT_MAX) (- FLT_MAX) (- FLT_MAX))
      in addMPSamples spp coords minPos maxPos (GetWd bk) (GetHe bk) mq (wg_Oi wg ! v) (wg_Ci wg ! v) lsts)"

text \<open>The debugging mode: every vertex is one datum of the pixel it falls on.\<close>

definition add_vertex ::
  "Matrix44 \<Rightarrow> nat \<Rightarrow> nat \<Rightarrow> nat \<Rightarrow> ('a, 'p) HiderBucket \<Rightarrow> WorkGridV \<Rightarrow> nat
     \<Rightarrow> HiderSampleData list list \<Rightarrow> HiderSampleData list list" where
  "add_vertex mtxCamProj sw sh spp bk wg v lsts =
     (let q = buckPos mtxCamProj sw sh bk wg v; pixX = \<lfloor>x3 q\<rfloor>; pixY = \<lfloor>y3 q\<rfloor> in
      if pixX \<ge> 0 \<and> pixY \<ge> 0 \<and> pixX < int (GetWd bk) \<and> pixY < int (GetHe bk) then
        let k = (nat pixY * GetWd bk + nat pixX) * spp
        in lsts[k := lsts ! k @ [\<lparr>sd_mDepth = z3 q, sd_mCi = wg_Ci wg ! v, sd_mOi = wg_Oi wg ! v\<rparr>]]
      else lsts)"

text \<open>The first vertices of the micropolygons of a grid, in the order of the loops.\<close>

definition grid_verts :: "WorkGridV \<Rightarrow> nat list" where
  "grid_verts wg =
     (let xN = wg_mXDim wg - 1; yN = wg_mYDim wg - 1
      in concat (map (\<lambda>i. map (\<lambda>j. i * (xN + 1) + j) [0..<xN]) [0..<yN]))"

definition Bust ::
  "bool \<Rightarrow> Matrix44 \<Rightarrow> nat \<Rightarrow> nat \<Rightarrow> nat \<Rightarrow> HiderSampleCoords list \<Rightarrow> ('a, 'p) HiderBucket \<Rightarrow> WorkGridV
     \<Rightarrow> HiderSampleData list list \<Rightarrow> HiderSampleData list list" where
  "Bust rasterizeVerts mtxCamProj sw sh spp coords bk wg lsts =
     (if rasterizeVerts then fold (add_vertex mtxCamProj sw sh spp bk wg) (grid_verts wg) lsts
      else fold (add_micropoly mtxCamProj sw sh spp coords bk wg) (grid_verts wg) lsts)"

text \<open>The empty lists of \<open>initAllocPixels\<close>, and all grids of a bucket.\<close>

definition bucket_samples ::
  "bool \<Rightarrow> Matrix44 \<Rightarrow> nat \<Rightarrow> nat \<Rightarrow> nat \<Rightarrow> HiderSampleCoords list \<Rightarrow> ('a, 'p) HiderBucket \<Rightarrow> WorkGridV list
     \<Rightarrow> HiderSampleData list list" where
  "bucket_samples rv mtxCamProj sw sh spp coords bk grids =
     fold (Bust rv mtxCamProj sw sh spp coords bk) grids (replicate (GetWd bk * GetHe bk * spp) [])"

section \<open>The colour of a pixel\<close>

definition MAX_DATA_PER_SAMPLE :: nat where
  "MAX_DATA_PER_SAMPLE = 1024"

text \<open>The insertion sort by depth: each datum goes before the first one that is farther away.\<close>

fun sort_pos :: "real \<Rightarrow> HiderSampleData list \<Rightarrow> nat" where
  "sort_pos depthI [] = 0"
| "sort_pos depthI (d # ds) = (if depthI < sd_mDepth d then 0 else Suc (sort_pos depthI ds))"

fun sort_loop :: "HiderSampleData list \<Rightarrow> HiderSampleData list \<Rightarrow> HiderSampleData list" where
  "sort_loop [] acc = acc"
| "sort_loop (d # ds) acc =
     (let j = sort_pos (sd_mDepth d) acc in sort_loop ds (take j acc @ d # drop j acc))"

definition sortSampData :: "HiderSampleData list \<Rightarrow> HiderSampleData list" where
  "sortSampData dat = (if length dat = 1 then dat else sort_loop dat [])"

text \<open>Back to front: the colour behind is dimmed by the opacity, the opacities are added.\<close>

definition blend :: "HiderSampleData \<Rightarrow> real Vec3 \<times> real Vec3 \<Rightarrow> real Vec3 \<times> real Vec3" where
  "blend d = (\<lambda>(accCol, accOpa).
     (Vec3_opV (+) (Vec3_opV (*) accCol (Vec3_opV (-) (Vec3_splat 1) (sd_mOi d))) (sd_mCi d),
      Vec3_opV (+) accOpa (sd_mOi d)))"

definition filter_sample :: "HiderSampleData list \<Rightarrow> real Vec4" where
  "filter_sample dat =
     (let srt = sortSampData (take MAX_DATA_PER_SAMPLE dat);
          (accCol, accOpa) = foldr blend srt (Vec3_splat 0, Vec3_splat 0);
          accSingleOpa = (x3 accOpa + y3 accOpa + z3 accOpa) / 3
      in Vec4 (x3 accCol) (y3 accCol) (z3 accCol) (DClamp accSingleOpa 0 1))"

definition filterPixelBox :: "real Vec4 \<Rightarrow> HiderSampleData list list \<Rightarrow> real \<Rightarrow> real Vec4" where
  "filterPixelBox pixCol sampDataLists ooSampsPerPixel =
     Vec4_opS (*)
       (fold (\<lambda>l acc. if l = [] then acc else Vec4_opV (+) acc (filter_sample l)) sampDataLists pixCol)
       ooSampsPerPixel"

text \<open>
  The colour \<open>Hide\<close> stores for pixel \<open>pixIdx\<close>: \<open>spp\<close> lists belong to a pixel; in the debugging mode
  only the first of them is looked at.
\<close>

definition pixel_colour :: "bool \<Rightarrow> nat \<Rightarrow> HiderSampleData list list \<Rightarrow> nat \<Rightarrow> real list" where
  "pixel_colour rasterizeVerts spp lsts pixIdx =
     (let n = (if rasterizeVerts then 1 else spp);
          c = filterPixelBox (Vec4_splat 0) (take n (drop (pixIdx * spp) lsts)) (1 / of_nat n)
      in [x4 c, y4 c, z4 c, w4 c])"

definition Hide ::
  "bool \<Rightarrow> nat \<Rightarrow> HiderSampleData list list \<Rightarrow> (real, 'p) HiderBucket \<Rightarrow> unit res \<times> (real, 'p) HiderBucket" where
  "Hide rasterizeVerts spp lsts = hide_bucket (pixel_colour rasterizeVerts spp lsts)"

end
