(* ===== verification/HiderProps.thy ===== *)
theory HiderProps
  imports HiderFilter RasterProps "HOL-Library.Multiset"
begin

text \<open>
  Properties of the way from shaded grids to pixels: the samples of a pixel form a regular grid
  whatever the random numbers, the depth sort is a stable sort, a sample sees exactly the
  micropolygons that cover it, and the colour of a pixel is the mean of its samples, each
  composited from front to back.
\<close>

section \<open>Sample positions\<close>

lemma length_sub_pixels [simp]: "length (sub_pixels n) = n * n"
proof -
  have "sum_list (map (\<lambda>y. n) [0..<m]) = m * n" for m by (induction m) simp_all
  then show ?thesis by (simp add: sub_pixels_def length_concat comp_def)
qed

lemma concat_rows_nth:
  "a < m \<Longrightarrow> b < n \<Longrightarrow> concat (map (\<lambda>y. map (\<lambda>x. f x y) [0..<n]) [0..<m]) ! (a * n + b) = f b a"
proof (induction m)
  case 0
  then show ?case by simp
next
  case (Suc m)
  have len: "length (concat (map (\<lambda>y. map (\<lambda>x. f x y) [0..<n]) [0..<m])) = m * n"
    by (induction m) simp_all
  show ?case
  proof (cases "a = m")
    case True
    then show ?thesis using Suc.prems len by (simp add: nth_append)
  next
    case False
    then have "a < m" using Suc.prems by simp
    then have "Suc a * n \<le> m * n" by (intro mult_le_mono1) simp
    then have "a * n + b < m * n" using Suc.prems(2) by simp
    then show ?thesis using Suc.IH [OF \<open>a < m\<close> Suc.prems(2)] len by (simp add: nth_append)
  qed
qed

lemma sub_pixels_nth:
  assumes "k < n * n"
  shows "sub_pixels n ! k = (k mod n, k div n)"
proof -
  have "0 < n" using assms by (cases n) simp_all
  then have "k div n < n" "k mod n < n" using assms by (simp_all add: less_mult_imp_div_less)
  from concat_rows_nth [OF this, of Pair] show ?thesis by (simp add: sub_pixels_def)
qed

text \<open>As the code fills them, all sub-pixels of a column have the same \<open>mY\<close>.\<close>

definition columns_ok :: "nat \<Rightarrow> HiderSampleCoords list \<Rightarrow> bool" where
  "columns_ok n cs \<longleftrightarrow> length cs = n * n \<and> (\<forall>k<n * n. hs_mY (cs ! k) = of_nat (k mod n))"

lemma shuffle_step_same:
  assumes "columns_ok (2 ^ l) cs" and "x < 2 ^ l" and "y < 2 ^ l"
  shows "fst (shuffle_step l (x, y) (cs, g)) = cs"
proof -
  let ?n = "2 ^ l :: nat"
  define k where "k = unat (fst (randomMT g)) mod (?n - y)"
  have "k < ?n - y" unfolding k_def using assms(3) by (intro mod_less_divisor) simp
  then have k: "k < ?n" by (rule less_le_trans) simp
  have ix: "r * ?n + x < ?n * ?n" "(r * ?n + x) mod ?n = x" if "r < ?n" for r
  proof -
    have "Suc r * ?n \<le> ?n * ?n" using that by (intro mult_le_mono1) simp
    then show "r * ?n + x < ?n * ?n" using assms(2) by simp
    show "(r * ?n + x) mod ?n = x" using assms(2) by simp
  qed
  have v: "hs_mY (cs ! (y * ?n + x)) = of_nat x" "hs_mY (cs ! (k * ?n + x)) = of_nat x"
    using assms(1) ix [OF assms(3)] ix [OF k] by (simp_all add: columns_ok_def)
  then have u: "(cs ! (y * ?n + x))\<lparr>hs_mY := hs_mY (cs ! (k * ?n + x))\<rparr> = cs ! (y * ?n + x)"
    "(cs ! (k * ?n + x))\<lparr>hs_mY := of_int (c_int (hs_mY (cs ! (y * ?n + x))))\<rparr> = cs ! (k * ?n + x)"
    by (simp_all add: c_int_def)
  show ?thesis
    unfolding shuffle_step_def using u by (simp add: Let_def case_prod_beta k_def [symmetric])
qed

lemma shuffle_same:
  "columns_ok (2 ^ l) cs \<Longrightarrow> set ps \<subseteq> {0..<2 ^ l} \<times> {0..<2 ^ l} \<Longrightarrow>
     fst (fold (shuffle_step l) ps (cs, g)) = cs"
proof (induction ps arbitrary: g)
  case Nil
  then show ?case by simp
next
  case (Cons p ps)
  obtain x y where p: "p = (x, y)" by force
  have "fst (shuffle_step l p (cs, g)) = cs" unfolding p using Cons.prems by (intro shuffle_step_same) (auto simp: p)
  then have "shuffle_step l p (cs, g) = (cs, snd (shuffle_step l p (cs, g)))" by (metis prod.collapse)
  then have "fold (shuffle_step l) (p # ps) (cs, g) = fold (shuffle_step l) ps (cs, snd (shuffle_step l p (cs, g)))"
    by simp
  with Cons show ?case by simp
qed

lemma init_fill_columns: "columns_ok n (init_fill n)"
  by (simp add: columns_ok_def init_fill_def sub_pixels_nth)

text \<open>
  The shuffle of the samples has no effect: it exchanges \<open>mY\<close> within a column, where all are
  equal. Whatever numbers the generator gives, the samples of a pixel are the corners of a
  regular grid.
\<close>

theorem samples_not_shuffled:
  assumes "k < 2 ^ l * 2 ^ l"
  shows "hs_mX (fst (initPixel l g) ! k) = of_nat (k div 2 ^ l) / 2 ^ l
    \<and> hs_mY (fst (initPixel l g) ! k) = of_nat (k mod 2 ^ l) / 2 ^ l"
proof -
  have "set (sub_pixels (2 ^ l)) \<subseteq> {0..<2 ^ l} \<times> {0..<2 ^ l}" by (auto simp: sub_pixels_def)
  from shuffle_same [OF init_fill_columns this, of g]
  have "fst (initPixel l g) = map (\<lambda>c. c\<lparr>hs_mX := hs_mX c * (1 / of_nat (2 ^ l)), hs_mY := hs_mY c * (1 / of_nat (2 ^ l))\<rparr>)
      (init_fill (2 ^ l))"
    by (simp add: initPixel_def Let_def case_prod_beta)
  then show ?thesis using assms by (simp add: init_fill_def sub_pixels_nth)
qed

section \<open>The depth sort\<close>

lemma sort_pos_le: "sort_pos t ds \<le> length ds"
  by (induction ds) auto

lemma sort_pos_spec:
  "sorted (map sd_mDepth ds) \<Longrightarrow>
     (\<forall>d \<in> set (take (sort_pos t ds) ds). sd_mDepth d \<le> t) \<and> (\<forall>d \<in> set (drop (sort_pos t ds) ds). t < sd_mDepth d)"
  by (induction ds) (auto simp: not_less)

lemma sort_loop_props:
  "sorted (map sd_mDepth acc) \<Longrightarrow>
     mset (sort_loop ds acc) = mset acc + mset ds \<and> sorted (map sd_mDepth (sort_loop ds acc))
     \<and> (\<forall>t. filter (\<lambda>x. sd_mDepth x = t) (sort_loop ds acc)
            = filter (\<lambda>x. sd_mDepth x = t) acc @ filter (\<lambda>x. sd_mDepth x = t) ds)"
proof (induction ds arbitrary: acc)
  case Nil
  then show ?case by simp
next
  case (Cons d ds)
  define j where "j = sort_pos (sd_mDepth d) acc"
  let ?a = "take j acc" and ?b = "drop j acc"
  note sp = sort_pos_spec [OF Cons.prems, of "sd_mDepth d", folded j_def]
  have split: "acc = ?a @ ?b" by simp
  have srt: "sorted (map sd_mDepth ?a)" "sorted (map sd_mDepth ?b)" "\<forall>x \<in> set ?a. \<forall>y \<in> set ?b. sd_mDepth x \<le> sd_mDepth y"
    using Cons.prems unfolding sorted_append map_append by (subst (asm) split, simp add: sorted_append del: append_take_drop_id)+
  have s: "sorted (map sd_mDepth (?a @ d # ?b))"
    using srt sp by (auto simp: sorted_append intro: less_imp_le)
  have fs: "filter P acc = filter P ?a @ filter P ?b" for P by (metis append_take_drop_id filter_append)
  have f: "filter (\<lambda>x. sd_mDepth x = t) (?a @ d # ?b)
      = filter (\<lambda>x. sd_mDepth x = t) acc @ (if sd_mDepth d = t then [d] else [])" for t
  proof (cases "sd_mDepth d = t")
    case True
    then have "filter (\<lambda>x. sd_mDepth x = t) ?b = []" using sp by (auto simp: filter_empty_conv)
    then show ?thesis using True fs by simp
  next
    case False
    then show ?thesis using fs by simp
  qed
  have "mset acc = mset ?a + mset ?b" by (metis append_take_drop_id mset_append)
  then have m: "mset (?a @ d # ?b) = mset acc + {#d#}" by simp
  have e: "sort_loop (d # ds) acc = sort_loop ds (?a @ d # ?b)" by (simp add: Let_def j_def)
  show ?case unfolding e using Cons.IH [OF s, unfolded f m] by simp
qed

text \<open>The insertion sort of the filter is the stable sort by depth.\<close>

theorem sortSampData_stable: "sortSampData dat = sort_key sd_mDepth dat"
proof (cases "length dat = 1")
  case True
  then obtain d where "dat = [d]" by (auto simp: length_Suc_conv)
  then show ?thesis by (simp add: sortSampData_def)
next
  case False
  have "sort_key sd_mDepth dat = sort_loop dat []"
  proof (rule properties_for_sort_key)
    show "mset (sort_loop dat []) = mset dat" "sorted (map sd_mDepth (sort_loop dat []))"
      using sort_loop_props [of "[]" dat] by auto
    show "filter (\<lambda>x. sd_mDepth k = sd_mDepth x) (sort_loop dat []) = filter (\<lambda>x. sd_mDepth k = sd_mDepth x) dat" for k
      using sort_loop_props [of "[]" dat] by (auto simp: eq_commute [of "sd_mDepth k"])
  qed
  with False show ?thesis by (simp add: sortSampData_def)
qed

section \<open>Coverage\<close>

lemma add_to_pixel_nth:
  "distinct is' \<Longrightarrow> (\<forall>i \<in> set is'. base + i < length l) \<Longrightarrow> k < length l \<Longrightarrow>
     length (add_to_pixel coords mq dat x y base is' l) = length l
     \<and> add_to_pixel coords mq dat x y base is' l ! k =
       (if \<exists>i \<in> set is'. k = base + i \<and> inside_quad mq (of_int x + hs_mX (coords ! k)) (of_int y + hs_mY (coords ! k))
        then l ! k @ [dat] else l ! k)"
proof (induction is' arbitrary: l)
  case Nil
  then show ?case by simp
next
  case (Cons i is')
  define l' where "l' = (if inside_quad mq (of_int x + hs_mX (coords ! (base + i))) (of_int y + hs_mY (coords ! (base + i)))
        then l[base + i := l ! (base + i) @ [dat]] else l)"
  have len: "length l' = length l" by (simp add: l'_def)
  have ih: "length (add_to_pixel coords mq dat x y base is' l') = length l'
     \<and> add_to_pixel coords mq dat x y base is' l' ! k =
       (if \<exists>i \<in> set is'. k = base + i \<and> inside_quad mq (of_int x + hs_mX (coords ! k)) (of_int y + hs_mY (coords ! k))
        then l' ! k @ [dat] else l' ! k)"
    using Cons.prems len by (intro Cons.IH) auto
  have step: "add_to_pixel coords mq dat x y base (i # is') l = add_to_pixel coords mq dat x y base is' l'"
    by (simp add: l'_def)
  have nth: "l' ! k = (if k = base + i \<and> inside_quad mq (of_int x + hs_mX (coords ! k)) (of_int y + hs_mY (coords ! k))
      then l ! k @ [dat] else l ! k)"
    using Cons.prems(3) by (auto simp: l'_def)
  have "i \<notin> set is'" using Cons.prems(1) by simp
  then show ?case unfolding step using ih len nth by auto
qed

text \<open>The place of a sample in the array of lists.\<close>

definition samp_index :: "nat \<Rightarrow> nat \<Rightarrow> nat \<Rightarrow> nat \<Rightarrow> nat \<Rightarrow> nat" where
  "samp_index wd spp x y i = (y * wd + x) * spp + i"

lemma samp_index_less:
  assumes "x < wd" and "y < he" and "i < spp"
  shows "samp_index wd spp x y i < wd * he * spp"
proof -
  have "Suc y * wd \<le> he * wd" using assms(2) by (intro mult_le_mono1) simp
  then have "Suc (y * wd + x) \<le> wd * he" using assms(1) by (simp add: mult.commute)
  then have "Suc (y * wd + x) * spp \<le> wd * he * spp" by (rule mult_le_mono1)
  then show ?thesis using assms(3) by (simp add: samp_index_def)
qed

lemma digits_unique:
  fixes a b :: nat
  assumes "a * n + i = b * n + j" and "i < n" and "j < n"
  shows "a = b" and "i = j"
proof -
  have "(a * n + i) div n = (b * n + j) div n" "(a * n + i) mod n = (b * n + j) mod n" using assms(1) by simp_all
  then show "a = b" "i = j" using assms(2,3) by simp_all
qed

lemma samp_index_inj:
  assumes "samp_index wd spp x y i = samp_index wd spp x' y' i'" and "x < wd" and "x' < wd" and "i < spp" and "i' < spp"
  shows "x = x'" and "y = y'" and "i = i'"
proof -
  note d = digits_unique [OF assms(1) [unfolded samp_index_def] assms(4,5)]
  show "i = i'" by (rule d(2))
  show "x = x'" "y = y'" using digits_unique [OF d(1) assms(2,3)] by simp_all
qed

lemma fold_pixels_nth:
  assumes "\<forall>(u, w) \<in> set ps. 0 \<le> u \<and> u < int wd \<and> 0 \<le> w \<and> w < int he" and "distinct ps"
    and "length l = wd * he * spp" and "x < wd" and "y < he" and "i < spp"
  shows "let r = fold (\<lambda>(u, w). add_to_pixel coords mq dat u w (nat (w * int wd + u) * spp) [0..<spp]) ps l;
             k = samp_index wd spp x y i in
    length r = length l
    \<and> r ! k = l ! k @ (if (int x, int y) \<in> set ps \<and>
         inside_quad mq (of_nat x + hs_mX (coords ! k)) (of_nat y + hs_mY (coords ! k)) then [dat] else [])"
  using assms
proof (induction ps arbitrary: l)
  case Nil
  then show ?case by simp
next
  case (Cons p ps)
  obtain u w where p: "p = (int u, int w)" "u < wd" "w < he"
    using Cons.prems(1) by (cases p) (auto, metis nonneg_int_cases of_nat_less_iff)
  let ?k = "samp_index wd spp x y i" and ?base = "(w * wd + u) * spp"
  have b: "nat (int w * int wd + int u) = w * wd + u" by (metis nat_int of_nat_add of_nat_mult)
  define l' where "l' = add_to_pixel coords mq dat (int u) (int w) ?base [0..<spp] l"
  have in_range: "\<forall>j \<in> set [0..<spp]. ?base + j < length l"
    using samp_index_less [OF p(2,3)] Cons.prems(3) by (auto simp: samp_index_def)
  have k: "?k < length l" using samp_index_less [OF Cons.prems(4-6)] Cons.prems(3) by simp
  have hit: "(\<exists>j \<in> set [0..<spp]. ?k = ?base + j) \<longleftrightarrow> p = (int x, int y)"
    using samp_index_inj [of wd spp x y i u w] p(1,2) Cons.prems(4,6) by (auto simp: samp_index_def)
  from add_to_pixel_nth [OF _ in_range k, of coords mq dat "int u" "int w"]
  have l': "length l' = length l" "l' ! ?k = l ! ?k @ (if p = (int x, int y) \<and>
      inside_quad mq (of_nat x + hs_mX (coords ! ?k)) (of_nat y + hs_mY (coords ! ?k)) then [dat] else [])"
    unfolding l'_def using hit by (auto simp: p(1))
  have "fold (\<lambda>(u, w). add_to_pixel coords mq dat u w (nat (w * int wd + u) * spp) [0..<spp]) (p # ps) l
      = fold (\<lambda>(u, w). add_to_pixel coords mq dat u w (nat (w * int wd + u) * spp) [0..<spp]) ps l'"
    by (simp add: p(1) b l'_def)
  moreover have "p \<notin> set ps" using Cons.prems(2) by simp
  ultimately show ?case
    using Cons.IH [of l'] Cons.prems l' by (auto simp: Let_def)
qed

text \<open>
  A micropolygon covers a sample of a pixel: the pixel is in the rounded bounds of the
  quadrilateral, and the sample is on the same side of its four edges.
\<close>

definition covers ::
  "HiderSampleCoords list \<Rightarrow> nat \<Rightarrow> nat \<Rightarrow> real Vec3 list \<Rightarrow> real Vec3 \<times> real Vec3 \<Rightarrow> nat \<Rightarrow> nat \<Rightarrow> nat \<Rightarrow> bool" where
  "covers coords wd spp mq = (\<lambda>(minPos, maxPos) x y i.
     \<lfloor>x3 minPos\<rfloor> \<le> int x \<and> int x \<le> \<lceil>x3 maxPos\<rceil> \<and> \<lfloor>y3 minPos\<rfloor> \<le> int y \<and> int y \<le> \<lceil>y3 maxPos\<rceil>
     \<and> inside_quad mq (of_nat x + hs_mX (coords ! samp_index wd spp x y i))
         (of_nat y + hs_mY (coords ! samp_index wd spp x y i)))"

text \<open>The pixels of a clipped rectangle, in the order of the loops.\<close>

definition clipped :: "int \<Rightarrow> int \<Rightarrow> int \<Rightarrow> int \<Rightarrow> int \<Rightarrow> int \<Rightarrow> (int \<times> int) list" where
  "clipped W H xa xb ya yb = concat (map (\<lambda>w. map (\<lambda>u. (u, w)) [(if xa < 0 then 0 else xa)..(if xb \<ge> W then W - 1 else xb)])
     [(if ya < 0 then 0 else ya)..(if yb \<ge> H then H - 1 else yb)])"

lemma clipped_range:
  "u \<in> set [(if xa < 0 then 0 else xa)..(if xb \<ge> W then W - 1 else xb)] \<longleftrightarrow> 0 \<le> u \<and> u < W \<and> xa \<le> u \<and> u \<le> (xb :: int)"
  by (cases "xa < 0"; cases "xb \<ge> W") auto

lemma mem_rows: "(u, w) \<in> set (concat (map (\<lambda>w. map (\<lambda>u. (u, w)) us) ws)) \<longleftrightarrow> w \<in> set ws \<and> u \<in> set us"
  by auto

lemma clipped_mem:
  "(u, w) \<in> set (clipped W H xa xb ya yb)
     \<longleftrightarrow> 0 \<le> u \<and> u < W \<and> 0 \<le> w \<and> w < H \<and> xa \<le> u \<and> u \<le> xb \<and> ya \<le> w \<and> w \<le> yb"
  unfolding clipped_def mem_rows clipped_range by blast

lemma distinct_rows: "distinct us \<Longrightarrow> distinct ws \<Longrightarrow> distinct (concat (map (\<lambda>w. map (\<lambda>u. (u, w)) us) ws))"
  by (induction ws) (auto simp: distinct_map inj_on_def)

lemma clipped_distinct: "distinct (clipped W H xa xb ya yb)"
  unfolding clipped_def by (intro distinct_rows distinct_upto)

lemma addMPSamples_nth:
  assumes "length l = wd * he * spp" and "x < wd" and "y < he" and "i < spp"
  shows "length (addMPSamples spp coords mn mx wd he mq oi ci l) = length l"
    and "addMPSamples spp coords mn mx wd he mq oi ci l ! samp_index wd spp x y i = l ! samp_index wd spp x y i
      @ (if covers coords wd spp mq (mn, mx) x y i then [\<lparr>sd_mDepth = z3 (mq ! 0), sd_mCi = ci, sd_mOi = oi\<rparr>] else [])"
proof -
  let ?k = "samp_index wd spp x y i" and ?r = "addMPSamples spp coords mn mx wd he mq oi ci l"
  let ?dat = "\<lparr>sd_mDepth = z3 (mq ! 0), sd_mCi = ci, sd_mOi = oi\<rparr>"
  let ?x1 = "\<lfloor>x3 mn\<rfloor>" and ?x2 = "\<lceil>x3 mx\<rceil>" and ?y1 = "\<lfloor>y3 mn\<rfloor>" and ?y2 = "\<lceil>y3 mx\<rceil>"
  have "length ?r = length l \<and> ?r ! ?k = l ! ?k @ (if covers coords wd spp mq (mn, mx) x y i then [?dat] else [])"
  proof (cases "?x2 < 0 \<or> ?y2 < 0 \<or> ?x1 \<ge> int wd \<or> ?y1 \<ge> int he")
    case True
    then have "\<not> covers coords wd spp mq (mn, mx) x y i" using assms(2,3) unfolding covers_def prod.case by linarith
    moreover have "?r = l" using True by (simp add: addMPSamples_def Let_def)
    ultimately show ?thesis by simp
  next
    case False
    let ?ps = "clipped (int wd) (int he) ?x1 ?x2 ?y1 ?y2"
    have r: "?r = fold (\<lambda>(u, w). add_to_pixel coords mq ?dat u w (nat (w * int wd + u) * spp) [0..<spp]) ?ps l"
      unfolding addMPSamples_def clipped_def Let_def using False by (simp only: if_False)
    have sub: "\<forall>(u, w) \<in> set ?ps. 0 \<le> u \<and> u < int wd \<and> 0 \<le> w \<and> w < int he"
      using clipped_mem by blast
    note dist = clipped_distinct [of "int wd" "int he" ?x1 ?x2 ?y1 ?y2]
    have mem: "(int x, int y) \<in> set ?ps \<longleftrightarrow> ?x1 \<le> int x \<and> int x \<le> ?x2 \<and> ?y1 \<le> int y \<and> int y \<le> ?y2"
      unfolding clipped_mem using assms(2,3) by auto
    from fold_pixels_nth [OF sub dist assms(1-4), of coords mq ?dat] show ?thesis
      unfolding r Let_def mem covers_def by simp
  qed
  then show "length ?r = length l" "?r ! ?k = l ! ?k @ (if covers coords wd spp mq (mn, mx) x y i then [?dat] else [])"
    by simp_all
qed

text \<open>Steps that only append to the lists, one after the other.\<close>

lemma fold_appends:
  assumes "\<And>v l. length l = n \<Longrightarrow> length (f v l) = n \<and> f v l ! k = l ! k @ h v" and "length l = n"
  shows "length (fold f vs l) = n \<and> fold f vs l ! k = l ! k @ concat (map h vs)"
  using assms(2)
proof (induction vs arbitrary: l)
  case Nil
  then show ?case by simp
next
  case (Cons v vs)
  from assms(1) [OF Cons.prems, of v] Cons.IH [of "f v l"] show ?case by simp
qed

text \<open>What one micropolygon of a grid adds to a sample.\<close>

definition micropoly_data ::
  "Matrix44 \<Rightarrow> nat \<Rightarrow> nat \<Rightarrow> nat \<Rightarrow> HiderSampleCoords list \<Rightarrow> ('a, 'p) HiderBucket \<Rightarrow> nat \<Rightarrow> nat \<Rightarrow> nat
     \<Rightarrow> WorkGridV \<Rightarrow> nat \<Rightarrow> HiderSampleData list" where
  "micropoly_data m sw sh spp coords bk x y i wg v =
     (let mq = map (buckPos m sw sh bk wg) [v, v + 1, v + (wg_mXDim wg - 1) + 1, v + (wg_mXDim wg - 1) + 2];
          bb = fold updateMinMax mq (Vec3 FLT_MAX FLT_MAX FLT_MAX, Vec3 (- FLT_MAX) (- FLT_MAX) (- FLT_MAX))
      in if covers coords (GetWd bk) spp mq bb x y i
         then [\<lparr>sd_mDepth = z3 (wg_mpPointsCS wg ! v), sd_mCi = wg_Ci wg ! v, sd_mOi = wg_Oi wg ! v\<rparr>] else [])"

lemma add_micropoly_nth:
  assumes "length l = GetWd bk * GetHe bk * spp" and "x < GetWd bk" and "y < GetHe bk" and "i < spp"
  shows "length (add_micropoly m sw sh spp coords bk wg v l) = GetWd bk * GetHe bk * spp
    \<and> add_micropoly m sw sh spp coords bk wg v l ! samp_index (GetWd bk) spp x y i
      = l ! samp_index (GetWd bk) spp x y i @ micropoly_data m sw sh spp coords bk x y i wg v"
proof -
  let ?mq = "map (buckPos m sw sh bk wg) [v, v + 1, v + (wg_mXDim wg - 1) + 1, v + (wg_mXDim wg - 1) + 2]"
  obtain mn mx where bb: "fold updateMinMax ?mq
      (Vec3 FLT_MAX FLT_MAX FLT_MAX, Vec3 (- FLT_MAX) (- FLT_MAX) (- FLT_MAX)) = (mn, mx)" by force
  have z: "z3 (?mq ! 0) = z3 (wg_mpPointsCS wg ! v)" by (simp add: buckPos_def Let_def)
  have "add_micropoly m sw sh spp coords bk wg v l
      = addMPSamples spp coords mn mx (GetWd bk) (GetHe bk) ?mq (wg_Oi wg ! v) (wg_Ci wg ! v) l"
    unfolding add_micropoly_def Let_def bb by simp
  moreover have "micropoly_data m sw sh spp coords bk x y i wg v = (if covers coords (GetWd bk) spp ?mq (mn, mx) x y i
      then [\<lparr>sd_mDepth = z3 (?mq ! 0), sd_mCi = wg_Ci wg ! v, sd_mOi = wg_Oi wg ! v\<rparr>] else [])"
    unfolding micropoly_data_def Let_def bb z ..
  ultimately show ?thesis using addMPSamples_nth [OF assms, of coords mn mx ?mq] assms(1) by simp
qed

lemma bucket_samples_nth:
  assumes "x < GetWd bk" and "y < GetHe bk" and "i < spp"
  shows "length (bucket_samples False m sw sh spp coords bk grids) = GetWd bk * GetHe bk * spp"
    and "bucket_samples False m sw sh spp coords bk grids ! samp_index (GetWd bk) spp x y i
      = concat (map (\<lambda>wg. concat (map (micropoly_data m sw sh spp coords bk x y i wg) (grid_verts wg))) grids)"
proof -
  let ?n = "GetWd bk * GetHe bk * spp" and ?k = "samp_index (GetWd bk) spp x y i"
  have k: "?k < ?n" by (rule samp_index_less [OF assms])
  have grid: "length (Bust False m sw sh spp coords bk wg l) = ?n \<and> Bust False m sw sh spp coords bk wg l ! ?k
      = l ! ?k @ concat (map (micropoly_data m sw sh spp coords bk x y i wg) (grid_verts wg))"
    if "length l = ?n" for wg l
    unfolding Bust_def if_False by (rule fold_appends [OF add_micropoly_nth [OF _ assms] that])
  have "length (bucket_samples False m sw sh spp coords bk grids) = ?n
      \<and> bucket_samples False m sw sh spp coords bk grids ! ?k = replicate ?n [] ! ?k
        @ concat (map (\<lambda>wg. concat (map (micropoly_data m sw sh spp coords bk x y i wg) (grid_verts wg))) grids)"
    unfolding bucket_samples_def by (rule fold_appends [OF grid]) simp_all
  then show "length (bucket_samples False m sw sh spp coords bk grids) = ?n"
    "bucket_samples False m sw sh spp coords bk grids ! ?k
      = concat (map (\<lambda>wg. concat (map (micropoly_data m sw sh spp coords bk x y i wg) (grid_verts wg))) grids)"
    using k by simp_all
qed

section \<open>The colour of a pixel\<close>

text \<open>
  One component of the colour of data in the order of their depth: each datum is seen through the
  ones before it.
\<close>

definition over :: "(real Vec3 \<Rightarrow> real) \<Rightarrow> HiderSampleData list \<Rightarrow> real" where
  "over c ds = (\<Sum>j<length ds. c (sd_mCi (ds ! j)) * (\<Prod>k<j. 1 - c (sd_mOi (ds ! k))))"

definition opacity :: "HiderSampleData list \<Rightarrow> real" where
  "opacity ds = DClamp (sum_list (map (\<lambda>d. (x3 (sd_mOi d) + y3 (sd_mOi d) + z3 (sd_mOi d)) / 3) ds)) 0 1"

definition composite :: "nat \<Rightarrow> (nat \<Rightarrow> HiderSampleData list) \<Rightarrow> real list" where
  "composite spp dat =
     map (\<lambda>f. (\<Sum>i < spp. f (sort_key sd_mDepth (dat i))) / of_nat spp) [over x3, over y3, over z3, opacity]"

lemma over_Cons: "over c (d # ds) = over c ds * (1 - c (sd_mOi d)) + c (sd_mCi d)"
proof -
  have "over c (d # ds) = (\<Sum>j<Suc (length ds). c (sd_mCi ((d # ds) ! j)) * (\<Prod>k<j. 1 - c (sd_mOi ((d # ds) ! k))))"
    by (simp add: over_def)
  also have "\<dots> = c (sd_mCi d) + (\<Sum>j<length ds. c (sd_mCi (ds ! j)) * ((1 - c (sd_mOi d)) * (\<Prod>k<j. 1 - c (sd_mOi (ds ! k)))))"
    by (subst sum.lessThan_Suc_shift) (simp add: prod.lessThan_Suc_shift del: prod.lessThan_Suc)
  also have "\<dots> = c (sd_mCi d) + (1 - c (sd_mOi d)) * over c ds"
    by (simp add: over_def sum_distrib_left algebra_simps)
  finally show ?thesis by simp
qed

lemma blend_parts:
  "fst (blend d p) = Vec3 (x3 (fst p) * (1 - x3 (sd_mOi d)) + x3 (sd_mCi d)) (y3 (fst p) * (1 - y3 (sd_mOi d)) + y3 (sd_mCi d))
     (z3 (fst p) * (1 - z3 (sd_mOi d)) + z3 (sd_mCi d))"
  "snd (blend d p) = Vec3 (x3 (snd p) + x3 (sd_mOi d)) (y3 (snd p) + y3 (sd_mOi d)) (z3 (snd p) + z3 (sd_mOi d))"
  by (cases p, simp add: blend_def Vec3_opV_def Vec3_splat_def)+

lemma foldr_blend:
  "x3 (fst (foldr blend ds (Vec3_splat 0, Vec3_splat 0))) = over x3 ds
   \<and> y3 (fst (foldr blend ds (Vec3_splat 0, Vec3_splat 0))) = over y3 ds
   \<and> z3 (fst (foldr blend ds (Vec3_splat 0, Vec3_splat 0))) = over z3 ds
   \<and> x3 (snd (foldr blend ds (Vec3_splat 0, Vec3_splat 0))) = sum_list (map (x3 \<circ> sd_mOi) ds)
   \<and> y3 (snd (foldr blend ds (Vec3_splat 0, Vec3_splat 0))) = sum_list (map (y3 \<circ> sd_mOi) ds)
   \<and> z3 (snd (foldr blend ds (Vec3_splat 0, Vec3_splat 0))) = sum_list (map (z3 \<circ> sd_mOi) ds)"
proof (induction ds)
  case Nil
  then show ?case by (simp add: over_def Vec3_splat_def)
next
  case (Cons d ds)
  then show ?case by (simp add: blend_parts over_Cons)
qed

lemma sum_thirds:
  "(sum_list (map (x3 \<circ> sd_mOi) ds) + sum_list (map (y3 \<circ> sd_mOi) ds) + sum_list (map (z3 \<circ> sd_mOi) ds)) / 3
     = sum_list (map (\<lambda>d. (x3 (sd_mOi d) + y3 (sd_mOi d) + z3 (sd_mOi d)) / 3) ds)"
  by (induction ds) (simp_all add: add_divide_distrib)

lemma filter_sample_over:
  assumes "length dat \<le> MAX_DATA_PER_SAMPLE"
  shows "filter_sample dat = (let ds = sort_key sd_mDepth dat in Vec4 (over x3 ds) (over y3 ds) (over z3 ds) (opacity ds))"
  using assms foldr_blend [of "sort_key sd_mDepth dat"] sum_thirds [of "sort_key sd_mDepth dat"]
  by (simp add: filter_sample_def sortSampData_stable Let_def case_prod_beta opacity_def)

lemma filter_fold:
  assumes "\<forall>l \<in> set ls. length l \<le> MAX_DATA_PER_SAMPLE"
  shows "fold (\<lambda>l acc. if l = [] then acc else Vec4_opV (+) acc (filter_sample l)) ls acc =
    Vec4 (x4 acc + sum_list (map (over x3 \<circ> sort_key sd_mDepth) ls)) (y4 acc + sum_list (map (over y3 \<circ> sort_key sd_mDepth) ls))
      (z4 acc + sum_list (map (over z3 \<circ> sort_key sd_mDepth) ls)) (w4 acc + sum_list (map (opacity \<circ> sort_key sd_mDepth) ls))"
  using assms
proof (induction ls arbitrary: acc)
  case Nil
  then show ?case by simp
next
  case (Cons l ls)
  have "(if l = [] then acc else Vec4_opV (+) acc (filter_sample l)) =
    Vec4 (x4 acc + over x3 (sort_key sd_mDepth l)) (y4 acc + over y3 (sort_key sd_mDepth l))
      (z4 acc + over z3 (sort_key sd_mDepth l)) (w4 acc + opacity (sort_key sd_mDepth l))"
    using Cons.prems by (auto simp: filter_sample_over Let_def Vec4_opV_def over_def opacity_def DClamp_def)
  then show ?case using Cons by (simp add: add.assoc)
qed

text \<open>The data of sample \<open>i\<close> of a pixel: the micropolygons of all grids that cover it.\<close>

definition sample_data ::
  "Matrix44 \<Rightarrow> nat \<Rightarrow> nat \<Rightarrow> nat \<Rightarrow> HiderSampleCoords list \<Rightarrow> ('a, 'p) HiderBucket \<Rightarrow> WorkGridV list \<Rightarrow> nat \<Rightarrow> nat
     \<Rightarrow> nat \<Rightarrow> HiderSampleData list" where
  "sample_data m sw sh spp coords bk grids x y i =
     concat (map (\<lambda>wg. concat (map (micropoly_data m sw sh spp coords bk x y i wg) (grid_verts wg))) grids)"

lemma pixel_lists:
  assumes "x < GetWd bk" and "y < GetHe bk"
  shows "take spp (drop ((y * GetWd bk + x) * spp) (bucket_samples False m sw sh spp coords bk grids))
    = map (sample_data m sw sh spp coords bk grids x y) [0..<spp]"
proof (rule nth_equalityI)
  let ?b = "bucket_samples False m sw sh spp coords bk grids" and ?ofs = "(y * GetWd bk + x) * spp"
  have fit: "?ofs + spp \<le> length ?b"
  proof (cases "spp = 0")
    case True
    then show ?thesis by simp
  next
    case False
    then have "length ?b = GetWd bk * GetHe bk * spp" using bucket_samples_nth(1) [OF assms, of 0 spp] by simp
    moreover have "?ofs + (spp - 1) < GetWd bk * GetHe bk * spp"
      using samp_index_less [OF assms, of "spp - 1" spp] False by (simp add: samp_index_def)
    ultimately show ?thesis by linarith
  qed
  then show "length (take spp (drop ?ofs ?b)) = length (map (sample_data m sw sh spp coords bk grids x y) [0..<spp])" by simp
  fix i
  assume "i < length (take spp (drop ?ofs ?b))"
  then have i: "i < spp" by simp
  then have "take spp (drop ?ofs ?b) ! i = ?b ! samp_index (GetWd bk) spp x y i"
    using fit by (simp add: samp_index_def)
  then show "take spp (drop ?ofs ?b) ! i = map (sample_data m sw sh spp coords bk grids x y) [0..<spp] ! i"
    using bucket_samples_nth(2) [OF assms i] i by (simp add: sample_data_def)
qed

lemma sum_upt: "sum_list (map f [0..<n]) = (\<Sum>i<n. f i)" for f :: "nat \<Rightarrow> real"
  by (simp add: interv_sum_list_conv_sum_set_nat atLeast0LessThan)

lemma pixel_composited:
  assumes "x < GetWd bk" and "y < GetHe bk"
    and "\<forall>i < spp. length (sample_data m sw sh spp coords bk grids x y i) \<le> MAX_DATA_PER_SAMPLE"
  shows "pixel_colour False spp (bucket_samples False m sw sh spp coords bk grids) (y * GetWd bk + x)
    = composite spp (sample_data m sw sh spp coords bk grids x y)"
proof -
  let ?d = "sample_data m sw sh spp coords bk grids x y"
  have "\<forall>l \<in> set (map ?d [0..<spp]). length l \<le> MAX_DATA_PER_SAMPLE" using assms(3) by auto
  from filter_fold [OF this, of "Vec4_splat 0"] show ?thesis
    unfolding pixel_colour_def Let_def if_False pixel_lists [OF assms(1,2)] filterPixelBox_def
    by (simp add: Vec4_splat_def Vec4_opS_def composite_def comp_def sum_upt)
qed

section \<open>The rendered image\<close>

text \<open>The colours a task stores in its bucket: the samples of its own grids, filtered.\<close>

definition bucket_colours ::
  "Matrix44 \<Rightarrow> nat \<Rightarrow> nat \<Rightarrow> (nat \<Rightarrow> nat) \<Rightarrow> (nat \<Rightarrow> HiderSampleCoords list) \<Rightarrow> (nat \<Rightarrow> WorkGridV list) \<Rightarrow> (real, 'p) Hider
     \<Rightarrow> nat \<Rightarrow> nat \<Rightarrow> real list" where
  "bucket_colours m sw sh spp coords grids hr i =
     pixel_colour False (spp i) (bucket_samples False m sw sh (spp i) (coords i) (mpBuckets hr ! i) (grids i))"

text \<open>The data of one sample of the pixel \<open>(x, y)\<close> of the image, which lies in bucket \<open>i\<close>.\<close>

definition image_data ::
  "Matrix44 \<Rightarrow> nat \<Rightarrow> nat \<Rightarrow> (nat \<Rightarrow> nat) \<Rightarrow> (nat \<Rightarrow> HiderSampleCoords list) \<Rightarrow> (nat \<Rightarrow> WorkGridV list) \<Rightarrow> (real, 'p) Hider
     \<Rightarrow> nat \<Rightarrow> nat \<Rightarrow> nat \<Rightarrow> nat \<Rightarrow> HiderSampleData list" where
  "image_data m sw sh spp coords grids hr i x y =
     (let bk = mpBuckets hr ! i
      in sample_data m sw sh (spp i) (coords i) bk (grids i) (x - nat (hb_mX1 bk)) (y - nat (hb_mY1 bk)))"

lemma bucket_colours_composite:
  assumes "Contains (int x) (int y) (mpBuckets hr ! i)" and "bucket_in W H (mpBuckets hr ! i)" and "W < 2 ^ 31" and "H < 2 ^ 31"
    and "\<forall>k < spp i. length (image_data m sw sh spp coords grids hr i x y k) \<le> MAX_DATA_PER_SAMPLE"
  shows "bucket_colours m sw sh spp coords grids hr i (pixel_index (mpBuckets hr ! i) x y)
    = composite (spp i) (image_data m sw sh spp coords grids hr i x y)"
proof -
  let ?bk = "mpBuckets hr ! i"
  have xy: "x - nat (hb_mX1 ?bk) < GetWd ?bk" "y - nat (hb_mY1 ?bk) < GetHe ?bk"
    using assms(1) unfolding Contains_nat [OF assms(2-4)] by auto
  have "pixel_index ?bk x y = (y - nat (hb_mY1 ?bk)) * GetWd ?bk + (x - nat (hb_mX1 ?bk))"
    by (simp add: pixel_index_def)
  with pixel_composited [OF xy assms(5) [unfolded image_data_def Let_def]] show ?thesis
    unfolding bucket_colours_def image_data_def Let_def by simp
qed


lemma length_pixel_colour [simp]: "length (pixel_colour rv spp lsts k) = 4"
  by (simp add: pixel_colour_def Let_def)

text \<open>
  Every pixel of \<open>hr2\<close> none of whose samples has too many data holds the composite of its data.
\<close>

definition image_composited ::
  "Options \<Rightarrow> Matrix44 \<Rightarrow> nat \<Rightarrow> nat \<Rightarrow> (nat \<Rightarrow> nat) \<Rightarrow> (nat \<Rightarrow> HiderSampleCoords list) \<Rightarrow> (nat \<Rightarrow> WorkGridV list)
     \<Rightarrow> (real, 'p) Hider \<Rightarrow> (real, 'p) Hider \<Rightarrow> bool" where
  "image_composited opt p sw sh spp coords grids hr1 hr2 \<longleftrightarrow>
     (\<forall>x y. int x < mXRes opt \<longrightarrow> int y < mYRes opt \<longrightarrow>
       (\<exists>i < length (mpBuckets hr1). Contains (int x) (int y) (mpBuckets hr1 ! i)
          \<and> ((\<forall>k < spp i. length (image_data p sw sh spp coords grids hr1 i x y k) \<le> MAX_DATA_PER_SAMPLE) \<longrightarrow>
             (\<forall>c < NOUTCOLS. final_sample hr2 x y c
                = composite (spp i) (image_data p sw sh spp coords grids hr1 i x y) ! c))))"

lemma in_place_composited:
  assumes "pixels_in_place opt (bucket_colours p sw sh spp coords grids hr1) hr1 hr2"
    and "\<And>i. i < length (mpBuckets hr1) \<Longrightarrow> bucket_in W H (mpBuckets hr1 ! i)" and "W < 2 ^ 31" and "H < 2 ^ 31"
  shows "image_composited opt p sw sh spp coords grids hr1 hr2"
  unfolding image_composited_def
proof (intro allI impI)
  fix x y
  assume xy: "int x < mXRes opt" "int y < mYRes opt"
  with assms(1) obtain i where i: "i < length (mpBuckets hr1)" and c: "Contains (int x) (int y) (mpBuckets hr1 ! i)"
    and f: "\<forall>c<NOUTCOLS. final_sample hr2 x y c
      = bucket_colours p sw sh spp coords grids hr1 i (pixel_index (mpBuckets hr1 ! i) x y) ! c"
    unfolding pixels_in_place_def by blast
  note v = bucket_colours_composite [OF c assms(2) [OF i] assms(3,4)]
  show "\<exists>i < length (mpBuckets hr1). Contains (int x) (int y) (mpBuckets hr1 ! i)
          \<and> ((\<forall>k < spp i. length (image_data p sw sh spp coords grids hr1 i x y k) \<le> MAX_DATA_PER_SAMPLE) \<longrightarrow>
             (\<forall>c < NOUTCOLS. final_sample hr2 x y c
                = composite (spp i) (image_data p sw sh spp coords grids hr1 i x y) ! c))"
    by (intro exI [of _ i] conjI impI) (use i c f v in simp_all)
qed

text \<open>
  Every pixel of the rendered image is what its samples see. After \<open>WorldBegin\<close> has laid out
  the buckets, the tasks that bust the micropolygons of their grids and filter the samples can
  finish in any order: none throws, and the pixel \<open>(x, y)\<close> ends up with the average over its samples
  of the data that cover the sample, taken in the order of depth (ties in the order of the grids),
  each seen through the opacities in front of it - as long as no sample has more than
  \<open>MAX_DATA_PER_SAMPLE\<close> data.
\<close>

theorem rendered_image:
  assumes "world_ok opt" and "idle_hider hr"
  shows "\<exists>hr1. Hider_WorldBegin mem opt m hr = (Inr (), hr1)
    \<and> (\<forall>ts. set ts = {0..<length (mpBuckets hr1)} \<longrightarrow>
        (\<exists>hr2. RenderBuckets mem' (bucket_colours p sw sh spp coords grids hr1) ts hr1 = (Inr (), hr2)
          \<and> image_composited opt p sw sh spp coords grids hr1 hr2))"
proof -
  obtain hr1 where w: "Hider_WorldBegin mem opt m hr = (Inr (), hr1)"
    and lay: "map rect (mpBuckets hr1) = map (cell opt) (bucket_grid opt)"
    and b: "buffer_ok NOUTCOLS (mFinalBuff hr1)" "b2_mWd (mFinalBuff hr1) = nat (mXRes opt)"
      "b2_mHe (mFinalBuff hr1) = nat (mYRes opt)"
    by (rule WorldBegin_layout [OF assms, of mem m])
  note img = layout_image_ok [OF lay b]
  let ?col = "bucket_colours p sw sh spp coords grids hr1"
  have col: "length (?col i k) = NOUTCOLS" for i k by (simp add: bucket_colours_def)
  have dims: "nat (mXRes opt) < 2 ^ 31" "nat (mYRes opt) < 2 ^ 31" using assms(1) by (auto simp: world_ok_def)
  have "\<exists>hr2. RenderBuckets mem' ?col ts hr1 = (Inr (), hr2) \<and> pixels_in_place opt ?col hr1 hr2"
    if "set ts = {0..<length (mpBuckets hr1)}" for ts
    by (rule world_rendered [where col = ?col and mem' = mem', OF lay img b(2,3) col that])
  with in_place_composited [OF _ image_ok_bucket [OF img, unfolded b(2,3)] dims, of opt p sw sh spp coords grids]
  have "\<forall>ts. set ts = {0..<length (mpBuckets hr1)} \<longrightarrow> (\<exists>hr2. RenderBuckets mem' ?col ts hr1 = (Inr (), hr2)
      \<and> image_composited opt p sw sh spp coords grids hr1 hr2)" by blast
  with w show ?thesis by (intro exI [of _ hr1]) simp
qed

text \<open>One micropolygon over the whole screen.\<close>

definition ex_grid :: WorkGridV where
  "ex_grid = \<lparr>wg_mXDim = 2, wg_mYDim = 2, wg_mpPointsCS = [Vec3 (-1) 1 5, Vec3 1 1 5, Vec3 (-1) (-1) 5, Vec3 1 (-1) 5],
     wg_Ci = [Vec3 1 2 3, Vec3 0 0 0, Vec3 0 0 0, Vec3 0 0 0], wg_Oi = [Vec3 1 1 1, Vec3 0 0 0, Vec3 0 0 0, Vec3 0 0 0]\<rparr>"

definition ex_real_hider :: "(real, nat) Hider" where
  "ex_real_hider = \<lparr>hd_mOptions = fst (Options_Init 0), hd_mMtxWorldCamera = Identity, hd_mMtxWorldProj = Identity,
     mFinalBuff = Buffer2D_new, mpBuckets = [], mSampCoordBuffs = replicate 4 no_samples,
     mParams = \<lparr>mDbgOnlyBucketAtX = -1, mDbgOnlyBucketAtY = -1, mDbgShowBuckets = False, mDbgColorCodedGrids = False, mDbgRasterizeVerts = False\<rparr>, hd_mpPrims = []\<rparr>"

lemma ex_data: "length (image_data p sw sh spp coords (\<lambda>_. [ex_grid]) hr i x y k) \<le> 1"
  by (simp add: image_data_def sample_data_def grid_verts_def ex_grid_def micropoly_data_def Let_def)

definition ex_coords :: "HiderSampleCoords list" where
  "ex_coords = replicate 4096 \<lparr>hs_mX = 1 / 2, hs_mY = 1 / 2, hs_mTime = 0, hs_mLensX = 0, hs_mLensY = 0\<rparr>"

lemma ex_real_world: "world_ok (fst (Options_Init 0))" "idle_hider ex_real_hider"
  by (simp_all add: world_ok_def Options_Init_def cmdProjection_def idle_hider_def ex_real_hider_def)

theorem rendered_image_witness:
  "\<exists>hr1 hr2 i. Hider_WorldBegin (\<lambda>_. 9) (fst (Options_Init 0)) Identity ex_real_hider = (Inr (), hr1)
     \<and> RenderBuckets (\<lambda>_. 9) (bucket_colours Identity 640 480 (\<lambda>_. 1) (\<lambda>_. ex_coords) (\<lambda>_. [ex_grid]) hr1)
         (rev [0..<length (mpBuckets hr1)]) hr1 = (Inr (), hr2)
     \<and> Contains 300 200 (mpBuckets hr1 ! i)
     \<and> final_sample hr2 300 200 2
         = composite 1 (image_data Identity 640 480 (\<lambda>_. 1) (\<lambda>_. ex_coords) (\<lambda>_. [ex_grid]) hr1 i 300 200) ! 2"
proof -
  obtain hr1 where w: "Hider_WorldBegin (\<lambda>_. 9) (fst (Options_Init 0)) Identity ex_real_hider = (Inr (), hr1)"
    and all: "\<And>ts. set ts = {0..<length (mpBuckets hr1)} \<Longrightarrow>
      \<exists>hr2. RenderBuckets (\<lambda>_. 9) (bucket_colours Identity 640 480 (\<lambda>_. 1) (\<lambda>_. ex_coords) (\<lambda>_. [ex_grid]) hr1) ts hr1
          = (Inr (), hr2)
        \<and> image_composited (fst (Options_Init 0)) Identity 640 480 (\<lambda>_. 1) (\<lambda>_. ex_coords) (\<lambda>_. [ex_grid]) hr1 hr2"
    using rendered_image [where mem = "\<lambda>_. 9" and m = Identity and mem' = "\<lambda>_. 9" and p = Identity and sw = 640 and sh = 480
        and spp = "\<lambda>_. 1" and coords = "\<lambda>_. ex_coords" and grids = "\<lambda>_. [ex_grid]", OF ex_real_world] by blast
  from all [of "rev [0..<length (mpBuckets hr1)]"] obtain hr2 where
    r: "RenderBuckets (\<lambda>_. 9) (bucket_colours Identity 640 480 (\<lambda>_. 1) (\<lambda>_. ex_coords) (\<lambda>_. [ex_grid]) hr1)
      (rev [0..<length (mpBuckets hr1)]) hr1 = (Inr (), hr2)"
    and p: "image_composited (fst (Options_Init 0)) Identity 640 480 (\<lambda>_. 1) (\<lambda>_. ex_coords) (\<lambda>_. [ex_grid]) hr1 hr2" by auto
  have d: "length (image_data Identity 640 480 (\<lambda>_. 1) (\<lambda>_. ex_coords) (\<lambda>_. [ex_grid]) hr1 i x y k) \<le> MAX_DATA_PER_SAMPLE"
    for i x y k by (rule order.trans [OF ex_data]) (simp add: MAX_DATA_PER_SAMPLE_def)
  have "int 300 < mXRes (fst (Options_Init 0))" "int 200 < mYRes (fst (Options_Init 0))"
    by (simp_all add: Options_Init_def cmdProjection_def)
  with p [unfolded image_composited_def, rule_format, of 300 200] d
  obtain i where "Contains 300 200 (mpBuckets hr1 ! i)" "final_sample hr2 300 200 2
    = composite 1 (image_data Identity 640 480 (\<lambda>_. 1) (\<lambda>_. ex_coords) (\<lambda>_. [ex_grid]) hr1 i 300 200) ! 2" by auto
  with w r show ?thesis by blast
qed

end
