(* ===== verification/Dice.thy ===== *)
theory Dice
  imports Primitives HiderFilter
begin

text \<open>
  Dicing (\<open>SimplePrimitiveBase::Dice\<close> and \<open>fillUVsArray\<close>, \<open>RI_Primitive_Base.cpp\<close>) into the work grid
  (\<open>RI_MicroPolygonGrid.h/.cpp\<close>), and the loop of \<open>Framework::RenderBucket_s\<close> that sets up, dices,
  displaces, shades and busts the primitives of a bucket on one grid. The arrays behind the
  symbols of the grid are lists of \<open>MP_GRID_MAX_SIZE\<close> vertices, vertex \<open>k\<close> in lane \<open>k mod 4\<close> of block
  \<open>k div 4\<close>; they keep what the primitive before has left. The shader machine, which may throw, is the argument
  \<open>run_shaders\<close>.
\<close>

record WorkGrid =
  wk_mXDim :: nat
  wk_mYDim :: nat
  wk_mPointsN :: nat
  wk_mURange :: "real \<times> real"
  wk_mVRange :: "real \<times> real"
  wk_mMtxLocalWorld :: Matrix44
  wk_mMtxWorldCamera :: Matrix44
  wk_mMtxLocalCamera :: Matrix44
  wk_mMtxLocalCameraNorm :: Matrix44
  wk_mMtxCameraLocal :: Matrix44
  wk_P :: "real Vec3 list"
  wk_N :: "real Vec3 list"
  wk_Ng :: "real Vec3 list"
  wk_I :: "real Vec3 list"
  wk_oodu :: "real list"
  wk_oodv :: "real list"
  wk_u :: "real list"
  wk_v :: "real list"
  wk_Cs :: "real Vec3 list"
  wk_Os :: "real Vec3 list"
  wk_Ci :: "real Vec3 list"
  wk_Oi :: "real Vec3 list"

definition grid_overrun :: exn where
  "grid_overrun = Undefined_behaviour ''grid larger than its arrays''"

definition fillColArray :: "nat \<Rightarrow> real Vec3 \<Rightarrow> real Vec3 list \<Rightarrow> real Vec3 list" where
  "fillColArray n c pCol = replicate (4 * simd_blocks n) c @ drop (4 * simd_blocks n) pCol"

definition WorkGrid_Setup ::
  "nat \<Rightarrow> nat \<Rightarrow> real \<times> real \<Rightarrow> real \<times> real \<Rightarrow> Matrix44 \<Rightarrow> Matrix44 \<Rightarrow> WorkGrid \<Rightarrow> WorkGrid res" where
  "WorkGrid_Setup xdim ydim uRange vRange mtxLocalWorld mtxWorldCamera wk =
     (if 4 * simd_blocks (xdim * ydim mod 2 ^ 32) > unat MP_GRID_MAX_SIZE then Inl grid_overrun
      else
        let mtxLocalCamera = Matrix44_mul Identity mtxLocalWorld mtxWorldCamera; n = xdim * ydim mod 2 ^ 32 in
        Inr (wk\<lparr>wk_mXDim := xdim, wk_mYDim := ydim, wk_mPointsN := n, wk_mURange := uRange, wk_mVRange := vRange,
                wk_mMtxLocalWorld := mtxLocalWorld, wk_mMtxWorldCamera := mtxWorldCamera,
                wk_mMtxLocalCamera := mtxLocalCamera, wk_mMtxCameraLocal := fst (GetInverse mtxLocalCamera),
                wk_Ci := fillColArray n (Vec3 1 0 0) (wk_Ci wk), wk_Oi := fillColArray n (Vec3 0 1 0) (wk_Oi wk),
                wk_Cs := fillColArray n (Vec3 1 1 1) (wk_Cs wk), wk_Os := fillColArray n (Vec3 1 1 1) (wk_Os wk)\<rparr>))"

section \<open>Parameters of the vertices\<close>

definition CalcLocalUV :: "('g, 't) SimplePrim \<Rightarrow> real \<times> real \<Rightarrow> real \<times> real" where
  "CalcLocalUV p = (\<lambda>(u, v). (DMix (sp_mURange0 p) (sp_mURange1 p) u, DMix (sp_mVRange0 p) (sp_mVRange1 p) v))"

primrec uv_rows :: "('g, 't) SimplePrim \<Rightarrow> nat \<Rightarrow> nat \<Rightarrow> real \<Rightarrow> real \<Rightarrow> real \<Rightarrow> (real \<times> real) list list" where
  "uv_rows p 0 xDim du v dv = []"
| "uv_rows p (Suc n) xDim du v dv = map (CalcLocalUV p) (fill_row xDim 0 du v) # uv_rows p n xDim du (v + dv) dv"

text \<open>
  The steps in u along a row: the first column repeats the second. The steps in v between the
  rows: the first row repeats the second, which has never been written when there is only one.
\<close>

definition row_du :: "real list \<Rightarrow> real list" where
  "row_du us = (let d = map2 (-) (tl us) us in hd d # d)"

definition rows_dv :: "(nat \<Rightarrow> real) \<Rightarrow> nat \<Rightarrow> real list list \<Rightarrow> real list list" where
  "rows_dv mem xDim vss =
     (let d = map2 (map2 (-)) (tl vss) vss in (case d of [] \<Rightarrow> map mem [0..<xDim] | r # _ \<Rightarrow> r) # d)"

definition fillUVsArray ::
  "(nat \<Rightarrow> real) \<Rightarrow> ('g, 't) SimplePrim \<Rightarrow> real \<Rightarrow> real \<Rightarrow> nat \<Rightarrow> nat \<Rightarrow> (real \<times> real) list \<times> (real \<times> real) list" where
  "fillUVsArray mem p du dv xDim yDim =
     (let rows = uv_rows p yDim xDim du 0 dv;
          dus = map (row_du \<circ> map fst) rows;
          dvs = rows_dv mem xDim (map (map snd) rows)
      in (concat rows, concat (map2 zip dus dvs)))"

section \<open>Dicing\<close>

definition palette :: "real Vec3 list" where
  "palette =
     map (\<lambda>(r, g). Vec3 r g (1 - r))
       (let c0 = 0; c1 = 33 / 100; c2 = 66 / 100; c3 = 1 in
        [(c0, c0), (c1, c0), (c2, c0), (c3, c0), (c0, c0), (c1, c0), (c2, c0), (c3, c0),
         (c0, c1), (c1, c1), (c2, c2), (c3, c2), (c0, c3), (c1, c3), (c2, c3), (c3, c3)])"

text \<open>The four lanes of block \<open>b\<close>.\<close>

definition wr_block :: "nat \<Rightarrow> (nat \<Rightarrow> 'a) \<Rightarrow> 'a list \<Rightarrow> 'a list" where
  "wr_block b f xs = overwrite xs (4 * b) (map f [4 * b..<4 * b + 4])"

text \<open>
  One block. When the first three points have x = 0 the block is skipped: nothing of it is written.
\<close>

definition dice_block ::
  "Geometry \<Rightarrow> (real \<times> real) list \<Rightarrow> (real \<times> real) list \<Rightarrow> real Vec3 \<Rightarrow> real Vec3 \<Rightarrow> real Vec3 \<Rightarrow> nat \<Rightarrow> WorkGrid \<Rightarrow> WorkGrid" where
  "dice_block s locUV locDUDV camPosCS useColor useOpa b wk =
     (let ev = (\<lambda>k. Eval_dPdu_dPdv s (fst (locUV ! k)) (snd (locUV ! k))) in
      if x3 (fst (ev (4 * b))) = 0 \<and> x3 (fst (ev (4 * b + 1))) = 0 \<and> x3 (fst (ev (4 * b + 2))) = 0 then wk
      else
        let posCS = (\<lambda>k. V3_V3W1_Mul_M44 (fst (ev k)) (wk_mMtxLocalCamera wk));
            norLS = (\<lambda>k. Vec3_GetNormalized (DCross (fst (snd (ev k))) (snd (snd (ev k)))));
            norCS = (\<lambda>k. Vec3_GetNormalized (V3_V3W1_Mul_M44 (norLS k) (wk_mMtxLocalCameraNorm wk)))
        in wk\<lparr>wk_P := wr_block b posCS (wk_P wk), wk_I := wr_block b (\<lambda>k. posCS k - - camPosCS) (wk_I wk),
              wk_oodu := wr_block b (\<lambda>k. 1 / fst (locDUDV ! k)) (wk_oodu wk),
              wk_oodv := wr_block b (\<lambda>k. 1 / snd (locDUDV ! k)) (wk_oodv wk),
              wk_u := wr_block b (\<lambda>k. fst (locUV ! k)) (wk_u wk), wk_v := wr_block b (\<lambda>k. snd (locUV ! k)) (wk_v wk),
              wk_N := wr_block b norCS (wk_N wk), wk_Ng := wr_block b norCS (wk_Ng wk),
              wk_Os := wr_block b (\<lambda>_. useOpa) (wk_Os wk), wk_Cs := wr_block b (\<lambda>_. useColor) (wk_Cs wk)\<rparr>)"

text \<open>
  The whole grid; \<open>cnt\<close> is the static counter of the debugging palette. The code asserts a width
  that fills its blocks, and addresses rows by block on that ground.
\<close>

definition Dice_prim ::
  "(nat \<Rightarrow> real) \<Rightarrow> bool \<Rightarrow> Attributes surf_prim \<Rightarrow> WorkGrid \<times> nat \<Rightarrow> (WorkGrid \<times> nat) res" where
  "Dice_prim mem doColorCoded p = (\<lambda>(wk, cnt).
     if wk_mXDim wk mod 4 \<noteq> 0 \<or> wk_mXDim wk = 0 \<or> wk_mXDim wk * wk_mYDim wk > unat MP_GRID_MAX_SIZE then Inl grid_overrun
     else
       let du = 1 / (of_nat (wk_mXDim wk) - 1);
           dv = 1 / (of_nat (wk_mYDim wk) - 1);
           norm = GetAs33 (wk_mMtxLocalCamera wk);
           norm = (if mOrientationFlipped (sp_mpAttribs p) then Matrix44_mul Identity norm (Scale (-1) (-1) (-1)) else norm);
           camPosCS = GetTranslation (wk_mMtxWorldCamera wk);
           (useColor, useOpa, cnt) =
             (if doColorCoded then (palette ! (cnt mod 16), Vec3 1 1 1, cnt + 1)
              else (mColor (sp_mpAttribs p), mOpacity (sp_mpAttribs p), cnt));
           (locUV, locDUDV) = fillUVsArray mem p du dv (wk_mXDim wk) (wk_mYDim wk)
       in Inr (fold (dice_block (sp_geom p) locUV locDUDV camPosCS useColor useOpa)
                 [0..<simd_blocks (wk_mPointsN wk)] (wk\<lparr>wk_mMtxLocalCameraNorm := norm\<rparr>), cnt))"

section \<open>The primitives of a bucket\<close>

text \<open>What \<open>Bust\<close> reads of the work grid.\<close>

definition shaded :: "WorkGrid \<Rightarrow> WorkGridV" where
  "shaded wk = \<lparr>wg_mXDim = wk_mXDim wk, wg_mYDim = wk_mYDim wk, wg_mpPointsCS = wk_P wk, wg_Ci = wk_Ci wk, wg_Oi = wk_Oi wk\<rparr>"

definition grid_of_prim ::
  "(nat \<Rightarrow> real) \<Rightarrow> bool \<Rightarrow> (Attributes \<Rightarrow> WorkGrid \<Rightarrow> WorkGrid res) \<Rightarrow> Matrix44 \<Rightarrow> Attributes surf_prim \<Rightarrow> WorkGrid \<times> nat
     \<Rightarrow> (WorkGrid \<times> nat) res" where
  "grid_of_prim mem colorCoded run_shaders mtxWorldCamera p = (\<lambda>(wk, cnt).
     res_bind (WorkGrid_Setup (nat (sp_mDiceGridWd p mod 2 ^ 32)) (nat (sp_mDiceGridHe p mod 2 ^ 32)) (sp_mURange0 p, sp_mURange1 p)
         (sp_mVRange0 p, sp_mVRange1 p) (sp_mpTransform p) mtxWorldCamera wk) (\<lambda>wk.
     res_bind (Dice_prim mem colorCoded p (wk, cnt)) (\<lambda>(wk, cnt).
     res_bind (run_shaders (sp_mpAttribs p) wk) (\<lambda>wk. Inr (wk, cnt)))))"

fun bucket_grids ::
  "(nat \<Rightarrow> real) \<Rightarrow> bool \<Rightarrow> (Attributes \<Rightarrow> WorkGrid \<Rightarrow> WorkGrid res) \<Rightarrow> Matrix44 \<Rightarrow> Attributes surf_prim list \<Rightarrow> WorkGrid \<times> nat
     \<Rightarrow> (WorkGridV list \<times> nat) res" where
  "bucket_grids mem cc run_shaders m [] wkc = Inr ([], snd wkc)"
| "bucket_grids mem cc run_shaders m (p # ps) wkc =
     res_bind (grid_of_prim mem cc run_shaders m p wkc) (\<lambda>wkc.
     res_bind (bucket_grids mem cc run_shaders m ps wkc) (\<lambda>(gs, cnt). Inr (shaded (fst wkc) # gs, cnt)))"

end
