(* ===== verification/DiceProps.thy ===== *)
theory DiceProps
  imports Dice PrimProps HiderProps
begin

text \<open>
  Dicing: the grid of a piece fits the arrays, every vertex of a block that is not skipped is the
  point of the surface at its parameters with the normal there, and the primitives a block of
  which is skipped.
\<close>

section \<open>The size of a grid\<close>

lemma max_grid [simp]: "unat MP_GRID_MAX_SIZE = 2304"
  by (simp add: MP_GRID_MAX_SIZE_def DMT_SIMD_PADSIZE_def DMT_SIMD_FLEN_def)

lemma simd_blocks_4 [simp]: "simd_blocks n = (n + 3) div 4"
  by (simp add: simd_blocks_def DMT_SIMD_FLEN_def)

definition grid_fits :: "('g, 't) SimplePrim \<Rightarrow> bool" where
  "grid_fits p \<longleftrightarrow> (\<exists>w h. sp_mDiceGridWd p = int (4 * w) \<and> sp_mDiceGridHe p = int h \<and> 1 \<le> w \<and> 1 \<le> h \<and> 4 * w * h \<le> 2304)"

lemma diced_grid_fits:
  assumes "CheckForSplit MB hr p = (CHECKSPLITRES_DICE, box, q)"
  shows "grid_fits q"
proof -
  obtain area b where r: "RasterEstimate hr (MB p) (sp_mpTransform p) = (area, b)" by force
  have a: "RI_EPSILON \<le> area" "area \<le> 2304"
    and q: "q = p\<lparr>sp_mDiceGridWd := uint (DMT_SIMD_PADSIZE (of_int \<lceil>sqrt area\<rceil>)), sp_mDiceGridHe := \<lceil>sqrt area\<rceil>\<rparr>"
    using assms by (auto simp: CheckForSplit_def Let_def r split: if_splits)
  have "sqrt area \<le> sqrt (48 ^ 2)" using a(2) by (intro real_sqrt_le_mono) simp
  then have "sqrt area \<le> 48" by simp
  then have h: "\<lceil>sqrt area\<rceil> \<le> 48" by linarith
  have "0 < sqrt area" using a(1) by (simp add: RI_EPSILON_def)
  then have "1 \<le> \<lceil>sqrt area\<rceil>" by linarith
  then obtain n where n: "\<lceil>sqrt area\<rceil> = int n" "1 \<le> n" "n \<le> 48"
    using h by (intro that [of "nat \<lceil>sqrt area\<rceil>"]) linarith+
  have u: "unat (of_int (int n) :: U32) = n" using n(3) by (simp add: unat_of_nat)
  have w: "uint (DMT_SIMD_PADSIZE (of_int \<lceil>sqrt area\<rceil>)) = int (4 * ((n + 3) div 4))"
    using unat_PADSIZE [of "of_int (int n)", unfolded u] n(3) unfolding n(1) by (simp add: uint_nat)
  have "(n + 3) div 4 \<le> 12" using n(3) by linarith
  then have "4 * ((n + 3) div 4) * n \<le> 48 * 48" using n(3) by (intro mult_le_mono) linarith+
  then show ?thesis unfolding grid_fits_def q
    by (intro exI [of _ "(n + 3) div 4"] exI [of _ n]) (use n w in simp)
qed

section \<open>Writing blocks\<close>

lemma wr_block_nth:
  assumes "4 * b + 4 \<le> length xs" and "k < length xs"
  shows "wr_block b f xs ! k = (if k div 4 = b then f k else xs ! k)"
proof -
  have "k div 4 = b \<longleftrightarrow> 4 * b \<le> k \<and> k < 4 * b + 4" by linarith
  then show ?thesis using assms by (auto simp: wr_block_def overwrite_nth)
qed

lemma length_wr_block: "4 * b + 4 \<le> length xs \<Longrightarrow> length (wr_block b f xs) = length xs"
  by (simp add: wr_block_def)

text \<open>A loop over blocks that writes one array, whatever else it changes.\<close>

lemma fold_blocks:
  assumes "\<And>b g. I g \<Longrightarrow> I (step b g) \<and> sel (step b g) = (if skip b then sel g else wr_block b f (sel g))"
    and "I g" and "4 * n \<le> length (sel g)"
  shows "I (fold step [0..<n] g) \<and> length (sel (fold step [0..<n] g)) = length (sel g)
    \<and> (\<forall>k < length (sel g). sel (fold step [0..<n] g) ! k = (if k < 4 * n \<and> \<not> skip (k div 4) then f k else sel g ! k))"
  using assms(3)
proof (induction n)
  case 0
  then show ?case using assms(2) by simp
next
  case (Suc n)
  then have ih: "I (fold step [0..<n] g)" "length (sel (fold step [0..<n] g)) = length (sel g)"
    "\<And>k. k < length (sel g) \<Longrightarrow> sel (fold step [0..<n] g) ! k = (if k < 4 * n \<and> \<not> skip (k div 4) then f k else sel g ! k)"
    by simp_all
  note st = assms(1) [OF ih(1), of n]
  have fit: "4 * n + 4 \<le> length (sel (fold step [0..<n] g))" using Suc.prems ih(2) by simp
  have "sel (fold step [0..<Suc n] g) ! k = (if k < 4 * Suc n \<and> \<not> skip (k div 4) then f k else sel g ! k)"
    if k: "k < length (sel g)" for k
  proof -
    have "k < 4 * Suc n \<longleftrightarrow> k < 4 * n \<or> k div 4 = n" by presburger
    moreover have "k < 4 * n \<Longrightarrow> k div 4 \<noteq> n" by presburger
    ultimately show ?thesis using st ih(2,3) k wr_block_nth [OF fit, of k f] by auto
  qed
  then show ?case using st ih(2) length_wr_block [OF fit, of f] by simp
qed

section \<open>Parameters of the vertices\<close>

lemma fill_row_nth: "j < n \<Longrightarrow> fill_row n u du v ! j = (u + of_nat j * du, v)"
  by (induction n arbitrary: u j) (simp_all add: nth_Cons algebra_simps split: nat.split)

lemma uv_rows_shape: "length (uv_rows p n w du v dv) = n" "\<forall>r \<in> set (uv_rows p n w du v dv). length r = w"
  by (induction n arbitrary: v) simp_all

lemma uv_rows_nth:
  "i < n \<Longrightarrow> j < w \<Longrightarrow> uv_rows p n w du v dv ! i ! j = CalcLocalUV p (of_nat j * du, v + of_nat i * dv)"
  by (induction n arbitrary: v i) (simp_all add: nth_Cons fill_row_nth algebra_simps split: nat.split)

lemma concat_equal_rows_nth:
  assumes "\<forall>r \<in> set rows. length r = w" and "i < length rows" and "j < w"
  shows "concat rows ! (i * w + j) = rows ! i ! j"
  using assms
proof (induction rows arbitrary: i)
  case Nil
  then show ?case by simp
next
  case (Cons r rows)
  then show ?case by (cases i) (simp_all add: nth_append add.assoc)
qed

lemma length_concat_rows: "\<forall>r \<in> set rows. length r = w \<Longrightarrow> length (concat rows) = length rows * w"
  by (induction rows) simp_all

text \<open>Differences of neighbours.\<close>

lemma steps_nth: "Suc n < length xs \<Longrightarrow> map2 f (tl xs) xs ! n = f (xs ! Suc n) (xs ! n)"
  by (simp add: nth_tl)

lemma steps_Cons: "2 \<le> length xs \<Longrightarrow> \<exists>ds. map2 f (tl xs) xs = f (xs ! 1) (xs ! 0) # ds"
  by (cases xs; cases "tl xs") simp_all

lemma row_du_nth:
  assumes "j < length us" and "2 \<le> length us"
  shows "row_du us ! j = (if j = 0 then us ! 1 - us ! 0 else us ! j - us ! (j - 1))"
  using steps_Cons [OF assms(2), of "(-)"] steps_nth [of "j - 1" us "(-)"] assms(1)
  by (cases j) (auto simp: row_du_def Let_def)

lemma length_row_du: "1 \<le> length us \<Longrightarrow> length (row_du us) = length us"
  by (simp add: row_du_def Let_def)

lemma rows_dv_nth:
  assumes "\<forall>r \<in> set vss. length r = w" and "i < length vss" and "2 \<le> length vss" and "j < w"
  shows "rows_dv mem w vss ! i ! j = (if i = 0 then vss ! 1 ! j - vss ! 0 ! j else vss ! i ! j - vss ! (i - 1) ! j)"
proof -
  have l: "length (vss ! k) = w" if "k < length vss" for k using assms(1) that by simp
  obtain ds where d: "map2 (map2 (-)) (tl vss) vss = map2 (-) (vss ! 1) (vss ! 0) # ds"
    using steps_Cons [OF assms(3), of "map2 (-)"] by auto
  show ?thesis
  proof (cases i)
    case 0
    then show ?thesis using assms l [of 0] l [of 1] by (simp add: rows_dv_def Let_def d)
  next
    case (Suc n)
    have "rows_dv mem w vss ! Suc n = map2 (map2 (-)) (tl vss) vss ! n" by (simp add: rows_dv_def Let_def)
    then show ?thesis using Suc assms(2,4) steps_nth [of n vss "map2 (-)"] l [of n] l [of "Suc n"] by simp
  qed
qed

lemma rows_dv_shape:
  assumes "\<forall>r \<in> set vss. length r = w" and "1 \<le> length vss"
  shows "length (rows_dv mem w vss) = length vss" and "\<forall>r \<in> set (rows_dv mem w vss). length r = w"
proof -
  let ?d = "map2 (map2 (-)) (tl vss) vss"
  have d: "\<forall>r \<in> set ?d. length r = w"
  proof
    fix r
    assume "r \<in> set ?d"
    then obtain x y where "(x, y) \<in> set (zip (tl vss) vss)" and r: "r = map2 (-) x y" by auto
    then have "x \<in> set (tl vss)" "y \<in> set vss" using set_zip_leftD set_zip_rightD by metis+
    then show "length r = w" using assms(1) list.set_sel(2) [of vss] r by (cases vss) auto
  qed
  show "length (rows_dv mem w vss) = length vss" using assms(2) by (simp add: rows_dv_def Let_def)
  show "\<forall>r \<in> set (rows_dv mem w vss). length r = w" using d by (auto simp: rows_dv_def Let_def split: list.split)
qed

lemma fillUVs_nth:
  assumes "fillUVsArray mem p du dv w h = (uv, dd)" and "i < h" and "j < w" and "2 \<le> w"
  shows "uv ! (i * w + j) = CalcLocalUV p (of_nat j * du, of_nat i * dv)"
    and "fst (dd ! (i * w + j)) = (sp_mURange1 p - sp_mURange0 p) * du"
    and "2 \<le> h \<Longrightarrow> snd (dd ! (i * w + j)) = (sp_mVRange1 p - sp_mVRange0 p) * dv"
proof -
  let ?rows = "uv_rows p h w du 0 dv"
  let ?dus = "map (row_du \<circ> map fst) ?rows" and ?vss = "map (map snd) ?rows"
  let ?dvs = "rows_dv mem w ?vss"
  have uv: "uv = concat ?rows" and dd: "dd = concat (map2 zip ?dus ?dvs)"
    using assms(1) by (simp_all add: fillUVsArray_def Let_def)
  note sh = uv_rows_shape [of p h w du 0 dv]
  have len: "length (?rows ! k) = w" if "k < h" for k using sh that by simp
  have nth: "?rows ! a ! b = CalcLocalUV p (of_nat b * du, of_nat a * dv)" if "a < h" "b < w" for a b
    using uv_rows_nth [OF that, of p du 0 dv] by simp
  have vw: "\<forall>r \<in> set ?vss. length r = w" "1 \<le> length ?vss" using sh assms(2) by auto
  note dvs = rows_dv_shape [OF vw, of mem]
  have ldv: "length (?dvs ! k) = w" if "k < h" for k using dvs that sh(1) by simp
  have ldu: "length (?dus ! k) = w" if "k < h" for k using len [OF that] that sh(1) assms(3) by (simp add: length_row_du)
  show "uv ! (i * w + j) = CalcLocalUV p (of_nat j * du, of_nat i * dv)"
    using concat_equal_rows_nth [OF sh(2), of i j] sh(1) assms(2,3) nth uv by simp
  have zw: "\<forall>r \<in> set (map2 zip ?dus ?dvs). length r = w"
    using ldv ldu dvs(1) sh(1) by (auto simp: set_zip)
  have z: "dd ! (i * w + j) = (?dus ! i ! j, ?dvs ! i ! j)"
    using concat_equal_rows_nth [OF zw, of i j] assms(2,3) dvs(1) sh(1) ldv [OF assms(2)] ldu [OF assms(2)] dd by simp
  have "?dus ! i ! j = (if j = 0 then fst (?rows ! i ! 1) - fst (?rows ! i ! 0) else fst (?rows ! i ! j) - fst (?rows ! i ! (j - 1)))"
    using row_du_nth [of j "map fst (?rows ! i)"] len [OF assms(2)] assms(2-4) sh(1) by simp
  then show "fst (dd ! (i * w + j)) = (sp_mURange1 p - sp_mURange0 p) * du"
    using z nth [OF assms(2)] assms(3,4) by (cases j) (simp_all add: CalcLocalUV_def DMix_def algebra_simps)
  assume h: "2 \<le> h"
  have "?dvs ! i ! j = (if i = 0 then snd (?rows ! 1 ! j) - snd (?rows ! 0 ! j) else snd (?rows ! i ! j) - snd (?rows ! (i - 1) ! j))"
    using rows_dv_nth [OF vw(1), of i j mem] h assms(2,3) sh(1) len [of 0] len [of 1] len [OF assms(2)] len [of "i - 1"] by simp
  then show "snd (dd ! (i * w + j)) = (sp_mVRange1 p - sp_mVRange0 p) * dv"
    using z nth [of i j] nth [of 0 j] nth [of 1 j] nth [of "i - 1" j] h assms(2,3)
    by (cases i) (simp_all add: CalcLocalUV_def DMix_def algebra_simps)
qed

section \<open>The vertices of a diced grid\<close>

definition full_grid :: "WorkGrid \<Rightarrow> bool" where
  "full_grid wk \<longleftrightarrow> list_all (\<lambda>xs. length xs = 2304) [wk_P wk, wk_N wk, wk_Ng wk, wk_I wk, wk_Cs wk, wk_Os wk, wk_Ci wk, wk_Oi wk]
     \<and> list_all (\<lambda>xs. length xs = 2304) [wk_oodu wk, wk_oodv wk, wk_u wk, wk_v wk]"

text \<open>The test at the head of the loop over blocks.\<close>

definition skips :: "Geometry \<Rightarrow> (real \<times> real) list \<Rightarrow> nat \<Rightarrow> bool" where
  "skips s uv b \<longleftrightarrow> (\<forall>l < 3. x3 (EvalP s (fst (uv ! (4 * b + l))) (snd (uv ! (4 * b + l)))) = 0)"

lemma skips_alt:
  "skips s uv b \<longleftrightarrow> x3 (fst (Eval_dPdu_dPdv s (fst (uv ! (4 * b))) (snd (uv ! (4 * b))))) = 0
     \<and> x3 (fst (Eval_dPdu_dPdv s (fst (uv ! (4 * b + 1))) (snd (uv ! (4 * b + 1))))) = 0
     \<and> x3 (fst (Eval_dPdu_dPdv s (fst (uv ! (4 * b + 2))) (snd (uv ! (4 * b + 2))))) = 0"
  by (simp add: skips_def EvalP_def numeral_3_eq_3 less_Suc_eq all_conj_distrib conj_ac)

lemma diced_array:
  assumes "\<And>b g. wk_mMtxLocalCamera g = L \<Longrightarrow> wk_mMtxLocalCameraNorm g = M \<Longrightarrow>
      sel (dice_block s uv dd cam col opa b g) = (if skips s uv b then sel g else wr_block b f (sel g))"
    and "wk_mMtxLocalCamera wk = L" and "wk_mMtxLocalCameraNorm wk = M" and "4 * n \<le> length (sel wk)"
  shows "length (sel (fold (dice_block s uv dd cam col opa) [0..<n] wk)) = length (sel wk)"
    and "k < 4 * n \<Longrightarrow> sel (fold (dice_block s uv dd cam col opa) [0..<n] wk) ! k = (if skips s uv (k div 4) then sel wk ! k else f k)"
proof -
  have "wk_mMtxLocalCamera (dice_block s uv dd cam col opa b g) = wk_mMtxLocalCamera g"
    "wk_mMtxLocalCameraNorm (dice_block s uv dd cam col opa b g) = wk_mMtxLocalCameraNorm g" for b g
    by (simp_all add: dice_block_def Let_def)
  then have "\<And>b g. wk_mMtxLocalCamera g = L \<and> wk_mMtxLocalCameraNorm g = M \<Longrightarrow>
      (wk_mMtxLocalCamera (dice_block s uv dd cam col opa b g) = L \<and> wk_mMtxLocalCameraNorm (dice_block s uv dd cam col opa b g) = M)
      \<and> sel (dice_block s uv dd cam col opa b g) = (if skips s uv b then sel g else wr_block b f (sel g))"
    using assms(1) by simp
  from fold_blocks [OF this, of wk n] assms(2-4)
  show "length (sel (fold (dice_block s uv dd cam col opa) [0..<n] wk)) = length (sel wk)"
    "k < 4 * n \<Longrightarrow> sel (fold (dice_block s uv dd cam col opa) [0..<n] wk) ! k = (if skips s uv (k div 4) then sel wk ! k else f k)"
    by simp_all
qed

lemma dice_block_skip: "skips s uv b \<Longrightarrow> dice_block s uv dd cam col opa b g = g"
  by (simp add: dice_block_def skips_alt Let_def)

lemma dice_block_write:
  assumes "\<not> skips s uv b"
  shows "dice_block s uv dd cam col opa b g =
    (let ev = (\<lambda>k. Eval_dPdu_dPdv s (fst (uv ! k)) (snd (uv ! k)));
         posCS = (\<lambda>k. V3_V3W1_Mul_M44 (fst (ev k)) (wk_mMtxLocalCamera g));
         norLS = (\<lambda>k. Vec3_GetNormalized (DCross (fst (snd (ev k))) (snd (snd (ev k)))));
         norCS = (\<lambda>k. Vec3_GetNormalized (V3_V3W1_Mul_M44 (norLS k) (wk_mMtxLocalCameraNorm g)))
     in g\<lparr>wk_P := wr_block b posCS (wk_P g), wk_I := wr_block b (\<lambda>k. posCS k - - cam) (wk_I g),
          wk_oodu := wr_block b (\<lambda>k. 1 / fst (dd ! k)) (wk_oodu g), wk_oodv := wr_block b (\<lambda>k. 1 / snd (dd ! k)) (wk_oodv g),
          wk_u := wr_block b (\<lambda>k. fst (uv ! k)) (wk_u g), wk_v := wr_block b (\<lambda>k. snd (uv ! k)) (wk_v g),
          wk_N := wr_block b norCS (wk_N g), wk_Ng := wr_block b norCS (wk_Ng g),
          wk_Os := wr_block b (\<lambda>_. opa) (wk_Os g), wk_Cs := wr_block b (\<lambda>_. col) (wk_Cs g)\<rparr>)"
  using assms unfolding skips_alt dice_block_def Let_def by argo

definition grid_u :: "('g, 't) SimplePrim \<Rightarrow> nat \<Rightarrow> nat \<Rightarrow> real" where
  "grid_u p wd j = DMix (sp_mURange0 p) (sp_mURange1 p) (of_nat j / (of_nat wd - 1))"

definition grid_v :: "('g, 't) SimplePrim \<Rightarrow> nat \<Rightarrow> nat \<Rightarrow> real" where
  "grid_v p he i = DMix (sp_mVRange0 p) (sp_mVRange1 p) (of_nat i / (of_nat he - 1))"

text \<open>The vertex is in a block whose first three points have x = 0.\<close>

definition block_skipped :: "Attributes surf_prim \<Rightarrow> nat \<Rightarrow> nat \<Rightarrow> nat \<Rightarrow> nat \<Rightarrow> bool" where
  "block_skipped p wd he i j \<longleftrightarrow> (\<forall>l < 3. x3 (EvalP (sp_geom p) (grid_u p wd (4 * (j div 4) + l)) (grid_v p he i)) = 0)"

definition norm_matrix :: "Attributes surf_prim \<Rightarrow> Matrix44 \<Rightarrow> Matrix44" where
  "norm_matrix p L = (if mOrientationFlipped (sp_mpAttribs p)
     then Matrix44_mul Identity (GetAs33 L) (Scale (-1) (-1) (-1)) else GetAs33 L)"

lemma uv_of_vertex:
  assumes "fillUVsArray mem p (1 / (of_nat wd - 1)) (1 / (of_nat he - 1)) wd he = (uv, dd)" and "i < he" and "j < wd" and "2 \<le> wd"
  shows "uv ! (i * wd + j) = (grid_u p wd j, grid_v p he i)"
  using fillUVs_nth(1) [OF assms] by (simp add: CalcLocalUV_def grid_u_def grid_v_def)

lemma skips_vertex:
  assumes "fillUVsArray mem p (1 / (of_nat (4 * w) - 1)) (1 / (of_nat he - 1)) (4 * w) he = (uv, dd)" and "i < he" and "j < 4 * w"
  shows "skips (sp_geom p) uv ((i * (4 * w) + j) div 4) \<longleftrightarrow> block_skipped p (4 * w) he i j"
proof -
  have e: "i * (4 * w) = 4 * (i * w)" by simp
  have b: "4 * ((i * (4 * w) + j) div 4) = i * (4 * w) + 4 * (j div 4)" unfolding e by simp
  have "uv ! (4 * ((i * (4 * w) + j) div 4) + l) = (grid_u p (4 * w) (4 * (j div 4) + l), grid_v p he i)" if "l < 3" for l
  proof -
    have "4 * (j div 4) + l < 4 * w" using assms(3) that by presburger
    then show ?thesis using uv_of_vertex [OF assms(1,2), of "4 * (j div 4) + l"] unfolding b by (simp add: add.assoc)
  qed
  then show ?thesis by (simp add: skips_def block_skipped_def)
qed

lemma Setup_full:
  assumes "full_grid wk" and "4 * w * h \<le> 2304"
  obtains wk1 where "WorkGrid_Setup (4 * w) h ur vr lw wc wk = Inr wk1" and "full_grid wk1"
    and "wk_mXDim wk1 = 4 * w" and "wk_mYDim wk1 = h" and "wk_mPointsN wk1 = 4 * w * h"
    and "wk_mMtxLocalCamera wk1 = Matrix44_mul Identity lw wc" and "wk_mMtxWorldCamera wk1 = wc"
proof -
  have n: "4 * w * h mod 2 ^ 32 = 4 * w * h" "4 * simd_blocks (4 * w * h) = 4 * w * h" using assms(2) by simp_all
  have "length (fillColArray (4 * w * h) c xs) = 2304" if "length xs = 2304" for c xs
    using that assms(2) unfolding fillColArray_def n(2) by simp
  then have f: "\<And>xs c. length xs = 2304 \<Longrightarrow> length (fillColArray (4 * w * h) c xs) = 2304" .
  let ?m = "Matrix44_mul Identity lw wc" and ?n = "4 * w * h"
  let ?wk = "wk\<lparr>wk_mXDim := 4 * w, wk_mYDim := h, wk_mPointsN := ?n, wk_mURange := ur, wk_mVRange := vr,
      wk_mMtxLocalWorld := lw, wk_mMtxWorldCamera := wc, wk_mMtxLocalCamera := ?m, wk_mMtxCameraLocal := fst (GetInverse ?m),
      wk_Ci := fillColArray ?n (Vec3 1 0 0) (wk_Ci wk), wk_Oi := fillColArray ?n (Vec3 0 1 0) (wk_Oi wk),
      wk_Cs := fillColArray ?n (Vec3 1 1 1) (wk_Cs wk), wk_Os := fillColArray ?n (Vec3 1 1 1) (wk_Os wk)\<rparr>"
  have "\<not> unat MP_GRID_MAX_SIZE < ?n" using assms(2) unfolding max_grid by linarith
  then have "WorkGrid_Setup (4 * w) h ur vr lw wc wk = Inr ?wk"
    unfolding WorkGrid_Setup_def n Let_def by (simp only: if_False)
  moreover have "full_grid ?wk" using assms(1) by (simp add: full_grid_def f)
  ultimately show thesis by (rule that) simp_all
qed

lemma fold_dice_full:
  assumes "full_grid g" and "4 * n \<le> 2304"
  shows "full_grid (fold (dice_block s uv dd cam col opa) [0..<n] g)"
    and "wk_mXDim (fold (dice_block s uv dd cam col opa) [0..<n] g) = wk_mXDim g"
    and "wk_mYDim (fold (dice_block s uv dd cam col opa) [0..<n] g) = wk_mYDim g"
proof -
  have step: "full_grid (dice_block s uv dd cam col opa b k) \<and> wk_mXDim (dice_block s uv dd cam col opa b k) = wk_mXDim k
      \<and> wk_mYDim (dice_block s uv dd cam col opa b k) = wk_mYDim k" if "full_grid k" "4 * b + 4 \<le> 2304" for b k
    using that by (cases "skips s uv b") (simp_all add: dice_block_skip dice_block_write full_grid_def length_wr_block Let_def)
  have "full_grid (fold (dice_block s uv dd cam col opa) [0..<n] g)
    \<and> wk_mXDim (fold (dice_block s uv dd cam col opa) [0..<n] g) = wk_mXDim g
    \<and> wk_mYDim (fold (dice_block s uv dd cam col opa) [0..<n] g) = wk_mYDim g" using assms(2)
  proof (induction n)
    case 0
    then show ?case using assms(1) by simp
  next
    case (Suc n)
    then show ?case using step [of "fold (dice_block s uv dd cam col opa) [0..<n] g" n] by simp
  qed
  then show "full_grid (fold (dice_block s uv dd cam col opa) [0..<n] g)"
    "wk_mXDim (fold (dice_block s uv dd cam col opa) [0..<n] g) = wk_mXDim g"
    "wk_mYDim (fold (dice_block s uv dd cam col opa) [0..<n] g) = wk_mYDim g" by simp_all
qed

text \<open>The values of a written vertex, array by array.\<close>

lemma diced_values:
  fixes s uv dd cam col opa n wk
  defines "r \<equiv> fold (dice_block s uv dd cam col opa) [0..<n] wk"
    and "ev \<equiv> (\<lambda>k. Eval_dPdu_dPdv s (fst (uv ! k)) (snd (uv ! k)))"
  assumes "full_grid wk" and "4 * n \<le> 2304" and "k < 4 * n" and "\<not> skips s uv (k div 4)"
  shows "wk_P r ! k = V3_V3W1_Mul_M44 (fst (ev k)) (wk_mMtxLocalCamera wk)"
    and "wk_I r ! k = V3_V3W1_Mul_M44 (fst (ev k)) (wk_mMtxLocalCamera wk) - - cam"
    and "wk_N r ! k = Vec3_GetNormalized (V3_V3W1_Mul_M44 (Vec3_GetNormalized (DCross (fst (snd (ev k))) (snd (snd (ev k)))))
      (wk_mMtxLocalCameraNorm wk))"
    and "wk_Ng r ! k = wk_N r ! k"
    and "wk_u r ! k = fst (uv ! k)" and "wk_v r ! k = snd (uv ! k)"
    and "wk_oodu r ! k = 1 / fst (dd ! k)" and "wk_oodv r ! k = 1 / snd (dd ! k)"
    and "wk_Cs r ! k = col" and "wk_Os r ! k = opa"
proof -
  note arr = diced_array(2) [where wk = wk and n = n and k = k and s = s and uv = uv and dd = dd and cam = cam and col = col
      and opa = opa and L = "wk_mMtxLocalCamera wk" and M = "wk_mMtxLocalCameraNorm wk", OF _ refl refl _ assms(5), folded r_def]
  note w = dice_block_skip dice_block_write Let_def ev_def assms(6)
  have l: "4 * n \<le> length (wk_P wk)" "4 * n \<le> length (wk_I wk)" "4 * n \<le> length (wk_N wk)" "4 * n \<le> length (wk_Ng wk)"
    "4 * n \<le> length (wk_Cs wk)" "4 * n \<le> length (wk_Os wk)"
    "4 * n \<le> length (wk_u wk)" "4 * n \<le> length (wk_v wk)" "4 * n \<le> length (wk_oodu wk)" "4 * n \<le> length (wk_oodv wk)"
    using assms(3,4) by (simp_all add: full_grid_def)
  show "wk_P r ! k = V3_V3W1_Mul_M44 (fst (ev k)) (wk_mMtxLocalCamera wk)"
    by (subst arr [where sel = wk_P and f = "\<lambda>k. V3_V3W1_Mul_M44 (fst (ev k)) (wk_mMtxLocalCamera wk)"]) (simp_all add: w l)
  show "wk_I r ! k = V3_V3W1_Mul_M44 (fst (ev k)) (wk_mMtxLocalCamera wk) - - cam"
    by (subst arr [where sel = wk_I and f = "\<lambda>k. V3_V3W1_Mul_M44 (fst (ev k)) (wk_mMtxLocalCamera wk) - - cam"]) (simp_all add: w l)
  let ?nor = "\<lambda>k. Vec3_GetNormalized (V3_V3W1_Mul_M44 (Vec3_GetNormalized (DCross (fst (snd (ev k))) (snd (snd (ev k)))))
      (wk_mMtxLocalCameraNorm wk))"
  have N: "wk_N r ! k = ?nor k" by (subst arr [where sel = wk_N and f = ?nor]) (simp_all add: w l)
  then show "wk_N r ! k = ?nor k" .
  show "wk_Ng r ! k = wk_N r ! k" unfolding N by (subst arr [where sel = wk_Ng and f = ?nor]) (simp_all add: w l)
  show "wk_u r ! k = fst (uv ! k)" by (subst arr [where sel = wk_u and f = "\<lambda>k. fst (uv ! k)"]) (simp_all add: w l)
  show "wk_v r ! k = snd (uv ! k)" by (subst arr [where sel = wk_v and f = "\<lambda>k. snd (uv ! k)"]) (simp_all add: w l)
  show "wk_oodu r ! k = 1 / fst (dd ! k)" by (subst arr [where sel = wk_oodu and f = "\<lambda>k. 1 / fst (dd ! k)"]) (simp_all add: w l)
  show "wk_oodv r ! k = 1 / snd (dd ! k)" by (subst arr [where sel = wk_oodv and f = "\<lambda>k. 1 / snd (dd ! k)"]) (simp_all add: w l)
  show "wk_Cs r ! k = col" by (subst arr [where sel = wk_Cs and f = "\<lambda>_. col"]) (simp_all add: w l)
  show "wk_Os r ! k = opa" by (subst arr [where sel = wk_Os and f = "\<lambda>_. opa"]) (simp_all add: w l)
qed

text \<open>
  What dicing writes for vertex \<open>k\<close> at parameters \<open>(u, v)\<close> with steps \<open>du\<close> and \<open>dv\<close>: the point in camera
  space, the direction from the camera, the normal of the surface, and the colours.
\<close>

definition vertex_ok :: "Attributes surf_prim \<Rightarrow> Matrix44 \<Rightarrow> real Vec3 \<Rightarrow> WorkGrid \<Rightarrow> nat \<Rightarrow> real \<Rightarrow> real \<Rightarrow> bool" where
  "vertex_ok p L cam wk k u v \<longleftrightarrow>
     (case Eval_dPdu_dPdv (sp_geom p) u v of (q, dPdu, dPdv) \<Rightarrow>
        wk_P wk ! k = V3_V3W1_Mul_M44 q L \<and> wk_I wk ! k = wk_P wk ! k + cam
        \<and> wk_N wk ! k = Vec3_GetNormalized (V3_V3W1_Mul_M44 (Vec3_GetNormalized (DCross dPdu dPdv)) (norm_matrix p L))
        \<and> wk_Ng wk ! k = wk_N wk ! k \<and> wk_u wk ! k = u \<and> wk_v wk ! k = v
        \<and> wk_Cs wk ! k = mColor (sp_mpAttribs p) \<and> wk_Os wk ! k = mOpacity (sp_mpAttribs p))"

text \<open>
  C13: dicing puts the surface on the grid. A primitive that \<open>CheckForSplit\<close> decides to dice gets a
  grid that fills whole SIMD blocks and fits the arrays, so \<open>Setup\<close> and \<open>Dice\<close> succeed on a grid left
  over from any other primitive. Afterwards every vertex outside the skipped blocks holds the
  point of the surface at its parameters in camera space, the unit normal there, the direction
  from the camera, the colour and opacity of the attributes, and the reciprocal steps between
  neighbouring parameters; the parameters run evenly over the range of the primitive, ends
  included.
\<close>

theorem diced_vertices:
  assumes "CheckForSplit MB hr p0 = (CHECKSPLITRES_DICE, box, p)" and "full_grid wk"
  shows "\<exists>wd he wk1 wk2. sp_mDiceGridWd p = int wd \<and> sp_mDiceGridHe p = int he \<and> wd mod 4 = 0 \<and> 1 \<le> he \<and> wd * he \<le> 2304
    \<and> WorkGrid_Setup wd he ur vr (sp_mpTransform p) wc wk = Inr wk1
    \<and> Dice_prim mem False p (wk1, cnt) = Inr (wk2, cnt) \<and> full_grid wk2 \<and> wk_mXDim wk2 = wd \<and> wk_mYDim wk2 = he
    \<and> (\<forall>i < he. \<forall>j < wd. \<not> block_skipped p wd he i j \<longrightarrow>
         vertex_ok p (Matrix44_mul Identity (sp_mpTransform p) wc) (GetTranslation wc) wk2 (i * wd + j) (grid_u p wd j) (grid_v p he i)
         \<and> wk_oodu wk2 ! (i * wd + j) = 1 / ((sp_mURange1 p - sp_mURange0 p) / (of_nat wd - 1))
         \<and> (2 \<le> he \<longrightarrow> wk_oodv wk2 ! (i * wd + j) = 1 / ((sp_mVRange1 p - sp_mVRange0 p) / (of_nat he - 1))))"
proof -
  obtain w h where wh: "sp_mDiceGridWd p = int (4 * w)" "sp_mDiceGridHe p = int h" "1 \<le> w" "1 \<le> h" "4 * w * h \<le> 2304"
    using diced_grid_fits [OF assms(1)] unfolding grid_fits_def by blast
  let ?L = "Matrix44_mul Identity (sp_mpTransform p) wc"
  obtain wk1 where s: "WorkGrid_Setup (4 * w) h ur vr (sp_mpTransform p) wc wk = Inr wk1" and f1: "full_grid wk1"
    and d1: "wk_mXDim wk1 = 4 * w" "wk_mYDim wk1 = h" "wk_mPointsN wk1 = 4 * w * h" "wk_mMtxLocalCamera wk1 = ?L" "wk_mMtxWorldCamera wk1 = wc"
    by (rule Setup_full [OF assms(2) wh(5)])
  obtain uv dd where fill: "fillUVsArray mem p (1 / (of_nat (4 * w) - 1)) (1 / (of_nat h - 1)) (4 * w) h = (uv, dd)" by force
  let ?wk0 = "wk1\<lparr>wk_mMtxLocalCameraNorm := norm_matrix p ?L\<rparr>"
  let ?wk2 = "fold (dice_block (sp_geom p) uv dd (GetTranslation wc) (mColor (sp_mpAttribs p)) (mOpacity (sp_mpAttribs p))) [0..<w * h] ?wk0"
  have b: "simd_blocks (4 * w * h) = w * h" by simp
  have dice: "Dice_prim mem False p (wk1, cnt) = Inr (?wk2, cnt)"
    using wh(3-5) fill by (simp add: Dice_prim_def d1 b norm_matrix_def Let_def del: simd_blocks_4)
  have f0: "full_grid ?wk0" using f1 by (simp add: full_grid_def)
  have n: "4 * (w * h) \<le> 2304" using wh(5) by simp
  note full = fold_dice_full [OF f0 n, of "sp_geom p" uv dd "GetTranslation wc" "mColor (sp_mpAttribs p)" "mOpacity (sp_mpAttribs p)"]
  have v: "vertex_ok p ?L (GetTranslation wc) ?wk2 (i * (4 * w) + j) (grid_u p (4 * w) j) (grid_v p h i)
      \<and> wk_oodu ?wk2 ! (i * (4 * w) + j) = 1 / ((sp_mURange1 p - sp_mURange0 p) / (of_nat (4 * w) - 1))
      \<and> (2 \<le> h \<longrightarrow> wk_oodv ?wk2 ! (i * (4 * w) + j) = 1 / ((sp_mVRange1 p - sp_mVRange0 p) / (of_nat h - 1)))"
    if ij: "i < h" "j < 4 * w" and nb: "\<not> block_skipped p (4 * w) h i j" for i j
  proof -
    let ?k = "i * (4 * w) + j"
    have "Suc i * (4 * w) \<le> h * (4 * w)" using ij(1) by (intro mult_le_mono1) simp
    then have k: "?k < 4 * (w * h)" using ij(2) by (simp add: algebra_simps)
    have sk: "\<not> skips (sp_geom p) uv (?k div 4)" using skips_vertex [OF fill ij] nb by simp
    have w2: "2 \<le> 4 * w" using wh(3) by simp
    note val = diced_values [OF f0 n k sk, of dd "GetTranslation wc" "mColor (sp_mpAttribs p)" "mOpacity (sp_mpAttribs p)",
        unfolded uv_of_vertex [OF fill ij w2]]
    note dds = fillUVs_nth(2,3) [OF fill ij w2]
    show ?thesis using val dds d1(4) by (simp add: vertex_ok_def case_prod_beta)
  qed
  from wh s dice full d1 v show ?thesis
    by (intro exI [of _ "4 * w"] exI [of _ h] exI [of _ wk1] exI [of _ ?wk2]) simp
qed

text \<open>A patch of ten by ten pixels.\<close>

definition ex_attr :: Attributes where
  "ex_attr = fst (Attributes_Init [] [] 0)"

definition ex_small :: "Attributes surf_prim" where
  "ex_small = SimplePrim_new ex_attr Identity
     (S_PatchBilinear [Vec3 0 0 (1 / 2), Vec3 (1 / 32) 0 (1 / 2), Vec3 0 (1 / 24) (1 / 2), Vec3 (1 / 32) (1 / 24) (1 / 2)])"

definition ex_view :: "(Geometry, Attributes) prim_hider" where
  "ex_view = \<lparr>hd_mOptions = fst (Options_Init 0), hd_mMtxWorldCamera = Identity, hd_mMtxWorldProj = Identity,
     mFinalBuff = Buffer2D_new, mpBuckets = [], mSampCoordBuffs = replicate 4 no_samples,
     mParams = \<lparr>mDbgOnlyBucketAtX = -1, mDbgOnlyBucketAtY = -1, mDbgShowBuckets = False, mDbgColorCodedGrids = False, mDbgRasterizeVerts = False\<rparr>,
     hd_mpPrims = []\<rparr>"

definition ex_workgrid :: WorkGrid where
  "ex_workgrid = \<lparr>wk_mXDim = 0, wk_mYDim = 0, wk_mPointsN = 0, wk_mURange = (0, 0), wk_mVRange = (0, 0), wk_mMtxLocalWorld = Identity,
     wk_mMtxWorldCamera = Identity, wk_mMtxLocalCamera = Identity, wk_mMtxLocalCameraNorm = Identity, wk_mMtxCameraLocal = Identity,
     wk_P = replicate 2304 0, wk_N = replicate 2304 0, wk_Ng = replicate 2304 0, wk_I = replicate 2304 0,
     wk_oodu = replicate 2304 0, wk_oodv = replicate 2304 0, wk_u = replicate 2304 0, wk_v = replicate 2304 0,
     wk_Cs = replicate 2304 0, wk_Os = replicate 2304 0, wk_Ci = replicate 2304 0, wk_Oi = replicate 2304 0\<rparr>"

lemma ex_small_corners:
  "EvalP (sp_geom ex_small) 0 0 = Vec3 0 0 (1 / 2)" "EvalP (sp_geom ex_small) 1 0 = Vec3 (1 / 32) 0 (1 / 2)"
  "EvalP (sp_geom ex_small) 0 1 = Vec3 0 (1 / 24) (1 / 2)" "EvalP (sp_geom ex_small) 1 1 = Vec3 (1 / 32) (1 / 24) (1 / 2)"
  by (rule Vec3_eqI; simp add: EvalP_def Eval_dPdu_dPdv_def ex_small_def SimplePrim_new_def SimplePrim_range_def
      PatchBilinear_Eval_def Vec3_parts)+

lemma ex_small_bound: "MakeBound ex_small = \<lparr>mBox0 = Vec3 0 0 (1 / 2), mBox1 = Vec3 (1 / 32) (1 / 24) (1 / 2)\<rparr>"
proof -
  have "bound_dim (sp_geom ex_small) = 2" "sp_mURange0 ex_small = 0" "sp_mURange1 ex_small = 1" "sp_mVRange0 ex_small = 0" "sp_mVRange1 ex_small = 1"
    by (simp_all add: bound_dim_def ex_small_def SimplePrim_new_def SimplePrim_range_def)
  then show ?thesis unfolding MakeBound_def
    by (simp add: bound_of_corners ex_small_corners Expand_def Bound_Reset_def Bound_of_def DMin_def DMax_def FLT_MAX_def)
qed

lemma identity_proj: "V4_V3W1_Mul_M44 v (Matrix44_mul Identity Identity Identity) = Vec4 (x3 v) (y3 v) (z3 v) 1"
proof -
  have "Matrix44_mul Identity Identity Identity = Identity" by (rule mul_identity(1)) (simp_all add: Identity_rows)
  then show ?thesis by (simp add: V4_V3W1_Mul_M44_def Identity_rows)
qed

lemma ex_small_estimate: "RasterEstimate ex_view (MakeBound ex_small) (sp_mpTransform ex_small) = (100, Some (320, 230, 330, 240))"
proof -
  have c: "MakeCube (MakeBound ex_small) = [Vec3 0 0 (1 / 2), Vec3 (1 / 32) 0 (1 / 2), Vec3 0 (1 / 24) (1 / 2), Vec3 (1 / 32) (1 / 24) (1 / 2),
      Vec3 0 0 (1 / 2), Vec3 (1 / 32) 0 (1 / 2), Vec3 0 (1 / 24) (1 / 2), Vec3 (1 / 32) (1 / 24) (1 / 2)]"
    by (simp add: MakeCube_def ex_small_bound Let_def)
  have o: "mXRes (hd_mOptions ex_view) = 640" "mYRes (hd_mOptions ex_view) = 480" "hd_mMtxWorldProj ex_view = Identity"
    "sp_mpTransform ex_small = Identity" "Bound_IsValid (MakeBound ex_small)"
    by (simp_all add: ex_view_def Options_Init_def cmdProjection_def ex_small_def SimplePrim_new_def SimplePrim_range_def
        ex_small_bound [unfolded ex_small_def SimplePrim_new_def SimplePrim_range_def] Bound_IsValid_def)
  have "makeRasterBound ex_view (MakeBound ex_small) (sp_mpTransform ex_small) = (True, Some (320, 230, 330, 240))"
    unfolding makeRasterBound_def o Let_def c
    by (simp add: identity_proj raster_init_def clip_code_def winX_def winY_def DMin_def DMax_def FLT_MAX_def)
  then show ?thesis by (simp add: RasterEstimate_def o)
qed

definition ex_diced :: "Attributes surf_prim" where
  "ex_diced = ex_small\<lparr>sp_mDiceGridWd := 12, sp_mDiceGridHe := 10\<rparr>"

lemma ex_small_diced: "CheckForSplit MakeBound ex_view ex_small = (CHECKSPLITRES_DICE, Some (320, 230, 330, 240), ex_diced)"
proof -
  have "\<lceil>sqrt 100\<rceil> = (10 :: int)" using real_sqrt_unique [of 10 100] by simp
  then show ?thesis
    by (simp add: CheckForSplit_def ex_small_estimate RI_EPSILON_def ex_diced_def DMT_SIMD_PADSIZE_def DMT_SIMD_FLEN_def)
qed

theorem diced_vertices_witness:
  "\<exists>wk1 wk2. WorkGrid_Setup 12 10 (0, 1) (0, 1) (sp_mpTransform ex_diced) Identity ex_workgrid = Inr wk1
     \<and> Dice_prim (\<lambda>_. 7) False ex_diced (wk1, 0) = Inr (wk2, 0)
     \<and> wk_u wk2 ! 41 = 5 / 11 \<and> wk_v wk2 ! 41 = 1 / 3"
proof -
  have full: "full_grid ex_workgrid" by (simp add: full_grid_def ex_workgrid_def)
  obtain wd he wk1 wk2 where d: "sp_mDiceGridWd ex_diced = int wd" "sp_mDiceGridHe ex_diced = int he"
    and r: "WorkGrid_Setup wd he (0, 1) (0, 1) (sp_mpTransform ex_diced) Identity ex_workgrid = Inr wk1"
      "Dice_prim (\<lambda>_. 7) False ex_diced (wk1, 0) = Inr (wk2, 0)"
    and v: "\<And>i j. i < he \<Longrightarrow> j < wd \<Longrightarrow> \<not> block_skipped ex_diced wd he i j \<Longrightarrow>
      vertex_ok ex_diced (Matrix44_mul Identity (sp_mpTransform ex_diced) Identity) (GetTranslation Identity) wk2 (i * wd + j)
        (grid_u ex_diced wd j) (grid_v ex_diced he i)"
    using diced_vertices [OF ex_small_diced full, of "(0, 1)" "(0, 1)" Identity "\<lambda>_. 7" 0] by blast
  have wh: "wd = 12" "he = 10" using d by (simp_all add: ex_diced_def)
  have "x3 (EvalP (sp_geom ex_diced) (grid_u ex_diced 12 (4 * (5 div 4) + 0)) (grid_v ex_diced 10 3)) \<noteq> 0"
    by (simp add: ex_diced_def ex_small_def SimplePrim_new_def SimplePrim_range_def grid_u_def EvalP_def Eval_dPdu_dPdv_def
        PatchBilinear_Eval_def Vec3_parts DMix_def)
  then have "\<not> block_skipped ex_diced 12 10 3 5" unfolding block_skipped_def by (meson zero_less_numeral)
  from v [of 3 5, unfolded wh, OF _ _ this] have "wk_u wk2 ! 41 = grid_u ex_diced 12 5" "wk_v wk2 ! 41 = grid_v ex_diced 10 3"
    by (simp_all add: vertex_ok_def case_prod_beta)
  then have "wk_u wk2 ! 41 = 5 / 11" "wk_v wk2 ! 41 = 1 / 3"
    by (simp_all add: grid_u_def grid_v_def DMix_def ex_diced_def ex_small_def SimplePrim_new_def SimplePrim_range_def)
  with r show ?thesis unfolding wh by blast
qed

section \<open>Skipped blocks\<close>

text \<open>
  A primitive all of whose points have x = 0 is not diced at all: the work grid keeps every point
  and every normal of the primitive diced before, and these are what \<open>Bust\<close> draws.
\<close>

theorem plane_not_diced:
  assumes "\<And>u v. x3 (EvalP (sp_geom p) u v) = 0" and "Dice_prim mem cc p (wk, cnt) = Inr (wk2, cnt2)"
  shows "wk_P wk2 = wk_P wk \<and> wk_N wk2 = wk_N wk \<and> wk_Cs wk2 = wk_Cs wk"
proof -
  have skip: "dice_block (sp_geom p) uv dd cam col opa b g = g" for uv dd cam col opa b g
    using assms(1) by (intro dice_block_skip) (simp add: skips_def)
  have "fold (dice_block (sp_geom p) uv dd cam col opa) bs g = g" for uv dd cam col opa bs g
    by (induction bs) (simp_all add: skip)
  then show ?thesis using assms(2) by (auto simp: Dice_prim_def Let_def split: if_splits prod.splits)
qed

end
