(* ===== verification/Frame.thy ===== *)
theory Frame
  imports DiceProps
begin

text \<open>
  A frame from \<open>WorldBegin\<close> to the image: \<open>Framework::WorldEnd\<close> simplifies the complex primitives,
  splits them into the buckets and renders the buckets, each task with its own work grid. The
  composition of \<open>Primitives\<close>, \<open>SplitLoop\<close>, \<open>Dice\<close>, \<open>HiderFilter\<close> and \<open>Raster\<close>.
\<close>

section \<open>Rendering the world\<close>

text \<open>
  The samples of a bucket: the coordinates its buffer was initialised with, \<open>cmem\<close> being the part of
  the random generator that is never written.
\<close>

definition bucket_sampling ::
  "(nat \<Rightarrow> U32) \<Rightarrow> ('a, 'p) Hider \<Rightarrow> ('a, 'p) HiderBucket \<Rightarrow> (nat \<times> HiderSampleCoords list) res" where
  "bucket_sampling cmem hr bk = (case hb_mpSampCoordsBuff bk of
       None \<Rightarrow> Inl null_deref
     | Some k \<Rightarrow>
         let sc = mSampCoordBuffs hr ! k
         in Inr (GetSampsPerPixel sc, fst (Init_coords cmem (sc_mWd sc) (sc_mHe sc) (sc_mSubPixelDimLog2 sc))))"

text \<open>
  What a task is given that the hider does not hold: uninitialised memory, the shader machine
  (\<open>Displace\<close> and \<open>Shade\<close> of the grid, which may throw), and the fresh work grid with the counter of the palette.
\<close>

record task_env =
  te_pixmem :: "nat \<Rightarrow> real"
  te_fltmem :: "nat \<Rightarrow> real"
  te_cmem :: "nat \<Rightarrow> U32"
  te_run_shaders :: "Attributes \<Rightarrow> WorkGrid \<Rightarrow> WorkGrid res"
  te_grid :: "nat \<Rightarrow> WorkGrid \<times> nat"

type_synonym scene_hider = "(Geometry, Attributes) prim_hider"

definition task_grids :: "task_env \<Rightarrow> scene_hider \<Rightarrow> nat \<Rightarrow> (WorkGridV list \<times> nat) res" where
  "task_grids te hr i =
     bucket_grids (te_fltmem te) (mDbgColorCodedGrids (mParams hr)) (te_run_shaders te) (hd_mMtxWorldCamera hr)
       (hb_mpPrims (mpBuckets hr ! i)) (te_grid te i)"

text \<open>\<open>Framework::RenderBucket_s\<close> with the colours it computes.\<close>

definition RenderBucket_task :: "task_env \<Rightarrow> nat \<Rightarrow> scene_hider \<Rightarrow> unit res \<times> scene_hider" where
  "RenderBucket_task te i hr =
     (if i < length (mpBuckets hr) then
        let bk = mpBuckets hr ! i; rv = mDbgRasterizeVerts (mParams hr) in
        case res_bind (bucket_sampling (te_cmem te) hr bk) (\<lambda>s. res_bind (task_grids te hr i) (\<lambda>g. Inr (s, g))) of
          Inl e \<Rightarrow> (Inl e, hr)
        | Inr ((spp, coords), (grids, _)) \<Rightarrow>
            RenderBucket_s (te_pixmem te)
              (pixel_colour rv spp (bucket_samples rv (mMtxCamProj (hd_mOptions hr)) (b2_mWd (mFinalBuff hr)) (b2_mHe (mFinalBuff hr))
                 spp coords bk grids)) i hr
      else (Inl no_buffer, hr))"

fun render_tasks :: "task_env \<Rightarrow> nat list \<Rightarrow> scene_hider \<Rightarrow> unit res \<times> scene_hider" where
  "render_tasks te [] hr = (Inr (), hr)"
| "render_tasks te (i # ts) hr = stx_bind (RenderBucket_task te i) (\<lambda>_. render_tasks te ts) hr"

text \<open>The primitives left after \<open>worldEnd_simplify\<close>.\<close>

definition simple_prims :: "hider_prim option list \<Rightarrow> Attributes surf_prim option list" where
  "simple_prims = map (\<lambda>x. case x of Some (HSimple p) \<Rightarrow> Some p | _ \<Rightarrow> None)"

definition worldEnd_render ::
  "task_env \<Rightarrow> SymbolList \<Rightarrow> hider_prim list \<Rightarrow> nat list \<Rightarrow> scene_hider \<Rightarrow> unit res \<times> scene_hider" where
  "worldEnd_render te syms prims ts hr =
     (case worldEnd_simplify syms prims of
        (Inl e, _) \<Rightarrow> (Inl e, hr)
      | (Inr _, ps) \<Rightarrow>
          stx_bind (worldEnd_splitAndAddToBuckets MakeBound) (\<lambda>_. render_tasks te ts) (hr\<lparr>hd_mpPrims := simple_prims ps\<rparr>))"

section \<open>Every bucket has samples\<close>

text \<open>
  The buckets of an image have at most four sizes, one for each of the four buffers: a fresh hider
  never runs out of them.
\<close>

lemma find_index_Some: "find_index f xs = Some i \<Longrightarrow> i < length xs \<and> f (xs ! i)"
  by (induction xs arbitrary: i) (auto split: if_splits)

lemma find_index_None: "find_index f xs = None \<longleftrightarrow> (\<forall>x \<in> set xs. \<not> f x)"
  by (induction xs) auto

definition sc_size :: "HiderSampleCoordsBuffer \<Rightarrow> nat \<times> nat" where
  "sc_size sc = (sc_mWd sc, sc_mHe sc)"

text \<open>Initialised buffers have different sizes, all from \<open>S\<close>, and the number \<open>l\<close> of samples.\<close>

definition bufs_ok :: "(nat \<times> nat) set \<Rightarrow> nat \<Rightarrow> HiderSampleCoordsBuffer list \<Rightarrow> bool" where
  "bufs_ok S l bufs \<longleftrightarrow> length bufs = 4 \<and> inj_on (\<lambda>k. sc_size (bufs ! k)) {k. k < 4 \<and> sc_IsInitialized (bufs ! k)}
     \<and> (\<forall>k < 4. sc_IsInitialized (bufs ! k) \<longrightarrow> sc_size (bufs ! k) \<in> S \<and> sc_mSubPixelDimLog2 (bufs ! k) = l)"

lemma free_buffer:
  assumes "bufs_ok S l bufs" and "(wd, he) \<in> S" and "finite S" and "card S \<le> 4"
    and "\<And>k. k < 4 \<Longrightarrow> sc_IsInitialized (bufs ! k) \<Longrightarrow> sc_size (bufs ! k) \<noteq> (wd, he)"
  shows "\<exists>j < 4. \<not> sc_IsInitialized (bufs ! j)"
proof (rule ccontr)
  let ?I = "{k. k < 4 \<and> sc_IsInitialized (bufs ! k)}" and ?f = "\<lambda>k. sc_size (bufs ! k)"
  assume "\<not> (\<exists>j < 4. \<not> sc_IsInitialized (bufs ! j))"
  then have four: "?I = {..<4}" by blast
  have inj: "inj_on ?f ?I" using assms(1) by (simp add: bufs_ok_def)
  have img: "?f ` ?I \<subseteq> S" using assms(1) unfolding bufs_ok_def by blast
  have "(wd, he) \<notin> ?f ` ?I"
  proof
    assume "(wd, he) \<in> ?f ` ?I"
    then obtain k where "k \<in> ?I" "(wd, he) = ?f k" by (rule imageE)
    then show False using assms(5) [of k] by simp
  qed
  with img have sub: "?f ` ?I \<subseteq> S - {(wd, he)}" by blast
  have "card ?I = card (?f ` ?I)" by (rule card_image [OF inj, symmetric])
  also have "\<dots> \<le> card (S - {(wd, he)})" using assms(3) by (intro card_mono [OF _ sub]) simp
  also have "\<dots> < card S" by (rule card_Diff1_less [OF assms(3,2)])
  finally show False using assms(4) unfolding four by simp
qed

lemma findOrAdd_ok:
  assumes "bufs_ok S l bufs" and "(wd, he) \<in> S" and "finite S" and "card S \<le> 4"
  shows "\<exists>k bufs'. findOrAddSampCoordBuff wd he l bufs = (Some k, bufs') \<and> k < 4 \<and> bufs_ok S l bufs' \<and> sc_IsInitialized (bufs' ! k)
    \<and> (\<forall>j < 4. sc_IsInitialized (bufs ! j) \<longrightarrow> bufs' ! j = bufs ! j) \<and> sc_size (bufs' ! k) = (wd, he)"
proof (cases "find_index (\<lambda>sc. sc_IsInitialized sc \<and> sc_mWd sc = wd \<and> sc_mHe sc = he) bufs")
  case (Some k)
  then have k: "k < length bufs" "sc_IsInitialized (bufs ! k)" "sc_size (bufs ! k) = (wd, he)"
    using find_index_Some [OF Some] by (simp_all add: sc_size_def)
  have "findOrAddSampCoordBuff wd he l bufs = (Some k, bufs)" using Some by (simp add: findOrAddSampCoordBuff_def)
  moreover have "length bufs = 4" using assms(1) by (simp add: bufs_ok_def)
  ultimately show ?thesis using k assms(1) by (intro exI [of _ k] exI [of _ bufs]) simp
next
  case None
  let ?I = "{k. k < 4 \<and> sc_IsInitialized (bufs ! k)}" and ?f = "\<lambda>k. sc_size (bufs ! k)"
  have len: "length bufs = 4" and inj: "inj_on ?f ?I"
    and ok: "\<And>k. k < 4 \<Longrightarrow> sc_IsInitialized (bufs ! k) \<Longrightarrow> sc_size (bufs ! k) \<in> S \<and> sc_mSubPixelDimLog2 (bufs ! k) = l"
    using assms(1) unfolding bufs_ok_def by blast+
  have ne: "?f k \<noteq> (wd, he)" if "k < 4" "sc_IsInitialized (bufs ! k)" for k
    using None [unfolded find_index_None, rule_format, of "bufs ! k"] that len by (simp add: sc_size_def)
  have new: "(wd, he) \<notin> ?f ` ?I"
  proof
    assume "(wd, he) \<in> ?f ` ?I"
    then obtain k where "k \<in> ?I" "(wd, he) = ?f k" by (rule imageE)
    then show False using ne [of k] by simp
  qed
  have "\<exists>j < 4. \<not> sc_IsInitialized (bufs ! j)" by (rule free_buffer [OF assms ne])
  then obtain j where j: "j < 4" "\<not> sc_IsInitialized (bufs ! j)" by blast
  then have "find_index (\<lambda>sc. \<not> sc_IsInitialized sc) bufs \<noteq> None" using len nth_mem [of j bufs] unfolding find_index_None by metis
  then obtain i where i: "find_index (\<lambda>sc. \<not> sc_IsInitialized sc) bufs = Some i" by auto
  note fi = find_index_Some [OF i, unfolded len]
  let ?b = "bufs[i := SampCoords_Init wd he l]"
  have bi: "?b ! i = SampCoords_Init wd he l" and bk: "\<And>k. k \<noteq> i \<Longrightarrow> ?b ! k = bufs ! k" using fi len by simp_all
  have init: "sc_IsInitialized (?b ! i)" "sc_size (?b ! i) = (wd, he)" "sc_mSubPixelDimLog2 (?b ! i) = l"
    unfolding bi by (simp_all add: SampCoords_Init_def sc_size_def)
  have old: "?b ! k = bufs ! k" if "sc_IsInitialized (bufs ! k)" for k using bk [of k] fi that by (cases "k = i") simp_all
  have I: "{k. k < 4 \<and> sc_IsInitialized (?b ! k)} = insert i ?I"
  proof (intro set_eqI iffI)
    fix k
    assume "k \<in> {k. k < 4 \<and> sc_IsInitialized (?b ! k)}"
    then show "k \<in> insert i ?I" using bk [of k] by (cases "k = i") simp_all
  next
    fix k
    assume "k \<in> insert i ?I"
    then show "k \<in> {k. k < 4 \<and> sc_IsInitialized (?b ! k)}" using init(1) fi old [of k] by (cases "k = i") simp_all
  qed
  have same: "sc_size (?b ! k) = ?f k" if "k \<in> ?I" for k using that old [of k] by simp
  have "inj_on (\<lambda>k. sc_size (?b ! k)) ?I" using inj same inj_on_cong [of ?I ?f "\<lambda>k. sc_size (?b ! k)"] by simp
  moreover have "sc_size (?b ! i) \<notin> (\<lambda>k. sc_size (?b ! k)) ` ?I" using new init(2) image_cong [OF refl same, of ?I] by simp
  ultimately have inj': "inj_on (\<lambda>k. sc_size (?b ! k)) (insert i ?I)" using fi by (simp add: inj_on_insert)
  have fine: "sc_size (?b ! k) \<in> S \<and> sc_mSubPixelDimLog2 (?b ! k) = l" if "k < 4" "sc_IsInitialized (?b ! k)" for k
    using that bk [of k] init(2,3) assms(2) ok [of k] by (cases "k = i") simp_all
  have "bufs_ok S l ?b" unfolding bufs_ok_def I using inj' fine len by simp
  moreover have "findOrAddSampCoordBuff wd he l bufs = (Some i, ?b)" using None i by (simp add: findOrAddSampCoordBuff_def)
  ultimately show ?thesis using fi init old by blast
qed

text \<open>Every bucket has a buffer of its own size.\<close>

definition buckets_ok :: "(nat \<times> nat) set \<Rightarrow> nat \<Rightarrow> ('a, 'p) Hider \<Rightarrow> bool" where
  "buckets_ok S l hr \<longleftrightarrow> bufs_ok S l (mSampCoordBuffs hr)
     \<and> (\<forall>bk \<in> set (mpBuckets hr). \<exists>k < 4. hb_mpSampCoordsBuff bk = Some k \<and> sc_IsInitialized (mSampCoordBuffs hr ! k)
          \<and> sc_size (mSampCoordBuffs hr ! k) = (nat (hb_mX2 bk - hb_mX1 bk), nat (hb_mY2 bk - hb_mY1 bk)))"

definition cell_size :: "Options \<Rightarrow> int \<times> int \<Rightarrow> nat \<times> nat" where
  "cell_size opt = (\<lambda>(x, y). (nat (min (x + 128) (mXRes opt) - x), nat (min (y + 128) (mYRes opt) - y)))"

lemma add_bucket_sampled:
  assumes "buckets_ok S l hr" and "mDbgOnlyBucketAtX (mParams hr) = -1" and "cell_size opt p \<in> S" and "finite S" and "card S \<le> 4"
  shows "buckets_ok S l (add_bucket opt l p hr) \<and> mParams (add_bucket opt l p hr) = mParams hr
    \<and> hd_mOptions (add_bucket opt l p hr) = hd_mOptions hr"
proof -
  obtain x y where p: "p = (x, y)" by force
  let ?xb = "min (x + 128) (mXRes opt)" and ?yb = "min (y + 128) (mYRes opt)" and ?B = "mSampCoordBuffs hr"
  have sz: "(nat (?xb - x), nat (?yb - y)) \<in> S" using assms(3) by (simp add: p cell_size_def)
  have bo: "bufs_ok S l ?B" using assms(1) by (simp add: buckets_ok_def)
  obtain k bufs where f: "findOrAddSampCoordBuff (nat (?xb - x)) (nat (?yb - y)) l ?B = (Some k, bufs)" "k < 4" "bufs_ok S l bufs"
    "sc_IsInitialized (bufs ! k)" and old: "\<forall>j < 4. sc_IsInitialized (?B ! j) \<longrightarrow> bufs ! j = ?B ! j"
    and s: "sc_size (bufs ! k) = (nat (?xb - x), nat (?yb - y))"
    using findOrAdd_ok [OF bo sz assms(4,5)] by blast
  let ?bk = "HiderBucket_new x y ?xb ?yb (Some k)"
  have a: "add_bucket opt l p hr = hr\<lparr>mSampCoordBuffs := bufs, mpBuckets := mpBuckets hr @ [?bk]\<rparr>"
    using assms(2) f(1) by (simp add: p add_bucket_def bucket_wanted_def Let_def)
  have "\<exists>k < 4. hb_mpSampCoordsBuff bk = Some k \<and> sc_IsInitialized (bufs ! k)
      \<and> sc_size (bufs ! k) = (nat (hb_mX2 bk - hb_mX1 bk), nat (hb_mY2 bk - hb_mY1 bk))" if bk: "bk \<in> set (mpBuckets hr @ [?bk])" for bk
  proof (cases "bk = ?bk")
    case True
    then show ?thesis using f(2,4) s by (simp add: HiderBucket_new_def)
  next
    case False
    then have "bk \<in> set (mpBuckets hr)" using bk by simp
    with assms(1) obtain j where "j < 4" "hb_mpSampCoordsBuff bk = Some j" "sc_IsInitialized (?B ! j)"
      "sc_size (?B ! j) = (nat (hb_mX2 bk - hb_mX1 bk), nat (hb_mY2 bk - hb_mY1 bk))" unfolding buckets_ok_def by blast
    then show ?thesis using old by auto
  qed
  then show ?thesis using f(3) a by (simp add: buckets_ok_def)
qed

lemma fold_add_sampled:
  assumes "\<forall>p \<in> set g. cell_size opt p \<in> S" and "finite S" and "card S \<le> 4"
  shows "buckets_ok S l hr \<Longrightarrow> mDbgOnlyBucketAtX (mParams hr) = -1 \<Longrightarrow> buckets_ok S l (fold (add_bucket opt l) g hr)
    \<and> mParams (fold (add_bucket opt l) g hr) = mParams hr \<and> hd_mOptions (fold (add_bucket opt l) g hr) = hd_mOptions hr"
  using assms(1)
proof (induction g arbitrary: hr)
  case Nil
  then show ?case by simp
next
  case (Cons p g)
  from add_bucket_sampled [OF Cons.prems(1,2) _ assms(2,3), of opt p] Cons show ?case by simp
qed

lemma cell_sizes:
  assumes "p \<in> set (bucket_grid opt)"
  shows "cell_size opt p \<in> {128, nat (mXRes opt mod 128)} \<times> {128, nat (mYRes opt mod 128)}"
proof -
  have "nat (min (a + 128) n - a) \<in> {128, nat (n mod 128)}" if "a \<in> set (bucket_starts 0 n)" for a n
  proof -
    have a: "a < n" "a mod 128 = 0" using that by (simp_all add: mem_bucket_starts)
    show ?thesis
    proof (cases "a + 128 \<le> n")
      case False
      have "n mod 128 = (n - a) mod 128" using a(2) by (metis diff_zero mod_diff_right_eq)
      then have "n - a = n mod 128" using a(1) False by simp
      then show ?thesis using False by simp
    qed simp
  qed
  note s = this
  obtain x y where p: "p = (x, y)" by force
  then have "x \<in> set (bucket_starts 0 (mXRes opt))" "y \<in> set (bucket_starts 0 (mYRes opt))" using assms by (simp_all add: mem_bucket_grid)
  from s [OF this(1)] s [OF this(2)] show ?thesis unfolding p cell_size_def prod.case by (rule SigmaI)
qed

definition fresh_hider :: "('a, 'p) Hider \<Rightarrow> bool" where
  "fresh_hider hr \<longleftrightarrow> idle_hider hr \<and> mSampCoordBuffs hr = replicate 4 no_samples"

definition world_sizes :: "Options \<Rightarrow> (nat \<times> nat) set" where
  "world_sizes opt = {128, nat (mXRes opt mod 128)} \<times> {128, nat (mYRes opt mod 128)}"

definition world_subLog :: "Options \<Rightarrow> nat" where
  "world_subLog opt = findClosestSquareAreaLog2Dim (mPixSamplesX opt) (mPixSamplesY opt)"

lemma world_sizes_card: "finite (world_sizes opt)" "card (world_sizes opt) \<le> 4"
proof -
  have two: "card {a, b} \<le> 2" for a b :: nat by (cases "a = b") simp_all
  show "finite (world_sizes opt)" by (simp add: world_sizes_def)
  have "card (world_sizes opt) \<le> 2 * 2" unfolding world_sizes_def card_cartesian_product by (intro mult_le_mono two)
  then show "card (world_sizes opt) \<le> 4" by simp
qed

lemma WorldBegin_sampled:
  assumes "fresh_hider hr" and "Hider_WorldBegin mem opt m hr = (Inr (), hr1)"
  shows "buckets_ok (world_sizes opt) (world_subLog opt) hr1" and "mParams hr1 = mParams hr" and "hd_mOptions hr1 = opt"
proof -
  obtain fb where "hr1 = fold (add_bucket opt (world_subLog opt)) (bucket_grid opt) (hr\<lparr>hd_mOptions := opt, hd_mMtxWorldCamera := m,
      hd_mMtxWorldProj := Matrix44_mul Identity m (mMtxCamProj opt), mFinalBuff := fb\<rparr>)" (is "_ = fold _ _ ?h")
    using assms(2) by (auto simp: Hider_WorldBegin_def world_subLog_def Let_def split: prod.splits sum.splits)
  moreover have e: "{k. k < 4 \<and> sc_IsInitialized (replicate 4 no_samples ! k)} = {}" by (auto simp: no_samples_def)
  have "bufs_ok (world_sizes opt) (world_subLog opt) (replicate 4 no_samples)"
    unfolding bufs_ok_def e by (auto simp: no_samples_def)
  then have "buckets_ok (world_sizes opt) (world_subLog opt) ?h"
    using assms(1) by (simp add: fresh_hider_def idle_hider_def buckets_ok_def)
  moreover have "mDbgOnlyBucketAtX (mParams ?h) = -1" using assms(1) by (simp add: fresh_hider_def idle_hider_def)
  moreover have "\<forall>p \<in> set (bucket_grid opt). cell_size opt p \<in> world_sizes opt"
    using cell_sizes unfolding world_sizes_def by blast
  ultimately have "buckets_ok (world_sizes opt) (world_subLog opt) hr1 \<and> mParams hr1 = mParams ?h \<and> hd_mOptions hr1 = hd_mOptions ?h"
    using fold_add_sampled [OF _ world_sizes_card] by metis
  then show "buckets_ok (world_sizes opt) (world_subLog opt) hr1" "mParams hr1 = mParams hr" "hd_mOptions hr1 = opt" by simp_all
qed

section \<open>What splitting and rendering leave alone\<close>

text \<open>The parts of the hider that decide the grids and the samples of its buckets.\<close>

definition same_scene :: "scene_hider \<Rightarrow> scene_hider \<Rightarrow> bool" where
  "same_scene hr' hr \<longleftrightarrow> mParams hr' = mParams hr \<and> hd_mOptions hr' = hd_mOptions hr \<and> hd_mMtxWorldCamera hr' = hd_mMtxWorldCamera hr
     \<and> mSampCoordBuffs hr' = mSampCoordBuffs hr
     \<and> b2_mWd (mFinalBuff hr') = b2_mWd (mFinalBuff hr) \<and> b2_mHe (mFinalBuff hr') = b2_mHe (mFinalBuff hr)
     \<and> map (\<lambda>bk. (rect bk, hb_mpSampCoordsBuff bk, hb_mpPrims bk)) (mpBuckets hr')
         = map (\<lambda>bk. (rect bk, hb_mpSampCoordsBuff bk, hb_mpPrims bk)) (mpBuckets hr)"

lemma same_scene_refl [simp]: "same_scene hr hr"
  by (simp add: same_scene_def)

lemma same_scene_trans: "same_scene a b \<Longrightarrow> same_scene b c \<Longrightarrow> same_scene a c"
  by (simp add: same_scene_def)

lemma same_scene_bucket:
  assumes "same_scene hr' hr" and "i < length (mpBuckets hr)"
  shows "length (mpBuckets hr') = length (mpBuckets hr)" and "rect (mpBuckets hr' ! i) = rect (mpBuckets hr ! i)"
    and "hb_mpSampCoordsBuff (mpBuckets hr' ! i) = hb_mpSampCoordsBuff (mpBuckets hr ! i)"
    and "hb_mpPrims (mpBuckets hr' ! i) = hb_mpPrims (mpBuckets hr ! i)"
proof -
  let ?f = "\<lambda>bk. (rect bk, hb_mpSampCoordsBuff bk, hb_mpPrims bk)"
  have m: "map ?f (mpBuckets hr') = map ?f (mpBuckets hr)" using assms(1) by (simp add: same_scene_def)
  then show len: "length (mpBuckets hr') = length (mpBuckets hr)" by (rule map_eq_imp_length_eq)
  have "?f (mpBuckets hr' ! i) = ?f (mpBuckets hr ! i)"
    using nth_map [of i "mpBuckets hr'" ?f] nth_map [of i "mpBuckets hr" ?f] assms(2) len m by simp
  then show "rect (mpBuckets hr' ! i) = rect (mpBuckets hr ! i)" "hb_mpSampCoordsBuff (mpBuckets hr' ! i) = hb_mpSampCoordsBuff (mpBuckets hr ! i)"
    "hb_mpPrims (mpBuckets hr' ! i) = hb_mpPrims (mpBuckets hr ! i)" by simp_all
qed

text \<open>A bucket changes in its buffer only.\<close>

definition buff_only :: "('a, 'p) HiderBucket \<Rightarrow> ('a, 'p) HiderBucket \<Rightarrow> bool" where
  "buff_only bk' bk \<longleftrightarrow> (\<exists>c. bk' = bk\<lparr>hb_mCBuff := c\<rparr>)"

lemma buff_only_trans: "buff_only a b \<Longrightarrow> buff_only b c \<Longrightarrow> buff_only a c"
  by (auto simp: buff_only_def)

lemma buff_only_facts:
  "buff_only bk' bk \<Longrightarrow> rect bk' = rect bk \<and> hb_mpSampCoordsBuff bk' = hb_mpSampCoordsBuff bk \<and> hb_mpPrims bk' = hb_mpPrims bk"
  by (auto simp: buff_only_def rect_def)

lemma BeginRender_buff: "BeginRender mem bk = (r, bk') \<Longrightarrow> buff_only bk' bk"
  by (auto simp: BeginRender_def buff_only_def Let_def split: prod.splits)

lemma hide_bucket_buff: "hide_bucket col bk = (r, bk') \<Longrightarrow> buff_only bk' bk"
  by (auto simp: hide_bucket_def buff_only_def Let_def split: prod.splits)

lemma CopyRect_dims: "CopyRect nc x y from b = (r, b') \<Longrightarrow> b2_mWd b' = b2_mWd b \<and> b2_mHe b' = b2_mHe b"
  by (auto simp: CopyRect_def Let_def split: prod.splits if_splits option.splits sum.splits)

lemma EndRender_buff:
  assumes "EndRender bk fb = (r, bk', fb')"
  shows "buff_only bk' bk" and "b2_mWd fb' = b2_mWd fb" and "b2_mHe fb' = b2_mHe fb"
proof -
  obtain r0 b0 where c: "CopyRect NOUTCOLS (hb_mX1 bk) (hb_mY1 bk) (hb_mCBuff bk) fb = (r0, b0)" by force
  have same: "buff_only bk bk" unfolding buff_only_def by (rule exI [of _ "hb_mCBuff bk"]) simp
  show "buff_only bk' bk" using assms same unfolding EndRender_def c by (cases r0) (auto simp: buff_only_def)
  show "b2_mWd fb' = b2_mWd fb" "b2_mHe fb' = b2_mHe fb"
    using assms CopyRect_dims [OF c] unfolding EndRender_def c by (cases r0; simp)+
qed

lemma scene_of_buckets:
  assumes "buff_only bk' (mpBuckets hr ! i)" and "b2_mWd fb = b2_mWd (mFinalBuff hr)" and "b2_mHe fb = b2_mHe (mFinalBuff hr)"
  shows "same_scene (hr\<lparr>mpBuckets := (mpBuckets hr)[i := bk'], mFinalBuff := fb\<rparr>) hr"
proof (cases "i < length (mpBuckets hr)")
  case True
  let ?f = "\<lambda>bk. (rect bk, hb_mpSampCoordsBuff bk, hb_mpPrims bk)"
  have "?f bk' = ?f (mpBuckets hr ! i)" using buff_only_facts [OF assms(1)] by simp
  then have "map ?f ((mpBuckets hr)[i := bk']) = map ?f (mpBuckets hr)" using True by (simp add: map_update list_update_same_conv)
  then show ?thesis using assms(2,3) by (simp add: same_scene_def)
next
  case False
  then have "(mpBuckets hr)[i := bk'] = mpBuckets hr" by (simp add: list_update_beyond)
  then show ?thesis using assms(2,3) by (simp add: same_scene_def)
qed

lemma RenderBucket_s_scene:
  assumes "RenderBucket_s mem col i hr = (r, hr')"
  shows "same_scene hr' hr"
proof (cases "i < length (mpBuckets hr)")
  case True
  obtain r1 b1 where st: "stx_bind (BeginRender mem) (\<lambda>_. hide_bucket col) (mpBuckets hr ! i) = (r1, b1)" by force
  have b1: "buff_only b1 (mpBuckets hr ! i)"
  proof -
    obtain r0 b0 where b: "BeginRender mem (mpBuckets hr ! i) = (r0, b0)" by force
    show ?thesis
    proof (cases r0)
      case (Inl e)
      then show ?thesis using st b BeginRender_buff [OF b] by simp
    next
      case (Inr a)
      then have "hide_bucket col b0 = (r1, b1)" using st b by simp
      from buff_only_trans [OF hide_bucket_buff [OF this] BeginRender_buff [OF b]] show ?thesis .
    qed
  qed
  show ?thesis
  proof (cases r1)
    case (Inl e)
    then have "hr' = hr\<lparr>mpBuckets := (mpBuckets hr)[i := b1]\<rparr>" using assms True st by (auto simp: RenderBucket_s_def)
    then show ?thesis using scene_of_buckets [OF b1 refl refl] by (simp add: same_scene_def)
  next
    case (Inr a)
    obtain r2 b2 fb where en: "EndRender b1 (mFinalBuff hr) = (r2, b2, fb)" using prod_cases3 by blast
    then have "hr' = hr\<lparr>mpBuckets := (mpBuckets hr)[i := b2], mFinalBuff := fb\<rparr>"
      using assms True st Inr by (simp add: RenderBucket_s_def)
    then show ?thesis using scene_of_buckets [OF buff_only_trans [OF EndRender_buff(1) [OF en] b1] EndRender_buff(2,3) [OF en]] by simp
  qed
next
  case False
  then show ?thesis using assms by (simp add: RenderBucket_s_def)
qed

text \<open>The samples of a bucket depend on its place only.\<close>

lemma bucket_samples_rect:
  assumes "rect bk' = rect bk"
  shows "bucket_samples rv m sw sh spp coords bk' = bucket_samples rv m sw sh spp coords bk"
proof -
  have r: "hb_mX1 bk' = hb_mX1 bk" "hb_mY1 bk' = hb_mY1 bk" "GetWd bk' = GetWd bk" "GetHe bk' = GetHe bk"
    using assms by (simp_all add: rect_def GetWd_def GetHe_def)
  have "buckPos m sw sh bk' = buckPos m sw sh bk" by (intro ext) (simp add: buckPos_def r)
  then have "add_vertex m sw sh spp bk' = add_vertex m sw sh spp bk" "add_micropoly m sw sh spp coords bk' = add_micropoly m sw sh spp coords bk"
    by (intro ext; simp add: add_micropoly_def add_vertex_def r Let_def)+
  then have "Bust rv m sw sh spp coords bk' = Bust rv m sw sh spp coords bk" by (intro ext) (simp add: Bust_def)
  then show ?thesis by (intro ext) (simp add: bucket_samples_def r)
qed

section \<open>Dicing succeeds\<close>

lemma Dice_prim_full:
  assumes "full_grid wk" and "wk_mXDim wk = 4 * w" and "wk_mYDim wk = h" and "wk_mPointsN wk = 4 * w * h" and "1 \<le> w" and "4 * w * h \<le> 2304"
  shows "\<exists>wk' cnt'. Dice_prim mem cc p (wk, cnt) = Inr (wk', cnt') \<and> full_grid wk'"
proof -
  have b: "simd_blocks (4 * w * h) = w * h" by simp
  have f0: "full_grid (wk\<lparr>wk_mMtxLocalCameraNorm := m\<rparr>)" for m using assms(1) by (simp add: full_grid_def)
  have n: "4 * (w * h) \<le> 2304" using assms(6) by simp
  note full = fold_dice_full(1) [OF f0 n]
  obtain uv dd where fill: "fillUVsArray mem p (1 / (of_nat (4 * w) - 1)) (1 / (of_nat h - 1)) (4 * w) h = (uv, dd)" by force
  show ?thesis using assms(2-6) fill full by (simp add: Dice_prim_def b Let_def del: simd_blocks_4)
qed

text \<open>Shading that does not throw and keeps the sizes of the arrays.\<close>

definition shades :: "WorkGrid res \<Rightarrow> bool" where
  "shades r \<longleftrightarrow> (\<exists>k. r = Inr k \<and> full_grid k)"

lemma bucket_grids_ok:
  assumes "\<And>a k. full_grid k \<Longrightarrow> shades (run_shaders a k)"
  shows "full_grid (fst wkc) \<Longrightarrow> \<forall>p \<in> set ps. grid_fits p \<Longrightarrow> \<exists>gs cnt. bucket_grids mem cc run_shaders m ps wkc = Inr (gs, cnt)"
proof (induction ps arbitrary: wkc)
  case Nil
  then show ?case by simp
next
  case (Cons p ps)
  obtain wk c where wkc: "wkc = (wk, c)" by force
  from Cons.prems(2) obtain w h where wh: "sp_mDiceGridWd p = int (4 * w)" "sp_mDiceGridHe p = int h" "1 \<le> w" "1 \<le> h" "4 * w * h \<le> 2304"
    unfolding grid_fits_def by auto
  have "w * h \<le> 576" using wh(5) by (simp add: ac_simps)
  moreover have "w \<le> w * h" "h \<le> w * h" using wh(3,4) by simp_all
  ultimately have "w \<le> 576" "h \<le> 576" by linarith+
  then have small: "4 * w < 2 ^ 32" "h < 2 ^ 32" by simp_all
  have dims: "nat (sp_mDiceGridWd p mod 2 ^ 32) = 4 * w" "nat (sp_mDiceGridHe p mod 2 ^ 32) = h"
    unfolding wh(1,2) using small by (simp_all add: nat_mod_as_int flip: of_nat_mod)
  have "full_grid wk" using Cons.prems(1) wkc by simp
  from Setup_full [OF this wh(5)] obtain wk1 where
    s: "WorkGrid_Setup (4 * w) h (sp_mURange0 p, sp_mURange1 p) (sp_mVRange0 p, sp_mVRange1 p) (sp_mpTransform p) m wk = Inr wk1"
    and f: "full_grid wk1" "wk_mXDim wk1 = 4 * w" "wk_mYDim wk1 = h" "wk_mPointsN wk1 = 4 * w * h" by blast
  from Dice_prim_full [OF f wh(3,5)] obtain wk2 c2 where d: "Dice_prim mem cc p (wk1, c) = Inr (wk2, c2)" "full_grid wk2" by blast
  from assms [OF d(2), of "sp_mpAttribs p"] obtain wk3 where sh: "run_shaders (sp_mpAttribs p) wk2 = Inr wk3" "full_grid wk3"
    unfolding shades_def by blast
  have "grid_of_prim mem cc run_shaders m p wkc = Inr (wk3, c2)"
    unfolding grid_of_prim_def wkc prod.case dims s by (simp add: d sh)
  moreover have "\<exists>gs cnt. bucket_grids mem cc run_shaders m ps (wk3, c2) = Inr (gs, cnt)"
    using Cons.IH [of "(wk3, c2)"] sh(2) Cons.prems(2) by simp
  ultimately show ?case by auto
qed

section \<open>The tasks\<close>

definition scene_spp :: "scene_hider \<Rightarrow> nat \<Rightarrow> nat" where
  "scene_spp hr i = (case hb_mpSampCoordsBuff (mpBuckets hr ! i) of Some k \<Rightarrow> GetSampsPerPixel (mSampCoordBuffs hr ! k) | None \<Rightarrow> 0)"

definition scene_coords :: "task_env \<Rightarrow> scene_hider \<Rightarrow> nat \<Rightarrow> HiderSampleCoords list" where
  "scene_coords te hr i = (case bucket_sampling (te_cmem te) hr (mpBuckets hr ! i) of Inr s \<Rightarrow> snd s | Inl _ \<Rightarrow> [])"

definition scene_grids :: "task_env \<Rightarrow> scene_hider \<Rightarrow> nat \<Rightarrow> WorkGridV list" where
  "scene_grids te hr i = (case task_grids te hr i of Inr g \<Rightarrow> fst g | Inl _ \<Rightarrow> [])"

definition scene_colours :: "task_env \<Rightarrow> scene_hider \<Rightarrow> nat \<Rightarrow> nat \<Rightarrow> real list" where
  "scene_colours te hr = bucket_colours (mMtxCamProj (hd_mOptions hr)) (b2_mWd (mFinalBuff hr)) (b2_mHe (mFinalBuff hr))
     (scene_spp hr) (scene_coords te hr) (scene_grids te hr) hr"

text \<open>A task that has samples and grids stores the colours of the hider before the first task.\<close>

definition task_ready :: "task_env \<Rightarrow> scene_hider \<Rightarrow> nat \<Rightarrow> bool" where
  "task_ready te hr i \<longleftrightarrow> i < length (mpBuckets hr) \<and> hb_mpSampCoordsBuff (mpBuckets hr ! i) \<noteq> None
     \<and> (\<exists>g. task_grids te hr i = Inr g)"

lemma task_colours:
  assumes "same_scene hr hr2" and "task_ready te hr2 i" and "\<not> mDbgRasterizeVerts (mParams hr2)"
  shows "RenderBucket_task te i hr = RenderBucket_s (te_pixmem te) (scene_colours te hr2 i) i hr"
proof -
  have i: "i < length (mpBuckets hr2)" using assms(2) by (simp add: task_ready_def)
  note b = same_scene_bucket [OF assms(1) i]
  have p: "mParams hr = mParams hr2" "hd_mOptions hr = hd_mOptions hr2" "hd_mMtxWorldCamera hr = hd_mMtxWorldCamera hr2"
    "mSampCoordBuffs hr = mSampCoordBuffs hr2" "b2_mWd (mFinalBuff hr) = b2_mWd (mFinalBuff hr2)" "b2_mHe (mFinalBuff hr) = b2_mHe (mFinalBuff hr2)"
    using assms(1) by (simp_all add: same_scene_def)
  obtain k where k: "hb_mpSampCoordsBuff (mpBuckets hr2 ! i) = Some k" using assms(2) by (auto simp: task_ready_def)
  obtain gs c where g: "task_grids te hr2 i = Inr (gs, c)" using assms(2) by (auto simp: task_ready_def)
  have sc: "bucket_sampling (te_cmem te) hr (mpBuckets hr ! i) = Inr (scene_spp hr2 i, scene_coords te hr2 i)"
    by (simp add: bucket_sampling_def scene_spp_def scene_coords_def b p k Let_def)
  have tg: "task_grids te hr i = Inr (gs, c)" using g by (simp add: task_grids_def b p)
  have "scene_grids te hr2 i = gs" by (simp add: scene_grids_def g)
  then show ?thesis using i sc tg assms(3) bucket_samples_rect [OF b(2)]
    by (simp add: RenderBucket_task_def b(1) Let_def p scene_colours_def bucket_colours_def)
qed

lemma tasks_colours:
  assumes "\<And>i. i \<in> set ts \<Longrightarrow> task_ready te hr2 i" and "\<not> mDbgRasterizeVerts (mParams hr2)"
  shows "same_scene hr hr2 \<Longrightarrow> render_tasks te ts hr = RenderBuckets (te_pixmem te) (scene_colours te hr2) ts hr"
  using assms(1)
proof (induction ts arbitrary: hr)
  case Nil
  then show ?case by simp
next
  case (Cons i ts)
  have one: "RenderBucket_task te i hr = RenderBucket_s (te_pixmem te) (scene_colours te hr2 i) i hr"
    using Cons.prems by (intro task_colours assms(2)) simp_all
  obtain r h where rs: "RenderBucket_s (te_pixmem te) (scene_colours te hr2 i) i hr = (r, h)" by force
  have "same_scene h hr2" by (rule same_scene_trans [OF RenderBucket_s_scene [OF rs] Cons.prems(1)])
  with Cons.IH Cons.prems(2) have "render_tasks te ts h = RenderBuckets (te_pixmem te) (scene_colours te hr2) ts h" by simp
  then show ?case using one rs by (cases r) (simp_all add: stx_bind_def)
qed

section \<open>Splitting keeps the scene\<close>

lemma split_loop_rest:
  "split_loop MB ps hr = (r, hr') \<Longrightarrow> mParams hr' = mParams hr \<and> hd_mOptions hr' = hd_mOptions hr
     \<and> mFinalBuff hr' = mFinalBuff hr \<and> mSampCoordBuffs hr' = mSampCoordBuffs hr
     \<and> map hb_mpSampCoordsBuff (mpBuckets hr') = map hb_mpSampCoordsBuff (mpBuckets hr)"
proof (induction MB ps hr rule: split_loop.induct)
  case (1 MB hr)
  then show ?case by simp
next
  case (2 MB ps hr)
  then show ?case by simp
next
  case (3 MB p ps hr)
  obtain c box p' where chk: "CheckForSplit MB hr p = (c, box, p')" using prod_cases3 by blast
  show ?case
  proof (cases c)
    case CHECKSPLITRES_CULL
    then show ?thesis using 3 chk by simp
  next
    case CHECKSPLITRES_DICE
    show ?thesis
    proof (cases box)
      case None
      then show ?thesis using "3.prems" chk CHECKSPLITRES_DICE by simp
    next
      case (Some b)
      let ?h = "InsertForDicing p' b hr"
      have "mParams ?h = mParams hr" "hd_mOptions ?h = hd_mOptions hr" "mFinalBuff ?h = mFinalBuff hr" "mSampCoordBuffs ?h = mSampCoordBuffs hr"
        "map hb_mpSampCoordsBuff (mpBuckets ?h) = map hb_mpSampCoordsBuff (mpBuckets hr)"
        by (simp_all add: InsertForDicing_def case_prod_beta)
      then show ?thesis using 3 chk CHECKSPLITRES_DICE Some by simp
    qed
  next
    case CHECKSPLITRES_SPLIT
    then show ?thesis using 3 chk by simp
  qed
qed

text \<open>Every primitive the loop puts into a bucket has a grid that fits.\<close>

lemma diced_fits:
  assumes "q \<in> diced (all_fates MB hr ps) bk"
  shows "grid_fits q"
proof -
  from assms obtain a b c d where "(q, Diced (Some (a, b, c, d))) \<in> set (all_fates MB hr ps)" by (auto simp: diced_def)
  then obtain p where "(q, Diced (Some (a, b, c, d))) \<in> set (fates MB hr p)" by (auto simp: all_fates_def split: option.splits)
  from diced_box [OF this] show ?thesis using diced_grid_fits by blast
qed

section \<open>Polygons become bilinear patches\<close>

lemma then_insert_all: "list_all P (snd a) \<Longrightarrow> list_all P (snd b) \<Longrightarrow> list_all P (snd (then_insert a b))"
  by (induction a b rule: then_insert.induct) simp_all

lemma fan_bilinear: "list_all is_bilinear (snd (fan_loop vert start lst))"
proof (induction vert start lst rule: fan_loop.induct)
  case (1 vert start lst)
  have t: "list_all is_bilinear (simplifyAddTriangle a b c)" for a b c
    by (simp add: simplifyAddTriangle_def is_bilinear_def Let_def)
  have q: "is_bilinear (S_PatchBilinear h)" for h by (simp add: is_bilinear_def)
  show ?case using 1 t
    by (subst fan_loop.simps) (auto simp: Let_def q intro!: then_insert_all split: sum.splits)
qed

lemma points_bilinear: "list_all is_bilinear (snd (points_loop P vs i ns))"
  by (induction P vs i ns rule: points_loop.induct) (auto simp: tessellateToBilinearPatches_def intro!: then_insert_all fan_bilinear)

lemma general_bilinear: "list_all is_bilinear (snd (general_loop P nv vs a b ns))"
  by (induction P nv vs a b ns rule: general_loop.induct)
    (auto simp: tessellateToBilinearPatches_def intro!: then_insert_all fan_bilinear split: sum.splits)

text \<open>Bilinear patches, and the polygons of all kinds.\<close>

definition polygonal :: "hider_prim \<Rightarrow> bool" where
  "polygonal hp = (case hp of
       HSimple p \<Rightarrow> ordered is_bilinear p
     | HComplex c _ _ \<Rightarrow> (case c of Polygon _ \<Rightarrow> True | PointsPolygons _ \<Rightarrow> True | PointsGeneralPolygons _ \<Rightarrow> True | _ \<Rightarrow> False))"

lemma Simplify_bilinear: "polygonal (HComplex c attr x) \<Longrightarrow> list_all is_bilinear (snd (Simplify syms attr c))"
  using fan_bilinear points_bilinear general_bilinear
  by (cases c) (auto simp: polygonal_def Simplify_def Polygon_Simplify_def PointsPolygons_Simplify_def
      PointsGeneralPolygons_Simplify_def split: sum.splits prod.splits)

lemma new_polygonal: "is_bilinear g \<Longrightarrow> polygonal (HSimple (SimplePrim_new attr x g))"
  by (simp add: polygonal_def ordered_def SimplePrim_new_def SimplePrim_range_def)

lemma simplify_loop_polygonal:
  "simplify_loop syms seen ps = (Inr (), ps') \<Longrightarrow> \<forall>p \<in> set ps. polygonal p \<Longrightarrow> \<forall>p. Some p \<in> set seen \<longrightarrow> polygonal p
     \<Longrightarrow> \<forall>p. Some p \<in> set ps' \<longrightarrow> polygonal p"
proof (induction syms seen ps rule: simplify_loop.induct)
  case (1 syms seen)
  then show ?case by simp
next
  case (2 syms seen p ps)
  then show ?case by auto
next
  case (3 syms seen c attr x ps)
  obtain r ss where S: "Simplify syms attr c = (r, ss)" by force
  obtain u where r: "r = Inr u" using "3.prems"(1) S by (cases r) simp_all
  have "list_all is_bilinear ss" using Simplify_bilinear [of c attr x syms] "3.prems"(2) S by simp
  then have "\<forall>p \<in> set (ps @ map (\<lambda>s. HSimple (SimplePrim_new attr x s)) ss). polygonal p"
    using "3.prems"(2) new_polygonal by (auto simp: list_all_iff)
  then show ?case using "3.IH" [OF S [symmetric] r] "3.prems" S r by auto
qed

lemma simple_prims_ordered:
  assumes "worldEnd_simplify syms prims = (Inr (), ps)" and "\<forall>p \<in> set prims. polygonal p"
  shows "\<forall>p. Some p \<in> set (simple_prims ps) \<longrightarrow> ordered is_bilinear p"
proof -
  have "\<forall>p. Some p \<in> set ps \<longrightarrow> polygonal p"
    using simplify_loop_polygonal [OF assms(1) [unfolded worldEnd_simplify_def] assms(2)] by simp
  then show ?thesis by (fastforce simp: simple_prims_def polygonal_def split: option.splits hider_prim.splits)
qed

section \<open>A frame\<close>

text \<open>The layout of a hider after splitting, and that its tasks are ready.\<close>

lemma split_scene:
  assumes "world_ok opt" and "fresh_hider hr" and "\<forall>p. Some p \<in> set prims \<longrightarrow> ordered is_bilinear p"
  obtains hr1 hr2 where "Hider_WorldBegin mem opt m hr = (Inr (), hr1)"
    and "worldEnd_splitAndAddToBuckets MakeBound (hr1\<lparr>hd_mpPrims := prims\<rparr>) = (Inr (), hr2)"
    and "map rect (mpBuckets hr2) = map (cell opt) (bucket_grid opt)" and "buffer_ok NOUTCOLS (mFinalBuff hr2)"
    and "b2_mWd (mFinalBuff hr2) = nat (mXRes opt)" and "b2_mHe (mFinalBuff hr2) = nat (mYRes opt)"
    and "length (mpBuckets hr2) = length (mpBuckets hr1)" and "mParams hr2 = mParams hr" and "hd_mOptions hr2 = opt"
    and "\<forall>bk \<in> set (mpBuckets hr2). hb_mpSampCoordsBuff bk \<noteq> None \<and> (\<forall>q \<in> set (hb_mpPrims bk). grid_fits q)"
proof -
  have idle: "idle_hider hr" using assms(2) by (simp add: fresh_hider_def)
  obtain hr1 where w: "Hider_WorldBegin mem opt m hr = (Inr (), hr1)"
    and lay: "map rect (mpBuckets hr1) = map (cell opt) (bucket_grid opt)"
    and b: "buffer_ok NOUTCOLS (mFinalBuff hr1)" "b2_mWd (mFinalBuff hr1) = nat (mXRes opt)"
      "b2_mHe (mFinalBuff hr1) = nat (mYRes opt)"
    and zero: "\<forall>x<nat (mXRes opt). \<forall>y<nat (mYRes opt). \<forall>c<NOUTCOLS. final_sample hr1 x y c = 0"
    and none: "\<forall>bk \<in> set (mpBuckets hr1). hb_mpPrims bk = []"
    by (rule WorldBegin_layout [OF assms(1) idle, of mem m])
  note ws = WorldBegin_sampled [OF assms(2) w]
  let ?h = "hr1\<lparr>hd_mpPrims := prims\<rparr>" and ?fs = "all_fates MakeBound (hr1\<lparr>hd_mpPrims := prims\<rparr>) prims"
  have "\<forall>q. (q, Diced None) \<notin> set ?fs"
  proof (intro allI notI)
    fix q
    assume "(q, Diced None) \<in> set ?fs"
    then obtain p where "Some p \<in> set prims" "(q, Diced None) \<in> set (fates MakeBound ?h p)"
      by (auto simp: all_fates_def split: option.splits)
    then show False using fates_fine [OF bilinear_bounds_surface, of p q "Diced None" ?h] assms(3) by blast
  qed
  have mb: "mpBuckets ?h = mpBuckets hr1" by simp
  from split_loop_buckets [OF \<open>\<forall>q. (q, Diced None) \<notin> set ?fs\<close>, unfolded mb] obtain h' where sl: "split_loop MakeBound prims ?h = (Inr (), h')"
    and len: "length (mpBuckets h') = length (mpBuckets hr1)"
    and bk: "\<forall>i < length (mpBuckets hr1). rect (mpBuckets h' ! i) = rect (mpBuckets hr1 ! i)
      \<and> set (hb_mpPrims (mpBuckets h' ! i)) = set (hb_mpPrims (mpBuckets hr1 ! i)) \<union> diced ?fs (mpBuckets hr1 ! i)" by blast
  note rest = split_loop_rest [OF sl]
  have sb: "hb_mpSampCoordsBuff (mpBuckets h' ! i) \<noteq> None" if "i < length (mpBuckets hr1)" for i
  proof -
    have "map hb_mpSampCoordsBuff (mpBuckets h') ! i = map hb_mpSampCoordsBuff (mpBuckets hr1) ! i" using rest by simp
    moreover have "hb_mpSampCoordsBuff (mpBuckets hr1 ! i) \<noteq> None"
      using ws(1) nth_mem [OF that] unfolding buckets_ok_def by blast
    ultimately show ?thesis using that len by simp
  qed
  have fit: "\<forall>q \<in> set (hb_mpPrims (mpBuckets h' ! i)). grid_fits q" if "i < length (mpBuckets hr1)" for i
  proof
    fix q
    assume "q \<in> set (hb_mpPrims (mpBuckets h' ! i))"
    moreover have "hb_mpPrims (mpBuckets hr1 ! i) = []" using none nth_mem [OF that] by blast
    ultimately have "q \<in> diced ?fs (mpBuckets hr1 ! i)" using bk that by simp
    then show "grid_fits q" by (rule diced_fits)
  qed
  have ok: "\<forall>bk \<in> set (mpBuckets h'). hb_mpSampCoordsBuff bk \<noteq> None \<and> (\<forall>q \<in> set (hb_mpPrims bk). grid_fits q)"
  proof
    fix bk
    assume "bk \<in> set (mpBuckets h')"
    then obtain i where "i < length (mpBuckets hr1)" "bk = mpBuckets h' ! i" using len by (metis in_set_conv_nth)
    then show "hb_mpSampCoordsBuff bk \<noteq> None \<and> (\<forall>q \<in> set (hb_mpPrims bk). grid_fits q)" using sb fit by blast
  qed
  have "map rect (mpBuckets h') = map rect (mpBuckets hr1)" by (rule nth_equalityI) (use bk len in simp_all)
  moreover have "worldEnd_splitAndAddToBuckets MakeBound ?h = (Inr (), h'\<lparr>hd_mpPrims := []\<rparr>)"
    by (simp add: worldEnd_splitAndAddToBuckets_def sl)
  ultimately show ?thesis using w lay b rest ws(2,3) len ok by (intro that [of hr1 "h'\<lparr>hd_mpPrims := []\<rparr>"]) simp_all
qed

lemma RenderBuckets_scene: "RenderBuckets mem col ts hr = (r, hr') \<Longrightarrow> same_scene hr' hr"
proof (induction ts arbitrary: hr)
  case Nil
  then show ?case by simp
next
  case (Cons i ts)
  obtain r1 h where rs: "RenderBucket_s mem (col i) i hr = (r1, h)" by force
  note one = RenderBucket_s_scene [OF rs]
  show ?case
  proof (cases r1)
    case (Inl e)
    then show ?thesis using Cons.prems rs one by simp
  next
    case (Inr u)
    then have "RenderBuckets mem col ts h = (r, hr')" using Cons.prems rs by simp
    from same_scene_trans [OF Cons.IH [OF this] one] show ?thesis .
  qed
qed

text \<open>A frame, with the tasks apart: the image also keeps its layout.\<close>

lemma frame_core:
  assumes "world_ok opt" and "fresh_hider hr" and "\<not> mDbgRasterizeVerts (mParams hr)"
    and "\<forall>p \<in> set prims. polygonal p" and "worldEnd_simplify syms prims = (Inr (), ps)"
    and "\<And>i. full_grid (fst (te_grid te i))" and "\<And>a k. full_grid k \<Longrightarrow> shades (te_run_shaders te a k)"
  shows "\<exists>hr1 hr2. Hider_WorldBegin mem opt m hr = (Inr (), hr1) \<and> length (mpBuckets hr2) = length (mpBuckets hr1)
    \<and> worldEnd_splitAndAddToBuckets MakeBound (hr1\<lparr>hd_mpPrims := simple_prims ps\<rparr>) = (Inr (), hr2)
    \<and> mParams hr2 = mParams hr
    \<and> (\<forall>ts. set ts = {0..<length (mpBuckets hr1)} \<longrightarrow>
        (\<exists>hr3. render_tasks te ts hr2 = (Inr (), hr3) \<and> mParams hr3 = mParams hr2
          \<and> buffer_ok NOUTCOLS (mFinalBuff hr3)
          \<and> b2_mWd (mFinalBuff hr3) = nat (mXRes opt) \<and> b2_mHe (mFinalBuff hr3) = nat (mYRes opt)
          \<and> image_composited opt (mMtxCamProj opt) (nat (mXRes opt)) (nat (mYRes opt))
              (scene_spp hr2) (scene_coords te hr2) (scene_grids te hr2) hr2 hr3))"
proof -
  obtain hr1 hr2 where w: "Hider_WorldBegin mem opt m hr = (Inr (), hr1)"
    and sp: "worldEnd_splitAndAddToBuckets MakeBound (hr1\<lparr>hd_mpPrims := simple_prims ps\<rparr>) = (Inr (), hr2)"
    and lay: "map rect (mpBuckets hr2) = map (cell opt) (bucket_grid opt)"
    and b: "buffer_ok NOUTCOLS (mFinalBuff hr2)" "b2_mWd (mFinalBuff hr2) = nat (mXRes opt)" "b2_mHe (mFinalBuff hr2) = nat (mYRes opt)"
    and len: "length (mpBuckets hr2) = length (mpBuckets hr1)" and o: "mParams hr2 = mParams hr" "hd_mOptions hr2 = opt"
    and ok: "\<forall>bk \<in> set (mpBuckets hr2). hb_mpSampCoordsBuff bk \<noteq> None \<and> (\<forall>q \<in> set (hb_mpPrims bk). grid_fits q)"
    by (rule split_scene [OF assms(1,2) simple_prims_ordered [OF assms(5,4)], of mem m])
  note img = layout_image_ok [OF lay b]
  have dims: "nat (mXRes opt) < 2 ^ 31" "nat (mYRes opt) < 2 ^ 31" using assms(1) by (auto simp: world_ok_def)
  have ready: "task_ready te hr2 i" if "i < length (mpBuckets hr2)" for i
  proof -
    have "\<forall>q \<in> set (hb_mpPrims (mpBuckets hr2 ! i)). grid_fits q" using ok nth_mem [OF that] by blast
    from bucket_grids_ok [OF assms(7,6) this] show ?thesis using ok that by (auto simp: task_ready_def task_grids_def)
  qed
  have col: "length (scene_colours te hr2 i k) = NOUTCOLS" for i k by (simp add: scene_colours_def bucket_colours_def)
  have "\<exists>hr3. render_tasks te ts hr2 = (Inr (), hr3) \<and> mParams hr3 = mParams hr2 \<and> buffer_ok NOUTCOLS (mFinalBuff hr3)
      \<and> b2_mWd (mFinalBuff hr3) = nat (mXRes opt) \<and> b2_mHe (mFinalBuff hr3) = nat (mYRes opt)
      \<and> image_composited opt (mMtxCamProj opt) (nat (mXRes opt)) (nat (mYRes opt))
          (scene_spp hr2) (scene_coords te hr2) (scene_grids te hr2) hr2 hr3"
    if ts: "set ts = {0..<length (mpBuckets hr2)}" for ts
  proof -
    from world_rendered [where col = "scene_colours te hr2" and mem' = "te_pixmem te", OF lay img b(2,3) col ts]
    obtain hr3 where r: "RenderBuckets (te_pixmem te) (scene_colours te hr2) ts hr2 = (Inr (), hr3)"
      and p: "pixels_in_place opt (scene_colours te hr2) hr2 hr3" by blast
    have "image_ok hr3"
      using RenderBuckets_ok [where col = "scene_colours te hr2" and mem = "te_pixmem te" and ts = ts, OF img] ts col r by auto
    then have buf: "buffer_ok NOUTCOLS (mFinalBuff hr3)" by (simp add: image_ok_def)
    have sc: "same_scene hr3 hr2" by (rule RenderBuckets_scene [OF r])
    have "render_tasks te ts hr2 = (Inr (), hr3)"
      using tasks_colours [of ts te hr2 hr2] ready ts assms(3) o(1) r by auto
    moreover have "image_composited opt (mMtxCamProj opt) (nat (mXRes opt)) (nat (mYRes opt))
          (scene_spp hr2) (scene_coords te hr2) (scene_grids te hr2) hr2 hr3"
      using in_place_composited [OF p [unfolded scene_colours_def] image_ok_bucket [OF img, unfolded b(2,3)] dims] unfolding o(2) b(2,3) .
    ultimately show ?thesis using buf sc b(2,3) unfolding same_scene_def by auto
  qed
  with w sp len o show ?thesis by auto
qed

text \<open>
  A frame of polygons is rendered. From a fresh hider and an image whose samples fit 32 bits,
  take any list of bilinear patches and polygons that \<open>worldEnd_simplify\<close> accepts, and any shading
  that does not throw and keeps the sizes of the grid's arrays. \<open>WorldBegin\<close> and \<open>WorldEnd\<close> throw nothing, whatever the
  order in which the bucket tasks finish, and every pixel ends up with the average over its samples
  of the micropolygons covering them, composited by depth, of the grids that its bucket's
  primitives are diced and shaded into - as long as no sample has more than 1024 data.
\<close>

theorem frame_rendered:
  assumes "world_ok opt" and "fresh_hider hr" and "\<not> mDbgRasterizeVerts (mParams hr)"
    and "\<forall>p \<in> set prims. polygonal p" and "worldEnd_simplify syms prims = (Inr (), ps)"
    and "\<And>i. full_grid (fst (te_grid te i))" and "\<And>a k. full_grid k \<Longrightarrow> shades (te_run_shaders te a k)"
  shows "\<exists>hr1 hr2. Hider_WorldBegin mem opt m hr = (Inr (), hr1)
    \<and> worldEnd_splitAndAddToBuckets MakeBound (hr1\<lparr>hd_mpPrims := simple_prims ps\<rparr>) = (Inr (), hr2)
    \<and> (\<forall>ts. set ts = {0..<length (mpBuckets hr1)} \<longrightarrow>
        (\<exists>hr3. worldEnd_render te syms prims ts hr1 = (Inr (), hr3)
          \<and> image_composited opt (mMtxCamProj opt) (nat (mXRes opt)) (nat (mYRes opt))
              (scene_spp hr2) (scene_coords te hr2) (scene_grids te hr2) hr2 hr3))"
proof -
  from frame_core [OF assms, of mem m] obtain hr1 hr2 where w: "Hider_WorldBegin mem opt m hr = (Inr (), hr1)"
    and sp: "worldEnd_splitAndAddToBuckets MakeBound (hr1\<lparr>hd_mpPrims := simple_prims ps\<rparr>) = (Inr (), hr2)"
    and all: "\<And>ts. set ts = {0..<length (mpBuckets hr1)} \<Longrightarrow> \<exists>hr3. render_tasks te ts hr2 = (Inr (), hr3)
      \<and> image_composited opt (mMtxCamProj opt) (nat (mXRes opt)) (nat (mYRes opt))
          (scene_spp hr2) (scene_coords te hr2) (scene_grids te hr2) hr2 hr3" by blast
  have "worldEnd_render te syms prims ts hr1 = render_tasks te ts hr2" for ts using assms(5) sp by (simp add: worldEnd_render_def)
  with w sp all show ?thesis by auto
qed

definition ex_env :: task_env where
  "ex_env = \<lparr>te_pixmem = \<lambda>_. 9, te_fltmem = \<lambda>_. 9, te_cmem = \<lambda>_. 0, te_run_shaders = \<lambda>_ k. Inr k, te_grid = \<lambda>_. (ex_workgrid, 0)\<rparr>"

theorem frame_rendered_witness:
  "\<exists>hr1 hr2 hr3. Hider_WorldBegin (\<lambda>_. 9) (fst (Options_Init 0)) Identity ex_view = (Inr (), hr1)
     \<and> worldEnd_splitAndAddToBuckets MakeBound (hr1\<lparr>hd_mpPrims := [Some ex_small]\<rparr>) = (Inr (), hr2)
     \<and> worldEnd_render ex_env [] [HSimple ex_small] [0..<length (mpBuckets hr1)] hr1 = (Inr (), hr3)
     \<and> image_composited (fst (Options_Init 0)) (mMtxCamProj (fst (Options_Init 0))) 640 480
         (scene_spp hr2) (scene_coords ex_env hr2) (scene_grids ex_env hr2) hr2 hr3"
proof -
  have w: "world_ok (fst (Options_Init 0))" and f: "fresh_hider ex_view" and r: "\<not> mDbgRasterizeVerts (mParams ex_view)"
    by (simp_all add: world_ok_def Options_Init_def cmdProjection_def fresh_hider_def idle_hider_def ex_view_def)
  have p: "\<forall>p \<in> set [HSimple ex_small]. polygonal p"
    by (simp add: ex_small_def new_polygonal is_bilinear_def)
  have s: "worldEnd_simplify [] [HSimple ex_small] = (Inr (), [Some (HSimple ex_small)])" by (simp add: worldEnd_simplify_def)
  have g: "full_grid (fst (te_grid ex_env i))" for i by (simp add: ex_env_def full_grid_def ex_workgrid_def)
  have k: "full_grid k \<Longrightarrow> shades (te_run_shaders ex_env a k)" for a k by (simp add: ex_env_def shades_def)
  have d: "nat (mXRes (fst (Options_Init 0))) = 640" "nat (mYRes (fst (Options_Init 0))) = 480"
    by (simp_all add: Options_Init_def cmdProjection_def)
  have sp: "simple_prims [Some (HSimple ex_small)] = [Some ex_small]" by (simp add: simple_prims_def)
  from frame_rendered [OF w f r p s g k, of "\<lambda>_. 9" Identity] obtain hr1 hr2 where
    h: "Hider_WorldBegin (\<lambda>_. 9) (fst (Options_Init 0)) Identity ex_view = (Inr (), hr1)"
      "worldEnd_splitAndAddToBuckets MakeBound (hr1\<lparr>hd_mpPrims := [Some ex_small]\<rparr>) = (Inr (), hr2)"
    and all: "\<And>ts. set ts = {0..<length (mpBuckets hr1)} \<Longrightarrow> \<exists>hr3. worldEnd_render ex_env [] [HSimple ex_small] ts hr1 = (Inr (), hr3)
      \<and> image_composited (fst (Options_Init 0)) (mMtxCamProj (fst (Options_Init 0))) 640 480
         (scene_spp hr2) (scene_coords ex_env hr2) (scene_grids ex_env hr2) hr2 hr3" unfolding d sp by blast
  from all [of "[0..<length (mpBuckets hr1)]"] h show ?thesis by auto
qed

end
