(* ===== verification/Noise.thy ===== *)
theory Noise
  imports HiderFilter
begin

text \<open>
  Gradient noise (\<open>RI_Noise.h/.cpp\<close>): the tables that \<open>Noise::init\<close> fills from \<open>rand\<close> on the first
  call, the noise functions of one, two and three coordinates, and their SIMD forms. The
  results of \<open>rand\<close> after \<open>srand (0x56781804)\<close> are a parameter.
\<close>

section \<open>Tables\<close>

definition noise_B :: nat where "noise_B = 256"
definition noise_N :: nat where "noise_N = 4096"

record NoiseTables =
  nt_mP :: "nat list"
  nt_mG1 :: "real list"
  nt_mG2 :: "real Vec2 list"
  nt_mG3 :: "real Vec3 list"

definition rand_signed :: "nat \<Rightarrow> real" where
  "rand_signed r = (of_nat (r mod (noise_B + noise_B)) - of_nat noise_B) / of_nat noise_B"

definition zero_gradient :: exn where
  "zero_gradient = Not_modelled ''division of a zero gradient by its length''"

definition normalize2 :: "real Vec2 \<Rightarrow> real Vec2 res" where
  "normalize2 v =
     (let s = DSqrt (x2 v * x2 v + y2 v * y2 v) in
      if s = 0 then Inl zero_gradient else Inr (Vec2 (x2 v / s) (y2 v / s)))"

definition normalize3 :: "real Vec3 \<Rightarrow> real Vec3 res" where
  "normalize3 v =
     (let s = DSqrt (x3 v * x3 v + y3 v * y3 v + z3 v * z3 v) in
      if s = 0 then Inl zero_gradient else Inr (Vec3 (x3 v / s) (y3 v / s) (z3 v / s)))"

fun res_map :: "('a \<Rightarrow> 'b res) \<Rightarrow> 'a list \<Rightarrow> 'b list res" where
  "res_map f [] = Inr []"
| "res_map f (x # xs) = res_bind (f x) (\<lambda>y. res_bind (res_map f xs) (\<lambda>ys. Inr (y # ys)))"

text \<open>The first loop calls \<open>rand\<close> six times for every \<open>i\<close>.\<close>

definition init_G1 :: "(nat \<Rightarrow> nat) \<Rightarrow> real list" where
  "init_G1 rand = map (\<lambda>i. rand_signed (rand (6 * i))) [0..<noise_B]"

definition init_G2 :: "(nat \<Rightarrow> nat) \<Rightarrow> real Vec2 list res" where
  "init_G2 rand =
     res_map (\<lambda>i. normalize2 (Vec2 (rand_signed (rand (6 * i + 1))) (rand_signed (rand (6 * i + 2))))) [0..<noise_B]"

definition init_G3 :: "(nat \<Rightarrow> nat) \<Rightarrow> real Vec3 list res" where
  "init_G3 rand =
     res_map (\<lambda>i. normalize3 (Vec3 (rand_signed (rand (6 * i + 3))) (rand_signed (rand (6 * i + 4)))
        (rand_signed (rand (6 * i + 5))))) [0..<noise_B]"

text \<open>The shuffle \<open>while (--i)\<close>, with \<open>i\<close> from 255 down to 1.\<close>

definition swap_P :: "nat \<Rightarrow> nat \<Rightarrow> nat list \<Rightarrow> nat list" where
  "swap_P i j mP = mP[i := mP ! j, j := mP ! i]"

primrec shuffle_P :: "(nat \<Rightarrow> nat) \<Rightarrow> nat \<Rightarrow> nat list \<Rightarrow> nat list" where
  "shuffle_P rand 0 mP = mP"
| "shuffle_P rand (Suc i) mP =
     shuffle_P rand i (swap_P (Suc i) (rand (6 * noise_B + (noise_B - 1 - Suc i)) mod noise_B) mP)"

text \<open>The last loop doubles the tables and repeats their first two elements.\<close>

definition doubled :: "'a list \<Rightarrow> 'a list" where
  "doubled xs = xs @ xs @ take 2 xs"

text \<open>The permutation does not depend on the gradients.\<close>

definition noise_perm :: "(nat \<Rightarrow> nat) \<Rightarrow> nat list" where
  "noise_perm rand = doubled (shuffle_P rand (noise_B - 1) [0..<noise_B])"

definition noise_init :: "(nat \<Rightarrow> nat) \<Rightarrow> NoiseTables res" where
  "noise_init rand =
     res_bind (init_G2 rand) (\<lambda>g2. res_bind (init_G3 rand) (\<lambda>g3.
       Inr \<lparr>nt_mP = noise_perm rand, nt_mG1 = doubled (init_G1 rand),
            nt_mG2 = doubled g2, nt_mG3 = doubled g3\<rparr>))"

section \<open>Noise\<close>

definition s_curve :: "real \<Rightarrow> real" where
  "s_curve t = t * t * (3 - 2 * t)"

definition noise_lerp :: "real \<Rightarrow> real \<Rightarrow> real \<Rightarrow> real" where
  "noise_lerp t a b = a + t * (b - a)"

text \<open>The macro that finds the cell: the cell and its successor, modulo 256, and the distances from both.\<close>

definition noise_setup :: "real \<Rightarrow> (nat \<times> nat \<times> real \<times> real) res" where
  "noise_setup v =
     (let t = v + of_nat noise_N; it = c_int t; b0 = nat (it mod int noise_B) in
      if int32 it then Inr (b0, (b0 + 1) mod noise_B, t - of_int it, t - of_int it - 1)
      else Inl (Undefined_behaviour ''float outside the range of int''))"

definition noise1 :: "NoiseTables \<Rightarrow> real \<Rightarrow> real res" where
  "noise1 nt arg = res_bind (noise_setup arg) (\<lambda>(bx0, bx1, rx0, rx1).
     let u = rx0 * nt_mG1 nt ! (nt_mP nt ! bx0); v = rx1 * nt_mG1 nt ! (nt_mP nt ! bx1)
     in Inr (noise_lerp (s_curve rx0) u v))"

definition noise2 :: "NoiseTables \<Rightarrow> real Vec2 \<Rightarrow> real res" where
  "noise2 nt vec =
     res_bind (noise_setup (x2 vec)) (\<lambda>(bx0, bx1, rx0, rx1). res_bind (noise_setup (y2 vec)) (\<lambda>(by0, by1, ry0, ry1).
       let i = nt_mP nt ! bx0; j = nt_mP nt ! bx1;
           b00 = nt_mP nt ! (i + by0); b10 = nt_mP nt ! (j + by0);
           b01 = nt_mP nt ! (i + by1); b11 = nt_mP nt ! (j + by1);
           sx = s_curve rx0; sy = s_curve ry0;
           at2 = (\<lambda>q rx ry. rx * x2 q + ry * y2 q);
           a = noise_lerp sx (at2 (nt_mG2 nt ! b00) rx0 ry0) (at2 (nt_mG2 nt ! b10) rx1 ry0);
           b = noise_lerp sx (at2 (nt_mG2 nt ! b01) rx0 ry1) (at2 (nt_mG2 nt ! b11) rx1 ry1)
       in Inr (noise_lerp sy a b)))"

definition noise3 :: "NoiseTables \<Rightarrow> real Vec3 \<Rightarrow> real res" where
  "noise3 nt vec =
     res_bind (noise_setup (x3 vec)) (\<lambda>(bx0, bx1, rx0, rx1). res_bind (noise_setup (y3 vec)) (\<lambda>(by0, by1, ry0, ry1).
     res_bind (noise_setup (z3 vec)) (\<lambda>(bz0, bz1, rz0, rz1).
       let i = nt_mP nt ! bx0; j = nt_mP nt ! bx1;
           b00 = nt_mP nt ! (i + by0); b10 = nt_mP nt ! (j + by0);
           b01 = nt_mP nt ! (i + by1); b11 = nt_mP nt ! (j + by1);
           t = s_curve rx0; sy = s_curve ry0; sz = s_curve rz0;
           at3 = (\<lambda>q rx ry rz. rx * x3 q + ry * y3 q + rz * z3 q);
           a = noise_lerp t (at3 (nt_mG3 nt ! (b00 + bz0)) rx0 ry0 rz0) (at3 (nt_mG3 nt ! (b10 + bz0)) rx1 ry0 rz0);
           b = noise_lerp t (at3 (nt_mG3 nt ! (b01 + bz0)) rx0 ry1 rz0) (at3 (nt_mG3 nt ! (b11 + bz0)) rx1 ry1 rz0);
           c = noise_lerp sy a b;
           a = noise_lerp t (at3 (nt_mG3 nt ! (b00 + bz1)) rx0 ry0 rz1) (at3 (nt_mG3 nt ! (b10 + bz1)) rx1 ry0 rz1);
           b = noise_lerp t (at3 (nt_mG3 nt ! (b01 + bz1)) rx0 ry1 rz1) (at3 (nt_mG3 nt ! (b11 + bz1)) rx1 ry1 rz1);
           d = noise_lerp sy a b
       in Inr (noise_lerp sz c d))))"

section \<open>The SIMD forms\<close>

text \<open>
  Over the lanes of a register; the result of the signed noise is brought from \<open>[-1, 1]\<close> to
  \<open>[0, 1]\<close>. Three dimensions of noise are three evaluations at fixed offsets.
\<close>

definition unit_range :: "real \<Rightarrow> real" where
  "unit_range r = r * (1 / 2) + 1 / 2"

definition unoise1_S :: "NoiseTables \<Rightarrow> real list \<Rightarrow> real list res" where
  "unoise1_S nt sca = res_bind (res_map (noise1 nt) sca) (\<lambda>rs. Inr (map unit_range rs))"

definition unoise1_V2 :: "NoiseTables \<Rightarrow> real Vec2 list \<Rightarrow> real list res" where
  "unoise1_V2 nt vec = res_bind (res_map (noise2 nt) vec) (\<lambda>rs. Inr (map unit_range rs))"

definition unoise1_V3 :: "NoiseTables \<Rightarrow> real Vec3 list \<Rightarrow> real list res" where
  "unoise1_V3 nt vec = res_bind (res_map (noise3 nt) vec) (\<lambda>rs. Inr (map unit_range rs))"

definition offs0 :: "real Vec3" where "offs0 = Vec3 (23 / 10) (31 / 10) (54 / 10)"
definition offs1 :: "real Vec3" where "offs1 = Vec3 (71 / 10) (115 / 10) (139 / 10)"
definition offs2 :: "real Vec3" where "offs2 = Vec3 (172 / 10) (196 / 10) (235 / 10)"

definition three :: "('a \<Rightarrow> real res) \<Rightarrow> 'a \<Rightarrow> 'a \<Rightarrow> 'a \<Rightarrow> real Vec3 res" where
  "three f a b c = res_bind (f a) (\<lambda>x. res_bind (f b) (\<lambda>y. res_bind (f c) (\<lambda>z.
     Inr (Vec3 (unit_range x) (unit_range y) (unit_range z)))))"

definition unoise3_S :: "NoiseTables \<Rightarrow> real list \<Rightarrow> real Vec3 list res" where
  "unoise3_S nt sca =
     res_map (\<lambda>s. three (noise1 nt) (s + x3 offs0) (s + x3 offs1) (s + x3 offs2)) sca"

definition unoise3_V2 :: "NoiseTables \<Rightarrow> real Vec2 list \<Rightarrow> real Vec3 list res" where
  "unoise3_V2 nt vec =
     res_map (\<lambda>v. three (noise2 nt) v (Vec2_opV (+) v (Vec2 (x3 offs0) (y3 offs0)))
       (Vec2_opV (+) v (Vec2 (x3 offs1) (y3 offs1)))) vec"

definition unoise3_V3 :: "NoiseTables \<Rightarrow> real Vec3 list \<Rightarrow> real Vec3 list res" where
  "unoise3_V3 nt vec =
     res_map (\<lambda>v. three (noise3 nt) v (Vec3_opV (+) v offs0) (Vec3_opV (+) v offs1)) vec"

end
