(* ===== verification/NoiseProps.thy ===== *)
theory NoiseProps
  imports Noise "HOL-Library.Multiset"
begin

text \<open>
  The tables of the gradient noise: the permutation, and indices that stay inside; the noise is
  zero at the points of the lattice and stays between -1 and 1.
\<close>

lemma res_map_length: "res_map f xs = Inr ys \<Longrightarrow> length ys = length xs"
  by (induction xs arbitrary: ys) (auto simp: res_bind_eq_Inr)

lemma swap_P_mset: "i < length mP \<Longrightarrow> j < length mP \<Longrightarrow> mset (swap_P i j mP) = mset mP"
  unfolding swap_P_def by (rule mset_swap)

lemma shuffle_P_mset: "i < length mP \<Longrightarrow> length mP = noise_B \<Longrightarrow> mset (shuffle_P rand i mP) = mset mP"
proof (induction i arbitrary: mP)
  case (Suc i)
  let ?j = "rand (6 * noise_B + (noise_B - 1 - Suc i)) mod noise_B"
  have "?j < length mP" using Suc.prems(2) by (simp add: noise_B_def)
  then have s: "mset (swap_P (Suc i) ?j mP) = mset mP" using Suc.prems(1) by (intro swap_P_mset)
  have "length (swap_P (Suc i) ?j mP) = length mP" by (simp add: swap_P_def)
  then have "mset (shuffle_P rand i (swap_P (Suc i) ?j mP)) = mset (swap_P (Suc i) ?j mP)"
    using Suc.prems by (intro Suc.IH) simp_all
  then show ?case using s by simp
qed simp

lemma doubled_nth: "k < 2 * n + 2 \<Longrightarrow> length xs = n \<Longrightarrow> 2 \<le> n \<Longrightarrow> doubled xs ! k \<in> set xs"
  using nth_mem [of k "doubled xs"] set_take_subset [of 2 xs] by (auto simp: doubled_def)

lemma noise_perm_facts:
  "mset (take noise_B (noise_perm rand)) = mset [0..<noise_B]" "length (noise_perm rand) = 2 * noise_B + 2"
  "k < 2 * noise_B + 2 \<Longrightarrow> noise_perm rand ! k < noise_B"
proof -
  let ?P = "shuffle_P rand (noise_B - 1) [0..<noise_B]"
  have P: "mset ?P = mset [0..<noise_B]" by (rule shuffle_P_mset) (simp_all add: noise_B_def)
  then have lP: "length ?P = noise_B" by (metis diff_zero length_upt mset_eq_length)
  have sP: "set ?P = {0..<noise_B}" using mset_eq_setD [OF P] by simp
  have two: "2 \<le> noise_B" by (simp add: noise_B_def)
  have "take noise_B (noise_perm rand) = ?P" using lP by (simp add: doubled_def noise_perm_def)
  then show "mset (take noise_B (noise_perm rand)) = mset [0..<noise_B]" using P by simp
  show "length (noise_perm rand) = 2 * noise_B + 2" using lP two by (simp add: noise_perm_def doubled_def)
  show "noise_perm rand ! k < noise_B" if "k < 2 * noise_B + 2"
    using doubled_nth [OF that lP two] sP by (simp add: noise_perm_def)
qed

lemma noise_init_tables:
  assumes "noise_init rand = Inr nt"
  shows "nt_mP nt = noise_perm rand" "length (nt_mG1 nt) = 2 * noise_B + 2"
    "length (nt_mG2 nt) = 2 * noise_B + 2" "length (nt_mG3 nt) = 2 * noise_B + 2"
proof -
  obtain g2 g3 where g: "init_G2 rand = Inr g2" "init_G3 rand = Inr g3"
    and nt: "nt = \<lparr>nt_mP = noise_perm rand, nt_mG1 = doubled (init_G1 rand), nt_mG2 = doubled g2, nt_mG3 = doubled g3\<rparr>"
    using assms by (auto simp: noise_init_def res_bind_eq_Inr)
  have "length g2 = noise_B" "length g3 = noise_B" using g by (simp_all add: init_G2_def init_G3_def res_map_length)
  then show "nt_mP nt = noise_perm rand" "length (nt_mG1 nt) = 2 * noise_B + 2"
    "length (nt_mG2 nt) = 2 * noise_B + 2" "length (nt_mG3 nt) = 2 * noise_B + 2"
    by (simp_all add: nt doubled_def init_G1_def noise_B_def)
qed

lemma noise_init_entries: "noise_init rand = Inr nt \<Longrightarrow> k < 2 * noise_B + 2 \<Longrightarrow> nt_mP nt ! k < noise_B"
  using noise_init_tables(1) noise_perm_facts(3) by simp

section \<open>Reads inside the tables\<close>

text \<open>
  The tables with anything behind them: a function that reads only inside the tables gives the
  same result.
\<close>

definition longer_tables :: "nat list \<Rightarrow> real list \<Rightarrow> real Vec2 list \<Rightarrow> real Vec3 list \<Rightarrow> NoiseTables \<Rightarrow> NoiseTables" where
  "longer_tables p g1 g2 g3 nt =
     \<lparr>nt_mP = nt_mP nt @ p, nt_mG1 = nt_mG1 nt @ g1, nt_mG2 = nt_mG2 nt @ g2, nt_mG3 = nt_mG3 nt @ g3\<rparr>"

definition tables_ok :: "NoiseTables \<Rightarrow> bool" where
  "tables_ok nt \<longleftrightarrow> length (nt_mP nt) = 514 \<and> length (nt_mG1 nt) = 514 \<and> length (nt_mG2 nt) = 514 \<and> length (nt_mG3 nt) = 514
     \<and> (\<forall>k < 514. nt_mP nt ! k < 256)"

lemma noise_init_ok: "noise_init rand = Inr nt \<Longrightarrow> tables_ok nt"
  using noise_init_tables [of rand nt] noise_perm_facts(2,3) by (simp add: tables_ok_def noise_B_def)

lemma setup_cells: "noise_setup v = Inr (b0, b1, r0, r1) \<Longrightarrow> b0 < 256 \<and> b1 < 256"
  by (auto simp: noise_setup_def Let_def noise_B_def nat_less_iff split: if_splits)

lemma longer_reads:
  assumes "tables_ok nt" and "k < 514"
  shows "nt_mP (longer_tables p g1 g2 g3 nt) ! k = nt_mP nt ! k" "nt_mG1 (longer_tables p g1 g2 g3 nt) ! k = nt_mG1 nt ! k"
    "nt_mG2 (longer_tables p g1 g2 g3 nt) ! k = nt_mG2 nt ! k" "nt_mG3 (longer_tables p g1 g2 g3 nt) ! k = nt_mG3 nt ! k"
  using assms by (simp_all add: longer_tables_def tables_ok_def nth_append)

lemma entry_less: "tables_ok nt \<Longrightarrow> k < 514 \<Longrightarrow> nt_mP nt ! k < 256"
  by (simp add: tables_ok_def)

lemma sum_less: "tables_ok nt \<Longrightarrow> k < 514 \<Longrightarrow> b < 256 \<Longrightarrow> nt_mP nt ! k + b < 514"
  using entry_less [of nt k] by simp

lemma noise1_longer:
  assumes ok: "tables_ok nt"
  shows "noise1 (longer_tables p g1 g2 g3 nt) x = noise1 nt x"
proof (cases "noise_setup x")
  case (Inr s)
  obtain b0 b1 r0 r1 where s: "noise_setup x = Inr (b0, b1, r0, r1)" using Inr by (cases s) auto
  have b: "b0 < 514" "b1 < 514" using setup_cells [OF s] by simp_all
  have e: "nt_mP nt ! b0 < 514" "nt_mP nt ! b1 < 514" using entry_less [OF ok b(1)] entry_less [OF ok b(2)] by simp_all
  show ?thesis using longer_reads [OF ok] b e by (simp add: noise1_def s Let_def)
qed (simp add: noise1_def)

lemma noise2_longer:
  assumes ok: "tables_ok nt"
  shows "noise2 (longer_tables p g1 g2 g3 nt) v = noise2 nt v"
proof (cases "noise_setup (x2 v)")
  case (Inr s)
  obtain b0 b1 r0 r1 where s: "noise_setup (x2 v) = Inr (b0, b1, r0, r1)" using Inr by (cases s) auto
  show ?thesis
  proof (cases "noise_setup (y2 v)")
    case (Inr t)
    obtain c0 c1 q0 q1 where t: "noise_setup (y2 v) = Inr (c0, c1, q0, q1)" using Inr by (cases t) auto
    have b: "b0 < 514" "b1 < 514" and c: "c0 < 256" "c1 < 256" using setup_cells [OF s] setup_cells [OF t] by simp_all
    note sums = sum_less [OF ok b(1) c(1)] sum_less [OF ok b(1) c(2)] sum_less [OF ok b(2) c(1)] sum_less [OF ok b(2) c(2)]
    have e: "nt_mP nt ! k < 514" if "k < 514" for k using entry_less [OF ok that] by simp
    show ?thesis using longer_reads [OF ok] b sums e [OF sums(1)] e [OF sums(2)] e [OF sums(3)] e [OF sums(4)]
      by (simp add: noise2_def s t Let_def)
  qed (simp add: noise2_def s)
qed (simp add: noise2_def)

lemma noise3_longer:
  assumes ok: "tables_ok nt"
  shows "noise3 (longer_tables p g1 g2 g3 nt) v = noise3 nt v"
proof (cases "noise_setup (x3 v)")
  case (Inr s)
  obtain b0 b1 r0 r1 where s: "noise_setup (x3 v) = Inr (b0, b1, r0, r1)" using Inr by (cases s) auto
  show ?thesis
  proof (cases "noise_setup (y3 v)")
    case (Inr t)
    obtain c0 c1 q0 q1 where t: "noise_setup (y3 v) = Inr (c0, c1, q0, q1)" using Inr by (cases t) auto
    show ?thesis
    proof (cases "noise_setup (z3 v)")
      case (Inr u)
      obtain d0 d1 w0 w1 where u: "noise_setup (z3 v) = Inr (d0, d1, w0, w1)" using Inr by (cases u) auto
      have b: "b0 < 514" "b1 < 514" and c: "c0 < 256" "c1 < 256" and d: "d0 < 256" "d1 < 256"
        using setup_cells [OF s] setup_cells [OF t] setup_cells [OF u] by simp_all
      note sums = sum_less [OF ok b(1) c(1)] sum_less [OF ok b(1) c(2)] sum_less [OF ok b(2) c(1)] sum_less [OF ok b(2) c(2)]
      note last = sum_less [OF ok sums(1) d(1)] sum_less [OF ok sums(2) d(1)] sum_less [OF ok sums(3) d(1)] sum_less [OF ok sums(4) d(1)]
        sum_less [OF ok sums(1) d(2)] sum_less [OF ok sums(2) d(2)] sum_less [OF ok sums(3) d(2)] sum_less [OF ok sums(4) d(2)]
      show ?thesis using longer_reads [OF ok] b sums last by (simp add: noise3_def s t u Let_def)
    qed (simp add: noise3_def s t)
  qed (simp add: noise3_def s)
qed (simp add: noise3_def)

text \<open>
  C39: the tables of the noise. Whatever \<open>rand\<close> returns, the first 256 entries of the permutation
  are a permutation of 0 to 255, it has 514 entries and none is above 255; it does not depend on the
  gradients. When every gradient of two and three coordinates can be normalised (a zero gradient
  makes the code go on with NaN, which the model does not follow), all tables have 514 entries and
  the noise functions read only inside them, for any argument: whatever lies behind the tables,
  their results are the same.
\<close>

theorem noise_tables_ok:
  shows "mset (take noise_B (noise_perm rand)) = mset [0..<noise_B] \<and> length (noise_perm rand) = 2 * noise_B + 2
    \<and> (\<forall>k < 2 * noise_B + 2. noise_perm rand ! k < noise_B)
    \<and> (noise_init rand = Inr nt \<longrightarrow> nt_mP nt = noise_perm rand \<and> length (nt_mG1 nt) = 2 * noise_B + 2
        \<and> length (nt_mG2 nt) = 2 * noise_B + 2 \<and> length (nt_mG3 nt) = 2 * noise_B + 2
        \<and> noise1 (longer_tables p g1 g2 g3 nt) x = noise1 nt x \<and> noise2 (longer_tables p g1 g2 g3 nt) v = noise2 nt v
        \<and> noise3 (longer_tables p g1 g2 g3 nt) w = noise3 nt w)"
  using noise_perm_facts(1,2) [of rand] noise_perm_facts(3) noise_init_tables [of rand nt] noise_init_ok [of rand nt]
    noise1_longer noise2_longer noise3_longer by blast

lemma setup_lattice: "int32 (k + 4096) \<Longrightarrow> noise_setup (of_int k) = Inr (nat ((k + 4096) mod 256), (nat ((k + 4096) mod 256) + 1) mod 256, 0, - 1)"
proof -
  assume i: "int32 (k + 4096)"
  have "c_int (of_int k + of_nat noise_N) = k + 4096"
  proof -
    have "(of_int k + of_nat noise_N :: real) = of_int (k + 4096)" by (simp add: noise_N_def)
    show ?thesis unfolding \<open>of_int k + of_nat noise_N = of_int (k + 4096)\<close> c_int_def by simp
  qed
  then show ?thesis using i by (simp add: noise_setup_def noise_N_def noise_B_def Let_def)
qed

text \<open>C1: the noise of one, two and three coordinates is zero at every point of the lattice.\<close>

theorem noise_zero_on_lattice:
  assumes "int32 (k + 4096)" and "int32 (l + 4096)" and "int32 (j + 4096)"
  shows "noise1 nt (of_int k) = Inr 0 \<and> noise2 nt (Vec2 (of_int k) (of_int l)) = Inr 0
    \<and> noise3 nt (Vec3 (of_int k) (of_int l) (of_int j)) = Inr 0"
  by (simp_all add: noise1_def noise2_def noise3_def setup_lattice assms noise_lerp_def s_curve_def Let_def)

theorem noise_zero_on_lattice_witness:
  "noise1 \<lparr>nt_mP = [], nt_mG1 = [], nt_mG2 = [], nt_mG3 = []\<rparr> (of_int 3) = Inr 0"
  using noise_zero_on_lattice [of 3 0 0] by (simp add: int32_def)

lemma res_map_all: "(\<And>x. x \<in> set xs \<Longrightarrow> f x = Inr (g x)) \<Longrightarrow> res_map f xs = Inr (map g xs)"
  by (induction xs) simp_all

lemma init_const_rand: "\<exists>nt. noise_init (\<lambda>_. 0) = Inr nt"
proof -
  have r: "rand_signed 0 = - 1" by (simp add: rand_signed_def noise_B_def)
  have "\<exists>v. normalize2 (Vec2 (- 1) (- 1)) = Inr v" "\<exists>v. normalize3 (Vec3 (- 1) (- 1) (- 1)) = Inr v"
    by (simp_all add: normalize2_def normalize3_def DSqrt_def Let_def)
  then obtain v w where "normalize2 (Vec2 (- 1) (- 1)) = Inr v" "normalize3 (Vec3 (- 1) (- 1) (- 1)) = Inr w" by blast
  then show ?thesis
    by (simp add: noise_init_def init_G2_def init_G3_def r res_map_all [of _ _ "\<lambda>_. v"] res_map_all [of _ _ "\<lambda>_. w"])
qed

theorem noise_tables_ok_witness:
  "\<exists>nt. noise_init (\<lambda>_. 0) = Inr nt \<and> mset (take noise_B (nt_mP nt)) = mset [0..<noise_B] \<and> nt_mP nt ! 513 < noise_B
     \<and> noise3 (longer_tables [1000] [] [] [] nt) (Vec3 (1 / 2) 3 (7 / 2)) = noise3 nt (Vec3 (1 / 2) 3 (7 / 2))"
proof -
  obtain nt where nt: "noise_init (\<lambda>_. 0) = Inr nt" using init_const_rand by blast
  note ok = noise_tables_ok [of "\<lambda>_. 0" nt "[1000]" "[]" "[]" "[]" _ _ "Vec3 (1 / 2) 3 (7 / 2)"]
  then have "nt_mP nt ! 513 < noise_B" using nt by (simp add: noise_B_def)
  then show ?thesis using ok nt by auto
qed

lemma s_curve_range: "0 \<le> t \<Longrightarrow> t \<le> 1 \<Longrightarrow> 0 \<le> s_curve t \<and> s_curve t \<le> 1"
proof -
  assume t: "0 \<le> t" "t \<le> 1"
  have "1 - s_curve t = (1 - t) * (1 - t) * (1 + 2 * t)" by (simp add: s_curve_def algebra_simps)
  moreover have "0 \<le> (1 - t) * (1 - t) * (1 + 2 * t)" using t by simp
  ultimately have "s_curve t \<le> 1" by linarith
  then show ?thesis using t by (simp add: s_curve_def)
qed

lemma noise_lerp_range:
  assumes "0 \<le> t" "t \<le> 1" "\<bar>a\<bar> \<le> 1" "\<bar>b\<bar> \<le> 1"
  shows "\<bar>noise_lerp t a b\<bar> \<le> 1"
proof -
  have "noise_lerp t a b = (1 - t) * a + t * b" by (simp add: noise_lerp_def algebra_simps)
  moreover have "\<bar>(1 - t) * a\<bar> \<le> 1 - t" "\<bar>t * b\<bar> \<le> t" using assms by (simp_all add: abs_mult mult_left_le)
  ultimately show ?thesis by linarith
qed

lemma rand_signed_range: "\<bar>rand_signed r\<bar> \<le> 1"
proof -
  have "r mod 512 < 512" by simp
  then have "\<bar>real (r mod 512) - 256\<bar> \<le> 256" by linarith
  then show ?thesis by (simp add: rand_signed_def noise_B_def abs_divide)
qed

text \<open>
  From -4096 on, where the truncation to int rounds down, the noise of one coordinate is
  between -1 and 1 and its SIMD form between 0 and 1.
\<close>

theorem noise1_range:
  assumes i: "noise_init rand = Inr nt" and x: "- 4096 \<le> x" and n: "noise1 nt x = Inr r"
  shows "\<bar>r\<bar> \<le> 1 \<and> 0 \<le> unit_range r \<and> unit_range r \<le> 1"
proof -
  obtain b0 b1 r0 r1 where s: "noise_setup x = Inr (b0, b1, r0, r1)"
    and r: "r = noise_lerp (s_curve r0) (r0 * nt_mG1 nt ! (nt_mP nt ! b0)) (r1 * nt_mG1 nt ! (nt_mP nt ! b1))"
    using n by (auto simp: noise1_def res_bind_eq_Inr Let_def)
  have c: "c_int (x + of_nat noise_N) = \<lfloor>x + of_nat noise_N\<rfloor>" using x by (simp add: c_int_def noise_N_def)
  have b: "b0 < 256" "b1 < 256" and r0: "r0 = frac (x + of_nat noise_N)" and r1: "r1 = r0 - 1"
    using s by (auto simp: noise_setup_def Let_def c noise_B_def frac_def split: if_splits)
  have f: "0 \<le> r0" "r0 < 1" unfolding r0 by (simp_all add: frac_lt_1)
  have "nt_mG1 nt = doubled (init_G1 rand)" using i by (auto simp: noise_init_def res_bind_eq_Inr)
  then have G: "\<bar>nt_mG1 nt ! k\<bar> \<le> 1" if "k < 256" for k
    using that rand_signed_range by (simp add: doubled_def nth_append init_G1_def noise_B_def)
  have "nt_mP nt ! b0 < 256" "nt_mP nt ! b1 < 256" using noise_init_entries [OF i] b by (simp_all add: noise_B_def)
  then have "\<bar>nt_mG1 nt ! (nt_mP nt ! b0)\<bar> \<le> 1" "\<bar>nt_mG1 nt ! (nt_mP nt ! b1)\<bar> \<le> 1" using G by simp_all
  then have "\<bar>r0 * nt_mG1 nt ! (nt_mP nt ! b0)\<bar> \<le> 1" "\<bar>r1 * nt_mG1 nt ! (nt_mP nt ! b1)\<bar> \<le> 1"
    using f r1 by (simp_all add: abs_mult mult_le_one)
  then have "\<bar>r\<bar> \<le> 1" unfolding r using s_curve_range [of r0] f by (intro noise_lerp_range) simp_all
  then show ?thesis unfolding unit_range_def by linarith
qed

theorem noise1_range_witness: "\<exists>nt. noise_init (\<lambda>_. 0) = Inr nt \<and> noise1 nt (of_int 3) = Inr 0 \<and> unit_range 0 \<le> 1"
proof -
  obtain nt where nt: "noise_init (\<lambda>_. 0) = Inr nt" using init_const_rand by blast
  have z: "noise1 nt (of_int 3) = Inr 0" by (simp add: noise1_def setup_lattice [of 3, simplified] int32_def noise_lerp_def s_curve_def)
  then show ?thesis using noise1_range [OF nt _ z] nt by simp
qed

end
