(* ===== verification/RRAsm.thy ===== *)
theory RRAsm
  imports RiShading MemFile
begin

text \<open>
  The assembler of the shader machine: the instruction set (\<open>RI_RRASM_OpCodeDefs.h/.cpp\<close>), the code
  words and the shader object (\<open>RI_SVM_Shader.h\<close>), and the parser of \<open>.rrasm\<close> files
  (\<open>RI_RRASM_Parser.h/.cpp\<close>) with the string helpers it calls (\<open>DUtils_Str.cpp\<close>). Code addresses
  are \<^typ>\<open>nat\<close>: code of \<open>2^32\<close> words does not fit in memory. The sixteen bits of
  \<open>mFuncopEndAddr\<close>, which large code does leave, are kept. \<open>INVALID_PC\<close> is \<open>None\<close>.
\<close>

section \<open>Strings\<close>

definition IsWhite :: "char \<Rightarrow> bool" where
  "IsWhite ch = (ch = CHR '' '' \<or> ch = CHR 0x09 \<or> ch = CHR 0x0A \<or> ch = CHR 0x0D \<or> ch = CHR 0x0C)"

definition StrStripBeginEndWhite :: "string \<Rightarrow> string" where
  "StrStripBeginEndWhite pStr = dropWhile IsWhite (rev (dropWhile IsWhite (rev pStr)))"

text \<open>The index of the first match without regard to case.\<close>

fun StrStrI_from :: "string \<Rightarrow> string \<Rightarrow> nat \<Rightarrow> nat option" where
  "StrStrI_from [] pSearch i = None"
| "StrStrI_from (c # cs) pSearch i =
     (if ci_prefix pSearch (c # cs) then Some i else StrStrI_from cs pSearch (Suc i))"

definition StrStrI :: "string \<Rightarrow> string \<Rightarrow> nat option" where
  "StrStrI pStr pSearch = (if pSearch = [] then Some 0 else StrStrI_from pStr pSearch 0)"

text \<open>\<open>strstr\<close> finds the first match; it is the start of the string exactly for a prefix.\<close>

definition strstr_at_start :: "string \<Rightarrow> string \<Rightarrow> bool" where
  "strstr_at_start pStr pMatch = (take (length pMatch) pStr = pMatch)"

text \<open>
  One call of \<open>strtok_r\<close>: the token, and the string its context then points to, the one after the
  separator that ended the token.
\<close>

definition strtok_r :: "(char \<Rightarrow> bool) \<Rightarrow> string \<Rightarrow> (string \<times> string) option" where
  "strtok_r sep s =
     (case dropWhile sep s of
        [] \<Rightarrow> None
      | t \<Rightarrow> Some (takeWhile (\<lambda>c. \<not> sep c) t, drop 1 (dropWhile (\<lambda>c. \<not> sep c) t)))"

text \<open>\<open>sscanf\<close> with \<open>%u\<close>: blanks, a sign, digits; the value is reduced to 32 bits.\<close>

definition sscanf_u :: "string \<Rightarrow> nat option" where
  "sscanf_u s =
     (case strip_sign (dropWhile c_isspace s) of (neg, r) \<Rightarrow>
        let ds = takeWhile c_isdigit r in
        if ds = [] then None
        else Some (nat ((if neg then - int (dec_nat ds) else int (dec_nat ds)) mod 2 ^ 32)))"

text \<open>\<open>sscanf\<close> with one \<open>%f\<close>: the number and what follows it.\<close>

definition exponent_rest :: "(char \<Rightarrow> bool) \<Rightarrow> string \<Rightarrow> string" where
  "exponent_rest is_mark s =
     (case s of [] \<Rightarrow> [] | c # cs \<Rightarrow> if is_mark c then dropWhile c_isdigit (snd (strip_sign cs)) else s)"

definition number_rest :: "string \<Rightarrow> string" where
  "number_rest r =
     (if ci_prefix ''infinity'' r then drop 8 r
      else if ci_prefix ''inf'' r \<or> ci_prefix ''nan'' r then drop 3 r
      else if ci_prefix ''0x'' r \<and>
              (case mantissa_split c_isxdigit (drop 2 r) of (ip, fp, _) \<Rightarrow> ip \<noteq> [] \<or> fp \<noteq> [])
      then exponent_rest (\<lambda>c. c = CHR ''p'' \<or> c = CHR ''P'') (snd (snd (mantissa_split c_isxdigit (drop 2 r))))
      else exponent_rest (\<lambda>c. c = CHR ''e'' \<or> c = CHR ''E'') (snd (snd (mantissa_split c_isdigit r))))"

definition scan_f :: "string \<Rightarrow> (flt \<times> string) option" where
  "scan_f s =
     (case strtod s of
        Some (f, False) \<Rightarrow> Some (f, number_rest (snd (strip_sign (dropWhile c_isspace s))))
      | _ \<Rightarrow> None)"

text \<open>\<open>sscanf\<close> with \<open>n\<close> of them: it stops at the first that does not match.\<close>

fun scan_floats :: "nat \<Rightarrow> string \<Rightarrow> flt list" where
  "scan_floats 0 s = []"
| "scan_floats (Suc n) s = (case scan_f s of None \<Rightarrow> [] | Some (f, r) \<Rightarrow> f # scan_floats n r)"

section \<open>The instruction set\<close>

definition OPC_FLG_1STISDEST :: U32 where "OPC_FLG_1STISDEST = 1"
definition OPC_FLG_RIGHTISIMM :: U32 where "OPC_FLG_RIGHTISIMM = 2"
definition OPC_FLG_UNIFORMOPERS :: U32 where "OPC_FLG_UNIFORMOPERS = 4"
definition OPC_FLG_FUNCOP_BEGIN :: U32 where "OPC_FLG_FUNCOP_BEGIN = 8"
definition OPC_FLG_FUNCOP_MIDDLE :: U32 where "OPC_FLG_FUNCOP_MIDDLE = 16"
definition OPC_FLG_FUNCOP_END :: U32 where "OPC_FLG_FUNCOP_END = 32"
definition OPC_FLG_DIRPOSLIGHT :: U32 where "OPC_FLG_DIRPOSLIGHT = 64"

record OpCodeDef =
  od_pName :: string
  od_OperCnt :: nat
  od_Flags :: U32
  od_Types :: "SymType list"

definition has_flag :: "OpCodeDef \<Rightarrow> U32 \<Rightarrow> bool" where
  "has_flag d f = (od_Flags d AND f \<noteq> 0)"

text \<open>One row of the table.\<close>

definition od :: "string \<Rightarrow> nat \<Rightarrow> U32 \<Rightarrow> SymType list \<Rightarrow> OpCodeDef" where
  "od n c f ts = \<lparr>od_pName = n, od_OperCnt = c, od_Flags = f, od_Types = ts\<rparr>"

abbreviation (input) "NA \<equiv> TYP_UNKNOWN"
abbreviation (input) "F1 \<equiv> TYP_FLOAT"
abbreviation (input) "F2 \<equiv> TYP_FLOAT2"
abbreviation (input) "F3 \<equiv> TYP_POINT"
abbreviation (input) "F4 \<equiv> TYP_HPOINT"
abbreviation (input) "M44 \<equiv> TYP_MATRIX"
abbreviation (input) "TSTR \<equiv> TYP_STRING"
abbreviation (input) "BL \<equiv> TYP_BOOL"
abbreviation (input) "ADR \<equiv> TYP_ADDR"

definition gOpCodeDefs :: "OpCodeDef list" where
  "gOpCodeDefs =
    [od ''ret'' 0 0 [NA, NA, NA, NA, NA],
     od ''mov.ss'' 2 OPC_FLG_1STISDEST [F1, F1, NA, NA, NA],
     od ''mov.vs'' 2 OPC_FLG_1STISDEST [F3, F1, NA, NA, NA],
     od ''mov.vv'' 2 OPC_FLG_1STISDEST [F3, F3, NA, NA, NA],
     od ''mov.xx'' 2 OPC_FLG_1STISDEST [TSTR, TSTR, NA, NA, NA],
     od ''mov.bb'' 2 OPC_FLG_1STISDEST [BL, BL, NA, NA, NA],
     od ''abs.ss'' 2 OPC_FLG_1STISDEST [F1, F1, NA, NA, NA],
     od ''abs.vs'' 2 OPC_FLG_1STISDEST [F3, F1, NA, NA, NA],
     od ''abs.vv'' 2 OPC_FLG_1STISDEST [F3, F3, NA, NA, NA],
     od ''sign.ss'' 2 OPC_FLG_1STISDEST [F1, F1, NA, NA, NA],
     od ''add.sss'' 3 OPC_FLG_1STISDEST [F1, F1, F1, NA, NA],
     od ''add.vvs'' 3 OPC_FLG_1STISDEST [F3, F3, F1, NA, NA],
     od ''add.vsv'' 3 OPC_FLG_1STISDEST [F3, F1, F3, NA, NA],
     od ''add.vvv'' 3 OPC_FLG_1STISDEST [F3, F3, F3, NA, NA],
     od ''sub.sss'' 3 OPC_FLG_1STISDEST [F1, F1, F1, NA, NA],
     od ''sub.vvs'' 3 OPC_FLG_1STISDEST [F3, F3, F1, NA, NA],
     od ''sub.vsv'' 3 OPC_FLG_1STISDEST [F3, F1, F3, NA, NA],
     od ''sub.vvv'' 3 OPC_FLG_1STISDEST [F3, F3, F3, NA, NA],
     od ''mul.sss'' 3 OPC_FLG_1STISDEST [F1, F1, F1, NA, NA],
     od ''mul.vvs'' 3 OPC_FLG_1STISDEST [F3, F3, F1, NA, NA],
     od ''mul.vsv'' 3 OPC_FLG_1STISDEST [F3, F1, F3, NA, NA],
     od ''mul.vvv'' 3 OPC_FLG_1STISDEST [F3, F3, F3, NA, NA],
     od ''div.sss'' 3 OPC_FLG_1STISDEST [F1, F1, F1, NA, NA],
     od ''div.vvs'' 3 OPC_FLG_1STISDEST [F3, F3, F1, NA, NA],
     od ''div.vsv'' 3 OPC_FLG_1STISDEST [F3, F1, F3, NA, NA],
     od ''div.vvv'' 3 OPC_FLG_1STISDEST [F3, F3, F3, NA, NA],
     od ''pow.sss'' 3 OPC_FLG_1STISDEST [F1, F1, F1, NA, NA],
     od ''mov.vs3'' 4 OPC_FLG_1STISDEST [F3, F1, F1, F1, NA],
     od ''dot.svv'' 3 OPC_FLG_1STISDEST [F1, F3, F3, NA, NA],
     od ''length.sv'' 2 OPC_FLG_1STISDEST [F1, F3, NA, NA, NA],
     od ''min.sss'' 3 OPC_FLG_1STISDEST [F1, F1, F1, NA, NA],
     od ''min.vvv'' 3 OPC_FLG_1STISDEST [F3, F3, F3, NA, NA],
     od ''max.sss'' 3 OPC_FLG_1STISDEST [F1, F1, F1, NA, NA],
     od ''max.vvv'' 3 OPC_FLG_1STISDEST [F3, F3, F3, NA, NA],
     od ''ld.s'' 2 (OPC_FLG_1STISDEST OR OPC_FLG_RIGHTISIMM) [F1, F1, NA, NA, NA],
     od ''ld.v'' 4 (OPC_FLG_1STISDEST OR OPC_FLG_RIGHTISIMM) [F3, F1, F1, F1, NA],
     od ''cmplt.ssl'' 3 (OPC_FLG_UNIFORMOPERS) [F1, F1, ADR, NA, NA],
     od ''setle.bss'' 3 OPC_FLG_1STISDEST [BL, F1, F1, NA, NA],
     od ''setge.bss'' 3 OPC_FLG_1STISDEST [BL, F1, F1, NA, NA],
     od ''setlt.bss'' 3 OPC_FLG_1STISDEST [BL, F1, F1, NA, NA],
     od ''setgt.bss'' 3 OPC_FLG_1STISDEST [BL, F1, F1, NA, NA],
     od ''seteq.bss'' 3 OPC_FLG_1STISDEST [BL, F1, F1, NA, NA],
     od ''seteq.bvv'' 3 OPC_FLG_1STISDEST [BL, F3, F3, NA, NA],
     od ''seteq.bhh'' 3 OPC_FLG_1STISDEST [BL, F4, F4, NA, NA],
     od ''seteq.bmm'' 3 OPC_FLG_1STISDEST [BL, M44, M44, NA, NA],
     od ''seteq.bxx'' 3 OPC_FLG_1STISDEST [BL, TSTR, TSTR, NA, NA],
     od ''seteq.bbb'' 3 OPC_FLG_1STISDEST [BL, BL, BL, NA, NA],
     od ''setne.bss'' 3 OPC_FLG_1STISDEST [BL, F1, F1, NA, NA],
     od ''setne.bvv'' 3 OPC_FLG_1STISDEST [BL, F3, F3, NA, NA],
     od ''setne.bhh'' 3 OPC_FLG_1STISDEST [BL, F4, F4, NA, NA],
     od ''setne.bmm'' 3 OPC_FLG_1STISDEST [BL, M44, M44, NA, NA],
     od ''setne.bxx'' 3 OPC_FLG_1STISDEST [BL, TSTR, TSTR, NA, NA],
     od ''setne.bbb'' 3 OPC_FLG_1STISDEST [BL, BL, BL, NA, NA],
     od ''noise.ss'' 2 OPC_FLG_1STISDEST [F1, F1, NA, NA, NA],
     od ''noise.sv2'' 2 OPC_FLG_1STISDEST [F1, F2, NA, NA, NA],
     od ''noise.sv'' 2 OPC_FLG_1STISDEST [F1, F3, NA, NA, NA],
     od ''noise.vs'' 2 OPC_FLG_1STISDEST [F3, F1, NA, NA, NA],
     od ''noise.vv2'' 2 OPC_FLG_1STISDEST [F3, F2, NA, NA, NA],
     od ''noise.vv'' 2 OPC_FLG_1STISDEST [F3, F3, NA, NA, NA],
     od ''xcomp.sv'' 2 OPC_FLG_1STISDEST [F1, F3, NA, NA, NA],
     od ''ycomp.sv'' 2 OPC_FLG_1STISDEST [F1, F3, NA, NA, NA],
     od ''zcomp.sv'' 2 OPC_FLG_1STISDEST [F1, F3, NA, NA, NA],
     od ''setxcomp.vs'' 2 OPC_FLG_1STISDEST [F3, F1, NA, NA, NA],
     od ''setycomp.vs'' 2 OPC_FLG_1STISDEST [F3, F1, NA, NA, NA],
     od ''setzcomp.vs'' 2 OPC_FLG_1STISDEST [F3, F1, NA, NA, NA],
     od ''pxformname.vxv'' 3 OPC_FLG_1STISDEST [F3, TSTR, F3, NA, NA],
     od ''vxformname.vxv'' 3 OPC_FLG_1STISDEST [F3, TSTR, F3, NA, NA],
     od ''nxformname.vxv'' 3 OPC_FLG_1STISDEST [F3, TSTR, F3, NA, NA],
     od ''cxformname.vxv'' 3 OPC_FLG_1STISDEST [F3, TSTR, F3, NA, NA],
     od ''normalize'' 2 OPC_FLG_1STISDEST [F3, F3, NA, NA, NA],
     od ''faceforward'' 3 OPC_FLG_1STISDEST [F3, F3, F3, NA, NA],
     od ''ambient'' 1 OPC_FLG_1STISDEST [F3, NA, NA, NA, NA],
     od ''calculatenormal'' 2 OPC_FLG_1STISDEST [F3, F3, NA, NA, NA],
     od ''solarbegin'' 0 (OPC_FLG_DIRPOSLIGHT OR OPC_FLG_FUNCOP_BEGIN) [NA, NA, NA, NA, NA],
     od ''solarbegin.vs'' 2 (OPC_FLG_DIRPOSLIGHT OR OPC_FLG_FUNCOP_BEGIN) [F3, F1, NA, NA, NA],
     od ''illuminance.v'' 1 (OPC_FLG_DIRPOSLIGHT OR OPC_FLG_FUNCOP_BEGIN) [F3, NA, NA, NA, NA],
     od ''illuminance.vvs'' 3 (OPC_FLG_DIRPOSLIGHT OR OPC_FLG_FUNCOP_BEGIN) [F3, F3, F1, NA, NA],
     od ''funcopend'' 0 OPC_FLG_FUNCOP_END [NA, NA, NA, NA, NA],
     od ''iftrue.b'' 1 OPC_FLG_FUNCOP_BEGIN [BL, NA, NA, NA, NA],
     od ''orelse'' 0 OPC_FLG_FUNCOP_MIDDLE [NA, NA, NA, NA, NA],
     od ''texture.sx'' 2 OPC_FLG_1STISDEST [F1, TSTR, F1, F1, NA],
     od ''texture.vx'' 2 OPC_FLG_1STISDEST [F3, TSTR, F1, F1, NA],
     od ''texture.sxss'' 4 OPC_FLG_1STISDEST [F1, TSTR, F1, F1, NA],
     od ''texture.vxss'' 4 OPC_FLG_1STISDEST [F3, TSTR, F1, F1, NA]]"

section \<open>Code\<close>

record OpCode =
  oc_mTableOffset :: nat
  oc_mOperandCount :: nat
  oc_mFuncopEndAddr :: U16
  oc_mDbgLineNum :: nat

definition INVALID_ADDR :: U16 where "INVALID_ADDR = 0xFFFF"

record SymbolWord =
  sw_mTableOffset :: nat
  sw_mIsVarying :: bool

text \<open>The union of the four kinds of words; \<open>mpOrigSymbol\<close> is never read.\<close>

datatype CPUWord = W_OpCode OpCode | W_Symbol SymbolWord | W_Address nat | W_ImmFloat flt

datatype ShaderType =
    TYPE_UNKNOWN | TYPE_LIGHT | TYPE_SURFACE | TYPE_VOLUME | TYPE_DISPLACEMENT | TYPE_TRANSFORMATION | TYPE_IMAGER

text \<open>\<open>SVM::Shader\<close>: what the state uses of it, and the program.\<close>

record SvmShader = Shader +
  sh_mType :: ShaderType
  sh_mpShaSyms :: "Symbol list"
  sh_mpShaSymsStartPCs :: "nat option list"
  sh_mStartPC :: "nat option"
  sh_mCode :: "CPUWord list"

definition SvmShader_new :: "string \<Rightarrow> SvmShader" where
  "SvmShader_new pName = \<lparr>shd_mName = pName, mHasDirPosInstructions = False, sh_mType = TYPE_UNKNOWN,
     sh_mpShaSyms = [], sh_mpShaSymsStartPCs = [], sh_mStartPC = None, sh_mCode = []\<rparr>"

section \<open>The state of the parser\<close>

datatype Section = SEC_UNDEF | SEC_DATA | SEC_CODE

record Label =
  lb_mName :: string
  lb_mAddress :: nat

record Asm =
  as_mpShader :: SvmShader
  as_mLabelDefs :: "Label list"
  as_mLabelRefs :: "Label list"
  as_mFuncOpBeginIdx :: "nat list"

definition Asm_new :: "SvmShader \<Rightarrow> Asm" where
  "Asm_new sh = \<lparr>as_mpShader = sh, as_mLabelDefs = [], as_mLabelRefs = [], as_mFuncOpBeginIdx = []\<rparr>"

text \<open>\<open>onError\<close> prints and throws; the shader under construction is then destroyed.\<close>

definition onError :: "string \<Rightarrow> 'a res" where
  "onError msg = Inl (Runtime_error msg)"

definition add_symbol :: "Symbol \<Rightarrow> SvmShader \<Rightarrow> SvmShader" where
  "add_symbol sy sh = sh\<lparr>sh_mpShaSyms := sh_mpShaSyms sh @ [sy],
     sh_mpShaSymsStartPCs := sh_mpShaSymsStartPCs sh @ [None]\<rparr>"

definition push_word :: "CPUWord \<Rightarrow> Asm \<Rightarrow> Asm" where
  "push_word w a = a\<lparr>as_mpShader := (as_mpShader a)\<lparr>sh_mCode := sh_mCode (as_mpShader a) @ [w]\<rparr>\<rparr>"

definition code_size :: "Asm \<Rightarrow> nat" where
  "code_size a = length (sh_mCode (as_mpShader a))"

section \<open>Lines\<close>

fun stripComments :: "string \<Rightarrow> string" where
  "stripComments [] = []"
| "stripComments (c # cs) =
     (if c = CHR '';'' then []
      else if c = CHR ''/'' \<and> (case cs of d # _ \<Rightarrow> d = CHR ''/'' | [] \<Rightarrow> False) then []
      else c # stripComments cs)"

definition beginsWithTokenI :: "string \<Rightarrow> string \<Rightarrow> bool" where
  "beginsWithTokenI pStr pMatch =
     (if length pStr > length pMatch \<and> StrStrI pStr pMatch = Some 0
      then pStr ! length pMatch \<in> {CHR '' '', CHR 0x09, CHR 0x0A, CHR 0x0D, CHR 0x0C}
      else False)"

definition shader_type_names :: "(string \<times> ShaderType) list" where
  "shader_type_names =
     [(''light'', TYPE_LIGHT), (''surface'', TYPE_SURFACE), (''volume'', TYPE_VOLUME),
      (''displacement'', TYPE_DISPLACEMENT), (''transformation'', TYPE_TRANSFORMATION), (''imager'', TYPE_IMAGER)]"

definition handleShaderTypeDef :: "string \<Rightarrow> Section \<Rightarrow> Asm \<Rightarrow> (bool \<times> Asm) res" where
  "handleShaderTypeDef pLineWork curSection a =
     (case find (\<lambda>(n, _). strcasecmp_eq pLineWork n) shader_type_names of
        None \<Rightarrow>
          if list_ex (\<lambda>(n, _). beginsWithTokenI pLineWork n) shader_type_names
          then onError ''Shader start/type needs to be defined alone in a line''
          else Inr (False, a)
      | Some (_, type) \<Rightarrow>
          if sh_mType (as_mpShader a) \<noteq> TYPE_UNKNOWN then onError ''Shader start/type already defined !''
          else if curSection \<noteq> SEC_CODE then onError ''Shader type must be defined in the .code block''
          else Inr (True, a\<lparr>as_mpShader := (as_mpShader a)\<lparr>sh_mType := type\<rparr>\<rparr>))"

section \<open>The data section\<close>

definition getVector :: "string \<Rightarrow> nat \<Rightarrow> real list res" where
  "getVector pStr n =
     (let vs = scan_floats n pStr in
      if length vs \<noteq> n \<and> length vs \<noteq> 1 then onError ''Got another number of values than required''
      else reals_of (if length vs = 1 then replicate n (vs ! 0) else vs))"

text \<open>
  The characters between the first two quotation marks, copied into the 256 bytes of a \<open>SlStr\<close>
  without a check.
\<close>

definition getString :: "string \<Rightarrow> string res" where
  "getString pStr =
     (case dropWhile (\<lambda>c. c \<noteq> CHR 0x22) pStr of
        [] \<Rightarrow> onError ''Malformed string ?''
      | _ # r \<Rightarrow>
          let str = takeWhile (\<lambda>c. c \<noteq> CHR 0x22) r; closed = length str < length r in
          if length str > 256 \<or> (closed \<and> length str = 256) then Inl (Undefined_behaviour ''string larger than SlStr'')
          else if closed then Inr str
          else onError ''Malformed string ?'')"

definition asm_storage :: "string \<Rightarrow> Storage option" where
  "asm_storage t =
     (if t = ''parameter'' then Some STOR_PARAMETER
      else if t = ''temporary'' then Some STOR_TEMPORARY
      else if t = ''global'' then Some STOR_GLOBAL
      else None)"

definition asm_type :: "string \<Rightarrow> SymType option" where
  "asm_type t =
     (if t = ''float'' then Some TYP_FLOAT
      else if t = ''point'' then Some TYP_POINT
      else if t = ''hpoint'' then Some TYP_HPOINT
      else if t = ''color'' then Some TYP_COLOR
      else if t = ''string'' then Some TYP_STRING
      else if t = ''vector'' then Some TYP_VECTOR
      else if t = ''normal'' then Some TYP_NORMAL
      else if t = ''matrix'' then Some TYP_MATRIX
      else None)"

text \<open>The value of a constant, \<open>pConstValueStr\<close>.\<close>

definition const_value :: "string \<Rightarrow> Symbol \<Rightarrow> Symbol res" where
  "const_value val sy =
     (case sym_mType sy of
        TYP_FLOAT \<Rightarrow> res_bind (getVector val 1) (\<lambda>fs. InitConstValue (Src_floats fs) sy)
      | TYP_COLOR \<Rightarrow> res_bind (getVector val 3) (\<lambda>fs. InitConstValue (Src_floats fs) sy)
      | TYP_POINT \<Rightarrow> res_bind (getVector val 3) (\<lambda>fs. InitConstValue (Src_floats fs) sy)
      | TYP_VECTOR \<Rightarrow> res_bind (getVector val 3) (\<lambda>fs. InitConstValue (Src_floats fs) sy)
      | TYP_NORMAL \<Rightarrow> res_bind (getVector val 3) (\<lambda>fs. InitConstValue (Src_floats fs) sy)
      | TYP_HPOINT \<Rightarrow> res_bind (getVector val 4) (\<lambda>fs. InitConstValue (Src_floats fs) sy)
      | TYP_STRING \<Rightarrow> res_bind (getString val) (\<lambda>str. InitConstValue (Src_string str) sy)
      | TYP_MATRIX \<Rightarrow> onError ''Currently unsupported default value''
      | _ \<Rightarrow> Inr sy)"

definition finish_symbol :: "string \<Rightarrow> Symbol \<Rightarrow> Symbol res" where
  "finish_symbol val sy =
     (if val \<noteq> '''' then
        if \<not> Symbol_IsConstant sy then onError ''Explicit value supported only for constants.''
        else if sym_mStorage sy = STOR_GLOBAL
        then onError ''Global storage constants should not define constant values themselves !''
        else const_value val sy
      else if Symbol_IsConstant sy \<and> sym_mStorage sy \<noteq> STOR_GLOBAL then onError ''Missing constant value''
      else Inr sy)"

text \<open>The next token, or an error when there is none.\<close>

definition expect :: "string \<Rightarrow> string \<Rightarrow> (string \<times> string) res" where
  "expect msg s = (case strtok_r blank s of None \<Rightarrow> onError msg | Some tr \<Rightarrow> Inr tr)"

definition lookup_or :: "string \<Rightarrow> 'a option \<Rightarrow> 'a res" where
  "lookup_or msg v = (case v of None \<Rightarrow> onError msg | Some x \<Rightarrow> Inr x)"

text \<open>
  After the size of an array the code does not go on to the next token: the size itself is then
  looked up as the type. The size and the array flag do not reach the symbol.
\<close>

definition array_size_ok :: "string \<Rightarrow> unit res" where
  "array_size_ok tok =
     res_bind (lookup_or ''Could not read the array size'' (sscanf_u tok)) (\<lambda>arraySize.
       if arraySize \<ge> 1024 * 1024 then onError ''Array size awfully large...'' else Inr ())"

definition parseDataLine :: "string \<Rightarrow> Asm \<Rightarrow> Asm res" where
  "parseDataLine line a =
     (case strtok_r blank line of
        None \<Rightarrow> Inr a
      | Some (nm, r) \<Rightarrow>
          res_bind (expect ''Expecting storage definition'' r) (\<lambda>(tok, r).
          res_bind (lookup_or ''Invalid storage definition'' (asm_storage tok)) (\<lambda>stor.
          res_bind (expect ''Expecting class definition'' r) (\<lambda>(tok, r).
          res_bind (lookup_or ''Invalid class definition'' (decl_class tok)) (\<lambda>cls.
          res_bind (expect ''Expecting type definition'' r) (\<lambda>(tok, r).
          res_bind (if tok = ''array''
              then res_bind (expect ''Expecting array size'' r) (\<lambda>(tok, r). res_bind (array_size_ok tok) (\<lambda>_. Inr (tok, r)))
              else Inr (tok, r)) (\<lambda>(tok, r).
          res_bind (lookup_or ''Invalid type definition'' (asm_type tok)) (\<lambda>ty.
          res_bind (finish_symbol r (Symbol_of_params
              (CtorParams_new\<lparr>cp_mpName := nm, cp_mStorage := stor, cp_mClass := cls, cp_mType := ty\<rparr>))) (\<lambda>sy.
          Inr (a\<lparr>as_mpShader := add_symbol sy (as_mpShader a)\<rparr>))))))))))"

section \<open>Symbols\<close>

fun find_from :: "('b \<Rightarrow> bool) \<Rightarrow> 'b list \<Rightarrow> nat \<Rightarrow> nat option" where
  "find_from P [] i = None"
| "find_from P (x # xs) i = (if P x then Some i else find_from P xs (Suc i))"

definition findOpDef :: "string \<Rightarrow> nat option" where
  "findOpDef pOpName = find_from (\<lambda>d. strcasecmp_eq pOpName (od_pName d)) gOpCodeDefs 0"

definition findSymbol :: "string \<Rightarrow> bool \<Rightarrow> SvmShader \<Rightarrow> nat option" where
  "findSymbol pName ignoreCase sh =
     find_from (\<lambda>s. if ignoreCase then strcasecmp_eq pName (sym_mName s) else pName = sym_mName s) (sh_mpShaSyms sh) 0"

definition reg_type :: "char \<Rightarrow> SymType option" where
  "reg_type typeLower =
     (if typeLower = CHR ''s'' then Some TYP_FLOAT
      else if typeLower = CHR ''v'' then Some TYP_VECTOR
      else if typeLower = CHR ''h'' then Some TYP_HPOINT
      else if typeLower = CHR ''m'' then Some TYP_MATRIX
      else if typeLower = CHR ''x'' then Some TYP_STRING
      else if typeLower = CHR ''b'' then Some TYP_BOOL
      else None)"

text \<open>A register like \<open>$v12\<close> or \<open>$su3\<close> is declared by its first use; \<open>None\<close> is \<open>DNPOS\<close>.\<close>

definition findOrAddTempSymbol :: "string \<Rightarrow> SvmShader \<Rightarrow> nat option \<times> SvmShader" where
  "findOrAddTempSymbol pName sh =
     (case findSymbol pName True sh of
        Some idx \<Rightarrow> (Some idx, sh)
      | None \<Rightarrow>
          let len = length pName in
          if len < 3 then (None, sh)
          else case reg_type (c_tolower (pName ! 1)) of
            None \<Rightarrow> (None, sh)
          | Some ty \<Rightarrow>
              let uniform = (pName ! 2 = CHR ''u'' \<or> pName ! 2 = CHR ''U'');
                  sy = Symbol_new\<lparr>sym_mName := pName, sym_mStorage := STOR_TEMPORARY\<rparr>;
                  sy = (if uniform then SetUniform sy else SetVarying sy) in
              if uniform \<and> len < 4 then (None, sh)
              else (Some (length (sh_mpShaSyms sh)), add_symbol (sy\<lparr>sym_mType := ty\<rparr>) sh))"

definition isTempSymbol :: "string \<Rightarrow> bool" where
  "isTempSymbol pTok = (case pTok of c # _ \<Rightarrow> c = CHR ''$'' | [] \<Rightarrow> False)"

section \<open>The code section\<close>

definition parseCode_handleOperImmediate :: "string \<Rightarrow> Asm \<Rightarrow> Asm res" where
  "parseCode_handleOperImmediate pTok a =
     (case scan_f pTok of
        None \<Rightarrow> onError ''Invalid immediate value''
      | Some (val, _) \<Rightarrow> Inr (push_word (W_ImmFloat val) a))"

definition parseCode_handleOperSymbol :: "string \<Rightarrow> OpCodeDef \<Rightarrow> nat \<Rightarrow> Asm \<Rightarrow> Asm res" where
  "parseCode_handleOperSymbol pTok pOpDef operIdx a =
     (let expectedType = od_Types pOpDef ! operIdx in
      if expectedType = TYP_ADDR then
        Inr (push_word (W_Address 0xcfcfcfcf)
          (a\<lparr>as_mLabelRefs := as_mLabelRefs a @ [\<lparr>lb_mName = pTok, lb_mAddress = code_size a\<rparr>]\<rparr>))
      else
        let (symbolIdx, sh) =
          (if isTempSymbol pTok then findOrAddTempSymbol pTok (as_mpShader a)
           else (findSymbol pTok False (as_mpShader a), as_mpShader a)) in
        case symbolIdx of
          None \<Rightarrow> onError ''Symbol unknown !''
        | Some idx \<Rightarrow>
            let sy = sh_mpShaSyms sh ! idx in
            if has_flag pOpDef OPC_FLG_UNIFORMOPERS \<and> Symbol_IsVarying sy
            then onError ''All operators must be uniform !''
            else if \<not> IsTypeCompatible (sym_mType sy) expectedType then onError ''Invalid operand type''
            else Inr (push_word (W_Symbol \<lparr>sw_mTableOffset = idx, sw_mIsVarying = Symbol_IsVarying sy\<rparr>)
              (a\<lparr>as_mpShader := sh\<rparr>)))"

text \<open>\<open>None\<close> when the token is not a label.\<close>

definition parseLabelDef :: "string \<Rightarrow> Asm \<Rightarrow> Asm option res" where
  "parseLabelDef pTok a =
     (if pTok \<noteq> [] \<and> last pTok = CHR '':'' then
        if length pTok < 2 then onError ''Label has no name ?!''
        else Inr (Some (a\<lparr>as_mLabelDefs := as_mLabelDefs a @
               [\<lparr>lb_mName = butlast pTok, lb_mAddress = code_size a\<rparr>]\<rparr>))
      else Inr None)"

definition set_funcop_end :: "nat \<Rightarrow> U16 \<Rightarrow> Asm \<Rightarrow> Asm" where
  "set_funcop_end i addr a =
     (case sh_mCode (as_mpShader a) ! i of
        W_OpCode w \<Rightarrow> a\<lparr>as_mpShader := (as_mpShader a)\<lparr>sh_mCode :=
          (sh_mCode (as_mpShader a))[i := W_OpCode (w\<lparr>oc_mFuncopEndAddr := addr\<rparr>)]\<rparr>\<rparr>
      | _ \<Rightarrow> a)"

text \<open>The innermost open construct ends at the instruction \<open>instrIdx\<close>.\<close>

definition close_funcop :: "nat \<Rightarrow> Asm \<Rightarrow> Asm res" where
  "close_funcop instrIdx a =
     (if as_mFuncOpBeginIdx a = [] then onError ''Something not matching (where did it start ?)''
      else Inr (set_funcop_end (last (as_mFuncOpBeginIdx a)) (of_nat instrIdx)
             (a\<lparr>as_mFuncOpBeginIdx := butlast (as_mFuncOpBeginIdx a)\<rparr>)))"

definition open_funcop :: "nat \<Rightarrow> Asm \<Rightarrow> Asm" where
  "open_funcop instrIdx a = a\<lparr>as_mFuncOpBeginIdx := as_mFuncOpBeginIdx a @ [instrIdx]\<rparr>"

definition handle_funcop :: "OpCodeDef \<Rightarrow> nat \<Rightarrow> Asm \<Rightarrow> Asm res" where
  "handle_funcop pOpDef instrIdx a =
     (if has_flag pOpDef OPC_FLG_FUNCOP_BEGIN then Inr (open_funcop instrIdx a)
      else if has_flag pOpDef OPC_FLG_FUNCOP_MIDDLE
      then res_bind (close_funcop instrIdx a) (\<lambda>a. Inr (open_funcop instrIdx a))
      else if has_flag pOpDef OPC_FLG_FUNCOP_END then close_funcop instrIdx a
      else Inr a)"

definition handle_dirpos :: "OpCodeDef \<Rightarrow> Asm \<Rightarrow> Asm" where
  "handle_dirpos pOpDef a =
     (if has_flag pOpDef OPC_FLG_DIRPOSLIGHT
      then a\<lparr>as_mpShader := (as_mpShader a)\<lparr>mHasDirPosInstructions := True\<rparr>\<rparr> else a)"

text \<open>The operands from number \<open>i\<close> on; \<open>n\<close> of them are left.\<close>

fun parse_operands :: "OpCodeDef \<Rightarrow> nat \<Rightarrow> nat \<Rightarrow> string \<Rightarrow> Asm \<Rightarrow> Asm res" where
  "parse_operands pOpDef i 0 s a = Inr a"
| "parse_operands pOpDef i (Suc n) s a =
     res_bind (expect ''missing operand'' s) (\<lambda>(tok, r).
       let pTok = StrStripBeginEndWhite tok in
       res_bind (if i > 0 \<and> has_flag pOpDef OPC_FLG_RIGHTISIMM then parseCode_handleOperImmediate pTok a
                 else parseCode_handleOperSymbol pTok pOpDef i a)
         (parse_operands pOpDef (Suc i) n r))"

definition new_instruction :: "nat \<Rightarrow> nat \<Rightarrow> OpCode" where
  "new_instruction opCodeIdx lineCnt =
     \<lparr>oc_mTableOffset = opCodeIdx, oc_mOperandCount = od_OperCnt (gOpCodeDefs ! opCodeIdx),
      oc_mFuncopEndAddr = INVALID_ADDR, oc_mDbgLineNum = lineCnt\<rparr>"

definition parse_instruction :: "nat \<Rightarrow> string \<Rightarrow> nat \<Rightarrow> Asm \<Rightarrow> Asm res" where
  "parse_instruction opCodeIdx r lineCnt a =
     (let pOpDef = gOpCodeDefs ! opCodeIdx; instrIdx = code_size a;
          instruction = W_OpCode (new_instruction opCodeIdx lineCnt) in
      res_bind (handle_funcop pOpDef instrIdx a) (\<lambda>a.
      res_bind (parse_operands pOpDef 0 (od_OperCnt pOpDef) r (push_word instruction (handle_dirpos pOpDef a))) (\<lambda>a.
      Inr (a\<lparr>as_mpShader := (as_mpShader a)\<lparr>sh_mCode := (sh_mCode (as_mpShader a))[instrIdx := instruction]\<rparr>\<rparr>))))"

definition parseCodeLine :: "string \<Rightarrow> nat \<Rightarrow> Asm \<Rightarrow> Asm res" where
  "parseCodeLine line lineCnt a =
     (case strtok_r blank line of
        None \<Rightarrow> Inr a
      | Some (tok, r) \<Rightarrow>
          let pTok = StrStripBeginEndWhite tok in
          res_bind (parseLabelDef pTok a) (\<lambda>lab.
            case lab of
              Some a' \<Rightarrow> Inr a'
            | None \<Rightarrow>
                res_bind (lookup_or ''Unknown opcode'' (findOpDef pTok)) (\<lambda>opCodeIdx.
                  parse_instruction opCodeIdx r lineCnt a)))"

section \<open>The file\<close>

text \<open>One line of the file; a C string ends at its first null.\<close>

definition c_string :: "bytes \<Rightarrow> string" where
  "c_string bs = map (\<lambda>b. char_of (unat b)) (takeWhile (\<lambda>b. b \<noteq> 0) bs)"

definition parse_line :: "string \<Rightarrow> nat \<Rightarrow> Section \<times> Asm \<Rightarrow> (Section \<times> Asm) res" where
  "parse_line lineBuff lineCnt = (\<lambda>(curSection, a).
     let lineWork = StrStripBeginEndWhite (stripComments lineBuff) in
     if lineWork = [] then Inr (curSection, a)
     else res_bind (handleShaderTypeDef lineWork curSection a) (\<lambda>(isType, a).
       if isType then Inr (curSection, a)
       else if strcasecmp_eq lineWork ''.data'' then Inr (SEC_DATA, a)
       else if strcasecmp_eq lineWork ''.code'' then Inr (SEC_CODE, a)
       else if curSection = SEC_DATA then res_bind (parseDataLine lineWork a) (\<lambda>a. Inr (curSection, a))
       else if curSection = SEC_CODE then res_bind (parseCodeLine lineWork lineCnt a) (\<lambda>a. Inr (curSection, a))
       else Inr (curSection, a)))"

text \<open>
  The loop over the lines. A line of 1024 characters or more makes \<open>ReadTextLine\<close> throw.
\<close>

lemma ReadTextLine_loop_pos:
  "ReadTextLine_loop src siz dm pos dest = (r, p) \<Longrightarrow> pos \<le> siz \<Longrightarrow> pos \<le> p \<and> p \<le> siz \<and> (pos < siz \<longrightarrow> pos < p)"
proof (induction src siz dm pos dest arbitrary: r p rule: ReadTextLine_loop.induct)
  case (1 src siz dm pos dest)
  show ?case
    using 1(2,3) 1(1) [OF _ refl refl]
    by (subst (asm) ReadTextLine_loop.simps) (fastforce simp: Let_def split: if_splits)
qed

lemma ReadTextLine_progress:
  assumes "MemFile_ReadTextLine n f = (Inr (Some l), f')"
  shows "unat (mf_mDataSize f') - unat (mf_mReadPos f') < unat (mf_mDataSize f) - unat (mf_mReadPos f)"
proof -
  let ?siz = "unat (mf_mDataSize f)"
  let ?pos = "unat (mf_mReadPos f)"
  obtain p d where lp: "ReadTextLine_loop (mf_mpData f) ?siz n ?pos [] = (Inr d, p)"
    and f': "f' = f\<lparr>mf_mReadPos := of_nat p\<rparr>" and pos: "?pos < ?siz"
    using assms by (auto simp: MemFile_ReadTextLine_def ReadTextLine_core_def Let_def split: if_splits prod.splits sum.splits)
  have p: "?pos < p" "p \<le> ?siz" using ReadTextLine_loop_pos [OF lp] pos by auto
  have "unat (of_nat p :: 64 word) = p"
    by (rule unat_of_nat_size, rule le_less_trans [OF p(2)], rule less_le_trans [OF unsigned_less]) simp
  then show ?thesis using f' p by simp
qed

function doParse_loop :: "MemFile \<Rightarrow> nat \<Rightarrow> Section \<times> Asm \<Rightarrow> (Section \<times> Asm) res" where
  "doParse_loop file lineCnt st =
     (case MemFile_ReadTextLine 1024 file of
        (Inl e, _) \<Rightarrow> Inl e
      | (Inr None, _) \<Rightarrow> Inr st
      | (Inr (Some line), file') \<Rightarrow>
          (case parse_line (c_string line) lineCnt st of
             Inl e \<Rightarrow> Inl e
           | Inr st' \<Rightarrow> doParse_loop file' (Suc lineCnt) st'))"
  by pat_completeness auto
termination
  by (relation "measure (\<lambda>(file, _). unat (mf_mDataSize file) - unat (mf_mReadPos file))")
    (auto dest: ReadTextLine_progress [OF sym])

declare doParse_loop.simps [simp del]

definition doParse :: "MemFile \<Rightarrow> Asm \<Rightarrow> Asm res" where
  "doParse file a =
     res_bind (doParse_loop file 0 (SEC_UNDEF, a)) (\<lambda>(_, a).
       if sh_mType (as_mpShader a) = TYPE_UNKNOWN then onError ''Shader type undefined !'' else Inr a)"

section \<open>Labels\<close>

definition gpDefParamBaseLabelName :: string where
  "gpDefParamBaseLabelName = ''__defparam_''"

definition gpMainLabelName :: string where
  "gpMainLabelName = ''__main''"

definition processSpecialLabel :: "Label \<Rightarrow> SvmShader \<Rightarrow> SvmShader" where
  "processSpecialLabel label sh =
     (if strstr_at_start (lb_mName label) gpDefParamBaseLabelName then
        (case findSymbol (drop (length gpDefParamBaseLabelName) (lb_mName label)) False sh of
           None \<Rightarrow> sh
         | Some idx \<Rightarrow> sh\<lparr>sh_mpShaSymsStartPCs := (sh_mpShaSymsStartPCs sh)[idx := Some (lb_mAddress label)]\<rparr>)
      else if strstr_at_start (lb_mName label) gpMainLabelName then sh\<lparr>sh_mStartPC := Some (lb_mAddress label)\<rparr>
      else sh)"

text \<open>The inner loop has no break: the last definition of a label wins.\<close>

definition resolve_ref :: "Label list \<Rightarrow> Label \<Rightarrow> CPUWord list \<Rightarrow> CPUWord list res" where
  "resolve_ref defs ref code =
     (case filter (\<lambda>d. lb_mName ref = lb_mName d) defs of
        [] \<Rightarrow> onError ''Undefined label''
      | ds \<Rightarrow> Inr (code[lb_mAddress ref := W_Address (lb_mAddress (last ds))]))"

fun resolve_refs :: "Label list \<Rightarrow> Label list \<Rightarrow> CPUWord list \<Rightarrow> CPUWord list res" where
  "resolve_refs defs [] code = Inr code"
| "resolve_refs defs (r # rs) code = res_bind (resolve_ref defs r code) (resolve_refs defs rs)"

definition resolveLabels :: "Asm \<Rightarrow> SvmShader res" where
  "resolveLabels a =
     (let sh = fold processSpecialLabel (as_mLabelDefs a) (as_mpShader a) in
      if sh_mStartPC sh = None then onError ''Entry point is missing !''
      else res_bind (resolve_refs (as_mLabelDefs a) (as_mLabelRefs a) (sh_mCode sh)) (\<lambda>code.
             Inr (sh\<lparr>sh_mCode := code\<rparr>)))"

text \<open>The constructor of the parser.\<close>

definition RRASM_Parser :: "MemFile \<Rightarrow> SvmShader \<Rightarrow> SvmShader res" where
  "RRASM_Parser file pShader = res_bind (doParse file (Asm_new pShader)) resolveLabels"

section \<open>Making a shader\<close>

text \<open>
  \<open>compileFromMemFile\<close> of \<open>RI_SVM_Shader.cpp\<close>: a \<open>.rrasm\<close> file is parsed; for a \<open>.sl\<close> file the
  assembly beside it is, after the shading language compiler has written it when it does not
  exist. The compiler is a parameter: what the assembly file holds after it ran, if it exists.
  Its own exceptions are caught and printed.
\<close>

record ShaderFiles =
  sf_FileExists :: "string \<Rightarrow> bool"
  sf_GrabFile :: "string \<Rightarrow> bytes option"
  sf_compileSLToAsm :: "bytes \<Rightarrow> string \<Rightarrow> string \<Rightarrow> string \<Rightarrow> bytes option"

definition cut_ext :: "string \<Rightarrow> string" where
  "cut_ext s = rev (dropWhile (\<lambda>c. c \<noteq> CHR ''.'') (rev s))"

definition GetFileNameExt :: "string \<Rightarrow> string" where
  "GetFileNameExt s = (if cut_ext s = [] then [] else rev (takeWhile (\<lambda>c. c \<noteq> CHR ''.'') (rev s)))"

definition mem_file :: "bytes \<Rightarrow> MemFile" where
  "mem_file d = MemFile_Init d (of_nat (length d)) MemFile_empty"

definition grabbed :: "bytes option \<Rightarrow> bytes res" where
  "grabbed d = (case d of None \<Rightarrow> Inl (Runtime_error ''Could not open the file for reading.'') | Some d \<Rightarrow> Inr d)"

text \<open>Without an extension the whole name is the part before it.\<close>

definition autogen_name :: "string \<Rightarrow> string" where
  "autogen_name pFileName = (if cut_ext pFileName = [] then pFileName else cut_ext pFileName) @ ''autogen.rrasm''"

definition compileFromMemFile :: "ShaderFiles \<Rightarrow> bytes \<Rightarrow> string \<Rightarrow> string \<Rightarrow> SvmShader \<Rightarrow> SvmShader res" where
  "compileFromMemFile fm file pFileName pBaseIncDir pShader =
     (if \<not> strcasecmp_eq (GetFileNameExt pFileName) ''sl'' then RRASM_Parser (mem_file file) pShader
      else
        let asmOutName = autogen_name pFileName in
        if length asmOutName \<ge> 1024 then Inl (Undefined_behaviour ''buffer overrun in strcat'')
        else res_bind (grabbed (if sf_FileExists fm asmOutName then sf_GrabFile fm asmOutName
                                else sf_compileSLToAsm fm file pFileName pBaseIncDir asmOutName))
               (\<lambda>d. RRASM_Parser (mem_file d) pShader))"

definition SvmShader_ctor ::
  "ShaderFiles \<Rightarrow> string \<Rightarrow> bytes option \<Rightarrow> string option \<Rightarrow> string \<Rightarrow> SvmShader res" where
  "SvmShader_ctor fm pName pSource pSourceFileName pBaseIncDir =
     (case (pSource, pSourceFileName) of
        (Some src, Some fn) \<Rightarrow> compileFromMemFile fm src fn pBaseIncDir (SvmShader_new pName)
      | (Some src, None) \<Rightarrow> Inl (Undefined_behaviour ''null file name'')
      | (None, Some fn) \<Rightarrow>
          res_bind (grabbed (sf_GrabFile fm fn)) (\<lambda>d. compileFromMemFile fm d fn pBaseIncDir (SvmShader_new pName))
      | (None, None) \<Rightarrow> Inl (AssThrow ''Missing parameters !''))"

end
