(* ===== verification/RRAsmProps.thy ===== *)
theory RRAsmProps
  imports RRAsm
begin

text \<open>
  What the assembler guarantees about the code it makes: it is a sequence of whole instructions,
  every operand is of the kind its instruction asks for, and every label, jump and end address is
  the start of an instruction.
\<close>

section \<open>Well-formed code\<close>

definition is_addr :: "CPUWord \<Rightarrow> bool" where
  "is_addr w \<longleftrightarrow> (case w of W_Address _ \<Rightarrow> True | _ \<Rightarrow> False)"

definition sym_oper_ok :: "Symbol list \<Rightarrow> OpCodeDef \<Rightarrow> nat \<Rightarrow> CPUWord \<Rightarrow> bool" where
  "sym_oper_ok sy d i w \<longleftrightarrow> (case w of
       W_Symbol s \<Rightarrow> sw_mTableOffset s < length sy
         \<and> sw_mIsVarying s = Symbol_IsVarying (sy ! sw_mTableOffset s)
         \<and> IsTypeCompatible (sym_mType (sy ! sw_mTableOffset s)) (od_Types d ! i)
         \<and> (has_flag d OPC_FLG_UNIFORMOPERS \<longrightarrow> \<not> sw_mIsVarying s)
     | _ \<Rightarrow> False)"

definition oper_ok :: "Symbol list \<Rightarrow> OpCodeDef \<Rightarrow> nat \<Rightarrow> CPUWord \<Rightarrow> bool" where
  "oper_ok sy d i w \<longleftrightarrow>
     (if 0 < i \<and> has_flag d OPC_FLG_RIGHTISIMM then (case w of W_ImmFloat _ \<Rightarrow> True | _ \<Rightarrow> False)
      else if od_Types d ! i = TYP_ADDR then is_addr w
      else sym_oper_ok sy d i w)"

definition inst_ok :: "Symbol list \<Rightarrow> CPUWord list \<Rightarrow> bool" where
  "inst_ok sy ws \<longleftrightarrow> (case ws of
       W_OpCode w # os \<Rightarrow> oc_mTableOffset w < length gOpCodeDefs
         \<and> oc_mOperandCount w = od_OperCnt (gOpCodeDefs ! oc_mTableOffset w) \<and> length os = oc_mOperandCount w
         \<and> (\<forall>i < length os. oper_ok sy (gOpCodeDefs ! oc_mTableOffset w) i (os ! i))
     | _ \<Rightarrow> False)"

definition starts :: "CPUWord list list \<Rightarrow> nat set" where
  "starts bs = {length (concat (take k bs)) |k. k \<le> length bs}"

text \<open>An instruction that opens or continues a construct either is still open or ends at an instruction.\<close>

definition ends_ok :: "CPUWord list list \<Rightarrow> bool" where
  "ends_ok bs \<longleftrightarrow> (\<forall>w. W_OpCode w \<in> set (concat bs) \<longrightarrow>
     oc_mFuncopEndAddr w = INVALID_ADDR \<or>
     (\<exists>e \<in> starts bs. e < length (concat bs) \<and> oc_mFuncopEndAddr w = of_nat e))"

definition pcs_ok :: "CPUWord list list \<Rightarrow> SvmShader \<Rightarrow> bool" where
  "pcs_ok bs sh \<longleftrightarrow> length (sh_mpShaSymsStartPCs sh) = length (sh_mpShaSyms sh)
     \<and> (\<forall>pc. Some pc \<in> set (sh_mpShaSymsStartPCs sh) \<longrightarrow> pc \<in> starts bs)
     \<and> (\<forall>pc. sh_mStartPC sh = Some pc \<longrightarrow> pc \<in> starts bs)"

definition wf_shader :: "SvmShader \<Rightarrow> bool" where
  "wf_shader sh \<longleftrightarrow> (\<exists>bs. sh_mCode sh = concat bs \<and> (\<forall>b \<in> set bs. inst_ok (sh_mpShaSyms sh) b) \<and> ends_ok bs
     \<and> pcs_ok bs sh \<and> (\<forall>a. W_Address a \<in> set (sh_mCode sh) \<longrightarrow> a \<in> starts bs))"

section \<open>Growing code\<close>

lemma sym_oper_ok_append: "sym_oper_ok sy d i w \<Longrightarrow> sym_oper_ok (sy @ ss) d i w"
  by (cases w) (auto simp: sym_oper_ok_def nth_append)

lemma oper_ok_append: "oper_ok sy d i w \<Longrightarrow> oper_ok (sy @ ss) d i w"
  unfolding oper_ok_def using sym_oper_ok_append by presburger

lemma inst_ok_append: "inst_ok sy ws \<Longrightarrow> inst_ok (sy @ ss) ws"
  by (auto simp: inst_ok_def intro: oper_ok_append split: list.splits CPUWord.splits)

lemma starts_0 [simp]: "0 \<in> starts bs"
  by (auto simp: starts_def intro: exI [of _ 0])

lemma starts_all [simp]: "length (concat bs) \<in> starts bs"
  by (auto simp: starts_def intro!: exI [of _ "length bs"])

lemma starts_append: "s \<in> starts bs \<Longrightarrow> s \<in> starts (bs @ cs)"
proof -
  assume "s \<in> starts bs"
  then obtain k where "k \<le> length bs" "s = length (concat (take k bs))" by (auto simp: starts_def)
  then have "s = length (concat (take k (bs @ cs))) \<and> k \<le> length (bs @ cs)" by simp
  then show ?thesis unfolding starts_def by blast
qed

lemma find_from_Some:
  "find_from P xs i = Some j \<Longrightarrow> i \<le> j \<and> j < i + length xs \<and> P (xs ! (j - i))"
proof (induction xs arbitrary: i)
  case (Cons x xs)
  show ?case
  proof (cases "P x")
    case False
    then have "Suc i \<le> j \<and> j < Suc i + length xs \<and> P (xs ! (j - Suc i))"
      using Cons.IH [of "Suc i"] Cons.prems by simp
    then show ?thesis by (auto simp: nth_Cons')
  qed (use Cons.prems in auto)
qed simp

abbreviation acode :: "Asm \<Rightarrow> CPUWord list" where
  "acode a \<equiv> sh_mCode (as_mpShader a)"

abbreviation asyms :: "Asm \<Rightarrow> Symbol list" where
  "asyms a \<equiv> sh_mpShaSyms (as_mpShader a)"

abbreviation ref_addrs :: "Asm \<Rightarrow> nat set" where
  "ref_addrs a \<equiv> lb_mAddress ` set (as_mLabelRefs a)"

text \<open>From \<open>a\<close> to \<open>a'\<close> the words \<open>ws\<close> are added, and perhaps symbols and references to labels.\<close>

definition grows :: "Asm \<Rightarrow> CPUWord list \<Rightarrow> Asm \<Rightarrow> bool" where
  "grows a ws a' \<longleftrightarrow> acode a' = acode a @ ws
     \<and> (\<exists>ss. asyms a' = asyms a @ ss \<and> sh_mpShaSymsStartPCs (as_mpShader a') =
           sh_mpShaSymsStartPCs (as_mpShader a) @ replicate (length ss) None)
     \<and> as_mLabelDefs a' = as_mLabelDefs a \<and> as_mFuncOpBeginIdx a' = as_mFuncOpBeginIdx a
     \<and> sh_mStartPC (as_mpShader a') = sh_mStartPC (as_mpShader a)
     \<and> ref_addrs a' = ref_addrs a \<union> {length (acode a) + k |k. k < length ws \<and> is_addr (ws ! k)}"

lemma grows_refl: "grows a [] a"
  by (auto simp: grows_def)

lemma addr_positions:
  "{n + k |k. k < length (ws @ vs) \<and> is_addr ((ws @ vs) ! k)} =
   {n + k |k. k < length ws \<and> is_addr (ws ! k)} \<union> {n + length ws + k |k. k < length vs \<and> is_addr (vs ! k)}"
    (is "?L = ?A \<union> ?B")
proof (intro equalityI subsetI)
  fix x assume "x \<in> ?L"
  then obtain k where k: "x = n + k" "k < length (ws @ vs)" "is_addr ((ws @ vs) ! k)" by auto
  show "x \<in> ?A \<union> ?B"
  proof (cases "k < length ws")
    case False
    then have "x = n + length ws + (k - length ws)" "k - length ws < length vs" "is_addr (vs ! (k - length ws))"
      using k by (auto simp: nth_append)
    then show ?thesis by blast
  qed (use k in \<open>auto simp: nth_append\<close>)
next
  fix x assume "x \<in> ?A \<union> ?B"
  then show "x \<in> ?L"
  proof
    assume "x \<in> ?B"
    then obtain k where "x = n + length ws + k" "k < length vs" "is_addr (vs ! k)" by auto
    then have "x = n + (length ws + k) \<and> length ws + k < length (ws @ vs) \<and> is_addr ((ws @ vs) ! (length ws + k))" by simp
    then show ?thesis by blast
  qed (auto simp: nth_append)
qed

lemma grows_trans:
  assumes "grows a ws b" and "grows b vs c"
  shows "grows a (ws @ vs) c"
proof -
  obtain s1 s2 where s: "asyms b = asyms a @ s1" "asyms c = asyms b @ s2"
    "sh_mpShaSymsStartPCs (as_mpShader b) = sh_mpShaSymsStartPCs (as_mpShader a) @ replicate (length s1) None"
    "sh_mpShaSymsStartPCs (as_mpShader c) = sh_mpShaSymsStartPCs (as_mpShader b) @ replicate (length s2) None"
    using assms by (auto simp: grows_def)
  have "asyms c = asyms a @ (s1 @ s2) \<and> sh_mpShaSymsStartPCs (as_mpShader c) =
      sh_mpShaSymsStartPCs (as_mpShader a) @ replicate (length (s1 @ s2)) None"
    using s by (simp add: replicate_add)
  moreover have "ref_addrs c = ref_addrs a \<union> {length (acode a) + k |k. k < length (ws @ vs) \<and> is_addr ((ws @ vs) ! k)}"
    using assms unfolding addr_positions by (auto simp: grows_def add.assoc)
  ultimately show ?thesis using assms unfolding grows_def by (metis append.assoc)
qed

lemma add_symbol_fields [simp]:
  "sh_mCode (add_symbol s sh) = sh_mCode sh" "sh_mStartPC (add_symbol s sh) = sh_mStartPC sh"
  "sh_mpShaSyms (add_symbol s sh) = sh_mpShaSyms sh @ [s]"
  "sh_mpShaSymsStartPCs (add_symbol s sh) = sh_mpShaSymsStartPCs sh @ [None]"
  by (simp_all add: add_symbol_def)

lemma findSymbol_Some: "findSymbol nm ic sh = Some i \<Longrightarrow> i < length (sh_mpShaSyms sh)"
  using find_from_Some by (fastforce simp: findSymbol_def)

lemma findOrAdd_cases:
  assumes "findOrAddTempSymbol nm sh = (Some i, sh')"
  shows "i < length (sh_mpShaSyms sh') \<and> (sh' = sh \<or> (\<exists>s. sh' = add_symbol s sh))"
  using assms findSymbol_Some [of nm True sh]
  by (auto simp: findOrAddTempSymbol_def Let_def split: option.splits if_splits)

lemma push_word_fields [simp]:
  "acode (push_word w a) = acode a @ [w]" "asyms (push_word w a) = asyms a"
  "sh_mpShaSymsStartPCs (as_mpShader (push_word w a)) = sh_mpShaSymsStartPCs (as_mpShader a)"
  "sh_mStartPC (as_mpShader (push_word w a)) = sh_mStartPC (as_mpShader a)"
  "as_mLabelDefs (push_word w a) = as_mLabelDefs a" "as_mLabelRefs (push_word w a) = as_mLabelRefs a"
  "as_mFuncOpBeginIdx (push_word w a) = as_mFuncOpBeginIdx a"
  by (simp_all add: push_word_def)

lemma one_word: "{n + k |k. k < length [w] \<and> is_addr ([w] ! k)} = (if is_addr w then {n} else {})"
  by auto

lemma grows_push: "\<not> is_addr w \<Longrightarrow> grows a [w] (push_word w a)"
  unfolding grows_def one_word by simp

lemma operand_grows:
  assumes "parseCode_handleOperSymbol tok d i a = Inr a'" and "\<not> (0 < i \<and> has_flag d OPC_FLG_RIGHTISIMM)"
  shows "\<exists>w. grows a [w] a' \<and> oper_ok (asyms a') d i w"
proof (cases "od_Types d ! i = TYP_ADDR")
  case True
  have "grows a [W_Address 0xcfcfcfcf] a'"
    using assms(1) True unfolding grows_def one_word
    by (auto simp: parseCode_handleOperSymbol_def Let_def is_addr_def code_size_def)
  moreover have "oper_ok (asyms a') d i (W_Address 0xcfcfcfcf)" using True assms(2) by (simp add: oper_ok_def is_addr_def)
  ultimately show ?thesis by blast
next
  case False
  obtain idx sh where f: "(if isTempSymbol tok then findOrAddTempSymbol tok (as_mpShader a)
       else (findSymbol tok False (as_mpShader a), as_mpShader a)) = (Some idx, sh)"
    using assms(1) False by (fastforce simp: parseCode_handleOperSymbol_def Let_def onError_def split: prod.splits option.splits)
  let ?sy = "sh_mpShaSyms sh ! idx"
  let ?w = "W_Symbol \<lparr>sw_mTableOffset = idx, sw_mIsVarying = Symbol_IsVarying ?sy\<rparr>"
  have a': "a' = push_word ?w (a\<lparr>as_mpShader := sh\<rparr>)"
    and ok: "\<not> (has_flag d OPC_FLG_UNIFORMOPERS \<and> Symbol_IsVarying ?sy)" "IsTypeCompatible (sym_mType ?sy) (od_Types d ! i)"
    using assms(1) False f by (auto simp: parseCode_handleOperSymbol_def Let_def onError_def split: if_splits)
  have sh: "idx < length (sh_mpShaSyms sh)" "sh = as_mpShader a \<or> (\<exists>s. sh = add_symbol s (as_mpShader a))"
    using f findOrAdd_cases [of tok "as_mpShader a" idx sh] findSymbol_Some [of tok False "as_mpShader a" idx]
    by (auto split: if_splits)
  have "grows a [] (a\<lparr>as_mpShader := sh\<rparr>)" using sh(2) by (auto simp: grows_def)
  then have "grows a [?w] a'"
    using grows_trans [of a "[]" "a\<lparr>as_mpShader := sh\<rparr>" "[?w]" a'] grows_push [of ?w "a\<lparr>as_mpShader := sh\<rparr>"] a'
    by (simp add: is_addr_def)
  moreover have "oper_ok (asyms a') d i ?w" using a' sh(1) ok assms(2) False by (simp add: oper_ok_def sym_oper_ok_def)
  ultimately show ?thesis by blast
qed

lemma immediate_grows:
  assumes "parseCode_handleOperImmediate tok a = Inr a'" and "0 < i \<and> has_flag d OPC_FLG_RIGHTISIMM"
  shows "\<exists>w. grows a [w] a' \<and> oper_ok (asyms a') d i w"
proof -
  obtain v where "a' = push_word (W_ImmFloat v) a"
    using assms(1) by (auto simp: parseCode_handleOperImmediate_def onError_def split: option.splits)
  then show ?thesis using assms(2) grows_push [of "W_ImmFloat v" a]
    by (intro exI [of _ "W_ImmFloat v"]) (simp add: is_addr_def oper_ok_def)
qed

lemma grows_syms: "grows a ws b \<Longrightarrow> oper_ok (asyms a) d i w \<Longrightarrow> oper_ok (asyms b) d i w"
  by (auto simp: grows_def intro: oper_ok_append)

lemma operands_grow:
  assumes "parse_operands d i n s a = Inr a'"
  shows "\<exists>os. length os = n \<and> grows a os a' \<and> (\<forall>k < n. oper_ok (asyms a') d (i + k) (os ! k))"
  using assms
proof (induction n arbitrary: i s a)
  case 0
  then show ?case using grows_refl by auto
next
  case (Suc n)
  obtain tok r b where e: "expect ''missing operand'' s = Inr (tok, r)"
    and b: "(if 0 < i \<and> has_flag d OPC_FLG_RIGHTISIMM then parseCode_handleOperImmediate (StrStripBeginEndWhite tok) a
             else parseCode_handleOperSymbol (StrStripBeginEndWhite tok) d i a) = Inr b"
    and rest: "parse_operands d (Suc i) n r b = Inr a'"
    using Suc.prems by (auto simp: res_bind_eq_Inr Let_def)
  obtain w where w: "grows a [w] b" "oper_ok (asyms b) d i w"
    using b operand_grows immediate_grows by (metis (no_types, lifting))
  obtain os where os: "length os = n" "grows b os a'" "\<forall>k < n. oper_ok (asyms a') d (Suc i + k) (os ! k)"
    using Suc.IH [OF rest] by blast
  have "oper_ok (asyms a') d (i + k) ((w # os) ! k)" if "k < Suc n" for k
    using that os(3) grows_syms [OF os(2) w(2)] by (cases k) auto
  then show ?case using grows_trans [OF w(1) os(2)] os(1) by (intro exI [of _ "w # os"]) auto
qed

section \<open>Open and closed constructs\<close>

text \<open>
  What the end addresses should be, read off the finished code. Going through the words, an opening
  instruction (\<open>iftrue\<close>, \<open>solarbegin\<close>, \<open>illuminance\<close>) joins the open ones, \<open>orelse\<close> closes the
  innermost and is open itself, \<open>funcopend\<close> closes the innermost. The result is the open
  instructions and the pairs of closed ones with their ends, or nothing if an end has no beginning.
\<close>

fun fop_word :: "nat \<times> CPUWord \<Rightarrow> (nat list \<times> (nat \<times> nat) list) option \<Rightarrow> (nat list \<times> (nat \<times> nat) list) option" where
  "fop_word (n, W_OpCode w) (Some (st, ps)) =
     (let d = gOpCodeDefs ! oc_mTableOffset w in
      if has_flag d OPC_FLG_FUNCOP_BEGIN then Some (n # st, ps)
      else if has_flag d OPC_FLG_FUNCOP_MIDDLE then
        (case st of [] \<Rightarrow> None | i # st' \<Rightarrow> Some (n # st', (i, n) # ps))
      else if has_flag d OPC_FLG_FUNCOP_END then
        (case st of [] \<Rightarrow> None | i # st' \<Rightarrow> Some (st', (i, n) # ps))
      else Some (st, ps))"
| "fop_word _ s = s"

definition constructs :: "CPUWord list \<Rightarrow> (nat list \<times> (nat \<times> nat) list) option" where
  "constructs ws = fold fop_word (enumerate 0 ws) (Some ([], []))"

definition stored_end :: "(nat \<times> nat) list \<Rightarrow> nat \<Rightarrow> U16" where
  "stored_end ps i = (case map_of ps i of None \<Rightarrow> INVALID_ADDR | Some e \<Rightarrow> of_nat e)"

definition ends_exact :: "CPUWord list \<Rightarrow> nat list \<Rightarrow> (nat \<times> nat) list \<Rightarrow> bool" where
  "ends_exact ws st ps \<longleftrightarrow> constructs ws = Some (st, ps)
     \<and> (\<forall>i < length ws. \<forall>w. ws ! i = W_OpCode w \<longrightarrow> oc_mFuncopEndAddr w = stored_end ps i)"

definition constructs_inv :: "CPUWord list \<Rightarrow> nat list \<Rightarrow> bool" where
  "constructs_inv ws begins \<longleftrightarrow> (\<exists>ps. ends_exact ws (rev begins) ps \<and> distinct begins
     \<and> set begins \<inter> fst ` set ps = {} \<and> (\<forall>i \<in> set begins \<union> fst ` set ps. i < length ws)
     \<and> (\<forall>i \<in> set begins. \<exists>w. ws ! i = W_OpCode w))"

lemma constructs_snoc: "constructs (ws @ [w]) = fop_word (length ws, w) (constructs ws)"
  by (simp add: constructs_def enumerate_append_eq)

lemma constructs_operands:
  "\<forall>x. W_OpCode x \<notin> set os \<Longrightarrow> constructs (ws @ os) = constructs ws"
proof (induction os rule: rev_induct)
  case (snoc w os)
  have "constructs (ws @ os @ [w]) = fop_word (length (ws @ os), w) (constructs (ws @ os))"
    using constructs_snoc [of "ws @ os" w] by simp
  then show ?case using snoc by (cases w) auto
qed simp

lemma fold_update:
  "f y = f (xs ! i) \<Longrightarrow> fold f (xs[i := y]) s = fold f xs s"
  by (induction xs arbitrary: i s) (auto split: nat.splits)

lemma constructs_update:
  assumes "fop_word (i, x) = fop_word (i, ws ! i)"
  shows "constructs (ws[i := x]) = constructs ws"
proof (cases "i < length ws")
  case True
  have "enumerate 0 (ws[i := x]) = (enumerate 0 ws)[i := (i, x)]"
  proof (rule nth_equalityI)
    fix k assume "k < length (enumerate 0 (ws[i := x]))"
    then show "enumerate 0 (ws[i := x]) ! k = (enumerate 0 ws)[i := (i, x)] ! k"
      by (cases "k = i") (simp_all add: nth_enumerate_eq)
  qed simp
  then show ?thesis using assms True by (simp add: constructs_def fold_update nth_enumerate_eq)
qed (simp add: list_update_beyond)

lemma same_word_kind:
  "oc_mTableOffset v = oc_mTableOffset w \<Longrightarrow> fop_word (i, W_OpCode v) = fop_word (i, W_OpCode w)"
proof (rule ext)
  fix s assume "oc_mTableOffset v = oc_mTableOffset w"
  then show "fop_word (i, W_OpCode v) s = fop_word (i, W_OpCode w) s" by (cases s) (auto simp: Let_def)
qed

text \<open>Closing the innermost construct at the end of the code.\<close>

lemma close_ends:
  assumes "ends_exact ws (i # st) ps" and "i < length ws" and "ws ! i = W_OpCode v"
    and "ws' = ws[i := W_OpCode (v\<lparr>oc_mFuncopEndAddr := of_nat n\<rparr>)]"
  shows "constructs ws' = Some (i # st, ps)"
    and "\<forall>j < length ws'. \<forall>w. ws' ! j = W_OpCode w \<longrightarrow> oc_mFuncopEndAddr w = stored_end ((i, n) # ps) j"
  using assms constructs_update [of i "W_OpCode (v\<lparr>oc_mFuncopEndAddr := of_nat n\<rparr>)" ws]
    same_word_kind [of "v\<lparr>oc_mFuncopEndAddr := of_nat n\<rparr>" v i]
  by (auto simp: ends_exact_def stored_end_def nth_list_update)

lemma append_ends:
  assumes "constructs ws = Some s" and "fop_word (length ws, W_OpCode w) (Some s) = Some (st, ps)"
    and "\<forall>j < length ws. \<forall>x. ws ! j = W_OpCode x \<longrightarrow> oc_mFuncopEndAddr x = stored_end ps j"
    and "length ws \<notin> fst ` set ps" and "oc_mFuncopEndAddr w = INVALID_ADDR" and "\<forall>x. W_OpCode x \<notin> set os"
  shows "ends_exact (ws @ W_OpCode w # os) st ps"
  unfolding ends_exact_def
proof (intro conjI allI impI)
  show "constructs (ws @ W_OpCode w # os) = Some (st, ps)"
    using constructs_operands [OF assms(6), of "ws @ [W_OpCode w]"] constructs_snoc [of ws "W_OpCode w"] assms(1,2) by simp
next
  fix j x assume j: "j < length (ws @ W_OpCode w # os)" and x: "(ws @ W_OpCode w # os) ! j = W_OpCode x"
  consider "j < length ws" | "j = length ws" | k where "j = Suc (length ws + k)" "k < length os"
    using j by (metis length_append length_Cons add_Suc_right less_antisym not_less_eq nat_neq_iff less_imp_Suc_add add_less_cancel_left not_less_iff_gr_or_eq Suc_less_eq)
  then show "oc_mFuncopEndAddr x = stored_end ps j"
  proof cases
    case 1
    then show ?thesis using x assms(3) by (simp add: nth_append)
  next
    case 2
    then have "map_of ps j = None" using assms(4) by (simp add: map_of_eq_None_iff)
    then show ?thesis using 2 x assms(5) by (simp add: stored_end_def)
  next
    case 3
    then have "os ! k = W_OpCode x" using x by (simp add: nth_append)
    then have "W_OpCode x \<in> set os" using 3(2) nth_mem by metis
    then show ?thesis using assms(6) by blast
  qed
qed

lemma open_inv:
  assumes "ends_exact (ws @ W_OpCode w # os) (length ws # rev begins) ps" and "distinct begins"
    and "set begins \<inter> fst ` set ps = {}" and "\<forall>i \<in> set begins \<union> fst ` set ps. i < length ws"
    and "\<forall>i \<in> set begins. \<exists>w. ws ! i = W_OpCode w"
  shows "constructs_inv (ws @ W_OpCode w # os) (begins @ [length ws])"
proof -
  have l: "\<forall>i \<in> set begins \<union> fst ` set ps. i < length (ws @ W_OpCode w # os)"
    using assms(4) by (metis length_append trans_less_add1)
  have opc: "\<forall>i \<in> set begins. \<exists>x. (ws @ W_OpCode w # os) ! i = W_OpCode x"
    using assms(4,5) by (simp add: nth_append)
  have n: "length ws \<notin> set begins \<union> fst ` set ps" using assms(4) by blast
  show ?thesis
    unfolding constructs_inv_def using assms(1-3) l opc n by (intro exI [of _ ps]) (auto simp: nth_append)
qed

lemma same_inv:
  assumes "ends_exact (ws @ W_OpCode w # os) (rev begins) ps" and "distinct begins"
    and "set begins \<inter> fst ` set ps = {}" and "\<forall>i \<in> set begins \<union> fst ` set ps. i < length ws"
    and "\<forall>i \<in> set begins. \<exists>w. ws ! i = W_OpCode w"
  shows "constructs_inv (ws @ W_OpCode w # os) begins"
proof -
  have l: "\<forall>i \<in> set begins \<union> fst ` set ps. i < length (ws @ W_OpCode w # os)"
    using assms(4) by (metis length_append trans_less_add1)
  have opc: "\<forall>i \<in> set begins. \<exists>x. (ws @ W_OpCode w # os) ! i = W_OpCode x"
    using assms(4,5) by (simp add: nth_append)
  have n: "length ws \<notin> set begins \<union> fst ` set ps" using assms(4) by blast
  show ?thesis
    unfolding constructs_inv_def using assms(1-3) l opc n by (intro exI [of _ ps]) simp
qed

lemma close_step:
  assumes inv: "constructs_inv (acode a) (as_mFuncOpBeginIdx a)" and c: "close_funcop (length (acode a)) a = Inr a'"
  obtains i ps where "constructs (acode a') = Some (i # rev (as_mFuncOpBeginIdx a'), ps)"
    and "\<forall>j < length (acode a'). \<forall>w. acode a' ! j = W_OpCode w \<longrightarrow>
      oc_mFuncopEndAddr w = stored_end ((i, length (acode a)) # ps) j"
    and "length (acode a') = length (acode a)" and "distinct (as_mFuncOpBeginIdx a')"
    and "set (as_mFuncOpBeginIdx a') \<inter> fst ` set ((i, length (acode a)) # ps) = {}"
    and "\<forall>j \<in> set (as_mFuncOpBeginIdx a') \<union> fst ` set ((i, length (acode a)) # ps). j < length (acode a)"
    and "\<forall>j \<in> set (as_mFuncOpBeginIdx a'). \<exists>w. acode a' ! j = W_OpCode w"
proof -
  let ?n = "length (acode a)"
  obtain ps where e: "ends_exact (acode a) (rev (as_mFuncOpBeginIdx a)) ps" and d: "distinct (as_mFuncOpBeginIdx a)"
    "set (as_mFuncOpBeginIdx a) \<inter> fst ` set ps = {}" "\<forall>i \<in> set (as_mFuncOpBeginIdx a) \<union> fst ` set ps. i < ?n"
    "\<forall>i \<in> set (as_mFuncOpBeginIdx a). \<exists>w. acode a ! i = W_OpCode w"
    using inv unfolding constructs_inv_def by blast
  obtain bs i where b: "as_mFuncOpBeginIdx a = bs @ [i]"
    using c by (cases "as_mFuncOpBeginIdx a" rule: rev_cases) (auto simp: close_funcop_def onError_def)
  then obtain v where v: "acode a ! i = W_OpCode v" using d(4) by auto
  let ?x = "W_OpCode (v\<lparr>oc_mFuncopEndAddr := of_nat ?n\<rparr>)"
  have a': "acode a' = (acode a)[i := ?x]" "as_mFuncOpBeginIdx a' = bs"
    using c b v by (auto simp: close_funcop_def set_funcop_end_def)
  have i: "i < ?n" using d(3) b by simp
  have "ends_exact (acode a) (i # rev bs) ps" using e b by simp
  note ce = close_ends [OF this i v a'(1)]
  show ?thesis
  proof (rule that [of i ps])
    show "\<forall>j \<in> set (as_mFuncOpBeginIdx a'). \<exists>w. acode a' ! j = W_OpCode w"
      using a' d(1,4) b i by (auto simp: nth_list_update)
  qed (use ce a' d b i in auto)
qed

lemma handle_constructs:
  assumes inv: "constructs_inv (acode a) (as_mFuncOpBeginIdx a)"
    and h: "handle_funcop (gOpCodeDefs ! oc_mTableOffset w) (length (acode a)) a = Inr a'"
    and w: "oc_mFuncopEndAddr w = INVALID_ADDR" and os: "\<forall>x. W_OpCode x \<notin> set os"
  shows "constructs_inv (acode a' @ W_OpCode w # os) (as_mFuncOpBeginIdx a')"
proof -
  let ?d = "gOpCodeDefs ! oc_mTableOffset w" and ?n = "length (acode a)"
  obtain ps where e: "ends_exact (acode a) (rev (as_mFuncOpBeginIdx a)) ps" and d: "distinct (as_mFuncOpBeginIdx a)"
    "set (as_mFuncOpBeginIdx a) \<inter> fst ` set ps = {}" "\<forall>i \<in> set (as_mFuncOpBeginIdx a) \<union> fst ` set ps. i < ?n"
    "\<forall>i \<in> set (as_mFuncOpBeginIdx a). \<exists>w. acode a ! i = W_OpCode w"
    using inv unfolding constructs_inv_def by blast
  have n: "?n \<notin> fst ` set ps" using d(3) by auto
  note keep = append_ends [of "acode a" "(rev (as_mFuncOpBeginIdx a), ps)" w _ ps, OF _ _ _ n w os]
  consider (opens) "has_flag ?d OPC_FLG_FUNCOP_BEGIN" "a' = open_funcop ?n a"
    | (middle) b where "\<not> has_flag ?d OPC_FLG_FUNCOP_BEGIN" "has_flag ?d OPC_FLG_FUNCOP_MIDDLE"
        "close_funcop ?n a = Inr b" "a' = open_funcop ?n b"
    | (closes) "\<not> has_flag ?d OPC_FLG_FUNCOP_BEGIN" "\<not> has_flag ?d OPC_FLG_FUNCOP_MIDDLE"
        "has_flag ?d OPC_FLG_FUNCOP_END" "close_funcop ?n a = Inr a'"
    | (other) "\<not> has_flag ?d OPC_FLG_FUNCOP_BEGIN" "\<not> has_flag ?d OPC_FLG_FUNCOP_MIDDLE"
        "\<not> has_flag ?d OPC_FLG_FUNCOP_END" "a' = a"
    using h by (auto simp: handle_funcop_def res_bind_eq_Inr split: if_splits)
  then show ?thesis
  proof cases
    case opens
    have "ends_exact (acode a @ W_OpCode w # os) (?n # rev (as_mFuncOpBeginIdx a)) ps"
      by (rule keep) (use e opens(1) in \<open>auto simp: ends_exact_def Let_def\<close>)
    then show ?thesis using open_inv [OF _ d] opens(2) by (simp add: open_funcop_def)
  next
    case middle
    obtain i qs where c: "constructs (acode b) = Some (i # rev (as_mFuncOpBeginIdx b), qs)"
      "\<forall>j < length (acode b). \<forall>w. acode b ! j = W_OpCode w \<longrightarrow> oc_mFuncopEndAddr w = stored_end ((i, ?n) # qs) j"
      "length (acode b) = ?n" "distinct (as_mFuncOpBeginIdx b)"
      "set (as_mFuncOpBeginIdx b) \<inter> fst ` set ((i, ?n) # qs) = {}"
      "\<forall>j \<in> set (as_mFuncOpBeginIdx b) \<union> fst ` set ((i, ?n) # qs). j < ?n"
      "\<forall>j \<in> set (as_mFuncOpBeginIdx b). \<exists>w. acode b ! j = W_OpCode w"
      using close_step [OF inv middle(3)] .
    have "?n \<notin> fst ` set ((i, ?n) # qs)" using c(6) by blast
    then have "ends_exact (acode b @ W_OpCode w # os) (?n # rev (as_mFuncOpBeginIdx b)) ((i, ?n) # qs)"
      by (intro append_ends [OF c(1) _ c(2) _ w os]) (use c(3) middle(1,2) in \<open>simp_all add: Let_def\<close>)
    then show ?thesis using open_inv [of "acode b" w os] c(3-7) middle(4) by (simp add: open_funcop_def)
  next
    case closes
    obtain i qs where c: "constructs (acode a') = Some (i # rev (as_mFuncOpBeginIdx a'), qs)"
      "\<forall>j < length (acode a'). \<forall>w. acode a' ! j = W_OpCode w \<longrightarrow> oc_mFuncopEndAddr w = stored_end ((i, ?n) # qs) j"
      "length (acode a') = ?n" "distinct (as_mFuncOpBeginIdx a')"
      "set (as_mFuncOpBeginIdx a') \<inter> fst ` set ((i, ?n) # qs) = {}"
      "\<forall>j \<in> set (as_mFuncOpBeginIdx a') \<union> fst ` set ((i, ?n) # qs). j < ?n"
      "\<forall>j \<in> set (as_mFuncOpBeginIdx a'). \<exists>w. acode a' ! j = W_OpCode w"
      using close_step [OF inv closes(4)] .
    have "?n \<notin> fst ` set ((i, ?n) # qs)" using c(6) by blast
    then have "ends_exact (acode a' @ W_OpCode w # os) (rev (as_mFuncOpBeginIdx a')) ((i, ?n) # qs)"
      by (intro append_ends [OF c(1) _ c(2) _ w os]) (use c(3) closes(1-3) in \<open>simp_all add: Let_def\<close>)
    then show ?thesis using same_inv c(3-7) by metis
  next
    case other
    have "ends_exact (acode a @ W_OpCode w # os) (rev (as_mFuncOpBeginIdx a)) ps"
      by (rule keep) (use e other(1-3) in \<open>auto simp: ends_exact_def Let_def\<close>)
    then show ?thesis using same_inv [OF _ d] other(4) by simp
  qed
qed

text \<open>The end addresses do not depend on the words that are no instructions.\<close>

lemma constructs_inv_addr:
  assumes "ends_exact ws st ps" and "is_addr (ws ! i)"
  shows "ends_exact (ws[i := W_Address k]) st ps"
proof -
  have "fop_word (i, W_Address k) = fop_word (i, ws ! i)"
    using assms(2) by (intro ext) (cases "ws ! i"; auto simp: is_addr_def)
  then have c: "constructs (ws[i := W_Address k]) = constructs ws" by (rule constructs_update)
  show ?thesis
    unfolding ends_exact_def
  proof (intro conjI allI impI)
    show "constructs (ws[i := W_Address k]) = Some (st, ps)" using c assms(1) by (simp add: ends_exact_def)
    fix j w assume "j < length (ws[i := W_Address k])" "ws[i := W_Address k] ! j = W_OpCode w"
    then show "oc_mFuncopEndAddr w = stored_end ps j"
      using assms(1) by (cases "j = i") (auto simp: ends_exact_def)
  qed
qed

section \<open>The invariant of the parser\<close>

definition asm_at :: "CPUWord list list \<Rightarrow> Asm \<Rightarrow> bool" where
  "asm_at bs a \<longleftrightarrow> acode a = concat bs \<and> (\<forall>b \<in> set bs. inst_ok (asyms a) b) \<and> ends_ok bs
     \<and> (\<forall>l \<in> set (as_mLabelDefs a). lb_mAddress l \<in> starts bs)
     \<and> (\<forall>i < length (acode a). is_addr (acode a ! i) \<longrightarrow> i \<in> ref_addrs a)
     \<and> (\<forall>r \<in> ref_addrs a. r < length (acode a) \<and> is_addr (acode a ! r))
     \<and> (\<forall>i \<in> set (as_mFuncOpBeginIdx a). i < length (acode a))
     \<and> constructs_inv (acode a) (as_mFuncOpBeginIdx a)
     \<and> sh_mpShaSymsStartPCs (as_mpShader a) = replicate (length (asyms a)) None
     \<and> sh_mStartPC (as_mpShader a) = None"

definition asm_inv :: "Asm \<Rightarrow> bool" where
  "asm_inv a \<longleftrightarrow> (\<exists>bs. asm_at bs a)"

lemma oper_not_op: "oper_ok sy d i w \<Longrightarrow> w \<noteq> W_OpCode x"
  by (auto simp: oper_ok_def sym_oper_ok_def is_addr_def split: if_splits)

lemma inst_ok_Cons:
  assumes "inst_ok sy b"
  obtains w os where "b = W_OpCode w # os" and "\<forall>x. W_OpCode x \<notin> set os"
proof -
  obtain w os where b: "b = W_OpCode w # os" and os: "\<forall>i < length os. oper_ok sy (gOpCodeDefs ! oc_mTableOffset w) i (os ! i)"
    using assms by (auto simp: inst_ok_def split: list.splits CPUWord.splits)
  have "\<forall>x. W_OpCode x \<notin> set os" using os oper_not_op by (metis in_set_conv_nth)
  then show ?thesis using that b by blast
qed

lemma inst_ok_end:
  assumes "inst_ok sy b" and "j < length b" and "b ! j = W_OpCode w"
  shows "inst_ok sy (b[j := W_OpCode (w\<lparr>oc_mFuncopEndAddr := e\<rparr>)])"
proof -
  obtain w' os where b: "b = W_OpCode w' # os" "\<forall>x. W_OpCode x \<notin> set os" using inst_ok_Cons [OF assms(1)] .
  have "j = 0" using assms(2,3) b by (cases j) (auto simp: nth_mem, metis nth_mem)
  then show ?thesis using assms b(1) by (simp add: inst_ok_def)
qed

definition edited :: "CPUWord list list \<Rightarrow> nat \<Rightarrow> CPUWord \<Rightarrow> CPUWord list list \<Rightarrow> bool" where
  "edited bs i x bs' \<longleftrightarrow> concat bs' = (concat bs)[i := x] \<and> length bs' = length bs
     \<and> (\<forall>k. length (concat (take k bs')) = length (concat (take k bs)))
     \<and> (\<forall>b' \<in> set bs'. b' \<in> set bs \<or> (\<exists>b \<in> set bs. \<exists>j < length b. b' = b[j := x] \<and> b ! j = concat bs ! i))"

lemma edited_here: "i < length c \<Longrightarrow> edited (c # cs) i x (c[i := x] # cs)"
proof -
  assume i: "i < length c"
  have "length (concat (take k (c[i := x] # cs))) = length (concat (take k (c # cs)))" for k
    by (cases k) simp_all
  moreover have "(c @ concat cs) ! i = c ! i" using i by (simp add: nth_append)
  ultimately show ?thesis using i by (simp add: edited_def list_update_append1) blast
qed

lemma edited_later:
  assumes "\<not> i < length c" and "edited cs (i - length c) x ds"
  shows "edited (c # cs) i x (c # ds)"
proof -
  have "length (concat (take k (c # ds))) = length (concat (take k (c # cs)))" for k
    using assms(2) by (cases k) (simp_all add: edited_def)
  moreover have "(c @ concat cs) ! i = concat cs ! (i - length c)" using assms(1) by (simp add: nth_append)
  ultimately show ?thesis using assms by (simp add: edited_def list_update_append) blast
qed

lemma edited_ex: "i < length (concat bs) \<Longrightarrow> \<exists>bs'. edited bs i x bs'"
proof (induction bs arbitrary: i)
  case (Cons c cs)
  show ?case
  proof (cases "i < length c")
    case True
    then show ?thesis using edited_here by blast
  next
    case False
    have "i - length c < length (concat cs)" using False Cons.prems unfolding concat.simps length_append by linarith
    then obtain ds where "edited cs (i - length c) x ds" using Cons.IH by blast
    then show ?thesis using edited_later False by blast
  qed
qed simp

lemma edited_starts: "edited bs i x bs' \<Longrightarrow> starts bs' = starts bs"
  by (simp add: edited_def starts_def)

lemma concat_update:
  assumes "i < length (concat bs)"
  shows "\<exists>bs'. concat bs' = (concat bs)[i := x] \<and> starts bs' = starts bs \<and>
    (\<forall>b' \<in> set bs'. b' \<in> set bs \<or> (\<exists>b \<in> set bs. \<exists>j < length b. b' = b[j := x] \<and> b ! j = concat bs ! i))"
  using edited_ex [OF assms, of x] edited_starts unfolding edited_def by blast

text \<open>What \<open>handle_funcop\<close> does to the code: at most one end address is set.\<close>

definition set_end :: "CPUWord list \<Rightarrow> nat \<Rightarrow> CPUWord list \<Rightarrow> bool" where
  "set_end ws n ws' \<longleftrightarrow> ws' = ws \<or>
     (\<exists>i w. i < length ws \<and> ws ! i = W_OpCode w \<and> ws' = ws[i := W_OpCode (w\<lparr>oc_mFuncopEndAddr := of_nat n\<rparr>)])"

definition only_code :: "Asm \<Rightarrow> Asm \<Rightarrow> bool" where
  "only_code a a' \<longleftrightarrow> asyms a' = asyms a \<and> as_mLabelDefs a' = as_mLabelDefs a \<and> as_mLabelRefs a' = as_mLabelRefs a
     \<and> sh_mpShaSymsStartPCs (as_mpShader a') = sh_mpShaSymsStartPCs (as_mpShader a)
     \<and> sh_mStartPC (as_mpShader a') = sh_mStartPC (as_mpShader a)"

lemma close_funcop_spec:
  assumes "close_funcop n a = Inr a'" and "\<forall>i \<in> set (as_mFuncOpBeginIdx a). i < length (acode a)"
  shows "set_end (acode a) n (acode a') \<and> only_code a a' \<and> set (as_mFuncOpBeginIdx a') \<subseteq> set (as_mFuncOpBeginIdx a)"
proof -
  let ?i = "last (as_mFuncOpBeginIdx a)"
  have ne: "as_mFuncOpBeginIdx a \<noteq> []"
    and a': "a' = set_funcop_end ?i (of_nat n) (a\<lparr>as_mFuncOpBeginIdx := butlast (as_mFuncOpBeginIdx a)\<rparr>)"
    using assms(1) by (auto simp: close_funcop_def onError_def split: if_splits)
  have i: "?i < length (acode a)" using assms(2) ne by simp
  have "set_end (acode a) n (acode a') \<and> only_code a a' \<and> as_mFuncOpBeginIdx a' = butlast (as_mFuncOpBeginIdx a)"
  proof (cases "acode a ! ?i")
    case (W_OpCode w)
    then show ?thesis using i unfolding set_end_def by (auto simp: a' set_funcop_end_def only_code_def)
  qed (simp_all add: a' set_funcop_end_def set_end_def only_code_def)
  then show ?thesis by (auto dest: in_set_butlastD)
qed

lemma handle_funcop_spec:
  assumes "handle_funcop d n a = Inr a'" and "\<forall>i \<in> set (as_mFuncOpBeginIdx a). i < length (acode a)"
  shows "set_end (acode a) n (acode a') \<and> only_code a a' \<and> set (as_mFuncOpBeginIdx a') \<subseteq> insert n (set (as_mFuncOpBeginIdx a))"
proof -
  have refl: "set_end (acode a) n (acode a) \<and> only_code a a" by (simp add: set_end_def only_code_def)
  consider "a' = open_funcop n a" | "\<exists>b. close_funcop n a = Inr b \<and> a' = open_funcop n b"
    | "close_funcop n a = Inr a'" | "a' = a"
    using assms(1) unfolding handle_funcop_def res_bind_eq_Inr
    by (metis (no_types, lifting) res_bind_eq_Inr sum.inject(2))
  then show ?thesis
  proof cases
    case 1
    then show ?thesis using refl by (auto simp: open_funcop_def only_code_def)
  next
    case 2
    then obtain b where b: "close_funcop n a = Inr b" "a' = open_funcop n b" by blast
    then show ?thesis using close_funcop_spec [OF b(1) assms(2)] by (auto simp: open_funcop_def only_code_def)
  next
    case 3
    then show ?thesis using close_funcop_spec [OF 3 assms(2)] by blast
  next
    case 4
    then show ?thesis using refl by auto
  qed
qed

text \<open>Setting an end address keeps the instructions; the new end is the end of the code so far.\<close>

lemma set_end_blocks:
  assumes "set_end (concat bs) (length (concat bs)) ws" and "\<forall>b \<in> set bs. inst_ok sy b" and "ends_ok bs"
    and "inst_ok sy b" and "b = W_OpCode w # os" and "oc_mFuncopEndAddr w = INVALID_ADDR"
  shows "\<exists>bs'. ws = concat bs' \<and> starts bs' = starts bs \<and> (\<forall>b \<in> set bs'. inst_ok sy b) \<and> ends_ok (bs' @ [b])
    \<and> length ws = length (concat bs) \<and> (\<forall>i < length ws. is_addr (ws ! i) = is_addr (concat bs ! i))"
proof -
  have nb: "\<forall>x. W_OpCode x \<in> set b \<longrightarrow> x = w" using inst_ok_Cons [OF assms(4)] assms(5) by (metis list.inject CPUWord.inject(1) set_ConsD)
  have new: "ends_ok (cs @ [b])"
    if c: "starts cs = starts bs" "length (concat cs) = length (concat bs)"
      and e: "\<forall>x. W_OpCode x \<in> set (concat cs) \<longrightarrow> W_OpCode x \<in> set (concat bs) \<or> oc_mFuncopEndAddr x = of_nat (length (concat bs))" for cs
    unfolding ends_ok_def
  proof (intro allI impI)
    fix x assume x: "W_OpCode x \<in> set (concat (cs @ [b]))"
    have l: "length (concat cs) < length (concat (cs @ [b]))" using assms(5) by simp
    show "oc_mFuncopEndAddr x = INVALID_ADDR \<or>
        (\<exists>e \<in> starts (cs @ [b]). e < length (concat (cs @ [b])) \<and> oc_mFuncopEndAddr x = of_nat e)"
    proof (cases "W_OpCode x \<in> set (concat cs)")
      case True
      then consider "W_OpCode x \<in> set (concat bs)" | "oc_mFuncopEndAddr x = of_nat (length (concat bs))" using e by blast
      then show ?thesis
      proof cases
        case 1
        then have "oc_mFuncopEndAddr x = INVALID_ADDR \<or>
            (\<exists>e \<in> starts bs. e < length (concat bs) \<and> oc_mFuncopEndAddr x = of_nat e)" using assms(3) by (simp add: ends_ok_def)
        then show ?thesis using c l starts_append [of _ cs "[b]"] by (metis less_trans)
      next
        case 2
        then show ?thesis using c(2) l starts_append [OF starts_all, of cs "[b]"] by metis
      qed
    next
      case False
      then show ?thesis using x nb assms(6) by simp
    qed
  qed
  show ?thesis
  proof (cases "ws = concat bs")
    case True
    then show ?thesis using assms(2) new [of bs] by (intro exI [of _ bs]) simp
  next
    case False
    then obtain i v where i: "i < length (concat bs)" "concat bs ! i = W_OpCode v"
      "ws = (concat bs)[i := W_OpCode (v\<lparr>oc_mFuncopEndAddr := of_nat (length (concat bs))\<rparr>)]"
      using assms(1) by (auto simp: set_end_def)
    let ?x = "W_OpCode (v\<lparr>oc_mFuncopEndAddr := of_nat (length (concat bs))\<rparr>)"
    obtain cs where cs: "concat cs = ws" "starts cs = starts bs"
      "\<forall>b' \<in> set cs. b' \<in> set bs \<or> (\<exists>b \<in> set bs. \<exists>j < length b. b' = b[j := ?x] \<and> b ! j = concat bs ! i)"
      using concat_update [OF i(1), of ?x] i(3) by blast
    have ok: "\<forall>b \<in> set cs. inst_ok sy b"
    proof
      fix b' assume "b' \<in> set cs"
      then consider "b' \<in> set bs" | b j where "b \<in> set bs" "j < length b" "b' = b[j := ?x]" "b ! j = W_OpCode v"
        using cs(3) i(2) by metis
      then show "inst_ok sy b'" using assms(2) inst_ok_end by cases auto
    qed
    have "\<forall>x. W_OpCode x \<in> set (concat cs) \<longrightarrow> W_OpCode x \<in> set (concat bs) \<or> oc_mFuncopEndAddr x = of_nat (length (concat bs))"
      using cs(1) i(3) set_update_subset_insert [of "concat bs" i ?x] by (fastforce simp del: set_concat)
    then have "ends_ok (cs @ [b])" using new [of cs] cs(1,2) i(3) by simp
    moreover have "is_addr (ws ! k) = is_addr (concat bs ! k)" if "k < length ws" for k
      using i that by (cases "k = i") (auto simp: is_addr_def)
    ultimately show ?thesis using cs(1,2) ok i(3) by (intro exI [of _ cs]) simp
  qed
qed

lemma handle_dirpos_fields [simp]:
  "acode (handle_dirpos d a) = acode a" "asyms (handle_dirpos d a) = asyms a"
  "sh_mpShaSymsStartPCs (as_mpShader (handle_dirpos d a)) = sh_mpShaSymsStartPCs (as_mpShader a)"
  "sh_mStartPC (as_mpShader (handle_dirpos d a)) = sh_mStartPC (as_mpShader a)"
  "as_mLabelDefs (handle_dirpos d a) = as_mLabelDefs a" "as_mLabelRefs (handle_dirpos d a) = as_mLabelRefs a"
  "as_mFuncOpBeginIdx (handle_dirpos d a) = as_mFuncOpBeginIdx a"
  by (simp_all add: handle_dirpos_def)

text \<open>The references after an instruction are exactly the address words.\<close>

lemma addr_refs:
  assumes "\<forall>i < length ws. is_addr (ws ! i) = is_addr (vs ! i)" and "length ws = length vs"
    and "\<forall>i < length vs. is_addr (vs ! i) \<longrightarrow> i \<in> R" and "\<forall>r \<in> R. r < length vs \<and> is_addr (vs ! r)"
    and "\<not> is_addr w"
  shows "(\<forall>i < length (ws @ w # os). is_addr ((ws @ w # os) ! i) \<longrightarrow> i \<in> R \<union> {Suc (length vs) + k |k. k < length os \<and> is_addr (os ! k)})
    \<and> (\<forall>r \<in> R \<union> {Suc (length vs) + k |k. k < length os \<and> is_addr (os ! k)}.
        r < length (ws @ w # os) \<and> is_addr ((ws @ w # os) ! r))"
proof (intro conjI allI ballI impI)
  fix i assume i: "i < length (ws @ w # os)" "is_addr ((ws @ w # os) ! i)"
  show "i \<in> R \<union> {Suc (length vs) + k |k. k < length os \<and> is_addr (os ! k)}"
  proof (cases "i < length ws")
    case True
    then show ?thesis using i assms(1-3) by (simp add: nth_append)
  next
    case False
    have "i \<noteq> length ws" using i(2) assms(5) by (auto simp: nth_append)
    then have "i = Suc (length vs) + (i - Suc (length ws))" "i - Suc (length ws) < length os"
      "is_addr (os ! (i - Suc (length ws)))"
      using False i assms(2) by (auto simp: nth_append nth_Cons')
    then show ?thesis by blast
  qed
next
  fix r assume "r \<in> R \<union> {Suc (length vs) + k |k. k < length os \<and> is_addr (os ! k)}"
  then consider "r \<in> R" | k where "r = Suc (length vs) + k" "k < length os" "is_addr (os ! k)" by blast
  then have "r < length (ws @ w # os) \<and> is_addr ((ws @ w # os) ! r)"
  proof cases
    case 1
    then show ?thesis using assms(1,2,4) by (auto simp: nth_append)
  next
    case 2
    then show ?thesis using assms(2) by (simp add: nth_append)
  qed
  then show "r < length (ws @ w # os)" "is_addr ((ws @ w # os) ! r)" by simp_all
qed

lemma same_code: "a\<lparr>as_mpShader := (as_mpShader a)\<lparr>sh_mCode := sh_mCode (as_mpShader a)\<rparr>\<rparr> = a"
  by simp

lemma parse_instruction_inv:
  assumes at: "asm_at bs a" and idx: "idx < length gOpCodeDefs" and p: "parse_instruction idx r n a = Inr a'"
  shows "asm_inv a'"
proof -
  let ?d = "gOpCodeDefs ! idx" and ?N = "length (concat bs)" and ?w = "new_instruction idx n"
  have N: "code_size a = ?N" and ca: "acode a = concat bs" using at by (simp_all add: asm_at_def code_size_def)
  obtain a1 a3 where h: "handle_funcop ?d ?N a = Inr a1"
    and o: "parse_operands ?d 0 (od_OperCnt ?d) r (push_word (W_OpCode ?w) (handle_dirpos ?d a1)) = Inr a3"
    and a': "a' = a3\<lparr>as_mpShader := (as_mpShader a3)\<lparr>sh_mCode := (acode a3)[?N := W_OpCode ?w]\<rparr>\<rparr>"
    using p N by (auto simp: parse_instruction_def Let_def res_bind_eq_Inr)
  have h1: "set_end (concat bs) ?N (acode a1)" "only_code a a1"
    "set (as_mFuncOpBeginIdx a1) \<subseteq> insert ?N (set (as_mFuncOpBeginIdx a))"
    using handle_funcop_spec [OF h] at by (auto simp: asm_at_def)
  let ?a2 = "push_word (W_OpCode ?w) (handle_dirpos ?d a1)"
  obtain os where os: "length os = od_OperCnt ?d" "grows ?a2 os a3" "\<forall>k < od_OperCnt ?d. oper_ok (asyms a3) ?d k (os ! k)"
    using operands_grow [OF o] by auto
  let ?b = "W_OpCode ?w # os"
  obtain ss where ss: "asyms a3 = asyms a @ ss"
    "sh_mpShaSymsStartPCs (as_mpShader a3) = sh_mpShaSymsStartPCs (as_mpShader a) @ replicate (length ss) None"
    using os(2) h1(2) by (auto simp: grows_def only_code_def)
  have bok: "inst_ok (asyms a3) ?b" using os idx by (simp add: inst_ok_def new_instruction_def)
  have "\<forall>b \<in> set bs. inst_ok (asyms a3) b" using at ss(1) inst_ok_append by (simp add: asm_at_def)
  then obtain bs' where bs': "acode a1 = concat bs'" "starts bs' = starts bs" "\<forall>b \<in> set bs'. inst_ok (asyms a3) b"
    "ends_ok (bs' @ [?b])" "length (acode a1) = ?N" "\<forall>i < length (acode a1). is_addr (acode a1 ! i) = is_addr (concat bs ! i)"
    using set_end_blocks [OF h1(1) _ _ bok refl] at by (auto simp: asm_at_def new_instruction_def)
  have c3: "acode a3 = acode a1 @ ?b" using os(2) by (simp add: grows_def)
  have "(acode a3)[?N := W_OpCode ?w] = acode a3" using c3 bs'(5) by (simp add: list_update_append)
  then have a3: "a' = a3" using a' same_code by simp
  have refs: "ref_addrs a3 = ref_addrs a \<union> {Suc ?N + k |k. k < length os \<and> is_addr (os ! k)}"
    using os(2) h1(2) bs'(5) by (simp add: grows_def only_code_def)
  have "asm_at (bs' @ [?b]) a3"
    unfolding asm_at_def
  proof (intro conjI)
    show "acode a3 = concat (bs' @ [?b])" using c3 bs'(1) by simp
    show "\<forall>b \<in> set (bs' @ [?b]). inst_ok (asyms a3) b" using bs'(3) bok by auto
    show "ends_ok (bs' @ [?b])" by (rule bs'(4))
    show "\<forall>l \<in> set (as_mLabelDefs a3). lb_mAddress l \<in> starts (bs' @ [?b])"
      using os(2) h1(2) at bs'(2) starts_append [of _ bs' "[?b]"] by (auto simp: grows_def only_code_def asm_at_def)
    have ar: "(\<forall>i < length (acode a1 @ ?b). is_addr ((acode a1 @ ?b) ! i) \<longrightarrow> i \<in> ref_addrs a3)
      \<and> (\<forall>r \<in> ref_addrs a3. r < length (acode a1 @ ?b) \<and> is_addr ((acode a1 @ ?b) ! r))"
      unfolding refs
      by (rule addr_refs [OF bs'(6,5)]) (use at ca in \<open>auto simp: asm_at_def is_addr_def\<close>)
    show "\<forall>i < length (acode a3). is_addr (acode a3 ! i) \<longrightarrow> i \<in> ref_addrs a3" using ar c3 by simp
    show "\<forall>r \<in> ref_addrs a3. r < length (acode a3) \<and> is_addr (acode a3 ! r)" using ar c3 by simp
    show "\<forall>i \<in> set (as_mFuncOpBeginIdx a3). i < length (acode a3)"
      using os(2) h1(3) at c3 bs'(5) ca by (fastforce simp: grows_def asm_at_def)
    have nos: "\<forall>x. W_OpCode x \<notin> set os"
      using os(1,3) oper_not_op by (metis in_set_conv_nth)
    have d: "?d = gOpCodeDefs ! oc_mTableOffset ?w" and e: "oc_mFuncopEndAddr ?w = INVALID_ADDR"
      by (simp_all add: new_instruction_def)
    have "handle_funcop (gOpCodeDefs ! oc_mTableOffset ?w) (length (acode a)) a = Inr a1"
      using h ca by (simp add: d [symmetric])
    then have "constructs_inv (acode a1 @ ?b) (as_mFuncOpBeginIdx a1)"
      using handle_constructs [OF _ _ e nos] at unfolding asm_at_def by blast
    then show "constructs_inv (acode a3) (as_mFuncOpBeginIdx a3)" using os(2) c3 by (simp add: grows_def)
    show "sh_mpShaSymsStartPCs (as_mpShader a3) = replicate (length (asyms a3)) None"
      using ss at by (simp add: asm_at_def replicate_add)
    show "sh_mStartPC (as_mpShader a3) = None" using os(2) h1(2) at by (simp add: grows_def only_code_def asm_at_def)
  qed
  then show ?thesis using a3 by (auto simp: asm_inv_def)
qed

section \<open>Lines and files\<close>

lemma parseLabelDef_inv:
  assumes "asm_inv a" and "parseLabelDef tok a = Inr (Some a')"
  shows "asm_inv a'"
proof -
  obtain bs where at: "asm_at bs a" using assms(1) by (auto simp: asm_inv_def)
  have "a' = a\<lparr>as_mLabelDefs := as_mLabelDefs a @ [\<lparr>lb_mName = butlast tok, lb_mAddress = code_size a\<rparr>]\<rparr>"
    using assms(2) by (auto simp: parseLabelDef_def onError_def split: if_splits)
  moreover have "code_size a \<in> starts bs" using at by (simp add: code_size_def asm_at_def)
  ultimately have "asm_at bs a'" using at by (auto simp: asm_at_def)
  then show ?thesis by (auto simp: asm_inv_def)
qed

lemma parseCodeLine_inv:
  assumes "asm_inv a" and "parseCodeLine line n a = Inr a'"
  shows "asm_inv a'"
proof (cases "strtok_r blank line")
  case None
  then show ?thesis using assms by (simp add: parseCodeLine_def)
next
  case (Some tr)
  obtain tok r where tr: "tr = (tok, r)" by (cases tr)
  obtain lab where lab: "parseLabelDef (StrStripBeginEndWhite tok) a = Inr lab"
    using assms(2) Some tr by (auto simp: parseCodeLine_def Let_def res_bind_eq_Inr)
  show ?thesis
  proof (cases lab)
    case (Some b)
    then have "a' = b" using assms(2) \<open>strtok_r blank line = Some tr\<close> tr lab by (simp add: parseCodeLine_def Let_def)
    then show ?thesis using parseLabelDef_inv [OF assms(1)] lab Some by simp
  next
    case None
    then obtain idx where idx: "findOpDef (StrStripBeginEndWhite tok) = Some idx" "parse_instruction idx r n a = Inr a'"
      using assms(2) \<open>strtok_r blank line = Some tr\<close> tr lab
      by (auto simp: parseCodeLine_def Let_def res_bind_eq_Inr lookup_or_def onError_def split: option.splits)
    have "idx < length gOpCodeDefs" using find_from_Some idx(1) by (fastforce simp: findOpDef_def)
    then show ?thesis using parse_instruction_inv idx(2) assms(1) by (auto simp: asm_inv_def)
  qed
qed

lemma add_symbol_inv: "asm_inv a \<Longrightarrow> asm_inv (a\<lparr>as_mpShader := add_symbol s (as_mpShader a)\<rparr>)"
proof -
  assume "asm_inv a"
  then obtain bs where "asm_at bs a" by (auto simp: asm_inv_def)
  then have "asm_at bs (a\<lparr>as_mpShader := add_symbol s (as_mpShader a)\<rparr>)"
    by (auto simp: asm_at_def replicate_append_same inst_ok_append)
  then show ?thesis by (auto simp: asm_inv_def)
qed

lemma parseDataLine_inv:
  assumes "asm_inv a" and "parseDataLine line a = Inr a'"
  shows "asm_inv a'"
  using assms add_symbol_inv
  by (auto simp: parseDataLine_def res_bind_eq_Inr split: option.splits prod.splits)

lemma handleShaderTypeDef_inv:
  assumes "asm_inv a" and "handleShaderTypeDef line sec a = Inr (b, a')"
  shows "asm_inv a'"
proof -
  have "a' = a \<or> (\<exists>t. a' = a\<lparr>as_mpShader := (as_mpShader a)\<lparr>sh_mType := t\<rparr>\<rparr>)"
    using assms(2) by (auto simp: handleShaderTypeDef_def onError_def split: option.splits if_splits)
  then show ?thesis using assms(1) by (auto simp: asm_inv_def asm_at_def)
qed

lemma parse_line_inv:
  assumes "asm_inv a" and "parse_line line n (sec, a) = Inr (sec', a')"
  shows "asm_inv a'"
proof (cases "StrStripBeginEndWhite (stripComments line) = []")
  case True
  then show ?thesis using assms by (simp add: parse_line_def)
next
  case False
  let ?l = "StrStripBeginEndWhite (stripComments line)"
  obtain b a1 where t: "handleShaderTypeDef ?l sec a = Inr (b, a1)"
    and rest: "a' = a1 \<or> parseDataLine ?l a1 = Inr a' \<or> parseCodeLine ?l n a1 = Inr a'"
    using assms(2) False by (auto simp: parse_line_def Let_def res_bind_eq_Inr split: if_splits)
  have "asm_inv a1" using handleShaderTypeDef_inv [OF assms(1) t] .
  then show ?thesis using rest parseDataLine_inv parseCodeLine_inv by blast
qed

lemma doParse_loop_inv:
  "doParse_loop fl n st = Inr st' \<Longrightarrow> asm_inv (snd st) \<Longrightarrow> asm_inv (snd st')"
proof (induction fl n st rule: doParse_loop.induct)
  case (1 fl n st)
  obtain r f' where m: "MemFile_ReadTextLine 1024 fl = (r, f')" by fastforce
  show ?case
  proof (cases r)
    case (Inl e)
    then show ?thesis using 1(2) m by (simp add: doParse_loop.simps [of fl])
  next
    case (Inr ol)
    show ?thesis
    proof (cases ol)
      case None
      then show ?thesis using 1(2,3) m Inr by (simp add: doParse_loop.simps [of fl])
    next
      case (Some l)
      obtain s1 where p: "parse_line (c_string l) n st = Inr s1"
        and rest: "doParse_loop f' (Suc n) s1 = Inr st'"
        using 1(2) m Inr Some by (auto simp: doParse_loop.simps [of fl] split: sum.splits)
      have "asm_inv (snd s1)"
        using parse_line_inv [of "snd st" "c_string l" n "fst st" "fst s1" "snd s1"] 1(3) p by simp
      then show ?thesis using 1(1) [OF _ _ _ p] m Inr Some rest by auto
    qed
  qed
qed

section \<open>Labels\<close>

lemma special_label:
  assumes "pcs_ok bs sh" and "lb_mAddress l \<in> starts bs"
  shows "pcs_ok bs (processSpecialLabel l sh) \<and> sh_mCode (processSpecialLabel l sh) = sh_mCode sh
    \<and> sh_mpShaSyms (processSpecialLabel l sh) = sh_mpShaSyms sh"
proof -
  have "Some pc \<in> set (xs[i := Some k]) \<Longrightarrow> Some pc \<in> set xs \<or> pc = k" for pc k i and xs :: "nat option list"
    using set_update_subset_insert [of xs i "Some k"] by auto
  then show ?thesis using assms
    by (auto simp: processSpecialLabel_def pcs_ok_def split: option.splits) blast+
qed

lemma special_labels:
  assumes "\<forall>l \<in> set ls. lb_mAddress l \<in> starts bs" and "pcs_ok bs sh"
  shows "pcs_ok bs (fold processSpecialLabel ls sh) \<and> sh_mCode (fold processSpecialLabel ls sh) = sh_mCode sh
    \<and> sh_mpShaSyms (fold processSpecialLabel ls sh) = sh_mpShaSyms sh"
  using assms
proof (induction ls arbitrary: sh)
  case (Cons l ls)
  have "pcs_ok bs (processSpecialLabel l sh) \<and> sh_mCode (processSpecialLabel l sh) = sh_mCode sh
    \<and> sh_mpShaSyms (processSpecialLabel l sh) = sh_mpShaSyms sh" using special_label Cons.prems by simp
  then show ?case using Cons.IH [of "processSpecialLabel l sh"] Cons.prems(1) by simp
qed simp

lemma oper_ok_addr: "oper_ok sy d i w \<Longrightarrow> is_addr w \<Longrightarrow> oper_ok sy d i (W_Address k)"
proof -
  assume o: "oper_ok sy d i w" and w: "is_addr w"
  have "\<not> sym_oper_ok sy d i w" "\<not> (case w of W_ImmFloat _ \<Rightarrow> True | _ \<Rightarrow> False)" "is_addr (W_Address k)"
    using w by (cases w; simp add: is_addr_def sym_oper_ok_def)+
  then show ?thesis using o unfolding oper_ok_def by metis
qed

lemma inst_ok_addr:
  assumes "inst_ok sy b" and "j < length b" and "is_addr (b ! j)"
  shows "inst_ok sy (b[j := W_Address k])"
proof -
  obtain w os where b: "b = W_OpCode w # os" using inst_ok_Cons [OF assms(1)] .
  obtain i where j: "j = Suc i" "i < length os" "is_addr (os ! i)"
    using assms(2,3) b by (cases j) (auto simp: is_addr_def)
  have ok: "\<forall>i < length os. oper_ok sy (gOpCodeDefs ! oc_mTableOffset w) i (os ! i)"
    using assms(1) b by (simp add: inst_ok_def)
  have "oper_ok sy (gOpCodeDefs ! oc_mTableOffset w) n (os[i := W_Address k] ! n)" if "n < length os" for n
    using ok that j(2,3) oper_ok_addr by (cases "n = i") auto
  then show ?thesis using assms(1) b j(1) by (simp add: inst_ok_def)
qed

definition code_blocks :: "Symbol list \<Rightarrow> CPUWord list \<Rightarrow> CPUWord list list \<Rightarrow> bool" where
  "code_blocks sy ws bs \<longleftrightarrow> ws = concat bs \<and> (\<forall>b \<in> set bs. inst_ok sy b) \<and> ends_ok bs"

lemma code_blocks_addr:
  assumes "code_blocks sy ws bs" and "i < length ws" and "is_addr (ws ! i)"
  shows "\<exists>bs'. code_blocks sy (ws[i := W_Address k]) bs' \<and> starts bs' = starts bs"
proof -
  have ws: "ws = concat bs" and ok: "\<forall>b \<in> set bs. inst_ok sy b" and e: "ends_ok bs"
    using assms(1) by (simp_all add: code_blocks_def)
  obtain bs' where bs': "concat bs' = (concat bs)[i := W_Address k]" "starts bs' = starts bs"
    "\<forall>b' \<in> set bs'. b' \<in> set bs \<or> (\<exists>b \<in> set bs. \<exists>j < length b. b' = b[j := W_Address k] \<and> b ! j = concat bs ! i)"
    using concat_update [of i bs "W_Address k"] assms(2) ws by blast
  have "\<forall>b \<in> set bs'. inst_ok sy b"
  proof
    fix b' assume "b' \<in> set bs'"
    then consider "b' \<in> set bs" | b j where "b \<in> set bs" "j < length b" "b' = b[j := W_Address k]" "b ! j = ws ! i"
      using bs'(3) ws by metis
    then show "inst_ok sy b'" using ok inst_ok_addr assms(3) by cases auto
  qed
  moreover have "\<forall>w. W_OpCode w \<in> set (concat bs') \<longrightarrow> W_OpCode w \<in> set (concat bs)"
    using bs'(1) set_update_subset_insert [of "concat bs" i "W_Address k"] by (fastforce simp del: set_concat)
  moreover have "length (concat bs') = length (concat bs)" using bs'(1) by simp
  ultimately have "code_blocks sy (ws[i := W_Address k]) bs'"
    using bs'(1,2) e ws unfolding code_blocks_def ends_ok_def by metis
  then show ?thesis using bs'(2) by blast
qed

lemma resolve_ref_spec:
  assumes "resolve_ref defs r ws = Inr ws'" and "\<forall>d \<in> set defs. lb_mAddress d \<in> S"
  shows "\<exists>k \<in> S. ws' = ws[lb_mAddress r := W_Address k]"
proof -
  let ?ds = "filter (\<lambda>d. lb_mName r = lb_mName d) defs"
  have ne: "?ds \<noteq> []" using assms(1) by (auto simp: resolve_ref_def onError_def)
  then have "ws' = ws[lb_mAddress r := W_Address (lb_mAddress (last ?ds))]"
    using assms(1) by (auto simp: resolve_ref_def split: list.splits)
  moreover have "last ?ds \<in> set defs" using ne last_in_set [OF ne] by simp
  ultimately show ?thesis using assms(2) by blast
qed

lemma resolve_refs_spec:
  assumes "resolve_refs defs refs ws = Inr ws'" and "code_blocks sy ws bs"
    and "\<forall>d \<in> set defs. lb_mAddress d \<in> starts bs"
    and "\<forall>r \<in> set refs. lb_mAddress r < length ws \<and> is_addr (ws ! lb_mAddress r)"
  shows "\<exists>bs'. code_blocks sy ws' bs' \<and> starts bs' = starts bs \<and> length ws' = length ws
    \<and> (\<forall>i < length ws. \<forall>a. ws' ! i = W_Address a \<longrightarrow>
         a \<in> starts bs \<or> (i \<notin> lb_mAddress ` set refs \<and> ws ! i = W_Address a))"
  using assms
proof (induction refs arbitrary: ws bs)
  case Nil
  then show ?case by auto
next
  case (Cons r rs)
  obtain ws1 where r1: "resolve_ref defs r ws = Inr ws1" and r2: "resolve_refs defs rs ws1 = Inr ws'"
    using Cons.prems(1) by (auto simp: res_bind_eq_Inr)
  obtain k where k: "k \<in> starts bs" "ws1 = ws[lb_mAddress r := W_Address k]"
    using resolve_ref_spec [OF r1 Cons.prems(3)] by blast
  have r: "lb_mAddress r < length ws" "is_addr (ws ! lb_mAddress r)" using Cons.prems(4) by simp_all
  obtain bs1 where bs1: "code_blocks sy ws1 bs1" "starts bs1 = starts bs"
    using code_blocks_addr [OF Cons.prems(2) r] k(2) by blast
  have "\<forall>q \<in> set rs. lb_mAddress q < length ws1 \<and> is_addr (ws1 ! lb_mAddress q)"
    using Cons.prems(4) k(2) r by (auto simp: nth_list_update is_addr_def)
  then obtain bs' where bs': "code_blocks sy ws' bs'" "starts bs' = starts bs" "length ws' = length ws"
    "\<forall>i < length ws. \<forall>a. ws' ! i = W_Address a \<longrightarrow>
       a \<in> starts bs \<or> (i \<notin> lb_mAddress ` set rs \<and> ws1 ! i = W_Address a)"
    using Cons.IH [OF r2 bs1(1)] Cons.prems(3) bs1(2) k(2) by auto
  have "a \<in> starts bs \<or> (i \<notin> lb_mAddress ` set (r # rs) \<and> ws ! i = W_Address a)"
    if "i < length ws" "ws' ! i = W_Address a" for i a
    using bs'(4) that k r(1) by (cases "i = lb_mAddress r") auto
  then show ?case using bs'(1-3) by blast
qed

text \<open>
  Assembled code is a sequence of whole instructions. Every operand is of the kind and type its
  instruction asks for and names a symbol of the shader; every jump address, every entry point and
  every end of an \<open>iftrue\<close>, \<open>orelse\<close>, \<open>solar\<close> or \<open>illuminance\<close> block is the start of an instruction.
\<close>

lemma doParse_Inr:
  assumes "doParse fl a = Inr b"
  obtains se where "doParse_loop fl 0 (SEC_UNDEF, a) = Inr (se, b)"
proof (cases "doParse_loop fl 0 (SEC_UNDEF, a)")
  case (Inr st)
  obtain se c where st: "st = (se, c)" by fastforce
  then have "c = b" using assms Inr by (simp add: doParse_def onError_def split: if_splits)
  then show ?thesis using that Inr st by simp
qed (use assms in \<open>simp add: doParse_def\<close>)

lemma nth_of_member:
  assumes "x \<in> set xs"
  obtains i where "i < length xs" and "xs ! i = x"
  using assms by (auto simp: in_set_conv_nth)

lemma parsed_inv:
  assumes "doParse file (Asm_new (SvmShader_new nm)) = Inr a"
  shows "asm_inv a"
proof -
  have "asm_at [] (Asm_new (SvmShader_new nm))"
    by (simp add: asm_at_def Asm_new_def SvmShader_new_def ends_ok_def constructs_inv_def ends_exact_def constructs_def)
  then have inv0: "asm_inv (snd (SEC_UNDEF, Asm_new (SvmShader_new nm)))" unfolding asm_inv_def snd_conv by (rule exI)
  obtain se where se: "doParse_loop file 0 (SEC_UNDEF, Asm_new (SvmShader_new nm)) = Inr (se, a)"
    using assms by (rule doParse_Inr)
  show ?thesis using doParse_loop_inv [OF se inv0] by simp
qed

lemma resolve_refs_ends:
  "resolve_refs defs refs ws = Inr ws' \<Longrightarrow> ends_exact ws st ps \<Longrightarrow>
   \<forall>r \<in> set refs. lb_mAddress r < length ws \<and> is_addr (ws ! lb_mAddress r) \<Longrightarrow> ends_exact ws' st ps"
proof (induction refs arbitrary: ws)
  case (Cons r rs)
  obtain ws1 where r1: "resolve_ref defs r ws = Inr ws1" and r2: "resolve_refs defs rs ws1 = Inr ws'"
    using Cons.prems(1) by (auto simp: res_bind_eq_Inr)
  obtain k where k: "ws1 = ws[lb_mAddress r := W_Address k]"
    using resolve_ref_spec [OF r1, of UNIV] by auto
  have "\<forall>q \<in> set rs. lb_mAddress q < length ws1 \<and> is_addr (ws1 ! lb_mAddress q)"
    using Cons.prems(3) k by (auto simp: nth_list_update is_addr_def)
  then show ?case using Cons.IH [OF r2] constructs_inv_addr [OF Cons.prems(2), of "lb_mAddress r" k] Cons.prems(3) k by simp
qed simp

lemma resolveLabels_Inr:
  assumes "resolveLabels a = Inr sh"
  obtains ws where "resolve_refs (as_mLabelDefs a) (as_mLabelRefs a)
      (sh_mCode (fold processSpecialLabel (as_mLabelDefs a) (as_mpShader a))) = Inr ws"
    and "sh = (fold processSpecialLabel (as_mLabelDefs a) (as_mpShader a))\<lparr>sh_mCode := ws\<rparr>"
    and "sh_mStartPC (fold processSpecialLabel (as_mLabelDefs a) (as_mpShader a)) \<noteq> None"
proof -
  define s0 where "s0 = fold processSpecialLabel (as_mLabelDefs a) (as_mpShader a)"
  show ?thesis
    using that assms unfolding resolveLabels_def Let_def s0_def [symmetric] onError_def
    by (cases "resolve_refs (as_mLabelDefs a) (as_mLabelRefs a) (sh_mCode s0)") (simp_all split: if_splits)
qed

lemma asm_at_code_blocks: "asm_at bs a \<Longrightarrow> code_blocks (asyms a) (acode a) bs"
  unfolding asm_at_def code_blocks_def by (elim conjE) (intro conjI)

lemma asm_at_labels: "asm_at bs a \<Longrightarrow> \<forall>d \<in> set (as_mLabelDefs a). lb_mAddress d \<in> starts bs"
  unfolding asm_at_def by (elim conjE)

lemma asm_at_addrs: "asm_at bs a \<Longrightarrow> \<forall>i < length (acode a). is_addr (acode a ! i) \<longrightarrow> i \<in> ref_addrs a"
  unfolding asm_at_def by (elim conjE)

lemma asm_at_refs:
  "asm_at bs a \<Longrightarrow> \<forall>r \<in> set (as_mLabelRefs a). lb_mAddress r < length (acode a) \<and> is_addr (acode a ! lb_mAddress r)"
  unfolding asm_at_def by (elim conjE) (rule ballI, erule bspec, rule imageI)

lemma asm_at_pcs: "asm_at bs a \<Longrightarrow> pcs_ok bs (as_mpShader a)"
  by (simp add: asm_at_def pcs_ok_def)

lemma resolved_ok:
  assumes at: "asm_at bs a" and r: "resolveLabels a = Inr sh"
  shows "wf_shader sh \<and> sh_mStartPC sh \<noteq> None"
proof -
  let ?s0 = "fold processSpecialLabel (as_mLabelDefs a) (as_mpShader a)"
  obtain ws where ws: "resolve_refs (as_mLabelDefs a) (as_mLabelRefs a) (sh_mCode ?s0) = Inr ws"
    and sh: "sh = ?s0\<lparr>sh_mCode := ws\<rparr>" and st: "sh_mStartPC ?s0 \<noteq> None"
    using r by (rule resolveLabels_Inr)
  note sp = special_labels [OF asm_at_labels [OF at] asm_at_pcs [OF at]]
  have c: "sh_mCode ?s0 = acode a" "sh_mpShaSyms ?s0 = asyms a" "pcs_ok bs ?s0" using sp by simp_all
  obtain bs' where bs': "code_blocks (asyms a) ws bs'" "starts bs' = starts bs" "length ws = length (acode a)"
    "\<forall>i < length (acode a). \<forall>x. ws ! i = W_Address x \<longrightarrow>
       x \<in> starts bs \<or> (i \<notin> ref_addrs a \<and> acode a ! i = W_Address x)"
    using resolve_refs_spec [OF ws [unfolded c(1)] asm_at_code_blocks [OF at] asm_at_labels [OF at] asm_at_refs [OF at]]
    by (elim exE conjE) (rule that; assumption)
  have addr: "x \<in> starts bs'" if "W_Address x \<in> set ws" for x
  proof -
    obtain i where i: "i < length ws" "ws ! i = W_Address x" using \<open>W_Address x \<in> set ws\<close> by (rule nth_of_member)
    have j: "i < length (acode a)" using i(1) bs'(3) by simp
    have "acode a ! i = W_Address x \<longrightarrow> i \<in> ref_addrs a"
    proof
      assume "acode a ! i = W_Address x"
      then have "is_addr (acode a ! i)" by (simp only: is_addr_def CPUWord.case)
      then show "i \<in> ref_addrs a" by (rule asm_at_addrs [OF at, rule_format, OF j])
    qed
    moreover have "x \<in> starts bs \<or> (i \<notin> ref_addrs a \<and> acode a ! i = W_Address x)"
      by (rule bs'(4) [rule_format, OF j i(2)])
    ultimately show ?thesis unfolding bs'(2) by (elim disjE conjE) simp_all
  qed
  have "pcs_ok bs' sh" using c(3) sh bs'(2) by (simp add: pcs_ok_def)
  then have "sh_mCode sh = concat bs' \<and> (\<forall>b \<in> set bs'. inst_ok (sh_mpShaSyms sh) b) \<and> ends_ok bs'
     \<and> pcs_ok bs' sh \<and> (\<forall>a. W_Address a \<in> set (sh_mCode sh) \<longrightarrow> a \<in> starts bs')"
    using bs'(1) addr c(2) sh unfolding code_blocks_def by simp
  then have "wf_shader sh" unfolding wf_shader_def by (rule exI)
  then show ?thesis using st sh by simp
qed

lemma asm_at_constructs:
  assumes "asm_at bs a"
  obtains st ps where "ends_exact (acode a) st ps"
  using assms unfolding asm_at_def constructs_inv_def by (elim conjE exE) (rule that)

lemma resolved_ends:
  assumes at: "asm_at bs a" and r: "resolveLabels a = Inr sh"
  shows "\<exists>st ps. ends_exact (sh_mCode sh) st ps"
proof -
  obtain ws where ws: "resolve_refs (as_mLabelDefs a) (as_mLabelRefs a)
      (sh_mCode (fold processSpecialLabel (as_mLabelDefs a) (as_mpShader a))) = Inr ws"
    and sh: "sh = (fold processSpecialLabel (as_mLabelDefs a) (as_mpShader a))\<lparr>sh_mCode := ws\<rparr>"
    using r by (rule resolveLabels_Inr)
  have c: "sh_mCode (fold processSpecialLabel (as_mLabelDefs a) (as_mpShader a)) = acode a"
    using special_labels [OF asm_at_labels [OF at] asm_at_pcs [OF at]] by (elim conjE)
  obtain st ps where e: "ends_exact (acode a) st ps" using at by (rule asm_at_constructs)
  have "ends_exact ws st ps" using ws [unfolded c] e asm_at_refs [OF at] by (rule resolve_refs_ends)
  then have "ends_exact (sh_mCode sh) st ps" unfolding sh by simp
  then show ?thesis by (intro exI)
qed

lemma assembled_wf:
  assumes "RRASM_Parser file (SvmShader_new nm) = Inr sh"
  shows "wf_shader sh \<and> sh_mStartPC sh \<noteq> None \<and> (\<exists>st ps. ends_exact (sh_mCode sh) st ps)"
proof -
  obtain a where p: "doParse file (Asm_new (SvmShader_new nm)) = Inr a" and r: "resolveLabels a = Inr sh"
    using assms unfolding RRASM_Parser_def res_bind_eq_Inr by (elim exE conjE)
  then obtain bs where "asm_at bs a" using parsed_inv unfolding asm_inv_def by blast
  then show ?thesis using resolved_ok [OF _ r] resolved_ends [OF _ r] by blast
qed

lemma assembled_code_inv: "RRASM_Parser file (SvmShader_new nm) = Inr sh \<Longrightarrow> wf_shader sh"
  using assembled_wf by blast

lemma assembled_entry: "RRASM_Parser file (SvmShader_new nm) = Inr sh \<Longrightarrow> \<exists>pc. sh_mStartPC sh = Some pc"
  using assembled_wf by blast


text \<open>A surface shader of two instructions.\<close>

definition ascii :: "string \<Rightarrow> bytes" where
  "ascii s = map (\<lambda>c. of_nat (of_char c)) s"

definition sample_shader_text :: string where
  "sample_shader_text = concat (map (\<lambda>l. l @ [CHR 0x0A])
     [''.code'', ''surface'', ''__main:'', ''mov.ss $s1 $s2'', ''ret''])"

lemma sample_assembles:
  "(case RRASM_Parser (mem_file (ascii sample_shader_text)) (SvmShader_new ''x'') of
      Inr sh \<Rightarrow> length (sh_mCode sh) = 4 | _ \<Rightarrow> False)"
  by code_simp

text \<open>One with a construct: its instructions are at 0, 2 and 3.\<close>

definition construct_shader_text :: string where
  "construct_shader_text = concat (map (\<lambda>l. l @ [CHR 0x0A])
     [''.code'', ''surface'', ''__main:'', ''iftrue.b $b1'', ''orelse'', ''funcopend''])"

definition code_ends :: "SvmShader \<Rightarrow> U16 option list" where
  "code_ends sh = map (\<lambda>w. case w of W_OpCode c \<Rightarrow> Some (oc_mFuncopEndAddr c) | _ \<Rightarrow> None) (sh_mCode sh)"

lemma construct_assembles:
  "(case RRASM_Parser (mem_file (ascii construct_shader_text)) (SvmShader_new ''x'') of
      Inr sh \<Rightarrow> code_ends sh = [Some 2, None, Some 3, Some 0xFFFF]
        \<and> constructs (sh_mCode sh) = Some ([], [(2, 3), (0, 2)]) | _ \<Rightarrow> False)"
  by code_simp


end
