(* ===== verification/SVM.thy ===== *)
theory SVM
  imports RRAsm Noise
begin

text \<open>
  The shader machine: the binding of a shader's symbols to data (\<open>RI_SVM_Binding.cpp\<close>), the context
  of a run (\<open>RI_SVM_Context.h/.cpp\<close>), the instructions (\<open>RI_SVM_Ops_*.h/.cpp\<close>), their table
  (\<open>RI_SVM_OpCodeFuncs.cpp\<close>) and the loop that executes them (\<open>ShaderInst::Run\<close>, \<open>RI_SVM_Shader.cpp\<close>).

  A register is an array of blocks of four lanes of reals. \<open>GetWriteMask\<close> returns the full mask for
  every block, so the test for an empty mask in the loops of the instructions never skips a
  block and is left out. Contexts are objects that refer to each other (a surface to those of its
  lights) and share the arrays of the grid: both are kept in the record \<open>Machine\<close>, the contexts by
  their number. The casts of \<open>void\<close> pointers are checked: to read an array of another type than it has is
  \<^const>\<open>Undefined_behaviour\<close>, and so is a write to a symbol that cannot change, which the code only
  asserts. A division by zero is \<^const>\<open>Not_modelled\<close>.
\<close>

section \<open>Blocks and arrays\<close>

datatype Blk = B_s lanes | B_v "lanes Vec3" | B_h "lanes Vec4" | B_m Matrix44 | B_x string | B_b VecNMask

definition nth_opt :: "'a list \<Rightarrow> nat \<Rightarrow> 'a option" where
  "nth_opt xs i = (if i < length xs then Some (xs ! i) else None)"

fun block_at :: "SymData \<Rightarrow> nat \<Rightarrow> Blk option" where
  "block_at (D_float a) i = map_option B_s (nth_opt a i)"
| "block_at (D_float3 a) i = map_option B_v (nth_opt a i)"
| "block_at (D_float4 a) i = map_option B_h (nth_opt a i)"
| "block_at (D_matrix a) i = map_option B_m (nth_opt a i)"
| "block_at (D_string a) i = map_option B_x (nth_opt a i)"
| "block_at (D_bool a) i = map_option B_b (nth_opt a i)"

definition upd_opt :: "'a list \<Rightarrow> nat \<Rightarrow> 'a \<Rightarrow> 'a list option" where
  "upd_opt xs i v = (if i < length xs then Some (xs[i := v]) else None)"

fun put_block :: "Blk \<Rightarrow> nat \<Rightarrow> SymData \<Rightarrow> SymData option" where
  "put_block (B_s v) i (D_float a) = map_option D_float (upd_opt a i v)"
| "put_block (B_v v) i (D_float3 a) = map_option D_float3 (upd_opt a i v)"
| "put_block (B_h v) i (D_float4 a) = map_option D_float4 (upd_opt a i v)"
| "put_block (B_m v) i (D_matrix a) = map_option D_matrix (upd_opt a i v)"
| "put_block (B_x v) i (D_string a) = map_option D_string (upd_opt a i v)"
| "put_block (B_b v) i (D_bool a) = map_option D_bool (upd_opt a i v)"
| "put_block _ i _ = None"

definition bad_access :: exn where
  "bad_access = Undefined_behaviour ''access outside an array or through a null or mistyped pointer''"

text \<open>\<open>Symbol::FillDataFromSIMD\<close> and \<open>Symbol::CopyConstValue\<close>: the first block, repeated or copied.\<close>

definition FillDataFromSIMD :: "nat \<Rightarrow> SymData \<Rightarrow> Symbol \<Rightarrow> SymData option res" where
  "FillDataFromSIMD n src s =
     (case (sym_mType s, src) of
        (TYP_FLOAT, D_float (a # _)) \<Rightarrow> Inr (Some (D_float (replicate (simd_blocks n) a)))
      | (TYP_POINT, D_float3 (a # _)) \<Rightarrow> Inr (Some (D_float3 (replicate (simd_blocks n) a)))
      | (TYP_VECTOR, D_float3 (a # _)) \<Rightarrow> Inr (Some (D_float3 (replicate (simd_blocks n) a)))
      | (TYP_NORMAL, D_float3 (a # _)) \<Rightarrow> Inr (Some (D_float3 (replicate (simd_blocks n) a)))
      | (TYP_HPOINT, D_float4 (a # _)) \<Rightarrow> Inr (Some (D_float4 (replicate (simd_blocks n) a)))
      | (TYP_COLOR, D_float3 (a # _)) \<Rightarrow> Inr (Some (D_float3 (replicate (simd_blocks n) a)))
      | (TYP_MATRIX, D_matrix (a # _)) \<Rightarrow> Inr (Some (D_matrix (replicate n a)))
      | (TYP_STRING, D_string (a # _)) \<Rightarrow> Inr (Some (D_string (replicate n a)))
      | (TYP_BOOL, D_bool (a # _)) \<Rightarrow> Inr (Some (D_bool (replicate n a)))
      | (t, _) \<Rightarrow>
          if t \<in> {TYP_UNKNOWN, TYP_VOID, TYP_FLOAT2, TYP_ADDR} then Inr None else Inl bad_access)"

definition CopyConstValue :: "SymData \<Rightarrow> SymData \<Rightarrow> SymData res" where
  "CopyConstValue pConstVal pDestData =
     (case block_at pConstVal 0 of
        None \<Rightarrow> Inl bad_access
      | Some b \<Rightarrow> (case put_block b 0 pDestData of None \<Rightarrow> Inl bad_access | Some d \<Rightarrow> Inr d))"

section \<open>Values and binding\<close>

text \<open>What \<open>Value::Data\<close> points to: memory of its own, a constant, or an array of the grid.\<close>

datatype ValData = Own_data SymData | Const_data SymData | Grid_data nat

record SvmValue =
  vl_mOwnData :: bool
  vl_mCanChange :: bool
  vl_Data :: "ValData option"
  vl_mpSrcSymbol :: Symbol

text \<open>A shader instance as the machine sees it: its shader and the values of its parameters.\<close>

record SvmInst =
  si_moShader :: SvmShader
  si_mMaxPointsN :: nat
  si_mCallSymIList :: "(SymbolI \<times> SymData option) list"

text \<open>
  Everything a run reads and never changes. Instances and attributes are known by number, as the
  code compares their addresses. \<open>ev_lights\<close> lists, for given attributes, the active lights: whether
  the light is ambient, and its instance. \<open>ev_raw\<close> is what freshly allocated memory contains.
\<close>

record SvmEnv =
  ev_gridSyms :: "SymbolI list"
  ev_globals :: SymbolList
  ev_insts :: "SvmInst list"
  ev_lights :: "nat \<Rightarrow> (bool \<times> nat) list"
  ev_raw :: "SymType \<Rightarrow> nat \<Rightarrow> SymData"
  ev_mMtxWorldCamera :: Matrix44
  ev_mMtxLocalCamera :: Matrix44
  ev_mMtxCameraLocal :: Matrix44
  ev_mMtxLocalCameraNorm :: Matrix44
  ev_noise :: NoiseTables
  ev_GetTexture :: "nat \<Rightarrow> string \<Rightarrow> (lanes \<Rightarrow> lanes \<Rightarrow> lanes) option"

definition alloc :: "SvmEnv \<Rightarrow> nat \<Rightarrow> Symbol \<Rightarrow> SymData option" where
  "alloc env n s = map_option (\<lambda>(t, k). ev_raw env t k) (AllocClone n s)"

definition SetDataR :: "ValData option \<Rightarrow> Symbol \<Rightarrow> bool \<Rightarrow> SvmValue" where
  "SetDataR d src own = \<lparr>vl_mOwnData = own, vl_mCanChange = False, vl_Data = d, vl_mpSrcSymbol = src\<rparr>"

definition SetDataRW :: "ValData option \<Rightarrow> Symbol \<Rightarrow> bool \<Rightarrow> SvmValue" where
  "SetDataRW d src own = \<lparr>vl_mOwnData = own, vl_mCanChange = True, vl_Data = d, vl_mpSrcSymbol = src\<rparr>"

text \<open>The result is \<open>out_needConvertToVarying\<close>.\<close>

definition matchSymbols :: "Symbol \<Rightarrow> Symbol \<Rightarrow> bool res" where
  "matchSymbols dst src =
     (if \<not> Symbol_IsName (sym_mName src) dst then Inl (AssThrow ''Names not matching !'')
      else if sym_mType dst \<noteq> sym_mType src then Inl (AssThrow ''Type is not the expected one'')
      else if Symbol_IsVarying src \<and> \<not> Symbol_IsVarying dst
      then Inl (AssThrow ''Cannot assign a varying value to a non varying one'')
      else if Symbol_IsConstant dst \<and> \<not> Symbol_IsConstant src
      then Inl (AssThrow ''Cannot assign a non-constant value to a constant one'')
      else Inr (\<not> Symbol_IsVarying src \<and> Symbol_IsVarying dst))"

definition bindGlobalStorageSymbol :: "SvmEnv \<Rightarrow> Symbol \<Rightarrow> SvmValue res" where
  "bindGlobalStorageSymbol env shaSym =
     (if Symbol_IsConstant shaSym then
        (case FindSymbol (sym_mName shaSym) (ev_globals env) of
           None \<Rightarrow> Inl (AssThrow ''Could not find the global symbol !'')
         | Some g \<Rightarrow> res_bind (matchSymbols shaSym g) (\<lambda>_.
             Inr (SetDataR (map_option Const_data (GetConstantData g)) g False)))
      else
        (case find_from (SymbolI_IsName (sym_mName shaSym)) (ev_gridSyms env) 0 of
           None \<Rightarrow> Inl (AssThrow ''Could not find the global symbol !'')
         | Some i \<Rightarrow> res_bind (matchSymbols shaSym (mpSrcSymbol (ev_gridSyms env ! i))) (\<lambda>_.
             Inr (SetDataRW (Some (Grid_data i)) (mpSrcSymbol (ev_gridSyms env ! i)) False))))"

definition bindTemporaryStorageSymbol :: "SvmEnv \<Rightarrow> nat \<Rightarrow> Symbol \<Rightarrow> SvmValue" where
  "bindTemporaryStorageSymbol env maxPoints shaSym =
     (if Symbol_IsConstant shaSym then SetDataR (map_option Const_data (GetConstantData shaSym)) shaSym False
      else
        let allocN = (if Symbol_IsVarying shaSym then maxPoints else 1) in
        SetDataRW (map_option Own_data (alloc env allocN shaSym)) shaSym True)"

text \<open>\<open>SymbolI::GetConstantData\<close>; memory that was never filled holds anything.\<close>

definition SymbolI_GetConstantData :: "SvmEnv \<Rightarrow> SymbolI \<times> SymData option \<Rightarrow> SymData option" where
  "SymbolI_GetConstantData env = (\<lambda>(s, d).
     case mpValArray s of
       None \<Rightarrow> sym_mpConstVal (mpSrcSymbol s)
     | Some (t, k) \<Rightarrow> Some (case d of None \<Rightarrow> ev_raw env t k | Some x \<Rightarrow> x))"

text \<open>
  A parameter: the value the call gives it, spread over an array when the shader wants a varying
  one, else memory that the code at its default label will fill.
\<close>

definition bindParameterSymbol :: "SvmEnv \<Rightarrow> SvmInst \<Rightarrow> Symbol \<Rightarrow> nat option \<Rightarrow> (SvmValue \<times> nat list) res" where
  "bindParameterSymbol env inst shaSym startPC =
     (case find (\<lambda>p. SymbolI_IsName (sym_mName shaSym) (fst p)) (si_mCallSymIList inst) of
        Some p \<Rightarrow>
          res_bind (matchSymbols shaSym (mpSrcSymbol (fst p))) (\<lambda>needConvertToVarying.
            if needConvertToVarying then
              (case (SymbolI_GetConstantData env p, alloc env (si_mMaxPointsN inst) shaSym) of
                 (Some src, Some raw) \<Rightarrow>
                   res_bind (FillDataFromSIMD (si_mMaxPointsN inst) src shaSym) (\<lambda>d.
                     Inr (SetDataR (Some (Own_data (case d of None \<Rightarrow> raw | Some x \<Rightarrow> x))) shaSym True, []))
               | _ \<Rightarrow> Inl bad_access)
            else Inr (SetDataR (map_option Const_data (SymbolI_GetConstantData env p)) (mpSrcSymbol (fst p)) False, []))
      | None \<Rightarrow>
          if Symbol_IsConstant shaSym
          then Inr (SetDataR (map_option Const_data (GetConstantData shaSym)) shaSym False, [])
          else
            let allocN = (if Symbol_IsVarying shaSym then si_mMaxPointsN inst else 1) in
            Inr (SetDataRW (map_option Own_data (alloc env allocN shaSym)) shaSym True,
                 case startPC of None \<Rightarrow> [] | Some pc \<Rightarrow> [pc]))"

definition bind_symbol :: "SvmEnv \<Rightarrow> SvmInst \<Rightarrow> Symbol \<times> nat option \<Rightarrow> (SvmValue \<times> nat list) res" where
  "bind_symbol env inst = (\<lambda>(shaSym, startPC).
     case sym_mStorage shaSym of
       STOR_GLOBAL \<Rightarrow> res_bind (bindGlobalStorageSymbol env shaSym) (\<lambda>v. Inr (v, []))
     | STOR_PARAMETER \<Rightarrow> bindParameterSymbol env inst shaSym startPC
     | STOR_TEMPORARY \<Rightarrow> Inr (bindTemporaryStorageSymbol env (si_mMaxPointsN inst) shaSym, []))"

text \<open>\<open>ShaderInst::Bind\<close>: the data segment and the default routines to run.\<close>

definition Bind :: "SvmEnv \<Rightarrow> SvmInst \<Rightarrow> (SvmValue list \<times> nat list) res" where
  "Bind env inst =
     (let sh = si_moShader inst in
      res_bind (res_map (bind_symbol env inst) (zip (sh_mpShaSyms sh) (sh_mpShaSymsStartPCs sh))) (\<lambda>vs.
        Inr (map fst vs, concat (map snd vs))))"

section \<open>Contexts\<close>

definition FLG_IFTRUE :: U32 where "FLG_IFTRUE = 2"
definition FLG_IFTRUE_TRUE :: U32 where "FLG_IFTRUE_TRUE = 4"
definition FLG_IFTRUE_VARY :: U32 where "FLG_IFTRUE_VARY = 8"
definition FLG_ORELSE :: U32 where "FLG_ORELSE = 16"
definition FLG_SOLAR :: U32 where "FLG_SOLAR = 32"
definition FLG_ILLUMINANCE :: U32 where "FLG_ILLUMINANCE = 64"

text \<open>
  The axis, angle and light vector that \<open>SlIlluminanceCtx\<close> also records are never read. \<open>DNPOS\<close> as
  the index of the light is \<open>None\<close>. \<open>mProgramCounterIdx\<close> is always 0: nothing increases it. The
  counters of \<open>mpSIMDFlags\<close> are cleared and never read.
\<close>

record SlIlluminanceCtx =
  il_mBodyStartAddr :: nat
  il_mActLightIdx :: "nat option"
  il_mActLightsN :: nat

record Context =
  cx_mProgramCounter :: nat
  cx_mDefParamValsStartPCs :: "nat list"
  cx_mFopStack :: "U32 list"
  cx_mIlluminanceCtx :: SlIlluminanceCtx
  cx_mBlocksXN :: nat
  cx_mPointsYN :: nat
  cx_mPointsN :: nat
  cx_mBlocksN :: nat
  cx_mpDataSegment :: "SvmValue list option"
  cx_mpShaderInst :: "nat option"
  cx_mpAttribs :: "nat option"
  cx_mpActLightsCtxs :: "nat list"
  cx_mAmbientColDone :: bool
  cx_mAmbientCol :: "lanes Vec3"

record Machine =
  mc_grid :: "SymData list"
  mc_ctxs :: "Context list"

definition Context_new :: Context where
  "Context_new = \<lparr>cx_mProgramCounter = 0, cx_mDefParamValsStartPCs = [], cx_mFopStack = [],
     cx_mIlluminanceCtx = \<lparr>il_mBodyStartAddr = 0, il_mActLightIdx = None, il_mActLightsN = 0\<rparr>,
     cx_mBlocksXN = 0, cx_mPointsYN = 0, cx_mPointsN = 0, cx_mBlocksN = 0, cx_mpDataSegment = None,
     cx_mpShaderInst = None, cx_mpAttribs = None, cx_mpActLightsCtxs = [], cx_mAmbientColDone = False,
     cx_mAmbientCol = Vec3_splat (splat 0)\<rparr>"

type_synonym 'a svm = "(Machine, 'a) stx"

abbreviation ctx :: "Machine \<Rightarrow> nat \<Rightarrow> Context" where
  "ctx m c \<equiv> mc_ctxs m ! c"

definition upd :: "nat \<Rightarrow> (Context \<Rightarrow> Context) \<Rightarrow> Machine \<Rightarrow> Machine" where
  "upd c f m = m\<lparr>mc_ctxs := (mc_ctxs m)[c := f (ctx m c)]\<rparr>"

text \<open>The stack of open constructs, its top last.\<close>

definition fop_push :: "nat \<Rightarrow> U32 \<Rightarrow> unit svm" where
  "fop_push c flg m =
     (if length (cx_mFopStack (ctx m c)) < 16
      then (Inr (), upd c (\<lambda>x. x\<lparr>cx_mFopStack := cx_mFopStack x @ [flg]\<rparr>) m)
      else (Inl (AssThrow ''Out of bounds with funcop stack !''), m))"

definition fop_pop :: "nat \<Rightarrow> unit svm" where
  "fop_pop c m =
     (if cx_mFopStack (ctx m c) = [] then (Inl (AssThrow ''Out of bounds with funcop stack !''), m)
      else (Inr (), upd c (\<lambda>x. x\<lparr>cx_mFopStack := butlast (cx_mFopStack x)\<rparr>) m))"

definition fop_top :: "nat \<Rightarrow> Machine \<Rightarrow> U32 res" where
  "fop_top c m =
     (if cx_mFopStack (ctx m c) = [] then Inl (AssThrow ''Out of bounds with funcop stack !'')
      else Inr (last (cx_mFopStack (ctx m c))))"

definition IsInFuncop :: "nat \<Rightarrow> Machine \<Rightarrow> bool" where
  "IsInFuncop c m = (length (cx_mFopStack (ctx m c)) \<noteq> 0)"

subsection \<open>Code and operands\<close>

definition inst_of :: "SvmEnv \<Rightarrow> nat \<Rightarrow> Machine \<Rightarrow> SvmInst res" where
  "inst_of env c m =
     (case cx_mpShaderInst (ctx m c) of
        None \<Rightarrow> Inl bad_access
      | Some i \<Rightarrow> if i < length (ev_insts env) then Inr (ev_insts env ! i) else Inl bad_access)"

definition code_of :: "SvmEnv \<Rightarrow> nat \<Rightarrow> Machine \<Rightarrow> CPUWord list" where
  "code_of env c m = (case inst_of env c m of Inl _ \<Rightarrow> [] | Inr i \<Rightarrow> sh_mCode (si_moShader i))"

definition GetOp :: "SvmEnv \<Rightarrow> nat \<Rightarrow> nat \<Rightarrow> Machine \<Rightarrow> CPUWord res" where
  "GetOp env c argc m =
     (let i = cx_mProgramCounter (ctx m c) + argc in
      if i < length (code_of env c m) then Inr (code_of env c m ! i) else Inl bad_access)"

definition GetOpCode :: "SvmEnv \<Rightarrow> nat \<Rightarrow> Machine \<Rightarrow> OpCode res" where
  "GetOpCode env c m = (case GetOp env c 0 m of Inr (W_OpCode w) \<Rightarrow> Inr w | _ \<Rightarrow> Inl bad_access)"

text \<open>The symbol of an operand: the number of its value and \<open>IsSymbolVarying\<close>.\<close>

definition operand :: "SvmEnv \<Rightarrow> nat \<Rightarrow> Machine \<Rightarrow> nat \<Rightarrow> (nat \<times> bool) res" where
  "operand env c m argc =
     (case GetOp env c argc m of
        Inr (W_Symbol w) \<Rightarrow> Inr (sw_mTableOffset w, sw_mIsVarying w)
      | _ \<Rightarrow> Inl bad_access)"

definition GetImmFloat :: "SvmEnv \<Rightarrow> nat \<Rightarrow> Machine \<Rightarrow> nat \<Rightarrow> real res" where
  "GetImmFloat env c m argc =
     (case GetOp env c argc m of Inr (W_ImmFloat f) \<Rightarrow> real_of_flt f | _ \<Rightarrow> Inl bad_access)"

definition NextInstruction :: "SvmEnv \<Rightarrow> nat \<Rightarrow> unit svm" where
  "NextInstruction env c m =
     (case GetOpCode env c m of
        Inl e \<Rightarrow> (Inl e, m)
      | Inr w \<Rightarrow> (Inr (), upd c (\<lambda>x. x\<lparr>cx_mProgramCounter := cx_mProgramCounter x + (oc_mOperandCount w + 1)\<rparr>) m))"

definition GotoInstruction :: "nat \<Rightarrow> nat \<Rightarrow> unit svm" where
  "GotoInstruction c address m = (Inr (), upd c (\<lambda>x. x\<lparr>cx_mProgramCounter := address\<rparr>) m)"

subsection \<open>Registers\<close>

datatype RegType = RT_S | RT_V | RT_H | RT_X | RT_B | RT_F2

fun is_reg :: "RegType \<Rightarrow> Blk \<Rightarrow> bool" where
  "is_reg RT_S (B_s _) = True"
| "is_reg RT_V (B_v _) = True"
| "is_reg RT_H (B_h _) = True"
| "is_reg RT_X (B_x _) = True"
| "is_reg RT_B (B_b _) = True"
| "is_reg _ _ = False"

definition val_data :: "Machine \<Rightarrow> SvmValue \<Rightarrow> SymData option" where
  "val_data m v =
     (case vl_Data v of
        None \<Rightarrow> None
      | Some (Own_data d) \<Rightarrow> Some d
      | Some (Const_data d) \<Rightarrow> Some d
      | Some (Grid_data g) \<Rightarrow> nth_opt (mc_grid m) g)"

definition value_of :: "nat \<Rightarrow> Machine \<Rightarrow> nat \<Rightarrow> SvmValue res" where
  "value_of c m off =
     (case cx_mpDataSegment (ctx m c) of
        None \<Rightarrow> Inl bad_access
      | Some vs \<Rightarrow> if off < length vs then Inr (vs ! off) else Inl bad_access)"

definition read_data :: "RegType \<Rightarrow> SymData option \<Rightarrow> nat \<Rightarrow> Blk res" where
  "read_data T d i =
     (case d of None \<Rightarrow> Inl bad_access
      | Some d \<Rightarrow> (case block_at d i of
          None \<Rightarrow> Inl bad_access | Some b \<Rightarrow> if is_reg T b then Inr b else Inl bad_access))"

definition read_reg :: "RegType \<Rightarrow> nat \<Rightarrow> Machine \<Rightarrow> nat \<Rightarrow> nat \<Rightarrow> Blk res" where
  "read_reg T c m off i = res_bind (value_of c m off) (\<lambda>v. read_data T (val_data m v) i)"

definition read_grid :: "RegType \<Rightarrow> Machine \<Rightarrow> nat \<Rightarrow> nat \<Rightarrow> Blk res" where
  "read_grid T m g i = read_data T (nth_opt (mc_grid m) g) i"

definition put_grid :: "nat \<Rightarrow> nat \<Rightarrow> Blk \<Rightarrow> unit svm" where
  "put_grid g i b m =
     (case nth_opt (mc_grid m) g of
        None \<Rightarrow> (Inl bad_access, m)
      | Some d \<Rightarrow> (case put_block b i d of
          None \<Rightarrow> (Inl bad_access, m) | Some d' \<Rightarrow> (Inr (), m\<lparr>mc_grid := (mc_grid m)[g := d']\<rparr>)))"

definition set_value :: "nat \<Rightarrow> nat \<Rightarrow> SvmValue \<Rightarrow> Machine \<Rightarrow> Machine" where
  "set_value c off v m =
     upd c (\<lambda>x. x\<lparr>cx_mpDataSegment := map_option (\<lambda>vs. vs[off := v]) (cx_mpDataSegment x)\<rparr>) m"

definition write_reg :: "nat \<Rightarrow> nat \<Rightarrow> nat \<Rightarrow> Blk \<Rightarrow> unit svm" where
  "write_reg c off i b m =
     (case value_of c m off of
        Inl e \<Rightarrow> (Inl e, m)
      | Inr v \<Rightarrow>
          if \<not> vl_mCanChange v then (Inl (Undefined_behaviour ''write to a value that cannot change''), m)
          else (case vl_Data v of
            Some (Grid_data g) \<Rightarrow> put_grid g i b m
          | Some (Own_data d) \<Rightarrow>
              (case put_block b i d of
                 None \<Rightarrow> (Inl bad_access, m)
               | Some d' \<Rightarrow> (Inr (), set_value c off (v\<lparr>vl_Data := Some (Own_data d')\<rparr>) m))
          | _ \<Rightarrow> (Inl bad_access, m)))"

fun each_block :: "(nat \<Rightarrow> unit svm) \<Rightarrow> nat list \<Rightarrow> unit svm" where
  "each_block f [] = stx_return ()"
| "each_block f (i # is) = stx_bind (f i) (\<lambda>_. each_block f is)"

text \<open>
  The loop of nearly every instruction: block \<open>i\<close> of the destination from the blocks of the
  operands, at \<open>i\<close> for a varying operand and at 0 for a uniform one. The operands follow the
  destination and have the register types \<open>Ts\<close>; \<open>f\<close> is also given the old destination.
\<close>

definition src_block :: "nat \<Rightarrow> Machine \<Rightarrow> nat \<Rightarrow> RegType \<times> nat \<times> bool \<Rightarrow> Blk res" where
  "src_block c m i = (\<lambda>(T, off, varying). read_reg T c m off (if varying then i else 0))"

definition loop_body :: "RegType \<Rightarrow> nat \<Rightarrow> nat \<Rightarrow> (RegType \<times> nat \<times> bool) list \<Rightarrow> (Blk \<Rightarrow> Blk list \<Rightarrow> Blk res) \<Rightarrow> nat \<Rightarrow> unit svm" where
  "loop_body TA c lhs srcs f i m =
     (case res_bind (read_reg TA c m lhs i) (\<lambda>old. res_bind (res_map (src_block c m i) srcs) (f old)) of
        Inl e \<Rightarrow> (Inl e, m)
      | Inr b \<Rightarrow> write_reg c lhs i b m)"

definition block_loop ::
  "SvmEnv \<Rightarrow> RegType \<Rightarrow> RegType list \<Rightarrow> (Machine \<Rightarrow> Blk \<Rightarrow> Blk list \<Rightarrow> Blk res) \<Rightarrow> nat \<Rightarrow> nat \<Rightarrow> unit svm" where
  "block_loop env TA Ts f c blocksN m =
     (case res_bind (operand env c m 1) (\<lambda>lhs.
             res_bind (res_map (operand env c m) [2..<2 + length Ts]) (\<lambda>srcs. Inr (fst lhs, zip Ts srcs))) of
        Inl e \<Rightarrow> (Inl e, m)
      | Inr (lhs, srcs) \<Rightarrow>
          stx_bind (each_block (loop_body TA c lhs srcs (f m)) [0..<blocksN]) (\<lambda>_. NextInstruction env c) m)"

section \<open>Arithmetic of registers\<close>

text \<open>A vector register as its lanes, one vector for each.\<close>

definition lane3 :: "lanes Vec3 \<Rightarrow> nat \<Rightarrow> real Vec3" where
  "lane3 v k = Vec3 (x3 v ! k) (y3 v ! k) (z3 v ! k)"

definition unpack3 :: "lanes Vec3 \<Rightarrow> real Vec3 list" where
  "unpack3 v = map (lane3 v) [0..<4]"

definition pack3 :: "real Vec3 list \<Rightarrow> lanes Vec3" where
  "pack3 vs = Vec3 (map x3 vs) (map y3 vs) (map z3 vs)"

definition lanes1 :: "(real \<Rightarrow> real) \<Rightarrow> Blk \<Rightarrow> Blk" where
  "lanes1 f b =
     (case b of
        B_s a \<Rightarrow> B_s (map f a)
      | B_v v \<Rightarrow> B_v (Vec3 (map f (x3 v)) (map f (y3 v)) (map f (z3 v)))
      | b \<Rightarrow> b)"

definition lanes2 :: "(real \<Rightarrow> real \<Rightarrow> real res) \<Rightarrow> lanes \<Rightarrow> lanes \<Rightarrow> lanes res" where
  "lanes2 f a b = res_map (\<lambda>(x, y). f x y) (zip a b)"

definition vec3_res :: "lanes res \<Rightarrow> lanes res \<Rightarrow> lanes res \<Rightarrow> Blk res" where
  "vec3_res a b c = res_bind a (\<lambda>x. res_bind b (\<lambda>y. res_bind c (\<lambda>z. Inr (B_v (Vec3 x y z)))))"

text \<open>
  The operators on scalar and vector registers. With the scalar on the left they are the free functions of
  \<open>DVector.h\<close>, which exchange the operands (\<^const>\<open>S_op_Vec3\<close>).
\<close>

definition blk2 :: "(real \<Rightarrow> real \<Rightarrow> real res) \<Rightarrow> Blk \<Rightarrow> Blk \<Rightarrow> Blk res" where
  "blk2 f p q =
     (case (p, q) of
        (B_s a, B_s b) \<Rightarrow> res_bind (lanes2 f a b) (\<lambda>r. Inr (B_s r))
      | (B_v v, B_s b) \<Rightarrow> vec3_res (lanes2 f (x3 v) b) (lanes2 f (y3 v) b) (lanes2 f (z3 v) b)
      | (B_s a, B_v w) \<Rightarrow> vec3_res (lanes2 f (x3 w) a) (lanes2 f (y3 w) a) (lanes2 f (z3 w) a)
      | (B_v v, B_v w) \<Rightarrow> vec3_res (lanes2 f (x3 v) (x3 w)) (lanes2 f (y3 v) (y3 w)) (lanes2 f (z3 v) (z3 w))
      | _ \<Rightarrow> Inl bad_access)"

definition no_number :: exn where
  "no_number = Not_modelled ''a result that is infinite or not a number''"

datatype OpBaseTypeID =
    OBT_ADD | OBT_SUB | OBT_MUL | OBT_DIV | OBT_MIN | OBT_MAX
  | OBT_SETLE | OBT_SETGE | OBT_SETLT | OBT_SETGT | OBT_SETEQ | OBT_SETNEQ

fun arith :: "OpBaseTypeID \<Rightarrow> real \<Rightarrow> real \<Rightarrow> real res" where
  "arith OBT_ADD x y = Inr (x + y)"
| "arith OBT_SUB x y = Inr (x - y)"
| "arith OBT_MUL x y = Inr (x * y)"
| "arith OBT_DIV x y = (if y = 0 then Inl no_number else Inr (x / y))"
| "arith OBT_MIN x y = Inr (if x < y then x else y)"
| "arith OBT_MAX x y = Inr (if y < x then x else y)"
| "arith _ x y = Inl bad_access"

text \<open>\<open>powf\<close>.\<close>

definition DPow :: "real \<Rightarrow> real \<Rightarrow> real res" where
  "DPow x y =
     (if 0 < x then Inr (x powr y)
      else if y = of_int \<lfloor>y\<rfloor> then
        (if 0 \<le> y then Inr (x ^ nat \<lfloor>y\<rfloor>) else if x = 0 then Inl no_number else Inr (1 / x ^ nat (- \<lfloor>y\<rfloor>)))
      else if x = 0 \<and> 0 < y then Inr 0
      else Inl no_number)"

definition normalized :: "real Vec3 \<Rightarrow> real Vec3 res" where
  "normalized v = (if v = Vec3 0 0 0 then Inl no_number else Inr (Vec3_GetNormalized v))"

text \<open>A function of vectors, in each lane.\<close>

definition map_lanes :: "(real Vec3 \<Rightarrow> real Vec3 res) \<Rightarrow> lanes Vec3 \<Rightarrow> Blk res" where
  "map_lanes f v = res_bind (res_map f (unpack3 v)) (\<lambda>vs. Inr (B_v (pack3 vs)))"

definition mask_of :: "bool list \<Rightarrow> VecNMask" where
  "mask_of bs = VecNMask (lane_mask (bs ! 0)) (lane_mask (bs ! 1)) (lane_mask (bs ! 2)) (lane_mask (bs ! 3))"

definition cmp_lanes :: "(real \<Rightarrow> real \<Rightarrow> bool) \<Rightarrow> lanes \<Rightarrow> lanes \<Rightarrow> VecNMask" where
  "cmp_lanes f a b = mask_of (map (\<lambda>k. f (a ! k) (b ! k)) [0..<4])"

fun rel :: "OpBaseTypeID \<Rightarrow> real \<Rightarrow> real \<Rightarrow> bool" where
  "rel OBT_SETLE x y = (x \<le> y)"
| "rel OBT_SETGE x y = (y \<le> x)"
| "rel OBT_SETLT x y = (x < y)"
| "rel OBT_SETGT x y = (y < x)"
| "rel OBT_SETEQ x y = (x = y)"
| "rel OBT_SETNEQ x y = (x \<noteq> y)"
| "rel _ x y = False"

text \<open>
  \<open>CmpMaskEQ\<close> and \<open>CmpMaskNE\<close> of vectors combine the masks of the components; those of masks compare
  their lanes as floats.
\<close>

definition blk_eq :: "OpBaseTypeID \<Rightarrow> Blk \<Rightarrow> Blk \<Rightarrow> Blk res" where
  "blk_eq opn p q =
     (let comb = (if opn = OBT_SETEQ then VecNMask_and else VecNMask_or); c = cmp_lanes (rel opn) in
      case (p, q) of
        (B_s a, B_s b) \<Rightarrow> Inr (B_b (c a b))
      | (B_v v, B_v w) \<Rightarrow> Inr (B_b (comb (comb (c (x3 v) (x3 w)) (c (y3 v) (y3 w))) (c (z3 v) (z3 w))))
      | (B_h v, B_h w) \<Rightarrow>
          Inr (B_b (comb (comb (comb (c (x4 v) (x4 w)) (c (y4 v) (y4 w))) (c (z4 v) (z4 w))) (c (w4 v) (w4 w))))
      | (B_b a, B_b b) \<Rightarrow> Inr (B_b (if opn = OBT_SETEQ then VecNMask_CmpMaskEQ a b else VecNMask_CmpMaskNE a b))
      | _ \<Rightarrow> Inl bad_access)"

section \<open>Instructions on registers\<close>

text \<open>\<open>RI_SVM_Ops_Base.h\<close>. The assignment of a scalar register to a vector register spreads it.\<close>

definition Inst_LD1 :: "SvmEnv \<Rightarrow> nat \<Rightarrow> nat \<Rightarrow> unit svm" where
  "Inst_LD1 env c blocksN m =
     (case GetImmFloat env c m 2 of
        Inl e \<Rightarrow> (Inl e, m)
      | Inr x \<Rightarrow> block_loop env RT_S [] (\<lambda>_ _ _. Inr (B_s (splat x))) c blocksN m)"

definition Inst_LD3 :: "SvmEnv \<Rightarrow> nat \<Rightarrow> nat \<Rightarrow> unit svm" where
  "Inst_LD3 env c blocksN m =
     (case res_map (GetImmFloat env c m) [2, 3, 4] of
        Inl e \<Rightarrow> (Inl e, m)
      | Inr xs \<Rightarrow> block_loop env RT_V []
          (\<lambda>_ _ _. Inr (B_v (Vec3 (splat (xs ! 0)) (splat (xs ! 1)) (splat (xs ! 2))))) c blocksN m)"

definition Inst_MOVVS3 :: "SvmEnv \<Rightarrow> nat \<Rightarrow> nat \<Rightarrow> unit svm" where
  "Inst_MOVVS3 env = block_loop env RT_V [RT_S, RT_S, RT_S] (\<lambda>_ _ bs.
     case bs of [B_s a, B_s b, B_s d] \<Rightarrow> Inr (B_v (Vec3 a b d)) | _ \<Rightarrow> Inl bad_access)"

definition to_reg :: "RegType \<Rightarrow> Blk \<Rightarrow> Blk" where
  "to_reg T b = (case (T, b) of (RT_V, B_s a) \<Rightarrow> B_v (Vec3_splat a) | _ \<Rightarrow> b)"

definition Inst_Mov :: "RegType \<Rightarrow> RegType \<Rightarrow> SvmEnv \<Rightarrow> nat \<Rightarrow> nat \<Rightarrow> unit svm" where
  "Inst_Mov TA TB env = block_loop env TA [TB] (\<lambda>_ _ bs. Inr (to_reg TA (bs ! 0)))"

definition Inst_Abs :: "RegType \<Rightarrow> RegType \<Rightarrow> SvmEnv \<Rightarrow> nat \<Rightarrow> nat \<Rightarrow> unit svm" where
  "Inst_Abs TA TB env = block_loop env TA [TB] (\<lambda>_ _ bs. Inr (to_reg TA (lanes1 abs (bs ! 0))))"

definition Inst_Sign :: "RegType \<Rightarrow> RegType \<Rightarrow> SvmEnv \<Rightarrow> nat \<Rightarrow> nat \<Rightarrow> unit svm" where
  "Inst_Sign TA TB env = block_loop env TA [TB] (\<lambda>_ _ bs. Inr (to_reg TA (lanes1 sgn (bs ! 0))))"

definition Inst_2Op :: "RegType \<Rightarrow> RegType \<Rightarrow> RegType \<Rightarrow> OpBaseTypeID \<Rightarrow> SvmEnv \<Rightarrow> nat \<Rightarrow> nat \<Rightarrow> unit svm" where
  "Inst_2Op TA TB TC opn env = block_loop env TA [TB, TC] (\<lambda>_ _ bs. blk2 (arith opn) (bs ! 0) (bs ! 1))"

definition Inst_Dot_SVV :: "SvmEnv \<Rightarrow> nat \<Rightarrow> nat \<Rightarrow> unit svm" where
  "Inst_Dot_SVV env = block_loop env RT_S [RT_V, RT_V] (\<lambda>_ _ bs.
     case bs of [B_v v, B_v w] \<Rightarrow> Inr (B_s (map2 Vec3_GetDot (unpack3 v) (unpack3 w))) | _ \<Rightarrow> Inl bad_access)"

definition Inst_Length_SV :: "SvmEnv \<Rightarrow> nat \<Rightarrow> nat \<Rightarrow> unit svm" where
  "Inst_Length_SV env = block_loop env RT_S [RT_V] (\<lambda>_ _ bs.
     case bs of [B_v v] \<Rightarrow> Inr (B_s (map Vec3_GetLength (unpack3 v))) | _ \<Rightarrow> Inl bad_access)"

definition Inst_Pow_SSS :: "SvmEnv \<Rightarrow> nat \<Rightarrow> nat \<Rightarrow> unit svm" where
  "Inst_Pow_SSS env = block_loop env RT_S [RT_S, RT_S] (\<lambda>_ _ bs. blk2 DPow (bs ! 0) (bs ! 1))"

definition Inst_Min_Max :: "RegType \<Rightarrow> OpBaseTypeID \<Rightarrow> SvmEnv \<Rightarrow> nat \<Rightarrow> nat \<Rightarrow> unit svm" where
  "Inst_Min_Max T opn env = block_loop env T [T, T] (\<lambda>_ _ bs. blk2 (arith opn) (bs ! 0) (bs ! 1))"

definition comp3 :: "nat \<Rightarrow> 'a Vec3 \<Rightarrow> 'a" where
  "comp3 i v = (if i = 0 then x3 v else if i = 1 then y3 v else z3 v)"

definition set_comp3 :: "nat \<Rightarrow> 'a \<Rightarrow> 'a Vec3 \<Rightarrow> 'a Vec3" where
  "set_comp3 i a v =
     (if i = 0 then Vec3 a (y3 v) (z3 v) else if i = 1 then Vec3 (x3 v) a (z3 v) else Vec3 (x3 v) (y3 v) a)"

definition Inst_GetVComp :: "nat \<Rightarrow> SvmEnv \<Rightarrow> nat \<Rightarrow> nat \<Rightarrow> unit svm" where
  "Inst_GetVComp i env = block_loop env RT_S [RT_V] (\<lambda>_ _ bs.
     case bs of [B_v v] \<Rightarrow> Inr (B_s (comp3 i v)) | _ \<Rightarrow> Inl bad_access)"

definition Inst_SetVComp :: "nat \<Rightarrow> SvmEnv \<Rightarrow> nat \<Rightarrow> nat \<Rightarrow> unit svm" where
  "Inst_SetVComp i env = block_loop env RT_V [RT_S] (\<lambda>_ old bs.
     case (old, bs) of (B_v v, [B_s a]) \<Rightarrow> Inr (B_v (set_comp3 i a v)) | _ \<Rightarrow> Inl bad_access)"

text \<open>\<open>RI_SVM_Ops_Compare.h\<close>.\<close>

definition Inst_SETCMP_REL :: "OpBaseTypeID \<Rightarrow> SvmEnv \<Rightarrow> nat \<Rightarrow> nat \<Rightarrow> unit svm" where
  "Inst_SETCMP_REL opn env = block_loop env RT_B [RT_S, RT_S] (\<lambda>_ _ bs.
     case bs of [B_s a, B_s b] \<Rightarrow> Inr (B_b (cmp_lanes (rel opn) a b)) | _ \<Rightarrow> Inl bad_access)"

definition Inst_SETCMP_EQ :: "RegType \<Rightarrow> OpBaseTypeID \<Rightarrow> SvmEnv \<Rightarrow> nat \<Rightarrow> nat \<Rightarrow> unit svm" where
  "Inst_SETCMP_EQ T opn env = block_loop env RT_B [T, T] (\<lambda>_ _ bs. blk_eq opn (bs ! 0) (bs ! 1))"

text \<open>Strings: only block 0, whatever \<open>blocksN\<close> is.\<close>

definition Inst_SETCMP_EQ_NoVary :: "OpBaseTypeID \<Rightarrow> SvmEnv \<Rightarrow> nat \<Rightarrow> nat \<Rightarrow> unit svm" where
  "Inst_SETCMP_EQ_NoVary opn env c blocksN = block_loop env RT_B [RT_X, RT_X] (\<lambda>_ _ bs.
     case bs of [B_x a, B_x b] \<Rightarrow>
       Inr (B_b (if (if opn = OBT_SETEQ then SlStr_eq a b else \<not> SlStr_eq a b) then VecNMaskFull else VecNMaskEmpty))
     | _ \<Rightarrow> Inl bad_access) c 1"

definition Inst_CMPLT :: "SvmEnv \<Rightarrow> nat \<Rightarrow> nat \<Rightarrow> unit svm" where
  "Inst_CMPLT env c blocksN m =
     (case res_map (\<lambda>k. res_bind (operand env c m k) (\<lambda>(off, _). read_reg RT_S c m off 0)) [1, 2] of
        Inr [B_s a, B_s b] \<Rightarrow>
          if a ! 0 < b ! 0 then
            (case GetOp env c 3 m of Inr (W_Address addr) \<Rightarrow> GotoInstruction c addr m | _ \<Rightarrow> (Inl bad_access, m))
          else NextInstruction env c m
      | Inl e \<Rightarrow> (Inl e, m)
      | _ \<Rightarrow> (Inl bad_access, m))"

text \<open>\<open>RI_SVM_Ops_Noise.h\<close>. No register has the type \<open>Float2_\<close>.\<close>

definition Inst_Noise1 :: "RegType \<Rightarrow> SvmEnv \<Rightarrow> nat \<Rightarrow> nat \<Rightarrow> unit svm" where
  "Inst_Noise1 T env = block_loop env RT_S [T] (\<lambda>_ _ bs.
     case bs of
       [B_s a] \<Rightarrow> res_bind (unoise1_S (ev_noise env) a) (\<lambda>r. Inr (B_s r))
     | [B_v v] \<Rightarrow> res_bind (unoise1_V3 (ev_noise env) (unpack3 v)) (\<lambda>r. Inr (B_s r))
     | _ \<Rightarrow> Inl bad_access)"

definition Inst_Noise3 :: "RegType \<Rightarrow> SvmEnv \<Rightarrow> nat \<Rightarrow> nat \<Rightarrow> unit svm" where
  "Inst_Noise3 T env = block_loop env RT_V [T] (\<lambda>_ _ bs.
     case bs of
       [B_s a] \<Rightarrow> res_bind (unoise3_S (ev_noise env) a) (\<lambda>r. Inr (B_v (pack3 r)))
     | [B_v v] \<Rightarrow> res_bind (unoise3_V3 (ev_noise env) (unpack3 v)) (\<lambda>r. Inr (B_v (pack3 r)))
     | _ \<Rightarrow> Inl bad_access)"

text \<open>\<open>RI_SVM_Ops_XForm.cpp\<close>.\<close>

definition getMtxToCurrent :: "SvmEnv \<Rightarrow> string \<Rightarrow> Matrix44 res" where
  "getMtxToCurrent env pFrSpaceName =
     (if strcasecmp_eq pFrSpaceName ''current'' \<or> strcasecmp_eq pFrSpaceName ''camera'' then Inr Identity
      else if strcasecmp_eq pFrSpaceName ''world'' then Inr (ev_mMtxWorldCamera env)
      else if strcasecmp_eq pFrSpaceName ''object'' \<or> strcasecmp_eq pFrSpaceName ''shader''
      then Inr (ev_mMtxLocalCamera env)
      else Inl (AssThrow ''Currently unsupported space cast !''))"

text \<open>The name of the space is read before the loop.\<close>

definition space_matrix :: "SvmEnv \<Rightarrow> nat \<Rightarrow> Machine \<Rightarrow> Matrix44 res" where
  "space_matrix env c m =
     res_bind (operand env c m 2) (\<lambda>(off, _). res_bind (read_reg RT_X c m off 0) (\<lambda>b.
       case b of B_x nm \<Rightarrow> getMtxToCurrent env nm | _ \<Rightarrow> Inl bad_access))"

definition xform_loop :: "(Matrix44 \<Rightarrow> real Vec3 \<Rightarrow> real Vec3 res) \<Rightarrow> SvmEnv \<Rightarrow> nat \<Rightarrow> nat \<Rightarrow> unit svm" where
  "xform_loop f env c blocksN m =
     (case res_bind (space_matrix env c m) (\<lambda>mat. res_bind (operand env c m 1) (\<lambda>lhs.
             res_bind (operand env c m 3) (\<lambda>src. Inr (mat, fst lhs, src)))) of
        Inl e \<Rightarrow> (Inl e, m)
      | Inr (mat, lhs, src) \<Rightarrow>
          stx_bind (each_block (loop_body RT_V c lhs [(RT_V, src)] (\<lambda>_ bs.
             case bs of [B_v v] \<Rightarrow> map_lanes (f mat) v | _ \<Rightarrow> Inl bad_access)) [0..<blocksN])
           (\<lambda>_. NextInstruction env c) m)"

definition Inst_PXFormname_VXV :: "SvmEnv \<Rightarrow> nat \<Rightarrow> nat \<Rightarrow> unit svm" where
  "Inst_PXFormname_VXV = xform_loop (\<lambda>mat v. Inr (V3_V3W1_Mul_M44 v mat))"

definition Inst_VXFormname_VXV :: "SvmEnv \<Rightarrow> nat \<Rightarrow> nat \<Rightarrow> unit svm" where
  "Inst_VXFormname_VXV = xform_loop (\<lambda>mat v. Inr (V3_V3W0_Mul_M44 v mat))"

definition Inst_NXFormname_VXV :: "SvmEnv \<Rightarrow> nat \<Rightarrow> nat \<Rightarrow> unit svm" where
  "Inst_NXFormname_VXV = xform_loop (\<lambda>mat v. normalized (V3_V3W0_Mul_M44 v mat))"

definition Inst_CXFormname_VXV :: "SvmEnv \<Rightarrow> nat \<Rightarrow> nat \<Rightarrow> unit svm" where
  "Inst_CXFormname_VXV = xform_loop (\<lambda>mat v. Inr (V3_V3W1_Mul_M44 v mat))"

text \<open>\<open>RI_SVM_Ops_Misc.cpp\<close>. The geometric normal is the grid's.\<close>

definition grid_sym :: "SvmEnv \<Rightarrow> string \<Rightarrow> (nat \<times> bool) res" where
  "grid_sym env nm =
     (case find_from (SymbolI_IsName nm) (ev_gridSyms env) 0 of
        None \<Rightarrow> Inl bad_access
      | Some g \<Rightarrow> Inr (g, SymbolI_IsVarying (ev_gridSyms env ! g)))"

definition faceforward :: "real Vec3 \<Rightarrow> real Vec3 \<Rightarrow> real Vec3 \<Rightarrow> real Vec3" where
  "faceforward n i ng = Vec3_opS (*) n (sgn (- Vec3_GetDot i ng))"

definition faceforward_body :: "nat \<Rightarrow> nat \<Rightarrow> (RegType \<times> nat \<times> bool) list \<Rightarrow> nat \<times> bool \<Rightarrow> nat \<Rightarrow> unit svm" where
  "faceforward_body c lhs srcs ng i m =
     loop_body RT_V c lhs srcs (\<lambda>_ bs.
       res_bind (read_grid RT_V m (fst ng) (if snd ng then i else 0)) (\<lambda>b.
         case (bs, b) of
           ([B_v n, B_v v], B_v g) \<Rightarrow>
             Inr (B_v (pack3 (map (\<lambda>k. faceforward (lane3 n k) (lane3 v k) (lane3 g k)) [0..<4])))
         | _ \<Rightarrow> Inl bad_access)) i m"

definition Inst_Faceforward :: "SvmEnv \<Rightarrow> nat \<Rightarrow> nat \<Rightarrow> unit svm" where
  "Inst_Faceforward env c blocksN m =
     (case res_bind (res_map (operand env c m) [1, 2, 3]) (\<lambda>os. res_bind (grid_sym env ''Ng'') (\<lambda>ng. Inr (os, ng))) of
        Inl e \<Rightarrow> (Inl e, m)
      | Inr (os, ng) \<Rightarrow>
          stx_bind (each_block (faceforward_body c (fst (os ! 0)) [(RT_V, os ! 1), (RT_V, os ! 2)] ng) [0..<blocksN])
            (\<lambda>_. NextInstruction env c) m)"

definition Inst_Normalize :: "SvmEnv \<Rightarrow> nat \<Rightarrow> nat \<Rightarrow> unit svm" where
  "Inst_Normalize env = block_loop env RT_V [RT_V] (\<lambda>_ _ bs.
     case bs of [B_v v] \<Rightarrow> map_lanes normalized v | _ \<Rightarrow> Inl bad_access)"

subsection \<open>Normals from the grid\<close>

text \<open>
  \<open>Inst_CalculateNormal\<close>, the code for more than one lane. Points are flattened: point \<open>k\<close> is lane
  \<open>k mod 4\<close> of block \<open>k div 4\<close>. The step along a row is the difference to the point before; the first
  point of a row repeats the second's.
\<close>

definition row_steps :: "real Vec3 list \<Rightarrow> real Vec3 list" where
  "row_steps vs = (let d = map2 (-) (tl vs) vs in hd d # d)"

definition grid_steps :: "nat \<Rightarrow> nat \<Rightarrow> real Vec3 list \<Rightarrow> real Vec3 list" where
  "grid_steps w h vs = concat (map (\<lambda>r. row_steps (take w (drop (r * w) vs))) [0..<h])"

definition blk_verts :: "Blk \<Rightarrow> real Vec3 list" where
  "blk_verts b = (case b of B_v v \<Rightarrow> unpack3 v | _ \<Rightarrow> [])"

definition blk_lanes :: "Blk \<Rightarrow> lanes" where
  "blk_lanes b = (case b of B_s a \<Rightarrow> a | _ \<Rightarrow> [])"

text \<open>The positions in local space and the derivatives in u, for all blocks.\<close>

definition normal_tables ::
  "SvmEnv \<Rightarrow> nat \<Rightarrow> nat \<Rightarrow> Machine \<Rightarrow> (real Vec3 list \<times> real Vec3 list) res" where
  "normal_tables env c src m =
     (let rb = max 1 (cx_mBlocksXN (ctx m c)); h = cx_mPointsYN (ctx m c) in
      if h * rb > unat MP_GRID_MAX_SIZE_SIMD_BLKS then Inl (Undefined_behaviour ''grid larger than the local arrays'')
      else
        res_bind (grid_sym env ''_oodu'') (\<lambda>(gu, _).
        res_bind (res_map (read_reg RT_V c m src) [0..<h * rb]) (\<lambda>bs.
        res_bind (res_map (read_grid RT_S m gu) [0..<h * rb]) (\<lambda>us.
          let P_LS = map (\<lambda>v. V3_V3W1_Mul_M44 v (ev_mMtxCameraLocal env)) (concat (map blk_verts bs)) in
          Inr (P_LS, map2 (Vec3_opS (*)) (grid_steps (4 * rb) h P_LS) (concat (map blk_lanes us)))))))"

definition vertex_normal :: "SvmEnv \<Rightarrow> real Vec3 \<Rightarrow> real Vec3 \<Rightarrow> real Vec3 \<Rightarrow> real \<Rightarrow> real Vec3 res" where
  "vertex_normal env dPDu p_y0 p_y1 oodv =
     normalized (V3_V3W0_Mul_M44 (Vec3_GetCross dPDu (Vec3_opS (*) (p_y1 - p_y0) oodv)) (ev_mMtxLocalCameraNorm env))"

definition normal_block ::
  "SvmEnv \<Rightarrow> nat \<Rightarrow> nat \<Rightarrow> nat \<Rightarrow> real Vec3 list \<Rightarrow> real Vec3 list \<Rightarrow> nat \<Rightarrow> unit svm" where
  "normal_block env c lhs xb P_LS dPDu blk m =
     (case res_bind (grid_sym env ''_oodv'') (\<lambda>(gv, _). res_bind (read_grid RT_S m gv blk) (\<lambda>vb.
             res_map (\<lambda>k. vertex_normal env (dPDu ! (4 * blk + k)) (P_LS ! (4 * (blk - xb) + k)) (P_LS ! (4 * blk + k))
                (blk_lanes vb ! k)) [0..<4])) of
        Inl e \<Rightarrow> (Inl e, m)
      | Inr ns \<Rightarrow> write_reg c lhs blk (B_v (pack3 ns)) m)"

definition copy_block :: "nat \<Rightarrow> nat \<Rightarrow> nat \<Rightarrow> nat \<Rightarrow> unit svm" where
  "copy_block c lhs xb blk m =
     (case read_reg RT_V c m lhs (blk + xb) of Inl e \<Rightarrow> (Inl e, m) | Inr b \<Rightarrow> write_reg c lhs blk b m)"

definition Inst_CalculateNormal :: "SvmEnv \<Rightarrow> nat \<Rightarrow> nat \<Rightarrow> unit svm" where
  "Inst_CalculateNormal env c blocksN m =
     (case res_bind (res_map (operand env c m) [1, 2]) (\<lambda>os.
             res_bind (normal_tables env c (fst (os ! 1)) m) (\<lambda>t. Inr (fst (os ! 0), t))) of
        Inl e \<Rightarrow> (Inl e, m)
      | Inr (lhs, P_LS, dPDu) \<Rightarrow>
          let xb = cx_mBlocksXN (ctx m c); h = cx_mPointsYN (ctx m c) in
          stx_bind (each_block (normal_block env c lhs xb P_LS dPDu) [xb..<h * xb]) (\<lambda>_.
            stx_bind (each_block (copy_block c lhs xb) [0..<xb]) (\<lambda>_. NextInstruction env c)) m)"

subsection \<open>Textures\<close>

text \<open>
  \<open>RI_SVM_Ops_Texture.h\<close>. The offsets of the coordinates are stepped but never used: both are read
  at the number of the block. Only the scalar form samples; the assertion of the vector form is
  empty in the release build. The texture is a parameter.
\<close>

definition texture_coords :: "SvmEnv \<Rightarrow> bool \<Rightarrow> nat \<Rightarrow> nat \<Rightarrow> Machine \<Rightarrow> (Blk \<times> Blk) res" where
  "texture_coords env coords c i m =
     (if coords then
        res_bind (operand env c m 3) (\<lambda>s. res_bind (operand env c m 4) (\<lambda>t.
        res_bind (read_reg RT_S c m (fst s) i) (\<lambda>a. res_bind (read_reg RT_S c m (fst t) i) (\<lambda>b. Inr (a, b)))))
      else
        res_bind (grid_sym env ''s'') (\<lambda>s. res_bind (grid_sym env ''t'') (\<lambda>t.
        res_bind (read_grid RT_S m (fst s) i) (\<lambda>a. res_bind (read_grid RT_S m (fst t) i) (\<lambda>b. Inr (a, b))))))"

definition texture_body :: "SvmEnv \<Rightarrow> RegType \<Rightarrow> bool \<Rightarrow> (lanes \<Rightarrow> lanes \<Rightarrow> lanes) option \<Rightarrow> nat \<Rightarrow> nat \<Rightarrow> nat \<Rightarrow> unit svm" where
  "texture_body env TA coords oTex c lhs i m =
     (case texture_coords env coords c i m of
        Inl e \<Rightarrow> (Inl e, m)
      | Inr (a, b) \<Rightarrow>
          if TA = RT_S then
            (case oTex of
               None \<Rightarrow> (Inl bad_access, m)
             | Some smp \<Rightarrow> write_reg c lhs i (B_s (smp (blk_lanes a) (blk_lanes b))) m)
          else (Inr (), m))"

definition Inst_Texture :: "RegType \<Rightarrow> bool \<Rightarrow> SvmEnv \<Rightarrow> nat \<Rightarrow> nat \<Rightarrow> unit svm" where
  "Inst_Texture TA coords env c blocksN m =
     (case res_bind (res_map (operand env c m) [1, 2]) (\<lambda>os.
             res_bind (read_reg RT_X c m (fst (os ! 1)) 0) (\<lambda>b. Inr (fst (os ! 0), b))) of
        Inr (lhs, B_x nm) \<Rightarrow>
          (case cx_mpAttribs (ctx m c) of
             None \<Rightarrow> (Inl bad_access, m)
           | Some a \<Rightarrow>
               stx_bind (each_block (texture_body env TA coords (ev_GetTexture env a nm) c lhs) [0..<blocksN])
                 (\<lambda>_. NextInstruction env c) m)
      | Inl e \<Rightarrow> (Inl e, m)
      | _ \<Rightarrow> (Inl bad_access, m))"

section \<open>Control\<close>

text \<open>
  \<open>RI_SVM_Ops_Compare.cpp\<close>. A varying condition is not looked at: the body of the \<open>if\<close> and then
  that of the \<open>else\<close> run for every point.
\<close>

definition funcop_end :: "SvmEnv \<Rightarrow> nat \<Rightarrow> Machine \<Rightarrow> nat res" where
  "funcop_end env c m = res_bind (GetOpCode env c m) (\<lambda>w. Inr (unat (oc_mFuncopEndAddr w)))"

definition with_funcop_end :: "SvmEnv \<Rightarrow> nat \<Rightarrow> (nat \<Rightarrow> unit svm) \<Rightarrow> unit svm" where
  "with_funcop_end env c f m = (case funcop_end env c m of Inl e \<Rightarrow> (Inl e, m) | Inr a \<Rightarrow> f a m)"

definition Inst_IfTrue :: "SvmEnv \<Rightarrow> nat \<Rightarrow> nat \<Rightarrow> unit svm" where
  "Inst_IfTrue env c blocksN m =
     (case operand env c m 1 of
        Inl e \<Rightarrow> (Inl e, m)
      | Inr (off, varying) \<Rightarrow>
          if varying then stx_bind (fop_push c (FLG_IFTRUE OR FLG_IFTRUE_VARY)) (\<lambda>_. NextInstruction env c) m
          else
            (case read_reg RT_B c m off 0 of
               Inr (B_b v) \<Rightarrow>
                 if VecNMask_eq v VecNMaskFull
                 then stx_bind (fop_push c (FLG_IFTRUE OR FLG_IFTRUE_TRUE)) (\<lambda>_. NextInstruction env c) m
                 else with_funcop_end env c (\<lambda>addr. stx_bind (GotoInstruction c addr) (\<lambda>_. fop_push c FLG_IFTRUE)) m
             | Inl e \<Rightarrow> (Inl e, m)
             | _ \<Rightarrow> (Inl bad_access, m)))"

definition Inst_OrElse :: "SvmEnv \<Rightarrow> nat \<Rightarrow> nat \<Rightarrow> unit svm" where
  "Inst_OrElse env c blocksN m =
     (case fop_top c m of
        Inl e \<Rightarrow> (Inl e, m)
      | Inr funcopFlgs \<Rightarrow>
          stx_bind (fop_pop c) (\<lambda>_.
            if funcopFlgs AND FLG_IFTRUE_VARY \<noteq> 0 then stx_bind (fop_push c FLG_ORELSE) (\<lambda>_. NextInstruction env c)
            else if funcopFlgs AND FLG_IFTRUE_TRUE \<noteq> 0
            then with_funcop_end env c (\<lambda>addr. stx_bind (GotoInstruction c addr) (\<lambda>_. NextInstruction env c))
            else stx_bind (fop_push c FLG_ORELSE) (\<lambda>_. NextInstruction env c)) m)"

section \<open>Lights\<close>

text \<open>
  \<open>SetupIfChanged\<close>. When \<open>Bind\<close> throws, the new instance and attributes stay and there is no data
  segment; the next call with the same arguments does not bind again.
\<close>

definition SetupIfChanged :: "SvmEnv \<Rightarrow> nat \<Rightarrow> nat \<Rightarrow> nat \<Rightarrow> nat \<Rightarrow> nat \<Rightarrow> unit svm" where
  "SetupIfChanged env c attribs pShaderInst blocksXN pointsYN m =
     (let m = upd c (\<lambda>x. x\<lparr>cx_mBlocksXN := blocksXN, cx_mPointsYN := pointsYN\<rparr>) m; x = ctx m c in
      if cx_mpAttribs x \<noteq> Some attribs \<or> cx_mpShaderInst x \<noteq> Some pShaderInst then
        let m = upd c (\<lambda>x. x\<lparr>cx_mpDataSegment := None, cx_mpActLightsCtxs := [], cx_mAmbientColDone := False,
                  cx_mpShaderInst := Some pShaderInst, cx_mpAttribs := Some attribs, cx_mDefParamValsStartPCs := []\<rparr>) m in
        if pShaderInst < length (ev_insts env) then
          (case Bind env (ev_insts env ! pShaderInst) of
             Inl e \<Rightarrow> (Inl e, m)
           | Inr (ds, pcs) \<Rightarrow>
               (Inr (), upd c (\<lambda>x. x\<lparr>cx_mpDataSegment := Some ds, cx_mDefParamValsStartPCs := pcs\<rparr>) m))
        else (Inl bad_access, m)
      else (Inr (), m))"

text \<open>\<open>ActLightsCtxs_CheckInit\<close>: one new context for each active light, unless there are some.\<close>

definition ActLightsCtxs_CheckInit :: "SvmEnv \<Rightarrow> nat \<Rightarrow> Machine \<Rightarrow> Machine" where
  "ActLightsCtxs_CheckInit env c m =
     (if cx_mpActLightsCtxs (ctx m c) \<noteq> [] then m
      else
        let n = (case cx_mpAttribs (ctx m c) of None \<Rightarrow> 0 | Some a \<Rightarrow> length (ev_lights env a));
            k = length (mc_ctxs m) in
        upd c (\<lambda>x. x\<lparr>cx_mpActLightsCtxs := [k..<k + n]\<rparr>) (m\<lparr>mc_ctxs := mc_ctxs m @ replicate n Context_new\<rparr>))"

definition active_lights :: "SvmEnv \<Rightarrow> nat \<Rightarrow> Machine \<Rightarrow> (nat \<times> (bool \<times> nat) list) res" where
  "active_lights env c m =
     (case cx_mpAttribs (ctx m c) of None \<Rightarrow> Inl bad_access | Some a \<Rightarrow> Inr (a, ev_lights env a))"

text \<open>
  Instructions that run light shaders may not return: the result is an option, and \<open>run\<close> executes
  the shader of a context.
\<close>

type_synonym svm_run = "nat \<Rightarrow> Machine \<Rightarrow> (unit res \<times> Machine) option"

definition run_light :: "SvmEnv \<Rightarrow> svm_run \<Rightarrow> nat \<Rightarrow> nat \<Rightarrow> nat \<Rightarrow> nat \<Rightarrow> Machine \<Rightarrow> (unit res \<times> Machine) option" where
  "run_light env run c a i inst m =
     (let m = ActLightsCtxs_CheckInit env c m in
      if i < length (cx_mpActLightsCtxs (ctx m c)) then
        let lc = cx_mpActLightsCtxs (ctx m c) ! i in
        case SetupIfChanged env lc a inst (cx_mBlocksXN (ctx m c)) (cx_mPointsYN (ctx m c)) m of
          (Inl e, m') \<Rightarrow> Some (Inl e, m')
        | (Inr _, m') \<Rightarrow> run lc m'
      else Some (Inl bad_access, m))"

text \<open>\<open>Inst_Ambient\<close> adds up the first block of \<open>Cl\<close> after every ambient light.\<close>

definition add_blocks :: "lanes Vec3 \<Rightarrow> lanes Vec3 \<Rightarrow> lanes Vec3" where
  "add_blocks a b = Vec3 (map2 (+) (x3 a) (x3 b)) (map2 (+) (y3 a) (y3 b)) (map2 (+) (z3 a) (z3 b))"

fun ambient_lights ::
  "SvmEnv \<Rightarrow> svm_run \<Rightarrow> nat \<Rightarrow> nat \<Rightarrow> nat \<Rightarrow> (nat \<times> bool \<times> nat) list \<Rightarrow> lanes Vec3 \<Rightarrow> Machine
     \<Rightarrow> (lanes Vec3 res \<times> Machine) option" where
  "ambient_lights env run c a gCl [] ambCol m = Some (Inr ambCol, m)"
| "ambient_lights env run c a gCl ((i, mIsAmbient, inst) # ls) ambCol m =
     (if \<not> mIsAmbient then ambient_lights env run c a gCl ls ambCol m
      else case run_light env run c a i inst m of
        None \<Rightarrow> None
      | Some (Inl e, m') \<Rightarrow> Some (Inl e, m')
      | Some (Inr _, m') \<Rightarrow>
          (case read_grid RT_V m' gCl 0 of
             Inr (B_v v) \<Rightarrow> ambient_lights env run c a gCl ls (add_blocks ambCol v) m'
           | Inl e \<Rightarrow> Some (Inl e, m')
           | _ \<Rightarrow> Some (Inl bad_access, m')))"

text \<open>The cached colour, computed on the first call since the shader was bound.\<close>

definition ambient_colour :: "SvmEnv \<Rightarrow> svm_run \<Rightarrow> nat \<Rightarrow> Machine \<Rightarrow> (unit res \<times> Machine) option" where
  "ambient_colour env run c m =
     (if cx_mAmbientColDone (ctx m c) then Some (Inr (), m)
      else
        let m = upd c (\<lambda>x. x\<lparr>cx_mAmbientColDone := True\<rparr>) m in
        case res_bind (grid_sym env ''Cl'') (\<lambda>g. res_bind (active_lights env c m) (\<lambda>al. Inr (fst g, al))) of
          Inl e \<Rightarrow> Some (Inl e, m)
        | Inr (gCl, a, ls) \<Rightarrow>
            (case ambient_lights env run c a gCl (zip [0..<length ls] ls) (Vec3_splat (splat 0))
                    (ActLightsCtxs_CheckInit env c m) of
               None \<Rightarrow> None
             | Some (Inl e, m') \<Rightarrow> Some (Inl e, m')
             | Some (Inr col, m') \<Rightarrow> Some (Inr (), upd c (\<lambda>x. x\<lparr>cx_mAmbientCol := col\<rparr>) m')))"

definition Inst_Ambient :: "SvmEnv \<Rightarrow> svm_run \<Rightarrow> nat \<Rightarrow> nat \<Rightarrow> Machine \<Rightarrow> (unit res \<times> Machine) option" where
  "Inst_Ambient env run c blocksN m =
     (case ambient_colour env run c m of
        None \<Rightarrow> None
      | Some (Inl e, m') \<Rightarrow> Some (Inl e, m')
      | Some (Inr _, m') \<Rightarrow>
          Some (block_loop env RT_V [] (\<lambda>m _ _. Inr (B_v (cx_mAmbientCol (ctx m c)))) c blocksN m'))"

definition Inst_Illuminance :: "bool \<Rightarrow> SvmEnv \<Rightarrow> nat \<Rightarrow> nat \<Rightarrow> unit svm" where
  "Inst_Illuminance axis env c blocksN_unused m =
     (if IsInFuncop c m then (Inl (AssThrow ''Nested funcop ?!''), m)
      else case res_bind (funcop_end env c m) (\<lambda>addr. res_bind (active_lights env c m) (\<lambda>al. Inr (addr, snd al))) of
        Inl e \<Rightarrow> (Inl e, m)
      | Inr (funcOpEndAddr, ls) \<Rightarrow>
          if ls = [] then stx_bind (GotoInstruction c funcOpEndAddr) (\<lambda>_. NextInstruction env c) m
          else
            (case res_bind (res_map (operand env c m) (if axis then [1, 2, 3] else [1])) (\<lambda>_. grid_sym env ''L'') of
               Inl e \<Rightarrow> (Inl e, m)
             | Inr _ \<Rightarrow>
                 stx_bind (NextInstruction env c) (\<lambda>_ m.
                   let m = upd c (\<lambda>x. x\<lparr>cx_mIlluminanceCtx := \<lparr>il_mBodyStartAddr = cx_mProgramCounter x,
                             il_mActLightIdx = Some 0, il_mActLightsN = length ls\<rparr>\<rparr>) m in
                   stx_bind (GotoInstruction c funcOpEndAddr) (\<lambda>_. fop_push c FLG_ILLUMINANCE) m) m))"

definition Inst_Solar :: "bool \<Rightarrow> SvmEnv \<Rightarrow> nat \<Rightarrow> nat \<Rightarrow> unit svm" where
  "Inst_Solar axis env c blocksN_unused m =
     (if IsInFuncop c m then (Inl (AssThrow ''Nested funcop ?!''), m)
      else case grid_sym env ''L'' of
        Inl e \<Rightarrow> (Inl e, m)
      | Inr (gL, varying) \<Rightarrow>
          let blocksN = (if varying then cx_mBlocksN (ctx m c) else 1) in
          stx_bind (each_block (\<lambda>i m.
              case (if axis then
                      res_bind (operand env c m 1) (\<lambda>a. res_bind (read_reg RT_V c m (fst a) 0) (\<lambda>b.
                        case b of B_v v \<Rightarrow> map_lanes (\<lambda>x. res_bind (normalized x) (\<lambda>n. Inr (Vec3_neg n))) v
                          | _ \<Rightarrow> Inl bad_access))
                    else Inr (B_v (Vec3_splat (splat 0)))) of
                Inl e \<Rightarrow> (Inl e, m)
              | Inr b \<Rightarrow> put_grid gL i b m) [0..<blocksN])
            (\<lambda>_. stx_bind (fop_push c FLG_SOLAR) (\<lambda>_. NextInstruction env c)) m)"

text \<open>The first light from index \<open>i\<close> on that is not ambient.\<close>

definition next_light :: "(bool \<times> nat) list \<Rightarrow> nat \<Rightarrow> nat option" where
  "next_light ls i = find_from (\<lambda>l. \<not> fst l) (drop i ls) i"

definition FuncOpEnd_Illuminance :: "SvmEnv \<Rightarrow> svm_run \<Rightarrow> nat \<Rightarrow> Machine \<Rightarrow> (unit res \<times> Machine) option" where
  "FuncOpEnd_Illuminance env run c m =
     (case (il_mActLightIdx (cx_mIlluminanceCtx (ctx m c)), active_lights env c m) of
        (Some idx, Inr (a, ls)) \<Rightarrow>
          (case next_light ls idx of
             Some i \<Rightarrow>
               let m = upd c (\<lambda>x. x\<lparr>cx_mIlluminanceCtx := (cx_mIlluminanceCtx x)\<lparr>il_mActLightIdx := Some i\<rparr>\<rparr>) m in
               (case run_light env run c a i (snd (ls ! i)) m of
                  None \<Rightarrow> None
                | Some (Inl e, m') \<Rightarrow> Some (Inl e, m')
                | Some (Inr _, m') \<Rightarrow>
                    Some (GotoInstruction c (il_mBodyStartAddr (cx_mIlluminanceCtx (ctx m' c)))
                      (upd c (\<lambda>x. x\<lparr>cx_mIlluminanceCtx := (cx_mIlluminanceCtx x)\<lparr>il_mActLightIdx := Some (i + 1)\<rparr>\<rparr>) m')))
           | None \<Rightarrow>
               Some (stx_bind (fop_pop c) (\<lambda>_. NextInstruction env c)
                 (upd c (\<lambda>x. x\<lparr>cx_mIlluminanceCtx := (cx_mIlluminanceCtx x)\<lparr>il_mActLightIdx := None\<rparr>\<rparr>) m)))
      | (None, Inr _) \<Rightarrow>
          Some (stx_bind (fop_pop c) (\<lambda>_. NextInstruction env c) m)
      | (_, Inl e) \<Rightarrow> Some (Inl e, m))"

definition Inst_FuncopEnd :: "SvmEnv \<Rightarrow> svm_run \<Rightarrow> nat \<Rightarrow> nat \<Rightarrow> Machine \<Rightarrow> (unit res \<times> Machine) option" where
  "Inst_FuncopEnd env run c blocksN m =
     (case fop_top c m of
        Inl e \<Rightarrow> Some (Inl e, m)
      | Inr funcopFlgs \<Rightarrow>
          if funcopFlgs AND (FLG_IFTRUE OR FLG_ORELSE) \<noteq> 0
          then Some (stx_bind (fop_pop c) (\<lambda>_. NextInstruction env c) m)
          else if funcopFlgs AND FLG_ILLUMINANCE \<noteq> 0 then FuncOpEnd_Illuminance env run c m
          else if funcopFlgs AND FLG_SOLAR \<noteq> 0 then Some (stx_bind (fop_pop c) (\<lambda>_. NextInstruction env c) m)
          else Some (stx_bind (NextInstruction env c)
            (\<lambda>_. stx_throw (AssThrow (''funcop stack broken ?!''))) m))"

section \<open>The machine\<close>

definition pure :: "(nat \<Rightarrow> nat \<Rightarrow> unit svm) \<Rightarrow> (nat \<Rightarrow> nat \<Rightarrow> Machine \<Rightarrow> (unit res \<times> Machine) option) option" where
  "pure f = Some (\<lambda>c n m. Some (f c n m))"

text \<open>\<open>_gSlOpCodeFuncs\<close>, in the order of \<^const>\<open>gOpCodeDefs\<close>; \<open>None\<close> is a null pointer.\<close>

definition gSlOpCodeFuncs ::
  "SvmEnv \<Rightarrow> svm_run \<Rightarrow> (nat \<Rightarrow> nat \<Rightarrow> Machine \<Rightarrow> (unit res \<times> Machine) option) option list" where
  "gSlOpCodeFuncs env run =
    [None,
     pure (Inst_Mov RT_S RT_S env),
     pure (Inst_Mov RT_V RT_S env),
     pure (Inst_Mov RT_V RT_V env),
     pure (Inst_Mov RT_X RT_X env),
     pure (Inst_Mov RT_B RT_B env),
     pure (Inst_Abs RT_S RT_S env),
     pure (Inst_Abs RT_V RT_S env),
     pure (Inst_Abs RT_V RT_V env),
     pure (Inst_Sign RT_S RT_S env),
     pure (Inst_2Op RT_S RT_S RT_S OBT_ADD env),
     pure (Inst_2Op RT_V RT_V RT_S OBT_ADD env),
     pure (Inst_2Op RT_V RT_S RT_V OBT_ADD env),
     pure (Inst_2Op RT_V RT_V RT_V OBT_ADD env),
     pure (Inst_2Op RT_S RT_S RT_S OBT_SUB env),
     pure (Inst_2Op RT_V RT_V RT_S OBT_SUB env),
     pure (Inst_2Op RT_V RT_S RT_V OBT_SUB env),
     pure (Inst_2Op RT_V RT_V RT_V OBT_SUB env),
     pure (Inst_2Op RT_S RT_S RT_S OBT_MUL env),
     pure (Inst_2Op RT_V RT_V RT_S OBT_MUL env),
     pure (Inst_2Op RT_V RT_S RT_V OBT_MUL env),
     pure (Inst_2Op RT_V RT_V RT_V OBT_MUL env),
     pure (Inst_2Op RT_S RT_S RT_S OBT_DIV env),
     pure (Inst_2Op RT_V RT_V RT_S OBT_DIV env),
     pure (Inst_2Op RT_V RT_S RT_V OBT_DIV env),
     pure (Inst_2Op RT_V RT_V RT_V OBT_DIV env),
     pure (Inst_Pow_SSS env),
     pure (Inst_MOVVS3 env),
     pure (Inst_Dot_SVV env),
     pure (Inst_Length_SV env),
     pure (Inst_Min_Max RT_S OBT_MIN env),
     pure (Inst_Min_Max RT_V OBT_MIN env),
     pure (Inst_Min_Max RT_S OBT_MAX env),
     pure (Inst_Min_Max RT_V OBT_MAX env),
     pure (Inst_LD1 env),
     pure (Inst_LD3 env),
     pure (Inst_CMPLT env),
     pure (Inst_SETCMP_REL OBT_SETLE env),
     pure (Inst_SETCMP_REL OBT_SETGE env),
     pure (Inst_SETCMP_REL OBT_SETLT env),
     pure (Inst_SETCMP_REL OBT_SETGT env),
     pure (Inst_SETCMP_EQ RT_S OBT_SETEQ env),
     pure (Inst_SETCMP_EQ RT_V OBT_SETEQ env),
     pure (Inst_SETCMP_EQ RT_H OBT_SETEQ env),
     None,
     pure (Inst_SETCMP_EQ_NoVary OBT_SETEQ env),
     pure (Inst_SETCMP_EQ RT_B OBT_SETEQ env),
     pure (Inst_SETCMP_EQ RT_S OBT_SETNEQ env),
     pure (Inst_SETCMP_EQ RT_V OBT_SETNEQ env),
     pure (Inst_SETCMP_EQ RT_H OBT_SETNEQ env),
     None,
     pure (Inst_SETCMP_EQ_NoVary OBT_SETNEQ env),
     pure (Inst_SETCMP_EQ RT_B OBT_SETNEQ env),
     pure (Inst_Noise1 RT_S env),
     pure (Inst_Noise1 RT_F2 env),
     pure (Inst_Noise1 RT_V env),
     pure (Inst_Noise3 RT_S env),
     pure (Inst_Noise3 RT_F2 env),
     pure (Inst_Noise3 RT_V env),
     pure (Inst_GetVComp 0 env),
     pure (Inst_GetVComp 1 env),
     pure (Inst_GetVComp 2 env),
     pure (Inst_SetVComp 0 env),
     pure (Inst_SetVComp 1 env),
     pure (Inst_SetVComp 2 env),
     pure (Inst_PXFormname_VXV env),
     pure (Inst_VXFormname_VXV env),
     pure (Inst_NXFormname_VXV env),
     pure (Inst_CXFormname_VXV env),
     pure (Inst_Normalize env),
     pure (Inst_Faceforward env),
     Some (Inst_Ambient env run),
     pure (Inst_CalculateNormal env),
     pure (Inst_Solar False env),
     pure (Inst_Solar True env),
     pure (Inst_Illuminance False env),
     pure (Inst_Illuminance True env),
     Some (Inst_FuncopEnd env run),
     pure (Inst_IfTrue env),
     pure (Inst_OrElse env),
     pure (Inst_Texture RT_S False env),
     pure (Inst_Texture RT_V False env),
     pure (Inst_Texture RT_S True env),
     pure (Inst_Texture RT_V True env)]"

definition OP_RET :: nat where "OP_RET = 0"

definition getDestBlocksN :: "SvmEnv \<Rightarrow> nat \<Rightarrow> OpCodeDef \<Rightarrow> Machine \<Rightarrow> nat res" where
  "getDestBlocksN env c opCodeDef m =
     (if has_flag opCodeDef OPC_FLG_1STISDEST
      then res_bind (operand env c m 1) (\<lambda>(_, varying). Inr (if varying then cx_mBlocksN (ctx m c) else 1))
      else Inr 1)"

text \<open>
  The execution of one instruction: \<open>Some (Inr True, m)\<close> when the loop of \<open>runFrom\<close> goes on,
  \<open>Some (Inr False, m)\<close> when it returns.
\<close>

definition svm_step :: "SvmEnv \<Rightarrow> svm_run \<Rightarrow> nat \<Rightarrow> Machine \<Rightarrow> (bool res \<times> Machine) option" where
  "svm_step env run c m =
     (if cx_mProgramCounter (ctx m c) \<ge> length (code_of env c m) then Some (Inr False, m)
      else case GetOpCode env c m of
        Inl e \<Rightarrow> Some (Inl e, m)
      | Inr w \<Rightarrow>
          let opCodeIdx = oc_mTableOffset w in
          if opCodeIdx = OP_RET then Some (Inr False, m)
          else if opCodeIdx \<ge> length gOpCodeDefs then Some (Inl bad_access, m)
          else
            (case (getDestBlocksN env c (gOpCodeDefs ! opCodeIdx) m, gSlOpCodeFuncs env run ! opCodeIdx) of
               (Inl e, _) \<Rightarrow> Some (Inl e, m)
             | (Inr _, None) \<Rightarrow> Some (Inl (Undefined_behaviour ''call of a null function pointer''), m)
             | (Inr blocksN, Some nextFunc) \<Rightarrow>
                 map_option (\<lambda>(r, m'). (case r of Inl e \<Rightarrow> Inl e | Inr _ \<Rightarrow> Inr True, m')) (nextFunc c blocksN m)))"

text \<open>
  The loop of \<open>runFrom\<close>, for at most \<open>n\<close> instructions: \<open>None\<close> when they are not enough. Exceptions are
  caught and printed.
\<close>

fun runFrom_loop :: "SvmEnv \<Rightarrow> svm_run \<Rightarrow> nat \<Rightarrow> nat \<Rightarrow> Machine \<Rightarrow> (unit res \<times> Machine) option" where
  "runFrom_loop env run 0 c m = None"
| "runFrom_loop env run (Suc n) c m =
     (case svm_step env run c m of
        None \<Rightarrow> None
      | Some (Inl e, m') \<Rightarrow> Some (Inl e, m')
      | Some (Inr False, m') \<Rightarrow> Some (Inr (), m')
      | Some (Inr True, m') \<Rightarrow> runFrom_loop env run n c m')"

definition INVALID_PC :: nat where "INVALID_PC = 2 ^ 32 - 1"

definition start_run :: "nat \<Rightarrow> nat \<Rightarrow> Machine \<Rightarrow> Machine" where
  "start_run c startPC m =
     upd c (\<lambda>x. x\<lparr>cx_mProgramCounter := startPC, cx_mIlluminanceCtx := (cx_mIlluminanceCtx x)\<lparr>il_mActLightIdx := None\<rparr>,
                 cx_mFopStack := []\<rparr>) m"

definition caught :: "unit res \<times> Machine \<Rightarrow> unit res \<times> Machine" where
  "caught = (\<lambda>(r, m). case r of Inl e \<Rightarrow> if is_exception e then (Inr (), m) else (Inl e, m) | Inr _ \<Rightarrow> (Inr (), m))"

definition runFrom :: "SvmEnv \<Rightarrow> svm_run \<Rightarrow> nat \<Rightarrow> nat \<Rightarrow> nat \<Rightarrow> Machine \<Rightarrow> (unit res \<times> Machine) option" where
  "runFrom env run n c startPC m = map_option caught (runFrom_loop env run n c (start_run c startPC m))"

definition InitializeSIMD :: "nat \<Rightarrow> nat \<Rightarrow> Machine \<Rightarrow> Machine" where
  "InitializeSIMD c samplesN m = upd c (\<lambda>x. x\<lparr>cx_mPointsN := samplesN, cx_mBlocksN := simd_blocks samplesN\<rparr>) m"

definition init_const :: "SvmValue \<Rightarrow> SvmValue res" where
  "init_const v =
     (case (vl_mOwnData v, sym_mpConstVal (vl_mpSrcSymbol v)) of
        (True, Some k) \<Rightarrow>
          (case vl_Data v of
             Some (Own_data d) \<Rightarrow> res_bind (CopyConstValue k d) (\<lambda>d'. Inr (v\<lparr>vl_Data := Some (Own_data d')\<rparr>))
           | _ \<Rightarrow> Inl bad_access)
      | _ \<Rightarrow> Inr v)"

definition init_consts :: "nat \<Rightarrow> unit svm" where
  "init_consts c m =
     (case cx_mpDataSegment (ctx m c) of
        None \<Rightarrow> (Inl bad_access, m)
      | Some vs \<Rightarrow>
          (case res_map init_const vs of
             Inl e \<Rightarrow> (Inl e, m)
           | Inr vs' \<Rightarrow> (Inr (), upd c (\<lambda>x. x\<lparr>cx_mpDataSegment := Some vs'\<rparr>) m)))"

fun run_all :: "(nat \<Rightarrow> Machine \<Rightarrow> (unit res \<times> Machine) option) \<Rightarrow> nat list \<Rightarrow> Machine \<Rightarrow> (unit res \<times> Machine) option" where
  "run_all f [] m = Some (Inr (), m)"
| "run_all f (pc # pcs) m =
     (case f pc m of None \<Rightarrow> None | Some (Inl e, m') \<Rightarrow> Some (Inl e, m') | Some (Inr _, m') \<Rightarrow> run_all f pcs m')"

text \<open>
  \<open>ShaderInst::Run\<close>. The fuel \<open>d\<close> is the depth of shaders that run other shaders, and \<open>n\<close> bounds the
  instructions of each run.
\<close>

fun Run :: "SvmEnv \<Rightarrow> nat \<Rightarrow> nat \<Rightarrow> nat \<Rightarrow> Machine \<Rightarrow> (unit res \<times> Machine) option" where
  "Run env 0 n c m = None"
| "Run env (Suc d) n c m =
     (case inst_of env c m of
        Inl e \<Rightarrow> Some (Inl e, m)
      | Inr inst \<Rightarrow>
          (case init_consts c (InitializeSIMD c (si_mMaxPointsN inst) m) of
             (Inl e, m') \<Rightarrow> Some (Inl e, m')
           | (Inr _, m') \<Rightarrow>
               run_all (runFrom env (Run env d n) n c)
                 (cx_mDefParamValsStartPCs (ctx m' c) @
                  [case sh_mStartPC (si_moShader inst) of None \<Rightarrow> INVALID_PC | Some pc \<Rightarrow> pc]) m'))"

text \<open>
  \<open>WorkGrid::Displace\<close> and \<open>WorkGrid::Shade\<close>: the shader of the attributes on the arrays of the grid, in
  the grid's own contexts.
\<close>

definition run_shader ::
  "SvmEnv \<Rightarrow> nat \<Rightarrow> nat \<Rightarrow> nat \<Rightarrow> nat \<Rightarrow> nat \<Rightarrow> nat \<Rightarrow> nat \<Rightarrow> Machine \<Rightarrow> (unit res \<times> Machine) option" where
  "run_shader env d n c attribs inst blocksXN pointsYN m =
     (case SetupIfChanged env c attribs inst blocksXN pointsYN m of
        (Inl e, m') \<Rightarrow> Some (Inl e, m')
      | (Inr _, m') \<Rightarrow> Run env d n c m')"

definition Displace ::
  "SvmEnv \<Rightarrow> nat \<Rightarrow> nat \<Rightarrow> nat \<Rightarrow> nat \<Rightarrow> nat option \<Rightarrow> nat \<Rightarrow> nat \<Rightarrow> Machine \<Rightarrow> (unit res \<times> Machine) option" where
  "Displace env d n dispCtx attribs dispSHI xdim ydim m =
     (case dispSHI of
        None \<Rightarrow> Some (Inr (), m)
      | Some inst \<Rightarrow> run_shader env d n dispCtx attribs inst (simd_blocks xdim) ydim m)"

definition Shade ::
  "SvmEnv \<Rightarrow> nat \<Rightarrow> nat \<Rightarrow> nat \<Rightarrow> nat \<Rightarrow> nat option \<Rightarrow> nat \<Rightarrow> nat \<Rightarrow> Machine \<Rightarrow> (unit res \<times> Machine) option" where
  "Shade env d n surfCtx attribs surfSHI xdim ydim m =
     (case surfSHI of
        None \<Rightarrow> Some (Inl bad_access, m)
      | Some inst \<Rightarrow> run_shader env d n surfCtx attribs inst (simd_blocks xdim) ydim m)"

end
