(* ===== verification/SVMProps.thy ===== *)
theory SVMProps
  imports SVM RRAsmProps
begin

text \<open>
  Runs of the shader machine: which contexts a run can change, and that the program counter of
  code made by the assembler always stands on an instruction, whatever the data, the
  light shaders and the fuel are; what the constructs do; and the two opcode tables.
\<close>

section \<open>What an operation keeps\<close>

text \<open>The contexts of the lights of a context come after it.\<close>

definition ctx_tree :: "Machine \<Rightarrow> bool" where
  "ctx_tree m \<longleftrightarrow> (\<forall>c < length (mc_ctxs m). \<forall>l \<in> set (cx_mpActLightsCtxs (ctx m c)). c < l \<and> l < length (mc_ctxs m))"

definition keeps :: "(Context \<Rightarrow> 'a) \<Rightarrow> nat \<Rightarrow> Machine \<Rightarrow> Machine \<Rightarrow> bool" where
  "keeps key c m m' \<longleftrightarrow> length (mc_ctxs m) \<le> length (mc_ctxs m') \<and> (\<forall>j < c. ctx m' j = ctx m j)
     \<and> (ctx_tree m \<longrightarrow> ctx_tree m') \<and> key (ctx m' c) = key (ctx m c)"

definition id_key :: "Context \<Rightarrow> nat option \<times> nat option" where
  "id_key x = (cx_mpShaderInst x, cx_mpAttribs x)"

definition ctl_key :: "Context \<Rightarrow> nat \<times> U32 list \<times> SlIlluminanceCtx \<times> nat option \<times> nat option" where
  "ctl_key x = (cx_mProgramCounter x, cx_mFopStack x, cx_mIlluminanceCtx x, cx_mpShaderInst x, cx_mpAttribs x)"

abbreviation still :: "nat \<Rightarrow> Machine \<Rightarrow> Machine \<Rightarrow> bool" where
  "still \<equiv> keeps ctl_key"

abbreviation kept :: "nat \<Rightarrow> Machine \<Rightarrow> Machine \<Rightarrow> bool" where
  "kept \<equiv> keeps id_key"

lemma keeps_refl [simp]: "keeps key c m m"
  by (simp add: keeps_def)

lemma keeps_trans: "keeps key c a b \<Longrightarrow> keeps key c b d \<Longrightarrow> keeps key c a d"
  unfolding keeps_def by auto

lemma still_kept: "still c m m' \<Longrightarrow> kept c m m'"
  by (simp add: keeps_def ctl_key_def id_key_def)

lemma still_D:
  assumes "still c m m'"
  shows "cx_mProgramCounter (ctx m' c) = cx_mProgramCounter (ctx m c)" "cx_mFopStack (ctx m' c) = cx_mFopStack (ctx m c)"
    "cx_mIlluminanceCtx (ctx m' c) = cx_mIlluminanceCtx (ctx m c)" "cx_mpShaderInst (ctx m' c) = cx_mpShaderInst (ctx m c)"
    "cx_mpAttribs (ctx m' c) = cx_mpAttribs (ctx m c)"
  using assms by (simp_all add: keeps_def ctl_key_def)

lemma upd_length [simp]: "length (mc_ctxs (upd c f m)) = length (mc_ctxs m)"
  by (simp add: upd_def)

lemma upd_other [simp]: "j \<noteq> c \<Longrightarrow> ctx (upd c f m) j = ctx m j"
  by (simp add: upd_def)

lemma upd_same [simp]: "c < length (mc_ctxs m) \<Longrightarrow> ctx (upd c f m) c = f (ctx m c)"
  by (simp add: upd_def)

lemma upd_outside: "\<not> c < length (mc_ctxs m) \<Longrightarrow> upd c f m = m"
  by (cases m) (simp add: upd_def list_update_beyond)

lemma keepsI:
  assumes "length (mc_ctxs m') = length (mc_ctxs m)" and "\<And>j. j < c \<Longrightarrow> ctx m' j = ctx m j"
    and "\<And>j. cx_mpActLightsCtxs (ctx m' j) = cx_mpActLightsCtxs (ctx m j)" and "key (ctx m' c) = key (ctx m c)"
  shows "keeps key c m m'"
  unfolding keeps_def ctx_tree_def assms(1,3,4) using assms(2) by blast

lemma upd_lights:
  assumes "\<And>x. cx_mpActLightsCtxs (f x) = cx_mpActLightsCtxs x"
  shows "cx_mpActLightsCtxs (ctx (upd c f m) j) = cx_mpActLightsCtxs (ctx m j)"
proof (cases "c < length (mc_ctxs m)")
  case True
  then show ?thesis by (cases "j = c") (simp_all only: upd_same upd_other assms not_False_eq_True)
qed (simp only: upd_outside not_False_eq_True)

lemma upd_keeps:
  assumes "\<And>x. cx_mpActLightsCtxs (f x) = cx_mpActLightsCtxs x" and "\<And>x. key (f x) = key x"
  shows "keeps key c m (upd c f m)"
proof (cases "c < length (mc_ctxs m)")
  case True
  show ?thesis
  proof (rule keepsI)
    show "key (ctx (upd c f m) c) = key (ctx m c)" unfolding upd_same [OF True] by (rule assms(2))
    show "ctx (upd c f m) j = ctx m j" if "j < c" for j using that by (intro upd_other) (rule less_imp_neq)
    show "cx_mpActLightsCtxs (ctx (upd c f m) j) = cx_mpActLightsCtxs (ctx m j)" for j
      by (rule upd_lights) (rule assms(1))
  qed (rule upd_length)
qed (simp add: upd_outside)

lemma put_grid_ctxs: "put_grid g i b m = (r, m') \<Longrightarrow> mc_ctxs m' = mc_ctxs m"
  by (auto simp: put_grid_def split: option.splits)

lemma same_ctxs_keeps: "mc_ctxs m' = mc_ctxs m \<Longrightarrow> keeps key c m m'"
  by (rule keepsI) simp_all

lemma write_reg_still:
  assumes "write_reg c off i b m = (r, m')"
  shows "still c m m'"
proof -
  have "mc_ctxs m' = mc_ctxs m \<or> (\<exists>v. m' = set_value c off v m)"
  proof (cases "value_of c m off")
    case (Inr v)
    then have w: "(if \<not> vl_mCanChange v then (Inl (Undefined_behaviour ''write to a value that cannot change''), m)
      else (case vl_Data v of
            Some (Grid_data g) \<Rightarrow> put_grid g i b m
          | Some (Own_data d) \<Rightarrow>
              (case put_block b i d of
                 None \<Rightarrow> (Inl bad_access, m)
               | Some d' \<Rightarrow> (Inr (), set_value c off (v\<lparr>vl_Data := Some (Own_data d')\<rparr>) m))
          | _ \<Rightarrow> (Inl bad_access, m))) = (r, m')"
      using assms unfolding write_reg_def by (simp only: sum.case)
    show ?thesis
    proof (cases "vl_mCanChange v")
      case True
      show ?thesis
      proof (cases "vl_Data v")
        case (Some d)
        show ?thesis
        proof (cases d)
          case (Own_data x)
          show ?thesis using w True Some Own_data by (cases "put_block b i x") auto
        qed (use w True Some put_grid_ctxs in auto)
      qed (use w True in auto)
    qed (use w in auto)
  qed (use assms in \<open>simp add: write_reg_def\<close>)
  moreover have "still c m (set_value c off v m)" for v
    unfolding set_value_def by (rule upd_keeps) (simp_all add: ctl_key_def)
  ultimately show ?thesis using same_ctxs_keeps by blast
qed

lemma each_block_keeps:
  assumes "\<And>i m r m'. f i m = (r, m') \<Longrightarrow> keeps key c m m'" and "each_block f xs m = (r, m')"
  shows "keeps key c m m'"
  using assms(2)
proof (induction xs arbitrary: m)
  case (Cons i xs)
  obtain r1 m1 where 1: "f i m = (r1, m1)" by fastforce
  show ?case
  proof (cases r1)
    case (Inl e)
    then show ?thesis using 1 Cons.prems assms(1) by simp
  next
    case (Inr u)
    then have "each_block f xs m1 = (r, m')" using 1 Cons.prems by simp
    then show ?thesis using Cons.IH assms(1) [OF 1] keeps_trans by blast
  qed
qed simp

lemma loop_body_still: "loop_body T c lhs srcs f i m = (r, m') \<Longrightarrow> still c m m'"
  unfolding loop_body_def using write_reg_still by (auto split: sum.splits)

section \<open>Instructions that go on to the next\<close>

definition advances :: "SvmEnv \<Rightarrow> nat \<Rightarrow> unit svm \<Rightarrow> bool" where
  "advances env c f \<longleftrightarrow> (\<forall>m r m'. f m = (r, m') \<longrightarrow>
     (\<exists>m1. still c m m1 \<and> ((\<exists>e. r = Inl e \<and> m' = m1) \<or> NextInstruction env c m1 = (r, m'))))"

lemma advances_bind:
  assumes "\<And>m r m'. g m = (r, m') \<Longrightarrow> still c m m'"
  shows "advances env c (stx_bind g (\<lambda>_. NextInstruction env c))"
  unfolding advances_def
proof (intro allI impI)
  fix m r m' assume a: "stx_bind g (\<lambda>_. NextInstruction env c) m = (r, m')"
  obtain r1 m1 where 1: "g m = (r1, m1)" by fastforce
  then show "\<exists>m1. still c m m1 \<and> ((\<exists>e. r = Inl e \<and> m' = m1) \<or> NextInstruction env c m1 = (r, m'))"
    using a assms [OF 1] by (cases r1) auto
qed

lemma advances_Inl: "advances env c (\<lambda>m. (Inl (e m), m))"
  unfolding advances_def by (metis keeps_refl prod.inject)

lemma advances_res:
  assumes "\<And>a. advances env c (g a)"
  shows "advances env c (\<lambda>m. case h m of Inl e \<Rightarrow> (Inl e, m) | Inr a \<Rightarrow> g a m)"
  unfolding advances_def
proof (intro allI impI)
  fix m r m' assume "(case h m of Inl e \<Rightarrow> (Inl e, m) | Inr a \<Rightarrow> g a m) = (r, m')"
  then show "\<exists>m1. still c m m1 \<and> ((\<exists>e. r = Inl e \<and> m' = m1) \<or> NextInstruction env c m1 = (r, m'))"
    using assms advances_Inl [of env c "\<lambda>_. e" for e] unfolding advances_def by (cases "h m") (metis sum.case(1), metis sum.case(2))
qed

lemma advances_at: "(\<And>m. \<exists>g. advances env c g \<and> f m = g m) \<Longrightarrow> advances env c f"
  unfolding advances_def by metis

lemma block_loop_advances: "advances env c (block_loop env T Ts f c n)"
proof (rule advances_at)
  fix m
  let ?r = "res_bind (operand env c m 1) (\<lambda>lhs. res_bind (res_map (operand env c m) [2..<2 + length Ts]) (\<lambda>srcs.
      Inr (fst lhs, zip Ts srcs)))"
  show "\<exists>g. advances env c g \<and> block_loop env T Ts f c n m = g m"
  proof (cases ?r)
    case (Inl e)
    then show ?thesis using advances_Inl [of env c "\<lambda>_. e"] by (auto simp: block_loop_def)
  next
    case (Inr p)
    obtain lhs srcs where p: "p = (lhs, srcs)" by fastforce
    have "advances env c (stx_bind (each_block (loop_body T c lhs srcs (f m)) [0..<n]) (\<lambda>_. NextInstruction env c))"
      by (rule advances_bind) (metis each_block_keeps loop_body_still)
    then show ?thesis using Inr p by (auto simp: block_loop_def)
  qed
qed

lemma advances_if: "(P \<Longrightarrow> advances env c f) \<Longrightarrow> (\<not> P \<Longrightarrow> advances env c g) \<Longrightarrow> advances env c (if P then f else g)"
  by simp

lemma LD_advances: "advances env c (Inst_LD1 env c n)" "advances env c (Inst_LD3 env c n)"
  unfolding Inst_LD1_def [abs_def] Inst_LD3_def [abs_def] by (intro advances_res block_loop_advances)+

lemma xform_advances: "advances env c (xform_loop f env c n)"
proof (rule advances_at)
  fix m
  let ?r = "res_bind (space_matrix env c m) (\<lambda>mat. res_bind (operand env c m 1) (\<lambda>lhs.
             res_bind (operand env c m 3) (\<lambda>src. Inr (mat, fst lhs, src))))"
  show "\<exists>g. advances env c g \<and> xform_loop f env c n m = g m"
  proof (cases ?r)
    case (Inl e)
    then show ?thesis using advances_Inl [of env c "\<lambda>_. e"] by (auto simp: xform_loop_def)
  next
    case (Inr p)
    obtain mat lhs src where p: "p = (mat, lhs, src)" by (metis prod.exhaust)
    let ?g = "stx_bind (each_block (loop_body RT_V c lhs [(RT_V, src)] (\<lambda>_ bs.
             case bs of [B_v v] \<Rightarrow> map_lanes (f mat) v | _ \<Rightarrow> Inl bad_access)) [0..<n]) (\<lambda>_. NextInstruction env c)"
    have "advances env c ?g" by (rule advances_bind) (metis each_block_keeps loop_body_still)
    moreover have "xform_loop f env c n m = ?g m" unfolding xform_loop_def Inr p by (simp only: sum.case prod.case)
    ultimately show ?thesis by blast
  qed
qed

lemma faceforward_advances: "advances env c (Inst_Faceforward env c n)"
proof (rule advances_at)
  fix m
  let ?r = "res_bind (res_map (operand env c m) [1, 2, 3]) (\<lambda>os. res_bind (grid_sym env ''Ng'') (\<lambda>ng. Inr (os, ng)))"
  show "\<exists>g. advances env c g \<and> Inst_Faceforward env c n m = g m"
  proof (cases ?r)
    case (Inl e)
    then show ?thesis using advances_Inl [of env c "\<lambda>_. e"] unfolding Inst_Faceforward_def by (metis sum.case(1))
  next
    case (Inr p)
    obtain os ng where p: "p = (os, ng)" by (metis surj_pair)
    let ?g = "stx_bind (each_block (faceforward_body c (fst (os ! 0)) [(RT_V, os ! 1), (RT_V, os ! 2)] ng) [0..<n])
            (\<lambda>_. NextInstruction env c)"
    have "still c m m'" if "faceforward_body c l s g i m = (r, m')" for l s g i m r m'
      using that loop_body_still unfolding faceforward_body_def by blast
    then have "advances env c ?g" by (intro advances_bind) (metis each_block_keeps)
    moreover have "Inst_Faceforward env c n m = ?g m" unfolding Inst_Faceforward_def Inr p by (simp only: sum.case prod.case)
    ultimately show ?thesis by blast
  qed
qed

lemma stx_bind_keeps:
  assumes "\<And>m r m'. f m = (r, m') \<Longrightarrow> keeps key c m m'" and "\<And>a m r m'. g a m = (r, m') \<Longrightarrow> keeps key c m m'"
    and "stx_bind f g m = (r, m')"
  shows "keeps key c m m'"
proof -
  obtain r1 m1 where 1: "f m = (r1, m1)" by fastforce
  show ?thesis
  proof (cases r1)
    case (Inl e)
    then show ?thesis using assms(1) [OF 1] assms(3) 1 by simp
  next
    case (Inr a)
    then have "g a m1 = (r, m')" using 1 assms(3) by simp
    then show ?thesis using assms(1) [OF 1] assms(2) keeps_trans by blast
  qed
qed

lemma stx_bind_assoc: "stx_bind f (\<lambda>a. stx_bind (g a) h) = stx_bind (stx_bind f g) h"
  by (rule ext) (simp add: stx_bind_def split: prod.splits sum.splits)

lemma normal_block_still: "normal_block env c lhs xb P D i m = (r, m') \<Longrightarrow> still c m m'"
  unfolding normal_block_def using write_reg_still by (auto split: sum.splits)

lemma copy_block_still: "copy_block c lhs xb i m = (r, m') \<Longrightarrow> still c m m'"
  unfolding copy_block_def using write_reg_still by (auto split: sum.splits)

lemma calculate_normal_advances: "advances env c (Inst_CalculateNormal env c n)"
proof (rule advances_at)
  fix m
  let ?r = "res_bind (res_map (operand env c m) [1, 2]) (\<lambda>os.
             res_bind (normal_tables env c (fst (os ! 1)) m) (\<lambda>t. Inr (fst (os ! 0), t)))"
  show "\<exists>g. advances env c g \<and> Inst_CalculateNormal env c n m = g m"
  proof (cases ?r)
    case (Inl e)
    then show ?thesis using advances_Inl [of env c "\<lambda>_. e"] unfolding Inst_CalculateNormal_def by (metis sum.case(1))
  next
    case (Inr p)
    obtain lhs P D where p: "p = (lhs, P, D)" by (metis prod.exhaust)
    let ?b1 = "each_block (normal_block env c lhs (cx_mBlocksXN (ctx m c)) P D)
        [cx_mBlocksXN (ctx m c)..<cx_mPointsYN (ctx m c) * cx_mBlocksXN (ctx m c)]"
    let ?b2 = "each_block (copy_block c lhs (cx_mBlocksXN (ctx m c))) [0..<cx_mBlocksXN (ctx m c)]"
    have 1: "?b1 s = (r, s') \<Longrightarrow> still c s s'" for s r s'
      by (rule each_block_keeps, rule normal_block_still)
    have 2: "?b2 s = (r, s') \<Longrightarrow> still c s s'" for s r s'
      by (rule each_block_keeps, rule copy_block_still)
    have "advances env c (stx_bind (stx_bind ?b1 (\<lambda>_. ?b2)) (\<lambda>_. NextInstruction env c))"
      by (rule advances_bind, rule stx_bind_keeps) (rule 1, assumption, rule 2)
    moreover have "Inst_CalculateNormal env c n m = stx_bind (stx_bind ?b1 (\<lambda>_. ?b2)) (\<lambda>_. NextInstruction env c) m"
      unfolding Inst_CalculateNormal_def Inr p by (simp only: sum.case prod.case Let_def stx_bind_assoc)
    ultimately show ?thesis by blast
  qed
qed

lemma texture_body_still: "texture_body env TA coords tex c lhs i m = (r, m') \<Longrightarrow> still c m m'"
  unfolding texture_body_def using write_reg_still
  by (auto split: sum.splits option.splits if_splits prod.splits)

lemma texture_advances: "advances env c (Inst_Texture TA coords env c n)"
proof (rule advances_at)
  fix m
  let ?r = "res_bind (res_map (operand env c m) [1, 2]) (\<lambda>os.
             res_bind (read_reg RT_X c m (fst (os ! 1)) 0) (\<lambda>b. Inr (fst (os ! 0), b)))"
  have fail: "\<exists>g. advances env c g \<and> (Inl e, m) = g m" for e
    using advances_Inl [of env c "\<lambda>_. e"] by blast
  have ok: "\<exists>g. advances env c g \<and> stx_bind (each_block (texture_body env TA coords tx c lhs) [0..<n])
      (\<lambda>_. NextInstruction env c) m = g m" for tx lhs
    by (intro exI conjI, rule advances_bind, rule each_block_keeps, rule texture_body_still) (assumption | rule refl)+
  show "\<exists>g. advances env c g \<and> Inst_Texture TA coords env c n m = g m"
  proof (cases ?r)
    case (Inl e)
    then show ?thesis using fail unfolding Inst_Texture_def by (simp only: sum.case)
  next
    case (Inr p)
    obtain lhs b where p: "p = (lhs, b)" by (metis surj_pair)
    show ?thesis
    proof (cases b)
      case (B_x nm)
      show ?thesis using fail ok unfolding Inst_Texture_def Inr p B_x
        by (cases "cx_mpAttribs (ctx m c)") (simp_all only: sum.case prod.case Blk.case option.case)
    qed (use fail Inr p in \<open>simp_all only: Inst_Texture_def sum.case prod.case Blk.case\<close>)
  qed
qed

section \<open>The program counter\<close>

text \<open>
  \<open>S\<close> holds the places of a code where execution may stand: each is the end of the code or beyond
  it, or the start of an instruction whose successor, end address and jump targets are in \<open>S\<close> too.
\<close>

definition targets :: "CPUWord list \<Rightarrow> nat set \<Rightarrow> bool" where
  "targets code S \<longleftrightarrow>
     (\<forall>pc \<in> S. pc < length code \<longrightarrow> (\<exists>w. code ! pc = W_OpCode w \<and> pc + (oc_mOperandCount w + 1) \<in> S
        \<and> unat (oc_mFuncopEndAddr w) \<in> S))
     \<and> (\<forall>a. W_Address a \<in> set code \<longrightarrow> a \<in> S)"

definition pc_ok :: "nat set \<Rightarrow> nat \<Rightarrow> Machine \<Rightarrow> bool" where
  "pc_ok S c m \<longleftrightarrow> cx_mProgramCounter (ctx m c) \<in> S
     \<and> (il_mActLightIdx (cx_mIlluminanceCtx (ctx m c)) \<noteq> None \<longrightarrow> il_mBodyStartAddr (cx_mIlluminanceCtx (ctx m c)) \<in> S)"

lemma still_pc_ok: "still c m m' \<Longrightarrow> pc_ok S c m' = pc_ok S c m"
  unfolding pc_ok_def by (simp only: still_D)

lemma kept_code: "kept c m m' \<Longrightarrow> code_of env c m' = code_of env c m"
  by (simp add: keeps_def id_key_def code_of_def inst_of_def)

lemma GetOp_Inr: "GetOp env c k m = Inr w \<Longrightarrow> cx_mProgramCounter (ctx m c) + k < length (code_of env c m)
    \<and> w = code_of env c m ! (cx_mProgramCounter (ctx m c) + k)"
  by (simp add: GetOp_def Let_def split: if_splits)

lemma GetOpCode_Inr: "GetOpCode env c m = Inr w \<Longrightarrow> cx_mProgramCounter (ctx m c) < length (code_of env c m)
    \<and> code_of env c m ! cx_mProgramCounter (ctx m c) = W_OpCode w"
  using GetOp_Inr [of env c 0 m] by (auto simp: GetOpCode_def split: sum.splits CPUWord.splits)

lemma targets_at:
  assumes "targets (code_of env c m) S" and "cx_mProgramCounter (ctx m c) \<in> S" and "GetOpCode env c m = Inr w"
  shows "cx_mProgramCounter (ctx m c) + (oc_mOperandCount w + 1) \<in> S" and "unat (oc_mFuncopEndAddr w) \<in> S"
proof -
  let ?pc = "cx_mProgramCounter (ctx m c)"
  have pc: "?pc < length (code_of env c m)" "code_of env c m ! ?pc = W_OpCode w" using GetOpCode_Inr [OF assms(3)] by simp_all
  then obtain v where "code_of env c m ! ?pc = W_OpCode v" "?pc + (oc_mOperandCount v + 1) \<in> S" "unat (oc_mFuncopEndAddr v) \<in> S"
    using assms(1,2) unfolding targets_def by blast
  then show "?pc + (oc_mOperandCount w + 1) \<in> S" and "unat (oc_mFuncopEndAddr w) \<in> S" using pc(2) by simp_all
qed

text \<open>What an instruction may do, with the functions that run light shaders.\<close>

definition inst_spec :: "SvmEnv \<Rightarrow> nat \<Rightarrow> (nat \<Rightarrow> nat \<Rightarrow> Machine \<Rightarrow> (unit res \<times> Machine) option) \<Rightarrow> bool" where
  "inst_spec env c f \<longleftrightarrow> (\<forall>n m r m'. c < length (mc_ctxs m) \<longrightarrow> ctx_tree m \<longrightarrow> f c n m = Some (r, m') \<longrightarrow>
     kept c m m' \<and> (\<forall>S. targets (code_of env c m) S \<longrightarrow> pc_ok S c m \<longrightarrow> r = Inr () \<longrightarrow> pc_ok S c m'))"

definition moves :: "SvmEnv \<Rightarrow> nat \<Rightarrow> unit svm \<Rightarrow> bool" where
  "moves env c f \<longleftrightarrow> (\<forall>m r m'. c < length (mc_ctxs m) \<longrightarrow> f m = (r, m') \<longrightarrow>
     kept c m m' \<and> (\<forall>S. targets (code_of env c m) S \<longrightarrow> pc_ok S c m \<longrightarrow> r = Inr () \<longrightarrow> pc_ok S c m'))"

lemma NextInstruction_moves: "moves env c (NextInstruction env c)"
  unfolding moves_def
proof (intro allI impI)
  fix m r m' assume c: "c < length (mc_ctxs m)" and n: "NextInstruction env c m = (r, m')"
  show "kept c m m' \<and> (\<forall>S. targets (code_of env c m) S \<longrightarrow> pc_ok S c m \<longrightarrow> r = Inr () \<longrightarrow> pc_ok S c m')"
  proof (cases "GetOpCode env c m")
    case (Inl e)
    then show ?thesis using n by (simp add: NextInstruction_def)
  next
    case (Inr w)
    have m': "m' = upd c (\<lambda>x. x\<lparr>cx_mProgramCounter := cx_mProgramCounter x + (oc_mOperandCount w + 1)\<rparr>) m"
      using n Inr by (simp add: NextInstruction_def)
    then have "kept c m m'" by (simp add: upd_keeps id_key_def)
    moreover have "pc_ok S c m'" if "targets (code_of env c m) S" "pc_ok S c m" for S
      using that targets_at(1) [OF that(1) _ Inr] c m' by (simp add: pc_ok_def)
    ultimately show ?thesis by blast
  qed
qed

lemma kept_length: "keeps key c m m' \<Longrightarrow> length (mc_ctxs m) \<le> length (mc_ctxs m')"
  by (simp only: keeps_def)

lemma moves_bind:
  assumes "moves env c f" and "moves env c g"
  shows "moves env c (stx_bind f (\<lambda>_. g))"
  unfolding moves_def
proof (intro allI impI)
  fix m r m' assume c: "c < length (mc_ctxs m)" and e: "stx_bind f (\<lambda>_. g) m = (r, m')"
  obtain r1 m1 where 1: "f m = (r1, m1)" by fastforce
  have k1: "kept c m m1" and p1: "targets (code_of env c m) S \<Longrightarrow> pc_ok S c m \<Longrightarrow> r1 = Inr () \<Longrightarrow> pc_ok S c m1" for S
    using assms(1) c 1 unfolding moves_def by blast+
  show "kept c m m' \<and> (\<forall>S. targets (code_of env c m) S \<longrightarrow> pc_ok S c m \<longrightarrow> r = Inr () \<longrightarrow> pc_ok S c m')"
  proof (cases r1)
    case (Inl x)
    then show ?thesis using e 1 k1 by auto
  next
    case (Inr u)
    then have g: "g m1 = (r, m')" using e 1 by simp
    have c1: "c < length (mc_ctxs m1)" using c kept_length [OF k1] by simp
    have "kept c m1 m' \<and> (\<forall>S. targets (code_of env c m1) S \<longrightarrow> pc_ok S c m1 \<longrightarrow> r = Inr () \<longrightarrow> pc_ok S c m')"
      using assms(2) c1 g unfolding moves_def by blast
    then have k2: "kept c m1 m'" and p2: "targets (code_of env c m) S \<Longrightarrow> pc_ok S c m1 \<Longrightarrow> r = Inr () \<Longrightarrow> pc_ok S c m'" for S
      unfolding kept_code [OF k1] by blast+
    have "kept c m m'" using k1 k2 by (rule keeps_trans)
    then show ?thesis using p1 p2 Inr by auto
  qed
qed

lemma advances_moves: "advances env c f \<Longrightarrow> moves env c f"
  unfolding moves_def
proof (intro allI impI)
  fix m r m' assume a: "advances env c f" and c: "c < length (mc_ctxs m)" and e: "f m = (r, m')"
  obtain m1 where 1: "still c m m1" "(\<exists>e. r = Inl e \<and> m' = m1) \<or> NextInstruction env c m1 = (r, m')"
    using a e unfolding advances_def by blast
  have k: "kept c m m1" using 1(1) by (rule still_kept)
  have c1: "c < length (mc_ctxs m1)" using c kept_length [OF k] by simp
  show "kept c m m' \<and> (\<forall>S. targets (code_of env c m) S \<longrightarrow> pc_ok S c m \<longrightarrow> r = Inr () \<longrightarrow> pc_ok S c m')"
    using 1(2)
  proof
    assume "\<exists>e. r = Inl e \<and> m' = m1"
    then show ?thesis using k by auto
  next
    assume "NextInstruction env c m1 = (r, m')"
    then have "kept c m1 m' \<and> (\<forall>S. targets (code_of env c m) S \<longrightarrow> pc_ok S c m \<longrightarrow> r = Inr () \<longrightarrow> pc_ok S c m')"
      using NextInstruction_moves [of env c] c1 unfolding moves_def kept_code [OF k, symmetric] still_pc_ok [OF 1(1), symmetric] by blast
    then show ?thesis using k keeps_trans by blast
  qed
qed

lemma moves_Inl: "moves env c (\<lambda>m. (Inl (e m), m))"
  by (simp add: moves_def)

lemma moves_at: "(\<And>m. \<exists>g. moves env c g \<and> f m = g m) \<Longrightarrow> moves env c f"
  unfolding moves_def by metis

lemma pure_spec: "(\<And>n. moves env c (f c n)) \<Longrightarrow> inst_spec env c (\<lambda>c n m. Some (f c n m))"
  unfolding inst_spec_def moves_def by blast

section \<open>Constructs and jumps\<close>

lemma still_moves: "(\<And>m r m'. f m = (r, m') \<Longrightarrow> still c m m') \<Longrightarrow> moves env c f"
  unfolding moves_def using still_kept still_pc_ok by blast

lemma pc_ok_upd:
  assumes "\<And>x. cx_mProgramCounter (f x) = cx_mProgramCounter x" and "\<And>x. cx_mIlluminanceCtx (f x) = cx_mIlluminanceCtx x"
    and "c < length (mc_ctxs m)"
  shows "pc_ok S c (upd c f m) = pc_ok S c m"
  unfolding pc_ok_def upd_same [OF assms(3)] assms(1,2) by (rule refl)

lemma fop_push_moves: "moves env c (fop_push c flg)"
  unfolding moves_def
proof (intro allI impI)
  fix m r m' assume c: "c < length (mc_ctxs m)" and e: "fop_push c flg m = (r, m')"
  let ?m = "upd c (\<lambda>x. x\<lparr>cx_mFopStack := cx_mFopStack x @ [flg]\<rparr>) m"
  have "kept c m ?m" by (rule upd_keeps) (simp_all add: id_key_def)
  moreover have "pc_ok S c ?m = pc_ok S c m" for S by (rule pc_ok_upd) (simp_all add: c)
  moreover have "m' = m \<or> m' = ?m" using e by (auto simp: fop_push_def split: if_splits)
  ultimately show "kept c m m' \<and> (\<forall>S. targets (code_of env c m) S \<longrightarrow> pc_ok S c m \<longrightarrow> r = Inr () \<longrightarrow> pc_ok S c m')"
    by auto
qed

lemma fop_pop_moves: "moves env c (fop_pop c)"
  unfolding moves_def
proof (intro allI impI)
  fix m r m' assume c: "c < length (mc_ctxs m)" and e: "fop_pop c m = (r, m')"
  let ?m = "upd c (\<lambda>x. x\<lparr>cx_mFopStack := butlast (cx_mFopStack x)\<rparr>) m"
  have "kept c m ?m" by (rule upd_keeps) (simp_all add: id_key_def)
  moreover have "pc_ok S c ?m = pc_ok S c m" for S by (rule pc_ok_upd) (simp_all add: c)
  moreover have "m' = m \<or> m' = ?m" using e by (auto simp: fop_pop_def split: if_splits)
  ultimately show "kept c m m' \<and> (\<forall>S. targets (code_of env c m) S \<longrightarrow> pc_ok S c m \<longrightarrow> r = Inr () \<longrightarrow> pc_ok S c m')"
    by auto
qed

lemma goto_then:
  assumes "moves env c h" and c: "c < length (mc_ctxs m)" and e: "stx_bind (GotoInstruction c addr) (\<lambda>_. h) m = (r, m')"
    and a: "\<And>S. targets (code_of env c m) S \<Longrightarrow> pc_ok S c m \<Longrightarrow> addr \<in> S"
  shows "kept c m m' \<and> (\<forall>S. targets (code_of env c m) S \<longrightarrow> pc_ok S c m \<longrightarrow> r = Inr () \<longrightarrow> pc_ok S c m')"
proof -
  let ?m = "upd c (\<lambda>x. x\<lparr>cx_mProgramCounter := addr\<rparr>) m"
  have g: "GotoInstruction c addr m = (Inr (), ?m)" by (simp add: GotoInstruction_def)
  then have h: "h ?m = (r, m')" using e by simp
  have k: "kept c m ?m" by (rule upd_keeps) (simp_all add: id_key_def)
  have p: "targets (code_of env c m) S \<Longrightarrow> pc_ok S c m \<Longrightarrow> pc_ok S c ?m" for S using a c by (simp add: pc_ok_def)
  have "kept c ?m m' \<and> (\<forall>S. targets (code_of env c m) S \<longrightarrow> pc_ok S c ?m \<longrightarrow> r = Inr () \<longrightarrow> pc_ok S c m')"
    using assms(1) c h unfolding moves_def kept_code [OF k, symmetric] by (metis upd_length)
  then show ?thesis using k p keeps_trans by blast
qed

lemma goto_moves: "moves env c (\<lambda>m. (Inr (), m))"
  by (simp add: moves_def)

lemma funcop_end_Inr:
  assumes "funcop_end env c m = Inr addr" and "targets (code_of env c m) S" and "pc_ok S c m"
  shows "addr \<in> S"
  using assms targets_at(2) unfolding funcop_end_def pc_ok_def by (auto simp: res_bind_eq_Inr)

lemma with_end_moves:
  assumes "moves env c h"
  shows "moves env c (with_funcop_end env c (\<lambda>addr. stx_bind (GotoInstruction c addr) (\<lambda>_. h)))"
  unfolding moves_def
proof (intro allI impI)
  fix m r m' assume c: "c < length (mc_ctxs m)"
    and e: "with_funcop_end env c (\<lambda>addr. stx_bind (GotoInstruction c addr) (\<lambda>_. h)) m = (r, m')"
  show "kept c m m' \<and> (\<forall>S. targets (code_of env c m) S \<longrightarrow> pc_ok S c m \<longrightarrow> r = Inr () \<longrightarrow> pc_ok S c m')"
  proof (cases "funcop_end env c m")
    case (Inl x)
    then show ?thesis using e by (auto simp: with_funcop_end_def)
  next
    case (Inr addr)
    then have "stx_bind (GotoInstruction c addr) (\<lambda>_. h) m = (r, m')" using e by (simp add: with_funcop_end_def)
    then show ?thesis using goto_then [OF assms c] funcop_end_Inr [OF Inr] by blast
  qed
qed

lemma if_true_moves: "moves env c (Inst_IfTrue env c n)"
proof (rule moves_at)
  fix m
  have fail: "\<exists>g. moves env c g \<and> (Inl e, m) = g m" for e
    using moves_Inl [of env c "\<lambda>_. e"] by blast
  have a: "\<exists>g. moves env c g \<and> stx_bind (fop_push c flg) (\<lambda>_. NextInstruction env c) m = g m" for flg
    using moves_bind [OF fop_push_moves NextInstruction_moves] by blast
  have b: "\<exists>g. moves env c g \<and>
      with_funcop_end env c (\<lambda>addr. stx_bind (GotoInstruction c addr) (\<lambda>_. fop_push c FLG_IFTRUE)) m = g m"
    using with_end_moves [OF fop_push_moves] by blast
  show "\<exists>g. moves env c g \<and> Inst_IfTrue env c n m = g m"
  proof (cases "operand env c m 1")
    case (Inr p)
    obtain off v where p: "p = (off, v)" by fastforce
    show ?thesis
    proof (cases "read_reg RT_B c m off 0")
      case (Inl e)
      then show ?thesis using fail a Inr p by (simp add: Inst_IfTrue_def)
    next
      case (Inr bl)
      show ?thesis using fail a b \<open>operand env c m 1 = Inr p\<close> p Inr by (cases bl) (simp_all add: Inst_IfTrue_def)
    qed
  qed (use fail in \<open>simp add: Inst_IfTrue_def\<close>)
qed

lemma or_else_moves: "moves env c (Inst_OrElse env c n)"
proof (rule moves_at)
  fix m
  show "\<exists>g. moves env c g \<and> Inst_OrElse env c n m = g m"
  proof (cases "fop_top c m")
    case (Inl e)
    then show ?thesis using moves_Inl [of env c "\<lambda>_. e"] by (auto simp: Inst_OrElse_def)
  next
    case (Inr flgs)
    let ?g = "stx_bind (fop_pop c) (\<lambda>_.
            if flgs AND FLG_IFTRUE_VARY \<noteq> 0 then stx_bind (fop_push c FLG_ORELSE) (\<lambda>_. NextInstruction env c)
            else if flgs AND FLG_IFTRUE_TRUE \<noteq> 0
            then with_funcop_end env c (\<lambda>addr. stx_bind (GotoInstruction c addr) (\<lambda>_. NextInstruction env c))
            else stx_bind (fop_push c FLG_ORELSE) (\<lambda>_. NextInstruction env c))"
    have "moves env c ?g"
      using fop_push_moves NextInstruction_moves by (intro moves_bind fop_pop_moves) (simp add: moves_bind with_end_moves)
    then show ?thesis using Inr by (auto simp: Inst_OrElse_def)
  qed
qed

lemma jump_moves:
  "moves env c (\<lambda>s. case GetOp env c k s of Inr (W_Address addr) \<Rightarrow> GotoInstruction c addr s | _ \<Rightarrow> (Inl bad_access, s))"
  unfolding moves_def
proof (intro allI impI)
  fix m r m' assume c: "c < length (mc_ctxs m)"
    and e: "(case GetOp env c k m of Inr (W_Address addr) \<Rightarrow> GotoInstruction c addr m | _ \<Rightarrow> (Inl bad_access, m)) = (r, m')"
  show "kept c m m' \<and> (\<forall>S. targets (code_of env c m) S \<longrightarrow> pc_ok S c m \<longrightarrow> r = Inr () \<longrightarrow> pc_ok S c m')"
  proof (cases "\<exists>addr. GetOp env c k m = Inr (W_Address addr)")
    case True
    then obtain addr where a: "GetOp env c k m = Inr (W_Address addr)" ..
    then have "W_Address addr \<in> set (code_of env c m)" using GetOp_Inr [OF a] by (metis nth_mem)
    moreover have "stx_bind (GotoInstruction c addr) (\<lambda>_ m. (Inr (), m)) m = (r, m')"
      using e a by (auto simp: GotoInstruction_def stx_bind_def)
    ultimately show ?thesis using goto_then [OF goto_moves c, of addr r m' env] unfolding targets_def by blast
  next
    case False
    then show ?thesis using e by (auto split: sum.splits CPUWord.splits)
  qed
qed

lemma cmplt_moves: "moves env c (Inst_CMPLT env c n)"
proof (rule moves_at)
  fix m
  have fail: "\<exists>g. moves env c g \<and> (Inl e, m) = g m" for e
    using moves_Inl [of env c "\<lambda>_. e"] by blast
  have nx: "\<exists>g. moves env c g \<and> NextInstruction env c m = g m"
    using NextInstruction_moves by blast
  have jump: "\<exists>g. moves env c g \<and> GotoInstruction c addr m = g m" if "GetOp env c 3 m = Inr (W_Address addr)" for addr
  proof -
    let ?g = "\<lambda>s. case GetOp env c 3 s of Inr (W_Address addr) \<Rightarrow> GotoInstruction c addr s | _ \<Rightarrow> (Inl bad_access, s)"
    have "moves env c ?g" by (rule jump_moves)
    moreover have "GotoInstruction c addr m = ?g m" using that by simp
    ultimately show ?thesis by blast
  qed
  show "\<exists>g. moves env c g \<and> Inst_CMPLT env c n m = g m"
  proof (cases "res_map (\<lambda>k. res_bind (operand env c m k) (\<lambda>(off, _). read_reg RT_S c m off 0)) [1, 2]")
    case (Inl e)
    then show ?thesis using fail unfolding Inst_CMPLT_def by (simp only: sum.case)
  next
    case (Inr bs)
    then obtain x y where bs: "bs = [x, y]" by (auto simp: res_bind_eq_Inr)
    show ?thesis
    proof (cases "\<exists>a b. x = B_s a \<and> y = B_s b")
      case True
      then obtain a b where ab: "x = B_s a" "y = B_s b" by blast
      have I: "Inst_CMPLT env c n m = (if a ! 0 < b ! 0 then
          (case GetOp env c 3 m of Inr (W_Address addr) \<Rightarrow> GotoInstruction c addr m | _ \<Rightarrow> (Inl bad_access, m))
        else NextInstruction env c m)"
        unfolding Inst_CMPLT_def Inr bs ab by (simp only: sum.case list.case Blk.case)
      show ?thesis unfolding I using fail nx jump by (auto split: sum.splits CPUWord.splits)
    next
      case False
      then have "Inst_CMPLT env c n m = (Inl bad_access, m)"
        unfolding Inst_CMPLT_def Inr bs by (cases x; cases y) simp_all
      then show ?thesis using fail by simp
    qed
  qed
qed

lemma solar_moves: "moves env c (Inst_Solar axis env c n)"
proof (rule moves_at)
  fix m
  show "\<exists>g. moves env c g \<and> Inst_Solar axis env c n m = g m"
  proof (cases "IsInFuncop c m")
    case True
    then show ?thesis using moves_Inl [of env c "\<lambda>_. AssThrow ''Nested funcop ?!''"] by (auto simp: Inst_Solar_def)
  next
    case False
    show ?thesis
    proof (cases "grid_sym env ''L''")
      case (Inl e)
      then show ?thesis using False moves_Inl [of env c "\<lambda>_. e"] by (auto simp: Inst_Solar_def)
    next
      case (Inr p)
      obtain gL v where p: "p = (gL, v)" by fastforce
      let ?b = "\<lambda>i m. case (if axis then
                      res_bind (operand env c m 1) (\<lambda>a. res_bind (read_reg RT_V c m (fst a) 0) (\<lambda>b.
                        case b of B_v v \<Rightarrow> map_lanes (\<lambda>x. res_bind (normalized x) (\<lambda>n. Inr (Vec3_neg n))) v
                          | _ \<Rightarrow> Inl bad_access))
                    else Inr (B_v (Vec3_splat (splat 0)))) of
                Inl e \<Rightarrow> (Inl e, m)
              | Inr b \<Rightarrow> put_grid gL i b m"
      have "still c m m'" if "?b i m = (r, m')" for i m r m'
        using that same_ctxs_keeps [OF put_grid_ctxs] by (auto split: sum.splits)
      then have "moves env c (each_block ?b xs)" for xs
        by (intro still_moves) (rule each_block_keeps, blast)
      then have "moves env c (stx_bind (each_block ?b [0..<if v then cx_mBlocksN (ctx m c) else 1])
            (\<lambda>_. stx_bind (fop_push c FLG_SOLAR) (\<lambda>_. NextInstruction env c)))"
        by (intro moves_bind fop_push_moves NextInstruction_moves)
      then show ?thesis using False Inr p unfolding Inst_Solar_def by (auto simp: Let_def)
    qed
  qed
qed

lemma illuminance_moves: "moves env c (Inst_Illuminance axis env c n)"
  unfolding moves_def
proof (intro allI impI)
  fix m r m' assume c: "c < length (mc_ctxs m)" and e: "Inst_Illuminance axis env c n m = (r, m')"
  show "kept c m m' \<and> (\<forall>S. targets (code_of env c m) S \<longrightarrow> pc_ok S c m \<longrightarrow> r = Inr () \<longrightarrow> pc_ok S c m')"
  proof (cases "m' = m \<and> r \<noteq> Inr ()")
    case False
    have f: "\<not> IsInFuncop c m" using e False by (auto simp: Inst_Illuminance_def)
    then obtain addr ls where al: "funcop_end env c m = Inr addr" and
      "res_bind (funcop_end env c m) (\<lambda>addr. res_bind (active_lights env c m) (\<lambda>al. Inr (addr, snd al))) = Inr (addr, ls)"
      using e False by (fastforce simp: Inst_Illuminance_def res_bind_eq_Inr split: sum.splits)
    note al = this
    show ?thesis
    proof (cases "ls = []")
      case True
      then have "stx_bind (GotoInstruction c addr) (\<lambda>_. NextInstruction env c) m = (r, m')"
        using e f al(2) unfolding Inst_Illuminance_def by simp
      then show ?thesis using goto_then [OF NextInstruction_moves c] funcop_end_Inr [OF al(1)] by blast
    next
      case False
      let ?il = "\<lambda>x. x\<lparr>cx_mIlluminanceCtx := \<lparr>il_mBodyStartAddr = cx_mProgramCounter x, il_mActLightIdx = Some 0,
          il_mActLightsN = length ls\<rparr>\<rparr>"
      have e2: "stx_bind (NextInstruction env c) (\<lambda>_ m.
          stx_bind (GotoInstruction c addr) (\<lambda>_. fop_push c FLG_ILLUMINANCE) (upd c ?il m)) m = (r, m')"
        using e f al(2) False \<open>\<not> (m' = m \<and> r \<noteq> Inr ())\<close> unfolding Inst_Illuminance_def
        by (auto simp: Let_def split: sum.splits)
      obtain r1 m1 where 1: "NextInstruction env c m = (r1, m1)" by fastforce
      have s1: "kept c m m1" and p1: "targets (code_of env c m) S \<Longrightarrow> pc_ok S c m \<Longrightarrow> r1 = Inr () \<Longrightarrow> pc_ok S c m1" for S
        using NextInstruction_moves [of env c] c 1 unfolding moves_def by blast+
      have c1: "c < length (mc_ctxs m1)" using c kept_length [OF s1] by simp
      show ?thesis
      proof (cases r1)
        case (Inl x)
        then show ?thesis using e2 1 s1 by auto
      next
        case (Inr u)
        let ?m2 = "upd c ?il m1"
        have g: "stx_bind (GotoInstruction c addr) (\<lambda>_. fop_push c FLG_ILLUMINANCE) ?m2 = (r, m')" using e2 1 Inr by simp
        have k2: "kept c m1 ?m2" by (rule upd_keeps) (simp_all add: id_key_def)
        have k: "kept c m ?m2" using s1 k2 by (rule keeps_trans)
        have p2: "targets (code_of env c m) S \<Longrightarrow> pc_ok S c m \<Longrightarrow> pc_ok S c ?m2 \<and> addr \<in> S" for S
          using p1 [of S] Inr c1 funcop_end_Inr [OF al(1)] by (simp add: pc_ok_def)
        let ?m3 = "upd c (\<lambda>x. x\<lparr>cx_mProgramCounter := addr\<rparr>) ?m2"
        have h: "fop_push c FLG_ILLUMINANCE ?m3 = (r, m')" using g by (simp add: GotoInstruction_def stx_bind_def)
        have k3: "kept c ?m2 ?m3" by (rule upd_keeps) (simp_all add: id_key_def)
        have kk: "kept c m ?m3" using k k3 by (rule keeps_trans)
        have p3: "targets (code_of env c m) S \<Longrightarrow> pc_ok S c m \<Longrightarrow> pc_ok S c ?m3" for S
          using p2 [of S] c1 by (simp add: pc_ok_def)
        have c3: "c < length (mc_ctxs ?m3)" using c1 by simp
        have "kept c ?m3 m' \<and> (\<forall>S. targets (code_of env c ?m3) S \<longrightarrow> pc_ok S c ?m3 \<longrightarrow> r = Inr () \<longrightarrow> pc_ok S c m')"
          using fop_push_moves [of env c FLG_ILLUMINANCE] h c3 unfolding moves_def by blast
        then show ?thesis using kk p3 keeps_trans unfolding kept_code [OF kk] by blast
      qed
    qed
  qed simp
qed

section \<open>Light shaders\<close>

text \<open>A run of a context changes no context before it.\<close>

definition good_run :: "svm_run \<Rightarrow> bool" where
  "good_run run \<longleftrightarrow> (\<forall>lc m r m'. lc < length (mc_ctxs m) \<longrightarrow> ctx_tree m \<longrightarrow> run lc m = Some (r, m') \<longrightarrow>
     kept lc m m' \<and> ctx_tree m')"

abbreviation later :: "nat \<Rightarrow> Machine \<Rightarrow> Machine \<Rightarrow> bool" where
  "later \<equiv> keeps (\<lambda>_. ())"

lemma keeps_later: "keeps key c m m' \<Longrightarrow> later c m m'"
  unfolding keeps_def by simp

lemma later_still: "later lc m m' \<Longrightarrow> c < lc \<Longrightarrow> still c m m'"
  unfolding keeps_def by simp

lemma keeps_tree: "keeps key c m m' \<Longrightarrow> ctx_tree m \<Longrightarrow> ctx_tree m'"
  by (simp only: keeps_def)

text \<open>The lights of a context are forgotten.\<close>

lemma upd_drop_lights:
  assumes "\<And>x. cx_mpActLightsCtxs (f x) = []"
  shows "later c m (upd c f m)"
proof (cases "c < length (mc_ctxs m)")
  case True
  have "ctx_tree (upd c f m)" if t: "ctx_tree m"
    unfolding ctx_tree_def upd_length
  proof (intro allI impI ballI)
    fix j l assume j: "j < length (mc_ctxs m)" and l: "l \<in> set (cx_mpActLightsCtxs (ctx (upd c f m) j))"
    then have "j \<noteq> c" using assms True by auto
    then have "l \<in> set (cx_mpActLightsCtxs (ctx m j))" using l by simp
    then show "j < l \<and> l < length (mc_ctxs m)" using t j unfolding ctx_tree_def by blast
  qed
  then show ?thesis unfolding keeps_def by simp
qed (simp add: upd_outside)

lemma setup_later:
  assumes "SetupIfChanged env lc a inst xb yn m = (r, m')"
  shows "later lc m m'"
proof -
  let ?m1 = "upd lc (\<lambda>x. x\<lparr>cx_mBlocksXN := xb, cx_mPointsYN := yn\<rparr>) m"
  let ?m2 = "upd lc (\<lambda>x. x\<lparr>cx_mpDataSegment := None, cx_mpActLightsCtxs := [], cx_mAmbientColDone := False,
                  cx_mpShaderInst := Some inst, cx_mpAttribs := Some a, cx_mDefParamValsStartPCs := []\<rparr>) ?m1"
  have 1: "later lc m ?m1" by (rule upd_keeps) simp_all
  have "later lc ?m1 ?m2" by (rule upd_drop_lights) simp
  then have 2: "later lc m ?m2" by (rule keeps_trans [OF 1])
  have 3: "later lc m (upd lc (\<lambda>x. x\<lparr>cx_mpDataSegment := Some ds, cx_mDefParamValsStartPCs := pcs\<rparr>) ?m2)" for ds pcs
    by (rule keeps_trans [OF 2], rule upd_keeps) simp_all
  show ?thesis
  proof (cases "cx_mpAttribs (ctx ?m1 lc) \<noteq> Some a \<or> cx_mpShaderInst (ctx ?m1 lc) \<noteq> Some inst")
    case False
    then have "m' = ?m1" using assms unfolding SetupIfChanged_def Let_def by simp
    then show ?thesis using 1 by simp
  next
    case True
    show ?thesis
    proof (cases "inst < length (ev_insts env)")
      case True
      then show ?thesis
        using assms \<open>cx_mpAttribs (ctx ?m1 lc) \<noteq> Some a \<or> cx_mpShaderInst (ctx ?m1 lc) \<noteq> Some inst\<close> 2 3
        unfolding SetupIfChanged_def Let_def by (cases "Bind env (ev_insts env ! inst)") auto
    next
      case f: False
      then have "m' = ?m2" using assms True unfolding SetupIfChanged_def Let_def by auto
      then show ?thesis using 2 by simp
    qed
  qed
qed

lemma check_init_still:
  assumes c: "c < length (mc_ctxs m)"
  shows "still c m (ActLightsCtxs_CheckInit env c m)"
proof (cases "cx_mpActLightsCtxs (ctx m c) \<noteq> []")
  case False
  let ?k = "length (mc_ctxs m)"
  obtain n where m': "ActLightsCtxs_CheckInit env c m =
      upd c (\<lambda>x. x\<lparr>cx_mpActLightsCtxs := [?k..<?k + n]\<rparr>) (m\<lparr>mc_ctxs := mc_ctxs m @ replicate n Context_new\<rparr>)"
    using False unfolding ActLightsCtxs_CheckInit_def Let_def by auto
  let ?n = "m\<lparr>mc_ctxs := mc_ctxs m @ replicate n Context_new\<rparr>"
  let ?u = "upd c (\<lambda>x. x\<lparr>cx_mpActLightsCtxs := [?k..<?k + n]\<rparr>) ?n"
  have nc: "c < length (mc_ctxs ?n)" using c by simp
  have old: "ctx ?n j = ctx m j" if "j < ?k" for j using that by (simp add: nth_append)
  have new: "ctx ?n j = Context_new" if "?k \<le> j" "j < ?k + n" for j using that by (simp add: nth_append)
  have "ctx_tree ?u" if t: "ctx_tree m"
    unfolding ctx_tree_def upd_length
  proof (intro allI impI ballI)
    fix j l assume j: "j < length (mc_ctxs ?n)" and l: "l \<in> set (cx_mpActLightsCtxs (ctx ?u j))"
    show "j < l \<and> l < length (mc_ctxs ?n)"
    proof (cases "j = c")
      case True
      then have "l \<in> set [?k..<?k + n]" using l upd_same [OF nc] by simp
      then show ?thesis using True c by auto
    next
      case False
      then have l2: "l \<in> set (cx_mpActLightsCtxs (ctx ?n j))" using l by simp
      show ?thesis
      proof (cases "j < ?k")
        case True
        then have "l \<in> set (cx_mpActLightsCtxs (ctx m j))" using l2 old by simp
        then have "j < l \<and> l < ?k" using t True unfolding ctx_tree_def by blast
        then show ?thesis by simp
      next
        case False
        then have "ctx ?n j = Context_new" using new j by simp
        then show ?thesis using l2 by (simp add: Context_new_def)
      qed
    qed
  qed
  moreover have "ctx ?u j = ctx m j" if "j < c" for j using that c old by simp
  moreover have "ctl_key (ctx ?u c) = ctl_key (ctx m c)" using c nc old by (simp add: ctl_key_def)
  moreover have "length (mc_ctxs m) \<le> length (mc_ctxs ?u)" by simp
  ultimately show ?thesis unfolding keeps_def m' by blast
qed (simp add: ActLightsCtxs_CheckInit_def)

lemma run_light_still:
  assumes "good_run run" and c: "c < length (mc_ctxs m)" and t: "ctx_tree m" and e: "run_light env run c a i inst m = Some (r, m')"
  shows "still c m m'"
proof -
  let ?m1 = "ActLightsCtxs_CheckInit env c m"
  have 1: "still c m ?m1" using c by (rule check_init_still)
  have t1: "ctx_tree ?m1" and c1: "c < length (mc_ctxs ?m1)" using keeps_tree [OF 1 t] kept_length [OF 1] c by simp_all
  show ?thesis
  proof (cases "i < length (cx_mpActLightsCtxs (ctx ?m1 c))")
    case False
    then have "m' = ?m1" using e unfolding run_light_def Let_def by simp
    then show ?thesis using 1 by simp
  next
    case True
    let ?lc = "cx_mpActLightsCtxs (ctx ?m1 c) ! i"
    have lc: "c < ?lc" "?lc < length (mc_ctxs ?m1)" using t1 c1 nth_mem [OF True] unfolding ctx_tree_def by blast+
    obtain r2 m2 where 2: "SetupIfChanged env ?lc a inst (cx_mBlocksXN (ctx ?m1 c)) (cx_mPointsYN (ctx ?m1 c)) ?m1 = (r2, m2)"
      by fastforce
    have l2: "later ?lc ?m1 m2" using 2 by (rule setup_later)
    have s2: "still c m m2" using keeps_trans [OF 1 later_still [OF l2 lc(1)]] .
    show ?thesis
    proof (cases r2)
      case (Inl x)
      then have "m' = m2" using e 2 True unfolding run_light_def Let_def by simp
      then show ?thesis using s2 by simp
    next
      case (Inr u)
      then have run: "run ?lc m2 = Some (r, m')" using e 2 True unfolding run_light_def Let_def by simp
      have "kept ?lc m2 m'"
        using assms(1) run keeps_tree [OF l2 t1] kept_length [OF l2] lc(2) unfolding good_run_def by (meson less_le_trans)
      then show ?thesis using s2 later_still [OF keeps_later lc(1)] keeps_trans by blast
    qed
  qed
qed

lemma ambient_lights_still:
  assumes g: "good_run run"
  shows "ambient_lights env run c a gCl ls col m = Some (r, m') \<Longrightarrow> c < length (mc_ctxs m) \<Longrightarrow> ctx_tree m \<Longrightarrow> still c m m'"
proof (induction ls arbitrary: col m)
  case (Cons l ls)
  obtain i amb inst where l: "l = (i, amb, inst)" by (metis prod.exhaust)
  show ?case
  proof (cases amb)
    case False
    then show ?thesis using Cons l by simp
  next
    case True
    then obtain r1 m1 where 1: "run_light env run c a i inst m = Some (r1, m1)"
      using Cons.prems(1) l by (cases "run_light env run c a i inst m") auto
    have s1: "still c m m1" by (rule run_light_still [OF g Cons.prems(2,3) 1])
    show ?thesis
    proof (cases r1)
      case (Inl e)
      then show ?thesis using Cons.prems(1) l True 1 s1 by simp
    next
      case (Inr u)
      then have e: "(case read_grid RT_V m1 gCl 0 of
             Inr (B_v v) \<Rightarrow> ambient_lights env run c a gCl ls (add_blocks col v) m1
           | Inl e \<Rightarrow> Some (Inl e, m1)
           | _ \<Rightarrow> Some (Inl bad_access, m1)) = Some (r, m')" using Cons.prems(1) l True 1 by simp
      show ?thesis
      proof (cases "\<exists>v. read_grid RT_V m1 gCl 0 = Inr (B_v v)")
        case True
        then obtain v where "read_grid RT_V m1 gCl 0 = Inr (B_v v)" ..
        then have "ambient_lights env run c a gCl ls (add_blocks col v) m1 = Some (r, m')" using e by simp
        then have "still c m1 m'"
          using Cons.IH kept_length [OF s1] Cons.prems(2) keeps_tree [OF s1 Cons.prems(3)] by simp
        then show ?thesis by (rule keeps_trans [OF s1])
      next
        case False
        then have "m' = m1" using e by (auto split: sum.splits Blk.splits)
        then show ?thesis using s1 by simp
      qed
    qed
  qed
qed simp

lemma ambient_colour_still:
  assumes g: "good_run run" and e: "ambient_colour env run c m = Some (r, m')" and c: "c < length (mc_ctxs m)" and t: "ctx_tree m"
  shows "still c m m'"
proof (cases "cx_mAmbientColDone (ctx m c)")
  case True
  then show ?thesis using e by (simp add: ambient_colour_def)
next
  case False
  let ?m1 = "upd c (\<lambda>x. x\<lparr>cx_mAmbientColDone := True\<rparr>) m"
  let ?m2 = "ActLightsCtxs_CheckInit env c ?m1"
  have 1: "still c m ?m1" by (rule upd_keeps) (simp_all add: ctl_key_def)
  have c1: "c < length (mc_ctxs ?m1)" using c by simp
  have 2: "still c m ?m2" by (rule keeps_trans [OF 1 check_init_still [OF c1]])
  have c2: "c < length (mc_ctxs ?m2)" and t2: "ctx_tree ?m2" using kept_length [OF 2] c keeps_tree [OF 2 t] by simp_all
  let ?r = "res_bind (grid_sym env ''Cl'') (\<lambda>g. res_bind (active_lights env c ?m1) (\<lambda>al. Inr (fst g, al)))"
  show ?thesis
  proof (cases ?r)
    case (Inl x)
    then have "m' = ?m1" using e False unfolding ambient_colour_def Let_def by simp
    then show ?thesis using 1 by simp
  next
    case (Inr p)
    obtain gCl a ls where p: "p = (gCl, a, ls)" by (metis prod.exhaust)
    let ?al = "ambient_lights env run c a gCl (zip [0..<length ls] ls) (Vec3_splat (splat 0)) ?m2"
    have e2: "(case ?al of None \<Rightarrow> None | Some (Inl e, m') \<Rightarrow> Some (Inl e, m')
             | Some (Inr col, m') \<Rightarrow> Some (Inr (), upd c (\<lambda>x. x\<lparr>cx_mAmbientCol := col\<rparr>) m')) = Some (r, m')"
      using e False Inr p unfolding ambient_colour_def Let_def by simp
    then obtain r3 m3 where 3: "?al = Some (r3, m3)" by (cases ?al) auto
    have s3: "still c m m3" by (rule keeps_trans [OF 2 ambient_lights_still [OF g 3 c2 t2]])
    show ?thesis
    proof (cases r3)
      case (Inl x)
      then show ?thesis using e2 3 s3 by simp
    next
      case (Inr col)
      then have m': "m' = upd c (\<lambda>x. x\<lparr>cx_mAmbientCol := col\<rparr>) m3" using e2 3 by simp
      show ?thesis unfolding m' by (rule keeps_trans [OF s3], rule upd_keeps) (simp_all add: ctl_key_def)
    qed
  qed
qed

text \<open>A part that stands still, and then an instruction that moves.\<close>

lemma still_then:
  assumes s: "still c m m1" and c: "c < length (mc_ctxs m)" and g: "moves env c g" "g m1 = (r, m')"
  shows "kept c m m' \<and> (\<forall>S. targets (code_of env c m) S \<longrightarrow> pc_ok S c m \<longrightarrow> r = Inr () \<longrightarrow> pc_ok S c m')"
proof -
  have k: "kept c m m1" using s by (rule still_kept)
  have "kept c m1 m' \<and> (\<forall>S. targets (code_of env c m1) S \<longrightarrow> pc_ok S c m1 \<longrightarrow> r = Inr () \<longrightarrow> pc_ok S c m')"
    using g less_le_trans [OF c kept_length [OF k]] unfolding moves_def by blast
  then show ?thesis using keeps_trans [OF k] unfolding kept_code [OF k] still_pc_ok [OF s] by blast
qed

lemma ambient_spec: "good_run run \<Longrightarrow> inst_spec env c (Inst_Ambient env run)"
  unfolding inst_spec_def
proof (intro allI impI)
  fix n m r m'
  assume g: "good_run run" and c: "c < length (mc_ctxs m)" and t: "ctx_tree m" and e: "Inst_Ambient env run c n m = Some (r, m')"
  obtain r1 m1 where 1: "ambient_colour env run c m = Some (r1, m1)"
    using e unfolding Inst_Ambient_def by (cases "ambient_colour env run c m") auto
  have s: "still c m m1" by (rule ambient_colour_still [OF g 1 c t])
  show "kept c m m' \<and> (\<forall>S. targets (code_of env c m) S \<longrightarrow> pc_ok S c m \<longrightarrow> r = Inr () \<longrightarrow> pc_ok S c m')"
  proof (cases r1)
    case (Inl x)
    then show ?thesis using e 1 still_kept [OF s] unfolding Inst_Ambient_def by auto
  next
    case (Inr u)
    then have "block_loop env RT_V [] (\<lambda>m _ _. Inr (B_v (cx_mAmbientCol (ctx m c)))) c n m1 = (r, m')"
      using e 1 unfolding Inst_Ambient_def by simp
    then show ?thesis by (rule still_then [OF s c advances_moves [OF block_loop_advances]])
  qed
qed

lemma upd_idx_pc_ok:
  assumes "il_mActLightIdx (cx_mIlluminanceCtx (ctx m c)) \<noteq> None \<or> v = None" and "c < length (mc_ctxs m)" and "pc_ok S c m"
  shows "pc_ok S c (upd c (\<lambda>x. x\<lparr>cx_mIlluminanceCtx := (cx_mIlluminanceCtx x)\<lparr>il_mActLightIdx := v\<rparr>\<rparr>) m)"
  using assms by (auto simp: pc_ok_def)

lemma funcop_end_illuminance:
  assumes g: "good_run run" and c: "c < length (mc_ctxs m)" and t: "ctx_tree m"
    and e: "FuncOpEnd_Illuminance env run c m = Some (r, m')"
  shows "kept c m m' \<and> (\<forall>S. targets (code_of env c m) S \<longrightarrow> pc_ok S c m \<longrightarrow> r = Inr () \<longrightarrow> pc_ok S c m')"
proof -
  let ?idx = "il_mActLightIdx (cx_mIlluminanceCtx (ctx m c))"
  have pop: "moves env c (stx_bind (fop_pop c) (\<lambda>_. NextInstruction env c))"
    by (rule moves_bind [OF fop_pop_moves NextInstruction_moves])
  consider (bad) x where "active_lights env c m = Inl x" | (none) p where "active_lights env c m = Inr p" "?idx = None"
    | (some) a ls idx where "active_lights env c m = Inr (a, ls)" "?idx = Some idx"
    by (cases "active_lights env c m"; cases ?idx) (blast | metis surj_pair)+
  then show ?thesis
  proof cases
    case bad
    then show ?thesis using e unfolding FuncOpEnd_Illuminance_def by (cases ?idx) auto
  next
    case none
    then show ?thesis using e pop c unfolding FuncOpEnd_Illuminance_def moves_def by auto
  next
    case some
    show ?thesis
    proof (cases "next_light ls idx")
      case None
      let ?m = "upd c (\<lambda>x. x\<lparr>cx_mIlluminanceCtx := (cx_mIlluminanceCtx x)\<lparr>il_mActLightIdx := None\<rparr>\<rparr>) m"
      have h: "stx_bind (fop_pop c) (\<lambda>_. NextInstruction env c) ?m = (r, m')"
        using e some None unfolding FuncOpEnd_Illuminance_def by simp
      have k: "kept c m ?m" by (rule upd_keeps) (simp_all add: id_key_def)
      have "c < length (mc_ctxs ?m)" using c by simp
      then have "kept c ?m m' \<and> (\<forall>S. targets (code_of env c ?m) S \<longrightarrow> pc_ok S c ?m \<longrightarrow> r = Inr () \<longrightarrow> pc_ok S c m')"
        using pop h unfolding moves_def by blast
      then show ?thesis using keeps_trans [OF k] upd_idx_pc_ok [of m c None] c unfolding kept_code [OF k] by blast
    next
      case (Some i)
      let ?m = "upd c (\<lambda>x. x\<lparr>cx_mIlluminanceCtx := (cx_mIlluminanceCtx x)\<lparr>il_mActLightIdx := Some i\<rparr>\<rparr>) m"
      have k: "kept c m ?m" by (rule upd_keeps) (simp_all add: id_key_def)
      have c1: "c < length (mc_ctxs ?m)" using c by simp
      have p1: "pc_ok S c m \<Longrightarrow> pc_ok S c ?m" for S using upd_idx_pc_ok [of m c "Some i"] some(2) c by simp
      have e2: "(case run_light env run c a i (snd (ls ! i)) ?m of
                  None \<Rightarrow> None
                | Some (Inl e, m') \<Rightarrow> Some (Inl e, m')
                | Some (Inr _, m') \<Rightarrow>
                    Some (GotoInstruction c (il_mBodyStartAddr (cx_mIlluminanceCtx (ctx m' c)))
                      (upd c (\<lambda>x. x\<lparr>cx_mIlluminanceCtx := (cx_mIlluminanceCtx x)\<lparr>il_mActLightIdx := Some (i + 1)\<rparr>\<rparr>) m'))) = Some (r, m')"
        using e some Some unfolding FuncOpEnd_Illuminance_def by simp
      then obtain r2 m2 where 2: "run_light env run c a i (snd (ls ! i)) ?m = Some (r2, m2)"
        by (cases "run_light env run c a i (snd (ls ! i)) ?m") auto
      have s2: "still c ?m m2" by (rule run_light_still [OF g c1 keeps_tree [OF k t] 2])
      have k2: "kept c m m2" by (rule keeps_trans [OF k still_kept [OF s2]])
      have c2: "c < length (mc_ctxs m2)" using c kept_length [OF k2] by simp
      show ?thesis
      proof (cases r2)
        case (Inl x)
        then show ?thesis using e2 2 k2 by auto
      next
        case (Inr u)
        let ?m3 = "upd c (\<lambda>x. x\<lparr>cx_mIlluminanceCtx := (cx_mIlluminanceCtx x)\<lparr>il_mActLightIdx := Some (i + 1)\<rparr>\<rparr>) m2"
        let ?m4 = "upd c (\<lambda>x. x\<lparr>cx_mProgramCounter := il_mBodyStartAddr (cx_mIlluminanceCtx (ctx m2 c))\<rparr>) ?m3"
        have m': "m' = ?m4" using e2 2 Inr by (simp add: GotoInstruction_def)
        have "kept c m2 ?m3" by (rule upd_keeps) (simp_all add: id_key_def)
        moreover have "kept c ?m3 ?m4" by (rule upd_keeps) (simp_all add: id_key_def)
        ultimately have "kept c m m'" unfolding m' using k2 keeps_trans by blast
        moreover have "pc_ok S c m'" if "pc_ok S c m" for S
        proof -
          have "pc_ok S c m2" using p1 that still_pc_ok [OF s2] by blast
          moreover have "il_mActLightIdx (cx_mIlluminanceCtx (ctx m2 c)) = Some i" unfolding still_D(3) [OF s2] using c by simp
          ultimately show ?thesis unfolding m' pc_ok_def using c2 by simp
        qed
        ultimately show ?thesis by blast
      qed
    qed
  qed
qed

lemma funcop_end_spec: "good_run run \<Longrightarrow> inst_spec env c (Inst_FuncopEnd env run)"
  unfolding inst_spec_def
proof (intro allI impI)
  fix n m r m'
  assume g: "good_run run" and c: "c < length (mc_ctxs m)" and t: "ctx_tree m" and e: "Inst_FuncopEnd env run c n m = Some (r, m')"
  let ?P = "kept c m m' \<and> (\<forall>S. targets (code_of env c m) S \<longrightarrow> pc_ok S c m \<longrightarrow> r = Inr () \<longrightarrow> pc_ok S c m')"
  have pop: "?P" if "Some (stx_bind (fop_pop c) (\<lambda>_. NextInstruction env c) m) = Some (r, m')"
    using moves_bind [OF fop_pop_moves NextInstruction_moves, of env c] that c unfolding moves_def by simp
  have thr: "moves env c (stx_throw x)" for x
    by (simp add: moves_def)
  have broken: "?P" if "Some (stx_bind (NextInstruction env c) (\<lambda>_. stx_throw x) m) = Some (r, m')" for x
    using moves_bind [OF NextInstruction_moves thr, of x] that c unfolding moves_def by simp
  show ?P
  proof (cases "fop_top c m")
    case (Inl x)
    then show ?thesis using e unfolding Inst_FuncopEnd_def by auto
  next
    case (Inr flgs)
    then have "(if flgs AND (FLG_IFTRUE OR FLG_ORELSE) \<noteq> 0
          then Some (stx_bind (fop_pop c) (\<lambda>_. NextInstruction env c) m)
          else if flgs AND FLG_ILLUMINANCE \<noteq> 0 then FuncOpEnd_Illuminance env run c m
          else if flgs AND FLG_SOLAR \<noteq> 0 then Some (stx_bind (fop_pop c) (\<lambda>_. NextInstruction env c) m)
          else Some (stx_bind (NextInstruction env c)
            (\<lambda>_. stx_throw (AssThrow (''funcop stack broken ?!''))) m)) = Some (r, m')"
      using e unfolding Inst_FuncopEnd_def by simp
    then show ?thesis
      using pop broken funcop_end_illuminance [OF g c t, of env r m'] by (auto split: if_splits)
  qed
qed

section \<open>The loop\<close>

lemmas advancing_insts = block_loop_advances LD_advances xform_advances faceforward_advances calculate_normal_advances
  texture_advances

lemma loop_specs:
  "inst_spec env c (\<lambda>c n m. Some (Inst_Mov TA TB env c n m))"
  "inst_spec env c (\<lambda>c n m. Some (Inst_Abs TA TB env c n m))"
  "inst_spec env c (\<lambda>c n m. Some (Inst_Sign TA TB env c n m))"
  "inst_spec env c (\<lambda>c n m. Some (Inst_2Op TA TB TC opn env c n m))"
  "inst_spec env c (\<lambda>c n m. Some (Inst_Pow_SSS env c n m))"
  "inst_spec env c (\<lambda>c n m. Some (Inst_MOVVS3 env c n m))"
  "inst_spec env c (\<lambda>c n m. Some (Inst_Dot_SVV env c n m))"
  "inst_spec env c (\<lambda>c n m. Some (Inst_Length_SV env c n m))"
  "inst_spec env c (\<lambda>c n m. Some (Inst_Min_Max TA opn env c n m))"
  "inst_spec env c (\<lambda>c n m. Some (Inst_SETCMP_REL opn env c n m))"
  "inst_spec env c (\<lambda>c n m. Some (Inst_SETCMP_EQ TA opn env c n m))"
  "inst_spec env c (\<lambda>c n m. Some (Inst_SETCMP_EQ_NoVary opn env c n m))"
  "inst_spec env c (\<lambda>c n m. Some (Inst_Noise1 TA env c n m))"
  "inst_spec env c (\<lambda>c n m. Some (Inst_Noise3 TA env c n m))"
  "inst_spec env c (\<lambda>c n m. Some (Inst_GetVComp i env c n m))"
  "inst_spec env c (\<lambda>c n m. Some (Inst_SetVComp i env c n m))"
  "inst_spec env c (\<lambda>c n m. Some (Inst_Normalize env c n m))"
  unfolding Inst_Mov_def Inst_Abs_def Inst_Sign_def Inst_2Op_def Inst_Pow_SSS_def Inst_MOVVS3_def Inst_Dot_SVV_def
    Inst_Length_SV_def Inst_Min_Max_def Inst_SETCMP_REL_def Inst_SETCMP_EQ_def Inst_SETCMP_EQ_NoVary_def Inst_Noise1_def
    Inst_Noise3_def Inst_GetVComp_def Inst_SetVComp_def Inst_Normalize_def
  by (rule pure_spec, rule advances_moves, rule block_loop_advances)+

lemma other_specs:
  "inst_spec env c (\<lambda>c n m. Some (Inst_LD1 env c n m))"
  "inst_spec env c (\<lambda>c n m. Some (Inst_LD3 env c n m))"
  "inst_spec env c (\<lambda>c n m. Some (Inst_PXFormname_VXV env c n m))"
  "inst_spec env c (\<lambda>c n m. Some (Inst_VXFormname_VXV env c n m))"
  "inst_spec env c (\<lambda>c n m. Some (Inst_NXFormname_VXV env c n m))"
  "inst_spec env c (\<lambda>c n m. Some (Inst_CXFormname_VXV env c n m))"
  "inst_spec env c (\<lambda>c n m. Some (Inst_Faceforward env c n m))"
  "inst_spec env c (\<lambda>c n m. Some (Inst_CalculateNormal env c n m))"
  "inst_spec env c (\<lambda>c n m. Some (Inst_Texture TA coords env c n m))"
  unfolding Inst_PXFormname_VXV_def Inst_VXFormname_VXV_def Inst_NXFormname_VXV_def Inst_CXFormname_VXV_def
  by (rule pure_spec, rule advances_moves, rule advancing_insts)+

lemma control_specs:
  "inst_spec env c (\<lambda>c n m. Some (Inst_CMPLT env c n m))"
  "inst_spec env c (\<lambda>c n m. Some (Inst_IfTrue env c n m))"
  "inst_spec env c (\<lambda>c n m. Some (Inst_OrElse env c n m))"
  "inst_spec env c (\<lambda>c n m. Some (Inst_Solar axis env c n m))"
  "inst_spec env c (\<lambda>c n m. Some (Inst_Illuminance axis env c n m))"
  by (rule pure_spec, rule cmplt_moves if_true_moves or_else_moves solar_moves illuminance_moves)+

lemma all_specs:
  assumes "good_run run"
  shows "list_all (\<lambda>f. \<forall>g. f = Some g \<longrightarrow> inst_spec env c g) (gSlOpCodeFuncs env run)"
  unfolding gSlOpCodeFuncs_def pure_def
  by (simp add: loop_specs other_specs control_specs ambient_spec [OF assms] funcop_end_spec [OF assms])

lemma svm_step_cases:
  assumes "svm_step env run c m = Some (r, m')"
  obtains "m' = m" and "r \<noteq> Inr True"
  | n f r1 where "Some f \<in> set (gSlOpCodeFuncs env run)" and "f c n m = Some (r1, m')"
      and "r = (case r1 of Inl e \<Rightarrow> Inl e | Inr _ \<Rightarrow> Inr True)"
proof (cases "cx_mProgramCounter (ctx m c) \<ge> length (code_of env c m)")
  case True
  then show ?thesis using that(1) assms by (auto simp: svm_step_def)
next
  case pc: False
  show ?thesis
  proof (cases "GetOpCode env c m")
    case (Inl e)
    then show ?thesis using that(1) assms pc by (auto simp: svm_step_def)
  next
    case (Inr w)
    let ?k = "oc_mTableOffset w"
    have e: "(if ?k = OP_RET then Some (Inr False, m)
          else if ?k \<ge> length gOpCodeDefs then Some (Inl bad_access, m)
          else
            (case (getDestBlocksN env c (gOpCodeDefs ! ?k) m, gSlOpCodeFuncs env run ! ?k) of
               (Inl e, _) \<Rightarrow> Some (Inl e, m)
             | (Inr _, None) \<Rightarrow> Some (Inl (Undefined_behaviour ''call of a null function pointer''), m)
             | (Inr blocksN, Some nextFunc) \<Rightarrow>
                 map_option (\<lambda>(r, m'). (case r of Inl e \<Rightarrow> Inl e | Inr _ \<Rightarrow> Inr True, m')) (nextFunc c blocksN m))) = Some (r, m')"
      using assms pc Inr unfolding svm_step_def Let_def by simp
    show ?thesis
    proof (cases "?k = OP_RET \<or> ?k \<ge> length gOpCodeDefs")
      case True
      then show ?thesis using that(1) e by (auto split: if_splits)
    next
      case k: False
      show ?thesis
      proof (cases "getDestBlocksN env c (gOpCodeDefs ! ?k) m")
        case (Inl x)
        then show ?thesis using that(1) e k by auto
      next
        case n: (Inr n)
        show ?thesis
        proof (cases "gSlOpCodeFuncs env run ! ?k")
          case None
          then show ?thesis using that(1) e k n by auto
        next
          case (Some f)
          have "?k < length (gSlOpCodeFuncs env run)" using k by (simp add: gOpCodeDefs_def gSlOpCodeFuncs_def)
          then have f: "Some f \<in> set (gSlOpCodeFuncs env run)" using Some by (metis nth_mem)
          have h: "map_option (\<lambda>(r, m'). (case r of Inl e \<Rightarrow> Inl e | Inr _ \<Rightarrow> Inr True, m')) (f c n m) = Some (r, m')"
            using e k n Some by simp
          then obtain r1 where r1: "f c n m = Some (r1, m')" "r = (case r1 of Inl e \<Rightarrow> Inl e | Inr _ \<Rightarrow> Inr True)" by auto
          show ?thesis by (rule that(2) [OF f r1])
        qed
      qed
    qed
  qed
qed

lemma step_kept:
  assumes g: "good_run run" and c: "c < length (mc_ctxs m)" and t: "ctx_tree m" and e: "svm_step env run c m = Some (r, m')"
  shows "kept c m m' \<and> (\<forall>S. targets (code_of env c m) S \<longrightarrow> pc_ok S c m \<longrightarrow> r = Inr True \<longrightarrow> pc_ok S c m')"
  using e
proof (cases rule: svm_step_cases)
  case 1
  then show ?thesis by simp
next
  case (2 n f r1)
  have "inst_spec env c f" using all_specs [OF g, of env c] 2(1) unfolding list_all_iff by blast
  then have "kept c m m' \<and> (\<forall>S. targets (code_of env c m) S \<longrightarrow> pc_ok S c m \<longrightarrow> r1 = Inr () \<longrightarrow> pc_ok S c m')"
    using 2(2) c t unfolding inst_spec_def by blast
  then show ?thesis using 2(3) by (cases r1) simp_all
qed

lemma loop_kept:
  assumes g: "good_run run"
  shows "runFrom_loop env run n c m = Some (r, m') \<Longrightarrow> c < length (mc_ctxs m) \<Longrightarrow> ctx_tree m \<Longrightarrow> kept c m m'"
proof (induction n arbitrary: m)
  case (Suc n)
  obtain r1 m1 where 1: "svm_step env run c m = Some (r1, m1)" using Suc.prems(1) by (cases "svm_step env run c m") auto
  have k: "kept c m m1" using step_kept [OF g Suc.prems(2,3) 1] ..
  show ?case
  proof (cases "r1 = Inr True")
    case True
    then have "runFrom_loop env run n c m1 = Some (r, m')" using Suc.prems(1) 1 by simp
    then have "kept c m1 m'" using Suc.IH kept_length [OF k] Suc.prems(2) keeps_tree [OF k Suc.prems(3)] by simp
    then show ?thesis by (rule keeps_trans [OF k])
  next
    case False
    then have "m' = m1" using Suc.prems(1) 1 by (auto split: sum.splits bool.splits)
    then show ?thesis using k by simp
  qed
qed simp

lemma run_from_kept:
  assumes g: "good_run run" and e: "runFrom env run n c pc m = Some (r, m')" and c: "c < length (mc_ctxs m)" and t: "ctx_tree m"
  shows "kept c m m'"
proof -
  have k: "kept c m (start_run c pc m)" unfolding start_run_def by (rule upd_keeps) (simp_all add: id_key_def)
  obtain r1 where l: "runFrom_loop env run n c (start_run c pc m) = Some (r1, m')"
    using e unfolding runFrom_def caught_def
    by (cases "runFrom_loop env run n c (start_run c pc m)") (auto split: sum.splits if_splits)
  have "kept c (start_run c pc m) m'"
    by (rule loop_kept [OF g l]) (use kept_length [OF k] c keeps_tree [OF k t] in simp_all)
  then show ?thesis by (rule keeps_trans [OF k])
qed

lemma run_all_kept:
  assumes "\<And>pc m r m'. f pc m = Some (r, m') \<Longrightarrow> c < length (mc_ctxs m) \<Longrightarrow> ctx_tree m \<Longrightarrow> kept c m m'"
  shows "run_all f pcs m = Some (r, m') \<Longrightarrow> c < length (mc_ctxs m) \<Longrightarrow> ctx_tree m \<Longrightarrow> kept c m m'"
proof (induction pcs arbitrary: m)
  case (Cons pc pcs)
  obtain r1 m1 where 1: "f pc m = Some (r1, m1)" using Cons.prems(1) by (cases "f pc m") auto
  have k: "kept c m m1" by (rule assms [OF 1 Cons.prems(2,3)])
  show ?case
  proof (cases r1)
    case (Inl x)
    then show ?thesis using Cons.prems(1) 1 k by simp
  next
    case (Inr u)
    then have "run_all f pcs m1 = Some (r, m')" using Cons.prems(1) 1 by simp
    then have "kept c m1 m'" using Cons.IH kept_length [OF k] Cons.prems(2) keeps_tree [OF k Cons.prems(3)] by simp
    then show ?thesis by (rule keeps_trans [OF k])
  qed
qed simp

lemma init_kept: "init_consts c (InitializeSIMD c p m) = (r, m') \<Longrightarrow> kept c m m'"
proof -
  assume e: "init_consts c (InitializeSIMD c p m) = (r, m')"
  let ?m = "InitializeSIMD c p m"
  have k: "kept c m ?m" unfolding InitializeSIMD_def by (rule upd_keeps) (simp_all add: id_key_def)
  have "kept c ?m (upd c (\<lambda>x. x\<lparr>cx_mpDataSegment := Some vs\<rparr>) ?m)" for vs
    by (rule upd_keeps) (simp_all add: id_key_def)
  then have "kept c ?m m'" using e by (auto simp: init_consts_def split: option.splits sum.splits)
  then show ?thesis by (rule keeps_trans [OF k])
qed

lemma Run_good: "good_run (Run env d n)"
proof (induction d)
  case 0
  then show ?case by (simp add: good_run_def)
next
  case (Suc d)
  show ?case
    unfolding good_run_def
  proof (intro allI impI)
    fix c m r m' assume c: "c < length (mc_ctxs m)" and t: "ctx_tree m" and e: "Run env (Suc d) n c m = Some (r, m')"
    have "kept c m m'"
    proof (cases "inst_of env c m")
      case (Inl x)
      then show ?thesis using e by simp
    next
      case (Inr inst)
      obtain r1 m1 where 1: "init_consts c (InitializeSIMD c (si_mMaxPointsN inst) m) = (r1, m1)" by fastforce
      have k: "kept c m m1" using 1 by (rule init_kept)
      show ?thesis
      proof (cases r1)
        case (Inl x)
        then show ?thesis using e Inr 1 k by simp
      next
        case r: (Inr u)
        have "run_all (runFrom env (Run env d n) n c)
                (cx_mDefParamValsStartPCs (ctx m1 c) @
                  [case sh_mStartPC (si_moShader inst) of None \<Rightarrow> INVALID_PC | Some pc \<Rightarrow> pc]) m1 = Some (r, m')"
          using e Inr 1 r by simp
        then have "kept c m1 m'"
          using run_all_kept [of "runFrom env (Run env d n) n c" c] run_from_kept [OF Suc.IH] kept_length [OF k] c keeps_tree [OF k t]
          by (meson less_le_trans)
        then show ?thesis by (rule keeps_trans [OF k])
      qed
    qed
    then show "kept c m m' \<and> ctx_tree m'" using t keeps_tree by blast
  qed
qed

section \<open>Where execution stands\<close>

lemma starts_block:
  assumes "pc \<in> starts bs" and "pc < length (concat bs)" and "\<forall>b \<in> set bs. b \<noteq> []"
  obtains b where "b \<in> set bs" and "take (length b) (drop pc (concat bs)) = b" and "pc + length b \<in> starts bs"
proof -
  obtain k where k: "k \<le> length bs" "pc = length (concat (take k bs))" using assms(1) by (auto simp: starts_def)
  then have kl: "k < length bs" using assms(2) by (cases "k = length bs") auto
  then have "concat bs = concat (take k bs) @ bs ! k @ concat (drop (Suc k) bs)"
    by (metis Cons_nth_drop_Suc append_take_drop_id concat.simps(2) concat_append)
  then have "take (length (bs ! k)) (drop pc (concat bs)) = bs ! k" using k(2) by simp
  moreover have "pc + length (bs ! k) = length (concat (take (Suc k) bs))" using k(2) kl by (simp add: take_Suc_conv_app_nth)
  then have "pc + length (bs ! k) \<in> starts bs" unfolding starts_def using kl by (metis (mono_tags, lifting) Suc_leI mem_Collect_eq)
  ultimately show ?thesis using that kl nth_mem by blast
qed

definition stands_at :: "SvmShader \<Rightarrow> nat \<Rightarrow> bool" where
  "stands_at sh pc \<longleftrightarrow> (\<exists>b. inst_ok (sh_mpShaSyms sh) b \<and> take (length b) (drop pc (sh_mCode sh)) = b)"

lemma wf_targets:
  assumes "wf_shader sh" and small: "length (sh_mCode sh) \<le> 0xFFFF"
  shows "\<exists>S. targets (sh_mCode sh) S \<and> (\<forall>pc. sh_mStartPC sh = Some pc \<or> Some pc \<in> set (sh_mpShaSymsStartPCs sh) \<longrightarrow> pc \<in> S)
     \<and> (\<forall>pc \<in> S. pc < length (sh_mCode sh) \<longrightarrow> stands_at sh pc)"
proof -
  obtain bs where code: "sh_mCode sh = concat bs" and ok: "\<forall>b \<in> set bs. inst_ok (sh_mpShaSyms sh) b" and ends: "ends_ok bs"
    and pcs: "pcs_ok bs sh" and ad: "\<forall>a. W_Address a \<in> set (sh_mCode sh) \<longrightarrow> a \<in> starts bs"
    using assms(1) unfolding wf_shader_def by blast
  let ?S = "starts bs \<union> {n. length (concat bs) \<le> n}"
  have ne: "\<forall>b \<in> set bs. b \<noteq> []" using ok by (auto simp: inst_ok_def)
  have at: "stands_at sh pc \<and> (\<exists>w. concat bs ! pc = W_OpCode w \<and> pc + (oc_mOperandCount w + 1) \<in> ?S
        \<and> unat (oc_mFuncopEndAddr w) \<in> ?S)" if "pc \<in> ?S" "pc < length (concat bs)" for pc
  proof -
    have s: "pc \<in> starts bs" using that by simp
    have pl: "pc < length (concat bs)" by (rule that(2))
    obtain b where b: "b \<in> set bs" "take (length b) (drop pc (concat bs)) = b" "pc + length b \<in> starts bs"
      by (rule starts_block [OF s pl ne])
    have iok: "inst_ok (sh_mpShaSyms sh) b" using ok b(1) by blast
    then obtain w os where w: "b = W_OpCode w # os" "length os = oc_mOperandCount w"
      by (auto simp: inst_ok_def split: list.splits CPUWord.splits)
    have at: "concat bs ! pc = W_OpCode w"
    proof -
      have "take (length b) (drop pc (concat bs)) ! 0 = W_OpCode w" using b(2) w(1) by simp
      then show ?thesis using pl w(1) by simp
    qed
    have "W_OpCode w \<in> set b" using w(1) by simp
    then have "W_OpCode w \<in> set (concat bs)" using b(1) unfolding set_concat by blast
    then have "oc_mFuncopEndAddr w = INVALID_ADDR \<or> (\<exists>e \<in> starts bs. e < length (concat bs) \<and> oc_mFuncopEndAddr w = of_nat e)"
      using ends unfolding ends_ok_def by blast
    then have "unat (oc_mFuncopEndAddr w) \<in> ?S"
    proof
      assume "oc_mFuncopEndAddr w = INVALID_ADDR"
      then show ?thesis using small code by (simp add: INVALID_ADDR_def)
    next
      assume "\<exists>e \<in> starts bs. e < length (concat bs) \<and> oc_mFuncopEndAddr w = of_nat e"
      then obtain e where e: "e \<in> starts bs" "e < length (concat bs)" "oc_mFuncopEndAddr w = of_nat e" by blast
      have "e < 2 ^ 16" using e(2) small code by simp
      then have "unat (oc_mFuncopEndAddr w) = e" unfolding e(3) by (simp add: unat_of_nat take_bit_nat_eq_self)
      then show ?thesis using e(1) by simp
    qed
    moreover have "pc + (oc_mOperandCount w + 1) \<in> ?S" using b(3) w by simp
    moreover have "stands_at sh pc" unfolding stands_at_def code using iok b(2) by blast
    ultimately show ?thesis using at by blast
  qed
  have "targets (sh_mCode sh) ?S" unfolding targets_def code using at ad [unfolded code] by blast
  moreover have "\<forall>pc. sh_mStartPC sh = Some pc \<or> Some pc \<in> set (sh_mpShaSymsStartPCs sh) \<longrightarrow> pc \<in> ?S"
    using pcs unfolding pcs_ok_def by blast
  moreover have "\<forall>pc \<in> ?S. pc < length (sh_mCode sh) \<longrightarrow> stands_at sh pc" unfolding code using at by blast
  ultimately show ?thesis by blast
qed

text \<open>The states that the loop of \<open>runFrom\<close> goes through, from an entry point on.\<close>

inductive svm_reach :: "SvmEnv \<Rightarrow> svm_run \<Rightarrow> nat \<Rightarrow> Machine \<Rightarrow> Machine \<Rightarrow> bool"
  for env :: SvmEnv and run :: svm_run and c :: nat and m0 :: Machine where
  start: "svm_reach env run c m0 m0"
| step: "svm_reach env run c m0 m \<Longrightarrow> svm_step env run c m = Some (Inr True, m') \<Longrightarrow> svm_reach env run c m0 m'"

lemma reach_pc_ok:
  assumes "svm_reach env run c m0 m" and g: "good_run run" and "c < length (mc_ctxs m0)" and "ctx_tree m0"
    and "targets (code_of env c m0) S" and "pc_ok S c m0"
  shows "kept c m0 m \<and> c < length (mc_ctxs m) \<and> ctx_tree m \<and> pc_ok S c m"
  using assms(1)
proof (induction rule: svm_reach.induct)
  case start
  then show ?case using assms by simp
next
  case (step m m')
  have k: "kept c m0 m" using step.IH by blast
  have s: "kept c m m'" "pc_ok S c m'"
    using step_kept [OF g _ _ step.hyps(2)] step.IH assms(5) unfolding kept_code [OF k, of env] by blast+
  have "c < length (mc_ctxs m')" using kept_length [OF s(1)] step.IH by simp
  moreover have "ctx_tree m'" using keeps_tree [OF s(1)] step.IH by simp
  ultimately show ?case using keeps_trans [OF k s(1)] s(2) by blast
qed

text \<open>
  C3: whatever the assembly text, the data, the lights and the fuel are: wherever the run of an
  assembled shader of at most 65535 words stands, it is either past the end of the code, where
  the loop returns, or at the start of a whole instruction of the opcode table with operands of
  the right kinds. No operand is ever executed.
\<close>

theorem runs_stay_on_instructions:
  assumes asm: "RRASM_Parser file (SvmShader_new nm) = Inr sh" and small: "length (sh_mCode sh) \<le> 0xFFFF"
    and inst: "inst_of env c m = Inr inst" "si_moShader inst = sh" and c: "c < length (mc_ctxs m)" and t: "ctx_tree m"
    and entry: "sh_mStartPC sh = Some pc \<or> Some pc \<in> set (sh_mpShaSymsStartPCs sh)"
    and reach: "svm_reach env (Run env d n) c (start_run c pc m) m'"
  shows "code_of env c m' = sh_mCode sh
     \<and> (length (sh_mCode sh) \<le> cx_mProgramCounter (ctx m' c) \<or> stands_at sh (cx_mProgramCounter (ctx m' c)))"
proof -
  have code: "code_of env c m = sh_mCode sh" using inst by (simp add: code_of_def)
  have wf: "wf_shader sh" using assembled_code_inv [OF asm] .
  obtain S where S: "targets (sh_mCode sh) S" "pc \<in> S" "\<forall>pc \<in> S. pc < length (sh_mCode sh) \<longrightarrow> stands_at sh pc"
    using wf_targets [OF wf small] entry by blast
  let ?m = "start_run c pc m"
  have k: "kept c m ?m" unfolding start_run_def by (rule upd_keeps) (simp_all add: id_key_def)
  have "c < length (mc_ctxs ?m)" using c kept_length [OF k] by simp
  moreover have "ctx_tree ?m" using keeps_tree [OF k t] .
  moreover have "targets (code_of env c ?m) S" unfolding kept_code [OF k] code by (rule S(1))
  moreover have "pc_ok S c ?m" using S(2) c by (simp add: pc_ok_def start_run_def)
  ultimately have r: "kept c ?m m' \<and> c < length (mc_ctxs m') \<and> ctx_tree m' \<and> pc_ok S c m'"
    by (rule reach_pc_ok [OF reach Run_good])
  then have "code_of env c m' = sh_mCode sh" using kept_code k code by metis
  moreover have "cx_mProgramCounter (ctx m' c) \<in> S" using r by (simp add: pc_ok_def)
  ultimately show ?thesis using S(3) by (meson not_le)
qed

text \<open>An environment with one instance of a shader, and a machine with one context that runs it.\<close>

definition one_inst :: "SvmShader \<Rightarrow> SvmInst" where
  "one_inst sh = \<lparr>si_moShader = sh, si_mMaxPointsN = 4, si_mCallSymIList = []\<rparr>"

definition one_env :: "SvmShader \<Rightarrow> SvmEnv" where
  "one_env sh = \<lparr>ev_gridSyms = [], ev_globals = [], ev_insts = [one_inst sh], ev_lights = (\<lambda>_. []),
     ev_raw = (\<lambda>_ n. D_float (replicate n (splat 0))), ev_mMtxWorldCamera = Identity, ev_mMtxLocalCamera = Identity,
     ev_mMtxCameraLocal = Identity, ev_mMtxLocalCameraNorm = Identity,
     ev_noise = \<lparr>nt_mP = [], nt_mG1 = [], nt_mG2 = [], nt_mG3 = []\<rparr>, ev_GetTexture = (\<lambda>_ _. None)\<rparr>"

definition one_machine :: Machine where
  "one_machine = \<lparr>mc_grid = [], mc_ctxs = [Context_new\<lparr>cx_mpShaderInst := Some 0, cx_mpDataSegment := Some []\<rparr>]\<rparr>"

lemma one_machine_facts:
  "inst_of (one_env sh) 0 one_machine = Inr (one_inst sh)" "si_moShader (one_inst sh) = sh" "ctx_tree one_machine"
  "length (mc_ctxs one_machine) = 1"
  by (simp_all add: inst_of_def one_env_def one_machine_def one_inst_def ctx_tree_def Context_new_def)

theorem runs_stay_on_instructions_witness:
  "\<exists>sh pc. RRASM_Parser (mem_file (ascii sample_shader_text)) (SvmShader_new ''x'') = Inr sh \<and> sh_mStartPC sh = Some pc
     \<and> (length (sh_mCode sh) \<le> pc \<or> stands_at sh pc)"
proof -
  obtain sh where sh: "RRASM_Parser (mem_file (ascii sample_shader_text)) (SvmShader_new ''x'') = Inr sh"
    and l: "length (sh_mCode sh) = 4"
    using sample_assembles by (simp split: sum.splits)
  obtain pc where pc: "sh_mStartPC sh = Some pc" using assembled_entry [OF sh] by blast
  have "length (sh_mCode sh) \<le> cx_mProgramCounter (ctx (start_run 0 pc one_machine) 0)
     \<or> stands_at sh (cx_mProgramCounter (ctx (start_run 0 pc one_machine) 0))"
    using runs_stay_on_instructions [OF sh _ one_machine_facts(1,2) _ one_machine_facts(3) disjI1 [OF pc] svm_reach.start]
      one_machine_facts(4) l by simp
  then show ?thesis using sh pc by (intro exI [of _ sh] exI [of _ pc]) (simp add: start_run_def one_machine_def upd_def)
qed

section \<open>Conditions\<close>

definition op_at :: "CPUWord list \<Rightarrow> nat \<Rightarrow> nat \<Rightarrow> nat \<Rightarrow> nat \<Rightarrow> bool" where
  "op_at code pc k cnt e \<longleftrightarrow> pc < length code \<and> (case code ! pc of
     W_OpCode w \<Rightarrow> oc_mTableOffset w = k \<and> oc_mOperandCount w = cnt \<and> unat (oc_mFuncopEndAddr w) = e | _ \<Rightarrow> False)"

lemma op_at_GetOpCode:
  assumes "op_at (code_of env c m) (cx_mProgramCounter (ctx m c)) k cnt e"
  obtains w where "GetOpCode env c m = Inr w" "oc_mTableOffset w = k" "oc_mOperandCount w = cnt" "unat (oc_mFuncopEndAddr w) = e"
  using assms that by (auto simp: op_at_def GetOpCode_def GetOp_def Let_def split: CPUWord.splits)

lemma op_step:
  assumes "op_at (code_of env c m) (cx_mProgramCounter (ctx m c)) k cnt e" and "k \<noteq> OP_RET" and "k < length gOpCodeDefs"
    and "\<not> has_flag (gOpCodeDefs ! k) OPC_FLG_1STISDEST" and "gSlOpCodeFuncs env run ! k = Some f" and "f c 1 m = Some (Inr (), m')"
  shows "svm_step env run c m = Some (Inr True, m')"
proof -
  obtain w where w: "GetOpCode env c m = Inr w" "oc_mTableOffset w = k" using assms(1) by (rule op_at_GetOpCode)
  have "cx_mProgramCounter (ctx m c) < length (code_of env c m)" using assms(1) by (simp add: op_at_def)
  then show ?thesis using w assms(2-6) unfolding svm_step_def getDestBlocksN_def Let_def by simp
qed

lemma next_at:
  assumes "op_at (code_of env c m) (cx_mProgramCounter (ctx m c)) k cnt e"
  shows "NextInstruction env c m =
     (Inr (), upd c (\<lambda>x. x\<lparr>cx_mProgramCounter := cx_mProgramCounter x + (cnt + 1)\<rparr>) m)"
  using assms by (elim op_at_GetOpCode) (simp add: NextInstruction_def)

lemma funcop_end_at:
  assumes "op_at (code_of env c m) (cx_mProgramCounter (ctx m c)) k cnt e"
  shows "funcop_end env c m = Inr e"
  using assms by (elim op_at_GetOpCode) (simp add: funcop_end_def)

lemma control_rows:
  "gOpCodeDefs ! 77 = od ''funcopend'' 0 OPC_FLG_FUNCOP_END [TYP_UNKNOWN, TYP_UNKNOWN, TYP_UNKNOWN, TYP_UNKNOWN, TYP_UNKNOWN]"
  "gOpCodeDefs ! 78 = od ''iftrue.b'' 1 OPC_FLG_FUNCOP_BEGIN [TYP_BOOL, TYP_UNKNOWN, TYP_UNKNOWN, TYP_UNKNOWN, TYP_UNKNOWN]"
  "gOpCodeDefs ! 79 = od ''orelse'' 0 OPC_FLG_FUNCOP_MIDDLE [TYP_UNKNOWN, TYP_UNKNOWN, TYP_UNKNOWN, TYP_UNKNOWN, TYP_UNKNOWN]"
  "length gOpCodeDefs = 84"
  by (simp_all add: gOpCodeDefs_def)

lemma control_funcs:
  "gSlOpCodeFuncs env run ! 77 = Some (Inst_FuncopEnd env run)"
  "gSlOpCodeFuncs env run ! 78 = pure (Inst_IfTrue env)"
  "gSlOpCodeFuncs env run ! 79 = pure (Inst_OrElse env)"
  by (simp_all add: gSlOpCodeFuncs_def)

lemma control_flags:
  "\<not> has_flag (gOpCodeDefs ! 77) OPC_FLG_1STISDEST" "\<not> has_flag (gOpCodeDefs ! 78) OPC_FLG_1STISDEST"
  "\<not> has_flag (gOpCodeDefs ! 79) OPC_FLG_1STISDEST"
  unfolding control_rows
  by (simp_all add: has_flag_def od_def OPC_FLG_1STISDEST_def OPC_FLG_FUNCOP_END_def OPC_FLG_FUNCOP_BEGIN_def OPC_FLG_FUNCOP_MIDDLE_def)

lemma code_of_upd:
  "(\<And>x. cx_mpShaderInst (f x) = cx_mpShaderInst x) \<Longrightarrow> code_of env c (upd c f m) = code_of env c m"
  by (cases "c < length (mc_ctxs m)") (simp_all add: code_of_def inst_of_def upd_outside)

lemma if_step:
  assumes c: "c < length (mc_ctxs m)" and at: "op_at (code_of env c m) (cx_mProgramCounter (ctx m c)) 78 1 e"
    and cond: "operand env c m 1 = Inr (off, varying)" and v: "\<not> varying \<Longrightarrow> read_reg RT_B c m off 0 = Inr (B_b v)"
    and room: "length (cx_mFopStack (ctx m c)) < 16"
  shows "\<exists>m'. svm_step env run c m = Some (Inr True, m') \<and> c < length (mc_ctxs m')
    \<and> cx_mFopStack (ctx m' c) = cx_mFopStack (ctx m c) @
        [if varying then FLG_IFTRUE OR FLG_IFTRUE_VARY else if VecNMask_eq v VecNMaskFull then FLG_IFTRUE OR FLG_IFTRUE_TRUE
         else FLG_IFTRUE]
    \<and> cx_mProgramCounter (ctx m' c) = (if varying \<or> VecNMask_eq v VecNMaskFull then cx_mProgramCounter (ctx m c) + 2 else e)"
proof -
  let ?push = "\<lambda>flg m. upd c (\<lambda>x. x\<lparr>cx_mFopStack := cx_mFopStack x @ [flg]\<rparr>) m"
  let ?next = "\<lambda>m. upd c (\<lambda>x. x\<lparr>cx_mProgramCounter := cx_mProgramCounter x + (1 + 1)\<rparr>) m"
  have at2: "op_at (code_of env c (?push flg m)) (cx_mProgramCounter (ctx (?push flg m) c)) 78 1 e" for flg
    using at c by (simp add: code_of_upd)
  have pn: "stx_bind (fop_push c flg) (\<lambda>_. NextInstruction env c) m = (Inr (), ?next (?push flg m))" for flg
    using next_at [OF at2] room by (simp add: fop_push_def)
  have step: "Inst_IfTrue env c 1 m = (Inr (), m') \<Longrightarrow> svm_step env run c m = Some (Inr True, m')" for m'
    by (rule op_step [OF at _ _ control_flags(2) control_funcs(2) [unfolded pure_def]]) (simp_all add: OP_RET_def control_rows(4))
  consider (vary) "varying" | (full) "\<not> varying" "VecNMask_eq v VecNMaskFull" | (no) "\<not> varying" "\<not> VecNMask_eq v VecNMaskFull" by blast
  then show ?thesis
  proof cases
    case vary
    then have "Inst_IfTrue env c 1 m = (Inr (), ?next (?push (FLG_IFTRUE OR FLG_IFTRUE_VARY) m))"
      using cond pn by (simp add: Inst_IfTrue_def)
    then show ?thesis using step vary c by fastforce
  next
    case full
    then have "Inst_IfTrue env c 1 m = (Inr (), ?next (?push (FLG_IFTRUE OR FLG_IFTRUE_TRUE) m))"
      using cond pn v by (simp add: Inst_IfTrue_def)
    then show ?thesis using step full c by fastforce
  next
    case no
    let ?goto = "upd c (\<lambda>x. x\<lparr>cx_mProgramCounter := e\<rparr>) m"
    have "Inst_IfTrue env c 1 m = (Inr (), ?push FLG_IFTRUE ?goto)"
      using cond no v funcop_end_at [OF at] room c
      by (simp add: Inst_IfTrue_def with_funcop_end_def GotoInstruction_def stx_bind_def fop_push_def)
    then show ?thesis using step no c by fastforce
  qed
qed

text \<open>At the \<open>orelse\<close> and the \<open>funcopend\<close> of the construct.\<close>

lemma else_step:
  assumes c: "c < length (mc_ctxs m)" and at: "op_at (code_of env c m) (cx_mProgramCounter (ctx m c)) 79 0 f"
    and ef: "op_at (code_of env c m) f 77 0 g" and stack: "cx_mFopStack (ctx m c) = s @ [flg]" and room: "length s < 16"
    and flg: "flg \<in> {FLG_IFTRUE OR FLG_IFTRUE_VARY, FLG_IFTRUE OR FLG_IFTRUE_TRUE, FLG_IFTRUE}"
  shows "\<exists>m'. svm_step env run c m = Some (Inr True, m') \<and> c < length (mc_ctxs m')
    \<and> (if flg = FLG_IFTRUE OR FLG_IFTRUE_TRUE then cx_mFopStack (ctx m' c) = s \<and> cx_mProgramCounter (ctx m' c) = f + 1
       else cx_mFopStack (ctx m' c) = s @ [FLG_ORELSE] \<and> cx_mProgramCounter (ctx m' c) = cx_mProgramCounter (ctx m c) + 1)"
proof -
  let ?pop = "upd c (\<lambda>x. x\<lparr>cx_mFopStack := butlast (cx_mFopStack x)\<rparr>) m"
  let ?push = "\<lambda>flg m. upd c (\<lambda>x. x\<lparr>cx_mFopStack := cx_mFopStack x @ [flg]\<rparr>) m"
  let ?next = "\<lambda>m. upd c (\<lambda>x. x\<lparr>cx_mProgramCounter := cx_mProgramCounter x + (0 + 1)\<rparr>) m"
  have pop: "fop_pop c m = (Inr (), ?pop)" and top: "fop_top c m = Inr flg"
    using stack by (simp_all add: fop_pop_def fop_top_def)
  have cp: "c < length (mc_ctxs ?pop)" using c by simp
  have step: "Inst_OrElse env c 1 m = (Inr (), m') \<Longrightarrow> svm_step env run c m = Some (Inr True, m')" for m'
    by (rule op_step [OF at _ _ control_flags(3) control_funcs(3) [unfolded pure_def]]) (simp_all add: OP_RET_def control_rows(4))
  have at1: "op_at (code_of env c ?pop) (cx_mProgramCounter (ctx ?pop c)) 79 0 f" using at c by (simp add: code_of_upd)
  have at2: "op_at (code_of env c (?push fl ?pop)) (cx_mProgramCounter (ctx (?push fl ?pop) c)) 79 0 f" for fl
    using at c by (simp add: code_of_upd)
  have pn: "stx_bind (fop_push c FLG_ORELSE) (\<lambda>_. NextInstruction env c) ?pop = (Inr (), ?next (?push FLG_ORELSE ?pop))"
    using next_at [OF at2] room stack c by (simp add: fop_push_def)
  show ?thesis
  proof (cases "flg = FLG_IFTRUE OR FLG_IFTRUE_TRUE")
    case True
    let ?goto = "upd c (\<lambda>x. x\<lparr>cx_mProgramCounter := f\<rparr>) ?pop"
    have at3: "op_at (code_of env c ?goto) (cx_mProgramCounter (ctx ?goto c)) 77 0 g" using ef c by (simp add: code_of_upd)
    have "flg AND FLG_IFTRUE_VARY = 0" "flg AND FLG_IFTRUE_TRUE \<noteq> 0"
      using True by (simp_all add: FLG_IFTRUE_def FLG_IFTRUE_VARY_def FLG_IFTRUE_TRUE_def)
    then have "Inst_OrElse env c 1 m = (Inr (), ?next ?goto)"
      using top pop funcop_end_at [OF at1] next_at [OF at3]
      by (simp add: Inst_OrElse_def stx_bind_def with_funcop_end_def GotoInstruction_def)
    then show ?thesis using step True c stack by fastforce
  next
    case False
    then have "flg AND FLG_IFTRUE_VARY \<noteq> 0 \<or> flg AND FLG_IFTRUE_TRUE = 0"
      using flg by (auto simp: FLG_IFTRUE_def FLG_IFTRUE_VARY_def FLG_IFTRUE_TRUE_def)
    then have "Inst_OrElse env c 1 m = (Inr (), ?next (?push FLG_ORELSE ?pop))"
      using top pop pn by (auto simp: Inst_OrElse_def stx_bind_def)
    then show ?thesis using step False c stack by fastforce
  qed
qed

lemma end_step:
  assumes c: "c < length (mc_ctxs m)" and at: "op_at (code_of env c m) (cx_mProgramCounter (ctx m c)) 77 0 g"
    and stack: "cx_mFopStack (ctx m c) = s @ [flg]" and flg: "flg AND (FLG_IFTRUE OR FLG_ORELSE) \<noteq> 0"
  shows "\<exists>m'. svm_step env run c m = Some (Inr True, m') \<and> cx_mFopStack (ctx m' c) = s
    \<and> cx_mProgramCounter (ctx m' c) = cx_mProgramCounter (ctx m c) + 1"
proof -
  let ?pop = "upd c (\<lambda>x. x\<lparr>cx_mFopStack := butlast (cx_mFopStack x)\<rparr>) m"
  let ?next = "\<lambda>m. upd c (\<lambda>x. x\<lparr>cx_mProgramCounter := cx_mProgramCounter x + (0 + 1)\<rparr>) m"
  have pop: "fop_pop c m = (Inr (), ?pop)" and top: "fop_top c m = Inr flg"
    using stack by (simp_all add: fop_pop_def fop_top_def)
  have at1: "op_at (code_of env c ?pop) (cx_mProgramCounter (ctx ?pop c)) 77 0 g" using at c by (simp add: code_of_upd)
  have "Inst_FuncopEnd env run c 1 m = Some (Inr (), ?next ?pop)"
    using top pop next_at [OF at1] flg by (simp add: Inst_FuncopEnd_def)
  then have "svm_step env run c m = Some (Inr True, ?next ?pop)"
    by (intro op_step [OF at _ _ control_flags(1) control_funcs(1)]) (simp_all add: OP_RET_def control_rows(4))
  then show ?thesis using c stack by fastforce
qed
text \<open>
  C10: an \<open>if\<close> with an \<open>else\<close> on a uniform condition runs exactly one of its bodies. When every lane
  of the condition holds, execution goes on behind the condition, and at the \<open>orelse\<close> behind the
  end of the construct; otherwise it goes on at the \<open>orelse\<close>, into the other body, and at the
  \<open>funcopend\<close> behind it. The stack of open constructs is then as it was before.
\<close>

theorem uniform_if_one_body:
  assumes "c < length (mc_ctxs m)" and "op_at (code_of env c m) (cx_mProgramCounter (ctx m c)) 78 1 e"
    and "op_at (code_of env c m) e 79 0 f" and "op_at (code_of env c m) f 77 0 g"
    and "operand env c m 1 = Inr (off, False)" and "read_reg RT_B c m off 0 = Inr (B_b v)"
    and "length (cx_mFopStack (ctx m c)) < 16"
  shows "\<exists>m1. svm_step env run c m = Some (Inr True, m1)
    \<and> cx_mProgramCounter (ctx m1 c) = (if VecNMask_eq v VecNMaskFull then cx_mProgramCounter (ctx m c) + 2 else e)
    \<and> (\<forall>m2. c < length (mc_ctxs m2) \<and> code_of env c m2 = code_of env c m \<and> cx_mProgramCounter (ctx m2 c) = e
          \<and> cx_mFopStack (ctx m2 c) = cx_mFopStack (ctx m1 c) \<longrightarrow>
        (\<exists>m3. svm_step env run c m2 = Some (Inr True, m3)
          \<and> (if VecNMask_eq v VecNMaskFull
             then cx_mProgramCounter (ctx m3 c) = f + 1 \<and> cx_mFopStack (ctx m3 c) = cx_mFopStack (ctx m c)
             else cx_mProgramCounter (ctx m3 c) = e + 1
               \<and> (\<forall>m4. c < length (mc_ctxs m4) \<and> code_of env c m4 = code_of env c m \<and> cx_mProgramCounter (ctx m4 c) = f
                    \<and> cx_mFopStack (ctx m4 c) = cx_mFopStack (ctx m3 c) \<longrightarrow>
                   (\<exists>m5. svm_step env run c m4 = Some (Inr True, m5)
                      \<and> cx_mProgramCounter (ctx m5 c) = f + 1 \<and> cx_mFopStack (ctx m5 c) = cx_mFopStack (ctx m c))))))"
proof -
  let ?s = "cx_mFopStack (ctx m c)"
  let ?t = "VecNMask_eq v VecNMaskFull"
  let ?flg = "if ?t then FLG_IFTRUE OR FLG_IFTRUE_TRUE else FLG_IFTRUE"
  obtain m1 where m1: "svm_step env run c m = Some (Inr True, m1)" "cx_mFopStack (ctx m1 c) = ?s @ [?flg]"
    "cx_mProgramCounter (ctx m1 c) = (if ?t then cx_mProgramCounter (ctx m c) + 2 else e)"
    using if_step [OF assms(1,2,5) _ assms(7), of v run] assms(6) by auto
  have ne: "FLG_IFTRUE \<noteq> FLG_IFTRUE OR FLG_IFTRUE_TRUE" by (simp add: FLG_IFTRUE_def FLG_IFTRUE_TRUE_def)
  have else_part: "\<exists>m3. svm_step env run c m2 = Some (Inr True, m3)
      \<and> (if ?t then cx_mProgramCounter (ctx m3 c) = f + 1 \<and> cx_mFopStack (ctx m3 c) = ?s
         else cx_mProgramCounter (ctx m3 c) = e + 1 \<and> cx_mFopStack (ctx m3 c) = ?s @ [FLG_ORELSE])"
    if "c < length (mc_ctxs m2)" "code_of env c m2 = code_of env c m" "cx_mProgramCounter (ctx m2 c) = e"
      "cx_mFopStack (ctx m2 c) = cx_mFopStack (ctx m1 c)" for m2
  proof -
    have st: "cx_mFopStack (ctx m2 c) = ?s @ [?flg]" unfolding that(4) by (rule m1(2))
    have a: "op_at (code_of env c m2) (cx_mProgramCounter (ctx m2 c)) 79 0 f" "op_at (code_of env c m2) f 77 0 g"
      unfolding that(2,3) by (rule assms(3), rule assms(4))
    have "?flg \<in> {FLG_IFTRUE OR FLG_IFTRUE_VARY, FLG_IFTRUE OR FLG_IFTRUE_TRUE, FLG_IFTRUE}" by (cases ?t) simp_all
    note E = else_step [OF that(1) a st assms(7) this, of run]
    show ?thesis
    proof (cases ?t)
      case True
      then show ?thesis using E by auto
    next
      case False
      then show ?thesis using E ne that(3) by auto
    qed
  qed
  have end_part: "\<exists>m5. svm_step env run c m4 = Some (Inr True, m5) \<and> cx_mProgramCounter (ctx m5 c) = f + 1
      \<and> cx_mFopStack (ctx m5 c) = ?s"
    if "c < length (mc_ctxs m4)" "code_of env c m4 = code_of env c m" "cx_mProgramCounter (ctx m4 c) = f"
      "cx_mFopStack (ctx m4 c) = ?s @ [FLG_ORELSE]" for m4
    using end_step [of c m4 env g ?s FLG_ORELSE run] that assms(4) by (auto simp: FLG_IFTRUE_def FLG_ORELSE_def)
  have "\<exists>m3. svm_step env run c m2 = Some (Inr True, m3)
          \<and> (if ?t then cx_mProgramCounter (ctx m3 c) = f + 1 \<and> cx_mFopStack (ctx m3 c) = ?s
             else cx_mProgramCounter (ctx m3 c) = e + 1
               \<and> (\<forall>m4. c < length (mc_ctxs m4) \<and> code_of env c m4 = code_of env c m \<and> cx_mProgramCounter (ctx m4 c) = f
                    \<and> cx_mFopStack (ctx m4 c) = cx_mFopStack (ctx m3 c) \<longrightarrow>
                   (\<exists>m5. svm_step env run c m4 = Some (Inr True, m5)
                      \<and> cx_mProgramCounter (ctx m5 c) = f + 1 \<and> cx_mFopStack (ctx m5 c) = ?s)))"
    if h: "c < length (mc_ctxs m2) \<and> code_of env c m2 = code_of env c m \<and> cx_mProgramCounter (ctx m2 c) = e
          \<and> cx_mFopStack (ctx m2 c) = cx_mFopStack (ctx m1 c)" for m2
  proof -
    obtain m3 where m3: "svm_step env run c m2 = Some (Inr True, m3)" and
      p3: "if ?t then cx_mProgramCounter (ctx m3 c) = f + 1 \<and> cx_mFopStack (ctx m3 c) = ?s
         else cx_mProgramCounter (ctx m3 c) = e + 1 \<and> cx_mFopStack (ctx m3 c) = ?s @ [FLG_ORELSE]"
      using else_part h by blast
    show ?thesis
    proof (cases ?t)
      case True
      then show ?thesis using m3 p3 by auto
    next
      case False
      then have "cx_mProgramCounter (ctx m3 c) = e + 1" "cx_mFopStack (ctx m3 c) = ?s @ [FLG_ORELSE]" using p3 by simp_all
      then show ?thesis using m3 end_part False by (intro exI [of _ m3]) simp
    qed
  qed
  then show ?thesis using m1(1,3) by blast
qed

text \<open>A condition that holds, with empty bodies.\<close>

definition if_op :: "nat \<Rightarrow> nat \<Rightarrow> U16 \<Rightarrow> CPUWord" where
  "if_op k cnt e = W_OpCode \<lparr>oc_mTableOffset = k, oc_mOperandCount = cnt, oc_mFuncopEndAddr = e, oc_mDbgLineNum = 0\<rparr>"

definition if_shader :: "bool \<Rightarrow> SvmShader" where
  "if_shader vary = (SvmShader_new ''x'')\<lparr>sh_mStartPC := Some 0, sh_mCode :=
     [if_op 78 1 2, W_Symbol \<lparr>sw_mTableOffset = 0, sw_mIsVarying = vary\<rparr>, if_op 79 0 3, if_op 77 0 INVALID_ADDR,
      if_op 0 0 INVALID_ADDR]\<rparr>"

definition if_machine :: "VecNMask \<Rightarrow> Machine" where
  "if_machine b = \<lparr>mc_grid = [], mc_ctxs = [Context_new\<lparr>cx_mpShaderInst := Some 0, cx_mpDataSegment :=
     Some [SetDataRW (Some (Own_data (D_bool [b]))) Symbol_new True]\<rparr>]\<rparr>"

lemma if_machine_code: "code_of (one_env (if_shader vary)) 0 (if_machine b) = sh_mCode (if_shader vary)"
  by (simp add: code_of_def inst_of_def one_env_def if_machine_def one_inst_def)

lemma if_machine_facts:
  "0 < length (mc_ctxs (if_machine b))" "cx_mProgramCounter (ctx (if_machine b) 0) = 0"
  "length (cx_mFopStack (ctx (if_machine b) 0)) < 16"
  "operand (one_env (if_shader vary)) 0 (if_machine b) 1 = Inr (0, vary)"
  "read_reg RT_B 0 (if_machine b) 0 0 = Inr (B_b b)"
proof -
  show "operand (one_env (if_shader vary)) 0 (if_machine b) 1 = Inr (0, vary)"
    unfolding operand_def GetOp_def Let_def if_machine_code
    by (simp add: if_machine_def Context_new_def if_shader_def)
  show "read_reg RT_B 0 (if_machine b) 0 0 = Inr (B_b b)"
    by (simp add: read_reg_def value_of_def if_machine_def Context_new_def SetDataRW_def val_data_def read_data_def nth_opt_def)
qed (simp_all add: if_machine_def Context_new_def)

lemma if_code_at:
  "op_at (code_of (one_env (if_shader vary)) 0 (if_machine b)) (cx_mProgramCounter (ctx (if_machine b) 0)) 78 1 2"
  "op_at (code_of (one_env (if_shader vary)) 0 (if_machine b)) 2 79 0 3"
  "op_at (code_of (one_env (if_shader vary)) 0 (if_machine b)) 3 77 0 0xFFFF"
  unfolding if_machine_code if_machine_facts(2) by (simp_all add: op_at_def if_shader_def if_op_def INVALID_ADDR_def)

theorem uniform_if_one_body_witness:
  "\<exists>m1. svm_step (one_env (if_shader False)) (\<lambda>_ _. None) 0 (if_machine VecNMaskEmpty) = Some (Inr True, m1)
     \<and> cx_mProgramCounter (ctx m1 0) = 2"
proof -
  have "\<not> VecNMask_eq VecNMaskEmpty VecNMaskFull" by code_simp
  then show ?thesis
    using uniform_if_one_body [of 0 "if_machine VecNMaskEmpty" "one_env (if_shader False)" 2 3 "0xFFFF" 0 VecNMaskEmpty
        "\<lambda>_ _. None", OF if_machine_facts(1) if_code_at if_machine_facts(4,5,3)] by auto
qed

text \<open>
  On a varying condition both bodies run, in every lane: whatever the values of the condition
  are, execution goes on behind the condition, and at the \<open>orelse\<close> it goes on into the other body.
\<close>

theorem varying_if_runs_both:
  assumes "c < length (mc_ctxs m)" and "op_at (code_of env c m) (cx_mProgramCounter (ctx m c)) 78 1 e"
    and "op_at (code_of env c m) e 79 0 f" and "op_at (code_of env c m) f 77 0 g"
    and "operand env c m 1 = Inr (off, True)" and "length (cx_mFopStack (ctx m c)) < 16"
  shows "\<exists>m1. svm_step env run c m = Some (Inr True, m1)
    \<and> cx_mProgramCounter (ctx m1 c) = cx_mProgramCounter (ctx m c) + 2
    \<and> (\<forall>m2. c < length (mc_ctxs m2) \<and> code_of env c m2 = code_of env c m \<and> cx_mProgramCounter (ctx m2 c) = e
          \<and> cx_mFopStack (ctx m2 c) = cx_mFopStack (ctx m1 c) \<longrightarrow>
        (\<exists>m3. svm_step env run c m2 = Some (Inr True, m3) \<and> cx_mProgramCounter (ctx m3 c) = e + 1))"
proof -
  let ?s = "cx_mFopStack (ctx m c)"
  let ?flg = "FLG_IFTRUE OR FLG_IFTRUE_VARY"
  obtain m1 where m1: "svm_step env run c m = Some (Inr True, m1)" "cx_mFopStack (ctx m1 c) = ?s @ [?flg]"
    "cx_mProgramCounter (ctx m1 c) = cx_mProgramCounter (ctx m c) + 2"
    using if_step [OF assms(1,2,5) _ assms(6), of undefined run] by auto
  have ne: "?flg \<noteq> FLG_IFTRUE OR FLG_IFTRUE_TRUE" by (simp add: FLG_IFTRUE_def FLG_IFTRUE_TRUE_def FLG_IFTRUE_VARY_def)
  have "\<exists>m3. svm_step env run c m2 = Some (Inr True, m3) \<and> cx_mProgramCounter (ctx m3 c) = e + 1"
    if "c < length (mc_ctxs m2)" "code_of env c m2 = code_of env c m" "cx_mProgramCounter (ctx m2 c) = e"
      "cx_mFopStack (ctx m2 c) = cx_mFopStack (ctx m1 c)" for m2
    using else_step [of c m2 env f g ?s ?flg run] that assms(3,4,6) m1(2) ne by auto
  then show ?thesis using m1(1,3) by blast
qed

theorem varying_if_runs_both_witness:
  "\<exists>m1. svm_step (one_env (if_shader True)) (\<lambda>_ _. None) 0 (if_machine VecNMaskEmpty) = Some (Inr True, m1)
     \<and> cx_mProgramCounter (ctx m1 0) = 2"
  using varying_if_runs_both [of 0 "if_machine VecNMaskEmpty" "one_env (if_shader True)" 2 3 "0xFFFF" 0 "\<lambda>_ _. None",
      OF if_machine_facts(1) if_code_at if_machine_facts(4,3)] if_machine_facts(2) by auto

section \<open>The two tables\<close>

text \<open>
  The table of opcode definitions and that of the functions have the same length, and the
  opcodes without a function are \<open>ret\<close>, which the loop handles, and the comparisons of matrices.
\<close>

theorem opcode_tables_agree:
  "length gOpCodeDefs = length (gSlOpCodeFuncs env run)
   \<and> map (od_pName \<circ> fst) (filter (\<lambda>p. snd p = None) (zip gOpCodeDefs (gSlOpCodeFuncs env run)))
       = [''ret'', ''seteq.bmm'', ''setne.bmm'']"
  by (simp add: gOpCodeDefs_def gSlOpCodeFuncs_def pure_def od_def)

end
