(* ===== verification/SVMLights.thy ===== *)
theory SVMLights
  imports SVMProps
begin

text \<open>
  Shaders that run light shaders: what a run keeps of the contexts, in every state it reaches, and
  the rounds of an \<open>illuminance\<close> construct.
\<close>

section \<open>Contexts\<close>

lemma reach_kept:
  assumes "svm_reach env run c m0 m" and g: "good_run run" and "c < length (mc_ctxs m0)" and "ctx_tree m0"
  shows "kept c m0 m \<and> c < length (mc_ctxs m) \<and> ctx_tree m"
  using assms(1)
proof (induction rule: svm_reach.induct)
  case start
  then show ?case using assms by simp
next
  case (step m m')
  then have k: "kept c m m'" using step_kept [OF g _ _ step.hyps(2)] by blast
  then show ?case using step.IH keeps_trans keeps_tree kept_length [OF k] by (meson less_le_trans)
qed

text \<open>What a machine keeps of the context \<open>c\<close> and those before it.\<close>

definition keeps_contexts :: "nat \<Rightarrow> Machine \<Rightarrow> Machine \<Rightarrow> bool" where
  "keeps_contexts c m m' \<longleftrightarrow> (\<forall>j < c. ctx m' j = ctx m j) \<and> cx_mpShaderInst (ctx m' c) = cx_mpShaderInst (ctx m c)
     \<and> cx_mpAttribs (ctx m' c) = cx_mpAttribs (ctx m c) \<and> length (mc_ctxs m) \<le> length (mc_ctxs m') \<and> ctx_tree m'"

lemma kept_contexts: "kept c m m' \<Longrightarrow> ctx_tree m \<Longrightarrow> keeps_contexts c m m'"
  by (simp add: keeps_contexts_def keeps_def id_key_def)

lemma run_reach_keeps:
  assumes c: "c < length (mc_ctxs m)" and t: "ctx_tree m"
  shows "(\<forall>pc m'. svm_reach env (Run env d n) c (start_run c pc m) m' \<longrightarrow> keeps_contexts c m m')
     \<and> (\<forall>r m'. Run env (Suc d) n c m = Some (r, m') \<longrightarrow> keeps_contexts c m m')"
proof (intro conjI allI impI)
  fix pc m' assume r: "svm_reach env (Run env d n) c (start_run c pc m) m'"
  have k: "kept c m (start_run c pc m)" unfolding start_run_def by (rule upd_keeps) (simp_all add: id_key_def)
  have "kept c (start_run c pc m) m'"
    using reach_kept [OF r Run_good] kept_length [OF k] keeps_tree [OF k t] c by simp
  then show "keeps_contexts c m m'" using keeps_trans [OF k] kept_contexts t by blast
next
  fix r m' assume "Run env (Suc d) n c m = Some (r, m')"
  then have "kept c m m'" using Run_good [of env "Suc d" n] c t unfolding good_run_def by blast
  then show "keeps_contexts c m m'" using t by (rule kept_contexts)
qed

section \<open>The rounds of an illuminance construct\<close>

lemma op_step_eq:
  assumes "op_at (code_of env c m) (cx_mProgramCounter (ctx m c)) k cnt e" and "k \<noteq> OP_RET" and "k < length gOpCodeDefs"
    and "\<not> has_flag (gOpCodeDefs ! k) OPC_FLG_1STISDEST" and "gSlOpCodeFuncs env run ! k = Some f"
  shows "svm_step env run c m = map_option (\<lambda>(r, m'). (case r of Inl e \<Rightarrow> Inl e | Inr _ \<Rightarrow> Inr True, m')) (f c 1 m)"
proof -
  obtain w where w: "GetOpCode env c m = Inr w" "oc_mTableOffset w = k" using assms(1) by (rule op_at_GetOpCode)
  have "cx_mProgramCounter (ctx m c) < length (code_of env c m)" using assms(1) by (simp add: op_at_def)
  then show ?thesis using w assms(2-5) unfolding svm_step_def getDestBlocksN_def Let_def by simp
qed

lemma light_flags: "k \<in> {75, 76} \<Longrightarrow> \<not> has_flag (gOpCodeDefs ! k) OPC_FLG_1STISDEST"
  by (auto simp: gOpCodeDefs_def has_flag_def od_def OPC_FLG_1STISDEST_def OPC_FLG_DIRPOSLIGHT_def
      OPC_FLG_FUNCOP_BEGIN_def)

lemma light_funcs: "k \<in> {75, 76} \<Longrightarrow> gSlOpCodeFuncs env run ! k = pure (Inst_Illuminance (k = 76) env)"
  by (auto simp: gSlOpCodeFuncs_def)

text \<open>A context inside the construct whose body starts at \<open>b\<close>, before the light of index \<open>k\<close>.\<close>

definition in_illuminance :: "SvmEnv \<Rightarrow> nat \<Rightarrow> CPUWord list \<Rightarrow> nat \<Rightarrow> (bool \<times> nat) list \<Rightarrow> nat \<Rightarrow> nat \<Rightarrow> Machine \<Rightarrow> bool" where
  "in_illuminance env c code a ls b k m \<longleftrightarrow> c < length (mc_ctxs m) \<and> ctx_tree m \<and> code_of env c m = code
     \<and> active_lights env c m = Inr (a, ls) \<and> cx_mFopStack (ctx m c) = [FLG_ILLUMINANCE]
     \<and> il_mBodyStartAddr (cx_mIlluminanceCtx (ctx m c)) = b \<and> il_mActLightIdx (cx_mIlluminanceCtx (ctx m c)) = Some k"

lemma kept_lights: "kept c m m' \<Longrightarrow> active_lights env c m' = active_lights env c m"
  by (simp add: keeps_def id_key_def active_lights_def)

text \<open>The instruction records its body and jumps to the end of the construct.\<close>

lemma illuminance_step:
  assumes c: "c < length (mc_ctxs m)" and t: "ctx_tree m" and k: "k \<in> {75, 76}"
    and at: "op_at (code_of env c m) (cx_mProgramCounter (ctx m c)) k cnt e"
    and ls: "active_lights env c m = Inr (a, ls)" "ls \<noteq> []"
    and step: "svm_step env run c m = Some (Inr True, m0)"
  shows "cx_mProgramCounter (ctx m0 c) = e
    \<and> in_illuminance env c (code_of env c m) a ls (cx_mProgramCounter (ctx m c) + cnt + 1) 0 m0"
proof -
  have k2: "k \<noteq> OP_RET" "k < length gOpCodeDefs" using k by (auto simp: OP_RET_def control_rows(4))
  have "svm_step env run c m = map_option (\<lambda>(r, m'). (case r of Inl e \<Rightarrow> Inl e | Inr _ \<Rightarrow> Inr True, m'))
      (Some (Inst_Illuminance (k = 76) env c 1 m))"
    by (rule op_step_eq [OF at k2 light_flags [OF k] light_funcs [OF k, unfolded pure_def]])
  then have i: "Inst_Illuminance (k = 76) env c 1 m = (Inr (), m0)"
    using step by (cases "Inst_Illuminance (k = 76) env c 1 m"; cases "fst (Inst_Illuminance (k = 76) env c 1 m)") auto
  let ?n = "upd c (\<lambda>x. x\<lparr>cx_mProgramCounter := cx_mProgramCounter x + (cnt + 1)\<rparr>) m"
  let ?r = "upd c (\<lambda>x. x\<lparr>cx_mIlluminanceCtx := \<lparr>il_mBodyStartAddr = cx_mProgramCounter x,
                             il_mActLightIdx = Some 0, il_mActLightsN = length ls\<rparr>\<rparr>) ?n"
  let ?g = "upd c (\<lambda>x. x\<lparr>cx_mProgramCounter := e\<rparr>) ?r"
  have "cx_mFopStack (ctx m c) = [] \<and> stx_bind (NextInstruction env c) (\<lambda>_ m.
                   let m = upd c (\<lambda>x. x\<lparr>cx_mIlluminanceCtx := \<lparr>il_mBodyStartAddr = cx_mProgramCounter x,
                             il_mActLightIdx = Some 0, il_mActLightsN = length ls\<rparr>\<rparr>) m in
                   stx_bind (GotoInstruction c e) (\<lambda>_. fop_push c FLG_ILLUMINANCE) m) m = (Inr (), m0)"
    using i ls unfolding Inst_Illuminance_def
    by (simp add: funcop_end_at [OF at] IsInFuncop_def split: if_splits sum.splits)
  then have s: "cx_mFopStack (ctx m c) = []" and m0: "fop_push c FLG_ILLUMINANCE ?g = (Inr (), m0)"
    by (simp_all add: next_at [OF at] stx_bind_def GotoInstruction_def)
  have m0_eq: "m0 = upd c (\<lambda>x. x\<lparr>cx_mFopStack := cx_mFopStack x @ [FLG_ILLUMINANCE]\<rparr>) ?g"
    using m0 s c by (simp add: fop_push_def split: if_splits)
  have kn: "kept c m ?n" by (rule upd_keeps) (simp_all add: id_key_def)
  have kr: "kept c ?n ?r" by (rule upd_keeps) (simp_all add: id_key_def)
  have kg: "kept c ?r ?g" by (rule upd_keeps) (simp_all add: id_key_def)
  have kp: "kept c ?g (upd c (\<lambda>x. x\<lparr>cx_mFopStack := cx_mFopStack x @ [FLG_ILLUMINANCE]\<rparr>) ?g)"
    by (rule upd_keeps) (simp_all add: id_key_def)
  have k0: "kept c m m0" unfolding m0_eq by (rule keeps_trans [OF keeps_trans [OF keeps_trans [OF kn kr] kg] kp])
  have "code_of env c m0 = code_of env c m" "active_lights env c m0 = Inr (a, ls)" "ctx_tree m0"
    using kept_code [OF k0] kept_lights [OF k0] ls(1) keeps_tree [OF k0 t] by simp_all
  then show ?thesis
    using m0_eq s c by (simp add: in_illuminance_def)
qed

text \<open>
  A visit of the light \<open>i\<close>: its shader runs to the end, and execution goes on at the body with the
  next light to look at.
\<close>

definition visits :: "SvmEnv \<Rightarrow> svm_run \<Rightarrow> nat \<Rightarrow> nat \<Rightarrow> (bool \<times> nat) list \<Rightarrow> nat \<Rightarrow> nat \<Rightarrow> Machine \<times> Machine \<Rightarrow> bool" where
  "visits env run c a ls body i = (\<lambda>(m, m1).
     \<exists>m2. run_light env run c a i (snd (ls ! i))
             (upd c (\<lambda>x. x\<lparr>cx_mIlluminanceCtx := (cx_mIlluminanceCtx x)\<lparr>il_mActLightIdx := Some i\<rparr>\<rparr>) m) = Some (Inr (), m2)
       \<and> m1 = upd c (\<lambda>x. x\<lparr>cx_mIlluminanceCtx := (cx_mIlluminanceCtx x)\<lparr>il_mActLightIdx := Some (i + 1)\<rparr>,
               cx_mProgramCounter := body\<rparr>) m2)"

lemma construct_end_step:
  assumes g: "good_run run" and I: "in_illuminance env c code a ls b k m"
    and pc: "cx_mProgramCounter (ctx m c) = e" and at: "op_at code e 77 0 g'"
    and step: "svm_step env run c m = Some (Inr True, m1)"
  shows "case next_light ls k of
      None \<Rightarrow> cx_mProgramCounter (ctx m1 c) = e + 1 \<and> cx_mFopStack (ctx m1 c) = [] \<and> il_mActLightIdx (cx_mIlluminanceCtx (ctx m1 c)) = None
    | Some i \<Rightarrow> visits env run c a ls b i (m, m1) \<and> in_illuminance env c code a ls b (i + 1) m1"
proof -
  have c: "c < length (mc_ctxs m)" and t: "ctx_tree m" and st: "cx_mFopStack (ctx m c) = [FLG_ILLUMINANCE]"
    and al: "active_lights env c m = Inr (a, ls)" and idx: "il_mActLightIdx (cx_mIlluminanceCtx (ctx m c)) = Some k"
    and bs: "il_mBodyStartAddr (cx_mIlluminanceCtx (ctx m c)) = b"
    and at': "op_at (code_of env c m) (cx_mProgramCounter (ctx m c)) 77 0 g'"
    using I pc at by (simp_all add: in_illuminance_def)
  have "svm_step env run c m = map_option (\<lambda>(r, m'). (case r of Inl e \<Rightarrow> Inl e | Inr _ \<Rightarrow> Inr True, m')) (Inst_FuncopEnd env run c 1 m)"
    by (rule op_step_eq [OF at' _ _ control_flags(1) control_funcs(1)]) (simp_all add: OP_RET_def control_rows(4))
  moreover have "Inst_FuncopEnd env run c 1 m = FuncOpEnd_Illuminance env run c m"
    by (simp add: Inst_FuncopEnd_def fop_top_def st FLG_IFTRUE_def FLG_ORELSE_def FLG_ILLUMINANCE_def)
  ultimately have f: "FuncOpEnd_Illuminance env run c m = Some (Inr (), m1)"
    using step by (cases "FuncOpEnd_Illuminance env run c m") (auto split: sum.splits)
  show ?thesis
  proof (cases "next_light ls k")
    case None
    let ?i = "upd c (\<lambda>x. x\<lparr>cx_mIlluminanceCtx := (cx_mIlluminanceCtx x)\<lparr>il_mActLightIdx := None\<rparr>\<rparr>) m"
    let ?p = "upd c (\<lambda>x. x\<lparr>cx_mFopStack := butlast (cx_mFopStack x)\<rparr>) ?i"
    have at2: "op_at (code_of env c ?p) (cx_mProgramCounter (ctx ?p c)) 77 0 g'" using at' c by (simp add: code_of_upd)
    have "fop_pop c ?i = (Inr (), ?p)" using st c by (simp add: fop_pop_def)
    then have "m1 = upd c (\<lambda>x. x\<lparr>cx_mProgramCounter := cx_mProgramCounter x + (0 + 1)\<rparr>) ?p"
      using f None al idx next_at [OF at2] by (simp add: FuncOpEnd_Illuminance_def stx_bind_def)
    then show ?thesis using None c st pc by simp
  next
    case (Some i)
    let ?m = "upd c (\<lambda>x. x\<lparr>cx_mIlluminanceCtx := (cx_mIlluminanceCtx x)\<lparr>il_mActLightIdx := Some i\<rparr>\<rparr>) m"
    have e: "(case run_light env run c a i (snd (ls ! i)) ?m of
                  None \<Rightarrow> None
                | Some (Inl e, m') \<Rightarrow> Some (Inl e, m')
                | Some (Inr _, m') \<Rightarrow>
                    Some (GotoInstruction c (il_mBodyStartAddr (cx_mIlluminanceCtx (ctx m' c)))
                      (upd c (\<lambda>x. x\<lparr>cx_mIlluminanceCtx := (cx_mIlluminanceCtx x)\<lparr>il_mActLightIdx := Some (i + 1)\<rparr>\<rparr>) m'))) = Some (Inr (), m1)"
      using f al idx Some unfolding FuncOpEnd_Illuminance_def by simp
    obtain r2 m2 where 2: "run_light env run c a i (snd (ls ! i)) ?m = Some (r2, m2)"
      using e by (cases "run_light env run c a i (snd (ls ! i)) ?m") auto
    then have r2: "r2 = Inr ()" using e by (cases r2) auto
    have k: "kept c m ?m" by (rule upd_keeps) (simp_all add: id_key_def)
    have s2: "still c ?m m2" by (rule run_light_still [OF g _ keeps_tree [OF k t] 2]) (use c in simp)
    have c2: "c < length (mc_ctxs m2)" using c kept_length [OF s2] by simp
    have k2: "kept c m m2" by (rule keeps_trans [OF k still_kept [OF s2]])
    have b2: "il_mBodyStartAddr (cx_mIlluminanceCtx (ctx m2 c)) = b" "cx_mFopStack (ctx m2 c) = [FLG_ILLUMINANCE]"
      using still_D(2,3) [OF s2] bs st c by simp_all
    let ?m1 = "upd c (\<lambda>x. x\<lparr>cx_mIlluminanceCtx := (cx_mIlluminanceCtx x)\<lparr>il_mActLightIdx := Some (i + 1)\<rparr>, cx_mProgramCounter := b\<rparr>) m2"
    have m1: "m1 = ?m1"
      using e 2 r2 b2(1) c2 by (simp add: GotoInstruction_def upd_def)
    have "kept c m2 ?m1" by (rule upd_keeps) (simp_all add: id_key_def)
    then have k1: "kept c m m1" unfolding m1 using k2 keeps_trans by blast
    have "code_of env c m1 = code" "active_lights env c m1 = Inr (a, ls)" "ctx_tree m1"
      using kept_code [OF k1] kept_lights [OF k1] keeps_tree [OF k1 t] al I by (simp_all add: in_illuminance_def)
    then have "in_illuminance env c code a ls b (i + 1) m1"
      using b2 c2 m1 by (simp add: in_illuminance_def)
    moreover have "visits env run c a ls b i (m, m1)" using 2 r2 m1 unfolding visits_def by auto
    ultimately show ?thesis using Some by simp
  qed
qed

text \<open>
  The rounds: the machine comes to the end of the construct, and its \<open>funcopend\<close> either leaves the
  construct or goes on at the body, which runs until it comes to the end again with the record of
  the construct and the stack of open constructs as they were at its start. The list has the states
  at the end of the construct and at the start of the body, for every round.
\<close>

inductive illum_rounds :: "SvmEnv \<Rightarrow> svm_run \<Rightarrow> nat \<Rightarrow> nat \<Rightarrow> (Machine \<times> Machine) list \<Rightarrow> Machine \<Rightarrow> Machine \<Rightarrow> bool"
  for env :: SvmEnv and run :: svm_run and c :: nat and e :: nat where
  over: "cx_mProgramCounter (ctx m c) = e \<Longrightarrow> svm_step env run c m = Some (Inr True, m') \<Longrightarrow>
    il_mActLightIdx (cx_mIlluminanceCtx (ctx m' c)) = None \<Longrightarrow> illum_rounds env run c e [] m m'"
| body: "cx_mProgramCounter (ctx m c) = e \<Longrightarrow> svm_step env run c m = Some (Inr True, m1) \<Longrightarrow>
    il_mActLightIdx (cx_mIlluminanceCtx (ctx m1 c)) \<noteq> None \<Longrightarrow>
    svm_reach env run c m1 m2 \<Longrightarrow> cx_mProgramCounter (ctx m2 c) = e \<Longrightarrow>
    cx_mIlluminanceCtx (ctx m2 c) = cx_mIlluminanceCtx (ctx m1 c) \<Longrightarrow> cx_mFopStack (ctx m2 c) = cx_mFopStack (ctx m1 c) \<Longrightarrow>
    illum_rounds env run c e rs m2 m' \<Longrightarrow> illum_rounds env run c e ((m, m1) # rs) m m'"

lemma next_light_None: "next_light ls k = None \<Longrightarrow> filter (\<lambda>i. \<not> fst (ls ! i)) [k..<length ls] = []"
proof -
  have "find_from P xs i = None \<Longrightarrow> \<forall>x \<in> set xs. \<not> P x" for P and xs :: "(bool \<times> nat) list" and i
    by (induction xs arbitrary: i) (auto split: if_splits)
  moreover assume "next_light ls k = None"
  ultimately have all: "\<forall>x \<in> set (drop k ls). fst x" unfolding next_light_def by blast
  have "fst (ls ! i)" if "k \<le> i" "i < length ls" for i
  proof -
    have "drop k ls ! (i - k) = ls ! i" "i - k < length (drop k ls)" using that by simp_all
    then have "ls ! i \<in> set (drop k ls)" by (metis nth_mem)
    then show ?thesis using all by blast
  qed
  then show ?thesis by (auto simp: filter_empty_conv)
qed

lemma next_light_Some:
  "next_light ls k = Some i \<Longrightarrow>
     filter (\<lambda>i. \<not> fst (ls ! i)) [k..<length ls] = i # filter (\<lambda>i. \<not> fst (ls ! i)) [i + 1..<length ls] \<and> i < length ls"
proof -
  assume n: "next_light ls k = Some i"
  have first: "find_from P xs b = Some j \<Longrightarrow> b \<le> j \<and> j < b + length xs \<and> P (xs ! (j - b)) \<and> (\<forall>x < j - b. \<not> P (xs ! x))"
    for P and xs :: "(bool \<times> nat) list" and b j
  proof (induction xs arbitrary: b)
    case (Cons y ys)
    show ?case
    proof (cases "P y")
      case False
      then have I: "Suc b \<le> j \<and> j < Suc b + length ys \<and> P (ys ! (j - Suc b)) \<and> (\<forall>x < j - Suc b. \<not> P (ys ! x))"
        using Cons.IH [of "Suc b"] Cons.prems by simp
      then have "\<not> P ((y # ys) ! x)" if "x < j - b" for x using that False by (cases x) auto
      then show ?thesis using I by (auto simp: nth_Cons')
    qed (use Cons.prems in auto)
  qed simp
  have i: "k \<le> i" "i < k + length (drop k ls)" "\<not> fst (drop k ls ! (i - k))" "\<forall>x < i - k. fst (drop k ls ! x)"
    using first [OF n [unfolded next_light_def]] by simp_all
  then have il: "i < length ls" and kl: "k \<le> length ls" by auto
  have at: "\<not> fst (ls ! i)" using i(1,3) kl il by (simp add: nth_drop)
  have before: "fst (ls ! x)" if "k \<le> x" "x < i" for x
    using i(4) that kl by (metis diff_less_mono le_add_diff_inverse nth_drop)
  have "[k..<length ls] = [k..<i] @ i # [i + 1..<length ls]"
    using i(1) il by (metis Suc_eq_plus1 le_Suc_ex less_imp_le_nat upt_add_eq_append upt_conv_Cons)
  moreover have "filter (\<lambda>i. \<not> fst (ls ! i)) [k..<i] = []" using before by (auto simp: filter_empty_conv)
  ultimately show ?thesis using at il by simp
qed

lemma rounds_visit:
  assumes "illum_rounds env run c e rs m m'" and g: "good_run run" and at: "op_at code e 77 0 g'"
    and "in_illuminance env c code a ls b k m"
  shows "list_all2 (visits env run c a ls b) (filter (\<lambda>i. \<not> fst (ls ! i)) [k..<length ls]) rs
    \<and> cx_mProgramCounter (ctx m' c) = e + 1 \<and> cx_mFopStack (ctx m' c) = []
    \<and> il_mActLightIdx (cx_mIlluminanceCtx (ctx m' c)) = None"
  using assms(1,4)
proof (induction arbitrary: k rule: illum_rounds.induct)
  case (over m m')
  have n: "next_light ls k = None"
    using construct_end_step [OF g over.prems over.hyps(1) at over.hyps(2)] over.hyps(3)
    by (cases "next_light ls k") (auto simp: in_illuminance_def)
  then show ?case using construct_end_step [OF g over.prems over.hyps(1) at over.hyps(2)] next_light_None by simp
next
  case (body m m1 m2 rs m')
  obtain i where n: "next_light ls k = Some i"
    using construct_end_step [OF g body.prems body.hyps(1) at body.hyps(2)] body.hyps(3)
    by (cases "next_light ls k") auto
  then have v: "visits env run c a ls b i (m, m1)" and I: "in_illuminance env c code a ls b (i + 1) m1"
    using construct_end_step [OF g body.prems body.hyps(1) at body.hyps(2)] by simp_all
  have k2: "kept c m1 m2 \<and> c < length (mc_ctxs m2) \<and> ctx_tree m2"
    by (rule reach_kept [OF body.hyps(4) g]) (use I in \<open>simp_all add: in_illuminance_def\<close>)
  then have "in_illuminance env c code a ls b (i + 1) m2"
    using I body.hyps(6,7) kept_code [of c m1 m2 env] kept_lights [of c m1 m2 env] by (simp add: in_illuminance_def)
  then show ?case using body.IH [of "i + 1"] v next_light_Some [OF n] by simp
qed

section \<open>An example\<close>

text \<open>
  A surface shader with an \<open>illuminance\<close> whose body loads a number, an ambient light and another
  one that runs a light shader.
\<close>

definition lit_code :: "CPUWord list" where
  "lit_code = [if_op 75 1 5, W_Symbol \<lparr>sw_mTableOffset = 0, sw_mIsVarying = False\<rparr>,
     if_op 34 2 INVALID_ADDR, W_Symbol \<lparr>sw_mTableOffset = 0, sw_mIsVarying = False\<rparr>, W_ImmFloat (Fin 1),
     if_op 77 0 INVALID_ADDR, if_op 0 0 INVALID_ADDR]"

definition lit_surface :: SvmShader where
  "lit_surface = (SvmShader_new ''surface'')\<lparr>sh_mStartPC := Some 0, sh_mCode := lit_code\<rparr>"

definition lit_light :: SvmShader where
  "lit_light = (SvmShader_new ''light'')\<lparr>sh_mStartPC := Some 0, sh_mCode := [if_op 0 0 INVALID_ADDR]\<rparr>"

definition lit_env :: SvmEnv where
  "lit_env = (one_env lit_surface)\<lparr>ev_insts := [one_inst lit_surface, one_inst lit_light],
     ev_lights := (\<lambda>_. [(True, 1), (False, 1)]),
     ev_gridSyms := [SymbolI_new (Symbol_new\<lparr>sym_mName := ''L''\<rparr>) 1]\<rparr>"

definition lit_data :: "real \<Rightarrow> SvmValue list" where
  "lit_data x = [SetDataRW (Some (Own_data (D_float [splat x]))) Symbol_new True]"

definition lit_ctx :: "nat \<Rightarrow> U32 list \<Rightarrow> nat option \<Rightarrow> nat list \<Rightarrow> real \<Rightarrow> Context" where
  "lit_ctx pc st idx lights x = Context_new\<lparr>cx_mpShaderInst := Some 0, cx_mpAttribs := Some 0, cx_mpDataSegment := Some (lit_data x),
     cx_mProgramCounter := pc, cx_mFopStack := st, cx_mpActLightsCtxs := lights,
     cx_mIlluminanceCtx := \<lparr>il_mBodyStartAddr = 2, il_mActLightIdx = idx, il_mActLightsN = 2\<rparr>\<rparr>"

definition lit_start :: Machine where
  "lit_start = \<lparr>mc_grid = [], mc_ctxs = [Context_new\<lparr>cx_mpShaderInst := Some 0, cx_mpAttribs := Some 0,
     cx_mpDataSegment := Some (lit_data 0)\<rparr>]\<rparr>"

definition light_ctx :: Context where
  "light_ctx = Context_new\<lparr>cx_mpShaderInst := Some 1, cx_mpAttribs := Some 0, cx_mpDataSegment := Some [],
     cx_mPointsN := 4, cx_mBlocksN := 1\<rparr>"

definition lit_machine :: "nat \<Rightarrow> U32 list \<Rightarrow> nat option \<Rightarrow> real \<Rightarrow> Machine" where
  "lit_machine pc st idx x = \<lparr>mc_grid = [], mc_ctxs = [lit_ctx pc st idx [1, 2] x, Context_new, light_ctx]\<rparr>"

abbreviation lit_run :: svm_run where
  "lit_run \<equiv> Run lit_env 1 1"

lemma lit_insts: "inst_of lit_env 0 lit_start = Inr (one_inst lit_surface)" "si_moShader (one_inst sh) = sh"
  by (simp_all add: inst_of_def lit_env_def lit_start_def one_inst_def)

lemma lit_code_of: "cx_mpShaderInst (ctx m c) = Some 0 \<Longrightarrow> code_of lit_env c m = lit_code"
  by (simp add: code_of_def inst_of_def lit_env_def one_inst_def lit_surface_def)

lemma lit_begins: "svm_step lit_env run 0 lit_start =
    Some (Inr True, \<lparr>mc_grid = [], mc_ctxs = [lit_ctx 5 [FLG_ILLUMINANCE] (Some 0) [] 0]\<rparr>)"
proof -
  have "Inst_Illuminance False lit_env 0 1 lit_start = (Inr (), \<lparr>mc_grid = [], mc_ctxs = [lit_ctx 5 [FLG_ILLUMINANCE] (Some 0) [] 0]\<rparr>)"
    by (simp add: Inst_Illuminance_def IsInFuncop_def funcop_end_def active_lights_def lit_start_def operand_def GetOp_def GetOpCode_def
        code_of_def inst_of_def one_inst_def lit_env_def lit_surface_def lit_code_def if_op_def grid_sym_def Context_new_def
        SymbolI_new_def SymbolI_IsName_def NextInstruction_def GotoInstruction_def fop_push_def upd_def lit_ctx_def Let_def
        stx_bind_def INVALID_ADDR_def)
  moreover have "op_at (code_of lit_env 0 lit_start) (cx_mProgramCounter (ctx lit_start 0)) 75 1 5"
    by (simp add: op_at_def lit_code_of lit_start_def Context_new_def lit_code_def if_op_def)
  ultimately show ?thesis
    using op_step_eq [of lit_env 0 lit_start 75 1 5 run] light_flags [of 75] light_funcs [of 75 lit_env run]
    by (simp add: OP_RET_def control_rows(4) pure_def)
qed

lemmas lit_simps = lit_ctx_def lit_machine_def light_ctx_def Context_new_def lit_data_def upd_def active_lights_def
  fop_top_def fop_pop_def stx_bind_def Let_def

lemma lit_light_runs: "lit_run 2 \<lparr>mc_grid = [], mc_ctxs = [x, Context_new,
      Context_new\<lparr>cx_mpShaderInst := Some 1, cx_mpAttribs := Some 0, cx_mpDataSegment := Some []\<rparr>]\<rparr> =
    Some (Inr (), \<lparr>mc_grid = [], mc_ctxs = [x, Context_new, light_ctx]\<rparr>)"
  by (simp add: inst_of_def one_inst_def lit_env_def one_env_def lit_light_def lit_simps InitializeSIMD_def init_consts_def
      simd_blocks_def runFrom_def caught_def start_run_def svm_step_def code_of_def SvmShader_new_def GetOpCode_def GetOp_def
      if_op_def OP_RET_def DMT_SIMD_FLEN_def)

lemma lit_visits: "run_light lit_env lit_run 0 0 1 1 \<lparr>mc_grid = [], mc_ctxs = [lit_ctx 5 [FLG_ILLUMINANCE] (Some 1) [] 0]\<rparr> =
    Some (Inr (), \<lparr>mc_grid = [], mc_ctxs = [lit_ctx 5 [FLG_ILLUMINANCE] (Some 1) [1, 2] 0, Context_new, light_ctx]\<rparr>)"
proof -
  let ?m = "\<lparr>mc_grid = [], mc_ctxs = [lit_ctx 5 [FLG_ILLUMINANCE] (Some 1) [] 0]\<rparr>"
  let ?n = "\<lparr>mc_grid = [], mc_ctxs = [lit_ctx 5 [FLG_ILLUMINANCE] (Some 1) [1, 2] 0, Context_new, Context_new]\<rparr>"
  have "ActLightsCtxs_CheckInit lit_env 0 ?m = ?n"
    by (simp add: ActLightsCtxs_CheckInit_def lit_env_def lit_simps numeral_2_eq_2)
  moreover have "SetupIfChanged lit_env 2 0 1 0 0 ?n = (Inr (), ?n\<lparr>mc_ctxs := (mc_ctxs ?n)[2 := Context_new\<lparr>cx_mpShaderInst := Some 1,
      cx_mpAttribs := Some 0, cx_mpDataSegment := Some []\<rparr>]\<rparr>)"
    by (simp add: SetupIfChanged_def lit_env_def Bind_def one_inst_def lit_light_def SvmShader_new_def lit_simps)
  ultimately show ?thesis
    using lit_light_runs [of "lit_ctx 5 [FLG_ILLUMINANCE] (Some 1) [1, 2] 0"]
    by (simp add: run_light_def Let_def lit_ctx_def Context_new_def del: Run.simps)
qed

lemma lit_end_at: "cx_mpShaderInst (ctx m 0) = Some 0 \<Longrightarrow> cx_mProgramCounter (ctx m 0) = 5 \<Longrightarrow>
    svm_step lit_env run 0 m = map_option (\<lambda>(r, m'). (case r of Inl e \<Rightarrow> Inl e | Inr _ \<Rightarrow> Inr True, m')) (Inst_FuncopEnd lit_env run 0 1 m)"
  by (rule op_step_eq [where e = "0xFFFF", OF _ _ _ control_flags(1) control_funcs(1)])
    (simp_all add: lit_code_of op_at_def lit_code_def if_op_def OP_RET_def control_rows(4) INVALID_ADDR_def)

lemma lit_first_end: "svm_step lit_env lit_run 0 \<lparr>mc_grid = [], mc_ctxs = [lit_ctx 5 [FLG_ILLUMINANCE] (Some 0) [] 0]\<rparr> =
    Some (Inr True, lit_machine 2 [FLG_ILLUMINANCE] (Some 2) 0)"
proof -
  let ?m = "\<lparr>mc_grid = [], mc_ctxs = [lit_ctx 5 [FLG_ILLUMINANCE] (Some 0) [] 0]\<rparr>"
  have "upd 0 (\<lambda>x. x\<lparr>cx_mIlluminanceCtx := (cx_mIlluminanceCtx x)\<lparr>il_mActLightIdx := Some 1\<rparr>\<rparr>) ?m =
      \<lparr>mc_grid = [], mc_ctxs = [lit_ctx 5 [FLG_ILLUMINANCE] (Some 1) [] 0]\<rparr>"
    by (simp add: upd_def lit_ctx_def)
  then have "FuncOpEnd_Illuminance lit_env lit_run 0 ?m = Some (Inr (), lit_machine 2 [FLG_ILLUMINANCE] (Some 2) 0)"
    using lit_visits by (simp add: FuncOpEnd_Illuminance_def active_lights_def next_light_def lit_env_def GotoInstruction_def
        lit_simps del: Run.simps)
  moreover have "Inst_FuncopEnd lit_env lit_run 0 1 ?m = FuncOpEnd_Illuminance lit_env lit_run 0 ?m"
    by (simp add: Inst_FuncopEnd_def fop_top_def lit_ctx_def FLG_IFTRUE_def FLG_ORELSE_def FLG_ILLUMINANCE_def)
  ultimately show ?thesis by (subst lit_end_at) (simp_all add: lit_ctx_def del: Run.simps)
qed

lemma lit_body: "svm_step lit_env run 0 (lit_machine 2 [FLG_ILLUMINANCE] (Some 2) 0) =
    Some (Inr True, lit_machine 5 [FLG_ILLUMINANCE] (Some 2) 1)"
proof -
  have f: "gSlOpCodeFuncs lit_env run ! 34 = Some (\<lambda>c n m. Some (Inst_LD1 lit_env c n m))"
    by (simp add: gSlOpCodeFuncs_def pure_def)
  let ?m = "lit_machine 2 [FLG_ILLUMINANCE] (Some 2) 0"
  have m: "cx_mpShaderInst (ctx ?m 0) = Some 0" "cx_mProgramCounter (ctx ?m 0) = 2"
    "cx_mpDataSegment (ctx ?m 0) = Some (lit_data 0)" by (simp_all add: lit_machine_def lit_ctx_def)
  have o: "operand lit_env 0 ?m 1 = Inr (0, False)" "GetImmFloat lit_env 0 ?m 2 = Inr 1"
    by (simp_all add: operand_def GetImmFloat_def GetOp_def lit_code_of m lit_code_def real_of_flt_def)
  have w: "loop_body RT_S 0 0 [] (\<lambda>_ _. Inr (B_s (splat 1))) 0 ?m = (Inr (), lit_machine 2 [FLG_ILLUMINANCE] (Some 2) 1)"
    by (simp add: loop_body_def read_reg_def value_of_def m lit_data_def SetDataRW_def val_data_def read_data_def nth_opt_def
        write_reg_def upd_opt_def set_value_def upd_def lit_machine_def lit_ctx_def)
  have c: "lit_code ! 2 = if_op 34 2 INVALID_ADDR" "length lit_code = 7" by (simp_all add: lit_code_def)
  have n: "NextInstruction lit_env 0 (lit_machine 2 [FLG_ILLUMINANCE] (Some 2) 1) = (Inr (), lit_machine 5 [FLG_ILLUMINANCE] (Some 2) 1)"
    by (simp add: NextInstruction_def GetOpCode_def GetOp_def lit_code_of c if_op_def lit_machine_def lit_ctx_def upd_def)
  have "Inst_LD1 lit_env 0 1 ?m = (Inr (), lit_machine 5 [FLG_ILLUMINANCE] (Some 2) 1)"
    using o w by (simp add: Inst_LD1_def block_loop_def stx_bind_def n stx_return_def)
  moreover have "getDestBlocksN lit_env 0 (gOpCodeDefs ! 34) ?m = Inr 1"
    using o by (simp add: getDestBlocksN_def)
  ultimately show ?thesis
    using m by (simp add: svm_step_def lit_code_of c GetOpCode_def GetOp_def if_op_def OP_RET_def control_rows(4) f)
qed

lemma lit_last_end: "svm_step lit_env run 0 (lit_machine 5 [FLG_ILLUMINANCE] (Some 2) 1) = Some (Inr True, lit_machine 6 [] None 1)"
proof -
  let ?m = "lit_machine 5 [FLG_ILLUMINANCE] (Some 2) 1"
  have n: "NextInstruction lit_env 0 (lit_machine 5 [] None 1) = (Inr (), lit_machine 6 [] None 1)"
    by (simp add: NextInstruction_def GetOpCode_def GetOp_def lit_code_of lit_code_def if_op_def lit_machine_def lit_ctx_def upd_def)
  have u: "upd 0 (\<lambda>x. x\<lparr>cx_mIlluminanceCtx := (cx_mIlluminanceCtx x)\<lparr>il_mActLightIdx := None\<rparr>\<rparr>) ?m = lit_machine 5 [FLG_ILLUMINANCE] None 1"
    "fop_pop 0 (lit_machine 5 [FLG_ILLUMINANCE] None 1) = (Inr (), lit_machine 5 [] None 1)"
    by (simp_all add: upd_def lit_machine_def lit_ctx_def fop_pop_def)
  have "next_light [(True, 1), (False, 1)] 2 = None" by (simp add: next_light_def)
  moreover have "active_lights lit_env 0 ?m = Inr (0, [(True, 1), (False, 1)])"
    "il_mActLightIdx (cx_mIlluminanceCtx (ctx ?m 0)) = Some 2"
    by (simp_all add: active_lights_def lit_env_def lit_machine_def lit_ctx_def)
  ultimately have "FuncOpEnd_Illuminance lit_env run 0 ?m = Some (Inr (), lit_machine 6 [] None 1)"
    by (simp add: FuncOpEnd_Illuminance_def u stx_bind_def n)
  moreover have "Inst_FuncopEnd lit_env run 0 1 ?m = FuncOpEnd_Illuminance lit_env run 0 ?m"
    by (simp add: Inst_FuncopEnd_def fop_top_def lit_machine_def lit_ctx_def FLG_IFTRUE_def FLG_ORELSE_def FLG_ILLUMINANCE_def)
  ultimately show ?thesis by (subst lit_end_at) (simp_all add: lit_machine_def lit_ctx_def)
qed

section \<open>Properties\<close>

text \<open>
  C9: the runs of shaders respect the contexts. In every state that the loop of a shader reaches,
  with all the light shaders it has run on the way and even when the loop never ends, and after
  every run that ends, the contexts made before the shader's own are unchanged, its own context
  keeps its shader and attributes, no context is lost, and the contexts of the lights of every
  context come after that context. A light shader that does not end is itself such a loop, in the
  context of the light.
\<close>

theorem run_keeps_contexts:
  assumes "c < length (mc_ctxs m)" and "ctx_tree m"
  shows "(\<forall>pc m'. svm_reach env (Run env d n) c (start_run c pc m) m' \<longrightarrow> keeps_contexts c m m')
     \<and> (\<forall>r m'. Run env (Suc d) n c m = Some (r, m') \<longrightarrow> keeps_contexts c m m')"
  using assms by (rule run_reach_keeps)

lemma lit_start_facts: "0 < length (mc_ctxs lit_start)" "ctx_tree lit_start"
  by (simp_all add: lit_start_def ctx_tree_def Context_new_def)

lemma lit_starts: "start_run 0 0 lit_start = lit_start"
  by (simp add: start_run_def lit_start_def upd_def Context_new_def)

theorem run_keeps_contexts_witness:
  "\<exists>m'. svm_reach lit_env lit_run 0 (start_run 0 0 lit_start) m' \<and> cx_mpShaderInst (ctx m' 2) = Some 1
     \<and> keeps_contexts 0 lit_start m'"
proof -
  let ?m = "lit_machine 2 [FLG_ILLUMINANCE] (Some 2) 0"
  have "svm_reach lit_env lit_run 0 (start_run 0 0 lit_start) ?m"
    unfolding lit_starts by (rule svm_reach.step [OF svm_reach.step [OF svm_reach.start lit_begins] lit_first_end])
  moreover from this have "keeps_contexts 0 lit_start ?m"
    using run_keeps_contexts [OF lit_start_facts, of lit_env 1 1] by blast
  moreover have "cx_mpShaderInst (ctx ?m 2) = Some 1" by (simp add: lit_machine_def light_ctx_def)
  ultimately show ?thesis by blast
qed

text \<open>
  C11: an \<open>illuminance\<close> construct runs its body once for each active light that is not ambient, in
  the order of the attributes' list of lights, and for no other. The instruction jumps to the end of
  the construct and remembers where its body starts. In round j the \<open>funcopend\<close> there runs the
  shader of the j-th light that is not ambient, to its end, and execution goes on at the start of
  the body; after the last round it leaves the construct behind the \<open>funcopend\<close>. The bodies come
  back to the end with the record of the construct and the stack of open constructs unchanged, and
  no instruction of the shader throws.
\<close>

theorem illuminance_visits_each_light:
  assumes "c < length (mc_ctxs m)" and "ctx_tree m" and "k \<in> {75, 76}"
    and "op_at (code_of env c m) (cx_mProgramCounter (ctx m c)) k cnt e" and "op_at (code_of env c m) e 77 0 g"
    and "active_lights env c m = Inr (a, ls)" and "ls \<noteq> []"
    and "svm_step env (Run env d n) c m = Some (Inr True, m0)" and "illum_rounds env (Run env d n) c e rs m0 m'"
  shows "cx_mProgramCounter (ctx m0 c) = e
    \<and> list_all2 (visits env (Run env d n) c a ls (cx_mProgramCounter (ctx m c) + cnt + 1))
        (filter (\<lambda>i. \<not> fst (ls ! i)) [0..<length ls]) rs
    \<and> cx_mProgramCounter (ctx m' c) = e + 1 \<and> cx_mFopStack (ctx m' c) = []
    \<and> il_mActLightIdx (cx_mIlluminanceCtx (ctx m' c)) = None"
  using illuminance_step [OF assms(1-4,6-8)] rounds_visit [OF assms(9) Run_good assms(5)] by blast

theorem illuminance_visits_each_light_witness:
  "\<exists>rs. illum_rounds lit_env lit_run 0 5 rs \<lparr>mc_grid = [], mc_ctxs = [lit_ctx 5 [FLG_ILLUMINANCE] (Some 0) [] 0]\<rparr> (lit_machine 6 [] None 1)
     \<and> list_all2 (visits lit_env lit_run 0 0 [(True, 1), (False, 1)] 2) [1] rs"
proof -
  let ?m0 = "\<lparr>mc_grid = [], mc_ctxs = [lit_ctx 5 [FLG_ILLUMINANCE] (Some 0) [] 0]\<rparr>"
  let ?m1 = "lit_machine 2 [FLG_ILLUMINANCE] (Some 2) 0" and ?m2 = "lit_machine 5 [FLG_ILLUMINANCE] (Some 2) 1"
  have r: "illum_rounds lit_env lit_run 0 5 [(?m0, ?m1)] ?m0 (lit_machine 6 [] None 1)"
    by (rule illum_rounds.body [OF _ lit_first_end _ svm_reach.step [OF svm_reach.start lit_body] _ _ _
          illum_rounds.over [OF _ lit_last_end]])
      (simp_all add: lit_machine_def lit_ctx_def)
  have at: "op_at (code_of lit_env 0 lit_start) (cx_mProgramCounter (ctx lit_start 0)) 75 1 5"
    "op_at (code_of lit_env 0 lit_start) 5 77 0 0xFFFF"
    by (simp_all add: op_at_def lit_code_of lit_start_def Context_new_def lit_code_def if_op_def INVALID_ADDR_def)
  have al: "active_lights lit_env 0 lit_start = Inr (0, [(True, 1), (False, 1)])"
    by (simp add: active_lights_def lit_start_def lit_env_def)
  have "list_all2 (visits lit_env lit_run 0 0 [(True, 1), (False, 1)] 2) [1] [(?m0, ?m1)]"
    using illuminance_visits_each_light [OF lit_start_facts _ at al _ lit_begins r]
    by (simp add: lit_start_def Context_new_def upt_rec numeral_2_eq_2 del: Run.simps)
  then show ?thesis using r by blast
qed

end
