(* ===== verification/DImage.thy ===== *)
theory DImage
  imports MemFile Scalars CLib
begin

text \<open>
  The images of \<open>DImage/include/DImage.h\<close> and \<open>DImage/src/DImage.cpp\<close>, and the file formats of
  \<open>DImage_BMP.cpp\<close>, \<open>DImage_PPM.cpp\<close>, \<open>DImage_TIFF.cpp\<close> and \<open>DImage_JPEG.cpp\<close>. Sizes are \<open>U32\<close> and wrap.
  The memory of an image is addressed in bytes; where the samples are floats it is the list of
  them, as floats are real numbers here. What libtiff and libjpeg do is a parameter, or, for
  writing, the sequence of the calls they get.
\<close>

section \<open>Images\<close>

datatype SampType = ST_UNKNOWN | ST_U8 | ST_U16 | ST_U32 | ST_F16 | ST_F32

definition MAX_SAMP_PER_PIX :: nat where "MAX_SAMP_PER_PIX = 4"

definition MAX_DIM_SIZE :: U32 where "MAX_DIM_SIZE = push_bit 16 1"

datatype ImgMem = No_mem | Bytes_mem bytes | Floats_mem "real list"

record Image =
  im_mOwnData :: bool
  im_mpData :: ImgMem
  im_mBytesPerRow :: U32
  im_mWd :: U32
  im_mHe :: U32
  im_mSampType :: SampType
  im_mSampPerPix :: U32
  im_mSampNames :: string
  im_mBytesPerSamp :: U32
  im_mBytesPerPix :: U32

definition Image_initBase :: Image where
  "Image_initBase = \<lparr>im_mOwnData = False, im_mpData = No_mem, im_mBytesPerRow = 0, im_mWd = 0, im_mHe = 0,
     im_mSampType = ST_UNKNOWN, im_mSampPerPix = 0, im_mSampNames = replicate MAX_SAMP_PER_PIX (CHR 0x00),
     im_mBytesPerSamp = 0, im_mBytesPerPix = 0\<rparr>"

fun getSampTypeSize :: "SampType \<Rightarrow> U32 res" where
  "getSampTypeSize ST_U8 = Inr 1"
| "getSampTypeSize ST_U16 = Inr 2"
| "getSampTypeSize ST_U32 = Inr 4"
| "getSampTypeSize ST_F16 = Inr 2"
| "getSampTypeSize ST_F32 = Inr 4"
| "getSampTypeSize ST_UNKNOWN = Inl (AssThrow ''Not good sample type !'')"

text \<open>New memory of \<open>n\<close> bytes holds whatever \<open>raw\<close> says: as bytes, or as floats.\<close>

type_synonym raw_mem = "(nat \<Rightarrow> U8) \<times> (nat \<Rightarrow> real)"

definition new_mem :: "raw_mem \<Rightarrow> SampType \<Rightarrow> nat \<Rightarrow> ImgMem" where
  "new_mem raw ty n = (if ty = ST_F32 then Floats_mem (map (snd raw) [0..<n div 4]) else Bytes_mem (map (fst raw) [0..<n]))"

text \<open>
  \<open>Init\<close> leaves what it has set when it throws. Its message prints a \<open>u\<close> number and then an
  \<open>i\<close>. The number of names is checked against the largest dimension, so that more than four
  of them are written past \<open>mSampNames\<close>.
\<close>

definition Image_Init ::
  "raw_mem \<Rightarrow> U32 \<Rightarrow> U32 \<Rightarrow> U32 \<Rightarrow> SampType \<Rightarrow> int \<Rightarrow> string \<Rightarrow> ImgMem option \<Rightarrow> (Image, unit) stx" where
  "Image_Init raw wd he sampPerPix sampType bytesPerRow pSampNames pSrcDataBorrow im =
     (let im1 = im\<lparr>im_mWd := wd, im_mHe := he, im_mSampPerPix := sampPerPix, im_mSampType := sampType\<rparr>; len = length pSampNames
      in if \<not> (wd > 0 \<and> wd \<le> MAX_DIM_SIZE \<and> he > 0 \<and> he \<le> MAX_DIM_SIZE)
         then (Inl (AssThrow (''Unholy image dimensions ! ('' @ show_nat (unat wd) @ ''i, '' @ show_nat (unat he) @ ''i)'')), im1)
         else if \<not> (len = unat sampPerPix \<and> sampPerPix \<le> MAX_DIM_SIZE) then (Inl (AssThrow ''Bad samples definition !''), im1)
         else if MAX_SAMP_PER_PIX < len then (Inl (Undefined_behaviour ''write past mSampNames''), im1)
         else
           let im2 = im1\<lparr>im_mSampNames := pSampNames @ drop len (im_mSampNames im1)\<rparr> in
           case getSampTypeSize sampType of
             Inl e \<Rightarrow> (Inl e, im2)
           | Inr bps \<Rightarrow>
               let bpp = bps * sampPerPix;
                   row = (if bytesPerRow \<le> 0 then (bpp * wd + 63) AND NOT 63 else word_of_int bytesPerRow);
                   im3 = im2\<lparr>im_mBytesPerSamp := bps, im_mBytesPerPix := bpp, im_mBytesPerRow := row\<rparr>
               in (Inr (), (case pSrcDataBorrow of
                     Some d \<Rightarrow> im3\<lparr>im_mOwnData := False, im_mpData := d\<rparr>
                   | None \<Rightarrow> im3\<lparr>im_mOwnData := True, im_mpData := new_mem raw sampType (unat (row * he))\<rparr>)))"

text \<open>The names after the match are not looked at.\<close>

fun match_names :: "nat \<Rightarrow> string \<Rightarrow> string \<Rightarrow> bool res" where
  "match_names i [] names = Inr True"
| "match_names i (c # cs) names =
     (if length names \<le> i then Inl (Undefined_behaviour ''read past mSampNames'')
      else if names ! i \<noteq> c then Inr False
      else match_names (Suc i) cs names)"

definition IsSamplesNames :: "string \<Rightarrow> Image \<Rightarrow> bool res" where
  "IsSamplesNames pMatchSampNames im = match_names 0 pMatchSampNames (im_mSampNames im)"

definition IsSamplesType :: "SampType \<Rightarrow> Image \<Rightarrow> bool" where
  "IsSamplesType ty im = (ty = im_mSampType im)"

section \<open>Pixels\<close>

definition bad_image :: exn where
  "bad_image = Undefined_behaviour ''access outside the image''"

text \<open>\<open>GetPixelPtrRW\<close> and \<open>GetPixelPtrR\<close>: an offset into \<open>mpData\<close>, the sum of two products of 32 bits.\<close>

definition GetPixelPtr :: "U32 \<Rightarrow> U32 \<Rightarrow> Image \<Rightarrow> nat" where
  "GetPixelPtr x y im = unat (im_mBytesPerRow im * y) + unat (x * im_mBytesPerPix im)"

definition read_bytes :: "ImgMem \<Rightarrow> nat \<Rightarrow> nat \<Rightarrow> bytes res" where
  "read_bytes m p n = (case m of
     Bytes_mem bs \<Rightarrow> if p + n \<le> length bs then Inr (take n (drop p bs)) else Inl bad_image
   | _ \<Rightarrow> Inl bad_image)"

definition read_u8 :: "ImgMem \<Rightarrow> nat \<Rightarrow> U8 res" where
  "read_u8 m p = res_bind (read_bytes m p 1) (\<lambda>bs. Inr (hd bs))"

definition read_float :: "ImgMem \<Rightarrow> nat \<Rightarrow> real res" where
  "read_float m p = (case m of
     Floats_mem fs \<Rightarrow> if p mod 4 = 0 \<and> p div 4 < length fs then Inr (fs ! (p div 4)) else Inl bad_image
   | _ \<Rightarrow> Inl bad_image)"

definition write_bytes :: "nat \<Rightarrow> bytes \<Rightarrow> ImgMem \<Rightarrow> ImgMem res" where
  "write_bytes p xs m = (case m of
     Bytes_mem bs \<Rightarrow> if p + length xs \<le> length bs then Inr (Bytes_mem (overwrite bs p xs)) else Inl bad_image
   | _ \<Rightarrow> Inl bad_image)"

definition write_float :: "nat \<Rightarrow> real \<Rightarrow> ImgMem \<Rightarrow> ImgMem res" where
  "write_float p v m = (case m of
     Floats_mem fs \<Rightarrow> if p mod 4 = 0 \<and> p div 4 < length fs then Inr (Floats_mem (fs[p div 4 := v])) else Inl bad_image
   | _ \<Rightarrow> Inl bad_image)"

text \<open>The constant \<open>0xffffffff\<close> as a float.\<close>

definition FLT_U32_MAX :: real where "FLT_U32_MAX = 4294967296"

definition read_uint :: "nat \<Rightarrow> real \<Rightarrow> ImgMem \<Rightarrow> nat \<Rightarrow> real res" where
  "read_uint k mx m p = res_bind (read_bytes m p k) (\<lambda>bs. Inr (1 / mx * real (le_nat bs)))"

text \<open>The loop over the samples: sample \<open>i\<close> of \<open>n\<close> into the array \<open>out\<close>.\<close>

fun get_samps :: "(nat \<Rightarrow> real res) \<Rightarrow> nat \<Rightarrow> nat \<Rightarrow> real list \<Rightarrow> real list res" where
  "get_samps rd i 0 out = Inr out"
| "get_samps rd i (Suc n) out =
     (if i < length out then res_bind (rd i) (\<lambda>v. get_samps rd (Suc i) n (out[i := v])) else Inl bad_image)"

definition GetPixelAsFloat :: "U32 \<Rightarrow> U32 \<Rightarrow> real list \<Rightarrow> Image \<Rightarrow> real list res" where
  "GetPixelAsFloat x y out_samps im =
     (let p = GetPixelPtr x y im; m = im_mpData im; n = unat (im_mSampPerPix im) in
      case im_mSampType im of
        ST_U8 \<Rightarrow> get_samps (\<lambda>i. read_uint 1 255 m (p + i)) 0 n out_samps
      | ST_U16 \<Rightarrow> get_samps (\<lambda>i. read_uint 2 65535 m (p + 2 * i)) 0 n out_samps
      | ST_U32 \<Rightarrow> get_samps (\<lambda>i. read_uint 4 FLT_U32_MAX m (p + 4 * i)) 0 n out_samps
      | ST_F32 \<Rightarrow> get_samps (\<lambda>i. read_float m (p + 4 * i)) 0 n out_samps
      | _ \<Rightarrow> Inr out_samps)"

text \<open>
  The conversion of a float to an integer of \<open>k\<close> bytes truncates, and has no meaning when the
  result does not fit: so it is for \<open>(float)0xffffffff\<close>, to which the third case clamps.
\<close>

definition quantise :: "nat \<Rightarrow> real \<Rightarrow> real \<Rightarrow> bytes res" where
  "quantise k mx v =
     (let n = nat \<lfloor>D_Clamp (mx * v) 0 mx\<rfloor> in
      if n < 256 ^ k then Inr (le_bytes k n) else Inl (Undefined_behaviour ''float out of the range of the integer''))"

definition write_uint :: "nat \<Rightarrow> real \<Rightarrow> nat \<Rightarrow> real \<Rightarrow> ImgMem \<Rightarrow> ImgMem res" where
  "write_uint k mx p v m = res_bind (quantise k mx v) (\<lambda>bs. write_bytes p bs m)"

fun set_samps :: "(nat \<Rightarrow> real \<Rightarrow> ImgMem \<Rightarrow> ImgMem res) \<Rightarrow> nat \<Rightarrow> nat \<Rightarrow> real list \<Rightarrow> ImgMem \<Rightarrow> ImgMem res" where
  "set_samps wr i 0 in_samps m = Inr m"
| "set_samps wr i (Suc n) in_samps m =
     (if i < length in_samps then res_bind (wr i (in_samps ! i) m) (set_samps wr (Suc i) n in_samps) else Inl bad_image)"

definition SetPixelFromFloat :: "U32 \<Rightarrow> U32 \<Rightarrow> real list \<Rightarrow> Image \<Rightarrow> Image res" where
  "SetPixelFromFloat x y in_samps im =
     (let p = GetPixelPtr x y im; m = im_mpData im; n = unat (im_mSampPerPix im) in
      res_bind
        (case im_mSampType im of
           ST_U8 \<Rightarrow> set_samps (\<lambda>i. write_uint 1 255 (p + i)) 0 n in_samps m
         | ST_U16 \<Rightarrow> set_samps (\<lambda>i. write_uint 2 65535 (p + 2 * i)) 0 n in_samps m
         | ST_U32 \<Rightarrow> set_samps (\<lambda>i. write_uint 4 FLT_U32_MAX (p + 4 * i)) 0 n in_samps m
         | ST_F32 \<Rightarrow> set_samps (\<lambda>i. write_float (p + 4 * i)) 0 n in_samps m
         | _ \<Rightarrow> Inr m)
        (\<lambda>m'. Inr (im\<lparr>im_mpData := m'\<rparr>)))"

text \<open>
  \<open>ConvertImages\<close> takes the corners of both rectangles and ignores them. Samples go by position,
  not by name.
\<close>

fun convert_pixels :: "Image \<Rightarrow> (nat \<times> nat) list \<Rightarrow> (Image, unit) stx" where
  "convert_pixels src [] des = (Inr (), des)"
| "convert_pixels src ((x, y) # ps) des =
     (case res_bind (GetPixelAsFloat (of_nat x) (of_nat y) (replicate MAX_SAMP_PER_PIX 0) src)
             (\<lambda>tmp. SetPixelFromFloat (of_nat x) (of_nat y) tmp des) of
        Inl e \<Rightarrow> (Inl e, des)
      | Inr des' \<Rightarrow> convert_pixels src ps des')"

definition raster :: "int \<Rightarrow> int \<Rightarrow> (nat \<times> nat) list" where
  "raster wd he = concat (map (\<lambda>y. map (\<lambda>x. (x, y)) [0..<nat wd]) [0..<nat he])"

definition ConvertImages :: "Image \<Rightarrow> U32 \<Rightarrow> U32 \<Rightarrow> U32 \<Rightarrow> U32 \<Rightarrow> int \<Rightarrow> int \<Rightarrow> (Image, unit) stx" where
  "ConvertImages src dx dy sx sy wd he des =
     (let wd1 = (if wd < 0 then sint (min (im_mWd des) (im_mWd src)) else wd);
          he1 = (if he < 0 then sint (min (im_mHe des) (im_mHe src)) else he)
      in convert_pixels src (raster wd1 he1) des)"

subsection \<open>Quads\<close>

text \<open>
  The offsets of four neighbouring pixels. In \<open>x % mWd\<close> the signed coordinate becomes unsigned; the
  correction after it is meant for a negative remainder, which there never is, and the one for
  \<open>y\<close> is added to \<open>x1\<close>.
\<close>

definition quad_offsets :: "U32 \<Rightarrow> U32 \<Rightarrow> U32 \<Rightarrow> U32 \<Rightarrow> Image \<Rightarrow> nat list" where
  "quad_offsets x1 y1 x2 y2 im = [GetPixelPtr x1 y1 im, GetPixelPtr x2 y1 im, GetPixelPtr x1 y2 im, GetPixelPtr x2 y2 im]"

definition GetPixelQuadWrapR :: "int \<Rightarrow> int \<Rightarrow> Image \<Rightarrow> nat list res" where
  "GetPixelQuadWrapR x y im =
     (let wd = im_mWd im; he = im_mHe im in
      if wd = 0 \<or> he = 0 then Inl (Undefined_behaviour ''division by zero'')
      else
        let x1 = word_of_int x mod wd; x1 = x1 + (wd AND signed_drop_bit 31 x1);
            y1 = word_of_int y mod he; x1 = x1 + (he AND signed_drop_bit 31 y1);
            x2 = x1 + 1; x2 = (if sint wd \<le> sint x2 then x2 - wd else x2);
            y2 = y1 + 1; y2 = (if sint he \<le> sint y2 then y2 - he else y2)
        in Inr (quad_offsets x1 y1 x2 y2 im))"

definition GetPixelQuadClampR :: "int \<Rightarrow> int \<Rightarrow> Image \<Rightarrow> nat list" where
  "GetPixelQuadClampR x y im =
     (let cx = (\<lambda>v. word_of_int (D_Clamp v 0 (sint (im_mWd im) - 1)));
          cy = (\<lambda>v. word_of_int (D_Clamp v 0 (sint (im_mHe im) - 1)))
      in quad_offsets (cx x) (cy y) (cx (x + 1)) (cy (y + 1)) im)"

section \<open>BMP files\<close>

text \<open>Reading through a pointer into the file at offset \<open>p\<close>.\<close>

definition peek :: "MemFile \<Rightarrow> nat \<Rightarrow> nat \<Rightarrow> bytes res" where
  "peek f p n = (if p + n \<le> length (mf_mpData f) then Inr (take n (drop p (mf_mpData f)))
     else Inl (Undefined_behaviour ''read past the file''))"

definition field :: "bytes \<Rightarrow> nat \<Rightarrow> nat \<Rightarrow> nat" where
  "field bs off n = le_nat (take n (drop off bs))"

record BITMAPFILEHEADER =
  bfType :: U16
  bfSize :: U32
  bfReserved1 :: U16
  bfReserved2 :: U16
  bfOffBits :: U32

record BITMAPINFOHEADER =
  biSize :: U32
  biWidth :: U32
  biHeight :: U32
  biPlanes :: U16
  biBitCount :: U16
  biCompression :: U32
  biSizeImage :: U32
  biXPelsPerMeter :: U32
  biYPelsPerMeter :: U32
  biClrUsed :: U32
  biClrImportant :: U32

definition file_header :: "bytes \<Rightarrow> BITMAPFILEHEADER" where
  "file_header b = \<lparr>bfType = of_nat (field b 0 2), bfSize = of_nat (field b 2 4), bfReserved1 = of_nat (field b 6 2),
     bfReserved2 = of_nat (field b 8 2), bfOffBits = of_nat (field b 10 4)\<rparr>"

definition info_header :: "bytes \<Rightarrow> BITMAPINFOHEADER" where
  "info_header b = \<lparr>biSize = of_nat (field b 0 4), biWidth = of_nat (field b 4 4), biHeight = of_nat (field b 8 4),
     biPlanes = of_nat (field b 12 2), biBitCount = of_nat (field b 14 2), biCompression = of_nat (field b 16 4),
     biSizeImage = of_nat (field b 20 4), biXPelsPerMeter = of_nat (field b 24 4), biYPelsPerMeter = of_nat (field b 28 4),
     biClrUsed = of_nat (field b 32 4), biClrImportant = of_nat (field b 36 4)\<rparr>"

definition myBI_RGB :: U32 where "myBI_RGB = 0"

text \<open>The loop never moves on: it looks at the first colour \<open>cnt\<close> times. Colours are blue, green, red.\<close>

fun isPaletteGrayscale :: "bytes \<Rightarrow> nat \<Rightarrow> bool" where
  "isPaletteGrayscale pPal 0 = True"
| "isPaletteGrayscale pPal (Suc n) =
     (if pPal ! 2 \<noteq> pPal ! 1 \<or> pPal ! 2 \<noteq> pPal ! 0 then False else isPaletteGrayscale pPal n)"

text \<open>One row of \<open>n\<close> pixels from offset \<open>p\<close> of the file to offset \<open>d\<close> of the image.\<close>

fun bgr_row :: "MemFile \<Rightarrow> nat \<Rightarrow> nat \<Rightarrow> nat \<Rightarrow> nat \<Rightarrow> nat \<Rightarrow> ImgMem \<Rightarrow> ImgMem res" where
  "bgr_row f spp bpp 0 p d m = Inr m"
| "bgr_row f spp bpp (Suc n) p d m =
     res_bind (peek f p spp) (\<lambda>s.
     res_bind (write_bytes d ([s ! 2, s ! 1, s ! 0] @ drop 3 s) m) (bgr_row f spp bpp n (p + spp) (d + bpp)))"

fun clut_row :: "MemFile \<Rightarrow> nat \<Rightarrow> nat \<Rightarrow> nat \<Rightarrow> nat \<Rightarrow> nat \<Rightarrow> ImgMem \<Rightarrow> ImgMem res" where
  "clut_row f pal bpp 0 p d m = Inr m"
| "clut_row f pal bpp (Suc n) p d m =
     res_bind (peek f p 1) (\<lambda>s. res_bind (peek f (pal + 4 * unat (hd s)) 4) (\<lambda>c.
     res_bind (write_bytes d [c ! 2, c ! 1, c ! 0] m) (clut_row f pal bpp n (p + 1) (d + bpp))))"

definition bmp_row :: "MemFile \<Rightarrow> bool \<Rightarrow> nat \<Rightarrow> nat \<Rightarrow> nat \<Rightarrow> Image \<Rightarrow> ImgMem res" where
  "bmp_row f convertingToTrueCol pal p d im =
     (let m = im_mpData im; n = unat (im_mWd im); bpp = unat (im_mBytesPerPix im) in
      if im_mSampPerPix im = 1 then
        if convertingToTrueCol then clut_row f pal bpp n p d m
        else res_bind (peek f p n) (\<lambda>s. write_bytes d s m)
      else if im_mSampPerPix im = 3 \<or> im_mSampPerPix im = 4 then bgr_row f (unat (im_mSampPerPix im)) bpp n p d m
      else Inr m)"

text \<open>The rows, last first; \<open>n\<close> is how many are left.\<close>

fun bmp_rows :: "int \<Rightarrow> bool \<Rightarrow> nat \<Rightarrow> nat \<Rightarrow> (Image \<times> MemFile, unit) stx" where
  "bmp_rows srcPitch conv pal 0 s = (Inr (), s)"
| "bmp_rows srcPitch conv pal (Suc n) (im, f) =
     (case ReadDataPtr (word_of_int srcPitch) f of
        (Inl e, f') \<Rightarrow> (Inl e, (im, f'))
      | (Inr p, f') \<Rightarrow>
          (case bmp_row f' conv pal (unat p) (GetPixelPtr 0 (of_nat n) im) im of
             Inl e \<Rightarrow> (Inl e, (im, f'))
           | Inr m \<Rightarrow> bmp_rows srcPitch conv pal n (im\<lparr>im_mpData := m\<rparr>, f')))"

text \<open>The samples per pixel, their names, whether a palette is expanded, and where it is.\<close>

definition bmp_format :: "BITMAPINFOHEADER \<Rightarrow> (MemFile, U32 \<times> string \<times> bool \<times> nat) stx" where
  "bmp_format h f =
     (if biBitCount h = 8 then
        let clutSize = (if biClrUsed h \<noteq> 0 then unat (biClrUsed h) else 2 ^ 8) in
        case ReadDataPtr (of_nat clutSize * 4) f of
          (Inl e, f') \<Rightarrow> (Inl e, f')
        | (Inr pal, f') \<Rightarrow>
            (case peek f' (unat pal) 3 of
               Inl e \<Rightarrow> (Inl e, f')
             | Inr c \<Rightarrow> (Inr (if isPaletteGrayscale c clutSize then (1, ''a'', False, unat pal) else (3, ''rgb'', True, unat pal)), f'))
      else if biBitCount h = 24 then (Inr (3, ''rgb'', False, 0), f)
      else if biBitCount h = 32 then (Inr (4, ''rgba'', False, 0), f)
      else (Inl (AssThrow (''Cannot read BMP files with '' @ show_nat (unat (biBitCount h)) @ '' bits per pixel'')), f))"

definition bmp_pitch :: "BITMAPINFOHEADER \<Rightarrow> int" where
  "bmp_pitch h = sint ((biWidth h * ucast (biBitCount h) div 8 + 3) AND NOT 3)"

text \<open>
  A header in a file: \<open>n\<close> bytes at the read position, which moves behind them.
\<close>

definition read_header :: "nat \<Rightarrow> (MemFile, bytes) stx" where
  "read_header n = stx_bind (ReadDataPtr (of_nat n)) (\<lambda>p f. (peek f (unat p) n, f))"

text \<open>
  \<open>DASSTHROW\<close> throws when its condition is false: the conditions on the larger header and on the
  compression are the wrong way round.
\<close>

definition bmp_open :: "(MemFile, BITMAPINFOHEADER) stx" where
  "bmp_open =
     stx_bind (read_header 14) (\<lambda>fh.
     if \<not> bfSize (file_header fh) \<noteq> 14 then stx_throw (AssThrow ''Unknown BMP format'')
     else stx_bind (read_header 40) (\<lambda>ih.
       let h = info_header ih; sizeDiff = sint (ucast (biSize h) - 40 :: size_t) in
       if \<not> sizeDiff < 0 then stx_throw (AssThrow ''Unknown BMP format'')
       else if \<not> biCompression h \<noteq> myBI_RGB then stx_throw (AssThrow ''Unsupported BMP format'')
       else stx_bind (MemFile_SeekFromCur sizeDiff) (\<lambda>_. stx_return h)))"

definition LoadBMP :: "raw_mem \<Rightarrow> (Image \<times> MemFile, unit) stx" where
  "LoadBMP raw s =
     (case stx_bind bmp_open (\<lambda>h. stx_bind (bmp_format h) (\<lambda>fmt. stx_return (h, fmt))) (snd s) of
        (Inl e, f) \<Rightarrow> (Inl e, (fst s, f))
      | (Inr (h, sampPerPix, pSampNames, conv, pal), f) \<Rightarrow>
          (case Image_Init raw (biWidth h) (biHeight h) sampPerPix ST_U8 (- 1) pSampNames None (fst s) of
             (Inl e, im) \<Rightarrow> (Inl e, (im, f))
           | (Inr _, im) \<Rightarrow> bmp_rows (bmp_pitch h) conv pal (unat (biHeight h)) (im, f)))"

section \<open>PPM files\<close>

text \<open>
  The macro \<open>DASSTHROW (c, ("..." , name))\<close> passes the comma expression \<open>("...", name)\<close>, that is the
  name, as the format of the message: a percent sign in it has no defined meaning.
\<close>

definition name_as_format :: "string \<Rightarrow> exn" where
  "name_as_format pFName = (if CHR ''%'' \<in> set pFName then Undefined_behaviour ''format string'' else AssThrow pFName)"

definition text_bytes :: "string \<Rightarrow> bytes" where
  "text_bytes s = map (\<lambda>c. of_nat (of_char c)) s"

definition newline :: string where "newline = [CHR 0x0A]"

definition ppm_header :: "string \<Rightarrow> Image \<Rightarrow> string" where
  "ppm_header pFName im = ''P6'' @ newline @ ''# '' @ pFName @ newline
     @ show_int (sint (im_mWd im)) @ '' '' @ show_int (sint (im_mHe im)) @ newline
     @ show_int (2 ^ (unat (im_mBytesPerSamp im) * 8) - 1) @ newline"

definition ppm_pixel :: "Image \<Rightarrow> nat \<times> nat \<Rightarrow> bytes res" where
  "ppm_pixel im xy =
     (let p = GetPixelPtr (of_nat (fst xy)) (of_nat (snd xy)) im; n = im_mSampPerPix im in
      if n = 1 then res_bind (read_bytes (im_mpData im) p 1) (\<lambda>b. Inr [b ! 0, b ! 0, b ! 0])
      else if n = 2 then res_bind (read_bytes (im_mpData im) p 2) (\<lambda>b. Inr [b ! 0, b ! 1, 0])
      else if n = 3 then res_bind (read_bytes (im_mpData im) p 3) (\<lambda>b. Inr [b ! 0, b ! 1, b ! 2])
      else Inl (Undefined_behaviour ''uninitialised colour''))"

fun ppm_pixels :: "Image \<Rightarrow> (nat \<times> nat) list \<Rightarrow> bytes \<Rightarrow> unit res \<times> bytes" where
  "ppm_pixels im [] acc = (Inr (), acc)"
| "ppm_pixels im (xy # ps) acc =
     (case ppm_pixel im xy of Inl e \<Rightarrow> (Inl e, acc) | Inr b \<Rightarrow> ppm_pixels im ps (acc @ b))"

text \<open>The content of the file, if it could be opened. It is empty already when the format is refused.\<close>

definition SavePPM :: "bool \<Rightarrow> string \<Rightarrow> Image \<Rightarrow> unit res \<times> bytes option" where
  "SavePPM opens pFName im =
     (if \<not> opens then (Inl (name_as_format pFName), None)
      else if \<not> (im_mSampPerPix im \<le> 3 \<and> im_mBytesPerSamp im = 1) then (Inl (name_as_format pFName), Some [])
      else case ppm_pixels im (raster (uint (im_mWd im)) (uint (im_mHe im))) (text_bytes (ppm_header pFName im)) of
             (r, b) \<Rightarrow> (r, Some b))"

section \<open>TIFF files\<close>

text \<open>
  The callbacks libtiff reads through: \<open>tsize_t\<close> is an \<open>int\<close>, \<open>toff_t\<close> unsigned, so that a negative
  offset from the current position becomes a large one. The answer after an exception is \<open>- 1\<close>.
\<close>

definition or_minus_one :: "'a \<Rightarrow> 'a res \<Rightarrow> 'a res" where
  "or_minus_one v r = (case r of Inl (Undefined_behaviour s) \<Rightarrow> r | Inl e \<Rightarrow> Inr v | Inr a \<Rightarrow> Inr a)"

definition SEEK_SET :: int where "SEEK_SET = 0"
definition SEEK_CUR :: int where "SEEK_CUR = 1"
definition SEEK_END :: int where "SEEK_END = 2"

definition tiff_seekProc :: "U32 \<Rightarrow> int \<Rightarrow> MemFile \<Rightarrow> U32 res \<times> MemFile" where
  "tiff_seekProc offset wh f =
     (let at_end = (\<lambda>_. (\<lambda>g. (Inr (ucast (mf_mReadPos g)), g)));
          (r, f') = (if wh = SEEK_SET then stx_bind (MemFile_SeekSet (ucast offset)) at_end f
             else if wh = SEEK_CUR then stx_bind (MemFile_SeekFromCur (uint offset)) at_end f
             else if wh = SEEK_END then stx_bind (MemFile_SeekFromEnd (uint offset)) at_end f
             else (Inr (- 1), f))
      in (or_minus_one (- 1) r, f'))"

definition tiff_readProc :: "int \<Rightarrow> MemFile \<Rightarrow> (int \<times> bytes) res \<times> MemFile" where
  "tiff_readProc nbytes f =
     (let (r, f') = ReadData (word_of_int nbytes) f
      in (or_minus_one (- 1, []) (res_bind r (\<lambda>d. Inr (nbytes, d))), f'))"

text \<open>
  What libtiff finds in a file: whether it opens, the fields, whether the buffer can be allocated,
  and the raster it decodes to.
\<close>

record tiff_file =
  tf_opens :: bool
  tf_w :: U32
  tf_h :: U32
  tf_spp :: U16
  tf_buffer :: bool
  tf_raster :: "U32 list option"

definition tiff_samples :: "nat \<Rightarrow> U32 \<Rightarrow> bytes" where
  "tiff_samples spp v = take spp [ucast v, ucast (drop_bit 8 v), ucast (drop_bit 16 v), ucast (drop_bit 24 v)]"

fun tiff_row :: "nat \<Rightarrow> U32 list \<Rightarrow> nat \<Rightarrow> nat \<Rightarrow> nat \<Rightarrow> ImgMem \<Rightarrow> ImgMem res" where
  "tiff_row spp buf 0 srcIdx d m = Inr m"
| "tiff_row spp buf (Suc n) srcIdx d m =
     (if srcIdx < length buf
      then res_bind (write_bytes d (tiff_samples spp (buf ! srcIdx)) m) (tiff_row spp buf n (Suc srcIdx) (d + spp))
      else Inl (Undefined_behaviour ''read past the raster''))"

fun tiff_rows :: "nat \<Rightarrow> U32 list \<Rightarrow> nat \<Rightarrow> nat list \<Rightarrow> Image \<Rightarrow> Image res" where
  "tiff_rows spp buf srcIdx [] im = Inr im"
| "tiff_rows spp buf srcIdx (y # ys) im =
     (case tiff_row spp buf (unat (im_mWd im)) srcIdx (GetPixelPtr 0 (of_nat y) im) (im_mpData im) of
        Inl e \<Rightarrow> Inl e
      | Inr m \<Rightarrow> tiff_rows spp buf (srcIdx + unat (im_mWd im)) ys (im\<lparr>im_mpData := m\<rparr>))"

definition LoadTIFF :: "raw_mem \<Rightarrow> tiff_file \<Rightarrow> string \<Rightarrow> Image \<Rightarrow> unit res \<times> Image" where
  "LoadTIFF raw t pFName im =
     (if \<not> tf_opens t then (Inl (name_as_format pFName), im)
      else if \<not> tf_buffer t then (Inl Bad_alloc, im)
      else case tf_raster t of
        None \<Rightarrow> (Inl (name_as_format pFName), im)
      | Some buf \<Rightarrow>
          (case (if tf_spp t = 1 then Some ''y'' else if tf_spp t = 3 then Some ''rgb'' else if tf_spp t = 4 then Some ''rgba'' else None) of
             None \<Rightarrow> (Inl (name_as_format pFName), im)
           | Some pChansStr \<Rightarrow>
               (case Image_Init raw (tf_w t) (tf_h t) (ucast (tf_spp t)) ST_U8 (- 1) pChansStr None im of
                  (Inl e, im) \<Rightarrow> (Inl e, im)
                | (Inr _, im) \<Rightarrow>
                    (case tiff_rows (unat (tf_spp t)) buf 0 [0..<unat (tf_h t)] im of
                       Inl e \<Rightarrow> (Inl e, im)
                     | Inr im' \<Rightarrow> (Inr (), im')))))"

text \<open>The calls that \<open>SaveTIFF\<close> makes; a scanline is given by its offset in the image.\<close>

datatype tiff_call =
    Set_IMAGEWIDTH U32 | Set_IMAGELENGTH U32 | Set_PLANARCONFIG_CONTIG | Set_ORIENTATION_TOPLEFT
  | Set_SAMPLEFORMAT_IEEEFP | Set_BITSPERSAMPLE U32 | Set_SAMPLESPERPIXEL nat | Set_PHOTOMETRIC_RGB | Set_MATTEING nat
  | WriteScanline nat nat

definition tiff_layout :: "string \<Rightarrow> Image \<Rightarrow> tiff_call list res" where
  "tiff_layout pFName im =
     (if im_mSampPerPix im = 1 then Inr [Set_SAMPLESPERPIXEL 1]
      else res_bind (if im_mSampPerPix im = 3 then IsSamplesNames ''rgb'' im else Inr False) (\<lambda>rgb.
        if rgb then Inr [Set_PHOTOMETRIC_RGB, Set_SAMPLESPERPIXEL 3]
        else res_bind (if im_mSampPerPix im = 4 then IsSamplesNames ''rgba'' im else Inr False) (\<lambda>rgba.
          if rgba then Inr [Set_PHOTOMETRIC_RGB, Set_SAMPLESPERPIXEL 4, Set_MATTEING 1]
          else Inl (name_as_format pFName))))"

definition SaveTIFF :: "bool \<Rightarrow> string \<Rightarrow> Image \<Rightarrow> unit res \<times> tiff_call list" where
  "SaveTIFF opens pFName im =
     (let start = [Set_IMAGEWIDTH (im_mWd im), Set_IMAGELENGTH (im_mHe im), Set_PLANARCONFIG_CONTIG, Set_ORIENTATION_TOPLEFT];
          fmt = start @ (if im_mSampType im = ST_F32 then [Set_SAMPLEFORMAT_IEEEFP] else []) @ [Set_BITSPERSAMPLE (im_mBytesPerSamp im * 8)]
      in if \<not> opens then (Inl (name_as_format pFName), [])
         else if \<not> im_mSampType im \<noteq> ST_F16 then (Inl (name_as_format pFName), start)
         else case tiff_layout pFName im of
           Inl e \<Rightarrow> (Inl e, fmt)
         | Inr calls \<Rightarrow> (Inr (), fmt @ calls @ map (\<lambda>i. WriteScanline (GetPixelPtr 0 (of_nat i) im) i) [0..<unat (im_mHe im)]))"

section \<open>JPEG files\<close>

text \<open>
  The rows handed to libjpeg, three bytes for each pixel. \<open>write_JPEG_file\<close> takes them at a distance
  of three times the width, whatever the distance of the rows of the image is.
\<close>

fun jpeg_rows :: "ImgMem \<Rightarrow> nat \<Rightarrow> nat \<Rightarrow> nat \<Rightarrow> bytes list \<Rightarrow> unit res \<times> bytes list" where
  "jpeg_rows m row_stride i 0 acc = (Inr (), acc)"
| "jpeg_rows m row_stride i (Suc n) acc =
     (case read_bytes m (i * row_stride) row_stride of
        Inl e \<Rightarrow> (Inl e, acc)
      | Inr b \<Rightarrow> jpeg_rows m row_stride (Suc i) n (acc @ [b]))"

definition write_JPEG_file :: "bool \<Rightarrow> string \<Rightarrow> ImgMem \<Rightarrow> nat \<Rightarrow> nat \<Rightarrow> unit res \<times> bytes list" where
  "write_JPEG_file opens filename image_buffer image_width image_height =
     (if \<not> opens then (Inl (name_as_format filename), [])
      else jpeg_rows image_buffer (image_width * 3) 0 image_height [])"

text \<open>The image is converted unless its names are \<open>rgb\<close> and its samples are not bytes.\<close>

definition SaveJPEG :: "raw_mem \<Rightarrow> bool \<Rightarrow> string \<Rightarrow> Image \<Rightarrow> unit res \<times> bytes list" where
  "SaveJPEG raw opens pFName img =
     (let wd = unat (im_mWd img); he = unat (im_mHe img) in
      case IsSamplesNames ''rgb'' img of
        Inl e \<Rightarrow> (Inl e, [])
      | Inr rgb \<Rightarrow>
          if \<not> rgb \<or> IsSamplesType ST_U8 img then
            (case Image_Init raw (im_mWd img) (im_mHe img) 3 ST_U8 (- 1) ''rgb'' None Image_initBase of
               (Inl e, _) \<Rightarrow> (Inl e, [])
             | (Inr _, tmpImg) \<Rightarrow>
                 (case ConvertImages img 0 0 0 0 (- 1) (- 1) tmpImg of
                    (Inl e, _) \<Rightarrow> (Inl e, [])
                  | (Inr _, tmpImg) \<Rightarrow> write_JPEG_file opens pFName (im_mpData tmpImg) wd he))
          else write_JPEG_file opens pFName (im_mpData img) wd he)"

end
