(* ===== verification/ImageProps.thy ===== *)
theory ImageProps
  imports DImage
begin

text \<open>
  Properties of \<open>DImage\<close>: what an image made by \<open>Init\<close> is, that pixels do not overlap, that
  \<open>ConvertImages\<close> stores every pixel, and what is read from and written to files. The locale
  \<open>sample_store\<close> is the contract that the memory keeps for each type of sample.
\<close>

section \<open>Samples in memory\<close>

text \<open>
  Samples of \<open>k\<close> bytes at multiples of \<open>k\<close>: a write stores \<open>st v\<close> and touches no other sample.
\<close>

locale sample_store =
  fixes k :: nat and rd :: "ImgMem \<Rightarrow> nat \<Rightarrow> real res" and wr :: "nat \<Rightarrow> real \<Rightarrow> ImgMem \<Rightarrow> ImgMem res"
    and st :: "real \<Rightarrow> real" and has :: "nat \<Rightarrow> ImgMem \<Rightarrow> bool"
  assumes k_pos: "0 < k"
    and rd_ok: "has n m \<Longrightarrow> k dvd p \<Longrightarrow> p + k \<le> n \<Longrightarrow> \<exists>v. rd m p = Inr v"
    and wr_ok: "has n m \<Longrightarrow> k dvd p \<Longrightarrow> p + k \<le> n \<Longrightarrow>
      \<exists>m'. wr p v m = Inr m' \<and> has n m' \<and> rd m' p = Inr (st v) \<and> (\<forall>q. k dvd q \<longrightarrow> q \<noteq> p \<longrightarrow> rd m' q = rd m q)"
begin

lemma read_all:
  assumes "\<And>i. i < n \<Longrightarrow> rd m (p + k * (a + i)) = Inr (v (a + i))" and "a + n \<le> length out"
  shows "get_samps (\<lambda>i. rd m (p + k * i)) a n out = Inr (take a out @ map v [a..<a + n] @ drop (a + n) out)"
  using assms
proof (induction n arbitrary: a out)
  case 0
  then show ?case by simp
next
  case (Suc n)
  have r: "rd m (p + k * a) = Inr (v a)" using Suc.prems(1) [of 0] by simp
  have "get_samps (\<lambda>i. rd m (p + k * i)) a (Suc n) out = get_samps (\<lambda>i. rd m (p + k * i)) (Suc a) n (out[a := v a])"
    using Suc.prems(2) r by simp
  also have "\<dots> = Inr (take (Suc a) (out[a := v a]) @ map v [Suc a..<Suc a + n] @ drop (Suc a + n) (out[a := v a]))"
  proof (rule Suc.IH)
    show "rd m (p + k * (Suc a + i)) = Inr (v (Suc a + i))" if "i < n" for i
      using Suc.prems(1) [of "Suc i"] that by simp
  qed (use Suc.prems(2) in simp)
  also have "take (Suc a) (out[a := v a]) = take a out @ [v a]"
    using Suc.prems(2) by (simp add: take_Suc_conv_app_nth)
  also have "drop (Suc a + n) (out[a := v a]) = drop (Suc a + n) out" by (rule drop_update_cancel) simp
  finally show ?case by (simp add: upt_conv_Cons del: upt_Suc)
qed

lemma read_total:
  assumes "has len m" and "k dvd p" and "p + k * n \<le> len" and "n \<le> length out"
  shows "\<exists>vs. length vs = length out \<and> get_samps (\<lambda>i. rd m (p + k * i)) 0 n out = Inr vs"
proof -
  have "\<exists>v. rd m (p + k * i) = Inr v" if "i < n" for i
  proof (rule rd_ok [OF assms(1)])
    show "k dvd p + k * i" using assms(2) by simp
    have "k * i + k \<le> k * n" using that mult_le_mono2 [of "Suc i" n k] by simp
    then show "p + k * i + k \<le> len" using assms(3) by simp
  qed
  then have "\<exists>v. \<forall>i < n. rd m (p + k * i) = Inr (v i)" by (intro choice_iff [THEN iffD1]) blast
  then obtain v where "\<And>i. i < n \<Longrightarrow> rd m (p + k * i) = Inr (v i)" by blast
  then have "get_samps (\<lambda>i. rd m (p + k * i)) 0 n out = Inr (map v [0..<n] @ drop n out)"
    using read_all [of n m p 0 v out] assms(4) by simp
  then show ?thesis using assms(4) by simp
qed

lemma write_all:
  assumes "has len m" and "k dvd p" and "p + k * (a + n) \<le> len" and "a + n \<le> length vs"
  shows "\<exists>m'. set_samps (\<lambda>i. wr (p + k * i)) a n vs m = Inr m' \<and> has len m'
    \<and> (\<forall>i. a \<le> i \<and> i < a + n \<longrightarrow> rd m' (p + k * i) = Inr (st (vs ! i)))
    \<and> (\<forall>q. k dvd q \<longrightarrow> (q < p + k * a \<or> p + k * (a + n) \<le> q) \<longrightarrow> rd m' q = rd m q)"
  using assms
proof (induction n arbitrary: a m)
  case 0
  then show ?case by auto
next
  case (Suc n)
  have d: "k dvd p + k * a" using Suc.prems(2) by simp
  have "k * a + k \<le> k * (a + Suc n)" by (simp add: algebra_simps)
  then have l: "p + k * a + k \<le> len" using Suc.prems(3) by linarith
  from wr_ok [OF Suc.prems(1) d l, of "vs ! a"] obtain m1 where
    w: "wr (p + k * a) (vs ! a) m = Inr m1" and h: "has len m1" and r: "rd m1 (p + k * a) = Inr (st (vs ! a))"
    and o: "\<And>q. k dvd q \<Longrightarrow> q \<noteq> p + k * a \<Longrightarrow> rd m1 q = rd m q" by blast
  from Suc.IH [OF h Suc.prems(2), of "Suc a"] Suc.prems(3,4) obtain m2 where
    s: "set_samps (\<lambda>i. wr (p + k * i)) (Suc a) n vs m1 = Inr m2" and h2: "has len m2"
    and r2: "\<And>i. Suc a \<le> i \<Longrightarrow> i < Suc a + n \<Longrightarrow> rd m2 (p + k * i) = Inr (st (vs ! i))"
    and o2: "\<And>q. k dvd q \<Longrightarrow> q < p + k * Suc a \<or> p + k * (Suc a + n) \<le> q \<Longrightarrow> rd m2 q = rd m1 q" by auto
  have "rd m2 (p + k * a) = Inr (st (vs ! a))" using o2 [OF d] r k_pos by simp
  then have "rd m2 (p + k * i) = Inr (st (vs ! i))" if "a \<le> i" "i < a + Suc n" for i
    using r2 [of i] that by (cases "i = a") simp_all
  moreover have "rd m2 q = rd m q" if "k dvd q" "q < p + k * a \<or> p + k * (a + Suc n) \<le> q" for q
  proof -
    have "q \<noteq> p + k * a" using that(2) k_pos by (auto simp: algebra_simps)
    moreover have "q < p + k * Suc a \<or> p + k * (Suc a + n) \<le> q" using that(2) by (auto simp: algebra_simps)
    ultimately show ?thesis using o2 [OF that(1)] o [OF that(1)] by simp
  qed
  ultimately show ?case using w s h2 Suc.prems(4) by auto
qed

end

text \<open>Bytes, 16-bit words and floats meet the contract.\<close>

definition has_bytes :: "nat \<Rightarrow> ImgMem \<Rightarrow> bool" where
  "has_bytes n m \<longleftrightarrow> (\<exists>bs. m = Bytes_mem bs \<and> length bs = n)"

definition has_floats :: "nat \<Rightarrow> ImgMem \<Rightarrow> bool" where
  "has_floats n m \<longleftrightarrow> (\<exists>fs. m = Floats_mem fs \<and> length fs = n div 4)"

definition rounded :: "real \<Rightarrow> real \<Rightarrow> real" where
  "rounded mx v = of_int \<lfloor>D_Clamp (mx * v) 0 mx\<rfloor> / mx"

lemma D_Clamp_range: "(a :: 'a :: linorder) \<le> b \<Longrightarrow> a \<le> D_Clamp v a b \<and> D_Clamp v a b \<le> b"
  by (auto simp: D_Clamp_def)

lemma quantise_ok:
  assumes "0 \<le> mx" and "mx < 256 ^ k"
  shows "quantise k mx v = Inr (le_bytes k (nat \<lfloor>D_Clamp (mx * v) 0 mx\<rfloor>)) \<and> nat \<lfloor>D_Clamp (mx * v) 0 mx\<rfloor> < 256 ^ k"
proof -
  have "D_Clamp (mx * v) 0 mx < 256 ^ k" "0 \<le> D_Clamp (mx * v) 0 mx" using D_Clamp_range [of 0 mx "mx * v"] assms by linarith+
  then have "nat \<lfloor>D_Clamp (mx * v) 0 mx\<rfloor> < 256 ^ k"
    by (simp add: nat_less_iff floor_less_iff)
  then show ?thesis by (simp add: quantise_def Let_def)
qed

lemma take_drop_overwrite_same: "p + length xs \<le> length bs \<Longrightarrow> take (length xs) (drop p (overwrite bs p xs)) = xs"
  by (simp add: overwrite_def)

lemma take_drop_overwrite_other:
  assumes "p + length xs \<le> length bs" and "q + n \<le> p \<or> p + length xs \<le> q"
  shows "take n (drop q (overwrite bs p xs)) = take n (drop q bs)"
proof (rule nth_equalityI)
  have l: "length (overwrite bs p xs) = length bs" using assms(1) by (simp add: overwrite_def)
  then show "length (take n (drop q (overwrite bs p xs))) = length (take n (drop q bs))" by simp
  fix i
  assume "i < length (take n (drop q (overwrite bs p xs)))"
  then have i: "i < n" "q + i < length bs" using l by auto
  have "overwrite bs p xs ! (q + i) = bs ! (q + i)"
    using assms i by (auto simp: overwrite_def nth_append min_def)
  then show "take n (drop q (overwrite bs p xs)) ! i = take n (drop q bs) ! i" using i l by simp
qed

lemma multiples_apart: "0 < (k :: nat) \<Longrightarrow> k dvd p \<Longrightarrow> k dvd q \<Longrightarrow> q \<noteq> p \<Longrightarrow> q + k \<le> p \<or> p + k \<le> q"
proof -
  assume k: "0 < k" "k dvd p" "k dvd q" "q \<noteq> p"
  then obtain a b where "p = k * a" "q = k * b" by (meson dvdE)
  with k have "b < a \<or> a < b" by auto
  then show ?thesis
  proof
    assume "b < a"
    then have "k * Suc b \<le> k * a" by (intro mult_le_mono2) simp
    then show ?thesis using \<open>p = k * a\<close> \<open>q = k * b\<close> by simp
  next
    assume "a < b"
    then have "k * Suc a \<le> k * b" by (intro mult_le_mono2) simp
    then show ?thesis using \<open>p = k * a\<close> \<open>q = k * b\<close> by simp
  qed
qed

lemma uint_store:
  assumes "0 < k" and "0 < mx" and "mx < 256 ^ k"
  shows "sample_store k (read_uint k mx) (write_uint k mx) (rounded mx) has_bytes"
proof
  show "0 < k" by fact
  fix n m p assume m: "has_bytes n m" and "k dvd p" "p + k \<le> n"
  then show "\<exists>v. read_uint k mx m p = Inr v" by (auto simp: has_bytes_def read_uint_def read_bytes_def)
next
  fix n m p v
  assume "has_bytes n m" and d: "k dvd p" and l: "p + k \<le> n"
  then obtain bs where m: "m = Bytes_mem bs" "length bs = n" by (auto simp: has_bytes_def)
  let ?z = "nat \<lfloor>D_Clamp (mx * v) 0 mx\<rfloor>" let ?m = "Bytes_mem (overwrite bs p (le_bytes k ?z))"
  note q = quantise_ok [OF less_imp_le [OF assms(2)] assms(3), of v]
  have w: "write_uint k mx p v m = Inr ?m" using q m l by (simp add: write_uint_def write_bytes_def)
  have len: "length (overwrite bs p (le_bytes k ?z)) = n" using m l by (simp add: overwrite_def)
  have "take k (drop p (overwrite bs p (le_bytes k ?z))) = le_bytes k ?z"
    using take_drop_overwrite_same [of p "le_bytes k ?z" bs] m l by simp
  then have "read_uint k mx ?m p = Inr (1 / mx * real ?z)"
    using len l q by (simp add: read_uint_def read_bytes_def le_nat_le_bytes)
  moreover have "0 \<le> \<lfloor>D_Clamp (mx * v) 0 mx\<rfloor>" using D_Clamp_range [of 0 mx "mx * v"] assms(2) by simp
  ultimately have r: "read_uint k mx ?m p = Inr (rounded mx v)" by (simp add: rounded_def)
  have "read_uint k mx ?m q = read_uint k mx m q" if "k dvd q" "q \<noteq> p" for q
    using take_drop_overwrite_other [of p "le_bytes k ?z" bs q k] multiples_apart [OF assms(1) d that] m l len
    by (simp add: read_uint_def read_bytes_def)
  with w r len show "\<exists>m'. write_uint k mx p v m = Inr m' \<and> has_bytes n m' \<and> read_uint k mx m' p = Inr (rounded mx v)
      \<and> (\<forall>q. k dvd q \<longrightarrow> q \<noteq> p \<longrightarrow> read_uint k mx m' q = read_uint k mx m q)"
    by (auto simp: has_bytes_def)
qed

interpretation u8: sample_store 1 "read_uint 1 255" "write_uint 1 255" "rounded 255" has_bytes
  by (rule uint_store) simp_all

interpretation u16: sample_store 2 "read_uint 2 65535" "write_uint 2 65535" "rounded 65535" has_bytes
  by (rule uint_store) simp_all

lemma float_index: "4 dvd (p :: nat) \<Longrightarrow> p + 4 \<le> n \<Longrightarrow> p mod 4 = 0 \<and> p div 4 < n div 4"
  by (auto elim!: dvdE)

lemma float_index_inj: "4 dvd p \<Longrightarrow> 4 dvd q \<Longrightarrow> q \<noteq> p \<Longrightarrow> q div 4 \<noteq> p div (4 :: nat)"
  by (auto elim!: dvdE)

interpretation f32: sample_store 4 read_float write_float "\<lambda>v. v" has_floats
proof
  fix n m p
  assume "has_floats n m" and p: "4 dvd p" "p + 4 \<le> n"
  then show "\<exists>v. read_float m p = Inr v" using float_index [OF p] by (auto simp: has_floats_def read_float_def)
next
  fix n m p v
  assume "has_floats n m" and p: "4 dvd p" "p + 4 \<le> n"
  then obtain fs where m: "m = Floats_mem fs" "length fs = n div 4" by (auto simp: has_floats_def)
  let ?m = "Floats_mem (fs[p div 4 := v])"
  have w: "write_float p v m = Inr ?m" and r: "read_float ?m p = Inr v" and h: "has_floats n ?m"
    using m float_index [OF p] by (simp_all add: write_float_def read_float_def has_floats_def)
  have "read_float ?m q = read_float m q" if "4 dvd q" "q \<noteq> p" for q
    using float_index_inj [OF p(1) that] m by (simp add: read_float_def)
  with w r h show "\<exists>m'. write_float p v m = Inr m' \<and> has_floats n m' \<and> read_float m' p = Inr v
      \<and> (\<forall>q. 4 dvd q \<longrightarrow> q \<noteq> p \<longrightarrow> read_float m' q = read_float m q)" by blast
qed simp

section \<open>Images in order\<close>

text \<open>
  The types of samples that pixels are converted between, their size, the memory of an image of
  that type, and what a sample holds after a value was stored in it.
\<close>

fun samp_size :: "SampType \<Rightarrow> nat" where
  "samp_size ST_U16 = 2"
| "samp_size ST_F32 = 4"
| "samp_size _ = 1"

fun has_samps :: "SampType \<Rightarrow> nat \<Rightarrow> ImgMem \<Rightarrow> bool" where
  "has_samps ST_F32 = has_floats"
| "has_samps _ = has_bytes"

fun stored :: "SampType \<Rightarrow> real \<Rightarrow> real" where
  "stored ST_U16 = rounded 65535"
| "stored ST_F32 = (\<lambda>v. v)"
| "stored _ = rounded 255"

fun samp_rd :: "SampType \<Rightarrow> ImgMem \<Rightarrow> nat \<Rightarrow> real res" where
  "samp_rd ST_U16 = read_uint 2 65535"
| "samp_rd ST_F32 = read_float"
| "samp_rd _ = read_uint 1 255"

fun samp_wr :: "SampType \<Rightarrow> nat \<Rightarrow> real \<Rightarrow> ImgMem \<Rightarrow> ImgMem res" where
  "samp_wr ST_U16 = write_uint 2 65535"
| "samp_wr ST_F32 = write_float"
| "samp_wr _ = write_uint 1 255"

definition usual_type :: "SampType \<Rightarrow> bool" where
  "usual_type ty \<longleftrightarrow> ty = ST_U8 \<or> ty = ST_U16 \<or> ty = ST_F32"

lemma type_store: "usual_type ty \<Longrightarrow> sample_store (samp_size ty) (samp_rd ty) (samp_wr ty) (stored ty) (has_samps ty)"
  unfolding usual_type_def using u8.sample_store_axioms u16.sample_store_axioms f32.sample_store_axioms
  by (elim disjE) simp_all

definition img_ok :: "Image \<Rightarrow> bool" where
  "img_ok im \<longleftrightarrow> usual_type (im_mSampType im) \<and> 0 < im_mWd im \<and> im_mWd im \<le> MAX_DIM_SIZE
     \<and> 0 < im_mHe im \<and> im_mHe im \<le> MAX_DIM_SIZE \<and> unat (im_mSampPerPix im) \<le> MAX_SAMP_PER_PIX
     \<and> unat (im_mBytesPerPix im) = samp_size (im_mSampType im) * unat (im_mSampPerPix im)
     \<and> samp_size (im_mSampType im) dvd unat (im_mBytesPerRow im)
     \<and> unat (im_mWd im) * unat (im_mBytesPerPix im) \<le> unat (im_mBytesPerRow im)
     \<and> unat (im_mBytesPerRow im) * unat (im_mHe im) < 2 ^ 32
     \<and> has_samps (im_mSampType im) (unat (im_mBytesPerRow im) * unat (im_mHe im)) (im_mpData im)"

lemma img_okD:
  assumes "img_ok im"
  shows "usual_type (im_mSampType im)" and "unat (im_mWd im) \<le> 65536" and "unat (im_mHe im) \<le> 65536"
    and "unat (im_mSampPerPix im) \<le> MAX_SAMP_PER_PIX"
    and "unat (im_mBytesPerPix im) = samp_size (im_mSampType im) * unat (im_mSampPerPix im)"
    and "samp_size (im_mSampType im) dvd unat (im_mBytesPerRow im)"
    and "unat (im_mWd im) * unat (im_mBytesPerPix im) \<le> unat (im_mBytesPerRow im)"
    and "has_samps (im_mSampType im) (unat (im_mBytesPerRow im) * unat (im_mHe im)) (im_mpData im)"
  using assms unfolding img_ok_def MAX_DIM_SIZE_def by (blast | simp add: word_le_nat_alt)+

definition has_pixel :: "nat \<Rightarrow> nat \<Rightarrow> Image \<Rightarrow> bool" where
  "has_pixel x y im \<longleftrightarrow> x < unat (im_mWd im) \<and> y < unat (im_mHe im)"

lemma pixel_offset:
  assumes "img_ok im" and "has_pixel x y im"
  shows "GetPixelPtr (of_nat x) (of_nat y) im = unat (im_mBytesPerRow im) * y + x * unat (im_mBytesPerPix im)"
    and "unat (im_mBytesPerRow im) * y + x * unat (im_mBytesPerPix im) + unat (im_mBytesPerPix im)
      \<le> unat (im_mBytesPerRow im) * unat (im_mHe im)"
proof -
  let ?row = "unat (im_mBytesPerRow im)" and ?bpp = "unat (im_mBytesPerPix im)" and ?he = "unat (im_mHe im)" and ?wd = "unat (im_mWd im)"
  have xy: "x < ?wd" "y < ?he" using assms(2) by (simp_all add: has_pixel_def)
  have fits: "?wd * ?bpp \<le> ?row" "?row * ?he < 2 ^ 32" using assms(1) unfolding img_ok_def by blast+
  have r: "?row * Suc y \<le> ?row * ?he" using xy by (intro mult_le_mono2) simp
  have p: "Suc x * ?bpp \<le> ?wd * ?bpp" using xy by (intro mult_le_mono1) simp
  show "?row * y + x * ?bpp + ?bpp \<le> ?row * ?he" using r p fits by simp
  have "?row * y < 2 ^ 32" "x * ?bpp < 2 ^ 32" using r p fits by simp_all
  moreover have "?wd < 2 ^ 32" "?he < 2 ^ 32" using unsigned_less [of "im_mWd im"] unsigned_less [of "im_mHe im"] by simp_all
  then have "x < 2 ^ 32" "y < 2 ^ 32" using xy by simp_all
  ultimately show "GetPixelPtr (of_nat x) (of_nat y) im = ?row * y + x * ?bpp"
    by (simp add: GetPixelPtr_def unat_word_ariths unat_of_nat)
qed

lemma pixels_apart:
  assumes "w * b \<le> (r :: nat)" and "x < w" and "x' < w" and "(x, y) \<noteq> (x', y')"
  shows "r * y + x * b + b \<le> r * y' + x' * b \<or> r * y' + x' * b + b \<le> r * y + x * b"
proof -
  have row: "r * u + a * b + b \<le> r * u' + a' * b" if "u < u'" "a < w" for u u' a a'
  proof -
    have "Suc a * b \<le> w * b" using that(2) by (intro mult_le_mono1) simp
    moreover have "r * Suc u \<le> r * u'" using that(1) by (intro mult_le_mono2) simp
    ultimately show ?thesis using assms(1) by simp
  qed
  have col: "r * u + a * b + b \<le> r * u + a' * b" if "a < a'" for u a a'
    using mult_le_mono1 [of "Suc a" a' b] that by simp
  consider "y < y'" | "y' < y" | "y = y'" "x < x'" | "y = y'" "x' < x" using assms(4) by fastforce
  then show ?thesis using row [of y y' x x'] row [of y' y x' x] col [of x x' y] col [of x' x y] assms(2,3) by cases auto
qed

text \<open>A pixel as \<open>GetPixelAsFloat\<close> gives it to \<open>ConvertImages\<close>, four numbers.\<close>

definition pixel :: "nat \<Rightarrow> nat \<Rightarrow> Image \<Rightarrow> real list res" where
  "pixel x y im = GetPixelAsFloat (of_nat x) (of_nat y) (replicate MAX_SAMP_PER_PIX 0) im"

definition pixel_ptr :: "nat \<Rightarrow> nat \<Rightarrow> Image \<Rightarrow> nat" where
  "pixel_ptr x y im = unat (im_mBytesPerRow im) * y + x * unat (im_mBytesPerPix im)"

lemma get_samps_cong: "(\<And>i. a \<le> i \<Longrightarrow> i < a + n \<Longrightarrow> f i = g i) \<Longrightarrow> get_samps f a n out = get_samps g a n out"
proof (induction n arbitrary: a out)
  case 0
  then show ?case by simp
next
  case (Suc n)
  have "f a = g a" using Suc.prems [of a] by simp
  moreover have "get_samps f (Suc a) n out' = get_samps g (Suc a) n out'" for out'
    by (rule Suc.IH) (use Suc.prems in simp)
  ultimately show ?case by simp
qed

lemma pixel_read:
  assumes "img_ok im" and "has_pixel x y im"
  shows "pixel x y im = get_samps (\<lambda>i. samp_rd (im_mSampType im) (im_mpData im) (pixel_ptr x y im + samp_size (im_mSampType im) * i)) 0
    (unat (im_mSampPerPix im)) (replicate MAX_SAMP_PER_PIX 0)"
proof -
  have "usual_type (im_mSampType im)" using assms(1) by (simp add: img_ok_def)
  then show ?thesis unfolding usual_type_def pixel_def GetPixelAsFloat_def Let_def pixel_offset(1) [OF assms] pixel_ptr_def
    by (elim disjE) simp_all
qed

lemma pixel_write:
  assumes "img_ok im" and "has_pixel x y im"
  shows "SetPixelFromFloat (of_nat x) (of_nat y) vs im
    = res_bind (set_samps (\<lambda>i. samp_wr (im_mSampType im) (pixel_ptr x y im + samp_size (im_mSampType im) * i)) 0
        (unat (im_mSampPerPix im)) vs (im_mpData im)) (\<lambda>m. Inr (im\<lparr>im_mpData := m\<rparr>))"
proof -
  have "usual_type (im_mSampType im)" using assms(1) by (simp add: img_ok_def)
  then show ?thesis unfolding usual_type_def SetPixelFromFloat_def Let_def pixel_offset(1) [OF assms] pixel_ptr_def
    by (elim disjE) simp_all
qed

lemma pixel_room:
  assumes "img_ok im" and "has_pixel x y im"
  shows "samp_size (im_mSampType im) dvd pixel_ptr x y im"
    and "pixel_ptr x y im + samp_size (im_mSampType im) * unat (im_mSampPerPix im) \<le> unat (im_mBytesPerRow im) * unat (im_mHe im)"
proof -
  have b: "unat (im_mBytesPerPix im) = samp_size (im_mSampType im) * unat (im_mSampPerPix im)"
    and d: "samp_size (im_mSampType im) dvd unat (im_mBytesPerRow im)" using assms(1) unfolding img_ok_def by blast+
  show "samp_size (im_mSampType im) dvd pixel_ptr x y im" unfolding pixel_ptr_def b using d by simp
  show "pixel_ptr x y im + samp_size (im_mSampType im) * unat (im_mSampPerPix im) \<le> unat (im_mBytesPerRow im) * unat (im_mHe im)"
    using pixel_offset(2) [OF assms] unfolding pixel_ptr_def b by simp
qed

lemma pixel_total: "img_ok im \<Longrightarrow> has_pixel x y im \<Longrightarrow> \<exists>vs. length vs = MAX_SAMP_PER_PIX \<and> pixel x y im = Inr vs"
  using sample_store.read_total [OF type_store, of "im_mSampType im" "unat (im_mBytesPerRow im) * unat (im_mHe im)" "im_mpData im"
      "pixel_ptr x y im" "unat (im_mSampPerPix im)" "replicate MAX_SAMP_PER_PIX 0"] pixel_room [of im x y]
  by (simp add: pixel_read) (simp add: img_ok_def)

text \<open>What a pixel holds after four numbers were stored in it.\<close>

definition stored_pixel :: "Image \<Rightarrow> real list \<Rightarrow> real list" where
  "stored_pixel im vs = map (stored (im_mSampType im)) (take (unat (im_mSampPerPix im)) vs)
     @ replicate (MAX_SAMP_PER_PIX - unat (im_mSampPerPix im)) 0"

lemma set_pixel:
  assumes "img_ok im" and "has_pixel x y im" and "length vs = MAX_SAMP_PER_PIX"
  obtains m where "SetPixelFromFloat (of_nat x) (of_nat y) vs im = Inr (im\<lparr>im_mpData := m\<rparr>)" and "img_ok (im\<lparr>im_mpData := m\<rparr>)"
    and "pixel x y (im\<lparr>im_mpData := m\<rparr>) = Inr (stored_pixel im vs)"
    and "\<And>x' y'. has_pixel x' y' im \<Longrightarrow> (x', y') \<noteq> (x, y) \<Longrightarrow> pixel x' y' (im\<lparr>im_mpData := m\<rparr>) = pixel x' y' im"
proof -
  let ?ty = "im_mSampType im" and ?n = "unat (im_mSampPerPix im)" and ?p = "pixel_ptr x y im"
  let ?len = "unat (im_mBytesPerRow im) * unat (im_mHe im)"
  note ty = img_okD(1) [OF assms(1)] and b = img_okD(5) [OF assms(1)] and w = img_okD(7) [OF assms(1)]
    and h = img_okD(8) [OF assms(1)]
  have n: "?n \<le> length vs" using img_okD(4) [OF assms(1)] assms(3) by simp
  note room = pixel_room [OF assms(1,2)]
  from sample_store.write_all [OF type_store [OF ty] h room(1), of 0 ?n vs] room(2) n obtain m where
    s: "set_samps (\<lambda>i. samp_wr ?ty (?p + samp_size ?ty * i)) 0 ?n vs (im_mpData im) = Inr m" and hm: "has_samps ?ty ?len m"
    and new: "\<And>i. i < ?n \<Longrightarrow> samp_rd ?ty m (?p + samp_size ?ty * i) = Inr (stored ?ty (vs ! i))"
    and old: "\<And>q. samp_size ?ty dvd q \<Longrightarrow> q < ?p \<or> ?p + samp_size ?ty * ?n \<le> q \<Longrightarrow> samp_rd ?ty m q = samp_rd ?ty (im_mpData im) q"
    by auto
  let ?im = "im\<lparr>im_mpData := m\<rparr>"
  have ok: "img_ok ?im" using assms(1) hm unfolding img_ok_def by - (elim conjE, simp)
  have in_new: "has_pixel a c ?im = has_pixel a c im" and ptr: "pixel_ptr a c ?im = pixel_ptr a c im" for a c
    by (simp_all add: has_pixel_def pixel_ptr_def)
  have "pixel x y ?im = get_samps (\<lambda>i. samp_rd ?ty m (?p + samp_size ?ty * i)) 0 ?n (replicate MAX_SAMP_PER_PIX 0)"
    using pixel_read [OF ok, of x y] assms(2) in_new ptr by simp
  also have "\<dots> = Inr (map (\<lambda>i. stored ?ty (vs ! i)) [0..<?n] @ drop ?n (replicate MAX_SAMP_PER_PIX 0))"
    using sample_store.read_all [OF type_store [OF ty], of ?n m ?p 0 "\<lambda>i. stored ?ty (vs ! i)" "replicate MAX_SAMP_PER_PIX 0"] new n assms(3)
    by simp
  also have "map (\<lambda>i. stored ?ty (vs ! i)) [0..<?n] = map (stored ?ty) (take ?n vs)"
    using n by (intro nth_equalityI) simp_all
  finally have px: "pixel x y ?im = Inr (stored_pixel im vs)" by (simp add: stored_pixel_def)
  have other: "pixel x' y' ?im = pixel x' y' im" if i: "has_pixel x' y' im" "(x', y') \<noteq> (x, y)" for x' y'
  proof -
    have ap: "pixel_ptr x' y' im + samp_size ?ty * ?n \<le> ?p \<or> ?p + samp_size ?ty * ?n \<le> pixel_ptr x' y' im"
      using pixels_apart [OF w, of x' x y' y] i assms(2) unfolding pixel_ptr_def b has_pixel_def by blast
    have "samp_rd ?ty m (pixel_ptr x' y' im + samp_size ?ty * j) = samp_rd ?ty (im_mpData im) (pixel_ptr x' y' im + samp_size ?ty * j)"
      if "j < ?n" for j
    proof (rule old)
      show "samp_size ?ty dvd pixel_ptr x' y' im + samp_size ?ty * j" using pixel_room(1) [OF assms(1) i(1)] by simp
      have "0 < samp_size ?ty" by (cases ?ty) simp_all
      then have "samp_size ?ty * j < samp_size ?ty * ?n" using that by simp
      then show "pixel_ptr x' y' im + samp_size ?ty * j < ?p \<or> ?p + samp_size ?ty * ?n \<le> pixel_ptr x' y' im + samp_size ?ty * j"
        using ap by linarith
    qed
    then have "get_samps (\<lambda>j. samp_rd ?ty m (pixel_ptr x' y' im + samp_size ?ty * j)) 0 ?n (replicate MAX_SAMP_PER_PIX 0)
      = get_samps (\<lambda>j. samp_rd ?ty (im_mpData im) (pixel_ptr x' y' im + samp_size ?ty * j)) 0 ?n (replicate MAX_SAMP_PER_PIX 0)"
      by (intro get_samps_cong) simp
    then show ?thesis using pixel_read [OF ok, of x' y'] pixel_read [OF assms(1) i(1)] i(1) in_new ptr by simp
  qed
  show ?thesis
  proof (rule that [OF _ ok px other])
    show "SetPixelFromFloat (of_nat x) (of_nat y) vs im = Inr ?im" using pixel_write [OF assms(1,2), of vs] s by simp
  qed
qed

section \<open>Conversion\<close>

lemma set_raster: "(x, y) \<in> set (raster wd he) \<longleftrightarrow> x < nat wd \<and> y < nat he"
  by (force simp: raster_def)

text \<open>The pixel that a pixel of \<open>src\<close> becomes in \<open>des\<close>.\<close>

definition converted :: "Image \<Rightarrow> Image \<Rightarrow> nat \<Rightarrow> nat \<Rightarrow> real list res" where
  "converted des src x y = res_bind (pixel x y src) (\<lambda>vs. Inr (stored_pixel des vs))"

lemma convert_pixels_ok:
  assumes "img_ok src" and "img_ok des" and "\<And>x y. (x, y) \<in> set ps \<Longrightarrow> has_pixel x y src \<and> has_pixel x y des"
  obtains m where "convert_pixels src ps des = (Inr (), des\<lparr>im_mpData := m\<rparr>)" and "img_ok (des\<lparr>im_mpData := m\<rparr>)"
    and "\<And>x y. (x, y) \<in> set ps \<Longrightarrow> pixel x y (des\<lparr>im_mpData := m\<rparr>) = converted des src x y"
    and "\<And>x y. has_pixel x y des \<Longrightarrow> (x, y) \<notin> set ps \<Longrightarrow> pixel x y (des\<lparr>im_mpData := m\<rparr>) = pixel x y des"
  using assms(2,3)
proof (induction ps arbitrary: des thesis)
  case Nil
  show ?case using Nil.prems(2) by (intro Nil.prems(1) [of "im_mpData des"]) simp_all
next
  case (Cons p ps)
  obtain x y where p: "p = (x, y)" by (cases p)
  have i: "has_pixel x y src" "has_pixel x y des" using Cons.prems(3) [of x y] p by simp_all
  obtain vs where v: "pixel x y src = Inr vs" "length vs = MAX_SAMP_PER_PIX" using pixel_total [OF assms(1) i(1)] by blast
  from set_pixel [OF Cons.prems(2) i(2) v(2)] obtain m1 where
    s: "SetPixelFromFloat (of_nat x) (of_nat y) vs des = Inr (des\<lparr>im_mpData := m1\<rparr>)" and ok: "img_ok (des\<lparr>im_mpData := m1\<rparr>)"
    and px: "pixel x y (des\<lparr>im_mpData := m1\<rparr>) = Inr (stored_pixel des vs)"
    and ot: "\<And>x' y'. has_pixel x' y' des \<Longrightarrow> (x', y') \<noteq> (x, y) \<Longrightarrow> pixel x' y' (des\<lparr>im_mpData := m1\<rparr>) = pixel x' y' des" by metis
  let ?d1 = "des\<lparr>im_mpData := m1\<rparr>"
  have ii: "has_pixel a b ?d1 = has_pixel a b des" and cv: "converted ?d1 src a b = converted des src a b" for a b
    by (simp_all add: has_pixel_def converted_def stored_pixel_def)
  have rest: "has_pixel a b src \<and> has_pixel a b ?d1" if "(a, b) \<in> set ps" for a b using Cons.prems(3) [of a b] that ii by simp
  from Cons.IH [OF _ ok rest] obtain m2 where
    c: "convert_pixels src ps ?d1 = (Inr (), ?d1\<lparr>im_mpData := m2\<rparr>)" and ok2: "img_ok (?d1\<lparr>im_mpData := m2\<rparr>)"
    and new: "\<And>a b. (a, b) \<in> set ps \<Longrightarrow> pixel a b (?d1\<lparr>im_mpData := m2\<rparr>) = converted ?d1 src a b"
    and old: "\<And>a b. has_pixel a b ?d1 \<Longrightarrow> (a, b) \<notin> set ps \<Longrightarrow> pixel a b (?d1\<lparr>im_mpData := m2\<rparr>) = pixel a b ?d1" by metis
  have e: "?d1\<lparr>im_mpData := m2\<rparr> = des\<lparr>im_mpData := m2\<rparr>" by simp
  have xy: "pixel x y ?d1 = converted des src x y" using px v by (simp add: converted_def)
  show ?case
  proof (rule Cons.prems(1) [of m2])
    show "convert_pixels src (p # ps) des = (Inr (), des\<lparr>im_mpData := m2\<rparr>)"
      using c s v unfolding p pixel_def by simp
    show "img_ok (des\<lparr>im_mpData := m2\<rparr>)" using ok2 by simp
    show "pixel a b (des\<lparr>im_mpData := m2\<rparr>) = converted des src a b" if "(a, b) \<in> set (p # ps)" for a b
    proof (cases "(a, b) \<in> set ps")
      case True
      then show ?thesis using new [OF True] cv unfolding e by simp
    next
      case False
      then have "a = x" "b = y" using that p by simp_all
      then show ?thesis using old [of x y] False ii i(2) xy unfolding e by simp
    qed
    show "pixel a b (des\<lparr>im_mpData := m2\<rparr>) = pixel a b des" if "has_pixel a b des" "(a, b) \<notin> set (p # ps)" for a b
      using old [of a b] ot [of a b] that ii p unfolding e by simp
  qed
qed

lemma sint_unat: "unat (w :: U32) < 2 ^ 31 \<Longrightarrow> sint w = int (unat w)"
proof -
  assume w: "unat w < 2 ^ 31"
  obtain k where k: "unat w = k" by simp
  have u: "uint w = int k" unfolding k [symmetric] by (rule uint_nat)
  have "int k < 2 ^ 31" "- (2 ^ 31) \<le> int k" using w unfolding k by simp_all
  then have "signed_take_bit 31 (int k) = int k" by (intro signed_take_bit_int_eq_self)
  moreover have "sint w = signed_take_bit (LENGTH(32) - 1) (uint w)" by (simp only: sint_uint One_nat_def)
  ultimately show ?thesis unfolding u k by simp
qed

lemma sint_small: "unat (w :: U32) \<le> 65536 \<Longrightarrow> sint w = int (unat w)"
  by (rule sint_unat) simp

lemma unat_min: "unat (min a b :: U32) = min (unat a) (unat b)"
  by (simp add: min_def word_le_nat_alt)

lemma convert_images:
  assumes "img_ok src" and "img_ok des"
  obtains m where "ConvertImages src dx dy sx sy (- 1) (- 1) des = (Inr (), des\<lparr>im_mpData := m\<rparr>)" and "img_ok (des\<lparr>im_mpData := m\<rparr>)"
    and "\<And>x y. has_pixel x y src \<Longrightarrow> has_pixel x y des \<Longrightarrow> pixel x y (des\<lparr>im_mpData := m\<rparr>) = converted des src x y"
    and "\<And>x y. has_pixel x y des \<Longrightarrow> \<not> has_pixel x y src \<Longrightarrow> pixel x y (des\<lparr>im_mpData := m\<rparr>) = pixel x y des"
proof -
  let ?w = "min (im_mWd des) (im_mWd src)" and ?h = "min (im_mHe des) (im_mHe src)"
  let ?ps = "raster (sint ?w) (sint ?h)"
  have d: "unat ?w \<le> 65536" "unat ?h \<le> 65536" using img_okD(2,3) [OF assms(2)] by (auto simp: unat_min)
  have mem: "(x, y) \<in> set ?ps \<longleftrightarrow> has_pixel x y src \<and> has_pixel x y des" for x y
    unfolding set_raster sint_small [OF d(1)] sint_small [OF d(2)] unat_min has_pixel_def by auto
  from convert_pixels_ok [OF assms, of ?ps] mem obtain m where
    c: "convert_pixels src ?ps des = (Inr (), des\<lparr>im_mpData := m\<rparr>)" and ok: "img_ok (des\<lparr>im_mpData := m\<rparr>)"
    and new: "\<And>x y. (x, y) \<in> set ?ps \<Longrightarrow> pixel x y (des\<lparr>im_mpData := m\<rparr>) = converted des src x y"
    and old: "\<And>x y. has_pixel x y des \<Longrightarrow> (x, y) \<notin> set ?ps \<Longrightarrow> pixel x y (des\<lparr>im_mpData := m\<rparr>) = pixel x y des" by metis
  show ?thesis
  proof (rule that [OF _ ok])
    show "ConvertImages src dx dy sx sy (- 1) (- 1) des = (Inr (), des\<lparr>im_mpData := m\<rparr>)" using c by (simp add: ConvertImages_def)
  qed (use new old mem in blast)+
qed

section \<open>Initialisation\<close>

definition padded :: "nat \<Rightarrow> nat" where "padded n = (n + 63) div 64 * 64"

lemma padded_le: "n \<le> padded n" "64 dvd padded n" "padded n \<le> n + 63"
  using div_mult_mod_eq [of "n + 63" 64] mod_less_divisor [of 64 "n + 63"] by (simp_all add: padded_def)

lemma mask_off: "w AND NOT (mask n) = push_bit n (drop_bit n w)" for w :: U32
proof (rule bit_eqI)
  fix i
  assume "possible_bit TYPE(U32) i"
  then show "bit (w AND NOT (mask n)) i = bit (push_bit n (drop_bit n w)) i"
    by (cases "n \<le> i") (simp_all add: bit_simps)
qed

lemma mask_off_6: "(w :: U32) AND NOT 63 = push_bit 6 (drop_bit 6 w)"
  using mask_off [of w 6] by (simp add: mask_numeral)

lemma mask_off_2: "(w :: U32) AND NOT 3 = push_bit 2 (drop_bit 2 w)"
  using mask_off [of w 2] by (simp add: mask_numeral)

lemma padded_row:
  assumes "unat w + 63 < 2 ^ 32"
  shows "unat ((w + 63 :: U32) AND NOT 63) = padded (unat w)"
proof -
  have u: "unat (w + 63) = unat w + 63" using assms by (simp add: unat_word_ariths)
  have "drop_bit 6 (w + 63) = (w + 63) div 64" by (simp add: drop_bit_eq_div)
  then have "unat (drop_bit 6 (w + 63)) = (unat w + 63) div 64" by (simp only: unat_div u) simp
  then have "unat (push_bit 6 (drop_bit 6 (w + 63))) = (unat w + 63) div 64 * 64 mod 2 ^ 32"
    by (simp add: push_bit_eq_mult unat_word_ariths)
  moreover have "(unat w + 63) div 64 * 64 \<le> unat w + 63" by simp
  ultimately show ?thesis using assms unfolding mask_off_6 padded_def by simp
qed

text \<open>The bytes of a row of an image of its own memory.\<close>

definition row_bytes :: "SampType \<Rightarrow> nat \<Rightarrow> nat \<Rightarrow> nat" where
  "row_bytes ty spp wd = padded (samp_size ty * spp * wd)"

lemma samp_size_ok: "usual_type ty \<Longrightarrow> getSampTypeSize ty = Inr (of_nat (samp_size ty)) \<and> samp_size ty dvd 64 \<and> samp_size ty \<le> 4"
  unfolding usual_type_def by (elim disjE) simp_all

lemma init_ok:
  assumes "usual_type ty" and "0 < wd" "wd \<le> MAX_DIM_SIZE" and "0 < he" "he \<le> MAX_DIM_SIZE"
    and "length names = unat spp" and "length names \<le> MAX_SAMP_PER_PIX" and "row_bytes ty (unat spp) (unat wd) * unat he < 2 ^ 32"
  obtains im' where "Image_Init raw wd he spp ty (- 1) names None im = (Inr (), im')" and "img_ok im'"
    and "im_mWd im' = wd" "im_mHe im' = he" "im_mSampPerPix im' = spp" "im_mSampType im' = ty"
    and "unat (im_mBytesPerRow im') = row_bytes ty (unat spp) (unat wd)"
proof -
  let ?s = "samp_size ty" and ?bpp = "of_nat (samp_size ty) * spp :: U32" and ?m = "im_mSampNames im"
  note sz = samp_size_ok [OF assms(1)]
  have dims: "unat wd \<le> 65536" "unat he \<le> 65536" using assms(3,5) by (simp_all add: MAX_DIM_SIZE_def word_le_nat_alt)
  have spp: "unat spp \<le> 4" using assms(6,7) by (simp add: MAX_SAMP_PER_PIX_def)
  have "?s * unat spp \<le> 4 * 4" using sz spp by (intro mult_le_mono) simp_all
  then have bpp: "unat ?bpp = ?s * unat spp" and b16: "?s * unat spp \<le> 16" using sz by (simp_all add: unat_word_ariths unat_of_nat)
  have "?s * unat spp * unat wd \<le> 16 * 65536" using b16 dims by (intro mult_le_mono)
  then have n: "unat (?bpp * wd) = ?s * unat spp * unat wd" and nb: "?s * unat spp * unat wd \<le> 2 ^ 20"
    using bpp by (simp_all add: unat_word_ariths)
  let ?row = "(?bpp * wd + 63) AND NOT 63 :: U32"
  have row: "unat ?row = row_bytes ty (unat spp) (unat wd)"
    using padded_row [of "?bpp * wd"] n nb by (simp add: row_bytes_def)
  have size: "unat (?row * he) = row_bytes ty (unat spp) (unat wd) * unat he" using row assms(8) by (simp add: unat_word_ariths)
  let ?im = "im\<lparr>im_mWd := wd, im_mHe := he, im_mSampPerPix := spp, im_mSampType := ty, im_mSampNames := names @ drop (length names) ?m,
    im_mBytesPerSamp := of_nat ?s, im_mBytesPerPix := ?bpp, im_mBytesPerRow := ?row, im_mOwnData := True,
    im_mpData := new_mem raw ty (unat (?row * he))\<rparr>"
  have "Image_Init raw wd he spp ty (- 1) names None im = (Inr (), ?im)"
    using assms sz spp by (simp add: Image_Init_def Let_def word_le_nat_alt MAX_DIM_SIZE_def)
  moreover have "img_ok ?im"
  proof -
    have d: "?s dvd row_bytes ty (unat spp) (unat wd)" using sz padded_le(2) dvd_trans unfolding row_bytes_def by blast
    have le: "unat wd * (?s * unat spp) \<le> row_bytes ty (unat spp) (unat wd)"
      using padded_le(1) [of "?s * unat spp * unat wd"] unfolding row_bytes_def by (simp add: mult.commute mult.assoc)
    have "has_samps ty (row_bytes ty (unat spp) (unat wd) * unat he) (new_mem raw ty (unat (?row * he)))"
      using assms(1) unfolding size usual_type_def by (elim disjE) (simp_all add: new_mem_def has_bytes_def has_floats_def)
    then show ?thesis using assms(1-5,8) spp bpp row d le unfolding img_ok_def
      by (simp add: MAX_SAMP_PER_PIX_def)
  qed
  ultimately show ?thesis using row by (intro that [of ?im]) simp_all
qed

section \<open>Quads\<close>

text \<open>The column or row that a coordinate wraps to: the coordinate is taken as unsigned.\<close>

definition wrapped :: "int \<Rightarrow> U32 \<Rightarrow> nat" where
  "wrapped x n = unat (word_of_int x :: U32) mod unat n"

lemma unat_of_nonneg:
  assumes "0 \<le> x" and "x < 2 ^ 32"
  shows "unat (word_of_int x :: U32) = nat x"
proof -
  have "uint (word_of_int x :: U32) = x mod 2 ^ LENGTH(32)" by (rule uint_word_of_int)
  also have "\<dots> = x" using assms by (intro mod_pos_pos_trivial) simp_all
  finally show ?thesis by (simp only: unat_eq_nat_uint)
qed

lemma wrapped_nonneg: "0 \<le> x \<Longrightarrow> x < 2 ^ 32 \<Longrightarrow> wrapped x n = nat x mod unat n"
  unfolding wrapped_def by (simp only: unat_of_nonneg)

lemma sign_mask_small:
  assumes "unat (w :: U32) < 2 ^ 31"
  shows "signed_drop_bit 31 w = 0"
proof -
  have "sint (signed_drop_bit 31 w) = drop_bit 31 (sint w)" by (rule sint_signed_drop_bit_eq)
  also have "\<dots> = sint w div 2 ^ 31" by (rule drop_bit_eq_div)
  also have "sint w = int (unat w)" by (rule sint_unat [OF assms])
  also have "int (unat w) div 2 ^ 31 = 0"
    using assms by (intro div_pos_pos_trivial) (simp_all only: of_nat_less_numeral_power_cancel_iff of_nat_0_le_iff)
  finally show ?thesis by (simp only: signed_eq_0_iff)
qed

lemma wrap_step:
  fixes n :: U32 and x :: int
  assumes "unat n \<le> 65536" and "n \<noteq> 0"
  defines "a \<equiv> word_of_int x mod n"
  shows "unat a = wrapped x n" and "signed_drop_bit 31 a = 0" and "unat a < unat n"
    and "unat (if sint n \<le> sint (a + 1) then a + 1 - n else a + 1) = (wrapped x n + 1) mod unat n"
proof -
  have n0: "0 < unat n" using assms(2) by (simp add: unat_gt_0)
  show u: "unat a = wrapped x n" by (simp add: a_def wrapped_def unat_mod)
  show l: "unat a < unat n" unfolding u wrapped_def using n0 by simp
  have "unat a < 2 ^ 31" using l assms(1) by simp
  then show "signed_drop_bit 31 a = 0" by (rule sign_mask_small)
  have s: "unat (a + 1) = unat a + 1" using l assms(1) by (simp add: unat_word_ariths)
  have "unat (a + 1) \<le> 65536" using s l assms(1) by simp
  then have "sint n = int (unat n)" "sint (a + 1) = int (unat (a + 1))" using sint_small [OF assms(1)] sint_small by blast+
  then have c: "sint n \<le> sint (a + 1) \<longleftrightarrow> unat n \<le> unat a + 1" unfolding s by (simp only: of_nat_le_iff)
  show "unat (if sint n \<le> sint (a + 1) then a + 1 - n else a + 1) = (wrapped x n + 1) mod unat n"
  proof (cases "unat n \<le> unat a + 1")
    case True
    then have e: "unat (a + 1) = unat n" using l s by simp
    then have "a + 1 = n" by (simp only: unsigned_word_eqI word_unat_eq_iff)
    have "(unat a + 1) mod unat n = 0" using e unfolding s by simp
    then show ?thesis using c True \<open>a + 1 = n\<close> unfolding u [symmetric] by simp
  next
    case False
    then show ?thesis using c s unfolding u [symmetric] by simp
  qed
qed

lemma quad_in_image:
  fixes x y :: int
  assumes "img_ok im"
  defines "a \<equiv> wrapped x (im_mWd im)" and "b \<equiv> wrapped y (im_mHe im)"
  defines "a' \<equiv> (a + 1) mod unat (im_mWd im)" and "b' \<equiv> (b + 1) mod unat (im_mHe im)"
  shows "GetPixelQuadWrapR x y im = Inr [pixel_ptr a b im, pixel_ptr a' b im, pixel_ptr a b' im, pixel_ptr a' b' im]"
    and "has_pixel a b im" "has_pixel a' b im" "has_pixel a b' im" "has_pixel a' b' im"
proof -
  have d: "unat (im_mWd im) \<le> 65536" "unat (im_mHe im) \<le> 65536" by (rule img_okD [OF assms(1)])+
  have z: "im_mWd im \<noteq> 0" "im_mHe im \<noteq> 0" using assms(1) unfolding img_ok_def by auto
  then have p: "0 < unat (im_mWd im)" "0 < unat (im_mHe im)" by (simp_all add: unat_gt_0)
  show has: "has_pixel a b im" "has_pixel a' b im" "has_pixel a b' im" "has_pixel a' b' im"
    using p by (simp_all add: has_pixel_def a_def b_def a'_def b'_def wrapped_def)
  have ptr: "GetPixelPtr v w im = pixel_ptr (unat v) (unat w) im" if "has_pixel (unat v) (unat w) im" for v w
    using pixel_offset(1) [OF assms(1) that] by (simp add: pixel_ptr_def)
  note X = wrap_step [OF d(1) z(1), of x, folded a_def, folded a'_def] and Y = wrap_step [OF d(2) z(2), of y, folded b_def, folded b'_def]
  show "GetPixelQuadWrapR x y im = Inr [pixel_ptr a b im, pixel_ptr a' b im, pixel_ptr a b' im, pixel_ptr a' b' im]"
    unfolding GetPixelQuadWrapR_def Let_def X(2) Y(2) quad_offsets_def and_zero_eq add_0_right
    using z ptr X(1,4) Y(1,4) has by simp
qed

section \<open>BMP files\<close>

text \<open>Where a sample of a pixel stands in a file: blue, green, red, and what follows.\<close>

definition bgr_pos :: "nat \<Rightarrow> nat" where
  "bgr_pos k = (if k < 3 then 2 - k else k)"

lemma bgr_swap:
  assumes "length xs = spp" and "3 \<le> spp" and "k < spp"
  shows "([xs ! 2, xs ! 1, xs ! 0] @ drop 3 xs) ! k = xs ! bgr_pos k" and "bgr_pos k < spp"
proof -
  consider "k = 0" | "k = 1" | "k = 2" | "3 \<le> k" by linarith
  then show "([xs ! 2, xs ! 1, xs ! 0] @ drop 3 xs) ! k = xs ! bgr_pos k"
  proof cases
    case 4
    then show ?thesis using assms nth_append [of "[xs ! 2, xs ! 1, xs ! 0]" "drop 3 xs" k] by (simp add: bgr_pos_def del: append.simps)
  qed (simp_all add: bgr_pos_def)
  show "bgr_pos k < spp" using assms by (auto simp: bgr_pos_def)
qed

lemma nth_overwrite:
  "p + length xs \<le> length bs \<Longrightarrow> j < length bs \<Longrightarrow> overwrite bs p xs ! j = (if p \<le> j \<and> j < p + length xs then xs ! (j - p) else bs ! j)"
  by (auto simp: overwrite_def nth_append min_def)

lemma overwrite_length: "p + length xs \<le> length bs \<Longrightarrow> length (overwrite bs p xs) = length bs"
  by (simp add: overwrite_def)

lemma bgr_row_ok:
  assumes "3 \<le> spp" and "p + spp * n \<le> length (mf_mpData f)" and "d + spp * n \<le> length bs"
  shows "\<exists>bs'. bgr_row f spp spp n p d (Bytes_mem bs) = Inr (Bytes_mem bs') \<and> length bs' = length bs
    \<and> (\<forall>i k. i < n \<longrightarrow> k < spp \<longrightarrow> bs' ! (d + spp * i + k) = mf_mpData f ! (p + spp * i + bgr_pos k))
    \<and> (\<forall>j. j < length bs \<longrightarrow> j < d \<or> d + spp * n \<le> j \<longrightarrow> bs' ! j = bs ! j)"
  using assms(2,3)
proof (induction n arbitrary: p d bs)
  case 0
  then show ?case by simp
next
  case (Suc n)
  let ?s = "take spp (drop p (mf_mpData f))"
  let ?w = "[?s ! 2, ?s ! 1, ?s ! 0] @ drop 3 ?s" let ?bs = "overwrite bs d ?w"
  have ls: "length ?s = spp" using Suc.prems(1) by simp
  then have lw: "length ?w = spp" using assms(1) by simp
  have l: "d + length ?w \<le> length bs" using Suc.prems(2) lw by simp
  note lb = overwrite_length [OF l]
  have "p + spp + spp * n \<le> length (mf_mpData f)" "d + spp + spp * n \<le> length ?bs" using Suc.prems lb by simp_all
  from Suc.IH [OF this, unfolded lb] obtain bs' where
    r: "bgr_row f spp spp n (p + spp) (d + spp) (Bytes_mem ?bs) = Inr (Bytes_mem bs')" and len: "length bs' = length bs"
    and new: "\<And>i k. i < n \<Longrightarrow> k < spp \<Longrightarrow> bs' ! (d + spp + spp * i + k) = mf_mpData f ! (p + spp + spp * i + bgr_pos k)"
    and old: "\<And>j. j < length bs \<Longrightarrow> j < d + spp \<or> d + spp + spp * n \<le> j \<Longrightarrow> bs' ! j = ?bs ! j" by blast
  show ?case
  proof (intro exI [of _ bs'] conjI allI impI)
    have "peek f p spp = Inr ?s" using Suc.prems(1) by (simp add: peek_def)
    moreover have "write_bytes d ?w (Bytes_mem bs) = Inr (Bytes_mem ?bs)" using l by (simp add: write_bytes_def)
    ultimately show "bgr_row f spp spp (Suc n) p d (Bytes_mem bs) = Inr (Bytes_mem bs')" using r by simp
    show "length bs' = length bs" by (rule len)
    show "bs' ! (d + spp * i + k) = mf_mpData f ! (p + spp * i + bgr_pos k)" if ik: "i < Suc n" "k < spp" for i k
    proof (cases i)
      case 0
      have "d + k < length bs" using ik(2) l lw by simp
      then have "bs' ! (d + k) = ?w ! k" using old [of "d + k"] nth_overwrite [OF l, of "d + k"] ik(2) lw by simp
      also have "\<dots> = mf_mpData f ! (p + bgr_pos k)"
        using bgr_swap [OF ls assms(1) ik(2)] Suc.prems(1) by simp
      finally show ?thesis using 0 by simp
    next
      case (Suc i')
      then show ?thesis using new [of i' k] ik by (simp add: algebra_simps)
    qed
    show "bs' ! j = bs ! j" if "j < length bs" "j < d \<or> d + spp * Suc n \<le> j" for j
    proof -
      have "j < d + spp \<or> d + spp + spp * n \<le> j" using that(2) by auto
      from old [OF that(1) this] nth_overwrite [OF l that(1)] that(2) lw show ?thesis by auto
    qed
  qed
qed

lemma read_ptr:
  assumes "unat (mf_mReadPos f) + unat n \<le> unat (mf_mDataSize f)"
  shows "ReadDataPtr n f = (Inr (mf_mReadPos f), f\<lparr>mf_mReadPos := mf_mReadPos f + n\<rparr>)"
    and "unat (mf_mReadPos f + n) = unat (mf_mReadPos f) + unat n"
proof -
  have "unat (mf_mDataSize f) < 2 ^ 64" using unsigned_less [of "mf_mDataSize f"] by simp
  then show u: "unat (mf_mReadPos f + n) = unat (mf_mReadPos f) + unat n" using assms by (simp add: unat_word_ariths)
  then have "\<not> mf_mDataSize f < mf_mReadPos f + n" using assms by (simp add: word_less_nat_alt)
  then show "ReadDataPtr n f = (Inr (mf_mReadPos f), f\<lparr>mf_mReadPos := mf_mReadPos f + n\<rparr>)"
    by (simp add: ReadDataPtr_def MemFile_SeekFromCur_def MemFile_SeekSet_def)
qed

lemma img_ok_pos: "img_ok im \<Longrightarrow> 0 < unat (im_mWd im)" "img_ok im \<Longrightarrow> 0 < unat (im_mHe im)"
  by (auto simp: img_ok_def unat_gt_0)

text \<open>The byte of a sample.\<close>

definition samp_byte :: "Image \<Rightarrow> nat \<Rightarrow> nat \<Rightarrow> nat \<Rightarrow> U8 res" where
  "samp_byte im x y k = read_u8 (im_mpData im) (pixel_ptr x y im + k)"

definition file_byte :: "MemFile \<Rightarrow> nat \<Rightarrow> U8" where
  "file_byte f p = mf_mpData f ! p"

text \<open>An image of bytes with three or four samples for each pixel, as \<open>LoadBMP\<close> fills it.\<close>

definition colour_image :: "Image \<Rightarrow> bool" where
  "colour_image im \<longleftrightarrow> img_ok im \<and> im_mSampType im = ST_U8 \<and> (im_mSampPerPix im = 3 \<or> im_mSampPerPix im = 4)"

lemma colour_imageD:
  assumes "colour_image im"
  shows "img_ok im" and "im_mSampType im = ST_U8" and "3 \<le> unat (im_mSampPerPix im)" and "im_mSampPerPix im \<noteq> 1"
    and "unat (im_mBytesPerPix im) = unat (im_mSampPerPix im)"
    and "\<exists>bs. im_mpData im = Bytes_mem bs \<and> length bs = unat (im_mBytesPerRow im) * unat (im_mHe im)"
proof -
  show ok: "img_ok im" and t: "im_mSampType im = ST_U8" using assms by (simp_all add: colour_image_def)
  show "3 \<le> unat (im_mSampPerPix im)" "im_mSampPerPix im \<noteq> 1" using assms by (auto simp: colour_image_def)
  show "unat (im_mBytesPerPix im) = unat (im_mSampPerPix im)" using img_okD(5) [OF ok] t by simp
  show "\<exists>bs. im_mpData im = Bytes_mem bs \<and> length bs = unat (im_mBytesPerRow im) * unat (im_mHe im)"
    using img_okD(8) [OF ok] t by (simp add: has_bytes_def)
qed

lemma bmp_row_ok:
  assumes "colour_image im" and "y < unat (im_mHe im)" and "p + unat (im_mSampPerPix im) * unat (im_mWd im) \<le> length (mf_mpData f)"
  shows "\<exists>m. bmp_row f conv pal p (GetPixelPtr 0 (of_nat y) im) im = Inr m \<and> colour_image (im\<lparr>im_mpData := m\<rparr>)
    \<and> (\<forall>x k. x < unat (im_mWd im) \<longrightarrow> k < unat (im_mSampPerPix im) \<longrightarrow>
        samp_byte (im\<lparr>im_mpData := m\<rparr>) x y k = Inr (file_byte f (p + unat (im_mSampPerPix im) * x + bgr_pos k)))
    \<and> (\<forall>x y' k. has_pixel x y' im \<longrightarrow> k < unat (im_mSampPerPix im) \<longrightarrow> y' \<noteq> y \<longrightarrow>
        samp_byte (im\<lparr>im_mpData := m\<rparr>) x y' k = samp_byte im x y' k)"
proof -
  note D = colour_imageD [OF assms(1)]
  let ?spp = "unat (im_mSampPerPix im)" and ?wd = "unat (im_mWd im)" and ?he = "unat (im_mHe im)" and ?row = "unat (im_mBytesPerRow im)"
  obtain bs where bs: "im_mpData im = Bytes_mem bs" "length bs = ?row * ?he" using D(6) by blast
  have fit: "?wd * ?spp \<le> ?row" using img_okD(7) [OF D(1)] D(5) by simp
  have w0: "0 < ?wd" by (rule img_ok_pos [OF D(1)])
  then have d: "GetPixelPtr 0 (of_nat y) im = ?row * y"
    using pixel_offset(1) [OF D(1), of 0 y] assms(2) by (simp add: has_pixel_def)
  have rows: "?row * Suc y' \<le> ?row * ?he" if "y' < ?he" for y' using that by (intro mult_le_mono2) simp
  have "?row * y + ?spp * ?wd \<le> length bs" using rows [OF assms(2)] fit bs(2) by (simp add: mult.commute)
  from bgr_row_ok [OF D(3) assms(3) this] obtain bs' where
    r: "bgr_row f ?spp ?spp ?wd p (?row * y) (Bytes_mem bs) = Inr (Bytes_mem bs')" and len: "length bs' = length bs"
    and new: "\<And>i k. i < ?wd \<Longrightarrow> k < ?spp \<Longrightarrow> bs' ! (?row * y + ?spp * i + k) = mf_mpData f ! (p + ?spp * i + bgr_pos k)"
    and old: "\<And>j. j < length bs \<Longrightarrow> j < ?row * y \<or> ?row * y + ?spp * ?wd \<le> j \<Longrightarrow> bs' ! j = bs ! j" by blast
  let ?im = "im\<lparr>im_mpData := Bytes_mem bs'\<rparr>"
  have row: "bmp_row f conv pal p (GetPixelPtr 0 (of_nat y) im) im = Inr (Bytes_mem bs')"
    using r D(4,5) assms(1) unfolding d bmp_row_def Let_def bs colour_image_def by auto
  have "img_ok ?im" using D(1,2) len bs unfolding img_ok_def by - (elim conjE, simp add: has_bytes_def)
  then have ok: "colour_image ?im" using assms(1) by (simp add: colour_image_def)
  have ptr: "pixel_ptr x y' ?im = ?row * y' + ?spp * x" for x y' using D(5) by (simp add: pixel_ptr_def)
  have byte: "samp_byte ?im x y' k = Inr (bs' ! (?row * y' + ?spp * x + k))" "samp_byte im x y' k = Inr (bs ! (?row * y' + ?spp * x + k))"
    and inb: "?spp * x + k < ?row" "?row * y' + ?spp * x + k < length bs" if "x < ?wd" "y' < ?he" "k < ?spp" for x y' k
  proof -
    have "?spp * Suc x \<le> ?spp * ?wd" using that(1) by (intro mult_le_mono2) simp
    then show l: "?spp * x + k < ?row" using that(3) fit by (simp add: mult.commute)
    then show l2: "?row * y' + ?spp * x + k < length bs" using rows [OF that(2)] bs(2) by simp
    have rd: "read_u8 (Bytes_mem zs) j = Inr (zs ! j)" if "j < length zs" for zs j
      using that by (simp add: read_u8_def read_bytes_def hd_drop_conv_nth)
    show "samp_byte ?im x y' k = Inr (bs' ! (?row * y' + ?spp * x + k))"
      unfolding samp_byte_def ptr using rd [of "?row * y' + ?spp * x + k" bs'] l2 len by simp
    have "pixel_ptr x y' im = ?row * y' + ?spp * x" using ptr by (simp add: pixel_ptr_def)
    then show "samp_byte im x y' k = Inr (bs ! (?row * y' + ?spp * x + k))"
      unfolding samp_byte_def using rd [OF l2] bs(1) by simp
  qed
  show ?thesis
  proof (intro exI [of _ "Bytes_mem bs'"] conjI allI impI row ok)
    show "samp_byte ?im x y k = Inr (file_byte f (p + ?spp * x + bgr_pos k))" if "x < ?wd" "k < ?spp" for x k
      using byte(1) [OF that(1) assms(2) that(2)] new [OF that] by (simp add: file_byte_def)
    show "samp_byte ?im x y' k = samp_byte im x y' k" if "has_pixel x y' im" "k < ?spp" "y' \<noteq> y" for x y' k
    proof -
      have xy: "x < ?wd" "y' < ?he" using that(1) by (simp_all add: has_pixel_def)
      note i = inb [OF xy that(2)]
      have "?row * y' + ?spp * x + k < ?row * y \<or> ?row * y + ?spp * ?wd \<le> ?row * y' + ?spp * x + k"
      proof (cases "y' < y")
        case True
        then have "?row * Suc y' \<le> ?row * y" by (intro mult_le_mono2) simp
        then show ?thesis using i(1) by simp
      next
        case False
        then have "?row * Suc y \<le> ?row * y'" using that(3) by (intro mult_le_mono2) simp
        then show ?thesis using fit by (simp add: mult.commute)
      qed
      from old [OF i(2) this] show ?thesis using byte [OF xy that(2)] by simp
    qed
  qed
qed

lemma bmp_rows_ok:
  assumes "colour_image im" and "n \<le> unat (im_mHe im)" and "0 \<le> pitch" "pitch < 2 ^ 31"
    and "int (unat (im_mSampPerPix im) * unat (im_mWd im)) \<le> pitch"
    and "unat (mf_mDataSize f) = length (mf_mpData f)" and "unat (mf_mReadPos f) + n * nat pitch \<le> unat (mf_mDataSize f)"
  shows "\<exists>m f'. bmp_rows pitch conv pal n (im, f) = (Inr (), (im\<lparr>im_mpData := m\<rparr>, f')) \<and> colour_image (im\<lparr>im_mpData := m\<rparr>)
    \<and> (\<forall>x y k. x < unat (im_mWd im) \<longrightarrow> y < n \<longrightarrow> k < unat (im_mSampPerPix im) \<longrightarrow> samp_byte (im\<lparr>im_mpData := m\<rparr>) x y k
        = Inr (file_byte f (unat (mf_mReadPos f) + (n - 1 - y) * nat pitch + unat (im_mSampPerPix im) * x + bgr_pos k)))
    \<and> (\<forall>x y k. has_pixel x y im \<longrightarrow> k < unat (im_mSampPerPix im) \<longrightarrow> n \<le> y \<longrightarrow>
        samp_byte (im\<lparr>im_mpData := m\<rparr>) x y k = samp_byte im x y k)"
  using assms(1,2,5,6,7)
proof (induction n arbitrary: im f)
  case 0
  then show ?case by (intro exI [of _ "im_mpData im"] exI [of _ f]) simp
next
  case (Suc n)
  let ?spp = "unat (im_mSampPerPix im)" and ?wd = "unat (im_mWd im)" and ?P = "nat pitch" and ?pos = "unat (mf_mReadPos f)"
  have pw: "unat (word_of_int pitch :: size_t) = ?P"
  proof -
    have "uint (word_of_int pitch :: size_t) = pitch mod 2 ^ LENGTH(64)" by (rule uint_word_of_int)
    also have "\<dots> = pitch" using assms(3,4) by (intro mod_pos_pos_trivial) simp_all
    finally show ?thesis by (simp only: unat_eq_nat_uint)
  qed
  let ?f = "f\<lparr>mf_mReadPos := mf_mReadPos f + word_of_int pitch\<rparr>"
  have room: "?pos + ?P + n * ?P \<le> unat (mf_mDataSize f)" using Suc.prems(5) by simp
  then have "?pos + unat (word_of_int pitch :: size_t) \<le> unat (mf_mDataSize f)" unfolding pw by simp
  note rp = read_ptr [OF this, unfolded pw]
  have sp: "?spp * ?wd \<le> ?P" using Suc.prems(3) by linarith
  then have "?pos + ?spp * ?wd \<le> length (mf_mpData ?f)" using room Suc.prems(4) by simp
  from bmp_row_ok [OF Suc.prems(1) _ this, of n conv pal] Suc.prems(2) obtain m1 where
    r: "bmp_row ?f conv pal ?pos (GetPixelPtr 0 (of_nat n) im) im = Inr m1" and ok: "colour_image (im\<lparr>im_mpData := m1\<rparr>)"
    and row: "\<And>x k. x < ?wd \<Longrightarrow> k < ?spp \<Longrightarrow> samp_byte (im\<lparr>im_mpData := m1\<rparr>) x n k = Inr (file_byte ?f (?pos + ?spp * x + bgr_pos k))"
    and oth: "\<And>x y' k. has_pixel x y' im \<Longrightarrow> k < ?spp \<Longrightarrow> y' \<noteq> n \<Longrightarrow> samp_byte (im\<lparr>im_mpData := m1\<rparr>) x y' k = samp_byte im x y' k"
    by auto
  let ?im = "im\<lparr>im_mpData := m1\<rparr>"
  have hp: "has_pixel x y ?im = has_pixel x y im" for x y by (simp add: has_pixel_def)
  have fb: "file_byte ?f = file_byte f" by (intro ext) (simp add: file_byte_def)
  have "n \<le> unat (im_mHe ?im)" "int (unat (im_mSampPerPix ?im) * unat (im_mWd ?im)) \<le> pitch" "unat (mf_mDataSize ?f) = length (mf_mpData ?f)"
    "unat (mf_mReadPos ?f) + n * ?P \<le> unat (mf_mDataSize ?f)" using Suc.prems room rp(2) by simp_all
  from Suc.IH [OF ok this] obtain m2 f2 where
    b: "bmp_rows pitch conv pal n (?im, ?f) = (Inr (), (?im\<lparr>im_mpData := m2\<rparr>, f2))" and ok2: "colour_image (?im\<lparr>im_mpData := m2\<rparr>)"
    and new: "\<And>x y k. x < ?wd \<Longrightarrow> y < n \<Longrightarrow> k < ?spp \<Longrightarrow> samp_byte (?im\<lparr>im_mpData := m2\<rparr>) x y k
        = Inr (file_byte f (?pos + ?P + (n - 1 - y) * ?P + ?spp * x + bgr_pos k))"
    and old: "\<And>x y k. has_pixel x y im \<Longrightarrow> k < ?spp \<Longrightarrow> n \<le> y \<Longrightarrow> samp_byte (?im\<lparr>im_mpData := m2\<rparr>) x y k = samp_byte ?im x y k"
    unfolding hp fb using rp(2) by auto
  have e: "?im\<lparr>im_mpData := m2\<rparr> = im\<lparr>im_mpData := m2\<rparr>" by simp
  show ?case
  proof (intro exI [of _ m2] exI [of _ f2] conjI allI impI)
    show "bmp_rows pitch conv pal (Suc n) (im, f) = (Inr (), (im\<lparr>im_mpData := m2\<rparr>, f2))" using b r rp(1) by simp
    show "colour_image (im\<lparr>im_mpData := m2\<rparr>)" using ok2 unfolding e .
    show "samp_byte (im\<lparr>im_mpData := m2\<rparr>) x y k = Inr (file_byte f (?pos + (Suc n - 1 - y) * ?P + ?spp * x + bgr_pos k))"
      if i: "x < ?wd" "y < Suc n" "k < ?spp" for x y k
    proof (cases "y = n")
      case True
      have "has_pixel x n im" using i(1) Suc.prems(2) by (simp add: has_pixel_def)
      then show ?thesis using old [of x n k] row [OF i(1,3)] i(3) True unfolding e fb by simp
    next
      case False
      then have y: "y < n" using i(2) by simp
      then have "Suc (n - 1 - y) = n - y" by simp
      then have p: "?pos + ?P + (n - 1 - y) * ?P = ?pos + (Suc n - 1 - y) * ?P" by (metis add.assoc mult_Suc diff_Suc_1)
      from new [OF i(1) y i(3)] show ?thesis unfolding e p .
    qed
    show "samp_byte (im\<lparr>im_mpData := m2\<rparr>) x y k = samp_byte im x y k" if "has_pixel x y im" "k < ?spp" "Suc n \<le> y" for x y k
      using old [OF that(1,2)] oth [OF that(1,2)] that(3) unfolding e by simp
  qed
qed

definition bmp_stride :: "nat \<Rightarrow> nat \<Rightarrow> nat" where
  "bmp_stride spp wd = (spp * wd + 3) div 4 * 4"

lemma bmp_pitch_stride:
  assumes "unat (biWidth h) \<le> 65536" and "unat (biBitCount h) = 8 * spp" and "spp \<le> 4"
  shows "bmp_pitch h = int (bmp_stride spp (unat (biWidth h)))" and "bmp_stride spp (unat (biWidth h)) < 2 ^ 31"
proof -
  let ?w = "unat (biWidth h)" and ?b = "ucast (biBitCount h) :: U32"
  have b: "unat ?b = 8 * spp" using assms(2,3) by (simp add: unsigned_ucast_eq take_bit_nat_eq_self_iff)
  have le: "?w * spp \<le> 65536 * 4" using assms(1,3) by (intro mult_le_mono) simp_all
  have e: "?w * (8 * spp) = 8 * (?w * spp)" by simp
  obtain q where q: "?w * spp = q" by blast
  have lt: "8 * (?w * spp) < 2 ^ 32" using le unfolding q by simp
  have "unat (biWidth h * ?b) = ?w * (8 * spp) mod 2 ^ 32" unfolding unat_word_ariths b by simp
  then have p: "unat (biWidth h * ?b) = ?w * (8 * spp)" unfolding e mod_less [OF lt] .
  have "?w * (8 * spp) = 8 * (?w * spp)" by simp
  then have "unat (biWidth h * ?b div 8) = ?w * spp" unfolding unat_div p by simp
  then have q: "unat (biWidth h * ?b div 8 + 3) = ?w * spp + 3" using le by (simp add: unat_word_ariths)
  have "drop_bit 2 (biWidth h * ?b div 8 + 3) = (biWidth h * ?b div 8 + 3) div 4" by (simp add: drop_bit_eq_div)
  then have "unat (drop_bit 2 (biWidth h * ?b div 8 + 3)) = (?w * spp + 3) div 4" by (simp only: unat_div q) simp
  moreover have s: "(?w * spp + 3) div 4 * 4 \<le> ?w * spp + 3" by simp
  ultimately have r: "unat ((biWidth h * ?b div 8 + 3) AND NOT 3) = bmp_stride spp ?w"
    using le unfolding mask_off_2 bmp_stride_def by (simp add: push_bit_eq_mult unat_word_ariths mult.commute)
  show st: "bmp_stride spp ?w < 2 ^ 31" using s le unfolding bmp_stride_def by (simp add: mult.commute)
  then show "bmp_pitch h = int (bmp_stride spp ?w)" unfolding bmp_pitch_def by (subst sint_unat) (simp_all only: r)
qed

text \<open>
  Pixels of BMP files. When the headers are accepted and the file has all rows of an image of 24 or 32
  bits a pixel, of at most 65536 pixels each way, \<open>LoadBMP\<close> fills an image of that size: pixel
  \<open>(x, y)\<close> has the red, green, blue and, if it has four samples, fourth byte that stand for it
  in the file, where the rows go from the last to the first, each padded to a multiple of four
  bytes, and blue comes first.
\<close>

theorem bmp_pixels:
  assumes "bmp_open f = (Inr h, g)" and "biBitCount h = 24 \<and> spp = 3 \<or> biBitCount h = 32 \<and> spp = 4"
    and "0 < biWidth h" "biWidth h \<le> 65536" "0 < biHeight h" "biHeight h \<le> 65536"
    and "row_bytes ST_U8 spp (unat (biWidth h)) * unat (biHeight h) < 2 ^ 32"
    and "unat (mf_mDataSize g) = length (mf_mpData g)"
    and "unat (mf_mReadPos g) + unat (biHeight h) * bmp_stride spp (unat (biWidth h)) \<le> length (mf_mpData g)"
  shows "\<exists>im g2. LoadBMP raw (im0, f) = (Inr (), (im, g2)) \<and> colour_image im \<and> im_mWd im = biWidth h \<and> im_mHe im = biHeight h
    \<and> (\<forall>x y k. x < unat (biWidth h) \<longrightarrow> y < unat (biHeight h) \<longrightarrow> k < spp \<longrightarrow>
        samp_byte im x y k = Inr (file_byte g (unat (mf_mReadPos g)
          + (unat (biHeight h) - 1 - y) * bmp_stride spp (unat (biWidth h)) + spp * x + bgr_pos k)))"
proof -
  define names where "names = (if spp = 3 then ''rgb'' else ''rgba'')"
  have fmt: "bmp_format h g = (Inr (of_nat spp, names, False, 0), g)" using assms(2) by (auto simp: bmp_format_def names_def)
  have s: "unat (of_nat spp :: U32) = spp" "length names = spp" "spp \<le> 4" "unat (biBitCount h) = 8 * spp"
    using assms(2) by (auto simp: names_def)
  have w: "unat (biWidth h) \<le> 65536" using assms(4) by (simp add: word_le_nat_alt)
  note pitch = bmp_pitch_stride [OF w s(4,3)]
  obtain im where i: "Image_Init raw (biWidth h) (biHeight h) (of_nat spp) ST_U8 (- 1) names None im0 = (Inr (), im)"
    and ok: "img_ok im" and d: "im_mWd im = biWidth h" "im_mHe im = biHeight h" "im_mSampPerPix im = of_nat spp" "im_mSampType im = ST_U8"
    by (rule init_ok [of ST_U8 "biWidth h" "biHeight h" names "of_nat spp" raw im0])
      (use assms(3-7) s in \<open>simp_all add: usual_type_def MAX_DIM_SIZE_def MAX_SAMP_PER_PIX_def\<close>)
  have col: "colour_image im" using ok d assms(2) by (auto simp: colour_image_def)
  have "spp * unat (biWidth h) \<le> bmp_stride spp (unat (biWidth h))"
    using div_mult_mod_eq [of "spp * unat (biWidth h) + 3" 4] mod_less_divisor [of 4 "spp * unat (biWidth h) + 3"]
    unfolding bmp_stride_def by linarith
  then have sp: "int (unat (im_mSampPerPix im) * unat (im_mWd im)) \<le> bmp_pitch h" unfolding d pitch(1) s(1) by (simp only: of_nat_le_iff)
  have np: "nat (bmp_pitch h) = bmp_stride spp (unat (biWidth h))" unfolding pitch(1) by simp
  have lim: "0 \<le> bmp_pitch h" "bmp_pitch h < 2 ^ 31" using pitch by simp_all
  from bmp_rows_ok [OF col _ lim sp assms(8), of "unat (biHeight h)" False 0] assms(8,9) obtain m g2 where
    r: "bmp_rows (bmp_pitch h) False 0 (unat (biHeight h)) (im, g) = (Inr (), (im\<lparr>im_mpData := m\<rparr>, g2))"
    and c: "colour_image (im\<lparr>im_mpData := m\<rparr>)"
    and px: "\<And>x y k. x < unat (biWidth h) \<Longrightarrow> y < unat (biHeight h) \<Longrightarrow> k < spp \<Longrightarrow> samp_byte (im\<lparr>im_mpData := m\<rparr>) x y k
        = Inr (file_byte g (unat (mf_mReadPos g) + (unat (biHeight h) - 1 - y) * bmp_stride spp (unat (biWidth h)) + spp * x + bgr_pos k))"
    unfolding d s(1) np by auto
  have "LoadBMP raw (im0, f) = (Inr (), (im\<lparr>im_mpData := m\<rparr>, g2))"
    using assms(1) fmt i r by (simp add: LoadBMP_def)
  then show ?thesis using c px d by (intro exI [of _ "im\<lparr>im_mpData := m\<rparr>"] exI [of _ g2]) simp
qed

definition ex_bmp :: MemFile where
  "ex_bmp = snd (InitExclusiveOwenership (replicate 14 0
     @ [39, 0, 0, 0, 1, 0, 0, 0, 2, 0, 0, 0, 1, 0, 24, 0, 1, 0, 0, 0] @ replicate 20 0 @ [10, 20, 0, 30, 40, 50, 0]) MemFile_empty)"

definition ex_info :: BITMAPINFOHEADER where
  "ex_info = \<lparr>biSize = 39, biWidth = 1, biHeight = 2, biPlanes = 1, biBitCount = 24, biCompression = 1, biSizeImage = 0,
     biXPelsPerMeter = 0, biYPelsPerMeter = 0, biClrUsed = 0, biClrImportant = 0\<rparr>"

lemma ex_bmp_open: "bmp_open ex_bmp = (Inr ex_info, ex_bmp\<lparr>mf_mReadPos := 53\<rparr>)"
  by code_simp

theorem bmp_pixels_witness:
  "\<exists>im g. LoadBMP (\<lambda>_. 9, \<lambda>_. 0) (Image_initBase, ex_bmp) = (Inr (), (im, g))
     \<and> map (samp_byte im 0 0) [0, 1, 2] = [Inr 50, Inr 40, Inr 30] \<and> map (samp_byte im 0 1) [0, 1, 2] = [Inr 20, Inr 10, Inr 0]"
proof -
  let ?g = "ex_bmp\<lparr>mf_mReadPos := 53\<rparr>"
  have l: "length (mf_mpData ?g) = 61" "unat (mf_mDataSize ?g) = 61" "unat (mf_mReadPos ?g) = 53" by code_simp+
  have w: "unat (biWidth ex_info) = 1" "unat (biHeight ex_info) = 2" by (simp_all add: ex_info_def)
  have s: "bmp_stride 3 1 = 4" "row_bytes ST_U8 3 1 = 64" by (simp_all add: bmp_stride_def row_bytes_def padded_def)
  have h: "biBitCount ex_info = 24 \<and> (3 :: nat) = 3 \<or> biBitCount ex_info = 32 \<and> (3 :: nat) = 4" by (simp add: ex_info_def)
  have c: "0 < biWidth ex_info" "biWidth ex_info \<le> 65536" "0 < biHeight ex_info" "biHeight ex_info \<le> 65536" by (simp_all add: ex_info_def)
  have r: "row_bytes ST_U8 3 (unat (biWidth ex_info)) * unat (biHeight ex_info) < 2 ^ 32"
    "unat (mf_mDataSize ?g) = length (mf_mpData ?g)"
    "unat (mf_mReadPos ?g) + unat (biHeight ex_info) * bmp_stride 3 (unat (biWidth ex_info)) \<le> length (mf_mpData ?g)"
    unfolding w s l by simp_all
  from bmp_pixels [OF ex_bmp_open h c r, of "(\<lambda>_. 9, \<lambda>_. 0)" Image_initBase, unfolded w s l] obtain im g where
    b: "LoadBMP (\<lambda>_. 9, \<lambda>_. 0) (Image_initBase, ex_bmp) = (Inr (), (im, g))"
    and px: "\<And>x y k. x < 1 \<Longrightarrow> y < 2 \<Longrightarrow> k < 3 \<Longrightarrow> samp_byte im x y k = Inr (file_byte ?g (53 + (2 - 1 - y) * 4 + 3 * x + bgr_pos k))" by blast
  have v: "map (file_byte ?g) [59, 58, 57] = [50, 40, 30]" "map (file_byte ?g) [55, 54, 53] = [20, 10, 0]" by code_simp+
  show ?thesis using b px [of 0 0 0] px [of 0 0 1] px [of 0 0 2] px [of 0 1 0] px [of 0 1 1] px [of 0 1 2] v
    by (intro exI [of _ im] exI [of _ g]) (simp add: bgr_pos_def)
qed

text \<open>
  Ordinary BMP files are refused. A file whose information header has its usual size of 40 bytes, or a larger one, or
  which is not compressed, never loads, as the conditions of two checks are inverted.
\<close>

theorem ordinary_bmp_refused:
  assumes "read_header 14 f = (Inr fh, g)" and "read_header 40 g = (Inr ih, g2)"
    and "40 \<le> biSize (info_header ih) \<or> biCompression (info_header ih) = 0"
  shows "\<exists>msg. LoadBMP raw (im, f) = (Inl (AssThrow msg), (im, if bfSize (file_header fh) = 14 then g else g2))"
proof -
  let ?h = "info_header ih"
  have big: "\<not> sint (ucast (biSize ?h) - 40 :: size_t) < 0" if "40 \<le> biSize ?h"
  proof -
    let ?u = "ucast (biSize ?h) :: size_t"
    have "unat (biSize ?h) < 2 ^ 32" using unsigned_less [of "biSize ?h"] by simp
    moreover have u: "uint ?u = uint (biSize ?h)" by (simp add: uint_up_ucast is_up)
    moreover have "40 \<le> uint (biSize ?h)" using that by (simp add: word_le_def)
    ultimately have "uint (?u - 40) = uint (biSize ?h) - 40" by (simp add: uint_sub_if' word_le_def)
    moreover have "uint (biSize ?h) < 2 ^ 32" using unsigned_less [of "biSize ?h"] by simp
    ultimately have "signed_take_bit 63 (uint (?u - 40)) = uint (biSize ?h) - 40"
      using \<open>40 \<le> uint (biSize ?h)\<close> by (simp add: signed_take_bit_int_eq_self)
    then show ?thesis using \<open>40 \<le> uint (biSize ?h)\<close> by (simp add: sint_uint)
  qed
  show ?thesis using assms big unfolding LoadBMP_def bmp_open_def myBI_RGB_def
    by (auto simp: stx_bind_def stx_throw_def Let_def)
qed

definition ex_plain_bmp :: MemFile where
  "ex_plain_bmp = snd (InitExclusiveOwenership ([66, 77, 58] @ replicate 11 0
     @ [40, 0, 0, 0, 1, 0, 0, 0, 1, 0, 0, 0, 1, 0, 24, 0] @ replicate 24 0 @ [10, 20, 30, 0]) MemFile_empty)"

theorem ordinary_bmp_refused_witness:
  "\<exists>msg. LoadBMP (\<lambda>_. 9, \<lambda>_. 0) (Image_initBase, ex_plain_bmp) = (Inl (AssThrow msg), (Image_initBase, ex_plain_bmp\<lparr>mf_mReadPos := 54\<rparr>))"
proof -
  let ?fh = "[66, 77, 58] @ replicate 11 0 :: bytes" and ?ih = "[40, 0, 0, 0, 1, 0, 0, 0, 1, 0, 0, 0, 1, 0, 24, 0] @ replicate 24 0 :: bytes"
  let ?g = "ex_plain_bmp\<lparr>mf_mReadPos := 14\<rparr>" and ?g2 = "ex_plain_bmp\<lparr>mf_mReadPos := 54\<rparr>"
  have a: "read_header 14 ex_plain_bmp = (Inr ?fh, ?g)" by code_simp
  have b: "read_header 40 ?g = (Inr ?ih, ?g2)" by code_simp
  have c: "40 \<le> biSize (info_header ?ih)" by code_simp
  have "bfSize (file_header ?fh) \<noteq> 14" by code_simp
  then show ?thesis using ordinary_bmp_refused [OF a b disjI1 [OF c], of "(\<lambda>_. 9, \<lambda>_. 0)" Image_initBase] by simp
qed

end
