(* ===== verification/Textures.thy ===== *)
theory Textures
  imports ImageProps Noise RiState "HOL-Library.Signed_Division"
begin

text \<open>
  Textures: \<open>RI_Texture.h/.cpp\<close> and \<open>Attributes::GetTexture\<close> of \<open>RI_Attributes_Textures.cpp\<close>. A
  texture is an image and two scales; sampling wraps. Samples are bytes.
\<close>

section \<open>Construction\<close>

definition GAUSS_HDIM :: nat where "GAUSS_HDIM = 2"

definition GAUSS_DIM :: nat where "GAUSS_DIM = 2 * GAUSS_HDIM + 1"

definition gauss_value :: "int \<Rightarrow> int \<Rightarrow> real" where
  "gauss_value i j = (let x = of_int j; y = of_int i; sigmaSqr = 1 * 1 :: real
     in 1 / (2 * pi * sigmaSqr) * exp (- (x * x + y * y) / (2 * sigmaSqr)))"

text \<open>
  \<open>makeGaussKernel\<close> writes \<open>_gGaussKernel[j][i]\<close> for indices from -2 to 2: the kernel is the list of its
  rows, and an index outside them has no meaning.
\<close>

fun gauss_writes :: "(int \<times> int) list \<Rightarrow> real list list \<Rightarrow> real list list res" where
  "gauss_writes [] kern = Inr kern"
| "gauss_writes ((i, j) # ps) kern =
     (if 0 \<le> j \<and> j < int GAUSS_DIM \<and> 0 \<le> i \<and> i < int GAUSS_DIM
      then gauss_writes ps (kern[nat j := (kern ! nat j)[nat i := gauss_value i j]])
      else Inl (Undefined_behaviour ''write outside _gGaussKernel''))"

definition makeGaussKernel :: "real list list \<Rightarrow> real list list res" where
  "makeGaussKernel kern =
     (let r = [- int GAUSS_HDIM..int GAUSS_HDIM] in gauss_writes (concat (map (\<lambda>i. map (\<lambda>j. (i, j)) r) r)) kern)"

text \<open>The rest of the name from the last \<open>ch\<close> on.\<close>

definition StrFindLastChar :: "string \<Rightarrow> char \<Rightarrow> string option" where
  "StrFindLastChar s ch = (if ch \<in> set s then Some (ch # rev (takeWhile (\<lambda>c. c \<noteq> ch) (rev s))) else None)"

record Texture =
  tx_mName :: string
  tx_mS_to_X :: real
  tx_mT_to_Y :: real
  tx_mImage :: Image

text \<open>The image of a texture; a name with another extension leaves it empty. libtiff is \<open>tiff\<close>.\<close>

definition texture_image :: "raw_mem \<Rightarrow> (MemFile \<Rightarrow> tiff_file) \<Rightarrow> string \<Rightarrow> string \<Rightarrow> MemFile \<Rightarrow> Image res" where
  "texture_image raw tiff pName pDotExt f =
     (if strcasecmp_eq pDotExt ''.tif'' \<or> strcasecmp_eq pDotExt ''.mip'' then
        (case LoadTIFF raw (tiff f) pName Image_initBase of (Inl e, _) \<Rightarrow> Inl e | (Inr _, im) \<Rightarrow> Inr im)
      else if strcasecmp_eq pDotExt ''.bmp'' then
        (case LoadBMP raw (Image_initBase, f) of (Inl e, _) \<Rightarrow> Inl e | (Inr _, (im, _)) \<Rightarrow> Inr im)
      else Inr Image_initBase)"

text \<open>The static flag \<open>kernelDone\<close> and the kernel are the state of the constructor.\<close>

definition Texture_new ::
  "raw_mem \<Rightarrow> (MemFile \<Rightarrow> tiff_file) \<Rightarrow> string \<Rightarrow> MemFile \<Rightarrow> (bool \<times> real list list, Texture) stx" where
  "Texture_new raw tiff pName f st =
     (case StrFindLastChar pName (CHR ''.'') of
        None \<Rightarrow> (Inl (Runtime_error (''Missing file extension ! '' @ pName)), st)
      | Some pDotExt \<Rightarrow>
          (case texture_image raw tiff pName pDotExt f of
             Inl e \<Rightarrow> (Inl e, st)
           | Inr im \<Rightarrow>
               let tx = \<lparr>tx_mName = pName, tx_mS_to_X = real (unat (im_mWd im)) - 1, tx_mT_to_Y = real (unat (im_mHe im)) - 1, tx_mImage = im\<rparr>
               in if fst st then (Inr tx, st)
                  else case makeGaussKernel (snd st) of
                    Inl e \<Rightarrow> (Inl e, st)
                  | Inr kern \<Rightarrow> (Inr tx, (True, kern))))"

section \<open>Sampling\<close>

text \<open>\<open>((int)floorf (v)) % (int)size\<close>, made positive.\<close>

definition wrap_index :: "real \<Rightarrow> U32 \<Rightarrow> U32 res" where
  "wrap_index v size' =
     (if \<not> int32 \<lfloor>v\<rfloor> then Inl (Undefined_behaviour ''float out of the range of int'')
      else if sint size' = 0 then Inl (Undefined_behaviour ''division by zero'')
      else let i = \<lfloor>v\<rfloor> smod sint size' in Inr (if i < 0 then word_of_int i + size' else word_of_int i))"

definition sample_1x1 :: "Texture \<Rightarrow> real \<times> real \<Rightarrow> real res" where
  "sample_1x1 tx st =
     (let im = tx_mImage tx in
      res_bind (wrap_index (fst st * tx_mS_to_X tx) (im_mWd im)) (\<lambda>xi.
      res_bind (wrap_index (snd st * tx_mT_to_Y tx) (im_mHe im)) (\<lambda>yi.
      res_bind (read_u8 (im_mpData im) (GetPixelPtr xi yi im)) (\<lambda>b. Inr (real (unat b) * (1 / 255))))))"

definition Sample_1_1x1 :: "Texture \<Rightarrow> lanes \<Rightarrow> lanes \<Rightarrow> lanes res" where
  "Sample_1_1x1 tx s00 t00 = res_map (sample_1x1 tx) (zip s00 t00)"

definition bilinear :: "real \<Rightarrow> real \<Rightarrow> real \<Rightarrow> real \<Rightarrow> real \<Rightarrow> real \<Rightarrow> real" where
  "bilinear u v c00 c01 c10 c11 =
     (let top' = (1 - u) * c00 + (u - 0) * c01; bot = (1 - u) * c10 + (u - 0) * c11 in (1 - v) * top' + (v - 0) * bot)"

definition sample_filter :: "Texture \<Rightarrow> real \<times> real \<Rightarrow> real res" where
  "sample_filter tx st =
     (let im = tx_mImage tx; s = fst st * tx_mS_to_X tx; t = snd st * tx_mT_to_Y tx;
          u = s - of_int \<lfloor>s\<rfloor>; v = t - of_int \<lfloor>t\<rfloor>
      in if \<not> int32 \<lfloor>s\<rfloor> \<or> \<not> int32 \<lfloor>t\<rfloor> then Inl (Undefined_behaviour ''float out of the range of int'')
         else res_bind (GetPixelQuadWrapR \<lfloor>s\<rfloor> \<lfloor>t\<rfloor> im) (\<lambda>q.
              res_bind (res_map (\<lambda>p. res_bind (read_u8 (im_mpData im) p) (\<lambda>b. Inr (real (unat b)))) q) (\<lambda>c.
              Inr (bilinear u v (c ! 0) (c ! 1) (c ! 2) (c ! 3) * (1 / 255)))))"

definition Sample_1_filter :: "Texture \<Rightarrow> lanes \<Rightarrow> lanes \<Rightarrow> lanes res" where
  "Sample_1_filter tx s00 t00 = res_map (sample_filter tx) (zip s00 t00)"

section \<open>Finding textures\<close>

definition FindResource_texture :: "string \<Rightarrow> Texture list \<Rightarrow> Texture option" where
  "FindResource_texture pName l = find (\<lambda>r. strcasecmp_eq pName (tx_mName r)) l"

record texture_state =
  ts_textures :: "Texture list"
  ts_kernel :: "bool \<times> real list list"

text \<open>
  A loaded texture, else the file that the search paths find, read by the file manager \<open>grab\<close>,
  which throws when it cannot.
\<close>

definition GetTexture ::
  "raw_mem \<Rightarrow> (MemFile \<Rightarrow> tiff_file) \<Rightarrow> (string \<Rightarrow> bytes res) \<Rightarrow> State \<Rightarrow> string \<Rightarrow> (texture_state, Texture option) stx" where
  "GetTexture raw tiff grab s pTextureName ts =
     (case FindResource_texture pTextureName (ts_textures ts) of
        Some t \<Rightarrow> (Inr (Some t), ts)
      | None \<Rightarrow>
          (case FindResFile pTextureName SEARCHPATH_TEXTURE s of
             Inl e \<Rightarrow> (Inl e, ts)
           | Inr path \<Rightarrow>
               if path = '''' then (Inr None, ts)
               else (case grab path of
                 Inl e \<Rightarrow> (Inl e, ts)
               | Inr d \<Rightarrow>
                   (case Texture_new raw tiff pTextureName (snd (InitExclusiveOwenership d MemFile_empty)) (ts_kernel ts) of
                      (Inl e, k) \<Rightarrow> (Inl e, ts\<lparr>ts_kernel := k\<rparr>)
                    | (Inr t, k) \<Rightarrow> (Inr (Some t), ts\<lparr>ts_textures := ts_textures ts @ [t], ts_kernel := k\<rparr>)))))"

section \<open>Samples are bilinear\<close>

text \<open>A texture as the constructor makes it of an image of bytes.\<close>

definition texture_ok :: "Texture \<Rightarrow> bool" where
  "texture_ok tx \<longleftrightarrow> img_ok (tx_mImage tx) \<and> im_mSampType (tx_mImage tx) = ST_U8 \<and> 0 < im_mSampPerPix (tx_mImage tx)
     \<and> tx_mS_to_X tx = real (unat (im_mWd (tx_mImage tx))) - 1 \<and> tx_mT_to_Y tx = real (unat (im_mHe (tx_mImage tx))) - 1"

text \<open>The first sample of a pixel, from 0 to 1, and the pixel at a wrapped position.\<close>

definition texel :: "Texture \<Rightarrow> nat \<Rightarrow> nat \<Rightarrow> real" where
  "texel tx x y = (case samp_byte (tx_mImage tx) (x mod unat (im_mWd (tx_mImage tx))) (y mod unat (im_mHe (tx_mImage tx))) 0 of
     Inl _ \<Rightarrow> 0 | Inr b \<Rightarrow> real (unat b) / 255)"

lemma texel_read:
  assumes "texture_ok tx" and "has_pixel x y (tx_mImage tx)"
  shows "\<exists>b. read_u8 (im_mpData (tx_mImage tx)) (pixel_ptr x y (tx_mImage tx)) = Inr b \<and> real (unat b) = 255 * texel tx x y"
proof -
  let ?im = "tx_mImage tx"
  have ok: "img_ok ?im" and t: "im_mSampType ?im = ST_U8" and s: "0 < unat (im_mSampPerPix ?im)"
    using assms(1) by (simp_all add: texture_ok_def word_less_nat_alt)
  obtain bs where bs: "im_mpData ?im = Bytes_mem bs" "length bs = unat (im_mBytesPerRow ?im) * unat (im_mHe ?im)"
    using img_okD(8) [OF ok] t by (auto simp: has_bytes_def)
  have "pixel_ptr x y ?im < length bs" using pixel_room(2) [OF ok assms(2)] s bs t by simp
  then have r: "read_u8 (im_mpData ?im) (pixel_ptr x y ?im) = Inr (bs ! pixel_ptr x y ?im)"
    using bs by (simp add: read_u8_def read_bytes_def hd_drop_conv_nth)
  have "x mod unat (im_mWd ?im) = x" "y mod unat (im_mHe ?im) = y" using assms(2) by (simp_all add: has_pixel_def)
  then have "texel tx x y = real (unat (bs ! pixel_ptr x y ?im)) / 255" using r by (simp add: texel_def samp_byte_def)
  with r show ?thesis by simp
qed

lemma texel_range: "0 \<le> texel tx x y \<and> texel tx x y \<le> 1"
proof -
  have "real (unat b) \<le> 255" for b :: U8
  proof -
    have "unat b \<le> 255" using byte_bound [of b] by simp
    then have "real (unat b) \<le> real 255" by (simp only: of_nat_le_iff)
    then show ?thesis by simp
  qed
  moreover have "0 \<le> real (unat b)" for b :: U8 by (rule of_nat_0_le_iff)
  ultimately have "0 \<le> real (unat b) / 255 \<and> real (unat b) / 255 \<le> 1" for b :: U8 by (intro conjI divide_nonneg_pos) (simp_all only: divide_le_eq_1_pos zero_less_numeral)
  then show ?thesis unfolding texel_def by (cases "samp_byte (tx_mImage tx) (x mod unat (im_mWd (tx_mImage tx))) (y mod unat (im_mHe (tx_mImage tx))) 0")
    (simp_all only: sum.case order_refl zero_le_one simp_thms)
qed

lemma bilinear_scale: "bilinear u v (255 * a) (255 * b) (255 * c) (255 * d) * (1 / 255) = bilinear u v a b c d"
  by (simp add: bilinear_def Let_def field_simps)

lemma lerp_range:
  fixes u a b :: real
  assumes "0 \<le> u" "u \<le> 1" "0 \<le> a" "a \<le> 1" "0 \<le> b" "b \<le> 1"
  shows "0 \<le> (1 - u) * a + u * b \<and> (1 - u) * a + u * b \<le> 1"
proof -
  have "(1 - u) * a \<le> (1 - u) * 1" "u * b \<le> u * 1" using assms by (intro mult_left_mono; simp)+
  then show ?thesis using assms by simp
qed

lemma bilinear_range:
  assumes "0 \<le> u" "u \<le> 1" "0 \<le> v" "v \<le> 1"
  shows "0 \<le> bilinear u v (texel tx a b) (texel tx c d) (texel tx e f) (texel tx g h)
    \<and> bilinear u v (texel tx a b) (texel tx c d) (texel tx e f) (texel tx g h) \<le> 1"
  unfolding bilinear_def Let_def diff_zero
  using lerp_range [OF assms(3,4)] lerp_range [OF assms(1,2)] texel_range by blast

lemma frac_bounds: "0 \<le> r - of_int \<lfloor>r\<rfloor>" "r - of_int \<lfloor>r\<rfloor> \<le> (1 :: real)"
  by linarith+

lemma sample_filter_wraps:
  assumes "texture_ok tx" and "int32 \<lfloor>s * tx_mS_to_X tx\<rfloor>" and "int32 \<lfloor>t * tx_mT_to_Y tx\<rfloor>"
  defines "x \<equiv> wrapped \<lfloor>s * tx_mS_to_X tx\<rfloor> (im_mWd (tx_mImage tx))" and "y \<equiv> wrapped \<lfloor>t * tx_mT_to_Y tx\<rfloor> (im_mHe (tx_mImage tx))"
  shows "sample_filter tx (s, t) = Inr (bilinear (s * tx_mS_to_X tx - of_int \<lfloor>s * tx_mS_to_X tx\<rfloor>) (t * tx_mT_to_Y tx - of_int \<lfloor>t * tx_mT_to_Y tx\<rfloor>)
    (texel tx x y) (texel tx (x + 1) y) (texel tx x (y + 1)) (texel tx (x + 1) (y + 1)))"
proof -
  let ?im = "tx_mImage tx" and ?x' = "(x + 1) mod unat (im_mWd (tx_mImage tx))" and ?y' = "(y + 1) mod unat (im_mHe (tx_mImage tx))"
  have ok: "img_ok ?im" using assms(1) by (simp add: texture_ok_def)
  note Q = quad_in_image [OF ok, of "\<lfloor>s * tx_mS_to_X tx\<rfloor>" "\<lfloor>t * tx_mT_to_Y tx\<rfloor>", folded x_def y_def]
  obtain c0 c1 c2 c3 where c: "read_u8 (im_mpData ?im) (pixel_ptr x y ?im) = Inr c0" "real (unat c0) = 255 * texel tx x y"
    "read_u8 (im_mpData ?im) (pixel_ptr ?x' y ?im) = Inr c1" "real (unat c1) = 255 * texel tx ?x' y"
    "read_u8 (im_mpData ?im) (pixel_ptr x ?y' ?im) = Inr c2" "real (unat c2) = 255 * texel tx x ?y'"
    "read_u8 (im_mpData ?im) (pixel_ptr ?x' ?y' ?im) = Inr c3" "real (unat c3) = 255 * texel tx ?x' ?y'"
    using texel_read [OF assms(1) Q(2)] texel_read [OF assms(1) Q(3)] texel_read [OF assms(1) Q(4)] texel_read [OF assms(1) Q(5)] by blast
  have w: "texel tx (a mod unat (im_mWd ?im)) b = texel tx a b" "texel tx a (b mod unat (im_mHe ?im)) = texel tx a b" for a b
    by (simp_all add: texel_def)
  let ?u = "s * tx_mS_to_X tx - of_int \<lfloor>s * tx_mS_to_X tx\<rfloor>" and ?v = "t * tx_mT_to_Y tx - of_int \<lfloor>t * tx_mT_to_Y tx\<rfloor>"
  have "sample_filter tx (s, t) = Inr (bilinear ?u ?v (real (unat c0)) (real (unat c1)) (real (unat c2)) (real (unat c3)) * (1 / 255))"
    unfolding sample_filter_def Let_def fst_conv snd_conv Q(1) using assms(2,3) c(1,3,5,7) by simp
  then show ?thesis unfolding c(2,4,6,8) bilinear_scale w .
qed

text \<open>
  C14: textures are filtered bilinearly. For a texture of bytes and coordinates that are not negative,
  as far as the pixel they reach fits an \<open>int\<close>, \<open>Sample_1_filter\<close> reads inside the image and
  gives the bilinear interpolation of the four texels around the point, where columns and rows
  repeat, which is a number from 0 to 1.
\<close>

theorem filtered_sample:
  assumes "texture_ok tx" and "0 \<le> s" "0 \<le> t" and "s * tx_mS_to_X tx < 2 ^ 31" and "t * tx_mT_to_Y tx < 2 ^ 31"
  shows "\<exists>v. sample_filter tx (s, t) = Inr v \<and> 0 \<le> v \<and> v \<le> 1
    \<and> v = bilinear (frac (s * tx_mS_to_X tx)) (frac (t * tx_mT_to_Y tx))
        (texel tx (nat \<lfloor>s * tx_mS_to_X tx\<rfloor>) (nat \<lfloor>t * tx_mT_to_Y tx\<rfloor>)) (texel tx (nat \<lfloor>s * tx_mS_to_X tx\<rfloor> + 1) (nat \<lfloor>t * tx_mT_to_Y tx\<rfloor>))
        (texel tx (nat \<lfloor>s * tx_mS_to_X tx\<rfloor>) (nat \<lfloor>t * tx_mT_to_Y tx\<rfloor> + 1))
        (texel tx (nat \<lfloor>s * tx_mS_to_X tx\<rfloor> + 1) (nat \<lfloor>t * tx_mT_to_Y tx\<rfloor> + 1))"
proof -
  let ?S = "s * tx_mS_to_X tx" and ?T = "t * tx_mT_to_Y tx"
  have ok: "img_ok (tx_mImage tx)" and sc: "tx_mS_to_X tx = real (unat (im_mWd (tx_mImage tx))) - 1"
    "tx_mT_to_Y tx = real (unat (im_mHe (tx_mImage tx))) - 1" using assms(1) by (simp_all add: texture_ok_def)
  have "0 \<le> tx_mS_to_X tx" "0 \<le> tx_mT_to_Y tx" using img_ok_pos [OF ok] unfolding sc by linarith+
  then have p: "0 \<le> ?S" "0 \<le> ?T" using assms(2,3) by simp_all
  then have fl: "0 \<le> \<lfloor>?S\<rfloor>" "\<lfloor>?S\<rfloor> < 2 ^ 31" "0 \<le> \<lfloor>?T\<rfloor>" "\<lfloor>?T\<rfloor> < 2 ^ 31"
    using assms(4,5) by (simp_all add: floor_less_iff)
  then have i: "int32 \<lfloor>?S\<rfloor>" "int32 \<lfloor>?T\<rfloor>" by (simp_all add: int32_def)
  have w: "wrapped \<lfloor>?S\<rfloor> n = nat \<lfloor>?S\<rfloor> mod unat n" "wrapped \<lfloor>?T\<rfloor> n = nat \<lfloor>?T\<rfloor> mod unat n" for n
    using fl by (simp_all add: wrapped_nonneg)
  have tm: "texel tx (a mod unat (im_mWd (tx_mImage tx))) b = texel tx a b" "texel tx a (b mod unat (im_mHe (tx_mImage tx))) = texel tx a b"
    "texel tx (a mod unat (im_mWd (tx_mImage tx)) + 1) b = texel tx (a + 1) b" "texel tx a (b mod unat (im_mHe (tx_mImage tx)) + 1) = texel tx a (b + 1)"
    for a b by (simp_all add: texel_def mod_Suc_eq)
  from sample_filter_wraps [OF assms(1) i] have "sample_filter tx (s, t) = Inr (bilinear (frac ?S) (frac ?T)
      (texel tx (nat \<lfloor>?S\<rfloor>) (nat \<lfloor>?T\<rfloor>)) (texel tx (nat \<lfloor>?S\<rfloor> + 1) (nat \<lfloor>?T\<rfloor>))
      (texel tx (nat \<lfloor>?S\<rfloor>) (nat \<lfloor>?T\<rfloor> + 1)) (texel tx (nat \<lfloor>?S\<rfloor> + 1) (nat \<lfloor>?T\<rfloor> + 1)))"
    unfolding w tm frac_def .
  with bilinear_range [OF frac_bounds frac_bounds, of ?S ?T tx, folded frac_def] show ?thesis by blast
qed

definition ex_image :: "nat \<Rightarrow> bytes \<Rightarrow> Image" where
  "ex_image wd bs = Image_initBase\<lparr>im_mOwnData := True, im_mpData := Bytes_mem bs, im_mBytesPerRow := 64, im_mWd := of_nat wd, im_mHe := 1,
     im_mSampType := ST_U8, im_mSampPerPix := 1, im_mSampNames := ''a'' @ replicate 3 (CHR 0x00), im_mBytesPerSamp := 1, im_mBytesPerPix := 1\<rparr>"

definition ex_texture :: Texture where
  "ex_texture = \<lparr>tx_mName = ''a.bmp'', tx_mS_to_X = 1, tx_mT_to_Y = 0, tx_mImage = ex_image 2 ([100, 200] @ replicate 62 0)\<rparr>"

theorem filtered_sample_witness: "sample_filter ex_texture (1 / 2, 0) = Inr (150 / 255)"
proof -
  have ok: "texture_ok ex_texture"
    by (simp add: texture_ok_def ex_texture_def ex_image_def Image_initBase_def img_ok_def usual_type_def MAX_DIM_SIZE_def MAX_SAMP_PER_PIX_def has_bytes_def)
  have t: "texel ex_texture 0 0 = 100 / 255" "texel ex_texture 1 0 = 200 / 255" "texel ex_texture 0 1 = 100 / 255" "texel ex_texture 1 1 = 200 / 255"
    by (simp_all add: texel_def ex_texture_def ex_image_def Image_initBase_def samp_byte_def read_u8_def read_bytes_def pixel_ptr_def)
  have f: "frac (1 / 2 :: real) = 1 / 2" "\<lfloor>1 / 2 :: real\<rfloor> = 0" by (simp_all add: frac_def)
  have s: "tx_mS_to_X ex_texture = 1" "tx_mT_to_Y ex_texture = 0" by (simp_all add: ex_texture_def)
  from filtered_sample [OF ok, of "1 / 2" 0, unfolded s] show ?thesis using f t by (simp add: bilinear_def)
qed

text \<open>Left of the first column the filter does not find the last one.\<close>

theorem left_of_first_column:
  assumes "img_ok im" and "im_mWd im = 3"
  shows "\<exists>p q. GetPixelQuadWrapR (- 1) 0 im = Inr [pixel_ptr 0 0 im, pixel_ptr 1 0 im, p, q]"
proof -
  have "uint (word_of_int (- 1) :: U32) = (- 1) mod 2 ^ LENGTH(32)" by (rule uint_word_of_int)
  also have "\<dots> = 4294967295" by simp
  finally have "unat (word_of_int (- 1) :: U32) = 4294967295" by (simp add: unat_eq_nat_uint)
  moreover have u: "unat (im_mWd im) = 3" unfolding assms(2) by simp
  ultimately have "wrapped (- 1) (im_mWd im) = 0" unfolding wrapped_def u by (simp only:) simp
  moreover note u
  moreover have "wrapped 0 n = 0" for n by (simp add: wrapped_def)
  ultimately show ?thesis using quad_in_image(1) [OF assms(1), of "- 1" 0] by simp
qed

theorem left_of_first_column_witness:
  "\<exists>p q. GetPixelQuadWrapR (- 1) 0 (ex_image 3 (replicate 64 0)) = Inr [pixel_ptr 0 0 (ex_image 3 (replicate 64 0)), pixel_ptr 1 0 (ex_image 3 (replicate 64 0)), p, q]"
proof (rule left_of_first_column)
  show "img_ok (ex_image 3 (replicate 64 0))"
    by (simp add: ex_image_def Image_initBase_def img_ok_def usual_type_def MAX_DIM_SIZE_def MAX_SAMP_PER_PIX_def has_bytes_def)
qed (simp add: ex_image_def)

section \<open>Construction and lookup\<close>

text \<open>The first texture of a program makes the kernel, which writes outside its array.\<close>

theorem first_texture_undefined: "fst (Texture_new raw tiff pName f (False, kern)) \<noteq> Inr tx"
proof -
  have "[- 2..2 :: int] = [- 2, - 1, 0, 1, 2]" by code_simp
  then have "makeGaussKernel kern = Inl (Undefined_behaviour ''write outside _gGaussKernel'')"
    by (simp add: makeGaussKernel_def GAUSS_HDIM_def)
  then show ?thesis by (auto simp: Texture_new_def Let_def split: option.split sum.split)
qed

lemma find_in_append: "find P (xs @ ys) = (case find P xs of Some x \<Rightarrow> Some x | None \<Rightarrow> find P ys)"
  by (induction xs) auto

lemma Texture_new_name: "Texture_new raw tiff pName f st = (Inr t, st') \<Longrightarrow> tx_mName t = pName"
  by (auto simp: Texture_new_def Let_def split: option.splits sum.splits if_splits)

text \<open>
  Textures are loaded once. After \<open>GetTexture\<close> has returned a texture, a request for the same name, in
  any case of its letters, returns the same texture and changes nothing, whatever the files are by then.
\<close>

theorem texture_loaded_once:
  assumes "GetTexture raw tiff grab s pName ts = (Inr (Some t), ts')" and "strcasecmp_eq pName' pName"
  shows "GetTexture raw' tiff' grab' s' pName' ts' = (Inr (Some t), ts')"
proof -
  have same: "FindResource_texture pName' l = FindResource_texture pName l" for l
    using assms(2) by (simp add: FindResource_texture_def strcasecmp_eq_def)
  have "FindResource_texture pName (ts_textures ts') = Some t"
  proof (cases "FindResource_texture pName (ts_textures ts)")
    case (Some u)
    then show ?thesis using assms(1) by (simp add: GetTexture_def)
  next
    case None
    from assms(1) None obtain d k where
      n: "Texture_new raw tiff pName (snd (InitExclusiveOwenership d MemFile_empty)) (ts_kernel ts) = (Inr t, k)"
      and ts: "ts' = ts\<lparr>ts_textures := ts_textures ts @ [t], ts_kernel := k\<rparr>"
      by (auto simp: GetTexture_def split: sum.splits prod.splits if_splits)
    have "strcasecmp_eq pName (tx_mName t)" unfolding Texture_new_name [OF n] by (simp add: strcasecmp_eq_def)
    then show ?thesis using None unfolding ts FindResource_texture_def by (simp add: find_in_append)
  qed
  then show ?thesis by (simp add: GetTexture_def same)
qed

definition ex_textures :: texture_state where
  "ex_textures = \<lparr>ts_textures = [ex_texture], ts_kernel = (True, [])\<rparr>"

theorem texture_loaded_once_witness:
  "\<forall>raw tiff grab s. GetTexture raw tiff grab s ''A.BMP'' ex_textures = (Inr (Some ex_texture), ex_textures)"
proof (intro allI, rule texture_loaded_once)
  fix raw tiff grab s
  show "GetTexture raw tiff grab s ''a.bmp'' ex_textures = (Inr (Some ex_texture), ex_textures)"
    by (simp add: GetTexture_def FindResource_texture_def ex_textures_def ex_texture_def strcasecmp_eq_def)
  show "strcasecmp_eq ''A.BMP'' ''a.bmp''" by code_simp
qed

end
