(* ===== verification/Displays.thy ===== *)
theory Displays
  imports RRAsm Frame ImageProps
begin

text \<open>
  The end of a frame: \<open>Framework::WorldEnd\<close> gives every display an image (\<open>worldEnd_setupDisplays\<close>),
  renders, and converts the final buffer into the images; then the display drivers of
  \<open>DispDrivers\<close> take them. \<open>RI_Framework.cpp\<close>, \<open>DispDriverFile.cpp\<close>, \<open>DispDriverFBuffOGL.cpp\<close>.
\<close>

section \<open>The images of the displays\<close>

text \<open>Displays are known by address; their images are kept beside the records of \<open>RiState\<close>.\<close>

definition display_samples :: "Display \<Rightarrow> SampType res" where
  "display_samples d =
     (if disp_mValMax d = 0 then Inr ST_F32 else if disp_mValMax d \<le> 255 then Inr ST_U8
      else if disp_mValMax d \<le> 65535 then Inr ST_U16
      else Inl (Runtime_error (''Invalid quantization value for the display '' @ [CHR 0x27] @ disp_mName d @ [CHR 0x27])))"

fun setupDisplays :: "raw_mem \<Rightarrow> Options \<Rightarrow> disp_heap \<Rightarrow> addr list \<Rightarrow> (addr \<Rightarrow> Image, unit) stx" where
  "setupDisplays raw opt h [] imgs = (Inr (), imgs)"
| "setupDisplays raw opt h (a # as) imgs =
     (case dh_objs h a of
        None \<Rightarrow> (Inl freed, imgs)
      | Some d \<Rightarrow>
          (case display_samples d of
             Inl e \<Rightarrow> (Inl e, imgs)
           | Inr ty \<Rightarrow>
               (case Image_Init raw (word_of_int (mXRes opt)) (word_of_int (mYRes opt)) (of_nat (length (disp_mMode d))) ty (- 1)
                       (disp_mMode d) None (imgs a) of
                  (Inl e, im) \<Rightarrow> (Inl e, imgs(a := im))
                | (Inr _, im) \<Rightarrow> setupDisplays raw opt h as (imgs(a := im)))))"

definition worldEnd_setupDisplays :: "raw_mem \<Rightarrow> Options \<Rightarrow> disp_heap \<Rightarrow> (addr \<Rightarrow> Image, unit) stx" where
  "worldEnd_setupDisplays raw opt h = setupDisplays raw opt h (mpDisplays opt)"

text \<open>\<open>GetOutputData (0, 0)\<close>: the data of the final buffer, or null for an empty one.\<close>

definition output_data :: "(real, 'p) Hider \<Rightarrow> ImgMem option" where
  "output_data hr = (case GetSamplePtr NOUTCOLS 0 0 (mFinalBuff hr) of
     None \<Rightarrow> None | Some i \<Rightarrow> map_option (\<lambda>d. Floats_mem (drop i d)) (b2_mpData (mFinalBuff hr)))"

definition hider_image :: "raw_mem \<Rightarrow> (real, 'p) Hider \<Rightarrow> unit res \<times> Image" where
  "hider_image raw hr =
     Image_Init raw (of_nat (b2_mWd (mFinalBuff hr))) (of_nat (b2_mHe (mFinalBuff hr))) (of_nat NOUTCOLS) ST_F32
       (sint (of_nat (GetOutputDataStride hr * 4) :: U32)) ''rgba'' (output_data hr) Image_initBase"

fun convertDisplays :: "Image \<Rightarrow> disp_heap \<Rightarrow> addr list \<Rightarrow> (addr \<Rightarrow> Image, unit) stx" where
  "convertDisplays src h [] imgs = (Inr (), imgs)"
| "convertDisplays src h (a # as) imgs =
     (case dh_objs h a of
        None \<Rightarrow> (Inl freed, imgs)
      | Some _ \<Rightarrow>
          (case ConvertImages src 0 0 0 0 (- 1) (- 1) (imgs a) of
             (Inl e, im) \<Rightarrow> (Inl e, imgs(a := im))
           | (Inr _, im) \<Rightarrow> convertDisplays src h as (imgs(a := im))))"

section \<open>The end of the world\<close>

record end_state =
  en_hider :: scene_hider
  en_images :: "addr \<Rightarrow> Image"
  en_options :: Options
  en_displays :: disp_heap

text \<open>
  The part inside \<open>try\<close>: images, buckets, conversion, the end of the hider. The releases between
  them touch only what \<open>Hider_WorldEnd\<close> drops.
\<close>

definition worldEnd_images :: "task_env \<Rightarrow> raw_mem \<Rightarrow> nat list \<Rightarrow> (end_state, unit) stx" where
  "worldEnd_images te raw ts s =
     (case worldEnd_setupDisplays raw (en_options s) (en_displays s) (en_images s) of
        (Inl e, imgs) \<Rightarrow> (Inl e, s\<lparr>en_images := imgs\<rparr>)
      | (Inr _, imgs) \<Rightarrow>
          (case render_tasks te ts (en_hider s) of
             (Inl e, hr) \<Rightarrow> (Inl e, s\<lparr>en_images := imgs, en_hider := hr\<rparr>)
           | (Inr _, hr) \<Rightarrow>
               (case hider_image raw hr of
                  (Inl e, _) \<Rightarrow> (Inl e, s\<lparr>en_images := imgs, en_hider := hr\<rparr>)
                | (Inr _, src) \<Rightarrow>
                    (case convertDisplays src (en_displays s) (mpDisplays (en_options s)) imgs of
                       (Inl e, imgs) \<Rightarrow> (Inl e, s\<lparr>en_images := imgs, en_hider := hr\<rparr>)
                     | (Inr _, imgs) \<Rightarrow>
                         (case Hider_WorldEnd hr of (r, hr) \<Rightarrow> (r, s\<lparr>en_images := imgs, en_hider := hr\<rparr>))))))"

text \<open>The handler frees the displays and throws again.\<close>

definition or_free_displays :: "(end_state, unit) stx \<Rightarrow> (end_state, unit) stx" where
  "or_free_displays m s =
     (case m s of
        (Inr u, s') \<Rightarrow> (Inr u, s')
      | (Inl (Undefined_behaviour x), s') \<Rightarrow> (Inl (Undefined_behaviour x), s')
      | (Inl e, s') \<Rightarrow>
          (case FreeDisplays (en_options s') (en_displays s') of
             (Inl e', opt, h) \<Rightarrow> (Inl e', s'\<lparr>en_options := opt, en_displays := h\<rparr>)
           | (Inr _, opt, h) \<Rightarrow> (Inl e, s'\<lparr>en_options := opt, en_displays := h\<rparr>)))"

definition Framework_WorldEnd_images ::
  "task_env \<Rightarrow> raw_mem \<Rightarrow> SymbolList \<Rightarrow> hider_prim list \<Rightarrow> nat list \<Rightarrow> (end_state, unit) stx" where
  "Framework_WorldEnd_images te raw syms prims ts s =
     (case worldEnd_simplify syms prims of
        (Inl e, _) \<Rightarrow> (Inl e, s)
      | (Inr _, ps) \<Rightarrow>
          (case worldEnd_splitAndAddToBuckets MakeBound ((en_hider s)\<lparr>hd_mpPrims := simple_prims ps\<rparr>) of
             (Inl e, hr) \<Rightarrow> (Inl e, s\<lparr>en_hider := hr\<rparr>)
           | (Inr _, hr) \<Rightarrow> or_free_displays (worldEnd_images te raw ts) (s\<lparr>en_hider := hr\<rparr>)))"

section \<open>Display drivers\<close>

datatype saved = Saved_jpeg "bytes list" | Saved_tiff "tiff_call list" | Not_saved

definition DispDriverFile :: "raw_mem \<Rightarrow> bool \<Rightarrow> string \<Rightarrow> Image \<Rightarrow> unit res \<times> saved" where
  "DispDriverFile raw opens pFileName srcImg =
     (let pExt = GetFileNameExt pFileName in
      if strcasecmp_eq pExt ''jpg'' \<or> strcasecmp_eq pExt ''jpeg'' then
        (case SaveJPEG raw opens pFileName srcImg of (r, b) \<Rightarrow> (r, Saved_jpeg b))
      else if strcasecmp_eq pExt ''tif'' \<or> strcasecmp_eq pExt ''tiff'' then
        (case SaveTIFF opens pFileName srcImg of (r, c) \<Rightarrow> (r, Saved_tiff c))
      else (Inl (name_as_format pExt), Not_saved))"

text \<open>The loop of \<open>getNextPow2\<close>, from \<open>i\<close>.\<close>

fun nextPow2_loop :: "nat \<Rightarrow> nat list \<Rightarrow> nat" where
  "nextPow2_loop val [] = 0"
| "nextPow2_loop val (i # is') = (if 2 ^ (i - 1) \<le> val \<and> val \<le> 2 ^ i then 2 ^ i else nextPow2_loop val is')"

definition getNextPow2 :: "nat \<Rightarrow> nat" where
  "getNextPow2 val = (if val = 0 then 0 else nextPow2_loop val [1..<32])"

record DispDriverFBuffOGL =
  ogl_mSupportsNonPow2 :: bool
  ogl_mImage :: Image
  ogl_mTexWd :: nat
  ogl_mTexHe :: nat

text \<open>
  The constructor, up to what it sends to OpenGL. \<open>ext\<close> says which extensions the string of OpenGL
  contains, if there is one.
\<close>

definition DispDriverFBuffOGL_new :: "raw_mem \<Rightarrow> (string \<Rightarrow> bool) option \<Rightarrow> Image \<Rightarrow> DispDriverFBuffOGL res" where
  "DispDriverFBuffOGL_new raw ext srcImg =
     (case ext of
        None \<Rightarrow> Inl (AssThrow ''OpenGL not initialized ?'')
      | Some has \<Rightarrow>
          let np2 = \<not> (\<not> has ''GL_ARB_texture_non_power_of_two'' \<and> \<not> has ''GL_ARB_texture_rectangle''
                \<and> \<not> has ''GL_EXT_texture_rectangle'') in
          (case Image_Init raw (im_mWd srcImg) (im_mHe srcImg) 4 ST_U8 (sint (im_mWd srcImg * 4)) ''rgba'' None Image_initBase of
             (Inl e, _) \<Rightarrow> Inl e
           | (Inr _, im) \<Rightarrow>
               (case ConvertImages srcImg 0 0 0 0 (- 1) (- 1) im of
                  (Inl e, _) \<Rightarrow> Inl e
                | (Inr _, im) \<Rightarrow>
                    let tex = (\<lambda>n. if np2 then unat n else getNextPow2 (unat n)) in
                    Inr \<lparr>ogl_mSupportsNonPow2 = np2, ogl_mImage = im, ogl_mTexWd = tex (im_mWd im), ogl_mTexHe = tex (im_mHe im)\<rparr>)))"

section \<open>What the displays show\<close>

lemma of_nat_dim: "0 < i \<Longrightarrow> i \<le> 65536 \<Longrightarrow> unat (word_of_int i :: U32) = nat i \<and> 0 < (word_of_int i :: U32) \<and> (word_of_int i :: U32) \<le> MAX_DIM_SIZE"
proof -
  assume i: "0 < i" "i \<le> 65536"
  then have u: "unat (word_of_int i :: U32) = nat i" by (simp add: unat_eq_nat_uint uint_word_of_int)
  have "nat i \<le> 65536" "nat i \<noteq> 0" using i by simp_all
  then show ?thesis unfolding word_less_nat_alt word_le_nat_alt MAX_DIM_SIZE_def u by simp
qed

text \<open>The image that \<open>WorldEnd\<close> makes of the final buffer holds its samples.\<close>

lemma hider_image_ok:
  assumes "buffer_ok NOUTCOLS (mFinalBuff hr)" and "0 < b2_mWd (mFinalBuff hr)" "b2_mWd (mFinalBuff hr) \<le> 65536"
    and "0 < b2_mHe (mFinalBuff hr)" "b2_mHe (mFinalBuff hr) \<le> 65536" and "16 * b2_mWd (mFinalBuff hr) * b2_mHe (mFinalBuff hr) < 2 ^ 32"
  obtains src where "hider_image raw hr = (Inr (), src)" and "img_ok src"
    and "unat (im_mWd src) = b2_mWd (mFinalBuff hr)" "unat (im_mHe src) = b2_mHe (mFinalBuff hr)"
    and "\<And>x y. has_pixel x y src \<Longrightarrow> pixel x y src = Inr (map (final_sample hr x y) [0..<NOUTCOLS])"
proof -
  let ?W = "b2_mWd (mFinalBuff hr)" and ?H = "b2_mHe (mFinalBuff hr)"
  obtain d where d: "b2_mpData (mFinalBuff hr) = Some d" "length d = ?W * NOUTCOLS * ?H" using assms(1) by (auto simp: buffer_ok_def)
  have out: "output_data hr = Some (Floats_mem d)"
    using assms(2-5) d by (simp add: output_data_def GetSamplePtr_def in_buffer_def as_int_def sample_index_def u_int_def)
  have w: "unat (of_nat ?W :: U32) = ?W" "unat (of_nat ?H :: U32) = ?H" using assms(3,5) by (simp_all add: unat_of_nat)
  have s16: "GetOutputDataStride hr * 4 = ?W * 16" using assms(3) by (simp add: GetOutputDataStride_def u_int_def NOUTCOLS_def)
  have row: "unat (of_nat (?W * 16) :: U32) = ?W * 16" using assms(3) by (simp add: unat_of_nat del: of_nat_mult)
  have st: "sint (of_nat (?W * 16) :: U32) = int (?W * 16)" using sint_unat [of "of_nat (?W * 16)"] assms(3) unfolding row by simp
  have dim: "0 < (of_nat ?W :: U32)" "(of_nat ?W :: U32) \<le> MAX_DIM_SIZE" "0 < (of_nat ?H :: U32)" "(of_nat ?H :: U32) \<le> MAX_DIM_SIZE"
    unfolding word_less_nat_alt word_le_nat_alt w MAX_DIM_SIZE_def using assms(2-5) by simp_all
  obtain r :: U32 where r: "of_nat (?W * 16) = r" by blast
  have row: "unat r = ?W * 16" using row unfolding r .
  have st: "sint r = int (?W * 16)" using st unfolding r .
  let ?src = "Image_initBase\<lparr>im_mWd := of_nat ?W, im_mHe := of_nat ?H, im_mSampPerPix := 4, im_mSampType := ST_F32, im_mSampNames := ''rgba'',
    im_mBytesPerSamp := 4, im_mBytesPerPix := 16, im_mBytesPerRow := r, im_mOwnData := False, im_mpData := Floats_mem d\<rparr>"
  have init: "hider_image raw hr = (Inr (), ?src)"
    unfolding hider_image_def out s16 r st Image_Init_def Let_def using dim assms(2) r
    by (simp add: NOUTCOLS_def MAX_SAMP_PER_PIX_def Image_initBase_def MAX_DIM_SIZE_def)
  have ok: "img_ok ?src"
    using dim assms(2,6) d(2) unfolding img_ok_def
    by (simp add: usual_type_def MAX_SAMP_PER_PIX_def has_floats_def w row NOUTCOLS_def)
  have px: "pixel x y ?src = Inr (map (final_sample hr x y) [0..<NOUTCOLS])" if p: "has_pixel x y ?src" for x y
  proof -
    let ?v = "final_sample hr x y"
    have xy: "x < ?W" "y < ?H" using p w by (simp_all add: has_pixel_def)
    have "pixel_ptr x y ?src = ?W * 16 * y + x * 16" by (simp add: pixel_ptr_def row)
    then have ptr: "pixel_ptr x y ?src + 4 * i = 4 * ((x + ?W * y) * 4 + i)" for i by (simp only: add_mult_distrib add_mult_distrib2)
    have "Suc (x + ?W * y) \<le> ?W * Suc y" using xy by simp
    also have "\<dots> \<le> ?W * ?H" using xy by (intro mult_le_mono2) simp
    finally have "x + ?W * y < ?W * ?H" by simp
    then have l: "(x + ?W * y) * 4 + i < length d" if "i < 4" for i using that d(2) unfolding NOUTCOLS_def by simp
    have rf: "read_float (Floats_mem d) (4 * j) = (if j < length d then Inr (d ! j) else Inl bad_image)" for j by (simp add: read_float_def)
    have "read_float (Floats_mem d) (pixel_ptr x y ?src + 4 * (0 + i)) = Inr (?v (0 + i))" if "i < 4" for i
      unfolding ptr add_0 rf using l [OF that] d(1) by (simp add: final_sample_def samp_def NOUTCOLS_def)
    then have "get_samps (\<lambda>i. read_float (Floats_mem d) (pixel_ptr x y ?src + 4 * i)) 0 4 (replicate MAX_SAMP_PER_PIX 0)
      = Inr (take 0 (replicate MAX_SAMP_PER_PIX 0) @ map ?v [0..<0 + 4] @ drop (0 + 4) (replicate MAX_SAMP_PER_PIX 0))"
      by (intro f32.read_all) (simp_all add: MAX_SAMP_PER_PIX_def)
    then show ?thesis using pixel_read [OF ok p] by (simp add: MAX_SAMP_PER_PIX_def NOUTCOLS_def)
  qed
  show ?thesis by (rule that [OF init ok]) (use w px in simp_all)
qed

text \<open>A display whose image can be made, and what it shows of four numbers.\<close>

definition display_fits :: "Options \<Rightarrow> Display \<Rightarrow> bool" where
  "display_fits opt d \<longleftrightarrow> length (disp_mMode d) \<le> MAX_SAMP_PER_PIX
     \<and> (\<exists>ty. display_samples d = Inr ty \<and> row_bytes ty (length (disp_mMode d)) (nat (mXRes opt)) * nat (mYRes opt) < 2 ^ 32)"

definition displayed :: "Display \<Rightarrow> real list \<Rightarrow> real list" where
  "displayed d vs = (case display_samples d of
     Inl _ \<Rightarrow> []
   | Inr ty \<Rightarrow> map (stored ty) (take (length (disp_mMode d)) vs) @ replicate (MAX_SAMP_PER_PIX - length (disp_mMode d)) 0)"

definition display_image :: "Options \<Rightarrow> Display \<Rightarrow> Image \<Rightarrow> bool" where
  "display_image opt d im \<longleftrightarrow> img_ok im \<and> unat (im_mWd im) = nat (mXRes opt) \<and> unat (im_mHe im) = nat (mYRes opt)
     \<and> unat (im_mSampPerPix im) = length (disp_mMode d) \<and> display_samples d = Inr (im_mSampType im)"

lemma display_samples_usual: "display_samples d = Inr ty \<Longrightarrow> usual_type ty"
  by (auto simp: display_samples_def usual_type_def split: if_splits)

lemma setup_ok:
  assumes "0 < mXRes opt" "mXRes opt \<le> 65536" and "0 < mYRes opt" "mYRes opt \<le> 65536"
    and "\<forall>a \<in> set as. \<exists>d. dh_objs h a = Some d \<and> display_fits opt d"
  shows "\<exists>imgs'. setupDisplays raw opt h as imgs = (Inr (), imgs')
    \<and> (\<forall>a \<in> set as. display_image opt (the (dh_objs h a)) (imgs' a)) \<and> (\<forall>a. a \<notin> set as \<longrightarrow> imgs' a = imgs a)"
  using assms(5)
proof (induction as arbitrary: imgs)
  case Nil
  then show ?case by simp
next
  case (Cons a as)
  then obtain d ty where d: "dh_objs h a = Some d" and t: "display_samples d = Inr ty" and l: "length (disp_mMode d) \<le> MAX_SAMP_PER_PIX"
    and f: "row_bytes ty (length (disp_mMode d)) (nat (mXRes opt)) * nat (mYRes opt) < 2 ^ 32" by (auto simp: display_fits_def)
  have n: "unat (of_nat (length (disp_mMode d)) :: U32) = length (disp_mMode d)" using l by (simp add: unat_of_nat MAX_SAMP_PER_PIX_def)
  note x = of_nat_dim [OF assms(1,2)] and y = of_nat_dim [OF assms(3,4)]
  obtain im where i: "Image_Init raw (word_of_int (mXRes opt)) (word_of_int (mYRes opt)) (of_nat (length (disp_mMode d))) ty (- 1)
      (disp_mMode d) None (imgs a) = (Inr (), im)" and im: "display_image opt d im"
  proof (rule init_ok [OF display_samples_usual [OF t], of "word_of_int (mXRes opt)" "word_of_int (mYRes opt)" "disp_mMode d"
        "of_nat (length (disp_mMode d))" raw "imgs a"])
    fix im'
    assume i: "Image_Init raw (word_of_int (mXRes opt)) (word_of_int (mYRes opt)) (of_nat (length (disp_mMode d))) ty (- 1)
        (disp_mMode d) None (imgs a) = (Inr (), im')" and ok: "img_ok im'"
      and f: "im_mWd im' = word_of_int (mXRes opt)" "im_mHe im' = word_of_int (mYRes opt)"
        "im_mSampPerPix im' = of_nat (length (disp_mMode d))" "im_mSampType im' = ty"
    have "display_image opt d im'" unfolding display_image_def f using ok x y n t by blast
    with i show thesis by (rule that)
  qed (use x y n l f in simp_all)
  from Cons.IH [of "imgs(a := im)"] Cons.prems obtain imgs' where s: "setupDisplays raw opt h as (imgs(a := im)) = (Inr (), imgs')"
    and g: "\<forall>b \<in> set as. display_image opt (the (dh_objs h b)) (imgs' b)" and o: "\<forall>b. b \<notin> set as \<longrightarrow> imgs' b = (imgs(a := im)) b"
    by (metis list.set_intros(2))
  have "display_image opt (the (dh_objs h a)) (imgs' a)"
  proof (cases "a \<in> set as")
    case True
    then show ?thesis using g by blast
  next
    case False
    then show ?thesis using o d im by simp
  qed
  with g have "\<forall>b \<in> set (a # as). display_image opt (the (dh_objs h b)) (imgs' b)" by simp
  moreover have "\<forall>b. b \<notin> set (a # as) \<longrightarrow> imgs' b = imgs b" using o by simp
  moreover have "setupDisplays raw opt h (a # as) imgs = (Inr (), imgs')" using s d t i by simp
  ultimately show ?case by blast
qed

definition shows_samples :: "Options \<Rightarrow> Display \<Rightarrow> (nat \<Rightarrow> nat \<Rightarrow> real list) \<Rightarrow> Image \<Rightarrow> bool" where
  "shows_samples opt d v im \<longleftrightarrow>
     (\<forall>x y. int x < mXRes opt \<longrightarrow> int y < mYRes opt \<longrightarrow> pixel x y im = Inr (displayed d (v x y)))"

lemma convert_display:
  assumes "img_ok src" and "unat (im_mWd src) = nat (mXRes opt)" "unat (im_mHe src) = nat (mYRes opt)"
    and "display_image opt d im" and "\<And>x y. has_pixel x y src \<Longrightarrow> pixel x y src = Inr (v x y)"
  obtains im' where "ConvertImages src 0 0 0 0 (- 1) (- 1) im = (Inr (), im')" and "display_image opt d im'" and "shows_samples opt d v im'"
proof -
  from assms(4) have ok: "img_ok im" by (simp add: display_image_def)
  from convert_images [OF assms(1) ok, of 0 0 0 0] obtain m where
    c: "ConvertImages src 0 0 0 0 (- 1) (- 1) im = (Inr (), im\<lparr>im_mpData := m\<rparr>)" and okm: "img_ok (im\<lparr>im_mpData := m\<rparr>)"
    and px: "\<And>x y. has_pixel x y src \<Longrightarrow> has_pixel x y im \<Longrightarrow> pixel x y (im\<lparr>im_mpData := m\<rparr>) = converted im src x y" by metis
  have di: "display_image opt d (im\<lparr>im_mpData := m\<rparr>)" using assms(4) okm by (simp add: display_image_def)
  have "pixel x y (im\<lparr>im_mpData := m\<rparr>) = Inr (displayed d (v x y))" if "int x < mXRes opt" "int y < mYRes opt" for x y
  proof -
    have p: "has_pixel x y src" "has_pixel x y im" using that assms(2-4) by (simp_all add: has_pixel_def display_image_def zless_nat_eq_int_zless)
    then show ?thesis using px [OF p] assms(5) [OF p(1)] assms(4)
      by (simp add: converted_def stored_pixel_def displayed_def display_image_def)
  qed
  then show ?thesis using that [OF c di] by (simp add: shows_samples_def)
qed

lemma convert_ok:
  assumes "img_ok src" and "unat (im_mWd src) = nat (mXRes opt)" "unat (im_mHe src) = nat (mYRes opt)"
    and "\<forall>a \<in> set as. dh_objs h a \<noteq> None \<and> display_image opt (the (dh_objs h a)) (imgs a)"
    and "\<And>x y. has_pixel x y src \<Longrightarrow> pixel x y src = Inr (v x y)"
  shows "\<exists>imgs'. convertDisplays src h as imgs = (Inr (), imgs') \<and> (\<forall>a. a \<notin> set as \<longrightarrow> imgs' a = imgs a)
    \<and> (\<forall>a \<in> set as. shows_samples opt (the (dh_objs h a)) v (imgs' a))"
  using assms(4)
proof (induction as arbitrary: imgs)
  case Nil
  then show ?case by simp
next
  case (Cons a as)
  have a: "dh_objs h a \<noteq> None" "display_image opt (the (dh_objs h a)) (imgs a)" using Cons.prems by simp_all
  from convert_display [OF assms(1-3) a(2) assms(5)] obtain im where
    c: "ConvertImages src 0 0 0 0 (- 1) (- 1) (imgs a) = (Inr (), im)" and di: "display_image opt (the (dh_objs h a)) im"
    and sh: "shows_samples opt (the (dh_objs h a)) v im" by metis
  have "\<forall>b \<in> set as. dh_objs h b \<noteq> None \<and> display_image opt (the (dh_objs h b)) ((imgs(a := im)) b)"
    using Cons.prems di by (simp add: fun_upd_apply)
  from Cons.IH [OF this] obtain imgs' where s: "convertDisplays src h as (imgs(a := im)) = (Inr (), imgs')"
    and o: "\<forall>b. b \<notin> set as \<longrightarrow> imgs' b = (imgs(a := im)) b"
    and g: "\<forall>b \<in> set as. shows_samples opt (the (dh_objs h b)) v (imgs' b)" by metis
  have "shows_samples opt (the (dh_objs h a)) v (imgs' a)"
  proof (cases "a \<in> set as")
    case True
    then show ?thesis using g by blast
  next
    case False
    then show ?thesis using o sh by simp
  qed
  with g have "\<forall>b \<in> set (a # as). shows_samples opt (the (dh_objs h b)) v (imgs' b)" by simp
  moreover have "\<forall>b. b \<notin> set (a # as) \<longrightarrow> imgs' b = imgs b" using o by simp
  moreover have "convertDisplays src h (a # as) imgs = (Inr (), imgs')" using s a(1) c by (auto simp: option.split)
  ultimately show ?case by blast
qed


definition ex_display :: Display where
  "ex_display = Display_new\<lparr>disp_mName := ''a.tif'', disp_mType := ''file'', disp_mMode := ''rgb''\<rparr>"

definition ex_heap :: disp_heap where
  "ex_heap = \<lparr>dh_objs = [0 \<mapsto> ex_display], dh_next = 1\<rparr>"

definition ex_shown :: Options where
  "ex_shown = (fst (Options_Init 0))\<lparr>mpDisplays := [0]\<rparr>"


section \<open>Other properties\<close>

text \<open>A mode of more than four letters is written past the names of the image.\<close>

theorem long_mode_overruns:
  "fst (Image_Init raw 640 480 5 ST_U8 (- 1) ''rgbaz'' None im) = Inl (Undefined_behaviour ''write past mSampNames'')"
  by (simp add: Image_Init_def Let_def MAX_DIM_SIZE_def MAX_SAMP_PER_PIX_def)

lemma nextPow2_loop_least:
  assumes "0 < a" and "2 ^ (a - 1) \<le> val" and "val \<le> 2 ^ b" and "a \<le> b"
  shows "\<exists>i. a \<le> i \<and> i \<le> b \<and> nextPow2_loop val [a..<Suc b] = 2 ^ i \<and> val \<le> 2 ^ i \<and> (\<forall>j. a \<le> j \<longrightarrow> val \<le> 2 ^ j \<longrightarrow> i \<le> j)"
  using assms
proof (induction "b - a" arbitrary: a)
  case 0
  then have e: "a = b" by simp
  then have "nextPow2_loop val [a..<Suc b] = 2 ^ a" using "0.prems" by simp
  then show ?case using "0.prems" e by auto
next
  case (Suc d)
  have u: "[a..<Suc b] = a # [Suc a..<Suc b]" using Suc.prems(4) by (simp add: upt_conv_Cons)
  show ?case
  proof (cases "val \<le> 2 ^ a")
    case True
    then have "nextPow2_loop val [a..<Suc b] = 2 ^ a" using Suc.prems(2) unfolding u by simp
    then show ?thesis using True Suc.prems(4) by auto
  next
    case False
    have "d = b - Suc a" "0 < Suc a" "2 ^ (Suc a - 1) \<le> val" "Suc a \<le> b" using Suc False by simp_all
    from Suc.hyps(1) [OF this(1,2,3) Suc.prems(3) this(4)] obtain i where
      i: "Suc a \<le> i" "i \<le> b" "nextPow2_loop val [Suc a..<Suc b] = 2 ^ i" "val \<le> 2 ^ i" "\<And>j. Suc a \<le> j \<Longrightarrow> val \<le> 2 ^ j \<Longrightarrow> i \<le> j" by blast
    have "i \<le> j" if "a \<le> j" "val \<le> 2 ^ j" for j using i(5) [of j] that False by (cases "j = a") simp_all
    moreover have "nextPow2_loop val [a..<Suc b] = 2 ^ i" using i(3) False unfolding u by simp
    ultimately show ?thesis using i(1,2,4) by (intro exI [of _ i]) simp
  qed
qed

text \<open>The size of a texture is the least power of two, from two on, that is large enough.\<close>

theorem next_power_of_two:
  assumes "0 < val" and "val \<le> 2 ^ 31"
  shows "\<exists>i. 0 < i \<and> getNextPow2 val = 2 ^ i \<and> val \<le> 2 ^ i \<and> (\<forall>j. 0 < j \<longrightarrow> val \<le> 2 ^ j \<longrightarrow> i \<le> j)"
  using nextPow2_loop_least [of 1 val 31] assms by (auto simp: getNextPow2_def Suc_le_eq simp del: upt_Suc)

theorem next_power_of_two_witness: "getNextPow2 5 = 8"
proof -
  from next_power_of_two [of 5] obtain i where i: "getNextPow2 5 = 2 ^ i" "5 \<le> (2 :: nat) ^ i" "\<And>j. 0 < j \<Longrightarrow> 5 \<le> (2 :: nat) ^ j \<Longrightarrow> i \<le> j" by auto
  have "i \<le> 3" using i(3) [of 3] by simp
  moreover have "i \<noteq> 0" "i \<noteq> 1" "i \<noteq> 2" by (rule notI, use i(2) in simp)+
  ultimately have "i = 3" by linarith
  then show ?thesis using i(1) by simp
qed

end
