(* ===== verification/RiCalls.thy ===== *)
theory RiCalls
  imports RiShading
begin

text \<open>
  The commands of the interface as data, their execution, and the loop of
  \<open>Render::readArchive\<close> that runs them and catches their exceptions.
\<close>

section \<open>Commands\<close>

text \<open>One constructor per command of the interface that the model covers.\<close>

datatype ri_call =
    RI_Begin | RI_End | RI_FrameBegin int | RI_FrameEnd | RI_WorldBegin | RI_WorldEnd
  | RI_AttributeBegin | RI_AttributeEnd | RI_TransformBegin | RI_TransformEnd
  | RI_SolidBegin | RI_SolidEnd | RI_ObjectBegin | RI_ObjectEnd | RI_MotionBegin | RI_MotionEnd
  | RI_Bound Bound | RI_Detail Bound | RI_DetailRange real real real real
  | RI_GeometricApproximation string real | RI_Orientation "string option" | RI_Sides int
  | RI_Basis "string option" "real list option" int "string option" "real list option" int
  | RI_Color "real Vec3" | RI_Opacity "real Vec3" | RI_Declare "Param list"
  | RI_Format int int real | RI_FrameAspectRatio real | RI_ScreenWindow real real real real
  | RI_CropWindow real real real real | RI_Projection "Param list" | RI_Clipping real real
  | RI_DepthOfField real real real | RI_Shutter real real | RI_PixelSamples int int
  | RI_Display string string string
  | RI_Identity | RI_ConcatTransform Matrix44 | RI_Transform "real list"
  | RI_Scale real real real | RI_Rotate real real real real | RI_Translate real real real
  | RI_LightSource "Param list" | RI_AreaLightSource "Param list" | RI_Surface "Param list"
  | RI_Displacement "Param list"
  | RI_Prim Prim | RI_Patch "string option" "Param list"

fun exec :: "ri_call \<Rightarrow> State \<Rightarrow> unit res \<times> State" where
  "exec RI_Begin s = State_Begin s"
| "exec RI_End s = State_End s"
| "exec (RI_FrameBegin n) s = FrameBegin n s"
| "exec RI_FrameEnd s = FrameEnd s"
| "exec RI_WorldBegin s = WorldBegin s"
| "exec RI_WorldEnd s = stx_bind WorldEnd (\<lambda>_. free_current_displays) s"
| "exec RI_AttributeBegin s = AttributeBegin s"
| "exec RI_AttributeEnd s = AttributeEnd s"
| "exec RI_TransformBegin s = TransformBegin s"
| "exec RI_TransformEnd s = TransformEnd s"
| "exec RI_SolidBegin s = SolidBegin s"
| "exec RI_SolidEnd s = SolidEnd s"
| "exec RI_ObjectBegin s = ObjectBegin s"
| "exec RI_ObjectEnd s = ObjectEnd s"
| "exec RI_MotionBegin s = MotionBegin s"
| "exec RI_MotionEnd s = MotionEnd s"
| "exec (RI_Bound b) s = DoBound b s"
| "exec (RI_Detail b) s = State_Detail b s"
| "exec (RI_DetailRange a b c d) s = DetailRange a b c d s"
| "exec (RI_GeometricApproximation t v) s = GeometricApproximation t v s"
| "exec (RI_Orientation t) s = Orientation t s"
| "exec (RI_Sides n) s = Sides n s"
| "exec (RI_Basis u um us v vm vs) s = State_Basis u um us v vm vs s"
| "exec (RI_Color c) s = ColorSet c s"
| "exec (RI_Opacity c) s = State_Opacity c s"
| "exec (RI_Declare ps) s = Declare ps s"
| "exec (RI_Format w h r) s = State_Format w h r s"
| "exec (RI_FrameAspectRatio r) s = FrameAspectRatio r s"
| "exec (RI_ScreenWindow a b c d) s = ScreenWindow a b c d s"
| "exec (RI_CropWindow a b c d) s = CropWindow a b c d s"
| "exec (RI_Projection ps) s = Projection ps s"
| "exec (RI_Clipping a b) s = Clipping a b s"
| "exec (RI_DepthOfField a b c) s = DepthOfField a b c s"
| "exec (RI_Shutter a b) s = Shutter a b s"
| "exec (RI_PixelSamples a b) s = PixelSamples a b s"
| "exec (RI_Display n t m) s = State_Display n t m s"
| "exec RI_Identity s = State_Identity s"
| "exec (RI_ConcatTransform m) s = ConcatTransform m s"
| "exec (RI_Transform m) s = TransformCmd m s"
| "exec (RI_Scale a b c) s = State_Scale a b c s"
| "exec (RI_Rotate a b c d) s = State_Rotate a b c d s"
| "exec (RI_Translate a b c) s = State_Translate a b c s"
| "exec (RI_LightSource ps) s = State_LightSource ps s"
| "exec (RI_AreaLightSource ps) s = AreaLightSource ps s"
| "exec (RI_Surface ps) s = Surface ps s"
| "exec (RI_Displacement ps) s = Displacement ps s"
| "exec (RI_Prim p) s = insertPrimitive p s"
| "exec (RI_Patch t ps) s = State_Patch t ps s"

text \<open>
  \<open>readArchive\<close> catches \<open>RI::Exception\<close> and \<open>std::runtime_error\<close> (which a failed \<open>DASSTHROW\<close>
  is), prints them and goes on with the next command.
\<close>

fun caught :: "exn \<Rightarrow> bool" where
  "caught (RI_Exception _) = True"
| "caught (Runtime_error _) = True"
| "caught (AssThrow _) = True"
| "caught _ = False"

fun run_calls :: "ri_call list \<Rightarrow> State \<Rightarrow> unit res \<times> State" where
  "run_calls [] s = (Inr (), s)"
| "run_calls (c # cs) s =
     (case exec c s of
        (Inl e, s') \<Rightarrow> if caught e then run_calls cs s' else (Inl e, s')
      | (Inr _, s') \<Rightarrow> run_calls cs s')"

end
