(* ===== verification/RiScene.thy ===== *)
theory RiScene
  imports RiCalls
begin

text \<open>
  The behaviour of whole scenes over the state of \<open>RiState\<close>: properly nested blocks give back
  what they saved, every primitive gets the attributes and the transformation that are current
  when it is inserted (as long as no block was closed since), and the executions where the code
  departs from this.
\<close>

section \<open>Stacks and modes\<close>

named_theorems ri_step \<open>definitions that execute the commands of the interface\<close>

lemmas [ri_step] = stx_bind_def verified_def verifyOpType_def op_allowed_def on_attributes_def on_options_def
  on_open_def on_close_def on_displays_def attribute_cmd_def option_cmd_def transform_cmd_def
  CopyStack_top_def CopyStack_push_def CopyStack_pop_def each_stack_def pushStacks_def popStacks_def
  pushMode_def popMode_def checkPopMode_def sf_all_def sf_atrb_tran_def sf_tran_def

text \<open>Every stack has a top, as between any two commands of a scene whose blocks are nested.\<close>

definition stacks_ok :: "State \<Rightarrow> bool" where
  "stacks_ok s \<longleftrightarrow> mModeStack s \<noteq> [] \<and> mOptionsStack s \<noteq> [] \<and> mAttributesStack s \<noteq> [] \<and>
     mTransformOpenStack s \<noteq> [] \<and> mTransformCloseStack s \<noteq> []"

lemma pushStacks_ok:
  assumes "stacks_ok s"
  shows "pushStacks f s = (Inr (), s\<lparr>
     mOptionsStack := (if SF_OPTS f then [hd (mOptionsStack s)] else []) @ mOptionsStack s,
     mAttributesStack := (if SF_ATRB f then [hd (mAttributesStack s)] else []) @ mAttributesStack s,
     mTransformOpenStack := (if SF_TRAN f then [hd (mTransformOpenStack s)] else []) @ mTransformOpenStack s,
     mTransformCloseStack := (if SF_TRAN f then [hd (mTransformCloseStack s)] else []) @ mTransformCloseStack s\<rparr>)"
  using assms by (cases s) (auto simp: ri_step stacks_ok_def neq_Nil_conv)

lemma popStacks_ok:
  assumes "SF_OPTS f \<Longrightarrow> mOptionsStack s \<noteq> []" "SF_ATRB f \<Longrightarrow> mAttributesStack s \<noteq> []"
    "SF_TRAN f \<Longrightarrow> mTransformOpenStack s \<noteq> []" "SF_TRAN f \<Longrightarrow> mTransformCloseStack s \<noteq> []"
  shows "popStacks f s = (Inr (), s\<lparr>
     mOptionsStack := (if SF_OPTS f then tl (mOptionsStack s) else mOptionsStack s),
     mAttributesStack := (if SF_ATRB f then tl (mAttributesStack s) else mAttributesStack s),
     mTransformOpenStack := (if SF_TRAN f then tl (mTransformOpenStack s) else mTransformOpenStack s),
     mTransformCloseStack := (if SF_TRAN f then tl (mTransformCloseStack s) else mTransformCloseStack s)\<rparr>)"
  using assms by (cases s) (auto simp: ri_step Let_def split: list.splits)

text \<open>
  \<open>below s s'\<close>: from \<open>s\<close> to \<open>s'\<close> the modes are the same and each stack differs at most at its
  top. It is what every command that neither opens nor closes a block does.
\<close>

definition same_below :: "'a list \<Rightarrow> 'a list \<Rightarrow> bool" where
  "same_below xs ys \<longleftrightarrow> (xs = [] \<longleftrightarrow> ys = []) \<and> tl xs = tl ys"

definition below :: "State \<Rightarrow> State \<Rightarrow> bool" where
  "below s s' \<longleftrightarrow> mModeStack s' = mModeStack s \<and>
     same_below (mOptionsStack s) (mOptionsStack s') \<and>
     same_below (mAttributesStack s) (mAttributesStack s') \<and>
     same_below (mTransformOpenStack s) (mTransformOpenStack s') \<and>
     same_below (mTransformCloseStack s) (mTransformCloseStack s')"

lemma same_below_refl [simp]: "same_below xs xs"
  by (simp add: same_below_def)

lemma same_below_Cons [simp]: "same_below (x # xs) (y # xs)"
  by (simp add: same_below_def)

lemma below_refl [simp]: "below s s"
  by (simp add: below_def)

lemma below_trans: "below s t \<Longrightarrow> below t u \<Longrightarrow> below s u"
  by (simp add: below_def same_below_def)

lemma below_stacks_ok: "below s s' \<Longrightarrow> stacks_ok s \<Longrightarrow> stacks_ok s'"
  by (auto simp: below_def stacks_ok_def same_below_def)

lemma on_attributes_below: "below s (snd (on_attributes f s))"
  by (auto simp: on_attributes_def below_def Let_def split: list.splits prod.splits)

lemma on_options_below: "below s (snd (on_options f s))"
  by (auto simp: on_options_def below_def Let_def split: list.splits prod.splits)

lemma on_open_below: "below s (snd (on_open f s))"
  by (auto simp: on_open_def below_def Let_def split: list.splits prod.splits)

lemma on_displays_below: "below s (snd (on_displays f s))"
  by (auto simp: on_displays_def below_def Let_def split: list.splits prod.splits)

lemma insertPrimitive_below: "below s (snd (insertPrimitive p s))"
  by (auto simp: insertPrimitive_def below_def Let_def split: list.splits prod.splits)

lemma Declare_below: "below s (snd (Declare ps s))"
  by (auto simp: Declare_def below_def split: list.splits sum.splits)

lemma verified_below: "(\<And>t. below t (snd (f t))) \<Longrightarrow> below s (snd (verified op f s))"
  by (auto simp: verified_def split: sum.splits)

lemmas command_below = on_attributes_below on_options_below on_open_below on_displays_below
  insertPrimitive_below Declare_below verified_below

text \<open>The commands that neither open nor close a block.\<close>

fun plain_call :: "ri_call \<Rightarrow> bool" where
  "plain_call c = (c \<notin> {RI_Begin, RI_End, RI_FrameEnd, RI_WorldBegin, RI_WorldEnd, RI_AttributeBegin,
     RI_AttributeEnd, RI_TransformBegin, RI_TransformEnd, RI_SolidBegin, RI_SolidEnd, RI_ObjectBegin,
     RI_ObjectEnd, RI_MotionBegin, RI_MotionEnd} \<and> (\<forall>n. c \<noteq> RI_FrameBegin n))"

lemma State_Basis_below: "below s (snd (State_Basis a b c d e f s))"
  unfolding State_Basis_def by (rule verified_below) (auto split: sum.splits intro: command_below)

lemma State_Patch_below: "below s (snd (State_Patch t ps s))"
  by (auto simp: State_Patch_def split: option.splits list.splits intro: command_below)

lemma AddLightSource_below: "below s (snd (AddLightSource l s))"
  by (auto simp: AddLightSource_def below_def split: option.splits prod.splits)

lemma GetShader_below: "below s (snd (GetShader n a s))"
  by (auto simp: GetShader_def below_def split: option.splits sum.splits if_splits)

text \<open>What holds of a command that first loads a shader, when loading keeps it.\<close>

lemma GetShader_then:
  assumes "P (snd (GetShader n a s))"
    and "\<And>e t. P t \<Longrightarrow> P (snd (f e t))" "\<And>t. P t \<Longrightarrow> P (snd (g t))" "\<And>sh t. P t \<Longrightarrow> P (snd (h sh t))"
  shows "P (snd (case GetShader n a s of (Inl e, t) \<Rightarrow> f e t | (Inr None, t) \<Rightarrow> g t | (Inr (Some sh), t) \<Rightarrow> h sh t))"
  using assms by (auto split: prod.splits sum.splits option.splits)

lemmas GetShader_then_below = GetShader_then [where P = "below s" for s, OF GetShader_below]

lemma set_instance_below: "below s (snd (set_instance f ps sh s))"
  by (auto simp: set_instance_def split: prod.splits intro: on_attributes_below)

lemma activate_light_below: "below s (snd (activate_light l s))"
  using AddLightSource_below [of s l] on_attributes_below
  by (auto simp: activate_light_def split: prod.splits intro: below_trans)

lemma cmdSurface_below: "below s (snd (cmdSurface ps s))"
  unfolding cmdSurface_def
  by (auto split: sum.splits intro!: GetShader_then_below intro: below_trans set_instance_below on_attributes_below)

lemma cmdDisplacement_below: "below s (snd (cmdDisplacement ps s))"
  unfolding cmdDisplacement_def
  by (auto split: sum.splits intro!: GetShader_then_below intro: below_trans set_instance_below)

lemma light_below:
  "below s (snd (case Param_Int p of Inl e \<Rightarrow> (Inl e, s)
     | Inr i \<Rightarrow> (case shader_params n ps sh s of (Inl e, _) \<Rightarrow> (Inl e, s) | (Inr _, inst) \<Rightarrow> activate_light (l i inst) s)))"
  by (auto split: sum.splits prod.splits intro: activate_light_below)

lemma cmdLightSource_below: "below s (snd (cmdLightSource ps s))"
proof -
  have "below s (snd (case GetShader nm None s of (Inl e, s) \<Rightarrow> (Inl e, s)
      | (Inr None, s) \<Rightarrow> (Inl e', s) | (Inr (Some sh), s) \<Rightarrow>
        case Param_Int p of Inl e \<Rightarrow> (Inl e, s)
        | Inr i \<Rightarrow> (case shader_params n ps sh s of (Inl e, _) \<Rightarrow> (Inl e, s)
                   | (Inr _, inst) \<Rightarrow> activate_light (l sh i inst) s)))" for nm e' p n l
    by (rule GetShader_then_below) (simp_all add: below_trans [OF _ light_below])
  then show ?thesis by (auto simp: cmdLightSource_def split: list.split sum.split)
qed

lemmas shading_below = cmdSurface_below cmdDisplacement_below cmdLightSource_below

lemma plain_below: "plain_call c \<Longrightarrow> below s (snd (exec c s))"
  by (cases c)
    (simp_all add: DoBound_def State_Detail_def DetailRange_def GeometricApproximation_def Orientation_def
      Sides_def ColorSet_def State_Opacity_def State_Format_def FrameAspectRatio_def ScreenWindow_def
      CropWindow_def Projection_def Clipping_def DepthOfField_def Shutter_def PixelSamples_def
      State_Display_def State_Identity_def ConcatTransform_def TransformCmd_def State_Scale_def
      State_Rotate_def State_Translate_def attribute_cmd_def option_cmd_def transform_cmd_def
      State_LightSource_def AreaLightSource_def Surface_def Displacement_def shading_below
      command_below State_Basis_below State_Patch_below)

section \<open>Nested scenes\<close>

datatype block = B_Base | B_Frame int | B_World | B_Attribute | B_Transform | B_Solid | B_Object | B_Motion

fun begin_call :: "block \<Rightarrow> ri_call" where
  "begin_call B_Base = RI_Begin"
| "begin_call (B_Frame n) = RI_FrameBegin n"
| "begin_call B_World = RI_WorldBegin"
| "begin_call B_Attribute = RI_AttributeBegin"
| "begin_call B_Transform = RI_TransformBegin"
| "begin_call B_Solid = RI_SolidBegin"
| "begin_call B_Object = RI_ObjectBegin"
| "begin_call B_Motion = RI_MotionBegin"

fun end_call :: "block \<Rightarrow> ri_call" where
  "end_call B_Base = RI_End"
| "end_call (B_Frame n) = RI_FrameEnd"
| "end_call B_World = RI_WorldEnd"
| "end_call B_Attribute = RI_AttributeEnd"
| "end_call B_Transform = RI_TransformEnd"
| "end_call B_Solid = RI_SolidEnd"
| "end_call B_Object = RI_ObjectEnd"
| "end_call B_Motion = RI_MotionEnd"

text \<open>A scene: commands and nested blocks. \<open>flatten\<close> is the command sequence of the file.\<close>

datatype scene = Call ri_call | Block block "scene list"

fun flatten :: "scene list \<Rightarrow> ri_call list" where
  "flatten [] = []"
| "flatten (Call c # r) = c # flatten r"
| "flatten (Block k body # r) = begin_call k # flatten body @ end_call k # flatten r"

fun plain_scene :: "scene list \<Rightarrow> bool" where
  "plain_scene [] = True"
| "plain_scene (Call c # r) = (plain_call c \<and> plain_scene r)"
| "plain_scene (Block k body # r) = (plain_scene body \<and> plain_scene r)"

text \<open>
  \<open>run_scene\<close> runs a scene like \<open>run_calls\<close>, but gives up when the opening command of a block
  throws: only \<open>WorldBegin\<close> can, and then the block was never entered.
\<close>

fun go_on :: "unit res \<times> State \<Rightarrow> State option" where
  "go_on (Inr _, s) = Some s"
| "go_on (Inl e, s) = (if caught e then Some s else None)"

fun run_scene :: "scene list \<Rightarrow> State \<Rightarrow> State option" where
  "run_scene [] s = Some s"
| "run_scene (Call c # r) s = Option.bind (go_on (exec c s)) (run_scene r)"
| "run_scene (Block k body # r) s =
     (case exec (begin_call k) s of
        (Inl _, _) \<Rightarrow> None
      | (Inr _, s1) \<Rightarrow>
          Option.bind (run_scene body s1) (\<lambda>s2.
          Option.bind (go_on (exec (end_call k) s2)) (run_scene r)))"

lemma run_calls_append:
  "run_calls (cs @ ds) s =
     (case run_calls cs s of (Inl e, s') \<Rightarrow> (Inl e, s') | (Inr _, s') \<Rightarrow> run_calls ds s')"
  by (induction cs arbitrary: s) (auto split: prod.splits sum.splits)

lemma run_calls_go_on: "go_on (exec c s) = Some s' \<Longrightarrow> run_calls (c # cs) s = run_calls cs s'"
  by (cases "exec c s"; cases "fst (exec c s)") (auto split: if_splits)

lemma run_scene_calls: "run_scene sc s = Some s' \<Longrightarrow> run_calls (flatten sc) s = (Inr (), s')"
proof (induction sc s arbitrary: s' rule: run_scene.induct)
  case (2 c r s)
  then show ?case by (auto simp: bind_eq_Some_conv run_calls_go_on simp del: run_calls.simps(2))
next
  case (3 k body r s)
  from 3(3) obtain s1 s2 s3 u where a: "exec (begin_call k) s = (Inr u, s1)" "run_scene body s1 = Some s2"
    "go_on (exec (end_call k) s2) = Some s3" "run_scene r s3 = Some s'"
    by (auto simp: bind_eq_Some_conv split: prod.splits sum.splits)
  then have "run_calls (flatten body) s1 = (Inr (), s2)" "run_calls (flatten r) s3 = (Inr (), s')"
    using 3(1,2) by auto
  with a show ?case
    by (simp add: run_calls_append run_calls_go_on del: run_calls.simps(2))
qed simp

text \<open>
  What a block gives back: the modes, and every stack it pushed, exactly as before. A world
  finalises the options before it pushes them and frees their displays after it pops them.
\<close>

definition restored :: "block \<Rightarrow> State \<Rightarrow> State \<Rightarrow> bool" where
  "restored k s s' \<longleftrightarrow> below s s' \<and>
     (k \<in> {B_Attribute, B_Solid, B_Object, B_World} \<or> (\<exists>n. k = B_Frame n) \<longrightarrow>
        mAttributesStack s' = mAttributesStack s) \<and>
     (k \<noteq> B_Base \<and> k \<noteq> B_Motion \<longrightarrow>
        mTransformOpenStack s' = mTransformOpenStack s \<and> mTransformCloseStack s' = mTransformCloseStack s) \<and>
     ((\<exists>n. k = B_Frame n) \<longrightarrow> mOptionsStack s' = mOptionsStack s)"

lemma same_below_pop: "same_below (x # xs) ys \<Longrightarrow> ys \<noteq> [] \<and> tl ys = xs"
  by (auto simp: same_below_def)

lemma stacks_ok_pushMode [simp]: "stacks_ok s \<Longrightarrow> stacks_ok (pushMode m s)"
  by (simp add: stacks_ok_def pushMode_def)

text \<open>Opening and closing with the same flags and mode, for every block but the world.\<close>

definition opened :: "StackFlags \<Rightarrow> Mode \<Rightarrow> State \<Rightarrow> State" where
  "opened f m s = snd (pushStacks f (pushMode m s))"

lemma open_close:
  assumes ok: "stacks_ok s" and b: "below (opened f m s) s2"
  shows "\<exists>s3. stx_bind (popStacks f) (\<lambda>_. popMode m) s2 = (Inr (), s3) \<and> below s s3 \<and>
    (SF_OPTS f \<longrightarrow> mOptionsStack s3 = mOptionsStack s) \<and>
    (SF_ATRB f \<longrightarrow> mAttributesStack s3 = mAttributesStack s) \<and>
    (SF_TRAN f \<longrightarrow> mTransformOpenStack s3 = mTransformOpenStack s \<and>
                  mTransformCloseStack s3 = mTransformCloseStack s)"
proof -
  have o: "mModeStack (opened f m s) = m # mModeStack s"
    "mOptionsStack (opened f m s) = (if SF_OPTS f then [hd (mOptionsStack s)] else []) @ mOptionsStack s"
    "mAttributesStack (opened f m s) = (if SF_ATRB f then [hd (mAttributesStack s)] else []) @ mAttributesStack s"
    "mTransformOpenStack (opened f m s) =
       (if SF_TRAN f then [hd (mTransformOpenStack s)] else []) @ mTransformOpenStack s"
    "mTransformCloseStack (opened f m s) =
       (if SF_TRAN f then [hd (mTransformCloseStack s)] else []) @ mTransformCloseStack s"
    using ok by (simp_all add: opened_def pushStacks_ok pushMode_def stacks_ok_def)
  note b' = b [unfolded below_def o]
  have ne: "SF_OPTS f \<Longrightarrow> mOptionsStack s2 \<noteq> []" "SF_ATRB f \<Longrightarrow> mAttributesStack s2 \<noteq> []"
    "SF_TRAN f \<Longrightarrow> mTransformOpenStack s2 \<noteq> []" "SF_TRAN f \<Longrightarrow> mTransformCloseStack s2 \<noteq> []"
    using b' by (auto dest: same_below_pop)
  show ?thesis
    using b' popStacks_ok [OF ne]
    by (auto simp: stx_bind_def popMode_def checkPopMode_def below_def split: if_splits
        dest!: same_below_pop)
qed

lemma begin_opened:
  assumes "stacks_ok s"
  shows "FrameBegin n s = (Inr (), opened sf_all MD_FRAME s)"
    "AttributeBegin s = (Inr (), opened sf_atrb_tran MD_ATTRIBUTE s)"
    "TransformBegin s = (Inr (), opened sf_tran MD_TRANSFORM s)"
    "SolidBegin s = (Inr (), opened sf_atrb_tran MD_SOLID s)"
    "ObjectBegin s = (Inr (), opened sf_atrb_tran MD_OBJECT s)"
  using pushStacks_ok [OF stacks_ok_pushMode [OF assms]]
  by (simp_all add: FrameBegin_def AttributeBegin_def TransformBegin_def SolidBegin_def ObjectBegin_def
      opened_def)

lemma finalize_top_below: "below s (snd (finalize_top s))"
  by (auto simp: finalize_top_def below_def Let_def split: list.splits prod.splits)

lemma finalize_top_keeps:
  "mAttributesStack (snd (finalize_top s)) = mAttributesStack s"
  "mTransformOpenStack (snd (finalize_top s)) = mTransformOpenStack s"
  "mTransformCloseStack (snd (finalize_top s)) = mTransformCloseStack s"
  by (auto simp: finalize_top_def Let_def split: list.splits prod.splits)

text \<open>
  What \<open>WorldBegin\<close> does when it succeeds: finalise the options, remember the camera, open a
  block, reset both transformations and hand options and camera to the framework.
\<close>

lemma WorldBegin_opened:
  assumes "WorldBegin s = (Inr u, s1)" "stacks_ok s"
  obtains t where "finalize_top s = (Inr (), t)" "stacks_ok t"
    "below (opened sf_all MD_WORLD (t\<lparr>mMtxWorldCamera := hd (mTransformOpenStack s)\<rparr>)) s1"
    "hd (mTransformOpenStack s1) = Identity" "hd (mTransformCloseStack s1) = Identity"
    "mMtxWorldCamera s1 = hd (mTransformOpenStack s)" "mAttributesStack s1 = hd (mAttributesStack s) # mAttributesStack s"
    "fw_mMtxWorldCamera (mpFramework s1) = hd (mTransformOpenStack s)"
    "fw_mOptions (mpFramework s1) = hd (mOptionsStack t)"
    "mTransOpenRevTrack s1 = mTransOpenRevTrack s + 1" "mAttribsRevTrack s1 = mAttribsRevTrack s"
proof -
  obtain t where t: "finalize_top s = (Inr (), t)"
    using assms(1) by (cases "finalize_top s"; cases "fst (finalize_top s)") (auto simp: WorldBegin_def stx_bind_def)
  have tok: "stacks_ok t" using below_stacks_ok [OF finalize_top_below assms(2)] t by simp
  have keep: "mAttributesStack t = mAttributesStack s" "mTransformOpenStack t = mTransformOpenStack s"
    "mTransformCloseStack t = mTransformCloseStack s"
    using finalize_top_keeps [of s] t by simp_all
  have rv: "mTransOpenRevTrack t = mTransOpenRevTrack s" "mAttribsRevTrack t = mAttribsRevTrack s"
    using t by (auto simp: finalize_top_def Let_def split: list.splits prod.splits)
  let ?t = "t\<lparr>mMtxWorldCamera := hd (mTransformOpenStack s)\<rparr>"
  have "stacks_ok ?t" using tok by (simp add: stacks_ok_def)
  then have op: "pushStacks sf_all (pushMode MD_WORLD ?t) = (Inr (), opened sf_all MD_WORLD ?t)"
    using pushStacks_ok [OF stacks_ok_pushMode] by (simp add: opened_def)
  have cam: "store_camera (pushMode MD_WORLD t) = (Inr (), pushMode MD_WORLD ?t)"
    using tok keep by (auto simp: store_camera_def pushMode_def stacks_ok_def neq_Nil_conv)
  have stk: "mTransformOpenStack (opened sf_all MD_WORLD ?t) = hd (mTransformOpenStack s) # mTransformOpenStack s"
    "mTransformCloseStack (opened sf_all MD_WORLD ?t) = hd (mTransformCloseStack s) # mTransformCloseStack s"
    "mOptionsStack (opened sf_all MD_WORLD ?t) = hd (mOptionsStack t) # mOptionsStack t"
    "mAttributesStack (opened sf_all MD_WORLD ?t) = hd (mAttributesStack s) # mAttributesStack s"
    "mMtxWorldCamera (opened sf_all MD_WORLD ?t) = hd (mTransformOpenStack s)"
    "mTransOpenRevTrack (opened sf_all MD_WORLD ?t) = mTransOpenRevTrack s"
    "mAttribsRevTrack (opened sf_all MD_WORLD ?t) = mAttribsRevTrack s"
    using pushStacks_ok [OF stacks_ok_pushMode [OF \<open>stacks_ok ?t\<close>], of sf_all MD_WORLD] keep rv
    by (simp_all add: opened_def sf_all_def pushMode_def)
  have s1: "s1 = snd (framework_begin (snd (on_close Transform_SetIdentity
                (snd (on_open Transform_SetIdentity (opened sf_all MD_WORLD ?t))))))"
    using assms(1) t cam op stk
    by (simp add: WorldBegin_def stx_bind_def on_open_def on_close_def Transform_SetIdentity_def)
  show thesis
    by (rule that [OF t tok])
      (simp_all add: s1 on_open_def on_close_def framework_begin_def stk Transform_SetIdentity_def below_def
        Framework_WorldBegin_def BumpRevision_def)
qed

lemma world_block:
  assumes "exec RI_WorldBegin s = (Inr u, s1)" "stacks_ok s" "below s1 s2"
    "go_on (exec RI_WorldEnd s2) = Some s3"
  shows "restored B_World s s3"
proof -
  obtain t where t: "finalize_top s = (Inr (), t)" "stacks_ok t"
    "below (opened sf_all MD_WORLD (t\<lparr>mMtxWorldCamera := hd (mTransformOpenStack s)\<rparr>)) s1"
    using assms(1,2) by (auto elim: WorldBegin_opened)
  let ?t = "t\<lparr>mMtxWorldCamera := hd (mTransformOpenStack s)\<rparr>"
  obtain s2' where s2': "framework_end s2 = (Inr (), s2')" "below s2 s2'"
    using assms(4)
    by (auto simp: WorldEnd_def stx_bind_def framework_end_def Framework_WorldEnd_def freed_def below_def Let_def
        split: if_splits)
  have "stacks_ok ?t" "below (opened sf_all MD_WORLD ?t) s2'"
    using t(2,3) assms(3) s2'(2) by (auto simp: stacks_ok_def intro: below_trans)
  from open_close [OF this] obtain s2'' where s2'':
    "stx_bind (popStacks sf_all) (\<lambda>_. popMode MD_WORLD) s2' = (Inr (), s2'')" "below ?t s2''"
    "mAttributesStack s2'' = mAttributesStack t"
    "mTransformOpenStack s2'' = mTransformOpenStack t" "mTransformCloseStack s2'' = mTransformCloseStack t"
    by (auto simp: sf_all_def)
  have s3: "s3 = snd (free_current_displays s2'')"
    using assms(4) s2' s2''(1)
    by (cases "free_current_displays s2''"; cases "fst (free_current_displays s2'')")
      (auto simp: WorldEnd_def stx_bind_def split: if_splits)
  have "below s t" using finalize_top_below [of s] t(1) by simp
  moreover have "below t s2''" using s2''(2) by (simp add: below_def)
  moreover have "below s2'' s3" unfolding s3 free_current_displays_def by (rule on_displays_below)
  ultimately have "below s s3" by (blast intro: below_trans)
  moreover have "mAttributesStack s3 = mAttributesStack s2''"
    "mTransformOpenStack s3 = mTransformOpenStack s2''" "mTransformCloseStack s3 = mTransformCloseStack s2''"
    unfolding s3 free_current_displays_def
    by (auto simp: on_displays_def Let_def split: list.splits prod.splits)
  ultimately show ?thesis
    using s2''(3-5) finalize_top_keeps [of s] t(1) by (simp add: restored_def)
qed

lemma block_restores:
  assumes "exec (begin_call k) s = (Inr u, s1)" "stacks_ok s" "below s1 s2"
    "go_on (exec (end_call k) s2) = Some s3"
  shows "restored k s s3"
proof (cases k)
  case B_World
  with assms world_block show ?thesis by auto
next
  case B_Base
  with assms show ?thesis
    by (auto simp: State_Begin_def State_End_def popMode_def checkPopMode_def pushMode_def below_def restored_def)
next
  case B_Motion
  with assms show ?thesis
    by (auto simp: MotionBegin_def MotionEnd_def popMode_def checkPopMode_def pushMode_def below_def restored_def)
next
  case (B_Frame n)
  with assms open_close [of s sf_all MD_FRAME s2] show ?thesis
    by (auto simp: begin_opened FrameEnd_def restored_def sf_all_def)
next
  case B_Attribute
  with assms open_close [of s sf_atrb_tran MD_ATTRIBUTE s2] show ?thesis
    by (auto simp: begin_opened AttributeEnd_def restored_def sf_atrb_tran_def)
next
  case B_Transform
  with assms open_close [of s sf_tran MD_TRANSFORM s2] show ?thesis
    by (auto simp: begin_opened TransformEnd_def restored_def sf_tran_def)
next
  case B_Solid
  with assms open_close [of s sf_atrb_tran MD_SOLID s2] show ?thesis
    by (auto simp: begin_opened SolidEnd_def restored_def sf_atrb_tran_def)
next
  case B_Object
  with assms open_close [of s sf_atrb_tran MD_OBJECT s2] show ?thesis
    by (auto simp: begin_opened ObjectEnd_def restored_def sf_atrb_tran_def)
qed

lemma stacks_ok_opened: "stacks_ok s \<Longrightarrow> stacks_ok (opened f m s)"
  unfolding opened_def
  by (subst pushStacks_ok [OF stacks_ok_pushMode]) (auto simp: stacks_ok_def pushMode_def)

lemma begin_stacks_ok:
  assumes "exec (begin_call k) s = (Inr u, s1)" "stacks_ok s"
  shows "stacks_ok s1"
proof (cases k)
  case B_World
  then obtain t where t: "stacks_ok t"
    "below (opened sf_all MD_WORLD (t\<lparr>mMtxWorldCamera := hd (mTransformOpenStack s)\<rparr>)) s1"
    using assms by (auto elim: WorldBegin_opened)
  then have "stacks_ok (t\<lparr>mMtxWorldCamera := hd (mTransformOpenStack s)\<rparr>)" by (simp add: stacks_ok_def)
  with t(2) show ?thesis by (blast intro: below_stacks_ok stacks_ok_opened)
qed (use assms in \<open>auto simp: begin_opened stacks_ok_opened State_Begin_def MotionBegin_def\<close>)

lemma run_scene_below:
  "run_scene sc s = Some s' \<Longrightarrow> plain_scene sc \<Longrightarrow> stacks_ok s \<Longrightarrow> below s s'"
proof (induction sc s arbitrary: s' rule: run_scene.induct)
  case (2 c r s)
  then obtain s1 where s1: "go_on (exec c s) = Some s1" "run_scene r s1 = Some s'"
    by (auto simp: bind_eq_Some_conv)
  then have "below s s1"
    using plain_below [of c s] 2(3)
    by (cases "exec c s"; cases "fst (exec c s)") (auto split: if_splits)
  with 2 s1 below_stacks_ok show ?case by (auto intro: below_trans)
next
  case (3 k body r s)
  from 3(3) obtain s1 s2 s3 u where a: "exec (begin_call k) s = (Inr u, s1)" "run_scene body s1 = Some s2"
    "go_on (exec (end_call k) s2) = Some s3" "run_scene r s3 = Some s'"
    by (auto simp: bind_eq_Some_conv split: prod.splits sum.splits)
  then have "below s1 s2"
    using 3(1) 3(4,5) begin_stacks_ok by auto
  then have "below s s3" using block_restores [OF a(1) 3(5) _ a(3)] by (auto simp: restored_def)
  moreover have "below s3 s'"
    using 3(2) 3(4) a below_stacks_ok [OF calculation 3(5)] by auto
  ultimately show ?case by (rule below_trans)
qed simp


lemma State_with_stacks_ok: "stacks_ok (State_with sv shs syms b d fw)"
  by (auto simp: State_with_def stacks_ok_def Let_def split: prod.splits)


section \<open>What primitives are given\<close>

text \<open>
  \<open>cache_fresh\<close>: the framework has seen no revision of the future, and where it has seen the
  present one, its last copy is the current top of the stack.
\<close>

definition seen :: "int \<Rightarrow> int \<Rightarrow> 'a list \<Rightarrow> 'a list \<Rightarrow> bool" where
  "seen checker tracker copies stack \<longleftrightarrow>
     checker \<le> tracker \<and> (checker = tracker \<longrightarrow> copies \<noteq> [] \<and> last copies = hd stack)"

definition cache_fresh :: "State \<Rightarrow> bool" where
  "cache_fresh s \<longleftrightarrow>
     seen (mAttrsRev (mpFramework s)) (mAttribsRevTrack s) (mpUniqueAttribs (mpFramework s)) (mAttributesStack s) \<and>
     seen (mTransRev (mpFramework s)) (mTransOpenRevTrack s) (mpUniqueTransform (mpFramework s)) (mTransformOpenStack s)"

lemma seen_bump: "seen c t xs ys \<Longrightarrow> t < t' \<Longrightarrow> seen c t' xs ys'"
  by (auto simp: seen_def)

text \<open>The commands that end a block.\<close>

definition closing_call :: "ri_call \<Rightarrow> bool" where
  "closing_call c \<longleftrightarrow> c \<in> {RI_FrameEnd, RI_WorldEnd, RI_AttributeEnd, RI_TransformEnd, RI_SolidEnd, RI_ObjectEnd,
     RI_End, RI_MotionEnd}"

lemma on_attributes_fresh:
  assumes "cache_fresh s" "fst (on_attributes f s) = Inr ()"
    and "\<And>x. fst (f x) = Inr () \<Longrightarrow> snd x < snd (snd (f x))"
  shows "cache_fresh (snd (on_attributes f s))"
proof (cases "mAttributesStack s")
  case (Cons a as)
  then have "fst (f (a, mAttribsRevTrack s)) = Inr ()"
    using assms(2) by (auto simp: on_attributes_def Let_def split: prod.splits)
  from assms(3) [OF this] Cons assms(1) show ?thesis
    by (auto simp: cache_fresh_def on_attributes_def Let_def split: prod.splits elim: seen_bump)
qed (use assms(1) in \<open>simp add: on_attributes_def\<close>)

lemma on_open_fresh:
  assumes "cache_fresh s" "\<And>x. snd x < snd (f x)"
  shows "cache_fresh (snd (on_open f s))"
proof (cases "mTransformOpenStack s")
  case (Cons m ms)
  with assms(2) [of "(m, mTransOpenRevTrack s)"] assms(1) show ?thesis
    by (auto simp: cache_fresh_def on_open_def Let_def split: prod.splits elim: seen_bump)
qed (use assms(1) in \<open>simp add: on_open_def\<close>)

lemma on_options_fresh: "cache_fresh s \<Longrightarrow> cache_fresh (snd (on_options f s))"
  by (auto simp: on_options_def cache_fresh_def Let_def split: list.splits prod.splits)

lemma on_displays_fresh: "cache_fresh s \<Longrightarrow> cache_fresh (snd (on_displays f s))"
  by (auto simp: on_displays_def cache_fresh_def Let_def split: list.splits prod.splits)

lemma finalize_top_fresh: "cache_fresh s \<Longrightarrow> cache_fresh (snd (finalize_top s))"
  by (auto simp: finalize_top_def cache_fresh_def Let_def split: list.splits prod.splits)

lemma Declare_fresh: "cache_fresh s \<Longrightarrow> cache_fresh (snd (Declare ps s))"
  by (auto simp: Declare_def cache_fresh_def split: list.splits sum.splits)

text \<open>Inserting a primitive in a fresh state gives it the tops of the stacks.\<close>

lemma insertPrimitive_fresh:
  assumes "cache_fresh s" "stacks_ok s"
  obtains s' where "insertPrimitive p s = (Inr (), s')" "cache_fresh s'"
    "fw_mpPrims (mpFramework s') =
       fw_mpPrims (mpFramework s) @ [(p, hd (mAttributesStack s), hd (mTransformOpenStack s))]"
proof -
  obtain a as m ms where st: "mAttributesStack s = a # as" "mTransformOpenStack s = m # ms"
    using assms(2) by (auto simp: stacks_ok_def neq_Nil_conv)
  define s' where "s' = snd (insertPrimitive p s)"
  have "insertPrimitive p s = (Inr (), s') \<and> cache_fresh s' \<and> fw_mpPrims (mpFramework s') =
       fw_mpPrims (mpFramework s) @ [(p, hd (mAttributesStack s), hd (mTransformOpenStack s))]"
    using assms(1) st unfolding s'_def
    by (cases "mAttribsRevTrack s = mAttrsRev (mpFramework s)";
        cases "mTransOpenRevTrack s = mTransRev (mpFramework s)")
      (simp_all add: insertPrimitive_def Framework_Insert_def Sync_def cache_fresh_def seen_def)
  then show thesis using that by blast
qed

lemma opened_fresh:
  assumes "stacks_ok s" "cache_fresh s"
  shows "cache_fresh (opened f m s)"
  using assms unfolding opened_def
  by (subst pushStacks_ok [OF stacks_ok_pushMode])
    (auto simp: cache_fresh_def pushMode_def stacks_ok_def seen_def hd_append)

lemma WorldBegin_stacks_ok:
  assumes "stacks_ok s"
  shows "stacks_ok (snd (WorldBegin s))"
proof (cases "fst (WorldBegin s)")
  case (Inr u)
  then show ?thesis using begin_stacks_ok [of B_World s u] assms by (simp add: prod_eq_iff)
next
  case (Inl e)
  show ?thesis
  proof (cases "fst (finalize_top s)")
    case (Inl e')
    then have "WorldBegin s = (Inl e', snd (finalize_top s))"
      by (cases "finalize_top s") (simp add: WorldBegin_def)
    with below_stacks_ok [OF finalize_top_below assms] show ?thesis by simp
  next
    case (Inr u)
    define t where "t = snd (finalize_top s)"
    have t: "finalize_top s = (Inr (), t)" using Inr by (simp add: t_def prod_eq_iff)
    have "stacks_ok t" using below_stacks_ok [OF finalize_top_below assms] by (simp add: t_def)
    then have "fst (WorldBegin s) = Inr ()"
      by (auto simp: WorldBegin_def t store_camera_def framework_begin_def Transform_SetIdentity_def
          stacks_ok_def neq_Nil_conv ri_step)
    with Inl show ?thesis by simp
  qed
qed

lemma WorldBegin_fresh:
  assumes "stacks_ok s" "cache_fresh s"
  shows "cache_fresh (snd (WorldBegin s))"
proof (cases "fst (finalize_top s)")
  case (Inl e)
  then have "WorldBegin s = (Inl e, snd (finalize_top s))"
    by (cases "finalize_top s") (simp add: WorldBegin_def)
  with finalize_top_fresh [OF assms(2)] show ?thesis by simp
next
  case (Inr u)
  define t where "t = snd (finalize_top s)"
  have t: "finalize_top s = (Inr (), t)" using Inr by (simp add: t_def prod_eq_iff)
  have ok: "stacks_ok t" "cache_fresh t"
    using below_stacks_ok [OF finalize_top_below assms(1)] finalize_top_fresh [OF assms(2)] by (simp_all add: t_def)
  let ?t = "t\<lparr>mMtxWorldCamera := hd (mTransformOpenStack t)\<rparr>"
  have cam: "store_camera (pushMode MD_WORLD t) = (Inr (), pushMode MD_WORLD ?t)"
    using ok(1) by (auto simp: store_camera_def pushMode_def stacks_ok_def neq_Nil_conv)
  have ok': "stacks_ok ?t" "cache_fresh ?t" using ok by (simp_all add: stacks_ok_def cache_fresh_def)
  then have op: "pushStacks sf_all (pushMode MD_WORLD ?t) = (Inr (), opened sf_all MD_WORLD ?t)"
    using pushStacks_ok [OF stacks_ok_pushMode] by (simp add: opened_def)
  define o1 where "o1 = opened sf_all MD_WORLD ?t"
  have "cache_fresh o1" "stacks_ok o1"
    unfolding o1_def using ok' by (simp_all add: opened_fresh stacks_ok_opened)
  then have "cache_fresh (snd (on_open Transform_SetIdentity o1))" "stacks_ok (snd (on_open Transform_SetIdentity o1))"
    by (auto intro!: on_open_fresh below_stacks_ok [OF on_open_below] simp: Transform_SetIdentity_def BumpRevision_def)
  then have "cache_fresh (snd (stx_bind (on_open Transform_SetIdentity) (\<lambda>_.
      stx_bind (on_close Transform_SetIdentity) (\<lambda>_. framework_begin)) o1))"
    by (auto simp: stx_bind_def on_close_def framework_begin_def Framework_WorldBegin_def cache_fresh_def Let_def
        split: prod.splits sum.splits list.splits)
  then show ?thesis by (simp add: WorldBegin_def t cam op o1_def)
qed

text \<open>Failing with an exception that the reader does not catch.\<close>

definition survives :: "unit res \<times> State \<Rightarrow> bool" where
  "survives r \<longleftrightarrow> (case fst r of Inr _ \<Rightarrow> True | Inl e \<Rightarrow> caught e)"

lemma verified_fresh:
  assumes "cache_fresh s" "survives (verified op f s)" "survives (f s) \<Longrightarrow> cache_fresh (snd (f s))"
  shows "cache_fresh (snd (verified op f s))"
  using assms by (auto simp: verified_def split: sum.splits)

lemma attribute_cmd_fresh:
  assumes "cache_fresh s" "survives (attribute_cmd f s)" "\<And>x. snd x < snd (f x)"
  shows "cache_fresh (snd (attribute_cmd f s))"
  unfolding attribute_cmd_def
proof (rule verified_fresh [OF assms(1) assms(2) [unfolded attribute_cmd_def]])
  show "cache_fresh (snd (on_attributes (\<lambda>x. (Inr (), f x)) s))"
  proof (cases "mAttributesStack s")
    case (Cons a as)
    then show ?thesis
      by (intro on_attributes_fresh [OF assms(1)]) (auto simp: on_attributes_def assms(3) split: prod.splits)
  qed (use assms(1) in \<open>simp add: on_attributes_def\<close>)
qed

lemma transform_cmd_fresh:
  assumes "cache_fresh s" "\<And>x. snd x < snd (f x)"
  shows "cache_fresh (snd (transform_cmd f s))"
  using on_open_fresh [OF assms] assms(1) by (auto simp: transform_cmd_def verified_def split: sum.splits)

lemma option_cmd_fresh: "cache_fresh s \<Longrightarrow> cache_fresh (snd (option_cmd f s))"
  using on_options_fresh by (auto simp: option_cmd_def verified_def split: sum.splits)

lemma Display_fresh: "cache_fresh s \<Longrightarrow> cache_fresh (snd (State_Display a b c s))"
  using on_displays_fresh by (auto simp: State_Display_def verified_def split: sum.splits)

lemma not_caught_ub [simp]: "\<not> caught empty_back" "\<not> caught null_deref" "\<not> caught freed"
  by (simp_all add: empty_back_def null_deref_def freed_def)

lemma on_attributes_survives:
  assumes "survives (on_attributes f s)" "\<And>x. fst (f x) = Inr () \<or> fst (f x) = Inl null_deref"
  shows "fst (on_attributes f s) = Inr ()"
proof (cases "mAttributesStack s")
  case (Cons a as)
  obtain r a' rv where f: "f (a, mAttribsRevTrack s) = (r, a', rv)" by (cases "f (a, mAttribsRevTrack s)") auto
  with assms(2) [of "(a, mAttribsRevTrack s)"] assms(1) Cons show ?thesis
    by (auto simp: on_attributes_def survives_def)
qed (use assms(1) in \<open>simp add: on_attributes_def survives_def\<close>)

lemma Orientation_fresh:
  assumes "cache_fresh s" "survives (Orientation t s)"
  shows "cache_fresh (snd (Orientation t s))"
  unfolding Orientation_def
  by (rule verified_fresh [OF assms(1) assms(2) [unfolded Orientation_def]],
      rule on_attributes_fresh [OF assms(1)], erule on_attributes_survives)
    (auto simp: cmdOrientation_def BumpRevision_def split: option.splits)

lemma cmdBasis_result: "fst (cmdBasis syms a b c d e f x) = Inr () \<or> fst (cmdBasis syms a b c d e f x) = Inl null_deref"
  by (auto simp: cmdBasis_def Let_def split: prod.splits option.splits)

lemma cmdBasis_bumps: "fst (cmdBasis syms a b c d e f x) = Inr () \<Longrightarrow> snd x < snd (snd (cmdBasis syms a b c d e f x))"
  by (auto simp: cmdBasis_def Let_def BumpRevision_def split: prod.splits option.splits)

lemma Basis_fresh:
  assumes "cache_fresh s" "survives (State_Basis a b c d e f s)"
  shows "cache_fresh (snd (State_Basis a b c d e f s))"
  unfolding State_Basis_def
  by (rule verified_fresh [OF assms(1) assms(2) [unfolded State_Basis_def]])
    (auto split: sum.splits simp: assms(1)
      intro!: on_attributes_fresh [OF assms(1)] cmdBasis_bumps on_attributes_survives [OF _ cmdBasis_result])

lemma Patch_fresh:
  assumes "cache_fresh s" "stacks_ok s"
  shows "cache_fresh (snd (State_Patch t ps s))"
proof -
  have "cache_fresh (snd (insertPrimitive p s))" for p
    by (rule insertPrimitive_fresh [OF assms, of p]) auto
  with assms(1) show ?thesis by (auto simp: State_Patch_def split: option.splits list.splits)
qed

text \<open>
  The shader commands. A \<open>Surface\<close> or \<open>Displacement\<close> that throws may leave the attributes changed
  under the old revision; \<open>settled\<close> says that it did not throw.
\<close>

lemma GetShader_fresh: "cache_fresh s \<Longrightarrow> cache_fresh (snd (GetShader n a s))"
  by (auto simp: GetShader_def cache_fresh_def split: option.splits sum.splits if_splits)

lemmas GetShader_then_fresh = GetShader_then [where P = cache_fresh, OF GetShader_fresh]

lemma set_instance_fresh:
  assumes "cache_fresh s" "fst (set_instance f ps sh s) = Inr ()"
  shows "cache_fresh (snd (set_instance f ps sh s))"
  using assms by (auto simp: set_instance_def BumpRevision_def split: prod.splits sum.splits intro!: on_attributes_fresh)

lemma on_attributes_bump_fresh:
  "cache_fresh s \<Longrightarrow> cache_fresh (snd (on_attributes (\<lambda>(atr, rv). (Inr (), f atr, BumpRevision rv)) s))"
  by (cases "mAttributesStack s")
    (auto simp: on_attributes_def cache_fresh_def BumpRevision_def elim: seen_bump)

lemma activate_light_fresh: "cache_fresh s \<Longrightarrow> cache_fresh (snd (activate_light l s))"
proof -
  assume "cache_fresh s"
  then have "cache_fresh (snd (AddLightSource l s))"
    by (auto simp: AddLightSource_def cache_fresh_def split: option.splits prod.splits)
  then show ?thesis
    by (auto simp: activate_light_def split: prod.splits intro: on_attributes_bump_fresh)
qed

lemma light_fresh:
  "cache_fresh s \<Longrightarrow> cache_fresh (snd (case Param_Int p of Inl e \<Rightarrow> (Inl e, s)
     | Inr i \<Rightarrow> (case shader_params n ps sh s of (Inl e, _) \<Rightarrow> (Inl e, s) | (Inr _, inst) \<Rightarrow> activate_light (l i inst) s)))"
  by (auto split: sum.splits prod.splits intro: activate_light_fresh)

lemma cmdLightSource_fresh:
  assumes "cache_fresh s"
  shows "cache_fresh (snd (cmdLightSource ps s))"
proof -
  have "cache_fresh (snd (case GetShader nm None s of (Inl e, s) \<Rightarrow> (Inl e, s)
      | (Inr None, s) \<Rightarrow> (Inl e', s) | (Inr (Some sh), s) \<Rightarrow>
        case Param_Int p of Inl e \<Rightarrow> (Inl e, s)
        | Inr i \<Rightarrow> (case shader_params n ps sh s of (Inl e, _) \<Rightarrow> (Inl e, s)
                   | (Inr _, inst) \<Rightarrow> activate_light (l sh i inst) s)))" for nm e' p n l
    by (rule GetShader_then_fresh) (simp_all add: assms light_fresh)
  with assms show ?thesis by (auto simp: cmdLightSource_def split: list.split sum.split)
qed

lemma set_instance_after_GetShader:
  assumes "cache_fresh s"
    and "fst (case GetShader n a s of (Inl e, t) \<Rightarrow> (Inl e, t) | (Inr None, t) \<Rightarrow> g t
              | (Inr (Some sh), t) \<Rightarrow> set_instance f ps sh t) = Inr ()"
    and "\<And>t. cache_fresh t \<Longrightarrow> cache_fresh (snd (g t))"
  shows "cache_fresh (snd (case GetShader n a s of (Inl e, t) \<Rightarrow> (Inl e, t) | (Inr None, t) \<Rightarrow> g t
              | (Inr (Some sh), t) \<Rightarrow> set_instance f ps sh t))"
  using assms GetShader_fresh [OF assms(1), of n a] set_instance_fresh
  by (auto split: prod.splits sum.splits option.splits)

lemma cmdSurface_fresh:
  "cache_fresh s \<Longrightarrow> fst (cmdSurface ps s) = Inr () \<Longrightarrow> cache_fresh (snd (cmdSurface ps s))"
  unfolding cmdSurface_def
  by (auto split: sum.splits if_splits intro!: set_instance_after_GetShader on_attributes_bump_fresh
      simp del: split_paired_All)

lemma cmdDisplacement_fresh:
  "cache_fresh s \<Longrightarrow> fst (cmdDisplacement ps s) = Inr () \<Longrightarrow> cache_fresh (snd (cmdDisplacement ps s))"
  unfolding cmdDisplacement_def
  by (auto split: sum.splits if_splits intro!: set_instance_after_GetShader)

definition settled :: "ri_call \<Rightarrow> State \<Rightarrow> bool" where
  "settled c s \<longleftrightarrow> (case c of RI_Surface _ \<Rightarrow> fst (exec c s) = Inr () | RI_Displacement _ \<Rightarrow> fst (exec c s) = Inr ()
     | _ \<Rightarrow> True)"

lemma verified_settled:
  "cache_fresh s \<Longrightarrow> fst (verified op f s) = Inr () \<Longrightarrow> (fst (f s) = Inr () \<Longrightarrow> cache_fresh (snd (f s))) \<Longrightarrow>
   cache_fresh (snd (verified op f s))"
  by (auto simp: verified_def split: sum.splits)

lemma shading_fresh:
  assumes "cache_fresh s"
  shows "cache_fresh (snd (State_LightSource ps s))" "cache_fresh (snd (AreaLightSource ps s))"
    "fst (Surface ps s) = Inr () \<Longrightarrow> cache_fresh (snd (Surface ps s))"
    "fst (Displacement ps s) = Inr () \<Longrightarrow> cache_fresh (snd (Displacement ps s))"
  using assms cmdLightSource_fresh
  by (auto simp: State_LightSource_def AreaLightSource_def Surface_def Displacement_def verified_def
      split: sum.splits intro: cmdSurface_fresh cmdDisplacement_fresh)

lemma exec_fresh:
  assumes "stacks_ok s" "cache_fresh s" "\<not> closing_call c" "survives (exec c s)" "settled c s"
  shows "stacks_ok (snd (exec c s)) \<and> cache_fresh (snd (exec c s))"
proof (cases "plain_call c")
  case True
  have p: "cache_fresh (snd (insertPrimitive q s))" for q
    by (rule insertPrimitive_fresh [OF assms(2,1), of q]) auto
  have "cache_fresh (snd (exec c s))"
    using assms(1,2,4,5) True
    by (cases c)
      (auto simp: settled_def DoBound_def State_Detail_def DetailRange_def GeometricApproximation_def
        Sides_def ColorSet_def State_Opacity_def State_Format_def FrameAspectRatio_def ScreenWindow_def
        CropWindow_def Projection_def Clipping_def DepthOfField_def Shutter_def PixelSamples_def
        State_Identity_def ConcatTransform_def TransformCmd_def State_Scale_def
        State_Rotate_def State_Translate_def cmdBound_def cmdDetail_def cmdDetailRange_def
        cmdGeometricApproximation_def cmdSides_def cmdColor_def cmdOpacity_def BumpRevision_def
        Transform_SetIdentity_def Transform_ConcatTransform_def Transform_CopyRowMajor_def
        intro!: attribute_cmd_fresh option_cmd_fresh transform_cmd_fresh Display_fresh Declare_fresh
          Orientation_fresh Basis_fresh Patch_fresh on_open_fresh shading_fresh p)
  then show ?thesis using below_stacks_ok [OF plain_below [OF True] assms(1)] by simp
next
  case False
  have o: "stacks_ok (opened f m s) \<and> cache_fresh (opened f m s)" for f m
    using assms(1,2) by (simp add: stacks_ok_opened opened_fresh)
  have w: "stacks_ok (snd (WorldBegin s))"
    by (rule WorldBegin_stacks_ok [OF assms(1)])
  show ?thesis
    using assms(1,2,3) False o w WorldBegin_fresh [OF assms(1,2)]
    by (cases c) (auto simp: closing_call_def begin_opened State_Begin_def MotionBegin_def
        pushMode_def stacks_ok_def cache_fresh_def)
qed

end
