(* ===== verification/RiProps.thy ===== *)
theory RiProps
  imports RiScene
begin

text \<open>
  Properties of the graphics state: what primitives are given, the errors of misplaced
  commands, bases, screen windows and search paths.
\<close>

text \<open>No \<open>Surface\<close> and no \<open>Displacement\<close> of the run throws.\<close>

fun settled_run :: "ri_call list \<Rightarrow> State \<Rightarrow> bool" where
  "settled_run [] s = True"
| "settled_run (c # cs) s = (settled c s \<and> settled_run cs (snd (exec c s)))"

lemma run_calls_fresh:
  "stacks_ok s \<Longrightarrow> cache_fresh s \<Longrightarrow> \<forall>c\<in>set cs. \<not> closing_call c \<Longrightarrow> settled_run cs s \<Longrightarrow>
   run_calls cs s = (Inr (), s') \<Longrightarrow> stacks_ok s' \<and> cache_fresh s'"
proof (induction cs arbitrary: s)
  case (Cons c cs)
  obtain r t where e: "exec c s = (r, t)" by fastforce
  with Cons.prems(5) have "survives (exec c s)" and run: "run_calls cs t = (Inr (), s')"
    by (auto simp: survives_def split: sum.splits if_splits)
  from exec_fresh [OF Cons.prems(1,2) _ this(1)] Cons.prems(3,4) e have "stacks_ok t" "cache_fresh t" by auto
  with run e Cons show ?case by simp
qed simp

lemma State_with_fresh: "cache_fresh (State_with sv shs syms b d (Framework_new f g))"
  by (auto simp: State_with_def cache_fresh_def seen_def Framework_new_def RevisionChecker_new_def
      RevisionTracker_new_def Attributes_Init_def cmdGeometricApproximation_def cmdSides_def cmdOrientation_def
      cmdBasis_def BumpRevision_def Let_def split: prod.splits)

text \<open>
  C6: a primitive gets the attributes and the transformation that are current at its command.
  Precisely: from a state whose cached copies are as after construction, after any commands that
  open blocks, change attributes, options and
  transformations or insert primitives, whatever other exceptions the reader caught on the way, the
  next primitive is stored with the top of the attribute stack and the top of the transformation
  stack, behind the primitives already there. \<open>Surface\<close> and
  \<open>Displacement\<close> commands that throw must not occur: they change the attributes and keep the revision.
\<close>

theorem primitive_gets_current_state:
  assumes "stacks_ok s" "cache_fresh s" "\<forall>c\<in>set cs. \<not> closing_call c" "settled_run cs s"
    "run_calls cs s = (Inr (), s')"
  shows "\<exists>s''. exec (RI_Prim p) s' = (Inr (), s'') \<and> fw_mpPrims (mpFramework s'') =
     fw_mpPrims (mpFramework s') @ [(p, hd (mAttributesStack s'), hd (mTransformOpenStack s'))]"
proof -
  have ok: "stacks_ok s'" and fr: "cache_fresh s'" using run_calls_fresh [OF assms] by auto
  obtain s'' where "insertPrimitive p s' = (Inr (), s'')" "fw_mpPrims (mpFramework s'') =
     fw_mpPrims (mpFramework s') @ [(p, hd (mAttributesStack s'), hd (mTransformOpenStack s'))]"
    by (rule insertPrimitive_fresh [OF fr ok, of p])
  then show ?thesis by auto
qed

lemmas init_step = State_with_def Options_Init_def Attributes_Init_def cmdProjection_def
  cmdGeometricApproximation_def cmdSides_def cmdOrientation_def cmdBasis_def

lemma primitive_gets_current_state_witness:
  defines "s0 \<equiv> State_with no_services [] [] '''' '''' (Framework_new False False)"
  shows "\<exists>s s''. run_calls [RI_Begin, RI_TransformBegin, RI_Color (Vec3 1 0 0)] s0 = (Inr (), s) \<and>
     exec (RI_Prim (Sphere 1 0 1 360)) s = (Inr (), s'') \<and> fw_mpPrims (mpFramework s'') =
     fw_mpPrims (mpFramework s) @ [(Sphere 1 0 1 360, hd (mAttributesStack s), hd (mTransformOpenStack s))]"
proof -
  obtain s where s: "run_calls [RI_Begin, RI_TransformBegin, RI_Color (Vec3 1 0 0)] s0 = (Inr (), s)"
    by (simp add: s0_def init_step Let_def State_Begin_def TransformBegin_def ColorSet_def cmdColor_def ri_step)
  have "stacks_ok s0" "cache_fresh s0"
    unfolding s0_def by (rule State_with_stacks_ok, rule State_with_fresh)
  from primitive_gets_current_state [OF this _ _ s] s show ?thesis
    by (auto simp: closing_call_def settled_def simp del: exec.simps)
qed

text \<open>
  The transformation stack is not consulted again after a block was closed. When a
  transformed primitive is followed by the end of its transform block and another primitive, the
  second primitive gets the transformation of the closed block, although the current one is the
  one from before the block.
\<close>

theorem transform_end_leaves_stale_copy:
  assumes "stacks_ok s" "cache_fresh s"
  defines "M \<equiv> hd (mTransformOpenStack s)" and "A \<equiv> hd (mAttributesStack s)"
  shows "\<exists>s'. run_calls [RI_TransformBegin, RI_Translate tx ty tz, RI_Prim p, RI_TransformEnd, RI_Prim q] s
      = (Inr (), s') \<and> hd (mTransformOpenStack s') = M \<and>
     fw_mpPrims (mpFramework s') = fw_mpPrims (mpFramework s) @
       [(p, A, Matrix44_mul Identity (Translate tx ty tz) M), (q, A, Matrix44_mul Identity (Translate tx ty tz) M)]"
proof -
  obtain a as m ms n ns where st: "mAttributesStack s = a # as" "mTransformOpenStack s = m # ms"
    "mTransformCloseStack s = n # ns"
    using assms(1) by (auto simp: stacks_ok_def neq_Nil_conv)
  have tr: "mTransRev (mpFramework s) \<le> mTransOpenRevTrack s"
    and ar: "mAttrsRev (mpFramework s) = mAttribsRevTrack s \<longrightarrow>
       mpUniqueAttribs (mpFramework s) \<noteq> [] \<and> last (mpUniqueAttribs (mpFramework s)) = a"
    using assms(2) st by (auto simp: cache_fresh_def seen_def)
  show ?thesis
    using tr ar unfolding M_def A_def
    by (cases "mAttrsRev (mpFramework s) = mAttribsRevTrack s")
      (simp_all add: st TransformBegin_def State_Translate_def Transform_ConcatTransform_def BumpRevision_def
        insertPrimitive_def Framework_Insert_def Sync_def TransformEnd_def ri_step)
qed

lemma transform_end_leaves_stale_copy_witness:
  defines "s0 \<equiv> State_with no_services [] [] '''' '''' (Framework_new False False)"
  shows "\<exists>s'. run_calls [RI_TransformBegin, RI_Translate 1 0 0, RI_Prim (Cone 1 1 360), RI_TransformEnd,
      RI_Prim (Cone 2 1 360)] s0 = (Inr (), s') \<and> hd (mTransformOpenStack s') = Identity"
  using transform_end_leaves_stale_copy
      [OF State_with_stacks_ok State_with_fresh, of 1 0 0 "Cone 1 1 360" "Cone 2 1 360" no_services "[]" "[]" "''''" "''''" False False]
  by (auto simp: s0_def simp del: run_calls.simps) (simp add: State_with_def split: prod.splits)

section \<open>Worlds and displays\<close>

lemma framework_end_ok:
  assumes "fst (framework_end s) = Inr ()"
  shows "mpUniqueAttribs (mpFramework (snd (framework_end s))) = []"
    "mAttrsRev (mpFramework (snd (framework_end s))) = mAttrsRev (mpFramework s)"
    "mAttribsRevTrack (snd (framework_end s)) = mAttribsRevTrack s"
  using assms by (auto simp: framework_end_def Framework_WorldEnd_def Let_def split: if_splits)

text \<open>The stack operations and the display handling leave the framework's attribute copies alone.\<close>

definition same_copies :: "State \<Rightarrow> State \<Rightarrow> bool" where
  "same_copies s s' \<longleftrightarrow> mpUniqueAttribs (mpFramework s') = mpUniqueAttribs (mpFramework s) \<and>
     mAttrsRev (mpFramework s') = mAttrsRev (mpFramework s) \<and> mAttribsRevTrack s' = mAttribsRevTrack s"

lemma same_copies_trans: "same_copies s t \<Longrightarrow> same_copies t u \<Longrightarrow> same_copies s u"
  by (simp add: same_copies_def)

lemma each_stack_copies: "same_copies s (snd (each_stack fo fa ft flags s))"
  by (auto simp: each_stack_def same_copies_def Let_def split: sum.splits)

lemma stx_bind_copies:
  "(\<And>t. same_copies t (snd (m t))) \<Longrightarrow> (\<And>x t. same_copies t (snd (f x t))) \<Longrightarrow> same_copies s (snd (stx_bind m f s))"
  by (auto simp: stx_bind_def split: prod.splits sum.splits) (metis same_copies_trans snd_conv)+

lemma popMode_copies: "same_copies s (snd (popMode m s))"
  by (auto simp: popMode_def checkPopMode_def same_copies_def split: list.splits)

lemma on_displays_copies: "same_copies s (snd (on_displays f s))"
  by (auto simp: on_displays_def same_copies_def Let_def split: list.splits prod.splits)

lemma on_open_copies: "same_copies s (snd (on_open f s))"
  by (auto simp: on_open_def same_copies_def Let_def split: list.splits prod.splits)

lemma on_close_copies: "same_copies s (snd (on_close f s))"
  by (auto simp: on_close_def same_copies_def Let_def split: list.splits prod.splits)

lemma store_camera_copies: "same_copies s (snd (store_camera s))"
  by (auto simp: store_camera_def same_copies_def split: list.splits)

lemma framework_begin_copies: "same_copies s (snd (framework_begin s))"
  by (auto simp: framework_begin_def Framework_WorldBegin_def same_copies_def split: list.splits)

lemma finalize_top_copies: "same_copies s (snd (finalize_top s))"
  by (auto simp: finalize_top_def same_copies_def Let_def split: list.splits prod.splits)

lemma stacks_copies: "same_copies s (snd (pushStacks f s))" "same_copies s (snd (popStacks f s))"
  by (simp_all add: pushStacks_def popStacks_def each_stack_copies)

lemmas copies = popMode_copies on_displays_copies on_open_copies on_close_copies store_camera_copies
  framework_begin_copies finalize_top_copies stacks_copies

lemma WorldBegin_copies: "same_copies s (snd (WorldBegin s))"
proof -
  have "same_copies t (snd (stx_bind store_camera (\<lambda>_. stx_bind (pushStacks sf_all) (\<lambda>_.
     stx_bind (on_open Transform_SetIdentity) (\<lambda>_. stx_bind (on_close Transform_SetIdentity) (\<lambda>_.
     framework_begin)))) (pushMode MD_WORLD t)))" for t
    by (rule same_copies_trans [of _ "pushMode MD_WORLD t"], simp add: same_copies_def pushMode_def)
      (intro stx_bind_copies copies)
  then show ?thesis
    unfolding WorldBegin_def by (intro stx_bind_copies copies)
qed

lemma WorldEnd_copies:
  assumes "survives (exec RI_WorldEnd s)"
  shows "same_copies (snd (framework_end s)) (snd (exec RI_WorldEnd s))" "fst (framework_end s) = Inr ()"
proof -
  have fe: "fst (framework_end s) = Inr () \<or> fst (framework_end s) = Inl freed"
    by (auto simp: framework_end_def Framework_WorldEnd_def Let_def)
  moreover have "fst (framework_end s) \<noteq> Inl freed"
    using assms by (cases "framework_end s") (auto simp: survives_def WorldEnd_def stx_bind_def)
  ultimately show ok: "fst (framework_end s) = Inr ()" by blast
  have "same_copies t (snd (stx_bind (popStacks sf_all) (\<lambda>_. popMode MD_WORLD) t))" for t
    by (intro stx_bind_copies copies)
  then have "same_copies t (snd (stx_bind (stx_bind (popStacks sf_all) (\<lambda>_. popMode MD_WORLD))
      (\<lambda>_. free_current_displays) t))" for t
    unfolding free_current_displays_def by (intro stx_bind_copies copies)
  moreover have "exec RI_WorldEnd s = stx_bind (stx_bind (popStacks sf_all) (\<lambda>_. popMode MD_WORLD))
      (\<lambda>_. free_current_displays) (snd (framework_end s))"
    using ok by (cases "framework_end s") (simp add: WorldEnd_def stx_bind_def)
  ultimately show "same_copies (snd (framework_end s)) (snd (exec RI_WorldEnd s))" by simp
qed

text \<open>
  The framework forgets its attribute copies at the end of a world, but not that it has
  seen their revision. A second world in which no attribute command came before the first
  primitive reads the last element of an empty vector.
\<close>

theorem second_world_reads_empty_vector:
  assumes "stacks_ok s" "cache_fresh s"
    and "run_calls [RI_Prim p, RI_WorldEnd, RI_WorldBegin] s = (Inr (), s')"
    and "mAttributesStack s' \<noteq> []" "mTransformOpenStack s' \<noteq> []"
  shows "fst (exec (RI_Prim q) s') = Inl empty_back"
proof -
  obtain a as m ms where st: "mAttributesStack s = a # as" "mTransformOpenStack s = m # ms"
    using assms(1) by (auto simp: stacks_ok_def neq_Nil_conv)
  define t where "t = snd (exec (RI_Prim p) s)"
  have t: "exec (RI_Prim p) s = (Inr (), t)"
    by (rule insertPrimitive_fresh [OF assms(2,1), of p]) (simp add: t_def)
  have rv: "mAttrsRev (mpFramework t) = mAttribsRevTrack t"
    unfolding t_def by (simp add: insertPrimitive_def st Framework_Insert_def Sync_def Let_def)
  have sv: "survives (exec RI_WorldEnd t)" and run: "run_calls [RI_WorldBegin] (snd (exec RI_WorldEnd t)) = (Inr (), s')"
    using assms(3) t by (auto simp: survives_def split: sum.splits if_splits prod.splits)
  define u where "u = snd (exec RI_WorldEnd t)"
  have u: "mpUniqueAttribs (mpFramework u) = []" "mAttrsRev (mpFramework u) = mAttribsRevTrack u"
    using WorldEnd_copies [OF sv] framework_end_ok [of t] rv by (simp_all add: same_copies_def u_def)
  have "s' = snd (WorldBegin u)"
    using run by (auto simp: u_def split: sum.splits if_splits prod.splits)
  with WorldBegin_copies [of u] u have "mpUniqueAttribs (mpFramework s') = []"
    "mAttrsRev (mpFramework s') = mAttribsRevTrack s'"
    by (simp_all add: same_copies_def)
  with assms(4,5) show ?thesis
    by (auto simp: insertPrimitive_def Framework_Insert_def Sync_def Let_def neq_Nil_conv)
qed

lemmas world_step = WorldBegin_def WorldEnd_def finalize_top_def Options_Finalize_def fallback_displays_def
  finalize_aspect_def finalize_window_def finalize_projection_def store_camera_def framework_begin_def
  framework_end_def Framework_WorldBegin_def Framework_WorldEnd_def Framework_new_def free_current_displays_def
  FreeDisplays_def Transform_SetIdentity_def

lemma notset_neq [simp]: "NOTSET_FLOAT * 3 \<noteq> 4" "4 / 3 \<noteq> NOTSET_FLOAT" "- (4 / 3) \<noteq> NOTSET_FLOAT"
  by (simp_all add: NOTSET_FLOAT_def FLT_MAX_def)

lemma State_with_stacks [simp]:
  "mModeStack (State_with sv shs syms b d fw) = [MD_UNDEFINED]"
  "tl (mAttributesStack (State_with sv shs syms b d fw)) = []"
  by (simp_all add: State_with_def split: prod.splits)

lemma second_world_reads_empty_vector_witness:
  defines "s0 \<equiv> State_with no_services [] [] '''' '''' (Framework_new False False)"
  shows "\<exists>s'. run_calls [RI_Prim (Cone 1 1 360), RI_WorldEnd, RI_WorldBegin] (snd (WorldBegin s0)) = (Inr (), s') \<and>
     fst (exec (RI_Prim (Cone 2 1 360)) s') = Inl empty_back"
proof -
  have ok: "stacks_ok (snd (WorldBegin s0))" "cache_fresh (snd (WorldBegin s0))"
    unfolding s0_def
    by (rule WorldBegin_stacks_ok [OF State_with_stacks_ok], rule WorldBegin_fresh [OF State_with_stacks_ok State_with_fresh])
  obtain s' where s': "run_calls [RI_Prim (Cone 1 1 360), RI_WorldEnd, RI_WorldBegin] (snd (WorldBegin s0)) = (Inr (), s')"
    "mAttributesStack s' \<noteq> []" "mTransformOpenStack s' \<noteq> []"
    by (simp add: s0_def init_step world_step Let_def ParamList_Add_str_def Param_new_def insertPrimitive_def
        Framework_Insert_def Sync_def BumpRevision_def RevisionChecker_new_def RevisionTracker_new_def ri_step)
  with second_world_reads_empty_vector [OF ok s', of "Cone 2 1 360"] show ?thesis by blast
qed

text \<open>
  Displays named before the first frame do not survive it. The options of a frame copy the
  pointers; at the end of its world the displays are deleted and only the copy is cleared, so
  that the world of the next frame writes to deleted displays.
\<close>

theorem second_frame_uses_deleted_display:
  assumes "nm \<noteq> []" "hd nm \<noteq> CHR ''+''"
  shows "fst (run_calls [RI_Begin, RI_Display nm ''file'' md, RI_FrameBegin m, RI_WorldBegin, RI_WorldEnd, RI_FrameEnd,
      RI_FrameBegin n, RI_WorldBegin, RI_WorldEnd] (State_with sv shs syms b d (Framework_new f g))) = Inl freed"
  using assms
  by (simp add: init_step world_step Let_def ParamList_Add_str_def Param_new_def State_Begin_def State_Display_def
      cmdDisplay_def push_display_def display_type_def FrameBegin_def FrameEnd_def ri_step)

lemma second_frame_uses_deleted_display_witness:
  "fst (run_calls [RI_Begin, RI_Display ''a.tif'' ''file'' ''rgb'', RI_FrameBegin 1, RI_WorldBegin, RI_WorldEnd, RI_FrameEnd,
      RI_FrameBegin 2, RI_WorldBegin, RI_WorldEnd] (State_with no_services [] [] '''' '''' (Framework_new False False))) = Inl freed"
  by (rule second_frame_uses_deleted_display) simp_all

section \<open>Misplaced commands\<close>

text \<open>
  The commands that the interface restricts to some modes, each with its class, and the modes of
  the classes. Object definitions take neither attributes nor transformations, options belong
  before the world. \<open>Identity\<close>, the primitives, \<open>Declare\<close> and the block commands are not
  restricted in this way.
\<close>

datatype command_class = Option_class | Attribute_class | Transform_class | Unrestricted_class

fun class_of :: "ri_call \<Rightarrow> command_class" where
  "class_of (RI_Format w h r) = Option_class"
| "class_of (RI_FrameAspectRatio r) = Option_class"
| "class_of (RI_ScreenWindow a b c d) = Option_class"
| "class_of (RI_CropWindow a b c d) = Option_class"
| "class_of (RI_Projection ps) = Option_class"
| "class_of (RI_Clipping a b) = Option_class"
| "class_of (RI_DepthOfField a b c) = Option_class"
| "class_of (RI_Shutter a b) = Option_class"
| "class_of (RI_PixelSamples a b) = Option_class"
| "class_of (RI_Display n t m) = Option_class"
| "class_of (RI_Bound b) = Attribute_class"
| "class_of (RI_Detail b) = Attribute_class"
| "class_of (RI_DetailRange a b c d) = Attribute_class"
| "class_of (RI_GeometricApproximation t v) = Attribute_class"
| "class_of (RI_Orientation t) = Attribute_class"
| "class_of (RI_Sides n) = Attribute_class"
| "class_of (RI_Basis u um us v vm vs) = Attribute_class"
| "class_of (RI_Color c) = Attribute_class"
| "class_of (RI_Opacity c) = Attribute_class"
| "class_of (RI_LightSource ps) = Attribute_class"
| "class_of (RI_AreaLightSource ps) = Attribute_class"
| "class_of (RI_Surface ps) = Attribute_class"
| "class_of (RI_Displacement ps) = Attribute_class"
| "class_of (RI_ConcatTransform m) = Transform_class"
| "class_of (RI_Transform m) = Transform_class"
| "class_of (RI_Scale a b c) = Transform_class"
| "class_of (RI_Rotate a b c d) = Transform_class"
| "class_of (RI_Translate a b c) = Transform_class"
| "class_of _ = Unrestricted_class"

fun class_modes :: "command_class \<Rightarrow> Mode set" where
  "class_modes Option_class = {MD_BASE, MD_FRAME}"
| "class_modes Attribute_class = UNIV - {MD_OBJECT}"
| "class_modes Transform_class = UNIV - {MD_UNDEFINED, MD_OBJECT}"
| "class_modes Unrestricted_class = UNIV"

fun class_error :: "command_class \<Rightarrow> Error" where
  "class_error Option_class = E_NOTOPTIONS"
| "class_error Attribute_class = E_NOTATTRIBS"
| "class_error _ = E_ILLSTATE"

text \<open>The restricted commands that cannot fail for another reason.\<close>

fun sure_call :: "ri_call \<Rightarrow> bool" where
  "sure_call (RI_Display n t m) = False"
| "sure_call (RI_Orientation t) = (t \<noteq> None)"
| "sure_call (RI_Basis u um us v vm vs) = False"
| "sure_call (RI_LightSource ps) = False"
| "sure_call (RI_AreaLightSource ps) = False"
| "sure_call (RI_Surface ps) = False"
| "sure_call (RI_Displacement ps) = False"
| "sure_call c = (class_of c \<noteq> Unrestricted_class)"

lemmas restricted_defs = State_Format_def FrameAspectRatio_def ScreenWindow_def CropWindow_def Projection_def
  Clipping_def DepthOfField_def Shutter_def PixelSamples_def State_Display_def DoBound_def State_Detail_def
  DetailRange_def GeometricApproximation_def Orientation_def Sides_def State_Basis_def ColorSet_def
  State_Opacity_def State_LightSource_def AreaLightSource_def Surface_def Displacement_def ConcatTransform_def
  TransformCmd_def State_Scale_def State_Rotate_def State_Translate_def

lemma class_rejects:
  assumes "mModeStack s = m # ms" "m \<notin> class_modes (class_of c)"
  shows "exec c s = (Inl (ErrHandler (class_error (class_of c))), s)"
  using assms
  by (cases c; cases m; simp add: restricted_defs ri_step)

lemma class_accepts:
  assumes "stacks_ok s" "mModeStack s = m # ms" "m \<in> class_modes (class_of c)" "sure_call c"
  shows "fst (exec c s) = Inr ()"
  using assms
  by (cases c; cases m; auto simp: restricted_defs ri_step stacks_ok_def split: list.splits prod.splits)



text \<open>
  An \<open>AttributeEnd\<close> that does not match the innermost block reports the nesting error only
  after it has popped the stacks, and the mode stays. At the outermost level this leaves the
  stacks without a top, and the next attribute command reads past it.
\<close>

theorem wrong_end_pops_stacks:
  assumes "stacks_ok s" "hd (mModeStack s) \<noteq> MD_ATTRIBUTE"
  shows "AttributeEnd s = (Inl (ErrHandler E_NESTING),
      s\<lparr>mAttributesStack := tl (mAttributesStack s), mTransformOpenStack := tl (mTransformOpenStack s),
        mTransformCloseStack := tl (mTransformCloseStack s)\<rparr>) \<and>
    (tl (mAttributesStack s) = [] \<and> hd (mModeStack s) \<noteq> MD_OBJECT \<longrightarrow>
       fst (run_calls [RI_AttributeEnd, RI_Color c] s) = Inl empty_back)"
proof -
  have "AttributeEnd s = (Inl (ErrHandler E_NESTING),
      s\<lparr>mAttributesStack := tl (mAttributesStack s), mTransformOpenStack := tl (mTransformOpenStack s),
        mTransformCloseStack := tl (mTransformCloseStack s)\<rparr>)"
    using assms by (cases s) (auto simp: AttributeEnd_def stacks_ok_def neq_Nil_conv ri_step)
  then show ?thesis
    using assms by (auto simp: ErrHandler_def ColorSet_def stacks_ok_def neq_Nil_conv ri_step)
qed

lemma wrong_end_pops_stacks_witness:
  "fst (run_calls [RI_AttributeEnd, RI_Color (Vec3 1 0 0)]
     (State_with no_services [] [] '''' '''' (Framework_new False False))) = Inl empty_back"
  using wrong_end_pops_stacks [OF State_with_stacks_ok, of no_services "[]" "[]" "''''" "''''" "Framework_new False False" "Vec3 1 0 0"]
  by (simp del: run_calls.simps)

section \<open>Bases\<close>

definition basis_matrices :: "(string \<times> Matrix44) list" where
  "basis_matrices = [(''bezier'', BezierBasis), (''b-spline'', BSplineBasis), (''catmull-rom'', CatmullRomBasis),
     (''hermite'', HermiteBasis), (''power'', PowerBasis)]"

lemma global_bases:
  "case add_globals global_decls [] of Inl _ \<Rightarrow> False | Inr syms \<Rightarrow>
     list_all (\<lambda>(nm, m). symbol_basis (FindSymbol nm syms) = Inr m) basis_matrices"
  by code_simp

lemma basis_names: "map_of basis_table nm = Some k \<Longrightarrow> \<exists>m. (nm, m) \<in> set basis_matrices"
  by (auto simp: basis_table_def basis_matrices_def split: if_splits)

text \<open>
  In a state built with the global symbols of the renderer, a \<open>Basis\<close> command with two
  known names and the steps of the table selects the two matrices of those names, as long as no
  custom basis was set before. With other steps it throws \<open>E_BADARGUMENT\<close>, and with an unknown
  name \<open>E_BADBASIS\<close>, and the attributes stay.
\<close>

theorem named_basis_selected:
  assumes "add_globals global_decls [] = Inr (mGlobalSyms s)" "stacks_ok s" "hd (mModeStack s) \<noteq> MD_OBJECT"
    and "mpCustomUBasis (hd (mAttributesStack s)) = None" "mpCustomVBasis (hd (mAttributesStack s)) = None"
  shows "(map_of basis_table u = Some k \<and> map_of basis_table v = Some l \<longrightarrow>
      (\<exists>s'. State_Basis (Some u) None k (Some v) None l s = (Inr (), s') \<and>
         GetUBasis (hd (mAttributesStack s')) = Inr (the (map_of basis_matrices u)) \<and>
         GetVBasis (hd (mAttributesStack s')) = Inr (the (map_of basis_matrices v)))) \<and>
    (map_of basis_table u = Some k \<and> k \<noteq> n \<longrightarrow>
       State_Basis (Some u) None n vb vc l s = (Inl (ErrHandler E_BADARGUMENT), s)) \<and>
    (map_of basis_table u = None \<longrightarrow>
       State_Basis (Some u) None n vb vc l s = (Inl (ErrHandler E_BADBASIS), s))"
proof -
  have sym: "symbol_basis (FindSymbol nm (mGlobalSyms s)) = Inr (the (map_of basis_matrices nm))"
    if t: "map_of basis_table nm = Some j" for nm j
  proof -
    obtain m where "(nm, m) \<in> set basis_matrices" using basis_names [OF t] by blast
    moreover have "distinct (map fst basis_matrices)" by (simp add: basis_matrices_def)
    ultimately have "map_of basis_matrices nm = Some m" "(nm, m) \<in> set basis_matrices" by simp_all
    then show ?thesis using global_bases assms(1) by (auto simp: list_all_iff)
  qed
  obtain a as md ms where st: "mAttributesStack s = a # as" "mModeStack s = md # ms"
    using assms(2) by (auto simp: stacks_ok_def neq_Nil_conv)
  with assms(3) have vf: "verifyOpType OPTYPE_ATRB s = Inr ()" by (simp add: verifyOpType_def op_allowed_def CopyStack_top_def)
  show ?thesis
    using assms(4,5) st vf sym
    by (auto simp: State_Basis_def verified_def verify_if_def verifyBasis_def on_attributes_def cmdBasis_def
        GetUBasis_def GetVBasis_def Let_def)
qed

lemma named_basis_selected_witness:
  "\<exists>syms s'. add_globals global_decls [] = Inr syms \<and>
     State_Basis (Some ''b-spline'') None 1 (Some ''power'') None 4 (State_with no_services [] syms '''' '''' (Framework_new False False))
       = (Inr (), s') \<and> GetUBasis (hd (mAttributesStack s')) = Inr BSplineBasis"
proof -
  obtain syms where syms: "add_globals global_decls [] = Inr syms"
    using global_bases by (cases "add_globals global_decls []") auto
  let ?s = "State_with no_services [] syms '''' '''' (Framework_new False False)"
  have "add_globals global_decls [] = Inr (mGlobalSyms ?s)" "stacks_ok ?s" "hd (mModeStack ?s) \<noteq> MD_OBJECT"
    "mpCustomUBasis (hd (mAttributesStack ?s)) = None" "mpCustomVBasis (hd (mAttributesStack ?s)) = None"
    using syms by (auto simp: State_with_stacks_ok) (simp_all add: init_step Let_def)
  from named_basis_selected [OF this, of "''b-spline''" 1 "''power''" 4 1 None None] show ?thesis
    using syms by (auto simp: basis_table_def basis_matrices_def)
qed

text \<open>
  A named basis after a custom one is recorded, but the custom matrix stays in place and is the
  one that is used.
\<close>

theorem custom_basis_sticks:
  assumes "mpCustomUBasis a = Some m"
  shows "case cmdBasis syms (Some u) None us (Some v) None vs (a, rv) of
    (r, a', rv') \<Rightarrow> r = Inr () \<and> mpUBasis a' = FindSymbol u syms \<and> GetUBasis a' = Inr m"
  using assms by (simp add: cmdBasis_def GetUBasis_def Let_def)

section \<open>The screen window\<close>

text \<open>The fields that \<open>Finalize\<close> works on; the displays and the projection are others.\<close>

definition window_fields :: "Options \<Rightarrow> int \<times> int \<times> real \<times> real \<times> real \<times> real \<times> real \<times> real" where
  "window_fields opt = (mXRes opt, mYRes opt, mPixelAspectRatio opt, mFrameAspectRatio opt, mLeft opt, mRight opt,
     mBottom opt, mTop opt)"

lemma push_display_window: "window_fields (fst (snd (push_display nm ty md opt h))) = window_fields opt"
  by (cases "display_type ty") (simp_all add: push_display_def Let_def window_fields_def)

lemma FreeDisplays_window: "window_fields (fst (snd (FreeDisplays opt h))) = window_fields opt"
  by (cases "delete_displays (mpDisplays opt) h"; cases "fst (delete_displays (mpDisplays opt) h)")
    (simp_all add: FreeDisplays_def window_fields_def)

lemma cmdDisplay_window':
  "window_fields (fst (snd (cmdDisplay nm ty md opt h))) = window_fields opt"
proof -
  obtain r o1 h1 where f: "FreeDisplays opt h = (r, o1, h1)" by (cases "FreeDisplays opt h")
  then have "window_fields o1 = window_fields opt" using FreeDisplays_window [of opt h] by simp
  then show ?thesis
    by (cases r) (simp_all add: cmdDisplay_def Let_def f push_display_window)
qed

lemma cmdDisplay_window: "cmdDisplay nm ty md opt h = (r, opt', h') \<Longrightarrow> window_fields opt' = window_fields opt"
  using cmdDisplay_window' [of nm ty md opt h] by simp

lemma fallback_displays_window:
  assumes "fallback_displays f g opt h = (r, opt', h')"
  shows "window_fields opt' = window_fields opt"
proof -
  define first where "first = (if f then cmdDisplay ''frame0001.tif'' ''file'' ''rgba'' opt h else (Inr (), opt, h))"
  obtain r1 o1 h1 where d: "first = (r1, o1, h1)" by (cases first)
  then have w: "window_fields o1 = window_fields opt"
    by (cases f) (auto simp: first_def intro: cmdDisplay_window)
  show ?thesis
  proof (cases "mpDisplays opt = [] \<and> r1 = Inr () \<and> g")
    case True
    then have "cmdDisplay ''frame0001.tif'' ''framebuffer'' ''rgba'' o1 h1 = (r, opt', h')"
      using assms d by (simp add: fallback_displays_def first_def [symmetric])
    from cmdDisplay_window [OF this] w show ?thesis by simp
  next
    case False
    then have "opt' = opt \<or> opt' = o1"
      using assms d by (cases r1) (auto simp: fallback_displays_def first_def [symmetric] split: if_splits)
    with w show ?thesis by metis
  qed
qed

lemma finalize_fov_window:
  "finalize_fov ps (opt, rv) = (r, opt', rv') \<Longrightarrow> window_fields opt' = window_fields opt"
proof (induction ps "(opt, rv)" arbitrary: opt rv rule: finalize_fov.induct)
  case (2 p ps opt rv)
  show ?case
  proof (cases "ptype p = P_STR \<and> stringVal p = ''fov''")
    case True
    then show ?thesis
      using 2 by (cases ps) (auto simp: window_fields_def split: sum.splits)
  next
    case False
    then show ?thesis using 2 by auto
  qed
qed simp

lemma finalize_projection_window:
  "finalize_projection syms (opt, rv) = (r, opt', rv') \<Longrightarrow> window_fields opt' = window_fields opt"
  by (auto simp: finalize_projection_def window_fields_def split: list.splits if_splits
      dest!: finalize_fov_window)

text \<open>
  When the scene gives neither a frame aspect ratio nor a screen window, and its resolution
  and pixel aspect ratio are positive, \<open>Finalize\<close> chooses the window of the interface's
  definition: it is centred, its proportions are those of the image, and its shorter half side
  is one.
\<close>

theorem default_screen_window:
  assumes "mFrameAspectRatio opt = NOTSET_FLOAT" "mLeft opt = NOTSET_FLOAT"
    and "0 < mXRes opt" "0 < mYRes opt" "0 < mPixelAspectRatio opt"
    and "Options_Finalize syms f g (opt, rv) h = (Inr (), (opt', rv'), h')"
  shows "mFrameAspectRatio opt' = mPixelAspectRatio opt * of_int (mXRes opt) / of_int (mYRes opt) \<and>
    mLeft opt' = - mRight opt' \<and> mBottom opt' = - mTop opt' \<and>
    mRight opt' = mFrameAspectRatio opt' * mTop opt' \<and> min (mRight opt') (mTop opt') = 1"
proof -
  define asp where "asp = mPixelAspectRatio opt * of_int (mXRes opt) / of_int (mYRes opt)"
  have pos: "0 < asp" using assms(3-5) by (simp add: asp_def)
  obtain r1 o1 h1 where f: "fallback_displays f g opt h = (r1, o1, h1)" by (cases "fallback_displays f g opt h") auto
  have w1: "window_fields o1 = window_fields opt" by (rule fallback_displays_window [OF f])
  have a: "finalize_aspect o1 = Inr (o1\<lparr>mFrameAspectRatio := asp\<rparr>)"
    using w1 assms(1,4) by (simp add: finalize_aspect_def window_fields_def asp_def)
  obtain o2 where b: "finalize_window (o1\<lparr>mFrameAspectRatio := asp\<rparr>) = Inr o2"
    and o2: "mFrameAspectRatio o2 = asp" "mLeft o2 = - mRight o2" "mBottom o2 = - mTop o2"
      "mRight o2 = asp * mTop o2" "min (mRight o2) (mTop o2) = 1"
    using w1 assms(2) pos by (cases "asp \<ge> 1") (auto simp: finalize_window_def window_fields_def)
  have "window_fields opt' = window_fields o2"
    using assms(6) f a b
    by (auto simp: Options_Finalize_def Let_def split: sum.splits prod.splits dest!: finalize_projection_window)
  with o2 show ?thesis by (simp add: window_fields_def asp_def)
qed

lemma default_screen_window_witness:
  "\<exists>opt' rv' h'. Options_Finalize [] False False (Options_Init 0) \<lparr>dh_objs = \<lambda>_. None, dh_next = 0\<rparr> =
     (Inr (), (opt', rv'), h') \<and> min (mRight opt') (mTop opt') = 1"
proof -
  let ?h = "\<lparr>dh_objs = \<lambda>_. None, dh_next = 0\<rparr>"
  obtain opt rv where i: "Options_Init 0 = (opt, rv)" by (cases "Options_Init 0")
  then have o: "mFrameAspectRatio opt = NOTSET_FLOAT" "mLeft opt = NOTSET_FLOAT" "0 < mXRes opt" "0 < mYRes opt"
    "0 < mPixelAspectRatio opt"
    by (auto simp: Options_Init_def cmdProjection_def)
  obtain opt' rv' h' where "Options_Finalize [] False False (opt, rv) ?h = (Inr (), (opt', rv'), h')"
    using i by (auto simp: Options_Init_def cmdProjection_def world_step ParamList_Add_str_def Param_new_def)
  with default_screen_window [OF o this] i show ?thesis by auto
qed

section \<open>Transformations\<close>

text \<open>The commands that concatenate, with the matrix each stands for.\<close>

fun concat_matrix :: "ri_call \<Rightarrow> Matrix44 option" where
  "concat_matrix (RI_ConcatTransform m) = Some m"
| "concat_matrix (RI_Scale a b c) = Some (Scale a b c)"
| "concat_matrix (RI_Rotate a b c d) = Some (Rot (DEG2RAD a) b c d)"
| "concat_matrix (RI_Translate a b c) = Some (Translate a b c)"
| "concat_matrix _ = None"

definition xform_allowed :: "State \<Rightarrow> bool" where
  "xform_allowed s \<longleftrightarrow> mTransformOpenStack s \<noteq> [] \<and> mModeStack s \<noteq> [] \<and>
     hd (mModeStack s) \<noteq> MD_OBJECT \<and> hd (mModeStack s) \<noteq> MD_UNDEFINED"

lemma exec_concat:
  assumes "concat_matrix c = Some m" "xform_allowed s"
  shows "exec c s = (Inr (), s\<lparr>mTransformOpenStack :=
      Matrix44_mul Identity m (hd (mTransformOpenStack s)) # tl (mTransformOpenStack s),
      mTransOpenRevTrack := mTransOpenRevTrack s + 1\<rparr>)"
proof -
  obtain md ms x xs where st: "mModeStack s = md # ms" "mTransformOpenStack s = x # xs" "md \<noteq> MD_OBJECT" "md \<noteq> MD_UNDEFINED"
    using assms(2) by (auto simp: xform_allowed_def neq_Nil_conv)
  then have "verifyOpType OPTYPE_STD_XFORM s = Inr ()"
    by (cases md) (simp_all add: verifyOpType_def op_allowed_def CopyStack_top_def)
  then have "transform_cmd (Transform_ConcatTransform k) s = (Inr (), s\<lparr>mTransformOpenStack :=
      Matrix44_mul Identity k x # xs, mTransOpenRevTrack := mTransOpenRevTrack s + 1\<rparr>)" for k
    by (simp add: transform_cmd_def verified_def on_open_def st Transform_ConcatTransform_def BumpRevision_def)
  with assms(1) st show ?thesis
    by (cases c) (simp_all add: ConcatTransform_def State_Scale_def State_Rotate_def State_Translate_def)
qed

lemma wf44_Identity: "wf44 Identity"
  by (simp add: Identity_rows)

text \<open>
  C26: concatenating transformations composes them from the last to the first. After a sequence
  of \<open>ConcatTransform\<close>, \<open>Scale\<close>, \<open>Rotate\<close> and \<open>Translate\<close> commands, transforming a point by the
  current transformation is transforming it by the matrix of the last command, then by that of
  the one before, down to the first, and finally by the transformation that was current before.
\<close>

theorem concatenation_composes:
  assumes "xform_allowed s" "\<forall>c\<in>set cs. concat_matrix c \<noteq> None"
  shows "\<exists>s'. run_calls cs s = (Inr (), s') \<and>
     V4_V4_Mul_M44 v (hd (mTransformOpenStack s')) =
     V4_V4_Mul_M44 (foldr (\<lambda>c w. V4_V4_Mul_M44 w (the (concat_matrix c))) cs v) (hd (mTransformOpenStack s)) \<and>
     tl (mTransformOpenStack s') = tl (mTransformOpenStack s)"
  using assms
proof (induction cs arbitrary: s)
  case (Cons c cs)
  then obtain m where m: "concat_matrix c = Some m" by auto
  define t where "t = s\<lparr>mTransformOpenStack :=
      Matrix44_mul Identity m (hd (mTransformOpenStack s)) # tl (mTransformOpenStack s),
      mTransOpenRevTrack := mTransOpenRevTrack s + 1\<rparr>"
  have e: "exec c s = (Inr (), t)" using exec_concat [OF m Cons.prems(1)] by (simp add: t_def)
  have "xform_allowed t" using Cons.prems(1) by (simp add: t_def xform_allowed_def)
  then obtain s' where s': "run_calls cs t = (Inr (), s')"
    "V4_V4_Mul_M44 v (hd (mTransformOpenStack s')) =
     V4_V4_Mul_M44 (foldr (\<lambda>c w. V4_V4_Mul_M44 w (the (concat_matrix c))) cs v) (hd (mTransformOpenStack t))"
    "tl (mTransformOpenStack s') = tl (mTransformOpenStack t)"
    using Cons by (metis list.set_intros(2))
  then show ?case
    using e m by (simp add: t_def mul_action [OF wf44_Identity, symmetric])
qed simp

lemma concatenation_composes_witness:
  defines "s0 \<equiv> snd (State_Begin (State_with no_services [] [] '''' '''' (Framework_new False False)))"
  shows "\<exists>s'. run_calls [RI_Translate 1 0 0, RI_Scale 2 2 2] s0 = (Inr (), s') \<and>
     V4_V4_Mul_M44 (Vec4 1 1 1 1) (hd (mTransformOpenStack s')) =
     V4_V4_Mul_M44 (V4_V4_Mul_M44 (V4_V4_Mul_M44 (Vec4 1 1 1 1) (Scale 2 2 2)) (Translate 1 0 0))
       (hd (mTransformOpenStack s0))"
proof -
  have "xform_allowed s0"
    using State_with_stacks_ok [of no_services "[]" "[]" "''''" "''''" "Framework_new False False"]
    by (simp add: s0_def xform_allowed_def State_Begin_def pushMode_def stacks_ok_def)
  from concatenation_composes [OF this, of "[RI_Translate 1 0 0, RI_Scale 2 2 2]" "Vec4 1 1 1 1"] show ?thesis
    by (auto simp del: run_calls.simps)
qed

section \<open>Search paths\<close>

text \<open>
  The directories a search visits, each with the mark whether it is absolute: the base
  directory, then the default directory when there are no search paths, else the search paths,
  where \<open>@\<close> stands for the default directory and is skipped when there is none.
\<close>

definition default_dirs :: "string option \<Rightarrow> (string \<times> bool) list" where
  "default_dirs d = (case d of None \<Rightarrow> [] | Some p \<Rightarrow> [(strRemoveTrailingDirDiv p, True)])"

definition path_dirs :: "string option \<Rightarrow> string list \<Rightarrow> (string \<times> bool) list" where
  "path_dirs d ps = concat (map (\<lambda>p. if p = ''@'' then default_dirs d else [(strRemoveTrailingDirDiv p, False)]) ps)"

definition search_dirs :: "string \<Rightarrow> string option \<Rightarrow> string list \<Rightarrow> (string \<times> bool) list" where
  "search_dirs base d ps =
     (strRemoveTrailingDirDiv base, True) # (if ps = [] then default_dirs d else path_dirs d ps)"

text \<open>
  The files tried, in order; a relative directory is also tried below the base directory. A path
  of more than 1023 characters is tried by its first 1023.
\<close>

definition candidates :: "string \<Rightarrow> string \<Rightarrow> (string \<times> bool) list \<Rightarrow> string list" where
  "candidates base fname dirs = concat (map (\<lambda>(p, isAbs).
     take 1023 (p @ ''/'' @ fname) #
       (if isAbs then [] else [take 1023 (base @ ''/'' @ p @ ''/'' @ fname)])) dirs)"

definition remaining :: "SearchPathScanner \<Rightarrow> (string \<times> bool) list" where
  "remaining sc =
     (if mpSearchPaths sc = [] then
        drop (mIdx sc) ((strRemoveTrailingDirDiv (the (mpBaseDir sc)), True) # default_dirs (mpDefaultDir sc))
      else (case mpBaseDir sc of None \<Rightarrow> [] | Some b \<Rightarrow> [(strRemoveTrailingDirDiv b, True)]) @
           path_dirs (mpDefaultDir sc) (drop (mIdx sc) (mpSearchPaths sc)))"

definition scanner_ok :: "SearchPathScanner \<Rightarrow> bool" where
  "scanner_ok sc \<longleftrightarrow> (mpSearchPaths sc = [] \<longrightarrow> mpBaseDir sc \<noteq> None)"

lemma path_dirs_skip:
  "path_dirs None (drop (i + length (takeWhile (\<lambda>p. p = ''@'') (drop i ps))) ps) = path_dirs None (drop i ps)"
proof -
  have "path_dirs None (dropWhile (\<lambda>p. p = ''@'') qs) = path_dirs None qs" for qs
    by (induction qs) (auto simp: path_dirs_def default_dirs_def)
  then have "path_dirs None (drop (length (takeWhile (\<lambda>p. p = ''@'') (drop i ps))) (drop i ps)) =
      path_dirs None (drop i ps)"
    by (simp only: dropWhile_eq_drop [symmetric])
  then show ?thesis by (simp add: add.commute)
qed

lemma no_skip_nth:
  "i + length (takeWhile P (drop i ps)) < length ps \<Longrightarrow> \<not> P (ps ! (i + length (takeWhile P (drop i ps))))"
  using nth_length_takeWhile [of P "drop i ps"] by simp

lemma path_dirs_Cons:
  "i < length ps \<Longrightarrow> path_dirs d (drop i ps) =
     (if ps ! i = ''@'' then default_dirs d else [(strRemoveTrailingDirDiv (ps ! i), False)]) @ path_dirs d (drop (Suc i) ps)"
  by (subst Cons_nth_drop_Suc [symmetric], assumption) (simp add: path_dirs_def)

lemma GetNext_remaining:
  assumes "scanner_ok sc"
  shows "(case GetNext sc of (None, sc') \<Rightarrow> remaining sc = [] | (Some r, sc') \<Rightarrow>
            remaining sc = r # remaining sc' \<and> scanner_ok sc')"
proof (cases "mpSearchPaths sc = []")
  case True
  then show ?thesis
    using assms by (auto simp: GetNext_def getNextNoSPathList_def remaining_def default_dirs_def scanner_ok_def
        split: option.splits)
next
  case False
  let ?ps = "mpSearchPaths sc"
  define i where "i = (if mpDefaultDir sc = None
                   then mIdx sc + length (takeWhile (\<lambda>p. p = ''@'') (drop (mIdx sc) ?ps)) else mIdx sc)"
  have i: "path_dirs (mpDefaultDir sc) (drop (mIdx sc) ?ps) = path_dirs (mpDefaultDir sc) (drop i ?ps)"
    by (simp add: i_def path_dirs_skip)
  show ?thesis
  proof (cases "mpBaseDir sc")
    case (Some b)
    with False show ?thesis by (simp add: GetNext_def getNextWithSPathList_def remaining_def scanner_ok_def)
  next
    case None
    show ?thesis
    proof (cases "i < length ?ps")
      case False
      with None \<open>?ps \<noteq> []\<close> i show ?thesis
        by (simp add: GetNext_def getNextWithSPathList_def remaining_def i_def [symmetric] path_dirs_def)
    next
      case True
      have at: "?ps ! i = ''@'' \<Longrightarrow> mpDefaultDir sc \<noteq> None"
        using no_skip_nth [of "mIdx sc" "\<lambda>p. p = ''@''" ?ps] True
        by (cases "mpDefaultDir sc") (simp_all add: i_def)
      with True None \<open>?ps \<noteq> []\<close> i show ?thesis
        by (auto simp: GetNext_def getNextWithSPathList_def remaining_def i_def [symmetric] path_dirs_Cons
            default_dirs_def scanner_ok_def Let_def)
    qed
  qed
qed

lemma SSPrintFS_nested: "SSPrintFS (d @ ''/'' @ SSPrintFS p) = take 1023 (d @ ''/'' @ p)"
  by (cases "1023 - length d") (auto simp: SSPrintFS_def min_def)

lemma candidates_printed:
  "candidates base fname dirs = concat (map (\<lambda>(p, isAbs). let full = SSPrintFS (p @ ''/'' @ fname) in
     full # (if isAbs then [] else [SSPrintFS (base @ ''/'' @ full)])) dirs)"
  by (simp only: candidates_def Let_def SSPrintFS_nested) (simp only: SSPrintFS_def)

lemma find_res_loop_candidates:
  "scanner_ok sc \<Longrightarrow> find_res_loop ex base fname sc =
     (case find ex (candidates base fname (remaining sc)) of None \<Rightarrow> '''' | Some f \<Rightarrow> f)"
proof (induction ex base fname sc rule: find_res_loop.induct)
  case (1 ex base fname sc)
  note gn = GetNext_remaining [OF 1(2)]
  show ?case
  proof (cases "GetNext sc")
    case (Pair r sc')
    show ?thesis
    proof (cases r)
      case None
      with gn Pair show ?thesis by (simp add: find_res_loop.simps [of ex base fname sc] candidates_def)
    next
      case (Some pa)
      obtain p isAbs where pa: "pa = (p, isAbs)" by fastforce
      with gn Pair Some have rem: "remaining sc = (p, isAbs) # remaining sc'" and ok: "scanner_ok sc'" by simp_all
      with 1(1) [OF Pair [symmetric] Some pa [symmetric] refl _ refl] show ?thesis
        by (simp add: find_res_loop.simps [of ex base fname sc] Pair Some pa candidates_printed Let_def)
    qed
  qed
qed

text \<open>
  C29: \<open>FindResFile\<close> returns the first existing file among the candidates of the search paths,
  in their order, and the empty string when none exists; it always returns. Paths are cut to
  1023 characters, so that a longer candidate stands for the file its first 1023 characters name.
\<close>

theorem FindResFile_first_candidate:
  assumes "mOptionsStack s = opt # opts"
  shows "FindResFile fname ty s = Inr
    (case find (sv_FileExists (st_services s)) (candidates (st_mBaseDir s) fname (search_dirs (st_mBaseDir s)
        (if ty = SEARCHPATH_SHADER then Some (st_mDefaultShadersDir s) else None) (mSearchPaths opt ty))) of
       None \<Rightarrow> '''' | Some f \<Rightarrow> f)"
proof -
  have "scanner_ok (SearchPathScanner_new b d ps)" "remaining (SearchPathScanner_new b d ps) = search_dirs b d ps" for b d ps
    by (simp_all add: scanner_ok_def remaining_def search_dirs_def SearchPathScanner_new_def)
  then show ?thesis
    using assms by (simp add: FindResFile_def CopyStack_top_def find_res_loop_candidates)
qed

lemma FindResFile_first_candidate_witness:
  defines "s \<equiv> State_with (no_services\<lparr>sv_FileExists := (\<lambda>f. f = ''./Shaders/x.sl'')\<rparr>) [] [] '''' ''./Shaders/''
    (Framework_new False False)"
  shows "FindResFile ''x.sl'' SEARCHPATH_SHADER s = Inr ''./Shaders/x.sl''"
proof -
  obtain opt where o: "mOptionsStack s = [opt]" "mSearchPaths opt SEARCHPATH_SHADER = []"
    by (simp add: s_def init_step Let_def)
  have d: "st_mBaseDir s = ''.''" "st_mDefaultShadersDir s = ''./Shaders/''"
    "sv_FileExists (st_services s) = (\<lambda>f. f = ''./Shaders/x.sl'')"
    by (simp_all add: s_def init_step or_dot_def Let_def)
  show ?thesis
    by (subst FindResFile_first_candidate [OF o(1)])
      (simp add: o d candidates_def search_dirs_def default_dirs_def strRemoveTrailingDirDiv_def)
qed

end
