(* ===== verification/Translator.thy ===== *)
theory Translator
  imports RiScene
begin

text \<open>
  The RIB command interpreter: \<open>RRL_Translator.h/.cpp\<close> with its three parts for primitives,
  transformations and options, and \<open>Render\<close> with \<open>readArchive\<close> (\<open>RibRenderLib.cpp\<close>). A command
  with its parameters becomes a call of the graphics state; what is wrong with the parameters
  is thrown before the state is touched. Where C++ leaves the order of argument evaluation
  open, arguments are read from left to right.
\<close>

section \<open>Checking and reading parameters\<close>

record TransParams =
  mForcedLongDim :: int
  mForcedWd :: int
  mForcedHe :: int

definition TransParams_new :: TransParams where
  "TransParams_new = \<lparr>mForcedLongDim = - 1, mForcedWd = - 1, mForcedHe = - 1\<rparr>"

definition bad_count :: "nat \<Rightarrow> Param list \<Rightarrow> exn" where
  "bad_count n cmdParams = RI_Exception (''Error '' @ ErrorToString E_BADARGUMENT)"

definition exN :: "nat \<Rightarrow> Param list \<Rightarrow> unit res" where
  "exN n cmdParams = (if length cmdParams = n then Inr () else Inl (bad_count n cmdParams))"

definition geN :: "nat \<Rightarrow> Param list \<Rightarrow> unit res" where
  "geN n cmdParams = (if n \<le> length cmdParams then Inr () else Inl (bad_count n cmdParams))"

fun floats_of :: "Param list \<Rightarrow> real list res" where
  "floats_of [] = Inr []"
| "floats_of (p # ps) = res_bind (Param_real p) (\<lambda>x. res_bind (floats_of ps) (\<lambda>xs. Inr (x # xs)))"

text \<open>A command with exactly \<open>n\<close> numbers.\<close>

definition nums :: "nat \<Rightarrow> Param list \<Rightarrow> (real list \<Rightarrow> 'a) \<Rightarrow> 'a option res" where
  "nums n p f = res_bind (exN n p) (\<lambda>_. res_bind (floats_of p) (\<lambda>fs. Inr (Some (f fs))))"

text \<open>A command without parameters, and one with at least \<open>n\<close> that gets the list.\<close>

definition bare :: "Param list \<Rightarrow> 'a \<Rightarrow> 'a option res" where
  "bare p c = res_bind (exN 0 p) (\<lambda>_. Inr (Some c))"

definition least :: "nat \<Rightarrow> Param list \<Rightarrow> 'a \<Rightarrow> 'a option res" where
  "least n p c = res_bind (geN n p) (\<lambda>_. Inr (Some c))"

text \<open>
  \<open>mkBound\<close> with six parameters reads \<open>u.floatVal\<close> whatever their type: an integer leaves that
  field uninitialised.
\<close>

definition raw_float :: "Param \<Rightarrow> real res" where
  "raw_float p = res_bind (uninit (floatVal p)) real_of_flt"

definition bound_of :: "real list \<Rightarrow> Bound" where
  "bound_of fs = SetMax (fs ! 3) (fs ! 4) (fs ! 5) (SetMin (fs ! 0) (fs ! 1) (fs ! 2) (Bound_of 0))"

fun raw_floats :: "Param list \<Rightarrow> real list res" where
  "raw_floats [] = Inr []"
| "raw_floats (p # ps) = res_bind (raw_float p) (\<lambda>x. res_bind (raw_floats ps) (\<lambda>xs. Inr (x # xs)))"

definition mkBound :: "Param list \<Rightarrow> Bound res" where
  "mkBound cmdParams =
     (if length cmdParams = 1 then res_bind (PFlt_read 6 (cmdParams ! 0)) (\<lambda>fs. Inr (bound_of fs))
      else if length cmdParams = 6 then res_bind (raw_floats cmdParams) (\<lambda>fs. Inr (bound_of fs))
      else Inl (AssThrow ''Wrong param count''))"

definition matchToken :: "string \<Rightarrow> string list \<Rightarrow> string option" where
  "matchToken pStr pAllowedTokens = find (\<lambda>t. pStr = t) pAllowedTokens"

definition tlOrientation :: "string list" where
  "tlOrientation = [''outside'', ''inside'', ''lh'', ''rh'']"

definition tlBasis :: "string list" where
  "tlBasis = [''bezier'', ''b-spline'', ''power'', ''catmull-rom'', ''hermite'']"

definition tlPatch0 :: "string list" where
  "tlPatch0 = [''bilinear'', ''bicubic'']"

section \<open>Primitives and transformations\<close>

text \<open>Each part returns \<open>None\<close> for a command that is not its own.\<close>

text \<open>The knot vectors are read through \<open>PFlt\<close>, which stores the conversion of an integer array.\<close>

definition nupatch :: "Param list \<Rightarrow> ri_call option res" where
  "nupatch p =
     res_bind (geN 11 p) (\<lambda>_.
     res_bind (Param_Int (p ! 0)) (\<lambda>nu. res_bind (Param_Int (p ! 1)) (\<lambda>uorder.
     res_bind (PFlt None (p ! 2)) (\<lambda>uk. res_bind (reals_of uk) (\<lambda>pUknot.
     res_bind (Param_real (p ! 3)) (\<lambda>umin. res_bind (Param_real (p ! 4)) (\<lambda>umax.
     res_bind (Param_Int (p ! 5)) (\<lambda>nv. res_bind (Param_Int (p ! 6)) (\<lambda>vorder.
     res_bind (PFlt None (p ! 7)) (\<lambda>vk. res_bind (reals_of vk) (\<lambda>pVknot.
     res_bind (Param_real (p ! 8)) (\<lambda>vmin. res_bind (Param_real (p ! 9)) (\<lambda>vmax.
       Inr (Some (RI_Prim (NuPatch nu uorder pUknot umin umax nv vorder pVknot vmin vmax
         (p[2 := snd (NumVec None (p ! 2)), 7 := snd (NumVec None (p ! 7))])))))))))))))))))"

definition addCommand_prims :: "string \<Rightarrow> Param list \<Rightarrow> ri_call option res" where
  "addCommand_prims nm p =
     (if nm = ''Cone'' then nums 3 p (\<lambda>f. RI_Prim (Cone (f ! 0) (f ! 1) (f ! 2)))
      else if nm = ''Cylinder'' then nums 4 p (\<lambda>f. RI_Prim (Cylinder (f ! 0) (f ! 1) (f ! 2) (f ! 3)))
      else if nm = ''Sphere'' then nums 4 p (\<lambda>f. RI_Prim (Sphere (f ! 0) (f ! 1) (f ! 2) (f ! 3)))
      else if nm = ''Hyperboloid'' then nums 7 p (\<lambda>f.
        RI_Prim (Hyperboloid (Vec3 (f ! 0) (f ! 1) (f ! 2)) (Vec3 (f ! 3) (f ! 4) (f ! 5)) (f ! 6)))
      else if nm = ''Paraboloid'' then nums 4 p (\<lambda>f. RI_Prim (Paraboloid (f ! 0) (f ! 1) (f ! 2) (f ! 3)))
      else if nm = ''Torus'' then nums 5 p (\<lambda>f. RI_Prim (Torus (f ! 0) (f ! 1) (f ! 2) (f ! 3) (f ! 4)))
      else if nm = ''Patch'' then
        res_bind (geN 3 p) (\<lambda>_. res_bind (PChar (p ! 0)) (\<lambda>t. Inr (Some (RI_Patch (matchToken t tlPatch0) p))))
      else if nm = ''PatchMesh'' then
        res_bind (geN 5 p) (\<lambda>_. res_bind (PChar (p ! 0)) (\<lambda>t.
          Inr (Some (RI_Prim (PatchMesh (matchToken t tlPatch0) p)))))
      else if nm = ''NuPatch'' then nupatch p
      else if nm = ''Polygon'' then least 2 p (RI_Prim (Polygon p))
      else if nm = ''PointsPolygons'' then least 4 p (RI_Prim (PointsPolygons p))
      else if nm = ''PointsGeneralPolygons'' then least 5 p (RI_Prim (PointsGeneralPolygons p))
      else Inr None)"

definition one_matrix :: "Param list \<Rightarrow> (real list \<Rightarrow> ri_call) \<Rightarrow> ri_call option res" where
  "one_matrix p f = res_bind (exN 1 p) (\<lambda>_. res_bind (PFlt_read 16 (p ! 0)) (\<lambda>m. Inr (Some (f m))))"

text \<open>The names of transformations are compared without regard to case.\<close>

definition addCommand_transforms :: "string \<Rightarrow> Param list \<Rightarrow> ri_call option res" where
  "addCommand_transforms nm p =
     (if strcasecmp_eq nm ''Identity'' then bare p RI_Identity
      else if strcasecmp_eq nm ''ConcatTransform'' then one_matrix p (\<lambda>m. RI_ConcatTransform (CopyRowMajor m))
      else if strcasecmp_eq nm ''Transform'' then one_matrix p RI_Transform
      else if strcasecmp_eq nm ''Scale'' then nums 3 p (\<lambda>f. RI_Scale (f ! 0) (f ! 1) (f ! 2))
      else if strcasecmp_eq nm ''Rotate'' then nums 4 p (\<lambda>f. RI_Rotate (f ! 0) (f ! 1) (f ! 2) (f ! 3))
      else if strcasecmp_eq nm ''Translate'' then nums 3 p (\<lambda>f. RI_Translate (f ! 0) (f ! 1) (f ! 2))
      else Inr None)"

section \<open>Search paths\<close>

definition splitSearchPath :: "string \<Rightarrow> string list res" where
  "splitSearchPath pSrc =
     (if length pSrc < 4096 then Inr (strtok_all (\<lambda>c. c = CHR '':'') pSrc)
      else Inl (AssThrow ''Search path string too long !''))"

text \<open>
  \<open>processSearchPath\<close> rebuilds the list: \<open>&\<close> stands for the old list, \<open>@\<close> for the default path;
  each may occur once. A second one is thrown when the list is already half rebuilt.
\<close>

fun process_loop :: "string list \<Rightarrow> bool \<Rightarrow> bool \<Rightarrow> string list \<Rightarrow> string list \<Rightarrow> unit res \<times> string list" where
  "process_loop oldList gotPrevPath gotStdPath [] cur = (Inr (), cur)"
| "process_loop oldList gotPrevPath gotStdPath (t # ts) cur =
     (if t = ''&'' then
        if gotPrevPath then (Inl (AssThrow ''& used more than once in searchpath''), cur)
        else process_loop oldList True gotStdPath ts (cur @ oldList)
      else if t = ''@'' then
        if gotStdPath then (Inl (AssThrow ''@ used more than once in searchpath''), cur)
        else process_loop oldList gotPrevPath True ts (cur @ [''@''])
      else process_loop oldList gotPrevPath gotStdPath ts (cur @ [t]))"

definition processSearchPath :: "string list \<Rightarrow> string list \<Rightarrow> unit res \<times> string list" where
  "processSearchPath curSPathList newStrings = process_loop curSPathList False False newStrings []"

text \<open>The kind of path a word names; \<open>None\<close> is \<open>SEARCHPATH_UNKNOWN\<close>.\<close>

definition path_type :: "string \<Rightarrow> SearchPathh option" where
  "path_type t =
     (if t = ''shader'' then Some SEARCHPATH_SHADER
      else if t = ''texture'' then Some SEARCHPATH_TEXTURE
      else if t = ''archive'' then Some SEARCHPATH_ARCHIVE
      else None)"

definition findSearchPathType :: "string \<Rightarrow> SearchPathh option res" where
  "findSearchPathType pPathType =
     res_bind (strcpy_s 1024 pPathType) (\<lambda>buff.
       Inr (case strtok_all blank buff of
              [] \<Rightarrow> None
            | t # ts \<Rightarrow>
                if t = ''string'' then (case ts of [] \<Rightarrow> None | u # _ \<Rightarrow> path_type u) else path_type t))"

section \<open>Options\<close>

text \<open>What a command amounts to: a call of the state, or one of the commands handled here.\<close>

datatype tcmd =
    T_call ri_call
  | T_ignore
  | T_searchpath SearchPathh "string list"
  | T_archive string

definition c_mul :: "int \<Rightarrow> int \<Rightarrow> int res" where
  "c_mul a b = (if - (2 ^ 31) \<le> a * b \<and> a * b < 2 ^ 31 then Inr (a * b)
     else Inl (Undefined_behaviour ''signed overflow''))"

definition addFormatCmd :: "TransParams \<Rightarrow> Param list \<Rightarrow> ri_call res" where
  "addFormatCmd tp p =
     res_bind (exN 3 p) (\<lambda>_.
     res_bind (Param_Int (p ! 0)) (\<lambda>inWd.
     res_bind (Param_Int (p ! 1)) (\<lambda>inHe.
       if inWd < 0 \<or> inHe < 0 then Inl (AssThrow ''Invalid size in Format'')
       else if 0 < mForcedLongDim tp then
         if inHe < inWd then
           res_bind (c_mul (mForcedLongDim tp) inHe) (\<lambda>m.
           res_bind (Param_real (p ! 2)) (\<lambda>r. Inr (RI_Format (mForcedLongDim tp) (m div max inWd 1) r)))
         else
           res_bind (c_mul (mForcedLongDim tp) inWd) (\<lambda>m.
           res_bind (Param_real (p ! 2)) (\<lambda>r. Inr (RI_Format (m div max inHe 1) (mForcedLongDim tp) r)))
       else if 0 < mForcedWd tp \<and> 0 < mForcedHe tp then
         res_bind (Param_real (p ! 2)) (\<lambda>r. Inr (RI_Format (mForcedWd tp) (mForcedHe tp) r))
       else res_bind (Param_real (p ! 2)) (\<lambda>r. Inr (RI_Format inWd inHe r)))))"

definition option_command :: "Param list \<Rightarrow> tcmd res" where
  "option_command p =
     res_bind (geN 2 p) (\<lambda>_.
     res_bind (PChar (p ! 0)) (\<lambda>pOptionName.
       if pOptionName \<noteq> ''searchpath'' then Inr T_ignore
       else
         res_bind (PChar (p ! 1)) (\<lambda>pPathType.
         res_bind (if length p = 2 then Inl (Undefined_behaviour ''third parameter of two'') else PChar (p ! 2)) (\<lambda>pPathString.
         res_bind (findSearchPathType pPathType) (\<lambda>idx.
           case idx of
             None \<Rightarrow> Inr T_ignore
           | Some i \<Rightarrow> res_bind (splitSearchPath pPathString) (\<lambda>strings. Inr (T_searchpath i strings)))))))"

definition color_command :: "Param list \<Rightarrow> ri_call res" where
  "color_command p =
     res_bind (geN 1 p) (\<lambda>_.
       if length p = 1 then res_bind (PFlt_read 3 (p ! 0)) (\<lambda>fs. Inr (RI_Color (vec3_of fs)))
       else if length p = 3 then res_bind (floats_of p) (\<lambda>fs. Inr (RI_Color (vec3_of fs)))
       else Inl (AssThrow ''Wrong param count''))"

definition display_command :: "Param list \<Rightarrow> ri_call res" where
  "display_command p =
     res_bind (geN 3 p) (\<lambda>_.
     res_bind (PChar (p ! 0)) (\<lambda>a. res_bind (PChar (p ! 1)) (\<lambda>b. res_bind (PChar (p ! 2)) (\<lambda>c.
       Inr (RI_Display a b c)))))"

definition two_ints :: "Param list \<Rightarrow> (int \<Rightarrow> int \<Rightarrow> ri_call) \<Rightarrow> ri_call res" where
  "two_ints p f =
     res_bind (exN 2 p) (\<lambda>_. res_bind (Param_Int (p ! 0)) (\<lambda>a. res_bind (Param_Int (p ! 1)) (\<lambda>b. Inr (f a b))))"

definition some_call :: "ri_call res \<Rightarrow> tcmd option res" where
  "some_call r = res_bind r (\<lambda>c. Inr (Some (T_call c)))"

definition addCommand_options :: "TransParams \<Rightarrow> string \<Rightarrow> Param list \<Rightarrow> tcmd option res" where
  "addCommand_options tp nm p =
     (if nm = ''Option'' then res_bind (option_command p) (\<lambda>c. Inr (Some c))
      else if nm = ''Format'' then some_call (addFormatCmd tp p)
      else if nm = ''FrameAspectRatio'' then nums 1 p (\<lambda>f. T_call (RI_FrameAspectRatio (f ! 0)))
      else if nm = ''ScreenWindow'' then nums 4 p (\<lambda>f. T_call (RI_ScreenWindow (f ! 0) (f ! 1) (f ! 2) (f ! 3)))
      else if nm = ''CropWindow'' then nums 4 p (\<lambda>f. T_call (RI_CropWindow (f ! 0) (f ! 1) (f ! 2) (f ! 3)))
      else if nm = ''Projection'' then least 1 p (T_call (RI_Projection p))
      else if nm = ''Clipping'' then nums 2 p (\<lambda>f. T_call (RI_Clipping (f ! 0) (f ! 1)))
      else if nm = ''DepthOfField'' then nums 3 p (\<lambda>f. T_call (RI_DepthOfField (f ! 0) (f ! 1) (f ! 2)))
      else if nm = ''Shutter'' then nums 2 p (\<lambda>f. T_call (RI_Shutter (f ! 0) (f ! 1)))
      else if nm = ''Color'' then some_call (color_command p)
      else if nm = ''Opacity'' then
        some_call (res_bind (exN 1 p) (\<lambda>_. res_bind (PFlt_read 3 (p ! 0)) (\<lambda>fs. Inr (RI_Opacity (vec3_of fs)))))
      else if nm = ''Display'' then some_call (display_command p)
      else if nm = ''PixelSamples'' then some_call (two_ints p RI_PixelSamples)
      else Inr None)"

section \<open>Commands\<close>

text \<open>
  \<open>Basis\<close>: a name that is not a basis gives the null pointer, and the matrix that goes with it
  is null as well.
\<close>

definition basis_arg :: "Param \<Rightarrow> (string option \<times> real list option) res" where
  "basis_arg p =
     (if IsString p then res_bind (PChar p) (\<lambda>t. Inr (matchToken t tlBasis, None))
      else res_bind (PFlt_read 16 p) (\<lambda>m. Inr (None, Some m)))"

definition basis_command :: "Param list \<Rightarrow> ri_call res" where
  "basis_command p =
     res_bind (exN 4 p) (\<lambda>_.
     res_bind (basis_arg (p ! 0)) (\<lambda>(pUName, pUCustom).
     res_bind (basis_arg (p ! 2)) (\<lambda>(pVName, pVCustom).
     res_bind (Param_Int (p ! 1)) (\<lambda>ustep.
     res_bind (Param_Int (p ! 3)) (\<lambda>vstep.
       Inr (RI_Basis pUName pUCustom ustep pVName pVCustom vstep))))))"

definition one_string :: "Param list \<Rightarrow> (string \<Rightarrow> 'a) \<Rightarrow> 'a res" where
  "one_string p f = res_bind (exN 1 p) (\<lambda>_. res_bind (PChar (p ! 0)) (\<lambda>t. Inr (f t)))"

definition one_int :: "Param list \<Rightarrow> (int \<Rightarrow> 'a) \<Rightarrow> 'a res" where
  "one_int p f = res_bind (exN 1 p) (\<lambda>_. res_bind (Param_Int (p ! 0)) (\<lambda>i. Inr (f i)))"

text \<open>\<open>MotionBegin\<close> reads the first of its two parameters twice, as a number and as an array.\<close>

definition motion_command :: "Param list \<Rightarrow> ri_call res" where
  "motion_command p =
     res_bind (exN 2 p) (\<lambda>_. res_bind (Param_Int (p ! 0)) (\<lambda>n. res_bind (PFlt None (p ! 0)) (\<lambda>times.
       Inr RI_MotionBegin)))"

definition unknownCommand :: "string \<Rightarrow> exn" where
  "unknownCommand pCmdName = Runtime_error (''Unknown command '' @ pCmdName)"

text \<open>The parts for primitives, transformations and options are tried in this order.\<close>

definition other_command :: "TransParams \<Rightarrow> string \<Rightarrow> Param list \<Rightarrow> tcmd res" where
  "other_command tp nm p =
     res_bind (addCommand_prims nm p) (\<lambda>c1. case c1 of Some c \<Rightarrow> Inr (T_call c) | None \<Rightarrow>
     res_bind (addCommand_transforms nm p) (\<lambda>c2. case c2 of Some c \<Rightarrow> Inr (T_call c) | None \<Rightarrow>
     res_bind (addCommand_options tp nm p) (\<lambda>c3. case c3 of Some c \<Rightarrow> Inr c | None \<Rightarrow>
       Inl (unknownCommand nm))))"

definition call0 :: "Param list \<Rightarrow> ri_call \<Rightarrow> tcmd res" where
  "call0 p c = res_bind (exN 0 p) (\<lambda>_. Inr (T_call c))"

definition calln :: "nat \<Rightarrow> Param list \<Rightarrow> ri_call \<Rightarrow> tcmd res" where
  "calln n p c = res_bind (geN n p) (\<lambda>_. Inr (T_call c))"

definition command_of :: "TransParams \<Rightarrow> string \<Rightarrow> Param list \<Rightarrow> tcmd res" where
  "command_of tp nm p =
     (if nm = ''Begin'' then one_string p (\<lambda>_. T_call RI_Begin)
      else if nm = ''End'' then call0 p RI_End
      else if nm = ''FrameBegin'' then one_int p (\<lambda>n. T_call (RI_FrameBegin n))
      else if nm = ''FrameEnd'' then call0 p RI_FrameEnd
      else if nm = ''WorldBegin'' then call0 p RI_WorldBegin
      else if nm = ''WorldEnd'' then call0 p RI_WorldEnd
      else if nm = ''AttributeBegin'' then call0 p RI_AttributeBegin
      else if nm = ''AttributeEnd'' then call0 p RI_AttributeEnd
      else if nm = ''Attribute'' then res_bind (geN 1 p) (\<lambda>_. Inr T_ignore)
      else if nm = ''TransformBegin'' then call0 p RI_TransformBegin
      else if nm = ''TransformEnd'' then call0 p RI_TransformEnd
      else if nm = ''SolidBegin'' then one_string p (\<lambda>_. T_call RI_SolidBegin)
      else if nm = ''SolidEnd'' then call0 p RI_SolidEnd
      else if nm = ''ObjectBegin'' then call0 p RI_ObjectBegin
      else if nm = ''ObjectEnd'' then call0 p RI_ObjectEnd
      else if nm = ''MotionBegin'' then res_bind (motion_command p) (\<lambda>c. Inr (T_call c))
      else if nm = ''MotionEnd'' then call0 p RI_MotionEnd
      else if nm = ''Bound'' then res_bind (mkBound p) (\<lambda>b. Inr (T_call (RI_Bound b)))
      else if nm = ''Detail'' then res_bind (mkBound p) (\<lambda>b. Inr (T_call (RI_Detail b)))
      else if nm = ''DetailRange'' then
        res_bind (nums 4 p (\<lambda>f. RI_DetailRange (f ! 0) (f ! 1) (f ! 2) (f ! 3))) (\<lambda>c. Inr (T_call (the c)))
      else if nm = ''GeometricApproximation'' then Inr T_ignore
      else if nm = ''Orientation'' then one_string p (\<lambda>t. T_call (RI_Orientation (matchToken t tlOrientation)))
      else if nm = ''Sides'' then one_int p (\<lambda>n. T_call (RI_Sides n))
      else if nm = ''Basis'' then res_bind (basis_command p) (\<lambda>c. Inr (T_call c))
      else if nm = ''AreaLightSource'' then calln 1 p (RI_AreaLightSource p)
      else if nm = ''LightSource'' then calln 1 p (RI_LightSource p)
      else if nm = ''Declare'' then res_bind (exN 2 p) (\<lambda>_. Inr (T_call (RI_Declare p)))
      else if nm = ''Surface'' then calln 1 p (RI_Surface p)
      else if nm = ''Displacement'' then calln 1 p (RI_Displacement p)
      else if nm = ''ReadArchive'' then one_string p T_archive
      else if nm = ''version'' then res_bind (exN 1 p) (\<lambda>_. Inr T_ignore)
      else other_command tp nm p)"

text \<open>
  \<open>AddCommand\<close>. The path that \<open>mReadArchivePathFName\<close> holds for the caller is part of the
  result. \<open>Option "searchpath"\<close> changes the options directly, without mode check or revision.
\<close>

datatype RetCmd = CMD_GENERIC | CMD_READARCHIVE string | CMD_WORLDEND

definition set_searchpath :: "SearchPathh \<Rightarrow> string list \<Rightarrow> State \<Rightarrow> unit res \<times> State" where
  "set_searchpath idx strings s =
     (case mOptionsStack s of
        [] \<Rightarrow> (Inl empty_back, s)
      | opt # opts \<Rightarrow>
          (case processSearchPath (mSearchPaths opt idx) strings of (r, l) \<Rightarrow>
             (r, s\<lparr>mOptionsStack := opt\<lparr>mSearchPaths := (mSearchPaths opt)(idx := l)\<rparr> # opts\<rparr>)))"

text \<open>The call of the state alone: what follows a \<open>WorldEnd\<close> is done by the archive reader.\<close>

definition state_call :: "ri_call \<Rightarrow> State \<Rightarrow> unit res \<times> State" where
  "state_call c s = (if c = RI_WorldEnd then WorldEnd s else exec c s)"

definition AddCommand :: "TransParams \<Rightarrow> string \<Rightarrow> Param list \<Rightarrow> State \<Rightarrow> RetCmd res \<times> State" where
  "AddCommand tp nm p s =
     (case command_of tp nm p of
        Inl e \<Rightarrow> (Inl e, s)
      | Inr (T_call c) \<Rightarrow>
          (case state_call c s of
             (Inl e, s) \<Rightarrow> (Inl e, s)
           | (Inr _, s) \<Rightarrow> (Inr (if c = RI_WorldEnd then CMD_WORLDEND else CMD_GENERIC), s))
      | Inr T_ignore \<Rightarrow> (Inr CMD_GENERIC, s)
      | Inr (T_searchpath idx strings) \<Rightarrow>
          (case set_searchpath idx strings s of
             (Inl e, s) \<Rightarrow> (Inl e, s) | (Inr _, s) \<Rightarrow> (Inr CMD_GENERIC, s))
      | Inr (T_archive f) \<Rightarrow>
          (case FindResFile f SEARCHPATH_ARCHIVE s of
             Inl e \<Rightarrow> (Inl e, s) | Inr path \<Rightarrow> (Inr (CMD_READARCHIVE path), s)))"

section \<open>Archives\<close>

text \<open>
  The commands of an archive, run one after the other; \<open>nested\<close> reads another archive. An
  exception of a command, of the freeing of the displays or of a nested archive is caught.
\<close>

fun run_archive_commands ::
  "(string \<Rightarrow> State \<Rightarrow> (unit res \<times> State) option) \<Rightarrow> TransParams \<Rightarrow> command list \<Rightarrow> State
   \<Rightarrow> (unit res \<times> State) option" where
  "run_archive_commands nested tp [] s = Some (Inr (), s)"
| "run_archive_commands nested tp ((nm, ps, line) # cs) s =
     (case (case AddCommand tp nm ps s of
              (Inl e, s) \<Rightarrow> Some (Inl e, s)
            | (Inr CMD_GENERIC, s) \<Rightarrow> Some (Inr (), s)
            | (Inr CMD_WORLDEND, s) \<Rightarrow> Some (free_current_displays s)
            | (Inr (CMD_READARCHIVE path), s) \<Rightarrow> nested path s) of
        None \<Rightarrow> None
      | Some (Inl e, s) \<Rightarrow> if caught e then run_archive_commands nested tp cs s else Some (Inl e, s)
      | Some (Inr _, s) \<Rightarrow> run_archive_commands nested tp cs s)"

text \<open>
  \<open>Render::readArchive\<close>: \<open>GrabFile\<close> is the file manager, \<open>t\<close> the tokenizer as its constructor
  leaves it. An archive that reads itself never ends, so the nesting is bounded by \<open>fuel\<close>;
  \<open>None\<close> means that more fuel is needed.
\<close>

fun render_archive ::
  "nat \<Rightarrow> (string \<Rightarrow> string res) \<Rightarrow> Tokenizer \<Rightarrow> TransParams \<Rightarrow> string \<Rightarrow> State \<Rightarrow> (unit res \<times> State) option" where
  "render_archive 0 GrabFile t tp pFileName s = None"
| "render_archive (Suc fuel) GrabFile t tp pFileName s =
     (case GrabFile pFileName of
        Inl e \<Rightarrow> Some (Inl e, s)
      | Inr file_data \<Rightarrow>
          (case readArchive t file_data of (cs, r) \<Rightarrow>
             (case run_archive_commands (render_archive fuel GrabFile t tp) tp cs s of
                Some (Inr _, s) \<Rightarrow> Some (r, s) | other \<Rightarrow> other)))"

definition Render :: "nat \<Rightarrow> (string \<Rightarrow> string res) \<Rightarrow> Tokenizer \<Rightarrow> TransParams \<Rightarrow> string \<Rightarrow> State \<Rightarrow> (unit res \<times> State) option" where
  "Render fuel GrabFile t tp pFileName s =
     (case render_archive fuel GrabFile t tp pFileName (snd (State_Begin s)) of
        Some (Inr _, s) \<Rightarrow> Some (State_End s) | other \<Rightarrow> other)"

end
