(* ===== verification/SceneText.thy ===== *)
theory SceneText
  imports Translator RiProps
begin

text \<open>
  Scenes as text: a writer of RIB commands for the calls of the graphics state, and the proof
  that \<open>Render::readArchive\<close> runs exactly the calls that were written. The texts of numbers are
  an interface, with decimal integers as its instance.
\<close>

section \<open>Archives that are lists of calls\<close>

lemma run_archive_calls:
  assumes "list_all2 (\<lambda>(nm, ps, _) c. command_of tp nm ps = Inr (T_call c)) cmds calls"
  shows "run_archive_commands nested tp cmds s = Some (run_calls calls s)"
  using assms
proof (induction cmds calls arbitrary: s rule: list_all2_induct)
  case (Cons cmd cmds c calls)
  obtain nm ps l where cmd: "cmd = (nm, ps, l)" by (cases cmd)
  have "command_of tp nm ps = Inr (T_call c)" using Cons.hyps cmd by simp
  then show ?case
    using Cons.IH
    by (cases "c = RI_WorldEnd")
      (auto simp: cmd AddCommand_def state_call_def stx_bind_def split: prod.splits sum.splits)
qed simp

lemma commands_from_calls:
  assumes "list_all2 (\<lambda>(nm, args) c. command_of tp nm (map param_of_arg args) = Inr (T_call c)) cs calls"
  shows "list_all2 (\<lambda>(nm, ps, _) c. command_of tp nm ps = Inr (T_call c)) (commands_from l cs) calls"
  using assms by (induction cs calls arbitrary: l rule: list_all2_induct) auto

lemma archive_runs_calls:
  assumes "list_all cmd_ok cs" "GrabFile f = Inr (print_rib cs)"
    and "list_all2 (\<lambda>(nm, args) c. command_of tp nm (map param_of_arg args) = Inr (T_call c)) cs calls"
  shows "render_archive (Suc n) GrabFile (Tokenizer_new d i v) tp f s = Some (run_calls calls s)"
proof -
  obtain r s' where run: "run_calls calls s = (r, s')" by fastforce
  show ?thesis
    using readArchive_rib [OF assms(1), of d i v] assms(2) run
      run_archive_calls [OF commands_from_calls [OF assms(3), of 1]]
    by (auto split: sum.splits)
qed

section \<open>Writing calls\<close>

text \<open>Parameters that a command keeps as they are, written back; numbers in them are integers.\<close>

definition arg_of :: "Param \<Rightarrow> rib_arg option" where
  "arg_of p =
     (let a = (case ptype p of
                 P_INT \<Rightarrow> map_option RInt (intVal p)
               | P_STR \<Rightarrow> Some (RStr (stringVal p))
               | P_INT_ARR \<Rightarrow> Some (RInts (intArrayVal p))
               | P_STR_ARR \<Rightarrow> Some (RStrs (stringArrayVal p))
               | _ \<Rightarrow> None)
      in case a of None \<Rightarrow> None | Some x \<Rightarrow> if param_of_arg x = p \<and> arg_ok x then Some x else None)"

fun args_of :: "Param list \<Rightarrow> rib_arg list option" where
  "args_of [] = Some []"
| "args_of (p # ps) = (case (arg_of p, args_of ps) of (Some a, Some as) \<Rightarrow> Some (a # as) | _ \<Rightarrow> None)"

lemma args_of_params: "args_of ps = Some as \<Longrightarrow> map param_of_arg as = ps \<and> list_all arg_ok as"
  by (induction ps arbitrary: as) (auto simp: arg_of_def Let_def split: option.splits if_splits)

definition cmd_if :: "bool \<Rightarrow> string \<Rightarrow> rib_arg list \<Rightarrow> rib_cmd option" where
  "cmd_if b nm args = (if b then Some (nm, args) else None)"

definition params_cmd :: "nat \<Rightarrow> string \<Rightarrow> Param list \<Rightarrow> rib_cmd option" where
  "params_cmd n nm ps =
     (case args_of ps of None \<Rightarrow> None | Some as \<Rightarrow> cmd_if (n \<le> length ps) nm as)"

lemma cmd_if_Some [simp]: "cmd_if b nm args = Some c \<longleftrightarrow> b \<and> c = (nm, args)"
  by (auto simp: cmd_if_def)

lemma params_cmd_Some [simp]:
  "params_cmd n nm ps = Some c \<longleftrightarrow> (\<exists>as. c = (nm, as) \<and> n \<le> length ps \<and> args_of ps = Some as)"
  by (auto simp: params_cmd_def split: option.splits)

text \<open>The type of a patch is the first of its parameters.\<close>

definition patch_type_ok :: "string option \<Rightarrow> nat \<Rightarrow> Param list \<Rightarrow> bool" where
  "patch_type_ok t n ps \<longleftrightarrow>
     n \<le> length ps \<and> (case PChar (ps ! 0) of Inr w \<Rightarrow> t = matchToken w tlPatch0 | Inl _ \<Rightarrow> False)"

text \<open>
  The writer. \<open>num\<close> is the text of a number, \<open>arr\<close> of an array, \<open>good\<close> the numbers that have one.
  Not written are \<open>MotionBegin\<close> and \<open>GeometricApproximation\<close>, which the translator does not pass
  on from their usual form, and \<open>NuPatch\<close>.
\<close>

fun write_prim :: "(real \<Rightarrow> rib_arg) \<Rightarrow> (real \<Rightarrow> bool) \<Rightarrow> Prim \<Rightarrow> rib_cmd option" where
  "write_prim num good (Cone a b c) = cmd_if (list_all good [a, b, c]) ''Cone'' (map num [a, b, c])"
| "write_prim num good (Cylinder a b c d) = cmd_if (list_all good [a, b, c, d]) ''Cylinder'' (map num [a, b, c, d])"
| "write_prim num good (Sphere a b c d) = cmd_if (list_all good [a, b, c, d]) ''Sphere'' (map num [a, b, c, d])"
| "write_prim num good (Hyperboloid p q t) =
     cmd_if (list_all good [x3 p, y3 p, z3 p, x3 q, y3 q, z3 q, t]) ''Hyperboloid''
       (map num [x3 p, y3 p, z3 p, x3 q, y3 q, z3 q, t])"
| "write_prim num good (Paraboloid a b c d) =
     cmd_if (list_all good [a, b, c, d]) ''Paraboloid'' (map num [a, b, c, d])"
| "write_prim num good (Torus a b c d e) =
     cmd_if (list_all good [a, b, c, d, e]) ''Torus'' (map num [a, b, c, d, e])"
| "write_prim num good (PatchMesh t ps) =
     (if patch_type_ok t 5 ps then params_cmd 5 ''PatchMesh'' ps else None)"
| "write_prim num good (Polygon ps) = params_cmd 2 ''Polygon'' ps"
| "write_prim num good (PointsPolygons ps) = params_cmd 4 ''PointsPolygons'' ps"
| "write_prim num good (PointsGeneralPolygons ps) = params_cmd 5 ''PointsGeneralPolygons'' ps"
| "write_prim num good _ = None"

definition basis_out :: "(real list \<Rightarrow> rib_arg) \<Rightarrow> (real \<Rightarrow> bool) \<Rightarrow> string option \<Rightarrow> real list option \<Rightarrow> rib_arg option" where
  "basis_out arr good b m =
     (case (b, m) of
        (Some t, None) \<Rightarrow> if t \<in> set tlBasis then Some (RStr t) else None
      | (None, Some fs) \<Rightarrow> if length fs = 16 \<and> list_all good fs then Some (arr fs) else None
      | _ \<Rightarrow> None)"

definition bound_list :: "Bound \<Rightarrow> real list" where
  "bound_list b = [x3 (mBox0 b), y3 (mBox0 b), z3 (mBox0 b), x3 (mBox1 b), y3 (mBox1 b), z3 (mBox1 b)]"

definition str_ok :: "string \<Rightarrow> bool" where
  "str_ok t = arg_ok (RStr t)"

fun write_call :: "(real \<Rightarrow> rib_arg) \<Rightarrow> (real list \<Rightarrow> rib_arg) \<Rightarrow> (real \<Rightarrow> bool) \<Rightarrow> ri_call \<Rightarrow> rib_cmd option" where
  "write_call num arr good RI_Begin = Some (''Begin'', [RStr ''''])"
| "write_call num arr good RI_End = Some (''End'', [])"
| "write_call num arr good (RI_FrameBegin n) = cmd_if (int_ok n) ''FrameBegin'' [RInt n]"
| "write_call num arr good RI_FrameEnd = Some (''FrameEnd'', [])"
| "write_call num arr good RI_WorldBegin = Some (''WorldBegin'', [])"
| "write_call num arr good RI_WorldEnd = Some (''WorldEnd'', [])"
| "write_call num arr good RI_AttributeBegin = Some (''AttributeBegin'', [])"
| "write_call num arr good RI_AttributeEnd = Some (''AttributeEnd'', [])"
| "write_call num arr good RI_TransformBegin = Some (''TransformBegin'', [])"
| "write_call num arr good RI_TransformEnd = Some (''TransformEnd'', [])"
| "write_call num arr good RI_SolidBegin = Some (''SolidBegin'', [RStr ''primitive''])"
| "write_call num arr good RI_SolidEnd = Some (''SolidEnd'', [])"
| "write_call num arr good RI_ObjectBegin = Some (''ObjectBegin'', [])"
| "write_call num arr good RI_ObjectEnd = Some (''ObjectEnd'', [])"
| "write_call num arr good RI_MotionEnd = Some (''MotionEnd'', [])"
| "write_call num arr good (RI_Bound b) = cmd_if (list_all good (bound_list b)) ''Bound'' [arr (bound_list b)]"
| "write_call num arr good (RI_Detail b) = cmd_if (list_all good (bound_list b)) ''Detail'' [arr (bound_list b)]"
| "write_call num arr good (RI_DetailRange a b c d) =
     cmd_if (list_all good [a, b, c, d]) ''DetailRange'' (map num [a, b, c, d])"
| "write_call num arr good (RI_Orientation t) =
     (case t of None \<Rightarrow> None | Some w \<Rightarrow> cmd_if (w \<in> set tlOrientation) ''Orientation'' [RStr w])"
| "write_call num arr good (RI_Sides n) = cmd_if (int_ok n) ''Sides'' [RInt n]"
| "write_call num arr good (RI_Basis u um us v vm vs) =
     (case (basis_out arr good u um, basis_out arr good v vm) of
        (Some a, Some b) \<Rightarrow> cmd_if (int_ok us \<and> int_ok vs) ''Basis'' [a, RInt us, b, RInt vs]
      | _ \<Rightarrow> None)"
| "write_call num arr good (RI_Color c) = cmd_if (list_all good [x3 c, y3 c, z3 c]) ''Color'' [arr [x3 c, y3 c, z3 c]]"
| "write_call num arr good (RI_Opacity c) = cmd_if (list_all good [x3 c, y3 c, z3 c]) ''Opacity'' [arr [x3 c, y3 c, z3 c]]"
| "write_call num arr good (RI_Declare ps) = (if length ps = 2 then params_cmd 2 ''Declare'' ps else None)"
| "write_call num arr good (RI_Format w h r) =
     cmd_if (int_ok w \<and> int_ok h \<and> 0 \<le> w \<and> 0 \<le> h \<and> good r) ''Format'' [RInt w, RInt h, num r]"
| "write_call num arr good (RI_FrameAspectRatio r) = cmd_if (good r) ''FrameAspectRatio'' [num r]"
| "write_call num arr good (RI_ScreenWindow a b c d) =
     cmd_if (list_all good [a, b, c, d]) ''ScreenWindow'' (map num [a, b, c, d])"
| "write_call num arr good (RI_CropWindow a b c d) =
     cmd_if (list_all good [a, b, c, d]) ''CropWindow'' (map num [a, b, c, d])"
| "write_call num arr good (RI_Projection ps) = params_cmd 1 ''Projection'' ps"
| "write_call num arr good (RI_Clipping a b) = cmd_if (list_all good [a, b]) ''Clipping'' (map num [a, b])"
| "write_call num arr good (RI_DepthOfField a b c) = cmd_if (list_all good [a, b, c]) ''DepthOfField'' (map num [a, b, c])"
| "write_call num arr good (RI_Shutter a b) = cmd_if (list_all good [a, b]) ''Shutter'' (map num [a, b])"
| "write_call num arr good (RI_PixelSamples a b) = cmd_if (int_ok a \<and> int_ok b) ''PixelSamples'' [RInt a, RInt b]"
| "write_call num arr good (RI_Display a b c) =
     cmd_if (list_all str_ok [a, b, c]) ''Display'' (map RStr [a, b, c])"
| "write_call num arr good RI_Identity = Some (''Identity'', [])"
| "write_call num arr good (RI_Transform m) = cmd_if (length m = 16 \<and> list_all good m) ''Transform'' [arr m]"
| "write_call num arr good (RI_Scale a b c) = cmd_if (list_all good [a, b, c]) ''Scale'' (map num [a, b, c])"
| "write_call num arr good (RI_Rotate a b c d) = cmd_if (list_all good [a, b, c, d]) ''Rotate'' (map num [a, b, c, d])"
| "write_call num arr good (RI_Translate a b c) = cmd_if (list_all good [a, b, c]) ''Translate'' (map num [a, b, c])"
| "write_call num arr good (RI_LightSource ps) = params_cmd 1 ''LightSource'' ps"
| "write_call num arr good (RI_AreaLightSource ps) = params_cmd 1 ''AreaLightSource'' ps"
| "write_call num arr good (RI_Surface ps) = params_cmd 1 ''Surface'' ps"
| "write_call num arr good (RI_Displacement ps) = params_cmd 1 ''Displacement'' ps"
| "write_call num arr good (RI_Prim p) = write_prim num good p"
| "write_call num arr good (RI_Patch t ps) = (if patch_type_ok t 3 ps then params_cmd 3 ''Patch'' ps else None)"
| "write_call num arr good _ = None"

lemma names_ok:
  "list_all name_ok [''Begin'', ''End'', ''FrameBegin'', ''FrameEnd'', ''WorldBegin'', ''WorldEnd'', ''AttributeBegin'',
    ''AttributeEnd'', ''TransformBegin'', ''TransformEnd'', ''SolidBegin'', ''SolidEnd'', ''ObjectBegin'', ''ObjectEnd'',
    ''MotionEnd'', ''Bound'', ''Detail'', ''DetailRange'', ''Orientation'', ''Sides'', ''Basis'', ''Color'', ''Opacity'',
    ''Declare'', ''Format'', ''FrameAspectRatio'', ''ScreenWindow'', ''CropWindow'', ''Projection'', ''Clipping'',
    ''DepthOfField'', ''Shutter'', ''PixelSamples'', ''Display'', ''Identity'', ''Transform'', ''Scale'', ''Rotate'',
    ''Translate'', ''LightSource'', ''AreaLightSource'', ''Surface'', ''Displacement'', ''Cone'', ''Cylinder'', ''Sphere'',
    ''Hyperboloid'', ''Paraboloid'', ''Torus'', ''Patch'', ''PatchMesh'', ''Polygon'', ''PointsPolygons'',
    ''PointsGeneralPolygons'']"
  by code_simp

lemmas name_ok_names [simp] = names_ok [simplified]

text \<open>No option has the name of a transformation, in any case, and transformations differ.\<close>

lemma transform_names:
  "list_all (\<lambda>n. list_all (\<lambda>t. \<not> strcasecmp_eq n t) [''Identity'', ''ConcatTransform'', ''Transform'', ''Scale'', ''Rotate'',
     ''Translate''])
    [''Format'', ''FrameAspectRatio'', ''ScreenWindow'', ''CropWindow'', ''Projection'', ''Clipping'',
     ''DepthOfField'', ''Shutter'', ''Color'', ''Opacity'', ''Display'', ''PixelSamples'']"
  by code_simp

lemma transform_names_differ:
  "strcasecmp_eq ''Transform'' ''Identity'' = False" "strcasecmp_eq ''Transform'' ''ConcatTransform'' = False"
  "strcasecmp_eq ''Scale'' ''Identity'' = False" "strcasecmp_eq ''Scale'' ''ConcatTransform'' = False"
  "strcasecmp_eq ''Scale'' ''Transform'' = False"
  "strcasecmp_eq ''Rotate'' ''Identity'' = False" "strcasecmp_eq ''Rotate'' ''ConcatTransform'' = False"
  "strcasecmp_eq ''Rotate'' ''Transform'' = False" "strcasecmp_eq ''Rotate'' ''Scale'' = False"
  "strcasecmp_eq ''Translate'' ''Identity'' = False" "strcasecmp_eq ''Translate'' ''ConcatTransform'' = False"
  "strcasecmp_eq ''Translate'' ''Transform'' = False" "strcasecmp_eq ''Translate'' ''Scale'' = False"
  "strcasecmp_eq ''Translate'' ''Rotate'' = False"
  by code_simp+

lemma strcasecmp_eq_refl [simp]: "strcasecmp_eq n n"
  by (simp add: strcasecmp_eq_def)

lemmas transform_name_simps = transform_names [simplified] transform_names_differ

lemma read_param [simp]:
  "IsString (Param_new\<lparr>ptype := P_STR, stringVal := t\<rparr>)"
  "PChar (Param_new\<lparr>ptype := P_STR, stringVal := t\<rparr>) = Inr t"
  "Param_Int (Param_new\<lparr>ptype := P_INT, intVal := Some i\<rparr>) = Inr i"
  by (simp_all add: IsString_def PChar_def Param_Int_def uninit_def)

lemma main_commands:
  "command_of tp ''Begin'' p = one_string p (\<lambda>_. T_call RI_Begin)"
  "command_of tp ''End'' p = call0 p RI_End"
  "command_of tp ''FrameBegin'' p = one_int p (\<lambda>n. T_call (RI_FrameBegin n))"
  "command_of tp ''FrameEnd'' p = call0 p RI_FrameEnd"
  "command_of tp ''WorldBegin'' p = call0 p RI_WorldBegin"
  "command_of tp ''WorldEnd'' p = call0 p RI_WorldEnd"
  "command_of tp ''AttributeBegin'' p = call0 p RI_AttributeBegin"
  "command_of tp ''AttributeEnd'' p = call0 p RI_AttributeEnd"
  "command_of tp ''TransformBegin'' p = call0 p RI_TransformBegin"
  "command_of tp ''TransformEnd'' p = call0 p RI_TransformEnd"
  "command_of tp ''SolidBegin'' p = one_string p (\<lambda>_. T_call RI_SolidBegin)"
  "command_of tp ''SolidEnd'' p = call0 p RI_SolidEnd"
  "command_of tp ''ObjectBegin'' p = call0 p RI_ObjectBegin"
  "command_of tp ''ObjectEnd'' p = call0 p RI_ObjectEnd"
  "command_of tp ''MotionEnd'' p = call0 p RI_MotionEnd"
  "command_of tp ''Bound'' p = res_bind (mkBound p) (\<lambda>b. Inr (T_call (RI_Bound b)))"
  "command_of tp ''Detail'' p = res_bind (mkBound p) (\<lambda>b. Inr (T_call (RI_Detail b)))"
  "command_of tp ''DetailRange'' p =
     res_bind (nums 4 p (\<lambda>f. RI_DetailRange (f ! 0) (f ! 1) (f ! 2) (f ! 3))) (\<lambda>c. Inr (T_call (the c)))"
  "command_of tp ''Orientation'' p = one_string p (\<lambda>t. T_call (RI_Orientation (matchToken t tlOrientation)))"
  "command_of tp ''Sides'' p = one_int p (\<lambda>n. T_call (RI_Sides n))"
  "command_of tp ''Basis'' p = res_bind (basis_command p) (\<lambda>c. Inr (T_call c))"
  "command_of tp ''AreaLightSource'' p = calln 1 p (RI_AreaLightSource p)"
  "command_of tp ''LightSource'' p = calln 1 p (RI_LightSource p)"
  "command_of tp ''Declare'' p = res_bind (exN 2 p) (\<lambda>_. Inr (T_call (RI_Declare p)))"
  "command_of tp ''Surface'' p = calln 1 p (RI_Surface p)"
  "command_of tp ''Displacement'' p = calln 1 p (RI_Displacement p)"
  by (simp_all add: command_of_def)

text \<open>What the part for primitives accepts, no earlier command takes.\<close>

lemma prim_command:
  assumes "addCommand_prims nm p = Inr (Some c)"
  shows "command_of tp nm p = Inr (T_call c)"
proof -
  have "nm \<in> {''Cone'', ''Cylinder'', ''Sphere'', ''Hyperboloid'', ''Paraboloid'', ''Torus'', ''Patch'', ''PatchMesh'',
      ''NuPatch'', ''Polygon'', ''PointsPolygons'', ''PointsGeneralPolygons''}"
    using assms by (auto simp: addCommand_prims_def split: if_splits)
  then have "command_of tp nm p = other_command tp nm p"
    by (elim insertE; simp add: command_of_def)
  then show ?thesis using assms by (simp add: other_command_def)
qed

definition transform_cmds :: "string list" where
  "transform_cmds = [''Identity'', ''Transform'', ''Scale'', ''Rotate'', ''Translate'']"

lemma transform_command:
  assumes "nm \<in> set transform_cmds" "addCommand_transforms nm p = Inr (Some c)"
  shows "command_of tp nm p = Inr (T_call c)"
proof -
  have "command_of tp nm p = other_command tp nm p \<and> addCommand_prims nm p = Inr None"
    using assms(1) unfolding transform_cmds_def
    by (simp only: set_simps, elim insertE; simp add: command_of_def addCommand_prims_def)
  then show ?thesis using assms by (simp add: other_command_def)
qed

definition option_cmds :: "string list" where
  "option_cmds = [''Format'', ''FrameAspectRatio'', ''ScreenWindow'', ''CropWindow'', ''Projection'', ''Clipping'',
     ''DepthOfField'', ''Shutter'', ''Color'', ''Opacity'', ''Display'', ''PixelSamples'']"

lemma option_command_of:
  assumes "nm \<in> set option_cmds" "addCommand_options tp nm p = Inr (Some c)"
  shows "command_of tp nm p = Inr c"
proof -
  have "command_of tp nm p = other_command tp nm p \<and> addCommand_prims nm p = Inr None \<and>
      addCommand_transforms nm p = Inr None"
    using assms(1) unfolding option_cmds_def
    by (simp only: set_simps, elim insertE;
        simp add: command_of_def addCommand_prims_def addCommand_transforms_def transform_name_simps)
  then show ?thesis using assms by (simp add: other_command_def)
qed

text \<open>The part of the translator that handles a call.\<close>

datatype part = Part_prims | Part_transforms | Part_options | Part_main

fun call_part :: "ri_call \<Rightarrow> part" where
  "call_part (RI_Prim p) = Part_prims"
| "call_part (RI_Patch t ps) = Part_prims"
| "call_part RI_Identity = Part_transforms"
| "call_part (RI_Transform m) = Part_transforms"
| "call_part (RI_Scale a b c) = Part_transforms"
| "call_part (RI_Rotate a b c d) = Part_transforms"
| "call_part (RI_Translate a b c) = Part_transforms"
| "call_part (RI_Format w h r) = Part_options"
| "call_part (RI_FrameAspectRatio r) = Part_options"
| "call_part (RI_ScreenWindow a b c d) = Part_options"
| "call_part (RI_CropWindow a b c d) = Part_options"
| "call_part (RI_Projection ps) = Part_options"
| "call_part (RI_Clipping a b) = Part_options"
| "call_part (RI_DepthOfField a b c) = Part_options"
| "call_part (RI_Shutter a b) = Part_options"
| "call_part (RI_Color a) = Part_options"
| "call_part (RI_Opacity a) = Part_options"
| "call_part (RI_Display a b c) = Part_options"
| "call_part (RI_PixelSamples a b) = Part_options"
| "call_part _ = Part_main"

fun_cases prims_partE: "call_part c = Part_prims"
fun_cases transforms_partE: "call_part c = Part_transforms"
fun_cases options_partE: "call_part c = Part_options"
fun_cases main_partE: "call_part c = Part_main"

section \<open>The texts of numbers\<close>

locale number_text =
  fixes num :: "real \<Rightarrow> rib_arg" and arr :: "real list \<Rightarrow> rib_arg" and good :: "real \<Rightarrow> bool"
  assumes num_ok: "good r \<Longrightarrow> arg_ok (num r)"
    and num_read: "good r \<Longrightarrow> Param_real (param_of_arg (num r)) = Inr r"
    and arr_ok: "rs \<noteq> [] \<Longrightarrow> list_all good rs \<Longrightarrow> arg_ok (arr rs)"
    and arr_read: "rs \<noteq> [] \<Longrightarrow> list_all good rs \<Longrightarrow> PFlt_read (length rs) (param_of_arg (arr rs)) = Inr rs"
    and arr_not_string: "\<not> IsString (param_of_arg (arr rs))"
begin

lemma write_prim_ok: "write_prim num good p = Some c \<Longrightarrow> cmd_ok c"
  by (cases p) (auto simp: cmd_ok_def num_ok split: if_splits dest: args_of_params)

lemma floats_read: "list_all good rs \<Longrightarrow> floats_of (map (\<lambda>r. param_of_arg (num r)) rs) = Inr rs"
  by (induction rs) (simp_all add: num_read)

lemma nums_read [simp]:
  "list_all good rs \<Longrightarrow> length rs = n \<Longrightarrow> nums n (map (\<lambda>r. param_of_arg (num r)) rs) f = Inr (Some (f rs))"
  by (simp add: nums_def exN_def floats_read)

lemma nums_lists [simp]:
  "good a \<Longrightarrow> nums (Suc 0) [param_of_arg (num a)] f = Inr (Some (f [a]))"
  "good a \<Longrightarrow> good b \<Longrightarrow> nums 2 [param_of_arg (num a), param_of_arg (num b)] f = Inr (Some (f [a, b]))"
  "good a \<Longrightarrow> good b \<Longrightarrow> good c \<Longrightarrow>
   nums 3 [param_of_arg (num a), param_of_arg (num b), param_of_arg (num c)] f = Inr (Some (f [a, b, c]))"
  "good a \<Longrightarrow> good b \<Longrightarrow> good c \<Longrightarrow> good d \<Longrightarrow>
   nums 4 [param_of_arg (num a), param_of_arg (num b), param_of_arg (num c), param_of_arg (num d)] f
     = Inr (Some (f [a, b, c, d]))"
  "good a \<Longrightarrow> good b \<Longrightarrow> good c \<Longrightarrow> good d \<Longrightarrow> good e \<Longrightarrow>
   nums 5 [param_of_arg (num a), param_of_arg (num b), param_of_arg (num c), param_of_arg (num d),
     param_of_arg (num e)] f = Inr (Some (f [a, b, c, d, e]))"
  "good a \<Longrightarrow> good b \<Longrightarrow> good c \<Longrightarrow> good d \<Longrightarrow> good e \<Longrightarrow> good g \<Longrightarrow> good h \<Longrightarrow>
   nums 7 [param_of_arg (num a), param_of_arg (num b), param_of_arg (num c), param_of_arg (num d),
     param_of_arg (num e), param_of_arg (num g), param_of_arg (num h)] f = Inr (Some (f [a, b, c, d, e, g, h]))"
  using nums_read [of "[a]" 1 f] nums_read [of "[a, b]" 2 f] nums_read [of "[a, b, c]" 3 f]
    nums_read [of "[a, b, c, d]" 4 f] nums_read [of "[a, b, c, d, e]" 5 f]
    nums_read [of "[a, b, c, d, e, g, h]" 7 f]
  by simp_all

lemma write_prim_read:
  "write_prim num good p = Some c \<Longrightarrow>
   addCommand_prims (fst c) (map param_of_arg (snd c)) = Inr (Some (RI_Prim p))"
  by (cases p)
    (auto simp: addCommand_prims_def least_def geN_def patch_type_ok_def split: if_splits sum.splits
      dest: args_of_params)

lemma arr_reads [simp]:
  "good a \<Longrightarrow> good b \<Longrightarrow> good c \<Longrightarrow> PFlt_read 3 (param_of_arg (arr [a, b, c])) = Inr [a, b, c]"
  "good a \<Longrightarrow> good b \<Longrightarrow> good c \<Longrightarrow> good d \<Longrightarrow> good e \<Longrightarrow> good g \<Longrightarrow>
   PFlt_read 6 (param_of_arg (arr [a, b, c, d, e, g])) = Inr [a, b, c, d, e, g]"
  using arr_read [of "[a, b, c]"] arr_read [of "[a, b, c, d, e, g]"] by (auto simp: eval_nat_numeral)

lemma matrix_reads [simp]:
  assumes "length m = 16" "list_all good m"
  shows "PFlt_read 16 (param_of_arg (arr m)) = Inr m" "arg_ok (arr m)"
  using assms arr_read [of m] arr_ok [of m] by (cases m; simp)+

lemma basis_reads:
  assumes "basis_out arr good b m = Some a"
  shows "basis_arg (param_of_arg a) = Inr (b, m)" "arg_ok a"
proof -
  have t: "matchToken t tlBasis = Some t \<and> arg_ok (RStr t)" if "t \<in> set tlBasis" for t
    using that by (auto simp: tlBasis_def matchToken_def)
  show "basis_arg (param_of_arg a) = Inr (b, m)" "arg_ok a"
    using assms t arr_not_string
    by (auto simp: basis_out_def basis_arg_def split: option.splits if_splits)
qed

lemma write_call_ok: "write_call num arr good c = Some d \<Longrightarrow> cmd_ok d"
  by (cases c)
    (auto simp: cmd_ok_def num_ok arr_ok bound_list_def str_ok_def tlOrientation_def
      split: if_splits option.splits dest: args_of_params basis_reads write_prim_ok [unfolded cmd_ok_def])

lemma orientation_token: "w \<in> set tlOrientation \<Longrightarrow> matchToken w tlOrientation = Some w"
  by (auto simp: tlOrientation_def matchToken_def)

lemma write_prims_read:
  assumes "call_part c = Part_prims" "write_call num arr good c = Some (nm, as)"
  shows "addCommand_prims nm (map param_of_arg as) = Inr (Some c)"
  using assms(1)
proof (rule prims_partE)
  fix p assume "c = RI_Prim p"
  then show ?thesis using assms(2) write_prim_read [of p "(nm, as)"] by simp
next
  fix t ps assume c: "c = RI_Patch t ps"
  then have "nm = ''Patch''" "3 \<le> length ps" "map param_of_arg as = ps" "patch_type_ok t 3 ps"
    using assms(2) args_of_params by (auto split: if_splits)
  with c show ?thesis by (auto simp: addCommand_prims_def geN_def patch_type_ok_def split: sum.splits)
qed

lemma write_transforms_read:
  assumes "call_part c = Part_transforms" "write_call num arr good c = Some (nm, as)"
  shows "nm \<in> set transform_cmds \<and> addCommand_transforms nm (map param_of_arg as) = Inr (Some c)"
  using assms(1)
  by (rule transforms_partE)
    (use assms(2) in \<open>auto simp: transform_cmds_def addCommand_transforms_def transform_name_simps bare_def exN_def
      one_matrix_def\<close>)

lemma write_options_read:
  assumes "call_part c = Part_options" "write_call num arr good c = Some (nm, as)"
  shows "nm \<in> set option_cmds \<and>
    addCommand_options TransParams_new nm (map param_of_arg as) = Inr (Some (T_call c))"
  using assms(1)
  by (rule options_partE)
    (use assms(2) in \<open>auto simp: option_cmds_def addCommand_options_def least_def some_call_def two_ints_def exN_def
      geN_def color_command_def vec3_of_def addFormatCmd_def TransParams_new_def display_command_def num_read
      dest!: args_of_params\<close>)

lemma write_main_read:
  assumes "call_part c = Part_main" "write_call num arr good c = Some (nm, as)"
  shows "command_of TransParams_new nm (map param_of_arg as) = Inr (T_call c)"
  using assms(1)
  by (rule main_partE)
    (use assms(2) in \<open>auto simp: main_commands call0_def calln_def one_string_def one_int_def exN_def geN_def mkBound_def
      bound_of_def bound_list_def SetMin_def SetMax_def Bound_of_def basis_command_def orientation_token
      split: if_split_asm option.split_asm dest!: args_of_params basis_reads(1)\<close>)

lemma write_call_read:
  assumes "write_call num arr good c = Some (nm, as)"
  shows "command_of TransParams_new nm (map param_of_arg as) = Inr (T_call c)"
proof (cases "call_part c")
  case Part_prims
  then show ?thesis using assms write_prims_read prim_command by blast
next
  case Part_transforms
  then show ?thesis using assms write_transforms_read transform_command by blast
next
  case Part_options
  then show ?thesis using assms write_options_read option_command_of by blast
next
  case Part_main
  then show ?thesis using assms write_main_read by blast
qed

text \<open>The text of a list of calls, read as an archive, runs the calls.\<close>

lemma written_calls_run:
  assumes "list_all2 (\<lambda>c d. write_call num arr good c = Some d) calls cs" "GrabFile f = Inr (print_rib cs)"
  shows "render_archive (Suc n) GrabFile (Tokenizer_new d i v) TransParams_new f s = Some (run_calls calls s)"
proof (rule archive_runs_calls)
  show "GrabFile f = Inr (print_rib cs)" by (rule assms(2))
  show "list_all cmd_ok cs"
    using assms(1) by (induction calls cs rule: list_all2_induct) (auto intro: write_call_ok)
  show "list_all2 (\<lambda>(nm, args) c. command_of TransParams_new nm (map param_of_arg args) = Inr (T_call c)) cs calls"
    using assms(1) by (induction calls cs rule: list_all2_induct) (auto intro: write_call_read)
qed

end


section \<open>Decimal integers\<close>

definition int_num :: "real \<Rightarrow> rib_arg" where
  "int_num r = RInt \<lfloor>r\<rfloor>"

definition int_arr :: "real list \<Rightarrow> rib_arg" where
  "int_arr rs = RInts (map floor rs)"

definition is_int32 :: "real \<Rightarrow> bool" where
  "is_int32 r = (of_int \<lfloor>r\<rfloor> = r \<and> int_ok \<lfloor>r\<rfloor>)"

lemma reals_of_ints: "list_all is_int32 rs \<Longrightarrow> reals_of (map (\<lambda>r. flt_of_int \<lfloor>r\<rfloor>) rs) = Inr rs"
  by (induction rs) (simp_all add: real_of_flt_def flt_of_int_def is_int32_def)

interpretation ints: number_text int_num int_arr is_int32
proof
  fix r :: real and rs :: "real list"
  assume "is_int32 r"
  then show "arg_ok (int_num r)" "Param_real (param_of_arg (int_num r)) = Inr r"
    by (simp_all add: int_num_def is_int32_def Param_real_def Param_Flt_def uninit_def real_of_flt_def flt_of_int_def)
next
  fix rs :: "real list"
  assume rs: "rs \<noteq> []" "list_all is_int32 rs"
  then show "arg_ok (int_arr rs)" by (auto simp: int_arr_def is_int32_def list_all_iff)
  have "fst (NumVec (Some (length rs)) (param_of_arg (int_arr rs))) = Inr (map (\<lambda>r. flt_of_int \<lfloor>r\<rfloor>) rs)"
    using rs(1) by (simp add: NumVec_def int_arr_def ensIntArr_def Param_new_def resize_flt_def Let_def comp_def)
  then have "PFlt (Some (length rs)) (param_of_arg (int_arr rs)) = Inr (map (\<lambda>r. flt_of_int \<lfloor>r\<rfloor>) rs)"
    using rs(1) by (cases rs) (auto simp: PFlt_def)
  then show "PFlt_read (length rs) (param_of_arg (int_arr rs)) = Inr rs"
    using rs(2) by (simp add: PFlt_read_def reals_of_ints)
next
  fix rs :: "real list"
  show "\<not> IsString (param_of_arg (int_arr rs))" by (simp add: IsString_def int_arr_def)
qed

text \<open>The RIB text of a list of calls, when each of them can be written with integers.\<close>

fun scene_cmds :: "ri_call list \<Rightarrow> rib_cmd list option" where
  "scene_cmds [] = Some []"
| "scene_cmds (c # cs) =
     (case (write_call int_num int_arr is_int32 c, scene_cmds cs) of
        (Some d, Some ds) \<Rightarrow> Some (d # ds) | _ \<Rightarrow> None)"

definition scene_text :: "ri_call list \<Rightarrow> string option" where
  "scene_text calls = map_option print_rib (scene_cmds calls)"

lemma scene_cmds_written:
  "scene_cmds calls = Some cs \<Longrightarrow> list_all2 (\<lambda>c d. write_call int_num int_arr is_int32 c = Some d) calls cs"
  by (induction calls arbitrary: cs) (auto split: option.splits)

section \<open>Properties\<close>

text \<open>
  C1: from text to the graphics state. Take calls that the writer of scenes can write: their
  numbers are integers of 32 bits, and there are no parameter values of a float type, no
  \<open>ConcatTransform\<close>, no motion block, \<open>NuPatch\<close>, \<open>Option\<close> or \<open>ReadArchive\<close> among them. The RIB
  text of the calls, read by \<open>Render::readArchive\<close> (tokenizer, parser, a new translator with
  default parameters and the loop that catches exceptions) has exactly the effect of the calls,
  on any state and whatever the uninitialised fields of the tokenizer held.
\<close>

theorem scene_text_runs:
  assumes "scene_text calls = Some rib" "GrabFile f = Inr rib"
  shows "render_archive (Suc n) GrabFile (Tokenizer_new d i v) TransParams_new f s = Some (run_calls calls s)"
proof -
  obtain cs where "scene_cmds calls = Some cs" "rib = print_rib cs" using assms(1) by (auto simp: scene_text_def)
  then show ?thesis using assms(2) by (intro ints.written_calls_run [of _ cs]) (simp_all add: scene_cmds_written)
qed

lemma scene_text_runs_witness:
  defines "calls \<equiv> [RI_WorldBegin, RI_Color (Vec3 1 0 0), RI_Translate 1 2 (- 3), RI_Prim (Sphere 1 (- 1) 1 360), RI_WorldEnd]"
    and "s \<equiv> State_with no_services [] [] '''' '''' (Framework_new False False)"
  shows "\<exists>rib. scene_text calls = Some rib \<and>
    render_archive 1 (\<lambda>_. Inr rib) (Tokenizer_new DT_NONE 0 NaN) TransParams_new ''a.rib'' s = Some (run_calls calls s)"
proof -
  obtain rib where t: "scene_text calls = Some rib"
    by (simp add: calls_def scene_text_def is_int32_def int_ok_def cmd_if_def)
  from scene_text_runs [OF t, of "\<lambda>_. Inr rib" "''a.rib''" 0 DT_NONE 0 NaN s] t show ?thesis
    by (metis One_nat_def)
qed

end
