(* ===== verification/TranslatorProps.thy ===== *)
theory TranslatorProps
  imports SceneText
begin

text \<open>
  Properties of the command interpreter: commands that cannot be read are skipped, the search
  path option, light sources, and the executions where the code goes wrong.
\<close>

section \<open>Commands that cannot be read\<close>

definition unreadable :: "TransParams \<Rightarrow> command \<Rightarrow> bool" where
  "unreadable tp cmd =
     (case cmd of (nm, ps, _) \<Rightarrow> case command_of tp nm ps of Inl e \<Rightarrow> caught e | Inr _ \<Rightarrow> False)"


section \<open>Search paths\<close>

text \<open>The list a search path string stands for.\<close>

definition expand_paths :: "string list \<Rightarrow> string list \<Rightarrow> string list" where
  "expand_paths old ws = concat (map (\<lambda>w. if w = ''&'' then old else [w]) ws)"

lemma process_loop_expands:
  assumes "count_list ws ''&'' \<le> (if gp then 0 else 1)" "count_list ws ''@'' \<le> (if gs then 0 else 1)"
  shows "process_loop old gp gs ws cur = (Inr (), cur @ expand_paths old ws)"
  using assms
  by (induction ws arbitrary: gp gs cur) (auto simp: expand_paths_def split: if_splits)

lemma path_type_word: "path_type k = Some i \<Longrightarrow> word_of blank k \<and> length k < 1000 \<and> k \<noteq> ''string''"
  by (auto simp: path_type_def word_of_def blank_def split: if_splits)

lemma findSearchPathType_words:
  assumes "path_type k = Some i"
  shows "findSearchPathType k = Inr (Some i)" "findSearchPathType (''string '' @ k) = Inr (Some i)"
proof -
  note k = path_type_word [OF assms]
  have "strtok_all blank k = [k]" using k strtok_join [of blank "CHR '' ''" "[k]"] by (simp add: blank_def)
  then show "findSearchPathType k = Inr (Some i)"
    using k assms by (simp add: findSearchPathType_def strcpy_s_def)
  have "strtok_all blank (''string'' @ CHR '' '' # k) = [''string'', k]"
    using k strtok_join [of blank "CHR '' ''" "[''string'', k]"] by (simp add: blank_def word_of_def)
  then show "findSearchPathType (''string '' @ k) = Inr (Some i)"
    using k assms by (simp add: findSearchPathType_def strcpy_s_def)
qed

lemma option_not_earlier:
  "command_of tp ''Option'' p = res_bind (option_command p) Inr"
proof -
  have "command_of tp ''Option'' p = other_command tp ''Option'' p \<and> addCommand_prims ''Option'' p = Inr None"
    by (simp add: command_of_def addCommand_prims_def)
  moreover have "addCommand_transforms ''Option'' p = Inr None" by (simp add: addCommand_transforms_def) code_simp
  ultimately show ?thesis
    by (cases "option_command p") (simp_all add: other_command_def addCommand_options_def)
qed


lemma option_command_searchpath:
  assumes "path_type k = Some idx" "\<forall>w\<in>set ws. word_of (\<lambda>c. c = CHR '':'') w"
    and "length (join_with CHR '':'' ws) < 4096" "k' \<in> {k, ''string '' @ k}"
  shows "option_command (map (param_of_arg \<circ> RStr) [''searchpath'', k', join_with CHR '':'' ws]) = Inr (T_searchpath idx ws)"
proof -
  have "findSearchPathType k' = Inr (Some idx)" using assms(1,4) findSearchPathType_words by auto
  moreover have "splitSearchPath (join_with CHR '':'' ws) = Inr ws"
    using assms(2,3) strtok_join [of "\<lambda>c. c = CHR '':''" "CHR '':''" ws] by (simp add: splitSearchPath_def)
  ultimately show ?thesis by (simp add: option_command_def geN_def)
qed

text \<open>
  C24: the search path option. \<open>Option "searchpath"\<close> with one of the three kinds of paths (also
  in the form with the type name \<open>string\<close>) and a list of directories separated by colons
  replaces that list in the current options, where \<open>&\<close> stands for the old list; the other lists,
  options and the rest of the state are kept. Each of \<open>&\<close> and \<open>@\<close> may occur once.
\<close>

theorem searchpath_command:
  assumes "mOptionsStack s = opt # opts" "path_type k = Some idx" "k' \<in> {k, ''string '' @ k}"
    and "\<forall>w\<in>set ws. word_of (\<lambda>c. c = CHR '':'') w" "length (join_with CHR '':'' ws) < 4096"
    and "count_list ws ''&'' \<le> 1" "count_list ws ''@'' \<le> 1"
  shows "AddCommand tp ''Option'' (map (param_of_arg \<circ> RStr) [''searchpath'', k', join_with CHR '':'' ws]) s =
    (Inr CMD_GENERIC, s\<lparr>mOptionsStack :=
       opt\<lparr>mSearchPaths := (mSearchPaths opt)(idx := expand_paths (mSearchPaths opt idx) ws)\<rparr> # opts\<rparr>)"
proof -
  have "command_of tp ''Option'' (map (param_of_arg \<circ> RStr) [''searchpath'', k', join_with CHR '':'' ws])
      = Inr (T_searchpath idx ws)"
    using option_command_searchpath [OF assms(2,4,5,3)] by (simp add: option_not_earlier)
  then show ?thesis
    using assms(1,6,7) process_loop_expands [of ws False False "mSearchPaths opt idx" "[]"]
    by (simp add: AddCommand_def set_searchpath_def processSearchPath_def)
qed

lemma searchpath_command_witness:
  defines "s \<equiv> State_with no_services [] [] '''' '''' (Framework_new False False)"
  shows "\<exists>opt. mOptionsStack s = [opt] \<and>
    AddCommand TransParams_new ''Option'' (map (param_of_arg \<circ> RStr) [''searchpath'', ''string shader'', ''@:./Shaders:&'']) s =
    (Inr CMD_GENERIC, s\<lparr>mOptionsStack :=
       [opt\<lparr>mSearchPaths := (mSearchPaths opt)(SEARCHPATH_SHADER := [''@'', ''./Shaders''])\<rparr>]\<rparr>)"
proof -
  obtain opt where o: "mOptionsStack s = [opt]" "mSearchPaths opt SEARCHPATH_SHADER = []"
    by (simp add: s_def init_step Let_def)
  have "AddCommand TransParams_new ''Option''
      (map (param_of_arg \<circ> RStr) [''searchpath'', ''string '' @ ''shader'', join_with CHR '':'' [''@'', ''./Shaders'', ''&'']]) s =
    (Inr CMD_GENERIC, s\<lparr>mOptionsStack :=
       [opt\<lparr>mSearchPaths := (mSearchPaths opt)
          (SEARCHPATH_SHADER := expand_paths (mSearchPaths opt SEARCHPATH_SHADER) [''@'', ''./Shaders'', ''&''])\<rparr>]\<rparr>)"
    by (rule searchpath_command [OF o(1), of "''shader''"]) (simp_all add: path_type_def word_of_def)
  then show ?thesis using o by (simp add: expand_paths_def)
qed

section \<open>Light sources\<close>

lemma replace_light_Some:
  "replace_light l xs = Some (i, ys) \<Longrightarrow> i < length xs \<and> ys = xs[i := l] \<and> ls_mID (xs ! i) = ls_mID l"
  by (induction xs arbitrary: i ys) (auto split: if_splits)

lemma replace_light_None: "replace_light l xs = None \<Longrightarrow> ls_mID l \<notin> ls_mID ` set xs"
  by (induction xs) (auto split: if_splits)

definition lights_distinct :: "State \<Rightarrow> bool" where
  "lights_distinct s \<longleftrightarrow> distinct (map ls_mID (mpLightSources s))"

text \<open>Adding a light gives its index, keeps the identifiers distinct and the other lights.\<close>

lemma AddLightSource_spec:
  assumes "AddLightSource l s = (i, s')" "lights_distinct s"
  shows "i < length (mpLightSources s')" "mpLightSources s' ! i = l" "lights_distinct s'"
    "\<forall>j<length (mpLightSources s). j \<noteq> i \<longrightarrow> mpLightSources s' ! j = mpLightSources s ! j"
    "i \<le> length (mpLightSources s)" "mAttributesStack s' = mAttributesStack s"
proof -
  have "i < length (mpLightSources s') \<and> mpLightSources s' ! i = l \<and> lights_distinct s' \<and>
    (\<forall>j<length (mpLightSources s). j \<noteq> i \<longrightarrow> mpLightSources s' ! j = mpLightSources s ! j) \<and>
    i \<le> length (mpLightSources s) \<and> mAttributesStack s' = mAttributesStack s"
  proof (cases "replace_light l (mpLightSources s)")
    case None
    with assms replace_light_None [OF None] show ?thesis
      by (auto simp: AddLightSource_def lights_distinct_def nth_append)
  next
    case (Some r)
    then obtain ys where r: "replace_light l (mpLightSources s) = Some (i, ys)" "s' = s\<lparr>mpLightSources := ys\<rparr>"
      using assms(1) by (auto simp: AddLightSource_def split: prod.splits)
    have "map ls_mID ((mpLightSources s)[i := l]) = map ls_mID (mpLightSources s)"
      using replace_light_Some [OF r(1)] by (simp add: map_update list_update_same_conv)
    with replace_light_Some [OF r(1)] r(2) assms(2) show ?thesis
      by (auto simp: lights_distinct_def)
  qed
  then show "i < length (mpLightSources s')" "mpLightSources s' ! i = l" "lights_distinct s'"
    "\<forall>j<length (mpLightSources s). j \<noteq> i \<longrightarrow> mpLightSources s' ! j = mpLightSources s ! j"
    "i \<le> length (mpLightSources s)" "mAttributesStack s' = mAttributesStack s" by auto
qed

lemma Dpush_back_unique_mem: "\<exists>k<length (Dpush_back_unique xs x). Dpush_back_unique xs x ! k = x"
  by (auto simp: Dpush_back_unique_def nth_append in_set_conv_nth)

lemma activate_light_GetLight:
  assumes "activate_light l s = (Inr (), s')" "lights_distinct s" "length (mpLightSources s) < 65536"
  shows "lights_distinct s' \<and> (\<exists>k. GetLight k (hd (mAttributesStack s')) s' = Inr l)"
proof -
  obtain i t where a: "AddLightSource l s = (i, t)" by fastforce
  note t = AddLightSource_spec [OF a assms(2)]
  obtain atr ats where st: "mAttributesStack t = atr # ats"
    using assms(1) a by (cases "mAttributesStack t") (auto simp: activate_light_def on_attributes_def)
  then have s': "mpLightSources s' = mpLightSources t"
    "mActiveLights (hd (mAttributesStack s')) = Dpush_back_unique (mActiveLights atr) (of_nat i)"
    using assms(1) a by (auto simp: activate_light_def on_attributes_def)
  obtain k where "k < length (mActiveLights (hd (mAttributesStack s')))"
    "mActiveLights (hd (mAttributesStack s')) ! k = of_nat i"
    using Dpush_back_unique_mem [of "mActiveLights atr" "of_nat i"] s'(2) by auto
  moreover have "unat (of_nat i :: U16) = i"
    using t(5) assms(3) by (simp add: unat_of_nat take_bit_nat_eq_self_iff)
  ultimately have "GetLight k (hd (mAttributesStack s')) s' = Inr l"
    using t(1,2) s'(1) by (simp add: GetLight_def)
  moreover have "lights_distinct s'" using t(3) s'(1) by (simp add: lights_distinct_def)
  ultimately show ?thesis by blast
qed


lemma GetShader_lights: "mpLightSources (snd (GetShader n a s)) = mpLightSources s"
  by (auto simp: GetShader_def split: option.splits sum.splits if_splits)

lemma cmdLightSource_activates:
  assumes "cmdLightSource ps s = (Inr (), s')"
  obtains sh :: Shader and t inst i where "mpLightSources t = mpLightSources s" "Param_Int (ps ! 1) = Inr i"
    "activate_light \<lparr>ls_moShaderInst = inst, ls_mID = of_int i, ls_mIsAmbient = (\<not> mHasDirPosInstructions sh)\<rparr> t
       = (Inr (), s')"
proof -
  obtain p0 p1 pr nm where p: "ps = p0 # p1 # pr" "PChar p0 = Inr nm"
    using assms by (auto simp: cmdLightSource_def split: list.splits if_splits sum.splits)
  obtain sh t where g: "GetShader nm None s = (Inr (Some sh), t)"
    using assms by (auto simp: cmdLightSource_def p split: if_splits prod.splits sum.splits option.splits)
  obtain i where i: "Param_Int p1 = Inr i"
    using assms by (auto simp: cmdLightSource_def p g split: if_splits prod.splits sum.splits)
  obtain inst where "activate_light \<lparr>ls_moShaderInst = inst, ls_mID = of_int i, ls_mIsAmbient = (\<not> mHasDirPosInstructions sh)\<rparr> t
      = (Inr (), s')"
    using assms by (auto simp: cmdLightSource_def p g i split: if_splits prod.splits sum.splits)
  moreover have "mpLightSources t = mpLightSources s" using GetShader_lights [of nm None s] g by simp
  ultimately show thesis using that [of t i inst sh] i p by simp
qed

text \<open>
  C25: light sources. The identifiers of the lights are always distinct: \<open>LightSource\<close> with a
  new identifier adds a light, with a known one replaces it. After the command succeeded, a
  light with the identifier it was given is active in the current attributes (the index that
  they store is cut to 16 bits, so the scene may have at most 65536 lights).
\<close>

theorem light_source_added:
  assumes "exec (RI_LightSource ps) s = (Inr (), s')" "lights_distinct s" "length (mpLightSources s) < 65536"
  shows "lights_distinct s' \<and> (\<exists>k l i. Param_Int (ps ! 1) = Inr i \<and>
    GetLight k (hd (mAttributesStack s')) s' = Inr l \<and> ls_mID l = of_int i)"
proof -
  have "cmdLightSource ps s = (Inr (), s')"
    using assms(1) by (auto simp: State_LightSource_def verified_def split: sum.splits)
  then obtain sh :: Shader and t inst i where t: "mpLightSources t = mpLightSources s" "Param_Int (ps ! 1) = Inr i"
    "activate_light \<lparr>ls_moShaderInst = inst, ls_mID = of_int i, ls_mIsAmbient = (\<not> mHasDirPosInstructions sh)\<rparr> t
       = (Inr (), s')"
    by (rule cmdLightSource_activates)
  from activate_light_GetLight [OF t(3)] assms(2,3) t(1,2) show ?thesis
    by (force simp: lights_distinct_def)
qed

lemma light_source_added_witness:
  defines "sh \<equiv> \<lparr>shd_mName = ''ambientlight'', mHasDirPosInstructions = False\<rparr>"
  defines "s \<equiv> State_with no_services [sh] [] '''' '''' (Framework_new False False)"
    and "ps \<equiv> map param_of_arg [RStr ''ambientlight'', RInt 7]"
  shows "\<exists>s'. exec (RI_LightSource ps) s = (Inr (), s') \<and> lights_distinct s' \<and> (\<exists>k l i. Param_Int (ps ! 1) = Inr i \<and>
    GetLight k (hd (mAttributesStack s')) s' = Inr l \<and> ls_mID l = of_int i)"
proof -
  have f: "FindResource_shader ''ambientlight'' [sh] = Some sh" by (simp add: FindResource_shader_def sh_def)
  obtain s' where s': "exec (RI_LightSource ps) s = (Inr (), s')"
    by (simp add: s_def ps_def State_LightSource_def cmdLightSource_def init_step Let_def ri_step f
        GetShader_def IsIntVal_def shader_params_def activate_light_def AddLightSource_def)
  moreover have "lights_distinct s" "length (mpLightSources s) < 65536"
    by (simp_all add: lights_distinct_def s_def init_step Let_def)
  ultimately show ?thesis using light_source_added [OF s'] by blast
qed


section \<open>Where the interpreter goes wrong\<close>

text \<open>
  \<open>MotionBegin\<close> reads its first parameter both as the number of times and as the array of
  times, so a command with a number and an array is always refused.
\<close>

theorem motion_begin_refused:
  "AddCommand tp ''MotionBegin'' [param_of_arg (RInt n), p] s = (Inl badType, s)"
  by (simp add: AddCommand_def command_of_def motion_command_def exN_def PFlt_def NumVec_def)

text \<open>
  A basis name that is not known becomes the null pointer together with a null matrix, which
  is then copied from.
\<close>

theorem unknown_basis_reads_null:
  assumes "u \<notin> set tlBasis" "verifyOpType OPTYPE_ATRB s = Inr ()" "mAttributesStack s = a # as"
  shows "fst (AddCommand tp ''Basis'' (map param_of_arg [RStr u, RInt us, RStr ''bezier'', RInt 3]) s) = Inl null_deref"
proof -
  have "matchToken u tlBasis = None" "matchToken ''bezier'' tlBasis = Some ''bezier''"
    using assms(1) by (auto simp: matchToken_def find_None_iff tlBasis_def)
  then have "command_of tp ''Basis'' (map param_of_arg [RStr u, RInt us, RStr ''bezier'', RInt 3])
      = Inr (T_call (RI_Basis None None us (Some ''bezier'') None 3))"
    by (simp add: main_commands basis_command_def exN_def basis_arg_def)
  then show ?thesis
    using assms(2,3)
    by (auto simp: AddCommand_def state_call_def State_Basis_def verified_def verify_if_def verifyBasis_def
        basis_table_def on_attributes_def cmdBasis_def Let_def split: prod.splits)
qed

lemma unknown_basis_reads_null_witness:
  "fst (AddCommand TransParams_new ''Basis'' (map param_of_arg [RStr ''nurbs'', RInt 3, RStr ''bezier'', RInt 3])
     (State_with no_services [] [] '''' '''' (Framework_new False False))) = Inl null_deref"
proof -
  let ?s = "State_with no_services [] [] '''' '''' (Framework_new False False)"
  obtain a where "mAttributesStack ?s = [a]" by (simp add: init_step Let_def)
  moreover have "verifyOpType OPTYPE_ATRB ?s = Inr ()" by (simp add: verifyOpType_def op_allowed_def CopyStack_top_def)
  ultimately show ?thesis by (intro unknown_basis_reads_null) (simp_all add: tlBasis_def)
qed

text \<open>
  \<open>Bound\<close> with six separate numbers reads their float fields whatever their type: with integers
  those fields were never set.
\<close>

theorem integer_bound_uninitialised:
  "AddCommand tp ''Bound'' (map (param_of_arg \<circ> RInt) [a, b, c, d, e, f]) s =
    (Inl (Undefined_behaviour ''uninitialised value''), s)"
  by (simp add: AddCommand_def main_commands mkBound_def raw_float_def uninit_def Param_new_def)

text \<open>\<open>Option "searchpath"\<close> with two parameters reads the third.\<close>

theorem searchpath_reads_past_parameters:
  "AddCommand tp ''Option'' (map (param_of_arg \<circ> RStr) [''searchpath'', k]) s =
    (Inl (Undefined_behaviour ''third parameter of two''), s)"
  by (simp add: AddCommand_def option_not_earlier option_command_def geN_def)

text \<open>
  A second \<open>&\<close> or \<open>@\<close> is refused only after the list was emptied and partly rebuilt: the command
  fails and the search path is lost.
\<close>

theorem refused_searchpath_is_lost:
  assumes "mOptionsStack s = opt # opts"
  shows "\<exists>s'. AddCommand tp ''Option'' (map (param_of_arg \<circ> RStr) [''searchpath'', ''shader'', ''@:@'']) s =
      (Inl (AssThrow ''@ used more than once in searchpath''), s') \<and>
    mSearchPaths (hd (mOptionsStack s')) SEARCHPATH_SHADER = [''@'']"
proof -
  have "command_of tp ''Option'' (map (param_of_arg \<circ> RStr) [''searchpath'', ''shader'', join_with CHR '':'' [''@'', ''@'']])
      = Inr (T_searchpath SEARCHPATH_SHADER [''@'', ''@''])"
    unfolding option_not_earlier
    by (subst option_command_searchpath [of "''shader''"]) (simp_all add: path_type_def word_of_def)
  with assms show ?thesis by (simp add: AddCommand_def set_searchpath_def processSearchPath_def)
qed

lemma refused_searchpath_is_lost_witness:
  "\<exists>s'. AddCommand TransParams_new ''Option'' (map (param_of_arg \<circ> RStr) [''searchpath'', ''shader'', ''@:@''])
      (State_with no_services [] [] '''' '''' (Framework_new False False)) =
      (Inl (AssThrow ''@ used more than once in searchpath''), s') \<and>
    mSearchPaths (hd (mOptionsStack s')) SEARCHPATH_SHADER = [''@'']"
proof -
  obtain opt where "mOptionsStack (State_with no_services [] [] '''' '''' (Framework_new False False)) = [opt]"
    by (simp add: init_step Let_def)
  then show ?thesis by (rule refused_searchpath_is_lost)
qed

text \<open>
  An archive that reads itself: no amount of nesting is enough, so the recursion of
  \<open>readArchive\<close> never returns.
\<close>

theorem self_reading_archive_never_returns:
  assumes "GrabFile path = Inr (print_rib [(''ReadArchive'', [RStr f])])" "arg_ok (RStr f)"
    and "FindResFile f SEARCHPATH_ARCHIVE s = Inr path"
  shows "render_archive fuel GrabFile (Tokenizer_new d i v) tp path s = None"
proof (induction fuel)
  case (Suc fuel)
  have "name_ok ''ReadArchive''" by code_simp
  then have "readArchive (Tokenizer_new d i v) (print_rib [(''ReadArchive'', [RStr f])])
      = ([(''ReadArchive'', [param_of_arg (RStr f)], 1)], Inr ())"
    using readArchive_rib [of "[(''ReadArchive'', [RStr f])]" d i v] assms(2) by (simp add: cmd_ok_def)
  moreover have "AddCommand tp ''ReadArchive'' [param_of_arg (RStr f)] s = (Inr (CMD_READARCHIVE path), s)"
    using assms(3) by (simp add: AddCommand_def command_of_def one_string_def exN_def)
  ultimately show ?case using Suc assms(1) by simp
qed simp

lemma self_reading_archive_never_returns_witness:
  defines "s \<equiv> State_with (no_services\<lparr>sv_FileExists := (\<lambda>_. True)\<rparr>) [] [] '''' '''' (Framework_new False False)"
  shows "render_archive 1000 (\<lambda>_. Inr (print_rib [(''ReadArchive'', [RStr ''a.rib''])])) (Tokenizer_new DT_NONE 0 NaN)
    TransParams_new ''./a.rib'' s = None"
proof (rule self_reading_archive_never_returns)
  obtain opt where o: "mOptionsStack s = [opt]" "mSearchPaths opt SEARCHPATH_ARCHIVE = []"
    by (simp add: s_def init_step Let_def)
  have "st_mBaseDir s = ''.''" "sv_FileExists (st_services s) = (\<lambda>_. True)"
    by (simp_all add: s_def init_step or_dot_def Let_def)
  with o show "FindResFile ''a.rib'' SEARCHPATH_ARCHIVE s = Inr ''./a.rib''"
    by (simp add: FindResFile_def CopyStack_top_def SearchPathScanner_new_def find_res_loop.simps GetNext_def
        getNextNoSPathList_def strRemoveTrailingDirDiv_def SSPrintFS_def)
qed simp_all

text \<open>
  A \<open>Surface\<close> that fails half way: the shader of the current attributes is already the new one,
  but the revision is not bumped, so primitives may go on with the copy of the old attributes.
\<close>

theorem failed_surface_keeps_revision:
  assumes "verifyOpType OPTYPE_ATRB s = Inr ()" "mAttributesStack s = a # as" "mTransformOpenStack s = m # ms"
    and "FindResource_shader n (mResManager s) = Some sh" "sv_mForcedSurfaceShader (st_services s) = ''''"
  shows "exec (RI_Surface (map (param_of_arg \<circ> RStr) [n, p])) s =
    (Inl (RI_Exception ''Expecting parameter !''),
     s\<lparr>mAttributesStack := a\<lparr>moSurfaceSHI := Some (ShaderInst_new sh)\<rparr> # as\<rparr>)"
  using assms
  by (simp add: Surface_def verified_def cmdSurface_def GetShader_def set_instance_def shader_params_def
      on_attributes_def)

lemma failed_surface_keeps_revision_witness:
  defines "sh \<equiv> \<lparr>shd_mName = ''matte'', mHasDirPosInstructions = False\<rparr>"
  defines "s \<equiv> State_with no_services [sh] [] '''' '''' (Framework_new False False)"
  shows "\<exists>a. mAttributesStack s = [a] \<and> exec (RI_Surface (map (param_of_arg \<circ> RStr) [''matte'', ''Kd''])) s =
    (Inl (RI_Exception ''Expecting parameter !''),
     s\<lparr>mAttributesStack := [a\<lparr>moSurfaceSHI := Some (ShaderInst_new sh)\<rparr>]\<rparr>)"
proof -
  obtain a m where st: "mAttributesStack s = [a]" "mTransformOpenStack s = [m]" by (simp add: s_def init_step Let_def)
  have "verifyOpType OPTYPE_ATRB s = Inr ()" by (simp add: s_def verifyOpType_def op_allowed_def CopyStack_top_def)
  moreover have "FindResource_shader ''matte'' (mResManager s) = Some sh" "sv_mForcedSurfaceShader (st_services s) = ''''"
    by (simp_all add: s_def init_step Let_def FindResource_shader_def sh_def no_services_def)
  ultimately show ?thesis using failed_surface_keeps_revision [OF _ st] st by blast
qed

end
