(* ===== verification/Spec2Isabelle.thy ===== *)
theory Spec2Isabelle
  imports MemFile Containers PacketManager Matrix RibParser NetFiles Raster RasterProps SplitLoop SplitProps
    Primitives Tiling PrimProps RandMT HiderFilter HiderProps Dice DiceProps Frame
    Noise NoiseProps RRAsm RRAsmProps SVM SVMProps SVMLights
    DImage ImageProps Textures Displays
    Refs RiBase RiState RiShading RiCalls RiScene RiProps Translator SceneText TranslatorProps
begin

text \<open>
  A verification library for RibTools, a RenderMan-compliant renderer.

  \<^bold>\<open>The program.\<close> A scene is a RIB text. \<open>Render::readArchive\<close> (\<open>RibRenderLib\<close>) feeds its
  characters to \<open>RI::Parser\<close>, which owns a \<open>Tokenizer\<close> and collects commands with their
  parameters (\<open>RI_System\<close>). \<open>Translator::AddCommand\<close> checks the parameters of a command and
  calls the matching function of \<open>RI::State\<close>, which checks the mode, keeps the stacks of
  options, attributes and transformations, loads shaders through the search paths, and hands
  primitives to \<open>RI::Framework\<close>, where they are stored with copies of their attributes and
  transformation until \<open>WorldEnd\<close> renders them: it splits them into pieces small enough, dices the
  pieces into grids of micropolygons, runs the shaders on the grids in a virtual machine, and
  samples the grids into pixels. An exception of one command is caught in the
  loop of \<open>readArchive\<close>, and the next command runs. Below this stand \<open>DMath\<close> (vectors,
  matrices, splines, SIMD registers, random numbers) and \<open>DSystem\<close> (memory streams,
  containers, reference counting, network packets).

  \<^bold>\<open>Theories and sources.\<close>

  \<^item> \<open>Prelude\<close>: machine integers, exceptions as values (\<open>exn\<close>, \<open>res\<close>), a state-and-exception
    monad, bit sequences and little-endian representations. An access outside an object or
    through a dangling pointer is the value \<^const>\<open>Undefined_behaviour\<close>, never a convenient default.
  \<^item> \<open>MemFile\<close>: \<open>DUtils_MemFile.h/.cpp\<close>. Positions are 64-bit words because the bounds checks of
    the readers wrap around. Bit fields, length-prefixed strings and text lines are read back as
    they were written; the locale \<open>line_source\<close> proves the last once for \<open>MemReader\<close> and
    \<open>MemFile\<close>.
  \<^item> \<open>Containers\<close>: \<open>DContainers.h\<close>. The fixed array refines a list of bounded length (locale
    \<open>bounded_seq\<close>), the bit vector a set of numbers.
  \<^item> \<open>PacketManager\<close>: \<open>DNetwork_PacketManager.h/.cpp\<close>. Queues and the framing thread on a
    non-blocking socket; an execution is a sequence of operations and thread iterations with any
    answers of the socket. The wire always carries a prefix of the frames in order, and a
    receiver rebuilds exactly the packets sent.
  \<^item> \<open>Scalars\<close>, \<open>Vectors\<close>, \<open>Matrix\<close>: \<open>DMathBase.h\<close>, \<open>DTypes.h\<close>, \<open>DRandom.h\<close>, \<open>DVector.h\<close>, \<open>DMT_VecN.h\<close>,
    \<open>DMatrix44.h/.cpp\<close>, \<open>DMT_Spline.h\<close>. Floats are bit patterns where no rounding happens
    (comparisons, masks, signs) and exact reals elsewhere. The locale \<open>inner_form\<close> serves the
    three vector sizes. Inverses, rotations, views, projections and spline bases meet their
    mathematical specifications.
  \<^item> \<open>CLib\<close>: the C library functions the text front ends call.
  \<^item> \<open>RibParser\<close>: \<open>Tokenizer.h/.cpp\<close>, \<open>RI_Param.h/.cpp\<close>, \<open>RI_Parser.h/.cpp\<close> and the character loop
    of \<open>readArchive\<close>. A file written from commands is parsed back to them; the locale
    \<open>array_items\<close> treats integer, float and string arrays alike.
  \<^item> \<open>Refs\<close>: the reference-counted handles and owning vectors of \<open>RI_Base.h\<close> and \<open>DSmartPtr.h\<close> over
    an explicit heap. Both handle classes meet the contract \<open>counted_handles\<close>, inside which no
    sequence of handle operations touches a deleted object.
  \<^item> \<open>RiBase\<close>: modes, errors, revisions, bounds, tokens (\<open>RI_Base.h/.cpp\<close>, \<open>RI_Tokens.cpp\<close>) and the
    symbols with their declarations (\<open>RI_Symbol.h/.cpp\<close>).
  \<^item> \<open>RiState\<close>: \<open>RI_Transform.h\<close>, \<open>RI_Options\<close>, \<open>RI_Attributes\<close>, \<open>RI_State\<close>, \<open>RI_Res_SearchPathScanner\<close>
    and the bookkeeping of \<open>RI_Framework\<close>: one record per class, one definition per command.
    Commands that share objects (displays, copied attributes) do so in an explicit heap or by
    index, as in the code.
  \<^item> \<open>RiShading\<close>: \<open>State::GetShader\<close>, \<open>RI_Attributes_Shaders.cpp\<close> and the shader commands.
  \<^item> \<open>RiCalls\<close>: the calls of the state as data (\<open>ri_call\<close>), \<open>exec\<close> and the loop \<open>run_calls\<close>
    that catches exceptions.
  \<^item> \<open>RiScene\<close>, \<open>RiProps\<close>: properly nested scenes give back what they saved; every primitive is
    stored with the attributes and the transformation current when it is inserted; misplaced
    commands are refused; bases, screen windows, worlds and search paths.
  \<^item> \<open>Translator\<close>: \<open>RRL_Translator*.cpp\<close> and \<open>Render\<close>. \<open>command_of\<close> reads the parameters of one
    command into a call.
  \<^item> \<open>SceneText\<close>: a writer of calls as RIB text and the composition of parser, translator and
    state: reading the text runs exactly the calls written (locale \<open>number_text\<close> for the texts
    of numbers, with the decimal integers as its instance).
  \<^item> \<open>TranslatorProps\<close>: unreadable commands are skipped, the search path option, light sources, and
    the executions where the interpreter goes wrong.
  \<^item> \<open>NetFiles\<close>: \<open>DNetwork_FileManager*\<close>: the messages by which a render server asks its client for
    files, over two packet managers, and the requests and answers as bytes.
  \<^item> \<open>RandMT\<close>: the Mersenne twister of \<open>RI_System\<close>, equal to its recurrence.
  \<^item> \<open>Primitives\<close>, \<open>PrimProps\<close>: \<open>RI_Primitive_*\<close> and \<open>RI_Primitive_Base\<close>: evaluation of every surface,
    simplification of polygons, meshes, patches and NURBS, bounds and the decision to split or
    dice. The tangents are the derivatives; a polygon is tiled by its patches.
  \<^item> \<open>Raster\<close>, \<open>RasterProps\<close>, \<open>SplitLoop\<close>, \<open>SplitProps\<close>: projection, buckets and the loop of
    \<open>worldEnd_splitAndAddToBuckets\<close>: every point of a patch that projects into the image is in a
    bucket that holds the patch or a piece of it.
  \<^item> \<open>HiderFilter\<close>, \<open>HiderProps\<close>: \<open>RI_Hider*\<close>: sample positions, the busting of micropolygons into
    samples, the depth sort, compositing and filtering of pixels.
  \<^item> \<open>Dice\<close>, \<open>DiceProps\<close>: \<open>SimplePrimitiveBase::Dice\<close> and the work grids of \<open>RI_MicroPolygonGrid\<close>.
  \<^item> \<open>Frame\<close>: \<open>Framework::WorldEnd\<close>: simplification, splitting and the bucket tasks in any order, and
    the image they leave. What the shaders do to a grid is an argument there.
  \<^item> \<open>Noise\<close>, \<open>NoiseProps\<close>: \<open>RI_Noise.h/.cpp\<close>. The permutation is one for all results of \<open>rand\<close>; the
    noise is zero on the lattice and bounded.
  \<^item> \<open>RRAsm\<close>, \<open>RRAsmProps\<close>: \<open>RI_RRASM_Parser\<close>, \<open>RI_RRASM_OpCodeDefs\<close> and the constructor of
    \<open>SVM::Shader\<close>: lines of assembly to code words, labels, constructs. What is accepted is a
    sequence of whole instructions whose addresses are starts of instructions.
  \<^item> \<open>SVM\<close>, \<open>SVMProps\<close>: \<open>RI_SVM_*\<close>: binding, contexts, all instructions, the lights, and the run of a
    shader, ending in \<open>Displace\<close> and \<open>Shade\<close> of a grid. The predicate \<open>inst_spec\<close> says what any
    instruction may do to the contexts and the program counter; it holds of every entry of the
    function table, and the properties of whole runs follow from it.

  \<^item> \<open>DImage\<close>, \<open>ImageProps\<close>: \<open>DImage\<close>: images, the conversion between sample types, and the BMP, PPM, TIFF and
    JPEG files up to what the vendored libraries do. The locale \<open>sample_store\<close> is the contract of the
    memory for one type of sample; inside it, writing a pixel is shown to store it and to touch no other.
  \<^item> \<open>Textures\<close>: \<open>RI_Texture\<close> and \<open>RI_Attributes_Textures\<close>: construction, sampling and lookup. The filter
    is bilinear and stays inside the image.
  \<^item> \<open>Displays\<close>: \<open>worldEnd_setupDisplays\<close>, the conversion of the final buffer in \<open>Framework::WorldEnd\<close>, and
    the display drivers: after a frame every display holds the composited samples.

  \<^bold>\<open>Loops and fuel.\<close> All functions are total. The loops of the parser, of the assembler and of the
  packet thread recurse on their input. \<open>render_archive\<close> takes the nesting depth of archives as
  fuel, because an archive may read itself; \<open>None\<close> is a depth that was not enough, and
  \<open>self_reading_archive_never_returns\<close> shows that no depth is enough there. The blocking waits
  of the packet manager take the list of what the other threads do meanwhile; \<open>None\<close> means
  that the wait is not over when the list ends. A shader may jump back for ever, and its lights
  may have lights: \<open>Run\<close> takes the depth of runs inside runs and the number of instructions of each,
  and what is proved of runs holds for all values of both.

  \<^bold>\<open>Environment.\<close> Parameters, not models: the socket (\<open>select\<close>, \<open>send\<close>, \<open>recv\<close>), the file system, the
  file manager of \<open>Render\<close>, the results of \<open>rand\<close>, the reading of a shader as the state sees it (the
  record \<open>Services\<close>), the shading language compiler (in \<open>ShaderFiles\<close>), the sampler of a texture as the machine calls it
  and the content of fresh memory (in \<open>SvmEnv\<close>), what libtiff decodes (\<open>tiff_file\<close>).

  \<^bold>\<open>Not modelled.\<close> Rounding of floats: where numbers are rounded the model is over the reals, and a
  division by zero is a value of its own. The shading language compiler. The calls of
  OpenGL, and what libtiff and libjpeg do with their input. Connecting to
  servers and the distribution of buckets over them. Threads, locks and logging of \<open>DSystem\<close>. The
  analytic bounds of quadrics, which no code calls. Command lines and windows of the programs.
  Vendored code under \<open>externals\<close> and \<open>external\<close>.

  \<^bold>\<open>Plan.\<close> What could follow: the distribution of buckets (\<open>RRL_Net_RenderBuckets*\<close>), the trees of the shading language compiler.
\<close>

end
